(* ===== verification/Prelude.thy ===== *)
theory Prelude
  imports Main
begin

text \<open>
  Shared vocabulary of the development: the result type of contract calls, its sequencing
  operators with their simplification rules, keyed stores and sums over them, and the generic
  transition-system interface whose client lemmas every contract's invariant proof uses.
\<close>

section \<open>Results of contract calls\<close>

text \<open>
  A Soroban entry point ends in one of three ways: it returns a value, it returns
  \<open>Err(e)\<close> for a contract error \<open>e\<close>, or it panics (a failed \<open>require_auth\<close>, an
  \<open>unwrap\<close> of a missing value, an arithmetic overflow under \<open>overflow-checks = true\<close>, a
  trapping sub-call). In the last two the host discards every storage write of the call, so a
  failed result carries no state.
\<close>

datatype 'e fault = Err 'e | Trap

type_synonym ('a, 'e) res = "'e fault + 'a"

definition bindR :: "('a, 'e) res \<Rightarrow> ('a \<Rightarrow> ('b, 'e) res) \<Rightarrow> ('b, 'e) res" where
  "bindR m g = (case m of Inl f \<Rightarrow> Inl f | Inr a \<Rightarrow> g a)"

definition ensure :: "bool \<Rightarrow> 'e fault \<Rightarrow> (unit, 'e) res" where
  "ensure b f = (if b then Inr () else Inl f)"

definition ok_or :: "'a option \<Rightarrow> 'e fault \<Rightarrow> ('a, 'e) res" where
  "ok_or x f = (case x of None \<Rightarrow> Inl f | Some a \<Rightarrow> Inr a)"

text \<open>The host's view of a call: a failed call leaves the state it started from.\<close>

definition commit :: "'s \<Rightarrow> ('s, 'e) res \<Rightarrow> 's" where
  "commit s r = (case r of Inl _ \<Rightarrow> s | Inr s' \<Rightarrow> s')"

named_theorems res_simps \<open>equations that turn a successful call into its guards and updates\<close>

lemma bindR_Inl [simp]: "bindR (Inl f) g = Inl f"
  by (simp add: bindR_def)

lemma bindR_Inr [simp]: "bindR (Inr a) g = g a"
  by (simp add: bindR_def)

lemma ensure_True [simp]: "ensure True f = Inr ()"
  by (simp add: ensure_def)

lemma ensure_False [simp]: "ensure False f = Inl f"
  by (simp add: ensure_def)

lemma ok_or_None [simp]: "ok_or None f = Inl f"
  by (simp add: ok_or_def)

lemma ok_or_Some [simp]: "ok_or (Some a) f = Inr a"
  by (simp add: ok_or_def)

lemma bindR_eq_Inr [res_simps]: "bindR m g = Inr b \<longleftrightarrow> (\<exists>a. m = Inr a \<and> g a = Inr b)"
  by (cases m) auto

lemma ensure_eq_Inr [res_simps]: "ensure b f = Inr u \<longleftrightarrow> b"
  by (simp add: ensure_def)

lemma ok_or_eq_Inr [res_simps]: "ok_or x f = Inr a \<longleftrightarrow> x = Some a"
  by (simp add: ok_or_def split: option.splits)

lemma bindR_cong [fundef_cong]:
  "m = m' \<Longrightarrow> (\<And>a. m' = Inr a \<Longrightarrow> g a = g' a) \<Longrightarrow> bindR m g = bindR m' g'"
  by (cases m') auto

text \<open>Evaluation in the order of the code: the continuation is not touched before the call is done.\<close>

lemma bindR_weak_cong: "m = m' \<Longrightarrow> bindR m g = bindR m' g"
  by simp

lemma bindR_assoc: "bindR (bindR m g) h = bindR m (\<lambda>a. bindR (g a) h)"
  by (cases m) auto

lemma not_Inr_Inl: "(\<And>x. r \<noteq> Inr x) \<Longrightarrow> \<exists>f. r = Inl f"
  by (cases r) auto

lemma commit_Inl [simp]: "commit s (Inl f) = s"
  by (simp add: commit_def)

lemma commit_Inr [simp]: "commit s (Inr s') = s'"
  by (simp add: commit_def)

lemma commit_cases:
  assumes "P s" and "\<And>s'. r = Inr s' \<Longrightarrow> P s'"
  shows "P (commit s r)"
  using assms by (cases r) auto

text \<open>A loop over a list that threads a result, stopping at the first failure.\<close>

fun foldR :: "('x \<Rightarrow> 's \<Rightarrow> ('s, 'e) res) \<Rightarrow> 'x list \<Rightarrow> 's \<Rightarrow> ('s, 'e) res" where
  "foldR f [] s = Inr s"
| "foldR f (x # xs) s = bindR (f x s) (foldR f xs)"

lemma foldR_invariant:
  assumes "foldR f xs s = Inr s'" and "P s"
    and "\<And>x s s'. x \<in> set xs \<Longrightarrow> P s \<Longrightarrow> f x s = Inr s' \<Longrightarrow> P s'"
  shows "P s'"
  using assms by (induction xs arbitrary: s) (auto simp: res_simps)

section \<open>Keyed stores\<close>

text \<open>
  Every contract keeps its records under integer ids. What the handlers rely on is one law:
  writing a record under its own id changes the lookup of that id only.
\<close>

definition map_total :: "('r \<Rightarrow> int) \<Rightarrow> ('k \<rightharpoonup> 'r) \<Rightarrow> int" where
  "map_total f m = (\<Sum>k\<in>dom m. f (the (m k)))"

lemma map_total_upd:
  assumes "finite (dom m)"
  shows "map_total f (m(k \<mapsto> r)) =
    map_total f m - (case m k of None \<Rightarrow> 0 | Some r0 \<Rightarrow> f r0) + f r"
proof -
  have same: "(\<Sum>i\<in>dom m - {k}. f (the ((m(k \<mapsto> r)) i))) = (\<Sum>i\<in>dom m - {k}. f (the (m i)))"
    by (rule sum.cong) auto
  have ins: "map_total f (m(k \<mapsto> r)) = f r + (\<Sum>i\<in>dom m - {k}. f (the (m i)))"
    using sum.remove [of "dom (m(k \<mapsto> r))" k "\<lambda>i. f (the ((m(k \<mapsto> r)) i))"] assms same
    by (simp add: map_total_def)
  show ?thesis
  proof (cases "m k")
    case None
    then have "dom m - {k} = dom m" by auto
    with ins None show ?thesis by (simp add: map_total_def)
  next
    case (Some r0)
    then have "map_total f m = f r0 + (\<Sum>i\<in>dom m - {k}. f (the (m i)))"
      using assms by (simp add: map_total_def sum.remove [of "dom m" k] domI)
    with ins Some show ?thesis by simp
  qed
qed

lemma map_total_empty [simp]: "map_total f Map.empty = 0"
  by (simp add: map_total_def)

lemma map_total_linear: "map_total (\<lambda>r. f r + c * g r) m = map_total f m + c * map_total g m"
  by (simp add: map_total_def sum.distrib sum_distrib_left)

lemma map_total_none: "(\<And>k. m k = None) \<Longrightarrow> map_total f m = 0"
  by (simp add: map_total_def dom_def)

lemma map_total_nonneg:
  assumes "\<And>k r. m k = Some r \<Longrightarrow> 0 \<le> f r"
  shows "0 \<le> map_total f m"
  unfolding map_total_def by (rule sum_nonneg) (use assms in auto)

lemma map_total_ge_member:
  assumes "finite (dom m)" and "m k = Some r" and "\<And>k r. m k = Some r \<Longrightarrow> 0 \<le> f r"
  shows "f r \<le> map_total f m"
proof -
  have "f (the (m k)) \<le> (\<Sum>i\<in>dom m. f (the (m i)))"
    by (rule member_le_sum) (use assms in auto)
  with assms(2) show ?thesis by (simp add: map_total_def)
qed

lemma map_total_zero:
  assumes "\<And>k r. m k = Some r \<Longrightarrow> f r = 0"
  shows "map_total f m = 0"
  unfolding map_total_def by (rule sum.neutral) (use assms in auto)

locale keyed_store =
  fixes lookup :: "'s \<Rightarrow> nat \<rightharpoonup> 'r"
    and put :: "'r \<Rightarrow> 's \<Rightarrow> 's"
    and key :: "'r \<Rightarrow> nat"
  assumes lookup_put: "lookup (put r s) = (lookup s)(key r \<mapsto> r)"
begin

lemma lookup_put_same [simp]: "lookup (put r s) (key r) = Some r"
  by (simp add: lookup_put)

lemma lookup_put_other: "k \<noteq> key r \<Longrightarrow> lookup (put r s) k = lookup s k"
  by (simp add: lookup_put)

lemma finite_put: "finite (dom (lookup s)) \<Longrightarrow> finite (dom (lookup (put r s)))"
  by (simp add: lookup_put)

lemma all_put:
  assumes "\<forall>k r. lookup s k = Some r \<longrightarrow> P k r" and "P (key r) r"
  shows "\<forall>k r'. lookup (put r s) k = Some r' \<longrightarrow> P k r'"
  using assms by (simp add: lookup_put)

text \<open>Replacing a stored record moves a total over the store by the difference of the two.\<close>

lemma total_put:
  assumes "finite (dom (lookup s))" and "lookup s (key r) = Some r0"
  shows "map_total f (lookup (put r s)) = map_total f (lookup s) - f r0 + f r"
  using assms by (simp add: lookup_put map_total_upd)

lemma total_put_new:
  assumes "finite (dom (lookup s))" and "lookup s (key r) = None"
  shows "map_total f (lookup (put r s)) = map_total f (lookup s) + f r"
  using assms by (simp add: lookup_put map_total_upd)

end

text \<open>
  A store whose ids are handed out by a counter. \<open>alloc\<close> returns the id and the store with the
  counter moved on (or fails, when the counter would overflow). As long as every stored id is
  below the counter, an allocated id is fresh.
\<close>

locale id_store = keyed_store lookup put key
  for lookup :: "'s \<Rightarrow> nat \<rightharpoonup> 'r" and put and key +
  fixes counter :: "'s \<Rightarrow> nat"
    and alloc :: "'s \<Rightarrow> (nat \<times> 's, 'e) res"
  assumes alloc_id: "alloc s = Inr (k, s') \<Longrightarrow> k = counter s"
    and alloc_counter: "alloc s = Inr (k, s') \<Longrightarrow> counter s' = Suc (counter s)"
    and alloc_lookup: "alloc s = Inr (k, s') \<Longrightarrow> lookup s' = lookup s"
    and counter_put: "counter (put r s) = counter s"
begin

definition ids_below :: "'s \<Rightarrow> bool" where
  "ids_below s \<longleftrightarrow> finite (dom (lookup s)) \<and>
     (\<forall>k r. lookup s k = Some r \<longrightarrow> key r = k \<and> k < counter s)"

lemma ids_below_finite: "ids_below s \<Longrightarrow> finite (dom (lookup s))"
  by (simp add: ids_below_def)

lemma ids_below_key: "ids_below s \<Longrightarrow> lookup s k = Some r \<Longrightarrow> key r = k"
  by (simp add: ids_below_def)

lemma alloc_fresh: "ids_below s \<Longrightarrow> alloc s = Inr (k, s') \<Longrightarrow> lookup s k = None"
  by (metis alloc_id ids_below_def less_irrefl not_None_eq)

lemma ids_below_alloc_put:
  assumes "ids_below s" and "alloc s = Inr (k, s')" and "key r = k"
  shows "ids_below (put r s')"
  using assms alloc_id [OF assms(2)] alloc_counter [OF assms(2)] alloc_lookup [OF assms(2)]
  by (auto simp: ids_below_def lookup_put counter_put less_Suc_eq)

lemma ids_below_put:
  assumes "ids_below s" and "lookup s (key r) \<noteq> None"
  shows "ids_below (put r s)"
  using assms by (auto simp: ids_below_def lookup_put counter_put)

lemma total_alloc_put:
  assumes "ids_below s" and "alloc s = Inr (k, s')" and "key r = k"
  shows "map_total f (lookup (put r s')) = map_total f (lookup s) + f r"
  using assms alloc_fresh [OF assms(1,2)] alloc_lookup [OF assms(2)]
  by (simp add: total_put_new ids_below_finite)

end

text \<open>
  An id store with an idempotency index: \<open>save\<close> writes a new record and enters its client key
  (creator and nonce) in the index; \<open>put\<close> rewrites a record and leaves the index alone. The
  client lemmas keep index and store in one-to-one correspondence.
\<close>

locale nonce_store = id_store lookup put key counter alloc
  for lookup :: "'s \<Rightarrow> nat \<rightharpoonup> 'r" and put and key and counter
    and alloc :: "'s \<Rightarrow> (nat \<times> 's, 'e) res" +
  fixes find :: "'s \<Rightarrow> 'n \<rightharpoonup> nat"
    and save :: "'r \<Rightarrow> 's \<Rightarrow> 's"
    and nkey :: "'r \<Rightarrow> 'n"
  assumes lookup_save: "lookup (save r s) = lookup (put r s)"
    and counter_save: "counter (save r s) = counter s"
    and find_save: "find (save r s) = (find s)(nkey r \<mapsto> key r)"
    and find_put: "find (put r s) = find s"
    and find_alloc: "alloc s = Inr (k, s') \<Longrightarrow> find s' = find s"
begin

definition index_ok :: "'s \<Rightarrow> bool" where
  "index_ok s \<longleftrightarrow> ids_below s \<and>
     (\<forall>n k. find s n = Some k \<longleftrightarrow> (\<exists>r. lookup s k = Some r \<and> nkey r = n))"

lemma index_ok_ids: "index_ok s \<Longrightarrow> ids_below s"
  by (simp add: index_ok_def)

lemma index_ok_find: "index_ok s \<Longrightarrow> lookup s k = Some r \<Longrightarrow> find s (nkey r) = Some k"
  by (auto simp: index_ok_def)

lemma index_ok_save:
  assumes ok: "index_ok s" and al: "alloc s = Inr (k, s')" and k: "key r = k"
    and new: "find s (nkey r) = None"
  shows "index_ok (save r s')"
proof -
  have below: "ids_below (save r s')"
    using ids_below_alloc_put [OF index_ok_ids [OF ok] al k]
    by (simp add: ids_below_def lookup_save counter_save counter_put)
  have fresh: "lookup s k = None"
    by (rule alloc_fresh [OF index_ok_ids [OF ok] al])
  have nodup: "lookup s j = Some r' \<Longrightarrow> nkey r' \<noteq> nkey r" for j r'
    using index_ok_find [OF ok] new by force
  have "find (save r s') n = Some j \<longleftrightarrow> (\<exists>r'. lookup (save r s') j = Some r' \<and> nkey r' = n)" for n j
    using ok nodup fresh k
    by (auto simp: find_save lookup_save lookup_put find_alloc [OF al] alloc_lookup [OF al]
        index_ok_def split: if_splits)
  with below show ?thesis by (simp add: index_ok_def)
qed

lemma index_ok_put:
  assumes ok: "index_ok s" and old: "lookup s (key r) = Some r0" and same: "nkey r = nkey r0"
  shows "index_ok (put r s)"
proof -
  have below: "ids_below (put r s)"
    by (rule ids_below_put [OF index_ok_ids [OF ok]]) (simp add: old)
  have "find (put r s) n = Some j \<longleftrightarrow> (\<exists>r'. lookup (put r s) j = Some r' \<and> nkey r' = n)" for n j
    using ok old same by (auto simp: find_put lookup_put index_ok_def split: if_splits)
  with below show ?thesis by (simp add: index_ok_def)
qed

end

section \<open>Transition systems\<close>

text \<open>
  The states a contract can reach from its deployment by a step relation, and the interface of
  an inductive invariant: it holds at deployment and every step keeps it. The client lemmas are
  the two forms in which the properties use it.
\<close>

inductive reachable :: "('s \<Rightarrow> bool) \<Rightarrow> ('s \<Rightarrow> 's \<Rightarrow> bool) \<Rightarrow> 's \<Rightarrow> bool"
  for init step where
  reach_init: "init s \<Longrightarrow> reachable init step s"
| reach_step: "reachable init step s \<Longrightarrow> step s t \<Longrightarrow> reachable init step t"

lemma reachable_rtranclp:
  "reachable init step s \<Longrightarrow> step\<^sup>*\<^sup>* s t \<Longrightarrow> reachable init step t"
  by (rotate_tac, induction rule: rtranclp_induct) (auto intro: reach_step)

text \<open>A fact that no initial state has was brought about by one particular step.\<close>

lemma reachable_origin:
  assumes "reachable init step s" and "P s" and "\<And>s. init s \<Longrightarrow> \<not> P s"
    and "\<And>s t. reachable init step s \<Longrightarrow> step s t \<Longrightarrow> P t \<Longrightarrow> P s \<or> Q s t"
  shows "\<exists>s0 s1. reachable init step s0 \<and> Q s0 s1 \<and> step\<^sup>*\<^sup>* s1 s"
  using assms(1,2)
proof (induction rule: reachable.induct)
  case (reach_step s t)
  from assms(4) [OF reach_step.hyps(1,2) reach_step.prems] show ?case
    using reach_step.IH reach_step.hyps by (meson rtranclp.rtrancl_into_rtrancl rtranclp.rtrancl_refl)
qed (use assms(3) in blast)

locale machine_invariant =
  fixes init :: "'s \<Rightarrow> bool"
    and step :: "'s \<Rightarrow> 's \<Rightarrow> bool"
    and inv :: "'s \<Rightarrow> bool"
  assumes inv_init: "init s \<Longrightarrow> inv s"
    and inv_step: "inv s \<Longrightarrow> step s t \<Longrightarrow> inv t"
begin

lemma inv_reachable: "reachable init step s \<Longrightarrow> inv s"
  by (induction rule: reachable.induct) (blast intro: inv_init inv_step)+

lemma inv_rtranclp: "step\<^sup>*\<^sup>* s t \<Longrightarrow> inv s \<Longrightarrow> inv t"
  by (induction rule: rtranclp_induct) (blast intro: inv_step)+

text \<open>A fact that single steps keep, in states satisfying the invariant, is kept by every run.\<close>

lemma stable_rtranclp:
  assumes "\<And>s t. inv s \<Longrightarrow> step s t \<Longrightarrow> P s \<Longrightarrow> P t"
    and "step\<^sup>*\<^sup>* s t" and "inv s" and "P s"
  shows "P t"
proof -
  from assms(2) have "inv t \<and> P t"
    by (induction rule: rtranclp_induct) (use assms inv_step in blast)+
  then show ?thesis by simp
qed

end

end
