(* ===== verification/Machine_Ints.thy ===== *)
theory Machine_Ints
  imports Prelude "HOL-Library.Word" "HOL-Library.Signed_Division"
begin

text \<open>
  Rust's integers as the contracts use them. Unsigned values (\<open>u32\<close>, \<open>u64\<close>, \<open>u128\<close>) are
  natural numbers and \<open>i128\<close> values are integers; the width enters in the operations: plain
  \<open>+ - *\<close> trap when the result does not fit (the release profile sets \<open>overflow-checks\<close>),
  \<open>saturating_*\<close> clamps to the bounds of the type, \<open>as\<close> casts wrap, and division truncates
  towards zero. The casts are shown to be those of 128-bit machine words.
\<close>

section \<open>Unsigned integers\<close>

definition u_add :: "nat \<Rightarrow> nat \<Rightarrow> nat \<Rightarrow> (nat, 'e) res" where
  "u_add w a b = (if a + b < 2 ^ w then Inr (a + b) else Inl Trap)"

definition u_sat_add :: "nat \<Rightarrow> nat \<Rightarrow> nat \<Rightarrow> nat" where
  "u_sat_add w a b = min (a + b) (2 ^ w - 1)"

definition u_sat_mul :: "nat \<Rightarrow> nat \<Rightarrow> nat \<Rightarrow> nat" where
  "u_sat_mul w a b = min (a * b) (2 ^ w - 1)"

definition u_sub :: "nat \<Rightarrow> nat \<Rightarrow> (nat, 'e) res" where
  "u_sub a b = (if b \<le> a then Inr (a - b) else Inl Trap)"

definition u_mul :: "nat \<Rightarrow> nat \<Rightarrow> nat \<Rightarrow> (nat, 'e) res" where
  "u_mul w a b = (if a * b < 2 ^ w then Inr (a * b) else Inl Trap)"

definition u_div :: "nat \<Rightarrow> nat \<Rightarrow> (nat, 'e) res" where
  "u_div a b = (if b = 0 then Inl Trap else Inr (a div b))"

text \<open>\<open>checked_add\<close> and \<open>checked_mul\<close>: \<open>None\<close> when the result does not fit.\<close>

definition u_checked_add :: "nat \<Rightarrow> nat \<Rightarrow> nat \<Rightarrow> nat option" where
  "u_checked_add w a b = (if a + b < 2 ^ w then Some (a + b) else None)"

definition u_checked_mul :: "nat \<Rightarrow> nat \<Rightarrow> nat \<Rightarrow> nat option" where
  "u_checked_mul w a b = (if a * b < 2 ^ w then Some (a * b) else None)"

lemma u_add_eq_Inr [res_simps]: "u_add w a b = Inr c \<longleftrightarrow> c = a + b \<and> a + b < 2 ^ w"
  by (auto simp: u_add_def)

lemma u_sub_eq_Inr [res_simps]: "u_sub a b = Inr c \<longleftrightarrow> c = a - b \<and> b \<le> a"
  by (auto simp: u_sub_def)

lemma u_mul_eq_Inr [res_simps]: "u_mul w a b = Inr c \<longleftrightarrow> c = a * b \<and> a * b < 2 ^ w"
  by (auto simp: u_mul_def)

lemma u_div_eq_Inr [res_simps]: "u_div a b = Inr c \<longleftrightarrow> c = a div b \<and> b \<noteq> 0"
  by (auto simp: u_div_def)

lemma u_checked_add_eq_Some [res_simps]: "u_checked_add w a b = Some c \<longleftrightarrow> c = a + b \<and> a + b < 2 ^ w"
  by (auto simp: u_checked_add_def)

lemma u_checked_mul_eq_Some [res_simps]: "u_checked_mul w a b = Some c \<longleftrightarrow> c = a * b \<and> a * b < 2 ^ w"
  by (auto simp: u_checked_mul_def)

lemma u_sat_add_exact: "a + b < 2 ^ w \<Longrightarrow> u_sat_add w a b = a + b"
  by (simp add: u_sat_add_def)

lemma u_sat_mul_exact: "a * b < 2 ^ w \<Longrightarrow> u_sat_mul w a b = a * b"
  by (simp add: u_sat_mul_def)

lemma u_sat_mul_le: "u_sat_mul w a b \<le> a * b"
  by (simp add: u_sat_mul_def)

lemma u_sat_mul_less: "u_sat_mul w a b < 2 ^ w"
  by (simp add: u_sat_mul_def min_less_iff_disj)

lemma u_sat_mul_mono: "a \<le> a' \<Longrightarrow> u_sat_mul w a b \<le> u_sat_mul w a' b"
  unfolding u_sat_mul_def by (rule min.mono) (auto intro: mult_le_mono1)

section \<open>Signed 128-bit integers\<close>

definition I128_MAX :: int where
  "I128_MAX = 2 ^ 127 - 1"

definition I128_MIN :: int where
  "I128_MIN = - (2 ^ 127)"

definition i128_ok :: "int \<Rightarrow> bool" where
  "i128_ok x \<longleftrightarrow> I128_MIN \<le> x \<and> x \<le> I128_MAX"

definition i_check :: "int \<Rightarrow> (int, 'e) res" where
  "i_check x = (if i128_ok x then Inr x else Inl Trap)"

definition i_clamp :: "int \<Rightarrow> int" where
  "i_clamp x = max I128_MIN (min I128_MAX x)"

definition i_add :: "int \<Rightarrow> int \<Rightarrow> (int, 'e) res" where
  "i_add a b = i_check (a + b)"

definition i_sub :: "int \<Rightarrow> int \<Rightarrow> (int, 'e) res" where
  "i_sub a b = i_check (a - b)"

definition i_mul :: "int \<Rightarrow> int \<Rightarrow> (int, 'e) res" where
  "i_mul a b = i_check (a * b)"

definition i_div :: "int \<Rightarrow> int \<Rightarrow> (int, 'e) res" where
  "i_div a b = (if b = 0 then Inl Trap else i_check (a sdiv b))"

definition i_sat_add :: "int \<Rightarrow> int \<Rightarrow> int" where
  "i_sat_add a b = i_clamp (a + b)"

definition i_sat_sub :: "int \<Rightarrow> int \<Rightarrow> int" where
  "i_sat_sub a b = i_clamp (a - b)"

definition i_sat_mul :: "int \<Rightarrow> int \<Rightarrow> int" where
  "i_sat_mul a b = i_clamp (a * b)"

lemma i_check_eq_Inr [res_simps]: "i_check x = Inr y \<longleftrightarrow> y = x \<and> i128_ok x"
  by (auto simp: i_check_def)

lemma i_add_eq_Inr [res_simps]: "i_add a b = Inr y \<longleftrightarrow> y = a + b \<and> i128_ok (a + b)"
  by (simp add: i_add_def res_simps)

lemma i_sub_eq_Inr [res_simps]: "i_sub a b = Inr y \<longleftrightarrow> y = a - b \<and> i128_ok (a - b)"
  by (simp add: i_sub_def res_simps)

lemma i_mul_eq_Inr [res_simps]: "i_mul a b = Inr y \<longleftrightarrow> y = a * b \<and> i128_ok (a * b)"
  by (simp add: i_mul_def res_simps)

text \<open>\<open>checked_add\<close>, \<open>checked_sub\<close> and \<open>checked_mul\<close> on \<open>i128\<close>.\<close>

definition i_checked :: "int \<Rightarrow> int option" where
  "i_checked x = (if i128_ok x then Some x else None)"

lemma i_checked_eq_Some [res_simps]: "i_checked x = Some y \<longleftrightarrow> y = x \<and> i128_ok x"
  by (auto simp: i_checked_def)

lemma i_clamp_ok [simp]: "i128_ok (i_clamp x)"
  by (auto simp: i128_ok_def i_clamp_def I128_MIN_def I128_MAX_def)

lemma i_clamp_exact: "i128_ok x \<Longrightarrow> i_clamp x = x"
  by (simp add: i128_ok_def i_clamp_def)

lemma i_sat_sub_exact: "i128_ok (a - b) \<Longrightarrow> i_sat_sub a b = a - b"
  by (simp add: i_sat_sub_def i_clamp_exact)

lemma i_sat_add_exact: "i128_ok (a + b) \<Longrightarrow> i_sat_add a b = a + b"
  by (simp add: i_sat_add_def i_clamp_exact)

lemma i_sat_mul_exact: "i128_ok (a * b) \<Longrightarrow> i_sat_mul a b = a * b"
  by (simp add: i_sat_mul_def i_clamp_exact)

text \<open>Differences of non-negative \<open>i128\<close> values always fit.\<close>

lemma i128_diff_ok: "i128_ok a \<Longrightarrow> i128_ok b \<Longrightarrow> 0 \<le> a \<Longrightarrow> 0 \<le> b \<Longrightarrow> i128_ok (a - b)"
  by (auto simp: i128_ok_def I128_MIN_def I128_MAX_def)

lemma i128_between: "0 \<le> x \<Longrightarrow> x \<le> y \<Longrightarrow> i128_ok y \<Longrightarrow> i128_ok x"
  by (auto simp: i128_ok_def I128_MIN_def)

text \<open>Truncating division of non-negative values is the usual quotient.\<close>

lemma i_div_nonneg: "0 \<le> a \<Longrightarrow> 0 < b \<Longrightarrow> i128_ok a \<Longrightarrow> i_div a b = Inr (a div b)"
proof -
  assume a: "0 \<le> a" and b: "0 < b" and ok: "i128_ok a"
  have "a sdiv b = a div b"
    using a b by (cases "a = 0") (simp_all add: signed_divide_int_def)
  moreover have "i128_ok (a div b)"
  proof (rule i128_between [OF _ _ ok])
    show "0 \<le> a div b" using a b by (simp add: pos_imp_zdiv_nonneg_iff)
    have "a div b \<le> a div 1" by (rule zdiv_mono2) (use a b in auto)
    then show "a div b \<le> a" by simp
  qed
  ultimately show ?thesis using b by (simp add: i_div_def i_check_def)
qed

section \<open>Casts\<close>

definition as_u128 :: "int \<Rightarrow> nat" where
  "as_u128 x = nat (x mod 2 ^ 128)"

definition as_i128 :: "nat \<Rightarrow> int" where
  "as_i128 n = (let y = int n mod 2 ^ 128 in if y < 2 ^ 127 then y else y - 2 ^ 128)"

lemma as_u128_word: "as_u128 x = unat (word_of_int x :: 128 word)"
  by (simp add: as_u128_def unat_eq_nat_uint uint_word_of_int)

lemma shifted_mod_128:
  fixes y :: int
  assumes "0 \<le> y" and "y < 2 ^ 128"
  shows "(y + 2 ^ 127) mod 2 ^ 128 - 2 ^ 127 = (if y < 2 ^ 127 then y else y - 2 ^ 128)"
proof (cases "y < 2 ^ 127")
  case True
  with assms have "(y + 2 ^ 127) mod 2 ^ 128 = y + 2 ^ 127"
    by (intro mod_pos_pos_trivial) auto
  with True show ?thesis by simp
next
  case False
  have "(y + 2 ^ 127) mod 2 ^ 128 = (y - 2 ^ 127) mod 2 ^ 128"
    using mod_add_self2 [of "y - 2 ^ 127" "2 ^ 128 :: int"] by (simp add: add.commute)
  also have "\<dots> = y - 2 ^ 127"
    using assms False by (intro mod_pos_pos_trivial) auto
  finally show ?thesis using False by simp
qed

lemma as_i128_word: "as_i128 n = sint (word_of_nat n :: 128 word)"
proof -
  let ?y = "int n mod 2 ^ 128"
  have "sint (word_of_nat n :: 128 word) = (?y + 2 ^ 127) mod 2 ^ 128 - 2 ^ 127"
    by (simp add: sint_uint unsigned_of_nat signed_take_bit_eq_take_bit_shift take_bit_eq_mod
        of_nat_mod)
  moreover have "0 \<le> ?y" and "?y < 2 ^ 128" by simp_all
  ultimately show ?thesis
    unfolding as_i128_def Let_def by (simp only: shifted_mod_128)
qed

lemma as_u128_nonneg: "0 \<le> x \<Longrightarrow> i128_ok x \<Longrightarrow> as_u128 x = nat x"
  by (simp add: as_u128_def i128_ok_def I128_MAX_def)

lemma as_i128_small: "n < 2 ^ 127 \<Longrightarrow> as_i128 n = int n"
  by (simp add: as_i128_def Let_def)

lemma as_i128_ok: "i128_ok (as_i128 n)"
proof -
  have "0 \<le> int n mod 2 ^ 128" "int n mod 2 ^ 128 < 2 ^ 128" by simp_all
  then show ?thesis
    by (auto simp: as_i128_def Let_def i128_ok_def I128_MAX_def I128_MIN_def)
qed

lemma as_i128_as_u128: "i128_ok x \<Longrightarrow> as_i128 (as_u128 x) = x"
proof -
  assume ok: "i128_ok x"
  have int: "int (as_u128 x) = x mod 2 ^ 128"
    by (simp add: as_u128_def)
  have y: "as_i128 (as_u128 x) =
      (if x mod 2 ^ 128 < 2 ^ 127 then x mod 2 ^ 128 else x mod 2 ^ 128 - 2 ^ 128)"
    unfolding as_i128_def Let_def int by simp
  show ?thesis
  proof (cases "0 \<le> x")
    case True
    with ok show ?thesis unfolding y by (simp add: i128_ok_def I128_MAX_def)
  next
    case False
    then have "x mod 2 ^ 128 = x + 2 ^ 128"
      using ok by (intro mod_pos_pos_trivial [of "x + 2 ^ 128" "2 ^ 128", simplified mod_add_self2])
        (auto simp: i128_ok_def I128_MIN_def)
    with ok False show ?thesis unfolding y by (simp add: i128_ok_def I128_MIN_def)
  qed
qed

end
