(* ===== verification/Soroban.thy ===== *)
theory Soroban
  imports Machine_Ints
begin

text \<open>
  What the contracts see of the Soroban host: addresses with their total order, the environment
  of one invocation (who authorised it, the ledger time, the contract's own address), and the
  token contracts they call. The token contracts are not part of the repository: they are a
  parameter, a record of two functions over an arbitrary world, and the properties that need
  them state the documented effect of a token transfer as the hypothesis \<open>token_laws\<close>.
\<close>

section \<open>Addresses\<close>

datatype address = Addr (addr_no: nat)

instantiation address :: linorder
begin

definition less_eq_address :: "address \<Rightarrow> address \<Rightarrow> bool" where
  "less_eq_address a b \<longleftrightarrow> addr_no a \<le> addr_no b"

definition less_address :: "address \<Rightarrow> address \<Rightarrow> bool" where
  "less_address a b \<longleftrightarrow> addr_no a < addr_no b"

instance
  by standard (auto simp: less_eq_address_def less_address_def address.expand)

end

lemma Addr_le [simp]: "Addr m \<le> Addr n \<longleftrightarrow> m \<le> n"
  by (simp add: less_eq_address_def)

lemma Addr_less [simp]: "Addr m < Addr n \<longleftrightarrow> m < n"
  by (simp add: less_address_def)

section \<open>The environment of an invocation\<close>

record env =
  self_addr :: address
  now :: nat
  authorized :: "address \<Rightarrow> bool"

text \<open>\<open>addr.require_auth()\<close> panics unless the address authorised this invocation.\<close>

definition require_auth :: "env \<Rightarrow> address \<Rightarrow> (unit, 'e) res" where
  "require_auth e a = ensure (authorized e a) Trap"

lemma require_auth_eq_Inr [res_simps]: "require_auth e a = Inr u \<longleftrightarrow> authorized e a"
  by (simp add: require_auth_def res_simps)

lemma require_auth_Trap: "\<not> authorized e a \<Longrightarrow> require_auth e a = Inl Trap"
  by (simp add: require_auth_def)

lemma require_auth_ok: "authorized e a \<Longrightarrow> require_auth e a = Inr ()"
  by (simp add: require_auth_def)

section \<open>Token contracts\<close>

text \<open>
  The outcome of a call of a token's \<open>transfer\<close>: the callee failed (its effects are rolled back),
  it succeeded and returned nothing, or it succeeded and returned an \<open>i128\<close> or some other value.
  The contracts differ in what they accept: \<open>try_invoke_contract::<i128, _>\<close> of the swap and
  escrow contracts takes an \<open>i128\<close> only, the trade engine's \<open>token::Client\<close> takes nothing only.
\<close>

datatype 'w call_outcome = Call_Failed | Returned_Void 'w | Returned_Other 'w | Returned int 'w

record 'w token_api =
  tok_balance :: "'w \<Rightarrow> address \<Rightarrow> address \<Rightarrow> int option"
  tok_transfer :: "env \<Rightarrow> 'w \<Rightarrow> address \<Rightarrow> address \<Rightarrow> address \<Rightarrow> int \<Rightarrow> 'w call_outcome"

text \<open>\<open>bal T w asset x\<close>: what \<open>x\<close> holds of \<open>asset\<close>; no balance entry counts as zero.\<close>

definition bal :: "'w token_api \<Rightarrow> 'w \<Rightarrow> address \<Rightarrow> address \<Rightarrow> int" where
  "bal T w asset x = (case tok_balance T w asset x of None \<Rightarrow> 0 | Some b \<Rightarrow> b)"

definition moved :: "'w token_api \<Rightarrow> 'w \<Rightarrow> 'w \<Rightarrow> address \<Rightarrow> address \<Rightarrow> address \<Rightarrow> int \<Rightarrow> bool" where
  "moved T w w' asset x y n \<longleftrightarrow>
     (\<forall>a z. bal T w' a z = bal T w a z
        - (if a = asset \<and> z = x then n else 0) + (if a = asset \<and> z = y then n else 0))"

text \<open>
  The token interface's documented contract: a transfer that succeeds moves exactly the amount
  from sender to recipient and touches no other balance.
\<close>

definition token_laws :: "'w token_api \<Rightarrow> bool" where
  "token_laws T \<longleftrightarrow> (\<forall>e w asset x y n w'.
     (tok_transfer T e w asset x y n = Returned_Void w' \<or>
      tok_transfer T e w asset x y n = Returned_Other w' \<or>
      (\<exists>v. tok_transfer T e w asset x y n = Returned v w')) \<longrightarrow> moved T w w' asset x y n)"

lemma token_laws_Returned:
  "token_laws T \<Longrightarrow> tok_transfer T e w asset x y n = Returned v w' \<Longrightarrow> moved T w w' asset x y n"
  unfolding token_laws_def by blast

lemma token_laws_Void:
  "token_laws T \<Longrightarrow> tok_transfer T e w asset x y n = Returned_Void w' \<Longrightarrow> moved T w w' asset x y n"
  unfolding token_laws_def by blast

lemma moved_bal:
  assumes "moved T w w' asset x y n"
  shows "bal T w' a z = bal T w a z
    - (if a = asset \<and> z = x then n else 0) + (if a = asset \<and> z = y then n else 0)"
  using assms by (simp add: moved_def)

lemma moved_in: "moved T w w' asset x y n \<Longrightarrow> x \<noteq> y \<Longrightarrow>
    bal T w' a y = bal T w a y + (if a = asset then n else 0)"
  by (simp add: moved_bal)

lemma moved_out: "moved T w w' asset x y n \<Longrightarrow> x \<noteq> y \<Longrightarrow>
    bal T w' a x = bal T w a x - (if a = asset then n else 0)"
  by (simp add: moved_bal)

lemma moved_trans_other: "moved T w w' asset x y n \<Longrightarrow> z \<noteq> x \<Longrightarrow> z \<noteq> y \<Longrightarrow>
    bal T w' a z = bal T w a z"
  by (simp add: moved_bal)

text \<open>
  A token that does not refuse its holder: a contract can pay out a positive amount it holds, and the call
  returns the \<open>i128\<close> that \<open>invoke_transfer\<close> of the swap and escrow contracts asks for. The SEP-41 interface
  declares no return value (see \<open>token_returns_void\<close>), so this describes other tokens only.
\<close>

definition token_pays :: "'w token_api \<Rightarrow> bool" where
  "token_pays T \<longleftrightarrow> (\<forall>e w asset y n. 0 < n \<longrightarrow> n \<le> bal T w asset (self_addr e) \<longrightarrow>
     (\<exists>v w'. tok_transfer T e w asset (self_addr e) y n = Returned v w'))"

text \<open>One payout that such a call does not make, although the contract holds the amount.\<close>

definition token_refuses :: "'w token_api \<Rightarrow> env \<Rightarrow> 'w \<Rightarrow> address \<Rightarrow> address \<Rightarrow> int \<Rightarrow> bool" where
  "token_refuses T e w asset y n \<longleftrightarrow> 0 < n \<and> n \<le> bal T w asset (self_addr e) \<and>
     (\<forall>v w'. tok_transfer T e w asset (self_addr e) y n \<noteq> Returned v w')"

text \<open>The same for a token whose \<open>transfer\<close> returns nothing on success.\<close>

definition token_pays_void :: "'w token_api \<Rightarrow> bool" where
  "token_pays_void T \<longleftrightarrow> (\<forall>e w asset y n. 0 < n \<longrightarrow> n \<le> bal T w asset (self_addr e) \<longrightarrow>
     (\<exists>w'. tok_transfer T e w asset (self_addr e) y n = Returned_Void w'))"

text \<open>
  A token whose \<open>transfer\<close> returns no \<open>i128\<close>, as the SEP-41 token interface declares it
  (\<open>fn transfer(env, from, to, amount)\<close> has no return value).
\<close>

definition token_returns_void :: "'w token_api \<Rightarrow> bool" where
  "token_returns_void T \<longleftrightarrow> (\<forall>e w asset x y n v w'. tok_transfer T e w asset x y n \<noteq> Returned v w')"

section \<open>A concrete ledger for witnesses\<close>

text \<open>
  One instance of the token interface on which hypotheses about tokens are shown satisfiable:
  a table of balances. A transfer needs a positive amount, a large enough balance and the
  sender's authorisation (the contract itself needs none), and returns the amount moved. It
  instantiates the parameter in witnesses only; no property is about it.
\<close>

type_synonym ledger = "(address \<times> address) \<Rightarrow> int"

definition ledger_transfer ::
  "env \<Rightarrow> ledger \<Rightarrow> address \<Rightarrow> address \<Rightarrow> address \<Rightarrow> int \<Rightarrow> ledger call_outcome" where
  "ledger_transfer e w asset x y n =
     (if 0 < n \<and> n \<le> w (asset, x) \<and> (authorized e x \<or> x = self_addr e)
      then (let w1 = w((asset, x) := w (asset, x) - n)
            in Returned n (w1((asset, y) := w1 (asset, y) + n)))
      else Call_Failed)"

definition ledger_api :: "ledger token_api" where
  "ledger_api = \<lparr>tok_balance = (\<lambda>w asset x. Some (w (asset, x))), tok_transfer = ledger_transfer\<rparr>"

text \<open>The same ledger with a \<open>transfer\<close> that returns nothing, as in the SEP-41 interface.\<close>

definition void_transfer ::
  "env \<Rightarrow> ledger \<Rightarrow> address \<Rightarrow> address \<Rightarrow> address \<Rightarrow> int \<Rightarrow> ledger call_outcome" where
  "void_transfer e w asset x y n =
     (case ledger_transfer e w asset x y n of Returned _ w' \<Rightarrow> Returned_Void w' | r \<Rightarrow> r)"

definition sep41_api :: "ledger token_api" where
  "sep41_api = \<lparr>tok_balance = (\<lambda>w asset x. Some (w (asset, x))), tok_transfer = void_transfer\<rparr>"

lemma bal_ledger [simp]: "bal ledger_api w a x = w (a, x)"
  by (simp add: bal_def ledger_api_def)

lemma bal_sep41 [simp]: "bal sep41_api w a x = w (a, x)"
  by (simp add: bal_def sep41_api_def)

lemma ledger_moved:
  "ledger_transfer e w asset x y n = Returned v w' \<Longrightarrow>
    w' (a, z) = w (a, z) - (if a = asset \<and> z = x then n else 0) + (if a = asset \<and> z = y then n else 0)"
  by (auto simp: ledger_transfer_def Let_def split: if_splits)

lemma ledger_laws: "token_laws ledger_api"
  unfolding token_laws_def moved_def bal_ledger
  by (auto simp: ledger_api_def ledger_transfer_def Let_def split: if_splits)

lemma sep41_laws: "token_laws sep41_api"
  unfolding token_laws_def moved_def bal_sep41
  by (auto simp: sep41_api_def void_transfer_def ledger_transfer_def Let_def split: if_splits)

lemma ledger_pays: "token_pays ledger_api"
  by (auto simp: token_pays_def ledger_api_def ledger_transfer_def bal_def)

lemma ledger_never_refuses: "\<not> token_refuses ledger_api e w asset y n"
  using ledger_pays unfolding token_pays_def token_refuses_def by blast

lemma sep41_pays: "token_pays_void sep41_api"
  by (auto simp: token_pays_void_def sep41_api_def void_transfer_def ledger_transfer_def bal_def Let_def)

lemma sep41_void: "token_returns_void sep41_api"
  by (auto simp: token_returns_void_def sep41_api_def void_transfer_def split: call_outcome.splits)

text \<open>
  The invocations and balances the witnesses start from: the contract is address 0, address 1
  holds 500 of asset 10 and address 2 holds 500 of asset 11.
\<close>

definition demo_env :: "nat \<Rightarrow> nat \<Rightarrow> env" where
  "demo_env who t = \<lparr>self_addr = Addr 0, now = t, authorized = (\<lambda>a. a = Addr who)\<rparr>"

definition demo_ledger :: ledger where
  "demo_ledger = (\<lambda>(a, x). if a = Addr 10 \<and> x = Addr 1 \<or> a = Addr 11 \<and> x = Addr 2 then 500 else 0)"

end
