(* ===== verification/Atomic_Swap.thy ===== *)
theory Atomic_Swap
  imports Soroban
begin

text \<open>
  The atomic-swap contract (\<open>swaptrade-contracts/atomic-swap/src\<close>): its types, its storage
  module and every entry point, in the order of the source. The contract state is the record of
  its storage slots together with the world of the token contracts it calls.
\<close>

section \<open>Types (types.rs, errors.rs, events.rs)\<close>

datatype swap_error =
    SwapNotFound | Unauthorized | MissingTrustline | InvalidState | InvalidAmount
  | InvalidExpiry | Expired | SameAsset | TransferMismatch | TrustlineCheckFailed

datatype swap_state = Created | Funded | Accepted | Cancelled | Refunded

record swap =
  sw_id :: nat
  sw_nonce :: nat
  sw_creator :: address
  sw_counterparty :: address
  sw_asset_a :: address
  sw_amount_a :: int
  sw_asset_b :: address
  sw_amount_b :: int
  sw_expiry :: nat
  sw_state :: swap_state
  sw_creator_funded :: bool
  sw_counterparty_funded :: bool
  sw_created_at :: nat

definition sw_is_party :: "swap \<Rightarrow> address \<Rightarrow> bool" where
  "sw_is_party swap addr \<longleftrightarrow> addr = sw_creator swap \<or> addr = sw_counterparty swap"

datatype swap_topic = TCreated | TFunded | TAccepted | TCancelled | TRefunded

datatype swap_event = SwapEvent swap_topic nat address nat

section \<open>Storage (storage.rs)\<close>

record swap_storage =
  swaps :: "nat \<rightharpoonup> swap"
  swap_nonces :: "(address \<times> nat) \<rightharpoonup> nat"
  swap_nxid :: "nat option"
  swap_minexp :: "nat option"
  swap_log :: "swap_event list"

definition swap_storage0 :: swap_storage where
  "swap_storage0 = \<lparr>swaps = Map.empty, swap_nonces = Map.empty, swap_nxid = None,
     swap_minexp = None, swap_log = []\<rparr>"

definition swap_counter :: "swap_storage \<Rightarrow> nat" where
  "swap_counter s = (case swap_nxid s of None \<Rightarrow> 1 | Some n \<Rightarrow> n)"

definition swap_next_id :: "swap_storage \<Rightarrow> (nat \<times> swap_storage, swap_error) res" where
  "swap_next_id s =
     (let id = (case swap_nxid s of None \<Rightarrow> 1 | Some n \<Rightarrow> n)
      in bindR (u_add 64 id 1) (\<lambda>n. Inr (id, s\<lparr>swap_nxid := Some n\<rparr>)))"

definition DEFAULT_MIN_EXPIRY :: nat where
  "DEFAULT_MIN_EXPIRY = 300"

definition min_expiry :: "swap_storage \<Rightarrow> nat" where
  "min_expiry s = (case swap_minexp s of None \<Rightarrow> DEFAULT_MIN_EXPIRY | Some x \<Rightarrow> x)"

definition store_min_expiry :: "nat \<Rightarrow> swap_storage \<Rightarrow> swap_storage" where
  "store_min_expiry seconds s = s\<lparr>swap_minexp := Some seconds\<rparr>"

definition swap_find_by_nonce :: "swap_storage \<Rightarrow> address \<Rightarrow> nat \<Rightarrow> nat option" where
  "swap_find_by_nonce s creator nonce = swap_nonces s (creator, nonce)"

definition update_swap :: "swap \<Rightarrow> swap_storage \<Rightarrow> swap_storage" where
  "update_swap swap s = s\<lparr>swaps := (swaps s)(sw_id swap \<mapsto> swap)\<rparr>"

definition save_swap :: "swap \<Rightarrow> swap_storage \<Rightarrow> swap_storage" where
  "save_swap swap s =
     s\<lparr>swaps := (swaps s)(sw_id swap \<mapsto> swap),
       swap_nonces := (swap_nonces s)((sw_creator swap, sw_nonce swap) \<mapsto> sw_id swap)\<rparr>"

definition load_swap :: "swap_storage \<Rightarrow> nat \<Rightarrow> (swap, swap_error) res" where
  "load_swap s swap_id = ok_or (swaps s swap_id) (Err SwapNotFound)"

definition swap_has_trustline :: "'w token_api \<Rightarrow> 'w \<Rightarrow> address \<Rightarrow> address \<Rightarrow> bool" where
  "swap_has_trustline T w address asset \<longleftrightarrow> tok_balance T w asset address \<noteq> None"

definition swap_invoke_transfer :: "'w token_api \<Rightarrow> env \<Rightarrow> 'w \<Rightarrow> address \<Rightarrow> address \<Rightarrow> address \<Rightarrow> int
    \<Rightarrow> (int \<times> 'w, swap_error) res" where
  "swap_invoke_transfer T e w asset x y amount =
     (case tok_transfer T e w asset x y amount of
        Returned transferred w' \<Rightarrow> Inr (transferred, w')
      | Returned_Void _ \<Rightarrow> Inl (Err TransferMismatch)
      | Returned_Other _ \<Rightarrow> Inl (Err TransferMismatch)
      | Call_Failed \<Rightarrow> Inl (Err TransferMismatch))"

definition swap_transfer_token :: "'w token_api \<Rightarrow> env \<Rightarrow> 'w \<Rightarrow> address \<Rightarrow> address \<Rightarrow> address \<Rightarrow> int
    \<Rightarrow> (int \<times> 'w, swap_error) res" where
  "swap_transfer_token T e w asset x y amount =
     bindR (require_auth e x) (\<lambda>_. swap_invoke_transfer T e w asset x y amount)"

definition swap_transfer_token_no_auth :: "'w token_api \<Rightarrow> env \<Rightarrow> 'w \<Rightarrow> address \<Rightarrow> address \<Rightarrow> address
    \<Rightarrow> int \<Rightarrow> (int \<times> 'w, swap_error) res" where
  "swap_transfer_token_no_auth T e w asset x y amount = swap_invoke_transfer T e w asset x y amount"

definition swap_publish :: "env \<Rightarrow> swap_topic \<Rightarrow> nat \<Rightarrow> address \<Rightarrow> swap_storage \<Rightarrow> swap_storage" where
  "swap_publish e topic swap_id actor s =
     s\<lparr>swap_log := swap_log s @ [SwapEvent topic swap_id actor (now e)]\<rparr>"

section \<open>Entry points (lib.rs)\<close>

record 'w swap_sys =
  swst :: swap_storage
  sww :: 'w

definition create_swap :: "'w token_api \<Rightarrow> env \<Rightarrow> 'w swap_sys \<Rightarrow> address \<Rightarrow> address \<Rightarrow> address \<Rightarrow> int
    \<Rightarrow> address \<Rightarrow> int \<Rightarrow> nat \<Rightarrow> nat \<Rightarrow> (nat \<times> 'w swap_sys, swap_error) res" where
  "create_swap T e st creator counterparty asset_a amount_a asset_b amount_b expiry nonce =
     bindR (require_auth e creator) (\<lambda>_.
     bindR (ensure (\<not> (amount_a \<le> 0 \<or> amount_b \<le> 0)) (Err InvalidAmount)) (\<lambda>_.
     bindR (ensure (asset_a \<noteq> asset_b) (Err SameAsset)) (\<lambda>_.
     bindR (ensure (creator \<noteq> counterparty) (Err Unauthorized)) (\<lambda>_.
     bindR (ensure (\<not> expiry \<le> u_sat_add 64 (now e) (min_expiry (swst st))) (Err InvalidExpiry)) (\<lambda>_.
     bindR (ensure (swap_has_trustline T (sww st) creator asset_a) (Err MissingTrustline)) (\<lambda>_.
     (case swap_find_by_nonce (swst st) creator nonce of
        Some existing_id \<Rightarrow> Inr (existing_id, st)
      | None \<Rightarrow>
          bindR (swap_next_id (swst st)) (\<lambda>(id, s1).
          let swap = \<lparr>sw_id = id, sw_nonce = nonce, sw_creator = creator,
                sw_counterparty = counterparty, sw_asset_a = asset_a, sw_amount_a = amount_a,
                sw_asset_b = asset_b, sw_amount_b = amount_b, sw_expiry = expiry,
                sw_state = Created, sw_creator_funded = False, sw_counterparty_funded = False,
                sw_created_at = now e\<rparr>
          in Inr (id, st\<lparr>swst := swap_publish e TCreated id creator (save_swap swap s1)\<rparr>)))))))))"

definition fund_swap :: "'w token_api \<Rightarrow> env \<Rightarrow> 'w swap_sys \<Rightarrow> nat \<Rightarrow> address
    \<Rightarrow> ('w swap_sys, swap_error) res" where
  "fund_swap T e st swap_id funder =
     bindR (require_auth e funder) (\<lambda>_.
     bindR (load_swap (swst st) swap_id) (\<lambda>swap.
     bindR (ensure (sw_is_party swap funder) (Err Unauthorized)) (\<lambda>_.
     bindR (ensure (sw_state swap = Created) (Err InvalidState)) (\<lambda>_.
     bindR (ensure (\<not> (if funder = sw_creator swap then sw_creator_funded swap
                       else sw_counterparty_funded swap)) (Err InvalidState)) (\<lambda>_.
     let asset = (if funder = sw_creator swap then sw_asset_a swap else sw_asset_b swap);
         amount = (if funder = sw_creator swap then sw_amount_a swap else sw_amount_b swap)
     in
     bindR (ensure (swap_has_trustline T (sww st) funder asset) (Err MissingTrustline)) (\<lambda>_.
     bindR (swap_transfer_token_no_auth T e (sww st) asset funder (self_addr e) amount) (\<lambda>(_, w').
     let swap1 = (if funder = sw_creator swap then swap\<lparr>sw_creator_funded := True\<rparr>
                  else swap\<lparr>sw_counterparty_funded := True\<rparr>);
         swap2 = (if sw_creator_funded swap1 \<and> sw_counterparty_funded swap1
                  then swap1\<lparr>sw_state := Funded\<rparr> else swap1)
     in Inr \<lparr>swst = swap_publish e TFunded (sw_id swap2) funder (update_swap swap2 (swst st)),
             sww = w'\<rparr>)))))))"

definition accept_swap :: "'w token_api \<Rightarrow> env \<Rightarrow> 'w swap_sys \<Rightarrow> nat \<Rightarrow> address
    \<Rightarrow> ('w swap_sys, swap_error) res" where
  "accept_swap T e st swap_id acceptor =
     bindR (require_auth e acceptor) (\<lambda>_.
     bindR (load_swap (swst st) swap_id) (\<lambda>swap.
     bindR (ensure (acceptor = sw_counterparty swap) (Err Unauthorized)) (\<lambda>_.
     bindR (ensure (\<not> (sw_state swap = Accepted \<or> sw_state swap = Cancelled
                       \<or> sw_state swap = Refunded)) (Err InvalidState)) (\<lambda>_.
     bindR (ensure (\<not> (\<not> sw_creator_funded swap \<or> \<not> sw_counterparty_funded swap))
              (Err InvalidState)) (\<lambda>_.
     bindR (ensure (\<not> sw_expiry swap \<le> now e) (Err Expired)) (\<lambda>_.
     bindR (ensure (swap_has_trustline T (sww st) (sw_counterparty swap) (sw_asset_a swap))
              (Err MissingTrustline)) (\<lambda>_.
     bindR (ensure (swap_has_trustline T (sww st) (sw_creator swap) (sw_asset_b swap))
              (Err MissingTrustline)) (\<lambda>_.
     bindR (swap_transfer_token_no_auth T e (sww st) (sw_asset_a swap) (self_addr e)
              (sw_counterparty swap) (sw_amount_a swap)) (\<lambda>(_, w1).
     bindR (swap_transfer_token_no_auth T e w1 (sw_asset_b swap) (self_addr e)
              (sw_creator swap) (sw_amount_b swap)) (\<lambda>(_, w2).
     let swap1 = swap\<lparr>sw_state := Accepted\<rparr>
     in Inr \<lparr>swst = swap_publish e TAccepted (sw_id swap1) (sw_counterparty swap1)
                (update_swap swap1 (swst st)), sww = w2\<rparr>))))))))))"

definition cancel_swap :: "env \<Rightarrow> 'w swap_sys \<Rightarrow> nat \<Rightarrow> ('w swap_sys, swap_error) res" where
  "cancel_swap e st swap_id =
     bindR (load_swap (swst st) swap_id) (\<lambda>swap.
     bindR (require_auth e (sw_creator swap)) (\<lambda>_.
     bindR (ensure (sw_state swap = Created) (Err InvalidState)) (\<lambda>_.
     bindR (ensure (\<not> sw_counterparty_funded swap) (Err InvalidState)) (\<lambda>_.
     bindR (ensure (\<not> sw_creator_funded swap) (Err InvalidState)) (\<lambda>_.
     let swap1 = swap\<lparr>sw_state := Cancelled\<rparr>
     in Inr (st\<lparr>swst := swap_publish e TCancelled (sw_id swap1) (sw_creator swap1)
                 (update_swap swap1 (swst st))\<rparr>))))))"

definition refund_swap :: "'w token_api \<Rightarrow> env \<Rightarrow> 'w swap_sys \<Rightarrow> nat
    \<Rightarrow> ('w swap_sys, swap_error) res" where
  "refund_swap T e st swap_id =
     bindR (load_swap (swst st) swap_id) (\<lambda>swap.
     bindR (require_auth e (sw_creator swap)) (\<lambda>_.
     bindR (ensure (\<not> (sw_state swap = Accepted \<or> sw_state swap = Cancelled
                       \<or> sw_state swap = Refunded)) (Err InvalidState)) (\<lambda>_.
     bindR (ensure (\<not> (\<not> sw_creator_funded swap \<and> \<not> sw_counterparty_funded swap))
              (Err InvalidState)) (\<lambda>_.
     bindR (ensure (\<not> now e < sw_expiry swap) (Err InvalidState)) (\<lambda>_.
     bindR (if sw_creator_funded swap
            then swap_transfer_token_no_auth T e (sww st) (sw_asset_a swap) (self_addr e)
                   (sw_creator swap) (sw_amount_a swap)
            else Inr (0, sww st)) (\<lambda>(_, w1).
     bindR (if sw_counterparty_funded swap
            then swap_transfer_token_no_auth T e w1 (sw_asset_b swap) (self_addr e)
                   (sw_counterparty swap) (sw_amount_b swap)
            else Inr (0, w1)) (\<lambda>(_, w2).
     let swap1 = swap\<lparr>sw_state := Refunded, sw_creator_funded := False,
                   sw_counterparty_funded := False\<rparr>
     in Inr \<lparr>swst = swap_publish e TRefunded (sw_id swap1) (sw_creator swap1)
                (update_swap swap1 (swst st)), sww = w2\<rparr>)))))))"

definition get_swap :: "'w swap_sys \<Rightarrow> nat \<Rightarrow> (swap, swap_error) res" where
  "get_swap st swap_id = load_swap (swst st) swap_id"

definition check_trustline :: "'w token_api \<Rightarrow> 'w swap_sys \<Rightarrow> address \<Rightarrow> address \<Rightarrow> bool" where
  "check_trustline T st address asset = swap_has_trustline T (sww st) address asset"

definition get_min_expiry :: "'w swap_sys \<Rightarrow> nat" where
  "get_min_expiry st = min_expiry (swst st)"

definition set_min_expiry :: "env \<Rightarrow> 'w swap_sys \<Rightarrow> address \<Rightarrow> nat \<Rightarrow> ('w swap_sys, swap_error) res" where
  "set_min_expiry e st caller seconds =
     bindR (require_auth e caller) (\<lambda>_. Inr (st\<lparr>swst := store_min_expiry seconds (swst st)\<rparr>))"

end
