(* ===== verification/Atomic_Swap_Inv.thy ===== *)
theory Atomic_Swap_Inv
  imports Atomic_Swap
begin

text \<open>
  The storage module of the atomic-swap contract provides the indexed-store interface, and each
  entry point is reduced to the guards it checks and the one record it writes.
\<close>

section \<open>The storage module is an indexed store\<close>

lemma swaps_update_swap [simp]: "swaps (update_swap r s) = (swaps s)(sw_id r \<mapsto> r)"
  by (simp add: update_swap_def)

lemma swaps_save_swap [simp]: "swaps (save_swap r s) = (swaps s)(sw_id r \<mapsto> r)"
  by (simp add: save_swap_def)

lemma swaps_publish [simp]: "swaps (swap_publish e t i a s) = swaps s"
  by (simp add: swap_publish_def)

lemma swap_next_id_eq_Inr [res_simps]:
  "swap_next_id s = Inr (k, s') \<longleftrightarrow>
    k = swap_counter s \<and> s' = s\<lparr>swap_nxid := Some (Suc k)\<rparr> \<and> Suc k < 2 ^ 64"
  by (auto simp: swap_next_id_def swap_counter_def res_simps Let_def)

lemma swap_counter_simps [simp]:
  "swap_counter (s\<lparr>swap_nxid := Some n\<rparr>) = n"
  "swap_counter (update_swap r s) = swap_counter s"
  "swap_counter (save_swap r s) = swap_counter s"
  "swap_counter (swap_publish e t i a s) = swap_counter s"
  by (simp_all add: swap_counter_def update_swap_def save_swap_def swap_publish_def)

definition swap_find :: "swap_storage \<Rightarrow> (address \<times> nat) \<rightharpoonup> nat" where
  "swap_find s p = swap_find_by_nonce s (fst p) (snd p)"

definition swap_nkey :: "swap \<Rightarrow> address \<times> nat" where
  "swap_nkey r = (sw_creator r, sw_nonce r)"

lemma swap_find_simps [simp]:
  "swap_find (update_swap r s) = swap_find s"
  "swap_find (swap_publish e t i a s) = swap_find s"
  "swap_find (s\<lparr>swap_nxid := n\<rparr>) = swap_find s"
  "swap_find (save_swap r s) = (swap_find s)(swap_nkey r \<mapsto> sw_id r)"
  by (auto simp: swap_find_def swap_find_by_nonce_def update_swap_def swap_publish_def save_swap_def
      swap_nkey_def fun_eq_iff)

interpretation swst: nonce_store swaps update_swap sw_id swap_counter swap_next_id
    swap_find save_swap swap_nkey
  by unfold_locales (auto simp: res_simps)

section \<open>What a successful transfer does\<close>

lemma swap_transfer_eq_Inr [res_simps]:
  "swap_transfer_token_no_auth T e w asset x y n = Inr (v, w') \<longleftrightarrow>
    tok_transfer T e w asset x y n = Returned v w'"
  by (auto simp: swap_transfer_token_no_auth_def swap_invoke_transfer_def split: call_outcome.splits)

lemma load_swap_eq_Inr [res_simps]: "load_swap s k = Inr r \<longleftrightarrow> swaps s k = Some r"
  by (simp add: load_swap_def res_simps)

section \<open>Successful calls as guards and one write\<close>

definition swap_offer :: "nat \<Rightarrow> nat \<Rightarrow> address \<Rightarrow> address \<Rightarrow> address \<Rightarrow> int \<Rightarrow> address \<Rightarrow> int \<Rightarrow> nat
    \<Rightarrow> nat \<Rightarrow> swap" where
  "swap_offer k nonce c p a n b m x t =
     \<lparr>sw_id = k, sw_nonce = nonce, sw_creator = c, sw_counterparty = p, sw_asset_a = a,
       sw_amount_a = n, sw_asset_b = b, sw_amount_b = m, sw_expiry = x, sw_state = Created,
       sw_creator_funded = False, sw_counterparty_funded = False, sw_created_at = t\<rparr>"

lemma swap_offer_simps [simp]:
  "sw_id (swap_offer k nonce c p a n b m x t) = k"
  "swap_nkey (swap_offer k nonce c p a n b m x t) = (c, nonce)"
  by (simp_all add: swap_offer_def swap_nkey_def)

lemma create_swap_iff:
  "create_swap T e st c p a n b m x nonce = Inr (k, st') \<longleftrightarrow>
    authorized e c \<and> 0 < n \<and> 0 < m \<and> a \<noteq> b \<and> c \<noteq> p
    \<and> u_sat_add 64 (now e) (min_expiry (swst st)) < x \<and> swap_has_trustline T (sww st) c a
    \<and> (case swap_find (swst st) (c, nonce) of
         Some j \<Rightarrow> k = j \<and> st' = st
       | None \<Rightarrow> \<exists>s1. swap_next_id (swst st) = Inr (k, s1) \<and>
           st' = st\<lparr>swst := swap_publish e TCreated k c
             (save_swap (swap_offer k nonce c p a n b m x (now e)) s1)\<rparr>)"
  by (cases "swap_find (swst st) (c, nonce)")
    (auto simp: create_swap_def bindR_eq_Inr require_auth_eq_Inr ensure_eq_Inr swap_find_def Let_def
      swap_offer_def)

text \<open>The record a funding call writes.\<close>

definition swap_funded_by :: "swap \<Rightarrow> address \<Rightarrow> swap" where
  "swap_funded_by r funder =
     (let r1 = (if funder = sw_creator r then r\<lparr>sw_creator_funded := True\<rparr>
                else r\<lparr>sw_counterparty_funded := True\<rparr>)
      in if sw_creator_funded r1 \<and> sw_counterparty_funded r1 then r1\<lparr>sw_state := Funded\<rparr> else r1)"

definition swap_side_asset :: "swap \<Rightarrow> address \<Rightarrow> address" where
  "swap_side_asset r funder = (if funder = sw_creator r then sw_asset_a r else sw_asset_b r)"

definition swap_side_amount :: "swap \<Rightarrow> address \<Rightarrow> int" where
  "swap_side_amount r funder = (if funder = sw_creator r then sw_amount_a r else sw_amount_b r)"

lemma swap_funded_by_simps [simp]:
  "sw_id (swap_funded_by r f) = sw_id r"
  "swap_nkey (swap_funded_by r f) = swap_nkey r"
  "sw_creator (swap_funded_by r f) = sw_creator r"
  "sw_counterparty (swap_funded_by r f) = sw_counterparty r"
  "sw_asset_a (swap_funded_by r f) = sw_asset_a r"
  "sw_asset_b (swap_funded_by r f) = sw_asset_b r"
  "sw_amount_a (swap_funded_by r f) = sw_amount_a r"
  "sw_amount_b (swap_funded_by r f) = sw_amount_b r"
  "sw_expiry (swap_funded_by r f) = sw_expiry r"
  by (auto simp: swap_funded_by_def Let_def swap_nkey_def)

lemma fund_swap_iff:
  "fund_swap T e st k f = Inr st' \<longleftrightarrow>
    (\<exists>r v w'. authorized e f \<and> swaps (swst st) k = Some r \<and> sw_is_party r f \<and> sw_state r = Created
       \<and> \<not> (if f = sw_creator r then sw_creator_funded r else sw_counterparty_funded r)
       \<and> swap_has_trustline T (sww st) f (swap_side_asset r f)
       \<and> tok_transfer T e (sww st) (swap_side_asset r f) f (self_addr e) (swap_side_amount r f)
           = Returned v w'
       \<and> st' = \<lparr>swst = swap_publish e TFunded (sw_id r) f
                  (update_swap (swap_funded_by r f) (swst st)), sww = w'\<rparr>)"
proof (cases "swaps (swst st) k")
  case None
  then show ?thesis by (simp add: fund_swap_def res_simps)
next
  case (Some r)
  let ?r1 = "if f = sw_creator r then r\<lparr>sw_creator_funded := True\<rparr>
    else r\<lparr>sw_counterparty_funded := True\<rparr>"
  have fb: "(if sw_creator_funded ?r1 \<and> sw_counterparty_funded ?r1 then ?r1\<lparr>sw_state := Funded\<rparr>
      else ?r1) = swap_funded_by r f"
    by (simp only: swap_funded_by_def Let_def)
  show ?thesis
    unfolding fund_swap_def Let_def res_simps load_swap_eq_Inr Some option.inject ex_simps
      swap_side_asset_def [symmetric] swap_side_amount_def [symmetric]
    by (simp only: simp_thms fb swap_funded_by_simps split_paired_Ex case_prod_conv
        swap_transfer_eq_Inr sum.inject ex_simps conj_assoc) blast
qed

lemma accept_swap_iff:
  "accept_swap T e st k f = Inr st' \<longleftrightarrow>
    (\<exists>r v1 w1 v2 w2. authorized e f \<and> swaps (swst st) k = Some r \<and> f = sw_counterparty r
       \<and> sw_state r \<in> {Created, Funded} \<and> sw_creator_funded r \<and> sw_counterparty_funded r
       \<and> now e < sw_expiry r
       \<and> swap_has_trustline T (sww st) (sw_counterparty r) (sw_asset_a r)
       \<and> swap_has_trustline T (sww st) (sw_creator r) (sw_asset_b r)
       \<and> tok_transfer T e (sww st) (sw_asset_a r) (self_addr e) (sw_counterparty r) (sw_amount_a r)
           = Returned v1 w1
       \<and> tok_transfer T e w1 (sw_asset_b r) (self_addr e) (sw_creator r) (sw_amount_b r)
           = Returned v2 w2
       \<and> st' = \<lparr>swst = swap_publish e TAccepted (sw_id r) (sw_counterparty r)
                  (update_swap (r\<lparr>sw_state := Accepted\<rparr>) (swst st)), sww = w2\<rparr>)"
  (is "?L \<longleftrightarrow> ?R")
proof -
  have s: "\<not> (x = Accepted \<or> x = Cancelled \<or> x = Refunded) \<longleftrightarrow> x \<in> {Created, Funded}" for x
    by (cases x) auto
  show ?thesis
    unfolding accept_swap_def s by (auto simp: res_simps Let_def not_le)
qed

lemma cancel_swap_iff:
  "cancel_swap e st k = Inr st' \<longleftrightarrow>
    (\<exists>r. swaps (swst st) k = Some r \<and> authorized e (sw_creator r) \<and> sw_state r = Created
       \<and> \<not> sw_counterparty_funded r \<and> \<not> sw_creator_funded r
       \<and> st' = st\<lparr>swst := swap_publish e TCancelled (sw_id r) (sw_creator r)
                    (update_swap (r\<lparr>sw_state := Cancelled\<rparr>) (swst st))\<rparr>)"
  by (auto simp: cancel_swap_def res_simps Let_def)

text \<open>The two optional payments of a refund.\<close>

definition pay_if :: "bool \<Rightarrow> 'w token_api \<Rightarrow> env \<Rightarrow> 'w \<Rightarrow> address \<Rightarrow> address \<Rightarrow> int \<Rightarrow> 'w \<Rightarrow> bool" where
  "pay_if b T e w asset y n w' \<longleftrightarrow>
     (if b then \<exists>v. tok_transfer T e w asset (self_addr e) y n = Returned v w' else w' = w)"

lemma refund_swap_iff:
  "refund_swap T e st k = Inr st' \<longleftrightarrow>
    (\<exists>r w1 w2. swaps (swst st) k = Some r \<and> authorized e (sw_creator r)
       \<and> sw_state r \<in> {Created, Funded} \<and> (sw_creator_funded r \<or> sw_counterparty_funded r)
       \<and> sw_expiry r \<le> now e
       \<and> pay_if (sw_creator_funded r) T e (sww st) (sw_asset_a r) (sw_creator r) (sw_amount_a r) w1
       \<and> pay_if (sw_counterparty_funded r) T e w1 (sw_asset_b r) (sw_counterparty r) (sw_amount_b r) w2
       \<and> st' = \<lparr>swst = swap_publish e TRefunded (sw_id r) (sw_creator r)
                  (update_swap (r\<lparr>sw_state := Refunded, sw_creator_funded := False,
                     sw_counterparty_funded := False\<rparr>) (swst st)), sww = w2\<rparr>)"
proof -
  have s: "\<not> (x = Accepted \<or> x = Cancelled \<or> x = Refunded) \<longleftrightarrow> x \<in> {Created, Funded}" for x
    by (cases x) auto
  have p: "(\<exists>v. (if b then swap_transfer_token_no_auth T e w a (self_addr e) y n else Inr (0, w))
      = Inr (v, w')) \<longleftrightarrow> pay_if b T e w a y n w'" for b w a y n w'
    by (auto simp: pay_if_def res_simps)
  show ?thesis
    unfolding refund_swap_def s
    by (auto simp: res_simps Let_def not_less p [symmetric] split_paired_Ex
        simp del: if_split)
qed

text \<open>
  The atomic-swap contract as a transition system (any caller, any entry point, any ledger time,
  interleaved with other movements of tokens), its invariant, and its properties: solvency,
  finality of settled swaps, atomic exchange, idempotent creation and availability of funds.
\<close>

section \<open>Calls and steps\<close>

datatype swap_call =
    CreateSwap address address address int address int nat nat
  | FundSwap nat address
  | AcceptSwap nat address
  | CancelSwap nat
  | RefundSwap nat
  | SetMinExpiry address nat

fun swap_exec :: "'w token_api \<Rightarrow> env \<Rightarrow> 'w swap_sys \<Rightarrow> swap_call \<Rightarrow> ('w swap_sys, swap_error) res" where
  "swap_exec T e st (CreateSwap c p a n b m x nonce) =
     bindR (create_swap T e st c p a n b m x nonce) (\<lambda>(_, st'). Inr st')"
| "swap_exec T e st (FundSwap k f) = fund_swap T e st k f"
| "swap_exec T e st (AcceptSwap k f) = accept_swap T e st k f"
| "swap_exec T e st (CancelSwap k) = cancel_swap e st k"
| "swap_exec T e st (RefundSwap k) = refund_swap T e st k"
| "swap_exec T e st (SetMinExpiry c x) = set_min_expiry e st c x"

text \<open>
  A step is one call, by an invocation that the contract's own address has not authorised (a
  contract never signs for itself from outside), or a movement of tokens elsewhere that does
  not take from the contract.
\<close>

inductive swap_step :: "'w token_api \<Rightarrow> address \<Rightarrow> 'w swap_sys \<Rightarrow> 'w swap_sys \<Rightarrow> bool"
  for T and c where
  swap_step_call: "self_addr e = c \<Longrightarrow> \<not> authorized e c \<Longrightarrow> swap_exec T e st k = Inr st'
    \<Longrightarrow> swap_step T c st st'"
| swap_step_world: "(\<And>a. bal T (sww st) a c \<le> bal T w a c) \<Longrightarrow> swap_step T c st (st\<lparr>sww := w\<rparr>)"

definition swap_deployed :: "'w token_api \<Rightarrow> address \<Rightarrow> 'w swap_sys \<Rightarrow> bool" where
  "swap_deployed T c st \<longleftrightarrow> swst st = swap_storage0 \<and> (\<forall>a. 0 \<le> bal T (sww st) a c)"

section \<open>The invariant\<close>

definition swap_open :: "swap \<Rightarrow> bool" where
  "swap_open r \<longleftrightarrow> sw_state r = Created \<or> sw_state r = Funded"

definition swap_wf :: "address \<Rightarrow> swap \<Rightarrow> bool" where
  "swap_wf c r \<longleftrightarrow>
     0 < sw_amount_a r \<and> 0 < sw_amount_b r \<and> sw_asset_a r \<noteq> sw_asset_b r
     \<and> sw_creator r \<noteq> sw_counterparty r \<and> sw_creator r \<noteq> c
     \<and> (sw_counterparty_funded r \<longrightarrow> sw_counterparty r \<noteq> c)
     \<and> (case sw_state r of
          Created \<Rightarrow> \<not> (sw_creator_funded r \<and> sw_counterparty_funded r)
        | Funded \<Rightarrow> sw_creator_funded r \<and> sw_counterparty_funded r
        | Accepted \<Rightarrow> sw_creator_funded r \<and> sw_counterparty_funded r
        | Cancelled \<Rightarrow> \<not> sw_creator_funded r \<and> \<not> sw_counterparty_funded r
        | Refunded \<Rightarrow> \<not> sw_creator_funded r \<and> \<not> sw_counterparty_funded r)"

text \<open>What the contract owes, in asset \<open>a\<close>, to the parties of one swap.\<close>

definition swap_locked :: "address \<Rightarrow> swap \<Rightarrow> int" where
  "swap_locked a r =
     (if swap_open r
      then (if sw_creator_funded r \<and> sw_asset_a r = a then sw_amount_a r else 0)
         + (if sw_counterparty_funded r \<and> sw_asset_b r = a then sw_amount_b r else 0)
      else 0)"

definition swap_owed :: "'w swap_sys \<Rightarrow> address \<Rightarrow> int" where
  "swap_owed st a = map_total (swap_locked a) (swaps (swst st))"

definition swap_inv :: "'w token_api \<Rightarrow> address \<Rightarrow> 'w swap_sys \<Rightarrow> bool" where
  "swap_inv T c st \<longleftrightarrow> swst.index_ok (swst st)
     \<and> (\<forall>k r. swaps (swst st) k = Some r \<longrightarrow> swap_wf c r)
     \<and> (\<forall>a. swap_owed st a \<le> bal T (sww st) a c)"

lemma swap_index_ok_publish [simp]:
  "swst.index_ok (swap_publish e t i a s) = swst.index_ok s"
  by (simp add: swst.index_ok_def swst.ids_below_def)

lemma swap_invD:
  assumes "swap_inv T c st"
  shows "swst.index_ok (swst st)" and "finite (dom (swaps (swst st)))"
    and "swaps (swst st) k = Some r \<Longrightarrow> swap_wf c r"
    and "swaps (swst st) k = Some r \<Longrightarrow> sw_id r = k"
    and "swap_owed st a \<le> bal T (sww st) a c"
  using assms swst.index_ok_ids [of "swst st"]
  by (auto simp: swap_inv_def swst.ids_below_def)

text \<open>
  The shape of every call that rewrites one swap: the new record keeps the client key, and the
  contract's balance moves at least by as much as what it owes for that swap.
\<close>

lemma swap_inv_rewrite:
  assumes inv: "swap_inv T c st" and old: "swaps (swst st) k = Some r"
    and r': "sw_id r' = k" "swap_nkey r' = swap_nkey r" "swap_wf c r'"
    and bal: "\<And>a. bal T (sww st) a c + (swap_locked a r' - swap_locked a r) \<le> bal T w a c"
  shows "swap_inv T c \<lparr>swst = swap_publish e t i x (update_swap r' (swst st)), sww = w\<rparr>"
proof -
  note d = swap_invD [OF inv]
  have owed: "swap_owed \<lparr>swst = swap_publish e t i x (update_swap r' (swst st)), sww = w\<rparr> a
      = swap_owed st a - swap_locked a r + swap_locked a r'" for a
    using swst.total_put [OF d(2), of r' r "swap_locked a"] old r'(1)
    by (simp add: swap_owed_def)
  have "swst.index_ok (update_swap r' (swst st))"
    by (rule swst.index_ok_put [OF d(1) _ r'(2)]) (simp add: old r'(1))
  moreover have "swap_owed st a - swap_locked a r + swap_locked a r' \<le> bal T w a c" for a
    using bal [of a] d(5) [of a] by linarith
  ultimately show ?thesis
    using d(3) r' by (simp add: swap_inv_def owed)
qed

section \<open>Every call keeps the invariant\<close>

lemma create_swap_inv:
  assumes inv: "swap_inv T c st" and self: "\<not> authorized e c"
    and ok: "create_swap T e st cr p a n b m x nonce = Inr (k, st')"
  shows "swap_inv T c st'"
proof (cases "swap_find (swst st) (cr, nonce)")
  case (Some j)
  with ok inv show ?thesis by (simp add: create_swap_iff)
next
  case None
  let ?r = "swap_offer k nonce cr p a n b m x (now e)"
  note d = swap_invD [OF inv]
  from ok None obtain s1 where g: "authorized e cr" "0 < n" "0 < m" "a \<noteq> b" "cr \<noteq> p"
    and al: "swap_next_id (swst st) = Inr (k, s1)"
    and st': "st' = st\<lparr>swst := swap_publish e TCreated k cr (save_swap ?r s1)\<rparr>"
    by (auto simp: create_swap_iff)
  have idx: "swst.index_ok (save_swap ?r s1)"
    by (rule swst.index_ok_save [OF d(1) al]) (simp_all add: None)
  have wf: "swap_wf c ?r"
    using g self by (auto simp: swap_wf_def swap_offer_def)
  have "map_total (swap_locked y) ((swaps s1)(k \<mapsto> ?r)) = map_total (swap_locked y) (swaps (swst st))" for y
    using swst.total_alloc_put [OF swst.index_ok_ids [OF d(1)] al, of ?r "swap_locked y"]
    by (simp add: swap_locked_def swap_offer_def)
  with idx wf d(3,5) swst.alloc_lookup [OF al] show ?thesis
    by (simp add: swap_inv_def swap_owed_def st')
qed

lemma fund_swap_inv:
  assumes laws: "token_laws T" and inv: "swap_inv T c st" and self: "self_addr e = c" "\<not> authorized e c"
    and ok: "fund_swap T e st k f = Inr st'"
  shows "swap_inv T c st'"
proof -
  note d = swap_invD [OF inv]
  from ok obtain r v w' where g: "authorized e f" "swaps (swst st) k = Some r" "sw_is_party r f"
      "sw_state r = Created"
      "\<not> (if f = sw_creator r then sw_creator_funded r else sw_counterparty_funded r)"
    and tx: "tok_transfer T e (sww st) (swap_side_asset r f) f c (swap_side_amount r f) = Returned v w'"
    and st': "st' = \<lparr>swst = swap_publish e TFunded (sw_id r) f
      (update_swap (swap_funded_by r f) (swst st)), sww = w'\<rparr>"
    by (auto simp: fund_swap_iff self(1))
  have fc: "f \<noteq> c" using g(1) self(2) by blast
  have wf: "swap_wf c r" by (rule d(3) [OF g(2)])
  have wf': "swap_wf c (swap_funded_by r f)"
    using wf g fc by (auto simp: swap_wf_def swap_funded_by_def Let_def sw_is_party_def)
  have "bal T (sww st) a c + (swap_locked a (swap_funded_by r f) - swap_locked a r) \<le> bal T w' a c" for a
    using moved_in [OF token_laws_Returned [OF laws tx] fc, of a] g(4,5) wf
    by (auto simp: swap_locked_def swap_funded_by_def Let_def swap_open_def swap_side_asset_def
        swap_side_amount_def swap_wf_def)
  then show ?thesis
    unfolding st' by (intro swap_inv_rewrite [OF inv g(2) _ _ wf']) (simp_all add: d(4) [OF g(2)])
qed

lemma accept_swap_inv:
  assumes laws: "token_laws T" and inv: "swap_inv T c st" and self: "self_addr e = c" "\<not> authorized e c"
    and ok: "accept_swap T e st k f = Inr st'"
  shows "swap_inv T c st'"
proof -
  note d = swap_invD [OF inv]
  from ok obtain r v1 w1 v2 w2 where g: "authorized e f" "swaps (swst st) k = Some r"
      "f = sw_counterparty r" "sw_state r \<in> {Created, Funded}" "sw_creator_funded r"
      "sw_counterparty_funded r"
    and tx1: "tok_transfer T e (sww st) (sw_asset_a r) c (sw_counterparty r) (sw_amount_a r) = Returned v1 w1"
    and tx2: "tok_transfer T e w1 (sw_asset_b r) c (sw_creator r) (sw_amount_b r) = Returned v2 w2"
    and st': "st' = \<lparr>swst = swap_publish e TAccepted (sw_id r) (sw_counterparty r)
      (update_swap (r\<lparr>sw_state := Accepted\<rparr>) (swst st)), sww = w2\<rparr>"
    by (auto simp: accept_swap_iff self(1))
  have wf: "swap_wf c r" by (rule d(3) [OF g(2)])
  then have ne: "c \<noteq> sw_counterparty r" "c \<noteq> sw_creator r" using g(6) by (auto simp: swap_wf_def)
  have wf': "swap_wf c (r\<lparr>sw_state := Accepted\<rparr>)"
    using wf g by (simp add: swap_wf_def)
  have "bal T (sww st) a c + (swap_locked a (r\<lparr>sw_state := Accepted\<rparr>) - swap_locked a r) \<le> bal T w2 a c" for a
    using moved_out [OF token_laws_Returned [OF laws tx1] ne(1), of a]
      moved_out [OF token_laws_Returned [OF laws tx2] ne(2), of a] g(4,5,6)
    by (auto simp: swap_locked_def swap_open_def)
  then show ?thesis
    unfolding st'
    by (intro swap_inv_rewrite [OF inv g(2) _ _ wf']) (simp_all add: d(4) [OF g(2)] swap_nkey_def)
qed

lemma cancel_swap_inv:
  assumes inv: "swap_inv T c st" and ok: "cancel_swap e st k = Inr st'"
  shows "swap_inv T c st'"
proof -
  note d = swap_invD [OF inv]
  from ok obtain r where g: "swaps (swst st) k = Some r" "sw_state r = Created"
      "\<not> sw_counterparty_funded r" "\<not> sw_creator_funded r"
    and st': "st' = \<lparr>swst = swap_publish e TCancelled (sw_id r) (sw_creator r)
      (update_swap (r\<lparr>sw_state := Cancelled\<rparr>) (swst st)), sww = sww st\<rparr>"
    by (auto simp: cancel_swap_iff)
  have wf': "swap_wf c (r\<lparr>sw_state := Cancelled\<rparr>)"
    using d(3) [OF g(1)] g by (simp add: swap_wf_def)
  show ?thesis
    unfolding st'
    by (intro swap_inv_rewrite [OF inv g(1) _ _ wf'])
      (use g in \<open>simp_all add: d(4) [OF g(1)] swap_nkey_def swap_locked_def\<close>)
qed

lemma pay_if_out:
  assumes "token_laws T" and "pay_if b T e w asset y n w'" and "b \<Longrightarrow> self_addr e \<noteq> y"
  shows "bal T w' a (self_addr e) = bal T w a (self_addr e) - (if b \<and> a = asset then n else 0)"
  using assms by (auto simp: pay_if_def dest!: token_laws_Returned moved_out [where a = a] split: if_splits)

lemma pay_if_or_refuses:
  assumes "b \<Longrightarrow> 0 < n" and "b \<Longrightarrow> n \<le> bal T w asset (self_addr e)"
  shows "(\<exists>w'. pay_if b T e w asset y n w') \<or> (b \<and> token_refuses T e w asset y n)"
  using assms by (cases b) (auto simp: pay_if_def token_refuses_def)

lemma refund_swap_inv:
  assumes laws: "token_laws T" and inv: "swap_inv T c st" and self: "self_addr e = c"
    and ok: "refund_swap T e st k = Inr st'"
  shows "swap_inv T c st'"
proof -
  note d = swap_invD [OF inv]
  let ?r' = "\<lambda>r. r\<lparr>sw_state := Refunded, sw_creator_funded := False, sw_counterparty_funded := False\<rparr>"
  from ok obtain r w1 w2 where g: "swaps (swst st) k = Some r" "sw_state r \<in> {Created, Funded}"
    and p1: "pay_if (sw_creator_funded r) T e (sww st) (sw_asset_a r) (sw_creator r) (sw_amount_a r) w1"
    and p2: "pay_if (sw_counterparty_funded r) T e w1 (sw_asset_b r) (sw_counterparty r) (sw_amount_b r) w2"
    and st': "st' = \<lparr>swst = swap_publish e TRefunded (sw_id r) (sw_creator r)
      (update_swap (?r' r) (swst st)), sww = w2\<rparr>"
    unfolding refund_swap_iff by blast
  have wf: "swap_wf c r" by (rule d(3) [OF g(1)])
  have wf': "swap_wf c (?r' r)" using wf by (simp add: swap_wf_def)
  have "bal T (sww st) a c + (swap_locked a (?r' r) - swap_locked a r) \<le> bal T w2 a c" for a
    using pay_if_out [OF laws p1, of a] pay_if_out [OF laws p2, of a] g(2) wf
    by (auto simp: swap_locked_def swap_open_def swap_wf_def self)
  then show ?thesis
    unfolding st'
    by (intro swap_inv_rewrite [OF inv g(1) _ _ wf']) (simp_all add: d(4) [OF g(1)] swap_nkey_def)
qed

lemma set_min_expiry_inv:
  assumes "swap_inv T c st" and "set_min_expiry e st x y = Inr st'"
  shows "swap_inv T c st'"
  using assms by (auto simp: set_min_expiry_def res_simps store_min_expiry_def swap_inv_def
      swap_owed_def swst.index_ok_def swst.ids_below_def swap_counter_def swap_find_def
      swap_find_by_nonce_def)

lemma swap_exec_inv:
  assumes "token_laws T" and "swap_inv T c st" and "self_addr e = c" and "\<not> authorized e c"
    and "swap_exec T e st k = Inr st'"
  shows "swap_inv T c st'"
  using assms(5)
proof (cases k)
  case (CreateSwap cr p a n b m x nonce)
  with assms(5) show ?thesis
    by (auto simp: res_simps intro: create_swap_inv [OF assms(2,4)])
qed (use assms in \<open>auto intro: fund_swap_inv accept_swap_inv cancel_swap_inv refund_swap_inv
      set_min_expiry_inv\<close>)

lemma swap_step_inv:
  assumes "token_laws T" and "swap_inv T c st" and "swap_step T c st st'"
  shows "swap_inv T c st'"
  using assms(3)
proof cases
  case (swap_step_call e k)
  then show ?thesis using swap_exec_inv [OF assms(1,2)] by blast
next
  case (swap_step_world w)
  have "swap_owed st a \<le> bal T w a c" for a
    using swap_invD(5) [OF assms(2), of a] swap_step_world(2) [of a] by linarith
  then show ?thesis
    using assms(2) swap_step_world(1) by (simp add: swap_inv_def swap_owed_def)
qed

lemma swap_deployed_inv: "swap_deployed T c st \<Longrightarrow> swap_inv T c st"
  by (auto simp: swap_deployed_def swap_inv_def swap_owed_def swap_storage0_def swst.index_ok_def
      swst.ids_below_def swap_find_def swap_find_by_nonce_def)

end
