(* ===== verification/Atomic_Swap_Props.thy ===== *)
theory Atomic_Swap_Props
  imports Atomic_Swap_Inv
begin

text \<open>
  Properties of the atomic-swap contract over whole runs: its invariant as an instance of the
  transition-system interface, the shape of every step on the stored swaps, the abstract
  lifecycle that the steps refine, and the concrete runs used by the witnesses.
\<close>

section \<open>The contract as a machine with an invariant\<close>

interpretation swap_machine: machine_invariant "swap_deployed T c" "swap_step T c"
    "\<lambda>st. token_laws T \<longrightarrow> swap_inv T c st" for T :: "'w token_api" and c
  by unfold_locales (auto intro: swap_deployed_inv swap_step_inv)

section \<open>The effect of a call on the stored swaps\<close>

definition swap_terms :: "swap \<Rightarrow> nat \<times> (address \<times> nat) \<times> address \<times> address \<times> int \<times> address \<times> int \<times> nat" where
  "swap_terms r = (sw_id r, swap_nkey r, sw_counterparty r, sw_asset_a r, sw_amount_a r,
     sw_asset_b r, sw_amount_b r, sw_expiry r)"

text \<open>
  The abstract lifecycle of one swap: it fills from either side, and is settled once, either by
  the exchange (from full), by withdrawal (from empty) or by return of what was deposited.
\<close>

datatype swap_phase = Empty | Half bool | Full | Exchanged | Withdrawn | Returned_All

definition swap_phase_of :: "swap \<Rightarrow> swap_phase" where
  "swap_phase_of r = (case sw_state r of
       Accepted \<Rightarrow> Exchanged | Cancelled \<Rightarrow> Withdrawn | Refunded \<Rightarrow> Returned_All
     | _ \<Rightarrow> if sw_creator_funded r \<and> sw_counterparty_funded r then Full
            else if sw_creator_funded r then Half True
            else if sw_counterparty_funded r then Half False
            else Empty)"

inductive phase_step :: "swap_phase \<Rightarrow> swap_phase \<Rightarrow> bool" where
  phase_first: "phase_step Empty (Half b)"
| phase_second: "phase_step (Half b) Full"
| phase_exchange: "phase_step Full Exchanged"
| phase_withdraw: "phase_step Empty Withdrawn"
| phase_return_half: "phase_step (Half b) Returned_All"
| phase_return_full: "phase_step Full Returned_All"

inductive_simps phase_step_simps [simp]:
  "phase_step Empty p" "phase_step (Half b) p" "phase_step Full p"
  "phase_step Exchanged p" "phase_step Withdrawn p" "phase_step Returned_All p"

definition swap_frame :: "swap_storage \<Rightarrow> swap_storage \<Rightarrow> bool" where
  "swap_frame s s' \<longleftrightarrow> (swst.index_ok s \<longrightarrow> swst.index_ok s') \<and>
     (\<forall>k r. swst.index_ok s \<longrightarrow> swaps s k = Some r \<longrightarrow>
        (\<exists>r'. swaps s' k = Some r' \<and> swap_terms r' = swap_terms r \<and>
           (r' = r \<or> swap_open r \<and> phase_step (swap_phase_of r) (swap_phase_of r'))))"

lemma swap_frame_refl: "swap_frame s s"
  by (simp add: swap_frame_def)

lemma swap_frame_rewrite:
  assumes "swaps s k = Some r" and "swap_terms r' = swap_terms r" and "swap_open r"
    and "phase_step (swap_phase_of r) (swap_phase_of r')"
  shows "swap_frame s (swap_publish e t i x (update_swap r' s))"
proof -
  have eq: "sw_id r' = sw_id r" "swap_nkey r' = swap_nkey r"
    using assms(2) by (simp_all add: swap_terms_def)
  have key: "swst.index_ok s \<Longrightarrow> sw_id r = k"
    using swst.ids_below_key [OF swst.index_ok_ids] assms(1) by blast
  have "swst.index_ok s \<Longrightarrow> swst.index_ok (update_swap r' s)"
    using swst.index_ok_put [of s r' r] assms(1) eq key by simp
  then show ?thesis using assms key eq by (auto simp: swap_frame_def)
qed

lemma create_swap_frame:
  assumes "create_swap T e st cr p a n b m x nonce = Inr (k, st')"
  shows "swap_frame (swst st) (swst st')"
proof (cases "swap_find (swst st) (cr, nonce)")
  case (Some j)
  with assms show ?thesis by (simp add: create_swap_iff swap_frame_refl)
next
  case None
  let ?r = "swap_offer k nonce cr p a n b m x (now e)"
  from assms None obtain s1 where al: "swap_next_id (swst st) = Inr (k, s1)"
    and st': "st' = st\<lparr>swst := swap_publish e TCreated k cr (save_swap ?r s1)\<rparr>"
    by (auto simp: create_swap_iff)
  have "swst.index_ok (swst st) \<Longrightarrow> swst.index_ok (save_swap ?r s1)"
    by (rule swst.index_ok_save [OF _ al]) (simp_all add: None)
  moreover have "swst.index_ok (swst st) \<Longrightarrow> swaps (swst st) k = None"
    by (rule swst.alloc_fresh [OF swst.index_ok_ids al])
  ultimately show ?thesis
    using swst.alloc_lookup [OF al] by (auto simp: st' swap_frame_def)
qed

lemmas swap_phase_simps = swap_phase_of_def swap_terms_def swap_nkey_def swap_open_def

lemma fund_swap_frame: "fund_swap T e st k f = Inr st' \<Longrightarrow> swap_frame (swst st) (swst st')"
  unfolding fund_swap_iff
  by (elim exE conjE, simp, rule swap_frame_rewrite, assumption)
    (auto simp: swap_phase_simps swap_funded_by_def Let_def split: if_splits)

lemma accept_swap_frame: "accept_swap T e st k f = Inr st' \<Longrightarrow> swap_frame (swst st) (swst st')"
  unfolding accept_swap_iff
  by (elim exE conjE, simp, rule swap_frame_rewrite, assumption) (auto simp: swap_phase_simps)

lemma cancel_swap_frame: "cancel_swap e st k = Inr st' \<Longrightarrow> swap_frame (swst st) (swst st')"
  unfolding cancel_swap_iff
  by (elim exE conjE, simp, rule swap_frame_rewrite, assumption) (auto simp: swap_phase_simps)

lemma refund_swap_frame: "refund_swap T e st k = Inr st' \<Longrightarrow> swap_frame (swst st) (swst st')"
  unfolding refund_swap_iff
  by (elim exE conjE, simp, rule swap_frame_rewrite, assumption) (auto simp: swap_phase_simps)

lemma set_min_expiry_frame: "set_min_expiry e st x y = Inr st' \<Longrightarrow> swap_frame (swst st) (swst st')"
  by (auto simp: set_min_expiry_def res_simps store_min_expiry_def swap_frame_def
      swst.index_ok_def swst.ids_below_def swap_counter_def swap_find_def swap_find_by_nonce_def)

lemma swap_step_frame: "swap_step T c st st' \<Longrightarrow> swap_frame (swst st) (swst st')"
proof (induction rule: swap_step.induct)
  case (swap_step_call e st k st')
  then show ?case
    by (cases k) (auto simp: res_simps intro: create_swap_frame fund_swap_frame accept_swap_frame
        cancel_swap_frame refund_swap_frame set_min_expiry_frame)
next
  case (swap_step_world st w)
  show ?case by (simp add: swap_frame_refl)
qed

interpretation swap_index: machine_invariant "swap_deployed T c" "swap_step T c"
    "\<lambda>st. swst.index_ok (swst st)" for T :: "'w token_api" and c
proof unfold_locales
  fix st :: "'w swap_sys"
  assume "swap_deployed T c st"
  then show "swst.index_ok (swst st)"
    by (auto simp: swap_deployed_def swap_storage0_def swst.index_ok_def swst.ids_below_def
        swap_find_def swap_find_by_nonce_def)
next
  fix st st' :: "'w swap_sys"
  assume "swst.index_ok (swst st)" and "swap_step T c st st'"
  then show "swst.index_ok (swst st')"
    using swap_step_frame by (auto simp: swap_frame_def)
qed

section \<open>Runs for witnesses\<close>

definition swap_run :: "'w token_api \<Rightarrow> (env \<times> swap_call) list \<Rightarrow> 'w swap_sys \<Rightarrow> ('w swap_sys, swap_error) res" where
  "swap_run T = foldR (\<lambda>(e, k) st. swap_exec T e st k)"

lemma swap_run_steps:
  assumes "swap_run T xs st = Inr st'" and "\<forall>(e, k) \<in> set xs. self_addr e = c \<and> \<not> authorized e c"
  shows "(swap_step T c)\<^sup>*\<^sup>* st st'"
  using assms
proof (induction xs arbitrary: st)
  case Nil
  then show ?case by (simp add: swap_run_def)
next
  case (Cons x xs)
  obtain e k where x: "x = (e, k)" by (cases x)
  from Cons.prems(1) x obtain s1 where s1: "swap_exec T e st k = Inr s1" "swap_run T xs s1 = Inr st'"
    by (auto simp: swap_run_def res_simps)
  have "swap_step T c st s1"
    by (rule swap_step_call [of e]) (use Cons.prems(2) x s1 in auto)
  moreover have "(swap_step T c)\<^sup>*\<^sup>* s1 st'"
    by (rule Cons.IH) (use Cons.prems(2) s1 in auto)
  ultimately show ?case by (rule converse_rtranclp_into_rtranclp)
qed

text \<open>
  The demonstration run: address 1 offers 100 of asset 10 for 40 of asset 11 to address 2; both
  fund; the counterparty accepts. The contract is address 0.
\<close>

definition demo_swap0 :: "ledger swap_sys" where
  "demo_swap0 = \<lparr>swst = swap_storage0, sww = demo_ledger\<rparr>"

definition demo_fund_calls :: "(env \<times> swap_call) list" where
  "demo_fund_calls =
     [(demo_env 1 1000, CreateSwap (Addr 1) (Addr 2) (Addr 10) 100 (Addr 11) 40 5000 7),
      (demo_env 1 1001, FundSwap 1 (Addr 1)), (demo_env 2 1002, FundSwap 1 (Addr 2))]"

lemma demo_swap0_deployed: "swap_deployed ledger_api (Addr 0) demo_swap0"
  by (simp add: swap_deployed_def demo_swap0_def demo_ledger_def)

lemmas demo_swap_defs = swap_run_def demo_fund_calls_def demo_swap0_def demo_ledger_def demo_env_def
  swap_storage0_def create_swap_def fund_swap_def accept_swap_def refund_swap_def require_auth_def
  swap_has_trustline_def ledger_api_def ledger_transfer_def swap_transfer_token_no_auth_def
  swap_invoke_transfer_def swap_find_by_nonce_def swap_next_id_def u_add_def u_sat_add_def
  min_expiry_def DEFAULT_MIN_EXPIRY_def save_swap_def update_swap_def load_swap_def
  swap_publish_def sw_is_party_def

lemma demo_run_funded:
  "\<exists>st. swap_run ledger_api demo_fund_calls demo_swap0 = Inr st \<and> sww st (Addr 10, Addr 0) = 100
     \<and> sww st (Addr 11, Addr 0) = 40 \<and> swaps (swst st) 1 = Some \<lparr>sw_id = 1, sw_nonce = 7,
       sw_creator = Addr 1, sw_counterparty = Addr 2, sw_asset_a = Addr 10, sw_amount_a = 100,
       sw_asset_b = Addr 11, sw_amount_b = 40, sw_expiry = 5000, sw_state = Funded,
       sw_creator_funded = True, sw_counterparty_funded = True, sw_created_at = 1000\<rparr>"
  by (simp add: demo_swap_defs Let_def)

section \<open>Properties\<close>

lemma demo_swap0_reachable:
  "reachable (swap_deployed ledger_api (Addr 0)) (swap_step ledger_api (Addr 0)) demo_swap0"
  by (rule reach_init) (rule demo_swap0_deployed)

lemma demo_reachable:
  assumes "swap_run ledger_api demo_fund_calls demo_swap0 = Inr st"
  shows "reachable (swap_deployed ledger_api (Addr 0)) (swap_step ledger_api (Addr 0)) st"
  by (rule reachable_rtranclp [OF demo_swap0_reachable swap_run_steps [OF assms]])
    (simp add: demo_fund_calls_def demo_env_def)

text \<open>
  C10: solvency of the swap escrow. In every state the contract can reach, through any sequence
  of calls by anyone and any outside token movements that do not take from it, the contract
  holds at least the sum of all deposits of all open swaps, in every asset.
\<close>

theorem swap_solvent:
  assumes "token_laws T" and "reachable (swap_deployed T c) (swap_step T c) st"
  shows "(\<Sum>k\<in>dom (swaps (swst st)). swap_locked a (the (swaps (swst st) k))) \<le> bal T (sww st) a c"
  using swap_machine.inv_reachable [OF assms(2)] assms(1)
  by (auto simp: swap_inv_def swap_owed_def map_total_def)

theorem swap_solvent_witness:
  "\<exists>st. swap_run ledger_api demo_fund_calls demo_swap0 = Inr st \<and> swaps (swst st) 1 \<noteq> None \<and>
     sww st (Addr 10, Addr 0) = 100 \<and>
     (\<Sum>k\<in>dom (swaps (swst st)). swap_locked (Addr 10) (the (swaps (swst st) k))) \<le> 100"
proof -
  obtain st where st: "swap_run ledger_api demo_fund_calls demo_swap0 = Inr st"
      "sww st (Addr 10, Addr 0) = 100" "swaps (swst st) 1 \<noteq> None"
    using demo_run_funded by auto
  show ?thesis
    using swap_solvent [OF ledger_laws demo_reachable [OF st(1)], of "Addr 10"] st by auto
qed

text \<open>
  C4: the exchange is all-or-nothing and exact. A successful \<open>accept_swap\<close> was made by the
  authorised counterparty, before the expiry, on a fully funded open swap; it pays side A to the
  counterparty and side B to the creator out of the contract, marks that swap \<open>Accepted\<close>, and
  changes no other swap.
\<close>

theorem accept_swap_exchange:
  assumes "token_laws T" and "reachable (swap_deployed T c) (swap_step T c) st"
    and "self_addr e = c" and "\<not> authorized e c"
    and "accept_swap T e st k p = Inr st'"
  shows "\<exists>r. swaps (swst st) k = Some r \<and> swap_phase_of r = Full \<and> p = sw_counterparty r
      \<and> authorized e p \<and> now e < sw_expiry r
      \<and> swaps (swst st') = (swaps (swst st))(k \<mapsto> r\<lparr>sw_state := Accepted\<rparr>)
      \<and> bal T (sww st') (sw_asset_a r) p = bal T (sww st) (sw_asset_a r) p + sw_amount_a r
      \<and> bal T (sww st') (sw_asset_b r) (sw_creator r) = bal T (sww st) (sw_asset_b r) (sw_creator r) + sw_amount_b r
      \<and> bal T (sww st') (sw_asset_a r) c = bal T (sww st) (sw_asset_a r) c - sw_amount_a r
      \<and> bal T (sww st') (sw_asset_b r) c = bal T (sww st) (sw_asset_b r) c - sw_amount_b r"
proof -
  have inv: "swap_inv T c st"
    using swap_machine.inv_reachable [OF assms(2)] assms(1) by simp
  from assms(5) obtain r v1 w1 v2 w2 where g: "authorized e p" "swaps (swst st) k = Some r"
      "p = sw_counterparty r" "sw_state r \<in> {Created, Funded}" "sw_creator_funded r"
      "sw_counterparty_funded r" "now e < sw_expiry r"
    and tx1: "tok_transfer T e (sww st) (sw_asset_a r) c p (sw_amount_a r) = Returned v1 w1"
    and tx2: "tok_transfer T e w1 (sw_asset_b r) c (sw_creator r) (sw_amount_b r) = Returned v2 w2"
    and st': "st' = \<lparr>swst = swap_publish e TAccepted (sw_id r) (sw_counterparty r)
      (update_swap (r\<lparr>sw_state := Accepted\<rparr>) (swst st)), sww = w2\<rparr>"
    by (auto simp: accept_swap_iff assms(3))
  have wf: "swap_wf c r" and id: "sw_id r = k" using swap_invD [OF inv] g(2) by auto
  note bals = moved_bal [OF token_laws_Returned [OF assms(1) tx1]]
    moved_bal [OF token_laws_Returned [OF assms(1) tx2]]
  show ?thesis
    using g wf id by (auto simp: st' bals swap_phase_of_def swap_wf_def)
qed

theorem accept_swap_exchange_witness:
  "\<exists>st st' r. swap_run ledger_api demo_fund_calls demo_swap0 = Inr st \<and>
     accept_swap ledger_api (demo_env 2 2000) st 1 (Addr 2) = Inr st' \<and>
     swaps (swst st) 1 = Some r \<and> sw_asset_a r = Addr 10 \<and> sw_amount_a r = 100 \<and>
     sww st' (Addr 10, Addr 2) = sww st (Addr 10, Addr 2) + 100"
proof -
  obtain st r where st: "swap_run ledger_api demo_fund_calls demo_swap0 = Inr st"
    and r: "swaps (swst st) 1 = Some r" "sw_asset_a r = Addr 10" "sw_amount_a r = 100"
    and pre: "\<exists>st'. accept_swap ledger_api (demo_env 2 2000) st 1 (Addr 2) = Inr st'"
    by (simp add: demo_swap_defs Let_def)
  from pre obtain st' where ok: "accept_swap ledger_api (demo_env 2 2000) st 1 (Addr 2) = Inr st'" ..
  have e: "self_addr (demo_env 2 2000) = Addr 0" "\<not> authorized (demo_env 2 2000) (Addr 0)"
    by (simp_all add: demo_env_def)
  show ?thesis
    using accept_swap_exchange [OF ledger_laws demo_reachable [OF st] e ok] st ok r by auto
qed

text \<open>
  C20: the steps of the contract refine the abstract lifecycle. Along any single step of a
  reachable state, a stored swap keeps its terms (parties, assets, amounts, expiry, id), and its
  phase either stays or makes one move of the abstract machine \<open>phase_step\<close>.
\<close>

theorem swap_refines_lifecycle:
  assumes "reachable (swap_deployed T c) (swap_step T c) st" and "swap_step T c st st'"
    and "swaps (swst st) k = Some r"
  shows "\<exists>r'. swaps (swst st') k = Some r' \<and> swap_terms r' = swap_terms r \<and>
    phase_step\<^sup>=\<^sup>= (swap_phase_of r) (swap_phase_of r')"
  using swap_step_frame [OF assms(2)] swap_index.inv_reachable [OF assms(1)] assms(3)
  by (fastforce simp: swap_frame_def)

theorem swap_refines_lifecycle_witness:
  "\<exists>st st' r'. swap_run ledger_api demo_fund_calls demo_swap0 = Inr st \<and>
     swap_step ledger_api (Addr 0) st st' \<and> swaps (swst st') 1 = Some r' \<and>
     sw_amount_a r' = 100 \<and> phase_step\<^sup>=\<^sup>= Full (swap_phase_of r')"
proof -
  obtain st r where st: "swap_run ledger_api demo_fund_calls demo_swap0 = Inr st"
    and r: "swaps (swst st) 1 = Some r" "sw_amount_a r = 100" "swap_phase_of r = Full"
    and pre: "\<exists>st'. accept_swap ledger_api (demo_env 2 2000) st 1 (Addr 2) = Inr st'"
    by (simp add: demo_swap_defs Let_def swap_phase_of_def)
  from pre obtain st' where "accept_swap ledger_api (demo_env 2 2000) st 1 (Addr 2) = Inr st'" ..
  then have step: "swap_step ledger_api (Addr 0) st st'"
    by (intro swap_step_call [of "demo_env 2 2000" _ _ _ "AcceptSwap 1 (Addr 2)"])
      (simp_all add: demo_env_def)
  show ?thesis
    using swap_refines_lifecycle [OF demo_reachable [OF st] step r(1)] st step r
    by (auto simp: swap_terms_def)
qed

text \<open>
  Settled swaps are final. Once a swap is accepted, cancelled or refunded, no later sequence
  of steps changes its record in any way.
\<close>

theorem settled_swap_final:
  assumes "reachable (swap_deployed T c) (swap_step T c) st" and "(swap_step T c)\<^sup>*\<^sup>* st st'"
    and "swaps (swst st) k = Some r" and "sw_state r \<in> {Accepted, Cancelled, Refunded}"
  shows "swaps (swst st') k = Some r"
proof (rule swap_index.stable_rtranclp [OF _ assms(2)])
  show "swst.index_ok (swst st)" by (rule swap_index.inv_reachable [OF assms(1)])
next
  fix s t :: "'a swap_sys"
  assume "swst.index_ok (swst s)" and "swap_step T c s t" and "swaps (swst s) k = Some r"
  then show "swaps (swst t) k = Some r"
    using swap_step_frame assms(4) by (fastforce simp: swap_frame_def swap_open_def)
qed (rule assms(3))

theorem settled_swap_final_witness:
  "\<exists>st st1 st2 r. swap_run ledger_api demo_fund_calls demo_swap0 = Inr st \<and>
     swap_run ledger_api [(demo_env 2 2000, AcceptSwap 1 (Addr 2))] st = Inr st1 \<and>
     swap_run ledger_api [(demo_env 1 9000, SetMinExpiry (Addr 1) 5)] st1 = Inr st2 \<and>
     sw_state r = Accepted \<and> swaps (swst st2) 1 = Some r"
proof -
  obtain st st1 st2 r where st: "swap_run ledger_api demo_fund_calls demo_swap0 = Inr st"
    and st1: "swap_run ledger_api [(demo_env 2 2000, AcceptSwap 1 (Addr 2))] st = Inr st1"
    and st2: "swap_run ledger_api [(demo_env 1 9000, SetMinExpiry (Addr 1) 5)] st1 = Inr st2"
    and r: "swaps (swst st1) 1 = Some r" "sw_state r = Accepted"
    by (simp add: demo_swap_defs Let_def set_min_expiry_def)
  have reach: "reachable (swap_deployed ledger_api (Addr 0)) (swap_step ledger_api (Addr 0)) st1"
    by (rule reachable_rtranclp [OF demo_reachable [OF st] swap_run_steps [OF st1]])
      (simp add: demo_env_def)
  have run: "(swap_step ledger_api (Addr 0))\<^sup>*\<^sup>* st1 st2"
    by (rule swap_run_steps [OF st2]) (simp add: demo_env_def)
  show ?thesis
    using settled_swap_final [OF reach run r(1)] st st1 st2 r(2) by auto
qed

text \<open>
  Creation is idempotent. After \<open>create_swap\<close> returned an id for a creator and a nonce, any
  later successful call with the same creator and nonce, whatever its other arguments and
  whatever happened in between, returns that id and changes nothing.
\<close>

theorem create_swap_idempotent:
  assumes "reachable (swap_deployed T c) (swap_step T c) st"
    and "create_swap T e st cr p a n b m x nonce = Inr (k, st1)"
    and "\<not> authorized e c" and "self_addr e = c"
    and "(swap_step T c)\<^sup>*\<^sup>* st1 st2"
    and "create_swap T e' st2 cr p' a' n' b' m' x' nonce = Inr (k', st3)"
  shows "k' = k \<and> st3 = st2"
proof -
  have step: "swap_step T c st st1"
    by (rule swap_step_call [of e _ _ _ "CreateSwap cr p a n b m x nonce"])
      (use assms in \<open>simp_all add: res_simps\<close>)
  have ok1: "swst.index_ok (swst st1)"
    by (rule swap_index.inv_reachable [OF reach_step [OF assms(1) step]])
  have f1: "swap_find (swst st1) (cr, nonce) = Some k"
    using assms(2) swst.find_alloc
    by (cases "swap_find (swst st) (cr, nonce)") (auto simp: create_swap_iff)
  then obtain r where r: "swaps (swst st1) k = Some r" "swap_nkey r = (cr, nonce)"
    using ok1 by (auto simp: swst.index_ok_def)
  have "\<exists>r'. swaps (swst st2) k = Some r' \<and> swap_nkey r' = (cr, nonce)"
  proof (rule swap_index.stable_rtranclp [OF _ assms(5) ok1])
    fix s t :: "'a swap_sys"
    assume "swst.index_ok (swst s)" and "swap_step T c s t"
      and "\<exists>r'. swaps (swst s) k = Some r' \<and> swap_nkey r' = (cr, nonce)"
    then show "\<exists>r'. swaps (swst t) k = Some r' \<and> swap_nkey r' = (cr, nonce)"
      using swap_step_frame by (fastforce simp: swap_frame_def swap_terms_def)
  qed (use r in blast)
  then have "swap_find (swst st2) (cr, nonce) = Some k"
    using swap_index.inv_rtranclp [OF assms(5) ok1] by (auto simp: swst.index_ok_def)
  with assms(6) show ?thesis by (simp add: create_swap_iff)
qed

theorem create_swap_idempotent_witness:
  "\<exists>k st1 k' st3. create_swap ledger_api (demo_env 1 1000) demo_swap0 (Addr 1) (Addr 2) (Addr 10)
       100 (Addr 11) 40 5000 7 = Inr (k, st1) \<and>
     create_swap ledger_api (demo_env 1 1000) st1 (Addr 1) (Addr 3) (Addr 10) 1 (Addr 12) 2 6000 7
       = Inr (k', st3) \<and> k' = k \<and> st3 = st1"
proof -
  obtain k st1 k' st3 where c1: "create_swap ledger_api (demo_env 1 1000) demo_swap0 (Addr 1) (Addr 2)
      (Addr 10) 100 (Addr 11) 40 5000 7 = Inr (k, st1)"
    and c2: "create_swap ledger_api (demo_env 1 1000) st1 (Addr 1) (Addr 3) (Addr 10) 1 (Addr 12) 2 6000 7
      = Inr (k', st3)"
    by (simp add: demo_swap_defs Let_def)
  have e: "\<not> authorized (demo_env 1 1000) (Addr 0)" "self_addr (demo_env 1 1000) = Addr 0"
    by (simp_all add: demo_env_def)
  show ?thesis
    using create_swap_idempotent [OF demo_swap0_reachable c1 e rtranclp.rtrancl_refl c2]
      c1 c2 by blast
qed

text \<open>
  C25: deposits are recoverable, and only a token can stand in the way. Whenever a swap that is not
  settled holds a deposit of either party and its expiry has passed, \<open>refund_swap\<close> authorised by the
  creator succeeds and gives each party exactly its deposit back, unless the token of a deposit
  refuses: the call of its \<open>transfer\<close> for that amount, which the contract holds, does not return the
  \<open>i128\<close> the contract asks for.
\<close>

theorem refund_swap_available:
  assumes "token_laws T"
    and "reachable (swap_deployed T c) (swap_step T c) st" and "self_addr e = c"
    and "swaps (swst st) k = Some r" and "swap_open r"
    and "sw_creator_funded r \<or> sw_counterparty_funded r"
    and "sw_expiry r \<le> now e" and "authorized e (sw_creator r)"
  shows "(\<exists>st'. refund_swap T e st k = Inr st'
      \<and> bal T (sww st') (sw_asset_a r) (sw_creator r) = bal T (sww st) (sw_asset_a r) (sw_creator r)
          + (if sw_creator_funded r then sw_amount_a r else 0)
      \<and> bal T (sww st') (sw_asset_b r) (sw_counterparty r) = bal T (sww st) (sw_asset_b r) (sw_counterparty r)
          + (if sw_counterparty_funded r then sw_amount_b r else 0))
    \<or> (sw_creator_funded r \<and> token_refuses T e (sww st) (sw_asset_a r) (sw_creator r) (sw_amount_a r))
    \<or> (sw_counterparty_funded r \<and> (\<exists>w. pay_if (sw_creator_funded r) T e (sww st) (sw_asset_a r) (sw_creator r) (sw_amount_a r) w
          \<and> token_refuses T e w (sw_asset_b r) (sw_counterparty r) (sw_amount_b r)))"
    (is "?paid \<or> ?ra \<or> ?rb")
proof -
  have inv: "swap_inv T c st"
    using swap_machine.inv_reachable [OF assms(2)] assms(1) by simp
  note d = swap_invD [OF inv]
  have wf: "swap_wf c r" by (rule d(3) [OF assms(4)])
  have owed: "swap_locked a r \<le> bal T (sww st) a c" for a
  proof -
    have "swap_locked a r \<le> swap_owed st a"
      unfolding swap_owed_def
      by (rule map_total_ge_member [OF d(2) assms(4)])
        (use d(3) in \<open>fastforce simp: swap_locked_def swap_wf_def\<close>)
    with d(5) [of a] show ?thesis by linarith
  qed
  have pos: "0 < sw_amount_a r" "0 < sw_amount_b r" using wf by (simp_all add: swap_wf_def)
  have a: "sw_creator_funded r \<Longrightarrow> sw_amount_a r \<le> bal T (sww st) (sw_asset_a r) (self_addr e)"
    using owed [of "sw_asset_a r"] wf assms(3,5) by (auto simp: swap_locked_def swap_wf_def split: if_splits)
  from pay_if_or_refuses [OF pos(1) a] consider ?ra
    | w1 where "pay_if (sw_creator_funded r) T e (sww st) (sw_asset_a r) (sw_creator r) (sw_amount_a r) w1" by blast
  then show ?thesis
  proof cases
    case p1: 2
    have "bal T w1 (sw_asset_b r) c = bal T (sww st) (sw_asset_b r) c"
      using pay_if_out [OF assms(1) p1, of "sw_asset_b r"] wf by (auto simp: assms(3) swap_wf_def)
    then have b: "sw_counterparty_funded r \<Longrightarrow> sw_amount_b r \<le> bal T w1 (sw_asset_b r) (self_addr e)"
      using owed [of "sw_asset_b r"] wf assms(3,5) by (auto simp: swap_locked_def swap_wf_def split: if_splits)
    from pay_if_or_refuses [OF pos(2) b] consider ?rb
      | w2 where "pay_if (sw_counterparty_funded r) T e w1 (sw_asset_b r) (sw_counterparty r) (sw_amount_b r) w2"
      using p1 by blast
    then show ?thesis
    proof cases
      case p2: 2
      have "\<exists>st'. refund_swap T e st k = Inr st' \<and> sww st' = w2"
        unfolding refund_swap_iff using assms(4-8) p1 p2 by (force simp: swap_open_def)
      moreover have "bal T w2 (sw_asset_a r) (sw_creator r) = bal T (sww st) (sw_asset_a r) (sw_creator r)
          + (if sw_creator_funded r then sw_amount_a r else 0)"
        and "bal T w2 (sw_asset_b r) (sw_counterparty r) = bal T (sww st) (sw_asset_b r) (sw_counterparty r)
          + (if sw_counterparty_funded r then sw_amount_b r else 0)"
        using p1 p2 wf assms(3)
        by (auto simp: pay_if_def swap_wf_def moved_bal [OF token_laws_Returned [OF assms(1)]] split: if_splits)
      ultimately show ?thesis by auto
    qed blast
  qed blast
qed

theorem refund_swap_available_witness:
  "\<exists>st st'. swap_run ledger_api demo_fund_calls demo_swap0 = Inr st \<and>
     refund_swap ledger_api (demo_env 1 5000) st 1 = Inr st' \<and>
     sww st' (Addr 10, Addr 1) = sww st (Addr 10, Addr 1) + 100"
proof -
  obtain st r where st: "swap_run ledger_api demo_fund_calls demo_swap0 = Inr st"
    and r: "swaps (swst st) 1 = Some r" "sw_asset_a r = Addr 10" "sw_amount_a r = 100"
      "sw_creator r = Addr 1" "sw_state r = Funded" "sw_creator_funded r" "sw_expiry r = 5000"
    by (simp add: demo_swap_defs Let_def)
  show ?thesis
    using refund_swap_available [OF ledger_laws demo_reachable [OF st], of "demo_env 1 5000" 1 r] st r
    by (auto simp: demo_env_def swap_open_def ledger_never_refuses)
qed

text \<open>
  The contract does not work with standard tokens. \<open>invoke_transfer\<close> asks for an \<open>i128\<close>
  from \<open>transfer\<close>, which the SEP-41 interface does not return: with any such token no reachable
  state holds a funded side of any swap, because every \<open>fund_swap\<close> ends in an error.
\<close>

theorem sep41_tokens_never_fund:
  assumes "token_returns_void T" and "reachable (swap_deployed T c) (swap_step T c) st"
    and "swaps (swst st) k = Some r"
  shows "\<not> sw_creator_funded r \<and> \<not> sw_counterparty_funded r"
proof -
  define Q where "Q s \<longleftrightarrow> (\<forall>k r. swaps (swst s) k = Some r \<longrightarrow>
    \<not> sw_creator_funded r \<and> \<not> sw_counterparty_funded r)" for s :: "'a swap_sys"
  have no_fund: "fund_swap T e s j f \<noteq> Inr s'" and no_accept: "accept_swap T e s j f \<noteq> Inr s'"
    for e s j f s'
    using assms(1) by (auto simp: fund_swap_iff accept_swap_iff token_returns_void_def)
  have create: "Q s \<Longrightarrow> create_swap T e s cr p a n b m x nonce = Inr (j, s') \<Longrightarrow> Q s'"
    for e s cr p a n b m x nonce j s'
    by (auto simp: create_swap_iff Q_def swap_offer_def res_simps split: option.splits if_splits)
  have cancel: "Q s \<Longrightarrow> cancel_swap e s j = Inr s' \<Longrightarrow> Q s'" for e s j s'
    by (auto simp: cancel_swap_iff Q_def split: if_splits)
  have refund: "Q s \<Longrightarrow> refund_swap T e s j = Inr s' \<Longrightarrow> Q s'" for e s j s'
    unfolding refund_swap_iff Q_def by (elim exE conjE) (auto split: if_splits)
  have expiry: "Q s \<Longrightarrow> set_min_expiry e s y x = Inr s' \<Longrightarrow> Q s'" for e s x y s'
    by (auto simp: set_min_expiry_def res_simps Q_def store_min_expiry_def)
  from assms(2) have "Q st"
  proof (induction rule: reachable.induct)
    case (reach_init s)
    then show ?case by (simp add: Q_def swap_deployed_def swap_storage0_def)
  next
    case (reach_step s t)
    from reach_step.hyps(2) show ?case
    proof cases
      case (swap_step_call e j)
      with reach_step.IH show ?thesis
        by (cases j) (auto simp: res_simps no_fund no_accept intro: create cancel refund expiry)
    next
      case (swap_step_world w)
      with reach_step.IH show ?thesis by (simp add: Q_def)
    qed
  qed
  with assms(3) show ?thesis by (auto simp: Q_def)
qed

definition sep41_swap1 :: "(ledger swap_sys, swap_error) res" where
  "sep41_swap1 = swap_run sep41_api (take 1 demo_fund_calls) demo_swap0"

theorem sep41_tokens_never_fund_witness:
  "\<exists>st r. sep41_swap1 = Inr st \<and> swaps (swst st) 1 = Some r \<and> sw_state r = Created \<and>
     \<not> sw_creator_funded r \<and> \<not> sw_counterparty_funded r"
proof -
  obtain st r where st: "swap_run sep41_api (take 1 demo_fund_calls) demo_swap0 = Inr st"
    and r: "swaps (swst st) 1 = Some r" "sw_state r = Created"
    by (simp add: demo_swap_defs Let_def sep41_api_def void_transfer_def)
  have "swap_deployed sep41_api (Addr 0) demo_swap0"
    by (simp add: swap_deployed_def demo_swap0_def demo_ledger_def)
  then have "reachable (swap_deployed sep41_api (Addr 0)) (swap_step sep41_api (Addr 0)) demo_swap0"
    by (rule reach_init)
  then have "reachable (swap_deployed sep41_api (Addr 0)) (swap_step sep41_api (Addr 0)) st"
    by (rule reachable_rtranclp) (rule swap_run_steps [OF st], simp add: demo_fund_calls_def demo_env_def)
  from sep41_tokens_never_fund [OF sep41_void this r(1)] show ?thesis
    using st r by (auto simp: sep41_swap1_def)
qed

end
