(* ===== verification/Escrow_Dispute.thy ===== *)
theory Escrow_Dispute
  imports Soroban
begin

text \<open>
  The escrow contract with dispute resolution (\<open>swaptrade-contracts/escrow-dispute/src\<close>): types,
  events, storage module and entry points, in the order of the source.
\<close>

section \<open>Types (types.rs, errors.rs, events.rs)\<close>

datatype escrow_error =
    EscrowNotFound | Unauthorized | MissingTrustline | InvalidState | InvalidAmount
  | InvalidTimelock | DisputeExpired | DisputeAlreadyResolved | NoEvidenceSubmitted
  | TransferFailed | DuplicateVote | InsufficientSignatures | DeadlineNotReached

datatype escrow_state = Created | Funded | Escrowed | Disputed | Released | Refunded

datatype dispute_status = Open | ResolvedRelease | ResolvedRefund | AutoRefunded

type_synonym bytes32 = "8 word list"

record escrow =
  es_id :: nat
  es_nonce :: nat
  es_seller :: address
  es_buyer :: address
  es_asset :: address
  es_amount :: int
  es_state :: escrow_state
  es_created_at :: nat

definition es_is_party :: "escrow \<Rightarrow> address \<Rightarrow> bool" where
  "es_is_party escrow addr \<longleftrightarrow> addr = es_seller escrow \<or> addr = es_buyer escrow"

record dispute =
  dp_escrow_id :: nat
  dp_raised_by :: address
  dp_status :: dispute_status
  dp_raised_at :: nat
  dp_deadline :: nat
  dp_evidence_count :: nat
  dp_vote_count :: nat

record dispute_evidence =
  ev_hash :: bytes32
  ev_submitted_by :: address
  ev_submitted_at :: nat
  ev_description :: string

record dispute_vote =
  vt_signer :: address
  vt_in_favour_of_release :: bool
  vt_voted_at :: nat

datatype escrow_event =
    EvCreated nat address address address int nat
  | EvFunded nat address address int nat
  | EvDisputed nat address nat nat
  | EvEvidence nat address bytes32 string nat
  | EvResolved nat address string nat
  | EvReleased nat address address int nat
  | EvRefunded nat address address int nat
  | EvAutoRefund nat nat nat

section \<open>Storage (storage.rs)\<close>

record escrow_storage =
  escrows :: "nat \<rightharpoonup> escrow"
  escrow_nonces :: "(address \<times> nat) \<rightharpoonup> nat"
  disputes :: "nat \<rightharpoonup> dispute"
  evidences :: "nat \<rightharpoonup> dispute_evidence list"
  dvotes :: "nat \<rightharpoonup> dispute_vote list"
  escrow_nxid :: "nat option"
  esigners :: "address list option"
  ethreshold :: "nat option"
  emin_timelock :: "nat option"
  edispute_window :: "nat option"
  escrow_log :: "escrow_event list"

definition escrow_storage0 :: escrow_storage where
  "escrow_storage0 = \<lparr>escrows = Map.empty, escrow_nonces = Map.empty, disputes = Map.empty,
     evidences = Map.empty, dvotes = Map.empty, escrow_nxid = None, esigners = None,
     ethreshold = None, emin_timelock = None, edispute_window = None, escrow_log = []\<rparr>"

definition escrow_counter :: "escrow_storage \<Rightarrow> nat" where
  "escrow_counter s = (case escrow_nxid s of None \<Rightarrow> 1 | Some n \<Rightarrow> n)"

definition escrow_next_id :: "escrow_storage \<Rightarrow> (nat \<times> escrow_storage, escrow_error) res" where
  "escrow_next_id s =
     (let id = (case escrow_nxid s of None \<Rightarrow> 1 | Some n \<Rightarrow> n)
      in bindR (u_add 64 id 1) (\<lambda>n. Inr (id, s\<lparr>escrow_nxid := Some n\<rparr>)))"

definition escrow_find_by_nonce :: "escrow_storage \<Rightarrow> address \<Rightarrow> nat \<Rightarrow> nat option" where
  "escrow_find_by_nonce s seller nonce = escrow_nonces s (seller, nonce)"

definition update_escrow :: "escrow \<Rightarrow> escrow_storage \<Rightarrow> escrow_storage" where
  "update_escrow escrow s = s\<lparr>escrows := (escrows s)(es_id escrow \<mapsto> escrow)\<rparr>"

definition save_escrow :: "escrow \<Rightarrow> escrow_storage \<Rightarrow> escrow_storage" where
  "save_escrow escrow s =
     s\<lparr>escrows := (escrows s)(es_id escrow \<mapsto> escrow),
       escrow_nonces := (escrow_nonces s)((es_seller escrow, es_nonce escrow) \<mapsto> es_id escrow)\<rparr>"

definition load_escrow :: "escrow_storage \<Rightarrow> nat \<Rightarrow> (escrow, escrow_error) res" where
  "load_escrow s escrow_id = ok_or (escrows s escrow_id) (Err EscrowNotFound)"

definition save_dispute :: "dispute \<Rightarrow> escrow_storage \<Rightarrow> escrow_storage" where
  "save_dispute dispute s = s\<lparr>disputes := (disputes s)(dp_escrow_id dispute \<mapsto> dispute)\<rparr>"

definition update_dispute :: "dispute \<Rightarrow> escrow_storage \<Rightarrow> escrow_storage" where
  "update_dispute dispute s = s\<lparr>disputes := (disputes s)(dp_escrow_id dispute \<mapsto> dispute)\<rparr>"

definition load_dispute :: "escrow_storage \<Rightarrow> nat \<Rightarrow> (dispute, escrow_error) res" where
  "load_dispute s escrow_id = ok_or (disputes s escrow_id) (Err EscrowNotFound)"

definition get_evidence :: "escrow_storage \<Rightarrow> nat \<Rightarrow> dispute_evidence list" where
  "get_evidence s escrow_id = (case evidences s escrow_id of None \<Rightarrow> [] | Some list \<Rightarrow> list)"

definition append_evidence :: "nat \<Rightarrow> dispute_evidence \<Rightarrow> escrow_storage \<Rightarrow> escrow_storage" where
  "append_evidence escrow_id evidence s =
     s\<lparr>evidences := (evidences s)(escrow_id \<mapsto> get_evidence s escrow_id @ [evidence])\<rparr>"

definition get_votes :: "escrow_storage \<Rightarrow> nat \<Rightarrow> dispute_vote list" where
  "get_votes s escrow_id = (case dvotes s escrow_id of None \<Rightarrow> [] | Some vs \<Rightarrow> vs)"

definition record_vote :: "nat \<Rightarrow> dispute_vote \<Rightarrow> escrow_storage \<Rightarrow> (escrow_storage, escrow_error) res" where
  "record_vote escrow_id vote s =
     (let votes = get_votes s escrow_id
      in if list_ex (\<lambda>v. vt_signer v = vt_signer vote) votes then Inl (Err DuplicateVote)
         else Inr (s\<lparr>dvotes := (dvotes s)(escrow_id \<mapsto> votes @ [vote])\<rparr>))"

text \<open>
  The two counting loops. A host vector has fewer than \<open>2^32\<close> elements, so the \<open>u32\<close> counter
  cannot overflow.
\<close>

fun count_votes :: "bool \<Rightarrow> dispute_vote list \<Rightarrow> nat" where
  "count_votes b [] = 0"
| "count_votes b (v # vs) = (if vt_in_favour_of_release v = b then 1 else 0) + count_votes b vs"

definition count_release_votes :: "escrow_storage \<Rightarrow> nat \<Rightarrow> nat" where
  "count_release_votes s escrow_id = count_votes True (get_votes s escrow_id)"

definition count_refund_votes :: "escrow_storage \<Rightarrow> nat \<Rightarrow> nat" where
  "count_refund_votes s escrow_id = count_votes False (get_votes s escrow_id)"

definition load_signers :: "escrow_storage \<Rightarrow> address list" where
  "load_signers s = (case esigners s of None \<Rightarrow> [] | Some xs \<Rightarrow> xs)"

definition load_threshold :: "escrow_storage \<Rightarrow> nat" where
  "load_threshold s = (case ethreshold s of None \<Rightarrow> 0 | Some n \<Rightarrow> n)"

definition es_is_signer :: "escrow_storage \<Rightarrow> address \<Rightarrow> bool" where
  "es_is_signer s address \<longleftrightarrow> list_ex (\<lambda>x. x = address) (load_signers s)"

definition DEFAULT_MIN_TIMELOCK :: nat where
  "DEFAULT_MIN_TIMELOCK = 3600"

definition DEFAULT_DISPUTE_WINDOW :: nat where
  "DEFAULT_DISPUTE_WINDOW = 604800"

definition min_timelock :: "escrow_storage \<Rightarrow> nat" where
  "min_timelock s = (case emin_timelock s of None \<Rightarrow> DEFAULT_MIN_TIMELOCK | Some x \<Rightarrow> x)"

definition dispute_window :: "escrow_storage \<Rightarrow> nat" where
  "dispute_window s = (case edispute_window s of None \<Rightarrow> DEFAULT_DISPUTE_WINDOW | Some x \<Rightarrow> x)"

definition escrow_has_trustline :: "'w token_api \<Rightarrow> 'w \<Rightarrow> address \<Rightarrow> address \<Rightarrow> bool" where
  "escrow_has_trustline T w address asset \<longleftrightarrow> tok_balance T w asset address \<noteq> None"

definition escrow_invoke_transfer :: "'w token_api \<Rightarrow> env \<Rightarrow> 'w \<Rightarrow> address \<Rightarrow> address \<Rightarrow> address \<Rightarrow> int
    \<Rightarrow> (int \<times> 'w, escrow_error) res" where
  "escrow_invoke_transfer T e w asset x y amount =
     (case tok_transfer T e w asset x y amount of
        Returned transferred w' \<Rightarrow> Inr (transferred, w')
      | Returned_Void _ \<Rightarrow> Inl (Err TransferFailed)
      | Returned_Other _ \<Rightarrow> Inl (Err TransferFailed)
      | Call_Failed \<Rightarrow> Inl (Err TransferFailed))"

definition escrow_transfer_token_no_auth :: "'w token_api \<Rightarrow> env \<Rightarrow> 'w \<Rightarrow> address \<Rightarrow> address \<Rightarrow> address
    \<Rightarrow> int \<Rightarrow> (int \<times> 'w, escrow_error) res" where
  "escrow_transfer_token_no_auth T e w asset x y amount = escrow_invoke_transfer T e w asset x y amount"

definition escrow_publish :: "escrow_event \<Rightarrow> escrow_storage \<Rightarrow> escrow_storage" where
  "escrow_publish ev s = s\<lparr>escrow_log := escrow_log s @ [ev]\<rparr>"

section \<open>Events (events.rs)\<close>

definition escrow_created :: "env \<Rightarrow> escrow \<Rightarrow> escrow_storage \<Rightarrow> escrow_storage" where
  "escrow_created e r = escrow_publish
     (EvCreated (es_id r) (es_seller r) (es_buyer r) (es_asset r) (es_amount r) (now e))"

definition escrow_funded :: "env \<Rightarrow> escrow \<Rightarrow> escrow_storage \<Rightarrow> escrow_storage" where
  "escrow_funded e r = escrow_publish (EvFunded (es_id r) (es_buyer r) (es_asset r) (es_amount r) (now e))"

definition dispute_raised :: "dispute \<Rightarrow> escrow_storage \<Rightarrow> escrow_storage" where
  "dispute_raised d = escrow_publish
     (EvDisputed (dp_escrow_id d) (dp_raised_by d) (dp_deadline d) (dp_raised_at d))"

definition evidence_submitted :: "dispute \<Rightarrow> dispute_evidence \<Rightarrow> escrow_storage \<Rightarrow> escrow_storage" where
  "evidence_submitted d ev = escrow_publish
     (EvEvidence (dp_escrow_id d) (ev_submitted_by ev) (ev_hash ev) (ev_description ev) (ev_submitted_at ev))"

definition dispute_resolved :: "env \<Rightarrow> dispute \<Rightarrow> address \<Rightarrow> escrow_storage \<Rightarrow> escrow_storage" where
  "dispute_resolved e d resolved_by = escrow_publish
     (EvResolved (dp_escrow_id d) resolved_by
        (case dp_status d of ResolvedRelease \<Rightarrow> ''release'' | ResolvedRefund \<Rightarrow> ''refund''
         | _ \<Rightarrow> ''unknown'') (now e))"

definition escrow_released :: "env \<Rightarrow> escrow \<Rightarrow> escrow_storage \<Rightarrow> escrow_storage" where
  "escrow_released e r = escrow_publish (EvReleased (es_id r) (es_seller r) (es_asset r) (es_amount r) (now e))"

definition escrow_refunded :: "env \<Rightarrow> escrow \<Rightarrow> escrow_storage \<Rightarrow> escrow_storage" where
  "escrow_refunded e r = escrow_publish (EvRefunded (es_id r) (es_buyer r) (es_asset r) (es_amount r) (now e))"

definition dispute_auto_refunded :: "env \<Rightarrow> dispute \<Rightarrow> escrow_storage \<Rightarrow> escrow_storage" where
  "dispute_auto_refunded e d = escrow_publish (EvAutoRefund (dp_escrow_id d) (dp_deadline d) (now e))"

section \<open>Entry points (lib.rs)\<close>

record 'w escrow_sys =
  esst :: escrow_storage
  esw :: 'w

definition all_signers_of :: "address \<Rightarrow> address list \<Rightarrow> address list" where
  "all_signers_of admin signers = admin # filter (\<lambda>s. s \<noteq> admin) signers"

definition initialize :: "env \<Rightarrow> 'w escrow_sys \<Rightarrow> address \<Rightarrow> address list \<Rightarrow> nat \<Rightarrow> nat
    \<Rightarrow> ('w escrow_sys, escrow_error) res" where
  "initialize e st admin signers threshold timelock_duration =
     bindR (require_auth e admin) (\<lambda>_.
     bindR (ensure (threshold \<noteq> 0) Trap) (\<lambda>_.
     let all_signers = all_signers_of admin signers in
     bindR (ensure (\<not> length all_signers < threshold) Trap) (\<lambda>_.
     Inr (st\<lparr>esst := (esst st)\<lparr>esigners := Some all_signers, ethreshold := Some threshold,
            edispute_window := Some timelock_duration\<rparr>\<rparr>))))"

definition create_escrow :: "'w token_api \<Rightarrow> env \<Rightarrow> 'w escrow_sys \<Rightarrow> address \<Rightarrow> address \<Rightarrow> address \<Rightarrow> int
    \<Rightarrow> nat \<Rightarrow> nat \<Rightarrow> (nat \<times> 'w escrow_sys, escrow_error) res" where
  "create_escrow T e st seller buyer asset amount timelock nonce =
     bindR (require_auth e seller) (\<lambda>_.
     bindR (ensure (\<not> amount \<le> 0) (Err InvalidAmount)) (\<lambda>_.
     bindR (ensure (seller \<noteq> buyer) (Err Unauthorized)) (\<lambda>_.
     bindR (ensure (\<not> timelock < min_timelock (esst st)) (Err InvalidTimelock)) (\<lambda>_.
     bindR (ensure (escrow_has_trustline T (esw st) seller asset) (Err MissingTrustline)) (\<lambda>_.
     (case escrow_find_by_nonce (esst st) seller nonce of
        Some existing_id \<Rightarrow> Inr (existing_id, st)
      | None \<Rightarrow>
          bindR (escrow_next_id (esst st)) (\<lambda>(id, s1).
          let escrow = \<lparr>es_id = id, es_nonce = nonce, es_seller = seller, es_buyer = buyer,
                es_asset = asset, es_amount = amount, es_state = Created, es_created_at = now e\<rparr>
          in Inr (id, st\<lparr>esst := escrow_created e escrow (save_escrow escrow s1)\<rparr>))))))))"

definition fund_escrow :: "'w token_api \<Rightarrow> env \<Rightarrow> 'w escrow_sys \<Rightarrow> nat \<Rightarrow> address
    \<Rightarrow> ('w escrow_sys, escrow_error) res" where
  "fund_escrow T e st escrow_id funder =
     bindR (require_auth e funder) (\<lambda>_.
     bindR (load_escrow (esst st) escrow_id) (\<lambda>escrow.
     bindR (ensure (funder = es_buyer escrow) (Err Unauthorized)) (\<lambda>_.
     bindR (ensure (es_state escrow = Created) (Err InvalidState)) (\<lambda>_.
     bindR (ensure (escrow_has_trustline T (esw st) funder (es_asset escrow)) (Err MissingTrustline)) (\<lambda>_.
     bindR (escrow_transfer_token_no_auth T e (esw st) (es_asset escrow) funder (self_addr e)
              (es_amount escrow)) (\<lambda>(_, w').
     let escrow1 = escrow\<lparr>es_state := Escrowed\<rparr>
     in Inr \<lparr>esst = escrow_funded e escrow1 (update_escrow escrow1 (esst st)), esw = w'\<rparr>))))))"

definition raise_dispute :: "env \<Rightarrow> 'w escrow_sys \<Rightarrow> nat \<Rightarrow> address \<Rightarrow> nat
    \<Rightarrow> ('w escrow_sys, escrow_error) res" where
  "raise_dispute e st escrow_id disputer window =
     bindR (require_auth e disputer) (\<lambda>_.
     bindR (load_escrow (esst st) escrow_id) (\<lambda>escrow.
     bindR (ensure (es_is_party escrow disputer) (Err Unauthorized)) (\<lambda>_.
     bindR (ensure (es_state escrow = Escrowed) (Err InvalidState)) (\<lambda>_.
     let deadline = u_sat_add 64 (now e) window;
         dispute = \<lparr>dp_escrow_id = escrow_id, dp_raised_by = disputer, dp_status = Open,
           dp_raised_at = now e, dp_deadline = deadline, dp_evidence_count = 0, dp_vote_count = 0\<rparr>;
         escrow1 = escrow\<lparr>es_state := Disputed\<rparr>
     in Inr (st\<lparr>esst := dispute_raised dispute
          (save_dispute dispute (update_escrow escrow1 (esst st)))\<rparr>)))))"

definition submit_evidence :: "env \<Rightarrow> 'w escrow_sys \<Rightarrow> nat \<Rightarrow> address \<Rightarrow> bytes32 \<Rightarrow> string
    \<Rightarrow> ('w escrow_sys, escrow_error) res" where
  "submit_evidence e st escrow_id submitter evidence_hash description =
     bindR (require_auth e submitter) (\<lambda>_.
     bindR (load_dispute (esst st) escrow_id) (\<lambda>dispute.
     bindR (load_escrow (esst st) escrow_id) (\<lambda>escrow.
     bindR (ensure (es_is_party escrow submitter) (Err Unauthorized)) (\<lambda>_.
     bindR (ensure (dp_status dispute = Open) (Err DisputeAlreadyResolved)) (\<lambda>_.
     let evidence = \<lparr>ev_hash = evidence_hash, ev_submitted_by = submitter,
           ev_submitted_at = now e, ev_description = description\<rparr> in
     bindR (u_add 64 (dp_evidence_count dispute) 1) (\<lambda>n.
     let dispute1 = dispute\<lparr>dp_evidence_count := n\<rparr>
     in Inr (st\<lparr>esst := evidence_submitted dispute1 evidence
          (append_evidence escrow_id evidence (update_dispute dispute1 (esst st)))\<rparr>)))))))"

definition vote :: "env \<Rightarrow> 'w escrow_sys \<Rightarrow> nat \<Rightarrow> address \<Rightarrow> bool \<Rightarrow> ('w escrow_sys, escrow_error) res" where
  "vote e st escrow_id signer in_favour_of_release =
     bindR (require_auth e signer) (\<lambda>_.
     bindR (load_dispute (esst st) escrow_id) (\<lambda>dispute.
     bindR (ensure (dp_status dispute = Open) (Err DisputeAlreadyResolved)) (\<lambda>_.
     bindR (ensure (es_is_signer (esst st) signer) (Err Unauthorized)) (\<lambda>_.
     bindR (record_vote escrow_id \<lparr>vt_signer = signer,
              vt_in_favour_of_release = in_favour_of_release, vt_voted_at = now e\<rparr> (esst st)) (\<lambda>s1.
     Inr (st\<lparr>esst := s1\<rparr>))))))"

definition resolve_dispute :: "'w token_api \<Rightarrow> env \<Rightarrow> 'w escrow_sys \<Rightarrow> nat \<Rightarrow> address
    \<Rightarrow> ('w escrow_sys, escrow_error) res" where
  "resolve_dispute T e st escrow_id resolver =
     bindR (require_auth e resolver) (\<lambda>_.
     bindR (load_dispute (esst st) escrow_id) (\<lambda>dispute.
     bindR (load_escrow (esst st) escrow_id) (\<lambda>escrow.
     bindR (ensure (dp_status dispute = Open) (Err DisputeAlreadyResolved)) (\<lambda>_.
     bindR (ensure (es_is_signer (esst st) resolver) (Err Unauthorized)) (\<lambda>_.
     let threshold = load_threshold (esst st);
         release_votes = count_release_votes (esst st) escrow_id;
         refund_votes = count_refund_votes (esst st) escrow_id
     in if threshold \<le> release_votes then
          (let dispute1 = dispute\<lparr>dp_status := ResolvedRelease\<rparr>;
               escrow1 = escrow\<lparr>es_state := Released\<rparr>
           in bindR (escrow_transfer_token_no_auth T e (esw st) (es_asset escrow1) (self_addr e)
                       (es_seller escrow1) (es_amount escrow1)) (\<lambda>(_, w').
              Inr \<lparr>esst = escrow_released e escrow1 (dispute_resolved e dispute1 resolver
                     (update_dispute dispute1 (update_escrow escrow1 (esst st)))), esw = w'\<rparr>))
        else if threshold \<le> refund_votes then
          (let dispute1 = dispute\<lparr>dp_status := ResolvedRefund\<rparr>;
               escrow1 = escrow\<lparr>es_state := Refunded\<rparr>
           in bindR (escrow_transfer_token_no_auth T e (esw st) (es_asset escrow1) (self_addr e)
                       (es_buyer escrow1) (es_amount escrow1)) (\<lambda>(_, w').
              Inr \<lparr>esst = escrow_refunded e escrow1 (dispute_resolved e dispute1 resolver
                     (update_dispute dispute1 (update_escrow escrow1 (esst st)))), esw = w'\<rparr>))
        else Inl (Err InsufficientSignatures))))))"

definition auto_refund :: "'w token_api \<Rightarrow> env \<Rightarrow> 'w escrow_sys \<Rightarrow> nat \<Rightarrow> ('w escrow_sys, escrow_error) res" where
  "auto_refund T e st escrow_id =
     bindR (load_dispute (esst st) escrow_id) (\<lambda>dispute.
     bindR (load_escrow (esst st) escrow_id) (\<lambda>escrow.
     bindR (ensure (dp_status dispute = Open) (Err DisputeAlreadyResolved)) (\<lambda>_.
     bindR (ensure (\<not> now e < dp_deadline dispute) (Err DeadlineNotReached)) (\<lambda>_.
     let dispute1 = dispute\<lparr>dp_status := AutoRefunded\<rparr>;
         escrow1 = escrow\<lparr>es_state := Refunded\<rparr> in
     bindR (escrow_transfer_token_no_auth T e (esw st) (es_asset escrow1) (self_addr e)
              (es_buyer escrow1) (es_amount escrow1)) (\<lambda>(_, w').
     Inr \<lparr>esst = escrow_refunded e escrow1 (dispute_auto_refunded e dispute1
            (update_dispute dispute1 (update_escrow escrow1 (esst st)))), esw = w'\<rparr>)))))"

definition cancel_escrow :: "env \<Rightarrow> 'w escrow_sys \<Rightarrow> nat \<Rightarrow> ('w escrow_sys, escrow_error) res" where
  "cancel_escrow e st escrow_id =
     bindR (load_escrow (esst st) escrow_id) (\<lambda>escrow.
     bindR (require_auth e (es_seller escrow)) (\<lambda>_.
     bindR (ensure (es_state escrow = Created) (Err InvalidState)) (\<lambda>_.
     Inr (st\<lparr>esst := update_escrow (escrow\<lparr>es_state := Refunded\<rparr>) (esst st)\<rparr>))))"

text \<open>Read-only queries, and the two configuration setters that any authorised caller may use.\<close>

definition get_escrow :: "'w escrow_sys \<Rightarrow> nat \<Rightarrow> (escrow, escrow_error) res" where
  "get_escrow st escrow_id = load_escrow (esst st) escrow_id"

definition get_dispute :: "'w escrow_sys \<Rightarrow> nat \<Rightarrow> (dispute, escrow_error) res" where
  "get_dispute st escrow_id = load_dispute (esst st) escrow_id"

definition set_dispute_window :: "env \<Rightarrow> 'w escrow_sys \<Rightarrow> address \<Rightarrow> nat \<Rightarrow> ('w escrow_sys, escrow_error) res" where
  "set_dispute_window e st caller seconds =
     bindR (require_auth e caller) (\<lambda>_. Inr (st\<lparr>esst := (esst st)\<lparr>edispute_window := Some seconds\<rparr>\<rparr>))"

definition set_min_timelock :: "env \<Rightarrow> 'w escrow_sys \<Rightarrow> address \<Rightarrow> nat \<Rightarrow> ('w escrow_sys, escrow_error) res" where
  "set_min_timelock e st caller seconds =
     bindR (require_auth e caller) (\<lambda>_. Inr (st\<lparr>esst := (esst st)\<lparr>emin_timelock := Some seconds\<rparr>\<rparr>))"

end
