(* ===== verification/Escrow_Dispute_Inv.thy ===== *)
theory Escrow_Dispute_Inv
  imports Escrow_Dispute
begin

text \<open>
  The storage module of the escrow contract as an indexed store (escrows) and a keyed store
  (disputes), and each entry point reduced to its guards and writes.
\<close>

section \<open>The storage module\<close>

lemma escrows_simps [simp]:
  "escrows (update_escrow r s) = (escrows s)(es_id r \<mapsto> r)"
  "escrows (save_escrow r s) = (escrows s)(es_id r \<mapsto> r)"
  "escrows (escrow_publish ev s) = escrows s"
  "escrows (update_dispute d s) = escrows s"
  "escrows (save_dispute d s) = escrows s"
  "escrows (append_evidence k x s) = escrows s"
  by (simp_all add: update_escrow_def save_escrow_def escrow_publish_def update_dispute_def
      save_dispute_def append_evidence_def)

lemma disputes_simps [simp]:
  "disputes (update_escrow r s) = disputes s"
  "disputes (save_escrow r s) = disputes s"
  "disputes (escrow_publish ev s) = disputes s"
  "disputes (update_dispute d s) = (disputes s)(dp_escrow_id d \<mapsto> d)"
  "disputes (save_dispute d s) = (disputes s)(dp_escrow_id d \<mapsto> d)"
  "disputes (append_evidence k x s) = disputes s"
  by (simp_all add: update_escrow_def save_escrow_def escrow_publish_def update_dispute_def
      save_dispute_def append_evidence_def)

lemma get_evidence_simps [simp]:
  "get_evidence (update_escrow r s) = get_evidence s"
  "get_evidence (save_escrow r s) = get_evidence s"
  "get_evidence (escrow_publish ev s) = get_evidence s"
  "get_evidence (update_dispute d s) = get_evidence s"
  "get_evidence (save_dispute d s) = get_evidence s"
  "get_evidence (append_evidence k x s) = (get_evidence s)(k := get_evidence s k @ [x])"
  by (simp_all add: update_escrow_def save_escrow_def escrow_publish_def update_dispute_def
      save_dispute_def append_evidence_def get_evidence_def fun_eq_iff)

lemma get_votes_simps [simp]:
  "get_votes (update_escrow r s) = get_votes s"
  "get_votes (save_escrow r s) = get_votes s"
  "get_votes (escrow_publish ev s) = get_votes s"
  "get_votes (update_dispute d s) = get_votes s"
  "get_votes (save_dispute d s) = get_votes s"
  "get_votes (append_evidence k x s) = get_votes s"
  by (simp_all add: update_escrow_def save_escrow_def escrow_publish_def update_dispute_def
      save_dispute_def append_evidence_def get_votes_def fun_eq_iff)

lemma escrow_counter_simps [simp]:
  "escrow_counter (s\<lparr>escrow_nxid := Some n\<rparr>) = n"
  "escrow_counter (update_escrow r s) = escrow_counter s"
  "escrow_counter (save_escrow r s) = escrow_counter s"
  "escrow_counter (escrow_publish ev s) = escrow_counter s"
  "escrow_counter (update_dispute d s) = escrow_counter s"
  "escrow_counter (save_dispute d s) = escrow_counter s"
  "escrow_counter (append_evidence k x s) = escrow_counter s"
  by (simp_all add: escrow_counter_def update_escrow_def save_escrow_def escrow_publish_def
      update_dispute_def save_dispute_def append_evidence_def)

lemma escrow_next_id_eq_Inr [res_simps]:
  "escrow_next_id s = Inr (k, s') \<longleftrightarrow>
    k = escrow_counter s \<and> s' = s\<lparr>escrow_nxid := Some (Suc k)\<rparr> \<and> Suc k < 2 ^ 64"
  by (auto simp: escrow_next_id_def escrow_counter_def res_simps Let_def)

definition escrow_find :: "escrow_storage \<Rightarrow> (address \<times> nat) \<rightharpoonup> nat" where
  "escrow_find s p = escrow_find_by_nonce s (fst p) (snd p)"

definition escrow_nkey :: "escrow \<Rightarrow> address \<times> nat" where
  "escrow_nkey r = (es_seller r, es_nonce r)"

lemma escrow_find_simps [simp]:
  "escrow_find (update_escrow r s) = escrow_find s"
  "escrow_find (escrow_publish ev s) = escrow_find s"
  "escrow_find (s\<lparr>escrow_nxid := n\<rparr>) = escrow_find s"
  "escrow_find (save_escrow r s) = (escrow_find s)(escrow_nkey r \<mapsto> es_id r)"
  "escrow_find (update_dispute d s) = escrow_find s"
  "escrow_find (save_dispute d s) = escrow_find s"
  "escrow_find (append_evidence k x s) = escrow_find s"
  by (auto simp: escrow_find_def escrow_find_by_nonce_def update_escrow_def escrow_publish_def
      save_escrow_def escrow_nkey_def update_dispute_def save_dispute_def append_evidence_def
      fun_eq_iff)

interpretation escst: nonce_store escrows update_escrow es_id escrow_counter escrow_next_id
    escrow_find save_escrow escrow_nkey
  by unfold_locales (auto simp: res_simps)

interpretation dispst: keyed_store disputes update_dispute dp_escrow_id
  by unfold_locales simp

lemma escrow_transfer_eq_Inr [res_simps]:
  "escrow_transfer_token_no_auth T e w asset x y n = Inr (v, w') \<longleftrightarrow>
    tok_transfer T e w asset x y n = Returned v w'"
  by (auto simp: escrow_transfer_token_no_auth_def escrow_invoke_transfer_def split: call_outcome.splits)

lemma load_escrow_eq_Inr [res_simps]: "load_escrow s k = Inr r \<longleftrightarrow> escrows s k = Some r"
  by (simp add: load_escrow_def res_simps)

lemma load_dispute_eq_Inr [res_simps]: "load_dispute s k = Inr d \<longleftrightarrow> disputes s k = Some d"
  by (simp add: load_dispute_def res_simps)

lemmas escrow_event_defs = escrow_created_def escrow_funded_def dispute_raised_def
  evidence_submitted_def dispute_resolved_def escrow_released_def escrow_refunded_def
  dispute_auto_refunded_def

section \<open>Votes\<close>

lemma count_votes_filter: "count_votes b vs = length (filter (\<lambda>v. vt_in_favour_of_release v = b) vs)"
  by (induction vs) auto

text \<open>With distinct signers, the count of votes is the number of signers that voted that way.\<close>

definition voters :: "escrow_storage \<Rightarrow> nat \<Rightarrow> bool \<Rightarrow> address set" where
  "voters s k b = vt_signer ` {v \<in> set (get_votes s k). vt_in_favour_of_release v = b}"

lemma card_voters:
  assumes "distinct (map vt_signer (get_votes s k))"
  shows "card (voters s k b) = count_votes b (get_votes s k)"
proof -
  let ?vs = "filter (\<lambda>v. vt_in_favour_of_release v = b) (get_votes s k)"
  have "distinct (map vt_signer ?vs)" using assms by (rule distinct_map_filter)
  then have "card (set (map vt_signer ?vs)) = length ?vs"
    by (metis distinct_card length_map)
  then show ?thesis by (simp add: voters_def count_votes_filter)
qed

lemma record_vote_eq_Inr [res_simps]:
  "record_vote k v s = Inr s' \<longleftrightarrow> vt_signer v \<notin> vt_signer ` set (get_votes s k)
     \<and> s' = s\<lparr>dvotes := (dvotes s)(k \<mapsto> get_votes s k @ [v])\<rparr>"
  by (cases "\<exists>u \<in> set (get_votes s k). vt_signer u = vt_signer v")
    (auto simp: record_vote_def Let_def list_ex_iff image_iff intro: sym)

section \<open>Successful calls as guards and writes\<close>

definition escrow_offer :: "nat \<Rightarrow> nat \<Rightarrow> address \<Rightarrow> address \<Rightarrow> address \<Rightarrow> int \<Rightarrow> nat \<Rightarrow> escrow" where
  "escrow_offer k nonce sl b a n t = \<lparr>es_id = k, es_nonce = nonce, es_seller = sl, es_buyer = b,
     es_asset = a, es_amount = n, es_state = Created, es_created_at = t\<rparr>"

lemma escrow_offer_simps [simp]:
  "es_id (escrow_offer k nonce sl b a n t) = k"
  "escrow_nkey (escrow_offer k nonce sl b a n t) = (sl, nonce)"
  "es_state (escrow_offer k nonce sl b a n t) = Created"
  by (simp_all add: escrow_offer_def escrow_nkey_def)

lemma create_escrow_iff:
  "create_escrow T e st sl b a n lock nonce = Inr (k, st') \<longleftrightarrow>
    authorized e sl \<and> 0 < n \<and> sl \<noteq> b \<and> min_timelock (esst st) \<le> lock
    \<and> escrow_has_trustline T (esw st) sl a
    \<and> (case escrow_find (esst st) (sl, nonce) of
         Some j \<Rightarrow> k = j \<and> st' = st
       | None \<Rightarrow> \<exists>s1. escrow_next_id (esst st) = Inr (k, s1) \<and>
           st' = st\<lparr>esst := escrow_created e (escrow_offer k nonce sl b a n (now e))
             (save_escrow (escrow_offer k nonce sl b a n (now e)) s1)\<rparr>)"
  by (cases "escrow_find (esst st) (sl, nonce)")
    (auto simp: create_escrow_def bindR_eq_Inr require_auth_eq_Inr ensure_eq_Inr escrow_find_def
      Let_def escrow_offer_def)

lemma fund_escrow_iff:
  "fund_escrow T e st k f = Inr st' \<longleftrightarrow>
    (\<exists>r v w'. authorized e f \<and> escrows (esst st) k = Some r \<and> f = es_buyer r \<and> es_state r = Created
       \<and> escrow_has_trustline T (esw st) f (es_asset r)
       \<and> tok_transfer T e (esw st) (es_asset r) f (self_addr e) (es_amount r) = Returned v w'
       \<and> st' = \<lparr>esst = escrow_funded e (r\<lparr>es_state := Escrowed\<rparr>)
                  (update_escrow (r\<lparr>es_state := Escrowed\<rparr>) (esst st)), esw = w'\<rparr>)"
  by (auto simp: fund_escrow_def res_simps Let_def)

definition new_dispute :: "env \<Rightarrow> nat \<Rightarrow> address \<Rightarrow> nat \<Rightarrow> dispute" where
  "new_dispute e k x window = \<lparr>dp_escrow_id = k, dp_raised_by = x, dp_status = Open,
     dp_raised_at = now e, dp_deadline = u_sat_add 64 (now e) window, dp_evidence_count = 0,
     dp_vote_count = 0\<rparr>"

lemma new_dispute_simps [simp]:
  "dp_escrow_id (new_dispute e k x w) = k" "dp_status (new_dispute e k x w) = Open"
  "dp_evidence_count (new_dispute e k x w) = 0" "dp_vote_count (new_dispute e k x w) = 0"
  "dp_deadline (new_dispute e k x w) = u_sat_add 64 (now e) w"
  by (simp_all add: new_dispute_def)

lemma raise_dispute_iff:
  "raise_dispute e st k x window = Inr st' \<longleftrightarrow>
    (\<exists>r. authorized e x \<and> escrows (esst st) k = Some r \<and> es_is_party r x \<and> es_state r = Escrowed
       \<and> st' = st\<lparr>esst := dispute_raised (new_dispute e k x window)
           (save_dispute (new_dispute e k x window)
             (update_escrow (r\<lparr>es_state := Disputed\<rparr>) (esst st)))\<rparr>)"
  by (auto simp: raise_dispute_def res_simps Let_def new_dispute_def)

lemma submit_evidence_iff:
  "submit_evidence e st k x h txt = Inr st' \<longleftrightarrow>
    (\<exists>d r. authorized e x \<and> disputes (esst st) k = Some d \<and> escrows (esst st) k = Some r
       \<and> es_is_party r x \<and> dp_status d = Open \<and> Suc (dp_evidence_count d) < 2 ^ 64
       \<and> (let ev = \<lparr>ev_hash = h, ev_submitted_by = x, ev_submitted_at = now e, ev_description = txt\<rparr>;
              d1 = d\<lparr>dp_evidence_count := Suc (dp_evidence_count d)\<rparr>
          in st' = st\<lparr>esst := evidence_submitted d1 ev
               (append_evidence k ev (update_dispute d1 (esst st)))\<rparr>))"
  by (auto simp: submit_evidence_def res_simps Let_def)

lemma vote_iff:
  "vote e st k x b = Inr st' \<longleftrightarrow>
    (\<exists>d. authorized e x \<and> disputes (esst st) k = Some d \<and> dp_status d = Open
       \<and> es_is_signer (esst st) x \<and> x \<notin> vt_signer ` set (get_votes (esst st) k)
       \<and> st' = st\<lparr>esst := (esst st)\<lparr>dvotes := (dvotes (esst st))(k \<mapsto> get_votes (esst st) k @
             [\<lparr>vt_signer = x, vt_in_favour_of_release = b, vt_voted_at = now e\<rparr>])\<rparr>\<rparr>)"
  by (auto simp: vote_def res_simps)

text \<open>The common shape of the three ways in which a disputed escrow is settled.\<close>

definition settle_write :: "(escrow_storage \<Rightarrow> escrow_storage) \<Rightarrow> dispute \<Rightarrow> dispute_status \<Rightarrow> escrow
    \<Rightarrow> escrow_state \<Rightarrow> escrow_storage \<Rightarrow> escrow_storage" where
  "settle_write pub d x r y s =
     pub (update_dispute (d\<lparr>dp_status := x\<rparr>) (update_escrow (r\<lparr>es_state := y\<rparr>) s))"

lemma resolve_dispute_iff:
  "resolve_dispute T e st k x = Inr st' \<longleftrightarrow>
    (\<exists>d r v w'. authorized e x \<and> disputes (esst st) k = Some d \<and> escrows (esst st) k = Some r
       \<and> dp_status d = Open \<and> es_is_signer (esst st) x
       \<and> (if load_threshold (esst st) \<le> count_release_votes (esst st) k
          then tok_transfer T e (esw st) (es_asset r) (self_addr e) (es_seller r) (es_amount r) = Returned v w'
            \<and> st' = \<lparr>esst = settle_write (\<lambda>s. escrow_released e (r\<lparr>es_state := Released\<rparr>)
                (dispute_resolved e (d\<lparr>dp_status := ResolvedRelease\<rparr>) x s))
                d ResolvedRelease r Released (esst st), esw = w'\<rparr>
          else load_threshold (esst st) \<le> count_refund_votes (esst st) k
            \<and> tok_transfer T e (esw st) (es_asset r) (self_addr e) (es_buyer r) (es_amount r) = Returned v w'
            \<and> st' = \<lparr>esst = settle_write (\<lambda>s. escrow_refunded e (r\<lparr>es_state := Refunded\<rparr>)
                (dispute_resolved e (d\<lparr>dp_status := ResolvedRefund\<rparr>) x s))
                d ResolvedRefund r Refunded (esst st), esw = w'\<rparr>))"
  by (cases "load_threshold (esst st) \<le> count_release_votes (esst st) k";
      cases "load_threshold (esst st) \<le> count_refund_votes (esst st) k")
    (auto simp: resolve_dispute_def res_simps Let_def settle_write_def)

lemma auto_refund_iff:
  "auto_refund T e st k = Inr st' \<longleftrightarrow>
    (\<exists>d r v w'. disputes (esst st) k = Some d \<and> escrows (esst st) k = Some r
       \<and> dp_status d = Open \<and> dp_deadline d \<le> now e
       \<and> tok_transfer T e (esw st) (es_asset r) (self_addr e) (es_buyer r) (es_amount r) = Returned v w'
       \<and> st' = \<lparr>esst = settle_write (\<lambda>s. escrow_refunded e (r\<lparr>es_state := Refunded\<rparr>)
            (dispute_auto_refunded e (d\<lparr>dp_status := AutoRefunded\<rparr>) s))
            d AutoRefunded r Refunded (esst st), esw = w'\<rparr>)"
  by (auto simp: auto_refund_def res_simps Let_def settle_write_def not_less)

lemma cancel_escrow_iff:
  "cancel_escrow e st k = Inr st' \<longleftrightarrow>
    (\<exists>r. escrows (esst st) k = Some r \<and> authorized e (es_seller r) \<and> es_state r = Created
       \<and> st' = st\<lparr>esst := update_escrow (r\<lparr>es_state := Refunded\<rparr>) (esst st)\<rparr>)"
  by (auto simp: cancel_escrow_def res_simps)

text \<open>
  The escrow contract as a transition system and its invariant: the escrow index is one-to-one,
  the dispute of an escrow agrees with the escrow's state, evidence and votes are consistent,
  and the contract holds every amount in escrow. One preservation lemma per entry point.
\<close>

section \<open>Calls and steps\<close>

datatype escrow_call =
    Initialize address "address list" nat nat
  | CreateEscrow address address address int nat nat
  | FundEscrow nat address
  | RaiseDispute nat address nat
  | SubmitEvidence nat address bytes32 string
  | Vote nat address bool
  | ResolveDispute nat address
  | AutoRefund nat
  | CancelEscrow nat
  | SetDisputeWindow address nat
  | SetMinTimelock address nat

fun escrow_exec :: "'w token_api \<Rightarrow> env \<Rightarrow> 'w escrow_sys \<Rightarrow> escrow_call \<Rightarrow> ('w escrow_sys, escrow_error) res" where
  "escrow_exec T e st (Initialize x xs n d) = initialize e st x xs n d"
| "escrow_exec T e st (CreateEscrow sl b a n lock nonce) =
     bindR (create_escrow T e st sl b a n lock nonce) (\<lambda>(_, st'). Inr st')"
| "escrow_exec T e st (FundEscrow k f) = fund_escrow T e st k f"
| "escrow_exec T e st (RaiseDispute k x w) = raise_dispute e st k x w"
| "escrow_exec T e st (SubmitEvidence k x h t) = submit_evidence e st k x h t"
| "escrow_exec T e st (Vote k x b) = vote e st k x b"
| "escrow_exec T e st (ResolveDispute k x) = resolve_dispute T e st k x"
| "escrow_exec T e st (AutoRefund k) = auto_refund T e st k"
| "escrow_exec T e st (CancelEscrow k) = cancel_escrow e st k"
| "escrow_exec T e st (SetDisputeWindow x n) = set_dispute_window e st x n"
| "escrow_exec T e st (SetMinTimelock x n) = set_min_timelock e st x n"

inductive escrow_step :: "'w token_api \<Rightarrow> address \<Rightarrow> 'w escrow_sys \<Rightarrow> 'w escrow_sys \<Rightarrow> bool"
  for T and c where
  escrow_step_call: "self_addr e = c \<Longrightarrow> \<not> authorized e c \<Longrightarrow> escrow_exec T e st k = Inr st'
    \<Longrightarrow> escrow_step T c st st'"
| escrow_step_world: "(\<And>a. bal T (esw st) a c \<le> bal T w a c) \<Longrightarrow> escrow_step T c st (st\<lparr>esw := w\<rparr>)"

definition escrow_deployed :: "'w token_api \<Rightarrow> address \<Rightarrow> 'w escrow_sys \<Rightarrow> bool" where
  "escrow_deployed T c st \<longleftrightarrow> esst st = escrow_storage0 \<and> (\<forall>a. 0 \<le> bal T (esw st) a c)"

section \<open>The invariant\<close>

text \<open>The escrow state that each dispute status goes with.\<close>

fun disputed_state :: "dispute_status \<Rightarrow> escrow_state" where
  "disputed_state Open = Disputed"
| "disputed_state ResolvedRelease = Released"
| "disputed_state ResolvedRefund = Refunded"
| "disputed_state AutoRefunded = Refunded"

definition escrow_slot_ok :: "address \<Rightarrow> escrow \<Rightarrow> dispute option \<Rightarrow> dispute_evidence list
    \<Rightarrow> dispute_vote list \<Rightarrow> bool" where
  "escrow_slot_ok c r od evs vs \<longleftrightarrow>
     0 < es_amount r \<and> es_seller r \<noteq> es_buyer r \<and> es_seller r \<noteq> c
     \<and> (es_state r \<notin> {Created, Refunded} \<longrightarrow> es_buyer r \<noteq> c)
     \<and> distinct (map vt_signer vs) \<and> (\<forall>ev \<in> set evs. es_is_party r (ev_submitted_by ev))
     \<and> (case od of
          None \<Rightarrow> evs = [] \<and> vs = [] \<and> es_state r \<in> {Created, Escrowed, Refunded}
        | Some d \<Rightarrow> dp_escrow_id d = es_id r \<and> dp_evidence_count d = length evs
            \<and> es_is_party r (dp_raised_by d) \<and> es_state r = disputed_state (dp_status d))"

definition escrow_held :: "escrow \<Rightarrow> bool" where
  "escrow_held r \<longleftrightarrow> es_state r = Escrowed \<or> es_state r = Disputed"

definition escrow_locked :: "address \<Rightarrow> escrow \<Rightarrow> int" where
  "escrow_locked a r = (if escrow_held r \<and> es_asset r = a then es_amount r else 0)"

definition escrow_owed :: "'w escrow_sys \<Rightarrow> address \<Rightarrow> int" where
  "escrow_owed st a = map_total (escrow_locked a) (escrows (esst st))"

definition escrow_store_ok :: "address \<Rightarrow> escrow_storage \<Rightarrow> bool" where
  "escrow_store_ok c s \<longleftrightarrow> escst.index_ok s \<and>
     (\<forall>k. escrows s k = None \<longrightarrow> disputes s k = None \<and> get_evidence s k = [] \<and> get_votes s k = []) \<and>
     (\<forall>k r. escrows s k = Some r \<longrightarrow>
        escrow_slot_ok c r (disputes s k) (get_evidence s k) (get_votes s k))"

definition escrow_inv :: "'w token_api \<Rightarrow> address \<Rightarrow> 'w escrow_sys \<Rightarrow> bool" where
  "escrow_inv T c st \<longleftrightarrow> escrow_store_ok c (esst st) \<and> (\<forall>a. escrow_owed st a \<le> bal T (esw st) a c)"

lemma escrow_store_okD:
  assumes "escrow_store_ok c s"
  shows "escst.index_ok s" and "finite (dom (escrows s))"
    and "escrows s k = Some r \<Longrightarrow> escrow_slot_ok c r (disputes s k) (get_evidence s k) (get_votes s k)"
    and "escrows s k = Some r \<Longrightarrow> es_id r = k"
    and "escrows s k = None \<Longrightarrow> disputes s k = None \<and> get_evidence s k = [] \<and> get_votes s k = []"
proof -
  show "escst.index_ok s" using assms by (simp add: escrow_store_ok_def)
  then show "finite (dom (escrows s))" and "escrows s k = Some r \<Longrightarrow> es_id r = k"
    using escst.index_ok_ids [of s] by (auto simp: escst.ids_below_def)
  show "escrows s k = Some r \<Longrightarrow> escrow_slot_ok c r (disputes s k) (get_evidence s k) (get_votes s k)"
    and "escrows s k = None \<Longrightarrow> disputes s k = None \<and> get_evidence s k = [] \<and> get_votes s k = []"
    using assms unfolding escrow_store_ok_def by blast+
qed

lemma escrow_invD:
  assumes "escrow_inv T c st"
  shows "escrow_store_ok c (esst st)" and "escrow_owed st a \<le> bal T (esw st) a c"
  using assms by (auto simp: escrow_inv_def)

text \<open>What a write to the slot of one escrow leaves alone.\<close>

definition slot_write :: "nat \<Rightarrow> escrow \<Rightarrow> escrow_storage \<Rightarrow> escrow_storage \<Rightarrow> bool" where
  "slot_write k r s s' \<longleftrightarrow> escrows s' = (escrows s)(k \<mapsto> r) \<and> escrow_find s' = escrow_find s
     \<and> escrow_counter s' = escrow_counter s
     \<and> (\<forall>j. j \<noteq> k \<longrightarrow> disputes s' j = disputes s j \<and> get_evidence s' j = get_evidence s j
          \<and> get_votes s' j = get_votes s j)"

lemma index_ok_cong:
  assumes "escrows s' = escrows s" and "escrow_find s' = escrow_find s"
    and "escrow_counter s' = escrow_counter s"
  shows "escst.index_ok s' = escst.index_ok s"
  using assms by (simp add: escst.index_ok_def escst.ids_below_def)

lemma escrow_store_ok_rewrite:
  assumes ok: "escrow_store_ok c s" and old: "escrows s k = Some r"
    and w: "slot_write k r' s s'" and r': "es_id r' = k" "escrow_nkey r' = escrow_nkey r"
    and slot: "escrow_slot_ok c r' (disputes s' k) (get_evidence s' k) (get_votes s' k)"
  shows "escrow_store_ok c s'"
proof -
  note d = escrow_store_okD [OF ok]
  have "escst.index_ok (update_escrow r' s)"
    by (rule escst.index_ok_put [OF d(1) _ r'(2)]) (simp add: old r'(1))
  then have "escst.index_ok s'"
    using w r'(1) by (subst index_ok_cong [of s' "update_escrow r' s"]) (simp_all add: slot_write_def)
  moreover have "escrows s' j = None \<Longrightarrow>
      disputes s' j = None \<and> get_evidence s' j = [] \<and> get_votes s' j = []"
    and "escrows s' j = Some q \<Longrightarrow> escrow_slot_ok c q (disputes s' j) (get_evidence s' j) (get_votes s' j)"
    for j q
    using d(3) [of j q] d(5) [of j] w slot by (cases "j = k"; simp add: slot_write_def)+
  ultimately show ?thesis by (simp add: escrow_store_ok_def)
qed

lemma escrow_inv_rewrite:
  assumes inv: "escrow_inv T c st" and old: "escrows (esst st) k = Some r"
    and w: "slot_write k r' (esst st) s'" and r': "es_id r' = k" "escrow_nkey r' = escrow_nkey r"
    and slot: "escrow_slot_ok c r' (disputes s' k) (get_evidence s' k) (get_votes s' k)"
    and bal: "\<And>a. bal T (esw st) a c + (escrow_locked a r' - escrow_locked a r) \<le> bal T w' a c"
  shows "escrow_inv T c \<lparr>esst = s', esw = w'\<rparr>"
proof -
  note d = escrow_store_okD [OF escrow_invD(1) [OF inv]]
  have "escrow_owed \<lparr>esst = s', esw = w'\<rparr> a = escrow_owed st a - escrow_locked a r + escrow_locked a r'" for a
    using escst.total_put [OF d(2), of r' r "escrow_locked a"] old r'(1) w
    by (simp add: escrow_owed_def slot_write_def)
  moreover have "escrow_owed st a - escrow_locked a r + escrow_locked a r' \<le> bal T w' a c" for a
    using bal [of a] escrow_invD(2) [OF inv, of a] by linarith
  ultimately show ?thesis
    using escrow_store_ok_rewrite [OF escrow_invD(1) [OF inv] old w r' slot]
    by (simp add: escrow_inv_def)
qed

text \<open>Settling: only the state fields of the escrow and of its open dispute change.\<close>

lemma settle_write_slot:
  assumes "es_id r = k" and "dp_escrow_id d = k"
    and "\<And>s. escrows (pub s) = escrows s \<and> disputes (pub s) = disputes s
      \<and> get_evidence (pub s) = get_evidence s \<and> get_votes (pub s) = get_votes s
      \<and> escrow_find (pub s) = escrow_find s \<and> escrow_counter (pub s) = escrow_counter s"
  shows "slot_write k (r\<lparr>es_state := y\<rparr>) s (settle_write pub d x r y s)"
    and "disputes (settle_write pub d x r y s) k = Some (d\<lparr>dp_status := x\<rparr>)"
    and "get_evidence (settle_write pub d x r y s) = get_evidence s"
    and "get_votes (settle_write pub d x r y s) = get_votes s"
  using assms by (simp_all add: slot_write_def settle_write_def)

lemma settle_inv:
  assumes laws: "token_laws T" and inv: "escrow_inv T c st" and self: "self_addr e = c"
    and g: "disputes (esst st) k = Some d" "escrows (esst st) k = Some r" "dp_status d = Open"
    and xy: "y = disputed_state x" "x \<noteq> Open"
    and y: "y = Released \<and> to = es_seller r \<or> y = Refunded \<and> to = es_buyer r"
    and tx: "tok_transfer T e (esw st) (es_asset r) c to (es_amount r) = Returned v w'"
    and pub: "\<And>s. escrows (pub s) = escrows s \<and> disputes (pub s) = disputes s
      \<and> get_evidence (pub s) = get_evidence s \<and> get_votes (pub s) = get_votes s
      \<and> escrow_find (pub s) = escrow_find s \<and> escrow_counter (pub s) = escrow_counter s"
  shows "escrow_inv T c \<lparr>esst = settle_write pub d x r y (esst st), esw = w'\<rparr>"
proof -
  note d = escrow_store_okD [OF escrow_invD(1) [OF inv]]
  have slot: "escrow_slot_ok c r (Some d) (get_evidence (esst st) k) (get_votes (esst st) k)"
    using d(3) [OF g(2)] g(1) by simp
  have id: "es_id r = k" "dp_escrow_id d = k"
    using d(4) [OF g(2)] slot by (simp_all add: escrow_slot_ok_def)
  have st: "es_state r = Disputed" using slot g(3) by (simp add: escrow_slot_ok_def)
  have ne: "c \<noteq> to" using slot st y by (auto simp: escrow_slot_ok_def)
  note sw = settle_write_slot [OF id, of pub, OF pub]
  have slot': "escrow_slot_ok c (r\<lparr>es_state := y\<rparr>) (Some (d\<lparr>dp_status := x\<rparr>))
      (get_evidence (esst st) k) (get_votes (esst st) k)"
    using slot st xy y by (auto simp: escrow_slot_ok_def es_is_party_def)
  have "bal T (esw st) a c + (escrow_locked a (r\<lparr>es_state := y\<rparr>) - escrow_locked a r) \<le> bal T w' a c" for a
    using moved_out [OF token_laws_Returned [OF laws tx] ne, of a] st y
    by (auto simp: escrow_locked_def escrow_held_def)
  then show ?thesis
    by (intro escrow_inv_rewrite [OF inv g(2) sw(1)])
      (simp_all add: id escrow_nkey_def sw(2-4) slot')
qed

section \<open>Every call keeps the invariant\<close>

lemma escrow_store_ok_cong:
  assumes "escrows s' = escrows s" and "escrow_find s' = escrow_find s"
    and "escrow_counter s' = escrow_counter s" and "disputes s' = disputes s"
    and "get_evidence s' = get_evidence s" and "get_votes s' = get_votes s"
  shows "escrow_store_ok c s' = escrow_store_ok c s"
  using assms index_ok_cong [of s' s] by (simp add: escrow_store_ok_def)

lemma escrow_inv_config:
  assumes "escrow_inv T c st" and "esw st' = esw st"
    and "esst st' = (esst st)\<lparr>esigners := a, ethreshold := b, emin_timelock := d, edispute_window := w\<rparr>"
  shows "escrow_inv T c st'"
proof -
  have "escrow_store_ok c (esst st') = escrow_store_ok c (esst st)"
    unfolding assms(3)
    by (rule escrow_store_ok_cong)
      (simp_all add: escrow_find_def escrow_find_by_nonce_def escrow_counter_def get_evidence_def
        get_votes_def fun_eq_iff)
  then show ?thesis
    using assms by (simp add: escrow_inv_def escrow_owed_def)
qed

lemma initialize_inv:
  assumes "escrow_inv T c st" and "initialize e st x xs n w = Inr st'"
  shows "escrow_inv T c st'"
  using assms(2) by (intro escrow_inv_config [OF assms(1)])
    (auto simp: initialize_def res_simps Let_def intro!: escrow_storage.equality)

lemma set_dispute_window_inv:
  assumes "escrow_inv T c st" and "set_dispute_window e st x n = Inr st'"
  shows "escrow_inv T c st'"
  using assms(2) by (intro escrow_inv_config [OF assms(1)])
    (auto simp: set_dispute_window_def res_simps intro!: escrow_storage.equality)

lemma set_min_timelock_inv:
  assumes "escrow_inv T c st" and "set_min_timelock e st x n = Inr st'"
  shows "escrow_inv T c st'"
  using assms(2) by (intro escrow_inv_config [OF assms(1)])
    (auto simp: set_min_timelock_def res_simps intro!: escrow_storage.equality)

lemma create_escrow_inv:
  assumes inv: "escrow_inv T c st" and self: "\<not> authorized e c"
    and ok: "create_escrow T e st sl b a n lock nonce = Inr (k, st')"
  shows "escrow_inv T c st'"
proof (cases "escrow_find (esst st) (sl, nonce)")
  case (Some j)
  with ok inv show ?thesis by (simp add: create_escrow_iff)
next
  case None
  let ?r = "escrow_offer k nonce sl b a n (now e)"
  note d = escrow_store_okD [OF escrow_invD(1) [OF inv]]
  from ok None obtain s1 where g: "authorized e sl" "0 < n" "sl \<noteq> b"
    and al: "escrow_next_id (esst st) = Inr (k, s1)"
    and st': "st' = st\<lparr>esst := escrow_created e ?r (save_escrow ?r s1)\<rparr>"
    by (auto simp: create_escrow_iff)
  have fresh: "escrows (esst st) k = None"
    by (rule escst.alloc_fresh [OF escst.index_ok_ids [OF d(1)] al])
  have s1: "escrows s1 = escrows (esst st)" "disputes s1 = disputes (esst st)"
      "get_evidence s1 = get_evidence (esst st)" "get_votes s1 = get_votes (esst st)"
    using al by (auto simp: res_simps get_evidence_def get_votes_def fun_eq_iff)
  have "escst.index_ok (save_escrow ?r s1)"
    by (rule escst.index_ok_save [OF d(1) al]) (simp_all add: None)
  then have idx: "escst.index_ok (esst st')"
    by (subst index_ok_cong [of _ "save_escrow ?r s1"]) (simp_all add: st' escrow_created_def)
  have slot: "escrow_slot_ok c ?r None [] []"
    using g self by (auto simp: escrow_slot_ok_def escrow_offer_def)
  have "escrows (esst st') j = None \<Longrightarrow>
      disputes (esst st') j = None \<and> get_evidence (esst st') j = [] \<and> get_votes (esst st') j = []"
    and "escrows (esst st') j = Some q \<Longrightarrow> escrow_slot_ok c q (disputes (esst st') j)
      (get_evidence (esst st') j) (get_votes (esst st') j)" for j q
    using d(3) [of j q] d(5) [of j] d(5) [OF fresh] slot fresh
    by (cases "j = k"; fastforce simp: st' s1 escrow_created_def)+
  moreover have "escrow_owed st' y = escrow_owed st y" for y
    using escst.total_alloc_put [OF escst.index_ok_ids [OF d(1)] al, of ?r "escrow_locked y"]
    by (simp add: escrow_owed_def st' escrow_created_def escrow_locked_def escrow_held_def)
  ultimately show ?thesis
    using idx escrow_invD(2) [OF inv] by (simp add: escrow_inv_def escrow_store_ok_def) (simp add: st')
qed

lemma fund_escrow_inv:
  assumes laws: "token_laws T" and inv: "escrow_inv T c st" and self: "self_addr e = c" "\<not> authorized e c"
    and ok: "fund_escrow T e st k f = Inr st'"
  shows "escrow_inv T c st'"
proof -
  note d = escrow_store_okD [OF escrow_invD(1) [OF inv]]
  from ok obtain r v w' where g: "authorized e f" "escrows (esst st) k = Some r" "f = es_buyer r"
      "es_state r = Created"
    and tx: "tok_transfer T e (esw st) (es_asset r) f c (es_amount r) = Returned v w'"
    and st': "st' = \<lparr>esst = escrow_funded e (r\<lparr>es_state := Escrowed\<rparr>)
      (update_escrow (r\<lparr>es_state := Escrowed\<rparr>) (esst st)), esw = w'\<rparr>"
    by (auto simp: fund_escrow_iff self(1))
  have fc: "f \<noteq> c" using g(1) self(2) by blast
  note slot = d(3) [OF g(2)] and id = d(4) [OF g(2)]
  have nodisp: "disputes (esst st) k = None"
    using slot g(4) by (auto simp: escrow_slot_ok_def split: option.splits elim: disputed_state.elims)
  have slot': "escrow_slot_ok c (r\<lparr>es_state := Escrowed\<rparr>) (disputes (esst st) k)
      (get_evidence (esst st) k) (get_votes (esst st) k)"
    using slot g fc nodisp by (auto simp: escrow_slot_ok_def)
  have "bal T (esw st) a c + (escrow_locked a (r\<lparr>es_state := Escrowed\<rparr>) - escrow_locked a r) \<le> bal T w' a c" for a
    using moved_in [OF token_laws_Returned [OF laws tx] fc, of a] g(4)
    by (auto simp: escrow_locked_def escrow_held_def)
  then show ?thesis
    unfolding st'
    by (intro escrow_inv_rewrite [OF inv g(2), of "r\<lparr>es_state := Escrowed\<rparr>"])
      (simp_all add: id escrow_nkey_def slot' slot_write_def escrow_funded_def)
qed

lemma raise_dispute_inv:
  assumes inv: "escrow_inv T c st" and ok: "raise_dispute e st k x w = Inr st'"
  shows "escrow_inv T c st'"
proof -
  note d = escrow_store_okD [OF escrow_invD(1) [OF inv]]
  let ?d = "new_dispute e k x w"
  from ok obtain r where g: "escrows (esst st) k = Some r" "es_is_party r x" "es_state r = Escrowed"
    and st': "st' = \<lparr>esst = dispute_raised ?d (save_dispute ?d
      (update_escrow (r\<lparr>es_state := Disputed\<rparr>) (esst st))), esw = esw st\<rparr>"
    by (auto simp: raise_dispute_iff)
  note slot = d(3) [OF g(1)] and id = d(4) [OF g(1)]
  have nodisp: "disputes (esst st) k = None"
    using slot g(3) by (auto simp: escrow_slot_ok_def split: option.splits elim: disputed_state.elims)
  have slot': "escrow_slot_ok c (r\<lparr>es_state := Disputed\<rparr>) (Some ?d)
      (get_evidence (esst st) k) (get_votes (esst st) k)"
    using slot g nodisp id by (auto simp: escrow_slot_ok_def new_dispute_def es_is_party_def)
  show ?thesis
    unfolding st'
    by (intro escrow_inv_rewrite [OF inv g(1), of "r\<lparr>es_state := Disputed\<rparr>"])
      (simp_all add: id escrow_nkey_def slot' slot_write_def dispute_raised_def escrow_locked_def
        escrow_held_def g(3))
qed

lemma submit_evidence_inv:
  assumes inv: "escrow_inv T c st" and ok: "submit_evidence e st k x h t = Inr st'"
  shows "escrow_inv T c st'"
proof -
  note d = escrow_store_okD [OF escrow_invD(1) [OF inv]]
  let ?ev = "\<lparr>ev_hash = h, ev_submitted_by = x, ev_submitted_at = now e, ev_description = t\<rparr>"
  let ?d1 = "\<lambda>d0. d0\<lparr>dp_evidence_count := Suc (dp_evidence_count d0)\<rparr>"
  from ok obtain d0 r where g: "disputes (esst st) k = Some d0" "escrows (esst st) k = Some r"
      "es_is_party r x" "dp_status d0 = Open"
    and st': "st' = \<lparr>esst = evidence_submitted (?d1 d0) ?ev
      (append_evidence k ?ev (update_dispute (?d1 d0) (esst st))), esw = esw st\<rparr>"
    by (auto simp: submit_evidence_iff Let_def)
  note slot = d(3) [OF g(2)] and id = d(4) [OF g(2)]
  have k: "dp_escrow_id d0 = k" using slot g(1) id by (simp add: escrow_slot_ok_def)
  have slot': "escrow_slot_ok c r (Some (?d1 d0)) (get_evidence (esst st) k @ [?ev]) (get_votes (esst st) k)"
    using slot g by (auto simp: escrow_slot_ok_def)
  have same: "escrows (esst st) = (escrows (esst st))(k \<mapsto> r)"
    using g(2) by (simp add: fun_eq_iff)
  show ?thesis
    unfolding st'
    by (intro escrow_inv_rewrite [OF inv g(2), of r])
      (use same in \<open>simp_all add: id k slot' slot_write_def evidence_submitted_def\<close>)
qed

lemma vote_inv:
  assumes inv: "escrow_inv T c st" and ok: "vote e st k x b = Inr st'"
  shows "escrow_inv T c st'"
proof -
  note d = escrow_store_okD [OF escrow_invD(1) [OF inv]]
  let ?v = "\<lparr>vt_signer = x, vt_in_favour_of_release = b, vt_voted_at = now e\<rparr>"
  from ok obtain d0 where g: "disputes (esst st) k = Some d0"
      "x \<notin> vt_signer ` set (get_votes (esst st) k)"
    and st': "st' = \<lparr>esst = (esst st)\<lparr>dvotes := (dvotes (esst st))(k \<mapsto> get_votes (esst st) k @ [?v])\<rparr>,
      esw = esw st\<rparr>"
    by (auto simp: vote_iff)
  obtain r where r: "escrows (esst st) k = Some r"
    using d(5) [of k] g(1) by (cases "escrows (esst st) k") auto
  note slot = d(3) [OF r] and id = d(4) [OF r]
  have slot': "escrow_slot_ok c r (Some d0) (get_evidence (esst st) k) (get_votes (esst st) k @ [?v])"
    using slot g by (auto simp: escrow_slot_ok_def)
  let ?s' = "(esst st)\<lparr>dvotes := (dvotes (esst st))(k \<mapsto> get_votes (esst st) k @ [?v])\<rparr>"
  have s': "get_votes ?s' = (get_votes (esst st))(k := get_votes (esst st) k @ [?v])"
    "get_evidence ?s' = get_evidence (esst st)" "escrow_find ?s' = escrow_find (esst st)"
    "escrow_counter ?s' = escrow_counter (esst st)"
    by (simp_all add: get_votes_def get_evidence_def escrow_find_def escrow_find_by_nonce_def
        escrow_counter_def fun_eq_iff)
  have w: "slot_write k r (esst st) ?s'"
    using r by (simp add: slot_write_def s' fun_eq_iff)
  show ?thesis
    unfolding st'
    by (rule escrow_inv_rewrite [OF inv r w]) (simp_all add: id s' slot' g(1))
qed

lemma resolve_dispute_inv:
  assumes laws: "token_laws T" and inv: "escrow_inv T c st" and self: "self_addr e = c"
    and ok: "resolve_dispute T e st k x = Inr st'"
  shows "escrow_inv T c st'"
proof -
  from ok obtain d r v w' where g: "disputes (esst st) k = Some d" "escrows (esst st) k = Some r"
      "dp_status d = Open"
    and c: "tok_transfer T e (esw st) (es_asset r) c (es_seller r) (es_amount r) = Returned v w'
            \<and> st' = \<lparr>esst = settle_write (\<lambda>s. escrow_released e (r\<lparr>es_state := Released\<rparr>)
                (dispute_resolved e (d\<lparr>dp_status := ResolvedRelease\<rparr>) x s))
                d ResolvedRelease r Released (esst st), esw = w'\<rparr>
       \<or> tok_transfer T e (esw st) (es_asset r) c (es_buyer r) (es_amount r) = Returned v w'
            \<and> st' = \<lparr>esst = settle_write (\<lambda>s. escrow_refunded e (r\<lparr>es_state := Refunded\<rparr>)
                (dispute_resolved e (d\<lparr>dp_status := ResolvedRefund\<rparr>) x s))
                d ResolvedRefund r Refunded (esst st), esw = w'\<rparr>"
    unfolding resolve_dispute_iff self by metis
  from c show ?thesis
  proof (elim disjE conjE)
    assume tx: "tok_transfer T e (esw st) (es_asset r) c (es_seller r) (es_amount r) = Returned v w'"
      and st': "st' = \<lparr>esst = settle_write (\<lambda>s. escrow_released e (r\<lparr>es_state := Released\<rparr>)
                (dispute_resolved e (d\<lparr>dp_status := ResolvedRelease\<rparr>) x s))
                d ResolvedRelease r Released (esst st), esw = w'\<rparr>"
    show ?thesis
      unfolding st'
      by (rule settle_inv [OF laws inv self g _ _ _ tx]) (simp_all add: escrow_event_defs)
  next
    assume tx: "tok_transfer T e (esw st) (es_asset r) c (es_buyer r) (es_amount r) = Returned v w'"
      and st': "st' = \<lparr>esst = settle_write (\<lambda>s. escrow_refunded e (r\<lparr>es_state := Refunded\<rparr>)
                (dispute_resolved e (d\<lparr>dp_status := ResolvedRefund\<rparr>) x s))
                d ResolvedRefund r Refunded (esst st), esw = w'\<rparr>"
    show ?thesis
      unfolding st'
      by (rule settle_inv [OF laws inv self g _ _ _ tx]) (simp_all add: escrow_event_defs)
  qed
qed

lemma auto_refund_inv:
  assumes laws: "token_laws T" and inv: "escrow_inv T c st" and self: "self_addr e = c"
    and ok: "auto_refund T e st k = Inr st'"
  shows "escrow_inv T c st'"
proof -
  from ok obtain d r v w' where g: "disputes (esst st) k = Some d" "escrows (esst st) k = Some r"
      "dp_status d = Open"
    and tx: "tok_transfer T e (esw st) (es_asset r) c (es_buyer r) (es_amount r) = Returned v w'"
    and st': "st' = \<lparr>esst = settle_write (\<lambda>s. escrow_refunded e (r\<lparr>es_state := Refunded\<rparr>)
            (dispute_auto_refunded e (d\<lparr>dp_status := AutoRefunded\<rparr>) s))
            d AutoRefunded r Refunded (esst st), esw = w'\<rparr>"
    by (auto simp: auto_refund_iff self)
  show ?thesis
    unfolding st'
    by (rule settle_inv [OF laws inv self g _ _ _ tx]) (simp_all add: escrow_event_defs)
qed

lemma cancel_escrow_inv:
  assumes inv: "escrow_inv T c st" and ok: "cancel_escrow e st k = Inr st'"
  shows "escrow_inv T c st'"
proof -
  note d = escrow_store_okD [OF escrow_invD(1) [OF inv]]
  from ok obtain r where g: "escrows (esst st) k = Some r" "es_state r = Created"
    and st': "st' = \<lparr>esst = update_escrow (r\<lparr>es_state := Refunded\<rparr>) (esst st), esw = esw st\<rparr>"
    by (auto simp: cancel_escrow_iff)
  note slot = d(3) [OF g(1)] and id = d(4) [OF g(1)]
  have nodisp: "disputes (esst st) k = None"
    using slot g(2) by (auto simp: escrow_slot_ok_def split: option.splits elim: disputed_state.elims)
  have slot': "escrow_slot_ok c (r\<lparr>es_state := Refunded\<rparr>) (disputes (esst st) k)
      (get_evidence (esst st) k) (get_votes (esst st) k)"
    using slot g nodisp by (auto simp: escrow_slot_ok_def)
  show ?thesis
    unfolding st'
    by (intro escrow_inv_rewrite [OF inv g(1), of "r\<lparr>es_state := Refunded\<rparr>"])
      (simp_all add: id escrow_nkey_def slot' slot_write_def escrow_locked_def escrow_held_def g(2))
qed

lemma escrow_exec_inv:
  assumes "token_laws T" and "escrow_inv T c st" and "self_addr e = c" and "\<not> authorized e c"
    and "escrow_exec T e st k = Inr st'"
  shows "escrow_inv T c st'"
proof (cases k)
  case (CreateEscrow sl b a n lock nonce)
  with assms(5) show ?thesis
    by (auto simp: res_simps intro: create_escrow_inv [OF assms(2,4)])
qed (use assms in \<open>auto intro: initialize_inv fund_escrow_inv raise_dispute_inv
      submit_evidence_inv vote_inv resolve_dispute_inv auto_refund_inv cancel_escrow_inv
      set_dispute_window_inv set_min_timelock_inv\<close>)

lemma escrow_step_inv:
  assumes "token_laws T" and "escrow_inv T c st" and "escrow_step T c st st'"
  shows "escrow_inv T c st'"
  using assms(3)
proof cases
  case (escrow_step_call e k)
  then show ?thesis using escrow_exec_inv [OF assms(1,2)] by blast
next
  case (escrow_step_world w)
  have "escrow_owed st a \<le> bal T w a c" for a
    using escrow_invD(2) [OF assms(2), of a] escrow_step_world(2) [of a] by linarith
  then show ?thesis
    using assms(2) escrow_step_world(1) by (simp add: escrow_inv_def escrow_owed_def)
qed

lemma escrow_deployed_inv: "escrow_deployed T c st \<Longrightarrow> escrow_inv T c st"
  by (auto simp: escrow_deployed_def escrow_inv_def escrow_owed_def escrow_storage0_def
      escrow_store_ok_def escst.index_ok_def escst.ids_below_def escrow_find_def
      escrow_find_by_nonce_def get_evidence_def get_votes_def)

interpretation escrow_machine: machine_invariant "escrow_deployed T c" "escrow_step T c"
    "\<lambda>st. token_laws T \<longrightarrow> escrow_inv T c st" for T :: "'w token_api" and c
  by unfold_locales (auto intro: escrow_deployed_inv escrow_step_inv)

end
