(* ===== verification/Escrow_Dispute_Props.thy ===== *)
theory Escrow_Dispute_Props
  imports Escrow_Dispute_Inv "HOL-Library.Sublist"
begin

text \<open>
  Properties of the escrow contract over whole runs: solvency, the lifecycle every escrow
  follows, who is paid and with whose votes, availability of the automatic refund, and two ways
  around the dispute procedure.
\<close>

section \<open>The lifecycle\<close>

definition escrow_terms :: "escrow \<Rightarrow> nat \<times> (address \<times> nat) \<times> address \<times> address \<times> int \<times> nat" where
  "escrow_terms r = (es_id r, escrow_nkey r, es_buyer r, es_asset r, es_amount r, es_created_at r)"

definition dispute_terms :: "dispute \<Rightarrow> nat \<times> address \<times> nat \<times> nat" where
  "dispute_terms d = (dp_escrow_id d, dp_raised_by d, dp_raised_at d, dp_deadline d)"

inductive escrow_life :: "escrow_state \<Rightarrow> escrow_state \<Rightarrow> bool" where
  life_fund: "escrow_life Created Escrowed"
| life_cancel: "escrow_life Created Refunded"
| life_dispute: "escrow_life Escrowed Disputed"
| life_release: "escrow_life Disputed Released"
| life_refund: "escrow_life Disputed Refunded"

inductive_simps escrow_life_simps [simp]:
  "escrow_life Created x" "escrow_life Escrowed x" "escrow_life Disputed x"
  "escrow_life Released x" "escrow_life Refunded x" "escrow_life Funded x"

definition escrow_settled :: "escrow \<Rightarrow> bool" where
  "escrow_settled r \<longleftrightarrow> es_state r = Released \<or> es_state r = Refunded"

definition same_slot :: "nat \<Rightarrow> escrow_storage \<Rightarrow> escrow_storage \<Rightarrow> bool" where
  "same_slot k s s' \<longleftrightarrow> escrows s' k = escrows s k \<and> disputes s' k = disputes s k
     \<and> get_evidence s' k = get_evidence s k \<and> get_votes s' k = get_votes s k"

definition slot_grows :: "nat \<Rightarrow> escrow \<Rightarrow> escrow_storage \<Rightarrow> escrow_storage \<Rightarrow> bool" where
  "slot_grows k r s s' \<longleftrightarrow>
     (\<exists>r'. escrows s' k = Some r' \<and> escrow_terms r' = escrow_terms r
        \<and> (r' = r \<or> escrow_life (es_state r) (es_state r')))
     \<and> prefix (get_evidence s k) (get_evidence s' k) \<and> prefix (get_votes s k) (get_votes s' k)
     \<and> (\<forall>d. disputes s k = Some d \<longrightarrow>
          (\<exists>d'. disputes s' k = Some d' \<and> dispute_terms d' = dispute_terms d))
     \<and> (escrow_settled r \<longrightarrow> same_slot k s s')"

definition escrow_frame :: "escrow_storage \<Rightarrow> escrow_storage \<Rightarrow> bool" where
  "escrow_frame s s' \<longleftrightarrow> (\<forall>k r. escrows s k = Some r \<longrightarrow> slot_grows k r s s')"

lemma same_slot_grows: "escrows s k = Some r \<Longrightarrow> same_slot k s s' \<Longrightarrow> slot_grows k r s s'"
  by (auto simp: same_slot_def slot_grows_def)

lemma escrow_frame_same:
  assumes "\<And>k r. escrows s k = Some r \<Longrightarrow> same_slot k s s'"
  shows "escrow_frame s s'"
  using assms same_slot_grows by (auto simp: escrow_frame_def)

lemma escrow_frame_write:
  assumes "slot_write k r' s s'" and "escrows s k = Some r" and "slot_grows k r s s'"
  shows "escrow_frame s s'"
  unfolding escrow_frame_def
proof (intro allI impI)
  fix j q
  assume q: "escrows s j = Some q"
  show "slot_grows j q s s'"
  proof (cases "j = k")
    case True
    with assms q show ?thesis by simp
  next
    case False
    with assms(1) have "same_slot j s s'" by (simp add: slot_write_def same_slot_def)
    with q show ?thesis by (rule same_slot_grows)
  qed
qed

lemma settle_frame:
  assumes "escrow_store_ok c s" and "disputes s k = Some d" and "escrows s k = Some r"
    and "dp_status d = Open" and "y = Released \<or> y = Refunded"
    and pub: "\<And>s. escrows (pub s) = escrows s \<and> disputes (pub s) = disputes s
      \<and> get_evidence (pub s) = get_evidence s \<and> get_votes (pub s) = get_votes s
      \<and> escrow_find (pub s) = escrow_find s \<and> escrow_counter (pub s) = escrow_counter s"
  shows "escrow_frame s (settle_write pub d x r y s)"
proof -
  note slot = escrow_store_okD(3) [OF assms(1,3)]
  have id: "es_id r = k" by (rule escrow_store_okD(4) [OF assms(1,3)])
  have dk: "dp_escrow_id d = k" and st: "es_state r = Disputed"
    using slot assms(2,4) id by (simp_all add: escrow_slot_ok_def)
  note sw = settle_write_slot [OF id dk, of pub, OF pub]
  show ?thesis
    by (rule escrow_frame_write [OF sw(1) assms(3)])
      (use assms(2,5) st sw in \<open>auto simp: slot_grows_def slot_write_def escrow_terms_def
        escrow_nkey_def dispute_terms_def escrow_settled_def\<close>)
qed

lemma create_escrow_frame:
  assumes ok: "escrow_store_ok c (esst st)"
    and step: "create_escrow T e st sl b a n lock nonce = Inr (k, st')"
  shows "escrow_frame (esst st) (esst st')"
proof (cases "escrow_find (esst st) (sl, nonce)")
  case (Some j)
  with step show ?thesis by (simp add: create_escrow_iff escrow_frame_same same_slot_def)
next
  case None
  from step None obtain s1 where al: "escrow_next_id (esst st) = Inr (k, s1)"
    and st': "st' = st\<lparr>esst := escrow_created e (escrow_offer k nonce sl b a n (now e))
      (save_escrow (escrow_offer k nonce sl b a n (now e)) s1)\<rparr>"
    by (auto simp: create_escrow_iff)
  have "escrows (esst st) k = None"
    by (rule escst.alloc_fresh [OF escst.index_ok_ids [OF escrow_store_okD(1) [OF ok]] al])
  then show ?thesis
    using al by (intro escrow_frame_same)
      (auto simp: st' same_slot_def escrow_created_def res_simps get_evidence_def get_votes_def)
qed

lemma fund_escrow_frame:
  assumes ok: "escrow_store_ok c (esst st)" and step: "fund_escrow T e st k f = Inr st'"
  shows "escrow_frame (esst st) (esst st')"
proof -
  from step obtain r w' where g: "escrows (esst st) k = Some r" "es_state r = Created"
    and st': "st' = \<lparr>esst = escrow_funded e (r\<lparr>es_state := Escrowed\<rparr>)
      (update_escrow (r\<lparr>es_state := Escrowed\<rparr>) (esst st)), esw = w'\<rparr>"
    by (auto simp: fund_escrow_iff)
  have id: "es_id r = k" by (rule escrow_store_okD(4) [OF ok g(1)])
  show ?thesis
    by (rule escrow_frame_write [OF _ g(1), of "r\<lparr>es_state := Escrowed\<rparr>"])
      (simp_all add: st' escrow_funded_def slot_write_def slot_grows_def id g escrow_terms_def
        escrow_nkey_def escrow_settled_def)
qed

lemma raise_dispute_frame:
  assumes ok: "escrow_store_ok c (esst st)" and step: "raise_dispute e st k x w = Inr st'"
  shows "escrow_frame (esst st) (esst st')"
proof -
  from step obtain r where g: "escrows (esst st) k = Some r" "es_state r = Escrowed"
    and st': "st' = st\<lparr>esst := dispute_raised (new_dispute e k x w)
           (save_dispute (new_dispute e k x w) (update_escrow (r\<lparr>es_state := Disputed\<rparr>) (esst st)))\<rparr>"
    by (auto simp: raise_dispute_iff)
  have id: "es_id r = k" by (rule escrow_store_okD(4) [OF ok g(1)])
  have "disputes (esst st) k = None"
    using escrow_store_okD(3) [OF ok g(1)] g(2)
    by (auto simp: escrow_slot_ok_def split: option.splits elim: disputed_state.elims)
  then show ?thesis
    by (intro escrow_frame_write [OF _ g(1), of "r\<lparr>es_state := Disputed\<rparr>"])
      (simp_all add: st' dispute_raised_def slot_write_def slot_grows_def id g escrow_terms_def
        escrow_nkey_def escrow_settled_def)
qed

lemma submit_evidence_frame:
  assumes ok: "escrow_store_ok c (esst st)" and step: "submit_evidence e st k x h t = Inr st'"
  shows "escrow_frame (esst st) (esst st')"
proof -
  let ?ev = "\<lparr>ev_hash = h, ev_submitted_by = x, ev_submitted_at = now e, ev_description = t\<rparr>"
  let ?d1 = "\<lambda>d0. d0\<lparr>dp_evidence_count := Suc (dp_evidence_count d0)\<rparr>"
  from step obtain d0 r where g: "disputes (esst st) k = Some d0" "escrows (esst st) k = Some r"
      "dp_status d0 = Open"
    and st': "st' = st\<lparr>esst := evidence_submitted (?d1 d0) ?ev
      (append_evidence k ?ev (update_dispute (?d1 d0) (esst st)))\<rparr>"
    by (auto simp: submit_evidence_iff Let_def)
  note slot = escrow_store_okD(3,4) [OF ok g(2)]
  have k: "dp_escrow_id d0 = k" and stt: "es_state r = Disputed"
    using slot g by (simp_all add: escrow_slot_ok_def)
  show ?thesis
    by (rule escrow_frame_write [OF _ g(2), of r])
      (use g in \<open>auto simp: st' evidence_submitted_def slot_write_def slot_grows_def k stt
        dispute_terms_def escrow_settled_def fun_eq_iff\<close>)
qed

lemma vote_frame:
  assumes ok: "escrow_store_ok c (esst st)" and step: "vote e st k x b = Inr st'"
  shows "escrow_frame (esst st) (esst st')"
proof -
  from step obtain d0 v where g: "disputes (esst st) k = Some d0" "dp_status d0 = Open"
    and st': "st' = st\<lparr>esst := (esst st)\<lparr>dvotes := (dvotes (esst st))(k \<mapsto> get_votes (esst st) k @ [v])\<rparr>\<rparr>"
    by (auto simp: vote_iff)
  obtain r where r: "escrows (esst st) k = Some r"
    using escrow_store_okD(5) [OF ok, of k] g(1) by (cases "escrows (esst st) k") auto
  have stt: "es_state r = Disputed"
    using escrow_store_okD(3) [OF ok r] g by (simp add: escrow_slot_ok_def)
  show ?thesis
    by (rule escrow_frame_write [OF _ r, of r])
      (use r in \<open>auto simp: st' slot_write_def slot_grows_def stt escrow_settled_def fun_eq_iff
        get_votes_def get_evidence_def escrow_find_def escrow_find_by_nonce_def escrow_counter_def\<close>)
qed

lemma resolve_dispute_frame:
  assumes ok: "escrow_store_ok c (esst st)" and step: "resolve_dispute T e st k x = Inr st'"
  shows "escrow_frame (esst st) (esst st')"
proof -
  from step obtain d r v w' where g: "disputes (esst st) k = Some d" "escrows (esst st) k = Some r"
      "dp_status d = Open"
    and c: "st' = \<lparr>esst = settle_write (\<lambda>s. escrow_released e (r\<lparr>es_state := Released\<rparr>)
                (dispute_resolved e (d\<lparr>dp_status := ResolvedRelease\<rparr>) x s))
                d ResolvedRelease r Released (esst st), esw = w'\<rparr>
       \<or> st' = \<lparr>esst = settle_write (\<lambda>s. escrow_refunded e (r\<lparr>es_state := Refunded\<rparr>)
                (dispute_resolved e (d\<lparr>dp_status := ResolvedRefund\<rparr>) x s))
                d ResolvedRefund r Refunded (esst st), esw = w'\<rparr>"
    unfolding resolve_dispute_iff by metis
  from c show ?thesis
    by (elim disjE; simp; intro settle_frame [OF ok g]) (simp_all add: escrow_event_defs)
qed

lemma auto_refund_frame:
  assumes ok: "escrow_store_ok c (esst st)" and step: "auto_refund T e st k = Inr st'"
  shows "escrow_frame (esst st) (esst st')"
proof -
  from step obtain d r v w' where g: "disputes (esst st) k = Some d" "escrows (esst st) k = Some r"
      "dp_status d = Open"
    and st': "st' = \<lparr>esst = settle_write (\<lambda>s. escrow_refunded e (r\<lparr>es_state := Refunded\<rparr>)
            (dispute_auto_refunded e (d\<lparr>dp_status := AutoRefunded\<rparr>) s))
            d AutoRefunded r Refunded (esst st), esw = w'\<rparr>"
    by (auto simp: auto_refund_iff)
  show ?thesis
    by (simp add: st', rule settle_frame [OF ok g]) (simp_all add: escrow_event_defs)
qed

lemma cancel_escrow_frame:
  assumes ok: "escrow_store_ok c (esst st)" and step: "cancel_escrow e st k = Inr st'"
  shows "escrow_frame (esst st) (esst st')"
proof -
  from step obtain r where g: "escrows (esst st) k = Some r" "es_state r = Created"
    and st': "st' = st\<lparr>esst := update_escrow (r\<lparr>es_state := Refunded\<rparr>) (esst st)\<rparr>"
    by (auto simp: cancel_escrow_iff)
  have id: "es_id r = k" by (rule escrow_store_okD(4) [OF ok g(1)])
  show ?thesis
    by (rule escrow_frame_write [OF _ g(1), of "r\<lparr>es_state := Refunded\<rparr>"])
      (simp_all add: st' slot_write_def slot_grows_def id g escrow_terms_def
        escrow_nkey_def escrow_settled_def)
qed

lemma escrow_config_frame:
  assumes "escrows s' = escrows s" "disputes s' = disputes s" "evidences s' = evidences s"
    and "dvotes s' = dvotes s"
  shows "escrow_frame s s'"
  by (rule escrow_frame_same) (simp add: same_slot_def assms get_evidence_def get_votes_def)

lemma escrow_exec_frame:
  assumes ok: "escrow_store_ok c (esst st)" and step: "escrow_exec T e st k = Inr st'"
  shows "escrow_frame (esst st) (esst st')"
proof (cases k)
  case (Initialize x xs n d)
  with step show ?thesis
    by (auto simp: initialize_def res_simps Let_def intro!: escrow_config_frame)
next
  case (SetDisputeWindow x n)
  with step show ?thesis
    by (auto simp: set_dispute_window_def res_simps intro!: escrow_config_frame)
next
  case (SetMinTimelock x n)
  with step show ?thesis
    by (auto simp: set_min_timelock_def res_simps intro!: escrow_config_frame)
qed (use step in \<open>auto simp: res_simps intro: create_escrow_frame [OF ok] fund_escrow_frame [OF ok]
  raise_dispute_frame [OF ok] submit_evidence_frame [OF ok] vote_frame [OF ok]
  resolve_dispute_frame [OF ok] auto_refund_frame [OF ok] cancel_escrow_frame [OF ok]\<close>)

lemma escrow_step_frame:
  assumes "escrow_store_ok c (esst st)" and "escrow_step T c st st'"
  shows "escrow_frame (esst st) (esst st')"
  using assms(2)
proof cases
  case (escrow_step_call e k)
  then show ?thesis using escrow_exec_frame [OF assms(1)] by blast
next
  case (escrow_step_world w)
  then show ?thesis by (simp add: escrow_frame_same same_slot_def)
qed

section \<open>Where votes come from\<close>

text \<open>A vote of \<open>x\<close> that an earlier call of \<open>vote\<close> recorded, by \<open>x\<close> itself and as a signer at that time.\<close>

definition cast_by_signer :: "'w token_api \<Rightarrow> address \<Rightarrow> 'w escrow_sys \<Rightarrow> nat \<Rightarrow> address \<Rightarrow> bool \<Rightarrow> bool" where
  "cast_by_signer T c st k x b \<longleftrightarrow>
     (\<exists>st0 st1 e. reachable (escrow_deployed T c) (escrow_step T c) st0 \<and> vote e st0 k x b = Inr st1
        \<and> authorized e x \<and> x \<in> set (load_signers (esst st0)) \<and> (escrow_step T c)\<^sup>*\<^sup>* st1 st)"

lemma vote_by_signer: "vote e st k x b = Inr st' \<Longrightarrow> authorized e x \<and> x \<in> set (load_signers (esst st))"
  by (auto simp: vote_iff es_is_signer_def list_ex_iff)

lemma escrow_next_id_votes: "escrow_next_id s = Inr (k, s') \<Longrightarrow> get_votes s' = get_votes s"
  by (auto simp: escrow_next_id_def res_simps get_votes_def fun_eq_iff Let_def)

lemma votes_only_by_vote:
  assumes "escrow_exec T e st c = Inr st'" and "\<And>k x b. c \<noteq> Vote k x b"
  shows "get_votes (esst st') = get_votes (esst st)"
proof (cases c)
  case (CreateEscrow sl b a n lock nonce)
  with assms(1) show ?thesis
    by (auto simp: res_simps create_escrow_iff escrow_created_def escrow_next_id_votes split: option.splits)
next
  case (Initialize x xs n d)
  with assms(1) show ?thesis by (auto simp: initialize_def res_simps Let_def get_votes_def fun_eq_iff)
next
  case (ResolveDispute k x)
  with assms(1) show ?thesis
    by (auto simp: resolve_dispute_iff settle_write_def escrow_event_defs split: if_splits)
next
  case (SetDisputeWindow x n)
  with assms(1) show ?thesis by (auto simp: set_dispute_window_def res_simps get_votes_def fun_eq_iff)
next
  case (SetMinTimelock x n)
  with assms(1) show ?thesis by (auto simp: set_min_timelock_def res_simps get_votes_def fun_eq_iff)
qed (use assms in \<open>auto simp: fund_escrow_iff raise_dispute_iff submit_evidence_iff auto_refund_iff cancel_escrow_iff
  settle_write_def escrow_event_defs Let_def\<close>)

lemma votes_step:
  assumes "escrow_step T c st st'" and "x \<in> voters (esst st') k b"
  shows "x \<in> voters (esst st) k b \<or> (\<exists>e. vote e st k x b = Inr st')"
  using assms(1)
proof cases
  case (escrow_step_call e q)
  show ?thesis
  proof (cases "\<exists>j y d. q = Vote j y d")
    case True
    then obtain j y d where q: "vote e st j y d = Inr st'" using escrow_step_call by auto
    then have "get_votes (esst st') k = get_votes (esst st) k @ (if k = j then [\<lparr>vt_signer = y, vt_in_favour_of_release = d, vt_voted_at = now e\<rparr>] else [])"
      by (auto simp: vote_iff get_votes_def)
    with q assms(2) show ?thesis by (auto simp: voters_def split: if_splits)
  next
    case False
    then have "get_votes (esst st') = get_votes (esst st)" using votes_only_by_vote escrow_step_call(3) by blast
    with assms(2) show ?thesis by (simp add: voters_def)
  qed
qed (use assms(2) in \<open>simp add: voters_def\<close>)

lemma voters_deployed: "escrow_deployed T c st \<Longrightarrow> voters (esst st) k b = {}"
  by (simp add: escrow_deployed_def voters_def get_votes_def escrow_storage0_def)

lemma voters_cast_by_signer:
  assumes "reachable (escrow_deployed T c) (escrow_step T c) st" and "x \<in> voters (esst st) k b"
  shows "cast_by_signer T c st k x b"
proof -
  have "\<exists>st0 st1. reachable (escrow_deployed T c) (escrow_step T c) st0 \<and> (\<exists>e. vote e st0 k x b = Inr st1)
      \<and> (escrow_step T c)\<^sup>*\<^sup>* st1 st"
    by (rule reachable_origin [where P = "\<lambda>s. x \<in> voters (esst s) k b", OF assms])
      (use votes_step voters_deployed in \<open>blast+\<close>)
  then show ?thesis unfolding cast_by_signer_def using vote_by_signer by blast
qed

section \<open>Runs for witnesses\<close>

definition escrow_run :: "'w token_api \<Rightarrow> (env \<times> escrow_call) list \<Rightarrow> 'w escrow_sys \<Rightarrow> ('w escrow_sys, escrow_error) res" where
  "escrow_run T = foldR (\<lambda>(e, k) st. escrow_exec T e st k)"

lemma escrow_run_steps:
  assumes "escrow_run T xs st = Inr st'" and "\<forall>(e, k) \<in> set xs. self_addr e = c \<and> \<not> authorized e c"
  shows "(escrow_step T c)\<^sup>*\<^sup>* st st'"
  using assms
proof (induction xs arbitrary: st)
  case Nil
  then show ?case by (simp add: escrow_run_def)
next
  case (Cons x xs)
  obtain e k where x: "x = (e, k)" by (cases x)
  from Cons.prems(1) x obtain s1 where s1: "escrow_exec T e st k = Inr s1" "escrow_run T xs s1 = Inr st'"
    by (auto simp: escrow_run_def res_simps)
  have "escrow_step T c st s1"
    by (rule escrow_step_call [of e]) (use Cons.prems(2) x s1 in auto)
  moreover have "(escrow_step T c)\<^sup>*\<^sup>* s1 st'"
    by (rule Cons.IH) (use Cons.prems(2) s1 in auto)
  ultimately show ?case by (rule converse_rtranclp_into_rtranclp)
qed

text \<open>
  The demonstration run: signers 5, 6 and 7 with threshold 2; address 1 sells to address 2 for
  40 of asset 11; the buyer funds and raises a dispute; signers 5 and 6 vote for release.
\<close>

definition demo_escrow0 :: "ledger escrow_sys" where
  "demo_escrow0 = \<lparr>esst = escrow_storage0, esw = demo_ledger\<rparr>"

definition demo_escrow_calls :: "(env \<times> escrow_call) list" where
  "demo_escrow_calls =
     [(demo_env 5 900, Initialize (Addr 5) [Addr 6, Addr 7] 2 604800),
      (demo_env 1 1000, CreateEscrow (Addr 1) (Addr 2) (Addr 11) 40 3600 7),
      (demo_env 2 1001, FundEscrow 1 (Addr 2)),
      (demo_env 2 1002, RaiseDispute 1 (Addr 2) 500),
      (demo_env 5 1003, Vote 1 (Addr 5) True),
      (demo_env 6 1004, Vote 1 (Addr 6) True)]"

lemmas demo_escrow_defs = escrow_run_def demo_escrow_calls_def demo_escrow0_def demo_ledger_def
  demo_env_def escrow_storage0_def initialize_def create_escrow_def fund_escrow_def raise_dispute_def
  vote_def resolve_dispute_def auto_refund_def require_auth_def escrow_has_trustline_def
  ledger_api_def ledger_transfer_def escrow_transfer_token_no_auth_def escrow_invoke_transfer_def
  escrow_find_by_nonce_def escrow_next_id_def u_add_def u_sat_add_def min_timelock_def
  DEFAULT_MIN_TIMELOCK_def save_escrow_def update_escrow_def load_escrow_def load_dispute_def
  save_dispute_def update_dispute_def escrow_publish_def es_is_party_def es_is_signer_def
  load_signers_def load_threshold_def record_vote_def get_votes_def all_signers_of_def
  count_release_votes_def count_refund_votes_def escrow_event_defs

lemma demo_escrow0_reachable:
  "reachable (escrow_deployed ledger_api (Addr 0)) (escrow_step ledger_api (Addr 0)) demo_escrow0"
  by (rule reach_init) (simp add: escrow_deployed_def demo_escrow0_def demo_ledger_def)

lemma demo_escrow_reachable:
  assumes "escrow_run ledger_api (take n demo_escrow_calls) demo_escrow0 = Inr st"
  shows "reachable (escrow_deployed ledger_api (Addr 0)) (escrow_step ledger_api (Addr 0)) st"
proof (rule reachable_rtranclp [OF demo_escrow0_reachable escrow_run_steps [OF assms]])
  show "\<forall>(e, k)\<in>set (take n demo_escrow_calls). self_addr e = Addr 0 \<and> \<not> authorized e (Addr 0)"
    by (auto dest!: in_set_takeD simp: demo_escrow_calls_def demo_env_def)
qed

lemma demo_escrow_voted:
  "\<exists>st r d. escrow_run ledger_api (take 6 demo_escrow_calls) demo_escrow0 = Inr st
     \<and> escrows (esst st) 1 = Some r \<and> es_state r = Disputed \<and> es_asset r = Addr 11 \<and> es_amount r = 40
     \<and> es_seller r = Addr 1 \<and> es_buyer r = Addr 2 \<and> disputes (esst st) 1 = Some d
     \<and> dp_status d = Open \<and> dp_deadline d = 1502
     \<and> map vt_signer (get_votes (esst st) 1) = [Addr 5, Addr 6] \<and> esw st (Addr 11, Addr 0) = 40
     \<and> esw st (Addr 11, Addr 1) = 0
     \<and> load_threshold (esst st) = 2
     \<and> (\<exists>st' r'. resolve_dispute ledger_api (demo_env 7 1100) st 1 (Addr 7) = Inr st'
          \<and> escrows (esst st') 1 = Some r' \<and> es_state r' = Released)"
  by (simp add: demo_escrow_defs Let_def)

lemma demo_escrow_funded:
  "\<exists>st r. escrow_run ledger_api (take 3 demo_escrow_calls) demo_escrow0 = Inr st
     \<and> escrows (esst st) 1 = Some r \<and> es_state r = Escrowed \<and> es_asset r = Addr 11 \<and> es_amount r = 40
     \<and> es_seller r = Addr 1 \<and> es_buyer r = Addr 2 \<and> esw st (Addr 11, Addr 2) = 460"
  by (simp add: demo_escrow_defs Let_def)

section \<open>Properties\<close>

text \<open>
  C1: solvency of the escrow. In every reachable state the contract holds, in every asset, at
  least the sum of the amounts of all escrows that are funded and not yet settled, disputed
  ones included.
\<close>

theorem escrow_solvent:
  assumes "token_laws T" and "reachable (escrow_deployed T c) (escrow_step T c) st"
  shows "(\<Sum>k\<in>dom (escrows (esst st)). escrow_locked a (the (escrows (esst st) k))) \<le> bal T (esw st) a c"
  using escrow_machine.inv_reachable [OF assms(2)] assms(1)
  by (auto simp: escrow_inv_def escrow_owed_def map_total_def)

theorem escrow_solvent_witness:
  "\<exists>st. escrow_run ledger_api (take 6 demo_escrow_calls) demo_escrow0 = Inr st \<and>
     escrows (esst st) 1 \<noteq> None \<and> esw st (Addr 11, Addr 0) = 40 \<and>
     (\<Sum>k\<in>dom (escrows (esst st)). escrow_locked (Addr 11) (the (escrows (esst st) k))) \<le> 40"
proof -
  obtain st where st: "escrow_run ledger_api (take 6 demo_escrow_calls) demo_escrow0 = Inr st"
      "escrows (esst st) 1 \<noteq> None" "esw st (Addr 11, Addr 0) = 40"
    using demo_escrow_voted by auto
  show ?thesis
    using escrow_solvent [OF ledger_laws demo_escrow_reachable [OF st(1)], of "Addr 11"] st by auto
qed

text \<open>
  Consistency of the dispute records. In every reachable state each stored dispute belongs
  to a stored escrow whose state is the one its status stands for, was raised by a party, counts
  exactly the stored evidence, which came from the parties only, and no signer has voted twice.
\<close>

theorem dispute_records_consistent:
  assumes "token_laws T" and "reachable (escrow_deployed T c) (escrow_step T c) st"
    and "disputes (esst st) k = Some d"
  shows "\<exists>r. escrows (esst st) k = Some r \<and> es_state r = disputed_state (dp_status d)
      \<and> es_is_party r (dp_raised_by d) \<and> dp_evidence_count d = length (get_evidence (esst st) k)
      \<and> (\<forall>ev \<in> set (get_evidence (esst st) k). es_is_party r (ev_submitted_by ev))
      \<and> distinct (map vt_signer (get_votes (esst st) k))"
proof -
  have "escrow_store_ok c (esst st)"
    using escrow_machine.inv_reachable [OF assms(2)] assms(1) by (simp add: escrow_inv_def)
  note d = escrow_store_okD [OF this]
  obtain r where r: "escrows (esst st) k = Some r"
    using d(5) [of k] assms(3) by (cases "escrows (esst st) k") auto
  show ?thesis
    using d(3) [OF r] r assms(3) by (auto simp: escrow_slot_ok_def)
qed

theorem dispute_records_consistent_witness:
  "\<exists>st d r. escrow_run ledger_api (take 6 demo_escrow_calls) demo_escrow0 = Inr st \<and>
     disputes (esst st) 1 = Some d \<and> dp_status d = Open \<and> escrows (esst st) 1 = Some r \<and>
     es_state r = Disputed \<and> distinct (map vt_signer (get_votes (esst st) 1))"
proof -
  obtain st d r where st: "escrow_run ledger_api (take 6 demo_escrow_calls) demo_escrow0 = Inr st"
      "disputes (esst st) 1 = Some d" "dp_status d = Open" "escrows (esst st) 1 = Some r"
    using demo_escrow_voted by auto
  from dispute_records_consistent [OF ledger_laws demo_escrow_reachable [OF st(1)] st(2)] show ?thesis
    using st by auto
qed

text \<open>
  C9: who a resolution pays, and with whose consent. A successful \<open>resolve_dispute\<close> was called
  by an authorised signer on an open dispute; at least the threshold of different addresses voted
  for the outcome taken, and each of them voted itself, in an earlier authorised call, while it was
  a signer; exactly the escrowed amount goes to the seller or the buyer accordingly, and only this
  escrow and dispute change.
\<close>

theorem resolve_dispute_pays_outcome:
  assumes "token_laws T" and "reachable (escrow_deployed T c) (escrow_step T c) st"
    and "self_addr e = c" and "resolve_dispute T e st k x = Inr st'"
  shows "\<exists>r d b to. escrows (esst st) k = Some r \<and> disputes (esst st) k = Some d \<and> dp_status d = Open
      \<and> authorized e x \<and> x \<in> set (load_signers (esst st))
      \<and> load_threshold (esst st) \<le> card (voters (esst st) k b)
      \<and> (\<forall>y \<in> voters (esst st) k b. cast_by_signer T c st k y b)
      \<and> to = (if b then es_seller r else es_buyer r)
      \<and> moved T (esw st) (esw st') (es_asset r) c to (es_amount r)
      \<and> escrows (esst st') = (escrows (esst st))(k \<mapsto> r\<lparr>es_state := if b then Released else Refunded\<rparr>)
      \<and> disputes (esst st') = (disputes (esst st))
          (k \<mapsto> d\<lparr>dp_status := if b then ResolvedRelease else ResolvedRefund\<rparr>)"
proof -
  have ok: "escrow_store_ok c (esst st)"
    using escrow_machine.inv_reachable [OF assms(2)] assms(1) by (simp add: escrow_inv_def)
  note st_ok = escrow_store_okD [OF ok]
  from assms(4) obtain d r v w' where g: "authorized e x" "disputes (esst st) k = Some d"
      "escrows (esst st) k = Some r" "dp_status d = Open" "es_is_signer (esst st) x"
    and c: "if load_threshold (esst st) \<le> count_release_votes (esst st) k
          then tok_transfer T e (esw st) (es_asset r) c (es_seller r) (es_amount r) = Returned v w'
            \<and> st' = \<lparr>esst = settle_write (\<lambda>s. escrow_released e (r\<lparr>es_state := Released\<rparr>)
                (dispute_resolved e (d\<lparr>dp_status := ResolvedRelease\<rparr>) x s))
                d ResolvedRelease r Released (esst st), esw = w'\<rparr>
          else load_threshold (esst st) \<le> count_refund_votes (esst st) k
            \<and> tok_transfer T e (esw st) (es_asset r) c (es_buyer r) (es_amount r) = Returned v w'
            \<and> st' = \<lparr>esst = settle_write (\<lambda>s. escrow_refunded e (r\<lparr>es_state := Refunded\<rparr>)
                (dispute_resolved e (d\<lparr>dp_status := ResolvedRefund\<rparr>) x s))
                d ResolvedRefund r Refunded (esst st), esw = w'\<rparr>"
    unfolding resolve_dispute_iff assms(3) by blast
  have slot: "escrow_slot_ok c r (Some d) (get_evidence (esst st) k) (get_votes (esst st) k)"
    using st_ok(3) [OF g(3)] g(2) by simp
  have id: "es_id r = k" "dp_escrow_id d = k"
    using st_ok(4) [OF g(3)] slot by (simp_all add: escrow_slot_ok_def)
  have dist: "distinct (map vt_signer (get_votes (esst st) k))"
    using slot by (simp add: escrow_slot_ok_def)
  note cards = card_voters [OF dist]
  have signer: "x \<in> set (load_signers (esst st))"
    using g(5) by (auto simp: es_is_signer_def list_ex_iff)
  note cast = voters_cast_by_signer [OF assms(2)]
  show ?thesis
  proof (cases "load_threshold (esst st) \<le> count_release_votes (esst st) k")
    case True
    with c g signer id cast show ?thesis
      by (intro exI [of _ r] exI [of _ d] exI [of _ True] exI [of _ "es_seller r"])
        (auto simp: settle_write_def escrow_event_defs cards count_release_votes_def
          intro: token_laws_Returned [OF assms(1)])
  next
    case False
    with c g signer id cast show ?thesis
      by (intro exI [of _ r] exI [of _ d] exI [of _ False] exI [of _ "es_buyer r"])
        (auto simp: settle_write_def escrow_event_defs cards count_release_votes_def
          count_refund_votes_def intro: token_laws_Returned [OF assms(1)])
  qed
qed

theorem resolve_dispute_pays_outcome_witness:
  "\<exists>st st'. escrow_run ledger_api (take 6 demo_escrow_calls) demo_escrow0 = Inr st \<and>
     resolve_dispute ledger_api (demo_env 7 1100) st 1 (Addr 7) = Inr st' \<and>
     (\<exists>b y. 2 \<le> card (voters (esst st) 1 b) \<and> y \<in> voters (esst st) 1 b \<and> cast_by_signer ledger_api (Addr 0) st 1 y b)"
proof -
  obtain st st' where st: "escrow_run ledger_api (take 6 demo_escrow_calls) demo_escrow0 = Inr st"
    and ok: "resolve_dispute ledger_api (demo_env 7 1100) st 1 (Addr 7) = Inr st'" and n: "load_threshold (esst st) = 2"
    using demo_escrow_voted by auto
  have e: "self_addr (demo_env 7 1100) = Addr 0" by (simp add: demo_env_def)
  from resolve_dispute_pays_outcome [OF ledger_laws demo_escrow_reachable [OF st] e ok]
  obtain b where b: "2 \<le> card (voters (esst st) 1 b)" "\<forall>y \<in> voters (esst st) 1 b. cast_by_signer ledger_api (Addr 0) st 1 y b"
    by (auto simp: n)
  from b(1) obtain y where "y \<in> voters (esst st) 1 b" by fastforce
  with b st ok show ?thesis by blast
qed



text \<open>
  Settled escrows are final. Once an escrow is released or refunded, no later sequence of
  steps changes the escrow, its dispute, its evidence or its votes.
\<close>

theorem settled_escrow_final:
  assumes "token_laws T" and "reachable (escrow_deployed T c) (escrow_step T c) st"
    and "(escrow_step T c)\<^sup>*\<^sup>* st st'"
    and "escrows (esst st) k = Some r" and "es_state r \<in> {Released, Refunded}"
  shows "escrows (esst st') k = Some r \<and> disputes (esst st') k = disputes (esst st) k
      \<and> get_evidence (esst st') k = get_evidence (esst st) k
      \<and> get_votes (esst st') k = get_votes (esst st) k"
proof (rule escrow_machine.stable_rtranclp [OF _ assms(3)])
  fix s t :: "'a escrow_sys"
  assume inv: "token_laws T \<longrightarrow> escrow_inv T c s" and step: "escrow_step T c s t"
    and P: "escrows (esst s) k = Some r \<and> disputes (esst s) k = disputes (esst st) k
      \<and> get_evidence (esst s) k = get_evidence (esst st) k \<and> get_votes (esst s) k = get_votes (esst st) k"
  from inv assms(1) have "escrow_store_ok c (esst s)" by (simp add: escrow_inv_def)
  from escrow_step_frame [OF this step] P have "slot_grows k r (esst s) (esst t)"
    by (simp add: escrow_frame_def)
  with P assms(5) show "escrows (esst t) k = Some r \<and> disputes (esst t) k = disputes (esst st) k
      \<and> get_evidence (esst t) k = get_evidence (esst st) k \<and> get_votes (esst t) k = get_votes (esst st) k"
    by (auto simp: slot_grows_def escrow_settled_def same_slot_def)
qed (use assms escrow_machine.inv_reachable [OF assms(2)] in auto)

theorem settled_escrow_final_witness:
  "\<exists>st st' r. escrow_run ledger_api [(demo_env 1 1000, CreateEscrow (Addr 1) (Addr 2) (Addr 11) 40 3600 7),
       (demo_env 1 1001, CancelEscrow 1)] demo_escrow0 = Inr st \<and>
     escrow_run ledger_api [(demo_env 9 1002, SetMinTimelock (Addr 9) 0)] st = Inr st' \<and>
     es_state r = Refunded \<and> escrows (esst st') 1 = Some r"
proof -
  let ?c1 = "[(demo_env 1 1000, CreateEscrow (Addr 1) (Addr 2) (Addr 11) 40 3600 7),
    (demo_env 1 1001, CancelEscrow 1)]"
  let ?c2 = "[(demo_env 9 1002, SetMinTimelock (Addr 9) 0)]"
  obtain st st' r where st: "escrow_run ledger_api ?c1 demo_escrow0 = Inr st"
    and st': "escrow_run ledger_api ?c2 st = Inr st'"
    and r: "escrows (esst st) 1 = Some r" "es_state r = Refunded"
    by (simp add: demo_escrow_defs Let_def cancel_escrow_def set_min_timelock_def)
  have reach: "reachable (escrow_deployed ledger_api (Addr 0)) (escrow_step ledger_api (Addr 0)) st"
    by (rule reachable_rtranclp [OF demo_escrow0_reachable escrow_run_steps [OF st]])
      (simp add: demo_env_def)
  have run: "(escrow_step ledger_api (Addr 0))\<^sup>*\<^sup>* st st'"
    by (rule escrow_run_steps [OF st']) (simp add: demo_env_def)
  show ?thesis
    using settled_escrow_final [OF ledger_laws reach run r(1)] st st' r(2) by auto
qed

text \<open>
  No escrow is released to the seller without votes. If one step turns an escrow that was
  not released into a released one, then before that step its dispute was open and at least the
  threshold of distinct signers had voted for release.
\<close>

theorem release_needs_votes:
  assumes "token_laws T" and "reachable (escrow_deployed T c) (escrow_step T c) st"
    and "escrow_step T c st st'" and "escrows (esst st) k = Some r" and "es_state r \<noteq> Released"
    and "escrows (esst st') k = Some r'" and "es_state r' = Released"
  shows "\<exists>d. disputes (esst st) k = Some d \<and> dp_status d = Open
    \<and> load_threshold (esst st) \<le> card (voters (esst st) k True)"
proof -
  have inv: "escrow_inv T c st"
    using escrow_machine.inv_reachable [OF assms(2)] assms(1) by simp
  note ok = escrow_store_okD [OF escrow_invD(1) [OF inv]]
  have slot: "escrow_slot_ok c r (disputes (esst st) k) (get_evidence (esst st) k) (get_votes (esst st) k)"
    by (rule ok(3) [OF assms(4)])
  then have dist: "distinct (map vt_signer (get_votes (esst st) k))" by (simp add: escrow_slot_ok_def)
  have ids: "\<And>j q. escrows (esst st) j = Some q \<Longrightarrow> es_id q = j" by (rule ok(4))
  have same: "escrows (esst st') k = escrows (esst st) k \<Longrightarrow> ?thesis"
    using assms(4-7) by simp
  from assms(3) show ?thesis
  proof cases
    case (escrow_step_call e cl)
    note ex = escrow_step_call(3)
    show ?thesis
    proof (cases cl)
      case (ResolveDispute j x)
      from ex ResolveDispute obtain d q where q: "disputes (esst st) j = Some d"
          "escrows (esst st) j = Some q" "dp_status d = Open"
        and c: "(load_threshold (esst st) \<le> count_release_votes (esst st) j
            \<and> escrows (esst st') = (escrows (esst st))(j \<mapsto> q\<lparr>es_state := Released\<rparr>))
          \<or> escrows (esst st') = (escrows (esst st))(j \<mapsto> q\<lparr>es_state := Refunded\<rparr>)"
        by (auto simp: resolve_dispute_iff settle_write_def escrow_event_defs ids split: if_splits)
      show ?thesis
      proof (cases "k = j")
        case True
        with c q assms(6,7) card_voters [OF dist, of True] show ?thesis
          by (auto simp: count_release_votes_def)
      next
        case False
        with c show ?thesis by (intro same) auto
      qed
    next
      case (CreateEscrow sl b a n lock nonce)
      with ex CreateEscrow assms(4-7) show ?thesis
        by (auto simp: res_simps create_escrow_iff escrow_created_def split: option.splits if_splits)
    qed (use ex ids assms(4-7) in \<open>auto simp: initialize_def fund_escrow_iff raise_dispute_iff
        submit_evidence_iff vote_iff auto_refund_iff cancel_escrow_iff set_dispute_window_def
        set_min_timelock_def res_simps Let_def settle_write_def escrow_event_defs split: if_splits\<close>)
  next
    case (escrow_step_world w)
    then show ?thesis by (intro same) simp
  qed
qed

theorem release_needs_votes_witness:
  "\<exists>st st' d. escrow_run ledger_api (take 6 demo_escrow_calls) demo_escrow0 = Inr st \<and>
     resolve_dispute ledger_api (demo_env 7 1100) st 1 (Addr 7) = Inr st' \<and>
     disputes (esst st) 1 = Some d \<and> load_threshold (esst st) = 2 \<and>
     2 \<le> card (voters (esst st) 1 True)"
proof -
  obtain st st' r r' where st: "escrow_run ledger_api (take 6 demo_escrow_calls) demo_escrow0 = Inr st"
    and ok: "resolve_dispute ledger_api (demo_env 7 1100) st 1 (Addr 7) = Inr st'"
    and r: "escrows (esst st) 1 = Some r" "es_state r = Disputed"
      "escrows (esst st') 1 = Some r'" "es_state r' = Released" "load_threshold (esst st) = 2"
    using demo_escrow_voted by auto
  have step: "escrow_step ledger_api (Addr 0) st st'"
    by (rule escrow_step_call [of "demo_env 7 1100" _ _ _ "ResolveDispute 1 (Addr 7)"])
      (use ok in \<open>simp_all add: demo_env_def\<close>)
  show ?thesis
    using release_needs_votes [OF ledger_laws demo_escrow_reachable [OF st] step r(1) _ r(3,4)] st ok r(2,5)
    by auto
qed

text \<open>What an escrow in dispute is worth is there to be paid out.\<close>

lemma escrow_covered:
  assumes inv: "escrow_inv T c st" and r: "escrows (esst st) k = Some r" "escrow_held r"
  shows "0 < es_amount r \<and> es_amount r \<le> bal T (esw st) (es_asset r) c"
proof -
  note ok = escrow_store_okD [OF escrow_invD(1) [OF inv]]
  have pos: "\<And>j q. escrows (esst st) j = Some q \<Longrightarrow> 0 < es_amount q"
    using ok(3) by (auto simp: escrow_slot_ok_def)
  have "escrow_locked (es_asset r) r \<le> escrow_owed st (es_asset r)"
    unfolding escrow_owed_def
    by (rule map_total_ge_member [OF ok(2) r(1)]) (use pos in \<open>force simp: escrow_locked_def\<close>)
  with escrow_invD(2) [OF inv, of "es_asset r"] pos [OF r(1)] r(2) show ?thesis
    by (simp add: escrow_locked_def)
qed

lemma escrow_payout:
  assumes "token_pays T" and "escrow_inv T c st" and "escrows (esst st) k = Some r" and "escrow_held r"
    and "self_addr e = c"
  shows "\<exists>v w'. tok_transfer T e (esw st) (es_asset r) c y (es_amount r) = Returned v w'"
  using assms(1) escrow_covered [OF assms(2-4)] assms(5) unfolding token_pays_def by blast

text \<open>
  No funds stay locked in a dispute. Once the deadline of an open dispute has passed,
  \<open>auto_refund\<close> succeeds for any caller, with no authorisation at all, on any token that lets a
  holder pay out what it holds, and moves exactly the escrowed amount back to the buyer.
\<close>

theorem auto_refund_available:
  assumes "token_laws T" and "token_pays T"
    and "reachable (escrow_deployed T c) (escrow_step T c) st" and "self_addr e = c"
    and "disputes (esst st) k = Some d" and "dp_status d = Open" and "dp_deadline d \<le> now e"
  shows "\<exists>st' r. auto_refund T e st k = Inr st' \<and> escrows (esst st) k = Some r
    \<and> moved T (esw st) (esw st') (es_asset r) c (es_buyer r) (es_amount r)
    \<and> escrows (esst st') k = Some (r\<lparr>es_state := Refunded\<rparr>)"
proof -
  have inv: "escrow_inv T c st"
    using escrow_machine.inv_reachable [OF assms(3)] assms(1) by simp
  note ok = escrow_store_okD [OF escrow_invD(1) [OF inv]]
  obtain r where r: "escrows (esst st) k = Some r"
    using ok(5) [of k] assms(5) by (cases "escrows (esst st) k") auto
  have held: "escrow_held r" and id: "es_id r = k"
    using ok(3,4) [OF r] assms(5,6) by (auto simp: escrow_slot_ok_def escrow_held_def)
  obtain v w' where tx: "tok_transfer T e (esw st) (es_asset r) c (es_buyer r) (es_amount r) = Returned v w'"
    using escrow_payout [OF assms(2) inv r held assms(4)] by blast
  then show ?thesis
    using assms(4-7) r id token_laws_Returned [OF assms(1) tx]
    by (auto simp: auto_refund_iff settle_write_def escrow_event_defs)
qed

theorem auto_refund_available_witness:
  "\<exists>st st'. escrow_run ledger_api (take 6 demo_escrow_calls) demo_escrow0 = Inr st \<and>
     auto_refund ledger_api (demo_env 9 1502) st 1 = Inr st'"
proof -
  obtain st d where st: "escrow_run ledger_api (take 6 demo_escrow_calls) demo_escrow0 = Inr st"
    and d: "disputes (esst st) 1 = Some d" "dp_status d = Open" "dp_deadline d = 1502"
    using demo_escrow_voted by auto
  have "dp_deadline d \<le> now (demo_env 9 1502)" "self_addr (demo_env 9 1502) = Addr 0"
    by (simp_all add: demo_env_def d)
  from auto_refund_available [OF ledger_laws ledger_pays demo_escrow_reachable [OF st] this(2) d(1,2) this(1)]
  show ?thesis using st by blast
qed

text \<open>
  The buyer can take the money back at once. \<open>raise_dispute\<close> takes the dispute window from
  the disputing party and checks no minimum, so with a window of 0 the buyer of any funded
  escrow gets the full amount back in the same ledger, with no vote and without the seller.
\<close>

theorem buyer_instant_refund:
  assumes "token_laws T" and "token_pays T"
    and "reachable (escrow_deployed T c) (escrow_step T c) st" and "self_addr e = c"
    and "escrows (esst st) k = Some r" and "es_state r = Escrowed" and "authorized e (es_buyer r)"
  shows "\<exists>st1 st2. raise_dispute e st k (es_buyer r) 0 = Inr st1 \<and> auto_refund T e st1 k = Inr st2
    \<and> get_votes (esst st2) k = []
    \<and> moved T (esw st) (esw st2) (es_asset r) c (es_buyer r) (es_amount r)"
proof -
  have inv: "escrow_inv T c st"
    using escrow_machine.inv_reachable [OF assms(3)] assms(1) by simp
  note ok = escrow_store_okD [OF escrow_invD(1) [OF inv]]
  have nov: "get_votes (esst st) k = []" and id: "es_id r = k"
    using ok(3,4) [OF assms(5)] assms(6)
    by (auto simp: escrow_slot_ok_def split: option.splits elim: disputed_state.elims)
  let ?st1 = "st\<lparr>esst := dispute_raised (new_dispute e k (es_buyer r) 0)
     (save_dispute (new_dispute e k (es_buyer r) 0) (update_escrow (r\<lparr>es_state := Disputed\<rparr>) (esst st)))\<rparr>"
  have s1: "raise_dispute e st k (es_buyer r) 0 = Inr ?st1"
    using assms(5-7) by (simp add: raise_dispute_iff es_is_party_def)
  have held: "escrow_held r" using assms(6) by (simp add: escrow_held_def)
  obtain v w' where tx: "tok_transfer T e (esw st) (es_asset r) c (es_buyer r) (es_amount r) = Returned v w'"
    using escrow_payout [OF assms(2) inv assms(5) held assms(4)] by blast
  have "\<exists>st2. auto_refund T e ?st1 k = Inr st2 \<and> get_votes (esst st2) k = [] \<and> esw st2 = w'"
    using tx assms(4) id
    by (simp add: auto_refund_iff settle_write_def escrow_event_defs u_sat_add_def nov)
  with s1 token_laws_Returned [OF assms(1) tx] show ?thesis by blast
qed

theorem buyer_instant_refund_witness:
  "\<exists>st st1 st2 r. escrow_run ledger_api (take 3 demo_escrow_calls) demo_escrow0 = Inr st \<and>
     escrows (esst st) 1 = Some r \<and> es_buyer r = Addr 2 \<and>
     raise_dispute (demo_env 2 2000) st 1 (Addr 2) 0 = Inr st1 \<and>
     auto_refund ledger_api (demo_env 2 2000) st1 1 = Inr st2 \<and>
     esw st2 (Addr 11, Addr 2) = 500"
proof -
  obtain st r where st: "escrow_run ledger_api (take 3 demo_escrow_calls) demo_escrow0 = Inr st"
    and r: "escrows (esst st) 1 = Some r" "es_state r = Escrowed" "es_buyer r = Addr 2"
      "es_asset r = Addr 11" "es_amount r = 40" "esw st (Addr 11, Addr 2) = 460"
    using demo_escrow_funded by auto
  have e: "self_addr (demo_env 2 2000) = Addr 0" "authorized (demo_env 2 2000) (es_buyer r)"
    by (simp_all add: demo_env_def r)
  from buyer_instant_refund [OF ledger_laws ledger_pays demo_escrow_reachable [OF st] e(1) r(1,2) e(2)]
  show ?thesis using st r by (fastforce simp: moved_def)
qed

text \<open>
  Anyone can take the resolution over. \<open>initialize\<close> may be called again by any address, which
  replaces all signers and the threshold: an outsider who has not voted on an open dispute makes
  itself the only signer, votes, and has the escrowed amount released to the seller.
\<close>

theorem outsider_releases_escrow:
  assumes "token_laws T" and "token_pays T"
    and "reachable (escrow_deployed T c) (escrow_step T c) st" and "self_addr e = c"
    and "disputes (esst st) k = Some d" and "dp_status d = Open"
    and "authorized e x" and "x \<notin> vt_signer ` set (get_votes (esst st) k)"
  shows "\<exists>st1 st2 st3 r. initialize e st x [] 1 0 = Inr st1 \<and> vote e st1 k x True = Inr st2
    \<and> resolve_dispute T e st2 k x = Inr st3 \<and> escrows (esst st) k = Some r
    \<and> moved T (esw st) (esw st3) (es_asset r) c (es_seller r) (es_amount r)"
proof -
  have inv: "escrow_inv T c st"
    using escrow_machine.inv_reachable [OF assms(3)] assms(1) by simp
  note ok = escrow_store_okD [OF escrow_invD(1) [OF inv]]
  obtain r where r: "escrows (esst st) k = Some r"
    using ok(5) [of k] assms(5) by (cases "escrows (esst st) k") auto
  have held: "escrow_held r" and id: "es_id r = k"
    using ok(3,4) [OF r] assms(5,6) by (auto simp: escrow_slot_ok_def escrow_held_def)
  obtain v w' where tx: "tok_transfer T e (esw st) (es_asset r) c (es_seller r) (es_amount r) = Returned v w'"
    using escrow_payout [OF assms(2) inv r held assms(4)] by blast
  let ?s1 = "(esst st)\<lparr>esigners := Some [x], ethreshold := Some 1, edispute_window := Some 0\<rparr>"
  let ?v = "\<lparr>vt_signer = x, vt_in_favour_of_release = True, vt_voted_at = now e\<rparr>"
  let ?s2 = "?s1\<lparr>dvotes := (dvotes (esst st))(k \<mapsto> get_votes (esst st) k @ [?v])\<rparr>"
  have votes: "get_votes ?s1 = get_votes (esst st)"
    and votes2: "get_votes ?s2 k = get_votes (esst st) k @ [?v]"
    by (simp_all add: get_votes_def fun_eq_iff)
  have i1: "initialize e st x [] 1 0 = Inr (st\<lparr>esst := ?s1\<rparr>)"
    using assms(7) by (simp add: initialize_def all_signers_of_def require_auth_ok)
  have i2: "vote e (st\<lparr>esst := ?s1\<rparr>) k x True = Inr (st\<lparr>esst := ?s2\<rparr>)"
    using assms(5-8) votes by (simp add: vote_iff es_is_signer_def load_signers_def)
  have "1 \<le> count_release_votes ?s2 k"
    unfolding count_release_votes_def votes2 by (simp add: count_votes_filter)
  then have "\<exists>st3. resolve_dispute T e (st\<lparr>esst := ?s2\<rparr>) k x = Inr st3 \<and> esw st3 = w'"
    using tx assms(4-7) r
    by (simp add: resolve_dispute_iff es_is_signer_def load_signers_def load_threshold_def)
  with i1 i2 r token_laws_Returned [OF assms(1) tx] show ?thesis by blast
qed

theorem outsider_releases_escrow_witness:
  "\<exists>st st1 st2 st3. escrow_run ledger_api (take 6 demo_escrow_calls) demo_escrow0 = Inr st \<and>
     initialize (demo_env 9 1200) st (Addr 9) [] 1 0 = Inr st1 \<and>
     vote (demo_env 9 1200) st1 1 (Addr 9) True = Inr st2 \<and>
     resolve_dispute ledger_api (demo_env 9 1200) st2 1 (Addr 9) = Inr st3"
proof -
  obtain st d where st: "escrow_run ledger_api (take 6 demo_escrow_calls) demo_escrow0 = Inr st"
    and d: "disputes (esst st) 1 = Some d" "dp_status d = Open"
    and vs: "map vt_signer (get_votes (esst st) 1) = [Addr 5, Addr 6]"
    using demo_escrow_voted by auto
  have "vt_signer ` set (get_votes (esst st) 1) = {Addr 5, Addr 6}"
    using arg_cong [OF vs, of set] by simp
  then have e: "Addr 9 \<notin> vt_signer ` set (get_votes (esst st) 1)"
    "self_addr (demo_env 9 1200) = Addr 0" "authorized (demo_env 9 1200) (Addr 9)"
    by (simp_all add: demo_env_def)
  from outsider_releases_escrow [OF ledger_laws ledger_pays demo_escrow_reachable [OF st] e(2) d e(3,1)]
  show ?thesis using st by blast
qed

text \<open>
  Creation is idempotent. A second successful \<open>create_escrow\<close> with the same seller and nonce
  returns the first id and changes nothing, whatever its other arguments and whatever happened
  in between.
\<close>

theorem create_escrow_idempotent:
  assumes "token_laws T" and "reachable (escrow_deployed T c) (escrow_step T c) st"
    and "create_escrow T e st sl b a n lock nonce = Inr (k, st1)"
    and "\<not> authorized e c" and "self_addr e = c"
    and "(escrow_step T c)\<^sup>*\<^sup>* st1 st2"
    and "create_escrow T e' st2 sl b' a' n' lock' nonce = Inr (k', st3)"
  shows "k' = k \<and> st3 = st2"
proof -
  have step: "escrow_step T c st st1"
    by (rule escrow_step_call [of e _ _ _ "CreateEscrow sl b a n lock nonce"])
      (use assms in \<open>simp_all add: res_simps\<close>)
  have inv1: "token_laws T \<longrightarrow> escrow_inv T c st1"
    by (rule escrow_machine.inv_reachable [OF reach_step [OF assms(2) step]])
  have idx: "\<And>s. token_laws T \<longrightarrow> escrow_inv T c s \<Longrightarrow> escst.index_ok (esst s)"
    using assms(1) by (simp add: escrow_inv_def escrow_store_ok_def)
  have "escrow_find (esst st1) (sl, nonce) = Some k"
    using assms(3) escst.find_alloc
    by (cases "escrow_find (esst st) (sl, nonce)") (auto simp: create_escrow_iff escrow_created_def)
  then obtain r where r: "escrows (esst st1) k = Some r" "escrow_nkey r = (sl, nonce)"
    using idx [OF inv1] by (auto simp: escst.index_ok_def)
  have "\<exists>r'. escrows (esst st2) k = Some r' \<and> escrow_nkey r' = (sl, nonce)"
  proof (rule escrow_machine.stable_rtranclp [OF _ assms(6) inv1])
    fix s t :: "'a escrow_sys"
    assume inv: "token_laws T \<longrightarrow> escrow_inv T c s" and st: "escrow_step T c s t"
      and P: "\<exists>r'. escrows (esst s) k = Some r' \<and> escrow_nkey r' = (sl, nonce)"
    from inv assms(1) have "escrow_store_ok c (esst s)" by (simp add: escrow_inv_def)
    from escrow_step_frame [OF this st] P
    show "\<exists>r'. escrows (esst t) k = Some r' \<and> escrow_nkey r' = (sl, nonce)"
      by (fastforce simp: escrow_frame_def slot_grows_def escrow_terms_def)
  qed (use r in blast)
  then have "escrow_find (esst st2) (sl, nonce) = Some k"
    using idx [OF escrow_machine.inv_rtranclp [OF assms(6) inv1]] by (auto simp: escst.index_ok_def)
  with assms(7) show ?thesis by (simp add: create_escrow_iff)
qed

theorem create_escrow_idempotent_witness:
  "\<exists>k st1 k' st3. create_escrow ledger_api (demo_env 1 1000) demo_escrow0 (Addr 1) (Addr 2) (Addr 11)
       40 3600 7 = Inr (k, st1) \<and>
     create_escrow ledger_api (demo_env 1 1000) st1 (Addr 1) (Addr 3) (Addr 12) 9 5000 7
       = Inr (k', st3) \<and> k' = k \<and> st3 = st1"
proof -
  obtain k st1 k' st3 where c1: "create_escrow ledger_api (demo_env 1 1000) demo_escrow0 (Addr 1)
      (Addr 2) (Addr 11) 40 3600 7 = Inr (k, st1)"
    and c2: "create_escrow ledger_api (demo_env 1 1000) st1 (Addr 1) (Addr 3) (Addr 12) 9 5000 7
      = Inr (k', st3)"
    by (simp add: demo_escrow_defs Let_def)
  have e: "\<not> authorized (demo_env 1 1000) (Addr 0)" "self_addr (demo_env 1 1000) = Addr 0"
    by (simp_all add: demo_env_def)
  show ?thesis
    using create_escrow_idempotent [OF ledger_laws demo_escrow0_reachable c1 e rtranclp.rtrancl_refl c2]
      c1 c2 by blast
qed

end
