(* ===== verification/Trade_Engine.thy ===== *)
theory Trade_Engine
  imports Soroban
begin

text \<open>
  The trade engine (\<open>swaptrade-contracts/trade-engine/src\<close>): an order book per asset pair with
  escrowed orders, fallback constant-product pools and multi-leg trades. Types, storage, order
  book manager, pool manager, matching engine and entry points, in this order.
\<close>

section \<open>Types (types.rs, errors.rs, events.rs)\<close>

datatype trade_error =
    InvalidAmount | InvalidPrice | OrderNotFound | Unauthorized | ErrExpired | SlippageExceeded
  | InsufficientLiquidity | InvalidState | SameAsset | ExecutionFailed | InvalidLegs | AlreadyExists

datatype order_side = Buy | Sell

datatype order_type = Limit | Market | ImmediateOrCancel | FillOrKill

datatype order_status = Pending | PartiallyFilled | Filled | Cancelled | Expired

record order =
  od_id :: nat
  od_owner :: address
  od_base :: address
  od_quote :: address
  od_side :: order_side
  od_type :: order_type
  od_price :: nat
  od_amount :: int
  od_filled :: int
  od_status :: order_status
  od_created_at :: nat
  od_expires_at :: nat

record book_level =
  lv_price :: nat
  lv_total_amount :: int
  lv_order_count :: nat

record book_summary =
  sm_base :: address
  sm_quote :: address
  sm_bids :: "book_level list"
  sm_asks :: "book_level list"
  sm_timestamp :: nat

record trade_leg =
  lg_base :: address
  lg_quote :: address
  lg_side :: order_side
  lg_amount :: int
  lg_limit_price :: nat
  lg_min_output :: int

record fill_result =
  fl_order_id :: nat
  fl_maker :: address
  fl_taker :: address
  fl_base_asset :: address
  fl_quote_asset :: address
  fl_price :: nat
  fl_base :: int
  fl_quote :: int
  fl_via_pool :: bool
  fl_pool_id :: nat

record exec_result =
  xr_success :: bool
  xr_legs_executed :: nat
  xr_fills :: "fill_result list"

record liquidity_pool =
  lp_id :: nat
  lp_asset_a :: address
  lp_asset_b :: address
  lp_reserve_a :: int
  lp_reserve_b :: int
  lp_fee_bps :: nat

definition PRICE_PRECISION :: nat where
  "PRICE_PRECISION = 10000000"

datatype trade_event =
    EvPlaced nat address address address order_side nat int
  | EvCancelled nat address
  | EvExecuted address nat nat
  | EvFill nat address address nat int int bool
  | EvPoolAdded nat address address

section \<open>Storage (storage.rs)\<close>

record pair_book =
  bk_base :: address
  bk_quote :: address
  bk_bids :: "nat list"
  bk_asks :: "nat list"

record trade_storage =
  te_orders :: "nat \<rightharpoonup> order"
  te_books :: "(address \<times> address) \<rightharpoonup> pair_book"
  te_user_orders :: "address \<rightharpoonup> nat list"
  te_pools :: "nat \<rightharpoonup> liquidity_pool"
  te_pair_pool :: "(address \<times> address) \<rightharpoonup> nat"
  te_next_order :: "nat option"
  te_next_pool :: "nat option"
  te_admin :: "address option"
  te_log :: "trade_event list"

definition trade_storage0 :: trade_storage where
  "trade_storage0 = \<lparr>te_orders = Map.empty, te_books = Map.empty, te_user_orders = Map.empty,
     te_pools = Map.empty, te_pair_pool = Map.empty, te_next_order = None, te_next_pool = None,
     te_admin = None, te_log = []\<rparr>"

definition get_next_order_id :: "trade_storage \<Rightarrow> (nat \<times> trade_storage, trade_error) res" where
  "get_next_order_id s =
     (let i = (case te_next_order s of None \<Rightarrow> 1 | Some n \<Rightarrow> n)
      in bindR (u_add 64 i 1) (\<lambda>n. Inr (i, s\<lparr>te_next_order := Some n\<rparr>)))"

definition get_next_pool_id :: "trade_storage \<Rightarrow> (nat \<times> trade_storage, trade_error) res" where
  "get_next_pool_id s =
     (let i = (case te_next_pool s of None \<Rightarrow> 1 | Some n \<Rightarrow> n)
      in bindR (u_add 64 i 1) (\<lambda>n. Inr (i, s\<lparr>te_next_pool := Some n\<rparr>)))"

definition te_publish :: "trade_event \<Rightarrow> trade_storage \<Rightarrow> trade_storage" where
  "te_publish ev s = s\<lparr>te_log := te_log s @ [ev]\<rparr>"

definition emit_order_placed :: "order \<Rightarrow> trade_storage \<Rightarrow> trade_storage" where
  "emit_order_placed r = te_publish
     (EvPlaced (od_id r) (od_owner r) (od_base r) (od_quote r) (od_side r) (od_price r) (od_amount r))"

definition emit_order_cancelled :: "nat \<Rightarrow> address \<Rightarrow> trade_storage \<Rightarrow> trade_storage" where
  "emit_order_cancelled i x = te_publish (EvCancelled i x)"

definition emit_trade_executed :: "address \<Rightarrow> nat \<Rightarrow> nat \<Rightarrow> trade_storage \<Rightarrow> trade_storage" where
  "emit_trade_executed trader legs_count fills_count = te_publish (EvExecuted trader legs_count fills_count)"

definition emit_fill :: "fill_result \<Rightarrow> trade_storage \<Rightarrow> trade_storage" where
  "emit_fill f = te_publish
     (EvFill (fl_order_id f) (fl_maker f) (fl_taker f) (fl_price f) (fl_base f) (fl_quote f) (fl_via_pool f))"

definition emit_pool_added :: "nat \<Rightarrow> address \<Rightarrow> address \<Rightarrow> trade_storage \<Rightarrow> trade_storage" where
  "emit_pool_added i a b = te_publish (EvPoolAdded i a b)"

text \<open>
  \<open>token.rs\<close>: a non-positive amount is not transferred at all; otherwise \<open>token::Client\<close> panics
  when the token call fails or returns anything.
\<close>

definition te_transfer :: "'w token_api \<Rightarrow> env \<Rightarrow> 'w \<Rightarrow> address \<Rightarrow> address \<Rightarrow> address \<Rightarrow> int
    \<Rightarrow> ('w, trade_error) res" where
  "te_transfer T e w asset x y amount =
     (if amount \<le> 0 then Inr w
      else case tok_transfer T e w asset x y amount of
        Returned_Void w' \<Rightarrow> Inr w'
      | Returned_Other _ \<Rightarrow> Inl Trap
      | Returned _ _ \<Rightarrow> Inl Trap
      | Call_Failed \<Rightarrow> Inl Trap)"

section \<open>The order book manager (orderbook.rs)\<close>

definition get_pair_key :: "address \<Rightarrow> address \<Rightarrow> address \<times> address" where
  "get_pair_key asset_1 asset_2 = (if asset_1 < asset_2 then (asset_1, asset_2) else (asset_2, asset_1))"

definition load_book :: "trade_storage \<Rightarrow> address \<Rightarrow> address \<Rightarrow> pair_book" where
  "load_book s base quote =
     (case te_books s (get_pair_key base quote) of
        Some book \<Rightarrow> book
      | None \<Rightarrow> \<lparr>bk_base = base, bk_quote = quote, bk_bids = [], bk_asks = []\<rparr>)"

definition save_book :: "pair_book \<Rightarrow> trade_storage \<Rightarrow> trade_storage" where
  "save_book book s = s\<lparr>te_books := (te_books s)(get_pair_key (bk_base book) (bk_quote book) \<mapsto> book)\<rparr>"

definition save_order :: "order \<Rightarrow> trade_storage \<Rightarrow> trade_storage" where
  "save_order r s = s\<lparr>te_orders := (te_orders s)(od_id r \<mapsto> r)\<rparr>"

definition get_order :: "trade_storage \<Rightarrow> nat \<Rightarrow> order option" where
  "get_order s order_id = te_orders s order_id"

text \<open>
  The two insertion loops of \<open>add_order\<close>; the flag is the code's \<open>inserted\<close>. A bid goes before
  the first queued order with a lower price, an ask before the first with a higher price.
\<close>

fun insert_bid :: "trade_storage \<Rightarrow> order \<Rightarrow> bool \<Rightarrow> nat list \<Rightarrow> nat list" where
  "insert_bid s r inserted [] = (if inserted then [] else [od_id r])"
| "insert_bid s r inserted (i # is) =
     (case get_order s i of
        Some existing \<Rightarrow>
          if \<not> inserted \<and> od_price existing < od_price r then od_id r # i # insert_bid s r True is
          else i # insert_bid s r inserted is
      | None \<Rightarrow> i # insert_bid s r inserted is)"

fun insert_ask :: "trade_storage \<Rightarrow> order \<Rightarrow> bool \<Rightarrow> nat list \<Rightarrow> nat list" where
  "insert_ask s r inserted [] = (if inserted then [] else [od_id r])"
| "insert_ask s r inserted (i # is) =
     (case get_order s i of
        Some existing \<Rightarrow>
          if \<not> inserted \<and> od_price r < od_price existing then od_id r # i # insert_ask s r True is
          else i # insert_ask s r inserted is
      | None \<Rightarrow> i # insert_ask s r inserted is)"

definition add_order :: "order \<Rightarrow> trade_storage \<Rightarrow> trade_storage" where
  "add_order r s =
     (let book = load_book s (od_base r) (od_quote r)
      in save_book (case od_side r of
           Buy \<Rightarrow> book\<lparr>bk_bids := insert_bid s r False (bk_bids book)\<rparr>
         | Sell \<Rightarrow> book\<lparr>bk_asks := insert_ask s r False (bk_asks book)\<rparr>) s)"

definition remove_order_id :: "address \<Rightarrow> address \<Rightarrow> order_side \<Rightarrow> nat \<Rightarrow> trade_storage \<Rightarrow> trade_storage" where
  "remove_order_id base quote side order_id s =
     (let book = load_book s base quote
      in save_book (case side of
           Buy \<Rightarrow> book\<lparr>bk_bids := filter (\<lambda>i. i \<noteq> order_id) (bk_bids book)\<rparr>
         | Sell \<Rightarrow> book\<lparr>bk_asks := filter (\<lambda>i. i \<noteq> order_id) (bk_asks book)\<rparr>) s)"

definition user_order_ids :: "trade_storage \<Rightarrow> address \<Rightarrow> nat list" where
  "user_order_ids s user = (case te_user_orders s user of None \<Rightarrow> [] | Some xs \<Rightarrow> xs)"

definition add_user_order :: "address \<Rightarrow> nat \<Rightarrow> trade_storage \<Rightarrow> trade_storage" where
  "add_user_order user order_id s =
     s\<lparr>te_user_orders := (te_user_orders s)(user \<mapsto> user_order_ids s user @ [order_id])\<rparr>"

definition od_active :: "order \<Rightarrow> bool" where
  "od_active r \<longleftrightarrow> od_status r = Pending \<or> od_status r = PartiallyFilled"

definition od_expired :: "env \<Rightarrow> order \<Rightarrow> bool" where
  "od_expired e r \<longleftrightarrow> 0 < od_expires_at r \<and> od_expires_at r \<le> now e"

text \<open>
  The host map of \<open>get_summary\<close>, from price to aggregated amount and count. Its \<open>keys\<close> are in
  ascending order, so it is an association list kept sorted by price.
\<close>

fun level_set :: "nat \<Rightarrow> int \<times> nat \<Rightarrow> (nat \<times> int \<times> nat) list \<Rightarrow> (nat \<times> int \<times> nat) list" where
  "level_set p v [] = [(p, v)]"
| "level_set p v ((q, u) # m) =
     (if p < q then (p, v) # (q, u) # m
      else if p = q then (p, v) # m
      else (q, u) # level_set p v m)"

definition level_get :: "(nat \<times> int \<times> nat) list \<Rightarrow> nat \<Rightarrow> int \<times> nat" where
  "level_get m p = (case map_of m p of None \<Rightarrow> (0, 0) | Some v \<Rightarrow> v)"

fun aggregate :: "env \<Rightarrow> trade_storage \<Rightarrow> nat list \<Rightarrow> (nat \<times> int \<times> nat) list \<Rightarrow> (nat \<times> int \<times> nat) list" where
  "aggregate e s [] m = m"
| "aggregate e s (i # is) m =
     aggregate e s is
       (case get_order s i of
          None \<Rightarrow> m
        | Some r \<Rightarrow>
            if od_active r \<and> (od_expires_at r = 0 \<or> now e < od_expires_at r) then
              (let remaining = i_sat_sub (od_amount r) (od_filled r)
               in if 0 < remaining then
                    (let (amount, count) = level_get m (od_price r)
                     in level_set (od_price r) (i_sat_add amount remaining, count + 1) m)
                  else m)
            else m)"

definition levels_of :: "nat \<Rightarrow> (nat \<times> int \<times> nat) list \<Rightarrow> book_level list" where
  "levels_of max_levels m = map (\<lambda>(p, amount, count).
     \<lparr>lv_price = p, lv_total_amount = amount, lv_order_count = count\<rparr>) (take max_levels m)"

definition get_summary :: "env \<Rightarrow> trade_storage \<Rightarrow> address \<Rightarrow> address \<Rightarrow> nat \<Rightarrow> book_summary" where
  "get_summary e s base quote max_levels =
     (let book = load_book s base quote
      in \<lparr>sm_base = base, sm_quote = quote,
          sm_bids = levels_of max_levels (aggregate e s (bk_bids book) []),
          sm_asks = levels_of max_levels (aggregate e s (bk_asks book) []),
          sm_timestamp = now e\<rparr>)"

section \<open>The pool manager (liquidity\_pool.rs)\<close>

definition save_pool :: "liquidity_pool \<Rightarrow> trade_storage \<Rightarrow> trade_storage" where
  "save_pool pool s = s\<lparr>te_pools := (te_pools s)(lp_id pool \<mapsto> pool),
     te_pair_pool := (te_pair_pool s)((lp_asset_a pool, lp_asset_b pool) \<mapsto> lp_id pool)\<rparr>"

definition get_pool :: "trade_storage \<Rightarrow> nat \<Rightarrow> liquidity_pool option" where
  "get_pool s pool_id = te_pools s pool_id"

definition get_pool_by_pair :: "trade_storage \<Rightarrow> address \<Rightarrow> address \<Rightarrow> liquidity_pool option" where
  "get_pool_by_pair s a b =
     (case te_pair_pool s (a, b) of
        Some pool_id \<Rightarrow> get_pool s pool_id
      | None \<Rightarrow> (case te_pair_pool s (b, a) of
            Some pool_id \<Rightarrow> get_pool s pool_id
          | None \<Rightarrow> None))"

definition get_amount_out :: "int \<Rightarrow> int \<Rightarrow> int \<Rightarrow> nat \<Rightarrow> (int, trade_error) res" where
  "get_amount_out amount_in reserve_in reserve_out fee_bps =
     bindR (ensure (\<not> (amount_in \<le> 0 \<or> reserve_in \<le> 0 \<or> reserve_out \<le> 0)) (Err InsufficientLiquidity)) (\<lambda>_.
     let fee_multiplier = i_sat_sub 10000 (int fee_bps);
         amount_in_with_fee = i_sat_mul amount_in fee_multiplier;
         numerator = i_sat_mul amount_in_with_fee reserve_out;
         denominator = i_sat_add (i_sat_mul reserve_in 10000) amount_in_with_fee in
     bindR (ensure (denominator \<noteq> 0) (Err InsufficientLiquidity)) (\<lambda>_.
     bindR (i_div numerator denominator) (\<lambda>amount_out.
     bindR (ensure (\<not> (amount_out \<le> 0 \<or> reserve_out < amount_out)) (Err InsufficientLiquidity)) (\<lambda>_.
     Inr amount_out))))"

section \<open>The matching engine (matching.rs)\<close>

record 'w trade_sys =
  test :: trade_storage
  tew :: 'w

definition quote_amount :: "int \<Rightarrow> nat \<Rightarrow> int" where
  "quote_amount base price = as_i128 (u_sat_mul 128 (as_u128 base) price div PRICE_PRECISION)"

definition effective_price :: "int \<Rightarrow> int \<Rightarrow> (nat, trade_error) res" where
  "effective_price fill_quote fill_base =
     bindR (ensure (as_u128 fill_base \<noteq> 0) Trap) (\<lambda>_.
     Inr (u_sat_mul 128 (as_u128 fill_quote) PRICE_PRECISION div as_u128 fill_base))"

text \<open>The local variables of \<open>match_leg\<close> that its loops change.\<close>

record 'w match_state =
  ms_sys :: "'w trade_sys"
  ms_remaining :: int
  ms_total_base :: int
  ms_total_quote :: int
  ms_updated :: "nat list"
  ms_fills :: "fill_result list"

definition match_start :: "'w trade_sys \<Rightarrow> trade_leg \<Rightarrow> 'w match_state" where
  "match_start st leg = \<lparr>ms_sys = st, ms_remaining = lg_amount leg, ms_total_base = 0,
     ms_total_quote = 0, ms_updated = [], ms_fills = []\<rparr>"

text \<open>
  The two settlement transfers of a fill: in a buy leg the trader pays the maker in quote and the
  contract releases base; in a sell leg the trader pays base and the contract releases quote. The
  assets are those of the leg.
\<close>

definition settle_fill :: "'w token_api \<Rightarrow> env \<Rightarrow> address \<Rightarrow> trade_leg \<Rightarrow> order \<Rightarrow> int \<Rightarrow> int \<Rightarrow> 'w
    \<Rightarrow> ('w, trade_error) res" where
  "settle_fill T e trader leg r fill_base fill_quote w =
     (case lg_side leg of
        Buy \<Rightarrow> bindR (te_transfer T e w (lg_quote leg) trader (od_owner r) fill_quote) (\<lambda>w1.
               te_transfer T e w1 (lg_base leg) (self_addr e) trader fill_base)
      | Sell \<Rightarrow> bindR (te_transfer T e w (lg_base leg) trader (od_owner r) fill_base) (\<lambda>w1.
               te_transfer T e w1 (lg_quote leg) (self_addr e) trader fill_quote))"

definition record_fill :: "fill_result \<Rightarrow> 'w match_state \<Rightarrow> ('w match_state, trade_error) res" where
  "record_fill f m =
     bindR (i_sub (ms_remaining m) (fl_base f)) (\<lambda>remaining.
     bindR (i_add (ms_total_base m) (fl_base f)) (\<lambda>tb.
     bindR (i_add (ms_total_quote m) (fl_quote f)) (\<lambda>tq.
     Inr (m\<lparr>ms_sys := (ms_sys m)\<lparr>test := emit_fill f (test (ms_sys m))\<rparr>, ms_remaining := remaining,
            ms_total_base := tb, ms_total_quote := tq, ms_fills := ms_fills m @ [f]\<rparr>))))"

text \<open>Filling one queued order, as far as the leg still needs it.\<close>

definition fill_order :: "'w token_api \<Rightarrow> env \<Rightarrow> address \<Rightarrow> trade_leg \<Rightarrow> order \<Rightarrow> 'w match_state
    \<Rightarrow> ('w match_state, trade_error) res" where
  "fill_order T e trader leg r m =
     (let order_remaining_base = i_sat_sub (od_amount r) (od_filled r);
          fill_base = min (ms_remaining m) order_remaining_base;
          fill_quote = quote_amount fill_base (od_price r);
          r1 = r\<lparr>od_filled := i_sat_add (od_filled r) fill_base\<rparr>;
          full = (od_amount r1 \<le> od_filled r1);
          r2 = r1\<lparr>od_status := if full then Filled else PartiallyFilled\<rparr>;
          updated = (if full then ms_updated m else ms_updated m @ [od_id r]);
          s1 = save_order r2 (test (ms_sys m)) in
      bindR (settle_fill T e trader leg r2 fill_base fill_quote (tew (ms_sys m))) (\<lambda>w1.
      record_fill \<lparr>fl_order_id = od_id r, fl_maker = od_owner r2, fl_taker = trader,
          fl_base_asset = lg_base leg, fl_quote_asset = lg_quote leg, fl_price = od_price r2,
          fl_base = fill_base, fl_quote = fill_quote, fl_via_pool = False, fl_pool_id = 0\<rparr>
        (m\<lparr>ms_sys := \<lparr>test = s1, tew = w1\<rparr>, ms_updated := updated\<rparr>)))"

definition beyond_limit :: "trade_leg \<Rightarrow> order \<Rightarrow> bool" where
  "beyond_limit leg r \<longleftrightarrow> 0 < lg_limit_price leg \<and>
     (case lg_side leg of Buy \<Rightarrow> lg_limit_price leg < od_price r | Sell \<Rightarrow> od_price r < lg_limit_price leg)"

text \<open>The matching loop over the queued ids; the buy arm and the sell arm of the code share it.\<close>

fun match_orders :: "'w token_api \<Rightarrow> env \<Rightarrow> address \<Rightarrow> trade_leg \<Rightarrow> nat list \<Rightarrow> 'w match_state
    \<Rightarrow> ('w match_state, trade_error) res" where
  "match_orders T e trader leg [] m = Inr m"
| "match_orders T e trader leg (i # is) m =
     (if ms_remaining m \<le> 0 then Inr (m\<lparr>ms_updated := ms_updated m @ i # is\<rparr>)
      else case get_order (test (ms_sys m)) i of
        None \<Rightarrow> match_orders T e trader leg is m
      | Some r \<Rightarrow>
          if \<not> od_active r \<or> od_expired e r then match_orders T e trader leg is m
          else if beyond_limit leg r then match_orders T e trader leg is (m\<lparr>ms_updated := ms_updated m @ [i]\<rparr>)
          else bindR (fill_order T e trader leg r m) (match_orders T e trader leg is))"

text \<open>The reserves of the pool after a fill, on the side the code's \<open>is_a_to_b\<close> selects.\<close>

definition pool_shift :: "bool \<Rightarrow> int \<Rightarrow> int \<Rightarrow> liquidity_pool \<Rightarrow> (liquidity_pool, trade_error) res" where
  "pool_shift is_a_to_b amount_in amount_out pool =
     (if is_a_to_b
      then bindR (i_add (lp_reserve_a pool) amount_in) (\<lambda>ra.
           bindR (i_sub (lp_reserve_b pool) amount_out) (\<lambda>rb.
           Inr (pool\<lparr>lp_reserve_a := ra, lp_reserve_b := rb\<rparr>)))
      else bindR (i_add (lp_reserve_b pool) amount_in) (\<lambda>rb.
           bindR (i_sub (lp_reserve_a pool) amount_out) (\<lambda>ra.
           Inr (pool\<lparr>lp_reserve_a := ra, lp_reserve_b := rb\<rparr>))))"

definition pool_fill_result :: "env \<Rightarrow> address \<Rightarrow> trade_leg \<Rightarrow> nat \<Rightarrow> int \<Rightarrow> int \<Rightarrow> nat \<Rightarrow> fill_result" where
  "pool_fill_result e trader leg price fill_base fill_quote pool_id =
     \<lparr>fl_order_id = 0, fl_maker = self_addr e, fl_taker = trader, fl_base_asset = lg_base leg,
      fl_quote_asset = lg_quote leg, fl_price = price, fl_base = fill_base, fl_quote = fill_quote,
      fl_via_pool = True, fl_pool_id = pool_id\<rparr>"

definition record_pool_fill :: "fill_result \<Rightarrow> 'w match_state \<Rightarrow> ('w match_state, trade_error) res" where
  "record_pool_fill f m =
     bindR (i_add (ms_total_base m) (fl_base f)) (\<lambda>tb.
     bindR (i_add (ms_total_quote m) (fl_quote f)) (\<lambda>tq.
     Inr (m\<lparr>ms_sys := (ms_sys m)\<lparr>test := emit_fill f (test (ms_sys m))\<rparr>, ms_remaining := 0,
            ms_total_base := tb, ms_total_quote := tq, ms_fills := ms_fills m @ [f]\<rparr>)))"

text \<open>The price a buyer pays the pool for \<open>remaining\<close> of its output reserve, if it quotes one.\<close>

definition pool_buy_quote :: "int \<Rightarrow> int \<Rightarrow> int \<Rightarrow> nat \<Rightarrow> (int option, trade_error) res" where
  "pool_buy_quote remaining reserve_in reserve_out fee_bps =
     (if 0 < reserve_in \<and> remaining \<le> reserve_out then
        (let fee_multiplier = i_sat_sub 10000 (int fee_bps);
             num = i_sat_mul (i_sat_mul reserve_in remaining) 10000;
             den = i_sat_mul (i_sat_sub reserve_out remaining) fee_multiplier
         in if 0 < den then bindR (i_div num den) (\<lambda>q. bindR (i_add q 1) (\<lambda>quote_in. Inr (Some quote_in)))
            else Inr None)
      else Inr None)"

definition pool_buy :: "'w token_api \<Rightarrow> env \<Rightarrow> address \<Rightarrow> trade_leg \<Rightarrow> 'w match_state
    \<Rightarrow> ('w match_state, trade_error) res" where
  "pool_buy T e trader leg m =
     (case get_pool_by_pair (test (ms_sys m)) (lg_base leg) (lg_quote leg) of
        None \<Rightarrow> Inr m
      | Some pool \<Rightarrow>
          let is_a_to_b = (lp_asset_a pool = lg_quote leg);
              reserve_in = (if is_a_to_b then lp_reserve_a pool else lp_reserve_b pool);
              reserve_out = (if is_a_to_b then lp_reserve_b pool else lp_reserve_a pool);
              fill_base = ms_remaining m in
          bindR (pool_buy_quote fill_base reserve_in reserve_out (lp_fee_bps pool)) (\<lambda>quote_in.
          case quote_in of
            None \<Rightarrow> Inr m
          | Some fill_quote \<Rightarrow>
              bindR (te_transfer T e (tew (ms_sys m)) (lg_quote leg) trader (self_addr e) fill_quote) (\<lambda>w1.
              bindR (te_transfer T e w1 (lg_base leg) (self_addr e) trader fill_base) (\<lambda>w2.
              bindR (pool_shift is_a_to_b fill_quote fill_base pool) (\<lambda>pool1.
              let m1 = m\<lparr>ms_sys := \<lparr>test = save_pool pool1 (test (ms_sys m)), tew = w2\<rparr>\<rparr> in
              bindR (effective_price fill_quote fill_base) (\<lambda>price.
              if lg_limit_price leg = 0 \<or> price \<le> lg_limit_price leg
              then record_pool_fill (pool_fill_result e trader leg price fill_base fill_quote (lp_id pool1)) m1
              else Inr m1))))))"

definition pool_sell :: "'w token_api \<Rightarrow> env \<Rightarrow> address \<Rightarrow> trade_leg \<Rightarrow> 'w match_state
    \<Rightarrow> ('w match_state, trade_error) res" where
  "pool_sell T e trader leg m =
     (case get_pool_by_pair (test (ms_sys m)) (lg_base leg) (lg_quote leg) of
        None \<Rightarrow> Inr m
      | Some pool \<Rightarrow>
          let is_a_to_b = (lp_asset_a pool = lg_base leg);
              reserve_in = (if is_a_to_b then lp_reserve_a pool else lp_reserve_b pool);
              reserve_out = (if is_a_to_b then lp_reserve_b pool else lp_reserve_a pool);
              fill_base = ms_remaining m
          in if 0 < reserve_in \<and> 0 < reserve_out then
               bindR (get_amount_out fill_base reserve_in reserve_out (lp_fee_bps pool)) (\<lambda>fill_quote.
               bindR (te_transfer T e (tew (ms_sys m)) (lg_base leg) trader (self_addr e) fill_base) (\<lambda>w1.
               bindR (te_transfer T e w1 (lg_quote leg) (self_addr e) trader fill_quote) (\<lambda>w2.
               bindR (pool_shift is_a_to_b fill_base fill_quote pool) (\<lambda>pool1.
               let m1 = m\<lparr>ms_sys := \<lparr>test = save_pool pool1 (test (ms_sys m)), tew = w2\<rparr>\<rparr> in
               bindR (effective_price fill_quote fill_base) (\<lambda>price.
               if lg_limit_price leg = 0 \<or> lg_limit_price leg \<le> price
               then record_pool_fill (pool_fill_result e trader leg price fill_base fill_quote (lp_id pool1)) m1
               else Inr m1)))))
             else Inr m)"

definition with_book :: "pair_book \<Rightarrow> 'w match_state \<Rightarrow> 'w match_state" where
  "with_book book m = m\<lparr>ms_sys := (ms_sys m)\<lparr>test := save_book book (test (ms_sys m))\<rparr>\<rparr>"

definition match_leg_buy :: "'w token_api \<Rightarrow> env \<Rightarrow> address \<Rightarrow> trade_leg \<Rightarrow> 'w trade_sys
    \<Rightarrow> ('w match_state, trade_error) res" where
  "match_leg_buy T e trader leg st =
     (let book = load_book (test st) (lg_base leg) (lg_quote leg) in
      bindR (match_orders T e trader leg (bk_asks book) (match_start st leg)) (\<lambda>m.
      let m1 = with_book (book\<lparr>bk_asks := ms_updated m\<rparr>) m in
      bindR (if 0 < ms_remaining m1 then pool_buy T e trader leg m1 else Inr m1) (\<lambda>m2.
      bindR (ensure (\<not> 0 < ms_remaining m2) (Err InsufficientLiquidity)) (\<lambda>_.
      bindR (ensure (\<not> (0 < lg_min_output leg \<and> ms_total_base m2 < lg_min_output leg))
               (Err SlippageExceeded)) (\<lambda>_. Inr m2)))))"

definition match_leg_sell :: "'w token_api \<Rightarrow> env \<Rightarrow> address \<Rightarrow> trade_leg \<Rightarrow> 'w trade_sys
    \<Rightarrow> ('w match_state, trade_error) res" where
  "match_leg_sell T e trader leg st =
     (let book = load_book (test st) (lg_base leg) (lg_quote leg) in
      bindR (match_orders T e trader leg (bk_bids book) (match_start st leg)) (\<lambda>m.
      let m1 = with_book (book\<lparr>bk_bids := ms_updated m\<rparr>) m in
      bindR (if 0 < ms_remaining m1 then pool_sell T e trader leg m1 else Inr m1) (\<lambda>m2.
      bindR (ensure (\<not> 0 < ms_remaining m2) (Err InsufficientLiquidity)) (\<lambda>_.
      bindR (ensure (\<not> (0 < lg_min_output leg \<and> ms_total_quote m2 < lg_min_output leg))
               (Err SlippageExceeded)) (\<lambda>_. Inr m2)))))"

definition match_leg :: "'w token_api \<Rightarrow> env \<Rightarrow> address \<Rightarrow> trade_leg \<Rightarrow> 'w trade_sys
    \<Rightarrow> (fill_result list \<times> 'w trade_sys, trade_error) res" where
  "match_leg T e trader leg st =
     bindR (ensure (\<not> lg_amount leg \<le> 0) (Err InvalidAmount)) (\<lambda>_.
     bindR (ensure (lg_base leg \<noteq> lg_quote leg) (Err SameAsset)) (\<lambda>_.
     bindR (case lg_side leg of
              Buy \<Rightarrow> match_leg_buy T e trader leg st
            | Sell \<Rightarrow> match_leg_sell T e trader leg st) (\<lambda>m.
     Inr (ms_fills m, ms_sys m))))"

text \<open>
  The loop over the legs; the count of executed legs is a \<open>u32\<close> bounded by the length of a host
  vector, so it cannot overflow.
\<close>

fun run_legs :: "'w token_api \<Rightarrow> env \<Rightarrow> address \<Rightarrow> trade_leg list \<Rightarrow> nat \<Rightarrow> fill_result list \<Rightarrow> 'w trade_sys
    \<Rightarrow> (nat \<times> fill_result list \<times> 'w trade_sys, trade_error) res" where
  "run_legs T e trader [] n fills st = Inr (n, fills, st)"
| "run_legs T e trader (leg # legs) n fills st =
     bindR (match_leg T e trader leg st) (\<lambda>(fs, st1). run_legs T e trader legs (n + 1) (fills @ fs) st1)"

definition engine_multi_pair_trade :: "'w token_api \<Rightarrow> env \<Rightarrow> address \<Rightarrow> trade_leg list \<Rightarrow> 'w trade_sys
    \<Rightarrow> (exec_result \<times> 'w trade_sys, trade_error) res" where
  "engine_multi_pair_trade T e trader legs st =
     bindR (ensure (legs \<noteq> []) (Err InvalidLegs)) (\<lambda>_.
     bindR (run_legs T e trader legs 0 [] st) (\<lambda>(n, fills, st1).
     Inr (\<lparr>xr_success = True, xr_legs_executed = n, xr_fills = fills\<rparr>,
          st1\<lparr>test := emit_trade_executed trader n (length fills) (test st1)\<rparr>)))"

section \<open>Entry points (lib.rs)\<close>

definition te_initialize :: "env \<Rightarrow> 'w trade_sys \<Rightarrow> address \<Rightarrow> ('w trade_sys, trade_error) res" where
  "te_initialize e st admin =
     bindR (require_auth e admin) (\<lambda>_.
     bindR (ensure (te_admin (test st) = None) (Err AlreadyExists)) (\<lambda>_.
     Inr (st\<lparr>test := (test st)\<lparr>te_admin := Some admin\<rparr>\<rparr>)))"

definition place_order :: "'w token_api \<Rightarrow> env \<Rightarrow> 'w trade_sys \<Rightarrow> address \<Rightarrow> address \<Rightarrow> address
    \<Rightarrow> order_side \<Rightarrow> order_type \<Rightarrow> nat \<Rightarrow> int \<Rightarrow> nat \<Rightarrow> (nat \<times> 'w trade_sys, trade_error) res" where
  "place_order T e st owner base quote side typ price amount expires_at =
     bindR (require_auth e owner) (\<lambda>_.
     bindR (ensure (\<not> amount \<le> 0) (Err InvalidAmount)) (\<lambda>_.
     bindR (ensure (\<not> (price = 0 \<and> typ = Limit)) (Err InvalidPrice)) (\<lambda>_.
     bindR (ensure (base \<noteq> quote) (Err SameAsset)) (\<lambda>_.
     bindR (case side of
              Sell \<Rightarrow> te_transfer T e (tew st) base owner (self_addr e) amount
            | Buy \<Rightarrow> te_transfer T e (tew st) quote owner (self_addr e) (quote_amount amount price)) (\<lambda>w1.
     bindR (get_next_order_id (test st)) (\<lambda>(order_id, s1).
     let r = \<lparr>od_id = order_id, od_owner = owner, od_base = base, od_quote = quote, od_side = side,
           od_type = typ, od_price = price, od_amount = amount, od_filled = 0, od_status = Pending,
           od_created_at = now e, od_expires_at = expires_at\<rparr>
     in Inr (order_id, \<lparr>test = emit_order_placed r (add_order r
          (add_user_order owner order_id (save_order r s1))), tew = w1\<rparr>)))))))"

definition cancel_order :: "'w token_api \<Rightarrow> env \<Rightarrow> 'w trade_sys \<Rightarrow> address \<Rightarrow> nat
    \<Rightarrow> ('w trade_sys, trade_error) res" where
  "cancel_order T e st owner order_id =
     bindR (require_auth e owner) (\<lambda>_.
     bindR (ok_or (get_order (test st) order_id) (Err OrderNotFound)) (\<lambda>r.
     bindR (ensure (od_owner r = owner) (Err Unauthorized)) (\<lambda>_.
     bindR (ensure (od_active r) (Err InvalidState)) (\<lambda>_.
     let unfilled_base = i_sat_sub (od_amount r) (od_filled r);
         r1 = r\<lparr>od_status := Cancelled\<rparr>;
         s1 = remove_order_id (od_base r1) (od_quote r1) (od_side r1) order_id (save_order r1 (test st)) in
     bindR (if 0 < unfilled_base then
              (case od_side r1 of
                 Sell \<Rightarrow> te_transfer T e (tew st) (od_base r1) (self_addr e) owner unfilled_base
               | Buy \<Rightarrow> te_transfer T e (tew st) (od_quote r1) (self_addr e) owner
                          (quote_amount unfilled_base (od_price r1)))
            else Inr (tew st)) (\<lambda>w1.
     Inr \<lparr>test = emit_order_cancelled order_id owner s1, tew = w1\<rparr>)))))"

definition execute_multi_pair_trade :: "'w token_api \<Rightarrow> env \<Rightarrow> 'w trade_sys \<Rightarrow> address \<Rightarrow> trade_leg list
    \<Rightarrow> (exec_result \<times> 'w trade_sys, trade_error) res" where
  "execute_multi_pair_trade T e st trader legs =
     bindR (require_auth e trader) (\<lambda>_. engine_multi_pair_trade T e trader legs st)"

definition add_liquidity_pool :: "'w token_api \<Rightarrow> env \<Rightarrow> 'w trade_sys \<Rightarrow> address \<Rightarrow> address \<Rightarrow> address
    \<Rightarrow> int \<Rightarrow> int \<Rightarrow> nat \<Rightarrow> (nat \<times> 'w trade_sys, trade_error) res" where
  "add_liquidity_pool T e st admin asset_a asset_b reserve_a reserve_b fee_bps =
     bindR (require_auth e admin) (\<lambda>_.
     bindR (ensure (\<not> (reserve_a \<le> 0 \<or> reserve_b \<le> 0)) (Err InvalidAmount)) (\<lambda>_.
     bindR (ensure (asset_a \<noteq> asset_b) (Err SameAsset)) (\<lambda>_.
     bindR (ok_or (te_admin (test st)) (Err Unauthorized)) (\<lambda>stored_admin.
     bindR (ensure (admin = stored_admin) (Err Unauthorized)) (\<lambda>_.
     bindR (te_transfer T e (tew st) asset_a admin (self_addr e) reserve_a) (\<lambda>w1.
     bindR (te_transfer T e w1 asset_b admin (self_addr e) reserve_b) (\<lambda>w2.
     bindR (get_next_pool_id (test st)) (\<lambda>(pool_id, s1).
     let pool = \<lparr>lp_id = pool_id, lp_asset_a = asset_a, lp_asset_b = asset_b,
           lp_reserve_a = reserve_a, lp_reserve_b = reserve_b, lp_fee_bps = fee_bps\<rparr>
     in Inr (pool_id, \<lparr>test = emit_pool_added pool_id asset_a asset_b (save_pool pool s1),
          tew = w2\<rparr>)))))))))"

definition get_orderbook :: "env \<Rightarrow> 'w trade_sys \<Rightarrow> address \<Rightarrow> address \<Rightarrow> nat \<Rightarrow> book_summary" where
  "get_orderbook e st base quote max_levels = get_summary e (test st) base quote max_levels"

fun orders_of :: "trade_storage \<Rightarrow> nat list \<Rightarrow> order list" where
  "orders_of s [] = []"
| "orders_of s (i # is) = (case get_order s i of Some r \<Rightarrow> r # orders_of s is | None \<Rightarrow> orders_of s is)"

definition get_user_orders :: "'w trade_sys \<Rightarrow> address \<Rightarrow> order list" where
  "get_user_orders st user = orders_of (test st) (user_order_ids (test st) user)"

end
