(* ===== verification/Trade_Engine_Book.thy ===== *)
theory Trade_Engine_Book
  imports Trade_Engine "HOL-Library.Sublist"
begin

text \<open>
  Price-time priority. The two insertion loops of the order book are one algorithm over a strict
  order of prices: the interface \<open>price_priority\<close> states its two equations and the order laws, the
  client lemmas give the position of the inserted order and the sortedness of the queue, and
  the bid and ask loops are its two instances. Then the aggregated summary of a queue.
\<close>

section \<open>The interface of a price-priority queue\<close>

definition prio :: "trade_storage \<Rightarrow> nat \<Rightarrow> nat" where
  "prio s i = od_price (the (te_orders s i))"

definition stored :: "trade_storage \<Rightarrow> nat list \<Rightarrow> bool" where
  "stored s xs \<longleftrightarrow> set xs \<subseteq> dom (te_orders s)"

lemma stored_Cons [simp]: "stored s (i # is) \<longleftrightarrow> i \<in> dom (te_orders s) \<and> stored s is"
  by (auto simp: stored_def)

lemma stored_Nil [simp]: "stored s []"
  by (simp add: stored_def)

locale price_priority =
  fixes better :: "nat \<Rightarrow> nat \<Rightarrow> bool"
    and ins :: "trade_storage \<Rightarrow> order \<Rightarrow> bool \<Rightarrow> nat list \<Rightarrow> nat list"
  assumes better_irrefl: "\<not> better p p"
    and better_trans: "better p q \<Longrightarrow> better q u \<Longrightarrow> better p u"
    and better_total: "p = q \<or> better p q \<or> better q p"
    and ins_Nil: "ins s r b [] = (if b then [] else [od_id r])"
    and ins_Cons: "te_orders s i = Some existing \<Longrightarrow> ins s r b (i # is) =
      (if \<not> b \<and> better (od_price r) (od_price existing) then od_id r # i # ins s r True is
       else i # ins s r b is)"
begin

text \<open>Who is served first: the better price, and at equal prices the earlier id.\<close>

definition ahead :: "trade_storage \<Rightarrow> nat \<Rightarrow> nat \<Rightarrow> bool" where
  "ahead s i j \<longleftrightarrow> better (prio s i) (prio s j) \<or> prio s i = prio s j \<and> i < j"

definition queue_ok :: "trade_storage \<Rightarrow> nat list \<Rightarrow> bool" where
  "queue_ok s xs \<longleftrightarrow> sorted_wrt (ahead s) xs"

lemma ins_done: "stored s xs \<Longrightarrow> ins s r True xs = xs"
  by (induction xs) (auto simp: ins_Nil ins_Cons)

lemma ins_position:
  "stored s xs \<Longrightarrow> ins s r False xs =
    takeWhile (\<lambda>i. \<not> better (od_price r) (prio s i)) xs @ od_id r #
    dropWhile (\<lambda>i. \<not> better (od_price r) (prio s i)) xs"
  by (induction xs) (auto simp: ins_Nil ins_Cons ins_done prio_def)

lemma set_ins: "stored s xs \<Longrightarrow> set (ins s r False xs) = insert (od_id r) (set xs)"
proof -
  assume "stored s xs"
  let ?P = "\<lambda>i. \<not> better (od_price r) (prio s i)"
  have "set xs = set (takeWhile ?P xs) \<union> set (dropWhile ?P xs)"
    by (metis set_append takeWhile_dropWhile_id)
  with ins_position [OF \<open>stored s xs\<close>, of r] show ?thesis by auto
qed

lemma ahead_better: "better p (prio s i) \<Longrightarrow> ahead s i j \<Longrightarrow> better p (prio s j)"
  unfolding ahead_def using better_trans by metis

lemma queue_ok_drop:
  assumes "queue_ok s xs" and "j \<in> set (dropWhile (\<lambda>i. \<not> better p (prio s i)) xs)"
  shows "better p (prio s j)"
  using assms unfolding queue_ok_def
  by (induction xs) (auto split: if_splits dest: ahead_better)

lemma queue_ok_ins:
  assumes "stored s xs" and "queue_ok s xs" and "te_orders s (od_id r) = Some r"
    and new: "\<And>i. i \<in> set xs \<Longrightarrow> i < od_id r"
  shows "queue_ok s (ins s r False xs)"
proof -
  let ?P = "\<lambda>i. \<not> better (od_price r) (prio s i)"
  let ?t = "takeWhile ?P xs" and ?d = "dropWhile ?P xs"
  have p: "prio s (od_id r) = od_price r" by (simp add: prio_def assms(3))
  have "sorted_wrt (ahead s) (?t @ ?d)" using assms(2) by (simp add: queue_ok_def)
  then have td: "sorted_wrt (ahead s) ?t" "sorted_wrt (ahead s) ?d"
      "\<And>i j. i \<in> set ?t \<Longrightarrow> j \<in> set ?d \<Longrightarrow> ahead s i j"
    by (auto simp: sorted_wrt_append simp del: takeWhile_dropWhile_id)
  have before: "ahead s i (od_id r)" if "i \<in> set ?t" for i
    using that new [of i] set_takeWhileD [OF that] better_total [of "prio s i" "od_price r"]
    by (auto simp: ahead_def p)
  have after: "ahead s (od_id r) j" if "j \<in> set ?d" for j
    using queue_ok_drop [OF assms(2) that] by (simp add: ahead_def p)
  show ?thesis
    unfolding queue_ok_def ins_position [OF assms(1)]
    using td before after by (auto simp: sorted_wrt_append)
qed

lemma queue_ok_subseq: "subseq ys xs \<Longrightarrow> queue_ok s xs \<Longrightarrow> queue_ok s ys"
  by (induction rule: list_emb.induct)
    (auto simp: queue_ok_def dest: list_emb_set intro: list_emb_set)

lemma queue_ok_filter: "queue_ok s xs \<Longrightarrow> queue_ok s (filter P xs)"
  by (rule queue_ok_subseq) simp_all

lemma queue_ok_cong:
  "(\<And>i. i \<in> set xs \<Longrightarrow> prio s' i = prio s i) \<Longrightarrow> queue_ok s' xs = queue_ok s xs"
  unfolding queue_ok_def ahead_def by (induction xs) auto

lemma queue_ok_distinct: "queue_ok s xs \<Longrightarrow> distinct xs"
  unfolding queue_ok_def ahead_def
  by (induction xs) (auto simp: better_irrefl)

text \<open>No queued order has a strictly better price than the one at the head.\<close>

lemma queue_ok_head: "queue_ok s (i # is) \<Longrightarrow> j \<in> set is \<Longrightarrow> \<not> better (prio s j) (prio s i)"
  unfolding queue_ok_def ahead_def using better_irrefl better_trans [of "prio s j" "prio s i" "prio s j"]
  by auto

end

interpretation bid: price_priority "\<lambda>p q. q < p" insert_bid
  by unfold_locales (auto simp: get_order_def)

interpretation ask: price_priority "\<lambda>p q. p < q" insert_ask
  by unfold_locales (auto simp: get_order_def)

section \<open>Canonical pairs\<close>

lemma get_pair_key_sym: "get_pair_key a b = get_pair_key b a"
  by (auto simp: get_pair_key_def)

lemma load_book_sym_key:
  "te_books s (get_pair_key a b) = Some k \<Longrightarrow> load_book s a b = k \<and> load_book s b a = k"
  by (simp add: load_book_def get_pair_key_sym [of b a])

section \<open>The summary of a queue\<close>

text \<open>The live amount a queued order adds to the summary, if any.\<close>

definition summary_live :: "env \<Rightarrow> trade_storage \<Rightarrow> nat \<Rightarrow> bool" where
  "summary_live e s i \<longleftrightarrow> (case te_orders s i of None \<Rightarrow> False
     | Some r \<Rightarrow> od_active r \<and> (od_expires_at r = 0 \<or> now e < od_expires_at r)
         \<and> 0 < i_sat_sub (od_amount r) (od_filled r))"

lemma level_set_keys: "set (map fst (level_set p v m)) = insert p (set (map fst m))"
  by (induction p v m rule: level_set.induct) auto

lemma level_set_sorted:
  "sorted_wrt (<) (map fst m) \<Longrightarrow> sorted_wrt (<) (map fst (level_set p v m))"
proof (induction p v m rule: level_set.induct)
  case (2 p v q u m)
  then show ?case
    using level_set_keys [of p v m] by auto
qed simp

lemma aggregate_sorted:
  "sorted_wrt (<) (map fst m) \<Longrightarrow> sorted_wrt (<) (map fst (aggregate e s is m))"
  by (induction "is" arbitrary: m)
    (auto simp: Let_def level_set_sorted split: option.splits prod.splits)

lemma aggregate_keys:
  "set (map fst (aggregate e s is m)) =
    set (map fst m) \<union> prio s ` {i \<in> set is. summary_live e s i}"
proof (induction "is" arbitrary: m)
  case Nil
  then show ?case by simp
next
  case (Cons i "is")
  let ?m = "case get_order s i of None \<Rightarrow> m
    | Some r \<Rightarrow>
        if od_active r \<and> (od_expires_at r = 0 \<or> now e < od_expires_at r) then
          (let remaining = i_sat_sub (od_amount r) (od_filled r)
           in if 0 < remaining then
                (let (amount, count) = level_get m (od_price r)
                 in level_set (od_price r) (i_sat_add amount remaining, count + 1) m)
              else m)
        else m"
  have keys: "set (map fst ?m) = (if summary_live e s i then insert (prio s i) (set (map fst m)) else set (map fst m))"
    using level_set_keys [simplified]
    by (auto simp: summary_live_def get_order_def Let_def prio_def case_prod_beta split: option.split)
  have "set (map fst (aggregate e s (i # is) m)) =
      set (map fst ?m) \<union> prio s ` {i \<in> set is. summary_live e s i}"
    unfolding aggregate.simps by (rule Cons.IH)
  with keys show ?case by auto
qed

lemma levels_of_prices: "map lv_price (levels_of n m) = take n (map fst m)"
  by (simp add: levels_of_def take_map [symmetric] comp_def case_prod_beta)

end
