(* ===== verification/Trade_Engine_Inv.thy ===== *)
theory Trade_Engine_Inv
  imports Trade_Engine_Book
begin

text \<open>
  The matching loop: the orders it may meet, what one fill does, a rule-induction view of the
  loop, and what a whole pass over a queue leaves of the orders.
\<close>

section \<open>The stores of the engine\<close>

definition order_counter :: "trade_storage \<Rightarrow> nat" where
  "order_counter s = (case te_next_order s of None \<Rightarrow> 1 | Some n \<Rightarrow> n)"

definition pool_counter :: "trade_storage \<Rightarrow> nat" where
  "pool_counter s = (case te_next_pool s of None \<Rightarrow> 1 | Some n \<Rightarrow> n)"

lemma get_next_order_id_eq_Inr [res_simps]:
  "get_next_order_id s = Inr (k, s') \<longleftrightarrow>
    k = order_counter s \<and> s' = s\<lparr>te_next_order := Some (Suc k)\<rparr> \<and> Suc k < 2 ^ 64"
  by (auto simp: get_next_order_id_def order_counter_def res_simps Let_def)

lemma get_next_pool_id_eq_Inr [res_simps]:
  "get_next_pool_id s = Inr (k, s') \<longleftrightarrow>
    k = pool_counter s \<and> s' = s\<lparr>te_next_pool := Some (Suc k)\<rparr> \<and> Suc k < 2 ^ 64"
  by (auto simp: get_next_pool_id_def pool_counter_def res_simps Let_def)

lemmas te_write_defs = save_order_def save_book_def save_pool_def add_user_order_def te_publish_def
  emit_order_placed_def emit_order_cancelled_def emit_trade_executed_def emit_fill_def
  emit_pool_added_def

lemma te_orders_simps [simp]:
  "te_orders (save_order r s) = (te_orders s)(od_id r \<mapsto> r)"
  "te_orders (save_book b s) = te_orders s" "te_orders (save_pool p s) = te_orders s"
  "te_orders (te_publish ev s) = te_orders s" "te_orders (emit_fill f s) = te_orders s"
  "te_orders (add_user_order x i s) = te_orders s"
  by (simp_all add: te_write_defs)

lemma te_books_simps [simp]:
  "te_books (save_order r s) = te_books s"
  "te_books (save_book b s) = (te_books s)(get_pair_key (bk_base b) (bk_quote b) \<mapsto> b)"
  "te_books (save_pool p s) = te_books s" "te_books (te_publish ev s) = te_books s"
  "te_books (emit_fill f s) = te_books s" "te_books (add_user_order x i s) = te_books s"
  by (simp_all add: te_write_defs)

lemma te_pools_simps [simp]:
  "te_pools (save_order r s) = te_pools s" "te_pools (save_book b s) = te_pools s"
  "te_pools (save_pool p s) = (te_pools s)(lp_id p \<mapsto> p)"
  "te_pools (te_publish ev s) = te_pools s" "te_pools (emit_fill f s) = te_pools s"
  "te_pools (add_user_order x i s) = te_pools s"
  by (simp_all add: te_write_defs)

lemma te_pair_pool_simps [simp]:
  "te_pair_pool (save_order r s) = te_pair_pool s" "te_pair_pool (save_book b s) = te_pair_pool s"
  "te_pair_pool (save_pool p s) = (te_pair_pool s)((lp_asset_a p, lp_asset_b p) \<mapsto> lp_id p)"
  "te_pair_pool (te_publish ev s) = te_pair_pool s" "te_pair_pool (emit_fill f s) = te_pair_pool s"
  "te_pair_pool (add_user_order x i s) = te_pair_pool s"
  by (simp_all add: te_write_defs)

lemma te_counter_simps [simp]:
  "order_counter (save_order r s) = order_counter s" "order_counter (save_book b s) = order_counter s"
  "order_counter (save_pool p s) = order_counter s" "order_counter (te_publish ev s) = order_counter s"
  "order_counter (emit_fill f s) = order_counter s" "order_counter (add_user_order x i s) = order_counter s"
  "pool_counter (save_order r s) = pool_counter s" "pool_counter (save_book b s) = pool_counter s"
  "pool_counter (save_pool p s) = pool_counter s" "pool_counter (te_publish ev s) = pool_counter s"
  "pool_counter (emit_fill f s) = pool_counter s" "pool_counter (add_user_order x i s) = pool_counter s"
  by (simp_all add: te_write_defs order_counter_def pool_counter_def)

lemma te_counter_set [simp]:
  "order_counter (s\<lparr>te_next_order := Some n\<rparr>) = n" "pool_counter (s\<lparr>te_next_pool := Some n\<rparr>) = n"
  by (simp_all add: order_counter_def pool_counter_def)

interpretation ordst: id_store te_orders save_order od_id order_counter get_next_order_id
  by unfold_locales (auto simp: res_simps)

interpretation poolst: id_store te_pools save_pool lp_id pool_counter get_next_pool_id
  by unfold_locales (auto simp: res_simps)

section \<open>Transfers and quotes\<close>

lemma te_transfer_eq_Inr [res_simps]:
  "te_transfer T e w a x y n = Inr w' \<longleftrightarrow>
    n \<le> 0 \<and> w' = w \<or> 0 < n \<and> tok_transfer T e w a x y n = Returned_Void w'"
  by (auto simp: te_transfer_def split: call_outcome.splits)

lemma te_transfer_moved:
  assumes "token_laws T" and "te_transfer T e w a x y n = Inr w'"
  shows "moved T w w' a x y (max 0 n)"
  using assms by (auto simp: res_simps moved_def[of T w w] dest: token_laws_Void split: if_splits)

lemma quote_amount_nat:
  assumes "0 \<le> n" and "i128_ok n"
  shows "quote_amount n p = int (u_sat_mul 128 (nat n) p div PRICE_PRECISION)"
proof -
  have "u_sat_mul 128 (nat n) p div PRICE_PRECISION \<le> (2 ^ 128 - 1) div 10000000"
    unfolding PRICE_PRECISION_def by (rule div_le_mono) (simp add: u_sat_mul_def)
  also have "\<dots> < 2 ^ 127" by simp
  finally have "u_sat_mul 128 (nat n) p div PRICE_PRECISION < 2 ^ 127" .
  then show ?thesis
    using assms by (simp add: quote_amount_def as_u128_nonneg as_i128_small)
qed

lemma quote_amount_nonneg: "0 \<le> n \<Longrightarrow> i128_ok n \<Longrightarrow> 0 \<le> quote_amount n p"
  by (simp add: quote_amount_nat)

lemma quote_amount_exact:
  assumes "0 \<le> n" and "i128_ok n" and "nat n * p < 2 ^ 128"
  shows "quote_amount n p = n * int p div 10000000"
  using assms
  by (simp add: quote_amount_nat u_sat_mul_exact PRICE_PRECISION_def zdiv_int)

text \<open>Splitting an amount: the parts' quotes are covered by the quote of the whole.\<close>

lemma quote_amount_split:
  assumes "0 \<le> f" and "f \<le> n" and "i128_ok n" and "nat n * p < 2 ^ 128"
  shows "quote_amount f p + quote_amount (n - f) p \<le> quote_amount n p"
proof -
  have ok: "i128_ok f" "i128_ok (n - f)"
    using i128_between [of f n] i128_between [of "n - f" n] assms by simp_all
  have "nat f * p \<le> nat n * p" "nat (n - f) * p \<le> nat n * p"
    using assms(1,2) by (auto intro!: mult_right_mono nat_mono)
  then have lt: "nat f * p < 2 ^ 128" "nat (n - f) * p < 2 ^ 128"
    using assms(4) by linarith+
  have "f * int p div 10000000 + (n - f) * int p div 10000000 \<le> (f * int p + (n - f) * int p) div 10000000"
    by linarith
  also have "f * int p + (n - f) * int p = n * int p"
    by (simp add: algebra_simps)
  finally show ?thesis
    using assms ok lt by (simp add: quote_amount_exact)
qed

section \<open>Well-formed orders and one fill\<close>

definition order_wf :: "address \<Rightarrow> order \<Rightarrow> bool" where
  "order_wf c r \<longleftrightarrow> 0 < od_amount r \<and> i128_ok (od_amount r) \<and> 0 \<le> od_filled r
     \<and> od_filled r \<le> od_amount r \<and> od_base r \<noteq> od_quote r \<and> od_owner r \<noteq> c
     \<and> (case od_status r of
          Pending \<Rightarrow> od_filled r = 0
        | PartiallyFilled \<Rightarrow> 0 < od_filled r \<and> od_filled r < od_amount r
        | Filled \<Rightarrow> od_filled r = od_amount r
        | Cancelled \<Rightarrow> od_filled r < od_amount r
        | Expired \<Rightarrow> False)"

definition order_terms :: "order \<Rightarrow> nat \<times> address \<times> address \<times> address \<times> order_side \<times> order_type \<times> nat \<times> int \<times> nat" where
  "order_terms r = (od_id r, od_owner r, od_base r, od_quote r, od_side r, od_type r, od_price r,
     od_amount r, od_expires_at r)"

definition unfilled :: "order \<Rightarrow> int" where
  "unfilled r = od_amount r - od_filled r"

definition filled_up :: "order \<Rightarrow> int \<Rightarrow> order" where
  "filled_up r f = r\<lparr>od_filled := od_filled r + f,
     od_status := if od_amount r \<le> od_filled r + f then Filled else PartiallyFilled\<rparr>"

lemma filled_up_simps [simp]:
  "od_id (filled_up r f) = od_id r" "od_owner (filled_up r f) = od_owner r"
  "od_price (filled_up r f) = od_price r" "od_filled (filled_up r f) = od_filled r + f"
  "order_terms (filled_up r f) = order_terms r" "unfilled (filled_up r f) = unfilled r - f"
  "od_base (filled_up r f) = od_base r" "od_quote (filled_up r f) = od_quote r"
  "od_side (filled_up r f) = od_side r" "od_amount (filled_up r f) = od_amount r"
  by (simp_all add: filled_up_def order_terms_def unfilled_def)

lemma order_wf_unfilled:
  "order_wf c r \<Longrightarrow> i_sat_sub (od_amount r) (od_filled r) = unfilled r"
  using i128_between [of "od_amount r - od_filled r" "od_amount r"]
  by (simp add: order_wf_def unfilled_def i_sat_sub_exact)

lemma order_wf_active: "order_wf c r \<Longrightarrow> od_active r \<Longrightarrow> 0 < unfilled r"
  by (auto simp: order_wf_def od_active_def unfilled_def)

lemma order_wf_filled_up:
  "order_wf c r \<Longrightarrow> 0 < f \<Longrightarrow> f \<le> unfilled r \<Longrightarrow> order_wf c (filled_up r f)"
  by (auto simp: order_wf_def filled_up_def unfilled_def)

definition leg_fill :: "order \<Rightarrow> 'w match_state \<Rightarrow> int" where
  "leg_fill r m = min (ms_remaining m) (unfilled r)"

definition book_fill :: "address \<Rightarrow> trade_leg \<Rightarrow> order \<Rightarrow> int \<Rightarrow> fill_result" where
  "book_fill trader leg r f = \<lparr>fl_order_id = od_id r, fl_maker = od_owner r, fl_taker = trader,
     fl_base_asset = lg_base leg, fl_quote_asset = lg_quote leg, fl_price = od_price r,
     fl_base = f, fl_quote = quote_amount f (od_price r), fl_via_pool = False, fl_pool_id = 0\<rparr>"

text \<open>The state after a fill whose transfers end in world \<open>w\<close>.\<close>

definition after_fill :: "address \<Rightarrow> trade_leg \<Rightarrow> order \<Rightarrow> 'w \<Rightarrow> 'w match_state \<Rightarrow> 'w match_state" where
  "after_fill trader leg r w m =
     (let f = leg_fill r m; fl = book_fill trader leg r f
      in \<lparr>ms_sys = \<lparr>test = emit_fill fl (save_order (filled_up r f) (test (ms_sys m))), tew = w\<rparr>,
          ms_remaining = ms_remaining m - f, ms_total_base = ms_total_base m + f,
          ms_total_quote = ms_total_quote m + fl_quote fl,
          ms_updated = (if f = unfilled r then ms_updated m else ms_updated m @ [od_id r]),
          ms_fills = ms_fills m @ [fl]\<rparr>)"

lemma fill_order_success:
  assumes wf: "order_wf c r" and act: "od_active r" and pos: "0 < ms_remaining m"
    and ok: "fill_order T e trader leg r m = Inr m1"
  shows "\<exists>w1. m1 = after_fill trader leg r w1 m \<and>
    settle_fill T e trader leg r (leg_fill r m) (quote_amount (leg_fill r m) (od_price r)) (tew (ms_sys m)) = Inr w1"
proof -
  let ?f = "leg_fill r m"
  have sub: "i_sat_sub (od_amount r) (od_filled r) = unfilled r" by (rule order_wf_unfilled [OF wf])
  have f: "0 < ?f" "?f \<le> unfilled r"
    using order_wf_active [OF wf act] pos by (auto simp: leg_fill_def)
  have "i128_ok (od_filled r + ?f)"
    using wf f by (auto simp: order_wf_def unfilled_def intro: i128_between [where y = "od_amount r"])
  then have add: "i_sat_add (od_filled r) ?f = od_filled r + ?f" by (rule i_sat_add_exact)
  have full: "od_amount r \<le> od_filled r + ?f \<longleftrightarrow> ?f = unfilled r"
    using f by (auto simp: unfilled_def)
  have r2: "r\<lparr>od_filled := od_filled r + ?f,
      od_status := if ?f = unfilled r then Filled else PartiallyFilled\<rparr> = filled_up r ?f"
    using full by (simp add: filled_up_def)
  have own: "settle_fill T e trader leg (filled_up r ?f) = settle_fill T e trader leg r"
    by (cases "lg_side leg") (simp_all add: settle_fill_def fun_eq_iff)
  show ?thesis
    using ok unfolding fill_order_def Let_def sub leg_fill_def [symmetric] add
    by (auto simp: full r2 own record_fill_def res_simps after_fill_def book_fill_def Let_def)
qed

section \<open>The matching loop as a run\<close>

definition unmatchable :: "env \<Rightarrow> trade_storage \<Rightarrow> nat \<Rightarrow> bool" where
  "unmatchable e s i \<longleftrightarrow> (case te_orders s i of None \<Rightarrow> True | Some r \<Rightarrow> \<not> od_active r \<or> od_expired e r)"

inductive match_run :: "'w token_api \<Rightarrow> env \<Rightarrow> address \<Rightarrow> trade_leg \<Rightarrow> nat list \<Rightarrow> 'w match_state
    \<Rightarrow> 'w match_state \<Rightarrow> bool" for T e trader leg where
  run_end: "match_run T e trader leg [] m m"
| run_stop: "ms_remaining m \<le> 0 \<Longrightarrow>
    match_run T e trader leg (i # is) m (m\<lparr>ms_updated := ms_updated m @ i # is\<rparr>)"
| run_drop: "0 < ms_remaining m \<Longrightarrow> unmatchable e (test (ms_sys m)) i \<Longrightarrow>
    match_run T e trader leg is m m' \<Longrightarrow> match_run T e trader leg (i # is) m m'"
| run_keep: "0 < ms_remaining m \<Longrightarrow> te_orders (test (ms_sys m)) i = Some r \<Longrightarrow> od_active r \<Longrightarrow>
    \<not> od_expired e r \<Longrightarrow> beyond_limit leg r \<Longrightarrow>
    match_run T e trader leg is (m\<lparr>ms_updated := ms_updated m @ [i]\<rparr>) m' \<Longrightarrow>
    match_run T e trader leg (i # is) m m'"
| run_fill: "0 < ms_remaining m \<Longrightarrow> te_orders (test (ms_sys m)) i = Some r \<Longrightarrow> od_active r \<Longrightarrow>
    \<not> od_expired e r \<Longrightarrow> \<not> beyond_limit leg r \<Longrightarrow> fill_order T e trader leg r m = Inr m1 \<Longrightarrow>
    match_run T e trader leg is m1 m' \<Longrightarrow> match_run T e trader leg (i # is) m m'"

lemma match_orders_run:
  "match_orders T e trader leg is m = Inr m' \<Longrightarrow> match_run T e trader leg is m m'"
proof (induction "is" arbitrary: m)
  case Nil
  then show ?case by (simp add: run_end)
next
  case (Cons i "is")
  show ?case
  proof (cases "ms_remaining m \<le> 0")
    case True
    with Cons.prems show ?thesis by (auto intro: run_stop)
  next
    case False
    show ?thesis
    proof (cases "unmatchable e (test (ms_sys m)) i")
      case True
      with False Cons show ?thesis
        by (intro run_drop) (auto simp: unmatchable_def get_order_def split: option.splits)
    next
      case unm: False
      then obtain r where r: "te_orders (test (ms_sys m)) i = Some r" "od_active r" "\<not> od_expired e r"
        by (auto simp: unmatchable_def split: option.splits)
      with False Cons show ?thesis
        by (cases "beyond_limit leg r") (auto simp: get_order_def res_simps intro: run_keep run_fill)
    qed
  qed
qed

section \<open>What a pass over a queue leaves of the orders\<close>

definition orders_all :: "address \<Rightarrow> trade_storage \<Rightarrow> bool" where
  "orders_all c s \<longleftrightarrow> (\<forall>k r. te_orders s k = Some r \<longrightarrow> od_id r = k \<and> order_wf c r)"

definition order_moves :: "order \<Rightarrow> order \<Rightarrow> bool" where
  "order_moves r r' \<longleftrightarrow> order_terms r' = order_terms r \<and>
     (r' = r \<or> od_active r \<and> od_filled r < od_filled r' \<and> od_status r' \<in> {PartiallyFilled, Filled})"

lemma order_moves_refl [simp]: "order_moves r r"
  by (simp add: order_moves_def)

lemma order_moves_trans: "order_moves r r1 \<Longrightarrow> order_moves r1 r2 \<Longrightarrow> order_moves r r2"
  by (auto simp: order_moves_def)

lemma order_moves_filled_up: "od_active r \<Longrightarrow> 0 < f \<Longrightarrow> order_moves r (filled_up r f)"
  by (simp add: order_moves_def) (simp add: filled_up_def)

text \<open>Everything of the store but the orders of a pass stays; those orders only fill up.\<close>

definition pass_ok :: "trade_storage \<Rightarrow> trade_storage \<Rightarrow> nat list \<Rightarrow> bool" where
  "pass_ok s s' is \<longleftrightarrow> dom (te_orders s') = dom (te_orders s)
     \<and> (\<forall>k r. te_orders s k = Some r \<longrightarrow> (\<exists>r'. te_orders s' k = Some r' \<and> order_moves r r'))
     \<and> (\<forall>k. k \<notin> set is \<longrightarrow> te_orders s' k = te_orders s k)
     \<and> te_books s' = te_books s \<and> te_pools s' = te_pools s \<and> te_pair_pool s' = te_pair_pool s
     \<and> te_user_orders s' = te_user_orders s \<and> te_admin s' = te_admin s
     \<and> order_counter s' = order_counter s \<and> pool_counter s' = pool_counter s"

lemma pass_ok_order:
  "pass_ok s s' is \<Longrightarrow> te_orders s k = Some r \<Longrightarrow> \<exists>r'. te_orders s' k = Some r' \<and> order_moves r r'"
  unfolding pass_ok_def by blast

lemma pass_ok_refl [simp]: "pass_ok s s is"
  by (simp add: pass_ok_def)

lemma pass_ok_Cons: "pass_ok s s' is \<Longrightarrow> pass_ok s s' (i # is)"
  by (simp add: pass_ok_def)

lemma pass_ok_trans:
  assumes "pass_ok s s1 [i]" and "pass_ok s1 s2 is"
  shows "pass_ok s s2 (i # is)"
proof -
  have "\<exists>r2. te_orders s2 k = Some r2 \<and> order_moves r r2" if k: "te_orders s k = Some r" for k r
  proof -
    obtain r1 where r1: "te_orders s1 k = Some r1" "order_moves r r1"
      using pass_ok_order [OF assms(1) k] by blast
    obtain r2 where "te_orders s2 k = Some r2" "order_moves r1 r2"
      using pass_ok_order [OF assms(2) r1(1)] by blast
    with r1(2) show ?thesis using order_moves_trans by blast
  qed
  with assms show ?thesis by (simp add: pass_ok_def)
qed

lemma after_fill_pass:
  assumes "od_id r = i" "te_orders (test (ms_sys m)) i = Some r" "od_active r" "0 < leg_fill r m"
  shows "pass_ok (test (ms_sys m)) (test (ms_sys (after_fill trader leg r w m))) [i]"
  using assms order_moves_filled_up [of r "leg_fill r m"]
  by (auto simp: pass_ok_def after_fill_def Let_def save_order_def emit_fill_def te_publish_def
      order_counter_def pool_counter_def split: if_splits)

lemma leg_fill_pos:
  "order_wf c r \<Longrightarrow> od_active r \<Longrightarrow> 0 < ms_remaining m \<Longrightarrow> 0 < leg_fill r m \<and> leg_fill r m \<le> unfilled r"
  using order_wf_active by (fastforce simp: leg_fill_def)

lemma after_fill_all:
  assumes "orders_all c (test (ms_sys m))" "te_orders (test (ms_sys m)) i = Some r" "od_active r"
    and "0 < ms_remaining m"
  shows "orders_all c (test (ms_sys (after_fill trader leg r w m)))"
  using assms leg_fill_pos [of c r m] order_wf_filled_up [of c r "leg_fill r m"]
  by (auto simp: orders_all_def after_fill_def Let_def)

text \<open>The rule by which facts of a pass are proved: fills are taken in the resolved form.\<close>

lemma match_run_facts:
  assumes "match_run T e trader leg is m m'" and "orders_all c (test (ms_sys m))"
  shows "orders_all c (test (ms_sys m')) \<and> pass_ok (test (ms_sys m)) (test (ms_sys m')) is"
  using assms
proof (induction rule: match_run.induct)
  case (run_fill m i r m1 "is" m')
  have i: "od_id r = i" "order_wf c r" using run_fill.hyps(2) run_fill.prems by (auto simp: orders_all_def)
  obtain w1 where m1: "m1 = after_fill trader leg r w1 m"
    using fill_order_success [OF i(2) run_fill.hyps(3,1,6)] by blast
  have "orders_all c (test (ms_sys m1))"
    unfolding m1 by (rule after_fill_all [OF run_fill.prems run_fill.hyps(2,3,1)])
  moreover have "pass_ok (test (ms_sys m)) (test (ms_sys m1)) [i]"
    unfolding m1
    by (rule after_fill_pass [OF i(1) run_fill.hyps(2,3)])
      (use leg_fill_pos [OF i(2) run_fill.hyps(3,1)] in simp)
  ultimately show ?case
    using run_fill.IH pass_ok_trans by blast
qed (auto intro: pass_ok_Cons)

lemma match_run_updated:
  assumes "match_run T e trader leg is m m'" and "orders_all c (test (ms_sys m))" and "distinct is"
    and "\<forall>i \<in> set is. \<exists>r. te_orders (test (ms_sys m)) i = Some r \<and> od_active r"
  shows "\<exists>us. ms_updated m' = ms_updated m @ us \<and> subseq us is
    \<and> (\<forall>i \<in> set us. \<exists>r. te_orders (test (ms_sys m')) i = Some r \<and> od_active r)"
  using assms
proof (induction rule: match_run.induct)
  case (run_end m)
  then show ?case by simp
next
  case (run_stop m i "is")
  show ?case by (rule exI [of _ "i # is"]) (use run_stop.prems in simp)
next
  case (run_drop m i "is" m')
  then show ?case by auto
next
  case (run_keep m i r "is" m')
  then obtain us where us: "ms_updated m' = ms_updated m @ i # us" "subseq us is"
      "\<forall>j \<in> set us. \<exists>r. te_orders (test (ms_sys m')) j = Some r \<and> od_active r"
    by auto
  have "pass_ok (test (ms_sys m)) (test (ms_sys m')) is"
    using match_run_facts [OF run_keep.hyps(6)] run_keep.prems(1) by simp
  then have "te_orders (test (ms_sys m')) i = Some r"
    using run_keep.prems(2) run_keep.hyps(2) by (simp add: pass_ok_def)
  with us run_keep.hyps(3) show ?case by (intro exI [of _ "i # us"]) simp
next
  case (run_fill m i r m1 "is" m')
  have i: "od_id r = i" "order_wf c r" using run_fill.hyps(2) run_fill.prems by (auto simp: orders_all_def)
  obtain w1 where m1: "m1 = after_fill trader leg r w1 m"
    using fill_order_success [OF i(2) run_fill.hyps(3,1,6)] by blast
  note f = leg_fill_pos [OF i(2) run_fill.hyps(3,1)]
  have all1: "orders_all c (test (ms_sys m1))"
    unfolding m1 by (rule after_fill_all [OF run_fill.prems(1) run_fill.hyps(2,3,1)])
  have "\<forall>j \<in> set is. \<exists>r. te_orders (test (ms_sys m1)) j = Some r \<and> od_active r"
    using run_fill.prems(2,3) by (auto simp: m1 after_fill_def Let_def i(1))
  with run_fill.IH [OF all1] run_fill.prems(2) obtain us where us: "ms_updated m' = ms_updated m1 @ us"
      "subseq us is" "\<forall>j \<in> set us. \<exists>r. te_orders (test (ms_sys m')) j = Some r \<and> od_active r"
    by auto
  show ?case
  proof (cases "leg_fill r m = unfilled r")
    case True
    then have "ms_updated m1 = ms_updated m" by (simp add: m1 after_fill_def Let_def)
    with us show ?thesis by auto
  next
    case False
    then have up: "ms_updated m1 = ms_updated m @ [i]" by (simp add: m1 after_fill_def Let_def i(1))
    have "te_orders (test (ms_sys m1)) i = Some (filled_up r (leg_fill r m))"
      by (simp add: m1 after_fill_def Let_def i(1))
    moreover have "pass_ok (test (ms_sys m1)) (test (ms_sys m')) is"
      using match_run_facts [OF run_fill.hyps(7) all1] by simp
    ultimately have "te_orders (test (ms_sys m')) i = Some (filled_up r (leg_fill r m))"
      using run_fill.prems(2) by (simp add: pass_ok_def)
    moreover have "od_active (filled_up r (leg_fill r m))"
      using False f by (auto simp: filled_up_def od_active_def unfilled_def)
    ultimately show ?thesis using us up by (intro exI [of _ "i # us"]) simp
  qed
qed

text \<open>
  The trade engine as a transition system and its structural invariant: stored orders and pools
  are well formed, every queue is sorted by price-time priority and holds exactly live orders of
  its own pair and side. Every entry point preserves it.
\<close>

section \<open>Calls and steps\<close>

datatype trade_call =
    EngineInit address
  | PlaceOrder address address address order_side order_type nat int nat
  | CancelOrder address nat
  | ExecuteTrade address "trade_leg list"
  | AddPool address address address int int nat

fun trade_exec :: "'w token_api \<Rightarrow> env \<Rightarrow> 'w trade_sys \<Rightarrow> trade_call \<Rightarrow> ('w trade_sys, trade_error) res" where
  "trade_exec T e st (EngineInit x) = te_initialize e st x"
| "trade_exec T e st (PlaceOrder x b q sd ty p n ex) =
     bindR (place_order T e st x b q sd ty p n ex) (\<lambda>(_, st'). Inr st')"
| "trade_exec T e st (CancelOrder x i) = cancel_order T e st x i"
| "trade_exec T e st (ExecuteTrade x legs) =
     bindR (execute_multi_pair_trade T e st x legs) (\<lambda>(_, st'). Inr st')"
| "trade_exec T e st (AddPool x a b ra rb fee) =
     bindR (add_liquidity_pool T e st x a b ra rb fee) (\<lambda>(_, st'). Inr st')"

text \<open>Arguments that fit the integer types of the entry points.\<close>

fun typed_call :: "trade_call \<Rightarrow> bool" where
  "typed_call (PlaceOrder x b q sd ty p n ex) \<longleftrightarrow> i128_ok n \<and> p < 2 ^ 128"
| "typed_call (ExecuteTrade x legs) \<longleftrightarrow> (\<forall>leg \<in> set legs. i128_ok (lg_amount leg))"
| "typed_call (AddPool x a b ra rb fee) \<longleftrightarrow> i128_ok ra \<and> i128_ok rb"
| "typed_call _ \<longleftrightarrow> True"

text \<open>
  A step of a contract at address \<open>c\<close>: a call that satisfies \<open>P\<close> by an invocation not authorised
  by \<open>c\<close> itself, or an outside movement of tokens that does not take from \<open>c\<close>.
\<close>

inductive trade_step :: "(trade_call \<Rightarrow> bool) \<Rightarrow> 'w token_api \<Rightarrow> address \<Rightarrow> 'w trade_sys \<Rightarrow> 'w trade_sys \<Rightarrow> bool"
  for P and T and c where
  trade_step_call: "self_addr e = c \<Longrightarrow> \<not> authorized e c \<Longrightarrow> P k \<Longrightarrow> trade_exec T e st k = Inr st'
    \<Longrightarrow> trade_step P T c st st'"
| trade_step_world: "(\<And>a. bal T (tew st) a c \<le> bal T w a c) \<Longrightarrow> trade_step P T c st (st\<lparr>tew := w\<rparr>)"

definition trade_deployed :: "'w token_api \<Rightarrow> address \<Rightarrow> 'w trade_sys \<Rightarrow> bool" where
  "trade_deployed T c st \<longleftrightarrow> test st = trade_storage0 \<and> (\<forall>a. 0 \<le> bal T (tew st) a c)"

section \<open>The invariant\<close>

definition side_queue_ok :: "order_side \<Rightarrow> trade_storage \<Rightarrow> nat list \<Rightarrow> bool" where
  "side_queue_ok side s xs = (case side of Buy \<Rightarrow> bid.queue_ok s xs | Sell \<Rightarrow> ask.queue_ok s xs)"

definition side_queue :: "order_side \<Rightarrow> pair_book \<Rightarrow> nat list" where
  "side_queue side b = (case side of Buy \<Rightarrow> bk_bids b | Sell \<Rightarrow> bk_asks b)"

definition requeue :: "order_side \<Rightarrow> nat list \<Rightarrow> pair_book \<Rightarrow> pair_book" where
  "requeue side xs b = (case side of Buy \<Rightarrow> b\<lparr>bk_bids := xs\<rparr> | Sell \<Rightarrow> b\<lparr>bk_asks := xs\<rparr>)"

definition order_key :: "order \<Rightarrow> address \<times> address" where
  "order_key r = get_pair_key (od_base r) (od_quote r)"

definition queued :: "trade_storage \<Rightarrow> address \<times> address \<Rightarrow> order_side \<Rightarrow> nat \<Rightarrow> bool" where
  "queued s key side i \<longleftrightarrow>
     (\<exists>r. te_orders s i = Some r \<and> od_active r \<and> od_side r = side \<and> order_key r = key)"

definition book_ok :: "trade_storage \<Rightarrow> address \<times> address \<Rightarrow> pair_book \<Rightarrow> bool" where
  "book_ok s key b \<longleftrightarrow> get_pair_key (bk_base b) (bk_quote b) = key
     \<and> (\<forall>side. side_queue_ok side s (side_queue side b) \<and> (\<forall>i \<in> set (side_queue side b). queued s key side i))"

definition books_ok :: "trade_storage \<Rightarrow> bool" where
  "books_ok s \<longleftrightarrow> (\<forall>key b. te_books s key = Some b \<longrightarrow> book_ok s key b)"

definition pool_wf :: "liquidity_pool \<Rightarrow> bool" where
  "pool_wf p \<longleftrightarrow> 0 \<le> lp_reserve_a p \<and> 0 \<le> lp_reserve_b p \<and> i128_ok (lp_reserve_a p)
     \<and> i128_ok (lp_reserve_b p) \<and> lp_asset_a p \<noteq> lp_asset_b p"

definition pools_ok :: "trade_storage \<Rightarrow> bool" where
  "pools_ok s \<longleftrightarrow> poolst.ids_below s \<and> (\<forall>k p. te_pools s k = Some p \<longrightarrow> pool_wf p)
     \<and> (\<forall>a b k. te_pair_pool s (a, b) = Some k \<longrightarrow>
          (\<exists>p. te_pools s k = Some p \<and> lp_asset_a p = a \<and> lp_asset_b p = b))"

definition te_ok :: "address \<Rightarrow> trade_storage \<Rightarrow> bool" where
  "te_ok c s \<longleftrightarrow> ordst.ids_below s \<and> orders_all c s \<and> books_ok s \<and> pools_ok s"

lemma side_queue_simps [simp]:
  "side_queue Buy b = bk_bids b" "side_queue Sell b = bk_asks b"
  "requeue Buy xs b = b\<lparr>bk_bids := xs\<rparr>" "requeue Sell xs b = b\<lparr>bk_asks := xs\<rparr>"
  "side_queue_ok Buy = bid.queue_ok" "side_queue_ok Sell = ask.queue_ok"
  by (auto simp: side_queue_def requeue_def side_queue_ok_def fun_eq_iff)

lemma requeue_simps [simp]:
  "bk_base (requeue side xs b) = bk_base b" "bk_quote (requeue side xs b) = bk_quote b"
  "side_queue side' (requeue side xs b) = (if side' = side then xs else side_queue side' b)"
  by (cases side; cases side'; simp)+

lemma side_queue_ok_cong:
  "(\<And>i. i \<in> set xs \<Longrightarrow> prio s' i = prio s i) \<Longrightarrow> side_queue_ok side s' xs = side_queue_ok side s xs"
  using bid.queue_ok_cong [of xs s' s] ask.queue_ok_cong [of xs s' s] by (cases side) simp_all

lemma side_queue_ok_subseq: "subseq ys xs \<Longrightarrow> side_queue_ok side s xs \<Longrightarrow> side_queue_ok side s ys"
  using bid.queue_ok_subseq ask.queue_ok_subseq by (cases side) auto

lemma side_queue_ok_distinct: "side_queue_ok side s xs \<Longrightarrow> distinct xs"
  using bid.queue_ok_distinct ask.queue_ok_distinct by (cases side) auto

lemma side_queue_ok_Nil [simp]: "side_queue_ok side s []"
  by (cases side) (simp_all add: bid.queue_ok_def ask.queue_ok_def)

lemma books_okD: "books_ok s \<Longrightarrow> te_books s key = Some b \<Longrightarrow> book_ok s key b"
  unfolding books_ok_def by blast

lemma load_book_ok: "books_ok s \<Longrightarrow> book_ok s (get_pair_key b q) (load_book s b q)"
proof (cases "te_books s (get_pair_key b q)")
  case None
  then have "side_queue side (load_book s b q) = []" for side
    by (cases side) (simp_all add: load_book_def)
  with None show ?thesis by (simp add: book_ok_def) (simp add: load_book_def)
next
  case (Some book)
  moreover assume "books_ok s"
  ultimately show ?thesis using books_okD by (simp add: load_book_def)
qed

lemma queued_cong: "te_orders s' i = te_orders s i \<Longrightarrow> queued s' key side i = queued s key side i"
  by (simp add: queued_def)

lemma prio_terms:
  "te_orders s i = Some r \<Longrightarrow> te_orders s' i = Some r' \<Longrightarrow> order_terms r' = order_terms r \<Longrightarrow> prio s' i = prio s i"
  by (simp add: prio_def order_terms_def)

lemma book_ok_cong:
  assumes "te_orders s' = te_orders s"
  shows "book_ok s' key b = book_ok s key b"
proof -
  have "side_queue_ok side s' xs = side_queue_ok side s xs" for side xs
    by (rule side_queue_ok_cong) (simp add: prio_def assms)
  moreover have "queued s' key side i = queued s key side i" for side i
    by (simp add: queued_def assms)
  ultimately show ?thesis by (simp add: book_ok_def)
qed

text \<open>
  Rewriting one queue of one pair: all stored orders keep their terms, those of other queues are
  unchanged, and the new queue is in order and live.
\<close>

lemma books_ok_requeue:
  assumes ok: "books_ok s" and same: "te_books s' = te_books s"
    and keep: "\<And>i r. te_orders s i = Some r \<Longrightarrow> \<exists>r'. te_orders s' i = Some r' \<and> order_terms r' = order_terms r"
    and own: "\<And>i r. te_orders s i = Some r \<Longrightarrow> te_orders s' i \<noteq> Some r \<Longrightarrow>
      od_side r = side \<and> order_key r = get_pair_key base quote"
    and new: "side_queue_ok side s' xs" "\<And>i. i \<in> set xs \<Longrightarrow> queued s' (get_pair_key base quote) side i"
  shows "books_ok (save_book (requeue side xs (load_book s base quote)) s')"
proof -
  let ?key = "get_pair_key base quote" and ?b = "load_book s base quote"
  have lb: "book_ok s ?key ?b" by (rule load_book_ok [OF ok])
  have other: "side_queue_ok sd s' (side_queue sd b) \<and> (\<forall>i \<in> set (side_queue sd b). queued s' key sd i)"
    if b: "book_ok s key b" and ne: "key \<noteq> ?key \<or> sd \<noteq> side" for key b sd
  proof -
    have q: "queued s key sd i" if "i \<in> set (side_queue sd b)" for i
      using b that by (simp add: book_ok_def)
    have eq: "te_orders s' i = te_orders s i" if "i \<in> set (side_queue sd b)" for i
      using q [OF that] own [of i] ne by (fastforce simp: queued_def)
    then have "side_queue_ok sd s' (side_queue sd b) = side_queue_ok sd s (side_queue sd b)"
      by (intro side_queue_ok_cong) (simp add: prio_def)
    moreover have "queued s' key sd i" if "i \<in> set (side_queue sd b)" for i
      using q [OF that] queued_cong [OF eq [OF that]] by simp
    ultimately show ?thesis using b by (simp add: book_ok_def)
  qed
  have mine: "book_ok s' ?key (requeue side xs ?b)"
    using lb new other [OF lb] by (auto simp: book_ok_def)
  have rest: "book_ok s' key b" if "te_books s key = Some b" "key \<noteq> ?key" for key b
    using other [OF books_okD [OF ok that(1)]] books_okD [OF ok that(1)] that(2) by (simp add: book_ok_def)
  have key: "get_pair_key (bk_base ?b) (bk_quote ?b) = ?key" using lb by (simp add: book_ok_def)
  have cong: "book_ok (save_book bk s') key b = book_ok s' key b" for bk key b
    by (rule book_ok_cong) simp
  show ?thesis
    unfolding books_ok_def cong using mine rest key same
    by (auto simp del: split_paired_All split_paired_Ex split: if_splits)
qed

lemma te_ok_cong:
  assumes "te_orders s' = te_orders s" "te_books s' = te_books s" "te_pools s' = te_pools s"
    "te_pair_pool s' = te_pair_pool s" "order_counter s' = order_counter s" "pool_counter s' = pool_counter s"
  shows "te_ok c s' = te_ok c s"
proof -
  have "books_ok s' = books_ok s"
    using assms(2) by (simp add: books_ok_def book_ok_cong [OF assms(1)])
  with assms show ?thesis
    by (simp add: te_ok_def ordst.ids_below_def poolst.ids_below_def orders_all_def pools_ok_def)
qed

lemma te_okD:
  assumes "te_ok c s"
  shows "ordst.ids_below s" "orders_all c s" "books_ok s" "pools_ok s"
    and "te_orders s k = Some r \<Longrightarrow> od_id r = k \<and> order_wf c r \<and> k < order_counter s"
  using assms by (auto simp: te_ok_def orders_all_def ordst.ids_below_def)

lemma load_book_cong: "te_books s' = te_books s \<Longrightarrow> load_book s' = load_book s"
  by (intro ext) (simp add: load_book_def)

section \<open>Placing and cancelling\<close>

definition new_order :: "nat \<Rightarrow> address \<Rightarrow> address \<Rightarrow> address \<Rightarrow> order_side \<Rightarrow> order_type \<Rightarrow> nat \<Rightarrow> int
    \<Rightarrow> nat \<Rightarrow> nat \<Rightarrow> order" where
  "new_order k x b q side typ price n t ex = \<lparr>od_id = k, od_owner = x, od_base = b, od_quote = q,
     od_side = side, od_type = typ, od_price = price, od_amount = n, od_filled = 0,
     od_status = Pending, od_created_at = t, od_expires_at = ex\<rparr>"

lemma new_order_simps [simp]:
  "od_id (new_order k x b q side typ price n t ex) = k"
  "od_owner (new_order k x b q side typ price n t ex) = x"
  "od_base (new_order k x b q side typ price n t ex) = b"
  "od_quote (new_order k x b q side typ price n t ex) = q"
  "od_side (new_order k x b q side typ price n t ex) = side"
  "od_price (new_order k x b q side typ price n t ex) = price"
  "od_amount (new_order k x b q side typ price n t ex) = n"
  "od_filled (new_order k x b q side typ price n t ex) = 0"
  "od_status (new_order k x b q side typ price n t ex) = Pending"
  "unfilled (new_order k x b q side typ price n t ex) = n"
  by (simp_all add: new_order_def unfilled_def)

definition side_insert :: "trade_storage \<Rightarrow> order \<Rightarrow> nat list \<Rightarrow> nat list" where
  "side_insert s r xs = (case od_side r of Buy \<Rightarrow> insert_bid s r False xs | Sell \<Rightarrow> insert_ask s r False xs)"

lemma add_order_eq:
  "add_order r s = save_book (requeue (od_side r)
     (side_insert s r (side_queue (od_side r) (load_book s (od_base r) (od_quote r))))
     (load_book s (od_base r) (od_quote r))) s"
  by (cases "od_side r") (simp_all add: add_order_def Let_def side_insert_def)

lemma remove_order_id_eq:
  "remove_order_id b q side i s = save_book (requeue side
     (filter (\<lambda>j. j \<noteq> i) (side_queue side (load_book s b q))) (load_book s b q)) s"
  by (cases side) (simp_all add: remove_order_id_def Let_def)

lemma side_insert_ok:
  assumes "stored s xs" and "side_queue_ok (od_side r) s xs" and "te_orders s (od_id r) = Some r"
    and "\<And>i. i \<in> set xs \<Longrightarrow> i < od_id r"
  shows "side_queue_ok (od_side r) s (side_insert s r xs)"
    and "set (side_insert s r xs) = insert (od_id r) (set xs)"
  using assms bid.queue_ok_ins [of s xs r] ask.queue_ok_ins [of s xs r] bid.set_ins [of s xs r]
    ask.set_ins [of s xs r]
  by (cases "od_side r"; simp add: side_insert_def)+

definition place_pay :: "'w token_api \<Rightarrow> env \<Rightarrow> 'w \<Rightarrow> address \<Rightarrow> address \<Rightarrow> address \<Rightarrow> order_side \<Rightarrow> nat
    \<Rightarrow> int \<Rightarrow> 'w \<Rightarrow> bool" where
  "place_pay T e w x b q side price n w' \<longleftrightarrow>
     (case side of Sell \<Rightarrow> te_transfer T e w b x (self_addr e) n = Inr w'
      | Buy \<Rightarrow> te_transfer T e w q x (self_addr e) (quote_amount n price) = Inr w')"

lemma place_order_iff:
  "place_order T e st x b q side typ price n ex = Inr (k, st') \<longleftrightarrow>
    (\<exists>w1 s1. authorized e x \<and> 0 < n \<and> (price = 0 \<longrightarrow> typ \<noteq> Limit) \<and> b \<noteq> q
       \<and> place_pay T e (tew st) x b q side price n w1 \<and> get_next_order_id (test st) = Inr (k, s1)
       \<and> (let r = new_order k x b q side typ price n (now e) ex
          in st' = \<lparr>test = emit_order_placed r (add_order r (add_user_order x k (save_order r s1))), tew = w1\<rparr>))"
  by (cases side) (auto simp: place_order_def bindR_eq_Inr ensure_eq_Inr require_auth_eq_Inr Let_def
      new_order_def place_pay_def not_le)

lemma place_order_te_ok:
  assumes ok: "te_ok c (test st)" and typed: "i128_ok n" and self: "\<not> authorized e c"
    and step: "place_order T e st x b q side typ price n ex = Inr (k, st')"
  shows "te_ok c (test st')"
proof -
  let ?r = "new_order k x b q side typ price n (now e) ex"
  let ?s = "test st"
  from step obtain w1 s1 where g: "authorized e x" "0 < n" "b \<noteq> q"
    and al: "get_next_order_id ?s = Inr (k, s1)"
    and st0: "test st' = emit_order_placed ?r (add_order ?r (add_user_order x k (save_order ?r s1)))"
    by (auto simp: place_order_iff Let_def)
  define s2 where "s2 = add_user_order x k (save_order ?r s1)"
  have st': "test st' = emit_order_placed ?r (add_order ?r s2)" by (simp add: st0 s2_def)
  note d = te_okD [OF ok]
  have fresh: "te_orders ?s k = None" by (rule ordst.alloc_fresh [OF d(1) al])
  have s1: "te_orders s1 = te_orders ?s" "te_books s1 = te_books ?s" "te_pools s1 = te_pools ?s"
      "te_pair_pool s1 = te_pair_pool ?s" "pool_counter s1 = pool_counter ?s" "k = order_counter ?s"
    using al by (auto simp: res_simps pool_counter_def)
  let ?xs = "side_queue side (load_book ?s b q)"
  have lb: "book_ok ?s (get_pair_key b q) (load_book ?s b q)" by (rule load_book_ok [OF d(3)])
  then have qd: "\<And>i. i \<in> set ?xs \<Longrightarrow> queued ?s (get_pair_key b q) side i"
    and sq: "side_queue_ok side ?s ?xs" by (auto simp: book_ok_def)
  have lt: "i < k" if "i \<in> set ?xs" for i
    using qd [OF that] d(5) [of i] s1(6) by (auto simp: queued_def)
  have eq2: "te_orders s2 = (te_orders ?s)(k \<mapsto> ?r)" "te_books s2 = te_books ?s"
      "te_pools s2 = te_pools ?s" "te_pair_pool s2 = te_pair_pool ?s" "pool_counter s2 = pool_counter ?s"
    by (simp_all add: s2_def s1)
  have old: "te_orders s2 i = te_orders ?s i" if "i \<in> set ?xs" for i
    using lt [OF that] by (simp add: eq2)
  have stored: "stored s2 ?xs" using qd by (auto simp: stored_def eq2 queued_def)
  have sq2: "side_queue_ok side s2 ?xs"
    using sq side_queue_ok_cong [of ?xs s2 ?s side] old by (simp add: prio_def)
  note ins = side_insert_ok [of s2 ?xs ?r, OF stored]
  have books: "books_ok (save_book (requeue side (side_insert s2 ?r ?xs) (load_book ?s b q)) s2)"
  proof (rule books_ok_requeue [OF d(3)])
    show "side_queue_ok side s2 (side_insert s2 ?r ?xs)"
      using ins(1) sq2 lt by (simp add: eq2)
    fix i assume "i \<in> set (side_insert s2 ?r ?xs)"
    then have "i = k \<or> i \<in> set ?xs" using ins(2) sq2 lt by (simp add: eq2)
    then show "queued s2 (get_pair_key b q) side i"
    proof
      assume "i = k"
      then show ?thesis by (simp add: queued_def eq2 od_active_def order_key_def)
    next
      assume i: "i \<in> set ?xs"
      then show ?thesis using qd [OF i] queued_cong [OF old [OF i]] by simp
    qed
  qed (use fresh in \<open>auto simp: eq2 split: if_splits\<close>)
  have add: "add_order ?r s2 = save_book (requeue side (side_insert s2 ?r ?xs) (load_book ?s b q)) s2"
    using load_book_cong [of s2 ?s] by (simp add: add_order_eq eq2)
  have wf: "order_wf c ?r" using g typed self by (auto simp: order_wf_def)
  have "te_ok c (add_order ?r s2)"
    unfolding te_ok_def
  proof (intro conjI)
    have "ordst.ids_below (save_order ?r s1)"
      by (rule ordst.ids_below_alloc_put [OF d(1) al]) simp
    then have "ordst.ids_below s2" by (simp add: s2_def ordst.ids_below_def)
    then show "ordst.ids_below (add_order ?r s2)" by (simp add: add ordst.ids_below_def)
    show "orders_all c (add_order ?r s2)"
      using d(2) wf by (simp add: add orders_all_def eq2)
    show "books_ok (add_order ?r s2)" unfolding add by (rule books)
    show "pools_ok (add_order ?r s2)"
      using d(4) by (simp add: add pools_ok_def poolst.ids_below_def eq2)
  qed
  then show ?thesis
    unfolding st' by (subst te_ok_cong [of _ "add_order ?r s2"]) (simp_all add: emit_order_placed_def)
qed

definition cancel_pay :: "'w token_api \<Rightarrow> env \<Rightarrow> 'w \<Rightarrow> order \<Rightarrow> 'w \<Rightarrow> bool" where
  "cancel_pay T e w r w' \<longleftrightarrow>
     (case od_side r of Sell \<Rightarrow> te_transfer T e w (od_base r) (self_addr e) (od_owner r) (unfilled r) = Inr w'
      | Buy \<Rightarrow> te_transfer T e w (od_quote r) (self_addr e) (od_owner r)
                 (quote_amount (unfilled r) (od_price r)) = Inr w')"

lemma cancel_order_iff:
  assumes "orders_all c (test st)"
  shows "cancel_order T e st x i = Inr st' \<longleftrightarrow>
    (\<exists>r w1. authorized e x \<and> te_orders (test st) i = Some r \<and> od_owner r = x \<and> od_active r
       \<and> cancel_pay T e (tew st) r w1
       \<and> st' = \<lparr>test = emit_order_cancelled i x (remove_order_id (od_base r) (od_quote r) (od_side r) i
            (save_order (r\<lparr>od_status := Cancelled\<rparr>) (test st))), tew = w1\<rparr>)"
proof (cases "te_orders (test st) i")
  case None
  then show ?thesis by (simp add: cancel_order_def get_order_def res_simps)
next
  case (Some r)
  then have wf: "order_wf c r" using assms by (simp add: orders_all_def)
  have sub: "i_sat_sub (od_amount r) (od_filled r) = unfilled r" by (rule order_wf_unfilled [OF wf])
  show ?thesis
  proof (cases "od_active r")
    case True
    then have "0 < unfilled r" by (rule order_wf_active [OF wf])
    with True show ?thesis
      by (cases "od_side r")
        (auto simp: cancel_order_def get_order_def Some bindR_eq_Inr ensure_eq_Inr require_auth_eq_Inr
          ok_or_eq_Inr Let_def sub cancel_pay_def)
  qed (auto simp: cancel_order_def get_order_def Some res_simps)
qed

lemma cancel_order_te_ok:
  assumes ok: "te_ok c (test st)" and step: "cancel_order T e st x i = Inr st'"
  shows "te_ok c (test st')"
proof -
  let ?s = "test st"
  note d = te_okD [OF ok]
  from step obtain r where r: "te_orders ?s i = Some r" "od_active r"
    and st': "test st' = emit_order_cancelled i x (remove_order_id (od_base r) (od_quote r) (od_side r) i
      (save_order (r\<lparr>od_status := Cancelled\<rparr>) ?s))"
    by (auto simp: cancel_order_iff [OF d(2)])
  let ?r = "r\<lparr>od_status := Cancelled\<rparr>" and ?lb = "load_book ?s (od_base r) (od_quote r)"
  let ?s2 = "save_order ?r ?s"
  let ?xs = "filter (\<lambda>j. j \<noteq> i) (side_queue (od_side r) ?lb)"
  have i: "od_id r = i" "order_wf c r" using d(5) [OF r(1)] by auto
  have lb: "book_ok ?s (get_pair_key (od_base r) (od_quote r)) ?lb" by (rule load_book_ok [OF d(3)])
  have eq: "te_orders ?s2 j = te_orders ?s j" if "j \<noteq> i" for j using that i by simp
  have "side_queue_ok (od_side r) ?s ?xs"
    using lb by (intro side_queue_ok_subseq [of ?xs "side_queue (od_side r) ?lb"]) (auto simp: book_ok_def)
  then have sq: "side_queue_ok (od_side r) ?s2 ?xs"
    using side_queue_ok_cong [of ?xs ?s2 ?s "od_side r"] eq by (simp add: prio_def)
  have q: "queued ?s2 (get_pair_key (od_base r) (od_quote r)) (od_side r) j" if "j \<in> set ?xs" for j
    using that lb queued_cong [OF eq [of j]] by (simp add: book_ok_def)
  have books: "books_ok (save_book (requeue (od_side r) ?xs ?lb) ?s2)"
    by (rule books_ok_requeue [OF d(3) _ _ _ sq q])
      (use r i in \<open>auto simp: order_terms_def order_key_def split: if_splits\<close>)
  have rm: "remove_order_id (od_base r) (od_quote r) (od_side r) i ?s2
      = save_book (requeue (od_side r) ?xs ?lb) ?s2"
    using load_book_cong [of ?s2 ?s] by (simp add: remove_order_id_eq)
  have "order_wf c ?r"
    using i(2) order_wf_active [OF i(2) r(2)] by (auto simp: order_wf_def unfilled_def)
  then have "te_ok c (save_book (requeue (od_side r) ?xs ?lb) ?s2)"
    using books d(1,2,4) r(1) i(1)
    by (auto simp: te_ok_def orders_all_def pools_ok_def poolst.ids_below_def ordst.ids_below_def)
  then show ?thesis
    unfolding st' rm by (subst te_ok_cong [of _ "save_book (requeue (od_side r) ?xs ?lb) ?s2"])
      (simp_all add: emit_order_cancelled_def)
qed

end
