(* ===== verification/Trade_Engine_Legs.thy ===== *)
theory Trade_Engine_Legs
  imports Trade_Engine_Inv
begin

text \<open>
  Whole legs: the pass over the queue, the book write, and the fallback pool; then trades of
  several legs and the remaining entry points. Ends with the invariant of every reachable state.
\<close>

section \<open>Pool fills\<close>

lemma i_sat_mul_nonneg:
  assumes "0 \<le> a" and "0 \<le> b"
  shows "0 \<le> i_sat_mul a b \<and> i128_ok (i_sat_mul a b)"
  using mult_nonneg_nonneg [OF assms]
  by (auto simp: i_sat_mul_def i_clamp_def i128_ok_def I128_MAX_def I128_MIN_def)

lemma with_book_simps [simp]:
  "ms_remaining (with_book b m) = ms_remaining m" "ms_fills (with_book b m) = ms_fills m"
  "ms_total_base (with_book b m) = ms_total_base m" "ms_total_quote (with_book b m) = ms_total_quote m"
  "tew (ms_sys (with_book b m)) = tew (ms_sys m)"
  "test (ms_sys (with_book b m)) = save_book b (test (ms_sys m))"
  by (simp_all add: with_book_def)

definition pool_in :: "bool \<Rightarrow> liquidity_pool \<Rightarrow> int" where
  "pool_in ab p = (if ab then lp_reserve_a p else lp_reserve_b p)"

definition pool_out :: "bool \<Rightarrow> liquidity_pool \<Rightarrow> int" where
  "pool_out ab p = (if ab then lp_reserve_b p else lp_reserve_a p)"

definition shifted :: "bool \<Rightarrow> int \<Rightarrow> int \<Rightarrow> liquidity_pool \<Rightarrow> liquidity_pool" where
  "shifted ab x y p =
     (if ab then p\<lparr>lp_reserve_a := lp_reserve_a p + x, lp_reserve_b := lp_reserve_b p - y\<rparr>
      else p\<lparr>lp_reserve_a := lp_reserve_a p - y, lp_reserve_b := lp_reserve_b p + x\<rparr>)"

lemma shifted_simps [simp]:
  "lp_id (shifted ab x y p) = lp_id p" "lp_asset_a (shifted ab x y p) = lp_asset_a p"
  "lp_asset_b (shifted ab x y p) = lp_asset_b p" "lp_fee_bps (shifted ab x y p) = lp_fee_bps p"
  "pool_in ab (shifted ab x y p) = pool_in ab p + x" "pool_out ab (shifted ab x y p) = pool_out ab p - y"
  by (simp_all add: shifted_def pool_in_def pool_out_def)

lemma pool_shift_eq_Inr [res_simps]:
  "pool_shift ab x y p = Inr p1 \<longleftrightarrow>
    p1 = shifted ab x y p \<and> i128_ok (pool_in ab p + x) \<and> i128_ok (pool_out ab p - y)"
  by (auto simp: pool_shift_def shifted_def pool_in_def pool_out_def res_simps)

lemma pool_wf_shifted:
  "pool_wf p \<Longrightarrow> 0 \<le> x \<Longrightarrow> y \<le> pool_out ab p \<Longrightarrow> i128_ok (pool_in ab p + x) \<Longrightarrow>
    i128_ok (pool_out ab p - y) \<Longrightarrow> pool_wf (shifted ab x y p)"
  by (auto simp: pool_wf_def shifted_def pool_in_def pool_out_def)

definition after_pool :: "env \<Rightarrow> address \<Rightarrow> trade_leg \<Rightarrow> bool \<Rightarrow> liquidity_pool \<Rightarrow> int \<Rightarrow> int \<Rightarrow> int \<Rightarrow> nat
    \<Rightarrow> 'w \<Rightarrow> 'w match_state \<Rightarrow> 'w match_state" where
  "after_pool e trader leg ab p x y fq price w m =
     (let fl = pool_fill_result e trader leg price (ms_remaining m) fq (lp_id p)
      in m\<lparr>ms_sys := \<lparr>test = emit_fill fl (save_pool (shifted ab x y p) (test (ms_sys m))), tew = w\<rparr>,
           ms_remaining := 0, ms_total_base := ms_total_base m + ms_remaining m,
           ms_total_quote := ms_total_quote m + fq, ms_fills := ms_fills m @ [fl]\<rparr>)"

lemma pool_buy_success:
  assumes "pool_buy T e trader leg m = Inr m'" and "0 < ms_remaining m" and "ms_remaining m' \<le> 0"
  shows "\<exists>p ab q w1 w2 price. get_pool_by_pair (test (ms_sys m)) (lg_base leg) (lg_quote leg) = Some p
    \<and> ab = (lp_asset_a p = lg_quote leg)
    \<and> pool_buy_quote (ms_remaining m) (pool_in ab p) (pool_out ab p) (lp_fee_bps p) = Inr (Some q)
    \<and> te_transfer T e (tew (ms_sys m)) (lg_quote leg) trader (self_addr e) q = Inr w1
    \<and> te_transfer T e w1 (lg_base leg) (self_addr e) trader (ms_remaining m) = Inr w2
    \<and> i128_ok (pool_in ab p + q) \<and> i128_ok (pool_out ab p - ms_remaining m)
    \<and> effective_price q (ms_remaining m) = Inr price
    \<and> (lg_limit_price leg = 0 \<or> price \<le> lg_limit_price leg)
    \<and> m' = after_pool e trader leg ab p q (ms_remaining m) q price w2 m"
proof (cases "get_pool_by_pair (test (ms_sys m)) (lg_base leg) (lg_quote leg)")
  case None
  with assms show ?thesis by (simp add: pool_buy_def)
next
  case (Some p)
  let ?ab = "lp_asset_a p = lg_quote leg"
  from assms(1) Some obtain oq where oq: "pool_buy_quote (ms_remaining m) (pool_in ?ab p) (pool_out ?ab p)
      (lp_fee_bps p) = Inr oq"
    by (auto simp: pool_buy_def Let_def res_simps pool_in_def pool_out_def)
  show ?thesis
  proof (cases oq)
    case None
    with assms Some oq show ?thesis by (simp add: pool_buy_def Let_def pool_in_def pool_out_def)
  next
    case q: (Some q)
    let ?m1 = "\<lambda>w2. m\<lparr>ms_sys := \<lparr>test = save_pool (shifted ?ab q (ms_remaining m) p) (test (ms_sys m)), tew = w2\<rparr>\<rparr>"
    from assms(1) Some oq q obtain w1 w2 price where
      g: "te_transfer T e (tew (ms_sys m)) (lg_quote leg) trader (self_addr e) q = Inr w1"
        "te_transfer T e w1 (lg_base leg) (self_addr e) trader (ms_remaining m) = Inr w2"
        "i128_ok (pool_in ?ab p + q)" "i128_ok (pool_out ?ab p - ms_remaining m)"
        "effective_price q (ms_remaining m) = Inr price"
      and fin: "(if lg_limit_price leg = 0 \<or> price \<le> lg_limit_price leg
        then record_pool_fill (pool_fill_result e trader leg price (ms_remaining m) q
               (lp_id (shifted ?ab q (ms_remaining m) p))) (?m1 w2)
        else Inr (?m1 w2)) = Inr m'"
      by (auto simp: pool_buy_def Let_def pool_in_def [symmetric] pool_out_def [symmetric]
          bindR_eq_Inr pool_shift_eq_Inr simp del: if_split)
    show ?thesis
    proof (cases "lg_limit_price leg = 0 \<or> price \<le> lg_limit_price leg")
      case True
      with fin have "m' = after_pool e trader leg ?ab p q (ms_remaining m) q price w2 m"
        by (auto simp: record_pool_fill_def res_simps after_pool_def Let_def pool_fill_result_def)
      with True Some oq q g show ?thesis by blast
    next
      case False
      with fin have "m' = ?m1 w2" by (simp only: if_False sum.inject)
      with assms(2,3) show ?thesis by simp
    qed
  qed
qed

lemma pool_sell_success:
  assumes "pool_sell T e trader leg m = Inr m'" and "0 < ms_remaining m" and "ms_remaining m' \<le> 0"
  shows "\<exists>p ab q w1 w2 price. get_pool_by_pair (test (ms_sys m)) (lg_base leg) (lg_quote leg) = Some p
    \<and> ab = (lp_asset_a p = lg_base leg)
    \<and> get_amount_out (ms_remaining m) (pool_in ab p) (pool_out ab p) (lp_fee_bps p) = Inr q
    \<and> te_transfer T e (tew (ms_sys m)) (lg_base leg) trader (self_addr e) (ms_remaining m) = Inr w1
    \<and> te_transfer T e w1 (lg_quote leg) (self_addr e) trader q = Inr w2
    \<and> i128_ok (pool_in ab p + ms_remaining m) \<and> i128_ok (pool_out ab p - q)
    \<and> effective_price q (ms_remaining m) = Inr price
    \<and> (lg_limit_price leg = 0 \<or> lg_limit_price leg \<le> price)
    \<and> m' = after_pool e trader leg ab p (ms_remaining m) q q price w2 m"
proof (cases "get_pool_by_pair (test (ms_sys m)) (lg_base leg) (lg_quote leg)")
  case None
  with assms show ?thesis by (simp add: pool_sell_def)
next
  case (Some p)
  let ?ab = "lp_asset_a p = lg_base leg"
  have live: "0 < pool_in ?ab p \<and> 0 < pool_out ?ab p"
    using assms Some by (auto simp: pool_sell_def Let_def pool_in_def pool_out_def split: if_splits)
  let ?m1 = "\<lambda>q w2. m\<lparr>ms_sys := \<lparr>test = save_pool (shifted ?ab (ms_remaining m) q p) (test (ms_sys m)), tew = w2\<rparr>\<rparr>"
  from assms(1) Some live obtain q w1 w2 price where
    g: "get_amount_out (ms_remaining m) (pool_in ?ab p) (pool_out ?ab p) (lp_fee_bps p) = Inr q"
      "te_transfer T e (tew (ms_sys m)) (lg_base leg) trader (self_addr e) (ms_remaining m) = Inr w1"
      "te_transfer T e w1 (lg_quote leg) (self_addr e) trader q = Inr w2"
      "i128_ok (pool_in ?ab p + ms_remaining m)" "i128_ok (pool_out ?ab p - q)"
      "effective_price q (ms_remaining m) = Inr price"
    and fin: "(if lg_limit_price leg = 0 \<or> lg_limit_price leg \<le> price
      then record_pool_fill (pool_fill_result e trader leg price (ms_remaining m) q
             (lp_id (shifted ?ab (ms_remaining m) q p))) (?m1 q w2)
      else Inr (?m1 q w2)) = Inr m'"
    by (auto simp: pool_sell_def Let_def pool_in_def [symmetric] pool_out_def [symmetric]
        bindR_eq_Inr pool_shift_eq_Inr simp del: if_split)
  show ?thesis
  proof (cases "lg_limit_price leg = 0 \<or> lg_limit_price leg \<le> price")
    case True
    with fin have "m' = after_pool e trader leg ?ab p (ms_remaining m) q q price w2 m"
      by (auto simp: record_pool_fill_def res_simps after_pool_def Let_def pool_fill_result_def)
    with True Some g show ?thesis by blast
  next
    case False
    with fin have "m' = ?m1 q w2" by (simp only: if_False sum.inject)
    with assms(2,3) show ?thesis by simp
  qed
qed

section \<open>A leg as one pass and at most one pool fill\<close>

definition opp :: "order_side \<Rightarrow> order_side" where
  "opp side = (case side of Buy \<Rightarrow> Sell | Sell \<Rightarrow> Buy)"

definition leg_in :: "trade_leg \<Rightarrow> address" where
  "leg_in leg = (case lg_side leg of Buy \<Rightarrow> lg_quote leg | Sell \<Rightarrow> lg_base leg)"

definition leg_out :: "trade_leg \<Rightarrow> address" where
  "leg_out leg = (case lg_side leg of Buy \<Rightarrow> lg_base leg | Sell \<Rightarrow> lg_quote leg)"

definition price_ok :: "trade_leg \<Rightarrow> nat \<Rightarrow> bool" where
  "price_ok leg price \<longleftrightarrow> lg_limit_price leg = 0 \<or>
     (case lg_side leg of Buy \<Rightarrow> price \<le> lg_limit_price leg | Sell \<Rightarrow> lg_limit_price leg \<le> price)"

definition pool_rate :: "trade_leg \<Rightarrow> int \<Rightarrow> liquidity_pool \<Rightarrow> bool \<Rightarrow> int \<Rightarrow> int \<Rightarrow> bool" where
  "pool_rate leg rem p ab x y \<longleftrightarrow>
     (case lg_side leg of
        Buy \<Rightarrow> y = rem \<and> pool_buy_quote rem (pool_in ab p) (pool_out ab p) (lp_fee_bps p) = Inr (Some x)
      | Sell \<Rightarrow> x = rem \<and> get_amount_out rem (pool_in ab p) (pool_out ab p) (lp_fee_bps p) = Inr y)"

definition leg_quote_of :: "trade_leg \<Rightarrow> int \<Rightarrow> int \<Rightarrow> int" where
  "leg_quote_of leg x y = (case lg_side leg of Buy \<Rightarrow> x | Sell \<Rightarrow> y)"

definition pool_leg :: "'w token_api \<Rightarrow> env \<Rightarrow> address \<Rightarrow> trade_leg \<Rightarrow> 'w match_state \<Rightarrow> 'w match_state \<Rightarrow> bool" where
  "pool_leg T e trader leg m m2 \<longleftrightarrow> (\<exists>p ab x y w1 w2 price.
     get_pool_by_pair (test (ms_sys m)) (lg_base leg) (lg_quote leg) = Some p
     \<and> ab = (lp_asset_a p = leg_in leg) \<and> pool_rate leg (ms_remaining m) p ab x y
     \<and> te_transfer T e (tew (ms_sys m)) (leg_in leg) trader (self_addr e) x = Inr w1
     \<and> te_transfer T e w1 (leg_out leg) (self_addr e) trader y = Inr w2
     \<and> i128_ok (pool_in ab p + x) \<and> i128_ok (pool_out ab p - y)
     \<and> effective_price (leg_quote_of leg x y) (ms_remaining m) = Inr price \<and> price_ok leg price
     \<and> m2 = after_pool e trader leg ab p x y (leg_quote_of leg x y) price w2 m)"

lemma i_div_eq_nonneg: "i_div a b = Inr q \<Longrightarrow> 0 \<le> a \<Longrightarrow> 0 < b \<Longrightarrow> i128_ok a \<Longrightarrow> q = a div b \<and> 0 \<le> q"
  by (auto simp: i_div_nonneg pos_imp_zdiv_nonneg_iff)

lemma pool_buy_quote_bounds:
  assumes "pool_buy_quote rem rin rout fee = Inr (Some q)" and "0 < rem"
  shows "0 < q \<and> 0 < rin \<and> rem \<le> rout"
proof -
  let ?num = "i_sat_mul (i_sat_mul rin rem) 10000"
  let ?den = "i_sat_mul (i_sat_sub rout rem) (i_sat_sub 10000 (int fee))"
  from assms(1) have g: "0 < rin" "rem \<le> rout"
    by (auto simp: pool_buy_quote_def split: if_splits)
  from assms(1) g obtain d where d: "(i_div ?num ?den :: (int, trade_error) res) = Inr d" "0 < ?den" "q = d + 1"
    by (auto simp: pool_buy_quote_def Let_def res_simps split: if_splits)
  have "0 \<le> ?num" "i128_ok ?num"
    using i_sat_mul_nonneg [of rin rem] i_sat_mul_nonneg [of "i_sat_mul rin rem" 10000] g(1) assms(2) by simp_all
  with i_div_eq_nonneg [OF d(1) _ d(2)] d(3) g show ?thesis by simp
qed

lemma get_amount_out_bounds:
  "get_amount_out x rin rout fee = Inr y \<Longrightarrow> 0 < x \<and> 0 < rin \<and> 0 < y \<and> y \<le> rout"
  by (auto simp: get_amount_out_def Let_def res_simps not_le)

lemma pool_rate_bounds:
  "pool_rate leg rem p ab x y \<Longrightarrow> 0 < rem \<Longrightarrow> 0 < x \<and> 0 < y \<and> y \<le> pool_out ab p"
  using pool_buy_quote_bounds get_amount_out_bounds
  by (fastforce simp: pool_rate_def split: order_side.splits)

lemma match_leg_success:
  assumes "match_leg T e trader leg st = Inr (fs, st')"
  shows "0 < lg_amount leg \<and> lg_base leg \<noteq> lg_quote leg \<and>
    (\<exists>m m2. match_run T e trader leg
          (side_queue (opp (lg_side leg)) (load_book (test st) (lg_base leg) (lg_quote leg))) (match_start st leg) m
       \<and> (let m1 = with_book (requeue (opp (lg_side leg)) (ms_updated m)
                (load_book (test st) (lg_base leg) (lg_quote leg))) m
          in if ms_remaining m \<le> 0 then m2 = m1 else pool_leg T e trader leg m1 m2)
       \<and> fs = ms_fills m2 \<and> st' = ms_sys m2
       \<and> (0 < lg_min_output leg \<longrightarrow>
            lg_min_output leg \<le> (case lg_side leg of Buy \<Rightarrow> ms_total_base m2 | Sell \<Rightarrow> ms_total_quote m2)))"
proof (cases "lg_side leg")
  case Buy
  let ?book = "load_book (test st) (lg_base leg) (lg_quote leg)"
  from assms Buy obtain m m2 where g: "0 < lg_amount leg" "lg_base leg \<noteq> lg_quote leg"
      "match_orders T e trader leg (bk_asks ?book) (match_start st leg) = Inr m"
      "(if 0 < ms_remaining m then pool_buy T e trader leg (with_book (?book\<lparr>bk_asks := ms_updated m\<rparr>) m)
        else Inr (with_book (?book\<lparr>bk_asks := ms_updated m\<rparr>) m)) = Inr m2"
      "ms_remaining m2 \<le> 0" "0 < lg_min_output leg \<longrightarrow> lg_min_output leg \<le> ms_total_base m2"
      "fs = ms_fills m2" "st' = ms_sys m2"
    by (auto simp: match_leg_def match_leg_buy_def Let_def res_simps simp del: if_split)
  let ?m1 = "with_book (?book\<lparr>bk_asks := ms_updated m\<rparr>) m"
  have "if ms_remaining m \<le> 0 then m2 = ?m1 else pool_leg T e trader leg ?m1 m2"
  proof (cases "ms_remaining m \<le> 0")
    case True
    with g(4) show ?thesis by simp
  next
    case False
    then have "0 < ms_remaining ?m1" by simp
    with g(4,5) False pool_buy_success [of T e trader leg ?m1 m2] Buy show ?thesis
      by (simp add: pool_leg_def pool_rate_def leg_in_def leg_out_def leg_quote_of_def price_ok_def)
  qed
  with g match_orders_run [OF g(3)] Buy show ?thesis
    by (intro conjI exI [of _ m] exI [of _ m2]) (simp_all add: opp_def Let_def)
next
  case Sell
  let ?book = "load_book (test st) (lg_base leg) (lg_quote leg)"
  from assms Sell obtain m m2 where g: "0 < lg_amount leg" "lg_base leg \<noteq> lg_quote leg"
      "match_orders T e trader leg (bk_bids ?book) (match_start st leg) = Inr m"
      "(if 0 < ms_remaining m then pool_sell T e trader leg (with_book (?book\<lparr>bk_bids := ms_updated m\<rparr>) m)
        else Inr (with_book (?book\<lparr>bk_bids := ms_updated m\<rparr>) m)) = Inr m2"
      "ms_remaining m2 \<le> 0" "0 < lg_min_output leg \<longrightarrow> lg_min_output leg \<le> ms_total_quote m2"
      "fs = ms_fills m2" "st' = ms_sys m2"
    by (auto simp: match_leg_def match_leg_sell_def Let_def res_simps simp del: if_split)
  let ?m1 = "with_book (?book\<lparr>bk_bids := ms_updated m\<rparr>) m"
  have "if ms_remaining m \<le> 0 then m2 = ?m1 else pool_leg T e trader leg ?m1 m2"
  proof (cases "ms_remaining m \<le> 0")
    case True
    with g(4) show ?thesis by simp
  next
    case False
    then have "0 < ms_remaining ?m1" by simp
    with g(4,5) False pool_sell_success [of T e trader leg ?m1 m2] Sell show ?thesis
      by (simp add: pool_leg_def pool_rate_def leg_in_def leg_out_def leg_quote_of_def price_ok_def)
  qed
  with g match_orders_run [OF g(3)] Sell show ?thesis
    by (intro conjI exI [of _ m] exI [of _ m2]) (simp_all add: opp_def Let_def)
qed

section \<open>Legs keep the structural invariant\<close>

lemma pools_okD:
  assumes "pools_ok s"
  shows "te_pools s k = Some p \<Longrightarrow> lp_id p = k \<and> pool_wf p \<and> k < pool_counter s"
    and "te_pair_pool s (a, b) = Some k \<Longrightarrow> \<exists>p. te_pools s k = Some p \<and> lp_asset_a p = a \<and> lp_asset_b p = b"
  using assms by (auto simp: pools_ok_def poolst.ids_below_def)

lemma get_pool_by_pair_ok:
  assumes "pools_ok s" and "get_pool_by_pair s b q = Some p"
  shows "te_pools s (lp_id p) = Some p \<and> pool_wf p \<and>
    (lp_asset_a p = b \<and> lp_asset_b p = q \<or> lp_asset_a p = q \<and> lp_asset_b p = b)"
  using assms pools_okD [OF assms(1)]
  by (fastforce simp: get_pool_by_pair_def get_pool_def split: option.splits)

lemma pools_ok_save:
  assumes ok: "pools_ok s" and old: "te_pools s (lp_id p) = Some p0"
    and same: "lp_asset_a p = lp_asset_a p0" "lp_asset_b p = lp_asset_b p0" and wf: "pool_wf p"
  shows "pools_ok (save_pool p s)"
proof -
  have "poolst.ids_below (save_pool p s)"
    by (rule poolst.ids_below_put) (use ok old in \<open>auto simp: pools_ok_def\<close>)
  moreover have "\<exists>p'. te_pools (save_pool p s) k = Some p' \<and> lp_asset_a p' = a \<and> lp_asset_b p' = b"
    if pr: "te_pair_pool (save_pool p s) (a, b) = Some k" for a b k
  proof (cases "k = lp_id p")
    case True
    with pr pools_okD(2) [OF ok, of a b k] old same show ?thesis
      by (auto split: if_splits)
  next
    case False
    with pr pools_okD(2) [OF ok, of a b k] show ?thesis by (auto split: if_splits)
  qed
  ultimately show ?thesis using ok wf by (simp add: pools_ok_def)
qed

lemma te_ok_pool_leg:
  assumes ok: "te_ok c (test (ms_sys m))" and leg: "pool_leg T e trader leg m m2" and pos: "0 < ms_remaining m"
  shows "te_ok c (test (ms_sys m2))"
proof -
  note d = te_okD [OF ok]
  from leg obtain p ab x y w2 price where p: "get_pool_by_pair (test (ms_sys m)) (lg_base leg) (lg_quote leg) = Some p"
    and rate: "pool_rate leg (ms_remaining m) p ab x y"
    and io: "i128_ok (pool_in ab p + x)" "i128_ok (pool_out ab p - y)"
    and m2: "m2 = after_pool e trader leg ab p x y (leg_quote_of leg x y) price w2 m"
    by (auto simp: pool_leg_def)
  note pk = get_pool_by_pair_ok [OF d(4) p] and xy = pool_rate_bounds [OF rate pos]
  have "pools_ok (save_pool (shifted ab x y p) (test (ms_sys m)))"
    by (rule pools_ok_save [OF d(4), of _ p]) (use pk xy io in \<open>auto intro: pool_wf_shifted\<close>)
  moreover have "books_ok (save_pool (shifted ab x y p) (test (ms_sys m)))"
    using d(3) by (simp add: books_ok_def book_ok_cong [of "save_pool (shifted ab x y p) (test (ms_sys m))"])
  ultimately have "te_ok c (save_pool (shifted ab x y p) (test (ms_sys m)))"
    using d(1,2) by (simp add: te_ok_def orders_all_def ordst.ids_below_def)
  then show ?thesis
    unfolding m2 after_pool_def Let_def
    by (subst te_ok_cong [of _ "save_pool (shifted ab x y p) (test (ms_sys m))"]) simp_all
qed

lemma opp_queue:
  assumes "te_ok c s"
  shows "side_queue_ok sd s (side_queue sd (load_book s b q))"
    and "i \<in> set (side_queue sd (load_book s b q)) \<Longrightarrow> queued s (get_pair_key b q) sd i"
  using load_book_ok [OF te_okD(3) [OF assms], of b q] by (auto simp: book_ok_def)

lemma te_ok_pass:
  assumes ok: "te_ok c (test st)" and start: "ms_sys m0 = st" "ms_updated m0 = []"
    and run: "match_run T e trader leg (side_queue sd (load_book (test st) b q)) m0 m"
  shows "te_ok c (test (ms_sys (with_book (requeue sd (ms_updated m) (load_book (test st) b q)) m)))"
    and "pass_ok (test st) (test (ms_sys m)) (side_queue sd (load_book (test st) b q))"
proof -
  let ?s = "test st" and ?xs = "side_queue sd (load_book (test st) b q)" and ?s' = "test (ms_sys m)"
  note d = te_okD [OF ok]
  have facts: "orders_all c ?s'" and pass: "pass_ok ?s ?s' ?xs"
    using match_run_facts [OF run] d(2) start by simp_all
  show "pass_ok (test st) (test (ms_sys m)) ?xs" by (rule pass)
  have dist: "distinct ?xs" by (rule side_queue_ok_distinct [OF opp_queue(1) [OF ok]])
  have act: "\<forall>i \<in> set ?xs. \<exists>r. te_orders ?s i = Some r \<and> od_active r"
    using opp_queue(2) [OF ok] by (fastforce simp: queued_def)
  obtain us where us: "ms_updated m = us" "subseq us ?xs"
      "\<forall>i \<in> set us. \<exists>r. te_orders ?s' i = Some r \<and> od_active r"
    using match_run_updated [OF run _ dist] act d(2) start by auto
  have terms: "\<exists>r'. te_orders ?s' i = Some r' \<and> order_terms r' = order_terms r"
    if "te_orders ?s i = Some r" for i r
    using pass_ok_order [OF pass that] by (auto simp: order_moves_def)
  have q: "queued ?s' (get_pair_key b q) sd i" if i: "i \<in> set us" for i
  proof -
    have ix: "i \<in> set ?xs" by (rule list_emb_set [OF us(2) i]) simp
    obtain r where "te_orders ?s i = Some r" "od_side r = sd" "order_key r = get_pair_key b q"
      using opp_queue(2) [OF ok ix] by (auto simp: queued_def)
    with terms [of i r] us(3) i show ?thesis
      by (fastforce simp: queued_def order_terms_def order_key_def)
  qed
  have "prio ?s' i = prio ?s i" if "i \<in> set ?xs" for i
    using act that terms prio_terms by metis
  then have "side_queue_ok sd ?s' ?xs"
    using side_queue_ok_cong [of ?xs ?s' ?s sd] opp_queue(1) [OF ok] by simp
  then have sq: "side_queue_ok sd ?s' us" by (rule side_queue_ok_subseq [OF us(2)])
  have own: "od_side r = sd \<and> order_key r = get_pair_key b q"
    if "te_orders ?s i = Some r" "te_orders ?s' i \<noteq> Some r" for i r
  proof -
    have "i \<in> set ?xs" using pass that by (auto simp: pass_ok_def)
    with opp_queue(2) [OF ok] that(1) show ?thesis by (fastforce simp: queued_def)
  qed
  have "books_ok (save_book (requeue sd us (load_book ?s b q)) ?s')"
    by (rule books_ok_requeue [OF d(3) _ terms own sq q]) (use pass in \<open>auto simp: pass_ok_def\<close>)
  moreover have "k < order_counter ?s'" if "te_orders ?s' k = Some r" for k r
  proof -
    have "k \<in> dom (te_orders ?s)" using pass that by (auto simp: pass_ok_def)
    with d(5) pass show ?thesis by (auto simp: pass_ok_def)
  qed
  ultimately show "te_ok c (test (ms_sys (with_book (requeue sd (ms_updated m) (load_book (test st) b q)) m)))"
    using d(1,4) facts pass us(1)
    by (auto simp: te_ok_def orders_all_def ordst.ids_below_def pools_ok_def poolst.ids_below_def pass_ok_def)
qed

lemma match_leg_te_ok:
  assumes ok: "te_ok c (test st)" and leg: "match_leg T e trader leg st = Inr (fs, st')"
  shows "te_ok c (test st')"
proof -
  let ?book = "load_book (test st) (lg_base leg) (lg_quote leg)" and ?sd = "opp (lg_side leg)"
  from match_leg_success [OF leg] obtain m m2 where
    run: "match_run T e trader leg (side_queue ?sd ?book) (match_start st leg) m"
    and m2: "if ms_remaining m \<le> 0 then m2 = with_book (requeue ?sd (ms_updated m) ?book) m
       else pool_leg T e trader leg (with_book (requeue ?sd (ms_updated m) ?book) m) m2"
    and st': "st' = ms_sys m2"
    by (auto simp: Let_def)
  have "te_ok c (test (ms_sys (with_book (requeue ?sd (ms_updated m) ?book) m)))"
    by (rule te_ok_pass(1) [OF ok _ _ run]) (simp_all add: match_start_def)
  then show ?thesis
    using m2 te_ok_pool_leg [of c "with_book (requeue ?sd (ms_updated m) ?book) m"]
    by (cases "ms_remaining m \<le> 0") (auto simp: st')
qed

text \<open>Facts that every leg keeps are kept by a whole trade.\<close>

lemma run_legs_invariant:
  assumes "run_legs T e trader legs n fs st = Inr (n', fs', st')" and "Q st"
    and "\<And>leg st fs st'. leg \<in> set legs \<Longrightarrow> Q st \<Longrightarrow> match_leg T e trader leg st = Inr (fs, st') \<Longrightarrow> Q st'"
  shows "Q st'"
  using assms
proof (induction legs arbitrary: n fs st)
  case (Cons leg legs)
  from Cons.prems(1) obtain f1 st1 where "match_leg T e trader leg st = Inr (f1, st1)"
      "run_legs T e trader legs (n + 1) (fs @ f1) st1 = Inr (n', fs', st')"
    by (auto simp: res_simps)
  with Cons show ?case by (metis list.set_intros)
qed simp

lemma execute_iff:
  "execute_multi_pair_trade T e st x legs = Inr (res, st') \<longleftrightarrow>
    authorized e x \<and> legs \<noteq> [] \<and> (\<exists>n fs st1. run_legs T e x legs 0 [] st = Inr (n, fs, st1)
      \<and> res = \<lparr>xr_success = True, xr_legs_executed = n, xr_fills = fs\<rparr>
      \<and> st' = st1\<lparr>test := emit_trade_executed x n (length fs) (test st1)\<rparr>)"
  by (auto simp: execute_multi_pair_trade_def engine_multi_pair_trade_def res_simps)

lemma te_ok_event: "te_ok c (te_publish ev s) = te_ok c s"
  by (rule te_ok_cong) simp_all

lemma execute_te_ok:
  assumes "te_ok c (test st)" and "execute_multi_pair_trade T e st x legs = Inr (res, st')"
  shows "te_ok c (test st')"
proof -
  from assms(2) obtain n fs st1 where r: "run_legs T e x legs 0 [] st = Inr (n, fs, st1)"
    and st': "st' = st1\<lparr>test := emit_trade_executed x n (length fs) (test st1)\<rparr>"
    by (auto simp: execute_iff)
  have "te_ok c (test st1)"
    by (rule run_legs_invariant [OF r, of "\<lambda>st. te_ok c (test st)"]) (use assms match_leg_te_ok in auto)
  then show ?thesis by (simp add: st' emit_trade_executed_def te_ok_event)
qed

section \<open>Pools and administration\<close>

lemma add_liquidity_pool_iff:
  "add_liquidity_pool T e st x a b ra rb fee = Inr (k, st') \<longleftrightarrow>
    authorized e x \<and> 0 < ra \<and> 0 < rb \<and> a \<noteq> b \<and> te_admin (test st) = Some x \<and>
    (\<exists>w1 w2 s1. te_transfer T e (tew st) a x (self_addr e) ra = Inr w1
       \<and> te_transfer T e w1 b x (self_addr e) rb = Inr w2
       \<and> get_next_pool_id (test st) = Inr (k, s1)
       \<and> st' = \<lparr>test = emit_pool_added k a b (save_pool \<lparr>lp_id = k, lp_asset_a = a, lp_asset_b = b,
            lp_reserve_a = ra, lp_reserve_b = rb, lp_fee_bps = fee\<rparr> s1), tew = w2\<rparr>)"
  by (auto simp: add_liquidity_pool_def bindR_eq_Inr ensure_eq_Inr require_auth_eq_Inr ok_or_eq_Inr
      Let_def not_le)

lemma add_liquidity_pool_te_ok:
  assumes ok: "te_ok c (test st)" and typed: "i128_ok ra" "i128_ok rb"
    and step: "add_liquidity_pool T e st x a b ra rb fee = Inr (k, st')"
  shows "te_ok c (test st')"
proof -
  let ?p = "\<lparr>lp_id = k, lp_asset_a = a, lp_asset_b = b, lp_reserve_a = ra, lp_reserve_b = rb, lp_fee_bps = fee\<rparr>"
  note d = te_okD [OF ok]
  from step obtain s1 where g: "0 < ra" "0 < rb" "a \<noteq> b" and al: "get_next_pool_id (test st) = Inr (k, s1)"
    and st': "test st' = emit_pool_added k a b (save_pool ?p s1)"
    by (auto simp: add_liquidity_pool_iff)
  have ib: "poolst.ids_below (test st)" using d(4) by (simp add: pools_ok_def)
  have fresh: "te_pools (test st) k = None" by (rule poolst.alloc_fresh [OF ib al])
  have s1: "te_orders s1 = te_orders (test st)" "te_books s1 = te_books (test st)"
      "te_pools s1 = te_pools (test st)" "te_pair_pool s1 = te_pair_pool (test st)"
      "order_counter s1 = order_counter (test st)"
    using al by (auto simp: res_simps order_counter_def)
  have "poolst.ids_below (save_pool ?p s1)" by (rule poolst.ids_below_alloc_put [OF ib al]) simp
  moreover have "pool_wf ?p" using g typed by (simp add: pool_wf_def)
  moreover have "\<exists>p'. te_pools (save_pool ?p s1) k' = Some p' \<and> lp_asset_a p' = a' \<and> lp_asset_b p' = b'"
    if "te_pair_pool (save_pool ?p s1) (a', b') = Some k'" for a' b' k'
    using that pools_okD(2) [OF d(4), of a' b' k'] fresh by (auto simp: s1 split: if_splits)
  ultimately have "pools_ok (save_pool ?p s1)" using d(4) by (simp add: pools_ok_def s1)
  moreover have "books_ok (save_pool ?p s1)"
    using d(3) by (simp add: books_ok_def s1 book_ok_cong [of "save_pool ?p s1" "test st"])
  ultimately have "te_ok c (save_pool ?p s1)"
    using d(1,2) by (simp add: te_ok_def orders_all_def ordst.ids_below_def s1)
  then show ?thesis by (simp add: st' emit_pool_added_def te_ok_event)
qed

lemma te_initialize_iff:
  "te_initialize e st x = Inr st' \<longleftrightarrow> authorized e x \<and> te_admin (test st) = None
     \<and> st' = st\<lparr>test := (test st)\<lparr>te_admin := Some x\<rparr>\<rparr>"
  by (auto simp: te_initialize_def res_simps)

section \<open>The invariant of every reachable state\<close>

lemma trade_exec_te_ok:
  assumes ok: "te_ok c (test st)" and typed: "typed_call k" and self: "\<not> authorized e c"
    and step: "trade_exec T e st k = Inr st'"
  shows "te_ok c (test st')"
proof (cases k)
  case (EngineInit x)
  with step have "test st' = (test st)\<lparr>te_admin := Some x\<rparr>" by (auto simp: te_initialize_iff)
  moreover have "te_ok c ((test st)\<lparr>te_admin := Some x\<rparr>) = te_ok c (test st)"
    by (rule te_ok_cong) (simp_all add: order_counter_def pool_counter_def)
  ultimately show ?thesis using ok by simp
next
  case (PlaceOrder x b q sd ty p n ex)
  with step typed show ?thesis
    by (auto simp: res_simps intro: place_order_te_ok [OF ok _ self])
next
  case (CancelOrder x i)
  with step show ?thesis by (auto intro: cancel_order_te_ok [OF ok])
next
  case (ExecuteTrade x legs)
  with step show ?thesis by (auto simp: res_simps intro: execute_te_ok [OF ok])
next
  case (AddPool x a b ra rb fee)
  with step typed show ?thesis
    by (auto simp: res_simps intro: add_liquidity_pool_te_ok [OF ok])
qed

lemma trade_storage0_ok: "te_ok c trade_storage0"
  by (simp add: te_ok_def trade_storage0_def ordst.ids_below_def orders_all_def books_ok_def
      pools_ok_def poolst.ids_below_def)

text \<open>The structural invariant needs no assumption on the tokens.\<close>

interpretation trade_machine: machine_invariant "trade_deployed T c" "trade_step P T c"
    "\<lambda>st. (\<forall>k. P k \<longrightarrow> typed_call k) \<longrightarrow> te_ok c (test st)"
  for P and T :: "'w token_api" and c
proof unfold_locales
  fix st :: "'w trade_sys"
  assume "trade_deployed T c st"
  then show "(\<forall>k. P k \<longrightarrow> typed_call k) \<longrightarrow> te_ok c (test st)"
    by (simp add: trade_deployed_def trade_storage0_ok)
next
  fix s t :: "'w trade_sys"
  assume inv: "(\<forall>k. P k \<longrightarrow> typed_call k) \<longrightarrow> te_ok c (test s)" and "trade_step P T c s t"
  from this(2) show "(\<forall>k. P k \<longrightarrow> typed_call k) \<longrightarrow> te_ok c (test t)"
  proof cases
    case (trade_step_call e k)
    with inv show ?thesis using trade_exec_te_ok by blast
  next
    case (trade_step_world w)
    with inv show ?thesis by simp
  qed
qed

end
