(* ===== verification/Trade_Engine_Solvency.thy ===== *)
theory Trade_Engine_Solvency
  imports Trade_Engine_Legs
begin

text \<open>
  What the engine owes to open orders and to pools, and how each operation moves it against the
  engine's balances. Solvency holds for callers that name every pair in one orientation and whose
  orders do not saturate the quote computation; the next theory shows that both are needed.
\<close>

section \<open>What the engine owes\<close>

definition order_locked :: "address \<Rightarrow> order \<Rightarrow> int" where
  "order_locked a r =
     (if od_active r then
        (case od_side r of
           Sell \<Rightarrow> if od_base r = a then unfilled r else 0
         | Buy \<Rightarrow> if od_quote r = a then quote_amount (unfilled r) (od_price r) else 0)
      else 0)"

definition pool_locked :: "address \<Rightarrow> liquidity_pool \<Rightarrow> int" where
  "pool_locked a p = (if lp_asset_a p = a then lp_reserve_a p else 0)
     + (if lp_asset_b p = a then lp_reserve_b p else 0)"

definition orders_owed :: "trade_storage \<Rightarrow> address \<Rightarrow> int" where
  "orders_owed s a = map_total (order_locked a) (te_orders s)"

definition pools_owed :: "trade_storage \<Rightarrow> address \<Rightarrow> int" where
  "pools_owed s a = map_total (pool_locked a) (te_pools s)"

definition te_owed :: "trade_storage \<Rightarrow> address \<Rightarrow> int" where
  "te_owed s a = orders_owed s a + pools_owed s a"

text \<open>
  Aligned calls: every pair is named in one orientation (base before quote), and the quote of an
  order does not saturate.
\<close>

fun aligned_call :: "trade_call \<Rightarrow> bool" where
  "aligned_call (PlaceOrder x b q sd ty p n ex) \<longleftrightarrow>
     typed_call (PlaceOrder x b q sd ty p n ex) \<and> b < q \<and> nat n * p < 2 ^ 128"
| "aligned_call (ExecuteTrade x legs) \<longleftrightarrow>
     typed_call (ExecuteTrade x legs) \<and> (\<forall>leg \<in> set legs. lg_base leg < lg_quote leg)"
| "aligned_call k \<longleftrightarrow> typed_call k"

lemma aligned_typed: "aligned_call k \<Longrightarrow> typed_call k"
  by (cases k) simp_all

definition order_aligned :: "order \<Rightarrow> bool" where
  "order_aligned r \<longleftrightarrow> od_base r < od_quote r \<and> nat (od_amount r) * od_price r < 2 ^ 128"

definition orders_aligned :: "trade_storage \<Rightarrow> bool" where
  "orders_aligned s \<longleftrightarrow> (\<forall>k r. te_orders s k = Some r \<longrightarrow> order_aligned r)"

lemma order_aligned_terms: "order_terms r' = order_terms r \<Longrightarrow> order_aligned r' = order_aligned r"
  by (simp add: order_aligned_def order_terms_def)

lemma get_pair_key_aligned: "a < b \<Longrightarrow> get_pair_key a b = (a, b)"
  by (simp add: get_pair_key_def)

section \<open>One fill\<close>

lemma quote_amount_0 [simp]: "quote_amount 0 p = 0"
  by (simp add: quote_amount_nat i128_ok_def I128_MIN_def I128_MAX_def u_sat_mul_def)

text \<open>A fill releases at most what it frees of the order's escrow.\<close>

lemma filled_up_locked:
  assumes wf: "order_wf c r" and act: "od_active r" and f: "0 < f" "f \<le> unfilled r"
    and al: "order_aligned r"
  shows "order_locked a (filled_up r f) \<le> order_locked a r -
    (case od_side r of Sell \<Rightarrow> if od_base r = a then f else 0
     | Buy \<Rightarrow> if od_quote r = a then quote_amount f (od_price r) else 0)"
proof -
  have act': "od_active (filled_up r f) \<longleftrightarrow> f < unfilled r"
    using f by (auto simp: filled_up_def od_active_def unfilled_def)
  have u: "unfilled r \<le> od_amount r" "i128_ok (unfilled r)"
    using wf i128_between [of "unfilled r" "od_amount r"] by (auto simp: order_wf_def unfilled_def)
  have "nat (unfilled r) * od_price r \<le> nat (od_amount r) * od_price r"
    using u(1) by (intro mult_right_mono) auto
  then have "nat (unfilled r) * od_price r < 2 ^ 128"
    using al unfolding order_aligned_def by linarith
  from quote_amount_split [of f "unfilled r" "od_price r"] this f u(2)
  have split: "quote_amount f (od_price r) + quote_amount (unfilled r - f) (od_price r)
      \<le> quote_amount (unfilled r) (od_price r)" by simp
  show ?thesis
  proof (cases "f = unfilled r")
    case True
    then show ?thesis using act act' by (simp add: order_locked_def split: order_side.split)
  next
    case False
    then show ?thesis
      using act act' f split by (auto simp: order_locked_def split: order_side.split)
  qed
qed

text \<open>The balance of the engine after the two settlement transfers.\<close>

lemma settle_fill_bal:
  assumes laws: "token_laws T" and ok: "settle_fill T e trader leg r f q w = Inr w'"
    and ne: "trader \<noteq> self_addr e" "od_owner r \<noteq> self_addr e" and pos: "0 \<le> f" "0 \<le> q"
  shows "bal T w' a (self_addr e) = bal T w a (self_addr e) -
    (case lg_side leg of Buy \<Rightarrow> if lg_base leg = a then f else 0
     | Sell \<Rightarrow> if lg_quote leg = a then q else 0)"
  using ok ne pos
  by (cases "lg_side leg")
    (auto simp: settle_fill_def bindR_eq_Inr dest!: te_transfer_moved [OF laws] simp: moved_bal)

section \<open>A pass over a queue\<close>

lemma orders_owed_upd:
  assumes "finite (dom (te_orders s))" and "te_orders s i = Some r" and "te_orders s' = (te_orders s)(i \<mapsto> r')"
  shows "orders_owed s' a = orders_owed s a - order_locked a r + order_locked a r'"
  using assms by (simp add: orders_owed_def map_total_upd)

lemma match_run_owed:
  assumes laws: "token_laws T" and trader: "trader \<noteq> self_addr e" and leg: "lg_base leg < lg_quote leg"
    and run: "match_run T e trader leg is m m'"
    and all: "orders_all (self_addr e) (test (ms_sys m))" "orders_aligned (test (ms_sys m))"
      "finite (dom (te_orders (test (ms_sys m))))"
    and q: "\<forall>i \<in> set is. \<forall>r. te_orders (test (ms_sys m)) i = Some r \<longrightarrow>
      od_side r = opp (lg_side leg) \<and> order_key r = get_pair_key (lg_base leg) (lg_quote leg)"
  shows "orders_owed (test (ms_sys m')) a - orders_owed (test (ms_sys m)) a
    \<le> bal T (tew (ms_sys m')) a (self_addr e) - bal T (tew (ms_sys m)) a (self_addr e)"
  using run all q
proof (induction rule: match_run.induct)
  case (run_fill m i r m1 "is" m')
  have i: "od_id r = i" "order_wf (self_addr e) r" and al: "order_aligned r"
    using run_fill.hyps(2) run_fill.prems by (auto simp: orders_all_def orders_aligned_def)
  let ?f = "leg_fill r m" and ?q = "quote_amount (leg_fill r m) (od_price r)"
  obtain w1 where m1: "m1 = after_fill trader leg r w1 m"
    and tx: "settle_fill T e trader leg r ?f ?q (tew (ms_sys m)) = Inr w1"
    using fill_order_success [OF i(2) run_fill.hyps(3,1,6)] by blast
  note f = leg_fill_pos [OF i(2) run_fill.hyps(3,1)]
  have o1: "te_orders (test (ms_sys m1)) = (te_orders (test (ms_sys m)))(i \<mapsto> filled_up r ?f)"
    and w: "tew (ms_sys m1) = w1"
    by (simp_all add: m1 after_fill_def Let_def i(1))
  have pre: "od_side r = opp (lg_side leg)" "order_key r = get_pair_key (lg_base leg) (lg_quote leg)"
    using run_fill.prems(4) run_fill.hyps(2) by auto
  have as: "od_base r = lg_base leg" "od_quote r = lg_quote leg"
    using pre(2) al leg by (simp_all add: order_key_def order_aligned_def get_pair_key_aligned)
  have "i128_ok (unfilled r)"
    using i(2) i128_between [of "unfilled r" "od_amount r"] by (simp add: order_wf_def unfilled_def)
  then have "i128_ok ?f" using i128_between [of ?f "unfilled r"] f by simp
  then have "0 \<le> ?q" using quote_amount_nonneg f by simp
  moreover have "od_owner r \<noteq> self_addr e" using i(2) by (simp add: order_wf_def)
  ultimately have b: "bal T w1 a (self_addr e) = bal T (tew (ms_sys m)) a (self_addr e) -
      (case lg_side leg of Buy \<Rightarrow> if lg_base leg = a then ?f else 0
       | Sell \<Rightarrow> if lg_quote leg = a then ?q else 0)"
    using settle_fill_bal [OF laws tx trader] f by simp
  have "order_locked a (filled_up r ?f) \<le> order_locked a r -
      (case lg_side leg of Buy \<Rightarrow> if lg_base leg = a then ?f else 0
       | Sell \<Rightarrow> if lg_quote leg = a then ?q else 0)"
    using filled_up_locked [OF i(2) run_fill.hyps(3) _ _ al, of ?f a] f pre(1) as
    by (cases "lg_side leg") (simp_all add: opp_def)
  then have step: "orders_owed (test (ms_sys m1)) a - orders_owed (test (ms_sys m)) a
      \<le> bal T (tew (ms_sys m1)) a (self_addr e) - bal T (tew (ms_sys m)) a (self_addr e)"
    using orders_owed_upd [OF run_fill.prems(3) run_fill.hyps(2) o1, of a] b unfolding w by linarith
  have all1: "orders_all (self_addr e) (test (ms_sys m1))"
    unfolding m1 by (rule after_fill_all [OF run_fill.prems(1) run_fill.hyps(2,3,1)])
  have al1: "orders_aligned (test (ms_sys m1))"
    using run_fill.prems(2) al order_aligned_terms [of "filled_up r ?f" r]
    by (simp add: orders_aligned_def o1)
  have q1: "\<forall>j \<in> set is. \<forall>r. te_orders (test (ms_sys m1)) j = Some r \<longrightarrow>
      od_side r = opp (lg_side leg) \<and> order_key r = get_pair_key (lg_base leg) (lg_quote leg)"
    using run_fill.prems(4) pre by (auto simp: o1 order_key_def)
  have "finite (dom (te_orders (test (ms_sys m1))))" using run_fill.prems(3) by (simp add: o1)
  from run_fill.IH [OF all1 al1 this q1] step show ?case by linarith
qed auto

section \<open>Pool fills\<close>

lemma pool_locked_shifted:
  assumes "pool_wf p" and "ab \<longleftrightarrow> lp_asset_a p = ia"
    and "lp_asset_a p = ia \<and> lp_asset_b p = oa \<or> lp_asset_a p = oa \<and> lp_asset_b p = ia"
  shows "pool_locked a (shifted ab x y p) = pool_locked a p + (if a = ia then x else 0) - (if a = oa then y else 0)"
  using assms by (auto simp: pool_locked_def shifted_def pool_wf_def)

lemma pool_leg_owed:
  assumes laws: "token_laws T" and ok: "te_ok c (test (ms_sys m))" and leg: "pool_leg T e trader leg m m2"
    and pos: "0 < ms_remaining m" and self: "self_addr e = c" "trader \<noteq> c" and ne: "lg_base leg \<noteq> lg_quote leg"
  shows "te_owed (test (ms_sys m2)) a - te_owed (test (ms_sys m)) a
    = bal T (tew (ms_sys m2)) a c - bal T (tew (ms_sys m)) a c"
    and "te_orders (test (ms_sys m2)) = te_orders (test (ms_sys m))"
proof -
  note d = te_okD [OF ok]
  from leg obtain p ab x y w1 w2 price where p: "get_pool_by_pair (test (ms_sys m)) (lg_base leg) (lg_quote leg) = Some p"
    and ab: "ab = (lp_asset_a p = leg_in leg)" and rate: "pool_rate leg (ms_remaining m) p ab x y"
    and t1: "te_transfer T e (tew (ms_sys m)) (leg_in leg) trader (self_addr e) x = Inr w1"
    and t2: "te_transfer T e w1 (leg_out leg) (self_addr e) trader y = Inr w2"
    and m2: "m2 = after_pool e trader leg ab p x y (leg_quote_of leg x y) price w2 m"
    unfolding pool_leg_def by blast
  note pk = get_pool_by_pair_ok [OF d(4) p] and xy = pool_rate_bounds [OF rate pos]
  have io: "lp_asset_a p = leg_in leg \<and> lp_asset_b p = leg_out leg \<or>
      lp_asset_a p = leg_out leg \<and> lp_asset_b p = leg_in leg"
    using pk by (auto simp: leg_in_def leg_out_def split: order_side.split)
  have fin: "finite (dom (te_pools (test (ms_sys m))))"
    using d(4) by (simp add: pools_ok_def poolst.ids_below_def)
  have "pools_owed (test (ms_sys m2)) a = pools_owed (test (ms_sys m)) a - pool_locked a p
      + pool_locked a (shifted ab x y p)"
    using fin pk by (simp add: m2 after_pool_def Let_def pools_owed_def map_total_upd)
  moreover have "orders_owed (test (ms_sys m2)) a = orders_owed (test (ms_sys m)) a"
    by (simp add: m2 after_pool_def Let_def orders_owed_def)
  moreover have "bal T w2 a c = bal T (tew (ms_sys m)) a c + (if a = leg_in leg then x else 0)
      - (if a = leg_out leg then y else 0)"
    using te_transfer_moved [OF laws t1] te_transfer_moved [OF laws t2] xy self
    by (simp add: moved_bal)
  ultimately show "te_owed (test (ms_sys m2)) a - te_owed (test (ms_sys m)) a
      = bal T (tew (ms_sys m2)) a c - bal T (tew (ms_sys m)) a c"
    using pool_locked_shifted [OF _ ab io, of a x y] pk
    by (simp add: te_owed_def m2 after_pool_def Let_def)
  show "te_orders (test (ms_sys m2)) = te_orders (test (ms_sys m))"
    by (simp add: m2 after_pool_def Let_def)
qed

section \<open>Every aligned call keeps the engine solvent\<close>

definition te_inv :: "'w token_api \<Rightarrow> address \<Rightarrow> 'w trade_sys \<Rightarrow> bool" where
  "te_inv T c st \<longleftrightarrow> te_ok c (test st) \<and> orders_aligned (test st)
     \<and> (\<forall>a. te_owed (test st) a \<le> bal T (tew st) a c)"

lemma te_inv_move:
  assumes "te_inv T c st" and "te_ok c (test st')" and "orders_aligned (test st')"
    and "\<And>a. te_owed (test st') a - te_owed (test st) a \<le> bal T (tew st') a c - bal T (tew st) a c"
  shows "te_inv T c st'"
proof -
  have "te_owed (test st') a \<le> bal T (tew st') a c" for a
  proof -
    have "te_owed (test st) a \<le> bal T (tew st) a c" using assms(1) by (simp add: te_inv_def)
    with assms(4) [of a] show ?thesis by linarith
  qed
  with assms(2,3) show ?thesis by (simp add: te_inv_def)
qed

lemma te_inv_fin:
  assumes "te_inv T c st"
  shows "finite (dom (te_orders (test st)))" "finite (dom (te_pools (test st)))"
  using assms by (simp_all add: te_inv_def te_ok_def pools_ok_def ordst.ids_below_def poolst.ids_below_def)

lemma match_leg_inv:
  assumes laws: "token_laws T" and inv: "te_inv T c st" and self: "self_addr e = c" "trader \<noteq> c"
    and al: "lg_base leg < lg_quote leg" and leg: "match_leg T e trader leg st = Inr (fs, st')"
  shows "te_inv T c st'"
proof -
  let ?book = "load_book (test st) (lg_base leg) (lg_quote leg)" and ?sd = "opp (lg_side leg)"
  have ok: "te_ok c (test st)" using inv by (simp add: te_inv_def)
  from match_leg_success [OF leg] obtain m m2 where ne: "lg_base leg \<noteq> lg_quote leg"
    and run: "match_run T e trader leg (side_queue ?sd ?book) (match_start st leg) m"
    and m2: "if ms_remaining m \<le> 0 then m2 = with_book (requeue ?sd (ms_updated m) ?book) m
       else pool_leg T e trader leg (with_book (requeue ?sd (ms_updated m) ?book) m) m2"
    and st': "st' = ms_sys m2"
    by (auto simp: Let_def)
  let ?m1 = "with_book (requeue ?sd (ms_updated m) ?book) m"
  have start: "ms_sys (match_start st leg) = st" by (simp add: match_start_def)
  have ok1: "te_ok c (test (ms_sys ?m1))"
    and pass: "pass_ok (test st) (test (ms_sys m)) (side_queue ?sd ?book)"
    using te_ok_pass [OF ok start _ run] by (simp_all add: match_start_def)
  have q: "\<forall>i \<in> set (side_queue ?sd ?book). \<forall>r. te_orders (test st) i = Some r \<longrightarrow>
      od_side r = ?sd \<and> order_key r = get_pair_key (lg_base leg) (lg_quote leg)"
    using opp_queue(2) [OF ok] by (fastforce simp: queued_def)
  have step1: "orders_owed (test (ms_sys m)) a - orders_owed (test st) a
      \<le> bal T (tew (ms_sys m)) a c - bal T (tew st) a c" for a
    using match_run_owed [OF laws _ al run, of a] self ok inv q te_inv_fin [OF inv]
    by (simp add: start te_inv_def te_ok_def)
  have "pools_owed (test (ms_sys m)) a = pools_owed (test st) a" for a
    using pass by (simp add: pass_ok_def pools_owed_def)
  with step1 have step: "te_owed (test (ms_sys ?m1)) a - te_owed (test st) a
      \<le> bal T (tew (ms_sys ?m1)) a c - bal T (tew st) a c" for a
    by (simp add: te_owed_def orders_owed_def pools_owed_def)
  have al1: "orders_aligned (test (ms_sys ?m1))"
    unfolding orders_aligned_def
  proof (intro allI impI)
    fix k r' assume r': "te_orders (test (ms_sys ?m1)) k = Some r'"
    then have "k \<in> dom (te_orders (test st))" using pass by (auto simp: pass_ok_def)
    then obtain r where r: "te_orders (test st) k = Some r" by auto
    have terms: "order_terms r' = order_terms r"
      using pass_ok_order [OF pass r] r' by (auto simp: order_moves_def)
    have "order_aligned r" using r inv by (simp add: te_inv_def orders_aligned_def)
    then show "order_aligned r'" by (simp only: order_aligned_terms [OF terms])
  qed
  have inv1: "te_inv T c (ms_sys ?m1)"
    by (rule te_inv_move [OF inv ok1 al1 step])
  show ?thesis
  proof (cases "ms_remaining m \<le> 0")
    case True
    with m2 inv1 show ?thesis by (simp add: st')
  next
    case False
    then have pl: "pool_leg T e trader leg ?m1 m2" and pos: "0 < ms_remaining ?m1" using m2 by simp_all
    note po = pool_leg_owed [OF laws ok1 pl pos self ne]
    show ?thesis
      unfolding st'
      by (rule te_inv_move [OF inv1 te_ok_pool_leg [OF ok1 pl pos]])
        (use po al1 in \<open>simp_all add: orders_aligned_def\<close>)
  qed
qed

lemma te_inv_event: "te_inv T c (st\<lparr>test := te_publish ev (test st)\<rparr>) = te_inv T c st"
  by (simp add: te_inv_def te_ok_event orders_aligned_def te_owed_def orders_owed_def pools_owed_def)

lemma execute_inv:
  assumes laws: "token_laws T" and inv: "te_inv T c st" and self: "self_addr e = c" "\<not> authorized e c"
    and al: "\<forall>leg \<in> set legs. lg_base leg < lg_quote leg"
    and ok: "execute_multi_pair_trade T e st x legs = Inr (rs, st')"
  shows "te_inv T c st'"
proof -
  from ok obtain n fs st1 where r: "run_legs T e x legs 0 [] st = Inr (n, fs, st1)" and x: "authorized e x"
    and st': "st' = st1\<lparr>test := emit_trade_executed x n (length fs) (test st1)\<rparr>"
    by (auto simp: execute_iff)
  have "x \<noteq> c" using x self(2) by blast
  have "te_inv T c st1"
    by (rule run_legs_invariant [OF r, of "te_inv T c"])
      (use inv al in \<open>blast intro: match_leg_inv [OF laws _ self(1) \<open>x \<noteq> c\<close>]\<close>)+
  then show ?thesis by (simp add: st' emit_trade_executed_def te_inv_event)
qed

lemma place_order_inv:
  assumes laws: "token_laws T" and inv: "te_inv T c st" and self: "self_addr e = c" "\<not> authorized e c"
    and al: "i128_ok n" "b < q" "nat n * price < 2 ^ 128"
    and step: "place_order T e st x b q side typ price n ex = Inr (k, st')"
  shows "te_inv T c st'"
proof -
  let ?r = "new_order k x b q side typ price n (now e) ex"
  have ok: "te_ok c (test st)" using inv by (simp add: te_inv_def)
  from step obtain w1 s1 where g: "authorized e x" "0 < n"
    and pay: "place_pay T e (tew st) x b q side price n w1"
    and alc: "get_next_order_id (test st) = Inr (k, s1)"
    and st': "st' = \<lparr>test = emit_order_placed ?r (add_order ?r (add_user_order x k (save_order ?r s1))), tew = w1\<rparr>"
    by (auto simp: place_order_iff Let_def)
  have x: "x \<noteq> c" using g(1) self(2) by blast
  have fresh: "te_orders (test st) k = None"
    by (rule ordst.alloc_fresh [OF te_okD(1) [OF ok] alc])
  have s1: "te_orders s1 = te_orders (test st)" "te_pools s1 = te_pools (test st)"
    using alc by (auto simp: res_simps)
  have eq: "te_orders (test st') = (te_orders (test st))(k \<mapsto> ?r)" "te_pools (test st') = te_pools (test st)"
    by (simp_all add: st' s1 emit_order_placed_def add_order_eq)
  have q0: "0 \<le> quote_amount n price" using quote_amount_nonneg g(2) al(1) by simp
  have "te_owed (test st') a - te_owed (test st) a = order_locked a ?r" for a
    using te_inv_fin [OF inv] fresh by (simp add: te_owed_def orders_owed_def pools_owed_def eq map_total_upd)
  moreover have "bal T w1 a c - bal T (tew st) a c = order_locked a ?r" for a
    using pay g(2) q0 x self(1)
    by (auto simp: place_pay_def order_locked_def od_active_def moved_bal split: order_side.splits
        dest!: te_transfer_moved [OF laws])
  moreover have "orders_aligned (test st')"
    using inv al(2,3) by (simp add: te_inv_def orders_aligned_def order_aligned_def eq)
  ultimately show ?thesis
    by (intro te_inv_move [OF inv place_order_te_ok [OF ok al(1) self(2) step]]) (simp_all add: st')
qed

lemma cancel_order_inv:
  assumes laws: "token_laws T" and inv: "te_inv T c st" and self: "self_addr e = c" "\<not> authorized e c"
    and step: "cancel_order T e st x i = Inr st'"
  shows "te_inv T c st'"
proof -
  have ok: "te_ok c (test st)" using inv by (simp add: te_inv_def)
  note d = te_okD [OF ok]
  from step obtain r w1 where g: "authorized e x" "te_orders (test st) i = Some r" "od_owner r = x" "od_active r"
    and pay: "cancel_pay T e (tew st) r w1"
    and st': "st' = \<lparr>test = emit_order_cancelled i x (remove_order_id (od_base r) (od_quote r) (od_side r) i
            (save_order (r\<lparr>od_status := Cancelled\<rparr>) (test st))), tew = w1\<rparr>"
    by (auto simp: cancel_order_iff [OF d(2)])
  let ?r = "r\<lparr>od_status := Cancelled\<rparr>"
  have x: "x \<noteq> c" using g(1) self(2) by blast
  have i: "od_id r = i" "order_wf c r" using d(5) [OF g(2)] by auto
  have eq: "te_orders (test st') = (te_orders (test st))(i \<mapsto> ?r)" "te_pools (test st') = te_pools (test st)"
    by (simp_all add: st' i(1) emit_order_cancelled_def remove_order_id_eq)
  have u: "0 < unfilled r" by (rule order_wf_active [OF i(2) g(4)])
  have "i128_ok (unfilled r)"
    using i(2) u i128_between [of "unfilled r" "od_amount r"] by (simp add: order_wf_def unfilled_def)
  then have q0: "0 \<le> quote_amount (unfilled r) (od_price r)" using quote_amount_nonneg u by simp
  have "te_owed (test st') a - te_owed (test st) a = - order_locked a r" for a
    using te_inv_fin [OF inv] g(2)
    by (simp add: te_owed_def orders_owed_def pools_owed_def eq map_total_upd)
      (simp add: order_locked_def od_active_def)
  moreover have "bal T w1 a c - bal T (tew st) a c = - order_locked a r" for a
    using pay g(3,4) u q0 x self(1)
    by (auto simp: cancel_pay_def order_locked_def moved_bal split: order_side.splits
        dest!: te_transfer_moved [OF laws])
  moreover have "orders_aligned (test st')"
    using inv g(2) by (auto simp: te_inv_def orders_aligned_def order_aligned_def eq)
  ultimately show ?thesis
    by (intro te_inv_move [OF inv cancel_order_te_ok [OF ok step]]) (simp_all add: st')
qed

lemma add_liquidity_pool_inv:
  assumes laws: "token_laws T" and inv: "te_inv T c st" and self: "self_addr e = c" "\<not> authorized e c"
    and typed: "i128_ok ra" "i128_ok rb"
    and step: "add_liquidity_pool T e st x a b ra rb fee = Inr (k, st')"
  shows "te_inv T c st'"
proof -
  let ?p = "\<lparr>lp_id = k, lp_asset_a = a, lp_asset_b = b, lp_reserve_a = ra, lp_reserve_b = rb, lp_fee_bps = fee\<rparr>"
  have ok: "te_ok c (test st)" using inv by (simp add: te_inv_def)
  note d = te_okD [OF ok]
  from step obtain w1 w2 s1 where g: "authorized e x" "0 < ra" "0 < rb" "a \<noteq> b"
    and t1: "te_transfer T e (tew st) a x (self_addr e) ra = Inr w1"
    and t2: "te_transfer T e w1 b x (self_addr e) rb = Inr w2"
    and al: "get_next_pool_id (test st) = Inr (k, s1)"
    and st': "st' = \<lparr>test = emit_pool_added k a b (save_pool ?p s1), tew = w2\<rparr>"
    by (auto simp: add_liquidity_pool_iff)
  have x: "x \<noteq> c" using g(1) self(2) by blast
  have ib: "poolst.ids_below (test st)" using d(4) by (simp add: pools_ok_def)
  have fresh: "te_pools (test st) k = None" by (rule poolst.alloc_fresh [OF ib al])
  have eq: "te_orders (test st') = te_orders (test st)" "te_pools (test st') = (te_pools (test st))(k \<mapsto> ?p)"
    using al by (auto simp: st' emit_pool_added_def res_simps)
  have "te_owed (test st') y - te_owed (test st) y = pool_locked y ?p" for y
    using te_inv_fin [OF inv] fresh by (simp add: te_owed_def orders_owed_def pools_owed_def eq map_total_upd)
  moreover have "bal T w2 y c - bal T (tew st) y c = pool_locked y ?p" for y
    using te_transfer_moved [OF laws t1] te_transfer_moved [OF laws t2] g x self(1)
    by (simp add: moved_bal pool_locked_def)
  moreover have "orders_aligned (test st')"
    using inv by (simp add: te_inv_def orders_aligned_def eq)
  ultimately show ?thesis
    by (intro te_inv_move [OF inv add_liquidity_pool_te_ok [OF ok typed step]]) (simp_all add: st')
qed

lemma te_initialize_inv:
  assumes inv: "te_inv T c st" and step: "te_initialize e st x = Inr st'"
  shows "te_inv T c st'"
proof -
  from step have st': "st' = st\<lparr>test := (test st)\<lparr>te_admin := Some x\<rparr>\<rparr>" by (simp add: te_initialize_iff)
  have "te_ok c ((test st)\<lparr>te_admin := Some x\<rparr>) = te_ok c (test st)"
    by (rule te_ok_cong) (simp_all add: order_counter_def pool_counter_def)
  with inv show ?thesis
    by (simp add: te_inv_def st' orders_aligned_def te_owed_def orders_owed_def pools_owed_def)
qed

lemma trade_exec_inv:
  assumes laws: "token_laws T" and inv: "te_inv T c st" and self: "self_addr e = c" "\<not> authorized e c"
    and al: "aligned_call k" and step: "trade_exec T e st k = Inr st'"
  shows "te_inv T c st'"
proof (cases k)
  case (EngineInit x)
  with step show ?thesis by (auto intro: te_initialize_inv [OF inv])
next
  case (PlaceOrder x b q sd ty p n ex)
  with step al show ?thesis
    by (auto simp: res_simps intro: place_order_inv [OF laws inv self])
next
  case (CancelOrder x i)
  with step show ?thesis by (auto intro: cancel_order_inv [OF laws inv self])
next
  case (ExecuteTrade x legs)
  with step al show ?thesis
    by (auto simp: res_simps intro: execute_inv [OF laws inv self])
next
  case (AddPool x a b ra rb fee)
  with step al show ?thesis
    by (auto simp: res_simps intro: add_liquidity_pool_inv [OF laws inv self])
qed

interpretation aligned_machine: machine_invariant "trade_deployed T c" "trade_step aligned_call T c"
    "\<lambda>st. token_laws T \<longrightarrow> te_inv T c st" for T :: "'w token_api" and c
proof unfold_locales
  fix st :: "'w trade_sys"
  assume "trade_deployed T c st"
  then show "token_laws T \<longrightarrow> te_inv T c st"
    by (simp add: trade_deployed_def te_inv_def trade_storage0_ok)
      (simp add: trade_storage0_def orders_aligned_def te_owed_def orders_owed_def pools_owed_def)
next
  fix s t :: "'w trade_sys"
  assume inv: "token_laws T \<longrightarrow> te_inv T c s" and "trade_step aligned_call T c s t"
  from this(2) show "token_laws T \<longrightarrow> te_inv T c t"
  proof cases
    case (trade_step_call e k)
    with inv show ?thesis using trade_exec_inv by blast
  next
    case (trade_step_world w)
    have "te_owed (test s) a \<le> bal T w a c" if "te_inv T c s" for a
      using that trade_step_world(2) [of a] unfolding te_inv_def by (meson order_trans)
    with inv trade_step_world(1) show ?thesis by (auto simp: te_inv_def)
  qed
qed

text \<open>The escrow of one order is covered by the engine's balance.\<close>

lemma quote_locked_nonneg:
  assumes "order_wf c r" shows "0 \<le> order_locked a r"
proof -
  have "0 \<le> unfilled r" "i128_ok (unfilled r)"
    using assms i128_between [of "unfilled r" "od_amount r"] by (auto simp: order_wf_def unfilled_def)
  then show ?thesis using quote_amount_nonneg by (simp add: order_locked_def split: order_side.split)
qed

lemma order_covered:
  assumes inv: "te_inv T c st" and r: "te_orders (test st) i = Some r"
  shows "order_locked a r \<le> bal T (tew st) a c"
proof -
  have ok: "te_ok c (test st)" using inv by (simp add: te_inv_def)
  have "order_locked a r \<le> orders_owed (test st) a"
    unfolding orders_owed_def
    by (rule map_total_ge_member [OF te_inv_fin(1) [OF inv] r])
      (use te_okD(5) [OF ok] quote_locked_nonneg in blast)
  moreover have "0 \<le> pools_owed (test st) a"
    unfolding pools_owed_def
    by (rule map_total_nonneg)
      (use te_okD(4) [OF ok] in \<open>auto simp: pools_ok_def pool_wf_def pool_locked_def\<close>)
  moreover have "te_owed (test st) a \<le> bal T (tew st) a c" using inv by (simp add: te_inv_def)
  ultimately show ?thesis unfolding te_owed_def by linarith
qed

end
