(* ===== verification/Trade_Engine_Fills.thy ===== *)
theory Trade_Engine_Fills
  imports Trade_Engine_Solvency
begin

text \<open>
  What a leg reports: its fills add up to the amount asked for, respect the limit price, are
  quoted from the book prices, and follow price-time priority. And the constant-product arithmetic
  of the pool quotes.
\<close>

section \<open>The fills of a pass\<close>

text \<open>The fill is taken from a stored active order, at most what that order has open, and at its price.\<close>

definition at_maker_price :: "trade_storage \<Rightarrow> fill_result \<Rightarrow> order \<Rightarrow> bool" where
  "at_maker_price s f r \<longleftrightarrow> te_orders s (fl_order_id f) = Some r \<and> od_active r \<and> fl_maker f = od_owner r
     \<and> fl_base f \<le> od_amount r - od_filled r \<and> fl_price f = od_price r \<and> fl_quote f = quote_amount (fl_base f) (od_price r)"

definition fill_of_book :: "trade_leg \<Rightarrow> trade_storage \<Rightarrow> fill_result \<Rightarrow> bool" where
  "fill_of_book leg s f \<longleftrightarrow> \<not> fl_via_pool f \<and> 0 < fl_base f \<and> price_ok leg (fl_price f) \<and> (\<exists>r. at_maker_price s f r)"

lemma not_beyond_price_ok: "\<not> beyond_limit leg r \<Longrightarrow> price_ok leg (od_price r)"
  by (auto simp: beyond_limit_def price_ok_def split: order_side.splits)

lemma match_run_fills:
  assumes "match_run T e trader leg is m m'" and "orders_all c (test (ms_sys m))" and "distinct is"
  shows "\<exists>fs. ms_fills m' = ms_fills m @ fs \<and> subseq (map fl_order_id fs) is
    \<and> ms_remaining m' = ms_remaining m - sum_list (map fl_base fs)
    \<and> ms_total_base m' = ms_total_base m + sum_list (map fl_base fs)
    \<and> ms_total_quote m' = ms_total_quote m + sum_list (map fl_quote fs)
    \<and> (\<forall>f \<in> set fs. fill_of_book leg (test (ms_sys m)) f)
    \<and> (0 \<le> ms_remaining m \<longrightarrow> 0 \<le> ms_remaining m')"
  using assms
proof (induction rule: match_run.induct)
  case (run_fill m i r m1 "is" m')
  have i: "od_id r = i" "order_wf c r" using run_fill.hyps(2) run_fill.prems by (auto simp: orders_all_def)
  obtain w1 where m1: "m1 = after_fill trader leg r w1 m"
    using fill_order_success [OF i(2) run_fill.hyps(3,1,6)] by blast
  note f = leg_fill_pos [OF i(2) run_fill.hyps(3,1)]
  let ?fl = "book_fill trader leg r (leg_fill r m)"
  have all1: "orders_all c (test (ms_sys m1))"
    unfolding m1 by (rule after_fill_all [OF run_fill.prems(1) run_fill.hyps(2,3,1)])
  obtain fs where fs: "ms_fills m' = ms_fills m1 @ fs" "subseq (map fl_order_id fs) is"
      "ms_remaining m' = ms_remaining m1 - sum_list (map fl_base fs)"
      "ms_total_base m' = ms_total_base m1 + sum_list (map fl_base fs)"
      "ms_total_quote m' = ms_total_quote m1 + sum_list (map fl_quote fs)"
      "\<forall>f \<in> set fs. fill_of_book leg (test (ms_sys m1)) f"
      "0 \<le> ms_remaining m1 \<longrightarrow> 0 \<le> ms_remaining m'"
    using run_fill.IH [OF all1] run_fill.prems(2) by auto
  have m1f: "ms_fills m1 = ms_fills m @ [?fl]" "ms_remaining m1 = ms_remaining m - leg_fill r m"
      "ms_total_base m1 = ms_total_base m + leg_fill r m"
      "ms_total_quote m1 = ms_total_quote m + fl_quote ?fl"
    by (simp_all add: m1 after_fill_def Let_def)
  have "at_maker_price (test (ms_sys m)) ?fl r"
    using f i run_fill.hyps(2,3) by (simp add: at_maker_price_def book_fill_def unfilled_def)
  then have fl: "fill_of_book leg (test (ms_sys m)) ?fl" "fl_order_id ?fl = i" "fl_base ?fl = leg_fill r m"
    using f i not_beyond_price_ok [OF run_fill.hyps(5)] by (auto simp: fill_of_book_def book_fill_def)
  have rest: "fill_of_book leg (test (ms_sys m)) f" if "f \<in> set fs" for f
  proof -
    have "fl_order_id f \<in> set is" using list_emb_set [OF fs(2), of "fl_order_id f"] that by auto
    then have "fl_order_id f \<noteq> i" using run_fill.prems(2) by auto
    then show ?thesis using fs(6) that i(1) by (auto simp: fill_of_book_def at_maker_price_def m1 after_fill_def Let_def)
  qed
  have "0 \<le> ms_remaining m1" by (simp add: m1f(2) leg_fill_def)
  then show ?case
    using fs m1f fl rest by (intro exI [of _ "?fl # fs"]) simp
qed auto

lemma match_run_no_fill:
  assumes "match_run T e trader leg is m m'"
    and "ms_remaining m \<le> 0 \<or> (\<forall>i \<in> set is. \<forall>r. te_orders (test (ms_sys m)) i = Some r \<longrightarrow> beyond_limit leg r)"
  shows "ms_fills m' = ms_fills m"
  using assms by (induction rule: match_run.induct) auto

text \<open>Along a queue in price order, the limit once passed stays passed.\<close>

lemma beyond_limit_later:
  assumes "side_queue_ok (opp (lg_side leg)) s (i # is)" and "te_orders s i = Some r"
    and "beyond_limit leg r" and "j \<in> set is" and "te_orders s j = Some r'"
  shows "beyond_limit leg r'"
proof (cases "lg_side leg")
  case Buy
  with assms have "od_price r \<le> od_price r'"
    by (fastforce simp: opp_def ask.queue_ok_def ask.ahead_def prio_def)
  with assms(3) Buy show ?thesis by (simp add: beyond_limit_def)
next
  case Sell
  with assms have "od_price r' \<le> od_price r"
    by (fastforce simp: opp_def bid.queue_ok_def bid.ahead_def prio_def)
  with assms(3) Sell show ?thesis by (simp add: beyond_limit_def)
qed

definition done_or_expired :: "env \<Rightarrow> trade_storage \<Rightarrow> nat \<Rightarrow> bool" where
  "done_or_expired e s i \<longleftrightarrow> (\<exists>r. te_orders s i = Some r \<and> (od_status r = Filled \<or> od_expired e r))"

text \<open>
  Price-time priority of execution: an order ahead of a filled one has itself been filled
  completely, unless it has expired.
\<close>

lemma match_run_priority:
  assumes "match_run T e trader leg is m m'" and "orders_all c (test (ms_sys m))"
    and "side_queue_ok (opp (lg_side leg)) (test (ms_sys m)) is"
    and "\<forall>i \<in> set is. \<exists>r. te_orders (test (ms_sys m)) i = Some r \<and> od_active r"
    and "ms_fills m' = ms_fills m @ fs"
  shows "sorted_wrt (\<lambda>i j. j \<in> set (map fl_order_id fs) \<longrightarrow> done_or_expired e (test (ms_sys m')) i) is"
  using assms
proof (induction arbitrary: fs rule: match_run.induct)
  case (run_end m)
  then show ?case by simp
next
  case (run_stop m i "is")
  then have "fs = []" by simp
  then show ?case by (simp add: sorted_wrt_true)
next
  case (run_drop m i "is" m')
  have tail: "side_queue_ok (opp (lg_side leg)) (test (ms_sys m)) is"
    using side_queue_ok_subseq [of "is" "i # is"] run_drop.prems(2) by auto
  obtain r where r: "te_orders (test (ms_sys m)) i = Some r" "od_expired e r"
    using run_drop.hyps(2) run_drop.prems(3) by (auto simp: unmatchable_def)
  have "i \<notin> set is" using side_queue_ok_distinct [OF run_drop.prems(2)] by simp
  then have "te_orders (test (ms_sys m')) i = Some r"
    using match_run_facts [OF run_drop.hyps(3) run_drop.prems(1)] r(1) by (simp add: pass_ok_def)
  then show ?case
    using run_drop.IH [OF run_drop.prems(1) tail _ run_drop.prems(4)] run_drop.prems(3) r(2)
    by (auto simp: done_or_expired_def)
next
  case (run_keep m i r "is" m')
  have tail: "side_queue_ok (opp (lg_side leg)) (test (ms_sys m)) is"
    using side_queue_ok_subseq [of "is" "i # is"] run_keep.prems(2) by auto
  have "ms_fills m' = ms_fills (m\<lparr>ms_updated := ms_updated m @ [i]\<rparr>)"
    by (rule match_run_no_fill [OF run_keep.hyps(6)])
      (use beyond_limit_later [OF run_keep.prems(2) run_keep.hyps(2,5)] in auto)
  then have "fs = []" using run_keep.prems(4) by simp
  then show ?case by (simp add: sorted_wrt_true)
next
  case (run_fill m i r m1 "is" m')
  have i: "od_id r = i" "order_wf c r" using run_fill.hyps(2) run_fill.prems by (auto simp: orders_all_def)
  obtain w1 where m1: "m1 = after_fill trader leg r w1 m"
    using fill_order_success [OF i(2) run_fill.hyps(3,1,6)] by blast
  have dist: "distinct (i # is)" by (rule side_queue_ok_distinct [OF run_fill.prems(2)])
  have all1: "orders_all c (test (ms_sys m1))"
    unfolding m1 by (rule after_fill_all [OF run_fill.prems(1) run_fill.hyps(2,3,1)])
  have o1: "te_orders (test (ms_sys m1)) = (te_orders (test (ms_sys m)))(i \<mapsto> filled_up r (leg_fill r m))"
    by (simp add: m1 after_fill_def Let_def i(1))
  have "side_queue_ok (opp (lg_side leg)) (test (ms_sys m)) is"
    using side_queue_ok_subseq [of "is" "i # is"] run_fill.prems(2) by auto
  then have tail: "side_queue_ok (opp (lg_side leg)) (test (ms_sys m1)) is"
  proof (subst side_queue_ok_cong)
    show "prio (test (ms_sys m1)) j = prio (test (ms_sys m)) j" if "j \<in> set is" for j
      using that dist by (auto simp: prio_def o1)
  qed
  have act: "\<forall>j \<in> set is. \<exists>r. te_orders (test (ms_sys m1)) j = Some r \<and> od_active r"
    using run_fill.prems(3) dist by (auto simp: o1)
  obtain fs1 where fs1: "ms_fills m' = ms_fills m1 @ fs1" "subseq (map fl_order_id fs1) is"
    using match_run_fills [OF run_fill.hyps(7) all1] dist by auto
  have fs: "fs = book_fill trader leg r (leg_fill r m) # fs1"
    using fs1(1) run_fill.prems(4) by (simp add: m1 after_fill_def Let_def)
  have ids: "set (map fl_order_id fs) = insert i (set (map fl_order_id fs1))"
    by (simp add: fs book_fill_def i(1))
  have IH: "sorted_wrt (\<lambda>i j. j \<in> set (map fl_order_id fs1) \<longrightarrow> done_or_expired e (test (ms_sys m')) i) is"
    by (rule run_fill.IH [OF all1 tail act fs1(1)])
  have head: "done_or_expired e (test (ms_sys m')) i" if "fs1 \<noteq> []"
  proof -
    have "0 < ms_remaining m1"
      using match_run_no_fill [OF run_fill.hyps(7)] fs1(1) that by force
    then have "leg_fill r m = unfilled r" by (auto simp: m1 after_fill_def Let_def leg_fill_def)
    then have "od_status (filled_up r (leg_fill r m)) = Filled"
      by (simp add: filled_up_def unfilled_def)
    moreover have "te_orders (test (ms_sys m')) i = te_orders (test (ms_sys m1)) i"
      using match_run_facts [OF run_fill.hyps(7) all1] dist by (simp add: pass_ok_def)
    ultimately show ?thesis by (simp add: done_or_expired_def o1)
  qed
  have "sorted_wrt (\<lambda>i j. j \<in> set (map fl_order_id fs) \<longrightarrow> done_or_expired e (test (ms_sys m')) i) is"
    by (rule sorted_wrt_mono_rel [OF _ IH]) (use dist in \<open>auto simp: ids [simplified]\<close>)
  moreover have "\<forall>j \<in> set is. j \<in> set (map fl_order_id fs) \<longrightarrow> done_or_expired e (test (ms_sys m')) i"
    using head dist by (cases "fs1 = []") (auto simp: ids [simplified])
  ultimately show ?case by simp
qed

section \<open>The fills of a leg\<close>

lemma match_leg_fills:
  assumes ok: "te_ok c (test st)" and leg: "match_leg T e trader leg st = Inr (fs, st')"
  shows "sum_list (map fl_base fs) = lg_amount leg"
    and "\<forall>f \<in> set fs. 0 < fl_base f \<and> price_ok leg (fl_price f)"
    and "\<forall>f \<in> set fs. \<not> fl_via_pool f \<longrightarrow> (\<exists>r. at_maker_price (test st) f r
        \<and> od_side r = opp (lg_side leg) \<and> order_key r = get_pair_key (lg_base leg) (lg_quote leg))"
    and "lg_side leg = Sell \<Longrightarrow> 0 < lg_min_output leg \<Longrightarrow> lg_min_output leg \<le> sum_list (map fl_quote fs)"
    and "sorted_wrt (\<lambda>i j. j \<in> set (map fl_order_id (filter (\<lambda>f. \<not> fl_via_pool f) fs)) \<longrightarrow>
        done_or_expired e (test st') i)
      (side_queue (opp (lg_side leg)) (load_book (test st) (lg_base leg) (lg_quote leg)))"
proof -
  let ?book = "load_book (test st) (lg_base leg) (lg_quote leg)" and ?sd = "opp (lg_side leg)"
  from match_leg_success [OF leg] obtain m m2 where amt: "0 < lg_amount leg"
    and run: "match_run T e trader leg (side_queue ?sd ?book) (match_start st leg) m"
    and m2: "if ms_remaining m \<le> 0 then m2 = with_book (requeue ?sd (ms_updated m) ?book) m
       else pool_leg T e trader leg (with_book (requeue ?sd (ms_updated m) ?book) m) m2"
    and st': "fs = ms_fills m2" "st' = ms_sys m2"
    and mo: "0 < lg_min_output leg \<longrightarrow>
            lg_min_output leg \<le> (case lg_side leg of Buy \<Rightarrow> ms_total_base m2 | Sell \<Rightarrow> ms_total_quote m2)"
    by (auto simp: Let_def)
  have start: "test (ms_sys (match_start st leg)) = test st" "ms_fills (match_start st leg) = []"
      "ms_remaining (match_start st leg) = lg_amount leg" "ms_total_base (match_start st leg) = 0"
      "ms_total_quote (match_start st leg) = 0"
    by (simp_all add: match_start_def)
  note oq = opp_queue [OF ok, where sd = ?sd and b = "lg_base leg" and q = "lg_quote leg"]
  have dist: "distinct (side_queue ?sd ?book)" by (rule side_queue_ok_distinct [OF oq(1)])
  have all: "orders_all c (test (ms_sys (match_start st leg)))" using te_okD(2) [OF ok] by (simp add: start)
  obtain gs where gs: "ms_fills m = gs" "ms_remaining m = lg_amount leg - sum_list (map fl_base gs)"
      "ms_total_base m = sum_list (map fl_base gs)" "ms_total_quote m = sum_list (map fl_quote gs)"
      "\<forall>f \<in> set gs. fill_of_book leg (test st) f" "0 \<le> ms_remaining m"
      "subseq (map fl_order_id gs) (side_queue ?sd ?book)"
    using match_run_fills [OF run all dist] amt by (auto simp: start)
  have prio: "sorted_wrt (\<lambda>i j. j \<in> set (map fl_order_id gs) \<longrightarrow> done_or_expired e (test (ms_sys m)) i)
      (side_queue ?sd ?book)"
    by (rule match_run_priority [OF run all]) (use oq gs in \<open>auto simp: start queued_def\<close>)
  have fin: "(\<exists>ps. fs = gs @ ps \<and> sum_list (map fl_base ps) = ms_remaining m
      \<and> ms_total_quote m2 = ms_total_quote m + sum_list (map fl_quote ps)
      \<and> (\<forall>f \<in> set ps. fl_via_pool f \<and> 0 < fl_base f \<and> price_ok leg (fl_price f)))
      \<and> te_orders (test st') = te_orders (test (ms_sys m))"
  proof (cases "ms_remaining m \<le> 0")
    case True
    with m2 gs st' show ?thesis by simp
  next
    case False
    with m2 have pl: "pool_leg T e trader leg (with_book (requeue ?sd (ms_updated m) ?book) m) m2" by simp
    then obtain p ab x y w2 price where m2': "m2 = after_pool e trader leg ab p x y (leg_quote_of leg x y) price w2
        (with_book (requeue ?sd (ms_updated m) ?book) m)" and "price_ok leg price"
      unfolding pool_leg_def by blast
    with False gs st' show ?thesis by (auto simp: after_pool_def Let_def pool_fill_result_def)
  qed
  then obtain ps where ps: "fs = gs @ ps" "sum_list (map fl_base ps) = ms_remaining m"
      "ms_total_quote m2 = ms_total_quote m + sum_list (map fl_quote ps)"
      "\<forall>f \<in> set ps. fl_via_pool f \<and> 0 < fl_base f \<and> price_ok leg (fl_price f)"
    and od: "te_orders (test st') = te_orders (test (ms_sys m))" by blast
  show "sum_list (map fl_base fs) = lg_amount leg" using ps gs by simp
  show "\<forall>f \<in> set fs. 0 < fl_base f \<and> price_ok leg (fl_price f)"
    using ps(1,4) gs(5) by (auto simp: fill_of_book_def)
  have queued: "queued (test st) (get_pair_key (lg_base leg) (lg_quote leg)) ?sd (fl_order_id f)" if "f \<in> set gs" for f
    using oq(2) [of "fl_order_id f"] list_emb_set [OF gs(7), of "fl_order_id f"] that by auto
  show "\<forall>f \<in> set fs. \<not> fl_via_pool f \<longrightarrow> (\<exists>r. at_maker_price (test st) f r
      \<and> od_side r = ?sd \<and> order_key r = get_pair_key (lg_base leg) (lg_quote leg))"
    using ps(1,4) gs(5) queued by (fastforce simp: fill_of_book_def queued_def at_maker_price_def)
  show "lg_side leg = Sell \<Longrightarrow> 0 < lg_min_output leg \<Longrightarrow> lg_min_output leg \<le> sum_list (map fl_quote fs)"
    using mo ps gs by simp
  have "filter (\<lambda>f. \<not> fl_via_pool f) ps = []" using ps(4) by (auto simp: filter_empty_conv)
  moreover have "filter (\<lambda>f. \<not> fl_via_pool f) gs = gs" using gs(5) by (auto simp: filter_id_conv fill_of_book_def)
  ultimately have "filter (\<lambda>f. \<not> fl_via_pool f) fs = gs" by (simp add: ps(1))
  then show "sorted_wrt (\<lambda>i j. j \<in> set (map fl_order_id (filter (\<lambda>f. \<not> fl_via_pool f) fs)) \<longrightarrow>
        done_or_expired e (test st') i) (side_queue ?sd ?book)"
    using prio od by (simp add: done_or_expired_def)
qed

lemma run_legs_fills:
  assumes "run_legs T e trader legs n fs st = Inr (n', fs', st')" and "te_ok c (test st)"
  shows "n' = n + length legs \<and>
    sum_list (map fl_base fs') = sum_list (map fl_base fs) + sum_list (map lg_amount legs)"
  using assms
proof (induction legs arbitrary: n fs st)
  case (Cons leg legs)
  from Cons.prems(1) obtain f1 st1 where l: "match_leg T e trader leg st = Inr (f1, st1)"
      "run_legs T e trader legs (n + 1) (fs @ f1) st1 = Inr (n', fs', st')"
    by (auto simp: res_simps)
  from Cons.IH [OF l(2) match_leg_te_ok [OF Cons.prems(2) l(1)]] match_leg_fills(1) [OF Cons.prems(2) l(1)]
  show ?case by simp
qed simp

section \<open>Pool quotes and the constant product\<close>

lemma fee_multiplier: "fee \<le> 10000 \<Longrightarrow> i_sat_sub 10000 (int fee) = 10000 - int fee"
  by (simp add: i_sat_sub_exact i128_ok_def I128_MIN_def I128_MAX_def)

lemma div_plus_one_gt:
  assumes "0 < (d :: int)"
  shows "n < (n div d + 1) * d"
proof -
  have "n = d * (n div d) + n mod d" by simp
  moreover have "n mod d < d" using assms by simp
  ultimately have "n < d * (n div d) + d" by linarith
  then show ?thesis by (simp add: algebra_simps)
qed

lemma div_times_le: "0 < (d :: int) \<Longrightarrow> n div d * d \<le> n"
  using div_mult_mod_eq [of n d] pos_mod_sign [of d n] by linarith

text \<open>Buying: without saturation the price paid exceeds the constant-product price.\<close>

lemma pool_buy_quote_curve:
  assumes q: "pool_buy_quote rem rin rout fee = Inr (Some q)" and pos: "0 < rem" and fee: "fee \<le> 10000"
    and num: "i128_ok (rin * rem * 10000)" and den: "i128_ok ((rout - rem) * (10000 - int fee))"
    and rok: "i128_ok rout"
  shows "rin * rem < q * (rout - rem)"
proof -
  note b = pool_buy_quote_bounds [OF q pos]
  have rr: "0 < rin * rem" using b pos by simp
  have "i128_ok (rin * rem)"
    by (rule i128_between [OF _ _ num]) (use rr in linarith)+
  then have n: "i_sat_mul (i_sat_mul rin rem) 10000 = rin * rem * 10000"
    using num by (simp add: i_sat_mul_exact)
  have "i128_ok (rout - rem)" by (rule i128_between [OF _ _ rok]) (use b pos in auto)
  then have d: "i_sat_mul (i_sat_sub rout rem) (i_sat_sub 10000 (int fee)) = (rout - rem) * (10000 - int fee)"
    using den fee by (simp add: fee_multiplier i_sat_sub_exact i_sat_mul_exact)
  let ?den = "(rout - rem) * (10000 - int fee)"
  from q b have dpos: "0 < ?den" and dv: "(i_div (rin * rem * 10000) ?den :: (int, trade_error) res) = Inr (q - 1)"
    by (auto simp: pool_buy_quote_def Let_def n d res_simps split: if_splits)
  then have qd: "q = rin * rem * 10000 div ?den + 1"
    using i_div_eq_nonneg [OF dv _ dpos num] rr by simp
  have "rin * rem * 10000 < q * ?den"
    unfolding qd by (rule div_plus_one_gt [OF dpos])
  also have "q * ?den \<le> q * (rout - rem) * 10000"
  proof -
    have "(rout - rem) * (10000 - int fee) \<le> (rout - rem) * 10000"
      by (rule mult_left_mono) (use b in auto)
    then have "q * ((rout - rem) * (10000 - int fee)) \<le> q * ((rout - rem) * 10000)"
      by (rule mult_left_mono) (use b in auto)
    then show ?thesis by (simp only: mult.assoc)
  qed
  finally show ?thesis by simp
qed

text \<open>Selling: without saturation the amount paid out is at most the constant-product amount.\<close>

lemma get_amount_out_curve:
  assumes y: "get_amount_out x rin rout fee = Inr y" and fee: "fee \<le> 10000"
    and num: "i128_ok (x * (10000 - int fee) * rout)" and den: "i128_ok (rin * 10000 + x * (10000 - int fee))"
  shows "y * (rin + x) \<le> x * rout \<and> y < rout"
proof -
  let ?fm = "10000 - int fee"
  note b = get_amount_out_bounds [OF y]
  have rout: "0 < rout" using b by simp
  have fm0: "0 \<le> ?fm" using fee by simp
  have xf: "0 \<le> x * ?fm" using b fm0 by simp
  have "x * ?fm \<le> x * ?fm * rout" using xf rout by (simp add: mult_le_cancel_left1)
  then have okxf: "i128_ok (x * ?fm)" by (rule i128_between [OF xf _ num])
  have okr: "i128_ok (rin * 10000)" by (rule i128_between [OF _ _ den]) (use b xf in auto)
  let ?den = "rin * 10000 + x * ?fm"
  have dpos: "0 < ?den" using b xf by simp
  from y have dv: "(i_div (x * ?fm * rout) ?den :: (int, trade_error) res) = Inr y"
    by (auto simp: get_amount_out_def Let_def res_simps fee_multiplier [OF fee] i_sat_mul_exact okxf
        num okr i_sat_add_exact den)
  then have yd: "y = x * ?fm * rout div ?den"
    using i_div_eq_nonneg [OF dv _ dpos num] xf rout by simp
  have le: "y * ?den \<le> x * ?fm * rout"
    unfolding yd by (rule div_times_le [OF dpos])
  have fmpos: "0 < ?fm"
  proof (rule ccontr)
    assume "\<not> 0 < ?fm"
    with fm0 have "?fm = 0" by simp
    with yd b show False by simp
  qed
  have "?fm * (y * (rin + x)) \<le> y * ?den"
  proof -
    have "?fm * rin \<le> rin * 10000" using b fee by (simp add: mult.commute mult_left_mono)
    then have "?fm * rin + ?fm * x \<le> ?den" by (simp add: mult.commute)
    then have "y * (?fm * (rin + x)) \<le> y * ?den"
      using b by (intro mult_left_mono) (simp_all add: distrib_left)
    then show ?thesis by (simp add: mult.left_commute)
  qed
  also note le
  also have "x * ?fm * rout = ?fm * (x * rout)" by (simp add: mult.commute mult.left_commute)
  finally have main: "y * (rin + x) \<le> x * rout"
    using fmpos by (simp only: mult_le_cancel_left_pos)
  moreover have "y < rout"
  proof (rule ccontr)
    assume "\<not> y < rout"
    then have "rout * (rin + x) \<le> y * (rin + x)" using b by (intro mult_right_mono) auto
    with main have "rout * (rin + x) \<le> x * rout" by linarith
    then have "rout * rin \<le> 0" by (simp add: distrib_left mult.commute)
    moreover have "0 < rout * rin" using rout b by simp
    ultimately show False by linarith
  qed
  ultimately show ?thesis by simp
qed

end
