(* ===== verification/Trade_Engine_Trades.thy ===== *)
theory Trade_Engine_Trades
  imports Trade_Engine_Fills
begin

text \<open>
  Properties of the trade engine over whole runs, with the concrete runs of their witnesses: price
  priority of the books, fill accounting, placing, cancelling and trading, the pool curve, the
  conditions under which the engine is solvent, and what happens without them.
\<close>

section \<open>Runs for witnesses\<close>

definition trade_run :: "'w token_api \<Rightarrow> (env \<times> trade_call) list \<Rightarrow> 'w trade_sys \<Rightarrow> ('w trade_sys, trade_error) res" where
  "trade_run T = foldR (\<lambda>(e, k) st. trade_exec T e st k)"

lemma trade_run_steps:
  assumes "trade_run T xs st = Inr st'"
    and "\<forall>(e, k) \<in> set xs. self_addr e = c \<and> \<not> authorized e c \<and> P k"
  shows "(trade_step P T c)\<^sup>*\<^sup>* st st'"
  using assms
proof (induction xs arbitrary: st)
  case Nil
  then show ?case by (simp add: trade_run_def)
next
  case (Cons x xs)
  obtain e k where x: "x = (e, k)" by (cases x)
  from Cons.prems(1) x obtain s1 where s1: "trade_exec T e st k = Inr s1" "trade_run T xs s1 = Inr st'"
    by (auto simp: trade_run_def res_simps)
  have "trade_step P T c st s1"
    by (rule trade_step_call [of e]) (use Cons.prems(2) x s1 in auto)
  moreover have "(trade_step P T c)\<^sup>*\<^sup>* s1 st'"
    by (rule Cons.IH) (use Cons.prems(2) s1 in auto)
  ultimately show ?case by (rule converse_rtranclp_into_rtranclp)
qed

text \<open>
  The demonstration run: address 1 offers 100 of asset 10 at price 2 and then 50 at price 1, in
  asset 11; address 2 buys 80.
\<close>

definition demo_te0 :: "ledger trade_sys" where
  "demo_te0 = \<lparr>test = trade_storage0, tew = demo_ledger\<rparr>"

definition demo_leg :: trade_leg where
  "demo_leg = \<lparr>lg_base = Addr 10, lg_quote = Addr 11, lg_side = Buy, lg_amount = 80,
     lg_limit_price = 30000000, lg_min_output = 80\<rparr>"

definition demo_te_calls :: "(env \<times> trade_call) list" where
  "demo_te_calls =
     [(demo_env 1 100, PlaceOrder (Addr 1) (Addr 10) (Addr 11) Sell Limit 20000000 100 0),
      (demo_env 1 101, PlaceOrder (Addr 1) (Addr 10) (Addr 11) Sell FillOrKill 10000000 50 0),
      (demo_env 2 102, ExecuteTrade (Addr 2) [demo_leg])]"

lemma demo_te0_deployed: "trade_deployed sep41_api (Addr 0) demo_te0"
  by (simp add: trade_deployed_def demo_te0_def demo_ledger_def)

lemmas demo_te_defs = trade_run_def demo_te_calls_def demo_te0_def demo_ledger_def demo_env_def
  trade_storage0_def demo_leg_def place_order_def cancel_order_def execute_multi_pair_trade_def
  engine_multi_pair_trade_def match_leg_def match_leg_buy_def match_leg_sell_def match_start_def
  fill_order_def settle_fill_def record_fill_def with_book_def pool_buy_def pool_sell_def
  require_auth_def te_transfer_def sep41_api_def void_transfer_def ledger_transfer_def
  get_next_order_id_def u_add_def add_order_def load_book_def save_book_def get_pair_key_def
  get_order_def add_user_order_def user_order_ids_def save_order_def te_publish_def
  emit_order_placed_def emit_order_cancelled_def emit_trade_executed_def emit_fill_def
  quote_amount_def as_u128_def as_i128_def u_sat_mul_def PRICE_PRECISION_def i_sat_sub_def
  i_sat_add_def i_clamp_def I128_MAX_def I128_MIN_def i_sub_def i_add_def i_check_def i128_ok_def
  od_active_def od_expired_def beyond_limit_def remove_order_id_def

lemma demo_te_reachable:
  assumes "trade_run sep41_api (take n demo_te_calls) demo_te0 = Inr st"
  shows "reachable (trade_deployed sep41_api (Addr 0)) (trade_step aligned_call sep41_api (Addr 0)) st"
proof (rule reachable_rtranclp)
  show "reachable (trade_deployed sep41_api (Addr 0)) (trade_step aligned_call sep41_api (Addr 0)) demo_te0"
    by (rule reach_init) (rule demo_te0_deployed)
  show "(trade_step aligned_call sep41_api (Addr 0))\<^sup>*\<^sup>* demo_te0 st"
    by (rule trade_run_steps [OF assms])
      (auto dest!: in_set_takeD simp: demo_te_calls_def demo_env_def demo_leg_def i128_ok_def
        I128_MAX_def I128_MIN_def)
qed

lemma demo_te_placed:
  "\<exists>st b r1 r2. trade_run sep41_api (take 2 demo_te_calls) demo_te0 = Inr st
     \<and> te_books (test st) (Addr 10, Addr 11) = Some b \<and> bk_asks b = [2, 1] \<and> bk_bids b = []
     \<and> te_orders (test st) 1 = Some r1 \<and> od_status r1 = Pending \<and> od_owner r1 = Addr 1
     \<and> od_filled r1 = 0 \<and> od_amount r1 = 100 \<and> od_side r1 = Sell \<and> od_base r1 = Addr 10
     \<and> te_orders (test st) 2 = Some r2 \<and> od_type r2 = FillOrKill \<and> od_price r2 = 10000000
     \<and> tew st (Addr 10, Addr 0) = 150"
  by (simp add: demo_te_defs Let_def)

lemma demo_te_traded:
  "\<exists>st rs st' r1 r2. trade_run sep41_api (take 2 demo_te_calls) demo_te0 = Inr st
     \<and> execute_multi_pair_trade sep41_api (demo_env 2 102) st (Addr 2) [demo_leg] = Inr (rs, st')
     \<and> map fl_order_id (xr_fills rs) = [2, 1] \<and> map fl_base (xr_fills rs) = [50, 30]
     \<and> map fl_quote (xr_fills rs) = [50, 60]
     \<and> te_orders (test st') 1 = Some r1 \<and> od_status r1 = PartiallyFilled \<and> od_filled r1 = 30
     \<and> te_orders (test st') 2 = Some r2 \<and> od_status r2 = Filled
     \<and> tew st' (Addr 10, Addr 2) = 80 \<and> tew st' (Addr 11, Addr 1) = 110"
  by (simp add: demo_te_defs Let_def min_def)

definition reversed_calls :: "(env \<times> trade_call) list" where
  "reversed_calls =
     [(demo_env 2 100, PlaceOrder (Addr 2) (Addr 11) (Addr 10) Sell Limit 10000000000 100 0),
      (demo_env 1 101, PlaceOrder (Addr 1) (Addr 10) (Addr 11) Sell Limit 1 100 0),
      (demo_env 1 102, ExecuteTrade (Addr 1) [\<lparr>lg_base = Addr 11, lg_quote = Addr 10, lg_side = Buy,
         lg_amount = 100, lg_limit_price = 1, lg_min_output = 0\<rparr>])]"

definition market_calls :: "(env \<times> trade_call) list" where
  "market_calls =
     [(demo_env 1 100, PlaceOrder (Addr 1) (Addr 10) (Addr 11) Sell Market 0 100 0),
      (demo_env 2 101, ExecuteTrade (Addr 2) [\<lparr>lg_base = Addr 10, lg_quote = Addr 11, lg_side = Buy,
         lg_amount = 100, lg_limit_price = 1, lg_min_output = 100\<rparr>])]"

lemma te_ok_reachable:
  "reachable (trade_deployed T c) (trade_step P T c) st \<Longrightarrow> (\<And>k. P k \<Longrightarrow> typed_call k) \<Longrightarrow> te_ok c (test st)"
  using trade_machine.inv_reachable [of T c P st] by blast

lemma demo_te_typed:
  assumes "trade_run sep41_api (take n demo_te_calls) demo_te0 = Inr st"
  shows "reachable (trade_deployed sep41_api (Addr 0)) (trade_step typed_call sep41_api (Addr 0)) st"
proof (rule reachable_rtranclp)
  show "reachable (trade_deployed sep41_api (Addr 0)) (trade_step typed_call sep41_api (Addr 0)) demo_te0"
    by (rule reach_init) (rule demo_te0_deployed)
  show "(trade_step typed_call sep41_api (Addr 0))\<^sup>*\<^sup>* demo_te0 st"
    by (rule trade_run_steps [OF assms])
      (auto dest!: in_set_takeD simp: demo_te_calls_def demo_env_def demo_leg_def i128_ok_def
        I128_MAX_def I128_MIN_def)
qed

section \<open>What placing an order writes\<close>

text \<open>Price \<open>p\<close> is served before price \<open>q\<close> on a side of the book.\<close>

definition beats :: "order_side \<Rightarrow> nat \<Rightarrow> nat \<Rightarrow> bool" where
  "beats side p q \<longleftrightarrow> (case side of Buy \<Rightarrow> q < p | Sell \<Rightarrow> p < q)"

lemma side_insert_position:
  "stored s xs \<Longrightarrow> side_insert s r xs =
    takeWhile (\<lambda>i. \<not> beats (od_side r) (od_price r) (prio s i)) xs @ od_id r #
    dropWhile (\<lambda>i. \<not> beats (od_side r) (od_price r) (prio s i)) xs"
  using bid.ins_position [of s xs r] ask.ins_position [of s xs r]
  by (cases "od_side r") (simp_all add: side_insert_def beats_def)

lemma place_order_writes:
  assumes ok: "te_ok c (test st)"
    and step: "place_order T e st x b q side typ price n ex = Inr (k, st')"
  shows "te_orders (test st) k = None"
    and "te_orders (test st') = (te_orders (test st))(k \<mapsto> new_order k x b q side typ price n (now e) ex)"
    and "side_queue side (load_book (test st') b q) =
      takeWhile (\<lambda>i. \<not> beats side price (prio (test st) i)) (side_queue side (load_book (test st) b q)) @ k #
      dropWhile (\<lambda>i. \<not> beats side price (prio (test st) i)) (side_queue side (load_book (test st) b q))"
proof -
  let ?r = "new_order k x b q side typ price n (now e) ex"
  from step obtain w1 s1 where al: "get_next_order_id (test st) = Inr (k, s1)"
    and st': "st' = \<lparr>test = emit_order_placed ?r (add_order ?r (add_user_order x k (save_order ?r s1))), tew = w1\<rparr>"
    by (auto simp: place_order_iff Let_def)
  show fresh: "te_orders (test st) k = None" by (rule ordst.alloc_fresh [OF te_okD(1) [OF ok] al])
  define s2 where "s2 = add_user_order x k (save_order ?r s1)"
  have s2: "te_orders s2 = (te_orders (test st))(k \<mapsto> ?r)" "te_books s2 = te_books (test st)"
    using al by (auto simp: s2_def res_simps)
  show "te_orders (test st') = (te_orders (test st))(k \<mapsto> ?r)"
    using s2(1) by (simp add: st' s2_def [symmetric] emit_order_placed_def add_order_eq)
  let ?lb = "load_book (test st) b q" and ?xs = "side_queue side (load_book (test st) b q)"
  note oq = opp_queue(2) [OF ok, where sd = side and b = b and q = q]
  have lb: "load_book s2 b q = ?lb" using load_book_cong [OF s2(2)] by simp
  have stored: "stored s2 ?xs" using oq by (auto simp: stored_def queued_def s2)
  have bk: "get_pair_key (bk_base ?lb) (bk_quote ?lb) = get_pair_key b q"
    using load_book_ok [OF te_okD(3) [OF ok], of b q] by (simp add: book_ok_def)
  have prio: "prio s2 i = prio (test st) i" if "i \<in> set ?xs" for i
    using oq [OF that] fresh by (auto simp: queued_def prio_def s2)
  have "load_book (test st') b q = requeue side (side_insert s2 ?r ?xs) ?lb"
    by (simp add: st' s2_def [symmetric] emit_order_placed_def load_book_def [of "te_publish _ _"]
        bk add_order_eq lb)
  then have "side_queue side (load_book (test st') b q) = side_insert s2 ?r ?xs" by simp
  also have "\<dots> = takeWhile (\<lambda>i. \<not> beats side price (prio s2 i)) ?xs @ k #
      dropWhile (\<lambda>i. \<not> beats side price (prio s2 i)) ?xs"
    using side_insert_position [OF stored, of ?r] by simp
  finally show "side_queue side (load_book (test st') b q) =
      takeWhile (\<lambda>i. \<not> beats side price (prio (test st) i)) ?xs @ k #
      dropWhile (\<lambda>i. \<not> beats side price (prio (test st) i)) ?xs"
    using prio by (simp cong: takeWhile_cong dropWhile_cong)
qed

section \<open>What a step does to a stored order\<close>

definition order_forward :: "order \<Rightarrow> order \<Rightarrow> bool" where
  "order_forward r r' \<longleftrightarrow> order_terms r' = order_terms r \<and> od_filled r \<le> od_filled r'
     \<and> (\<not> od_active r \<longrightarrow> r' = r)"

lemma order_forward_refl [simp]: "order_forward r r"
  by (simp add: order_forward_def)

lemma order_moves_forward: "order_moves r r' \<Longrightarrow> order_forward r r'"
  by (auto simp: order_moves_def order_forward_def)

lemma order_forward_trans: "order_forward r r1 \<Longrightarrow> order_forward r1 r2 \<Longrightarrow> order_forward r r2"
  by (auto simp: order_forward_def)

definition store_forward :: "trade_storage \<Rightarrow> trade_storage \<Rightarrow> bool" where
  "store_forward s s' \<longleftrightarrow> (\<forall>k r. te_orders s k = Some r \<longrightarrow>
     (\<exists>r'. te_orders s' k = Some r' \<and> order_forward r r'))"

lemma store_forward_same: "te_orders s' = te_orders s \<Longrightarrow> store_forward s s'"
  by (simp add: store_forward_def)

lemma store_forward_trans: "store_forward s s1 \<Longrightarrow> store_forward s1 s2 \<Longrightarrow> store_forward s s2"
  unfolding store_forward_def by (meson order_forward_trans)

lemma match_leg_forward:
  assumes ok: "te_ok c (test st)" and leg: "match_leg T e trader leg st = Inr (fs, st')"
  shows "store_forward (test st) (test st')"
proof -
  let ?book = "load_book (test st) (lg_base leg) (lg_quote leg)" and ?sd = "opp (lg_side leg)"
  from match_leg_success [OF leg] obtain m m2 where
    run: "match_run T e trader leg (side_queue ?sd ?book) (match_start st leg) m"
    and m2: "if ms_remaining m \<le> 0 then m2 = with_book (requeue ?sd (ms_updated m) ?book) m
       else pool_leg T e trader leg (with_book (requeue ?sd (ms_updated m) ?book) m) m2"
    and st': "st' = ms_sys m2"
    by (auto simp: Let_def)
  have "pass_ok (test st) (test (ms_sys m)) (side_queue ?sd ?book)"
    by (rule te_ok_pass(2) [OF ok _ _ run]) (simp_all add: match_start_def)
  then have "store_forward (test st) (test (ms_sys m))"
    using pass_ok_order order_moves_forward unfolding store_forward_def by blast
  moreover have "te_orders (test st') = te_orders (test (ms_sys m))"
    using m2 by (cases "ms_remaining m \<le> 0") (auto simp: st' pool_leg_def after_pool_def Let_def)
  ultimately show ?thesis by (simp add: store_forward_def)
qed

lemma execute_forward:
  assumes ok: "te_ok c (test st)" and ex: "execute_multi_pair_trade T e st x legs = Inr (rs, st')"
  shows "store_forward (test st) (test st')"
proof -
  from ex obtain n fs st1 where r: "run_legs T e x legs 0 [] st = Inr (n, fs, st1)"
    and st': "st' = st1\<lparr>test := emit_trade_executed x n (length fs) (test st1)\<rparr>"
    by (auto simp: execute_iff)
  have "te_ok c (test st1) \<and> store_forward (test st) (test st1)"
  proof (rule run_legs_invariant [OF r, of "\<lambda>s. te_ok c (test s) \<and> store_forward (test st) (test s)"])
    show "te_ok c (test st) \<and> store_forward (test st) (test st)"
      using ok by (simp add: store_forward_same)
  qed (blast intro: match_leg_te_ok match_leg_forward store_forward_trans)
  then show ?thesis by (simp add: st' emit_trade_executed_def store_forward_def)
qed

lemma trade_step_forward:
  assumes step: "trade_step P T c s t" and ok: "te_ok c (test s)"
  shows "store_forward (test s) (test t)"
  using step
proof cases
  case (trade_step_call e k)
  note ex = trade_step_call(4)
  show ?thesis
  proof (cases k)
    case (EngineInit x)
    with ex show ?thesis by (auto simp: te_initialize_iff intro: store_forward_same)
  next
    case (PlaceOrder x b q sd ty p n ee)
    with ex obtain i where "place_order T e s x b q sd ty p n ee = Inr (i, t)" by (auto simp: res_simps)
    from place_order_writes(1,2) [OF ok this] show ?thesis by (auto simp: store_forward_def)
  next
    case (CancelOrder x i)
    with ex obtain r where r: "te_orders (test s) i = Some r" "od_active r"
      and t: "te_orders (test t) = (te_orders (test s))(i \<mapsto> r\<lparr>od_status := Cancelled\<rparr>)"
      using te_okD(5) [OF ok]
      by (auto simp: cancel_order_iff [OF te_okD(2) [OF ok]] emit_order_cancelled_def remove_order_id_eq)
    then show ?thesis
      by (auto simp: store_forward_def order_forward_def order_terms_def)
  next
    case (ExecuteTrade x legs)
    with ex show ?thesis by (auto simp: res_simps intro: execute_forward [OF ok])
  next
    case (AddPool x a b ra rb fee)
    with ex show ?thesis
      by (auto simp: res_simps add_liquidity_pool_iff emit_pool_added_def intro!: store_forward_same)
  qed
next
  case (trade_step_world w)
  then show ?thesis by (simp add: store_forward_same)
qed

lemma trade_step_order:
  "trade_step P T c s t \<Longrightarrow> te_ok c (test s) \<Longrightarrow> te_orders (test s) k = Some r \<Longrightarrow>
    \<exists>r'. te_orders (test t) k = Some r' \<and> order_terms r' = order_terms r
      \<and> od_filled r \<le> od_filled r' \<and> (\<not> od_active r \<longrightarrow> r' = r)"
  using trade_step_forward unfolding store_forward_def order_forward_def by blast

lemma cancel_order_effect:
  assumes "token_laws T" and ok: "te_ok c (test st)"
    and "self_addr e = c" and "cancel_order T e st x i = Inr st'"
  shows "\<exists>r. te_orders (test st) i = Some r \<and> od_owner r = x \<and> authorized e x \<and> od_active r
    \<and> moved T (tew st) (tew st') (case od_side r of Sell \<Rightarrow> od_base r | Buy \<Rightarrow> od_quote r) c x
        (case od_side r of Sell \<Rightarrow> unfilled r | Buy \<Rightarrow> quote_amount (unfilled r) (od_price r))
    \<and> te_orders (test st') = (te_orders (test st))(i \<mapsto> r\<lparr>od_status := Cancelled\<rparr>)
    \<and> i \<notin> set (side_queue (od_side r) (load_book (test st') (od_base r) (od_quote r)))"
proof -
  note d = te_okD [OF ok]
  from assms(4) obtain r w1 where g: "authorized e x" "te_orders (test st) i = Some r" "od_owner r = x" "od_active r"
    and pay: "cancel_pay T e (tew st) r w1"
    and st': "st' = \<lparr>test = emit_order_cancelled i x (remove_order_id (od_base r) (od_quote r) (od_side r) i
            (save_order (r\<lparr>od_status := Cancelled\<rparr>) (test st))), tew = w1\<rparr>"
    by (auto simp: cancel_order_iff [OF d(2)])
  have i: "od_id r = i" "order_wf c r" using d(5) [OF g(2)] by auto
  have u: "0 < unfilled r" by (rule order_wf_active [OF i(2) g(4)])
  have "i128_ok (unfilled r)"
    using i(2) u i128_between [of "unfilled r" "od_amount r"] by (simp add: order_wf_def unfilled_def)
  then have "0 \<le> quote_amount (unfilled r) (od_price r)" using quote_amount_nonneg u by simp
  then have "moved T (tew st) w1 (case od_side r of Sell \<Rightarrow> od_base r | Buy \<Rightarrow> od_quote r) c x
        (case od_side r of Sell \<Rightarrow> unfilled r | Buy \<Rightarrow> quote_amount (unfilled r) (od_price r))"
    using pay g(3) u assms(3) te_transfer_moved [OF assms(1)]
    by (cases "od_side r") (fastforce simp: cancel_pay_def)+
  moreover have "i \<notin> set (side_queue (od_side r) (load_book (test st') (od_base r) (od_quote r)))"
  proof -
    let ?lb = "load_book (test st) (od_base r) (od_quote r)"
    have "get_pair_key (bk_base ?lb) (bk_quote ?lb) = get_pair_key (od_base r) (od_quote r)"
      using load_book_ok [OF d(3)] by (simp add: book_ok_def)
    then have "load_book (test st') (od_base r) (od_quote r)
        = requeue (od_side r) (filter (\<lambda>j. j \<noteq> i) (side_queue (od_side r) ?lb)) ?lb"
      using load_book_cong [of "save_order (r\<lparr>od_status := Cancelled\<rparr>) (test st)" "test st"]
      by (simp add: st' emit_order_cancelled_def remove_order_id_eq load_book_def [of "te_publish _ _"])
    then show ?thesis by simp
  qed
  moreover have "te_orders (test st') = (te_orders (test st))(i \<mapsto> r\<lparr>od_status := Cancelled\<rparr>)"
    using i(1) by (simp add: st' emit_order_cancelled_def remove_order_id_eq)
  ultimately show ?thesis using g by (simp add: st')
qed

section \<open>Properties\<close>

text \<open>
  C11: price-time priority of the books. In every reachable state, in the book of every pair, the
  bids are sorted by descending and the asks by ascending price, at equal prices by age, and each
  queued id is a live order of that pair and side.
\<close>

theorem book_price_time_priority:
  assumes "reachable (trade_deployed T c) (trade_step typed_call T c) st"
    and "te_books (test st) key = Some b"
  shows "sorted_wrt (\<lambda>i j. prio (test st) j < prio (test st) i \<or>
        prio (test st) i = prio (test st) j \<and> i < j) (bk_bids b)
    \<and> sorted_wrt (\<lambda>i j. prio (test st) i < prio (test st) j \<or>
        prio (test st) i = prio (test st) j \<and> i < j) (bk_asks b)
    \<and> (\<forall>i \<in> set (bk_bids b). queued (test st) key Buy i)
    \<and> (\<forall>i \<in> set (bk_asks b). queued (test st) key Sell i)"
proof -
  have "book_ok (test st) key b"
    using te_ok_reachable [OF assms(1)] books_okD [OF te_okD(3) assms(2)] by blast
  then have "\<And>sd. side_queue_ok sd (test st) (side_queue sd b) \<and>
      (\<forall>i \<in> set (side_queue sd b). queued (test st) key sd i)"
    by (simp add: book_ok_def)
  from this [of Buy] this [of Sell] show ?thesis
    by (simp add: bid.queue_ok_def bid.ahead_def [abs_def] ask.queue_ok_def ask.ahead_def [abs_def])
qed

theorem book_price_time_priority_witness:
  "\<exists>st b. trade_run sep41_api (take 2 demo_te_calls) demo_te0 = Inr st
     \<and> te_books (test st) (Addr 10, Addr 11) = Some b \<and> bk_asks b = [2, 1]
     \<and> queued (test st) (Addr 10, Addr 11) Sell 2"
proof -
  obtain st b where st: "trade_run sep41_api (take 2 demo_te_calls) demo_te0 = Inr st"
    and b: "te_books (test st) (Addr 10, Addr 11) = Some b" "bk_asks b = [2, 1]"
    using demo_te_placed by blast
  from book_price_time_priority [OF demo_te_typed [OF st] b(1)] show ?thesis
    using st b by auto
qed

text \<open>
  Fill accounting. In every reachable state each stored order has its id, a positive amount
  and \<open>0 \<le> filled \<le> amount\<close>; it is \<open>Pending\<close> only when nothing is filled, \<open>PartiallyFilled\<close> only
  strictly in between, \<open>Filled\<close> only when full, and never \<open>Expired\<close>.
\<close>

theorem order_fill_accounting:
  assumes "reachable (trade_deployed T c) (trade_step typed_call T c) st"
    and "te_orders (test st) k = Some r"
  shows "od_id r = k \<and> 0 < od_amount r \<and> 0 \<le> od_filled r \<and> od_filled r \<le> od_amount r
    \<and> (case od_status r of Pending \<Rightarrow> od_filled r = 0
       | PartiallyFilled \<Rightarrow> 0 < od_filled r \<and> od_filled r < od_amount r
       | Filled \<Rightarrow> od_filled r = od_amount r
       | Cancelled \<Rightarrow> od_filled r < od_amount r
       | Expired \<Rightarrow> False)"
proof -
  have "te_ok c (test st)" using te_ok_reachable [OF assms(1)] by blast
  from te_okD(5) [OF this assms(2)] show ?thesis by (simp add: order_wf_def)
qed

theorem order_fill_accounting_witness:
  "\<exists>st r. trade_run sep41_api (take 2 demo_te_calls) demo_te0 = Inr st
     \<and> te_orders (test st) 1 = Some r \<and> od_id r = 1 \<and> od_filled r \<le> od_amount r"
proof -
  obtain st r where st: "trade_run sep41_api (take 2 demo_te_calls) demo_te0 = Inr st"
    and r: "te_orders (test st) 1 = Some r"
    using demo_te_placed by blast
  from order_fill_accounting [OF demo_te_typed [OF st] r] show ?thesis
    using st r by auto
qed

text \<open>
  What placing an order does. A successful \<open>place_order\<close> of any type takes exactly the escrow
  (the base amount of a sale, the quote of a purchase) from its authorised owner, stores a pending
  order under a fresh id, and puts it in its side's queue behind every order it does not beat on
  price. Nothing is matched, whatever stands on the other side and whatever the order type.
\<close>

theorem place_order_queues:
  assumes "token_laws T" and "reachable (trade_deployed T c) (trade_step typed_call T c) st"
    and "self_addr e = c" and "i128_ok n"
    and "place_order T e st x b q side typ price n ex = Inr (k, st')"
  shows "authorized e x \<and> te_orders (test st) k = None
    \<and> te_orders (test st') = (te_orders (test st))(k \<mapsto> new_order k x b q side typ price n (now e) ex)
    \<and> moved T (tew st) (tew st') (case side of Sell \<Rightarrow> b | Buy \<Rightarrow> q) x c
        (case side of Sell \<Rightarrow> n | Buy \<Rightarrow> quote_amount n price)
    \<and> side_queue side (load_book (test st') b q) =
        takeWhile (\<lambda>i. \<not> beats side price (prio (test st) i)) (side_queue side (load_book (test st) b q))
        @ k # dropWhile (\<lambda>i. \<not> beats side price (prio (test st) i)) (side_queue side (load_book (test st) b q))"
proof -
  have ok: "te_ok c (test st)" using te_ok_reachable [OF assms(2)] by blast
  from assms(5) obtain w1 where g: "authorized e x" "0 < n" "tew st' = w1"
    and pay: "place_pay T e (tew st) x b q side price n w1"
    by (auto simp: place_order_iff Let_def)
  have "0 \<le> quote_amount n price" using quote_amount_nonneg assms(4) g(2) by simp
  then have "moved T (tew st) w1 (case side of Sell \<Rightarrow> b | Buy \<Rightarrow> q) x c
        (case side of Sell \<Rightarrow> n | Buy \<Rightarrow> quote_amount n price)"
    using pay g(2) assms(3) te_transfer_moved [OF assms(1)]
    by (cases side) (fastforce simp: place_pay_def)+
  with place_order_writes [OF ok assms(5)] g show ?thesis by simp
qed

theorem place_order_queues_witness:
  "\<exists>st k st'. trade_run sep41_api (take 2 demo_te_calls) demo_te0 = Inr st
     \<and> place_order sep41_api (demo_env 2 103) st (Addr 2) (Addr 10) (Addr 11) Buy ImmediateOrCancel
         30000000 10 0 = Inr (k, st')
     \<and> te_orders (test st) k = None \<and> tew st' (Addr 11, Addr 0) = tew st (Addr 11, Addr 0) + 30"
proof -
  obtain st k st' where st: "trade_run sep41_api (take 2 demo_te_calls) demo_te0 = Inr st"
    and ok: "place_order sep41_api (demo_env 2 103) st (Addr 2) (Addr 10) (Addr 11) Buy ImmediateOrCancel
         30000000 10 0 = Inr (k, st')"
    by (simp add: demo_te_defs Let_def)
  have e: "self_addr (demo_env 2 103) = Addr 0" "i128_ok 10"
    by (simp_all add: demo_env_def i128_ok_def I128_MAX_def I128_MIN_def)
  have q: "quote_amount 10 30000000 = 30"
    by (simp add: quote_amount_def as_u128_def as_i128_def u_sat_mul_def PRICE_PRECISION_def)
  from place_order_queues [OF sep41_laws demo_te_typed [OF st] e ok] show ?thesis
    using st ok by (auto simp: moved_def q)
qed

text \<open>
  What cancelling does. A successful \<open>cancel_order\<close> was made by the authorised owner of a live
  order; it returns exactly the unfilled base of a sale, or the quote of the unfilled part of a
  purchase, from the engine to the owner; it marks only that order \<open>Cancelled\<close> and takes it out of
  its queue.
\<close>

theorem cancel_order_refunds:
  assumes "token_laws T" and "reachable (trade_deployed T c) (trade_step typed_call T c) st"
    and "self_addr e = c" and "cancel_order T e st x i = Inr st'"
  shows "\<exists>r. te_orders (test st) i = Some r \<and> od_owner r = x \<and> authorized e x \<and> od_active r
    \<and> moved T (tew st) (tew st') (case od_side r of Sell \<Rightarrow> od_base r | Buy \<Rightarrow> od_quote r) c x
        (case od_side r of Sell \<Rightarrow> unfilled r | Buy \<Rightarrow> quote_amount (unfilled r) (od_price r))
    \<and> te_orders (test st') = (te_orders (test st))(i \<mapsto> r\<lparr>od_status := Cancelled\<rparr>)
    \<and> i \<notin> set (side_queue (od_side r) (load_book (test st') (od_base r) (od_quote r)))"
proof -
  have "te_ok c (test st)" using te_ok_reachable [OF assms(2)] by blast
  from cancel_order_effect [OF assms(1) this assms(3,4)] show ?thesis .
qed

theorem cancel_order_refunds_witness:
  "\<exists>st st'. trade_run sep41_api (take 2 demo_te_calls) demo_te0 = Inr st
     \<and> cancel_order sep41_api (demo_env 1 103) st (Addr 1) 1 = Inr st'
     \<and> tew st' (Addr 10, Addr 1) = tew st (Addr 10, Addr 1) + 100"
proof -
  obtain st r where st: "trade_run sep41_api (take 2 demo_te_calls) demo_te0 = Inr st"
    and r: "te_orders (test st) 1 = Some r" "od_side r = Sell" "od_base r = Addr 10" "unfilled r = 100"
    and pre: "\<exists>st'. cancel_order sep41_api (demo_env 1 103) st (Addr 1) 1 = Inr st'"
    by (simp add: demo_te_defs unfilled_def Let_def)
  from pre obtain st' where ok: "cancel_order sep41_api (demo_env 1 103) st (Addr 1) 1 = Inr st'" ..
  have e: "self_addr (demo_env 1 103) = Addr 0" by (simp add: demo_env_def)
  from cancel_order_refunds [OF sep41_laws demo_te_typed [OF st] e ok] show ?thesis
    using st ok r by (auto simp: moved_def)
qed

text \<open>
  Orders only move forward. Along any run a stored order keeps its owner, assets, side, price,
  amount and expiry, its filled amount never falls, and once \<open>Filled\<close> or \<open>Cancelled\<close> it never
  changes again.
\<close>

theorem orders_move_forward:
  assumes "reachable (trade_deployed T c) (trade_step typed_call T c) st"
    and "(trade_step typed_call T c)\<^sup>*\<^sup>* st st'" and "te_orders (test st) k = Some r"
  shows "\<exists>r'. te_orders (test st') k = Some r' \<and> order_terms r' = order_terms r
    \<and> od_filled r \<le> od_filled r' \<and> (\<not> od_active r \<longrightarrow> r' = r)"
proof (rule trade_machine.stable_rtranclp [OF _ assms(2)])
  fix s t :: "'a trade_sys"
  assume "(\<forall>k. typed_call k \<longrightarrow> typed_call k) \<longrightarrow> te_ok c (test s)" and step: "trade_step typed_call T c s t"
    and "\<exists>r1. te_orders (test s) k = Some r1 \<and> order_terms r1 = order_terms r
      \<and> od_filled r \<le> od_filled r1 \<and> (\<not> od_active r \<longrightarrow> r1 = r)"
  then obtain r1 where ok: "te_ok c (test s)" and r1: "te_orders (test s) k = Some r1"
      "order_terms r1 = order_terms r" "od_filled r \<le> od_filled r1" "\<not> od_active r \<longrightarrow> r1 = r" by blast
  from trade_step_order [OF step ok r1(1)] obtain r2 where "te_orders (test t) k = Some r2"
      "order_terms r2 = order_terms r1" "od_filled r1 \<le> od_filled r2" "\<not> od_active r1 \<longrightarrow> r2 = r1" by blast
  with r1 show "\<exists>r2. te_orders (test t) k = Some r2 \<and> order_terms r2 = order_terms r
      \<and> od_filled r \<le> od_filled r2 \<and> (\<not> od_active r \<longrightarrow> r2 = r)"
    by auto
qed (use trade_machine.inv_reachable [OF assms(1)] assms(3) in auto)

theorem orders_move_forward_witness:
  "\<exists>st rs st' r'. trade_run sep41_api (take 2 demo_te_calls) demo_te0 = Inr st
     \<and> execute_multi_pair_trade sep41_api (demo_env 2 102) st (Addr 2) [demo_leg] = Inr (rs, st')
     \<and> te_orders (test st') 1 = Some r' \<and> 0 \<le> od_filled r'"
proof -
  obtain st rs st' r where st: "trade_run sep41_api (take 2 demo_te_calls) demo_te0 = Inr st"
    and x: "execute_multi_pair_trade sep41_api (demo_env 2 102) st (Addr 2) [demo_leg] = Inr (rs, st')"
    using demo_te_traded by blast
  obtain r where r: "te_orders (test st) 1 = Some r" "od_filled r = 0"
    using demo_te_placed st by auto
  have "trade_step typed_call sep41_api (Addr 0) st st'"
    by (rule trade_step_call [of "demo_env 2 102" _ _ "ExecuteTrade (Addr 2) [demo_leg]"])
      (use x in \<open>simp_all add: demo_env_def demo_leg_def i128_ok_def I128_MAX_def I128_MIN_def\<close>)
  then have "(trade_step typed_call sep41_api (Addr 0))\<^sup>*\<^sup>* st st'" by blast
  from orders_move_forward [OF demo_te_typed [OF st] this r(1)] show ?thesis
    using st x r(2) by auto
qed

text \<open>
  Properties of trading: what a trade reports and at which prices, the pool curve, solvency of the
  engine and availability of cancellation, and the runs that break them.
\<close>

section \<open>Runs for witnesses\<close>

lemma demo_te_read:
  "\<exists>st fs st'. trade_run sep41_api (take 2 demo_te_calls) demo_te0 = Inr st
     \<and> match_leg sep41_api (demo_env 2 102) (Addr 2) demo_leg st = Inr (fs, st')
     \<and> map fl_price fs = [10000000, 20000000] \<and> map fl_base fs = [50, 30]"
  by (simp add: demo_te_defs Let_def min_def)

section \<open>Trading\<close>

text \<open>
  C3: a leg is filled completely, at the prices asked for. The fills of a successful leg add up to
  exactly the requested base amount, each is positive and within the limit price, and a sale brings at
  least the minimum output. Each fill that is not from the pool is of an active order of the opposite
  side and the same pair: it names the owner as the maker, takes at most what the order has open, and
  has exactly the price of the order and the quote amount at that price.
\<close>

theorem leg_filled_within_limit:
  assumes "reachable (trade_deployed T c) (trade_step typed_call T c) st"
    and "match_leg T e trader leg st = Inr (fs, st')"
  shows "sum_list (map fl_base fs) = lg_amount leg
    \<and> (\<forall>f \<in> set fs. 0 < fl_base f \<and> price_ok leg (fl_price f)
        \<and> (\<not> fl_via_pool f \<longrightarrow> (\<exists>r. te_orders (test st) (fl_order_id f) = Some r \<and> od_active r
             \<and> od_side r \<noteq> lg_side leg \<and> get_pair_key (od_base r) (od_quote r) = get_pair_key (lg_base leg) (lg_quote leg)
             \<and> fl_maker f = od_owner r \<and> fl_base f \<le> od_amount r - od_filled r
             \<and> fl_price f = od_price r \<and> fl_quote f = quote_amount (fl_base f) (od_price r))))
    \<and> (lg_side leg = Sell \<longrightarrow> 0 < lg_min_output leg \<longrightarrow> lg_min_output leg \<le> sum_list (map fl_quote fs))"
proof -
  have ok: "te_ok c (test st)" using te_ok_reachable [OF assms(1)] by blast
  have "opp sd \<noteq> sd" for sd by (simp add: opp_def split: order_side.splits)
  then have "\<exists>r. te_orders (test st) (fl_order_id f) = Some r \<and> od_active r
      \<and> od_side r \<noteq> lg_side leg \<and> get_pair_key (od_base r) (od_quote r) = get_pair_key (lg_base leg) (lg_quote leg)
      \<and> fl_maker f = od_owner r \<and> fl_base f \<le> od_amount r - od_filled r
      \<and> fl_price f = od_price r \<and> fl_quote f = quote_amount (fl_base f) (od_price r)"
    if "f \<in> set fs" "\<not> fl_via_pool f" for f
    using match_leg_fills(3) [OF ok assms(2)] that by (fastforce simp: at_maker_price_def order_key_def)
  with match_leg_fills(1,2,4) [OF ok assms(2)] show ?thesis by blast
qed

theorem leg_filled_within_limit_witness:
  "\<exists>st fs st'. trade_run sep41_api (take 2 demo_te_calls) demo_te0 = Inr st
     \<and> match_leg sep41_api (demo_env 2 102) (Addr 2) demo_leg st = Inr (fs, st')
     \<and> sum_list (map fl_base fs) = 80 \<and> (\<forall>f \<in> set fs. fl_price f \<le> 30000000)"
proof -
  obtain st fs st' where st: "trade_run sep41_api (take 2 demo_te_calls) demo_te0 = Inr st"
    and l: "match_leg sep41_api (demo_env 2 102) (Addr 2) demo_leg st = Inr (fs, st')"
    using demo_te_read by blast
  from leg_filled_within_limit [OF demo_te_typed [OF st] l] show ?thesis
    using st l by (auto simp: demo_leg_def price_ok_def)
qed

text \<open>
  Price-time priority of execution. If a leg fills some queued order, then every order ahead
  of it in the queue, by price and then age, has been filled completely by the end of the leg or
  has expired.
\<close>

theorem leg_respects_priority:
  assumes "reachable (trade_deployed T c) (trade_step typed_call T c) st"
    and "match_leg T e trader leg st = Inr (fs, st')"
    and "side_queue (opp (lg_side leg)) (load_book (test st) (lg_base leg) (lg_quote leg)) = pre @ i # mid @ j # post"
    and "f \<in> set fs" and "\<not> fl_via_pool f" and "fl_order_id f = j"
  shows "\<exists>r. te_orders (test st') i = Some r \<and> (od_status r = Filled \<or> od_expired e r)"
proof -
  have ok: "te_ok c (test st)" using te_ok_reachable [OF assms(1)] by blast
  have "j \<in> set (map fl_order_id (filter (\<lambda>f. \<not> fl_via_pool f) fs))" using assms(4-6) by auto
  with match_leg_fills(5) [OF ok assms(2)] show ?thesis
    by (simp add: assms(3) sorted_wrt_append done_or_expired_def)
qed

theorem leg_respects_priority_witness:
  "\<exists>st fs st' r. trade_run sep41_api (take 2 demo_te_calls) demo_te0 = Inr st
     \<and> match_leg sep41_api (demo_env 2 102) (Addr 2) demo_leg st = Inr (fs, st')
     \<and> te_orders (test st') 2 = Some r \<and> (od_status r = Filled \<or> od_expired (demo_env 2 102) r)"
proof -
  obtain st fs st' where st: "trade_run sep41_api (take 2 demo_te_calls) demo_te0 = Inr st"
    and l: "match_leg sep41_api (demo_env 2 102) (Addr 2) demo_leg st = Inr (fs, st')"
    and q: "side_queue Sell (load_book (test st) (Addr 10) (Addr 11)) = [] @ 2 # [] @ 1 # []"
    and fs: "map fl_order_id fs = [2, 1]" "map fl_via_pool fs = [False, False]"
    by (simp add: demo_te_defs Let_def min_def side_queue_def)
  have q': "side_queue (opp (lg_side demo_leg)) (load_book (test st) (lg_base demo_leg) (lg_quote demo_leg))
      = [] @ 2 # [] @ 1 # []"
    using q by (simp add: demo_leg_def opp_def)
  obtain f g where fg: "fs = [f, g]" "fl_order_id g = 1" "\<not> fl_via_pool g"
    using fs by (auto simp: map_eq_Cons_conv)
  from leg_respects_priority [OF demo_te_typed [OF st] l q', of g] show ?thesis
    using st l fg by auto
qed

text \<open>
  A multi-leg trade executes every leg in full or returns an error. On success the result
  reports as many executed legs as were given, and its fills add up to the total of all legs.
\<close>

theorem trade_executes_all_legs:
  assumes "reachable (trade_deployed T c) (trade_step typed_call T c) st"
    and "execute_multi_pair_trade T e st x legs = Inr (rs, st')"
  shows "authorized e x \<and> legs \<noteq> [] \<and> xr_success rs \<and> xr_legs_executed rs = length legs
    \<and> sum_list (map fl_base (xr_fills rs)) = sum_list (map lg_amount legs)"
proof -
  have ok: "te_ok c (test st)" using te_ok_reachable [OF assms(1)] by blast
  from assms(2) obtain n fs st1 where g: "authorized e x" "legs \<noteq> []"
    and r: "run_legs T e x legs 0 [] st = Inr (n, fs, st1)"
    and rs: "rs = \<lparr>xr_success = True, xr_legs_executed = n, xr_fills = fs\<rparr>"
    by (auto simp: execute_iff)
  from run_legs_fills [OF r ok] g rs show ?thesis by simp
qed

theorem trade_executes_all_legs_witness:
  "\<exists>st rs st'. trade_run sep41_api (take 2 demo_te_calls) demo_te0 = Inr st
     \<and> execute_multi_pair_trade sep41_api (demo_env 2 102) st (Addr 2) [demo_leg] = Inr (rs, st')
     \<and> xr_legs_executed rs = 1 \<and> sum_list (map fl_base (xr_fills rs)) = 80"
proof -
  obtain st rs st' where st: "trade_run sep41_api (take 2 demo_te_calls) demo_te0 = Inr st"
    and x: "execute_multi_pair_trade sep41_api (demo_env 2 102) st (Addr 2) [demo_leg] = Inr (rs, st')"
    using demo_te_traded by blast
  from trade_executes_all_legs [OF demo_te_typed [OF st] x] show ?thesis
    using st x by (auto simp: demo_leg_def)
qed

section \<open>Pools\<close>

text \<open>
  Buying from a pool does not lower its product. When nothing in the computation saturates and
  the fee is at most 100 percent, the amount paid leaves the product of the reserves larger than
  before.
\<close>

theorem pool_buy_keeps_product:
  assumes "pool_buy_quote rem rin rout fee = Inr (Some q)" and "0 < rem" and "fee \<le> 10000"
    and "i128_ok (rin * rem * 10000)" and "i128_ok ((rout - rem) * (10000 - int fee))" and "i128_ok rout"
  shows "rin * rout < (rin + q) * (rout - rem)"
proof -
  have "(rin + q) * (rout - rem) = rin * rout - rin * rem + q * (rout - rem)"
    by (simp add: algebra_simps)
  with pool_buy_quote_curve [OF assms] show ?thesis by linarith
qed

theorem pool_buy_keeps_product_witness:
  "\<exists>q. pool_buy_quote 100 1000 2000 30 = Inr (Some q) \<and> 1000 * 2000 < (1000 + q) * (2000 - 100)"
proof -
  obtain q where q: "pool_buy_quote 100 1000 2000 30 = Inr (Some q)"
    by (simp add: pool_buy_quote_def Let_def i_sat_sub_def i_sat_mul_def i_clamp_def I128_MAX_def
        I128_MIN_def i_div_def i_check_def i_add_def i128_ok_def signed_divide_int_def)
  from pool_buy_keeps_product [OF q] show ?thesis
    using q by (auto simp: i128_ok_def I128_MAX_def I128_MIN_def)
qed

text \<open>
  Selling to a pool does not lower its product and cannot empty it. When nothing saturates and
  the fee is at most 100 percent, the amount paid out is less than the reserve, and the product of
  the reserves does not fall.
\<close>

theorem pool_sell_keeps_product:
  assumes "get_amount_out x rin rout fee = Inr y" and "fee \<le> 10000"
    and "i128_ok (x * (10000 - int fee) * rout)" and "i128_ok (rin * 10000 + x * (10000 - int fee))"
  shows "y < rout \<and> rin * rout \<le> (rin + x) * (rout - y)"
proof -
  have "(rin + x) * (rout - y) = rin * rout + x * rout - y * (rin + x)"
    by (simp add: algebra_simps)
  with get_amount_out_curve [OF assms] show ?thesis by linarith
qed

theorem pool_sell_keeps_product_witness:
  "\<exists>y. get_amount_out 100 1000 2000 30 = Inr y \<and> 1000 * 2000 \<le> (1000 + 100) * (2000 - y)"
proof -
  obtain y where y: "get_amount_out 100 1000 2000 30 = Inr y"
    by (simp add: get_amount_out_def Let_def i_sat_sub_def i_sat_add_def i_sat_mul_def i_clamp_def
        I128_MAX_def I128_MIN_def i_div_def i_check_def i128_ok_def signed_divide_int_def)
  from pool_sell_keeps_product [OF y] show ?thesis
    using y by (auto simp: i128_ok_def I128_MAX_def I128_MIN_def)
qed

text \<open>
  A saturated quote sells the reserve for almost nothing. With reserves of \<open>10^20\<close> on both
  sides, a tenth of one reserve is sold for less than \<open>2 * 10^14\<close>, some fifty thousand times below
  the curve, because the numerator saturates: the product of the reserves falls.
\<close>

theorem saturated_pool_underprices:
  "\<exists>q. pool_buy_quote (10 ^ 19) (10 ^ 20) (10 ^ 20) 30 = Inr (Some q) \<and> q < 2 * 10 ^ 14
     \<and> (10 ^ 20 + q) * (10 ^ 20 - 10 ^ 19) < 10 ^ 20 * 10 ^ 20"
  by (simp add: pool_buy_quote_def Let_def i_sat_sub_def i_sat_mul_def i_clamp_def I128_MAX_def
      I128_MIN_def i_div_def i_check_def i_add_def i128_ok_def signed_divide_int_def)

text \<open>
  A fee above 100 percent empties the pool. \<open>add_liquidity_pool\<close> does not bound the fee; with
  one of 300 percent the fee multiplier is negative and a sale of any large amount takes the
  entire output reserve.
\<close>

theorem excessive_fee_empties_pool:
  "get_amount_out 1000000 10 1000 30000 = Inr 1000"
  by (simp add: get_amount_out_def Let_def i_sat_sub_def i_sat_add_def i_sat_mul_def i_clamp_def
      I128_MAX_def I128_MIN_def i_div_def i_check_def i128_ok_def signed_divide_int_def)

section \<open>Solvency\<close>

text \<open>
  C5: solvency of the engine for aligned callers. In every state reachable by calls that name each
  pair in one orientation and place orders whose quote does not saturate, the engine holds in every
  asset at least what it owes: the unfilled base of live sales, the quote of the unfilled part of
  live purchases, and the reserves of all pools.
\<close>

theorem engine_solvent:
  assumes "token_laws T" and "reachable (trade_deployed T c) (trade_step aligned_call T c) st"
  shows "(\<Sum>k\<in>dom (te_orders (test st)). order_locked a (the (te_orders (test st) k)))
    + (\<Sum>k\<in>dom (te_pools (test st)). pool_locked a (the (te_pools (test st) k))) \<le> bal T (tew st) a c"
  using aligned_machine.inv_reachable [OF assms(2)] assms(1)
  by (simp add: te_inv_def te_owed_def orders_owed_def pools_owed_def map_total_def)

theorem engine_solvent_witness:
  "\<exists>st. trade_run sep41_api (take 2 demo_te_calls) demo_te0 = Inr st \<and> te_orders (test st) 1 \<noteq> None
     \<and> (\<Sum>k\<in>dom (te_orders (test st)). order_locked (Addr 10) (the (te_orders (test st) k)))
       + (\<Sum>k\<in>dom (te_pools (test st)). pool_locked (Addr 10) (the (te_pools (test st) k))) \<le> 150"
proof -
  obtain st where st: "trade_run sep41_api (take 2 demo_te_calls) demo_te0 = Inr st"
    and w: "te_orders (test st) 1 \<noteq> None" "tew st (Addr 10, Addr 0) = 150"
    using demo_te_placed by auto
  from engine_solvent [OF sep41_laws demo_te_reachable [OF st], of "Addr 10"] show ?thesis
    using st w by auto
qed

text \<open>
  Escrowed funds can always be withdrawn. In every state reachable by aligned calls, the owner
  of any live order, expired or not and in the book or not, can cancel it and is paid the order's
  whole remaining escrow, on any token that lets a holder pay out what it holds.
\<close>

theorem cancel_order_available:
  assumes "token_laws T" and "token_pays_void T"
    and "reachable (trade_deployed T c) (trade_step aligned_call T c) st" and "self_addr e = c"
    and "te_orders (test st) i = Some r" and "od_active r" and "authorized e (od_owner r)"
  shows "\<exists>st'. cancel_order T e st (od_owner r) i = Inr st'
    \<and> moved T (tew st) (tew st') (case od_side r of Sell \<Rightarrow> od_base r | Buy \<Rightarrow> od_quote r) c (od_owner r)
        (case od_side r of Sell \<Rightarrow> unfilled r | Buy \<Rightarrow> quote_amount (unfilled r) (od_price r))"
proof -
  have inv: "te_inv T c st" using aligned_machine.inv_reachable [OF assms(3)] assms(1) by simp
  have ok: "te_ok c (test st)" using inv by (simp add: te_inv_def)
  have pays: "\<exists>w'. te_transfer T e (tew st) a (self_addr e) y n = Inr w'"
    if "n \<le> bal T (tew st) a c" for a y n
    using that assms(2,4) unfolding token_pays_void_def te_transfer_eq_Inr by (cases "0 < n") auto
  have "\<exists>w'. cancel_pay T e (tew st) r w'"
  proof (cases "od_side r")
    case Buy
    then show ?thesis
      using order_covered [OF inv assms(5), of "od_quote r"] assms(6) pays
      by (simp add: cancel_pay_def order_locked_def)
  next
    case Sell
    then show ?thesis
      using order_covered [OF inv assms(5), of "od_base r"] assms(6) pays
      by (simp add: cancel_pay_def order_locked_def)
  qed
  with assms(5-7) obtain st' where c: "cancel_order T e st (od_owner r) i = Inr st'"
    by (auto simp: cancel_order_iff [OF te_okD(2) [OF ok]])
  from cancel_order_effect [OF assms(1) ok assms(4) c] assms(5) c show ?thesis by auto
qed

theorem cancel_order_available_witness:
  "\<exists>st st'. trade_run sep41_api (take 2 demo_te_calls) demo_te0 = Inr st
     \<and> cancel_order sep41_api (demo_env 1 900) st (Addr 1) 1 = Inr st'"
proof -
  obtain st r where st: "trade_run sep41_api (take 2 demo_te_calls) demo_te0 = Inr st"
    and r: "te_orders (test st) 1 = Some r" "od_status r = Pending" "od_owner r = Addr 1"
    using demo_te_placed by blast
  have e: "self_addr (demo_env 1 900) = Addr 0" "authorized (demo_env 1 900) (od_owner r)"
    by (simp_all add: demo_env_def r)
  have "od_active r" by (simp add: od_active_def r)
  from cancel_order_available [OF sep41_laws sep41_pays demo_te_reachable [OF st] e(1) r(1) this e(2)]
  show ?thesis using st r by auto
qed

text \<open>
  A leg in the opposite orientation pays out other people's escrow. The book of a pair is
  shared by both orientations, but a leg settles in its own assets: address 1 escrows 100 of its
  asset 10 at a price of nothing, takes that order with a leg for asset 11, and leaves with the 100
  of asset 11 that address 2 had escrowed. The order of address 2 is still live for 100 of asset 11,
  of which the engine has nothing left, and cancelling it fails.
\<close>

theorem reversed_leg_takes_escrow:
  "\<exists>st r. trade_run sep41_api reversed_calls demo_te0 = Inr st
     \<and> te_orders (test st) 1 = Some r \<and> od_owner r = Addr 2 \<and> od_active r \<and> od_side r = Sell
     \<and> od_base r = Addr 11 \<and> unfilled r = 100
     \<and> tew st (Addr 11, Addr 0) = 0 \<and> tew st (Addr 11, Addr 1) = 100
     \<and> cancel_order sep41_api (demo_env 2 103) st (Addr 2) 1 = Inl Trap"
  by (simp add: demo_te_defs reversed_calls_def Let_def min_def unfilled_def)

text \<open>
  A market sale is given away. A \<open>Market\<close> order is accepted with price 0 and is not executed
  but queued at that price: the next buyer takes all of it and pays nothing.
\<close>

theorem market_sale_given_away:
  "\<exists>st. trade_run sep41_api market_calls demo_te0 = Inr st
     \<and> tew st (Addr 10, Addr 1) = 400 \<and> tew st (Addr 10, Addr 2) = 100
     \<and> tew st (Addr 11, Addr 1) = 0 \<and> tew st (Addr 11, Addr 2) = 500"
  by (simp add: demo_te_defs market_calls_def Let_def min_def)

section \<open>The summary of a book\<close>

text \<open>
  The summary shows the worst bids. The bid levels of \<open>get_orderbook\<close> are in ascending order of
  price, so cutting them to \<open>max_levels\<close> drops the best ones: every live bid price that is not
  shown is higher than every price that is shown.
\<close>

theorem summary_drops_best_bids:
  assumes "i \<in> set (bk_bids (load_book (test st) base quote))" and "summary_live e (test st) i"
    and "prio (test st) i \<notin> set (map lv_price (sm_bids (get_orderbook e st base quote n)))"
    and "p \<in> set (map lv_price (sm_bids (get_orderbook e st base quote n)))"
  shows "p < prio (test st) i"
proof -
  let ?m = "aggregate e (test st) (bk_bids (load_book (test st) base quote)) []"
  let ?ps = "map fst ?m"
  have shown: "map lv_price (sm_bids (get_orderbook e st base quote n)) = take n ?ps"
    by (simp add: get_orderbook_def get_summary_def Let_def levels_of_prices)
  have sorted: "sorted_wrt (<) ?ps" by (rule aggregate_sorted) simp
  have "prio (test st) i \<in> set ?ps" using assms(1,2) by (simp add: aggregate_keys [simplified])
  then have "prio (test st) i \<in> set (drop n ?ps)"
    using assms(3) unfolding shown by (metis Un_iff append_take_drop_id set_append)
  moreover have "sorted_wrt (<) (take n ?ps @ drop n ?ps)" using sorted by simp
  ultimately show ?thesis
    using assms(4) unfolding shown sorted_wrt_append by blast
qed

definition two_bids :: "(env \<times> trade_call) list" where
  "two_bids =
     [(demo_env 2 100, PlaceOrder (Addr 2) (Addr 10) (Addr 11) Buy Limit 10000000 10 0),
      (demo_env 2 101, PlaceOrder (Addr 2) (Addr 10) (Addr 11) Buy Limit 20000000 10 0)]"

theorem summary_drops_best_bids_witness:
  "\<exists>st p. trade_run sep41_api two_bids demo_te0 = Inr st
     \<and> map lv_price (sm_bids (get_orderbook (demo_env 1 102) st (Addr 10) (Addr 11) 1)) = [p]
     \<and> p < prio (test st) 2 \<and> prio (test st) 2 = 20000000"
proof -
  obtain st where st: "trade_run sep41_api two_bids demo_te0 = Inr st"
    and q: "bk_bids (load_book (test st) (Addr 10) (Addr 11)) = [2, 1]" "prio (test st) 2 = 20000000"
      "summary_live (demo_env 1 102) (test st) 2"
    and sm: "map lv_price (sm_bids (get_orderbook (demo_env 1 102) st (Addr 10) (Addr 11) 1)) = [10000000]"
    by (simp add: demo_te_defs two_bids_def Let_def prio_def summary_live_def get_orderbook_def
        get_summary_def levels_of_def level_get_def)
  have "(10000000 :: nat) < prio (test st) 2"
    by (rule summary_drops_best_bids [of 2 st "Addr 10" "Addr 11" "demo_env 1 102" 1])
      (use q sm in auto)
  with st sm q show ?thesis by auto
qed

end
