(* ===== verification/Governance.thy ===== *)
theory Governance
  imports Soroban
begin

text \<open>
  The governance contract (\<open>swaptrade-contracts/governance/src\<close>): proposals that a quorum of
  signers approves and that take effect after a timelock, and the upgradeable proxy beside them.
  Types, events, storage module, controller, proxy and entry points in the order of the source.
\<close>

section \<open>Types (errors.rs, storage.rs, events.rs)\<close>

datatype governance_error =
    NotInitialized | AlreadyInitialized | NotGovernance | NotSigner | NotProposer
  | InvalidThreshold | ThresholdExceeded | InsufficientSignatures | DuplicateSignature
  | ProposalNotFound | ProposalAlreadyExecuted | ProposalExpired | AlreadySigned | CannotReclaim
  | TimelockNotElapsed | TimelockTooShort
  | InvalidImplementation | UpgradeNotScheduled | UpgradeAlreadyExecuted | ImplementationUnchanged
  | ContractPaused | ContractNotPaused
  | InvalidAddress | InvalidNonce | ZeroThreshold | EmptySigners

datatype proposal_action =
    Pause
  | Unpause
  | Upgrade address
  | AddSigner address
  | RemoveSigner address
  | SetThreshold nat
  | SetTimelockDelay nat

record proposal =
  pr_id :: nat
  pr_proposer :: address
  pr_action :: proposal_action
  pr_signatures :: "address list"
  pr_threshold :: nat
  pr_created_at :: nat
  pr_execute_after :: nat
  pr_executed :: bool
  pr_canceled :: bool
  pr_nonce :: nat

datatype governance_event =
    EvProposalCreated nat address string nat
  | EvProposalSigned nat address nat nat
  | EvProposalExecuted nat address nat
  | EvProposalCanceled nat address nat
  | EvPaused address nat
  | EvUnpaused address nat
  | EvUpgraded nat address address nat
  | EvSignerAdded address nat
  | EvSignerRemoved address nat
  | EvThresholdUpdated nat nat nat

section \<open>Storage (storage.rs)\<close>

text \<open>One field per storage key; \<open>None\<close> is a key that has not been written.\<close>

record gov_storage =
  gv_signers :: "address list option"
  gv_threshold :: "nat option"
  gv_proposals :: "(nat \<rightharpoonup> proposal) option"
  gv_proposal_count :: "nat option"
  gv_paused :: "bool option"
  gv_initialized :: "bool option"
  gv_timelock_delay :: "nat option"
  gv_implementation :: "address option"
  gv_upgrade_scheduled :: "address option"
  gv_nonce :: "nat option"
  gv_log :: "governance_event list"

definition gov_storage0 :: gov_storage where
  "gov_storage0 = \<lparr>gv_signers = None, gv_threshold = None, gv_proposals = None,
     gv_proposal_count = None, gv_paused = None, gv_initialized = None, gv_timelock_delay = None,
     gv_implementation = None, gv_upgrade_scheduled = None, gv_nonce = None, gv_log = []\<rparr>"

definition unwrap_or :: "'a option \<Rightarrow> 'a \<Rightarrow> 'a" where
  "unwrap_or x d = (case x of None \<Rightarrow> d | Some v \<Rightarrow> v)"

definition gov_load_signers :: "gov_storage \<Rightarrow> address list" where
  "gov_load_signers s = unwrap_or (gv_signers s) []"

definition gov_store_signers :: "address list \<Rightarrow> gov_storage \<Rightarrow> gov_storage" where
  "gov_store_signers xs s = s\<lparr>gv_signers := Some xs\<rparr>"

definition gov_load_threshold :: "gov_storage \<Rightarrow> nat" where
  "gov_load_threshold s = unwrap_or (gv_threshold s) 0"

definition gov_store_threshold :: "nat \<Rightarrow> gov_storage \<Rightarrow> gov_storage" where
  "gov_store_threshold n s = s\<lparr>gv_threshold := Some n\<rparr>"

definition load_paused :: "gov_storage \<Rightarrow> bool" where
  "load_paused s = unwrap_or (gv_paused s) False"

definition store_paused :: "bool \<Rightarrow> gov_storage \<Rightarrow> gov_storage" where
  "store_paused b s = s\<lparr>gv_paused := Some b\<rparr>"

definition load_initialized :: "gov_storage \<Rightarrow> bool" where
  "load_initialized s = unwrap_or (gv_initialized s) False"

definition store_initialized :: "bool \<Rightarrow> gov_storage \<Rightarrow> gov_storage" where
  "store_initialized b s = s\<lparr>gv_initialized := Some b\<rparr>"

definition load_timelock_delay :: "gov_storage \<Rightarrow> nat" where
  "load_timelock_delay s = unwrap_or (gv_timelock_delay s) 0"

definition store_timelock_delay :: "nat \<Rightarrow> gov_storage \<Rightarrow> gov_storage" where
  "store_timelock_delay n s = s\<lparr>gv_timelock_delay := Some n\<rparr>"

definition load_implementation :: "gov_storage \<Rightarrow> (address, governance_error) res" where
  "load_implementation s = ok_or (gv_implementation s) Trap"

definition store_implementation :: "address \<Rightarrow> gov_storage \<Rightarrow> gov_storage" where
  "store_implementation a s = s\<lparr>gv_implementation := Some a\<rparr>"

definition load_proposals :: "gov_storage \<Rightarrow> (nat \<rightharpoonup> proposal)" where
  "load_proposals s = unwrap_or (gv_proposals s) Map.empty"

definition store_proposals :: "(nat \<rightharpoonup> proposal) \<Rightarrow> gov_storage \<Rightarrow> gov_storage" where
  "store_proposals m s = s\<lparr>gv_proposals := Some m\<rparr>"

definition load_proposal_count :: "gov_storage \<Rightarrow> nat" where
  "load_proposal_count s = unwrap_or (gv_proposal_count s) 0"

definition store_proposal_count :: "nat \<Rightarrow> gov_storage \<Rightarrow> gov_storage" where
  "store_proposal_count n s = s\<lparr>gv_proposal_count := Some n\<rparr>"

definition load_nonce :: "gov_storage \<Rightarrow> nat" where
  "load_nonce s = unwrap_or (gv_nonce s) 0"

definition store_nonce :: "nat \<Rightarrow> gov_storage \<Rightarrow> gov_storage" where
  "store_nonce n s = s\<lparr>gv_nonce := Some n\<rparr>"

definition load_upgrade_scheduled :: "gov_storage \<Rightarrow> address option" where
  "load_upgrade_scheduled s = gv_upgrade_scheduled s"

definition store_upgrade_scheduled :: "address option \<Rightarrow> gov_storage \<Rightarrow> gov_storage" where
  "store_upgrade_scheduled x s =
     (case x of Some a \<Rightarrow> s\<lparr>gv_upgrade_scheduled := Some a\<rparr> | None \<Rightarrow> s\<lparr>gv_upgrade_scheduled := None\<rparr>)"

section \<open>Events (events.rs)\<close>

definition gov_publish :: "governance_event \<Rightarrow> gov_storage \<Rightarrow> gov_storage" where
  "gov_publish ev s = s\<lparr>gv_log := gv_log s @ [ev]\<rparr>"

definition proposal_created :: "env \<Rightarrow> nat \<Rightarrow> address \<Rightarrow> string \<Rightarrow> gov_storage \<Rightarrow> gov_storage" where
  "proposal_created e i x act = gov_publish (EvProposalCreated i x act (now e))"

definition proposal_signed :: "env \<Rightarrow> nat \<Rightarrow> address \<Rightarrow> nat \<Rightarrow> gov_storage \<Rightarrow> gov_storage" where
  "proposal_signed e i x n = gov_publish (EvProposalSigned i x n (now e))"

definition proposal_executed :: "env \<Rightarrow> nat \<Rightarrow> address \<Rightarrow> gov_storage \<Rightarrow> gov_storage" where
  "proposal_executed e i x = gov_publish (EvProposalExecuted i x (now e))"

definition proposal_canceled :: "env \<Rightarrow> nat \<Rightarrow> address \<Rightarrow> gov_storage \<Rightarrow> gov_storage" where
  "proposal_canceled e i x = gov_publish (EvProposalCanceled i x (now e))"

definition paused :: "env \<Rightarrow> address \<Rightarrow> gov_storage \<Rightarrow> gov_storage" where
  "paused e x = gov_publish (EvPaused x (now e))"

definition unpaused :: "env \<Rightarrow> address \<Rightarrow> gov_storage \<Rightarrow> gov_storage" where
  "unpaused e x = gov_publish (EvUnpaused x (now e))"

definition upgraded :: "env \<Rightarrow> nat \<Rightarrow> address \<Rightarrow> address \<Rightarrow> gov_storage \<Rightarrow> gov_storage" where
  "upgraded e i a b = gov_publish (EvUpgraded i a b (now e))"

definition signer_added :: "env \<Rightarrow> address \<Rightarrow> gov_storage \<Rightarrow> gov_storage" where
  "signer_added e x = gov_publish (EvSignerAdded x (now e))"

definition signer_removed :: "env \<Rightarrow> address \<Rightarrow> gov_storage \<Rightarrow> gov_storage" where
  "signer_removed e x = gov_publish (EvSignerRemoved x (now e))"

definition threshold_updated :: "env \<Rightarrow> nat \<Rightarrow> nat \<Rightarrow> gov_storage \<Rightarrow> gov_storage" where
  "threshold_updated e a b = gov_publish (EvThresholdUpdated a b (now e))"

section \<open>The controller (governance\_controller.rs)\<close>

fun action_symbol :: "proposal_action \<Rightarrow> string" where
  "action_symbol Pause = ''pause''"
| "action_symbol Unpause = ''unpause''"
| "action_symbol (Upgrade _) = ''upgrade''"
| "action_symbol (AddSigner _) = ''add_sgnr''"
| "action_symbol (RemoveSigner _) = ''rm_sgnr''"
| "action_symbol (SetThreshold _) = ''set_thr''"
| "action_symbol (SetTimelockDelay _) = ''set_tl''"

definition propose :: "env \<Rightarrow> gov_storage \<Rightarrow> address \<Rightarrow> proposal_action
    \<Rightarrow> (nat \<times> gov_storage, governance_error) res" where
  "propose e s proposer action =
     bindR (require_auth e proposer) (\<lambda>_.
     let signers = gov_load_signers s in
     bindR (ensure (signers \<noteq> []) (Err EmptySigners)) (\<lambda>_.
     bindR (ensure (proposer \<in> set signers) (Err NotSigner)) (\<lambda>_.
     bindR (u_add 64 (load_nonce s) 1) (\<lambda>nonce.
     let s1 = store_nonce nonce s;
         proposal_id = load_proposal_count s1;
         proposal = \<lparr>pr_id = proposal_id, pr_proposer = proposer, pr_action = action,
           pr_signatures = [], pr_threshold = gov_load_threshold s1, pr_created_at = now e,
           pr_execute_after = u_sat_add 64 (now e) (load_timelock_delay s1),
           pr_executed = False, pr_canceled = False, pr_nonce = nonce\<rparr>;
         s2 = store_proposals ((load_proposals s1)(proposal_id \<mapsto> proposal)) s1
     in bindR (u_add 64 proposal_id 1) (\<lambda>count.
     Inr (proposal_id,
       proposal_created e proposal_id proposer (action_symbol action) (store_proposal_count count s2)))))))"

definition approve :: "env \<Rightarrow> gov_storage \<Rightarrow> address \<Rightarrow> nat \<Rightarrow> (gov_storage, governance_error) res" where
  "approve e s signer proposal_id =
     bindR (require_auth e signer) (\<lambda>_.
     bindR (ok_or (load_proposals s proposal_id) (Err ProposalNotFound)) (\<lambda>proposal.
     bindR (ensure (\<not> pr_executed proposal) (Err ProposalAlreadyExecuted)) (\<lambda>_.
     bindR (ensure (\<not> pr_canceled proposal) (Err ProposalNotFound)) (\<lambda>_.
     bindR (ensure (signer \<in> set (gov_load_signers s)) (Err NotSigner)) (\<lambda>_.
     bindR (ensure (signer \<notin> set (pr_signatures proposal)) (Err AlreadySigned)) (\<lambda>_.
     let proposal' = proposal\<lparr>pr_signatures := pr_signatures proposal @ [signer]\<rparr>
     in Inr (proposal_signed e proposal_id signer (length (pr_signatures proposal'))
          (store_proposals ((load_proposals s)(proposal_id \<mapsto> proposal')) s))))))))"

text \<open>\<open>position(|s| s == signer)\<close> followed by \<open>remove(pos)\<close> drops the first occurrence.\<close>

definition revoke :: "env \<Rightarrow> gov_storage \<Rightarrow> address \<Rightarrow> nat \<Rightarrow> (gov_storage, governance_error) res" where
  "revoke e s signer proposal_id =
     bindR (require_auth e signer) (\<lambda>_.
     bindR (ok_or (load_proposals s proposal_id) (Err ProposalNotFound)) (\<lambda>proposal.
     bindR (ensure (\<not> pr_executed proposal) (Err ProposalAlreadyExecuted)) (\<lambda>_.
     Inr (if signer \<in> set (pr_signatures proposal)
          then store_proposals ((load_proposals s)(proposal_id \<mapsto>
                 proposal\<lparr>pr_signatures := remove1 signer (pr_signatures proposal)\<rparr>)) s
          else s))))"

fun apply_action :: "env \<Rightarrow> address \<Rightarrow> nat \<Rightarrow> proposal_action \<Rightarrow> gov_storage
    \<Rightarrow> (gov_storage, governance_error) res" where
  "apply_action e executor i Pause s = Inr (paused e executor (store_paused True s))"
| "apply_action e executor i Unpause s = Inr (unpaused e executor (store_paused False s))"
| "apply_action e executor i (Upgrade new_impl) s =
     bindR (load_implementation s) (\<lambda>old_impl.
     Inr (upgraded e i old_impl new_impl
       (store_upgrade_scheduled None (store_implementation new_impl s))))"
| "apply_action e executor i (AddSigner signer) s =
     (let signers = gov_load_signers s
      in Inr (signer_added e signer
           (if signer \<notin> set signers then gov_store_signers (signers @ [signer]) s else s)))"
| "apply_action e executor i (RemoveSigner signer) s =
     (let signers = gov_load_signers s
      in Inr (signer_removed e signer
           (if signer \<in> set signers then gov_store_signers (remove1 signer signers) s else s)))"
| "apply_action e executor i (SetThreshold new_threshold) s =
     (let old = gov_load_threshold s
      in Inr (threshold_updated e old new_threshold (gov_store_threshold new_threshold s)))"
| "apply_action e executor i (SetTimelockDelay new_delay) s = Inr (store_timelock_delay new_delay s)"

text \<open>
  The code reads the proposal map before it applies the action and writes it back after; no
  action touches the map, so the map that is written is the one that was read.
\<close>

definition execute :: "env \<Rightarrow> gov_storage \<Rightarrow> address \<Rightarrow> nat \<Rightarrow> (gov_storage, governance_error) res" where
  "execute e s executor proposal_id =
     bindR (require_auth e executor) (\<lambda>_.
     let proposals = load_proposals s in
     bindR (ok_or (proposals proposal_id) (Err ProposalNotFound)) (\<lambda>proposal.
     bindR (ensure (\<not> pr_executed proposal) (Err ProposalAlreadyExecuted)) (\<lambda>_.
     bindR (ensure (\<not> pr_canceled proposal) (Err ProposalNotFound)) (\<lambda>_.
     bindR (ensure (\<not> now e < pr_execute_after proposal) (Err TimelockNotElapsed)) (\<lambda>_.
     bindR (ensure (\<not> length (pr_signatures proposal) < pr_threshold proposal)
       (Err InsufficientSignatures)) (\<lambda>_.
     bindR (apply_action e executor proposal_id (pr_action proposal) s) (\<lambda>s1.
     Inr (proposal_executed e proposal_id executor
       (store_proposals (proposals(proposal_id \<mapsto> proposal\<lparr>pr_executed := True\<rparr>)) s1)))))))))"

definition cancel :: "env \<Rightarrow> gov_storage \<Rightarrow> address \<Rightarrow> nat \<Rightarrow> (gov_storage, governance_error) res" where
  "cancel e s caller proposal_id =
     bindR (require_auth e caller) (\<lambda>_.
     bindR (ok_or (load_proposals s proposal_id) (Err ProposalNotFound)) (\<lambda>proposal.
     bindR (ensure (\<not> pr_executed proposal) (Err ProposalAlreadyExecuted)) (\<lambda>_.
     bindR (ensure (pr_proposer proposal = caller) (Err NotProposer)) (\<lambda>_.
     Inr (proposal_canceled e proposal_id caller
       (store_proposals ((load_proposals s)(proposal_id \<mapsto> proposal\<lparr>pr_canceled := True\<rparr>)) s))))))"

definition get_proposal :: "gov_storage \<Rightarrow> nat \<Rightarrow> (proposal, governance_error) res" where
  "get_proposal s proposal_id = ok_or (load_proposals s proposal_id) (Err ProposalNotFound)"

definition is_signer :: "gov_storage \<Rightarrow> address \<Rightarrow> bool" where
  "is_signer s a \<longleftrightarrow> a \<in> set (gov_load_signers s)"

section \<open>The upgradeable proxy (upgradeable\_proxy.rs)\<close>

definition schedule_upgrade :: "gov_storage \<Rightarrow> address \<Rightarrow> (gov_storage, governance_error) res" where
  "schedule_upgrade s new_implementation =
     bindR (ensure (\<not> load_paused s) (Err ContractPaused)) (\<lambda>_.
     bindR (load_implementation s) (\<lambda>current.
     bindR (ensure (current \<noteq> new_implementation) (Err ImplementationUnchanged)) (\<lambda>_.
     Inr (store_upgrade_scheduled (Some new_implementation) s))))"

definition execute_scheduled_upgrade :: "env \<Rightarrow> gov_storage
    \<Rightarrow> (address \<times> gov_storage, governance_error) res" where
  "execute_scheduled_upgrade e s =
     bindR (ok_or (load_upgrade_scheduled s) (Err UpgradeNotScheduled)) (\<lambda>scheduled.
     bindR (load_implementation s) (\<lambda>old_impl.
     Inr (scheduled, upgraded e 0 old_impl scheduled
       (store_paused False (store_upgrade_scheduled None (store_implementation scheduled s))))))"

definition get_implementation :: "gov_storage \<Rightarrow> (address, governance_error) res" where
  "get_implementation s = load_implementation s"

definition is_paused :: "gov_storage \<Rightarrow> bool" where
  "is_paused s = load_paused s"

definition pause :: "gov_storage \<Rightarrow> (gov_storage, governance_error) res" where
  "pause s =
     bindR (ensure (\<not> load_paused s) (Err ContractPaused)) (\<lambda>_. Inr (store_paused True s))"

definition unpause :: "gov_storage \<Rightarrow> (gov_storage, governance_error) res" where
  "unpause s =
     bindR (ensure (load_paused s) (Err ContractNotPaused)) (\<lambda>_. Inr (store_paused False s))"

text \<open>\<open>initialize_proxy\<close> is exported by the crate and is not an entry point of the contract.\<close>

definition initialize_proxy :: "gov_storage \<Rightarrow> address \<Rightarrow> address \<Rightarrow> gov_storage" where
  "initialize_proxy s implementation admin =
     store_nonce 0 (store_proposal_count 0 (store_timelock_delay 0 (store_paused False
       (store_initialized True (gov_store_threshold 0 (gov_store_signers []
         (store_implementation implementation s)))))))"

section \<open>Entry points (lib.rs)\<close>

definition gov_initialize :: "env \<Rightarrow> gov_storage \<Rightarrow> address \<Rightarrow> address list \<Rightarrow> nat \<Rightarrow> nat \<Rightarrow> address
    \<Rightarrow> (gov_storage, governance_error) res" where
  "gov_initialize e s admin signers threshold timelock_delay initial_implementation =
     bindR (require_auth e admin) (\<lambda>_.
     bindR (ensure (\<not> load_initialized s) (Err AlreadyInitialized)) (\<lambda>_.
     bindR (ensure (threshold \<noteq> 0) (Err ZeroThreshold)) (\<lambda>_.
     bindR (ensure (\<not> length signers < threshold) (Err ThresholdExceeded)) (\<lambda>_.
     bindR (ensure (signers \<noteq> []) (Err EmptySigners)) (\<lambda>_.
     Inr (store_implementation initial_implementation (store_nonce 0 (store_proposal_count 0
       (store_paused False (store_initialized True (store_timelock_delay timelock_delay
         (gov_store_threshold threshold (gov_store_signers signers s)))))))))))))"

end
