(* ===== verification/Governance_Inv.thy ===== *)
theory Governance_Inv
  imports Governance
begin

text \<open>
  The governance contract as a transition system and its invariant: proposals sit under their own
  ids below the counter, the nonce counts proposals, signatures are distinct, an executed proposal
  had its quorum and was not canceled, and nothing exists before initialization. One equivalence
  and one preservation lemma per entry point.
\<close>

section \<open>The proposal store\<close>

definition put_proposal :: "proposal \<Rightarrow> gov_storage \<Rightarrow> gov_storage" where
  "put_proposal p s = store_proposals ((load_proposals s)(pr_id p \<mapsto> p)) s"

definition take_proposal_id :: "gov_storage \<Rightarrow> (nat \<times> gov_storage, governance_error) res" where
  "take_proposal_id s = bindR (u_add 64 (load_proposal_count s) 1) (\<lambda>n.
     Inr (load_proposal_count s, store_proposal_count n s))"

lemmas gov_load_defs = gov_load_signers_def gov_load_threshold_def load_paused_def
  load_initialized_def load_timelock_delay_def load_implementation_def load_proposals_def
  load_proposal_count_def load_nonce_def load_upgrade_scheduled_def

lemmas gov_store_defs = gov_store_signers_def gov_store_threshold_def store_paused_def
  store_initialized_def store_timelock_delay_def store_implementation_def store_proposals_def
  store_proposal_count_def store_nonce_def store_upgrade_scheduled_def

lemmas gov_event_defs = gov_publish_def proposal_created_def proposal_signed_def
  proposal_executed_def proposal_canceled_def paused_def unpaused_def upgraded_def
  signer_added_def signer_removed_def threshold_updated_def

lemma unwrap_or_simps [simp]: "unwrap_or None d = d" "unwrap_or (Some v) d = v"
  by (simp_all add: unwrap_or_def)

interpretation prost: id_store load_proposals put_proposal pr_id load_proposal_count take_proposal_id
  by unfold_locales
    (auto simp: put_proposal_def take_proposal_id_def store_proposals_def load_proposals_def
      load_proposal_count_def store_proposal_count_def res_simps)

section \<open>Successful calls\<close>

definition fresh_proposal :: "env \<Rightarrow> gov_storage \<Rightarrow> address \<Rightarrow> proposal_action \<Rightarrow> proposal" where
  "fresh_proposal e s x a = \<lparr>pr_id = load_proposal_count s, pr_proposer = x, pr_action = a,
     pr_signatures = [], pr_threshold = gov_load_threshold s, pr_created_at = now e,
     pr_execute_after = u_sat_add 64 (now e) (load_timelock_delay s),
     pr_executed = False, pr_canceled = False, pr_nonce = Suc (load_nonce s)\<rparr>"

lemma propose_eq:
  "propose e s x a =
     bindR (require_auth e x) (\<lambda>_.
     bindR (ensure (x \<in> set (gov_load_signers s)) (if gov_load_signers s = [] then Err EmptySigners else Err NotSigner)) (\<lambda>_.
     bindR (u_add 64 (load_nonce s) 1) (\<lambda>nonce.
     bindR (take_proposal_id s) (\<lambda>(k, s1).
     Inr (k, proposal_created e k x (action_symbol a)
       (put_proposal (fresh_proposal e s x a) (store_nonce nonce s1)))))))"
proof -
  have frames: "load_proposal_count (store_nonce n s) = load_proposal_count s"
    "gov_load_threshold (store_nonce n s) = gov_load_threshold s"
    "load_timelock_delay (store_nonce n s) = load_timelock_delay s"
    "load_proposals (store_nonce n s) = load_proposals s"
    "put_proposal p (store_nonce n (store_proposal_count m s)) =
       store_proposal_count m (store_proposals ((load_proposals s)(pr_id p \<mapsto> p)) (store_nonce n s))" for n m p
    by (simp_all add: put_proposal_def gov_load_defs gov_store_defs)
  have add: "u_add 64 m 1 = (if m + 1 < 2 ^ 64 then Inr (m + 1) else Inl Trap)" for m
    by (simp add: u_add_def)
  show ?thesis
    unfolding propose_def take_proposal_id_def Let_def frames bindR_assoc add
    by (cases "gov_load_signers s = []"; cases "authorized e x"; cases "x \<in> set (gov_load_signers s)";
        cases "load_nonce s + 1 < 2 ^ 64"; cases "load_proposal_count s + 1 < 2 ^ 64")
      (auto simp: require_auth_def fresh_proposal_def frames simp del: power_numeral)
qed

lemma propose_iff:
  "propose e s x a = Inr (k, s') \<longleftrightarrow>
     authorized e x \<and> x \<in> set (gov_load_signers s) \<and>
     (\<exists>nonce s1. u_add 64 (load_nonce s) 1 = (Inr nonce :: (nat, governance_error) res) \<and>
        take_proposal_id s = Inr (k, s1) \<and>
        s' = proposal_created e k x (action_symbol a)
          (put_proposal (fresh_proposal e s x a) (store_nonce nonce s1)))"
  unfolding propose_eq bindR_eq_Inr require_auth_eq_Inr ensure_eq_Inr split_paired_Ex by (simp add: eq_commute [of s'])

lemma approve_iff:
  "approve e s x k = Inr s' \<longleftrightarrow>
     (\<exists>p. authorized e x \<and> load_proposals s k = Some p \<and> \<not> pr_executed p \<and> \<not> pr_canceled p \<and>
        x \<in> set (gov_load_signers s) \<and> x \<notin> set (pr_signatures p) \<and>
        s' = proposal_signed e k x (Suc (length (pr_signatures p))) (store_proposals
          ((load_proposals s)(k \<mapsto> p\<lparr>pr_signatures := pr_signatures p @ [x]\<rparr>)) s))"
  unfolding approve_def Let_def bindR_eq_Inr require_auth_eq_Inr ensure_eq_Inr ok_or_eq_Inr
  by (simp add: eq_commute [of s'] not_less)

lemma revoke_iff:
  "revoke e s x k = Inr s' \<longleftrightarrow>
     (\<exists>p. authorized e x \<and> load_proposals s k = Some p \<and> \<not> pr_executed p \<and>
        s' = (if x \<in> set (pr_signatures p) then store_proposals
          ((load_proposals s)(k \<mapsto> p\<lparr>pr_signatures := remove1 x (pr_signatures p)\<rparr>)) s else s))"
  unfolding revoke_def bindR_eq_Inr require_auth_eq_Inr ensure_eq_Inr ok_or_eq_Inr
  by (simp add: eq_commute [of s'] not_less)

text \<open>When the code lets a proposal take effect.\<close>

definition executable :: "env \<Rightarrow> proposal \<Rightarrow> bool" where
  "executable e p \<longleftrightarrow> \<not> pr_executed p \<and> \<not> pr_canceled p \<and> pr_execute_after p \<le> now e
     \<and> pr_threshold p \<le> length (pr_signatures p)"

lemma gov_execute_iff:
  "execute e s x k = Inr s' \<longleftrightarrow>
     (\<exists>p s1. authorized e x \<and> load_proposals s k = Some p \<and> executable e p \<and>
        apply_action e x k (pr_action p) s = Inr s1 \<and>
        s' = proposal_executed e k x
          (store_proposals ((load_proposals s)(k \<mapsto> p\<lparr>pr_executed := True\<rparr>)) s1))"
  unfolding execute_def executable_def Let_def bindR_eq_Inr require_auth_eq_Inr ensure_eq_Inr ok_or_eq_Inr
  by (simp add: eq_commute [of s'] not_less)

lemma cancel_iff:
  "cancel e s x k = Inr s' \<longleftrightarrow>
     (\<exists>p. authorized e x \<and> load_proposals s k = Some p \<and> \<not> pr_executed p \<and> pr_proposer p = x \<and>
        s' = proposal_canceled e k x
          (store_proposals ((load_proposals s)(k \<mapsto> p\<lparr>pr_canceled := True\<rparr>)) s))"
  unfolding cancel_def bindR_eq_Inr require_auth_eq_Inr ensure_eq_Inr ok_or_eq_Inr
  by (simp add: eq_commute [of s'] not_less)

lemma gov_initialize_iff:
  "gov_initialize e s x xs n d i = Inr s' \<longleftrightarrow>
     authorized e x \<and> \<not> load_initialized s \<and> 0 < n \<and> n \<le> length xs \<and>
     s' = s\<lparr>gv_signers := Some xs, gv_threshold := Some n, gv_timelock_delay := Some d,
       gv_initialized := Some True, gv_paused := Some False, gv_proposal_count := Some 0,
       gv_nonce := Some 0, gv_implementation := Some i\<rparr>"
  by (auto simp: gov_initialize_def res_simps gov_store_defs)

section \<open>Calls and steps\<close>

datatype gov_call =
    GInitialize address "address list" nat nat address
  | GPropose address proposal_action
  | GApprove address nat
  | GRevoke address nat
  | GExecute address nat
  | GCancel address nat
  | GScheduleUpgrade address
  | GExecuteUpgrade
  | GPause
  | GUnpause

fun gov_exec :: "env \<Rightarrow> gov_storage \<Rightarrow> gov_call \<Rightarrow> (gov_storage, governance_error) res" where
  "gov_exec e s (GInitialize x xs n d i) = gov_initialize e s x xs n d i"
| "gov_exec e s (GPropose x a) = bindR (propose e s x a) (\<lambda>(_, s'). Inr s')"
| "gov_exec e s (GApprove x k) = approve e s x k"
| "gov_exec e s (GRevoke x k) = revoke e s x k"
| "gov_exec e s (GExecute x k) = execute e s x k"
| "gov_exec e s (GCancel x k) = cancel e s x k"
| "gov_exec e s (GScheduleUpgrade a) = schedule_upgrade s a"
| "gov_exec e s GExecuteUpgrade = bindR (execute_scheduled_upgrade e s) (\<lambda>(_, s'). Inr s')"
| "gov_exec e s GPause = pause s"
| "gov_exec e s GUnpause = unpause s"

inductive gov_step :: "gov_storage \<Rightarrow> gov_storage \<Rightarrow> bool" where
  gov_step_call: "gov_exec e s c = Inr s' \<Longrightarrow> gov_step s s'"

definition gov_deployed :: "gov_storage \<Rightarrow> bool" where
  "gov_deployed s \<longleftrightarrow> s = gov_storage0"

section \<open>The invariant\<close>

definition proposal_ok :: "proposal \<Rightarrow> bool" where
  "proposal_ok p \<longleftrightarrow> distinct (pr_signatures p) \<and> pr_nonce p = Suc (pr_id p)
     \<and> (pr_executed p \<longrightarrow> \<not> pr_canceled p \<and> pr_threshold p \<le> length (pr_signatures p))"

definition gov_inv :: "gov_storage \<Rightarrow> bool" where
  "gov_inv s \<longleftrightarrow> prost.ids_below s \<and> load_nonce s = load_proposal_count s
     \<and> (\<forall>k p. load_proposals s k = Some p \<longrightarrow> proposal_ok p)
     \<and> (load_initialized s \<longrightarrow> gv_implementation s \<noteq> None)
     \<and> (\<not> load_initialized s \<longrightarrow> gov_load_signers s = [] \<and> load_proposal_count s = 0)"

text \<open>The part of the storage the invariant reads besides the proposals.\<close>

definition gov_frame :: "gov_storage \<Rightarrow> gov_storage \<Rightarrow> bool" where
  "gov_frame s s' \<longleftrightarrow> load_proposal_count s' = load_proposal_count s \<and> load_nonce s' = load_nonce s
     \<and> load_initialized s' = load_initialized s
     \<and> (gv_implementation s \<noteq> None \<longrightarrow> gv_implementation s' \<noteq> None)
     \<and> (\<not> load_initialized s \<longrightarrow> gov_load_signers s' = gov_load_signers s)"

lemma gov_inv_frame:
  assumes "gov_inv s" and "gov_frame s s'" and "load_proposals s' = load_proposals s"
  shows "gov_inv s'"
  using assms by (auto simp: gov_inv_def gov_frame_def prost.ids_below_def)

lemma gov_inv_write:
  assumes inv: "gov_inv s" and fr: "load_initialized s \<Longrightarrow> gov_frame s s'"
    and p: "load_proposals s k = Some p" and "pr_id p' = pr_id p" "proposal_ok p'"
    and w: "load_proposals s' = (load_proposals s)(k \<mapsto> p')"
  shows "gov_inv s'"
proof -
  have k: "pr_id p = k" "k < load_proposal_count s"
    using inv p by (auto simp: gov_inv_def prost.ids_below_def)
  then have "load_initialized s"
    using inv by (cases "load_initialized s") (auto simp: gov_inv_def)
  with assms k show ?thesis
    by (auto simp: gov_inv_def gov_frame_def prost.ids_below_def)
qed

lemma gov_invD:
  assumes "gov_inv s" and "load_proposals s k = Some p"
  shows "proposal_ok p" "pr_id p = k" "k < load_proposal_count s" "load_initialized s"
proof -
  show "proposal_ok p" "pr_id p = k" and k: "k < load_proposal_count s"
    using assms by (auto simp: gov_inv_def prost.ids_below_def)
  then show "load_initialized s"
    using assms by (cases "load_initialized s") (auto simp: gov_inv_def)
qed

lemma apply_action_proposals:
  "apply_action e x k a s = Inr s' \<Longrightarrow> load_proposals s' = load_proposals s
    \<and> load_proposal_count s' = load_proposal_count s \<and> load_nonce s' = load_nonce s
    \<and> load_initialized s' = load_initialized s
    \<and> (gv_implementation s \<noteq> None \<longrightarrow> gv_implementation s' \<noteq> None)"
  by (cases a) (auto simp: Let_def res_simps gov_load_defs gov_store_defs gov_event_defs split: if_splits)

section \<open>Preservation\<close>

lemma put_publish_proposals:
  "load_proposals (store_proposals m s) = m" "load_proposals (gov_publish ev s) = load_proposals s"
  by (simp_all add: gov_load_defs gov_store_defs gov_event_defs)

lemmas gov_record_simps = gov_frame_def gov_load_defs gov_store_defs gov_event_defs

lemma gov_init_inv: "gov_deployed s \<Longrightarrow> gov_inv s"
  by (simp add: gov_deployed_def gov_inv_def gov_storage0_def prost.ids_below_def gov_load_defs)

lemma gov_initialize_inv:
  assumes "gov_inv s" and "gov_initialize e s x xs n d i = Inr s'"
  shows "gov_inv s'"
proof -
  have un: "\<not> load_initialized s" using assms(2) by (simp add: gov_initialize_iff)
  then have "load_proposals s k = None" for k
    using assms(1) by (cases "load_proposals s k") (auto dest: gov_invD)
  then show ?thesis
    using assms by (auto simp: gov_initialize_iff gov_inv_def prost.ids_below_def gov_load_defs)
qed

lemma propose_inv:
  assumes inv: "gov_inv s" and c: "propose e s x a = Inr (k, s')"
  shows "gov_inv s'"
proof -
  let ?p = "fresh_proposal e s x a"
  obtain s1 where x: "x \<in> set (gov_load_signers s)" and al: "take_proposal_id s = Inr (k, s1)"
    and s': "s' = proposal_created e k x (action_symbol a) (put_proposal ?p (store_nonce (Suc (load_nonce s)) s1))"
    using c by (auto simp: propose_iff u_add_eq_Inr)
  have ini: "load_initialized s" using inv x by (cases "load_initialized s") (auto simp: gov_inv_def)
  have k: "pr_id ?p = k" using prost.alloc_id [OF al] by (simp add: fresh_proposal_def)
  from al obtain n where s1: "s1 = store_proposal_count n s"
    by (auto simp: take_proposal_id_def res_simps)
  have fr: "load_proposals s' = load_proposals (put_proposal ?p s1)"
    "load_proposal_count s' = load_proposal_count (put_proposal ?p s1)"
    "load_nonce s' = Suc (load_nonce s)" "load_initialized s' = load_initialized s"
    "gv_implementation s' = gv_implementation s"
    unfolding s' s1 by (simp_all add: put_proposal_def gov_record_simps)
  have below: "prost.ids_below s'"
    using prost.ids_below_alloc_put [OF _ al k] inv
    unfolding prost.ids_below_def [of s'] fr(1,2) gov_inv_def prost.ids_below_def [symmetric] by blast
  have cnt: "load_proposal_count s' = Suc (load_proposal_count s)"
    using fr(2) prost.counter_put prost.alloc_counter [OF al] by simp
  have new: "proposal_ok ?p"
    using inv by (simp add: proposal_ok_def fresh_proposal_def gov_inv_def)
  have "\<forall>j p. load_proposals s' j = Some p \<longrightarrow> proposal_ok p"
    unfolding fr(1) by (rule prost.all_put) (use inv new prost.alloc_lookup [OF al] in \<open>auto simp: gov_inv_def\<close>)
  with below cnt fr inv ini show ?thesis by (simp add: gov_inv_def)
qed

lemma approve_inv:
  assumes inv: "gov_inv s" and c: "approve e s x k = Inr s'"
  shows "gov_inv s'"
proof -
  obtain p where p: "load_proposals s k = Some p" "\<not> pr_executed p" "x \<notin> set (pr_signatures p)"
    and s': "s' = proposal_signed e k x (Suc (length (pr_signatures p))) (store_proposals
          ((load_proposals s)(k \<mapsto> p\<lparr>pr_signatures := pr_signatures p @ [x]\<rparr>)) s)"
    using c by (auto simp: approve_iff)
  show ?thesis
    by (rule gov_inv_write [OF inv _ p(1), of _ "p\<lparr>pr_signatures := pr_signatures p @ [x]\<rparr>"])
      (use gov_invD [OF inv p(1)] p(2,3) in \<open>auto simp: s' proposal_ok_def gov_record_simps\<close>)
qed

lemma revoke_inv:
  assumes inv: "gov_inv s" and c: "revoke e s x k = Inr s'"
  shows "gov_inv s'"
proof -
  obtain p where p: "load_proposals s k = Some p" "\<not> pr_executed p"
    and s': "s' = (if x \<in> set (pr_signatures p) then store_proposals
          ((load_proposals s)(k \<mapsto> p\<lparr>pr_signatures := remove1 x (pr_signatures p)\<rparr>)) s else s)"
    using c by (auto simp: revoke_iff simp del: if_split)
  show ?thesis
  proof (cases "x \<in> set (pr_signatures p)")
    case True
    show ?thesis
      by (rule gov_inv_write [OF inv _ p(1), of _ "p\<lparr>pr_signatures := remove1 x (pr_signatures p)\<rparr>"])
        (use gov_invD [OF inv p(1)] p(2) True in \<open>auto simp: s' proposal_ok_def gov_record_simps\<close>)
  next
    case False
    with s' inv show ?thesis by simp
  qed
qed

lemma gov_execute_inv:
  assumes inv: "gov_inv s" and c: "execute e s x k = Inr s'"
  shows "gov_inv s'"
proof -
  obtain p s1 where p: "load_proposals s k = Some p" "executable e p"
    and a: "apply_action e x k (pr_action p) s = Inr s1"
    and s': "s' = proposal_executed e k x (store_proposals ((load_proposals s)(k \<mapsto> p\<lparr>pr_executed := True\<rparr>)) s1)"
    using c by (auto simp: gov_execute_iff)
  have fr: "load_initialized s \<Longrightarrow> gov_frame s s'"
    using apply_action_proposals [OF a] by (auto simp: s' gov_record_simps)
  show ?thesis
    by (rule gov_inv_write [OF inv fr p(1), of "p\<lparr>pr_executed := True\<rparr>"])
      (use gov_invD [OF inv p(1)] p(2) in \<open>auto simp: s' proposal_ok_def executable_def gov_record_simps\<close>)
qed

lemma cancel_inv:
  assumes inv: "gov_inv s" and c: "cancel e s x k = Inr s'"
  shows "gov_inv s'"
proof -
  obtain p where p: "load_proposals s k = Some p" "\<not> pr_executed p"
    and s': "s' = proposal_canceled e k x (store_proposals ((load_proposals s)(k \<mapsto> p\<lparr>pr_canceled := True\<rparr>)) s)"
    using c by (auto simp: cancel_iff)
  show ?thesis
    by (rule gov_inv_write [OF inv _ p(1), of _ "p\<lparr>pr_canceled := True\<rparr>"])
      (use gov_invD [OF inv p(1)] p(2) in \<open>auto simp: s' proposal_ok_def gov_record_simps\<close>)
qed

lemmas proxy_defs = schedule_upgrade_def execute_scheduled_upgrade_def pause_def unpause_def

lemma proxy_frame:
  assumes "gov_exec e s c = Inr s'" and "c \<in> {GExecuteUpgrade, GPause, GUnpause} \<union> range GScheduleUpgrade"
  shows "gov_frame s s' \<and> load_proposals s' = load_proposals s
    \<and> gv_signers s' = gv_signers s \<and> gv_threshold s' = gv_threshold s
    \<and> gv_timelock_delay s' = gv_timelock_delay s"
  using assms by (auto simp: proxy_defs res_simps gov_record_simps)

lemma gov_exec_inv:
  assumes inv: "gov_inv s" and c: "gov_exec e s c = Inr s'"
  shows "gov_inv s'"
proof (cases "c \<in> {GExecuteUpgrade, GPause, GUnpause} \<union> range GScheduleUpgrade")
  case True
  with proxy_frame [OF c] gov_inv_frame [OF inv] show ?thesis by blast
next
  case False
  with c inv show ?thesis
    by (cases c) (auto simp: bindR_eq_Inr intro: gov_initialize_inv propose_inv approve_inv revoke_inv
        gov_execute_inv cancel_inv)
qed

interpretation gov_machine: machine_invariant gov_deployed gov_step gov_inv
  by unfold_locales (auto elim!: gov_step.cases intro: gov_init_inv gov_exec_inv)

end
