(* ===== verification/Governance_Props.thy ===== *)
theory Governance_Props
  imports Governance_Inv
begin

text \<open>
  Properties of the governance contract over whole runs: a proposal takes effect exactly when its
  quorum and timelock say so, its record stays consistent, closed proposals stay closed, the rules
  of governance change only through executed proposals, and two ways around them.
\<close>

section \<open>The governed configuration\<close>

record gov_config =
  cf_signers :: "address list"
  cf_threshold :: nat
  cf_delay :: nat
  cf_implementation :: "address option"
  cf_paused :: bool

definition config_of :: "gov_storage \<Rightarrow> gov_config" where
  "config_of s = \<lparr>cf_signers = gov_load_signers s, cf_threshold = gov_load_threshold s,
     cf_delay = load_timelock_delay s, cf_implementation = gv_implementation s,
     cf_paused = load_paused s\<rparr>"

text \<open>What an action promises to do to the configuration.\<close>

fun config_after :: "proposal_action \<Rightarrow> gov_config \<Rightarrow> gov_config" where
  "config_after Pause c = c\<lparr>cf_paused := True\<rparr>"
| "config_after Unpause c = c\<lparr>cf_paused := False\<rparr>"
| "config_after (Upgrade a) c = c\<lparr>cf_implementation := Some a\<rparr>"
| "config_after (AddSigner x) c =
     c\<lparr>cf_signers := (if x \<in> set (cf_signers c) then cf_signers c else cf_signers c @ [x])\<rparr>"
| "config_after (RemoveSigner x) c = c\<lparr>cf_signers := remove1 x (cf_signers c)\<rparr>"
| "config_after (SetThreshold n) c = c\<lparr>cf_threshold := n\<rparr>"
| "config_after (SetTimelockDelay n) c = c\<lparr>cf_delay := n\<rparr>"

definition gov_rules :: "gov_storage \<Rightarrow> address list \<times> nat \<times> nat" where
  "gov_rules s = (gov_load_signers s, gov_load_threshold s, load_timelock_delay s)"

definition changes_rules :: "proposal_action \<Rightarrow> bool" where
  "changes_rules a \<longleftrightarrow> (case a of AddSigner _ \<Rightarrow> True | RemoveSigner _ \<Rightarrow> True | SetThreshold _ \<Rightarrow> True
     | SetTimelockDelay _ \<Rightarrow> True | _ \<Rightarrow> False)"

lemma apply_action_config:
  "apply_action e x k a s = Inr s' \<Longrightarrow> config_of s' = config_after a (config_of s)"
  by (cases a)
    (auto simp: config_of_def Let_def res_simps gov_load_defs gov_store_defs gov_event_defs remove1_idem
      split: if_splits)

lemma apply_action_rules:
  "apply_action e x k a s = Inr s' \<Longrightarrow> \<not> changes_rules a \<Longrightarrow> gov_rules s' = gov_rules s"
  by (cases a)
    (auto simp: changes_rules_def gov_rules_def res_simps gov_load_defs gov_store_defs gov_event_defs)

lemma apply_action_total:
  "gv_implementation s \<noteq> None \<Longrightarrow> \<exists>s'. apply_action e x k a s = Inr s'"
  by (cases a) (auto simp: Let_def load_implementation_def)

text \<open>Writing the proposals and publishing an event touch nothing else.\<close>

lemma config_write [simp]:
  "config_of (store_proposals m s) = config_of s" "config_of (gov_publish ev s) = config_of s"
  "gov_rules (store_proposals m s) = gov_rules s" "gov_rules (gov_publish ev s) = gov_rules s"
  by (simp_all add: config_of_def gov_rules_def gov_load_defs gov_store_defs gov_event_defs)

lemmas proposal_event_defs = proposal_created_def proposal_signed_def proposal_executed_def
  proposal_canceled_def

section \<open>How one call treats a stored proposal\<close>

definition proposal_terms :: "proposal \<Rightarrow> nat \<times> address \<times> proposal_action \<times> nat \<times> nat \<times> nat \<times> nat" where
  "proposal_terms p = (pr_id p, pr_proposer p, pr_action p, pr_threshold p, pr_created_at p,
     pr_execute_after p, pr_nonce p)"

definition proposal_next :: "proposal \<Rightarrow> proposal \<Rightarrow> bool" where
  "proposal_next p q \<longleftrightarrow> proposal_terms q = proposal_terms p \<and> (pr_executed p \<longrightarrow> q = p)
     \<and> (pr_canceled p \<longrightarrow> pr_canceled q \<and> \<not> pr_executed q)"

definition proposals_kept :: "gov_storage \<Rightarrow> gov_storage \<Rightarrow> bool" where
  "proposals_kept s s' \<longleftrightarrow>
     (\<forall>k p. load_proposals s k = Some p \<longrightarrow> (\<exists>q. load_proposals s' k = Some q \<and> proposal_next p q))"

lemma proposal_next_refl: "proposal_ok p \<Longrightarrow> proposal_next p p"
  by (auto simp: proposal_next_def proposal_ok_def)

lemma proposal_next_trans: "proposal_next p q \<Longrightarrow> proposal_next q r \<Longrightarrow> proposal_next p r"
  by (auto simp: proposal_next_def)

lemma proposals_kept_same:
  "gov_inv s \<Longrightarrow> load_proposals s' = load_proposals s \<Longrightarrow> proposals_kept s s'"
  by (auto simp: proposals_kept_def intro: proposal_next_refl gov_invD)

lemma proposals_kept_write:
  assumes "gov_inv s" and "load_proposals s k = Some p" and "proposal_next p p'"
    and "load_proposals s' = (load_proposals s)(k \<mapsto> p')"
  shows "proposals_kept s s'"
  using assms by (auto simp: proposals_kept_def intro: proposal_next_refl gov_invD)

lemma propose_kept:
  assumes inv: "gov_inv s" and c: "propose e s x a = Inr (k, s')"
  shows "proposals_kept s s'"
proof -
  obtain n s1 where al: "take_proposal_id s = Inr (k, s1)"
    and s': "s' = proposal_created e k x (action_symbol a) (put_proposal (fresh_proposal e s x a) (store_nonce n s1))"
    using c by (auto simp: propose_iff)
  have id: "pr_id (fresh_proposal e s x a) = k"
    using prost.alloc_id [OF al] by (simp add: fresh_proposal_def)
  have "load_proposals s' = (load_proposals s)(k \<mapsto> fresh_proposal e s x a)"
    using prost.alloc_lookup [OF al] id
    by (simp add: s' proposal_created_def put_publish_proposals put_proposal_def)
      (simp add: load_proposals_def store_nonce_def)
  moreover have "load_proposals s k = None"
    using prost.alloc_fresh [OF _ al] inv by (simp add: gov_inv_def)
  ultimately show ?thesis
    using inv by (auto simp: proposals_kept_def intro: proposal_next_refl gov_invD)
qed

lemma gov_initialize_kept:
  assumes inv: "gov_inv s" and c: "gov_initialize e s x xs n d i = Inr s'"
  shows "proposals_kept s s'"
  by (rule proposals_kept_same [OF inv]) (use c in \<open>auto simp: gov_initialize_iff load_proposals_def\<close>)

lemma approve_kept:
  assumes inv: "gov_inv s" and c: "approve e s x k = Inr s'"
  shows "proposals_kept s s'"
proof -
  obtain p where p: "load_proposals s k = Some p" "\<not> pr_executed p" "\<not> pr_canceled p"
    and s': "load_proposals s' = (load_proposals s)(k \<mapsto> p\<lparr>pr_signatures := pr_signatures p @ [x]\<rparr>)"
    using c by (auto simp: approve_iff proposal_event_defs put_publish_proposals)
  show ?thesis
    by (rule proposals_kept_write [OF inv p(1) _ s'])
      (simp add: p proposal_next_def proposal_terms_def)
qed

lemma revoke_kept:
  assumes inv: "gov_inv s" and c: "revoke e s x k = Inr s'"
  shows "proposals_kept s s'"
proof -
  obtain p where p: "load_proposals s k = Some p" "\<not> pr_executed p"
    and s': "s' = (if x \<in> set (pr_signatures p) then store_proposals
          ((load_proposals s)(k \<mapsto> p\<lparr>pr_signatures := remove1 x (pr_signatures p)\<rparr>)) s else s)"
    using c by (auto simp: revoke_iff simp del: if_split)
  have "proposal_next p (p\<lparr>pr_signatures := remove1 x (pr_signatures p)\<rparr>)"
    by (simp add: p proposal_next_def proposal_terms_def)
  with proposals_kept_write [OF inv p(1)] proposals_kept_same [OF inv] s' show ?thesis
    by (simp add: put_publish_proposals split: if_splits)
qed

lemma execute_kept:
  assumes inv: "gov_inv s" and c: "execute e s x k = Inr s'"
  shows "proposals_kept s s'"
proof -
  obtain p where p: "load_proposals s k = Some p" "executable e p"
    and s': "load_proposals s' = (load_proposals s)(k \<mapsto> p\<lparr>pr_executed := True\<rparr>)"
    using c by (auto simp: gov_execute_iff proposal_event_defs put_publish_proposals)
  show ?thesis
    by (rule proposals_kept_write [OF inv p(1) _ s'])
      (use p(2) in \<open>simp add: executable_def proposal_next_def proposal_terms_def\<close>)
qed

lemma cancel_kept:
  assumes inv: "gov_inv s" and c: "cancel e s x k = Inr s'"
  shows "proposals_kept s s'"
proof -
  obtain p where p: "load_proposals s k = Some p" "\<not> pr_executed p"
    and s': "load_proposals s' = (load_proposals s)(k \<mapsto> p\<lparr>pr_canceled := True\<rparr>)"
    using c by (auto simp: cancel_iff proposal_event_defs put_publish_proposals)
  show ?thesis
    by (rule proposals_kept_write [OF inv p(1) _ s'])
      (simp add: p proposal_next_def proposal_terms_def)
qed

lemma gov_exec_kept:
  assumes inv: "gov_inv s" and c: "gov_exec e s c = Inr s'"
  shows "proposals_kept s s'"
proof (cases "c \<in> {GExecuteUpgrade, GPause, GUnpause} \<union> range GScheduleUpgrade")
  case True
  with proxy_frame [OF c] proposals_kept_same [OF inv] show ?thesis by blast
next
  case False
  with c inv show ?thesis
    by (cases c) (auto simp: bindR_eq_Inr intro: gov_initialize_kept propose_kept approve_kept
        revoke_kept execute_kept cancel_kept)
qed

lemma proxy_rules:
  assumes "gov_exec e s c = Inr s'" and "c \<in> {GExecuteUpgrade, GPause, GUnpause} \<union> range GScheduleUpgrade"
  shows "gov_rules s' = gov_rules s"
  using proxy_frame [OF assms]
  by (simp add: gov_rules_def gov_load_signers_def gov_load_threshold_def load_timelock_delay_def)

lemma gov_exec_rules:
  assumes c: "gov_exec e s c = Inr s'" and ini: "load_initialized s" and ch: "gov_rules s' \<noteq> gov_rules s"
  shows "\<exists>x k p. c = GExecute x k \<and> authorized e x \<and> load_proposals s k = Some p \<and> executable e p
    \<and> changes_rules (pr_action p)"
proof (cases c)
  case (GExecute x k)
  with c obtain p s1 where p: "authorized e x" "load_proposals s k = Some p" "executable e p"
    and a: "apply_action e x k (pr_action p) s = Inr s1" and r: "gov_rules s' = gov_rules s1"
    by (auto simp: gov_execute_iff proposal_event_defs)
  then show ?thesis using apply_action_rules [OF a] ch GExecute by auto
next
  case (GPropose x a)
  then have "gov_rules s' = gov_rules s"
    using c by (auto simp: bindR_eq_Inr propose_iff proposal_event_defs put_proposal_def
        take_proposal_id_def gov_rules_def gov_load_signers_def gov_load_threshold_def
        load_timelock_delay_def store_nonce_def store_proposal_count_def store_proposals_def gov_publish_def)
  with ch show ?thesis by simp
next
  case GRevoke
  then have "gov_rules s' = gov_rules s"
    using c by (auto simp: revoke_iff)
  with ch show ?thesis by simp
qed (use c ini ch proxy_rules [OF c] in
    \<open>auto simp: gov_initialize_iff approve_iff cancel_iff proposal_event_defs\<close>)

section \<open>A governance run for the witnesses\<close>

fun gov_run :: "(env \<times> gov_call) list \<Rightarrow> gov_storage \<Rightarrow> (gov_storage, governance_error) res" where
  "gov_run [] s = Inr s"
| "gov_run ((e, c) # cs) s = bindR (gov_exec e s c) (gov_run cs)"

lemma gov_run_reachable:
  "gov_run cs s = Inr t \<Longrightarrow> reachable gov_deployed gov_step s \<Longrightarrow> reachable gov_deployed gov_step t"
  by (induction cs s rule: gov_run.induct)
    (auto simp: bindR_eq_Inr, blast intro: reach_step gov_step_call)

lemma gov_deployed_reachable: "reachable gov_deployed gov_step gov_storage0"
  by (rule reach_init) (simp add: gov_deployed_def)

text \<open>
  Three signers with threshold 2 and a delay of 100. Signer 1 proposes an upgrade and the removal
  of signers 1 and 2; signers 1 and 2 sign all three proposals.
\<close>

definition demo_gov_calls :: "(env \<times> gov_call) list" where
  "demo_gov_calls =
    [(demo_env 8 1000, GInitialize (Addr 8) [Addr 1, Addr 2, Addr 3] 2 100 (Addr 50)),
     (demo_env 1 1000, GPropose (Addr 1) (Upgrade (Addr 51))),
     (demo_env 1 1000, GPropose (Addr 1) (RemoveSigner (Addr 1))),
     (demo_env 1 1000, GPropose (Addr 1) (RemoveSigner (Addr 2))),
     (demo_env 1 1010, GApprove (Addr 1) 0), (demo_env 2 1010, GApprove (Addr 2) 0),
     (demo_env 1 1010, GApprove (Addr 1) 1), (demo_env 2 1010, GApprove (Addr 2) 1),
     (demo_env 1 1010, GApprove (Addr 1) 2), (demo_env 2 1010, GApprove (Addr 2) 2)]"

definition demo_gov_removals :: "(env \<times> gov_call) list" where
  "demo_gov_removals = [(demo_env 3 1100, GExecute (Addr 3) 1), (demo_env 3 1100, GExecute (Addr 3) 2)]"

definition demo_proposal :: "nat \<Rightarrow> proposal_action \<Rightarrow> proposal" where
  "demo_proposal k a = \<lparr>pr_id = k, pr_proposer = Addr 1, pr_action = a,
     pr_signatures = [Addr 1, Addr 2], pr_threshold = 2, pr_created_at = 1000,
     pr_execute_after = 1100, pr_executed = False, pr_canceled = False, pr_nonce = Suc k\<rparr>"

lemmas demo_gov_defs = demo_gov_calls_def demo_gov_removals_def demo_proposal_def demo_env_def
  gov_initialize_def propose_def approve_def execute_def require_auth_def u_add_def u_sat_add_def
  gov_load_defs gov_store_defs gov_event_defs Let_def gov_storage0_def

lemma demo_gov_approved:
  "\<exists>s. gov_run demo_gov_calls gov_storage0 = Inr s
    \<and> load_proposals s 0 = Some (demo_proposal 0 (Upgrade (Addr 51)))
    \<and> load_proposals s 1 = Some (demo_proposal 1 (RemoveSigner (Addr 1)))
    \<and> config_of s = \<lparr>cf_signers = [Addr 1, Addr 2, Addr 3], cf_threshold = 2, cf_delay = 100,
        cf_implementation = Some (Addr 50), cf_paused = False\<rparr> \<and> load_initialized s"
  by (simp add: demo_gov_defs config_of_def)

lemma demo_gov_removed:
  "\<exists>s. gov_run (demo_gov_calls @ demo_gov_removals) gov_storage0 = Inr s
    \<and> load_proposals s 0 = Some (demo_proposal 0 (Upgrade (Addr 51)))
    \<and> gov_load_signers s = [Addr 3] \<and> gv_implementation s = Some (Addr 50)"
  by (simp add: demo_gov_defs)

section \<open>Properties\<close>

text \<open>
  C2: execution is exactly by quorum and timelock, and does what the proposal says. In every
  reachable state a call of \<open>execute\<close> succeeds if and only if its executor authorised it and the
  proposal exists, is neither executed nor canceled, its timelock has passed and it has at least
  its threshold of signatures. It then changes the configuration to the one its action promises,
  and of the proposals only this one, which becomes executed.
\<close>

theorem quorum_executes_action:
  assumes "reachable gov_deployed gov_step s"
  shows "((\<exists>s'. execute e s x k = Inr s') \<longleftrightarrow>
      authorized e x \<and> (\<exists>p. load_proposals s k = Some p \<and> executable e p))
    \<and> (\<forall>s' p. execute e s x k = Inr s' \<and> load_proposals s k = Some p \<longrightarrow>
      config_of s' = config_after (pr_action p) (config_of s)
      \<and> load_proposals s' = (load_proposals s)(k \<mapsto> p\<lparr>pr_executed := True\<rparr>))"
proof -
  have inv: "gov_inv s" by (rule gov_machine.inv_reachable [OF assms])
  have "\<exists>s1. apply_action e x k (pr_action p) s = Inr s1" if "load_proposals s k = Some p" for p
    by (rule apply_action_total) (use inv gov_invD(4) [OF inv that] in \<open>simp add: gov_inv_def\<close>)
  then show ?thesis
    by (auto simp: gov_execute_iff proposal_event_defs put_publish_proposals dest: apply_action_config)
qed

theorem quorum_executes_action_witness:
  "\<exists>s s'. gov_run demo_gov_calls gov_storage0 = Inr s \<and>
     execute (demo_env 9 1100) s (Addr 9) 0 = Inr s' \<and>
     cf_implementation (config_of s') = Some (Addr 51) \<and>
     \<not> (\<exists>t. execute (demo_env 9 1099) s (Addr 9) 0 = Inr t)"
proof -
  obtain s where s: "gov_run demo_gov_calls gov_storage0 = Inr s"
    and p: "load_proposals s 0 = Some (demo_proposal 0 (Upgrade (Addr 51)))"
    using demo_gov_approved by blast
  note q = quorum_executes_action [OF gov_run_reachable [OF s gov_deployed_reachable]]
  have ex: "executable (demo_env 9 1100) (demo_proposal 0 (Upgrade (Addr 51)))"
    and nex: "\<not> executable (demo_env 9 1099) (demo_proposal 0 (Upgrade (Addr 51)))"
    and au: "authorized (demo_env 9 1100) (Addr 9)"
    by (simp_all add: executable_def demo_proposal_def demo_env_def)
  obtain s' where c: "execute (demo_env 9 1100) s (Addr 9) 0 = Inr s'"
    using q [THEN conjunct1] ex au p by blast
  have no: "\<not> (\<exists>t. execute (demo_env 9 1099) s (Addr 9) 0 = Inr t)"
    unfolding q [THEN conjunct1] p using nex by simp
  have "config_of s' = config_after (Upgrade (Addr 51)) (config_of s)"
    using q [THEN conjunct2, rule_format, OF conjI [OF c p]] by (simp add: demo_proposal_def)
  with s c no show ?thesis by auto
qed

text \<open>
  The proposal records are consistent. In every reachable state each proposal is stored under
  its own id, below the proposal counter, and carries the nonce after its id; its signatures are
  distinct; and an executed proposal was not canceled and has at least its threshold of signatures.
\<close>

theorem proposals_consistent:
  assumes "reachable gov_deployed gov_step s" and "load_proposals s k = Some p"
  shows "pr_id p = k \<and> k < load_proposal_count s \<and> pr_nonce p = Suc k \<and> pr_nonce p \<le> load_nonce s
    \<and> distinct (pr_signatures p)
    \<and> (pr_executed p \<longrightarrow> \<not> pr_canceled p \<and> pr_threshold p \<le> length (pr_signatures p))"
proof -
  have inv: "gov_inv s" by (rule gov_machine.inv_reachable [OF assms(1)])
  from gov_invD [OF this assms(2)] inv show ?thesis
    by (auto simp: proposal_ok_def gov_inv_def)
qed

theorem proposals_consistent_witness:
  "\<exists>s. gov_run demo_gov_calls gov_storage0 = Inr s \<and> 1 < load_proposal_count s"
proof -
  obtain s where s: "gov_run demo_gov_calls gov_storage0 = Inr s"
    and p: "load_proposals s 1 = Some (demo_proposal 1 (RemoveSigner (Addr 1)))"
    using demo_gov_approved by blast
  from proposals_consistent [OF gov_run_reachable [OF s gov_deployed_reachable] p] s show ?thesis by blast
qed

text \<open>
  A proposal's terms never change and a closed proposal stays closed. In every run from a
  reachable state a stored proposal keeps its id, proposer, action, threshold, times and nonce; once
  executed its record never changes again; once canceled it stays canceled and is never executed.
\<close>

theorem closed_proposal_final:
  assumes "reachable gov_deployed gov_step s" and "gov_step\<^sup>*\<^sup>* s t" and "load_proposals s k = Some p"
  shows "\<exists>q. load_proposals t k = Some q \<and> proposal_terms q = proposal_terms p
    \<and> (pr_executed p \<longrightarrow> q = p) \<and> (pr_canceled p \<longrightarrow> pr_canceled q \<and> \<not> pr_executed q)"
proof -
  have inv: "gov_inv s" by (rule gov_machine.inv_reachable [OF assms(1)])
  have "\<exists>q. load_proposals t k = Some q \<and> proposal_next p q"
  proof (rule gov_machine.stable_rtranclp [OF _ assms(2) inv])
    fix a b assume "gov_inv a" and "gov_step a b"
      and "\<exists>q. load_proposals a k = Some q \<and> proposal_next p q"
    then show "\<exists>q. load_proposals b k = Some q \<and> proposal_next p q"
      by (auto elim!: gov_step.cases dest!: gov_exec_kept intro: proposal_next_trans simp: proposals_kept_def)
        (meson proposal_next_trans)
  qed (use assms(3) proposal_next_refl gov_invD(1) [OF inv assms(3)] in blast)
  then show ?thesis by (simp add: proposal_next_def)
qed

theorem closed_proposal_final_witness:
  "\<exists>s p s'. gov_run demo_gov_calls gov_storage0 = Inr s \<and> load_proposals s 0 = Some p \<and>
     cancel (demo_env 1 1050) s (Addr 1) 0 = Inr s' \<and>
     (\<exists>q. load_proposals s' 0 = Some q \<and> proposal_terms q = proposal_terms p)"
proof -
  obtain s where s: "gov_run demo_gov_calls gov_storage0 = Inr s"
    and p: "load_proposals s 0 = Some (demo_proposal 0 (Upgrade (Addr 51)))"
    using demo_gov_approved by blast
  have "\<exists>s'. cancel (demo_env 1 1050) s (Addr 1) 0 = Inr s'"
    using p by (simp add: cancel_iff demo_proposal_def demo_env_def)
  then obtain s' where c: "cancel (demo_env 1 1050) s (Addr 1) 0 = Inr s'" ..
  have "gov_step s s'"
    by (rule gov_step_call [of "demo_env 1 1050" _ "GCancel (Addr 1) 0"]) (use c in simp)
  from closed_proposal_final [OF gov_run_reachable [OF s gov_deployed_reachable] r_into_rtranclp [of gov_step, OF this] p]
  show ?thesis using s p c by blast
qed

text \<open>
  C12: the rules of governance change by quorum only. Once initialized, whatever call changes the
  signers, the threshold or the timelock delay is an \<open>execute\<close> of a proposal for such a change
  that was neither executed nor canceled, whose timelock had passed and which carried at least its
  threshold of distinct signatures.
\<close>

theorem rules_change_by_quorum:
  assumes "reachable gov_deployed gov_step s" and "load_initialized s"
    and "gov_exec e s c = Inr s'" and "gov_rules s' \<noteq> gov_rules s"
  shows "\<exists>x k p. c = GExecute x k \<and> authorized e x \<and> load_proposals s k = Some p
    \<and> changes_rules (pr_action p) \<and> \<not> pr_executed p \<and> \<not> pr_canceled p \<and> pr_execute_after p \<le> now e
    \<and> pr_threshold p \<le> card (set (pr_signatures p))"
proof -
  have inv: "gov_inv s" by (rule gov_machine.inv_reachable [OF assms(1)])
  obtain x k p where c: "c = GExecute x k" "authorized e x" and p: "load_proposals s k = Some p"
    and ex: "executable e p" "changes_rules (pr_action p)"
    using gov_exec_rules [OF assms(3,2,4)] by blast
  from gov_invD(1) [OF inv p] have "card (set (pr_signatures p)) = length (pr_signatures p)"
    by (simp add: proposal_ok_def distinct_card)
  with c p ex show ?thesis by (auto simp: executable_def)
qed

theorem rules_change_by_quorum_witness:
  "\<exists>s s' x k p. gov_run demo_gov_calls gov_storage0 = Inr s \<and>
     gov_exec (demo_env 3 1100) s (GExecute (Addr 3) 1) = Inr s' \<and>
     load_proposals s k = Some p \<and> GExecute (Addr 3) 1 = GExecute x k \<and>
     pr_threshold p \<le> card (set (pr_signatures p))"
proof -
  obtain s where s: "gov_run demo_gov_calls gov_storage0 = Inr s" and ini: "load_initialized s"
    and p: "load_proposals s 1 = Some (demo_proposal 1 (RemoveSigner (Addr 1)))"
    and cf: "config_of s = \<lparr>cf_signers = [Addr 1, Addr 2, Addr 3], cf_threshold = 2, cf_delay = 100,
        cf_implementation = Some (Addr 50), cf_paused = False\<rparr>"
    using demo_gov_approved by blast
  have sg: "gov_load_signers s = [Addr 1, Addr 2, Addr 3]" using cf by (simp add: config_of_def)
  have "\<exists>s'. gov_exec (demo_env 3 1100) s (GExecute (Addr 3) 1) = Inr s' \<and> gov_rules s' \<noteq> gov_rules s"
    using p sg
    by (simp add: gov_execute_iff executable_def demo_proposal_def demo_env_def Let_def proposal_event_defs
        signer_removed_def) (simp add: gov_rules_def gov_load_signers_def gov_store_signers_def)
  then obtain s' where c: "gov_exec (demo_env 3 1100) s (GExecute (Addr 3) 1) = Inr s'"
    and r: "gov_rules s' \<noteq> gov_rules s" by blast
  from rules_change_by_quorum [OF gov_run_reachable [OF s gov_deployed_reachable] ini c r]
  show ?thesis using s c by blast
qed

text \<open>
  Anyone can upgrade. The proxy's entry points ask for no authorisation, so once the contract
  is initialized any implementation replaces the current one at once, whether the contract is
  paused or not, with no proposal, no signature and no timelock: from every reachable state, in
  every environment (one that nobody authorised included), \<open>unpause\<close> if paused,
  \<open>schedule_upgrade\<close> and \<open>execute_upgrade\<close> succeed.
\<close>

theorem anyone_upgrades:
  assumes "reachable gov_deployed gov_step s" and "load_initialized s"
    and "gv_implementation s \<noteq> Some new"
  shows "\<exists>cs s'. gov_run (map (Pair e) cs) s = Inr s' \<and> set cs \<subseteq> {GUnpause, GScheduleUpgrade new, GExecuteUpgrade}
    \<and> gv_implementation s' = Some new \<and> load_proposals s' = load_proposals s"
proof -
  have "gov_inv s" by (rule gov_machine.inv_reachable [OF assms(1)])
  with assms(2) obtain old where old: "gv_implementation s = Some old" by (auto simp: gov_inv_def)
  have up: "\<exists>s'. gov_run (map (Pair e) [GScheduleUpgrade new, GExecuteUpgrade]) t = Inr s' \<and>
      gv_implementation s' = Some new \<and> load_proposals s' = load_proposals t"
    if "\<not> load_paused t" "gv_implementation t = Some old" for t
    using that old assms(3) by (simp add: proxy_defs gov_load_defs gov_store_defs gov_event_defs)
  show ?thesis
  proof (cases "load_paused s")
    case False
    from up [OF this old] show ?thesis by (intro exI [of _ "[GScheduleUpgrade new, GExecuteUpgrade]"]) simp
  next
    case True
    let ?t = "store_paused False s"
    have "\<not> load_paused ?t" "gv_implementation ?t = Some old" "load_proposals ?t = load_proposals s"
      using old by (simp_all add: gov_load_defs gov_store_defs)
    from up [OF this(1,2)] this(3) True show ?thesis
      by (intro exI [of _ "[GUnpause, GScheduleUpgrade new, GExecuteUpgrade]"]) (simp add: unpause_def)
  qed
qed

theorem anyone_upgrades_witness:
  "\<exists>s cs s'. gov_run demo_gov_calls gov_storage0 = Inr s \<and>
     gov_run (map (Pair \<lparr>self_addr = Addr 0, now = 1000, authorized = (\<lambda>_. False)\<rparr>) cs) s = Inr s' \<and>
     gv_implementation s' = Some (Addr 66)"
proof -
  obtain s where s: "gov_run demo_gov_calls gov_storage0 = Inr s" and ini: "load_initialized s"
    and cf: "cf_implementation (config_of s) = Some (Addr 50)"
    using demo_gov_approved by auto
  have "gv_implementation s \<noteq> Some (Addr 66)" using cf by (simp add: config_of_def)
  from anyone_upgrades [OF gov_run_reachable [OF s gov_deployed_reachable] ini this] s
  show ?thesis by blast
qed

text \<open>
  A removed signer still counts. Signatures are compared with the threshold by number only and
  are not checked against the current signers, so a proposal signed by addresses that have all
  been removed since is executed: here signers 1 and 2 are removed, and an outsider executes the
  upgrade that only they had signed.
\<close>

theorem removed_signers_still_count:
  "\<exists>s p s'. reachable gov_deployed gov_step s \<and> load_proposals s 0 = Some p
    \<and> set (pr_signatures p) = {Addr 1, Addr 2} \<and> \<not> is_signer s (Addr 1) \<and> \<not> is_signer s (Addr 2)
    \<and> \<not> is_signer s (Addr 9)
    \<and> execute (demo_env 9 1100) s (Addr 9) 0 = Inr s'
    \<and> gv_implementation s = Some (Addr 50) \<and> gv_implementation s' = Some (Addr 51)"
proof -
  obtain s where s: "gov_run (demo_gov_calls @ demo_gov_removals) gov_storage0 = Inr s"
    and p: "load_proposals s 0 = Some (demo_proposal 0 (Upgrade (Addr 51)))"
    and sg: "gov_load_signers s = [Addr 3]" and im: "gv_implementation s = Some (Addr 50)"
    using demo_gov_removed by blast
  have "\<exists>s'. execute (demo_env 9 1100) s (Addr 9) 0 = Inr s' \<and> gv_implementation s' = Some (Addr 51)"
    using p im
    by (simp add: gov_execute_iff executable_def demo_proposal_def demo_env_def load_implementation_def
        gov_event_defs gov_store_defs)
  with gov_run_reachable [OF s gov_deployed_reachable] p sg im show ?thesis
    by (fastforce simp: is_signer_def demo_proposal_def)
qed

end
