(* ===== verification/Counter_Base.thy ===== *)
theory Counter_Base
  imports Soroban "HOL-Library.List_Lexorder" "HOL-Library.Char_ord"
begin

text \<open>
  What the modules of the counter contract share: the error catalogue of \<open>counter/src/errors.rs\<close>,
  the admin check of \<open>counter/src/admin.rs\<close> over the value under \<open>ADMIN_KEY\<close>, and symbols. A Soroban
  symbol is a string of at most 32 characters that the host orders lexicographically, as the
  library's order on lists of characters does.
\<close>

datatype (plugins only: code) counter_error =
    NotAdmin | NotAuthorized | InvalidAddress | InvalidMultiSigConfig | MultiSigNotConfigured
    | ProposalNotFound | ProposalAlreadyExecuted | AlreadyApproved | InsufficientApprovals
    | TimelockNotElapsed | AlreadyVoted | InsufficientSignatures | QuorumNotReached
    | ProposalFailed | ProposalCanceled | VotingEnded | NotInCouncil | TradingPaused
    | UserFrozen | CircuitBreakerTripped | InvalidPrivateTransaction | InvalidAmount
    | AmountOverflow | InvalidTokenSymbol | InvalidSwapPair | InsufficientBalance
    | ZeroAmountSwap | InvariantViolation | StalePrice | InvalidPrice | PriceNotSet
    | OracleNotConfigured | OracleNotActive | CircuitBreakerActive | CircuitBreakerTriggered
    | InvalidConfig | RateLimitExceeded | SlippageExceeded | Expired | LPPositionNotFound
    | InsufficientLPTokens | KYCVerificationRequired | NotKYCOperator
    | InvalidKYCStateTransition | KYCTerminalStateImmutable | SelfVerificationNotAllowed
    | KYCOverrideNotFound | KYCTimelockNotElapsed | KYCOverrideAlreadyExecuted
    | InvalidTimelockDuration | KYCRequestExpired | InvalidExpiryDuration | KYCDataTooLarge
    | KYCOperatorLimitReached | InvalidStakeDuration | StakeNotFound | StakeNotActive
    | StakeLocked | NoClaimableBonuses | DistributionTooEarly | FarmingPoolNotFound
    | InsufficientStakedLP | NotEmergencyAdmin | SelfReferral | AlreadyReferred
    | CircularReferral | FaucetRateLimited | FaucetNotConfigured

type_synonym symbol = string

definition is_admin :: "address option \<Rightarrow> address \<Rightarrow> bool" where
  "is_admin admin_key user = (case admin_key of None \<Rightarrow> False | Some admin \<Rightarrow> admin = user)"

definition require_admin :: "address option \<Rightarrow> address \<Rightarrow> (unit, counter_error) res" where
  "require_admin admin_key caller = (if is_admin admin_key caller then Inr () else Inl (Err NotAdmin))"

lemma is_admin_iff [simp]: "is_admin k a \<longleftrightarrow> k = Some a"
  by (auto simp: is_admin_def split: option.splits)

lemma require_admin_eq_Inr [res_simps]: "require_admin k a = Inr u \<longleftrightarrow> k = Some a"
  by (simp add: require_admin_def)

text \<open>\<open>map_err\<close> on the admin check: callers that report their own error for it.\<close>

definition map_err :: "'e \<Rightarrow> ('a, 'e) res \<Rightarrow> ('a, 'e) res" where
  "map_err e r = (case r of Inl (Err _) \<Rightarrow> Inl (Err e) | _ \<Rightarrow> r)"

lemma map_err_eq_Inr [res_simps]: "map_err e r = Inr a \<longleftrightarrow> r = Inr a"
  by (simp add: map_err_def split: sum.splits fault.splits)

end
