(* ===== verification/Tiers.thy ===== *)
theory Tiers
  imports Counter_Base
begin

text \<open>
  The fee tiers of the counter contract (\<open>swaptrade-contracts/counter/tiers.rs\<close>, with the admin
  check of \<open>counter/src/admin.rs\<close> and the entry points of \<open>counter/src/lib.rs\<close>): the tier a user
  earns, the discount table and the fee of a swap, with the bounds of the fee.
\<close>

section \<open>Tiers and fees\<close>

datatype user_tier = Novice | Trader | Expert | Whale

fun effective_fee_bps :: "user_tier \<Rightarrow> nat" where
  "effective_fee_bps Novice = 30"
| "effective_fee_bps Trader = 25"
| "effective_fee_bps Expert = 20"
| "effective_fee_bps Whale = 15"

definition calculate_fee :: "user_tier \<Rightarrow> int \<Rightarrow> (int, counter_error) res" where
  "calculate_fee tier swap_amount =
     (let bps = int (effective_fee_bps tier)
      in bindR (i_mul swap_amount bps) (\<lambda>x. i_div x 10000))"

record tier_storage =
  ts_admin :: "address option"
  ts_discounts :: "(user_tier \<rightharpoonup> nat) option"

definition default_discount_table :: "user_tier \<rightharpoonup> nat" where
  "default_discount_table = [Novice \<mapsto> 0, Trader \<mapsto> 5, Expert \<mapsto> 10, Whale \<mapsto> 20]"

definition get_all_tier_discounts :: "tier_storage \<Rightarrow> (user_tier \<rightharpoonup> nat)" where
  "get_all_tier_discounts s = (case ts_discounts s of None \<Rightarrow> default_discount_table | Some t \<Rightarrow> t)"

definition get_tier_discount_bps :: "tier_storage \<Rightarrow> user_tier \<Rightarrow> nat" where
  "get_tier_discount_bps s tier =
     (let table = (case ts_discounts s of None \<Rightarrow> default_discount_table | Some t \<Rightarrow> t)
      in case table tier of None \<Rightarrow> 0 | Some d \<Rightarrow> d)"

definition set_tier_discount_bps :: "tier_storage \<Rightarrow> address \<Rightarrow> user_tier \<Rightarrow> nat
    \<Rightarrow> (tier_storage, counter_error) res" where
  "set_tier_discount_bps s admin tier discount_bps =
     bindR (require_admin (ts_admin s) admin) (\<lambda>_.
     let table = (case ts_discounts s of None \<Rightarrow> default_discount_table | Some t \<Rightarrow> t)
     in Inr (s\<lparr>ts_discounts := Some (table(tier \<mapsto> discount_bps))\<rparr>))"

definition set_tier_discount :: "env \<Rightarrow> tier_storage \<Rightarrow> address \<Rightarrow> user_tier \<Rightarrow> nat
    \<Rightarrow> (tier_storage, counter_error) res" where
  "set_tier_discount e s admin tier discount_bps =
     bindR (require_auth e admin) (\<lambda>_. set_tier_discount_bps s admin tier discount_bps)"

text \<open>Subtraction on \<open>nat\<close> is \<open>saturating_sub\<close>.\<close>

definition get_effective_fee_bps :: "tier_storage \<Rightarrow> user_tier \<Rightarrow> nat" where
  "get_effective_fee_bps s user_tier =
     (let base = effective_fee_bps user_tier; discount = get_tier_discount_bps s user_tier
      in max (base - discount) 1)"

definition calculate_effective_fee :: "tier_storage \<Rightarrow> int \<Rightarrow> user_tier \<Rightarrow> (int, counter_error) res" where
  "calculate_effective_fee s swap_amount user_tier =
     (let bps = int (get_effective_fee_bps s user_tier)
      in if swap_amount \<le> 0 \<or> bps \<le> 0 then Inr 0
         else bindR (i_mul swap_amount bps) (\<lambda>x. i_div x 10000))"

definition calculate_user_tier :: "nat \<Rightarrow> int \<Rightarrow> user_tier" where
  "calculate_user_tier trade_count volume =
     (if trade_count \<ge> 200 \<and> volume \<ge> 10000 then Whale
      else if trade_count \<ge> 50 \<and> volume \<ge> 1000 then Expert
      else if trade_count \<ge> 10 \<or> volume \<ge> 100 then Trader
      else Novice)"

section \<open>Tiers are ordered\<close>

fun tier_rank :: "user_tier \<Rightarrow> nat" where
  "tier_rank Novice = 0" | "tier_rank Trader = 1" | "tier_rank Expert = 2" | "tier_rank Whale = 3"

lemma tier_rank_inject: "tier_rank a = tier_rank b \<Longrightarrow> a = b"
  by (cases a; cases b) auto

instantiation user_tier :: linorder
begin

definition less_eq_user_tier :: "user_tier \<Rightarrow> user_tier \<Rightarrow> bool" where
  "less_eq_user_tier a b \<longleftrightarrow> tier_rank a \<le> tier_rank b"

definition less_user_tier :: "user_tier \<Rightarrow> user_tier \<Rightarrow> bool" where
  "less_user_tier a b \<longleftrightarrow> tier_rank a < tier_rank b"

instance
  by standard (auto simp: less_eq_user_tier_def less_user_tier_def dest: tier_rank_inject)

end

lemma base_fee_antimono: "a \<le> b \<Longrightarrow> effective_fee_bps b \<le> effective_fee_bps a"
  by (cases a; cases b) (auto simp: less_eq_user_tier_def)

lemma base_fee_le: "effective_fee_bps t \<le> 30"
  by (cases t) auto

text \<open>More trades and more volume never lower the tier, nor raise the fee under the default table.\<close>

lemma user_tier_mono:
  "n \<le> n' \<Longrightarrow> v \<le> v' \<Longrightarrow> calculate_user_tier n v \<le> calculate_user_tier n' v'"
  by (auto simp: calculate_user_tier_def less_eq_user_tier_def)

lemma default_fee_antimono:
  "ts_discounts s = None \<Longrightarrow> a \<le> b \<Longrightarrow> get_effective_fee_bps s b \<le> get_effective_fee_bps s a"
  by (cases a; cases b)
    (auto simp: less_eq_user_tier_def get_effective_fee_bps_def get_tier_discount_bps_def
      default_discount_table_def)

section \<open>The fee is bounded\<close>

lemma fee_bps_bounds: "1 \<le> get_effective_fee_bps s t \<and> get_effective_fee_bps s t \<le> effective_fee_bps t"
  by (cases t) (auto simp: get_effective_fee_bps_def Let_def)

text \<open>
  The swap fee is bounded whatever the discount table holds. For every tier the effective rate
  is between 1 basis point and the tier's base rate (at most 30); the fee of a swap whose product
  fits an \<open>i128\<close> is computed without a trap, rounds down, and takes at most 0.3 percent of the
  amount, while an amount that is not positive costs nothing.
\<close>

theorem effective_fee_bounded:
  assumes "i128_ok (swap_amount * int (get_effective_fee_bps s tier))"
  shows "\<exists>fee. calculate_effective_fee s swap_amount tier = Inr fee
    \<and> fee = max 0 (swap_amount * int (get_effective_fee_bps s tier) div 10000)
    \<and> 0 \<le> fee \<and> 10000 * fee \<le> 30 * max 0 swap_amount
    \<and> 1 \<le> get_effective_fee_bps s tier \<and> get_effective_fee_bps s tier \<le> effective_fee_bps tier"
proof -
  let ?b = "int (get_effective_fee_bps s tier)"
  have b: "1 \<le> ?b" "?b \<le> 30"
    using fee_bps_bounds [of s tier] base_fee_le [of tier] by linarith+
  show ?thesis
  proof (cases "swap_amount \<le> 0")
    case True
    then have "swap_amount * ?b \<le> 0" using b by (simp add: mult_le_0_iff)
    then have "swap_amount * ?b div 10000 \<le> 0" by linarith
    then show ?thesis
      using True fee_bps_bounds [of s tier] by (simp add: calculate_effective_fee_def Let_def)
  next
    case False
    then have pos: "0 \<le> swap_amount * ?b" using b by simp
    have "swap_amount * ?b \<le> swap_amount * 30" using False b by (intro mult_left_mono) auto
    then have "10000 * (swap_amount * ?b div 10000) \<le> 30 * swap_amount" by linarith
    moreover have "0 \<le> swap_amount * ?b div 10000" using pos by (simp add: pos_imp_zdiv_nonneg_iff)
    ultimately show ?thesis
      using False b assms fee_bps_bounds [of s tier] i_div_nonneg [OF pos, of 10000]
      by (simp add: calculate_effective_fee_def Let_def i_mul_def i_check_def)
  qed
qed

theorem effective_fee_bounded_witness:
  "\<exists>fee. calculate_effective_fee \<lparr>ts_admin = None, ts_discounts = None\<rparr> 123456 Expert = Inr fee \<and> fee = 123"
proof -
  let ?s = "\<lparr>ts_admin = None, ts_discounts = None\<rparr>"
  have bps: "get_effective_fee_bps ?s Expert = 10"
    by (simp add: get_effective_fee_bps_def get_tier_discount_bps_def default_discount_table_def)
  have "i128_ok (123456 * int (get_effective_fee_bps ?s Expert))"
    by (simp add: bps i128_ok_def I128_MIN_def I128_MAX_def)
  from effective_fee_bounded [OF this] show ?thesis by (simp add: bps)
qed

end
