(* ===== verification/Rate_Limit.thy ===== *)
theory Rate_Limit
  imports Tiers
begin

text \<open>
  The fixed-window rate limiters of the counter contract (\<open>counter/src/rate_limit.rs\<close>): window
  computation with its bitwise shortcut and its cached form, the swap and liquidity limiters with
  their counters, and the limiter of sensitive actions. A \<open>Result\<close> that a caller may inspect
  without failing is the second component of a returned pair; \<open>Trap\<close> is a checked overflow or a
  division by zero.
\<close>

section \<open>Windows\<close>

record cached_boundary =
  cb_window_start :: nat
  cb_expires_at :: nat
  cb_window_duration :: nat

definition cb_is_valid :: "cached_boundary \<Rightarrow> nat \<Rightarrow> bool" where
  "cb_is_valid c timestamp \<longleftrightarrow> timestamp < cb_expires_at c"

definition cb_new :: "nat \<Rightarrow> nat \<Rightarrow> (cached_boundary, counter_error) res" where
  "cb_new window_start window_duration =
     bindR (u_add 64 window_start window_duration) (\<lambda>expires_at.
     Inr \<lparr>cb_window_start = window_start, cb_expires_at = expires_at, cb_window_duration = window_duration\<rparr>)"

record rate_config =
  swaps_per_hour :: nat
  lp_ops_per_day :: nat

definition U32_MAX :: nat where
  "U32_MAX = 2 ^ 32 - 1"

fun for_tier :: "user_tier \<Rightarrow> rate_config" where
  "for_tier Novice = \<lparr>swaps_per_hour = 5, lp_ops_per_day = 10\<rparr>"
| "for_tier Trader = \<lparr>swaps_per_hour = 20, lp_ops_per_day = 30\<rparr>"
| "for_tier Expert = \<lparr>swaps_per_hour = 100, lp_ops_per_day = U32_MAX\<rparr>"
| "for_tier Whale = \<lparr>swaps_per_hour = U32_MAX, lp_ops_per_day = U32_MAX\<rparr>"

record rate_status =
  rs_used :: nat
  rs_limit :: nat
  rs_cooldown_ms :: nat

record time_window =
  tw_start :: nat
  tw_duration :: nat

definition hourly :: "nat \<Rightarrow> time_window" where
  "hourly current_timestamp =
     (let window_duration = 3600; window_start = current_timestamp div window_duration * window_duration
      in \<lparr>tw_start = window_start, tw_duration = window_duration\<rparr>)"

definition daily :: "nat \<Rightarrow> time_window" where
  "daily current_timestamp =
     (let window_duration = 86400; window_start = current_timestamp div window_duration * window_duration
      in \<lparr>tw_start = window_start, tw_duration = window_duration\<rparr>)"

definition is_power_of_two :: "64 word \<Rightarrow> bool" where
  "is_power_of_two d \<longleftrightarrow> list_ex (\<lambda>k. d = push_bit k 1) [0..<64]"

unbundle bit_operations_syntax

text \<open>The bitwise form on 64-bit words, as the code computes it; \<open>d / 0\<close> panics.\<close>

definition fast_window_start :: "64 word \<Rightarrow> 64 word \<Rightarrow> (64 word, counter_error) res" where
  "fast_window_start t d =
     (if is_power_of_two d then Inr (t AND NOT (d - 1))
      else if d = 0 then Inl Trap else Inr (t div d * d))"

definition fast_window :: "64 word \<Rightarrow> 64 word \<Rightarrow> (time_window, counter_error) res" where
  "fast_window current_timestamp window_duration =
     bindR (fast_window_start current_timestamp window_duration) (\<lambda>window_start.
     Inr \<lparr>tw_start = unat window_start, tw_duration = unat window_duration\<rparr>)"

definition cooldown_ms :: "time_window \<Rightarrow> nat \<Rightarrow> (nat, counter_error) res" where
  "cooldown_ms w current_timestamp =
     bindR (u_add 64 (tw_start w) (tw_duration w)) (\<lambda>next_window.
     if current_timestamp \<ge> next_window then Inr 0
     else (let r = (next_window - current_timestamp) * 1000
           in if r < 2 ^ 64 then Inr r else Inl Trap))"

section \<open>Counters and caches\<close>

text \<open>The counter keys are \<open>(user, symbol, window start)\<close> with symbols swap, lp\_op and sens.\<close>

datatype action_kind = Swap_Op | Lp_Op | Sens

record rate_store =
  rl_counts :: "(address \<times> action_kind \<times> nat) \<rightharpoonup> nat"
  rl_hourly :: "cached_boundary option"
  rl_daily :: "cached_boundary option"

definition rate_store0 :: rate_store where
  "rate_store0 = \<lparr>rl_counts = Map.empty, rl_hourly = None, rl_daily = None\<rparr>"

definition rl_count :: "rate_store \<Rightarrow> address \<Rightarrow> action_kind \<Rightarrow> nat \<Rightarrow> nat" where
  "rl_count s user kind w = (case rl_counts s (user, kind, w) of None \<Rightarrow> 0 | Some n \<Rightarrow> n)"

definition hourly_cached :: "rate_store \<Rightarrow> nat \<Rightarrow> (time_window \<times> rate_store, counter_error) res" where
  "hourly_cached s current_timestamp =
     (let fresh = (let window = hourly current_timestamp in
            bindR (cb_new (tw_start window) (tw_duration window)) (\<lambda>new_cache.
            Inr (window, s\<lparr>rl_hourly := Some new_cache\<rparr>)))
      in case rl_hourly s of
           Some cached \<Rightarrow>
             if cb_is_valid cached current_timestamp
             then Inr (\<lparr>tw_start = cb_window_start cached, tw_duration = cb_window_duration cached\<rparr>, s)
             else fresh
         | None \<Rightarrow> fresh)"

definition daily_cached :: "rate_store \<Rightarrow> nat \<Rightarrow> (time_window \<times> rate_store, counter_error) res" where
  "daily_cached s current_timestamp =
     (let fresh = (let window = daily current_timestamp in
            bindR (cb_new (tw_start window) (tw_duration window)) (\<lambda>new_cache.
            Inr (window, s\<lparr>rl_daily := Some new_cache\<rparr>)))
      in case rl_daily s of
           Some cached \<Rightarrow>
             if cb_is_valid cached current_timestamp
             then Inr (\<lparr>tw_start = cb_window_start cached, tw_duration = cb_window_duration cached\<rparr>, s)
             else fresh
         | None \<Rightarrow> fresh)"

section \<open>The swap and liquidity limiters\<close>

type_synonym rate_verdict = "rate_status + unit"

definition check_swap_limit :: "env \<Rightarrow> rate_store \<Rightarrow> address \<Rightarrow> user_tier
    \<Rightarrow> (rate_verdict \<times> rate_store, counter_error) res" where
  "check_swap_limit e s user tier =
     (let config = for_tier tier in
      if swaps_per_hour config = U32_MAX then Inr (Inr (), s)
      else (let timestamp = now e in
        bindR (hourly_cached s timestamp) (\<lambda>(window, s1).
        let current_count = rl_count s1 user Swap_Op (tw_start window) in
        if current_count \<ge> swaps_per_hour config
        then bindR (cooldown_ms window timestamp) (\<lambda>c.
          Inr (Inl \<lparr>rs_used = current_count, rs_limit = swaps_per_hour config, rs_cooldown_ms = c\<rparr>, s1))
        else Inr (Inr (), s1))))"

definition record_swap :: "rate_store \<Rightarrow> address \<Rightarrow> nat \<Rightarrow> (rate_store, counter_error) res" where
  "record_swap s user timestamp =
     bindR (hourly_cached s timestamp) (\<lambda>(window, s1).
     let current_count = rl_count s1 user Swap_Op (tw_start window) in
     bindR (u_add 32 current_count 1) (\<lambda>n.
     Inr (s1\<lparr>rl_counts := (rl_counts s1)((user, Swap_Op, tw_start window) \<mapsto> n)\<rparr>)))"

definition check_lp_limit :: "env \<Rightarrow> rate_store \<Rightarrow> address \<Rightarrow> user_tier
    \<Rightarrow> (rate_verdict \<times> rate_store, counter_error) res" where
  "check_lp_limit e s user tier =
     (let config = for_tier tier in
      if lp_ops_per_day config = U32_MAX then Inr (Inr (), s)
      else (let timestamp = now e in
        bindR (daily_cached s timestamp) (\<lambda>(window, s1).
        let current_count = rl_count s1 user Lp_Op (tw_start window) in
        if current_count \<ge> lp_ops_per_day config
        then bindR (cooldown_ms window timestamp) (\<lambda>c.
          Inr (Inl \<lparr>rs_used = current_count, rs_limit = lp_ops_per_day config, rs_cooldown_ms = c\<rparr>, s1))
        else Inr (Inr (), s1))))"

definition record_lp_op :: "rate_store \<Rightarrow> address \<Rightarrow> nat \<Rightarrow> (rate_store, counter_error) res" where
  "record_lp_op s user timestamp =
     bindR (daily_cached s timestamp) (\<lambda>(window, s1).
     let current_count = rl_count s1 user Lp_Op (tw_start window) in
     bindR (u_add 32 current_count 1) (\<lambda>n.
     Inr (s1\<lparr>rl_counts := (rl_counts s1)((user, Lp_Op, tw_start window) \<mapsto> n)\<rparr>)))"

definition get_swap_status :: "env \<Rightarrow> rate_store \<Rightarrow> address \<Rightarrow> user_tier
    \<Rightarrow> (rate_status \<times> rate_store, counter_error) res" where
  "get_swap_status e s user tier =
     (let config = for_tier tier; timestamp = now e in
      bindR (hourly_cached s timestamp) (\<lambda>(window, s1).
      let used = rl_count s1 user Swap_Op (tw_start window) in
      bindR (cooldown_ms window timestamp) (\<lambda>c.
      Inr (\<lparr>rs_used = used, rs_limit = swaps_per_hour config, rs_cooldown_ms = c\<rparr>, s1))))"

definition get_lp_status :: "env \<Rightarrow> rate_store \<Rightarrow> address \<Rightarrow> user_tier
    \<Rightarrow> (rate_status \<times> rate_store, counter_error) res" where
  "get_lp_status e s user tier =
     (let config = for_tier tier; timestamp = now e in
      bindR (daily_cached s timestamp) (\<lambda>(window, s1).
      let used = rl_count s1 user Lp_Op (tw_start window) in
      bindR (cooldown_ms window timestamp) (\<lambda>c.
      Inr (\<lparr>rs_used = used, rs_limit = lp_ops_per_day config, rs_cooldown_ms = c\<rparr>, s1))))"

text \<open>One expired counter is removed per kind; the second component is the number removed.\<close>

definition drop_counter :: "address \<times> action_kind \<times> nat \<Rightarrow> rate_store \<times> nat \<Rightarrow> rate_store \<times> nat" where
  "drop_counter key sn = (case sn of (s, removed) \<Rightarrow>
     if rl_counts s key \<noteq> None
     then (s\<lparr>rl_counts := (rl_counts s)(key := None)\<rparr>, removed + 1) else (s, removed))"

definition cleanup_rate_limits :: "env \<Rightarrow> rate_store \<Rightarrow> address \<Rightarrow> nat \<times> rate_store" where
  "cleanup_rate_limits e s user =
     (let timestamp = now e;
          current_hourly = tw_start (hourly timestamp);
          current_daily = tw_start (daily timestamp);
          sn1 = (if current_hourly \<ge> 3600
                 then drop_counter (user, Swap_Op, current_hourly - 3600) (s, 0) else (s, 0));
          sn2 = (if current_daily \<ge> 86400
                 then drop_counter (user, Lp_Op, current_daily - 86400) sn1 else sn1)
      in (snd sn2, fst sn2))"

section \<open>Sensitive actions\<close>

definition SENSITIVE_ACTION_LIMIT :: nat where
  "SENSITIVE_ACTION_LIMIT = 3"

definition SENSITIVE_ACTION_WINDOW :: nat where
  "SENSITIVE_ACTION_WINDOW = 600"

definition sens_window :: "nat \<Rightarrow> nat" where
  "sens_window timestamp = timestamp div SENSITIVE_ACTION_WINDOW * SENSITIVE_ACTION_WINDOW"

definition check_and_record :: "env \<Rightarrow> rate_store \<Rightarrow> address \<Rightarrow> (rate_store, counter_error) res" where
  "check_and_record e s user =
     (let timestamp = now e; window_start = sens_window timestamp;
          count = rl_count s user Sens window_start
      in bindR (ensure (\<not> count \<ge> SENSITIVE_ACTION_LIMIT) (Err RateLimitExceeded)) (\<lambda>_.
         bindR (u_add 32 count 1) (\<lambda>n.
         Inr (s\<lparr>rl_counts := (rl_counts s)((user, Sens, window_start) \<mapsto> n)\<rparr>))))"

definition current_usage :: "env \<Rightarrow> rate_store \<Rightarrow> address \<Rightarrow> nat" where
  "current_usage e s user = rl_count s user Sens (sens_window (now e))"

end
