(* ===== verification/Rate_Limit_Props.thy ===== *)
theory Rate_Limit_Props
  imports Rate_Limit
begin

text \<open>
  Properties of the rate limiters: the bitwise window shortcut and the window caches compute the
  plain quotient, the swap limiter decides by the counter of the true hour, and the limiter of
  sensitive actions grants exactly three per window.
\<close>

section \<open>The bitwise window\<close>

lemma and_not_mask_div:
  fixes t :: "64 word"
  assumes "k < 64"
  shows "Bit_Operations.and t (Bit_Operations.not (push_bit k 1 - 1)) = t div push_bit k 1 * push_bit k 1"
proof -
  have m: "push_bit k 1 - 1 = (mask k :: 64 word)"
    by (simp add: mask_eq_exp_minus_1 push_bit_of_1)
  have "Bit_Operations.and t (Bit_Operations.not (mask k)) = push_bit k (drop_bit k t)"
    by (rule bit_word_eqI) (auto simp: bit_simps)
  then show ?thesis
    unfolding m by (simp add: push_bit_eq_mult drop_bit_eq_div push_bit_of_1)
qed

lemma window_start_unat: "unat (t div d * d) = unat t div unat d * unat d" for t d :: "64 word"
proof -
  have "unat t div unat d * unat d \<le> unat t" by simp
  also have "unat t < 2 ^ 64" using unsigned_less [of t, where ?'a = nat] by simp
  finally have "unat (t div d) * unat d < 2 ^ 64" by (simp only: unat_div)
  then have "unat (t div d * d) = unat (t div d) * unat d"
    using unat_mult_lem [of "t div d" d] by simp
  then show ?thesis by (simp only: unat_div)
qed

text \<open>
  The shortcut is the quotient. For every timestamp and every duration \<open>fast_window\<close>, which
  masks bits when the duration is a power of two, returns the same window as division and
  multiplication on unbounded numbers; it panics exactly for duration zero.
\<close>

theorem fast_window_exact:
  "fast_window t d = (if d = 0 then Inl Trap
     else Inr \<lparr>tw_start = unat t div unat d * unat d, tw_duration = unat d\<rparr>)"
proof (cases "is_power_of_two d")
  case True
  then obtain k where k: "k < 64" "d = push_bit k 1"
    by (auto simp: is_power_of_two_def list_ex_iff)
  have "d \<noteq> 0"
    using k by (simp add: push_bit_of_1) 
  with True k and_not_mask_div [OF k(1), of t] window_start_unat [of t d] show ?thesis
    by (simp add: fast_window_def fast_window_start_def)
next
  case False
  with window_start_unat [of t d] show ?thesis
    by (simp add: fast_window_def fast_window_start_def)
qed

section \<open>The window caches\<close>

locale window_cache =
  fixes cache :: "'s \<Rightarrow> cached_boundary option"
    and len :: nat
    and cached :: "'s \<Rightarrow> nat \<Rightarrow> (time_window \<times> 's, 'e) res"
  assumes len_pos: "0 < len"
    and cached_hit: "cache s = Some c \<Longrightarrow> t < cb_expires_at c \<Longrightarrow>
      cached s t = Inr (\<lparr>tw_start = cb_window_start c, tw_duration = cb_window_duration c\<rparr>, s)"
    and cached_miss: "\<not> (\<exists>c. cache s = Some c \<and> t < cb_expires_at c) \<Longrightarrow> cached s t = Inr (w, s') \<Longrightarrow>
      w = \<lparr>tw_start = t div len * len, tw_duration = len\<rparr> \<and>
      cache s' = Some \<lparr>cb_window_start = t div len * len, cb_expires_at = t div len * len + len,
        cb_window_duration = len\<rparr>"
    and cached_total: "t + len < 2 ^ 64 \<Longrightarrow> \<exists>r. cached s t = Inr r"
begin

text \<open>A cache entry is the window of an earlier time.\<close>

definition cache_ok :: "nat \<Rightarrow> 's \<Rightarrow> bool" where
  "cache_ok t0 s \<longleftrightarrow> (\<forall>c. cache s = Some c \<longrightarrow> (\<exists>t\<le>t0. c = \<lparr>cb_window_start = t div len * len,
     cb_expires_at = t div len * len + len, cb_window_duration = len\<rparr>))"

lemma cache_ok_None: "cache s = None \<Longrightarrow> cache_ok t s"
  by (simp add: cache_ok_def)

lemma cache_ok_mono: "cache_ok t s \<Longrightarrow> t \<le> t' \<Longrightarrow> cache s' = cache s \<Longrightarrow> cache_ok t' s'"
  unfolding cache_ok_def by (metis le_trans)

lemma same_window: "t0 \<le> t \<Longrightarrow> t < t0 div len * len + len \<Longrightarrow> t div len = t0 div len"
proof -
  assume a: "t0 \<le> t" and b: "t < t0 div len * len + len"
  have "t div len < t0 div len + 1"
    using b len_pos by (simp add: div_less_iff_less_mult algebra_simps)
  with div_le_mono [OF a, of len] show ?thesis by simp
qed

lemma cached_exact:
  assumes ok: "cache_ok t0 s" and le: "t0 \<le> t" and c: "cached s t = Inr (w, s')"
  shows "w = \<lparr>tw_start = t div len * len, tw_duration = len\<rparr>" and "cache_ok t s'"
proof -
  have "w = \<lparr>tw_start = t div len * len, tw_duration = len\<rparr> \<and> cache_ok t s'"
  proof (cases "\<exists>c. cache s = Some c \<and> t < cb_expires_at c")
    case True
    then obtain cb where cb: "cache s = Some cb" "t < cb_expires_at cb" by blast
    with ok obtain t1 where t1: "t1 \<le> t0" and eq: "cb = \<lparr>cb_window_start = t1 div len * len,
        cb_expires_at = t1 div len * len + len, cb_window_duration = len\<rparr>"
      by (auto simp: cache_ok_def)
    have "t div len = t1 div len" by (rule same_window) (use t1 le cb(2) eq in auto)
    with cached_hit [OF cb] c eq cache_ok_mono [OF ok le] show ?thesis by auto
  next
    case False
    from cached_miss [OF this c] show ?thesis by (auto simp: cache_ok_def)
  qed
  then show "w = \<lparr>tw_start = t div len * len, tw_duration = len\<rparr>" and "cache_ok t s'" by auto
qed

end

lemma window_le: "t div n * n \<le> (t :: nat)"
  by simp

interpretation hour: window_cache rl_hourly 3600 hourly_cached
  by unfold_locales
    (auto simp: hourly_cached_def hourly_def cb_is_valid_def cb_new_def u_add_def Let_def
      split: option.splits if_splits intro: le_less_trans [OF add_right_mono [OF window_le]])

interpretation day: window_cache rl_daily 86400 daily_cached
  by unfold_locales
    (auto simp: daily_cached_def daily_def cb_is_valid_def cb_new_def u_add_def Let_def
      split: option.splits if_splits intro: le_less_trans [OF add_right_mono [OF window_le]])

section \<open>Runs of the limiters\<close>

datatype rate_call =
    CheckSwap address user_tier | RecordSwap address | CheckLp address user_tier | RecordLp address
  | SwapStatus address user_tier | LpStatus address user_tier | CleanupLimits address | Sensitive address

fun rate_exec :: "env \<Rightarrow> rate_store \<Rightarrow> rate_call \<Rightarrow> (rate_store, counter_error) res" where
  "rate_exec e s (CheckSwap u tier) = bindR (check_swap_limit e s u tier) (\<lambda>(_, s'). Inr s')"
| "rate_exec e s (RecordSwap u) = record_swap s u (now e)"
| "rate_exec e s (CheckLp u tier) = bindR (check_lp_limit e s u tier) (\<lambda>(_, s'). Inr s')"
| "rate_exec e s (RecordLp u) = record_lp_op s u (now e)"
| "rate_exec e s (SwapStatus u tier) = bindR (get_swap_status e s u tier) (\<lambda>(_, s'). Inr s')"
| "rate_exec e s (LpStatus u tier) = bindR (get_lp_status e s u tier) (\<lambda>(_, s'). Inr s')"
| "rate_exec e s (CleanupLimits u) = Inr (snd (cleanup_rate_limits e s u))"
| "rate_exec e s (Sensitive u) = check_and_record e s u"

text \<open>States carry the time of the last call: ledger time does not go back.\<close>

inductive rate_step :: "nat \<times> rate_store \<Rightarrow> nat \<times> rate_store \<Rightarrow> bool" where
  rate_step_call: "t \<le> now e \<Longrightarrow> rate_exec e s c = Inr s' \<Longrightarrow> rate_step (t, s) (now e, s')"

definition rate_deployed :: "nat \<times> rate_store \<Rightarrow> bool" where
  "rate_deployed ts \<longleftrightarrow> snd ts = rate_store0"

definition rate_inv :: "nat \<times> rate_store \<Rightarrow> bool" where
  "rate_inv ts \<longleftrightarrow> hour.cache_ok (fst ts) (snd ts) \<and> day.cache_ok (fst ts) (snd ts)"

text \<open>Reading a window writes its own cache only.\<close>

lemma hourly_cached_frame: "hourly_cached s t = Inr (w, s') \<Longrightarrow> rl_daily s' = rl_daily s \<and> rl_counts s' = rl_counts s"
  by (auto simp: hourly_cached_def Let_def res_simps split: option.splits if_splits)

lemma daily_cached_frame: "daily_cached s t = Inr (w, s') \<Longrightarrow> rl_hourly s' = rl_hourly s \<and> rl_counts s' = rl_counts s"
  by (auto simp: daily_cached_def Let_def res_simps split: option.splits if_splits)

lemma rate_inv_hourly:
  assumes "rate_inv (t0, s)" and "t0 \<le> t" and "hourly_cached s t = Inr (w, s')"
  shows "rate_inv (t, s') \<and> w = hourly t"
  using assms hour.cached_exact [of t0 s t w s'] hourly_cached_frame [OF assms(3)] day.cache_ok_mono [of t0 s t s']
  by (auto simp: rate_inv_def hourly_def)

lemma rate_inv_daily:
  assumes "rate_inv (t0, s)" and "t0 \<le> t" and "daily_cached s t = Inr (w, s')"
  shows "rate_inv (t, s') \<and> w = daily t"
  using assms day.cached_exact [of t0 s t w s'] daily_cached_frame [OF assms(3)] hour.cache_ok_mono [of t0 s t s']
  by (auto simp: rate_inv_def daily_def)

lemma rate_inv_counts:
  "rate_inv (t0, s) \<Longrightarrow> t0 \<le> t \<Longrightarrow> rl_hourly s' = rl_hourly s \<Longrightarrow> rl_daily s' = rl_daily s \<Longrightarrow> rate_inv (t, s')"
  using hour.cache_ok_mono day.cache_ok_mono by (auto simp: rate_inv_def)

lemma drop_counter_caches:
  "rl_hourly (fst (drop_counter k sn)) = rl_hourly (fst sn)" "rl_daily (fst (drop_counter k sn)) = rl_daily (fst sn)"
  by (simp_all add: drop_counter_def split: prod.splits)

text \<open>What each call does after it has read its window.\<close>

lemma rate_exec_window:
  assumes "rate_exec e s c = Inr s'"
  shows "(\<exists>s1. (s1 = s \<or> (\<exists>w. hourly_cached s (now e) = Inr (w, s1)) \<or> (\<exists>w. daily_cached s (now e) = Inr (w, s1)))
    \<and> rl_hourly s' = rl_hourly s1 \<and> rl_daily s' = rl_daily s1)"
proof (cases c)
  case (CleanupLimits u)
  with assms show ?thesis
    by (intro exI [of _ s]) (auto simp: cleanup_rate_limits_def Let_def drop_counter_caches)
next
  case (Sensitive u)
  with assms show ?thesis
    by (intro exI [of _ s]) (auto simp: check_and_record_def Let_def res_simps)
qed (use assms in \<open>fastforce simp: check_swap_limit_def record_swap_def check_lp_limit_def record_lp_op_def
    get_swap_status_def get_lp_status_def Let_def bindR_eq_Inr split: if_splits prod.splits\<close>)+

lemma rate_step_inv:
  assumes "rate_inv ts" and "rate_step ts ts'"
  shows "rate_inv ts'"
  using assms(2,1)
proof cases
  case (rate_step_call t e s c s')
  from rate_exec_window [OF this(4)] obtain s1 where
    s1: "s1 = s \<or> (\<exists>w. hourly_cached s (now e) = Inr (w, s1)) \<or> (\<exists>w. daily_cached s (now e) = Inr (w, s1))"
    and same: "rl_hourly s' = rl_hourly s1" "rl_daily s' = rl_daily s1" by blast
  have "rate_inv (now e, s1)"
    using s1 assms(1) rate_step_call(1,3) rate_inv_hourly rate_inv_daily rate_inv_counts by blast
  with rate_inv_counts [OF _ order_refl same] rate_step_call(2) show ?thesis by simp
qed

interpretation rate_machine: machine_invariant rate_deployed rate_step rate_inv
proof
  show "rate_deployed ts \<Longrightarrow> rate_inv ts" for ts
    by (simp add: rate_deployed_def rate_inv_def rate_store0_def hour.cache_ok_None day.cache_ok_None)
qed (rule rate_step_inv)

section \<open>The swap limiter\<close>

text \<open>
  The swap limiter decides by the true hour. In every reachable state, at any later ledger time
  that leaves room for the window arithmetic, \<open>check_swap_limit\<close> returns: it passes exactly when the tier
  is unlimited or the user's counter for the current hour (the quotient window, whatever the
  cache holds) is below the tier's limit, and it changes no counter; \<open>record_swap\<close> raises exactly that counter
  by one.
\<close>

theorem swap_limiter_exact:
  assumes "reachable rate_deployed rate_step (t0, s)" and "t0 \<le> now e" and "now e + 3600 < 2 ^ 64"
  shows "(\<exists>v s'. check_swap_limit e s user tier = Inr (v, s') \<and> rl_counts s' = rl_counts s
      \<and> (v = Inr () \<longleftrightarrow> tier = Whale
           \<or> rl_count s user Swap_Op (now e div 3600 * 3600) < swaps_per_hour (for_tier tier)))
    \<and> (\<forall>s'. record_swap s user (now e) = Inr s' \<longrightarrow> rl_counts s' = (rl_counts s)
        ((user, Swap_Op, now e div 3600 * 3600) \<mapsto> Suc (rl_count s user Swap_Op (now e div 3600 * 3600))))"
proof -
  let ?w = "now e div 3600 * 3600"
  have inv: "rate_inv (t0, s)" by (rule rate_machine.inv_reachable [OF assms(1)])
  obtain w s1 where hc: "hourly_cached s (now e) = Inr (w, s1)"
    using hour.cached_total [OF assms(3)] by force
  have w: "w = \<lparr>tw_start = ?w, tw_duration = 3600\<rparr>"
    using rate_inv_hourly [OF inv assms(2) hc] by (simp add: hourly_def)
  have cnt: "rl_counts s1 = rl_counts s" "rl_count s1 user Swap_Op ?w = rl_count s user Swap_Op ?w"
    using hourly_cached_frame [OF hc] by (simp_all add: rl_count_def)
  have "\<exists>c. cooldown_ms w (now e) = Inr c"
  proof -
    have le: "?w \<le> now e" and lt: "now e < ?w + 3600" by (simp, linarith)
    then have "(?w + 3600 - now e) * 1000 < 2 ^ 64" by simp
    moreover have "?w + 3600 < 2 ^ 64" using le assms(3) by linarith
    ultimately show ?thesis by (simp only: cooldown_ms_def w u_add_def Let_def if_True bindR_Inr time_window.simps) simp
  qed
  then obtain c where c: "cooldown_ms w (now e) = Inr c" ..
  have lim: "swaps_per_hour (for_tier tier) = U32_MAX \<longleftrightarrow> tier = Whale"
    by (cases tier) (simp_all add: U32_MAX_def)
  have "\<exists>v s'. check_swap_limit e s user tier = Inr (v, s') \<and> rl_counts s' = rl_counts s
      \<and> (v = Inr () \<longleftrightarrow> tier = Whale \<or> rl_count s user Swap_Op ?w < swaps_per_hour (for_tier tier))"
    using c cnt lim by (auto simp: check_swap_limit_def Let_def hc w)
  moreover have "rl_counts s' = (rl_counts s)((user, Swap_Op, ?w) \<mapsto> Suc (rl_count s user Swap_Op ?w))"
    if "record_swap s user (now e) = Inr s'" for s'
    using that cnt by (auto simp: record_swap_def hc w Let_def res_simps)
  ultimately show ?thesis by blast
qed

theorem swap_limiter_exact_witness:
  "\<exists>s v s'. record_swap rate_store0 (Addr 1) 7300 = Inr s \<and>
     check_swap_limit (demo_env 1 9000) s (Addr 1) Novice = Inr (v, s') \<and> v = Inr ()"
proof -
  have "\<exists>s. record_swap rate_store0 (Addr 1) 7300 = Inr s \<and> rl_count s (Addr 1) Swap_Op 7200 = 1"
    by (simp add: record_swap_def hourly_cached_def hourly_def cb_new_def u_add_def Let_def
        rate_store0_def rl_count_def)
  then obtain s where s: "record_swap rate_store0 (Addr 1) 7300 = Inr s" "rl_count s (Addr 1) Swap_Op 7200 = 1"
    by blast
  have "rate_step (0, rate_store0) (now (demo_env 1 7300), s)"
    by (rule rate_step_call [of _ _ _ "RecordSwap (Addr 1)"]) (use s(1) in \<open>simp_all add: demo_env_def\<close>)
  then have "rate_step (0, rate_store0) (7300, s)" by (simp add: demo_env_def)
  moreover have "rate_deployed (0, rate_store0)" by (simp add: rate_deployed_def)
  ultimately have r: "reachable rate_deployed rate_step (7300, s)" by (blast intro: reach_step reach_init)
  have "7300 \<le> now (demo_env 1 9000)" "now (demo_env 1 9000) + 3600 < 2 ^ 64" "now (demo_env 1 9000) = 9000"
    by (simp_all add: demo_env_def)
  from swap_limiter_exact [OF r this(1,2), of "Addr 1" Novice] this(3) s show ?thesis by auto
qed

section \<open>Sensitive actions\<close>

text \<open>How many actions of a user in one window a sequence of attempts gets through.\<close>

fun sens_granted :: "address \<Rightarrow> nat \<Rightarrow> (env \<times> address) list \<Rightarrow> rate_store \<Rightarrow> nat" where
  "sens_granted u w [] s = 0"
| "sens_granted u w ((e, x) # cs) s =
     (case check_and_record e s x of
        Inl _ \<Rightarrow> sens_granted u w cs s
      | Inr s' \<Rightarrow> (if x = u \<and> sens_window (now e) = w then 1 else 0) + sens_granted u w cs s')"

lemma check_and_record_cases:
  "check_and_record e s x = (let w = sens_window (now e) in
     if rl_count s x Sens w < 3
     then Inr (s\<lparr>rl_counts := (rl_counts s)((x, Sens, w) \<mapsto> Suc (rl_count s x Sens w))\<rparr>)
     else Inl (Err RateLimitExceeded))"
  by (auto simp: check_and_record_def Let_def SENSITIVE_ACTION_LIMIT_def ensure_def u_add_def)

text \<open>
  C23: a user gets exactly three sensitive actions per ten-minute window. For every sequence of
  attempts by any users at any times, from any counters, the number granted to a user in a window
  is the smaller of the number attempted there and what was left of three.
\<close>

theorem sensitive_actions_bounded:
  "sens_granted u w cs s = min (3 - rl_count s u Sens w)
     (length (filter (\<lambda>(e, x). x = u \<and> sens_window (now e) = w) cs))"
proof (induction cs arbitrary: s)
  case (Cons a cs)
  obtain e x where a: "a = (e, x)" by (cases a)
  show ?case
  proof (cases "rl_count s x Sens (sens_window (now e)) < 3")
    case True
    let ?s = "s\<lparr>rl_counts := (rl_counts s)((x, Sens, sens_window (now e)) \<mapsto>
      Suc (rl_count s x Sens (sens_window (now e))))\<rparr>"
    have "rl_count ?s u Sens w = (if x = u \<and> sens_window (now e) = w
        then Suc (rl_count s u Sens w) else rl_count s u Sens w)"
      by (auto simp: rl_count_def)
    with True show ?thesis
      by (auto simp: a check_and_record_cases Let_def Cons.IH)
  next
    case False
    then show ?thesis by (auto simp: a check_and_record_cases Let_def Cons.IH)
  qed
qed simp

end
