(* ===== verification/Pool_Registry.thy ===== *)
theory Pool_Registry
  imports Counter_Base
begin

text \<open>
  The multi-token pool registry of the counter contract (\<open>counter/src/liquidity_pool.rs\<close>): pools
  with their LP balances, swaps along the constant product curve, fees, and the search for a route.
  The registry is a record as in the code; the events a call publishes are kept beside it.
\<close>

section \<open>Data\<close>

definition MIN_LP_TOKENS :: int where
  "MIN_LP_TOKENS = 1000"

record liquidity_pool =
  lp_pool_id :: nat
  lp_token_a :: symbol
  lp_token_b :: symbol
  lp_reserve_a :: int
  lp_reserve_b :: int
  lp_total :: int
  lp_fee_tier :: nat
  lp_fees_a :: int
  lp_fees_b :: int

record route =
  rt_pools :: "nat list"
  rt_tokens :: "symbol list"
  rt_output :: int
  rt_impact_bps :: nat

record pool_registry =
  pr_pools :: "nat \<rightharpoonup> liquidity_pool"
  pr_pair :: "(symbol \<times> symbol) \<rightharpoonup> nat"
  pr_next :: nat
  pr_lp :: "(nat \<times> address) \<rightharpoonup> int"
  pr_max_hops :: nat

datatype pool_event =
    FeesDistributed symbol nat address int nat
  | FeesCollected symbol nat int nat
  | FeeParametersUpdated nat nat "address option" nat
  | LiquidityAdded address nat int int int nat
  | LiquidityRemoved address nat int int int nat

record pool_host = pool_registry +
  ph_events :: "pool_event list"

definition pool_publish :: "pool_event \<Rightarrow> pool_host \<Rightarrow> pool_host" where
  "pool_publish ev h = h\<lparr>ph_events := ph_events h @ [ev]\<rparr>"

definition fees_distributed :: "env \<Rightarrow> nat \<Rightarrow> symbol \<Rightarrow> int \<Rightarrow> address \<Rightarrow> pool_host \<Rightarrow> pool_host" where
  "fees_distributed e pool_id token amount recipient =
     pool_publish (FeesDistributed token pool_id recipient amount (now e))"

definition fees_collected :: "env \<Rightarrow> symbol \<Rightarrow> int \<Rightarrow> nat \<Rightarrow> pool_host \<Rightarrow> pool_host" where
  "fees_collected e token amount pool_id =
     pool_publish (FeesCollected token pool_id amount (now e))"

definition fee_parameters_updated :: "env \<Rightarrow> nat \<Rightarrow> nat \<Rightarrow> address option \<Rightarrow> pool_host \<Rightarrow> pool_host" where
  "fee_parameters_updated e pool_id new_fee_rate new_treasury =
     pool_publish (FeeParametersUpdated pool_id new_fee_rate new_treasury (now e))"

definition new_registry :: pool_host where
  "new_registry = \<lparr>pr_pools = Map.empty, pr_pair = Map.empty, pr_next = 1, pr_lp = Map.empty,
     pr_max_hops = 2, ph_events = []\<rparr>"

definition set_max_hops :: "nat \<Rightarrow> pool_host \<Rightarrow> pool_host" where
  "set_max_hops max_hops h = h\<lparr>pr_max_hops := max_hops\<rparr>"

definition get_max_hops :: "pool_host \<Rightarrow> nat" where
  "get_max_hops h = pr_max_hops h"

definition normalize_pair :: "symbol \<Rightarrow> symbol \<Rightarrow> symbol \<times> symbol" where
  "normalize_pair token_a token_b =
     (if token_a < token_b then (token_a, token_b) else (token_b, token_a))"

definition set_pool :: "nat \<Rightarrow> liquidity_pool \<Rightarrow> pool_host \<Rightarrow> pool_host" where
  "set_pool pool_id pool h = h\<lparr>pr_pools := (pr_pools h)(pool_id \<mapsto> pool)\<rparr>"

definition set_lp :: "nat \<times> address \<Rightarrow> int \<Rightarrow> pool_host \<Rightarrow> pool_host" where
  "set_lp key balance h = h\<lparr>pr_lp := (pr_lp h)(key \<mapsto> balance)\<rparr>"

definition get_pool :: "pool_host \<Rightarrow> nat \<Rightarrow> liquidity_pool option" where
  "get_pool h pool_id = pr_pools h pool_id"

definition get_lp_balance :: "pool_host \<Rightarrow> nat \<Rightarrow> address \<Rightarrow> int" where
  "get_lp_balance h pool_id provider =
     (case pr_lp h (pool_id, provider) of None \<Rightarrow> 0 | Some b \<Rightarrow> b)"

section \<open>Square root\<close>

text \<open>
  The \<open>while\<close> loop of \<open>sqrt\<close>, with its division and addition on \<open>u128\<close> as the code has them.
\<close>

function sqrt_loop :: "nat \<Rightarrow> nat \<Rightarrow> nat \<Rightarrow> (nat, counter_error) res" where
  "sqrt_loop y z x =
     (if x < z
      then bindR (u_div y x) (\<lambda>q. bindR (u_add 128 q x) (\<lambda>s. sqrt_loop y x (s div 2)))
      else Inr z)"
  by pat_completeness auto
termination
  by (relation "measure (\<lambda>(y, z, x). z)") auto

declare sqrt_loop.simps [simp del]

definition sqrt_u128 :: "nat \<Rightarrow> (nat, counter_error) res" where
  "sqrt_u128 y = (if y < 4 then Inr (if y = 0 then 0 else 1)
     else bindR (u_add 128 (y div 2) 1) (\<lambda>x. sqrt_loop y y x))"

definition checked_mul_128 :: "nat \<Rightarrow> nat \<Rightarrow> (nat, counter_error) res" where
  "checked_mul_128 a b = ok_or (u_checked_mul 128 a b) (Err AmountOverflow)"

definition checked_add_128 :: "nat \<Rightarrow> nat \<Rightarrow> (nat, counter_error) res" where
  "checked_add_128 a b = ok_or (u_checked_add 128 a b) (Err AmountOverflow)"

section \<open>Registering pools\<close>

definition valid_fee_tier :: "nat \<Rightarrow> bool" where
  "valid_fee_tier t \<longleftrightarrow> t \<in> {1, 5, 30}"

definition register_pool :: "env \<Rightarrow> pool_host \<Rightarrow> address \<Rightarrow> symbol \<Rightarrow> symbol \<Rightarrow> int \<Rightarrow> int \<Rightarrow> nat
    \<Rightarrow> (nat \<times> pool_host, counter_error) res" where
  "register_pool e h admin token_a token_b initial_a initial_b fee_tier =
     bindR (require_auth e admin) (\<lambda>_.
     bindR (ensure (valid_fee_tier fee_tier) (Err InvalidAmount)) (\<lambda>_.
     bindR (ensure (\<not> (token_a = token_b \<or> initial_a \<le> 0 \<or> initial_b \<le> 0)) (Err InvalidSwapPair)) (\<lambda>_.
     let (norm_a, norm_b) = normalize_pair token_a token_b in
     bindR (ensure (pr_pair h (norm_a, norm_b) = None) (Err InvalidSwapPair)) (\<lambda>_.
     let pool_id = pr_next h;
         (reserve_a, reserve_b) = (if token_a = norm_a then (initial_a, initial_b) else (initial_b, initial_a))
     in
     bindR (checked_mul_128 (as_u128 reserve_a) (as_u128 reserve_b)) (\<lambda>product.
     bindR (sqrt_u128 product) (\<lambda>root.
     let initial_lp = as_i128 root;
         pool = \<lparr>lp_pool_id = pool_id, lp_token_a = norm_a, lp_token_b = norm_b, lp_reserve_a = reserve_a,
                  lp_reserve_b = reserve_b, lp_total = initial_lp, lp_fee_tier = fee_tier,
                  lp_fees_a = 0, lp_fees_b = 0\<rparr>;
         h1 = set_pool pool_id pool h;
         h2 = h1\<lparr>pr_pair := (pr_pair h1)((norm_a, norm_b) \<mapsto> pool_id)\<rparr>
     in
     bindR (u_add 64 (pr_next h2) 1) (\<lambda>next_id.
     Inr (pool_id, h2\<lparr>pr_next := next_id\<rparr>))))))))"

section \<open>Liquidity\<close>

definition find_pool :: "pool_host \<Rightarrow> nat \<Rightarrow> (liquidity_pool, counter_error) res" where
  "find_pool h pool_id = ok_or (pr_pools h pool_id) (Err LPPositionNotFound)"

definition mint_amount :: "liquidity_pool \<Rightarrow> int \<Rightarrow> int \<Rightarrow> (int, counter_error) res" where
  "mint_amount pool amount_a amount_b =
     (if lp_total pool = 0
      then bindR (checked_mul_128 (as_u128 amount_a) (as_u128 amount_b)) (\<lambda>product.
           bindR (sqrt_u128 product) (\<lambda>root. Inr (as_i128 root)))
      else bindR (checked_mul_128 (as_u128 amount_a) (as_u128 (lp_total pool))) (\<lambda>pa.
           bindR (u_div pa (as_u128 (lp_reserve_a pool))) (\<lambda>lp_a.
           bindR (checked_mul_128 (as_u128 amount_b) (as_u128 (lp_total pool))) (\<lambda>pb.
           bindR (u_div pb (as_u128 (lp_reserve_b pool))) (\<lambda>lp_b.
           Inr (as_i128 (min lp_a lp_b)))))))"

definition checked_i128 :: "int \<Rightarrow> counter_error \<Rightarrow> (int, counter_error) res" where
  "checked_i128 x er = ok_or (i_checked x) (Err er)"

definition add_liquidity :: "pool_host \<Rightarrow> nat \<Rightarrow> int \<Rightarrow> int \<Rightarrow> address
    \<Rightarrow> (int \<times> pool_host, counter_error) res" where
  "add_liquidity h pool_id amount_a amount_b provider =
     bindR (find_pool h pool_id) (\<lambda>pool.
     bindR (ensure (\<not> (amount_a \<le> 0 \<or> amount_b \<le> 0 \<or> lp_reserve_a pool = 0 \<or> lp_reserve_b pool = 0))
       (Err InvalidAmount)) (\<lambda>_.
     bindR (mint_amount pool amount_a amount_b) (\<lambda>lp_tokens.
     bindR (ensure (\<not> (lp_tokens \<le> 0 \<or> lp_tokens < MIN_LP_TOKENS)) (Err InvalidAmount)) (\<lambda>_.
     bindR (checked_i128 (lp_reserve_a pool + amount_a) AmountOverflow) (\<lambda>reserve_a.
     bindR (checked_i128 (lp_reserve_b pool + amount_b) AmountOverflow) (\<lambda>reserve_b.
     bindR (checked_i128 (lp_total pool + lp_tokens) AmountOverflow) (\<lambda>total.
     let h1 = set_pool pool_id (pool\<lparr>lp_reserve_a := reserve_a, lp_reserve_b := reserve_b, lp_total := total\<rparr>) h;
         key = (pool_id, provider)
     in
     bindR (checked_i128 (get_lp_balance h1 pool_id provider + lp_tokens) AmountOverflow) (\<lambda>balance.
     Inr (lp_tokens, set_lp key balance h1)))))))))"

definition claim_fees :: "env \<Rightarrow> pool_host \<Rightarrow> nat \<Rightarrow> address
    \<Rightarrow> ((int \<times> int) \<times> pool_host, counter_error) res" where
  "claim_fees e h pool_id provider =
     bindR (find_pool h pool_id) (\<lambda>pool.
     let lp_balance = get_lp_balance h pool_id provider in
     bindR (ensure (\<not> lp_balance \<le> 0) (Err InsufficientLPTokens)) (\<lambda>_.
     bindR (u_div (as_u128 lp_balance) (as_u128 (lp_total pool))) (\<lambda>share.
     bindR (u_mul 128 (as_u128 (lp_fees_a pool)) share) (\<lambda>pa.
     bindR (u_mul 128 (as_u128 (lp_fees_b pool)) share) (\<lambda>pb.
     let fees_a = as_i128 pa; fees_b = as_i128 pb in
     bindR (i_sub (lp_fees_a pool) fees_a) (\<lambda>left_a.
     bindR (i_sub (lp_fees_b pool) fees_b) (\<lambda>left_b.
     let h1 = set_pool pool_id (pool\<lparr>lp_fees_a := left_a, lp_fees_b := left_b\<rparr>) h;
         h2 = (if fees_a > 0 then fees_distributed e pool_id (lp_token_a pool) fees_a provider h1 else h1);
         h3 = (if fees_b > 0 then fees_distributed e pool_id (lp_token_b pool) fees_b provider h2 else h2)
     in Inr ((fees_a, fees_b), h3))))))))"

definition withdraw_treasury_fees :: "env \<Rightarrow> pool_host \<Rightarrow> nat \<Rightarrow> address
    \<Rightarrow> ((int \<times> int) \<times> pool_host, counter_error) res" where
  "withdraw_treasury_fees e h pool_id treasury =
     bindR (require_auth e treasury) (\<lambda>_.
     bindR (find_pool h pool_id) (\<lambda>pool.
     let fees_a = lp_fees_a pool; fees_b = lp_fees_b pool;
         h1 = set_pool pool_id (pool\<lparr>lp_fees_a := 0, lp_fees_b := 0\<rparr>) h;
         h2 = (if fees_a > 0 then fees_distributed e pool_id (lp_token_a pool) fees_a treasury h1 else h1);
         h3 = (if fees_b > 0 then fees_distributed e pool_id (lp_token_b pool) fees_b treasury h2 else h2)
     in Inr ((fees_a, fees_b), h3)))"

definition update_fee_tier :: "env \<Rightarrow> address option \<Rightarrow> pool_host \<Rightarrow> nat \<Rightarrow> nat \<Rightarrow> address
    \<Rightarrow> (pool_host, counter_error) res" where
  "update_fee_tier e admin_key h pool_id new_fee_tier admin =
     bindR (require_auth e admin) (\<lambda>_.
     bindR (require_admin admin_key admin) (\<lambda>_.
     bindR (ensure (valid_fee_tier new_fee_tier) (Err InvalidAmount)) (\<lambda>_.
     bindR (find_pool h pool_id) (\<lambda>pool.
     Inr (fee_parameters_updated e pool_id new_fee_tier None
       (set_pool pool_id (pool\<lparr>lp_fee_tier := new_fee_tier\<rparr>) h))))))"

definition share_of :: "int \<Rightarrow> int \<Rightarrow> int \<Rightarrow> (int, counter_error) res" where
  "share_of lp_tokens reserve supply =
     bindR (checked_mul_128 (as_u128 lp_tokens) (as_u128 reserve)) (\<lambda>p.
     bindR (u_div p (as_u128 supply)) (\<lambda>q. Inr (as_i128 q)))"

definition remove_liquidity :: "env \<Rightarrow> pool_host \<Rightarrow> nat \<Rightarrow> int \<Rightarrow> address
    \<Rightarrow> ((int \<times> int) \<times> pool_host, counter_error) res" where
  "remove_liquidity e h0 pool_id lp_tokens provider =
     bindR (claim_fees e h0 pool_id provider) (\<lambda>(_, h).
     bindR (find_pool h pool_id) (\<lambda>pool.
     let key = (pool_id, provider); balance = get_lp_balance h pool_id provider in
     bindR (ensure (\<not> balance < lp_tokens) (Err InsufficientLPTokens)) (\<lambda>_.
     bindR (share_of lp_tokens (lp_reserve_a pool) (lp_total pool)) (\<lambda>amount_a.
     bindR (share_of lp_tokens (lp_reserve_b pool) (lp_total pool)) (\<lambda>amount_b.
     bindR (checked_i128 (lp_reserve_a pool - amount_a) InsufficientBalance) (\<lambda>reserve_a.
     bindR (checked_i128 (lp_reserve_b pool - amount_b) InsufficientBalance) (\<lambda>reserve_b.
     bindR (checked_i128 (lp_total pool - lp_tokens) InsufficientLPTokens) (\<lambda>total.
     let h1 = set_pool pool_id (pool\<lparr>lp_reserve_a := reserve_a, lp_reserve_b := reserve_b, lp_total := total\<rparr>) h in
     bindR (checked_i128 (balance - lp_tokens) InsufficientLPTokens) (\<lambda>new_balance.
     Inr ((amount_a, amount_b), set_lp key new_balance h1))))))))))"

section \<open>Swaps\<close>

definition registry_swap :: "env \<Rightarrow> pool_host \<Rightarrow> nat \<Rightarrow> symbol \<Rightarrow> int \<Rightarrow> int
    \<Rightarrow> (int \<times> pool_host, counter_error) res" where
  "registry_swap e h pool_id token_in amount_in min_amount_out =
     bindR (find_pool h pool_id) (\<lambda>pool.
     bindR (ensure (\<not> amount_in \<le> 0) (Err InvalidAmount)) (\<lambda>_.
     bindR (if token_in = lp_token_a pool then Inr (lp_reserve_a pool, lp_reserve_b pool, True)
            else if token_in = lp_token_b pool then Inr (lp_reserve_b pool, lp_reserve_a pool, False)
            else Inl (Err InvalidTokenSymbol)) (\<lambda>(reserve_in, reserve_out, is_token_a).
     bindR (u_mul 128 (as_u128 amount_in) (lp_fee_tier pool)) (\<lambda>fee_product.
     let fee_amount = as_i128 (fee_product div 10000) in
     bindR (i_sub amount_in fee_amount) (\<lambda>amount_in_after_fee.
     bindR (checked_mul_128 (as_u128 reserve_out) (as_u128 amount_in_after_fee)) (\<lambda>numerator.
     bindR (checked_add_128 (as_u128 reserve_in) (as_u128 amount_in_after_fee)) (\<lambda>denominator.
     bindR (u_div numerator denominator) (\<lambda>quotient.
     let amount_out = as_i128 quotient in
     bindR (ensure (\<not> amount_out < min_amount_out) (Err SlippageExceeded)) (\<lambda>_.
     bindR (if is_token_a
            then bindR (checked_i128 (lp_fees_a pool + fee_amount) AmountOverflow) (\<lambda>fees_a.
                 bindR (checked_i128 (lp_reserve_a pool + amount_in_after_fee) AmountOverflow) (\<lambda>reserve_a.
                 bindR (checked_i128 (lp_reserve_b pool - amount_out) InsufficientBalance) (\<lambda>reserve_b.
                 Inr (pool\<lparr>lp_fees_a := fees_a, lp_reserve_a := reserve_a, lp_reserve_b := reserve_b\<rparr>))))
            else bindR (checked_i128 (lp_fees_b pool + fee_amount) AmountOverflow) (\<lambda>fees_b.
                 bindR (checked_i128 (lp_reserve_b pool + amount_in_after_fee) AmountOverflow) (\<lambda>reserve_b.
                 bindR (checked_i128 (lp_reserve_a pool - amount_out) InsufficientBalance) (\<lambda>reserve_a.
                 Inr (pool\<lparr>lp_fees_b := fees_b, lp_reserve_a := reserve_a, lp_reserve_b := reserve_b\<rparr>))))) (\<lambda>pool'.
     let h1 = fees_collected e token_in fee_amount pool_id h in
     Inr (amount_out, set_pool pool_id pool' h1)))))))))))"

section \<open>Routes\<close>

definition calculate_output :: "liquidity_pool \<Rightarrow> symbol \<Rightarrow> int \<Rightarrow> (int, counter_error) res" where
  "calculate_output pool token_in amount_in =
     (let (reserve_in, reserve_out) =
        (if token_in = lp_token_a pool then (lp_reserve_a pool, lp_reserve_b pool)
         else (lp_reserve_b pool, lp_reserve_a pool))
      in bindR (u_sub 10000 (lp_fee_tier pool)) (\<lambda>keep.
         bindR (checked_mul_128 (as_u128 amount_in) keep) (\<lambda>p.
         let amount_in_with_fee = p div 10000 in
         bindR (checked_mul_128 (as_u128 reserve_out) amount_in_with_fee) (\<lambda>numerator.
         bindR (checked_add_128 (as_u128 reserve_in) amount_in_with_fee) (\<lambda>denominator.
         bindR (u_div numerator denominator) (\<lambda>q. Inr (as_i128 q)))))))"

definition calculate_price_impact :: "liquidity_pool \<Rightarrow> symbol \<Rightarrow> int \<Rightarrow> (nat, counter_error) res" where
  "calculate_price_impact pool token_in amount_in =
     (let reserve_in = (if token_in = lp_token_a pool then lp_reserve_a pool else lp_reserve_b pool)
      in if reserve_in = 0 then Inr 10000
         else bindR (u_mul 128 (as_u128 amount_in) 10000) (\<lambda>p.
              bindR (u_div p (as_u128 reserve_in)) (\<lambda>q. Inr (min q 10000))))"

text \<open>
  One iteration of the loop over the pools: the route through pool \<open>i\<close> and one more, if there is
  one, with its output.
\<close>

definition route_via :: "pool_host \<Rightarrow> symbol \<Rightarrow> symbol \<Rightarrow> int \<Rightarrow> nat \<Rightarrow> (route option, counter_error) res" where
  "route_via h token_in token_out amount_in i =
     (case pr_pools h i of None \<Rightarrow> Inr None
      | Some pool1 \<Rightarrow>
        if lp_token_a pool1 = token_in \<or> lp_token_b pool1 = token_in
        then (let intermediate = (if lp_token_a pool1 = token_in then lp_token_b pool1 else lp_token_a pool1) in
          if intermediate \<noteq> token_out
          then (case pr_pair h (normalize_pair intermediate token_out) of None \<Rightarrow> Inr None
            | Some pool2_id \<Rightarrow>
              (case pr_pools h pool2_id of None \<Rightarrow> Inr None
               | Some pool2 \<Rightarrow>
                 bindR (calculate_output pool1 token_in amount_in) (\<lambda>out1.
                 bindR (calculate_output pool2 intermediate out1) (\<lambda>out2.
                 bindR (calculate_price_impact pool1 token_in amount_in) (\<lambda>impact1.
                 bindR (calculate_price_impact pool2 intermediate out1) (\<lambda>impact2.
                 Inr (Some \<lparr>rt_pools = [i, pool2_id], rt_tokens = [token_in, intermediate, token_out],
                   rt_output = out2, rt_impact_bps = u_sat_add 32 impact1 impact2\<rparr>)))))))
          else Inr None)
        else Inr None)"

text \<open>
  \<open>best_route\<close> and \<open>best_output\<close> of the loop; \<open>.ok()?\<close> makes the whole search return \<open>None\<close> at
  the first quote that fails.
\<close>

fun route_loop :: "pool_host \<Rightarrow> symbol \<Rightarrow> symbol \<Rightarrow> int \<Rightarrow> nat list \<Rightarrow> route option \<Rightarrow> int
    \<Rightarrow> (route option, counter_error) res" where
  "route_loop h token_in token_out amount_in [] best_route best_output = Inr best_route"
| "route_loop h token_in token_out amount_in (i # is) best_route best_output =
     (case route_via h token_in token_out amount_in i of
        Inl Trap \<Rightarrow> Inl Trap
      | Inl (Err _) \<Rightarrow> Inr None
      | Inr None \<Rightarrow> route_loop h token_in token_out amount_in is best_route best_output
      | Inr (Some r) \<Rightarrow>
          if rt_output r > best_output
          then route_loop h token_in token_out amount_in is (Some r) (rt_output r)
          else route_loop h token_in token_out amount_in is best_route best_output)"

definition direct_route :: "liquidity_pool \<Rightarrow> nat \<Rightarrow> symbol \<Rightarrow> symbol \<Rightarrow> int \<Rightarrow> (route option, counter_error) res" where
  "direct_route pool pool_id token_in token_out amount_in =
     (case calculate_output pool token_in amount_in of
        Inl Trap \<Rightarrow> Inl Trap
      | Inl (Err _) \<Rightarrow> Inr None
      | Inr output \<Rightarrow>
          bindR (calculate_price_impact pool token_in amount_in) (\<lambda>impact.
          Inr (Some \<lparr>rt_pools = [pool_id], rt_tokens = [token_in, token_out], rt_output = output,
            rt_impact_bps = impact\<rparr>)))"

text \<open>\<open>effective_max_hops\<close> is computed from \<open>max_hops\<close> and the registry's bound and then not used.\<close>

definition find_best_route :: "pool_host \<Rightarrow> symbol \<Rightarrow> symbol \<Rightarrow> int \<Rightarrow> nat \<Rightarrow> (route option, counter_error) res" where
  "find_best_route h token_in token_out amount_in max_hops =
     (let effective_max_hops = min (min max_hops (pr_max_hops h)) 3;
          loop = route_loop h token_in token_out amount_in [0..<pr_next h] None 0
      in case pr_pair h (normalize_pair token_in token_out) of
           None \<Rightarrow> loop
         | Some pool_id \<Rightarrow>
             (case pr_pools h pool_id of None \<Rightarrow> loop
              | Some pool \<Rightarrow> direct_route pool pool_id token_in token_out amount_in))"

end
