(* ===== verification/Pool_Registry_Math.thy ===== *)
theory Pool_Registry_Math
  imports Pool_Registry
begin

text \<open>
  The arithmetic of the pool registry: Newton's iteration computes the floor of the square root,
  casts between non-negative \<open>i128\<close> and \<open>u128\<close> values are exact, and the inequalities of the
  constant product curve and of proportional shares.
\<close>

section \<open>Newton's iteration\<close>

text \<open>One step from any positive \<open>x\<close> does not go below the root.\<close>

lemma newton_above:
  fixes x y :: nat
  assumes "0 < x"
  shows "y < Suc ((y div x + x) div 2) ^ 2"
proof -
  define q s where "q = y div x" and "s = (q + x) div 2"
  have "q + x \<le> 2 * s + 1" unfolding s_def by linarith
  then have "int (q + x) \<le> int (2 * s + 1)" by (simp only: of_nat_le_iff)
  then have q: "int q + 1 \<le> 2 * (int s + 1) - int x" by simp
  have "y < x * (q + 1)" using assms by (simp add: q_def dividend_less_times_div)
  then have "int y < int x * (int q + 1)"
    using of_nat_less_iff [of y "x * (q + 1)", where 'a = int] by (simp add: algebra_simps)
  also have "\<dots> \<le> int x * (2 * (int s + 1) - int x)"
    using q by (rule mult_left_mono) simp
  also have "\<dots> \<le> (int s + 1)\<^sup>2"
    using zero_le_power2 [of "int s + 1 - int x"] by (simp add: power2_eq_square algebra_simps)
  finally have "int y < int (Suc s ^ 2)" by (simp add: add.commute)
  then show ?thesis by (simp only: of_nat_less_iff q_def s_def)
qed

text \<open>A step that does not go down started at or below the root.\<close>

lemma newton_below:
  fixes y z :: nat
  assumes "z \<le> (y div z + z) div 2"
  shows "z ^ 2 \<le> y"
proof -
  from assms have "z \<le> y div z" by linarith
  then have "z * z \<le> z * (y div z)" by (rule mult_le_mono2)
  also have "\<dots> \<le> y" by simp
  finally show ?thesis by (simp add: power2_eq_square)
qed

lemma newton_fits:
  fixes x y :: nat
  assumes "2 \<le> x" and "x \<le> y div 2 + 1" and "y < 2 ^ 128"
  shows "y div x + x < 2 ^ 128"
proof -
  have "y div x \<le> y div 2" using assms(1) by (simp add: div_le_mono2)
  with assms(2) have "y div x + x \<le> 2 * (y div 2) + 1" by simp
  moreover have "y div 2 < 2 ^ 127" using assms(3) by (simp add: div_less_iff_less_mult)
  ultimately show ?thesis by simp
qed

lemma sqrt_loop_floor:
  assumes "4 \<le> y" and "y < 2 ^ 128" and "x \<le> y div 2 + 1"
    and "y < Suc x ^ 2" and "y < Suc z ^ 2" and "z \<le> x \<Longrightarrow> z ^ 2 \<le> y"
  shows "\<exists>r. sqrt_loop y z x = Inr r \<and> r ^ 2 \<le> y \<and> y < Suc r ^ 2"
  using assms
proof (induction y z x rule: sqrt_loop.induct)
  case (1 y z x)
  show ?case
  proof (cases "x < z")
    case False
    with 1 show ?thesis by (simp add: sqrt_loop.simps)
  next
    case True
    have x2: "2 \<le> x"
    proof (rule ccontr)
      assume "\<not> 2 \<le> x"
      then have "Suc x ^ 2 \<le> 2 ^ 2" by (intro power_mono) auto
      with 1(5) 1(2) show False by simp
    qed
    have q: "y div x \<le> y div 2" using x2 by (simp add: div_le_mono2)
    have fits: "y div x + x < 2 ^ 128" by (rule newton_fits [OF x2 1(4,3)])
    let ?s = "(y div x + x) div 2"
    have step: "sqrt_loop y z x = sqrt_loop y x ?s"
      by (subst sqrt_loop.simps) (use True x2 fits in \<open>simp add: u_div_def u_add_def\<close>)
    have "\<exists>r. sqrt_loop y x ?s = Inr r \<and> r ^ 2 \<le> y \<and> y < Suc r ^ 2"
    proof (rule "1.IH" [OF True])
      show "u_div y x = Inr (y div x)" using x2 by (simp add: u_div_def)
      show "u_add 128 (y div x) x = Inr (y div x + x)" using fits by (simp add: u_add_def)
      show "?s \<le> y div 2 + 1" using q 1(4) by linarith
      show "y < Suc ?s ^ 2" by (rule newton_above) (use x2 in simp)
      show "x ^ 2 \<le> y" if "x \<le> ?s" using that by (rule newton_below)
    qed (use 1(2,3,5) in auto)
    then show ?thesis by (simp only: step)
  qed
qed

lemma sqrt_floor:
  assumes "y < 2 ^ 128"
  shows "\<exists>r. sqrt_u128 y = Inr r \<and> r ^ 2 \<le> y \<and> y < Suc r ^ 2"
proof (cases "y < 4")
  case True
  then have "y = 0 \<or> y = 1 \<or> y = 2 \<or> y = 3" by auto
  then show ?thesis by (auto simp: sqrt_u128_def power2_eq_square)
next
  case False
  have fits: "y div 2 + 1 < 2 ^ 128" using assms by simp
  have "y < Suc (y div 2 + 1) ^ 2"
    using newton_above [of 2 "y"] False
    by (rule_tac less_le_trans [of _ "Suc ((y div 2 + 2) div 2) ^ 2"]) (auto intro!: power_mono)
  moreover have "y < Suc y ^ 2" by (simp add: power2_eq_square)
  ultimately have "\<exists>r. sqrt_loop y y (y div 2 + 1) = Inr r \<and> r ^ 2 \<le> y \<and> y < Suc r ^ 2"
    using False assms by (intro sqrt_loop_floor) auto
  then show ?thesis using False fits by (simp only: sqrt_u128_def u_add_def if_False if_True bindR_Inr)
qed

section \<open>Casts of amounts\<close>

lemma as_i128_pos:
  assumes "n < 2 ^ 128" and "0 \<le> as_i128 n"
  shows "as_i128 n = int n" and "i128_ok (int n)"
proof -
  have m: "int n mod 2 ^ 128 = int n" using assms(1) by (intro mod_pos_pos_trivial) auto
  show eq: "as_i128 n = int n"
  proof (rule ccontr)
    assume "as_i128 n \<noteq> int n"
    then have "as_i128 n = int n - 2 ^ 128" unfolding as_i128_def Let_def m by (simp split: if_splits)
    moreover have "int n < 2 ^ 128" using assms(1) by simp
    ultimately show False using assms(2) by simp
  qed
  show "i128_ok (int n)" using as_i128_ok [of n] by (simp add: eq)
qed

lemma as_i128_le:
  assumes "int n \<le> b" and "i128_ok b"
  shows "as_i128 n = int n"
  by (rule as_i128_small) (use assms in \<open>simp add: i128_ok_def I128_MAX_def\<close>)

text \<open>The cast of a quotient of two non-negative values whose product fits.\<close>

lemma nat_quotient: "0 \<le> a \<Longrightarrow> 0 \<le> b \<Longrightarrow> 0 \<le> c \<Longrightarrow> int (nat a * nat b div nat c) = a * b div c"
  by (simp add: zdiv_int)

section \<open>The curve\<close>

lemma le_zdiv_iff:
  fixes q n d :: int
  assumes "0 < d"
  shows "q \<le> n div d \<longleftrightarrow> q * d \<le> n"
proof
  have "n div d * d \<le> n" using assms by (simp flip: minus_mod_eq_div_mult)
  then show "q * d \<le> n" if "q \<le> n div d"
    using mult_right_mono [OF that, of d] assms by linarith
  show "q \<le> n div d" if "q * d \<le> n"
    using zdiv_mono1 [OF that assms] assms by simp
qed

lemma div_mult_le: "0 < d \<Longrightarrow> n div d * d \<le> (n :: int)"
  using le_zdiv_iff [of d "n div d" n] by simp

text \<open>What a swap pays out is less than the reserve, and the product of the reserves does not fall.\<close>

lemma curve_out:
  fixes ri ro x :: int
  assumes "0 < ri" and "0 < ro" and "0 \<le> x"
  shows "0 \<le> ro * x div (ri + x)" and "ro * x div (ri + x) < ro"
    and "ri * ro \<le> (ri + x) * (ro - ro * x div (ri + x))"
proof -
  show "0 \<le> ro * x div (ri + x)" using assms by (simp add: pos_imp_zdiv_nonneg_iff)
  have "ro * x < ro * (ri + x)" using assms by simp
  then show "ro * x div (ri + x) < ro" using assms by (simp add: not_le [symmetric] le_zdiv_iff)
  have "ro * x div (ri + x) * (ri + x) \<le> ro * x" using assms by (intro div_mult_le) auto
  then show "ri * ro \<le> (ri + x) * (ro - ro * x div (ri + x))" by (simp add: algebra_simps)
qed

text \<open>More in, no less out.\<close>

lemma curve_mono:
  fixes ri ro x y :: int
  assumes "0 < ri" and "0 \<le> ro" and "0 \<le> x" and "x \<le> y"
  shows "ro * x div (ri + x) \<le> ro * y div (ri + y)"
proof -
  let ?q = "ro * x div (ri + x)"
  have pos: "0 < ri + x" "0 < ri + y" using assms by auto
  have q: "?q * (ri + x) \<le> ro * x" by (rule div_mult_le [OF pos(1)])
  have "?q \<le> ro"
  proof (cases "x = 0")
    case False
    have "ro * x \<le> ro * (ri + x)" using assms by (intro mult_left_mono) auto
    then show ?thesis using zdiv_mono1 [of "ro * x" "ro * (ri + x)" "ri + x"] pos by simp
  qed (use assms in simp)
  then have "?q * (y - x) \<le> ro * (y - x)" using assms by (intro mult_right_mono) auto
  with q have "?q * (ri + y) \<le> ro * y" by (simp add: algebra_simps)
  then show ?thesis using pos by (simp add: le_zdiv_iff)
qed

text \<open>
  The backing of LP tokens: the product of the reserves is at least the square of the supply. If
  both reserves scale at least as the supply does, it stays so.
\<close>

lemma backing_scale:
  fixes t t' ra rb ra' rb' :: int
  assumes "0 < t" "0 \<le> t'" "0 \<le> ra" "0 \<le> rb" "0 \<le> ra'" "t * t \<le> ra * rb"
    and "ra * t' \<le> t * ra'" and "rb * t' \<le> t * rb'"
  shows "t' * t' \<le> ra' * rb'"
proof -
  have "(t * t) * (t' * t') \<le> (ra * rb) * (t' * t')"
    using assms by (intro mult_right_mono) auto
  also have "\<dots> = (ra * t') * (rb * t')" by (simp add: algebra_simps)
  also have "\<dots> \<le> (t * ra') * (t * rb')" by (rule mult_mono [OF assms(7,8)]) (use assms in auto)
  also have "\<dots> = (t * t) * (ra' * rb')" by (simp add: algebra_simps)
  finally show ?thesis using assms(1) by (simp add: mult_le_cancel_left)
qed

end
