(* ===== verification/Pool_Registry_Inv.thy ===== *)
theory Pool_Registry_Inv
  imports Pool_Registry_Math
begin

text \<open>
  The invariant of the pool registry and its preservation by every operation. A pool's reserves
  and supply are positive, the product of the reserves covers the square of the supply, the pair
  index agrees with the pools, and the LP balances of a pool add up to less than its supply (the
  tokens minted at registration are credited to nobody).
\<close>

section \<open>The invariant\<close>

definition lp_supply :: "pool_host \<Rightarrow> nat \<Rightarrow> int" where
  "lp_supply h pool_id = map_total (\<lambda>b. b) (\<lambda>a. pr_lp h (pool_id, a))"

definition pool_ok :: "liquidity_pool \<Rightarrow> bool" where
  "pool_ok p \<longleftrightarrow> lp_token_a p < lp_token_b p \<and> valid_fee_tier (lp_fee_tier p)
     \<and> 0 < lp_reserve_a p \<and> i128_ok (lp_reserve_a p) \<and> 0 < lp_reserve_b p \<and> i128_ok (lp_reserve_b p)
     \<and> 0 < lp_total p \<and> i128_ok (lp_total p) \<and> lp_total p * lp_total p \<le> lp_reserve_a p * lp_reserve_b p
     \<and> 0 \<le> lp_fees_a p \<and> i128_ok (lp_fees_a p) \<and> 0 \<le> lp_fees_b p \<and> i128_ok (lp_fees_b p)"

definition registry_ok :: "pool_host \<Rightarrow> bool" where
  "registry_ok h \<longleftrightarrow>
     (\<forall>i p. pr_pools h i = Some p \<longrightarrow> lp_pool_id p = i \<and> i < pr_next h \<and> pool_ok p
        \<and> pr_pair h (lp_token_a p, lp_token_b p) = Some i \<and> lp_supply h i < lp_total p)
     \<and> (\<forall>ab i. pr_pair h ab = Some i \<longrightarrow>
        (\<exists>p. pr_pools h i = Some p \<and> ab = (lp_token_a p, lp_token_b p)))
     \<and> finite (dom (pr_lp h))
     \<and> (\<forall>k b. pr_lp h k = Some b \<longrightarrow> 0 \<le> b \<and> i128_ok b \<and> pr_pools h (fst k) \<noteq> None)"

lemma registry_ok_pool:
  assumes "registry_ok h" and "pr_pools h i = Some p"
  shows "pool_ok p" and "lp_pool_id p = i" and "i < pr_next h"
    and "pr_pair h (lp_token_a p, lp_token_b p) = Some i" and "lp_supply h i < lp_total p"
  using assms by (auto simp: registry_ok_def)

lemma new_registry_ok: "registry_ok new_registry"
  by (simp add: registry_ok_def new_registry_def)

lemma registry_ok_publish [simp]:
  "registry_ok (h\<lparr>ph_events := evs\<rparr>) = registry_ok h"
  "registry_ok (h\<lparr>pr_max_hops := n\<rparr>) = registry_ok h"
  by (simp_all add: registry_ok_def lp_supply_def)

section \<open>LP balances\<close>

lemma lp_row_finite: "finite (dom (pr_lp h)) \<Longrightarrow> finite (dom (\<lambda>a. pr_lp h (i, a)))"
  by (rule finite_subset [of _ "snd ` dom (pr_lp h)"]) (force simp: image_iff)+

lemma lp_balance_nonneg: "registry_ok h \<Longrightarrow> 0 \<le> get_lp_balance h i a"
  by (auto simp: registry_ok_def get_lp_balance_def split: option.splits)

lemma lp_balance_ok: "registry_ok h \<Longrightarrow> i128_ok (get_lp_balance h i a)"
  by (auto simp: registry_ok_def get_lp_balance_def i128_ok_def I128_MIN_def I128_MAX_def split: option.splits)

lemma lp_balance_le_supply:
  assumes "registry_ok h"
  shows "get_lp_balance h i a \<le> lp_supply h i"
proof (cases "pr_lp h (i, a)")
  case None
  then show ?thesis
    using assms map_total_nonneg [of "\<lambda>a. pr_lp h (i, a)" "\<lambda>b. b"]
    by (auto simp: get_lp_balance_def lp_supply_def registry_ok_def)
next
  case (Some b)
  have "b \<le> map_total (\<lambda>b. b) (\<lambda>a. pr_lp h (i, a))"
    by (rule map_total_ge_member [of "\<lambda>a. pr_lp h (i, a)" a])
      (use assms Some lp_row_finite in \<open>auto simp: registry_ok_def\<close>)
  with Some show ?thesis by (simp add: get_lp_balance_def lp_supply_def)
qed

text \<open>Whoever holds LP tokens holds fewer than the supply.\<close>

lemma lp_balance_less_total:
  "registry_ok h \<Longrightarrow> pr_pools h i = Some p \<Longrightarrow> get_lp_balance h i a < lp_total p"
  using lp_balance_le_supply [of h i a] registry_ok_pool(5) [of h i p] by linarith

lemma lp_supply_set_lp:
  assumes "finite (dom (pr_lp h))"
  shows "lp_supply (set_lp (i, a) b h) j =
    (if j = i then lp_supply h i - get_lp_balance h i a + b else lp_supply h j)"
proof (cases "j = i")
  case True
  have "(\<lambda>x. pr_lp (set_lp (i, a) b h) (i, x)) = (\<lambda>x. pr_lp h (i, x))(a \<mapsto> b)"
    by (auto simp: set_lp_def)
  then show ?thesis
    using True map_total_upd [OF lp_row_finite [OF assms], of "\<lambda>b. b" i a b]
    by (simp add: lp_supply_def get_lp_balance_def)
next
  case False
  then show ?thesis by (simp add: lp_supply_def set_lp_def)
qed

section \<open>Writing pools and balances\<close>

lemma set_pool_simps [simp]:
  "pr_pools (set_pool i p h) = (pr_pools h)(i \<mapsto> p)" "pr_pair (set_pool i p h) = pr_pair h"
  "pr_next (set_pool i p h) = pr_next h" "pr_lp (set_pool i p h) = pr_lp h"
  "lp_supply (set_pool i p h) j = lp_supply h j" "get_lp_balance (set_pool i p h) j a = get_lp_balance h j a"
  by (simp_all add: set_pool_def lp_supply_def get_lp_balance_def)

lemma set_lp_simps [simp]:
  "pr_pools (set_lp k b h) = pr_pools h" "pr_pair (set_lp k b h) = pr_pair h"
  "pr_next (set_lp k b h) = pr_next h" "pr_lp (set_lp k b h) = (pr_lp h)(k \<mapsto> b)"
  by (simp_all add: set_lp_def)

lemma set_lp_pool: "set_lp k b (set_pool i p h) = set_pool i p (set_lp k b h)"
  by (simp add: set_lp_def set_pool_def)

lemma registry_okI:
  assumes "\<And>i p. pr_pools h i = Some p \<Longrightarrow> lp_pool_id p = i \<and> i < pr_next h \<and> pool_ok p
      \<and> pr_pair h (lp_token_a p, lp_token_b p) = Some i \<and> lp_supply h i < lp_total p"
    and "\<And>ab i. pr_pair h ab = Some i \<Longrightarrow>
      \<exists>p. pr_pools h i = Some p \<and> ab = (lp_token_a p, lp_token_b p)"
    and "finite (dom (pr_lp h))"
    and "\<And>k b. pr_lp h k = Some b \<Longrightarrow> 0 \<le> b \<and> i128_ok b \<and> pr_pools h (fst k) \<noteq> None"
  shows "registry_ok h"
  using assms unfolding registry_ok_def by blast

lemma registry_okD:
  assumes "registry_ok h"
  shows "pr_pair h ab = Some i \<Longrightarrow> \<exists>p. pr_pools h i = Some p \<and> ab = (lp_token_a p, lp_token_b p)"
    and "finite (dom (pr_lp h))"
    and "pr_lp h k = Some b \<Longrightarrow> 0 \<le> b \<and> i128_ok b \<and> pr_pools h (fst k) \<noteq> None"
  using assms unfolding registry_ok_def by blast+

lemma registry_ok_set_pool:
  assumes ok: "registry_ok h" and p0: "pr_pools h i = Some p0" and p: "pool_ok p" "lp_pool_id p = i"
    and same: "lp_token_a p = lp_token_a p0" "lp_token_b p = lp_token_b p0"
    and le: "lp_supply h i < lp_total p"
  shows "registry_ok (set_pool i p h)"
proof (rule registry_okI)
  fix j q
  assume "pr_pools (set_pool i p h) j = Some q"
  then show "lp_pool_id q = j \<and> j < pr_next (set_pool i p h) \<and> pool_ok q
      \<and> pr_pair (set_pool i p h) (lp_token_a q, lp_token_b q) = Some j \<and> lp_supply (set_pool i p h) j < lp_total q"
    using registry_ok_pool [OF ok p0] registry_ok_pool [OF ok, of j q] p same le
    by (cases "j = i") auto
next
  fix ab j
  assume "pr_pair (set_pool i p h) ab = Some j"
  then show "\<exists>q. pr_pools (set_pool i p h) j = Some q \<and> ab = (lp_token_a q, lp_token_b q)"
    using registry_okD(1) [OF ok, of ab j] p0 same by auto
next
  show "finite (dom (pr_lp (set_pool i p h)))" using registry_okD(2) [OF ok] by simp
next
  fix k b
  assume "pr_lp (set_pool i p h) k = Some b"
  then show "0 \<le> b \<and> i128_ok b \<and> pr_pools (set_pool i p h) (fst k) \<noteq> None"
    using registry_okD(3) [OF ok, of k b] by simp
qed

text \<open>A balance and its pool's totals change together.\<close>

lemma registry_ok_set_both:
  assumes ok: "registry_ok h" and p0: "pr_pools h i = Some p0" and p: "pool_ok p" "lp_pool_id p = i"
    and same: "lp_token_a p = lp_token_a p0" "lp_token_b p = lp_token_b p0"
    and b: "0 \<le> b" "i128_ok b" and le: "lp_supply h i - get_lp_balance h i a + b < lp_total p"
  shows "registry_ok (set_lp (i, a) b (set_pool i p h))" (is "registry_ok ?h")
proof (rule registry_okI)
  have sup: "lp_supply ?h j =
      (if j = i then lp_supply h i - get_lp_balance h i a + b else lp_supply h j)" for j
    using lp_supply_set_lp [of "set_pool i p h" i a b j] registry_okD(2) [OF ok] by simp
  fix j q
  assume "pr_pools ?h j = Some q"
  then show "lp_pool_id q = j \<and> j < pr_next ?h \<and> pool_ok q
      \<and> pr_pair ?h (lp_token_a q, lp_token_b q) = Some j \<and> lp_supply ?h j < lp_total q"
    unfolding sup using registry_ok_pool [OF ok p0] registry_ok_pool [OF ok, of j q] p same le
    by (cases "j = i") auto
next
  fix ab j
  assume "pr_pair ?h ab = Some j"
  then show "\<exists>q. pr_pools ?h j = Some q \<and> ab = (lp_token_a q, lp_token_b q)"
    using registry_okD(1) [OF ok, of ab j] p0 same by auto
next
  show "finite (dom (pr_lp ?h))" using registry_okD(2) [OF ok] by simp
next
  fix k c
  assume "pr_lp ?h k = Some c"
  then show "0 \<le> c \<and> i128_ok c \<and> pr_pools ?h (fst k) \<noteq> None"
    using registry_okD(3) [OF ok, of k c] b by (auto split: if_splits)
qed

section \<open>Effects of the operations\<close>

lemma checked_i128_eq_Inr [res_simps]: "checked_i128 x er = Inr y \<longleftrightarrow> y = x \<and> i128_ok x"
  by (simp add: checked_i128_def res_simps)

lemma checked_mul_128_eq_Inr [res_simps]: "checked_mul_128 a b = Inr c \<longleftrightarrow> c = a * b \<and> a * b < 2 ^ 128"
  by (simp add: checked_mul_128_def res_simps)

lemma checked_add_128_eq_Inr [res_simps]: "checked_add_128 a b = Inr c \<longleftrightarrow> c = a + b \<and> a + b < 2 ^ 128"
  by (simp add: checked_add_128_def res_simps)

lemma find_pool_eq_Inr [res_simps]: "find_pool h i = Inr p \<longleftrightarrow> pr_pools h i = Some p"
  by (simp add: find_pool_def res_simps)

lemma pool_ok_casts:
  assumes "pool_ok p"
  shows "as_u128 (lp_reserve_a p) = nat (lp_reserve_a p)" "as_u128 (lp_reserve_b p) = nat (lp_reserve_b p)"
    "as_u128 (lp_total p) = nat (lp_total p)" "as_u128 (lp_fees_a p) = nat (lp_fees_a p)"
    "as_u128 (lp_fees_b p) = nat (lp_fees_b p)"
  using assms by (simp_all add: pool_ok_def as_u128_nonneg)

text \<open>A quotient of a fitting product fits.\<close>

lemma quotient_less: "a * b < 2 ^ 128 \<Longrightarrow> a * b div c < 2 ^ 128" for a b c :: nat
  by (rule le_less_trans [OF div_le_dividend])

text \<open>Registration mints the floor of the square root of the product.\<close>

lemma register_pool_effect:
  assumes "register_pool e h admin ta tb ia ib t = Inr (i, h')" and "i128_ok ia" and "i128_ok ib"
  shows "\<exists>p. i = pr_next h \<and> pool_ok p \<and> lp_pool_id p = i \<and> lp_fees_a p = 0 \<and> lp_fees_b p = 0
    \<and> (lp_token_a p, lp_token_b p) = normalize_pair ta tb
    \<and> (lp_reserve_a p, lp_reserve_b p) = (if ta < tb then (ia, ib) else (ib, ia))
    \<and> lp_reserve_a p * lp_reserve_b p < (lp_total p + 1)\<^sup>2 \<and> lp_fee_tier p = t
    \<and> pr_pair h (lp_token_a p, lp_token_b p) = None
    \<and> h' = (set_pool i p h)\<lparr>pr_pair := (pr_pair h)((lp_token_a p, lp_token_b p) \<mapsto> i), pr_next := Suc i\<rparr>"
proof -
  define ra rb where "ra = (if ta < tb then ia else ib)" and "rb = (if ta < tb then ib else ia)"
  define na nb where "na = fst (normalize_pair ta tb)" and "nb = snd (normalize_pair ta tb)"
  have norm: "normalize_pair ta tb = (na, nb)" by (simp add: na_def nb_def)
  have res: "(if ta = na then (ia, ib) else (ib, ia)) = (ra, rb)" if "ta \<noteq> tb"
    using that by (auto simp: na_def normalize_pair_def ra_def rb_def)
  from assms(1) obtain r where g: "valid_fee_tier t" "ta \<noteq> tb" "0 < ia" "0 < ib" "pr_pair h (na, nb) = None"
    and fits: "as_u128 ra * as_u128 rb < 2 ^ 128" and r: "sqrt_u128 (as_u128 ra * as_u128 rb) = Inr r"
    and eq: "i = pr_next h" "h' = (set_pool i \<lparr>lp_pool_id = i, lp_token_a = na, lp_token_b = nb,
        lp_reserve_a = ra, lp_reserve_b = rb, lp_total = as_i128 r, lp_fee_tier = t, lp_fees_a = 0,
        lp_fees_b = 0\<rparr> h)\<lparr>pr_pair := (pr_pair h)((na, nb) \<mapsto> i), pr_next := Suc i\<rparr>"
    unfolding register_pool_def norm by (auto simp: res_simps Let_def res not_le)
  have pos: "0 < ra" "0 < rb" "i128_ok ra" "i128_ok rb"
    using g assms(2,3) by (auto simp: ra_def rb_def)
  have nats: "as_u128 ra = nat ra" "as_u128 rb = nat rb" using pos by (auto simp: as_u128_nonneg)
  obtain r' where "sqrt_u128 (nat ra * nat rb) = Inr r' \<and> r' ^ 2 \<le> nat ra * nat rb \<and> nat ra * nat rb < Suc r' ^ 2"
    using sqrt_floor fits nats by metis
  with r nats have rr: "r ^ 2 \<le> nat ra * nat rb" "nat ra * nat rb < Suc r ^ 2" by auto
  have "r ^ 2 < 2 ^ 128" using rr(1) fits nats by simp
  then have "r ^ 2 < (2 ^ 64) ^ 2" by simp
  then have small: "r < 2 ^ 64" by (rule power_less_imp_less_base) simp
  then have t: "as_i128 r = int r" by (intro as_i128_small) simp
  have "i128_ok (int r)" using as_i128_ok [of r] by (simp add: t)
  have i: "int (nat ra * nat rb) = ra * rb" using pos by simp
  have lo: "int r * int r \<le> ra * rb"
    using rr(1) i by (metis of_nat_le_iff of_nat_mult power2_eq_square)
  have hi: "ra * rb < (int r + 1)\<^sup>2"
    using rr(2) i by (metis of_nat_less_iff of_nat_power of_nat_Suc add.commute)
  have "0 < r"
  proof (rule ccontr)
    assume "\<not> 0 < r"
    with rr(2) pos show False by simp
  qed
  moreover have "na < nb" using g(2) by (auto simp: na_def nb_def normalize_pair_def)
  ultimately show ?thesis
    using g pos lo hi \<open>i128_ok (int r)\<close> norm
    by (intro exI [of _ "\<lparr>lp_pool_id = i, lp_token_a = na, lp_token_b = nb, lp_reserve_a = ra,
        lp_reserve_b = rb, lp_total = as_i128 r, lp_fee_tier = t, lp_fees_a = 0, lp_fees_b = 0\<rparr>"])
      (simp add: t pool_ok_def eq ra_def rb_def i128_ok_def I128_MIN_def I128_MAX_def)
qed

text \<open>
  What a successful registry call did, over the integers: the casts and checks of the code
  disappear under the invariant. The properties and the invariant proof use these effects only.
\<close>

section \<open>Adding liquidity\<close>

lemma mint_amount_effect:
  assumes "pool_ok p" and "mint_amount p a b = Inr lp" and "0 < lp"
    and "0 < a" "i128_ok a" "0 < b" "i128_ok b"
  shows "lp = min (a * lp_total p div lp_reserve_a p) (b * lp_total p div lp_reserve_b p)"
proof -
  let ?t = "lp_total p" and ?ra = "lp_reserve_a p" and ?rb = "lp_reserve_b p"
  have p: "0 < ?t" "0 < ?ra" "0 < ?rb" using assms(1) by (auto simp: pool_ok_def)
  have ab: "as_u128 a = nat a" "as_u128 b = nat b" using assms by (auto simp: as_u128_nonneg)
  let ?x = "nat a * nat ?t div nat ?ra" and ?y = "nat b * nat ?t div nat ?rb"
  from assms(2) p have fits: "nat a * nat ?t < 2 ^ 128" "nat b * nat ?t < 2 ^ 128" and lp: "lp = as_i128 (min ?x ?y)"
    unfolding mint_amount_def by (auto simp: res_simps ab pool_ok_casts [OF assms(1)])
  have "min ?x ?y < 2 ^ 128" using fits quotient_less by (simp add: min_less_iff_disj)
  then have "lp = int (min ?x ?y)" using as_i128_pos(1) [of "min ?x ?y"] assms(3) by (simp only: lp)
  also have "\<dots> = min (int ?x) (int ?y)" by (simp only: of_nat_min)
  also have "int ?x = a * ?t div ?ra" using assms p by (intro nat_quotient) auto
  also have "int ?y = b * ?t div ?rb" using assms p by (intro nat_quotient) auto
  finally show ?thesis .
qed

lemma add_liquidity_effect:
  assumes ok: "registry_ok h" and call: "add_liquidity h i a b who = Inr (lp, h')"
    and fit: "i128_ok a" "i128_ok b"
  shows "\<exists>p p'. pr_pools h i = Some p \<and> 0 < a \<and> 0 < b \<and> MIN_LP_TOKENS \<le> lp
    \<and> lp = min (a * lp_total p div lp_reserve_a p) (b * lp_total p div lp_reserve_b p)
    \<and> p' = p\<lparr>lp_reserve_a := lp_reserve_a p + a, lp_reserve_b := lp_reserve_b p + b,
         lp_total := lp_total p + lp\<rparr>
    \<and> i128_ok (lp_reserve_a p + a) \<and> i128_ok (lp_reserve_b p + b) \<and> i128_ok (lp_total p + lp)
    \<and> i128_ok (get_lp_balance h i who + lp)
    \<and> h' = set_lp (i, who) (get_lp_balance h i who + lp) (set_pool i p' h)"
proof -
  from call obtain p where p: "pr_pools h i = Some p" and g: "0 < a" "0 < b"
    and lp: "mint_amount p a b = Inr lp" "0 < lp" "MIN_LP_TOKENS \<le> lp"
    and rest: "i128_ok (lp_reserve_a p + a)" "i128_ok (lp_reserve_b p + b)" "i128_ok (lp_total p + lp)"
      "i128_ok (get_lp_balance h i who + lp)"
      "h' = set_lp (i, who) (get_lp_balance h i who + lp) (set_pool i (p\<lparr>lp_reserve_a := lp_reserve_a p + a,
         lp_reserve_b := lp_reserve_b p + b, lp_total := lp_total p + lp\<rparr>) h)"
    unfolding add_liquidity_def by (auto simp: res_simps Let_def not_le not_less)
  have "lp = min (a * lp_total p div lp_reserve_a p) (b * lp_total p div lp_reserve_b p)"
    by (rule mint_amount_effect [OF registry_ok_pool(1) [OF ok p] lp(1,2) g(1) fit(1) g(2) fit(2)])
  with p g lp rest show ?thesis by blast
qed

section \<open>Fees\<close>

text \<open>
  The share of a provider is a quotient of integers, and the provider holds less than the supply:
  the share is zero and the claim changes nothing.
\<close>

lemma claim_fees_effect:
  assumes ok: "registry_ok h" and call: "claim_fees e h i who = Inr (fees, h')"
  shows "fees = (0, 0) \<and> h' = set_pool i (the (pr_pools h i)) h \<and> pr_pools h i \<noteq> None
    \<and> 0 < get_lp_balance h i who"
proof -
  from call obtain p where p: "pr_pools h i = Some p" and b: "0 < get_lp_balance h i who"
    by (auto simp: claim_fees_def res_simps Let_def)
  have less: "get_lp_balance h i who < lp_total p" by (rule lp_balance_less_total [OF ok p])
  have share: "as_u128 (get_lp_balance h i who) div as_u128 (lp_total p) = 0"
    using b less lp_balance_ok [OF ok, of i who] registry_ok_pool(1) [OF ok p]
    by (simp add: as_u128_nonneg pool_ok_casts)
  have zero: "as_i128 0 = 0" by (simp add: as_i128_def)
  show ?thesis
    using call b p unfolding claim_fees_def
    by (auto simp: res_simps Let_def share zero)
qed

lemma claim_fees_same:
  assumes "registry_ok h" and "claim_fees e h i who = Inr (fees, h')"
  shows "h' = h"
  using claim_fees_effect [OF assms] by (auto simp: set_pool_def map_upd_triv)

lemma withdraw_treasury_fees_effect:
  assumes "withdraw_treasury_fees e h i who = Inr (fees, h')"
  shows "\<exists>p. authorized e who \<and> pr_pools h i = Some p \<and> fees = (lp_fees_a p, lp_fees_b p)
    \<and> h' = (set_pool i (p\<lparr>lp_fees_a := 0, lp_fees_b := 0\<rparr>) h)\<lparr>ph_events := ph_events h'\<rparr>"
  using assms
  by (auto simp: withdraw_treasury_fees_def res_simps Let_def fees_distributed_def pool_publish_def
      set_pool_def split: if_splits)

lemma update_fee_tier_effect:
  assumes "update_fee_tier e k h i t who = Inr h'"
  shows "\<exists>p. authorized e who \<and> k = Some who \<and> valid_fee_tier t \<and> pr_pools h i = Some p
    \<and> h' = (set_pool i (p\<lparr>lp_fee_tier := t\<rparr>) h)\<lparr>ph_events := ph_events h'\<rparr>"
  using assms
  by (auto simp: update_fee_tier_def res_simps fee_parameters_updated_def pool_publish_def set_pool_def)

section \<open>Removing liquidity\<close>

lemma share_of_effect:
  assumes "share_of lp r t = Inr x" and "0 \<le> lp" "lp \<le> t" "0 < t" "i128_ok t" "0 \<le> r" "i128_ok r"
  shows "x = lp * r div t \<and> 0 \<le> x \<and> x \<le> r"
proof -
  have lp: "i128_ok lp" by (rule i128_between [OF assms(2,3,5)])
  have c: "as_u128 lp = nat lp" "as_u128 r = nat r" "as_u128 t = nat t"
    using assms lp by (auto simp: as_u128_nonneg)
  have q: "int (nat lp * nat r div nat t) = lp * r div t" using assms by (intro nat_quotient) auto
  have "lp * r div t \<le> t * r div t"
    using assms by (intro zdiv_mono1 mult_right_mono) auto
  then have le: "lp * r div t \<le> r" using assms by simp
  have "as_i128 (nat lp * nat r div nat t) = int (nat lp * nat r div nat t)"
    by (rule as_i128_le [of _ r]) (use le q assms in auto)
  with assms(1) q have "x = lp * r div t" by (simp add: share_of_def res_simps c)
  moreover have "0 \<le> lp * r div t" using assms by (simp add: pos_imp_zdiv_nonneg_iff)
  ultimately show ?thesis using le by simp
qed

text \<open>
  A negative number of tokens passes the comparison with the balance and is cast to a huge
  \<open>u128\<close>; its product with a reserve of two or more overflows, and two reserves of one would mean
  a supply of one, of which nobody holds anything.
\<close>

lemma negative_share_fails:
  assumes "lp < 0" and "i128_ok lp" and "2 \<le> r" and "i128_ok r"
  shows "\<exists>f. share_of lp r t = Inl f"
proof -
  have "lp mod 2 ^ 128 = lp + 2 ^ 128"
    using assms(1,2) mod_pos_pos_trivial [of "lp + 2 ^ 128" "2 ^ 128"]
    by (simp add: i128_ok_def I128_MIN_def)
  then have "int (as_u128 lp) = lp + 2 ^ 128" using assms(2) by (simp add: as_u128_def i128_ok_def I128_MIN_def)
  then have big: "2 ^ 127 \<le> as_u128 lp" using assms(2) by (simp add: i128_ok_def I128_MIN_def)
  have "2 \<le> as_u128 r" using assms(3,4) by (simp add: as_u128_nonneg)
  with big have "2 ^ 127 * 2 \<le> as_u128 lp * as_u128 r" by (rule mult_le_mono)
  then show ?thesis by (simp add: share_of_def checked_mul_128_def u_checked_mul_def)
qed

lemma remove_liquidity_effect:
  assumes ok: "registry_ok h" and call: "remove_liquidity e h i lp who = Inr ((x, y), h')"
    and fit: "i128_ok lp"
  shows "\<exists>p p'. pr_pools h i = Some p \<and> 0 \<le> lp \<and> lp \<le> get_lp_balance h i who
    \<and> 0 < get_lp_balance h i who
    \<and> x = lp * lp_reserve_a p div lp_total p \<and> y = lp * lp_reserve_b p div lp_total p
    \<and> p' = p\<lparr>lp_reserve_a := lp_reserve_a p - x, lp_reserve_b := lp_reserve_b p - y,
         lp_total := lp_total p - lp\<rparr>
    \<and> h' = set_lp (i, who) (get_lp_balance h i who - lp) (set_pool i p' h)"
proof -
  from call obtain fees h1 where c: "claim_fees e h i who = Inr (fees, h1)"
    by (auto simp: remove_liquidity_def res_simps)
  have pos: "0 < get_lp_balance h i who" using claim_fees_effect [OF ok c] by simp
  from call obtain p where p: "pr_pools h i = Some p" and le: "lp \<le> get_lp_balance h i who"
    and sx: "share_of lp (lp_reserve_a p) (lp_total p) = Inr x"
    and sy: "share_of lp (lp_reserve_b p) (lp_total p) = Inr y"
    and eq: "h' = set_lp (i, who) (get_lp_balance h i who - lp) (set_pool i (p\<lparr>lp_reserve_a := lp_reserve_a p - x,
         lp_reserve_b := lp_reserve_b p - y, lp_total := lp_total p - lp\<rparr>) h)"
    unfolding remove_liquidity_def
    by (auto simp: res_simps Let_def c claim_fees_same [OF ok c] not_less)
  have pk: "pool_ok p" by (rule registry_ok_pool(1) [OF ok p])
  have less: "get_lp_balance h i who < lp_total p" by (rule lp_balance_less_total [OF ok p])
  have nonneg: "0 \<le> lp"
  proof (rule ccontr)
    assume "\<not> 0 \<le> lp"
    then have neg: "lp < 0" by simp
    have "\<not> 2 \<le> lp_reserve_a p" "\<not> 2 \<le> lp_reserve_b p"
      using negative_share_fails [OF neg fit, of "lp_reserve_a p" "lp_total p"]
        negative_share_fails [OF neg fit, of "lp_reserve_b p" "lp_total p"] sx sy pk
      by (auto simp: pool_ok_def)
    then have "lp_reserve_a p = 1" "lp_reserve_b p = 1" using pk by (auto simp: pool_ok_def)
    moreover have "2 * 2 \<le> lp_total p * lp_total p" using pos less by (intro mult_mono) auto
    ultimately show False using pk by (simp add: pool_ok_def)
  qed
  have "x = lp * lp_reserve_a p div lp_total p" "y = lp * lp_reserve_b p div lp_total p"
    using share_of_effect [OF sx nonneg] share_of_effect [OF sy nonneg] le less pk
    by (auto simp: pool_ok_def)
  with p nonneg le pos eq show ?thesis by blast
qed

section \<open>Swaps\<close>

text \<open>The two sides of a pool as a swap sees them.\<close>

definition side_in :: "liquidity_pool \<Rightarrow> symbol \<Rightarrow> int" where
  "side_in p token = (if token = lp_token_a p then lp_reserve_a p else lp_reserve_b p)"

definition side_out :: "liquidity_pool \<Rightarrow> symbol \<Rightarrow> int" where
  "side_out p token = (if token = lp_token_a p then lp_reserve_b p else lp_reserve_a p)"

definition side_fees :: "liquidity_pool \<Rightarrow> symbol \<Rightarrow> int" where
  "side_fees p token = (if token = lp_token_a p then lp_fees_a p else lp_fees_b p)"

definition swap_fee :: "liquidity_pool \<Rightarrow> int \<Rightarrow> int" where
  "swap_fee p amount = amount * int (lp_fee_tier p) div 10000"

definition swap_out :: "liquidity_pool \<Rightarrow> symbol \<Rightarrow> int \<Rightarrow> int" where
  "swap_out p token x = side_out p token * x div (side_in p token + x)"

definition after_swap :: "liquidity_pool \<Rightarrow> symbol \<Rightarrow> int \<Rightarrow> liquidity_pool" where
  "after_swap p token amount =
     (let fee = swap_fee p amount; x = amount - fee; out = swap_out p token x
      in if token = lp_token_a p
         then p\<lparr>lp_fees_a := lp_fees_a p + fee, lp_reserve_a := lp_reserve_a p + x, lp_reserve_b := lp_reserve_b p - out\<rparr>
         else p\<lparr>lp_fees_b := lp_fees_b p + fee, lp_reserve_a := lp_reserve_a p - out, lp_reserve_b := lp_reserve_b p + x\<rparr>)"

lemma sides_ok:
  assumes "pool_ok p"
  shows "0 < side_in p t" "i128_ok (side_in p t)" "0 < side_out p t" "i128_ok (side_out p t)"
    "as_u128 (side_in p t) = nat (side_in p t)" "as_u128 (side_out p t) = nat (side_out p t)"
    "side_in p t * side_out p t = lp_reserve_a p * lp_reserve_b p"
  using assms by (auto simp: side_in_def side_out_def pool_ok_def pool_ok_casts [OF assms])

lemma swap_fee_bounds:
  assumes "valid_fee_tier (lp_fee_tier p)" and "0 < x"
  shows "0 \<le> swap_fee p x" "swap_fee p x < x"
proof -
  have t: "0 \<le> int (lp_fee_tier p)" "int (lp_fee_tier p) \<le> 30" using assms(1) by (auto simp: valid_fee_tier_def)
  show "0 \<le> swap_fee p x" using t assms(2) by (simp add: swap_fee_def pos_imp_zdiv_nonneg_iff)
  have "x * int (lp_fee_tier p) \<le> x * 30" using t assms(2) by (intro mult_left_mono) auto
  then show "swap_fee p x < x" using assms(2) unfolding swap_fee_def by linarith
qed

lemma registry_swap_effect:
  assumes ok: "registry_ok h" and call: "registry_swap e h i token amount min_out = Inr (out, h')"
    and fit: "i128_ok amount"
  shows "\<exists>p. pr_pools h i = Some p \<and> 0 < amount \<and> token \<in> {lp_token_a p, lp_token_b p}
    \<and> out = swap_out p token (amount - swap_fee p amount) \<and> min_out \<le> out
    \<and> i128_ok (side_in p token + (amount - swap_fee p amount)) \<and> i128_ok (side_fees p token + swap_fee p amount)
    \<and> h' = (set_pool i (after_swap p token amount) h)\<lparr>ph_events := ph_events h'\<rparr>"
proof -
  from call obtain p where p: "pr_pools h i = Some p" and pos: "0 < amount"
    and tok: "token \<in> {lp_token_a p, lp_token_b p}"
    by (auto simp: registry_swap_def res_simps not_le split: if_splits)
  have pk: "pool_ok p" by (rule registry_ok_pool(1) [OF ok p])
  let ?n = "nat amount * lp_fee_tier p"
  have am: "as_u128 amount = nat amount" using pos fit by (simp add: as_u128_nonneg)
  have fee: "swap_fee p amount = int (?n div 10000)"
    using pos by (simp add: swap_fee_def zdiv_int)
  have fb: "0 \<le> swap_fee p amount" "swap_fee p amount < amount"
    using swap_fee_bounds pk pos by (auto simp: pool_ok_def)
  have cast: "as_i128 (?n div 10000) = swap_fee p amount"
    using as_i128_le [of "?n div 10000" amount] fee fb fit by simp
  let ?x = "amount - swap_fee p amount"
  have x: "0 < ?x" "as_u128 ?x = nat ?x"
    using fb i128_between [of ?x amount] fit by (auto simp: as_u128_nonneg)
  note s = sides_ok [OF pk, of token]
  have sum: "int (nat (side_in p token) + nat ?x) = side_in p token + ?x" using s(1) x(1) by simp
  have q: "int (nat (side_out p token) * nat ?x div (nat (side_in p token) + nat ?x)) = swap_out p token ?x"
    using s(1,3) x(1) by (simp add: swap_out_def zdiv_int)
  have ob: "swap_out p token ?x < side_out p token"
    unfolding swap_out_def by (rule curve_out(2)) (use s x in auto)
  have outcast: "as_i128 (nat (side_out p token) * nat ?x div (nat (side_in p token) + nat ?x)) = swap_out p token ?x"
    using as_i128_le [of "nat (side_out p token) * nat ?x div (nat (side_in p token) + nat ?x)" "side_out p token"]
      q ob s(4) by simp
  have core: "out = swap_out p token ?x \<and> min_out \<le> out \<and> i128_ok (side_in p token + ?x)
      \<and> i128_ok (side_fees p token + swap_fee p amount)
      \<and> h' = set_pool i (after_swap p token amount) (fees_collected e token (swap_fee p amount) i h)"
  proof (cases "token = lp_token_a p")
    case True
    note sd = side_in_def [of p token, unfolded if_P [OF True]] side_out_def [of p token, unfolded if_P [OF True]]
      side_fees_def [of p token, unfolded if_P [OF True]]
    note c = call [unfolded registry_swap_def find_pool_def p ok_or_Some bindR_Inr am if_P [OF True] prod.case,
        folded sd, unfolded s(5,6)]
    from c obtain fp where fp: "as_i128 (nat amount * lp_fee_tier p div 10000) = fp"
      and o: "out = as_i128 (nat (side_out p token) * as_u128 (amount - fp) div (nat (side_in p token) + as_u128 (amount - fp)))"
        "min_out \<le> out" "i128_ok (side_fees p token + fp)" "i128_ok (side_in p token + (amount - fp))"
      and q: "h' = set_pool i (p\<lparr>lp_fees_a := side_fees p token + fp, lp_reserve_a := side_in p token + (amount - fp),
          lp_reserve_b := side_out p token - out\<rparr>) (fees_collected e token fp i h)"
      by (auto simp: bindR_eq_Inr u_mul_eq_Inr ensure_eq_Inr i_sub_eq_Inr checked_mul_128_eq_Inr checked_add_128_eq_Inr
          u_div_eq_Inr checked_i128_eq_Inr Let_def not_less)
    have "fp = swap_fee p amount" using fp cast by simp
    with o q x(2) outcast show ?thesis by (simp add: after_swap_def Let_def True side_in_def side_out_def side_fees_def)
  next
    case False
    have tb: "token = lp_token_b p" using tok False by simp
    note sd = side_in_def [of p token, unfolded if_not_P [OF False]] side_out_def [of p token, unfolded if_not_P [OF False]]
      side_fees_def [of p token, unfolded if_not_P [OF False]]
    note c = call [unfolded registry_swap_def find_pool_def p ok_or_Some bindR_Inr am if_not_P [OF False] if_P [OF tb] prod.case,
        folded sd, unfolded s(5,6)]
    from c obtain fp where fp: "as_i128 (nat amount * lp_fee_tier p div 10000) = fp"
      and o: "out = as_i128 (nat (side_out p token) * as_u128 (amount - fp) div (nat (side_in p token) + as_u128 (amount - fp)))"
        "min_out \<le> out" "i128_ok (side_fees p token + fp)" "i128_ok (side_in p token + (amount - fp))"
      and q: "h' = set_pool i (p\<lparr>lp_fees_b := side_fees p token + fp, lp_reserve_a := side_out p token - out,
          lp_reserve_b := side_in p token + (amount - fp)\<rparr>) (fees_collected e token fp i h)"
      by (auto simp: bindR_eq_Inr u_mul_eq_Inr ensure_eq_Inr i_sub_eq_Inr checked_mul_128_eq_Inr checked_add_128_eq_Inr
          u_div_eq_Inr checked_i128_eq_Inr Let_def not_less)
    have "fp = swap_fee p amount" using fp cast by simp
    with o q x(2) outcast show ?thesis by (simp add: after_swap_def Let_def False side_in_def side_out_def side_fees_def)
  qed
  then show ?thesis using p pos tok
    by (auto simp: fees_collected_def pool_publish_def set_pool_def)
qed

section \<open>When a withdrawal goes through\<close>

lemma claim_fees_total:
  assumes ok: "registry_ok h" and p: "pr_pools h i = Some p" and b: "0 < get_lp_balance h i who"
  shows "claim_fees e h i who = Inr ((0, 0), h)"
proof -
  have less: "get_lp_balance h i who < lp_total p" by (rule lp_balance_less_total [OF ok p])
  have pk: "pool_ok p" by (rule registry_ok_pool(1) [OF ok p])
  have share: "as_u128 (get_lp_balance h i who) div nat (lp_total p) = 0" "nat (lp_total p) \<noteq> 0"
    using b less lp_balance_ok [OF ok, of i who] by (simp_all add: as_u128_nonneg)
  have fees: "i128_ok (lp_fees_a p)" "i128_ok (lp_fees_b p)" using pk by (auto simp: pool_ok_def)
  have zero: "as_i128 0 = 0" by (simp add: as_i128_def)
  have same: "set_pool i p h = h" using p by (simp add: set_pool_def map_upd_triv)
  show ?thesis
    using p b share fees
    by (simp add: claim_fees_def find_pool_def Let_def u_div_def u_mul_def pool_ok_casts [OF pk] zero
        i_sub_def i_check_def same not_le)
qed

lemma share_of_total:
  assumes "0 \<le> lp" "lp \<le> t" "0 < t" "i128_ok t" "0 \<le> r" "i128_ok r" and "lp * r < 2 ^ 128"
  shows "share_of lp r t = Inr (lp * r div t)"
proof -
  have lp: "i128_ok lp" by (rule i128_between [OF assms(1,2,4)])
  have c: "as_u128 lp = nat lp" "as_u128 r = nat r" "as_u128 t = nat t"
    using assms lp by (auto simp: as_u128_nonneg)
  have "nat lp * nat r = nat (lp * r)" using assms by (simp add: nat_mult_distrib)
  also have "\<dots> < 2 ^ 128" using assms(1,5,7) by (simp add: nat_less_iff)
  finally have fit: "nat lp * nat r < 2 ^ 128" .
  have "nat t \<noteq> 0" using assms(3) by simp
  then have "share_of lp r t = Inr (as_i128 (nat lp * nat r div nat t))"
    using fit by (simp only: share_of_def c checked_mul_128_def u_checked_mul_def u_div_def if_True if_False ok_or_Some bindR_Inr)
  moreover from this have "as_i128 (nat lp * nat r div nat t) = lp * r div t"
    using share_of_effect [of lp r t] assms by blast
  ultimately show ?thesis by simp
qed

lemma remove_liquidity_total:
  assumes ok: "registry_ok h" and p: "pr_pools h i = Some p" and lp: "0 \<le> lp" "lp \<le> get_lp_balance h i who"
    and b: "0 < get_lp_balance h i who"
    and fits: "lp * lp_reserve_a p < 2 ^ 128" "lp * lp_reserve_b p < 2 ^ 128"
  shows "\<exists>x y h'. remove_liquidity e h i lp who = Inr ((x, y), h')"
proof -
  have pk: "pool_ok p" by (rule registry_ok_pool(1) [OF ok p])
  have less: "lp < lp_total p" using lp_balance_less_total [OF ok p, of who] lp by simp
  have shares: "share_of lp (lp_reserve_a p) (lp_total p) = Inr (lp * lp_reserve_a p div lp_total p)"
    "share_of lp (lp_reserve_b p) (lp_total p) = Inr (lp * lp_reserve_b p div lp_total p)"
    using pk lp less fits by (auto simp: pool_ok_def intro!: share_of_total)
  have bounds: "0 \<le> lp * lp_reserve_a p div lp_total p" "lp * lp_reserve_a p div lp_total p \<le> lp_reserve_a p"
    "0 \<le> lp * lp_reserve_b p div lp_total p" "lp * lp_reserve_b p div lp_total p \<le> lp_reserve_b p"
    using share_of_effect [OF shares(1)] share_of_effect [OF shares(2)] pk lp less by (auto simp: pool_ok_def)
  have ok128: "i128_ok (lp_reserve_a p - lp * lp_reserve_a p div lp_total p)"
    "i128_ok (lp_reserve_b p - lp * lp_reserve_b p div lp_total p)" "i128_ok (lp_total p - lp)"
    "i128_ok (get_lp_balance h i who - lp)"
    using pk bounds lp less lp_balance_ok [OF ok, of i who] by (auto simp: pool_ok_def i128_ok_def I128_MIN_def)
  show ?thesis
    using lp ok128
    by (simp add: remove_liquidity_def claim_fees_total [OF ok p b] find_pool_def p shares checked_i128_def
        i_checked_def Let_def not_less)
qed

end
