(* ===== verification/Pool_Registry_Steps.thy ===== *)
theory Pool_Registry_Steps
  imports Pool_Registry_Inv
begin

text \<open>
  Every operation of the pool registry keeps its invariant, and no operation lowers what an LP
  token stands for. The runs of the registry are the sequences of successful calls, by anyone.
\<close>

section \<open>Every operation keeps the invariant\<close>

lemma pool_ok_update:
  assumes "pool_ok p" and "0 < ra" "i128_ok ra" "0 < rb" "i128_ok rb" "0 < t" "i128_ok t" "t * t \<le> ra * rb"
  shows "pool_ok (p\<lparr>lp_reserve_a := ra, lp_reserve_b := rb, lp_total := t\<rparr>)"
  using assms by (simp add: pool_ok_def)

lemma register_pool_keeps:
  assumes ok: "registry_ok h" and call: "register_pool e h admin ta tb ia ib t = Inr (i, h')"
    and fit: "i128_ok ia" "i128_ok ib"
  shows "registry_ok h'"
proof -
  obtain p where i: "i = pr_next h" and p: "pool_ok p" "lp_pool_id p = i"
    and new: "pr_pair h (lp_token_a p, lp_token_b p) = None"
    and h': "h' = (set_pool i p h)\<lparr>pr_pair := (pr_pair h)((lp_token_a p, lp_token_b p) \<mapsto> i), pr_next := Suc i\<rparr>"
    using register_pool_effect [OF call fit] by auto
  have fresh: "pr_pools h i = None" using registry_ok_pool(3) [OF ok, of i] i by fastforce
  then have none: "pr_lp h (i, a) = None" for a
    using registry_okD(3) [OF ok, of "(i, a)"] by (cases "pr_lp h (i, a)") auto
  have sup: "lp_supply h' j = lp_supply h j" for j by (simp add: lp_supply_def h' set_pool_def)
  have zero: "lp_supply h i = 0" by (simp add: lp_supply_def none)
  show ?thesis
  proof (rule registry_okI)
    fix j q
    assume q: "pr_pools h' j = Some q"
    show "lp_pool_id q = j \<and> j < pr_next h' \<and> pool_ok q \<and> pr_pair h' (lp_token_a q, lp_token_b q) = Some j
        \<and> lp_supply h' j < lp_total q"
    proof (cases "j = i")
      case True
      with q have "q = p" by (simp add: h')
      with True p zero show ?thesis unfolding sup by (simp add: h' pool_ok_def)
    next
      case False
      with q have q0: "pr_pools h j = Some q" by (simp add: h')
      note r = registry_ok_pool [OF ok q0]
      with new have "(lp_token_a q, lp_token_b q) \<noteq> (lp_token_a p, lp_token_b p)" by auto
      with r i show ?thesis unfolding sup by (simp add: h')
    qed
  next
    fix ab j
    assume "pr_pair h' ab = Some j"
    then show "\<exists>q. pr_pools h' j = Some q \<and> ab = (lp_token_a q, lp_token_b q)"
      using registry_okD(1) [OF ok, of ab j] fresh by (auto simp: h' split: if_splits)
  next
    show "finite (dom (pr_lp h'))" using registry_okD(2) [OF ok] by (simp add: h')
  next
    fix k b
    assume "pr_lp h' k = Some b"
    then show "0 \<le> b \<and> i128_ok b \<and> pr_pools h' (fst k) \<noteq> None"
      using registry_okD(3) [OF ok, of k b] by (auto simp: h')
  qed
qed

text \<open>A deposit mints at most in proportion, a withdrawal pays at most in proportion.\<close>

lemma minted_proportion:
  fixes a t r :: int
  assumes "0 < r" and "lp \<le> a * t div r"
  shows "lp * r \<le> a * t"
  using assms le_zdiv_iff [of r lp "a * t"] by simp

lemma add_liquidity_keeps:
  assumes ok: "registry_ok h" and call: "add_liquidity h i a b who = Inr (lp, h')"
    and fit: "i128_ok a" "i128_ok b"
  shows "registry_ok h'"
proof -
  obtain p where p: "pr_pools h i = Some p" and ab: "0 < a" "0 < b" and lp: "MIN_LP_TOKENS \<le> lp"
    "lp = min (a * lp_total p div lp_reserve_a p) (b * lp_total p div lp_reserve_b p)"
    and fits: "i128_ok (lp_reserve_a p + a)" "i128_ok (lp_reserve_b p + b)" "i128_ok (lp_total p + lp)"
      "i128_ok (get_lp_balance h i who + lp)"
    and h': "h' = set_lp (i, who) (get_lp_balance h i who + lp) (set_pool i (p\<lparr>lp_reserve_a := lp_reserve_a p + a,
       lp_reserve_b := lp_reserve_b p + b, lp_total := lp_total p + lp\<rparr>) h)"
    using add_liquidity_effect [OF ok call fit] by blast
  note pk = registry_ok_pool(1) [OF ok p]
  have pos: "0 < lp" using lp(1) by (simp add: MIN_LP_TOKENS_def)
  have m: "lp * lp_reserve_a p \<le> a * lp_total p" "lp * lp_reserve_b p \<le> b * lp_total p"
    using minted_proportion [of "lp_reserve_a p" lp a "lp_total p"] minted_proportion [of "lp_reserve_b p" lp b "lp_total p"]
      lp(2) pk by (auto simp: pool_ok_def)
  have sc: "lp_reserve_a p * (lp_total p + lp) \<le> lp_total p * (lp_reserve_a p + a)"
    "lp_reserve_b p * (lp_total p + lp) \<le> lp_total p * (lp_reserve_b p + b)"
    using m by (simp_all add: distrib_left mult.commute)
  have "(lp_total p + lp) * (lp_total p + lp) \<le> (lp_reserve_a p + a) * (lp_reserve_b p + b)"
    by (rule backing_scale [OF _ _ _ _ _ _ sc]) (use pk ab pos in \<open>simp_all add: pool_ok_def\<close>)
  with pk ab pos fits have p': "pool_ok (p\<lparr>lp_reserve_a := lp_reserve_a p + a, lp_reserve_b := lp_reserve_b p + b,
      lp_total := lp_total p + lp\<rparr>)"
    by (intro pool_ok_update [OF pk]) (auto simp: pool_ok_def)
  show ?thesis
    unfolding h' by (rule registry_ok_set_both [OF ok p p'])
      (use registry_ok_pool [OF ok p] lp_balance_nonneg [OF ok, of i who] fits pos in auto)
qed

lemma remove_liquidity_keeps:
  assumes ok: "registry_ok h" and call: "remove_liquidity e h i lp who = Inr ((x, y), h')" and fit: "i128_ok lp"
  shows "registry_ok h'"
proof -
  obtain p where p: "pr_pools h i = Some p" and lp: "0 \<le> lp" "lp \<le> get_lp_balance h i who"
    and xy: "x = lp * lp_reserve_a p div lp_total p" "y = lp * lp_reserve_b p div lp_total p"
    and h': "h' = set_lp (i, who) (get_lp_balance h i who - lp) (set_pool i (p\<lparr>lp_reserve_a := lp_reserve_a p - x,
       lp_reserve_b := lp_reserve_b p - y, lp_total := lp_total p - lp\<rparr>) h)"
    using remove_liquidity_effect [OF ok call fit] by blast
  note pk = registry_ok_pool(1) [OF ok p]
  have less: "lp < lp_total p" using lp_balance_less_total [OF ok p, of who] lp by simp
  have part: "lp * r div lp_total p * lp_total p \<le> lp * r \<and> 0 \<le> lp * r div lp_total p
      \<and> lp * r div lp_total p < r" if "0 < r" for r
  proof (intro conjI)
    show m: "lp * r div lp_total p * lp_total p \<le> lp * r" using less lp by (intro div_mult_le) simp
    show "0 \<le> lp * r div lp_total p" using less lp that by (simp add: pos_imp_zdiv_nonneg_iff)
    show "lp * r div lp_total p < r"
      using less lp that le_zdiv_iff [of "lp_total p" r "lp * r"] by (auto simp: not_le [symmetric] mult.commute)
  qed
  have x: "x * lp_total p \<le> lp * lp_reserve_a p" "0 \<le> x" "x < lp_reserve_a p"
    and y: "y * lp_total p \<le> lp * lp_reserve_b p" "0 \<le> y" "y < lp_reserve_b p"
    using part [of "lp_reserve_a p"] part [of "lp_reserve_b p"] pk xy by (auto simp: pool_ok_def)
  have sc: "lp_reserve_a p * (lp_total p - lp) \<le> lp_total p * (lp_reserve_a p - x)"
    "lp_reserve_b p * (lp_total p - lp) \<le> lp_total p * (lp_reserve_b p - y)"
    using x(1) y(1) by (simp_all add: right_diff_distrib mult.commute)
  have "(lp_total p - lp) * (lp_total p - lp) \<le> (lp_reserve_a p - x) * (lp_reserve_b p - y)"
    by (rule backing_scale [OF _ _ _ _ _ _ sc]) (use pk less x y in \<open>simp_all add: pool_ok_def\<close>)
  moreover have "i128_ok (lp_reserve_a p - x)" "i128_ok (lp_reserve_b p - y)" "i128_ok (lp_total p - lp)"
    using pk x y lp less by (auto simp: pool_ok_def i128_ok_def I128_MIN_def)
  ultimately have p': "pool_ok (p\<lparr>lp_reserve_a := lp_reserve_a p - x, lp_reserve_b := lp_reserve_b p - y,
      lp_total := lp_total p - lp\<rparr>)"
    by (intro pool_ok_update [OF pk]) (use pk x y less in auto)
  have "i128_ok (get_lp_balance h i who - lp)"
    using lp lp_balance_ok [OF ok, of i who] by (auto simp: i128_ok_def I128_MIN_def)
  then show ?thesis
    unfolding h' by (intro registry_ok_set_both [OF ok p p'])
      (use registry_ok_pool [OF ok p] lp in auto)
qed

lemma after_swap_ok:
  assumes pk: "pool_ok p" and x: "0 < amount" and tok: "token \<in> {lp_token_a p, lp_token_b p}"
    and fit: "i128_ok (side_in p token + (amount - swap_fee p amount))" "i128_ok (side_fees p token + swap_fee p amount)"
  shows "pool_ok (after_swap p token amount)"
    and "lp_reserve_a p * lp_reserve_b p \<le> lp_reserve_a (after_swap p token amount) * lp_reserve_b (after_swap p token amount)"
proof -
  let ?x = "amount - swap_fee p amount" and ?o = "swap_out p token (amount - swap_fee p amount)"
  have f: "0 \<le> swap_fee p amount" "0 < ?x"
    using swap_fee_bounds [of p amount] pk x by (auto simp: pool_ok_def)
  have o: "0 \<le> ?o" "?o < side_out p token"
    "side_in p token * side_out p token \<le> (side_in p token + ?x) * (side_out p token - ?o)"
    using curve_out [of "side_in p token" "side_out p token" ?x] sides_ok [OF pk, of token] f
    by (auto simp: swap_out_def)
  have less: "i128_ok (side_out p token - ?o)"
    using sides_ok(4) [OF pk, of token] o by (auto simp: i128_ok_def I128_MIN_def)
  have tot: "lp_total p * lp_total p \<le> side_in p token * side_out p token"
    using pk sides_ok(7) [OF pk, of token] by (simp add: pool_ok_def)
  show "pool_ok (after_swap p token amount)"
    using pk f o less fit tot
    by (cases "token = lp_token_a p")
      (auto simp: after_swap_def Let_def pool_ok_def side_in_def side_out_def side_fees_def mult.commute
        intro: order_trans)
  show "lp_reserve_a p * lp_reserve_b p \<le> lp_reserve_a (after_swap p token amount) * lp_reserve_b (after_swap p token amount)"
    using o(3) by (auto simp: after_swap_def Let_def side_in_def side_out_def mult.commute)
qed

lemma after_swap_same [simp]:
  "lp_pool_id (after_swap p token x) = lp_pool_id p" "lp_token_a (after_swap p token x) = lp_token_a p"
  "lp_token_b (after_swap p token x) = lp_token_b p" "lp_total (after_swap p token x) = lp_total p"
  by (simp_all add: after_swap_def Let_def)

lemma registry_swap_keeps:
  assumes ok: "registry_ok h" and call: "registry_swap e h i token amount min_out = Inr (out, h')"
    and fit: "i128_ok amount"
  shows "registry_ok h'"
proof -
  obtain p where p: "pr_pools h i = Some p" and g: "0 < amount" "token \<in> {lp_token_a p, lp_token_b p}"
    "i128_ok (side_in p token + (amount - swap_fee p amount))" "i128_ok (side_fees p token + swap_fee p amount)"
    and h': "h' = (set_pool i (after_swap p token amount) h)\<lparr>ph_events := ph_events h'\<rparr>"
    using registry_swap_effect [OF ok call fit] by blast
  note r = registry_ok_pool [OF ok p]
  have "registry_ok (set_pool i (after_swap p token amount) h)"
    by (rule registry_ok_set_pool [OF ok p after_swap_ok(1) [OF r(1) g]]) (use r in auto)
  then show ?thesis by (subst h') simp
qed

lemma withdraw_treasury_fees_keeps:
  assumes ok: "registry_ok h" and call: "withdraw_treasury_fees e h i who = Inr (fees, h')"
  shows "registry_ok h'"
proof -
  obtain p where p: "pr_pools h i = Some p"
    and h': "h' = (set_pool i (p\<lparr>lp_fees_a := 0, lp_fees_b := 0\<rparr>) h)\<lparr>ph_events := ph_events h'\<rparr>"
    using withdraw_treasury_fees_effect [OF call] by blast
  note r = registry_ok_pool [OF ok p]
  have "registry_ok (set_pool i (p\<lparr>lp_fees_a := 0, lp_fees_b := 0\<rparr>) h)"
    by (rule registry_ok_set_pool [OF ok p])
      (use r in \<open>auto simp: pool_ok_def i128_ok_def I128_MIN_def I128_MAX_def\<close>)
  then show ?thesis by (subst h') simp
qed

lemma update_fee_tier_keeps:
  assumes ok: "registry_ok h" and call: "update_fee_tier e k h i t who = Inr h'"
  shows "registry_ok h'"
proof -
  obtain p where p: "pr_pools h i = Some p" and t: "valid_fee_tier t"
    and h': "h' = (set_pool i (p\<lparr>lp_fee_tier := t\<rparr>) h)\<lparr>ph_events := ph_events h'\<rparr>"
    using update_fee_tier_effect [OF call] by blast
  note r = registry_ok_pool [OF ok p]
  have "registry_ok (set_pool i (p\<lparr>lp_fee_tier := t\<rparr>) h)"
    by (rule registry_ok_set_pool [OF ok p]) (use r t in \<open>auto simp: pool_ok_def\<close>)
  then show ?thesis by (subst h') simp
qed

section \<open>The value of an LP token\<close>

text \<open>
  \<open>worth p q\<close>: an LP token of \<open>q\<close> stands for at least as much of the curve as one of \<open>p\<close>, that is
  the product of the reserves over the square of the supply did not fall.
\<close>

definition worth :: "liquidity_pool \<Rightarrow> liquidity_pool \<Rightarrow> bool" where
  "worth p q \<longleftrightarrow> lp_reserve_a p * lp_reserve_b p * (lp_total q * lp_total q)
     \<le> lp_total p * lp_total p * (lp_reserve_a q * lp_reserve_b q)"

lemma worth_refl: "worth p p"
  by (simp add: worth_def mult.commute)

lemma worth_same: "lp_reserve_a q = lp_reserve_a p \<Longrightarrow> lp_reserve_b q = lp_reserve_b p \<Longrightarrow> lp_total q = lp_total p
    \<Longrightarrow> worth p q"
  by (simp add: worth_def mult.commute)

lemma worth_trans:
  assumes "pool_ok p" "pool_ok q" "pool_ok r" and "worth p q" and "worth q r"
  shows "worth p r"
proof -
  define kp kq kr tp tq tr where "kp = lp_reserve_a p * lp_reserve_b p" and "kq = lp_reserve_a q * lp_reserve_b q"
    and "kr = lp_reserve_a r * lp_reserve_b r" and "tp = lp_total p * lp_total p"
    and "tq = lp_total q * lp_total q" and "tr = lp_total r * lp_total r"
  have pos: "0 < kp" "0 < kq" "0 < kr" "0 < tp" "0 < tq" "0 < tr"
    using assms(1,2,3) by (auto simp: pool_ok_def kp_def kq_def kr_def tp_def tq_def tr_def)
  have pq: "kp * tq \<le> tp * kq" and qr: "kq * tr \<le> tq * kr"
    using assms(4,5) by (simp_all add: worth_def kp_def kq_def kr_def tp_def tq_def tr_def)
  have "(kp * tr) * tq = (kp * tq) * tr" by (simp add: algebra_simps)
  also have "\<dots> \<le> (tp * kq) * tr" using pq pos by (intro mult_right_mono) auto
  also have "\<dots> = tp * (kq * tr)" by (simp add: algebra_simps)
  also have "\<dots> \<le> tp * (tq * kr)" using qr pos by (intro mult_left_mono) auto
  also have "\<dots> = (tp * kr) * tq" by (simp add: algebra_simps)
  finally have "kp * tr \<le> tp * kr" using pos by (simp add: mult_le_cancel_right)
  then show ?thesis by (simp add: worth_def kp_def kr_def tp_def tr_def)
qed

lemma worth_scale:
  assumes "pool_ok p" and "0 \<le> lp_reserve_a q" "0 \<le> lp_total q"
    and "lp_reserve_a p * lp_total q \<le> lp_total p * lp_reserve_a q"
    and "lp_reserve_b p * lp_total q \<le> lp_total p * lp_reserve_b q"
  shows "worth p q"
proof -
  have "(lp_reserve_a p * lp_total q) * (lp_reserve_b p * lp_total q)
      \<le> (lp_total p * lp_reserve_a q) * (lp_total p * lp_reserve_b q)"
    by (rule mult_mono [OF assms(4,5)]) (use assms in \<open>auto simp: pool_ok_def\<close>)
  then show ?thesis by (simp add: worth_def algebra_simps)
qed

section \<open>Runs\<close>

datatype pool_call =
    RegisterPool address symbol symbol int int nat
  | AddLiquidity nat int int address
  | ClaimFees nat address
  | WithdrawFees nat address
  | SetFeeTier "address option" nat nat address
  | RemoveLiquidity nat int address
  | SwapTokens nat symbol int int
  | SetMaxHops nat

fun pool_exec :: "env \<Rightarrow> pool_host \<Rightarrow> pool_call \<Rightarrow> (pool_host, counter_error) res" where
  "pool_exec e h (RegisterPool admin a b ia ib t) = bindR (register_pool e h admin a b ia ib t) (\<lambda>(_, h'). Inr h')"
| "pool_exec e h (AddLiquidity i a b who) = bindR (add_liquidity h i a b who) (\<lambda>(_, h'). Inr h')"
| "pool_exec e h (ClaimFees i who) = bindR (claim_fees e h i who) (\<lambda>(_, h'). Inr h')"
| "pool_exec e h (WithdrawFees i who) = bindR (withdraw_treasury_fees e h i who) (\<lambda>(_, h'). Inr h')"
| "pool_exec e h (SetFeeTier k i t who) = update_fee_tier e k h i t who"
| "pool_exec e h (RemoveLiquidity i lp who) = bindR (remove_liquidity e h i lp who) (\<lambda>(_, h'). Inr h')"
| "pool_exec e h (SwapTokens i token x m) = bindR (registry_swap e h i token x m) (\<lambda>(_, h'). Inr h')"
| "pool_exec e h (SetMaxHops n) = Inr (set_max_hops n h)"

text \<open>The amounts a caller passes are \<open>i128\<close> values.\<close>

fun args_ok :: "pool_call \<Rightarrow> bool" where
  "args_ok (RegisterPool admin a b ia ib t) = (i128_ok ia \<and> i128_ok ib)"
| "args_ok (AddLiquidity i a b who) = (i128_ok a \<and> i128_ok b)"
| "args_ok (RemoveLiquidity i lp who) = i128_ok lp"
| "args_ok (SwapTokens i token x m) = i128_ok x"
| "args_ok _ = True"

inductive pool_step :: "pool_host \<Rightarrow> pool_host \<Rightarrow> bool" where
  pool_step_call: "pool_exec e h c = Inr h' \<Longrightarrow> args_ok c \<Longrightarrow> pool_step h h'"

definition pools_deployed :: "pool_host \<Rightarrow> bool" where
  "pools_deployed h \<longleftrightarrow> h = new_registry"

lemma pool_exec_keeps:
  assumes ok: "registry_ok h" and call: "pool_exec e h c = Inr h'" and fit: "args_ok c"
  shows "registry_ok h'"
proof (cases c)
  case (RegisterPool admin a b ia ib t)
  with assms register_pool_keeps [OF ok] show ?thesis by (auto simp: res_simps)
next
  case (AddLiquidity i a b who)
  with assms add_liquidity_keeps [OF ok] show ?thesis by (auto simp: res_simps)
next
  case (ClaimFees i who)
  with call obtain fees where "claim_fees e h i who = Inr (fees, h')" by (auto simp: res_simps)
  with ok claim_fees_same [OF ok] show ?thesis by blast
next
  case (WithdrawFees i who)
  with assms withdraw_treasury_fees_keeps [OF ok] show ?thesis by (auto simp: res_simps)
next
  case (SetFeeTier k i t who)
  with assms update_fee_tier_keeps [OF ok] show ?thesis by auto
next
  case (RemoveLiquidity i lp who)
  with assms remove_liquidity_keeps [OF ok] show ?thesis by (auto simp: res_simps)
next
  case (SwapTokens i token x m)
  with assms registry_swap_keeps [OF ok] show ?thesis by (auto simp: res_simps)
next
  case (SetMaxHops n)
  with assms show ?thesis by (auto simp: set_max_hops_def)
qed

interpretation pool_machine: machine_invariant pools_deployed pool_step registry_ok
proof
  show "pools_deployed h \<Longrightarrow> registry_ok h" for h by (simp add: pools_deployed_def new_registry_ok)
  show "registry_ok h \<Longrightarrow> pool_step h h' \<Longrightarrow> registry_ok h'" for h h'
    by (erule pool_step.cases) (blast intro: pool_exec_keeps)
qed

section \<open>Single pools along calls\<close>

text \<open>What a call may do to a pool: keep it, or replace it by one worth at least as much.\<close>

lemma add_liquidity_worth:
  assumes ok: "registry_ok h" and call: "add_liquidity h i a b who = Inr (lp, h')"
    and fit: "i128_ok a" "i128_ok b" and p: "pr_pools h j = Some p"
  shows "\<exists>q. pr_pools h' j = Some q \<and> worth p q \<and> lp_token_a q = lp_token_a p \<and> lp_token_b q = lp_token_b p"
proof -
  obtain p0 where p0: "pr_pools h i = Some p0" and ab: "0 < a" "0 < b" and lp: "MIN_LP_TOKENS \<le> lp"
    "lp = min (a * lp_total p0 div lp_reserve_a p0) (b * lp_total p0 div lp_reserve_b p0)"
    and h': "h' = set_lp (i, who) (get_lp_balance h i who + lp) (set_pool i (p0\<lparr>lp_reserve_a := lp_reserve_a p0 + a,
       lp_reserve_b := lp_reserve_b p0 + b, lp_total := lp_total p0 + lp\<rparr>) h)"
    using add_liquidity_effect [OF ok call fit] by blast
  note pk = registry_ok_pool(1) [OF ok p0]
  have "lp * lp_reserve_a p0 \<le> a * lp_total p0" "lp * lp_reserve_b p0 \<le> b * lp_total p0"
    using minted_proportion [of "lp_reserve_a p0" lp a "lp_total p0"] minted_proportion [of "lp_reserve_b p0" lp b "lp_total p0"]
      lp(2) pk by (auto simp: pool_ok_def)
  then have "worth p0 (p0\<lparr>lp_reserve_a := lp_reserve_a p0 + a, lp_reserve_b := lp_reserve_b p0 + b,
      lp_total := lp_total p0 + lp\<rparr>)"
    using pk ab lp(1) by (intro worth_scale) (auto simp: pool_ok_def MIN_LP_TOKENS_def distrib_left mult.commute)
  then show ?thesis using p p0 h' worth_refl by (cases "j = i") auto
qed

lemma remove_liquidity_worth:
  assumes ok: "registry_ok h" and call: "remove_liquidity e h i lp who = Inr ((x, y), h')"
    and fit: "i128_ok lp" and p: "pr_pools h j = Some p"
  shows "\<exists>q. pr_pools h' j = Some q \<and> worth p q \<and> lp_token_a q = lp_token_a p \<and> lp_token_b q = lp_token_b p"
proof -
  obtain p0 where p0: "pr_pools h i = Some p0" and lp: "0 \<le> lp" "lp \<le> get_lp_balance h i who"
    and xy: "x = lp * lp_reserve_a p0 div lp_total p0" "y = lp * lp_reserve_b p0 div lp_total p0"
    and h': "h' = set_lp (i, who) (get_lp_balance h i who - lp) (set_pool i (p0\<lparr>lp_reserve_a := lp_reserve_a p0 - x,
       lp_reserve_b := lp_reserve_b p0 - y, lp_total := lp_total p0 - lp\<rparr>) h)"
    using remove_liquidity_effect [OF ok call fit] by blast
  note pk = registry_ok_pool(1) [OF ok p0]
  have less: "lp < lp_total p0" using lp_balance_less_total [OF ok p0, of who] lp by simp
  have t: "0 < lp_total p0" using pk by (simp add: pool_ok_def)
  have xt: "x * lp_total p0 \<le> lp * lp_reserve_a p0" "y * lp_total p0 \<le> lp * lp_reserve_b p0"
    using div_mult_le [OF t] xy by auto
  have "lp * lp_reserve_a p0 \<le> lp_total p0 * lp_reserve_a p0"
    using less lp pk by (intro mult_right_mono) (auto simp: pool_ok_def)
  with xt(1) have "x * lp_total p0 \<le> lp_reserve_a p0 * lp_total p0" by (simp add: mult.commute)
  then have "x \<le> lp_reserve_a p0" using t by simp
  then have "worth p0 (p0\<lparr>lp_reserve_a := lp_reserve_a p0 - x, lp_reserve_b := lp_reserve_b p0 - y,
      lp_total := lp_total p0 - lp\<rparr>)"
    using pk less xt by (intro worth_scale) (auto simp: right_diff_distrib mult.commute)
  then show ?thesis using p p0 h' worth_refl by (cases "j = i") auto
qed

lemma registry_swap_worth:
  assumes ok: "registry_ok h" and call: "registry_swap e h i token amount m = Inr (out, h')"
    and fit: "i128_ok amount" and p: "pr_pools h j = Some p"
  shows "\<exists>q. pr_pools h' j = Some q \<and> worth p q \<and> lp_token_a q = lp_token_a p \<and> lp_token_b q = lp_token_b p"
proof -
  obtain p0 where p0: "pr_pools h i = Some p0" and g: "0 < amount" "token \<in> {lp_token_a p0, lp_token_b p0}"
    "i128_ok (side_in p0 token + (amount - swap_fee p0 amount))" "i128_ok (side_fees p0 token + swap_fee p0 amount)"
    and h': "h' = (set_pool i (after_swap p0 token amount) h)\<lparr>ph_events := ph_events h'\<rparr>"
    using registry_swap_effect [OF ok call fit] by blast
  have "lp_total p0 * lp_total p0 * (lp_reserve_a p0 * lp_reserve_b p0) \<le>
      lp_total p0 * lp_total p0 * (lp_reserve_a (after_swap p0 token amount) * lp_reserve_b (after_swap p0 token amount))"
    using after_swap_ok(2) [OF registry_ok_pool(1) [OF ok p0] g] by (intro mult_left_mono) auto
  then have w: "worth p0 (after_swap p0 token amount)" by (simp add: worth_def mult.commute)
  have "pr_pools h' = (pr_pools h)(i \<mapsto> after_swap p0 token amount)" by (subst h') simp
  with w p p0 worth_refl show ?thesis by (cases "j = i") auto
qed

lemma pool_exec_worth:
  assumes ok: "registry_ok h" and call: "pool_exec e h c = Inr h'" and fit: "args_ok c" and p: "pr_pools h j = Some p"
  shows "\<exists>q. pr_pools h' j = Some q \<and> worth p q \<and> lp_token_a q = lp_token_a p \<and> lp_token_b q = lp_token_b p"
proof (cases c)
  case (RegisterPool admin a b ia ib t)
  with call fit obtain i where "register_pool e h admin a b ia ib t = Inr (i, h')" by (auto simp: res_simps)
  from register_pool_effect [OF this] fit RegisterPool obtain q where i: "i = pr_next h" "pr_pools h' = (pr_pools h)(i \<mapsto> q)"
    by auto
  moreover have "j \<noteq> i" using registry_ok_pool(3) [OF ok p] i by auto
  ultimately show ?thesis using p worth_refl by auto
next
  case (AddLiquidity i a b who)
  with assms add_liquidity_worth [OF ok] show ?thesis by (auto simp: res_simps)
next
  case (ClaimFees i who)
  with call obtain fees where "claim_fees e h i who = Inr (fees, h')" by (auto simp: res_simps)
  with p worth_refl claim_fees_same [OF ok] show ?thesis by blast
next
  case (WithdrawFees i who)
  with call obtain fees where w: "withdraw_treasury_fees e h i who = Inr (fees, h')" by (auto simp: res_simps)
  obtain p0 where p0: "pr_pools h i = Some p0"
    and h': "h' = (set_pool i (p0\<lparr>lp_fees_a := 0, lp_fees_b := 0\<rparr>) h)\<lparr>ph_events := ph_events h'\<rparr>"
    using withdraw_treasury_fees_effect [OF w] by blast
  have "pr_pools h' = (pr_pools h)(i \<mapsto> p0\<lparr>lp_fees_a := 0, lp_fees_b := 0\<rparr>)" by (subst h') simp
  with p p0 show ?thesis by (cases "j = i") (auto intro: worth_same)
next
  case (SetFeeTier k i t who)
  with call have u: "update_fee_tier e k h i t who = Inr h'" by simp
  obtain p0 where p0: "pr_pools h i = Some p0"
    and h': "h' = (set_pool i (p0\<lparr>lp_fee_tier := t\<rparr>) h)\<lparr>ph_events := ph_events h'\<rparr>"
    using update_fee_tier_effect [OF u] by blast
  have "pr_pools h' = (pr_pools h)(i \<mapsto> p0\<lparr>lp_fee_tier := t\<rparr>)" by (subst h') simp
  with p p0 show ?thesis by (cases "j = i") (auto intro: worth_same)
next
  case (RemoveLiquidity i lp who)
  with assms remove_liquidity_worth [OF ok] show ?thesis by (auto simp: res_simps)
next
  case (SwapTokens i token x m)
  with assms registry_swap_worth [OF ok] show ?thesis by (auto simp: res_simps)
next
  case (SetMaxHops n)
  with assms worth_refl show ?thesis by (auto simp: set_max_hops_def)
qed

lemma pool_step_worth:
  assumes "registry_ok h" and "pool_step h h'" and "pr_pools h j = Some p"
  shows "\<exists>q. pr_pools h' j = Some q \<and> worth p q \<and> lp_token_a q = lp_token_a p \<and> lp_token_b q = lp_token_b p"
  using assms(2) by cases (rule pool_exec_worth [OF assms(1) _ _ assms(3)])

text \<open>
  Quotes and routes: what \<open>calculate_output\<close> promises against what a swap pays, and what the search
  over the pools returns.
\<close>

section \<open>Quotes\<close>

text \<open>The quote rounds the input down, the swap rounds the fee down: the quote is never higher.\<close>

definition quote_in :: "liquidity_pool \<Rightarrow> int \<Rightarrow> int" where
  "quote_in p x = x * (10000 - int (lp_fee_tier p)) div 10000"

lemma quote_in_le:
  assumes "0 \<le> x" and "valid_fee_tier (lp_fee_tier p)"
  shows "0 \<le> quote_in p x" "quote_in p x \<le> x - swap_fee p x" "quote_in p x \<le> x"
proof -
  let ?f = "int (lp_fee_tier p)"
  have f: "0 \<le> ?f" "?f \<le> 30" using assms(2) by (auto simp: valid_fee_tier_def)
  show "0 \<le> quote_in p x" using assms(1) f by (simp add: quote_in_def pos_imp_zdiv_nonneg_iff)
  have "x * (10000 - ?f) = 10000 * x - x * ?f" by (simp add: algebra_simps)
  then show a: "quote_in p x \<le> x - swap_fee p x" unfolding quote_in_def swap_fee_def by linarith
  have "0 \<le> swap_fee p x" using assms(1) f by (simp add: swap_fee_def pos_imp_zdiv_nonneg_iff)
  with a show "quote_in p x \<le> x" by linarith
qed

lemma swap_out_mono:
  assumes "pool_ok p" and "0 \<le> x" and "x \<le> y"
  shows "swap_out p t x \<le> swap_out p t y"
  unfolding swap_out_def using sides_ok [OF assms(1), of t] assms by (intro curve_mono) auto

lemma swap_out_bounds:
  assumes "pool_ok p" and "0 \<le> x"
  shows "0 \<le> swap_out p t x" "swap_out p t x < side_out p t"
  unfolding swap_out_def using sides_ok [OF assms(1), of t] assms curve_out by auto

lemma calculate_output_effect:
  assumes pk: "pool_ok p" and call: "calculate_output p t x = Inr q" and x: "0 \<le> x" "i128_ok x"
  shows "q = swap_out p t (quote_in p x)"
proof -
  have f: "lp_fee_tier p \<le> 30" using pk by (auto simp: pool_ok_def valid_fee_tier_def)
  have keep: "u_sub 10000 (lp_fee_tier p) = Inr (10000 - lp_fee_tier p)" using f by (simp add: u_sub_def)
  have sides: "(if t = lp_token_a p then (lp_reserve_a p, lp_reserve_b p) else (lp_reserve_b p, lp_reserve_a p))
      = (side_in p t, side_out p t)" by (simp add: side_in_def side_out_def)
  have xi: "as_u128 x = nat x" using x by (simp add: as_u128_nonneg)
  note s = sides_ok [OF pk, of t]
  define n where "n = nat x * (10000 - lp_fee_tier p) div 10000"
  have n: "int n = quote_in p x" using x f by (simp add: n_def quote_in_def zdiv_int of_nat_diff)
  have q: "q = as_i128 (nat (side_out p t) * n div (nat (side_in p t) + n))"
    using call unfolding calculate_output_def sides prod.case Let_def s(5,6) xi keep bindR_Inr
    by (auto simp: res_simps n_def)
  have eq: "int (nat (side_out p t) * n div (nat (side_in p t) + n)) = swap_out p t (quote_in p x)"
    using s(1,3) by (simp add: swap_out_def zdiv_int n)
  have "0 \<le> quote_in p x" using quote_in_le(1) [OF x(1)] pk by (simp add: pool_ok_def)
  then have "swap_out p t (quote_in p x) \<le> side_out p t" using swap_out_bounds(2) [OF pk] by (simp add: less_imp_le)
  then show ?thesis using as_i128_le [of _ "side_out p t"] q eq s(4) by simp
qed

section \<open>The search\<close>

lemma route_loop_best:
  assumes "route_loop h tin tout x is best out = Inr (Some r)"
    and "\<And>b. best = Some b \<Longrightarrow> rt_output b = out" and "best = None \<Longrightarrow> out = 0"
  shows "(best = Some r \<or> (\<exists>i\<in>set is. route_via h tin tout x i = Inr (Some r)))
    \<and> out \<le> rt_output r \<and> (best = None \<longrightarrow> 0 < rt_output r)
    \<and> (\<forall>i\<in>set is. \<forall>r'. route_via h tin tout x i = Inr (Some r') \<longrightarrow> rt_output r' \<le> rt_output r)"
  using assms
proof (induction "is" arbitrary: best out)
  case Nil
  then show ?case by simp
next
  case (Cons i "is")
  show ?case
  proof (cases "route_via h tin tout x i")
    case (Inl f)
    with Cons.prems(1) show ?thesis by (cases f) auto
  next
    case (Inr o1)
    show ?thesis
    proof (cases o1)
      case None
      with Inr Cons.prems(1) have "route_loop h tin tout x is best out = Inr (Some r)" by simp
      from Cons.IH [OF this Cons.prems(2,3)] Inr None show ?thesis by auto
    next
      case (Some r1)
      show ?thesis
      proof (cases "out < rt_output r1")
        case True
        with Inr Some Cons.prems(1) have "route_loop h tin tout x is (Some r1) (rt_output r1) = Inr (Some r)" by simp
        from Cons.IH [OF this] Inr Some True Cons.prems(3) show ?thesis by fastforce
      next
        case False
        with Inr Some Cons.prems(1) have "route_loop h tin tout x is best out = Inr (Some r)" by simp
        from Cons.IH [OF this Cons.prems(2,3)] Inr Some False show ?thesis by fastforce
      qed
    qed
  qed
qed

text \<open>A route through two pools, taken apart.\<close>

lemma route_via_effect:
  assumes "route_via h tin tout x i = Inr (Some r)"
  shows "\<exists>p1 p2 j mid out1. pr_pools h i = Some p1 \<and> {lp_token_a p1, lp_token_b p1} = {tin, mid} \<and> mid \<noteq> tout
    \<and> pr_pair h (normalize_pair mid tout) = Some j \<and> pr_pools h j = Some p2
    \<and> calculate_output p1 tin x = Inr out1 \<and> calculate_output p2 mid out1 = Inr (rt_output r)
    \<and> rt_pools r = [i, j] \<and> rt_tokens r = [tin, mid, tout]"
  using assms by (auto simp: route_via_def Let_def bindR_eq_Inr split: option.splits if_splits)

end
