(* ===== verification/Pool_Registry_Props.thy ===== *)
theory Pool_Registry_Props
  imports Pool_Registry_Steps
begin

text \<open>
  The properties of the pool registry over all its runs: backing and value of LP tokens, deposits
  and withdrawals, swaps, routes, and the fees that nobody can claim.
\<close>

lemma reachable_registry_ok: "reachable pools_deployed pool_step h \<Longrightarrow> registry_ok h"
  by (rule pool_machine.inv_reachable)

section \<open>Runs for the witnesses\<close>

definition demo_pools :: pool_host where
  "demo_pools = (let p = \<lparr>lp_pool_id = 1, lp_token_a = ''USDC'', lp_token_b = ''XLM'', lp_reserve_a = 1000000,
       lp_reserve_b = 4000000, lp_total = 2000000, lp_fee_tier = 30, lp_fees_a = 0, lp_fees_b = 0\<rparr>
     in \<lparr>pr_pools = [1 \<mapsto> p], pr_pair = [(''USDC'', ''XLM'') \<mapsto> 1], pr_next = 2, pr_lp = Map.empty,
         pr_max_hops = 2, ph_events = []\<rparr>)"

lemma demo_sqrt: "sqrt_u128 4000000000000 = Inr 2000000"
proof -
  obtain r where r: "sqrt_u128 4000000000000 = Inr r" "r ^ 2 \<le> 4000000000000" "4000000000000 < Suc r ^ 2"
    using sqrt_floor [of 4000000000000] by auto
  have "r \<le> 2000000" using power2_le_imp_le [of r 2000000] r(2) by simp
  moreover have "2000000 < Suc r" using power_less_imp_less_base [of 2000000 2 "Suc r"] r(3) by simp
  ultimately show ?thesis using r(1) by simp
qed

lemma demo_register:
  "register_pool (demo_env 7 0) new_registry (Addr 7) ''XLM'' ''USDC'' 4000000 1000000 30 = Inr (1, demo_pools)"
  using demo_sqrt
  by (simp add: register_pool_def demo_env_def new_registry_def demo_pools_def require_auth_def valid_fee_tier_def
      normalize_pair_def checked_mul_128_def u_checked_mul_def as_u128_def Let_def set_pool_def u_add_def as_i128_def
      less_char_def)

lemma demo_registry_reachable: "reachable pools_deployed pool_step demo_pools"
proof -
  have "pool_exec (demo_env 7 0) new_registry (RegisterPool (Addr 7) ''XLM'' ''USDC'' 4000000 1000000 30) = Inr demo_pools"
    by (simp add: demo_register)
  moreover have "args_ok (RegisterPool (Addr 7) ''XLM'' ''USDC'' 4000000 1000000 30)"
    by (simp add: i128_ok_def I128_MIN_def I128_MAX_def)
  ultimately have "pool_step new_registry demo_pools" by (rule pool_step_call)
  then show ?thesis by (blast intro: reach_step reach_init [of pools_deployed] pools_deployed_def [THEN iffD2])
qed

lemma demo_pool: "pr_pools demo_pools 1 = Some \<lparr>lp_pool_id = 1, lp_token_a = ''USDC'', lp_token_b = ''XLM'',
    lp_reserve_a = 1000000, lp_reserve_b = 4000000, lp_total = 2000000, lp_fee_tier = 30, lp_fees_a = 0, lp_fees_b = 0\<rparr>"
  by (simp add: demo_pools_def)

definition demo_deposit :: pool_host where
  "demo_deposit = set_lp (1, Addr 5) 20000 (set_pool 1 \<lparr>lp_pool_id = 1, lp_token_a = ''USDC'', lp_token_b = ''XLM'',
     lp_reserve_a = 1010000, lp_reserve_b = 4040000, lp_total = 2020000, lp_fee_tier = 30, lp_fees_a = 0,
     lp_fees_b = 0\<rparr> demo_pools)"

lemma demo_add: "add_liquidity demo_pools 1 10000 40000 (Addr 5) = Inr (20000, demo_deposit)"
  by (simp add: add_liquidity_def find_pool_def demo_pools_def mint_amount_def checked_mul_128_def u_checked_mul_def
      as_u128_def as_i128_def u_div_def MIN_LP_TOKENS_def checked_i128_def i_checked_def i128_ok_def I128_MIN_def
      I128_MAX_def Let_def demo_deposit_def get_lp_balance_def)

lemma demo_add_for: "\<exists>h. add_liquidity demo_pools 1 10000 40000 who = Inr (20000, h) \<and> get_lp_balance h 1 who = 20000"
  by (simp add: add_liquidity_def find_pool_def demo_pools_def mint_amount_def checked_mul_128_def u_checked_mul_def
      as_u128_def as_i128_def u_div_def MIN_LP_TOKENS_def checked_i128_def i_checked_def i128_ok_def I128_MIN_def
      I128_MAX_def Let_def get_lp_balance_def cong: bindR_weak_cong)

section \<open>Square roots\<close>

text \<open>
  C26: the square root that prices the first LP tokens terminates and is exact. For every \<open>u128\<close>
  value Newton's loop ends without a trap, and its result is the floor of the square root.
\<close>

theorem sqrt_terminates:
  assumes "y < 2 ^ 128"
  shows "\<exists>r. sqrt_u128 y = Inr r \<and> r ^ 2 \<le> y \<and> y < (r + 1) ^ 2"
  using sqrt_floor [OF assms] by simp

theorem sqrt_terminates_witness: "\<exists>r. sqrt_u128 26 = Inr r \<and> r = 5"
proof -
  obtain r where r: "sqrt_u128 26 = Inr r" "r ^ 2 \<le> 26" "26 < (r + 1) ^ 2"
    using sqrt_terminates [of 26] by auto
  have "\<not> 6 \<le> r" using power_mono [of 6 r 2] r(2) by auto
  moreover have "\<not> r + 1 \<le> 5" using power_mono [of "r + 1" 5 2] r(3) by auto
  ultimately show ?thesis using r(1) by auto
qed

section \<open>Backing and value of LP tokens\<close>

text \<open>
  The pool registry is well formed and its LP tokens are backed. In every state reachable by
  registry calls of anyone, a pool under an id carries that id and a sorted pair of different
  tokens; reserves and supply are positive; the product of the reserves is at least the square of
  the supply; and the LP balances of the providers are not negative and add up to less than the supply.
\<close>

theorem pools_backed:
  assumes "reachable pools_deployed pool_step h" and "pr_pools h i = Some p"
  shows "lp_pool_id p = i \<and> i < pr_next h \<and> lp_token_a p < lp_token_b p \<and> lp_fee_tier p \<in> {1, 5, 30}
    \<and> 0 < lp_reserve_a p \<and> 0 < lp_reserve_b p \<and> 0 < lp_total p
    \<and> lp_total p * lp_total p \<le> lp_reserve_a p * lp_reserve_b p
    \<and> (\<forall>who. 0 \<le> get_lp_balance h i who)
    \<and> (\<Sum>who\<in>{who. pr_lp h (i, who) \<noteq> None}. get_lp_balance h i who) < lp_total p"
proof -
  note ok = reachable_registry_ok [OF assms(1)]
  have "(\<Sum>who\<in>{who. pr_lp h (i, who) \<noteq> None}. get_lp_balance h i who) = lp_supply h i"
    unfolding lp_supply_def map_total_def dom_def
    by (rule sum.cong) (auto simp: get_lp_balance_def)
  then show ?thesis
    using registry_ok_pool [OF ok assms(2)] lp_balance_nonneg [OF ok, of i]
    by (simp add: pool_ok_def valid_fee_tier_def)
qed

theorem pools_backed_witness:
  "\<exists>p. pr_pools demo_pools 1 = Some p \<and> lp_total p * lp_total p \<le> lp_reserve_a p * lp_reserve_b p"
  using pools_backed [OF demo_registry_reachable demo_pool] demo_pool by blast

text \<open>
  C6: no run lowers what an LP token stands for. From a reachable state, after any sequence of
  registrations, deposits, withdrawals, swaps and fee operations by anyone, a pool is still there with
  its pair, and the product of its reserves per square of the supply is at least what it was.
\<close>

theorem lp_value_never_falls:
  assumes "reachable pools_deployed pool_step h" and "pool_step\<^sup>*\<^sup>* h h'" and "pr_pools h i = Some p"
  shows "\<exists>q. pr_pools h' i = Some q \<and> lp_token_a q = lp_token_a p \<and> lp_token_b q = lp_token_b p
    \<and> lp_reserve_a p * lp_reserve_b p * (lp_total q * lp_total q)
      \<le> lp_total p * lp_total p * (lp_reserve_a q * lp_reserve_b q)"
proof -
  note ok = reachable_registry_ok [OF assms(1)]
  have "\<exists>q. pr_pools h' i = Some q \<and> worth p q \<and> lp_token_a q = lp_token_a p \<and> lp_token_b q = lp_token_b p"
    using assms(2)
  proof (induction rule: rtranclp_induct)
    case base
    with assms(3) worth_refl show ?case by blast
  next
    case (step h1 h2)
    then obtain q where q: "pr_pools h1 i = Some q" "worth p q" "lp_token_a q = lp_token_a p" "lp_token_b q = lp_token_b p"
      by blast
    have ok1: "registry_ok h1" by (rule pool_machine.inv_rtranclp [OF step(1) ok])
    have ok2: "registry_ok h2" by (rule pool_machine.inv_step [OF ok1 step(2)])
    obtain r where r: "pr_pools h2 i = Some r" "worth q r" "lp_token_a r = lp_token_a q" "lp_token_b r = lp_token_b q"
      using pool_step_worth [OF ok1 step(2) q(1)] by blast
    have "worth p r"
      by (rule worth_trans [OF registry_ok_pool(1) [OF ok assms(3)] registry_ok_pool(1) [OF ok1 q(1)]
            registry_ok_pool(1) [OF ok2 r(1)] q(2) r(2)])
    with q r show ?case by auto
  qed
  then show ?thesis by (auto simp: worth_def)
qed

theorem lp_value_never_falls_witness:
  "\<exists>q. pr_pools demo_deposit 1 = Some q \<and>
     1000000 * 4000000 * (lp_total q * lp_total q) \<le> 2000000 * 2000000 * (lp_reserve_a q * lp_reserve_b q)"
proof -
  have "pool_step demo_pools demo_deposit"
    by (rule pool_step_call [of "demo_env 5 0" _ "AddLiquidity 1 10000 40000 (Addr 5)"])
      (simp_all add: demo_add i128_ok_def I128_MIN_def I128_MAX_def del: One_nat_def)
  from lp_value_never_falls [OF demo_registry_reachable r_into_rtranclp [of pool_step, OF this] demo_pool]
  show ?thesis by auto
qed

text \<open>
  The pair index is exact. In every reachable state, for two different tokens in either order,
  the index entry of the normalized pair is the id of a pool exactly when that pool trades the two tokens,
  so no two pools trade the same pair.
\<close>

theorem pair_index_exact:
  assumes "reachable pools_deployed pool_step h"
  shows "pr_pair h (normalize_pair a b) = Some i \<longleftrightarrow>
    (\<exists>p. pr_pools h i = Some p \<and> (lp_token_a p, lp_token_b p) = normalize_pair a b
       \<and> {lp_token_a p, lp_token_b p} = {a, b})"
proof -
  note ok = reachable_registry_ok [OF assms]
  have set: "{fst (normalize_pair a b), snd (normalize_pair a b)} = {a, b}" by (auto simp: normalize_pair_def)
  show ?thesis
  proof
    assume "pr_pair h (normalize_pair a b) = Some i"
    from registry_okD(1) [OF ok this] set show "\<exists>p. pr_pools h i = Some p
        \<and> (lp_token_a p, lp_token_b p) = normalize_pair a b \<and> {lp_token_a p, lp_token_b p} = {a, b}"
      by (metis fst_conv snd_conv)
  next
    assume "\<exists>p. pr_pools h i = Some p \<and> (lp_token_a p, lp_token_b p) = normalize_pair a b \<and> {lp_token_a p, lp_token_b p} = {a, b}"
    with registry_ok_pool(4) [OF ok] show "pr_pair h (normalize_pair a b) = Some i" by metis
  qed
qed

theorem pair_index_exact_witness: "pr_pair demo_pools (normalize_pair ''XLM'' ''USDC'') = Some 1"
proof -
  have n: "normalize_pair ''XLM'' ''USDC'' = (''USDC'', ''XLM'')" by (simp add: normalize_pair_def less_char_def)
  show ?thesis
    by (subst pair_index_exact [OF demo_registry_reachable]) (auto simp: n demo_pool simp del: One_nat_def)
qed

section \<open>Deposits and withdrawals\<close>

text \<open>
  C22: depositing and withdrawing again returns no more than was paid in. In every reachable state, if
  a provider's deposit mints \<open>lp\<close> tokens and the products of the withdrawal fit, then removing exactly these tokens
  succeeds, pays at most the deposited amounts on both sides, and leaves the provider's LP balance and the supply as
  they were, and the reserves no smaller.
\<close>

theorem deposit_withdraw_no_profit:
  assumes reach: "reachable pools_deployed pool_step h" and add: "add_liquidity h i a b who = Inr (lp, h1)"
    and fit: "i128_ok a" "i128_ok b" and p: "pr_pools h i = Some p"
    and fits: "lp * (lp_reserve_a p + a) < 2 ^ 128" "lp * (lp_reserve_b p + b) < 2 ^ 128"
  shows "\<exists>x y h2 q. remove_liquidity e h1 i lp who = Inr ((x, y), h2) \<and> x \<le> a \<and> y \<le> b
    \<and> get_lp_balance h2 i who = get_lp_balance h i who \<and> pr_pools h2 i = Some q \<and> lp_total q = lp_total p
    \<and> lp_reserve_a p \<le> lp_reserve_a q \<and> lp_reserve_b p \<le> lp_reserve_b q"
proof -
  note ok = reachable_registry_ok [OF reach]
  have ok1: "registry_ok h1" by (rule add_liquidity_keeps [OF ok add fit])
  let ?q = "p\<lparr>lp_reserve_a := lp_reserve_a p + a, lp_reserve_b := lp_reserve_b p + b, lp_total := lp_total p + lp\<rparr>"
  have g: "0 < a" "0 < b" "MIN_LP_TOKENS \<le> lp" "i128_ok (get_lp_balance h i who + lp)"
    "lp = min (a * lp_total p div lp_reserve_a p) (b * lp_total p div lp_reserve_b p)"
    and h1: "h1 = set_lp (i, who) (get_lp_balance h i who + lp) (set_pool i ?q h)"
    using add_liquidity_effect [OF ok add fit] p by auto
  have q: "pr_pools h1 i = Some ?q" and bal: "get_lp_balance h1 i who = get_lp_balance h i who + lp"
    by (simp_all add: h1 get_lp_balance_def)
  have pos: "0 < lp" using g(3) by (simp add: MIN_LP_TOKENS_def)
  have b0: "0 \<le> get_lp_balance h i who" by (rule lp_balance_nonneg [OF ok])
  obtain x y h2 where rm: "remove_liquidity e h1 i lp who = Inr ((x, y), h2)"
    using remove_liquidity_total [OF ok1 q, of lp who e] pos b0 bal fits by auto
  have "i128_ok lp" by (rule i128_between [OF _ _ g(4)]) (use pos b0 in auto)
  from remove_liquidity_effect [OF ok1 rm this] q bal
  have xy: "x = lp * (lp_reserve_a p + a) div (lp_total p + lp)" "y = lp * (lp_reserve_b p + b) div (lp_total p + lp)"
    and h2: "h2 = set_lp (i, who) (get_lp_balance h i who) (set_pool i (?q\<lparr>lp_reserve_a := lp_reserve_a p + a - x,
        lp_reserve_b := lp_reserve_b p + b - y, lp_total := lp_total p\<rparr>) h1)"
    by auto
  have pk: "pool_ok p" by (rule registry_ok_pool(1) [OF ok p])
  have returned: "lp * (r + c) div (lp_total p + lp) \<le> c" if "0 < r" "0 < c" "lp \<le> c * lp_total p div r" for r c
  proof -
    have "lp * r \<le> c * lp_total p" using that minted_proportion by blast
    then have "lp * (r + c) \<le> c * (lp_total p + lp)" by (simp add: algebra_simps)
    then have "lp * (r + c) div (lp_total p + lp) \<le> c * (lp_total p + lp) div (lp_total p + lp)"
      using pk pos by (intro zdiv_mono1) (auto simp: pool_ok_def)
    then show ?thesis using pk pos by (simp add: pool_ok_def)
  qed
  have "x \<le> a" unfolding xy by (rule returned) (use pk g in \<open>auto simp: pool_ok_def\<close>)
  moreover have "y \<le> b" unfolding xy by (rule returned) (use pk g in \<open>auto simp: pool_ok_def\<close>)
  ultimately show ?thesis
    using rm by (intro exI [of _ x] exI [of _ y] exI [of _ h2]) (simp add: h2 get_lp_balance_def)
qed

theorem deposit_withdraw_no_profit_witness:
  "\<exists>x y h2. remove_liquidity (demo_env 5 0) demo_deposit 1 20000 (Addr 5) = Inr ((x, y), h2) \<and> x \<le> 10000 \<and> y \<le> 40000"
  using deposit_withdraw_no_profit [OF demo_registry_reachable demo_add _ _ demo_pool, of "demo_env 5 0"]
  by (auto simp: i128_ok_def I128_MIN_def I128_MAX_def)

text \<open>
  A withdrawal takes what its tokens stand for and no more. In every reachable state a withdrawal that
  succeeds is of a number of tokens that is not negative and at most the caller's balance, although the code checks
  only the second; it pays the exact share of both reserves, less than either reserve, and charges exactly
  the tokens.
\<close>

theorem withdrawal_within_holdings:
  assumes reach: "reachable pools_deployed pool_step h" and call: "remove_liquidity e h i lp who = Inr ((x, y), h')"
    and fit: "i128_ok lp" and p: "pr_pools h i = Some p"
  shows "0 \<le> lp \<and> lp \<le> get_lp_balance h i who \<and> lp < lp_total p
    \<and> x = lp * lp_reserve_a p div lp_total p \<and> 0 \<le> x \<and> x < lp_reserve_a p
    \<and> y = lp * lp_reserve_b p div lp_total p \<and> 0 \<le> y \<and> y < lp_reserve_b p
    \<and> get_lp_balance h' i who = get_lp_balance h i who - lp
    \<and> (\<forall>j w. (j, w) \<noteq> (i, who) \<longrightarrow> get_lp_balance h' j w = get_lp_balance h j w)"
proof -
  note ok = reachable_registry_ok [OF reach]
  obtain p' where lp: "0 \<le> lp" "lp \<le> get_lp_balance h i who"
    and xy: "x = lp * lp_reserve_a p div lp_total p" "y = lp * lp_reserve_b p div lp_total p"
    and h': "h' = set_lp (i, who) (get_lp_balance h i who - lp) (set_pool i p' h)"
    using remove_liquidity_effect [OF ok call fit] p by auto
  have less: "lp < lp_total p" using lp_balance_less_total [OF ok p, of who] lp by simp
  have part: "0 \<le> lp * r div lp_total p \<and> lp * r div lp_total p < r" if "0 < r" for r
    using less lp that le_zdiv_iff [of "lp_total p" r "lp * r"]
    by (auto simp: not_le [symmetric] mult.commute pos_imp_zdiv_nonneg_iff)
  show ?thesis
    using lp less xy part [of "lp_reserve_a p"] part [of "lp_reserve_b p"] registry_ok_pool(1) [OF ok p] h'
    by (auto simp: pool_ok_def get_lp_balance_def)
qed

lemma demo_deposit_reachable: "reachable pools_deployed pool_step demo_deposit"
proof -
  have "pool_step demo_pools demo_deposit"
    by (rule pool_step_call [of "demo_env 5 0" _ "AddLiquidity 1 10000 40000 (Addr 5)"])
      (simp_all add: demo_add i128_ok_def I128_MIN_def I128_MAX_def del: One_nat_def)
  with demo_registry_reachable show ?thesis by (rule reach_step)
qed

lemma demo_deposit_pool: "pr_pools demo_deposit 1 = Some \<lparr>lp_pool_id = 1, lp_token_a = ''USDC'', lp_token_b = ''XLM'',
    lp_reserve_a = 1010000, lp_reserve_b = 4040000, lp_total = 2020000, lp_fee_tier = 30, lp_fees_a = 0, lp_fees_b = 0\<rparr>"
  "get_lp_balance demo_deposit 1 (Addr 5) = 20000"
  by (simp_all add: demo_deposit_def get_lp_balance_def)

theorem withdrawal_within_holdings_witness:
  "\<exists>x y h'. remove_liquidity (demo_env 5 0) demo_deposit 1 5000 (Addr 5) = Inr ((x, y), h') \<and> x = 2500 \<and> y = 10000
    \<and> get_lp_balance h' 1 (Addr 5) = 15000"
proof -
  obtain x y h' where r: "remove_liquidity (demo_env 5 0) demo_deposit 1 5000 (Addr 5) = Inr ((x, y), h')"
    using remove_liquidity_total [OF reachable_registry_ok [OF demo_deposit_reachable] demo_deposit_pool(1),
        of 5000 "Addr 5" "demo_env 5 0"] demo_deposit_pool(2) by auto
  from withdrawal_within_holdings [OF demo_deposit_reachable r _ demo_deposit_pool(1)] r
  show ?thesis by (auto simp: i128_ok_def I128_MIN_def I128_MAX_def demo_deposit_pool(2) [simplified])
qed

section \<open>Fees\<close>

text \<open>
  Liquidity providers never receive fees. In every reachable state a claim of a provider that succeeds pays
  zero of both tokens and changes nothing: the share is computed as the quotient of the provider's
  tokens by the supply in whole numbers, and nobody holds the whole supply, part of which was minted at
  registration and credited to nobody.
\<close>

theorem fees_never_claimed:
  assumes "reachable pools_deployed pool_step h" and "claim_fees e h i who = Inr (fees, h')"
  shows "fees = (0, 0) \<and> h' = h"
  using claim_fees_effect [OF reachable_registry_ok [OF assms(1)] assms(2)]
    claim_fees_same [OF reachable_registry_ok [OF assms(1)] assms(2)] by blast

theorem fees_never_claimed_witness:
  "\<exists>fees h'. claim_fees (demo_env 5 0) demo_deposit 1 (Addr 5) = Inr (fees, h') \<and> fees = (0, 0)"
proof -
  have c: "claim_fees (demo_env 5 0) demo_deposit 1 (Addr 5) = Inr ((0, 0), demo_deposit)"
    by (rule claim_fees_total [OF reachable_registry_ok [OF demo_deposit_reachable] demo_deposit_pool(1)])
      (use demo_deposit_pool(2) in simp)
  from fees_never_claimed [OF demo_deposit_reachable this] c show ?thesis by blast
qed

section \<open>Swaps\<close>

text \<open>
  C13: a swap follows the constant product curve. In every reachable state, a swap that succeeds pays the
  floor of the curve's value at the input less the fee, at least the caller's minimum and less than the
  reserve; the fee is the tier's share of the input rounded down and is set aside; the reserves move by exactly the two
  amounts, their product does not fall, and other pools and all LP balances stay.
\<close>

theorem swap_follows_curve:
  assumes reach: "reachable pools_deployed pool_step h"
    and call: "registry_swap e h i token amount min_out = Inr (out, h')" and fit: "i128_ok amount"
  shows "\<exists>p q. pr_pools h i = Some p \<and> pr_pools h' = (pr_pools h)(i \<mapsto> q) \<and> pr_lp h' = pr_lp h
    \<and> (let (ri, ro) = (if token = lp_token_a p then (lp_reserve_a p, lp_reserve_b p) else (lp_reserve_b p, lp_reserve_a p));
           (si, so) = (if token = lp_token_a p then (lp_reserve_a q, lp_reserve_b q) else (lp_reserve_b q, lp_reserve_a q));
           fee = amount * int (lp_fee_tier p) div 10000; x = amount - fee
       in token \<in> {lp_token_a p, lp_token_b p} \<and> out = ro * x div (ri + x) \<and> min_out \<le> out \<and> 0 \<le> out \<and> out < ro
          \<and> si = ri + x \<and> so = ro - out \<and> ri * ro \<le> si * so
          \<and> lp_fees_a q + lp_fees_b q = lp_fees_a p + lp_fees_b p + fee)"
proof -
  note ok = reachable_registry_ok [OF reach]
  obtain p where p: "pr_pools h i = Some p" and g: "0 < amount" "token \<in> {lp_token_a p, lp_token_b p}"
      "i128_ok (side_in p token + (amount - swap_fee p amount))" "i128_ok (side_fees p token + swap_fee p amount)"
    and out: "out = swap_out p token (amount - swap_fee p amount)" "min_out \<le> out"
    and h': "h' = (set_pool i (after_swap p token amount) h)\<lparr>ph_events := ph_events h'\<rparr>"
    using registry_swap_effect [OF ok call fit] by blast
  have pk: "pool_ok p" by (rule registry_ok_pool(1) [OF ok p])
  have x: "0 \<le> amount - swap_fee p amount" using swap_fee_bounds [of p amount] pk g by (simp add: pool_ok_def)
  have maps: "pr_pools h' = (pr_pools h)(i \<mapsto> after_swap p token amount)" "pr_lp h' = pr_lp h"
    by (subst h', simp)+
  let ?q = "after_swap p token amount"
  have sides: "(if token = lp_token_a p then (lp_reserve_a p, lp_reserve_b p) else (lp_reserve_b p, lp_reserve_a p))
      = (side_in p token, side_out p token)" by (simp add: side_in_def side_out_def)
  have sides': "(if token = lp_token_a p then (lp_reserve_a ?q, lp_reserve_b ?q) else (lp_reserve_b ?q, lp_reserve_a ?q))
      = (side_in p token + (amount - swap_fee p amount), side_out p token - out)"
    by (simp add: after_swap_def Let_def side_in_def side_out_def out(1))
  have fees: "lp_fees_a ?q + lp_fees_b ?q = lp_fees_a p + lp_fees_b p + swap_fee p amount"
    by (simp add: after_swap_def Let_def)
  have curve: "side_in p token * side_out p token
      \<le> (side_in p token + (amount - swap_fee p amount)) * (side_out p token - out)"
    unfolding out(1) swap_out_def by (rule curve_out(3)) (use sides_ok [OF pk, of token] x in auto)
  show ?thesis
    by (intro exI [of _ p] exI [of _ ?q] conjI p maps)
      (use g(2) out swap_out_bounds [OF pk x, of token] fees curve in
        \<open>simp add: sides sides' swap_fee_def [symmetric] swap_out_def [symmetric] Let_def\<close>)
qed

lemma demo_swap: "\<exists>out h'. registry_swap (demo_env 5 0) demo_pools 1 ''USDC'' 10000 0 = Inr (out, h')"
  apply (simp only: registry_swap_def find_pool_def demo_pool ok_or_Some bindR_Inr)
  apply (simp add: u_mul_def as_u128_def as_i128_def cong: bindR_weak_cong)
  apply (simp add: i_sub_def i_check_def i128_ok_def I128_MIN_def I128_MAX_def cong: bindR_weak_cong)
  apply (simp add: checked_mul_128_def checked_add_128_def u_checked_mul_def u_checked_add_def as_u128_def
      cong: bindR_weak_cong)
  apply (simp add: u_div_def as_i128_def cong: bindR_weak_cong)
  apply (simp add: checked_i128_def i_checked_def i128_ok_def I128_MIN_def I128_MAX_def cong: bindR_weak_cong)
  done

theorem swap_follows_curve_witness:
  "\<exists>out h' q. registry_swap (demo_env 5 0) demo_pools 1 ''USDC'' 10000 0 = Inr (out, h') \<and> pr_lp h' = pr_lp demo_pools
    \<and> pr_pools h' = (pr_pools demo_pools)(1 \<mapsto> q)"
proof -
  obtain out h' where s: "registry_swap (demo_env 5 0) demo_pools 1 ''USDC'' 10000 0 = Inr (out, h')"
    using demo_swap by blast
  have "i128_ok 10000" by (simp add: i128_ok_def I128_MIN_def I128_MAX_def)
  from swap_follows_curve [OF demo_registry_reachable s this] s show ?thesis by blast
qed

section \<open>Routes\<close>

text \<open>Executing a route: one registry swap per pool, each with the output of the one before.\<close>

fun swap_along :: "env \<Rightarrow> pool_host \<Rightarrow> nat list \<Rightarrow> symbol list \<Rightarrow> int \<Rightarrow> (int \<times> pool_host, counter_error) res" where
  "swap_along e h (i # is) (t # ts) x = bindR (registry_swap e h i t x 0) (\<lambda>(out, h'). swap_along e h' is ts out)"
| "swap_along e h _ _ x = Inr (x, h)"

text \<open>One hop: a swap of at least the quoted input pays at least the quote.\<close>

lemma hop_pays:
  assumes ok: "registry_ok h" and p: "pr_pools h i = Some p" and quote: "calculate_output p t x = Inr q"
    and x: "0 \<le> x" "i128_ok x" and call: "registry_swap e h i t y m = Inr (out, h')" and y: "x \<le> y" "i128_ok y"
  shows "q \<le> out \<and> 0 \<le> q \<and> i128_ok out"
proof -
  have pk: "pool_ok p" by (rule registry_ok_pool(1) [OF ok p])
  have v: "valid_fee_tier (lp_fee_tier p)" using pk by (simp add: pool_ok_def)
  obtain y0: "0 < y" and out: "out = swap_out p t (y - swap_fee p y)"
    using registry_swap_effect [OF ok call y(2)] p by auto
  have "x * (10000 - int (lp_fee_tier p)) \<le> y * (10000 - int (lp_fee_tier p))"
    using y(1) v by (intro mult_right_mono) (auto simp: valid_fee_tier_def)
  then have "quote_in p x \<le> quote_in p y" unfolding quote_in_def by (intro zdiv_mono1) auto
  also have "\<dots> \<le> y - swap_fee p y" by (rule quote_in_le(2)) (use y0 v in auto)
  finally have le: "quote_in p x \<le> y - swap_fee p y" .
  have q: "q = swap_out p t (quote_in p x)" by (rule calculate_output_effect [OF pk quote x])
  have x0: "0 \<le> quote_in p x" by (rule quote_in_le(1) [OF x(1) v])
  have "q \<le> out" unfolding q out by (rule swap_out_mono [OF pk x0 le])
  moreover have "0 \<le> q" unfolding q by (rule swap_out_bounds(1) [OF pk x0])
  moreover have "i128_ok out"
    using swap_out_bounds [OF pk, of "y - swap_fee p y" t] sides_ok(4) [OF pk, of t] le x0 i128_between
    unfolding out by (meson less_imp_le order_trans)
  ultimately show ?thesis by blast
qed

text \<open>
  A route pays at least what it promises. In every reachable state, when the route search for two
  different tokens returns a route, direct or through a third token, and the swaps along its pools go through, the amount
  received is at least the route's expected output.
\<close>

theorem route_pays_quote:
  assumes reach: "reachable pools_deployed pool_step h" and neq: "token_in \<noteq> token_out"
    and x: "0 \<le> x" "i128_ok x" and find: "find_best_route h token_in token_out x max_hops = Inr (Some r)"
    and run: "swap_along e h (rt_pools r) (butlast (rt_tokens r)) x = Inr (out, h')"
  shows "rt_output r \<le> out"
proof -
  note ok = reachable_registry_ok [OF reach]
  have loop: "rt_output r \<le> out" if l: "route_loop h token_in token_out x [0..<pr_next h] None 0 = Inr (Some r)"
  proof -
    obtain i where via: "route_via h token_in token_out x i = Inr (Some r)"
      using route_loop_best [OF l] by auto
    obtain p1 p2 j mid q1 where p1: "pr_pools h i = Some p1" "{lp_token_a p1, lp_token_b p1} = {token_in, mid}"
      and mid: "mid \<noteq> token_out" and j: "pr_pair h (normalize_pair mid token_out) = Some j" and p2: "pr_pools h j = Some p2"
      and q: "calculate_output p1 token_in x = Inr q1" "calculate_output p2 mid q1 = Inr (rt_output r)"
      and rt: "rt_pools r = [i, j]" "rt_tokens r = [token_in, mid, token_out]"
      using route_via_effect [OF via] by blast
    have t2: "{lp_token_a p2, lp_token_b p2} = {mid, token_out}"
      using j pair_index_exact [OF reach, of mid token_out j] p2 by auto
    have "lp_token_a p1 \<noteq> lp_token_b p1" using registry_ok_pool(1) [OF ok p1(1)] by (auto simp: pool_ok_def)
    then have "token_in \<noteq> mid" using p1(2) by (metis doubleton_eq_iff insert_absorb2)
    then have "token_in \<notin> {mid, token_out}" using neq by simp
    then have "p1 \<noteq> p2" using p1(2) t2 by blast
    then have ij: "i \<noteq> j" using p1(1) p2 by force
    have "swap_along e h [i, j] [token_in, mid] x = Inr (out, h')" using run unfolding rt by simp
    then obtain o1 h1 where s1: "registry_swap e h i token_in x 0 = Inr (o1, h1)"
      and s2: "\<exists>h2. registry_swap e h1 j mid o1 0 = Inr (out, h2)"
      by (fastforce simp: bindR_eq_Inr)
    have hop1: "q1 \<le> o1" "0 \<le> q1" "i128_ok o1"
      using hop_pays [OF ok p1(1) q(1) x s1 order_refl x(2)] by auto
    have "pr_pools h1 j = Some p2"
      using swap_follows_curve [OF reach s1 x(2)] p2 ij by auto
    from hop_pays [OF registry_swap_keeps [OF ok s1 x(2)] this q(2) hop1(2) i128_between [OF hop1(2,1,3)] _ hop1(1,3)] s2
    show ?thesis by blast
  qed
  show ?thesis
  proof (cases "pr_pair h (normalize_pair token_in token_out)")
    case None
    with find loop show ?thesis by (simp add: find_best_route_def)
  next
    case (Some i)
    then obtain p where p: "pr_pools h i = Some p" using registry_okD(1) [OF ok] by blast
    with Some find have d: "direct_route p i token_in token_out x = Inr (Some r)" by (simp add: find_best_route_def)
    then have q: "calculate_output p token_in x = Inr (rt_output r)" and rt: "rt_pools r = [i]" "rt_tokens r = [token_in, token_out]"
      by (auto simp: direct_route_def res_simps split: sum.splits fault.splits)
    from run rt obtain h2 where "registry_swap e h i token_in x 0 = Inr (out, h2)" by (auto simp: res_simps)
    from hop_pays [OF ok p q x this order_refl x(2)] show ?thesis by simp
  qed
qed

lemma demo_route: "\<exists>r. find_best_route demo_pools ''USDC'' ''XLM'' 10000 3 = Inr (Some r) \<and> rt_pools r = [1]
    \<and> rt_tokens r = [''USDC'', ''XLM'']"
proof -
  have n: "normalize_pair ''USDC'' ''XLM'' = (''USDC'', ''XLM'')" by (simp add: normalize_pair_def less_char_def)
  have i: "pr_pair demo_pools (''USDC'', ''XLM'') = Some 1" by (simp add: demo_pools_def)
  show ?thesis
    by (simp add: find_best_route_def n i demo_pool direct_route_def calculate_output_def calculate_price_impact_def
        u_sub_def u_mul_def u_div_def checked_mul_128_def checked_add_128_def u_checked_mul_def u_checked_add_def
        as_u128_def as_i128_def Let_def del: One_nat_def cong: bindR_weak_cong)
qed

theorem route_pays_quote_witness:
  "\<exists>r out h'. find_best_route demo_pools ''USDC'' ''XLM'' 10000 3 = Inr (Some r) \<and>
     swap_along (demo_env 5 0) demo_pools (rt_pools r) (butlast (rt_tokens r)) 10000 = Inr (out, h') \<and> rt_output r \<le> out"
proof -
  obtain r where r: "find_best_route demo_pools ''USDC'' ''XLM'' 10000 3 = Inr (Some r)"
    and rt: "rt_pools r = [1]" "rt_tokens r = [''USDC'', ''XLM'']"
    using demo_route by blast
  obtain out h' where s: "registry_swap (demo_env 5 0) demo_pools 1 ''USDC'' 10000 0 = Inr (out, h')"
    using demo_swap by blast
  then have run: "swap_along (demo_env 5 0) demo_pools (rt_pools r) (butlast (rt_tokens r)) 10000 = Inr (out, h')"
    by (simp add: rt)
  have "i128_ok 10000" by (simp add: i128_ok_def I128_MIN_def I128_MAX_def)
  from route_pays_quote [OF demo_registry_reachable _ _ this r run] r run show ?thesis by auto
qed

text \<open>
  The search for a two-pool route is exhaustive. When no pool trades the pair directly and the search returns a
  route, it is the route through some pool and one more, it pays something, and no other pool leads to a route that pays
  more; the bound on the number of hops plays no part in it.
\<close>

theorem best_route_optimal:
  assumes "pr_pair h (normalize_pair token_in token_out) = None"
    and "find_best_route h token_in token_out x max_hops = Inr (Some r)"
  shows "(\<exists>i<pr_next h. route_via h token_in token_out x i = Inr (Some r)) \<and> 0 < rt_output r
    \<and> (\<forall>i<pr_next h. \<forall>r'. route_via h token_in token_out x i = Inr (Some r') \<longrightarrow> rt_output r' \<le> rt_output r)
    \<and> (\<forall>hops. find_best_route h token_in token_out x hops = Inr (Some r))"
proof -
  from assms have l: "route_loop h token_in token_out x [0..<pr_next h] None 0 = Inr (Some r)"
    by (simp add: find_best_route_def)
  from route_loop_best [OF l] l assms(1) show ?thesis by (auto simp: find_best_route_def)
qed

definition demo_two_pools :: pool_host where
  "demo_two_pools = demo_pools\<lparr>pr_pools := (pr_pools demo_pools)(2 \<mapsto> \<lparr>lp_pool_id = 2, lp_token_a = ''EURC'',
     lp_token_b = ''USDC'', lp_reserve_a = 900000, lp_reserve_b = 1000000, lp_total = 948683, lp_fee_tier = 5,
     lp_fees_a = 0, lp_fees_b = 0\<rparr>), pr_pair := (pr_pair demo_pools)((''EURC'', ''USDC'') \<mapsto> 2), pr_next := 3\<rparr>"

lemma demo_two_hops:
  "\<exists>r. find_best_route demo_two_pools ''XLM'' ''EURC'' 40000 1 = Inr (Some r) \<and> rt_pools r = [1, 2]"
proof -
  have n: "normalize_pair ''XLM'' ''EURC'' = (''EURC'', ''XLM'')" "normalize_pair ''USDC'' ''EURC'' = (''EURC'', ''USDC'')"
    by (simp_all add: normalize_pair_def less_char_def)
  have pair: "pr_pair demo_two_pools (''EURC'', ''XLM'') = None" "pr_pair demo_two_pools (''EURC'', ''USDC'') = Some 2"
    "pr_next demo_two_pools = 3" "pr_pools demo_two_pools 0 = None"
    by (simp_all add: demo_two_pools_def demo_pools_def)
  have p1: "pr_pools demo_two_pools 1 = Some \<lparr>lp_pool_id = 1, lp_token_a = ''USDC'', lp_token_b = ''XLM'',
      lp_reserve_a = 1000000, lp_reserve_b = 4000000, lp_total = 2000000, lp_fee_tier = 30, lp_fees_a = 0, lp_fees_b = 0\<rparr>"
    and p2: "pr_pools demo_two_pools 2 = Some \<lparr>lp_pool_id = 2, lp_token_a = ''EURC'', lp_token_b = ''USDC'',
      lp_reserve_a = 900000, lp_reserve_b = 1000000, lp_total = 948683, lp_fee_tier = 5, lp_fees_a = 0, lp_fees_b = 0\<rparr>"
    by (simp_all add: demo_two_pools_def demo_pools_def)
  note ev = calculate_output_def calculate_price_impact_def u_sub_def u_mul_def u_div_def checked_mul_128_def
    checked_add_128_def u_checked_mul_def u_checked_add_def as_u128_def as_i128_def Let_def
  have v0: "route_via demo_two_pools ''XLM'' ''EURC'' 40000 0 = Inr None" by (simp add: route_via_def pair)
  have v2: "route_via demo_two_pools ''XLM'' ''EURC'' 40000 2 = Inr None" by (simp add: route_via_def p2)
  obtain r where v1: "route_via demo_two_pools ''XLM'' ''EURC'' 40000 1 = Inr (Some r)" "rt_pools r = [1, 2]" "0 < rt_output r"
    by (simp add: route_via_def p1 p2 n pair ev del: One_nat_def cong: bindR_weak_cong)
  have "[0..<3] = [0, 1, 2 :: nat]" by (simp add: upt_rec)
  then show ?thesis using v0 v1 v2 by (simp add: find_best_route_def n pair del: One_nat_def)
qed

theorem best_route_optimal_witness:
  "\<exists>r. find_best_route demo_two_pools ''XLM'' ''EURC'' 40000 1 = Inr (Some r) \<and> 0 < rt_output r"
proof -
  obtain r where r: "find_best_route demo_two_pools ''XLM'' ''EURC'' 40000 1 = Inr (Some r)" using demo_two_hops by blast
  have "pr_pair demo_two_pools (normalize_pair ''XLM'' ''EURC'') = None"
    by (simp add: normalize_pair_def less_char_def demo_two_pools_def demo_pools_def)
  from best_route_optimal [OF this r] r show ?thesis by blast
qed

end
