(* ===== verification/Kyc.thy ===== *)
theory Kyc
  imports Counter_Base
begin

text \<open>
  The KYC state machine of the counter contract (\<open>counter/src/kyc.rs\<close>): operators, the records of
  users with their status, submission and review, and the governance override of final decisions
  after a timelock. The admin of the contract is a parameter: it is stored by \<open>admin.rs\<close>.
\<close>

section \<open>Data\<close>

definition MAX_OPERATORS :: nat where
  "MAX_OPERATORS = 50"

definition MAX_REASON_LEN :: nat where
  "MAX_REASON_LEN = 32"

datatype kyc_status = Unverified | Pending | InReview | AdditionalInfoRequired | Verified | Rejected

definition is_terminal :: "kyc_status \<Rightarrow> bool" where
  "is_terminal st \<longleftrightarrow> st = Verified \<or> st = Rejected"

fun can_transition_to :: "kyc_status \<Rightarrow> kyc_status \<Rightarrow> bool" where
  "can_transition_to Unverified Pending = True"
| "can_transition_to Pending InReview = True"
| "can_transition_to InReview AdditionalInfoRequired = True"
| "can_transition_to InReview Verified = True"
| "can_transition_to InReview Rejected = True"
| "can_transition_to AdditionalInfoRequired InReview = True"
| "can_transition_to _ _ = False"

record kyc_record =
  kr_status :: kyc_status
  kr_updated_at :: nat
  kr_finalized_at :: "nat option"
  kr_updated_by :: "address option"
  kr_rejection_reason :: "symbol option"
  kr_expires_at :: "nat option"

definition new_record :: "env \<Rightarrow> kyc_record" where
  "new_record e = \<lparr>kr_status = Unverified, kr_updated_at = now e, kr_finalized_at = None,
     kr_updated_by = None, kr_rejection_reason = None, kr_expires_at = None\<rparr>"

definition is_finalized :: "kyc_record \<Rightarrow> bool" where
  "is_finalized r \<longleftrightarrow> kr_finalized_at r \<noteq> None"

definition is_expired :: "kyc_record \<Rightarrow> nat \<Rightarrow> bool" where
  "is_expired r current_time = (case kr_expires_at r of Some expires_at \<Rightarrow> current_time \<ge> expires_at | None \<Rightarrow> False)"

record governance_override =
  go_user :: address
  go_new_status :: kyc_status
  go_proposed_at :: nat
  go_executable_at :: nat
  go_proposer :: address
  go_reason :: symbol
  go_executed :: bool

datatype kyc_event =
    OperatorAdded address address nat
  | OperatorRemoved address address nat
  | StatusUpdated address address kyc_status nat
  | KycSubmitted address "nat option"
  | KycResubmitted address
  | TimelockSet address nat nat
  | ExpirySet address nat nat
  | OverrideProposed address nat address kyc_status nat
  | OverrideExecuted address nat address nat

record kyc_store =
  ks_records :: "address \<rightharpoonup> kyc_record"
  ks_operators :: "address list option"
  ks_overrides :: "nat \<rightharpoonup> governance_override"
  ks_counter :: "nat option"
  ks_timelock :: "nat option"
  ks_expiry :: "nat option"
  ks_events :: "kyc_event list"

definition kyc_store0 :: kyc_store where
  "kyc_store0 = \<lparr>ks_records = Map.empty, ks_operators = None, ks_overrides = Map.empty, ks_counter = None,
     ks_timelock = None, ks_expiry = None, ks_events = []\<rparr>"

definition DEFAULT_TIMELOCK_DURATION :: nat where
  "DEFAULT_TIMELOCK_DURATION = 7 * 24 * 60 * 60"

definition MIN_TIMELOCK_DURATION :: nat where
  "MIN_TIMELOCK_DURATION = 24 * 60 * 60"

definition DEFAULT_PENDING_EXPIRY_DURATION :: nat where
  "DEFAULT_PENDING_EXPIRY_DURATION = 30 * 24 * 60 * 60"

definition MIN_PENDING_EXPIRY_DURATION :: nat where
  "MIN_PENDING_EXPIRY_DURATION = 7 * 24 * 60 * 60"

definition kyc_publish :: "kyc_event \<Rightarrow> kyc_store \<Rightarrow> kyc_store" where
  "kyc_publish ev s = s\<lparr>ks_events := ks_events s @ [ev]\<rparr>"

section \<open>Validation\<close>

text \<open>Both validations accept everything, as in the code.\<close>

definition validate_symbol_length :: "symbol \<Rightarrow> nat \<Rightarrow> (unit, counter_error) res" where
  "validate_symbol_length text_value max_len = Inr ()"

definition validate_reason :: "symbol option \<Rightarrow> (unit, counter_error) res" where
  "validate_reason reason = (case reason of Some r \<Rightarrow> validate_symbol_length r MAX_REASON_LEN | None \<Rightarrow> Inr ())"

section \<open>Operators\<close>

definition kyc_operators :: "kyc_store \<Rightarrow> address list" where
  "kyc_operators s = (case ks_operators s of None \<Rightarrow> [] | Some ops \<Rightarrow> ops)"

definition add_operator :: "env \<Rightarrow> address option \<Rightarrow> kyc_store \<Rightarrow> address \<Rightarrow> address
    \<Rightarrow> (kyc_store, counter_error) res" where
  "add_operator e k s admin operator =
     bindR (require_auth e admin) (\<lambda>_.
     bindR (map_err NotKYCOperator (require_admin k admin)) (\<lambda>_.
     let operators = kyc_operators s in
     bindR (ensure (\<not> length operators \<ge> MAX_OPERATORS) (Err KYCOperatorLimitReached)) (\<lambda>_.
     if operator \<in> set operators then Inr s
     else Inr (kyc_publish (OperatorAdded admin operator (now e))
            (s\<lparr>ks_operators := Some (operators @ [operator])\<rparr>)))))"

definition remove_operator :: "env \<Rightarrow> address option \<Rightarrow> kyc_store \<Rightarrow> address \<Rightarrow> address
    \<Rightarrow> (kyc_store, counter_error) res" where
  "remove_operator e k s admin operator =
     bindR (require_auth e admin) (\<lambda>_.
     bindR (map_err NotKYCOperator (require_admin k admin)) (\<lambda>_.
     Inr (kyc_publish (OperatorRemoved admin operator (now e))
       (s\<lparr>ks_operators := Some (filter (\<lambda>op. op \<noteq> operator) (kyc_operators s))\<rparr>))))"

definition is_operator :: "address option \<Rightarrow> kyc_store \<Rightarrow> address \<Rightarrow> bool" where
  "is_operator k s addr \<longleftrightarrow> is_admin k addr \<or> addr \<in> set (kyc_operators s)"

definition require_operator :: "address option \<Rightarrow> kyc_store \<Rightarrow> address \<Rightarrow> (unit, counter_error) res" where
  "require_operator k s caller = (if is_operator k s caller then Inr () else Inl (Err NotKYCOperator))"

section \<open>Records\<close>

definition get_record :: "env \<Rightarrow> kyc_store \<Rightarrow> address \<Rightarrow> kyc_record" where
  "get_record e s user = (case ks_records s user of None \<Rightarrow> new_record e | Some r \<Rightarrow> r)"

definition save_record :: "address \<Rightarrow> kyc_record \<Rightarrow> kyc_store \<Rightarrow> kyc_store" where
  "save_record user r s = s\<lparr>ks_records := (ks_records s)(user \<mapsto> r)\<rparr>"

definition is_verified :: "env \<Rightarrow> kyc_store \<Rightarrow> address \<Rightarrow> bool" where
  "is_verified e s user \<longleftrightarrow> kr_status (get_record e s user) = Verified"

definition require_verified :: "env \<Rightarrow> kyc_store \<Rightarrow> address \<Rightarrow> (unit, counter_error) res" where
  "require_verified e s user = (if is_verified e s user then Inr () else Inl (Err KYCVerificationRequired))"

section \<open>Transitions\<close>

text \<open>
  The event published on the expired branch is discarded with the failed call.
\<close>

definition update_status :: "env \<Rightarrow> address option \<Rightarrow> kyc_store \<Rightarrow> address \<Rightarrow> address \<Rightarrow> kyc_status
    \<Rightarrow> symbol option \<Rightarrow> (kyc_store, counter_error) res" where
  "update_status e k s operator user new_status reason =
     bindR (require_auth e operator) (\<lambda>_.
     bindR (require_operator k s operator) (\<lambda>_.
     bindR (ensure (operator \<noteq> user) (Err SelfVerificationNotAllowed)) (\<lambda>_.
     bindR (validate_reason reason) (\<lambda>_.
     let rec = get_record e s user in
     bindR (ensure (\<not> is_finalized rec) (Err KYCTerminalStateImmutable)) (\<lambda>_.
     let timestamp = now e in
     bindR (ensure (\<not> (kr_status rec = Pending \<and> is_expired rec timestamp)) (Err KYCRequestExpired)) (\<lambda>_.
     bindR (ensure (can_transition_to (kr_status rec) new_status) (Err InvalidKYCStateTransition)) (\<lambda>_.
     let r1 = rec\<lparr>kr_status := new_status, kr_updated_at := timestamp, kr_updated_by := Some operator,
                kr_rejection_reason := None\<rparr>;
         r2 = (if new_status \<noteq> Pending then r1\<lparr>kr_expires_at := None\<rparr> else r1);
         r3 = (if is_terminal new_status
               then (let r = r2\<lparr>kr_finalized_at := Some timestamp\<rparr>
                     in if new_status = Rejected then r\<lparr>kr_rejection_reason := reason\<rparr> else r)
               else r2)
     in Inr (kyc_publish (StatusUpdated operator user new_status timestamp) (save_record user r3 s)))))))))"

definition get_pending_expiry_duration :: "kyc_store \<Rightarrow> nat" where
  "get_pending_expiry_duration s = (case ks_expiry s of None \<Rightarrow> DEFAULT_PENDING_EXPIRY_DURATION | Some d \<Rightarrow> d)"

definition submit_kyc :: "env \<Rightarrow> kyc_store \<Rightarrow> address \<Rightarrow> (kyc_store, counter_error) res" where
  "submit_kyc e s user =
     bindR (require_auth e user) (\<lambda>_.
     let rec = get_record e s user in
     bindR (ensure (kr_status rec = Unverified) (Err InvalidKYCStateTransition)) (\<lambda>_.
     let timestamp = now e; expiry_duration = get_pending_expiry_duration s in
     bindR (u_add 64 timestamp expiry_duration) (\<lambda>expires.
     let r = rec\<lparr>kr_status := Pending, kr_updated_at := timestamp, kr_updated_by := None,
               kr_rejection_reason := None, kr_expires_at := Some expires\<rparr>
     in Inr (kyc_publish (KycSubmitted user (kr_expires_at r)) (save_record user r s)))))"

definition resubmit_kyc :: "env \<Rightarrow> kyc_store \<Rightarrow> address \<Rightarrow> (kyc_store, counter_error) res" where
  "resubmit_kyc e s user =
     bindR (require_auth e user) (\<lambda>_.
     let rec = get_record e s user in
     bindR (ensure (kr_status rec = AdditionalInfoRequired) (Err InvalidKYCStateTransition)) (\<lambda>_.
     let r = rec\<lparr>kr_status := InReview, kr_updated_at := now e, kr_rejection_reason := None\<rparr>
     in Inr (kyc_publish (KycResubmitted user) (save_record user r s))))"

section \<open>Governance overrides\<close>

definition set_timelock_duration :: "env \<Rightarrow> address option \<Rightarrow> kyc_store \<Rightarrow> address \<Rightarrow> nat
    \<Rightarrow> (kyc_store, counter_error) res" where
  "set_timelock_duration e k s admin duration =
     bindR (require_auth e admin) (\<lambda>_.
     bindR (map_err NotKYCOperator (require_admin k admin)) (\<lambda>_.
     bindR (ensure (\<not> duration < MIN_TIMELOCK_DURATION) (Err InvalidTimelockDuration)) (\<lambda>_.
     Inr (kyc_publish (TimelockSet admin duration (now e)) (s\<lparr>ks_timelock := Some duration\<rparr>)))))"

definition get_timelock_duration :: "kyc_store \<Rightarrow> nat" where
  "get_timelock_duration s = (case ks_timelock s of None \<Rightarrow> DEFAULT_TIMELOCK_DURATION | Some d \<Rightarrow> d)"

definition set_pending_expiry_duration :: "env \<Rightarrow> address option \<Rightarrow> kyc_store \<Rightarrow> address \<Rightarrow> nat
    \<Rightarrow> (kyc_store, counter_error) res" where
  "set_pending_expiry_duration e k s admin duration =
     bindR (require_auth e admin) (\<lambda>_.
     bindR (map_err NotKYCOperator (require_admin k admin)) (\<lambda>_.
     bindR (ensure (\<not> duration < MIN_PENDING_EXPIRY_DURATION) (Err InvalidExpiryDuration)) (\<lambda>_.
     Inr (kyc_publish (ExpirySet admin duration (now e)) (s\<lparr>ks_expiry := Some duration\<rparr>)))))"

definition propose_override :: "env \<Rightarrow> address option \<Rightarrow> kyc_store \<Rightarrow> address \<Rightarrow> address \<Rightarrow> kyc_status \<Rightarrow> symbol
    \<Rightarrow> (nat \<times> kyc_store, counter_error) res" where
  "propose_override e k s admin user new_status reason =
     bindR (require_auth e admin) (\<lambda>_.
     bindR (map_err NotKYCOperator (require_admin k admin)) (\<lambda>_.
     bindR (validate_symbol_length reason MAX_REASON_LEN) (\<lambda>_.
     let rec = get_record e s user in
     bindR (ensure (is_finalized rec) (Err InvalidKYCStateTransition)) (\<lambda>_.
     let timestamp = now e; timelock = get_timelock_duration s;
         override_id = (case ks_counter s of None \<Rightarrow> 0 | Some n \<Rightarrow> n)
     in
     bindR (u_add 64 override_id 1) (\<lambda>next_id.
     bindR (u_add 64 timestamp timelock) (\<lambda>executable_at.
     let ov = \<lparr>go_user = user, go_new_status = new_status, go_proposed_at = timestamp,
                go_executable_at = executable_at, go_proposer = admin, go_reason = reason, go_executed = False\<rparr>;
         s1 = s\<lparr>ks_overrides := (ks_overrides s)(override_id \<mapsto> ov), ks_counter := Some next_id\<rparr>
     in Inr (override_id, kyc_publish (OverrideProposed admin override_id user new_status timestamp) s1)))))))"

definition execute_override :: "env \<Rightarrow> address option \<Rightarrow> kyc_store \<Rightarrow> address \<Rightarrow> nat
    \<Rightarrow> (kyc_store, counter_error) res" where
  "execute_override e k s admin override_id =
     bindR (require_auth e admin) (\<lambda>_.
     bindR (map_err NotKYCOperator (require_admin k admin)) (\<lambda>_.
     bindR (ok_or (ks_overrides s override_id) (Err KYCOverrideNotFound)) (\<lambda>ov.
     bindR (ensure (\<not> go_executed ov) (Err KYCOverrideAlreadyExecuted)) (\<lambda>_.
     let timestamp = now e in
     bindR (ensure (\<not> timestamp < go_executable_at ov) (Err KYCTimelockNotElapsed)) (\<lambda>_.
     let rec = get_record e s (go_user ov);
         r1 = rec\<lparr>kr_status := go_new_status ov, kr_updated_at := timestamp, kr_updated_by := Some admin,
                kr_rejection_reason := None\<rparr>;
         r2 = (if is_terminal (go_new_status ov)
               then (let r = r1\<lparr>kr_finalized_at := Some timestamp\<rparr>
                     in if go_new_status ov = Rejected then r\<lparr>kr_rejection_reason := Some (go_reason ov)\<rparr> else r)
               else r1\<lparr>kr_finalized_at := None\<rparr>);
         s1 = save_record (go_user ov) r2 s;
         s2 = s1\<lparr>ks_overrides := (ks_overrides s1)(override_id \<mapsto> ov\<lparr>go_executed := True\<rparr>)\<rparr>
     in Inr (kyc_publish (OverrideExecuted admin override_id (go_user ov) timestamp) s2))))))"

definition get_override :: "kyc_store \<Rightarrow> nat \<Rightarrow> governance_override option" where
  "get_override s override_id = ks_overrides s override_id"

end
