(* ===== verification/Kyc_Inv.thy ===== *)
theory Kyc_Inv
  imports Kyc
begin

text \<open>
  The successful KYC calls as guards and updates, the runs of the KYC system and its invariant.
  Each call is made by anyone at a ledger time that does not go back, with whatever address is the
  admin at that moment.
\<close>

section \<open>Successful calls\<close>

lemma kyc_add_operator_iff:
  "add_operator e k s admin op = Inr s' \<longleftrightarrow> authorized e admin \<and> k = Some admin
    \<and> length (kyc_operators s) < MAX_OPERATORS
    \<and> s' = (if op \<in> set (kyc_operators s) then s else kyc_publish (OperatorAdded admin op (now e))
         (s\<lparr>ks_operators := Some (kyc_operators s @ [op])\<rparr>))"
  unfolding add_operator_def by (auto simp: res_simps Let_def)

lemma kyc_remove_operator_iff:
  "remove_operator e k s admin op = Inr s' \<longleftrightarrow> authorized e admin \<and> k = Some admin
    \<and> s' = kyc_publish (OperatorRemoved admin op (now e))
         (s\<lparr>ks_operators := Some (filter (\<lambda>x. x \<noteq> op) (kyc_operators s))\<rparr>)"
  unfolding remove_operator_def by (auto simp: res_simps)

text \<open>The record an operator's decision leaves.\<close>

definition decided :: "env \<Rightarrow> address \<Rightarrow> kyc_record \<Rightarrow> kyc_status \<Rightarrow> symbol option \<Rightarrow> kyc_record" where
  "decided e op r st reason = r\<lparr>kr_status := st, kr_updated_at := now e, kr_updated_by := Some op,
     kr_finalized_at := (if is_terminal st then Some (now e) else kr_finalized_at r),
     kr_rejection_reason := (if st = Rejected then reason else None),
     kr_expires_at := (if st \<noteq> Pending then None else kr_expires_at r)\<rparr>"

lemma validate_reason_ok [simp]: "validate_reason x = Inr ()"
  by (simp add: validate_reason_def validate_symbol_length_def split: option.splits)

lemma update_status_iff:
  "update_status e k s op user st reason = Inr s' \<longleftrightarrow> authorized e op \<and> is_operator k s op \<and> op \<noteq> user
    \<and> \<not> is_finalized (get_record e s user)
    \<and> \<not> (kr_status (get_record e s user) = Pending \<and> is_expired (get_record e s user) (now e))
    \<and> can_transition_to (kr_status (get_record e s user)) st
    \<and> s' = kyc_publish (StatusUpdated op user st (now e))
         (save_record user (decided e op (get_record e s user) st reason) s)"
proof -
  have "(let r1 = r\<lparr>kr_status := st, kr_updated_at := now e, kr_updated_by := Some op, kr_rejection_reason := None\<rparr>;
        r2 = (if st \<noteq> Pending then r1\<lparr>kr_expires_at := None\<rparr> else r1);
        r3 = (if is_terminal st then (let q = r2\<lparr>kr_finalized_at := Some (now e)\<rparr>
                in if st = Rejected then q\<lparr>kr_rejection_reason := reason\<rparr> else q) else r2)
      in r3) = decided e op r st reason" for r
    by (cases r) (auto simp: decided_def is_terminal_def Let_def)
  then show ?thesis
    unfolding update_status_def require_operator_def
    by (simp add: res_simps Let_def) (auto simp: res_simps)
qed

lemma submit_kyc_iff:
  "submit_kyc e s user = Inr s' \<longleftrightarrow> authorized e user \<and> kr_status (get_record e s user) = Unverified
    \<and> now e + get_pending_expiry_duration s < 2 ^ 64
    \<and> s' = kyc_publish (KycSubmitted user (Some (now e + get_pending_expiry_duration s)))
         (save_record user ((get_record e s user)\<lparr>kr_status := Pending, kr_updated_at := now e, kr_updated_by := None,
            kr_rejection_reason := None, kr_expires_at := Some (now e + get_pending_expiry_duration s)\<rparr>) s)"
  unfolding submit_kyc_def by (auto simp: res_simps Let_def)

lemma resubmit_kyc_iff:
  "resubmit_kyc e s user = Inr s' \<longleftrightarrow> authorized e user \<and> kr_status (get_record e s user) = AdditionalInfoRequired
    \<and> s' = kyc_publish (KycResubmitted user) (save_record user ((get_record e s user)\<lparr>kr_status := InReview,
         kr_updated_at := now e, kr_rejection_reason := None\<rparr>) s)"
  unfolding resubmit_kyc_def by (auto simp: res_simps Let_def)

lemma set_timelock_duration_iff:
  "set_timelock_duration e k s admin d = Inr s' \<longleftrightarrow> authorized e admin \<and> k = Some admin \<and> MIN_TIMELOCK_DURATION \<le> d
    \<and> s' = kyc_publish (TimelockSet admin d (now e)) (s\<lparr>ks_timelock := Some d\<rparr>)"
  unfolding set_timelock_duration_def by (auto simp: res_simps)

lemma set_pending_expiry_duration_iff:
  "set_pending_expiry_duration e k s admin d = Inr s' \<longleftrightarrow> authorized e admin \<and> k = Some admin
    \<and> MIN_PENDING_EXPIRY_DURATION \<le> d
    \<and> s' = kyc_publish (ExpirySet admin d (now e)) (s\<lparr>ks_expiry := Some d\<rparr>)"
  unfolding set_pending_expiry_duration_def by (auto simp: res_simps)

definition next_override :: "kyc_store \<Rightarrow> nat" where
  "next_override s = (case ks_counter s of None \<Rightarrow> 0 | Some n \<Rightarrow> n)"

lemma propose_override_iff:
  "propose_override e k s admin user st reason = Inr (i, s') \<longleftrightarrow> authorized e admin \<and> k = Some admin
    \<and> is_finalized (get_record e s user) \<and> i = next_override s \<and> next_override s + 1 < 2 ^ 64
    \<and> now e + get_timelock_duration s < 2 ^ 64
    \<and> s' = kyc_publish (OverrideProposed admin i user st (now e)) (s\<lparr>ks_overrides := (ks_overrides s)(i \<mapsto>
         \<lparr>go_user = user, go_new_status = st, go_proposed_at = now e, go_executable_at = now e + get_timelock_duration s,
          go_proposer = admin, go_reason = reason, go_executed = False\<rparr>), ks_counter := Some (i + 1)\<rparr>)"
  unfolding propose_override_def validate_symbol_length_def next_override_def [symmetric]
  by (auto simp: res_simps Let_def)

text \<open>The record an executed override leaves.\<close>

definition overridden :: "env \<Rightarrow> address \<Rightarrow> kyc_record \<Rightarrow> governance_override \<Rightarrow> kyc_record" where
  "overridden e admin r ov = r\<lparr>kr_status := go_new_status ov, kr_updated_at := now e, kr_updated_by := Some admin,
     kr_finalized_at := (if is_terminal (go_new_status ov) then Some (now e) else None),
     kr_rejection_reason := (if go_new_status ov = Rejected then Some (go_reason ov) else None)\<rparr>"

lemma execute_override_iff:
  "execute_override e k s admin i = Inr s' \<longleftrightarrow> authorized e admin \<and> k = Some admin
    \<and> (\<exists>ov. ks_overrides s i = Some ov \<and> \<not> go_executed ov \<and> go_executable_at ov \<le> now e
       \<and> s' = kyc_publish (OverrideExecuted admin i (go_user ov) (now e))
            ((save_record (go_user ov) (overridden e admin (get_record e s (go_user ov)) ov) s)
             \<lparr>ks_overrides := (ks_overrides s)(i \<mapsto> ov\<lparr>go_executed := True\<rparr>)\<rparr>))"
proof -
  have "(let r1 = r\<lparr>kr_status := go_new_status ov, kr_updated_at := now e, kr_updated_by := Some admin,
          kr_rejection_reason := None\<rparr>;
        r2 = (if is_terminal (go_new_status ov) then (let q = r1\<lparr>kr_finalized_at := Some (now e)\<rparr>
                in if go_new_status ov = Rejected then q\<lparr>kr_rejection_reason := Some (go_reason ov)\<rparr> else q)
              else r1\<lparr>kr_finalized_at := None\<rparr>)
      in r2) = overridden e admin r ov" for r ov
    by (cases r) (auto simp: overridden_def is_terminal_def Let_def)
  moreover have "ks_overrides (save_record u r s) = ks_overrides s" for u r by (simp add: save_record_def)
  ultimately show ?thesis
    unfolding execute_override_def
    by (simp add: res_simps Let_def not_less) (auto simp: res_simps not_less)
qed

section \<open>Runs\<close>

datatype kyc_call =
    AddOperator address address
  | RemoveOperator address address
  | UpdateStatus address address kyc_status "symbol option"
  | SubmitKyc address
  | ResubmitKyc address
  | SetTimelock address nat
  | SetPendingExpiry address nat
  | ProposeOverride address address kyc_status symbol
  | ExecuteOverride address nat

fun kyc_exec :: "env \<Rightarrow> address option \<Rightarrow> kyc_store \<Rightarrow> kyc_call \<Rightarrow> (kyc_store, counter_error) res" where
  "kyc_exec e k s (AddOperator a op) = add_operator e k s a op"
| "kyc_exec e k s (RemoveOperator a op) = remove_operator e k s a op"
| "kyc_exec e k s (UpdateStatus op u st reason) = update_status e k s op u st reason"
| "kyc_exec e k s (SubmitKyc u) = submit_kyc e s u"
| "kyc_exec e k s (ResubmitKyc u) = resubmit_kyc e s u"
| "kyc_exec e k s (SetTimelock a d) = set_timelock_duration e k s a d"
| "kyc_exec e k s (SetPendingExpiry a d) = set_pending_expiry_duration e k s a d"
| "kyc_exec e k s (ProposeOverride a u st reason) = bindR (propose_override e k s a u st reason) (\<lambda>(_, s'). Inr s')"
| "kyc_exec e k s (ExecuteOverride a i) = execute_override e k s a i"

lemmas kyc_call_iffs = kyc_add_operator_iff kyc_remove_operator_iff update_status_iff submit_kyc_iff
  resubmit_kyc_iff set_timelock_duration_iff set_pending_expiry_duration_iff execute_override_iff

inductive kyc_step :: "nat \<times> kyc_store \<Rightarrow> nat \<times> kyc_store \<Rightarrow> bool" where
  kyc_step_call: "t \<le> now e \<Longrightarrow> kyc_exec e k s c = Inr s' \<Longrightarrow> kyc_step (t, s) (now e, s')"

definition kyc_deployed :: "nat \<times> kyc_store \<Rightarrow> bool" where
  "kyc_deployed ts \<longleftrightarrow> snd ts = kyc_store0"

section \<open>The invariant\<close>

definition record_ok :: "nat \<Rightarrow> kyc_record \<Rightarrow> bool" where
  "record_ok t r \<longleftrightarrow> kr_finalized_at r = (if is_terminal (kr_status r) then Some (kr_updated_at r) else None)
     \<and> (kr_rejection_reason r \<noteq> None \<longrightarrow> kr_status r = Rejected) \<and> kr_updated_at r \<le> t"

definition override_ok :: "nat \<Rightarrow> governance_override \<Rightarrow> bool" where
  "override_ok t ov \<longleftrightarrow> go_proposed_at ov + MIN_TIMELOCK_DURATION \<le> go_executable_at ov \<and> go_proposed_at ov \<le> t"

definition kyc_ok :: "nat \<times> kyc_store \<Rightarrow> bool" where
  "kyc_ok ts \<longleftrightarrow> (let (t, s) = ts in
     (\<forall>u r. ks_records s u = Some r \<longrightarrow> record_ok t r)
     \<and> (\<forall>i ov. ks_overrides s i = Some ov \<longrightarrow> i < next_override s \<and> override_ok t ov)
     \<and> length (kyc_operators s) \<le> MAX_OPERATORS \<and> distinct (kyc_operators s)
     \<and> MIN_TIMELOCK_DURATION \<le> get_timelock_duration s
     \<and> MIN_PENDING_EXPIRY_DURATION \<le> get_pending_expiry_duration s)"

lemma record_ok_mono: "record_ok t r \<Longrightarrow> t \<le> t' \<Longrightarrow> record_ok t' r"
  by (auto simp: record_ok_def)

lemma override_ok_mono: "override_ok t ov \<Longrightarrow> t \<le> t' \<Longrightarrow> override_ok t' ov"
  by (auto simp: override_ok_def)

lemma kyc_ok_record:
  assumes "kyc_ok (t, s)" and "t \<le> now e"
  shows "record_ok (now e) (get_record e s u)"
proof (cases "ks_records s u")
  case None
  then show ?thesis by (simp add: get_record_def new_record_def record_ok_def is_terminal_def)
next
  case (Some r)
  with assms(1) have "record_ok t r" by (simp add: kyc_ok_def)
  with Some assms(2) record_ok_mono show ?thesis by (simp add: get_record_def)
qed

lemma kyc_ok_override:
  "kyc_ok (t, s) \<Longrightarrow> ks_overrides s i = Some ov \<Longrightarrow> i < next_override s \<and> override_ok t ov"
  by (simp add: kyc_ok_def)

lemma finalized_iff_terminal: "record_ok t r \<Longrightarrow> is_finalized r \<longleftrightarrow> is_terminal (kr_status r)"
  by (simp add: record_ok_def is_finalized_def)

text \<open>Which parts of the store the updates touch.\<close>

lemma kyc_publish_simps [simp]:
  "ks_records (kyc_publish ev s) = ks_records s" "ks_overrides (kyc_publish ev s) = ks_overrides s"
  "kyc_operators (kyc_publish ev s) = kyc_operators s" "next_override (kyc_publish ev s) = next_override s"
  "get_timelock_duration (kyc_publish ev s) = get_timelock_duration s"
  "get_pending_expiry_duration (kyc_publish ev s) = get_pending_expiry_duration s"
  "kyc_ok (t, kyc_publish ev s) = kyc_ok (t, s)"
  by (simp_all add: kyc_publish_def kyc_operators_def next_override_def get_timelock_duration_def
      get_pending_expiry_duration_def kyc_ok_def)

lemma save_record_simps [simp]:
  "ks_records (save_record u r s) = (ks_records s)(u \<mapsto> r)" "ks_overrides (save_record u r s) = ks_overrides s"
  "kyc_operators (save_record u r s) = kyc_operators s" "next_override (save_record u r s) = next_override s"
  "get_timelock_duration (save_record u r s) = get_timelock_duration s"
  "get_pending_expiry_duration (save_record u r s) = get_pending_expiry_duration s"
  by (simp_all add: save_record_def kyc_operators_def next_override_def get_timelock_duration_def
      get_pending_expiry_duration_def)

lemma kyc_fields [simp]:
  "kyc_operators (s\<lparr>ks_operators := Some ops\<rparr>) = ops" "kyc_operators (s\<lparr>ks_timelock := x\<rparr>) = kyc_operators s"
  "kyc_operators (s\<lparr>ks_expiry := x\<rparr>) = kyc_operators s" "kyc_operators (s\<lparr>ks_overrides := o'\<rparr>) = kyc_operators s"
  "kyc_operators (s\<lparr>ks_counter := x\<rparr>) = kyc_operators s"
  "next_override (s\<lparr>ks_counter := Some n\<rparr>) = n" "next_override (s\<lparr>ks_operators := p\<rparr>) = next_override s"
  "next_override (s\<lparr>ks_timelock := x\<rparr>) = next_override s" "next_override (s\<lparr>ks_expiry := x\<rparr>) = next_override s"
  "next_override (s\<lparr>ks_overrides := o'\<rparr>) = next_override s"
  "get_timelock_duration (s\<lparr>ks_timelock := Some n\<rparr>) = n"
  "get_timelock_duration (s\<lparr>ks_operators := p\<rparr>) = get_timelock_duration s"
  "get_timelock_duration (s\<lparr>ks_expiry := x\<rparr>) = get_timelock_duration s"
  "get_timelock_duration (s\<lparr>ks_overrides := o'\<rparr>) = get_timelock_duration s"
  "get_timelock_duration (s\<lparr>ks_counter := x\<rparr>) = get_timelock_duration s"
  "get_pending_expiry_duration (s\<lparr>ks_expiry := Some n\<rparr>) = n"
  "get_pending_expiry_duration (s\<lparr>ks_operators := p\<rparr>) = get_pending_expiry_duration s"
  "get_pending_expiry_duration (s\<lparr>ks_timelock := x\<rparr>) = get_pending_expiry_duration s"
  "get_pending_expiry_duration (s\<lparr>ks_overrides := o'\<rparr>) = get_pending_expiry_duration s"
  "get_pending_expiry_duration (s\<lparr>ks_counter := x\<rparr>) = get_pending_expiry_duration s"
  by (simp_all add: kyc_operators_def next_override_def get_timelock_duration_def get_pending_expiry_duration_def)

lemma kyc_ok_mono: "kyc_ok (t, s) \<Longrightarrow> t \<le> t' \<Longrightarrow> kyc_ok (t', s)"
  using record_ok_mono override_ok_mono by (fastforce simp: kyc_ok_def)

lemma kyc_ok_save:
  assumes "kyc_ok (t, s)" and "record_ok t r"
  shows "kyc_ok (t, save_record u r s)"
  using assms by (auto simp: kyc_ok_def)

lemma kyc_exec_keeps:
  assumes "kyc_ok (t, s)" and "t \<le> now e" and call: "kyc_exec e k s c = Inr s'"
  shows "kyc_ok (now e, s')"
proof -
  have ok: "kyc_ok (now e, s)" by (rule kyc_ok_mono [OF assms(1,2)])
  have rec: "record_ok (now e) (get_record e s u)" for u by (rule kyc_ok_record [OF assms(1,2)])
  show ?thesis
  proof (cases c)
    case (AddOperator a op)
    with call ok show ?thesis
      by (auto simp: kyc_add_operator_iff kyc_ok_def)
  next
    case (RemoveOperator a op)
    with call ok show ?thesis
      by (auto simp: kyc_remove_operator_iff kyc_ok_def intro: le_trans [OF length_filter_le])
  next
    case (UpdateStatus op u st reason)
    with call have g: "\<not> is_finalized (get_record e s u)"
      and s': "s' = kyc_publish (StatusUpdated op u st (now e)) (save_record u (decided e op (get_record e s u) st reason) s)"
      by (auto simp: update_status_iff)
    have "record_ok (now e) (decided e op (get_record e s u) st reason)"
      using g rec [of u] by (auto simp: record_ok_def decided_def is_finalized_def is_terminal_def)
    with ok show ?thesis by (simp add: s' kyc_ok_save)
  next
    case (SubmitKyc u)
    with call rec [of u] ok show ?thesis
      by (auto simp: submit_kyc_iff record_ok_def is_terminal_def intro!: kyc_ok_save)
  next
    case (ResubmitKyc u)
    with call rec [of u] ok show ?thesis
      by (auto simp: resubmit_kyc_iff record_ok_def is_terminal_def intro!: kyc_ok_save)
  next
    case (SetTimelock a d)
    with call ok show ?thesis
      by (auto simp: set_timelock_duration_iff kyc_ok_def)
  next
    case (SetPendingExpiry a d)
    with call ok show ?thesis
      by (auto simp: set_pending_expiry_duration_iff kyc_ok_def)
  next
    case (ProposeOverride a u st reason)
    with call obtain i where "propose_override e k s a u st reason = Inr (i, s')" by (auto simp: res_simps)
    with ok show ?thesis
      by (auto simp: propose_override_iff kyc_ok_def override_ok_def split: if_splits intro: less_SucI)
  next
    case (ExecuteOverride a i)
    with call obtain ov where ov: "ks_overrides s i = Some ov"
      and s': "s' = kyc_publish (OverrideExecuted a i (go_user ov) (now e))
            ((save_record (go_user ov) (overridden e a (get_record e s (go_user ov)) ov) s)
             \<lparr>ks_overrides := (ks_overrides s)(i \<mapsto> ov\<lparr>go_executed := True\<rparr>)\<rparr>)"
      by (auto simp: execute_override_iff)
    let ?s = "save_record (go_user ov) (overridden e a (get_record e s (go_user ov)) ov) s"
    have "kyc_ok (now e, ?s)"
      by (rule kyc_ok_save [OF ok]) (simp add: record_ok_def overridden_def)
    with kyc_ok_override [OF ok ov] show ?thesis
      by (auto simp: s' kyc_ok_def override_ok_def)
  qed
qed

interpretation kyc_machine: machine_invariant kyc_deployed kyc_step kyc_ok
proof
  show "kyc_deployed ts \<Longrightarrow> kyc_ok ts" for ts
    by (cases ts) (simp add: kyc_deployed_def kyc_ok_def kyc_store0_def kyc_operators_def get_timelock_duration_def
        get_pending_expiry_duration_def DEFAULT_TIMELOCK_DURATION_def MIN_TIMELOCK_DURATION_def
        DEFAULT_PENDING_EXPIRY_DURATION_def MIN_PENDING_EXPIRY_DURATION_def)
  show "kyc_ok ts \<Longrightarrow> kyc_step ts ts' \<Longrightarrow> kyc_ok ts'" for ts ts'
    by (erule kyc_step.cases) (auto intro: kyc_exec_keeps)
qed

end
