(* ===== verification/Kyc_Props.thy ===== *)
theory Kyc_Props
  imports Kyc_Inv
begin

text \<open>
  The properties of the KYC system: well-formed records, the lifecycle of a user's status as a
  refinement of an abstract machine, final decisions, overrides, and the requests that get stuck.
\<close>

section \<open>Runs for the witnesses\<close>

text \<open>
  Address 9 is the admin. User 1 submits at time 100; the admin reviews and verifies at 200 and 300, and
  proposes to reopen at 400.
\<close>

definition demo_k1 :: kyc_store where
  "demo_k1 = kyc_publish (KycSubmitted (Addr 1) (Some 2592100)) (save_record (Addr 1)
     \<lparr>kr_status = Pending, kr_updated_at = 100, kr_finalized_at = None, kr_updated_by = None,
      kr_rejection_reason = None, kr_expires_at = Some 2592100\<rparr> kyc_store0)"

definition demo_k2 :: kyc_store where
  "demo_k2 = kyc_publish (StatusUpdated (Addr 9) (Addr 1) InReview 200) (save_record (Addr 1)
     \<lparr>kr_status = InReview, kr_updated_at = 200, kr_finalized_at = None, kr_updated_by = Some (Addr 9),
      kr_rejection_reason = None, kr_expires_at = None\<rparr> demo_k1)"

definition demo_k3 :: kyc_store where
  "demo_k3 = kyc_publish (StatusUpdated (Addr 9) (Addr 1) Verified 300) (save_record (Addr 1)
     \<lparr>kr_status = Verified, kr_updated_at = 300, kr_finalized_at = Some 300, kr_updated_by = Some (Addr 9),
      kr_rejection_reason = None, kr_expires_at = None\<rparr> demo_k2)"

definition demo_k4 :: kyc_store where
  "demo_k4 = kyc_publish (OverrideProposed (Addr 9) 0 (Addr 1) Unverified 400) (demo_k3\<lparr>ks_overrides :=
     (ks_overrides demo_k3)(0 \<mapsto> \<lparr>go_user = Addr 1, go_new_status = Unverified, go_proposed_at = 400,
        go_executable_at = 605200, go_proposer = Addr 9, go_reason = ''appeal'', go_executed = False\<rparr>),
     ks_counter := Some 1\<rparr>)"

lemma demo_kyc_records:
  "ks_records kyc_store0 = Map.empty" "ks_overrides kyc_store0 = Map.empty"
  "get_pending_expiry_duration kyc_store0 = 2592000"
  "get_timelock_duration kyc_store0 = 604800" "next_override kyc_store0 = 0" "kyc_operators kyc_store0 = []"
  by (simp_all add: kyc_store0_def get_pending_expiry_duration_def get_timelock_duration_def next_override_def
      kyc_operators_def DEFAULT_PENDING_EXPIRY_DURATION_def DEFAULT_TIMELOCK_DURATION_def)

lemma demo_kyc_calls:
  "submit_kyc (demo_env 1 100) kyc_store0 (Addr 1) = Inr demo_k1"
  "update_status (demo_env 9 200) (Some (Addr 9)) demo_k1 (Addr 9) (Addr 1) InReview None = Inr demo_k2"
  "update_status (demo_env 9 300) (Some (Addr 9)) demo_k2 (Addr 9) (Addr 1) Verified None = Inr demo_k3"
  "propose_override (demo_env 9 400) (Some (Addr 9)) demo_k3 (Addr 9) (Addr 1) Unverified ''appeal'' = Inr (0, demo_k4)"
proof -
  show "submit_kyc (demo_env 1 100) kyc_store0 (Addr 1) = Inr demo_k1"
    by (simp add: submit_kyc_iff demo_env_def get_record_def demo_kyc_records new_record_def demo_k1_def)
  show "update_status (demo_env 9 200) (Some (Addr 9)) demo_k1 (Addr 9) (Addr 1) InReview None = Inr demo_k2"
    by (simp add: update_status_iff demo_env_def get_record_def is_operator_def demo_k1_def demo_k2_def
        is_finalized_def is_expired_def decided_def is_terminal_def)
  show "update_status (demo_env 9 300) (Some (Addr 9)) demo_k2 (Addr 9) (Addr 1) Verified None = Inr demo_k3"
    by (simp add: update_status_iff demo_env_def get_record_def is_operator_def demo_k2_def demo_k3_def
        is_finalized_def is_expired_def decided_def is_terminal_def)
  show "propose_override (demo_env 9 400) (Some (Addr 9)) demo_k3 (Addr 9) (Addr 1) Unverified ''appeal'' = Inr (0, demo_k4)"
    unfolding propose_override_iff
    by (simp add: demo_env_def get_record_def demo_k3_def demo_k2_def demo_k1_def demo_k4_def is_finalized_def
        demo_kyc_records)
qed

lemma demo_env_now: "now (demo_env a t) = t"
  by (simp add: demo_env_def)

lemma kyc_step_at: "kyc_exec e k s c = Inr s' \<Longrightarrow> t \<le> now e \<Longrightarrow> now e = t' \<Longrightarrow> kyc_step (t, s) (t', s')"
  by (blast intro: kyc_step_call)

lemma demo_kyc_run:
  "reachable kyc_deployed kyc_step (100, demo_k1)" "reachable kyc_deployed kyc_step (300, demo_k3)"
  "reachable kyc_deployed kyc_step (400, demo_k4)"
proof -
  have "reachable kyc_deployed kyc_step (0, kyc_store0)" by (rule reach_init) (simp add: kyc_deployed_def)
  moreover have "kyc_step (0, kyc_store0) (100, demo_k1)"
    by (rule kyc_step_at [of "demo_env 1 100" None _ "SubmitKyc (Addr 1)"]) (simp_all add: demo_kyc_calls demo_env_now del: One_nat_def)
  ultimately show r1: "reachable kyc_deployed kyc_step (100, demo_k1)" by (rule reach_step)
  have "kyc_step (100, demo_k1) (200, demo_k2)"
    by (rule kyc_step_at [of "demo_env 9 200" "Some (Addr 9)" _ "UpdateStatus (Addr 9) (Addr 1) InReview None"])
      (simp_all add: demo_kyc_calls demo_env_now del: One_nat_def)
  with r1 have r2: "reachable kyc_deployed kyc_step (200, demo_k2)" by (rule reach_step)
  have "kyc_step (200, demo_k2) (300, demo_k3)"
    by (rule kyc_step_at [of "demo_env 9 300" "Some (Addr 9)" _ "UpdateStatus (Addr 9) (Addr 1) Verified None"])
      (simp_all add: demo_kyc_calls demo_env_now del: One_nat_def)
  with r2 show r3: "reachable kyc_deployed kyc_step (300, demo_k3)" by (rule reach_step)
  have "kyc_step (300, demo_k3) (400, demo_k4)"
    by (rule kyc_step_at [of "demo_env 9 400" "Some (Addr 9)" _ "ProposeOverride (Addr 9) (Addr 1) Unverified ''appeal''"])
      (simp_all add: demo_kyc_calls demo_env_now del: One_nat_def)
  with r3 show "reachable kyc_deployed kyc_step (400, demo_k4)" by (rule reach_step)
qed

section \<open>Well-formed records\<close>

text \<open>
  C24: the KYC store is well typed. In every reachable state a record has a finalization time exactly when its
  status is final, and then it is the time of the last update; a rejection reason appears with a rejection only;
  there are at most fifty operators, each once; and an override waits at least a day.
\<close>

theorem kyc_well_formed:
  assumes "reachable kyc_deployed kyc_step (t, s)"
  shows "(ks_records s u = Some r \<longrightarrow> (is_finalized r \<longleftrightarrow> is_terminal (kr_status r))
      \<and> (is_finalized r \<longrightarrow> kr_finalized_at r = Some (kr_updated_at r)) \<and> kr_updated_at r \<le> t
      \<and> (kr_rejection_reason r \<noteq> None \<longrightarrow> kr_status r = Rejected))
    \<and> length (kyc_operators s) \<le> 50 \<and> distinct (kyc_operators s)
    \<and> (ks_overrides s i = Some ov \<longrightarrow> go_proposed_at ov \<le> t \<and> go_proposed_at ov + 86400 \<le> go_executable_at ov)"
  using kyc_machine.inv_reachable [OF assms]
  by (fastforce simp: kyc_ok_def record_ok_def override_ok_def is_finalized_def MAX_OPERATORS_def MIN_TIMELOCK_DURATION_def
      split: if_splits)

text \<open>
  A second run: at 300 the admin rejects user 1 with a reason, at 400 proposes to reopen, and adds two
  operators at 500 and 600.
\<close>

definition demo_w1 :: kyc_store where
  "demo_w1 = kyc_publish (StatusUpdated (Addr 9) (Addr 1) Rejected 300) (save_record (Addr 1)
     \<lparr>kr_status = Rejected, kr_updated_at = 300, kr_finalized_at = Some 300, kr_updated_by = Some (Addr 9),
      kr_rejection_reason = Some ''forged'', kr_expires_at = None\<rparr> demo_k2)"

definition demo_w2 :: kyc_store where
  "demo_w2 = kyc_publish (OverrideProposed (Addr 9) 0 (Addr 1) Unverified 400) (demo_w1\<lparr>ks_overrides :=
     (ks_overrides demo_w1)(0 \<mapsto> \<lparr>go_user = Addr 1, go_new_status = Unverified, go_proposed_at = 400,
        go_executable_at = 605200, go_proposer = Addr 9, go_reason = ''appeal'', go_executed = False\<rparr>),
     ks_counter := Some 1\<rparr>)"

definition demo_w3 :: kyc_store where
  "demo_w3 = kyc_publish (OperatorAdded (Addr 9) (Addr 8) 500) (demo_w2\<lparr>ks_operators := Some [Addr 8]\<rparr>)"

definition demo_w4 :: kyc_store where
  "demo_w4 = kyc_publish (OperatorAdded (Addr 9) (Addr 7) 600) (demo_w3\<lparr>ks_operators := Some [Addr 8, Addr 7]\<rparr>)"

lemma demo_well_calls:
  "update_status (demo_env 9 300) (Some (Addr 9)) demo_k2 (Addr 9) (Addr 1) Rejected (Some ''forged'') = Inr demo_w1"
  "propose_override (demo_env 9 400) (Some (Addr 9)) demo_w1 (Addr 9) (Addr 1) Unverified ''appeal'' = Inr (0, demo_w2)"
  "add_operator (demo_env 9 500) (Some (Addr 9)) demo_w2 (Addr 9) (Addr 8) = Inr demo_w3"
  "add_operator (demo_env 9 600) (Some (Addr 9)) demo_w3 (Addr 9) (Addr 7) = Inr demo_w4"
proof -
  show "update_status (demo_env 9 300) (Some (Addr 9)) demo_k2 (Addr 9) (Addr 1) Rejected (Some ''forged'') = Inr demo_w1"
    by (simp add: update_status_iff demo_env_def get_record_def is_operator_def demo_k2_def demo_w1_def
        is_finalized_def is_expired_def decided_def is_terminal_def)
  show "propose_override (demo_env 9 400) (Some (Addr 9)) demo_w1 (Addr 9) (Addr 1) Unverified ''appeal'' = Inr (0, demo_w2)"
    unfolding propose_override_iff
    by (simp add: demo_env_def get_record_def demo_w2_def demo_w1_def demo_k2_def demo_k1_def is_finalized_def demo_kyc_records)
  have o: "kyc_operators demo_w2 = []" "kyc_operators demo_w3 = [Addr 8]"
    by (simp_all add: demo_w3_def demo_w2_def demo_w1_def demo_k2_def demo_k1_def demo_kyc_records)
  show "add_operator (demo_env 9 500) (Some (Addr 9)) demo_w2 (Addr 9) (Addr 8) = Inr demo_w3"
    "add_operator (demo_env 9 600) (Some (Addr 9)) demo_w3 (Addr 9) (Addr 7) = Inr demo_w4"
    unfolding kyc_add_operator_iff o by (simp_all add: demo_env_def MAX_OPERATORS_def demo_w3_def demo_w4_def)
qed

lemma demo_well_reachable: "reachable kyc_deployed kyc_step (600, demo_w4)"
proof -
  note now = demo_env_now
  have 1: "reachable kyc_deployed kyc_step (200, demo_k2)"
    by (rule reach_step [OF demo_kyc_run(1)], rule kyc_step_at [of "demo_env 9 200" "Some (Addr 9)" _ "UpdateStatus (Addr 9) (Addr 1) InReview None"])
      (simp_all add: demo_kyc_calls now del: One_nat_def)
  have 2: "reachable kyc_deployed kyc_step (300, demo_w1)"
    by (rule reach_step [OF 1], rule kyc_step_at [of "demo_env 9 300" "Some (Addr 9)" _ "UpdateStatus (Addr 9) (Addr 1) Rejected (Some ''forged'')"])
      (simp_all add: demo_well_calls now del: One_nat_def)
  have 3: "reachable kyc_deployed kyc_step (400, demo_w2)"
    by (rule reach_step [OF 2], rule kyc_step_at [of "demo_env 9 400" "Some (Addr 9)" _ "ProposeOverride (Addr 9) (Addr 1) Unverified ''appeal''"])
      (simp_all add: demo_well_calls now del: One_nat_def)
  have 4: "reachable kyc_deployed kyc_step (500, demo_w3)"
    by (rule reach_step [OF 3], rule kyc_step_at [of "demo_env 9 500" "Some (Addr 9)" _ "AddOperator (Addr 9) (Addr 8)"])
      (simp_all add: demo_well_calls now)
  show ?thesis
    by (rule reach_step [OF 4], rule kyc_step_at [of "demo_env 9 600" "Some (Addr 9)" _ "AddOperator (Addr 9) (Addr 7)"])
      (simp_all add: demo_well_calls now)
qed

theorem kyc_well_formed_witness:
  "\<exists>r ov. ks_records demo_w4 (Addr 1) = Some r \<and> kr_status r = Rejected \<and> kr_rejection_reason r = Some ''forged''
     \<and> is_finalized r \<and> kr_finalized_at r = Some (kr_updated_at r) \<and> kr_updated_at r \<le> 600
     \<and> kyc_operators demo_w4 = [Addr 8, Addr 7] \<and> length (kyc_operators demo_w4) \<le> 50 \<and> distinct (kyc_operators demo_w4)
     \<and> ks_overrides demo_w4 0 = Some ov \<and> go_proposed_at ov \<le> 600 \<and> go_proposed_at ov + 86400 \<le> go_executable_at ov"
proof -
  obtain r where r: "ks_records demo_w4 (Addr 1) = Some r" "kr_status r = Rejected" "kr_rejection_reason r = Some ''forged''"
    by (simp add: demo_w4_def demo_w3_def demo_w2_def demo_w1_def)
  obtain ov where ov: "ks_overrides demo_w4 0 = Some ov"
    by (simp add: demo_w4_def demo_w3_def demo_w2_def)
  have ops: "kyc_operators demo_w4 = [Addr 8, Addr 7]" by (simp add: demo_w4_def)
  from kyc_well_formed [OF demo_well_reachable, of "Addr 1" r 0 ov] r ov ops show ?thesis
    by (auto simp: is_terminal_def)
qed

section \<open>The lifecycle of a status\<close>

text \<open>A user without a record is unverified.\<close>

definition status_of :: "kyc_store \<Rightarrow> address \<Rightarrow> kyc_status" where
  "status_of s u = (case ks_records s u of None \<Rightarrow> Unverified | Some r \<Rightarrow> kr_status r)"

lemma status_of_get_record: "kr_status (get_record e s u) = status_of s u"
  by (simp add: status_of_def get_record_def new_record_def split: option.splits)

lemma status_of_simps [simp]:
  "status_of (kyc_publish ev s) u = status_of s u"
  "status_of (save_record v r s) u = (if u = v then kr_status r else status_of s u)"
  "status_of (s\<lparr>ks_operators := ops\<rparr>) u = status_of s u" "status_of (s\<lparr>ks_timelock := d\<rparr>) u = status_of s u"
  "status_of (s\<lparr>ks_expiry := d\<rparr>) u = status_of s u" "status_of (s\<lparr>ks_overrides := x\<rparr>) u = status_of s u"
  "status_of (s\<lparr>ks_counter := c\<rparr>) u = status_of s u"
  by (auto simp: status_of_def)

text \<open>
  The abstract machine: who moves a status from where to where. The user submits and answers, an
  operator other than the user reviews, and the admin overrides.
\<close>

datatype kyc_actor = TheUser | AnOperator | TheAdmin

inductive lifecycle :: "kyc_actor \<Rightarrow> kyc_status \<Rightarrow> kyc_status \<Rightarrow> bool" where
  lc_submit: "lifecycle TheUser Unverified Pending"
| lc_answer: "lifecycle TheUser AdditionalInfoRequired InReview"
| lc_register: "lifecycle AnOperator Unverified Pending"
| lc_review: "lifecycle AnOperator Pending InReview"
| lc_ask: "lifecycle AnOperator InReview AdditionalInfoRequired"
| lc_resume: "lifecycle AnOperator AdditionalInfoRequired InReview"
| lc_verify: "lifecycle AnOperator InReview Verified"
| lc_reject: "lifecycle AnOperator InReview Rejected"
| lc_override: "lifecycle TheAdmin a b"

lemma can_transition_lifecycle: "can_transition_to a b \<Longrightarrow> lifecycle AnOperator a b"
  by (cases "(a, b)" rule: can_transition_to.cases) (simp_all add: lifecycle.intros)

text \<open>Who acts in a call, and with what right.\<close>

fun acts :: "env \<Rightarrow> address option \<Rightarrow> kyc_store \<Rightarrow> address \<Rightarrow> kyc_call \<Rightarrow> kyc_actor \<Rightarrow> bool" where
  "acts e k s u (SubmitKyc v) TheUser = (v = u \<and> authorized e u)"
| "acts e k s u (ResubmitKyc v) TheUser = (v = u \<and> authorized e u)"
| "acts e k s u (UpdateStatus op v st reason) AnOperator =
     (v = u \<and> op \<noteq> u \<and> authorized e op \<and> (k = Some op \<or> op \<in> set (kyc_operators s)))"
| "acts e k s u (ExecuteOverride a i) TheAdmin = (k = Some a \<and> authorized e a \<and>
     (\<exists>ov. ks_overrides s i = Some ov \<and> go_user ov = u \<and> \<not> go_executed ov \<and> go_executable_at ov \<le> now e))"
| "acts e k s u _ _ = False"

text \<open>
  C19: the KYC system implements its lifecycle. Whatever successful call anyone makes, the status of every user
  stays or moves along an edge of the abstract machine, and the call is made by the actor of that edge: the user
  for submissions, an operator who authorised the call and is not the user for reviews and decisions, the admin
  with an unexecuted override of this user whose timelock has passed for everything else.
\<close>

theorem kyc_refines_lifecycle:
  assumes "kyc_exec e k s c = Inr s'"
  shows "status_of s' u = status_of s u
    \<or> (\<exists>actor. lifecycle actor (status_of s u) (status_of s' u) \<and> acts e k s u c actor)"
proof (cases c)
  case (UpdateStatus op v st reason)
  with assms show ?thesis
    by (auto simp: update_status_iff status_of_get_record is_operator_def decided_def
        intro!: exI [of _ AnOperator] can_transition_lifecycle)
next
  case (SubmitKyc v)
  with assms show ?thesis
    by (auto simp: submit_kyc_iff status_of_get_record intro!: exI [of _ TheUser] lc_submit)
next
  case (ResubmitKyc v)
  with assms show ?thesis
    by (auto simp: resubmit_kyc_iff status_of_get_record intro!: exI [of _ TheUser] lc_answer)
next
  case (ExecuteOverride a i)
  with assms show ?thesis
    by (auto simp: execute_override_iff overridden_def intro!: exI [of _ TheAdmin] lc_override split: if_splits)
qed (use assms in \<open>auto simp: kyc_add_operator_iff kyc_remove_operator_iff set_timelock_duration_iff
    set_pending_expiry_duration_iff propose_override_iff res_simps\<close>)

theorem kyc_refines_lifecycle_witness:
  "\<exists>actor. lifecycle actor (status_of demo_k2 (Addr 1)) (status_of demo_k3 (Addr 1))
     \<and> acts (demo_env 9 300) (Some (Addr 9)) demo_k2 (Addr 1) (UpdateStatus (Addr 9) (Addr 1) Verified None) actor"
proof -
  have "kyc_exec (demo_env 9 300) (Some (Addr 9)) demo_k2 (UpdateStatus (Addr 9) (Addr 1) Verified None) = Inr demo_k3"
    by (simp only: kyc_exec.simps demo_kyc_calls)
  from kyc_refines_lifecycle [OF this, of "Addr 1"] show ?thesis
    by (auto simp: demo_k3_def demo_k2_def)
qed

section \<open>Final decisions\<close>

text \<open>
  C7: a final decision changes only by an override. In every reachable state, when a call changes the record
  of a user who is verified or rejected, it executes an override for this user: made by the admin, proposed at least a
  day before, not executed before; and the record gets the proposed status. The override is then spent.
\<close>

theorem final_decision_needs_override:
  assumes "reachable kyc_deployed kyc_step (t, s)" and "t \<le> now e" and call: "kyc_exec e k s c = Inr s'"
    and rec: "ks_records s u = Some r" and final: "is_terminal (kr_status r)" and change: "ks_records s' u \<noteq> Some r"
  shows "\<exists>a i ov. c = ExecuteOverride a i \<and> k = Some a \<and> authorized e a \<and> ks_overrides s i = Some ov
    \<and> go_user ov = u \<and> \<not> go_executed ov \<and> go_proposed_at ov + 86400 \<le> now e
    \<and> status_of s' u = go_new_status ov \<and> ks_overrides s' i = Some (ov\<lparr>go_executed := True\<rparr>)"
proof -
  have ok: "kyc_ok (t, s)" by (rule kyc_machine.inv_reachable [OF assms(1)])
  then have "record_ok t r" using rec by (simp add: kyc_ok_def)
  then have fin: "is_finalized (get_record e s u)" using final rec by (simp add: finalized_iff_terminal get_record_def)
  have st: "kr_status (get_record e s u) = kr_status r" using rec by (simp add: get_record_def)
  show ?thesis
  proof (cases c)
    case (ExecuteOverride a i)
    with call obtain ov where ov: "ks_overrides s i = Some ov" "\<not> go_executed ov" "go_executable_at ov \<le> now e"
        "authorized e a" "k = Some a"
      and s': "s' = kyc_publish (OverrideExecuted a i (go_user ov) (now e))
            ((save_record (go_user ov) (overridden e a (get_record e s (go_user ov)) ov) s)
             \<lparr>ks_overrides := (ks_overrides s)(i \<mapsto> ov\<lparr>go_executed := True\<rparr>)\<rparr>)"
      by (auto simp: execute_override_iff)
    have "go_user ov = u" using change rec s' by (auto split: if_splits)
    moreover have "go_proposed_at ov + 86400 \<le> now e"
      using kyc_ok_override [OF ok ov(1)] ov(3) by (simp add: override_ok_def MIN_TIMELOCK_DURATION_def)
    ultimately show ?thesis using ov ExecuteOverride by (auto simp: s' overridden_def)
  next
    case (UpdateStatus op v st' reason)
    with call fin change rec show ?thesis by (auto simp: update_status_iff split: if_splits)
  next
    case (SubmitKyc v)
    with call st final change rec show ?thesis by (auto simp: submit_kyc_iff is_terminal_def split: if_splits)
  next
    case (ResubmitKyc v)
    with call st final change rec show ?thesis by (auto simp: resubmit_kyc_iff is_terminal_def split: if_splits)
  qed (use call change rec in \<open>auto simp: kyc_add_operator_iff kyc_remove_operator_iff set_timelock_duration_iff
      set_pending_expiry_duration_iff propose_override_iff res_simps split: if_splits\<close>)
qed

lemma demo_kyc_override:
  "\<exists>s'. execute_override (demo_env 9 605200) (Some (Addr 9)) demo_k4 (Addr 9) 0 = Inr s' \<and> status_of s' (Addr 1) = Unverified"
  by (simp add: execute_override_iff demo_k4_def demo_env_def overridden_def)

theorem final_decision_needs_override_witness:
  "\<exists>s'. execute_override (demo_env 9 605200) (Some (Addr 9)) demo_k4 (Addr 9) 0 = Inr s'
     \<and> (\<exists>ov. ks_overrides s' 0 = Some ov \<and> go_executed ov)"
proof -
  obtain s' where s': "kyc_exec (demo_env 9 605200) (Some (Addr 9)) demo_k4 (ExecuteOverride (Addr 9) 0) = Inr s'"
    and st: "status_of s' (Addr 1) = Unverified" using demo_kyc_override by auto
  have r: "\<exists>r. ks_records demo_k4 (Addr 1) = Some r \<and> kr_status r = Verified"
    by (simp add: demo_k4_def demo_k3_def)
  then obtain r where r: "ks_records demo_k4 (Addr 1) = Some r" "kr_status r = Verified" by blast
  have "ks_records s' (Addr 1) \<noteq> Some r" using st r by (auto simp: status_of_def)
  from final_decision_needs_override [OF demo_kyc_run(3) _ s' r(1) _ this] r(2) s'
  show ?thesis by (auto simp: demo_env_now is_terminal_def)
qed

section \<open>Stuck requests\<close>

text \<open>The user's request has expired and no override for the user is left.\<close>

definition stuck :: "address \<Rightarrow> kyc_record \<Rightarrow> nat \<times> kyc_store \<Rightarrow> bool" where
  "stuck u r ts \<longleftrightarrow> (let (t, s) = ts in ks_records s u = Some r \<and> kr_status r = Pending \<and> is_expired r t
     \<and> (\<forall>i ov. ks_overrides s i = Some ov \<longrightarrow> go_user ov = u \<longrightarrow> go_executed ov))"

lemma is_expired_mono: "is_expired r t \<Longrightarrow> t \<le> t' \<Longrightarrow> is_expired r t'"
  by (simp add: is_expired_def split: option.splits)

lemma stuck_step:
  assumes ok: "kyc_ok (t, s)" and st: "stuck u r (t, s)" and le: "t \<le> now e" and call: "kyc_exec e k s c = Inr s'"
  shows "stuck u r (now e, s')"
proof -
  have rec: "ks_records s u = Some r" "kr_status r = Pending" and ex: "is_expired r (now e)"
    and ov: "\<And>i ov. ks_overrides s i = Some ov \<Longrightarrow> go_user ov = u \<Longrightarrow> go_executed ov"
    using st le is_expired_mono by (auto simp: stuck_def)
  have "record_ok t r" using ok rec by (simp add: kyc_ok_def)
  then have fin: "\<not> is_finalized r" using rec by (simp add: finalized_iff_terminal is_terminal_def)
  have g: "get_record e s u = r" using rec by (simp add: get_record_def)
  show ?thesis
  proof (cases c)
    case (UpdateStatus op v st' reason)
    with call g rec ex have "v \<noteq> u" by (auto simp: update_status_iff)
    with call UpdateStatus rec ex ov show ?thesis by (auto simp: update_status_iff stuck_def)
  next
    case (SubmitKyc v)
    with call g rec have "v \<noteq> u" by (auto simp: submit_kyc_iff)
    with call SubmitKyc rec ex ov show ?thesis by (auto simp: submit_kyc_iff stuck_def)
  next
    case (ResubmitKyc v)
    with call g rec have "v \<noteq> u" by (auto simp: resubmit_kyc_iff)
    with call ResubmitKyc rec ex ov show ?thesis by (auto simp: resubmit_kyc_iff stuck_def)
  next
    case (ProposeOverride a v st' reason)
    with call obtain i where p: "propose_override e k s a v st' reason = Inr (i, s')" by (auto simp: res_simps)
    with g fin have "v \<noteq> u" by (auto simp: propose_override_iff)
    with p rec ex ov show ?thesis by (auto simp: propose_override_iff stuck_def)
  next
    case (ExecuteOverride a i)
    with call obtain w where w: "ks_overrides s i = Some w" "\<not> go_executed w"
      and s': "s' = kyc_publish (OverrideExecuted a i (go_user w) (now e))
            ((save_record (go_user w) (overridden e a (get_record e s (go_user w)) w) s)
             \<lparr>ks_overrides := (ks_overrides s)(i \<mapsto> w\<lparr>go_executed := True\<rparr>)\<rparr>)"
      by (auto simp: execute_override_iff)
    have "go_user w \<noteq> u" using ov w by blast
    with rec ex ov show ?thesis by (auto simp: s' stuck_def)
  qed (use call rec ex ov in \<open>auto simp: kyc_add_operator_iff kyc_remove_operator_iff set_timelock_duration_iff
      set_pending_expiry_duration_iff stuck_def split: if_splits\<close>)
qed

text \<open>
  An expired request locks the user out for good. In every reachable state, when a user's request is
  pending and has expired and no override for the user is waiting, then whatever anyone, operators and admin included,
  calls from then on, the record stays exactly as it is: it cannot be reviewed because it has expired,
  not submitted again because it is not unverified, and not overridden because it is not final.
\<close>

theorem expired_request_stuck:
  assumes "reachable kyc_deployed kyc_step (t, s)" and "ks_records s u = Some r" and "kr_status r = Pending"
    and "is_expired r t" and "\<And>i ov. ks_overrides s i = Some ov \<Longrightarrow> go_user ov = u \<Longrightarrow> go_executed ov"
    and "kyc_step\<^sup>*\<^sup>* (t, s) (t', s')"
  shows "ks_records s' u = Some r \<and> \<not> is_verified e s' u"
proof -
  have ok: "kyc_ok (t, s)" by (rule kyc_machine.inv_reachable [OF assms(1)])
  have keep: "stuck u r b" if "kyc_ok a" "kyc_step a b" "stuck u r a" for a b
    using that(2,1,3) by cases (metis stuck_step)
  have "stuck u r (t, s)" using assms(2-5) by (simp add: stuck_def)
  from kyc_machine.stable_rtranclp [of "stuck u r", OF _ assms(6) ok this] keep have "stuck u r (t', s')" by blast
  then show ?thesis using assms(3) by (auto simp: stuck_def is_verified_def get_record_def)
qed

text \<open>A month later an operator is added, twice.\<close>

definition demo_k5 :: kyc_store where
  "demo_k5 = kyc_publish (OperatorAdded (Addr 9) (Addr 8) 2592100) (demo_k1\<lparr>ks_operators := Some [Addr 8]\<rparr>)"

definition demo_k6 :: kyc_store where
  "demo_k6 = kyc_publish (OperatorAdded (Addr 9) (Addr 7) 2592200) (demo_k5\<lparr>ks_operators := Some [Addr 8, Addr 7]\<rparr>)"

lemma demo_kyc_late: "kyc_step (100, demo_k1) (2592100, demo_k5)" "kyc_step (2592100, demo_k5) (2592200, demo_k6)"
proof -
  have o: "kyc_operators demo_k1 = []" "kyc_operators demo_k5 = [Addr 8]"
    by (simp_all add: demo_k1_def demo_k5_def demo_kyc_records)
  have a: "add_operator (demo_env 9 2592100) (Some (Addr 9)) demo_k1 (Addr 9) (Addr 8) = Inr demo_k5"
    "add_operator (demo_env 9 2592200) (Some (Addr 9)) demo_k5 (Addr 9) (Addr 7) = Inr demo_k6"
    unfolding kyc_add_operator_iff o by (simp_all add: demo_env_def MAX_OPERATORS_def demo_k5_def demo_k6_def)
  show "kyc_step (100, demo_k1) (2592100, demo_k5)"
    by (rule kyc_step_at [of "demo_env 9 2592100" "Some (Addr 9)" _ "AddOperator (Addr 9) (Addr 8)"])
      (simp_all add: a demo_env_now)
  show "kyc_step (2592100, demo_k5) (2592200, demo_k6)"
    by (rule kyc_step_at [of "demo_env 9 2592200" "Some (Addr 9)" _ "AddOperator (Addr 9) (Addr 7)"])
      (simp_all add: a demo_env_now)
qed

theorem expired_request_stuck_witness:
  "\<exists>r. ks_records demo_k6 (Addr 1) = Some r \<and> kr_status r = Pending \<and> \<not> is_verified (demo_env 1 2592200) demo_k6 (Addr 1)"
proof -
  have reach: "reachable kyc_deployed kyc_step (2592100, demo_k5)"
    by (rule reach_step [OF demo_kyc_run(1) demo_kyc_late(1)])
  obtain r where r: "ks_records demo_k5 (Addr 1) = Some r" "kr_status r = Pending" "is_expired r 2592100"
    by (simp add: demo_k5_def demo_k1_def is_expired_def)
  have none: "ks_overrides demo_k5 i = None" for i
    by (simp add: demo_k5_def demo_k1_def demo_kyc_records)
  from expired_request_stuck [OF reach r _ r_into_rtranclp [of kyc_step, OF demo_kyc_late(2)], of "demo_env 1 2592200"]
  show ?thesis using r(2) none by auto
qed

section \<open>Overrides that wait\<close>

text \<open>
  A waiting override applies to whatever the user's status has become. Once its timelock has passed, the admin of
  that moment can execute it; the user gets the proposed status, also when the decision it was proposed against has
  been overridden before, so a user can become verified from any status without review; other users and
  the other overrides stay, and it can never be executed again.
\<close>

theorem override_applies_late:
  assumes "ks_overrides s i = Some ov" and "\<not> go_executed ov" and "go_executable_at ov \<le> now e" and "authorized e a"
  shows "\<exists>s'. execute_override e (Some a) s a i = Inr s' \<and> status_of s' (go_user ov) = go_new_status ov
    \<and> (\<forall>u. u \<noteq> go_user ov \<longrightarrow> ks_records s' u = ks_records s u)
    \<and> (\<forall>j. j \<noteq> i \<longrightarrow> ks_overrides s' j = ks_overrides s j)
    \<and> (\<forall>e' k a'. \<exists>f. execute_override e' k s' a' i = Inl f)"
proof -
  let ?s = "kyc_publish (OverrideExecuted a i (go_user ov) (now e))
     ((save_record (go_user ov) (overridden e a (get_record e s (go_user ov)) ov) s)
        \<lparr>ks_overrides := (ks_overrides s)(i \<mapsto> ov\<lparr>go_executed := True\<rparr>)\<rparr>)"
  have "execute_override e (Some a) s a i = Inr ?s" using assms by (simp add: execute_override_iff)
  moreover have "execute_override e' k ?s a' i \<noteq> Inr x" for e' k a' x by (simp add: execute_override_iff)
  ultimately show ?thesis
    by (intro exI [of _ ?s] conjI) (auto simp: overridden_def intro: not_Inr_Inl)
qed

theorem override_applies_late_witness:
  "\<exists>s'. execute_override (demo_env 9 605200) (Some (Addr 9)) demo_k4 (Addr 9) 0 = Inr s' \<and> status_of s' (Addr 1) = Unverified"
  using override_applies_late [of demo_k4 0 _ "demo_env 9 605200" "Addr 9"]
  by (fastforce simp: demo_k4_def demo_env_def)

end
