(* ===== verification/Counter_Entry.thy ===== *)
theory Counter_Entry
  imports Pool_Registry_Props Kyc_Props
begin

text \<open>
  Entry points of the counter contract (\<open>counter/src/lib.rs\<close>) that bring the modules together:
  administration (admin, pause switch, treasury), the KYC calls, and the pool operations behind the pause
  switch and the KYC check.
\<close>

section \<open>The storage\<close>

datatype admin_event =
    AdminChanged address address nat
  | AdminPaused address nat
  | AdminResumed address nat
  | FeeParamsUpdated nat nat "address option" nat

record counter_store =
  cs_admin :: "address option"
  cs_paused :: "bool option"
  cs_treasury :: "address option"
  cs_kyc :: kyc_store
  cs_pools :: "pool_host option"
  cs_events :: "admin_event list"

definition counter_store0 :: counter_store where
  "counter_store0 = \<lparr>cs_admin = None, cs_paused = None, cs_treasury = None, cs_kyc = kyc_store0,
     cs_pools = None, cs_events = []\<rparr>"

definition load_pool_registry :: "counter_store \<Rightarrow> pool_host" where
  "load_pool_registry s = (case cs_pools s of None \<Rightarrow> new_registry | Some h \<Rightarrow> h)"

definition save_pool_registry :: "counter_store \<Rightarrow> pool_host \<Rightarrow> counter_store" where
  "save_pool_registry s h = s\<lparr>cs_pools := Some h\<rparr>"

definition admin_publish :: "admin_event \<Rightarrow> counter_store \<Rightarrow> counter_store" where
  "admin_publish ev s = s\<lparr>cs_events := cs_events s @ [ev]\<rparr>"

section \<open>Administration\<close>

definition require_verified_user :: "env \<Rightarrow> counter_store \<Rightarrow> address \<Rightarrow> (unit, counter_error) res" where
  "require_verified_user e s user = require_verified e (cs_kyc s) user"

definition require_not_paused :: "counter_store \<Rightarrow> (unit, counter_error) res" where
  "require_not_paused s = ensure (\<not> (case cs_paused s of None \<Rightarrow> False | Some p \<Rightarrow> p)) (Err TradingPaused)"

definition set_admin :: "env \<Rightarrow> counter_store \<Rightarrow> address \<Rightarrow> address \<Rightarrow> (counter_store, counter_error) res" where
  "set_admin e s caller new_admin =
     bindR (require_auth e caller) (\<lambda>_.
     bindR (require_admin (cs_admin s) caller) (\<lambda>_.
     bindR (ok_or (cs_admin s) Trap) (\<lambda>old_admin.
     Inr (admin_publish (AdminChanged old_admin new_admin (now e)) (s\<lparr>cs_admin := Some new_admin\<rparr>)))))"

definition pause_trading :: "env \<Rightarrow> counter_store \<Rightarrow> address \<Rightarrow> (counter_store, counter_error) res" where
  "pause_trading e s caller =
     bindR (require_auth e caller) (\<lambda>_.
     bindR (require_admin (cs_admin s) caller) (\<lambda>_.
     Inr (admin_publish (AdminPaused caller (now e)) (s\<lparr>cs_paused := Some True\<rparr>))))"

definition resume_trading :: "env \<Rightarrow> counter_store \<Rightarrow> address \<Rightarrow> (counter_store, counter_error) res" where
  "resume_trading e s caller =
     bindR (require_auth e caller) (\<lambda>_.
     bindR (require_admin (cs_admin s) caller) (\<lambda>_.
     Inr (admin_publish (AdminResumed caller (now e)) (s\<lparr>cs_paused := Some False\<rparr>))))"

definition set_treasury :: "env \<Rightarrow> counter_store \<Rightarrow> address \<Rightarrow> address \<Rightarrow> (counter_store, counter_error) res" where
  "set_treasury e s caller new_treasury =
     bindR (require_auth e caller) (\<lambda>_.
     bindR (require_admin (cs_admin s) caller) (\<lambda>_.
     Inr (admin_publish (FeeParamsUpdated 0 0 (Some new_treasury) (now e)) (s\<lparr>cs_treasury := Some new_treasury\<rparr>))))"

section \<open>Pools\<close>

definition cc_register_pool :: "env \<Rightarrow> counter_store \<Rightarrow> address \<Rightarrow> symbol \<Rightarrow> symbol \<Rightarrow> int \<Rightarrow> int \<Rightarrow> nat
    \<Rightarrow> (nat \<times> counter_store, counter_error) res" where
  "cc_register_pool e s admin token_a token_b initial_a initial_b fee_tier =
     (let registry = load_pool_registry s in
      bindR (register_pool e registry admin token_a token_b initial_a initial_b fee_tier) (\<lambda>(pool_id, registry').
      Inr (pool_id, save_pool_registry s registry')))"

definition pool_add_liquidity :: "env \<Rightarrow> counter_store \<Rightarrow> nat \<Rightarrow> int \<Rightarrow> int \<Rightarrow> address
    \<Rightarrow> (int \<times> counter_store, counter_error) res" where
  "pool_add_liquidity e s pool_id amount_a amount_b provider =
     bindR (require_not_paused s) (\<lambda>_.
     bindR (require_auth e provider) (\<lambda>_.
     bindR (require_verified_user e s provider) (\<lambda>_.
     let registry = load_pool_registry s in
     bindR (add_liquidity registry pool_id amount_a amount_b provider) (\<lambda>(lp_tokens, registry').
     Inr (lp_tokens, save_pool_registry s
       (pool_publish (LiquidityAdded provider pool_id amount_a amount_b lp_tokens (now e)) registry'))))))"

definition pool_remove_liquidity :: "env \<Rightarrow> counter_store \<Rightarrow> nat \<Rightarrow> int \<Rightarrow> address
    \<Rightarrow> ((int \<times> int) \<times> counter_store, counter_error) res" where
  "pool_remove_liquidity e s pool_id lp_tokens provider =
     bindR (require_not_paused s) (\<lambda>_.
     bindR (require_auth e provider) (\<lambda>_.
     bindR (require_verified_user e s provider) (\<lambda>_.
     let registry = load_pool_registry s in
     bindR (remove_liquidity e registry pool_id lp_tokens provider) (\<lambda>((amount_a, amount_b), registry').
     Inr ((amount_a, amount_b), save_pool_registry s
       (pool_publish (LiquidityRemoved provider pool_id amount_a amount_b lp_tokens (now e)) registry'))))))"

definition pool_swap :: "env \<Rightarrow> counter_store \<Rightarrow> nat \<Rightarrow> symbol \<Rightarrow> int \<Rightarrow> int \<Rightarrow> address
    \<Rightarrow> (int \<times> counter_store, counter_error) res" where
  "pool_swap e s pool_id token_in amount_in min_amount_out trader =
     bindR (require_not_paused s) (\<lambda>_.
     bindR (require_auth e trader) (\<lambda>_.
     bindR (require_verified_user e s trader) (\<lambda>_.
     let registry = load_pool_registry s in
     bindR (registry_swap e registry pool_id token_in amount_in min_amount_out) (\<lambda>(result, registry').
     Inr (result, save_pool_registry s registry')))))"

definition cc_find_best_route :: "counter_store \<Rightarrow> symbol \<Rightarrow> symbol \<Rightarrow> int \<Rightarrow> nat \<Rightarrow> (route option, counter_error) res" where
  "cc_find_best_route s token_in token_out amount_in max_hops =
     find_best_route (load_pool_registry s) token_in token_out amount_in max_hops"

definition cc_set_max_hops :: "env \<Rightarrow> counter_store \<Rightarrow> address \<Rightarrow> nat \<Rightarrow> (counter_store, counter_error) res" where
  "cc_set_max_hops e s caller max_hops =
     bindR (require_auth e caller) (\<lambda>_.
     bindR (require_admin (cs_admin s) caller) (\<lambda>_.
     Inr (save_pool_registry s (set_max_hops max_hops (load_pool_registry s)))))"

text \<open>
  Three functions of \<open>lib.rs\<close> stand outside the contract's \<open>impl\<close> block and are no entry points.
\<close>

definition update_pool_fee_tier :: "env \<Rightarrow> counter_store \<Rightarrow> address \<Rightarrow> nat \<Rightarrow> nat \<Rightarrow> (counter_store, counter_error) res" where
  "update_pool_fee_tier e s caller pool_id new_fee_tier =
     bindR (require_auth e caller) (\<lambda>_.
     bindR (update_fee_tier e (cs_admin s) (load_pool_registry s) pool_id new_fee_tier caller) (\<lambda>registry'.
     Inr (save_pool_registry s registry')))"

definition claim_pool_fees :: "env \<Rightarrow> counter_store \<Rightarrow> address \<Rightarrow> nat
    \<Rightarrow> ((int \<times> int) \<times> counter_store, counter_error) res" where
  "claim_pool_fees e s caller pool_id =
     bindR (require_auth e caller) (\<lambda>_.
     bindR (claim_fees e (load_pool_registry s) pool_id caller) (\<lambda>(fees, registry').
     Inr (fees, save_pool_registry s registry')))"

definition cc_withdraw_treasury_fees :: "env \<Rightarrow> counter_store \<Rightarrow> address \<Rightarrow> nat
    \<Rightarrow> ((int \<times> int) \<times> counter_store, counter_error) res" where
  "cc_withdraw_treasury_fees e s caller pool_id =
     bindR (require_auth e caller) (\<lambda>_.
     bindR (ok_or (cs_treasury s) (Err InvalidAddress)) (\<lambda>treasury.
     bindR (ensure (caller = treasury) (Err NotAuthorized)) (\<lambda>_.
     bindR (withdraw_treasury_fees e (load_pool_registry s) pool_id caller) (\<lambda>(fees, registry').
     Inr (fees, save_pool_registry s registry')))))"

section \<open>Calls\<close>

datatype counter_call =
    SetAdmin address address
  | PauseTrading address
  | ResumeTrading address
  | SetTreasury address address
  | KycCall kyc_call
  | RegisterPoolEntry address symbol symbol int int nat
  | PoolAdd nat int int address
  | PoolRemove nat int address
  | PoolSwap nat symbol int int address
  | SetMaxHopsEntry address nat
  | UpdatePoolFeeTier address nat nat
  | ClaimPoolFees address nat
  | WithdrawTreasury address nat

fun counter_exec :: "env \<Rightarrow> counter_store \<Rightarrow> counter_call \<Rightarrow> (counter_store, counter_error) res" where
  "counter_exec e s (SetAdmin c n) = set_admin e s c n"
| "counter_exec e s (PauseTrading c) = pause_trading e s c"
| "counter_exec e s (ResumeTrading c) = resume_trading e s c"
| "counter_exec e s (SetTreasury c t) = set_treasury e s c t"
| "counter_exec e s (KycCall c) = bindR (kyc_exec e (cs_admin s) (cs_kyc s) c) (\<lambda>k. Inr (s\<lparr>cs_kyc := k\<rparr>))"
| "counter_exec e s (RegisterPoolEntry a x y ix iy t) = bindR (cc_register_pool e s a x y ix iy t) (\<lambda>(_, s'). Inr s')"
| "counter_exec e s (PoolAdd i a b p) = bindR (pool_add_liquidity e s i a b p) (\<lambda>(_, s'). Inr s')"
| "counter_exec e s (PoolRemove i l p) = bindR (pool_remove_liquidity e s i l p) (\<lambda>(_, s'). Inr s')"
| "counter_exec e s (PoolSwap i t a m p) = bindR (pool_swap e s i t a m p) (\<lambda>(_, s'). Inr s')"
| "counter_exec e s (SetMaxHopsEntry c n) = cc_set_max_hops e s c n"
| "counter_exec e s (UpdatePoolFeeTier c i t) = update_pool_fee_tier e s c i t"
| "counter_exec e s (ClaimPoolFees c i) = bindR (claim_pool_fees e s c i) (\<lambda>(_, s'). Inr s')"
| "counter_exec e s (WithdrawTreasury c i) = bindR (cc_withdraw_treasury_fees e s c i) (\<lambda>(_, s'). Inr s')"

end
