(* ===== verification/Counter_Entry_Props.thy ===== *)
theory Counter_Entry_Props
  imports Counter_Entry
begin

text \<open>
  The entry points together: every call keeps the invariants of the KYC system and of the pools, the pause
  switch freezes the pools, and LP balances move with their verified holders only.
\<close>

section \<open>Runs\<close>

text \<open>Amounts are \<open>i128\<close> values.\<close>

fun counter_args_ok :: "counter_call \<Rightarrow> bool" where
  "counter_args_ok (RegisterPoolEntry a x y ix iy t) = (i128_ok ix \<and> i128_ok iy)"
| "counter_args_ok (PoolAdd i a b p) = (i128_ok a \<and> i128_ok b)"
| "counter_args_ok (PoolRemove i l p) = i128_ok l"
| "counter_args_ok (PoolSwap i t a m p) = i128_ok a"
| "counter_args_ok _ = True"

inductive counter_step :: "nat \<times> counter_store \<Rightarrow> nat \<times> counter_store \<Rightarrow> bool" where
  counter_step_call: "t \<le> now e \<Longrightarrow> counter_args_ok c \<Longrightarrow> counter_exec e s c = Inr s' \<Longrightarrow> counter_step (t, s) (now e, s')"

text \<open>Any address may be the admin from the start.\<close>

definition counter_deployed :: "nat \<times> counter_store \<Rightarrow> bool" where
  "counter_deployed ts \<longleftrightarrow> (\<exists>admin. snd ts = counter_store0\<lparr>cs_admin := admin\<rparr>)"

definition counter_ok :: "nat \<times> counter_store \<Rightarrow> bool" where
  "counter_ok ts \<longleftrightarrow> kyc_ok (fst ts, cs_kyc (snd ts)) \<and> registry_ok (load_pool_registry (snd ts))"

lemma load_save [simp]:
  "load_pool_registry (save_pool_registry s h) = h" "cs_kyc (save_pool_registry s h) = cs_kyc s"
  "load_pool_registry (admin_publish ev s) = load_pool_registry s" "cs_kyc (admin_publish ev s) = cs_kyc s"
  "load_pool_registry (s\<lparr>cs_kyc := k\<rparr>) = load_pool_registry s"
  "load_pool_registry (s\<lparr>cs_admin := a\<rparr>) = load_pool_registry s"
  "load_pool_registry (s\<lparr>cs_paused := p\<rparr>) = load_pool_registry s"
  "load_pool_registry (s\<lparr>cs_treasury := a\<rparr>) = load_pool_registry s"
  by (simp_all add: load_pool_registry_def save_pool_registry_def admin_publish_def)

lemma registry_ok_pool_publish [simp]: "registry_ok (pool_publish ev h) = registry_ok h"
  by (simp add: pool_publish_def)

lemma registry_ok_max_hops [simp]: "registry_ok (set_max_hops n h) = registry_ok h"
  by (simp add: set_max_hops_def)

text \<open>
  What an entry does to the registry: nothing, or one registry call (with an event after it) for which the guards
  of the entry held.
\<close>

definition unpaused :: "counter_store \<Rightarrow> bool" where
  "unpaused s \<longleftrightarrow> cs_paused s \<noteq> Some True"

lemma require_not_paused_eq_Inr [res_simps]: "require_not_paused s = Inr u \<longleftrightarrow> unpaused s"
  by (auto simp: require_not_paused_def unpaused_def res_simps split: option.splits)

lemma require_verified_user_eq_Inr [res_simps]:
  "require_verified_user e s who = Inr u \<longleftrightarrow> is_verified e (cs_kyc s) who"
  by (simp add: require_verified_user_def require_verified_def)

lemma pool_add_liquidity_iff:
  "pool_add_liquidity e s i a b who = Inr (lp, s') \<longleftrightarrow> unpaused s \<and> authorized e who
    \<and> is_verified e (cs_kyc s) who \<and> (\<exists>h. add_liquidity (load_pool_registry s) i a b who = Inr (lp, h)
      \<and> s' = save_pool_registry s (pool_publish (LiquidityAdded who i a b lp (now e)) h))"
  unfolding pool_add_liquidity_def by (auto simp: res_simps Let_def)

lemma pool_remove_liquidity_iff:
  "pool_remove_liquidity e s i lp who = Inr ((x, y), s') \<longleftrightarrow> unpaused s \<and> authorized e who
    \<and> is_verified e (cs_kyc s) who \<and> (\<exists>h. remove_liquidity e (load_pool_registry s) i lp who = Inr ((x, y), h)
      \<and> s' = save_pool_registry s (pool_publish (LiquidityRemoved who i x y lp (now e)) h))"
  unfolding pool_remove_liquidity_def by (auto simp: res_simps Let_def)

lemma pool_swap_iff:
  "pool_swap e s i token x m who = Inr (out, s') \<longleftrightarrow> unpaused s \<and> authorized e who
    \<and> is_verified e (cs_kyc s) who \<and> (\<exists>h. registry_swap e (load_pool_registry s) i token x m = Inr (out, h)
      \<and> s' = save_pool_registry s h)"
  unfolding pool_swap_def by (auto simp: res_simps Let_def)

lemma counter_exec_keeps:
  assumes ok: "counter_ok (t, s)" and le: "t \<le> now e" and fit: "counter_args_ok c" and call: "counter_exec e s c = Inr s'"
  shows "counter_ok (now e, s')"
proof -
  have k: "kyc_ok (now e, cs_kyc s)" and r: "registry_ok (load_pool_registry s)"
    using ok kyc_ok_mono [OF _ le] by (auto simp: counter_ok_def)
  show ?thesis
  proof (cases c)
    case (KycCall kc)
    with call kyc_exec_keeps [OF _ le] ok r show ?thesis by (auto simp: counter_ok_def res_simps)
  next
    case (RegisterPoolEntry a x y ix iy f)
    with call fit register_pool_keeps [OF r] k show ?thesis
      by (auto simp: counter_ok_def cc_register_pool_def res_simps Let_def)
  next
    case (PoolAdd i a b p)
    with call fit add_liquidity_keeps [OF r] k show ?thesis
      by (auto simp: counter_ok_def pool_add_liquidity_iff bindR_eq_Inr)
  next
    case (PoolRemove i l p)
    with call fit remove_liquidity_keeps [OF r] k show ?thesis
      by (auto simp: counter_ok_def pool_remove_liquidity_iff bindR_eq_Inr)
  next
    case (PoolSwap i tk a m p)
    with call fit registry_swap_keeps [OF r] k show ?thesis
      by (auto simp: counter_ok_def pool_swap_iff bindR_eq_Inr)
  next
    case (UpdatePoolFeeTier a i f)
    with call update_fee_tier_keeps [OF r] k show ?thesis
      by (auto simp: counter_ok_def update_pool_fee_tier_def res_simps)
  next
    case (ClaimPoolFees a i)
    with call claim_fees_same [OF r] k r show ?thesis
      by (fastforce simp: counter_ok_def claim_pool_fees_def bindR_eq_Inr)
  next
    case (WithdrawTreasury a i)
    with call withdraw_treasury_fees_keeps [OF r] k show ?thesis
      by (auto simp: counter_ok_def cc_withdraw_treasury_fees_def res_simps)
  qed (use call k r in \<open>auto simp: counter_ok_def set_admin_def pause_trading_def resume_trading_def set_treasury_def
      cc_set_max_hops_def res_simps\<close>)
qed

interpretation counter_machine: machine_invariant counter_deployed counter_step counter_ok
proof
  show "counter_deployed ts \<Longrightarrow> counter_ok ts" for ts
    using kyc_machine.inv_init [of "(fst ts, kyc_store0)"] new_registry_ok
    by (auto simp: counter_deployed_def counter_ok_def counter_store0_def load_pool_registry_def kyc_deployed_def)
  show "counter_ok ts \<Longrightarrow> counter_step ts ts' \<Longrightarrow> counter_ok ts'" for ts ts'
    by (erule counter_step.cases) (auto intro: counter_exec_keeps)
qed

section \<open>What an entry may do to the pools\<close>

text \<open>Calls that leave reserves and LP balances as they are.\<close>

definition same_holdings :: "pool_host \<Rightarrow> pool_host \<Rightarrow> bool" where
  "same_holdings h h' \<longleftrightarrow> pr_lp h' = pr_lp h \<and> (\<forall>i p. pr_pools h i = Some p \<longrightarrow> (\<exists>q. pr_pools h' i = Some q
     \<and> lp_reserve_a q = lp_reserve_a p \<and> lp_reserve_b q = lp_reserve_b p \<and> lp_total q = lp_total p))"

lemma same_holdings_refl [simp]: "same_holdings h h"
  by (simp add: same_holdings_def)

lemma same_holdings_event [simp]: "same_holdings h (h'\<lparr>ph_events := evs\<rparr>) = same_holdings h h'"
  "same_holdings h (set_max_hops n h') = same_holdings h h'"
  by (simp_all add: same_holdings_def set_max_hops_def)

lemma same_holdings_set_pool:
  "pr_pools h i = Some p \<Longrightarrow> lp_reserve_a q = lp_reserve_a p \<Longrightarrow> lp_reserve_b q = lp_reserve_b p
    \<Longrightarrow> lp_total q = lp_total p \<Longrightarrow> same_holdings h (set_pool i q h)"
  by (simp add: same_holdings_def)

lemma register_pool_holdings:
  assumes ok: "registry_ok h" and call: "register_pool e h a x y ix iy f = Inr (i, h')" and fit: "i128_ok ix" "i128_ok iy"
  shows "same_holdings h h'"
proof -
  obtain p where i: "i = pr_next h" and h': "pr_pools h' = (pr_pools h)(i \<mapsto> p)" "pr_lp h' = pr_lp h"
    using register_pool_effect [OF call fit] by auto
  have "pr_pools h i = None" using registry_ok_pool(3) [OF ok, of i] i by fastforce
  with h' show ?thesis by (auto simp: same_holdings_def)
qed

text \<open>Every successful entry leaves all holdings alone or is one of the three gated pool operations.\<close>

lemma counter_exec_holdings:
  assumes ok: "registry_ok (load_pool_registry s)" and fit: "counter_args_ok c" and call: "counter_exec e s c = Inr s'"
  shows "same_holdings (load_pool_registry s) (load_pool_registry s')
    \<or> (unpaused s \<and> (\<exists>who. authorized e who \<and> is_verified e (cs_kyc s) who
        \<and> ((\<exists>i a b. c = PoolAdd i a b who) \<or> (\<exists>i lp. c = PoolRemove i lp who) \<or> (\<exists>i tk x m. c = PoolSwap i tk x m who))))"
proof (cases c)
  case (RegisterPoolEntry a x y ix iy f)
  with call fit register_pool_holdings [OF ok] show ?thesis
    by (auto simp: cc_register_pool_def res_simps Let_def)
next
  case (PoolAdd i a b p)
  with call show ?thesis by (auto simp: pool_add_liquidity_iff bindR_eq_Inr)
next
  case (PoolRemove i l p)
  with call show ?thesis by (auto simp: pool_remove_liquidity_iff bindR_eq_Inr)
next
  case (PoolSwap i tk a m p)
  with call show ?thesis by (auto simp: pool_swap_iff bindR_eq_Inr)
next
  case (UpdatePoolFeeTier a i f)
  with call obtain h where u: "update_fee_tier e (cs_admin s) (load_pool_registry s) i f a = Inr h" and s': "load_pool_registry s' = h"
    by (auto simp: update_pool_fee_tier_def res_simps)
  obtain p where p: "pr_pools (load_pool_registry s) i = Some p"
    and h: "h = (set_pool i (p\<lparr>lp_fee_tier := f\<rparr>) (load_pool_registry s))\<lparr>ph_events := ph_events h\<rparr>"
    using update_fee_tier_effect [OF u] by blast
  have "same_holdings (load_pool_registry s) h" by (subst h) (simp add: same_holdings_set_pool [OF p])
  with s' show ?thesis by simp
next
  case (ClaimPoolFees a i)
  with call claim_fees_same [OF ok] have "load_pool_registry s' = load_pool_registry s"
    by (fastforce simp: claim_pool_fees_def bindR_eq_Inr)
  then show ?thesis by simp
next
  case (WithdrawTreasury a i)
  with call obtain fees h where u: "withdraw_treasury_fees e (load_pool_registry s) i a = Inr (fees, h)" and s': "load_pool_registry s' = h"
    by (auto simp: cc_withdraw_treasury_fees_def res_simps)
  obtain p where p: "pr_pools (load_pool_registry s) i = Some p"
    and h: "h = (set_pool i (p\<lparr>lp_fees_a := 0, lp_fees_b := 0\<rparr>) (load_pool_registry s))\<lparr>ph_events := ph_events h\<rparr>"
    using withdraw_treasury_fees_effect [OF u] by blast
  have "same_holdings (load_pool_registry s) h" by (subst h) (simp add: same_holdings_set_pool [OF p])
  with s' show ?thesis by simp
qed (use call in \<open>auto simp: set_admin_def pause_trading_def resume_trading_def set_treasury_def cc_set_max_hops_def res_simps\<close>)

section \<open>The pause switch\<close>

text \<open>
  The pause switch freezes the pools. While trading is paused, depositing, withdrawing and swapping fail with
  TradingPaused for every caller and every argument, before anything else is checked; and in every reachable
  paused state any call that succeeds leaves the reserves and the supply of every pool and all LP balances as they are.
\<close>

theorem paused_pools_frozen:
  assumes "reachable counter_deployed counter_step (t, s)" and "cs_paused s = Some True"
  shows "pool_add_liquidity e s i a b who = Inl (Err TradingPaused)
    \<and> pool_remove_liquidity e s i lp who = Inl (Err TradingPaused)
    \<and> pool_swap e s i token x m who = Inl (Err TradingPaused)
    \<and> (counter_exec e s c = Inr s' \<longrightarrow> counter_args_ok c \<longrightarrow>
      pr_lp (load_pool_registry s') = pr_lp (load_pool_registry s)
      \<and> (\<forall>j p. pr_pools (load_pool_registry s) j = Some p \<longrightarrow> (\<exists>q. pr_pools (load_pool_registry s') j = Some q
          \<and> lp_reserve_a q = lp_reserve_a p \<and> lp_reserve_b q = lp_reserve_b p \<and> lp_total q = lp_total p)))"
proof -
  have err: "pool_add_liquidity e s i a b who = Inl (Err TradingPaused)"
    "pool_remove_liquidity e s i lp who = Inl (Err TradingPaused)"
    "pool_swap e s i token x m who = Inl (Err TradingPaused)"
    using assms(2) by (simp_all add: pool_add_liquidity_def pool_remove_liquidity_def pool_swap_def require_not_paused_def)
  have "registry_ok (load_pool_registry s)"
    using counter_machine.inv_reachable [OF assms(1)] by (simp add: counter_ok_def)
  from counter_exec_holdings [OF this, of c e s'] assms(2) have "counter_exec e s c = Inr s' \<longrightarrow> counter_args_ok c \<longrightarrow>
      pr_lp (load_pool_registry s') = pr_lp (load_pool_registry s)
      \<and> (\<forall>j p. pr_pools (load_pool_registry s) j = Some p \<longrightarrow> (\<exists>q. pr_pools (load_pool_registry s') j = Some q
          \<and> lp_reserve_a q = lp_reserve_a p \<and> lp_reserve_b q = lp_reserve_b p \<and> lp_total q = lp_total p))"
    by (auto simp: unpaused_def same_holdings_def)
  with err show ?thesis by blast
qed

definition demo_c0 :: counter_store where
  "demo_c0 = counter_store0\<lparr>cs_admin := Some (Addr 9)\<rparr>"

lemma demo_c0_reachable: "reachable counter_deployed counter_step (0, demo_c0)"
  by (rule reach_init) (auto simp: counter_deployed_def demo_c0_def)

lemma counter_step_at: "counter_exec e s c = Inr s' \<Longrightarrow> counter_args_ok c \<Longrightarrow> t \<le> now e \<Longrightarrow> now e = t' \<Longrightarrow>
    counter_step (t, s) (t', s')"
  by (blast intro: counter_step_call)

theorem paused_pools_frozen_witness:
  "\<exists>s. pause_trading (demo_env 9 50) demo_c0 (Addr 9) = Inr s
     \<and> pool_swap (demo_env 1 60) s 1 ''XLM'' 10 0 (Addr 1) = Inl (Err TradingPaused)"
proof -
  obtain s where s: "pause_trading (demo_env 9 50) demo_c0 (Addr 9) = Inr s" and p: "cs_paused s = Some True"
    by (simp add: pause_trading_def demo_env_def demo_c0_def require_auth_def require_admin_def admin_publish_def)
  have "counter_step (0, demo_c0) (50, s)"
    by (rule counter_step_at [of "demo_env 9 50" _ "PauseTrading (Addr 9)"]) (simp_all add: s demo_env_now)
  from paused_pools_frozen [OF reach_step [OF demo_c0_reachable this] p] s show ?thesis by blast
qed

section \<open>LP balances\<close>

text \<open>
  C8: nobody touches another's LP tokens. In every reachable state, a successful call that changes what an
  account holds in a pool is a deposit or a withdrawal in that pool by this account: the account
  authorised it, was verified by the KYC system, and trading was not paused.
\<close>

theorem lp_tokens_protected:
  assumes reach: "reachable counter_deployed counter_step (t, s)" and fit: "counter_args_ok c"
    and call: "counter_exec e s c = Inr s'"
    and change: "get_lp_balance (load_pool_registry s') i who \<noteq> get_lp_balance (load_pool_registry s) i who"
  shows "authorized e who \<and> is_verified e (cs_kyc s) who \<and> cs_paused s \<noteq> Some True
    \<and> ((\<exists>a b. c = PoolAdd i a b who) \<or> (\<exists>lp. c = PoolRemove i lp who))"
proof -
  have ok: "registry_ok (load_pool_registry s)"
    using counter_machine.inv_reachable [OF reach] by (simp add: counter_ok_def)
  have "\<not> same_holdings (load_pool_registry s) (load_pool_registry s')"
    using change by (auto simp: same_holdings_def get_lp_balance_def)
  then obtain w where w: "unpaused s" "authorized e w" "is_verified e (cs_kyc s) w"
    and c: "(\<exists>j a b. c = PoolAdd j a b w) \<or> (\<exists>j lp. c = PoolRemove j lp w) \<or> (\<exists>j tk x m. c = PoolSwap j tk x m w)"
    using counter_exec_holdings [OF ok fit call] by blast
  from c consider (add) j a b where "c = PoolAdd j a b w" | (rem) j lp where "c = PoolRemove j lp w"
    | (swap) j tk x m where "c = PoolSwap j tk x m w" by blast
  then show ?thesis
  proof cases
    case add
    with call obtain lp h where a: "add_liquidity (load_pool_registry s) j a b w = Inr (lp, h)"
      and s': "s' = save_pool_registry s (pool_publish (LiquidityAdded w j a b lp (now e)) h)"
      by (auto simp: pool_add_liquidity_iff bindR_eq_Inr)
    obtain p' v where "h = set_lp (j, w) v (set_pool j p' (load_pool_registry s))"
      using add_liquidity_effect [OF ok a] fit add by auto
    then have "j = i \<and> w = who" using change s' by (auto simp: get_lp_balance_def pool_publish_def split: if_splits)
    with w add show ?thesis by (auto simp: unpaused_def)
  next
    case rem
    with call obtain x y h where r: "remove_liquidity e (load_pool_registry s) j lp w = Inr ((x, y), h)"
      and s': "s' = save_pool_registry s (pool_publish (LiquidityRemoved w j x y lp (now e)) h)"
      by (auto simp: pool_remove_liquidity_iff bindR_eq_Inr)
    obtain p' v where "h = set_lp (j, w) v (set_pool j p' (load_pool_registry s))"
      using remove_liquidity_effect [OF ok r] fit rem by auto
    then have "j = i \<and> w = who" using change s' by (auto simp: get_lp_balance_def pool_publish_def split: if_splits)
    with w rem show ?thesis by (auto simp: unpaused_def)
  next
    case swap
    with call obtain out h where r: "registry_swap e (load_pool_registry s) j tk x m = Inr (out, h)"
      and s': "s' = save_pool_registry s h"
      by (auto simp: pool_swap_iff bindR_eq_Inr)
    have "h = (set_pool j (after_swap (the (pr_pools (load_pool_registry s) j)) tk x) (load_pool_registry s))\<lparr>ph_events := ph_events h\<rparr>"
      using registry_swap_effect [OF ok r] fit swap by auto
    then have "pr_lp h = pr_lp (load_pool_registry s)" by (metis pool_host.surjective pool_host.update_convs(1) pool_registry.select_convs(4) set_pool_simps(4))
    with change s' show ?thesis by (simp add: get_lp_balance_def)
  qed
qed

text \<open>User 1 is verified, a pool is registered, and the user deposits.\<close>

definition demo_c3 :: counter_store where
  "demo_c3 = demo_c0\<lparr>cs_kyc := demo_k3\<rparr>"

definition demo_c4 :: counter_store where
  "demo_c4 = save_pool_registry demo_c3 demo_pools"

lemma demo_counter_run: "reachable counter_deployed counter_step (350, demo_c4)"
proof -
  have s1: "counter_step (0, demo_c0) (100, demo_c0\<lparr>cs_kyc := demo_k1\<rparr>)"
    by (rule counter_step_at [of "demo_env 1 100" _ "KycCall (SubmitKyc (Addr 1))"])
      (simp_all add: demo_c0_def counter_store0_def demo_kyc_calls demo_env_now del: One_nat_def)
  have s2: "counter_step (100, demo_c0\<lparr>cs_kyc := demo_k1\<rparr>) (200, demo_c0\<lparr>cs_kyc := demo_k2\<rparr>)"
    by (rule counter_step_at [of "demo_env 9 200" _ "KycCall (UpdateStatus (Addr 9) (Addr 1) InReview None)"])
      (simp_all add: demo_c0_def counter_store0_def demo_kyc_calls demo_env_now del: One_nat_def)
  have s3: "counter_step (200, demo_c0\<lparr>cs_kyc := demo_k2\<rparr>) (300, demo_c3)"
    by (rule counter_step_at [of "demo_env 9 300" _ "KycCall (UpdateStatus (Addr 9) (Addr 1) Verified None)"])
      (simp_all add: demo_c0_def demo_c3_def counter_store0_def demo_kyc_calls demo_env_now del: One_nat_def)
  have l: "load_pool_registry demo_c3 = new_registry"
    by (simp add: demo_c3_def demo_c0_def counter_store0_def load_pool_registry_def)
  have reg: "register_pool (demo_env 7 350) new_registry (Addr 7) ''XLM'' ''USDC'' 4000000 1000000 30 = Inr (1, demo_pools)"
    using demo_register by (simp add: register_pool_def demo_env_def require_auth_def)
  have s4: "counter_step (300, demo_c3) (350, demo_c4)"
    by (rule counter_step_at [of "demo_env 7 350" _ "RegisterPoolEntry (Addr 7) ''XLM'' ''USDC'' 4000000 1000000 30"])
      (simp_all add: cc_register_pool_def l reg demo_c4_def demo_env_now i128_ok_def I128_MIN_def I128_MAX_def)
  show ?thesis
    by (rule reach_step [OF reach_step [OF reach_step [OF reach_step [OF demo_c0_reachable s1] s2] s3] s4])
qed

theorem lp_tokens_protected_witness:
  "\<exists>lp s'. pool_add_liquidity (demo_env 1 400) demo_c4 1 10000 40000 (Addr 1) = Inr (lp, s') \<and> lp = 20000
     \<and> is_verified (demo_env 1 400) (cs_kyc demo_c4) (Addr 1)"
proof -
  let ?c = "PoolAdd 1 10000 40000 (Addr 1)"
  obtain h where h: "add_liquidity demo_pools 1 10000 40000 (Addr 1) = Inr (20000, h)" "get_lp_balance h 1 (Addr 1) = 20000"
    using demo_add_for by blast
  have l: "load_pool_registry demo_c4 = demo_pools" by (simp add: demo_c4_def)
  have v: "unpaused demo_c4" "authorized (demo_env 1 400) (Addr 1)" "is_verified (demo_env 1 400) (cs_kyc demo_c4) (Addr 1)"
    by (simp_all add: demo_c4_def demo_c3_def demo_c0_def counter_store0_def unpaused_def demo_env_def is_verified_def
        get_record_def demo_k3_def save_pool_registry_def)
  obtain s' where a: "pool_add_liquidity (demo_env 1 400) demo_c4 1 10000 40000 (Addr 1) = Inr (20000, s')"
    and b: "get_lp_balance (load_pool_registry s') 1 (Addr 1) = 20000"
    using v h by (auto simp: pool_add_liquidity_iff l get_lp_balance_def pool_publish_def simp del: One_nat_def)
  have c: "counter_exec (demo_env 1 400) demo_c4 ?c = Inr s'" using a by simp
  have fit: "counter_args_ok ?c" by (simp add: i128_ok_def I128_MIN_def I128_MAX_def)
  have "get_lp_balance (load_pool_registry s') 1 (Addr 1) \<noteq> get_lp_balance (load_pool_registry demo_c4) 1 (Addr 1)"
    using b by (simp add: l get_lp_balance_def demo_pools_def)
  from lp_tokens_protected [OF demo_counter_run fit c this] a show ?thesis by blast
qed

end
