(* ===== verification/Farming.thy ===== *)
theory Farming
  imports Counter_Base
begin

text \<open>
  Yield farming in the counter contract (\<open>counter/src/farming.rs\<close>): LP tokens staked in a pool earn
  rewards through an accumulator per share, scaled by ten to the eighteenth. The module keeps
  amounts only; it moves no tokens.
\<close>

section \<open>Data\<close>

definition MIN_STAKE_AMOUNT :: int where
  "MIN_STAKE_AMOUNT = 100"

definition SCALE_FACTOR :: int where
  "SCALE_FACTOR = 1000000000000000000"

record pool_farm_state =
  pf_total_staked :: int
  pf_accumulator :: int
  pf_emission_rate :: int
  pf_last_update :: nat
  pf_distributed :: int

record user_farm_position =
  uf_staked :: int
  uf_pending :: int
  uf_debt :: int
  uf_staked_at :: nat
  uf_active :: bool

datatype farm_event =
    LPStaked address nat int nat
  | LPUnstaked address nat int nat
  | RewardClaimed address nat int nat
  | EmissionUpdated nat int int nat

text \<open>One field per kind of storage key (\<open>FarmingKey\<close>).\<close>

record farm_store =
  fs_pools :: "nat \<rightharpoonup> pool_farm_state"
  fs_positions :: "(nat \<times> address) \<rightharpoonup> user_farm_position"
  fs_admin :: "address option"
  fs_total_rewards :: "int option"
  fs_events :: "farm_event list"

definition farm_store0 :: farm_store where
  "farm_store0 = \<lparr>fs_pools = Map.empty, fs_positions = Map.empty, fs_admin = None, fs_total_rewards = None,
     fs_events = []\<rparr>"

definition farm_publish :: "farm_event \<Rightarrow> farm_store \<Rightarrow> farm_store" where
  "farm_publish ev s = s\<lparr>fs_events := fs_events s @ [ev]\<rparr>"

definition set_farm_pool :: "nat \<Rightarrow> pool_farm_state \<Rightarrow> farm_store \<Rightarrow> farm_store" where
  "set_farm_pool i p s = s\<lparr>fs_pools := (fs_pools s)(i \<mapsto> p)\<rparr>"

definition set_position :: "nat \<Rightarrow> address \<Rightarrow> user_farm_position \<Rightarrow> farm_store \<Rightarrow> farm_store" where
  "set_position i u pos s = s\<lparr>fs_positions := (fs_positions s)((i, u) \<mapsto> pos)\<rparr>"

definition fresh_pool :: "env \<Rightarrow> pool_farm_state" where
  "fresh_pool e = \<lparr>pf_total_staked = 0, pf_accumulator = 0, pf_emission_rate = 0, pf_last_update = now e,
     pf_distributed = 0\<rparr>"

definition fresh_position :: "env \<Rightarrow> user_farm_position" where
  "fresh_position e = \<lparr>uf_staked = 0, uf_pending = 0, uf_debt = 0, uf_staked_at = now e, uf_active = False\<rparr>"

definition pool_or_fresh :: "env \<Rightarrow> farm_store \<Rightarrow> nat \<Rightarrow> pool_farm_state" where
  "pool_or_fresh e s i = (case fs_pools s i of None \<Rightarrow> fresh_pool e | Some p \<Rightarrow> p)"

definition position_or_fresh :: "env \<Rightarrow> farm_store \<Rightarrow> nat \<Rightarrow> address \<Rightarrow> user_farm_position" where
  "position_or_fresh e s i u = (case fs_positions s (i, u) of None \<Rightarrow> fresh_position e | Some pos \<Rightarrow> pos)"

section \<open>Administration\<close>

definition farm_initialize :: "farm_store \<Rightarrow> address \<Rightarrow> farm_store" where
  "farm_initialize s admin = (case fs_admin s of None \<Rightarrow> s\<lparr>fs_admin := Some admin\<rparr> | Some _ \<Rightarrow> s)"

definition farm_get_admin :: "farm_store \<Rightarrow> (address, counter_error) res" where
  "farm_get_admin s = ok_or (fs_admin s) Trap"

section \<open>Accumulators\<close>

definition update_pool_accumulator :: "env \<Rightarrow> farm_store \<Rightarrow> nat \<Rightarrow> (farm_store, counter_error) res" where
  "update_pool_accumulator e s pool_id =
     (let pool = pool_or_fresh e s pool_id in
      if pf_total_staked pool = 0 \<or> pf_emission_rate pool = 0
      then Inr (set_farm_pool pool_id (pool\<lparr>pf_last_update := now e\<rparr>) s)
      else
        bindR (u_sub (now e) (pf_last_update pool)) (\<lambda>time_elapsed.
        if time_elapsed = 0 then Inr s
        else
          bindR (i_mul (int time_elapsed) (pf_emission_rate pool)) (\<lambda>new_rewards.
          bindR (i_mul new_rewards SCALE_FACTOR) (\<lambda>scaled.
          bindR (i_div scaled (pf_total_staked pool)) (\<lambda>increase.
          bindR (i_add (pf_accumulator pool) increase) (\<lambda>accumulator.
          bindR (i_add (pf_distributed pool) new_rewards) (\<lambda>distributed.
          let s1 = set_farm_pool pool_id (pool\<lparr>pf_accumulator := accumulator, pf_last_update := now e,
                     pf_distributed := distributed\<rparr>) s;
              global_total = (case fs_total_rewards s1 of None \<Rightarrow> 0 | Some t \<Rightarrow> t)
          in
          bindR (i_add global_total new_rewards) (\<lambda>new_total.
          Inr (s1\<lparr>fs_total_rewards := Some new_total\<rparr>)))))))))"

definition update_user_position :: "env \<Rightarrow> farm_store \<Rightarrow> nat \<Rightarrow> address \<Rightarrow> (farm_store, counter_error) res" where
  "update_user_position e s pool_id user =
     bindR (ok_or (fs_pools s pool_id) (Err LPPositionNotFound)) (\<lambda>pool.
     let pos = position_or_fresh e s pool_id user in
     bindR (if uf_staked pos > 0
            then bindR (i_sub (pf_accumulator pool) (uf_debt pos)) (\<lambda>gap.
                 bindR (i_mul gap (uf_staked pos)) (\<lambda>scaled.
                 bindR (i_div scaled SCALE_FACTOR) (\<lambda>accumulated_rewards.
                 i_add (uf_pending pos) accumulated_rewards)))
            else Inr (uf_pending pos)) (\<lambda>pending.
     Inr (set_position pool_id user (pos\<lparr>uf_pending := pending, uf_debt := pf_accumulator pool\<rparr>) s)))"

section \<open>Staking and claiming\<close>

definition stake_lp :: "env \<Rightarrow> farm_store \<Rightarrow> nat \<Rightarrow> int \<Rightarrow> address \<Rightarrow> (farm_store, counter_error) res" where
  "stake_lp e s pool_id amount user =
     bindR (require_auth e user) (\<lambda>_.
     bindR (ensure (\<not> amount < MIN_STAKE_AMOUNT) (Err InvalidAmount)) (\<lambda>_.
     bindR (update_pool_accumulator e s pool_id) (\<lambda>s1.
     bindR (update_user_position e s1 pool_id user) (\<lambda>s2.
     let pool = pool_or_fresh e s2 pool_id; pos = position_or_fresh e s2 pool_id user in
     bindR (i_add (pf_total_staked pool) amount) (\<lambda>total_staked.
     bindR (i_add (uf_staked pos) amount) (\<lambda>staked.
     let s3 = set_farm_pool pool_id (pool\<lparr>pf_total_staked := total_staked\<rparr>) s2;
         s4 = set_position pool_id user (pos\<lparr>uf_staked := staked, uf_active := True\<rparr>) s3
     in Inr (farm_publish (LPStaked user pool_id amount (now e)) s4)))))))"

definition unstake_lp :: "env \<Rightarrow> farm_store \<Rightarrow> nat \<Rightarrow> int \<Rightarrow> address \<Rightarrow> (farm_store, counter_error) res" where
  "unstake_lp e s pool_id amount user =
     bindR (require_auth e user) (\<lambda>_.
     bindR (ensure (\<not> amount \<le> 0) (Err InvalidAmount)) (\<lambda>_.
     bindR (update_pool_accumulator e s pool_id) (\<lambda>s1.
     bindR (update_user_position e s1 pool_id user) (\<lambda>s2.
     bindR (ok_or (fs_positions s2 (pool_id, user)) (Err LPPositionNotFound)) (\<lambda>pos.
     bindR (ensure (\<not> (\<not> uf_active pos \<or> uf_staked pos < amount)) (Err InsufficientLPTokens)) (\<lambda>_.
     bindR (ok_or (fs_pools s2 pool_id) (Err LPPositionNotFound)) (\<lambda>pool.
     bindR (i_sub (pf_total_staked pool) amount) (\<lambda>total_staked.
     bindR (i_sub (uf_staked pos) amount) (\<lambda>staked.
     let pos1 = pos\<lparr>uf_staked := staked\<rparr>;
         pos2 = (if uf_staked pos1 = 0 then pos1\<lparr>uf_active := False\<rparr> else pos1);
         s3 = set_farm_pool pool_id (pool\<lparr>pf_total_staked := total_staked\<rparr>) s2;
         s4 = set_position pool_id user pos2 s3
     in Inr (farm_publish (LPUnstaked user pool_id amount (now e)) s4))))))))))"

definition claim_farm_rewards :: "env \<Rightarrow> farm_store \<Rightarrow> nat \<Rightarrow> address \<Rightarrow> (int \<times> farm_store, counter_error) res" where
  "claim_farm_rewards e s pool_id user =
     bindR (require_auth e user) (\<lambda>_.
     bindR (update_pool_accumulator e s pool_id) (\<lambda>s1.
     bindR (update_user_position e s1 pool_id user) (\<lambda>s2.
     bindR (ok_or (fs_positions s2 (pool_id, user)) (Err LPPositionNotFound)) (\<lambda>pos.
     bindR (ensure (\<not> uf_pending pos \<le> 0) (Err NoClaimableBonuses)) (\<lambda>_.
     let claimed_amount = uf_pending pos;
         s3 = set_position pool_id user (pos\<lparr>uf_pending := 0\<rparr>) s2
     in Inr (claimed_amount, farm_publish (RewardClaimed user pool_id claimed_amount (now e)) s3))))))"

definition get_pending_farm_rewards :: "env \<Rightarrow> farm_store \<Rightarrow> nat \<Rightarrow> address \<Rightarrow> (int \<times> farm_store, counter_error) res" where
  "get_pending_farm_rewards e s pool_id user =
     bindR (update_pool_accumulator e s pool_id) (\<lambda>s1.
     bindR (update_user_position e s1 pool_id user) (\<lambda>s2.
     bindR (ok_or (fs_positions s2 (pool_id, user)) (Err LPPositionNotFound)) (\<lambda>pos.
     Inr (uf_pending pos, s2))))"

definition set_farm_emission_rate :: "env \<Rightarrow> farm_store \<Rightarrow> nat \<Rightarrow> int \<Rightarrow> address \<Rightarrow> (farm_store, counter_error) res" where
  "set_farm_emission_rate e s pool_id new_emission_rate admin =
     bindR (require_auth e admin) (\<lambda>_.
     bindR (farm_get_admin s) (\<lambda>current_admin.
     bindR (ensure (admin = current_admin) (Err NotAdmin)) (\<lambda>_.
     bindR (ensure (\<not> new_emission_rate < 0) (Err InvalidAmount)) (\<lambda>_.
     bindR (update_pool_accumulator e s pool_id) (\<lambda>s1.
     let pool = pool_or_fresh e s1 pool_id; old_rate = pf_emission_rate pool
     in Inr (farm_publish (EmissionUpdated pool_id old_rate new_emission_rate (now e))
          (set_farm_pool pool_id (pool\<lparr>pf_emission_rate := new_emission_rate\<rparr>) s1)))))))"

definition get_pool_state :: "env \<Rightarrow> farm_store \<Rightarrow> nat \<Rightarrow> (pool_farm_state \<times> farm_store, counter_error) res" where
  "get_pool_state e s pool_id =
     bindR (update_pool_accumulator e s pool_id) (\<lambda>s1.
     bindR (ok_or (fs_pools s1 pool_id) (Err LPPositionNotFound)) (\<lambda>pool. Inr (pool, s1)))"

end
