(* ===== verification/Farming_Inv.thy ===== *)
theory Farming_Inv
  imports Farming
begin

text \<open>
  The accounting invariant of farming: the stakes of a pool add up to its total, and what has been
  paid, is pending, and has accrued since each position was last settled never exceeds what the
  pool has distributed. Every call keeps it.
\<close>

section \<open>The invariant\<close>

definition stakers :: "farm_store \<Rightarrow> nat \<Rightarrow> address \<rightharpoonup> user_farm_position" where
  "stakers s i = (\<lambda>u. fs_positions s (i, u))"

lemma stakers_apply: "stakers s i u = fs_positions s (i, u)"
  by (simp add: stakers_def)

text \<open>What a pool has paid out, read off the events.\<close>

fun reward_of :: "nat \<Rightarrow> farm_event \<Rightarrow> int" where
  "reward_of i (RewardClaimed u j a t) = (if j = i then a else 0)"
| "reward_of i _ = 0"

definition paid :: "farm_store \<Rightarrow> nat \<Rightarrow> int" where
  "paid s i = sum_list (map (reward_of i) (fs_events s))"

definition accrued :: "int \<Rightarrow> user_farm_position \<Rightarrow> int" where
  "accrued acc pos = (acc - uf_debt pos) * uf_staked pos"

definition position_ok :: "pool_farm_state \<Rightarrow> user_farm_position \<Rightarrow> bool" where
  "position_ok p pos \<longleftrightarrow> 0 \<le> uf_staked pos \<and> 0 \<le> uf_pending pos \<and> uf_debt pos \<le> pf_accumulator p
     \<and> (uf_active pos \<longleftrightarrow> 0 < uf_staked pos)"

definition farm_pool_ok :: "farm_store \<Rightarrow> nat \<Rightarrow> pool_farm_state \<Rightarrow> bool" where
  "farm_pool_ok s i p \<longleftrightarrow> 0 \<le> pf_emission_rate p \<and> 0 \<le> pf_accumulator p
     \<and> pf_total_staked p = map_total uf_staked (stakers s i)
     \<and> SCALE_FACTOR * (paid s i + map_total uf_pending (stakers s i)) + map_total (accrued (pf_accumulator p)) (stakers s i)
       \<le> SCALE_FACTOR * pf_distributed p"

definition farm_ok :: "farm_store \<Rightarrow> bool" where
  "farm_ok s \<longleftrightarrow> finite (dom (fs_positions s))
     \<and> (\<forall>i p. fs_pools s i = Some p \<longrightarrow> farm_pool_ok s i p)
     \<and> (\<forall>i u pos. fs_positions s (i, u) = Some pos \<longrightarrow> (\<exists>p. fs_pools s i = Some p \<and> position_ok p pos))
     \<and> (\<forall>i. fs_pools s i = None \<longrightarrow> paid s i = 0)"

lemma farm_okI:
  assumes "finite (dom (fs_positions s))" and "\<And>i p. fs_pools s i = Some p \<Longrightarrow> farm_pool_ok s i p"
    and "\<And>i u pos. fs_positions s (i, u) = Some pos \<Longrightarrow> \<exists>p. fs_pools s i = Some p \<and> position_ok p pos"
    and "\<And>i. fs_pools s i = None \<Longrightarrow> paid s i = 0"
  shows "farm_ok s"
  using assms by (simp add: farm_ok_def)

lemma farm_okD:
  assumes "farm_ok s"
  shows "finite (dom (fs_positions s))" and "fs_pools s i = Some p \<Longrightarrow> farm_pool_ok s i p"
    and "fs_positions s (i, u) = Some pos \<Longrightarrow> \<exists>p. fs_pools s i = Some p \<and> position_ok p pos"
    and "fs_pools s i = None \<Longrightarrow> paid s i = 0"
  using assms by (simp_all add: farm_ok_def)

lemma farm_store0_ok: "farm_ok farm_store0"
  by (simp add: farm_ok_def farm_store0_def paid_def)

lemma stakers_finite: "farm_ok s \<Longrightarrow> finite (dom (stakers s i))"
  using finite_vimageI [OF farm_okD(1), of s "Pair i"] by (simp add: stakers_def dom_def vimage_def inj_on_def)

lemma stakers_none: "farm_ok s \<Longrightarrow> fs_pools s i = None \<Longrightarrow> stakers s i u = None"
  using farm_okD(3) [of s i u] by (cases "fs_positions s (i, u)") (auto simp: stakers_def)

lemma farm_ok_frame:
  assumes "fs_pools s' = fs_pools s" "fs_positions s' = fs_positions s" "\<And>i. paid s' i = paid s i"
  shows "farm_ok s' = farm_ok s"
  using assms by (simp add: farm_ok_def farm_pool_ok_def stakers_def)

lemma paid_simps [simp]:
  "paid (set_farm_pool i p s) j = paid s j" "paid (set_position i u pos s) j = paid s j"
  "paid (farm_publish ev s) j = paid s j + reward_of j ev"
  by (simp_all add: paid_def set_farm_pool_def set_position_def farm_publish_def)

lemma farm_fields [simp]:
  "fs_pools (set_farm_pool i p s) = (fs_pools s)(i \<mapsto> p)" "fs_positions (set_farm_pool i p s) = fs_positions s"
  "fs_pools (set_position i u pos s) = fs_pools s" "fs_positions (set_position i u pos s) = (fs_positions s)((i, u) \<mapsto> pos)"
  "fs_pools (farm_publish ev s) = fs_pools s" "fs_positions (farm_publish ev s) = fs_positions s"
  "fs_admin (set_farm_pool i p s) = fs_admin s" "fs_admin (set_position i u pos s) = fs_admin s"
  "fs_admin (farm_publish ev s) = fs_admin s"
  by (simp_all add: set_farm_pool_def set_position_def farm_publish_def)

text \<open>A pool that was never touched is like a fresh one.\<close>

lemma pool_or_fresh_ok:
  assumes "farm_ok s"
  shows "farm_pool_ok s i (pool_or_fresh e s i)"
proof (cases "fs_pools s i")
  case None
  then show ?thesis
    using stakers_none [OF assms None] farm_okD(4) [OF assms None]
    by (simp add: pool_or_fresh_def fresh_pool_def farm_pool_ok_def map_total_none)
next
  case (Some p)
  with farm_okD(2) [OF assms] show ?thesis by (simp add: pool_or_fresh_def)
qed

section \<open>The accumulator moves\<close>

lemma farm_ok_accumulate:
  assumes ok: "farm_ok s" and p: "p = pool_or_fresh e s i"
    and same: "pf_total_staked p' = pf_total_staked p" "0 \<le> pf_emission_rate p'"
    and acc: "pf_accumulator p' = pf_accumulator p + inc" "0 \<le> inc"
    and dist: "pf_distributed p' = pf_distributed p + new" "inc * pf_total_staked p \<le> new * SCALE_FACTOR"
    and s': "fs_pools s' = (fs_pools s)(i \<mapsto> p')" "fs_positions s' = fs_positions s" "\<And>j. paid s' j = paid s j"
  shows "farm_ok s'"
proof (rule farm_okI)
  have pk: "farm_pool_ok s i p" unfolding p by (rule pool_or_fresh_ok [OF ok])
  have st: "stakers s' j = stakers s j" for j by (simp add: stakers_def s')
  show "finite (dom (fs_positions s'))" using farm_okD(1) [OF ok] s' by simp
  show "farm_pool_ok s' j q" if q: "fs_pools s' j = Some q" for j q
  proof (cases "j = i")
    case True
    then have "q = p'" using q s' by simp
    have "accrued (pf_accumulator p + inc) = (\<lambda>pos. accrued (pf_accumulator p) pos + inc * uf_staked pos)"
      by (rule ext) (simp add: accrued_def algebra_simps)
    then have "map_total (accrued (pf_accumulator p + inc)) (stakers s i)
        = map_total (accrued (pf_accumulator p)) (stakers s i) + inc * pf_total_staked p"
      using pk by (simp add: map_total_linear farm_pool_ok_def)
    with True \<open>q = p'\<close> pk same acc dist show ?thesis
      by (simp add: farm_pool_ok_def st s' algebra_simps)
  next
    case False
    with q s' farm_okD(2) [OF ok, of j q] show ?thesis by (simp add: farm_pool_ok_def st)
  qed
  show "\<exists>q. fs_pools s' j = Some q \<and> position_ok q pos" if "fs_positions s' (j, u) = Some pos" for j u pos
  proof -
    from that s' farm_okD(3) [OF ok] obtain q where q: "fs_pools s j = Some q" "position_ok q pos" by metis
    show ?thesis
    proof (cases "j = i")
      case True
      with q(1) have "q = p" by (simp add: p pool_or_fresh_def)
      with q True acc s' show ?thesis by (auto simp: position_ok_def)
    qed (use q s' in simp)
  qed
  show "paid s' j = 0" if "fs_pools s' j = None" for j
    using that s' farm_okD(4) [OF ok, of j] by (auto split: if_splits)
qed


lemma update_pool_accumulator_cases:
  assumes call: "update_pool_accumulator e s i = Inr s'" and p: "pool_or_fresh e s i = p"
    and new: "new = int (now e - pf_last_update p) * pf_emission_rate p"
  shows "(pf_total_staked p = 0 \<or> pf_emission_rate p = 0) \<and> s' = set_farm_pool i (p\<lparr>pf_last_update := now e\<rparr>) s
    \<or> pf_total_staked p \<noteq> 0 \<and> pf_emission_rate p \<noteq> 0 \<and> pf_last_update p = now e \<and> s' = s
    \<or> pf_total_staked p \<noteq> 0 \<and> pf_emission_rate p \<noteq> 0 \<and> i128_ok (new * SCALE_FACTOR)
      \<and> (\<exists>q t. (i_div (new * SCALE_FACTOR) (pf_total_staked p) :: (int, counter_error) res) = Inr q
         \<and> s' = (set_farm_pool i (p\<lparr>pf_accumulator := pf_accumulator p + q, pf_last_update := now e,
                pf_distributed := pf_distributed p + new\<rparr>) s)\<lparr>fs_total_rewards := t\<rparr>)"
proof -
  consider (idle) "pf_total_staked p = 0 \<or> pf_emission_rate p = 0"
    | (same) "pf_total_staked p \<noteq> 0" "pf_emission_rate p \<noteq> 0" "now e - pf_last_update p = 0"
    | (moves) "pf_total_staked p \<noteq> 0" "pf_emission_rate p \<noteq> 0" "now e - pf_last_update p \<noteq> 0" by blast
  then show ?thesis
  proof cases
    case idle
    with call show ?thesis by (simp add: update_pool_accumulator_def p)
  next
    case same
    with call have "s' = s \<and> pf_last_update p \<le> now e"
      by (simp add: update_pool_accumulator_def p bindR_eq_Inr u_sub_eq_Inr)
    with same show ?thesis by simp
  next
    case moves
    from call moves show ?thesis
      unfolding update_pool_accumulator_def p Let_def new
      by (simp add: bindR_eq_Inr u_sub_eq_Inr i_mul_eq_Inr i_add_eq_Inr) blast
  qed
qed

text \<open>What one update adds to the accumulator and to the pool's distribution.\<close>

definition new_rewards :: "env \<Rightarrow> pool_farm_state \<Rightarrow> int" where
  "new_rewards e p = (if pf_total_staked p = 0 then 0 else int (now e - pf_last_update p) * pf_emission_rate p)"

definition accumulated :: "env \<Rightarrow> pool_farm_state \<Rightarrow> pool_farm_state" where
  "accumulated e p = p\<lparr>pf_accumulator := pf_accumulator p + new_rewards e p * SCALE_FACTOR div pf_total_staked p,
     pf_last_update := now e, pf_distributed := pf_distributed p + new_rewards e p\<rparr>"

lemma update_pool_accumulator_effect:
  assumes ok: "farm_ok s" and call: "update_pool_accumulator e s i = Inr s'"
  shows "(fs_pools s') i = Some (accumulated e (pool_or_fresh e s i))"
    and "fs_pools s' = (fs_pools s)(i \<mapsto> accumulated e (pool_or_fresh e s i))"
    and "fs_positions s' = fs_positions s" and "fs_events s' = fs_events s" and "fs_admin s' = fs_admin s"
proof -
  define p where "p = pool_or_fresh e s i"
  define new where "new = int (now e - pf_last_update p) * pf_emission_rate p"
  have pk: "farm_pool_ok s i p" unfolding p_def by (rule pool_or_fresh_ok [OF ok])
  have st: "0 \<le> pf_total_staked p"
  proof -
    have "0 \<le> map_total uf_staked (stakers s i)"
      by (rule map_total_nonneg) (use farm_okD(3) [OF ok] in \<open>auto simp: stakers_def position_ok_def\<close>)
    with pk show ?thesis by (simp add: farm_pool_ok_def)
  qed
  have "fs_pools s' = (fs_pools s)(i \<mapsto> accumulated e p) \<and> fs_positions s' = fs_positions s
      \<and> fs_events s' = fs_events s \<and> fs_admin s' = fs_admin s"
    using update_pool_accumulator_cases [OF call p_def [symmetric] new_def]
  proof (elim disjE conjE exE)
    assume "s' = set_farm_pool i (p\<lparr>pf_last_update := now e\<rparr>) s" "pf_total_staked p = 0"
    then show ?thesis by (simp add: accumulated_def new_rewards_def set_farm_pool_def)
  next
    assume "s' = set_farm_pool i (p\<lparr>pf_last_update := now e\<rparr>) s" "pf_emission_rate p = 0"
    then show ?thesis by (simp add: accumulated_def new_rewards_def set_farm_pool_def)
  next
    assume *: "pf_total_staked p \<noteq> 0" "pf_last_update p = now e" "s' = s"
    then have "fs_pools s i = Some p"
      by (auto simp: p_def pool_or_fresh_def fresh_pool_def split: option.splits)
    moreover have "accumulated e p = p" using * by (simp add: accumulated_def new_rewards_def)
    ultimately show ?thesis using * by (simp add: fun_upd_idem)
  next
    fix q t
    assume *: "pf_total_staked p \<noteq> 0" "i128_ok (new * SCALE_FACTOR)"
      "(i_div (new * SCALE_FACTOR) (pf_total_staked p) :: (int, counter_error) res) = Inr q"
      and s': "s' = (set_farm_pool i (p\<lparr>pf_accumulator := pf_accumulator p + q, pf_last_update := now e,
                pf_distributed := pf_distributed p + new\<rparr>) s)\<lparr>fs_total_rewards := t\<rparr>"
    have "0 \<le> new * SCALE_FACTOR" using pk by (simp add: new_def SCALE_FACTOR_def farm_pool_ok_def)
    from i_div_nonneg [OF this _ *(2), of "pf_total_staked p"] *(1,3) st
    have "q = new * SCALE_FACTOR div pf_total_staked p" by (metis less_le sum.inject(2))
    with s' *(1) show ?thesis by (simp add: accumulated_def new_rewards_def new_def set_farm_pool_def)
  qed
  then show "fs_pools s' i = Some (accumulated e (pool_or_fresh e s i))"
    and "fs_pools s' = (fs_pools s)(i \<mapsto> accumulated e (pool_or_fresh e s i))"
    and "fs_positions s' = fs_positions s" and "fs_events s' = fs_events s" and "fs_admin s' = fs_admin s"
    by (simp_all add: p_def)
qed

lemma accumulated_fields [simp]:
  "pf_total_staked (accumulated e p) = pf_total_staked p" "pf_emission_rate (accumulated e p) = pf_emission_rate p"
  "pf_accumulator (accumulated e p) = pf_accumulator p + new_rewards e p * SCALE_FACTOR div pf_total_staked p"
  "pf_distributed (accumulated e p) = pf_distributed p + new_rewards e p"
  by (simp_all add: accumulated_def)

lemma new_rewards_nonneg: "0 \<le> pf_emission_rate p \<Longrightarrow> 0 \<le> new_rewards e p"
  by (simp add: new_rewards_def)

lemma farm_total_nonneg: "farm_ok s \<Longrightarrow> farm_pool_ok s i p \<Longrightarrow> 0 \<le> pf_total_staked p"
  using farm_okD(3) [of s] map_total_nonneg [of "stakers s i" uf_staked]
  by (auto simp: farm_pool_ok_def stakers_def position_ok_def)

lemma increase_bounds:
  assumes "farm_ok s" "farm_pool_ok s i p"
  shows "0 \<le> new_rewards e p * SCALE_FACTOR div pf_total_staked p"
    and "new_rewards e p * SCALE_FACTOR div pf_total_staked p * pf_total_staked p \<le> new_rewards e p * SCALE_FACTOR"
proof -
  have n: "0 \<le> new_rewards e p" "0 \<le> pf_total_staked p"
    using assms farm_total_nonneg by (auto simp: farm_pool_ok_def intro: new_rewards_nonneg)
  then have "0 \<le> new_rewards e p * SCALE_FACTOR" by (simp add: SCALE_FACTOR_def)
  then show "0 \<le> new_rewards e p * SCALE_FACTOR div pf_total_staked p"
    and "new_rewards e p * SCALE_FACTOR div pf_total_staked p * pf_total_staked p \<le> new_rewards e p * SCALE_FACTOR"
    using n(2) by (cases "pf_total_staked p = 0";
      simp add: pos_imp_zdiv_nonneg_iff; simp flip: minus_mod_eq_div_mult)+
qed

lemma update_pool_accumulator_ok:
  assumes ok: "farm_ok s" and call: "update_pool_accumulator e s i = Inr s'"
  shows "farm_ok s'"
proof -
  note eff = update_pool_accumulator_effect [OF ok call]
  have pk: "farm_pool_ok s i (pool_or_fresh e s i)" by (rule pool_or_fresh_ok [OF ok])
  then have rate: "0 \<le> pf_emission_rate (pool_or_fresh e s i)" by (simp add: farm_pool_ok_def)
  have "paid s' j = paid s j" for j by (simp add: paid_def eff(4))
  then show ?thesis
    by (intro farm_ok_accumulate [OF ok refl _ _ _ increase_bounds(1) [OF ok pk] _ increase_bounds(2) [OF ok pk] eff(2,3)])
      (simp_all add: rate)
qed

section \<open>A position is settled, staked, unstaked or paid\<close>

lemma farm_ok_settle:
  assumes ok: "farm_ok s" and p: "fs_pools s i = Some p" and pos: "pos = position_or_fresh e s i u"
    and p': "pf_accumulator p' = pf_accumulator p" "pf_emission_rate p' = pf_emission_rate p"
      "pf_distributed p' = pf_distributed p" "pf_total_staked p' = pf_total_staked p + (uf_staked pos' - uf_staked pos)"
    and pos': "position_ok p pos'"
    and owed: "SCALE_FACTOR * (a + uf_pending pos' - uf_pending pos)
      \<le> accrued (pf_accumulator p) pos - accrued (pf_accumulator p) pos'"
    and s': "fs_pools s' = (fs_pools s)(i \<mapsto> p')" "fs_positions s' = (fs_positions s)((i, u) \<mapsto> pos')"
      "\<And>j. paid s' j = paid s j + (if j = i then a else 0)"
  shows "farm_ok s'"
proof (rule farm_okI)
  have st: "stakers s' i = (stakers s i)(u \<mapsto> pos')" by (auto simp: stakers_def s' fun_eq_iff)
  have others: "stakers s' j = stakers s j" if "j \<noteq> i" for j using that by (auto simp: stakers_def s' fun_eq_iff)
  have total: "map_total f (stakers s' i) = map_total f (stakers s i) - f pos + f pos'"
    if "f (fresh_position e) = 0" for f :: "user_farm_position \<Rightarrow> int"
    unfolding st using that
    by (simp add: map_total_upd [OF stakers_finite [OF ok]] pos position_or_fresh_def stakers_apply split: option.split)
  have pk: "farm_pool_ok s i p" by (rule farm_okD(2) [OF ok p])
  show "finite (dom (fs_positions s'))" using farm_okD(1) [OF ok] s' by simp
  show "farm_pool_ok s' j q" if q: "fs_pools s' j = Some q" for j q
  proof (cases "j = i")
    case True
    then have "q = p'" using q s' by simp
    moreover have "map_total uf_staked (stakers s' i) = pf_total_staked p'"
      using total [of uf_staked] pk p' by (simp add: fresh_position_def farm_pool_ok_def)
    moreover have "SCALE_FACTOR * (paid s' i + map_total uf_pending (stakers s' i))
        + map_total (accrued (pf_accumulator p)) (stakers s' i) \<le> SCALE_FACTOR * pf_distributed p"
    proof -
      have t: "map_total uf_pending (stakers s' i) = map_total uf_pending (stakers s i) - uf_pending pos + uf_pending pos'"
        "map_total (accrued (pf_accumulator p)) (stakers s' i) = map_total (accrued (pf_accumulator p)) (stakers s i)
           - accrued (pf_accumulator p) pos + accrued (pf_accumulator p) pos'"
        by (rule total; simp add: fresh_position_def accrued_def)+
      show ?thesis unfolding t s'(3) using pk owed by (simp add: farm_pool_ok_def algebra_simps)
    qed
    ultimately show ?thesis using True pk p' by (simp add: farm_pool_ok_def)
  next
    case False
    with q s' farm_okD(2) [OF ok, of j q] others show ?thesis by (simp add: farm_pool_ok_def)
  qed
  show "\<exists>q. fs_pools s' j = Some q \<and> position_ok q x" if "fs_positions s' (j, v) = Some x" for j v x
  proof (cases "(j, v) = (i, u)")
    case True
    with that s' pos' p' show ?thesis by (simp add: position_ok_def)
  next
    case False
    with that s' have "fs_positions s (j, v) = Some x" by (auto split: if_splits)
    from farm_okD(3) [OF ok this] obtain q where "fs_pools s j = Some q" "position_ok q x" by blast
    with p s' p' show ?thesis by (auto simp: position_ok_def)
  qed
  show "paid s' j = 0" if "fs_pools s' j = None" for j
    using that s' farm_okD(4) [OF ok, of j] by (auto split: if_splits)
qed

text \<open>A position brought up to date with its pool.\<close>

definition settled :: "pool_farm_state \<Rightarrow> user_farm_position \<Rightarrow> user_farm_position" where
  "settled p pos = pos\<lparr>uf_pending := uf_pending pos + accrued (pf_accumulator p) pos div SCALE_FACTOR,
     uf_debt := pf_accumulator p\<rparr>"

lemma fresh_position_ok: "0 \<le> pf_accumulator p \<Longrightarrow> position_ok p (fresh_position e)"
  by (simp add: position_ok_def fresh_position_def)

lemma position_or_fresh_ok:
  assumes ok: "farm_ok s" and p: "fs_pools s i = Some p"
  shows "position_ok p (position_or_fresh e s i u)"
proof (cases "fs_positions s (i, u)")
  case None
  with farm_okD(2) [OF ok p] show ?thesis by (simp add: position_or_fresh_def fresh_position_ok farm_pool_ok_def)
next
  case (Some pos)
  with farm_okD(3) [OF ok Some] p show ?thesis by (auto simp: position_or_fresh_def)
qed

lemma settled_ok: "position_ok p pos \<Longrightarrow> position_ok p (settled p pos)"
  by (auto simp: settled_def position_ok_def accrued_def SCALE_FACTOR_def intro!: add_nonneg_nonneg pos_imp_zdiv_nonneg_iff [THEN iffD2])

lemma settled_owed:
  "SCALE_FACTOR * (uf_pending (settled p pos) - uf_pending pos)
     \<le> accrued (pf_accumulator p) pos - accrued (pf_accumulator p) (settled p pos)"
  using mult_div_mod_eq [of SCALE_FACTOR "accrued (pf_accumulator p) pos"]
    pos_mod_sign [of SCALE_FACTOR "accrued (pf_accumulator p) pos"]
  by (simp add: settled_def accrued_def SCALE_FACTOR_def)

lemma update_user_position_effect:
  assumes ok: "farm_ok s" and call: "update_user_position e s i u = Inr s'"
  shows "\<exists>p. fs_pools s i = Some p \<and> s' = set_position i u (settled p (position_or_fresh e s i u)) s"
proof -
  from call obtain p where p: "fs_pools s i = Some p" by (auto simp: update_user_position_def res_simps)
  define pos where "pos = position_or_fresh e s i u"
  have pk: "position_ok p pos" unfolding pos_def by (rule position_or_fresh_ok [OF ok p])
  have "s' = set_position i u (settled p pos) s"
  proof (cases "uf_staked pos > 0")
    case False
    with pk have "uf_staked pos = 0" by (simp add: position_ok_def)
    with call p show ?thesis
      by (simp add: update_user_position_def Let_def pos_def [symmetric] settled_def accrued_def)
  next
    case True
    with call p obtain q where q: "(i_div (accrued (pf_accumulator p) pos) SCALE_FACTOR :: (int, counter_error) res) = Inr q"
        and k: "i128_ok (accrued (pf_accumulator p) pos)"
        and s': "s' = set_position i u (pos\<lparr>uf_pending := uf_pending pos + q, uf_debt := pf_accumulator p\<rparr>) s"
      by (auto simp: update_user_position_def Let_def pos_def [symmetric] accrued_def bindR_eq_Inr i_sub_eq_Inr i_mul_eq_Inr i_add_eq_Inr)
    have "0 \<le> accrued (pf_accumulator p) pos" using pk by (simp add: accrued_def position_ok_def)
    then have "i_div (accrued (pf_accumulator p) pos) SCALE_FACTOR = Inr (accrued (pf_accumulator p) pos div SCALE_FACTOR)"
      by (rule i_div_nonneg [OF _ _ k]) (simp add: SCALE_FACTOR_def)
    with q have "q = accrued (pf_accumulator p) pos div SCALE_FACTOR" by (metis sum.inject(2))
    with s' show ?thesis by (simp add: settled_def)
  qed
  with p show ?thesis by (simp add: pos_def)
qed

text \<open>
  The calls of the farming module: what each of them does to the pool and to the position it names,
  the step relation, and the accounting invariant along runs.
\<close>

section \<open>What a successful call does\<close>

text \<open>The pool and the position a call works on, brought up to date.\<close>

definition live_pool :: "env \<Rightarrow> farm_store \<Rightarrow> nat \<Rightarrow> pool_farm_state" where
  "live_pool e s i = accumulated e (pool_or_fresh e s i)"

definition live_position :: "env \<Rightarrow> farm_store \<Rightarrow> nat \<Rightarrow> address \<Rightarrow> user_farm_position" where
  "live_position e s i u = settled (live_pool e s i) (position_or_fresh e s i u)"

lemma live_position_debt [simp]: "uf_debt (live_position e s i u) = pf_accumulator (live_pool e s i)"
  by (simp add: live_position_def settled_def)

lemma live_position_same [simp]:
  "uf_staked (live_position e s i u) = uf_staked (position_or_fresh e s i u)"
  "uf_active (live_position e s i u) = uf_active (position_or_fresh e s i u)"
  by (simp_all add: live_position_def settled_def)

lemma live_pool_same [simp]: "pf_total_staked (live_pool e s i) = pf_total_staked (pool_or_fresh e s i)"
  "pf_emission_rate (live_pool e s i) = pf_emission_rate (pool_or_fresh e s i)"
  by (simp_all add: live_pool_def)

lemma settle_effect:
  assumes ok: "farm_ok s" and a: "update_pool_accumulator e s i = Inr s1" and b: "update_user_position e s1 i u = Inr s2"
  shows "farm_ok s2" and "fs_pools s2 = (fs_pools s)(i \<mapsto> live_pool e s i)"
    and "fs_positions s2 = (fs_positions s)((i, u) \<mapsto> live_position e s i u)"
    and "fs_events s2 = fs_events s" and "fs_admin s2 = fs_admin s"
proof -
  note eff = update_pool_accumulator_effect [OF ok a]
  have ok1: "farm_ok s1" by (rule update_pool_accumulator_ok [OF ok a])
  have "position_or_fresh e s1 i u = position_or_fresh e s i u" by (simp add: position_or_fresh_def eff(3))
  with update_user_position_effect [OF ok1 b] eff(1)
  have s2: "s2 = set_position i u (live_position e s i u) s1" by (simp add: live_position_def live_pool_def)
  show "fs_pools s2 = (fs_pools s)(i \<mapsto> live_pool e s i)"
    and "fs_positions s2 = (fs_positions s)((i, u) \<mapsto> live_position e s i u)"
    and "fs_admin s2 = fs_admin s" and "fs_events s2 = fs_events s"
    using eff by (simp_all add: s2 live_pool_def set_position_def)
  have pk: "position_ok (live_pool e s i) (position_or_fresh e s1 i u)"
    by (rule position_or_fresh_ok [OF ok1]) (simp add: live_pool_def eff(1))
  show "farm_ok s2"
  proof (rule farm_ok_settle [OF ok1 eff(1) refl, where pos' = "live_position e s i u" and a = 0])
    show "position_ok (accumulated e (pool_or_fresh e s i)) (live_position e s i u)"
      using settled_ok [OF pk] \<open>position_or_fresh e s1 i u = _\<close> by (simp add: live_position_def live_pool_def)
    show "SCALE_FACTOR * (0 + uf_pending (live_position e s i u) - uf_pending (position_or_fresh e s1 i u))
        \<le> accrued (pf_accumulator (accumulated e (pool_or_fresh e s i))) (position_or_fresh e s1 i u)
          - accrued (pf_accumulator (accumulated e (pool_or_fresh e s i))) (live_position e s i u)"
      using settled_owed [of "live_pool e s i" "position_or_fresh e s1 i u"] \<open>position_or_fresh e s1 i u = _\<close>
      by (simp only: live_position_def live_pool_def add_0)
    show "fs_pools s2 = (fs_pools s1)(i \<mapsto> accumulated e (pool_or_fresh e s i))"
      using eff(1) by (simp add: s2 fun_upd_idem)
  qed (simp_all add: s2 \<open>position_or_fresh e s1 i u = _\<close>)
qed

text \<open>A call that goes on to change the stake of the settled position, or to pay it out.\<close>

lemma farm_ok_after_settle:
  assumes s2: "farm_ok s2" "fs_pools s2 = (fs_pools s)(i \<mapsto> live_pool e s i)"
      "fs_positions s2 = (fs_positions s)((i, u) \<mapsto> live_position e s i u)" "fs_events s2 = fs_events s"
    and s': "fs_pools s' = (fs_pools s)(i \<mapsto> (live_pool e s i)\<lparr>pf_total_staked := t\<rparr>)"
      "fs_positions s' = (fs_positions s)((i, u) \<mapsto> pos')" "fs_events s' = fs_events s @ [ev]"
    and pos': "t = pf_total_staked (live_pool e s i) + (uf_staked pos' - uf_staked (live_position e s i u))"
      "uf_debt pos' = pf_accumulator (live_pool e s i)" "position_ok (live_pool e s i) pos'"
      "uf_pending pos' = uf_pending (live_position e s i u) - reward_of i ev" "\<And>j. j \<noteq> i \<Longrightarrow> reward_of j ev = 0"
  shows "farm_ok s'"
proof (rule farm_ok_settle [OF s2(1), where p = "live_pool e s i" and i = i and u = u and pos' = pos' and a = "reward_of i ev"
      and p' = "(live_pool e s i)\<lparr>pf_total_staked := t\<rparr>" and e = e])
  have cur: "position_or_fresh e s2 i u = live_position e s i u" by (simp add: position_or_fresh_def s2(3))
  show "live_position e s i u = position_or_fresh e s2 i u" by (simp add: cur)
  show "paid s' j = paid s2 j + (if j = i then reward_of i ev else 0)" for j
    using pos'(5) [of j] by (auto simp: paid_def s'(3) s2(4))
qed (simp_all add: assms accrued_def)

lemma stake_lp_effect:
  assumes ok: "farm_ok s" and call: "stake_lp e s i a u = Inr s'"
  shows "authorized e u \<and> MIN_STAKE_AMOUNT \<le> a \<and> farm_ok s'
    \<and> fs_pools s' = (fs_pools s)(i \<mapsto> (live_pool e s i)\<lparr>pf_total_staked := pf_total_staked (live_pool e s i) + a\<rparr>)
    \<and> fs_positions s' = (fs_positions s)((i, u) \<mapsto> (live_position e s i u)\<lparr>uf_staked := uf_staked (live_position e s i u) + a,
         uf_active := True\<rparr>)
    \<and> fs_events s' = fs_events s @ [LPStaked u i a (now e)] \<and> fs_admin s' = fs_admin s"
proof -
  from call obtain s1 s2 where g: "authorized e u" "MIN_STAKE_AMOUNT \<le> a"
      and a: "update_pool_accumulator e s i = Inr s1" and b: "update_user_position e s1 i u = Inr s2"
      and s': "s' = farm_publish (LPStaked u i a (now e)) (set_position i u
         ((position_or_fresh e s2 i u)\<lparr>uf_staked := uf_staked (position_or_fresh e s2 i u) + a, uf_active := True\<rparr>)
         (set_farm_pool i ((pool_or_fresh e s2 i)\<lparr>pf_total_staked := pf_total_staked (pool_or_fresh e s2 i) + a\<rparr>) s2))"
    unfolding stake_lp_def Let_def bindR_eq_Inr require_auth_eq_Inr ensure_eq_Inr i_add_eq_Inr
    by (auto simp: not_less)
  note st = settle_effect [OF ok a b]
  have cur: "position_or_fresh e s2 i u = live_position e s i u" "pool_or_fresh e s2 i = live_pool e s i"
    by (simp_all add: position_or_fresh_def pool_or_fresh_def st)
  have eff: "fs_pools s' = (fs_pools s)(i \<mapsto> (live_pool e s i)\<lparr>pf_total_staked := pf_total_staked (live_pool e s i) + a\<rparr>)"
      "fs_positions s' = (fs_positions s)((i, u) \<mapsto> (live_position e s i u)\<lparr>uf_staked := uf_staked (live_position e s i u) + a,
         uf_active := True\<rparr>)" "fs_events s' = fs_events s @ [LPStaked u i a (now e)]" "fs_admin s' = fs_admin s"
    unfolding s' cur by (simp_all add: st) (simp_all add: farm_publish_def set_position_def set_farm_pool_def st)
  have "position_ok (live_pool e s i) (live_position e s i u)"
    using position_or_fresh_ok [OF st(1), of i "live_pool e s i" e u] by (simp add: st cur)
  then have "position_ok (live_pool e s i) ((live_position e s i u)\<lparr>uf_staked := uf_staked (live_position e s i u) + a, uf_active := True\<rparr>)"
    using g(2) by (auto simp: position_ok_def MIN_STAKE_AMOUNT_def)
  then have "farm_ok s'" by (intro farm_ok_after_settle [OF st(1-4) eff(1-3)]) simp_all
  with g eff show ?thesis by simp
qed

lemma stays_active: "uf_active r \<Longrightarrow> r\<lparr>uf_staked := x, uf_active := True\<rparr> = r\<lparr>uf_staked := x\<rparr>"
  by (cases r) simp

lemma same_total: "p\<lparr>pf_total_staked := pf_total_staked p\<rparr> = p"
  by (cases p) simp

lemma unstake_lp_effect:
  assumes ok: "farm_ok s" and call: "unstake_lp e s i a u = Inr s'"
  shows "authorized e u \<and> 0 < a \<and> a \<le> uf_staked (live_position e s i u) \<and> farm_ok s'
    \<and> fs_pools s' = (fs_pools s)(i \<mapsto> (live_pool e s i)\<lparr>pf_total_staked := pf_total_staked (live_pool e s i) - a\<rparr>)
    \<and> fs_positions s' = (fs_positions s)((i, u) \<mapsto> (live_position e s i u)\<lparr>uf_staked := uf_staked (live_position e s i u) - a,
         uf_active := a < uf_staked (live_position e s i u)\<rparr>)
    \<and> fs_events s' = fs_events s @ [LPUnstaked u i a (now e)] \<and> fs_admin s' = fs_admin s"
proof -
  from call obtain s1 s2 pos pool where g: "authorized e u" "0 < a" "uf_active pos" "a \<le> uf_staked pos"
      and a: "update_pool_accumulator e s i = Inr s1" and b: "update_user_position e s1 i u = Inr s2"
      and pos: "fs_positions s2 (i, u) = Some pos" "fs_pools s2 i = Some pool"
      and s': "s' = farm_publish (LPUnstaked u i a (now e)) (set_position i u
         (if uf_staked (pos\<lparr>uf_staked := uf_staked pos - a\<rparr>) = 0
          then (pos\<lparr>uf_staked := uf_staked pos - a\<rparr>)\<lparr>uf_active := False\<rparr> else pos\<lparr>uf_staked := uf_staked pos - a\<rparr>)
         (set_farm_pool i (pool\<lparr>pf_total_staked := pf_total_staked pool - a\<rparr>) s2))"
    unfolding unstake_lp_def Let_def bindR_eq_Inr require_auth_eq_Inr ensure_eq_Inr i_sub_eq_Inr ok_or_eq_Inr
    by (auto simp: not_less not_le)
  note st = settle_effect [OF ok a b]
  have cur: "pos = live_position e s i u" "pool = live_pool e s i" using pos by (simp_all add: st)
  have pk: "position_ok (live_pool e s i) (live_position e s i u)"
    using position_or_fresh_ok [OF st(1), of i "live_pool e s i" e u] by (simp add: st position_or_fresh_def)
  have eff: "fs_pools s' = (fs_pools s)(i \<mapsto> (live_pool e s i)\<lparr>pf_total_staked := pf_total_staked (live_pool e s i) - a\<rparr>)"
      "fs_positions s' = (fs_positions s)((i, u) \<mapsto> (live_position e s i u)\<lparr>uf_staked := uf_staked (live_position e s i u) - a,
         uf_active := a < uf_staked (live_position e s i u)\<rparr>)"
      "fs_events s' = fs_events s @ [LPUnstaked u i a (now e)]" "fs_admin s' = fs_admin s"
    using g(3,4) unfolding s' cur by (simp_all add: st stays_active) (simp_all add: farm_publish_def set_position_def set_farm_pool_def st)
  have "position_ok (live_pool e s i) ((live_position e s i u)\<lparr>uf_staked := uf_staked (live_position e s i u) - a,
      uf_active := a < uf_staked (live_position e s i u)\<rparr>)"
    using pk g(4) by (simp add: position_ok_def cur)
  then have "farm_ok s'" by (intro farm_ok_after_settle [OF st(1-4) eff(1-3)]) simp_all
  with g eff show ?thesis by (simp add: cur)
qed

lemma claim_farm_rewards_effect:
  assumes ok: "farm_ok s" and call: "claim_farm_rewards e s i u = Inr (n, s')"
  shows "authorized e u \<and> 0 < n \<and> n = uf_pending (live_position e s i u) \<and> farm_ok s'
    \<and> fs_pools s' = (fs_pools s)(i \<mapsto> live_pool e s i)
    \<and> fs_positions s' = (fs_positions s)((i, u) \<mapsto> (live_position e s i u)\<lparr>uf_pending := 0\<rparr>)
    \<and> fs_events s' = fs_events s @ [RewardClaimed u i n (now e)] \<and> fs_admin s' = fs_admin s"
proof -
  from call obtain s1 s2 pos where g: "authorized e u" "0 < uf_pending pos" "n = uf_pending pos"
      and a: "update_pool_accumulator e s i = Inr s1" and b: "update_user_position e s1 i u = Inr s2"
      and pos: "fs_positions s2 (i, u) = Some pos"
      and s': "s' = farm_publish (RewardClaimed u i n (now e)) (set_position i u (pos\<lparr>uf_pending := 0\<rparr>) s2)"
    unfolding claim_farm_rewards_def Let_def bindR_eq_Inr require_auth_eq_Inr ensure_eq_Inr ok_or_eq_Inr
    by (auto simp: not_le)
  note st = settle_effect [OF ok a b]
  have cur: "pos = live_position e s i u" using pos by (simp add: st)
  have pk: "position_ok (live_pool e s i) (live_position e s i u)"
    using position_or_fresh_ok [OF st(1), of i "live_pool e s i" e u] by (simp add: st position_or_fresh_def)
  have eff: "fs_pools s' = (fs_pools s)(i \<mapsto> live_pool e s i)"
      "fs_positions s' = (fs_positions s)((i, u) \<mapsto> (live_position e s i u)\<lparr>uf_pending := 0\<rparr>)"
      "fs_events s' = fs_events s @ [RewardClaimed u i n (now e)]" "fs_admin s' = fs_admin s"
    unfolding s' cur by (simp_all add: st) (simp_all add: farm_publish_def set_position_def st)
  have "farm_ok s'"
    by (rule farm_ok_after_settle [OF st(1-4) _ eff(2,3), where t = "pf_total_staked (live_pool e s i)"])
      (use pk g in \<open>simp_all only: same_total eff(1), simp_all add: position_ok_def cur\<close>)
  with g eff show ?thesis by (simp add: cur)
qed

lemma get_pending_effect:
  assumes ok: "farm_ok s" and call: "get_pending_farm_rewards e s i u = Inr (n, s')"
  shows "n = uf_pending (live_position e s i u) \<and> farm_ok s'
    \<and> fs_pools s' = (fs_pools s)(i \<mapsto> live_pool e s i)
    \<and> fs_positions s' = (fs_positions s)((i, u) \<mapsto> live_position e s i u)
    \<and> fs_events s' = fs_events s \<and> fs_admin s' = fs_admin s"
proof -
  from call obtain s1 pos where a: "update_pool_accumulator e s i = Inr s1" and b: "update_user_position e s1 i u = Inr s'"
      and n: "fs_positions s' (i, u) = Some pos" "n = uf_pending pos"
    unfolding get_pending_farm_rewards_def bindR_eq_Inr ok_or_eq_Inr by auto
  from settle_effect [OF ok a b] n show ?thesis by simp
qed

lemma set_rate_effect:
  assumes ok: "farm_ok s" and call: "set_farm_emission_rate e s i r u = Inr s'"
  shows "authorized e u \<and> fs_admin s = Some u \<and> 0 \<le> r \<and> farm_ok s'
    \<and> fs_pools s' = (fs_pools s)(i \<mapsto> (live_pool e s i)\<lparr>pf_emission_rate := r\<rparr>)
    \<and> fs_positions s' = fs_positions s
    \<and> fs_events s' = fs_events s @ [EmissionUpdated i (pf_emission_rate (live_pool e s i)) r (now e)]
    \<and> fs_admin s' = fs_admin s"
proof -
  from call obtain s1 where g: "authorized e u" "fs_admin s = Some u" "0 \<le> r" and a: "update_pool_accumulator e s i = Inr s1"
      and s': "s' = farm_publish (EmissionUpdated i (pf_emission_rate (pool_or_fresh e s1 i)) r (now e))
          (set_farm_pool i ((pool_or_fresh e s1 i)\<lparr>pf_emission_rate := r\<rparr>) s1)"
    unfolding set_farm_emission_rate_def Let_def bindR_eq_Inr require_auth_eq_Inr ensure_eq_Inr farm_get_admin_def ok_or_eq_Inr
    by (auto simp: not_less)
  note eff1 = update_pool_accumulator_effect [OF ok a]
  have cur: "pool_or_fresh e s1 i = live_pool e s i" by (simp add: pool_or_fresh_def eff1(1) live_pool_def)
  have eff: "fs_pools s' = (fs_pools s)(i \<mapsto> (live_pool e s i)\<lparr>pf_emission_rate := r\<rparr>)" "fs_positions s' = fs_positions s"
      "fs_events s' = fs_events s @ [EmissionUpdated i (pf_emission_rate (live_pool e s i)) r (now e)]" "fs_admin s' = fs_admin s"
    unfolding s' cur by (simp_all add: eff1) (simp_all add: farm_publish_def set_farm_pool_def eff1)
  have "farm_ok s'"
    by (rule farm_ok_accumulate [OF update_pool_accumulator_ok [OF ok a] refl,
          of "(live_pool e s i)\<lparr>pf_emission_rate := r\<rparr>" e i 0 0])
      (use g in \<open>simp_all add: cur eff eff1 paid_def\<close>)
  with g eff show ?thesis by simp
qed

lemma get_pool_state_effect:
  assumes ok: "farm_ok s" and call: "get_pool_state e s i = Inr (p, s')"
  shows "p = live_pool e s i \<and> farm_ok s' \<and> fs_pools s' = (fs_pools s)(i \<mapsto> live_pool e s i)
    \<and> fs_positions s' = fs_positions s \<and> fs_events s' = fs_events s \<and> fs_admin s' = fs_admin s"
proof -
  from call have a: "update_pool_accumulator e s i = Inr s'" and p: "fs_pools s' i = Some p"
    unfolding get_pool_state_def bindR_eq_Inr ok_or_eq_Inr by auto
  with update_pool_accumulator_effect [OF ok a] update_pool_accumulator_ok [OF ok a]
  show ?thesis by (simp add: live_pool_def)
qed

lemma farm_initialize_effect:
  "fs_pools (farm_initialize s u) = fs_pools s \<and> fs_positions (farm_initialize s u) = fs_positions s
    \<and> fs_events (farm_initialize s u) = fs_events s"
  by (simp add: farm_initialize_def split: option.split)

section \<open>Runs\<close>

datatype farm_call =
    StakeLP nat int address
  | UnstakeLP nat int address
  | ClaimFarm nat address
  | PendingFarm nat address
  | SetEmission nat int address
  | PoolState nat
  | InitFarm address

fun farm_exec :: "env \<Rightarrow> farm_store \<Rightarrow> farm_call \<Rightarrow> (farm_store, counter_error) res" where
  "farm_exec e s (StakeLP i a u) = stake_lp e s i a u"
| "farm_exec e s (UnstakeLP i a u) = unstake_lp e s i a u"
| "farm_exec e s (ClaimFarm i u) = bindR (claim_farm_rewards e s i u) (\<lambda>(_, s'). Inr s')"
| "farm_exec e s (PendingFarm i u) = bindR (get_pending_farm_rewards e s i u) (\<lambda>(_, s'). Inr s')"
| "farm_exec e s (SetEmission i r u) = set_farm_emission_rate e s i r u"
| "farm_exec e s (PoolState i) = bindR (get_pool_state e s i) (\<lambda>(_, s'). Inr s')"
| "farm_exec e s (InitFarm u) = Inr (farm_initialize s u)"

text \<open>Any call by anyone, at any time.\<close>

inductive farm_step :: "farm_store \<Rightarrow> farm_store \<Rightarrow> bool" where
  farm_call: "farm_exec e s c = Inr s' \<Longrightarrow> farm_step s s'"

inductive_cases farm_stepE: "farm_step s s'"

lemma farm_exec_ok:
  assumes ok: "farm_ok s" and call: "farm_exec e s c = Inr s'"
  shows "farm_ok s'"
proof (cases c)
  case (StakeLP i a u)
  with call stake_lp_effect [OF ok] show ?thesis by auto
next
  case (UnstakeLP i a u)
  with call unstake_lp_effect [OF ok] show ?thesis by auto
next
  case (ClaimFarm i u)
  with call claim_farm_rewards_effect [OF ok] show ?thesis by (auto simp: bindR_eq_Inr)
next
  case (PendingFarm i u)
  with call get_pending_effect [OF ok] show ?thesis by (auto simp: bindR_eq_Inr)
next
  case (SetEmission i r u)
  with call set_rate_effect [OF ok] show ?thesis by auto
next
  case (PoolState i)
  with call get_pool_state_effect [OF ok] show ?thesis by (auto simp: bindR_eq_Inr)
next
  case (InitFarm u)
  with call ok farm_initialize_effect [of s u] show ?thesis
    by (simp add: farm_ok_def farm_pool_ok_def stakers_def paid_def)
qed

lemma farm_reach:
  "reachable init farm_step s \<Longrightarrow> farm_exec e s c = Inr s' \<Longrightarrow> reachable init farm_step s'"
  by (blast intro: reach_step farm_call)

text \<open>A call leaves the positions of users it does not name alone and no accumulator falls.\<close>

lemma live_pool_grows:
  assumes "farm_ok s" "fs_pools s i = Some p"
  shows "pf_accumulator p \<le> pf_accumulator (live_pool e s i)"
  using increase_bounds(1) [OF assms(1) farm_okD(2) [OF assms], of e] assms(2)
  by (simp add: live_pool_def pool_or_fresh_def)

fun farm_target :: "farm_call \<Rightarrow> (nat \<times> address) option" where
  "farm_target (StakeLP i a u) = Some (i, u)"
| "farm_target (UnstakeLP i a u) = Some (i, u)"
| "farm_target (ClaimFarm i u) = Some (i, u)"
| "farm_target (PendingFarm i u) = Some (i, u)"
| "farm_target _ = None"

lemma farm_exec_frame:
  assumes ok: "farm_ok s" and call: "farm_exec e s c = Inr s'"
  shows "farm_target c \<noteq> Some x \<Longrightarrow> fs_positions s' x = fs_positions s x"
    and "fs_pools s i = Some p \<Longrightarrow> \<exists>p'. fs_pools s' i = Some p' \<and> pf_accumulator p \<le> pf_accumulator p'"
proof -
  have g: "fs_pools s i = Some p \<Longrightarrow> pf_accumulator p \<le> pf_accumulator (live_pool e s i)" for i p
    by (rule live_pool_grows [OF ok])
  have "(farm_target c \<noteq> Some x \<longrightarrow> fs_positions s' x = fs_positions s x) \<and>
    (fs_pools s i = Some p \<longrightarrow> (\<exists>p'. fs_pools s' i = Some p' \<and> pf_accumulator p \<le> pf_accumulator p'))"
  proof (cases c)
    case (StakeLP j a u)
    with call stake_lp_effect [OF ok] g [of i p] show ?thesis by auto
  next
    case (UnstakeLP j a u)
    with call unstake_lp_effect [OF ok] g [of i p] show ?thesis by auto
  next
    case (ClaimFarm j u)
    with call claim_farm_rewards_effect [OF ok] g [of i p] show ?thesis by (auto simp: bindR_eq_Inr)
  next
    case (PendingFarm j u)
    with call get_pending_effect [OF ok] g [of i p] show ?thesis by (auto simp: bindR_eq_Inr)
  next
    case (SetEmission j r u)
    with call set_rate_effect [OF ok] g [of i p] show ?thesis by auto
  next
    case (PoolState j)
    with call get_pool_state_effect [OF ok] g [of i p] show ?thesis by (auto simp: bindR_eq_Inr)
  next
    case (InitFarm u)
    with call farm_initialize_effect [of s u] show ?thesis by auto
  qed
  then show "farm_target c \<noteq> Some x \<Longrightarrow> fs_positions s' x = fs_positions s x"
    and "fs_pools s i = Some p \<Longrightarrow> \<exists>p'. fs_pools s' i = Some p' \<and> pf_accumulator p \<le> pf_accumulator p'"
    by auto
qed

lemma farm_target_auth:
  "farm_exec e s c = Inr s' \<Longrightarrow> farm_target c = Some (i, u) \<Longrightarrow> c \<noteq> PendingFarm i u \<Longrightarrow> authorized e u"
  by (cases c) (auto simp: stake_lp_def unstake_lp_def claim_farm_rewards_def bindR_eq_Inr require_auth_eq_Inr)

interpretation farm_machine: machine_invariant "\<lambda>s. s = farm_store0" farm_step farm_ok
  by unfold_locales (auto simp: farm_store0_ok elim!: farm_stepE intro: farm_exec_ok)

end
