(* ===== verification/Farming_Props.thy ===== *)
theory Farming_Props
  imports Farming_Inv
begin

text \<open>
  The properties of farming: no pool promises or pays more than it has distributed, a claim pays
  exactly the claimant's share, nobody else's call takes rewards away, and the one exception, a
  query anyone may repeat until the rewards of a small stake are rounded away.
\<close>

section \<open>A concrete farm\<close>

text \<open>Pool 7 emits one unit per second; user 2 has staked 100 and user 3 has staked 9900, at time 0.\<close>

definition farm_after :: "int \<Rightarrow> int \<Rightarrow> ((nat \<times> address) \<rightharpoonup> user_farm_position) \<Rightarrow> farm_event list \<Rightarrow> farm_store" where
  "farm_after total_staked rate positions evs =
     \<lparr>fs_pools = [7 \<mapsto> \<lparr>pf_total_staked = total_staked, pf_accumulator = 0, pf_emission_rate = rate, pf_last_update = 0,
        pf_distributed = 0\<rparr>],
      fs_positions = positions, fs_admin = Some (Addr 1), fs_total_rewards = None, fs_events = evs\<rparr>"

definition farm_stake :: "int \<Rightarrow> user_farm_position" where
  "farm_stake a = \<lparr>uf_staked = a, uf_pending = 0, uf_debt = 0, uf_staked_at = 0, uf_active = True\<rparr>"

definition demo_farm :: farm_store where
  "demo_farm = farm_after 10000 1 [(7, Addr 2) \<mapsto> farm_stake 100, (7, Addr 3) \<mapsto> farm_stake 9900]
     [EmissionUpdated 7 0 1 0, LPStaked (Addr 2) 7 100 0, LPStaked (Addr 3) 7 9900 0]"

lemmas farm_run_defs = farm_after_def farm_stake_def update_pool_accumulator_def update_user_position_def
  pool_or_fresh_def position_or_fresh_def fresh_pool_def fresh_position_def set_farm_pool_def set_position_def
  farm_publish_def demo_env_def require_auth_def ensure_def ok_or_def i_add_def i_sub_def i_mul_def i_div_def i_check_def
  i128_ok_def I128_MIN_def I128_MAX_def u_sub_def SCALE_FACTOR_def MIN_STAKE_AMOUNT_def farm_get_admin_def

lemma demo_farm_reachable: "reachable (\<lambda>s. s = farm_store0) farm_step demo_farm"
proof -
  let ?s1 = "farm_store0\<lparr>fs_admin := Some (Addr 1)\<rparr>"
  let ?s2 = "farm_after 0 1 Map.empty [EmissionUpdated 7 0 1 0]"
  let ?s3 = "farm_after 100 1 [(7, Addr 2) \<mapsto> farm_stake 100] [EmissionUpdated 7 0 1 0, LPStaked (Addr 2) 7 100 0]"
  have s1: "farm_exec (demo_env 1 0) farm_store0 (InitFarm (Addr 1)) = Inr ?s1"
    by (simp add: farm_initialize_def farm_store0_def)
  have s2: "farm_exec (demo_env 1 0) ?s1 (SetEmission 7 1 (Addr 1)) = Inr ?s2"
    by (simp add: set_farm_emission_rate_def farm_run_defs farm_store0_def cong: bindR_weak_cong)
  have s3: "farm_exec (demo_env 2 0) ?s2 (StakeLP 7 100 (Addr 2)) = Inr ?s3"
    by (simp add: stake_lp_def farm_run_defs cong: bindR_weak_cong)
  have s4: "farm_exec (demo_env 3 0) ?s3 (StakeLP 7 9900 (Addr 3)) = Inr demo_farm"
    by (simp add: stake_lp_def demo_farm_def farm_run_defs cong: bindR_weak_cong)
  have "reachable (\<lambda>s. s = farm_store0) farm_step farm_store0" by (rule reach_init) simp
  from farm_reach [OF farm_reach [OF farm_reach [OF farm_reach [OF this s1] s2] s3] s4] show ?thesis .
qed

section \<open>Solvency\<close>

text \<open>
  C32: a farm never promises more than it emits. In every reachable state the stakes recorded for
  the users of a pool add up to its total, and what the pool has paid, what is pending and what has
  accrued since each position was last settled, scaled as the accumulator is, is at most what the
  pool has distributed.
\<close>
theorem farm_never_overpays:
  assumes "reachable (\<lambda>s. s = farm_store0) farm_step s" and "fs_pools s i = Some p"
  shows "pf_total_staked p = map_total uf_staked (stakers s i)
    \<and> SCALE_FACTOR * (paid s i + map_total uf_pending (stakers s i))
        + map_total (\<lambda>pos. (pf_accumulator p - uf_debt pos) * uf_staked pos) (stakers s i)
      \<le> SCALE_FACTOR * pf_distributed p"
  using farm_okD(2) [OF farm_machine.inv_reachable [OF assms(1)] assms(2)]
  by (simp add: farm_pool_ok_def accrued_def [abs_def])

text \<open>User 2 claims 100 units at time 10000; pool 7 has distributed 10000.\<close>

definition claimed_farm :: farm_store where
  "claimed_farm = demo_farm
     \<lparr>fs_pools := [7 \<mapsto> \<lparr>pf_total_staked = 10000, pf_accumulator = 1000000000000000000, pf_emission_rate = 1,
        pf_last_update = 10000, pf_distributed = 10000\<rparr>],
      fs_positions := (fs_positions demo_farm)((7, Addr 2) \<mapsto> (farm_stake 100)\<lparr>uf_debt := 1000000000000000000\<rparr>),
      fs_total_rewards := Some 10000,
      fs_events := fs_events demo_farm @ [RewardClaimed (Addr 2) 7 100 10000]\<rparr>"

lemma demo_claim: "claim_farm_rewards (demo_env 2 10000) demo_farm 7 (Addr 2) = Inr (100, claimed_farm)"
  by (simp add: claim_farm_rewards_def demo_farm_def claimed_farm_def farm_run_defs cong: bindR_weak_cong)

lemma claimed_farm_reachable: "reachable (\<lambda>s. s = farm_store0) farm_step claimed_farm"
  by (rule farm_reach [OF demo_farm_reachable, of "demo_env 2 10000" "ClaimFarm 7 (Addr 2)"]) (simp add: demo_claim)

theorem farm_never_overpays_witness:
  "10000 = map_total uf_staked (stakers claimed_farm 7) \<and> paid claimed_farm 7 = 100"
proof -
  have p: "fs_pools claimed_farm 7 = Some \<lparr>pf_total_staked = 10000, pf_accumulator = 1000000000000000000,
      pf_emission_rate = 1, pf_last_update = 10000, pf_distributed = 10000\<rparr>"
    by (simp add: claimed_farm_def)
  have "paid claimed_farm 7 = 100" by (simp add: paid_def claimed_farm_def demo_farm_def farm_after_def)
  with farm_never_overpays [OF claimed_farm_reachable p] show ?thesis by simp
qed

section \<open>Claims\<close>

text \<open>
  A claim pays the claimant's share. A successful claim was authorised by the user, and pays
  what was pending plus the stake's part of the accumulator's growth since the position was
  settled, rounded down, where the accumulator has grown by the emission of the elapsed time over
  the total stake; it leaves nothing pending, settles the position, and touches no other.
\<close>
theorem claim_pays_share:
  assumes reach: "reachable (\<lambda>s. s = farm_store0) farm_step s" and call: "claim_farm_rewards e s i u = Inr (n, s')"
    and p: "fs_pools s i = Some p" and pos: "fs_positions s (i, u) = Some pos"
    and acc: "acc = pf_accumulator p + int (now e - pf_last_update p) * pf_emission_rate p * SCALE_FACTOR div pf_total_staked p"
  shows "authorized e u \<and> 0 < n \<and> n = uf_pending pos + (acc - uf_debt pos) * uf_staked pos div SCALE_FACTOR
    \<and> fs_positions s' = (fs_positions s)((i, u) \<mapsto> pos\<lparr>uf_debt := acc, uf_pending := 0\<rparr>)"
proof -
  have live: "pf_accumulator (live_pool e s i) = acc" "live_position e s i u = pos\<lparr>uf_pending := uf_pending pos
      + (acc - uf_debt pos) * uf_staked pos div SCALE_FACTOR, uf_debt := acc\<rparr>"
    by (simp_all add: live_position_def live_pool_def settled_def accrued_def pool_or_fresh_def position_or_fresh_def
        p pos acc new_rewards_def)
  from claim_farm_rewards_effect [OF farm_machine.inv_reachable [OF reach] call] show ?thesis
    by (simp add: live)
qed

theorem claim_pays_share_witness:
  "100 = (0 + (0 + int (10000 - 0) * 1 * SCALE_FACTOR div 10000 - 0) * 100 div SCALE_FACTOR)
    \<and> fs_positions claimed_farm (7, Addr 2) = Some ((farm_stake 100)\<lparr>uf_debt := SCALE_FACTOR\<rparr>)"
proof -
  have p: "fs_pools demo_farm 7 = Some \<lparr>pf_total_staked = 10000, pf_accumulator = 0, pf_emission_rate = 1,
      pf_last_update = 0, pf_distributed = 0\<rparr>" "fs_positions demo_farm (7, Addr 2) = Some (farm_stake 100)"
    by (simp_all add: demo_farm_def farm_after_def)
  from claim_pays_share [OF demo_farm_reachable demo_claim p refl] show ?thesis
    by (simp add: farm_stake_def SCALE_FACTOR_def demo_env_def)
qed

section \<open>Other people's calls\<close>

text \<open>
  Nobody takes rewards away from a staker by staking, unstaking, claiming or changing rates.
  Every call other than one the user authorised, and other than the query of that user's pending
  rewards, leaves the user's position as it is, and the accumulator that values it does not fall.
\<close>
theorem others_keep_rewards:
  assumes reach: "reachable (\<lambda>s. s = farm_store0) farm_step s" and call: "farm_exec e s c = Inr s'"
    and other: "\<not> authorized e u" "c \<noteq> PendingFarm i u"
    and at: "fs_pools s i = Some p" "fs_positions s (i, u) = Some pos"
  shows "\<exists>p'. fs_pools s' i = Some p' \<and> fs_positions s' (i, u) = Some pos
    \<and> uf_pending pos + (pf_accumulator p - uf_debt pos) * uf_staked pos div SCALE_FACTOR
      \<le> uf_pending pos + (pf_accumulator p' - uf_debt pos) * uf_staked pos div SCALE_FACTOR"
proof -
  have ok: "farm_ok s" by (rule farm_machine.inv_reachable [OF reach])
  have "farm_target c \<noteq> Some (i, u)" using farm_target_auth [OF call] other by blast
  then have same: "fs_positions s' (i, u) = Some pos" using farm_exec_frame(1) [OF ok call] at by simp
  obtain p' where p': "fs_pools s' i = Some p'" "pf_accumulator p \<le> pf_accumulator p'"
    using farm_exec_frame(2) [OF ok call at(1)] by blast
  have "0 \<le> uf_staked pos" using farm_okD(3) [OF ok at(2)] by (auto simp: position_ok_def)
  with p'(2) have "(pf_accumulator p - uf_debt pos) * uf_staked pos \<le> (pf_accumulator p' - uf_debt pos) * uf_staked pos"
    by (simp add: mult_right_mono)
  then have "(pf_accumulator p - uf_debt pos) * uf_staked pos div SCALE_FACTOR
      \<le> (pf_accumulator p' - uf_debt pos) * uf_staked pos div SCALE_FACTOR"
    by (rule zdiv_mono1) (simp add: SCALE_FACTOR_def)
  with same p' show ?thesis by simp
qed

theorem others_keep_rewards_witness:
  "\<exists>p'. fs_pools claimed_farm 7 = Some p' \<and> fs_positions claimed_farm (7, Addr 3) = Some (farm_stake 9900)
    \<and> 0 \<le> pf_accumulator p' * 9900 div SCALE_FACTOR"
proof -
  have call: "farm_exec (demo_env 2 10000) demo_farm (ClaimFarm 7 (Addr 2)) = Inr claimed_farm"
    by (simp add: demo_claim)
  have p: "fs_pools demo_farm 7 = Some \<lparr>pf_total_staked = 10000, pf_accumulator = 0, pf_emission_rate = 1,
      pf_last_update = 0, pf_distributed = 0\<rparr>" "fs_positions demo_farm (7, Addr 3) = Some (farm_stake 9900)"
    by (simp_all add: demo_farm_def farm_after_def)
  have "\<not> authorized (demo_env 2 10000) (Addr 3)" by (simp add: demo_env_def)
  from others_keep_rewards [OF demo_farm_reachable call this _ p] show ?thesis by (simp add: farm_stake_def)
qed

section \<open>Rewards rounded away\<close>

text \<open>One query of a position with nothing pending, one second after the last update.\<close>

lemma starving_query:
  assumes ok: "farm_ok s" and p: "fs_pools s i = Some p" and pos: "fs_positions s (i, u) = Some pos"
    and small: "pf_emission_rate p * SCALE_FACTOR div pf_total_staked p * uf_staked pos < SCALE_FACTOR"
    and fresh: "uf_pending pos = 0" "uf_debt pos = pf_accumulator p" and total: "0 < pf_total_staked p"
    and t: "now e = Suc (pf_last_update p)" and call: "farm_exec e s (PendingFarm i u) = Inr s'"
  shows "\<exists>p' pos'. fs_pools s' i = Some p' \<and> fs_positions s' (i, u) = Some pos'
    \<and> uf_pending pos' = 0 \<and> uf_debt pos' = pf_accumulator p' \<and> uf_staked pos' = uf_staked pos
    \<and> pf_total_staked p' = pf_total_staked p \<and> pf_emission_rate p' = pf_emission_rate p \<and> pf_last_update p' = now e
    \<and> pf_distributed p' = pf_distributed p + pf_emission_rate p \<and> farm_ok s'"
proof -
  from call obtain n where c: "get_pending_farm_rewards e s i u = Inr (n, s')" by (auto simp: bindR_eq_Inr)
  note eff = get_pending_effect [OF ok c]
  have pk: "farm_pool_ok s i p" "position_ok p pos" using farm_okD(2) [OF ok p] farm_okD(3) [OF ok pos] p by auto
  have inc: "pf_accumulator (live_pool e s i) - pf_accumulator p = pf_emission_rate p * SCALE_FACTOR div pf_total_staked p"
    using t total by (simp add: live_pool_def pool_or_fresh_def p new_rewards_def)
  have "0 \<le> pf_emission_rate p * SCALE_FACTOR div pf_total_staked p * uf_staked pos"
    using pk total by (simp add: farm_pool_ok_def position_ok_def SCALE_FACTOR_def pos_imp_zdiv_nonneg_iff)
  then have "uf_pending (live_position e s i u) = 0"
    using small fresh inc by (simp add: live_position_def settled_def accrued_def position_or_fresh_def pos div_pos_pos_trivial)
  moreover have "pf_last_update (live_pool e s i) = now e" "pf_distributed (live_pool e s i) = pf_distributed p + pf_emission_rate p"
    using t total by (simp_all add: live_pool_def accumulated_def pool_or_fresh_def p new_rewards_def)
  ultimately show ?thesis using eff p pos by (simp add: pool_or_fresh_def position_or_fresh_def)
qed

text \<open>
  A stake can be starved. If one second's emission over the total stake is worth less than one
  unit to a staker, a query of its pending rewards every second, which anyone may make without
  authorisation, leaves the staker with nothing pending and nothing accrued for ever, while the
  pool goes on distributing its full rate: each query settles the position and rounds down.
\<close>
theorem query_starves_staker:
  assumes reach: "reachable (\<lambda>s. s = farm_store0) farm_step s" and p: "fs_pools s i = Some p"
    and pos: "fs_positions s (i, u) = Some pos" and fresh: "uf_pending pos = 0" "uf_debt pos = pf_accumulator p"
    and total: "0 < pf_total_staked p"
    and small: "pf_emission_rate p * SCALE_FACTOR div pf_total_staked p * uf_staked pos < SCALE_FACTOR"
    and run: "foldR (\<lambda>t s. farm_exec \<lparr>self_addr = Addr 0, now = t, authorized = (\<lambda>_. False)\<rparr> s (PendingFarm i u))
      [Suc (pf_last_update p)..<Suc (pf_last_update p) + n] s = Inr s'"
  shows "\<exists>p' pos'. fs_pools s' i = Some p' \<and> fs_positions s' (i, u) = Some pos' \<and> uf_pending pos' = 0
    \<and> (pf_accumulator p' - uf_debt pos') * uf_staked pos' = 0 \<and> uf_staked pos' = uf_staked pos
    \<and> pf_distributed p' = pf_distributed p + int n * pf_emission_rate p"
proof -
  let ?e = "\<lambda>t. \<lparr>self_addr = Addr 0, now = t, authorized = (\<lambda>_. False)\<rparr>"
  let ?f = "\<lambda>t s. farm_exec (?e t) s (PendingFarm i u)"
  have "\<exists>p' pos'. fs_pools s' i = Some p' \<and> fs_positions s' (i, u) = Some pos' \<and> uf_pending pos' = 0
      \<and> uf_debt pos' = pf_accumulator p' \<and> uf_staked pos' = uf_staked pos
      \<and> pf_distributed p' = pf_distributed p + int n * pf_emission_rate p"
    if "farm_ok s" "fs_pools s i = Some p" "fs_positions s (i, u) = Some pos" "uf_pending pos = 0"
      "uf_debt pos = pf_accumulator p" "0 < pf_total_staked p"
      "pf_emission_rate p * SCALE_FACTOR div pf_total_staked p * uf_staked pos < SCALE_FACTOR"
      "foldR ?f [Suc (pf_last_update p)..<Suc (pf_last_update p) + n] s = Inr s'" for s p pos
    using that
  proof (induction n arbitrary: s p pos)
    case 0
    then show ?case by simp
  next
    case (Suc n)
    let ?t = "Suc (pf_last_update p)"
    have "[?t..<?t + Suc n] = ?t # [Suc ?t..<Suc ?t + n]" by (simp add: upt_conv_Cons)
    with Suc.prems(8) obtain s1 where one: "?f ?t s = Inr s1" and rest: "foldR ?f [Suc ?t..<Suc ?t + n] s1 = Inr s'"
      by (auto simp: bindR_eq_Inr)
    have "now (?e ?t) = Suc (pf_last_update p)" by simp
    from starving_query [OF Suc.prems(1-3,7,4,5,6) this one] obtain p1 pos1 where
      s1: "fs_pools s1 i = Some p1" "fs_positions s1 (i, u) = Some pos1" "uf_pending pos1 = 0" "uf_debt pos1 = pf_accumulator p1"
        "farm_ok s1" and same: "uf_staked pos1 = uf_staked pos" "pf_total_staked p1 = pf_total_staked p"
        "pf_emission_rate p1 = pf_emission_rate p" "pf_last_update p1 = ?t" "pf_distributed p1 = pf_distributed p + pf_emission_rate p"
      by auto
    from Suc.IH [OF s1(5,1-4)] Suc.prems(6,7) rest same show ?case by (simp add: algebra_simps)
  qed
  from this [OF farm_machine.inv_reachable [OF reach] p pos fresh total small run] show ?thesis by auto
qed

text \<open>User 2 holds 100 of 10000 staked at one unit per second; three queries, and nothing accrues.\<close>

definition starved_farm :: "nat \<Rightarrow> int \<Rightarrow> int \<Rightarrow> farm_store" where
  "starved_farm t dist acc = demo_farm
     \<lparr>fs_pools := [7 \<mapsto> \<lparr>pf_total_staked = 10000, pf_accumulator = acc, pf_emission_rate = 1, pf_last_update = t,
        pf_distributed = dist\<rparr>],
      fs_positions := (fs_positions demo_farm)((7, Addr 2) \<mapsto> (farm_stake 100)\<lparr>uf_debt := acc\<rparr>),
      fs_total_rewards := Some dist\<rparr>"

lemma demo_queries:
  "farm_exec \<lparr>self_addr = Addr 0, now = 1, authorized = (\<lambda>_. False)\<rparr> demo_farm (PendingFarm 7 (Addr 2))
     = Inr (starved_farm 1 1 100000000000000)"
  "farm_exec \<lparr>self_addr = Addr 0, now = 2, authorized = (\<lambda>_. False)\<rparr> (starved_farm 1 1 100000000000000) (PendingFarm 7 (Addr 2))
     = Inr (starved_farm 2 2 200000000000000)"
  "farm_exec \<lparr>self_addr = Addr 0, now = 3, authorized = (\<lambda>_. False)\<rparr> (starved_farm 2 2 200000000000000) (PendingFarm 7 (Addr 2))
     = Inr (starved_farm 3 3 300000000000000)"
  by (simp_all add: get_pending_farm_rewards_def demo_farm_def starved_farm_def farm_run_defs cong: bindR_weak_cong)

theorem query_starves_staker_witness:
  "\<exists>p' pos'. fs_pools (starved_farm 3 3 300000000000000) 7 = Some p'
    \<and> fs_positions (starved_farm 3 3 300000000000000) (7, Addr 2) = Some pos'
    \<and> uf_pending pos' = 0 \<and> uf_staked pos' = 100 \<and> pf_distributed p' = 3"
proof -
  let ?s = "starved_farm 3 3 300000000000000"
  have p: "fs_pools demo_farm 7 = Some \<lparr>pf_total_staked = 10000, pf_accumulator = 0, pf_emission_rate = 1,
      pf_last_update = 0, pf_distributed = 0\<rparr>" "fs_positions demo_farm (7, Addr 2) = Some (farm_stake 100)"
    by (simp_all add: demo_farm_def farm_after_def)
  have "[Suc 0..<Suc 0 + 3] = [1, 2, 3]" by (simp add: upt_rec)
  then have run: "foldR (\<lambda>t s. farm_exec \<lparr>self_addr = Addr 0, now = t, authorized = (\<lambda>_. False)\<rparr> s (PendingFarm 7 (Addr 2)))
      [Suc 0..<Suc 0 + 3] demo_farm = Inr ?s"
    by (simp add: demo_queries del: farm_exec.simps One_nat_def)
  have "\<exists>p' pos'. fs_pools ?s 7 = Some p' \<and> fs_positions ?s (7, Addr 2) = Some pos' \<and> uf_pending pos' = 0
      \<and> (pf_accumulator p' - uf_debt pos') * uf_staked pos' = 0 \<and> uf_staked pos' = 100 \<and> pf_distributed p' = 0 + int 3 * 1"
    using query_starves_staker [OF demo_farm_reachable p, of 3 ?s] run
    by (simp add: farm_stake_def SCALE_FACTOR_def del: farm_exec.simps foldR.simps)
  then show ?thesis by auto
qed

end
