(* ===== verification/Staking.thy ===== *)
theory Staking
  imports Kyc
begin

text \<open>
  Staking with bonuses in the counter contract (\<open>counter/src/staking_bonus.rs\<close> and the staking
  entry points of \<open>counter/src/lib.rs\<close>): stakes for 30, 60, 90 or 365 days, their bonuses, early and
  regular exits, and the periodic distribution. The module keeps amounts only; it moves no tokens.
\<close>

section \<open>Data\<close>

definition TIER_30_DAYS_SECS :: nat where "TIER_30_DAYS_SECS = 30 * 24 * 60 * 60"
definition TIER_30_DAYS_BONUS_BPS :: nat where "TIER_30_DAYS_BONUS_BPS = 500"
definition TIER_60_DAYS_SECS :: nat where "TIER_60_DAYS_SECS = 60 * 24 * 60 * 60"
definition TIER_60_DAYS_BONUS_BPS :: nat where "TIER_60_DAYS_BONUS_BPS = 1200"
definition TIER_90_DAYS_SECS :: nat where "TIER_90_DAYS_SECS = 90 * 24 * 60 * 60"
definition TIER_90_DAYS_BONUS_BPS :: nat where "TIER_90_DAYS_BONUS_BPS = 2000"
definition TIER_365_DAYS_SECS :: nat where "TIER_365_DAYS_SECS = 365 * 24 * 60 * 60"
definition TIER_365_DAYS_BONUS_BPS :: nat where "TIER_365_DAYS_BONUS_BPS = 5000"
definition BONUS_HOLDING_PERIOD_SECS :: nat where "BONUS_HOLDING_PERIOD_SECS = 30 * 24 * 60 * 60"
definition DISTRIBUTION_PERIOD_SECS :: nat where "DISTRIBUTION_PERIOD_SECS = 7 * 24 * 60 * 60"

record stake_record =
  sr_amount :: int
  sr_staked_at :: nat
  sr_unlock_at :: nat
  sr_duration_secs :: nat
  sr_bonus_bps :: nat
  sr_bonus_amount :: int
  sr_bonus_claimed :: bool
  sr_claimable_at :: nat
  sr_is_active :: bool

record distribution_record =
  dr_distributed_at :: nat
  dr_total_distributed :: int
  dr_recipient_count :: nat
  dr_average_bonus :: int

datatype staking_event =
    Staked address nat int nat
  | UnstakedEarly address nat int
  | BonusClaimed address int
  | StakeClaimed address nat int
  | Distributed nat int nat

text \<open>One field per kind of storage key (\<open>StakingBonusKey\<close>).\<close>

record staking_store =
  ss_stakes :: "address \<rightharpoonup> stake_record list"
  ss_user_total :: "address \<rightharpoonup> int"
  ss_earned :: "address \<rightharpoonup> int"
  ss_claimed :: "address \<rightharpoonup> int"
  ss_distributions :: "distribution_record list option"
  ss_last_distribution :: "nat option"
  ss_total :: "int option"
  ss_bonuses_distributed :: "int option"
  ss_registry :: "address list option"
  ss_events :: "staking_event list"

definition staking_store0 :: staking_store where
  "staking_store0 = \<lparr>ss_stakes = Map.empty, ss_user_total = Map.empty, ss_earned = Map.empty, ss_claimed = Map.empty,
     ss_distributions = None, ss_last_distribution = None, ss_total = None, ss_bonuses_distributed = None,
     ss_registry = None, ss_events = []\<rparr>"

definition staking_publish :: "staking_event \<Rightarrow> staking_store \<Rightarrow> staking_store" where
  "staking_publish ev s = s\<lparr>ss_events := ss_events s @ [ev]\<rparr>"

definition default :: "'a \<Rightarrow> 'a option \<Rightarrow> 'a" where
  "default d x = (case x of None \<Rightarrow> d | Some a \<Rightarrow> a)"

section \<open>Queries\<close>

definition get_user_stakes :: "staking_store \<Rightarrow> address \<Rightarrow> stake_record list" where
  "get_user_stakes s user = default [] (ss_stakes s user)"

definition get_user_total_staked :: "staking_store \<Rightarrow> address \<Rightarrow> int" where
  "get_user_total_staked s user = default 0 (ss_user_total s user)"

definition get_total_staked :: "staking_store \<Rightarrow> int" where
  "get_total_staked s = default 0 (ss_total s)"

definition get_user_claimed_bonuses :: "staking_store \<Rightarrow> address \<Rightarrow> int" where
  "get_user_claimed_bonuses s user = default 0 (ss_claimed s user)"

text \<open>The sums of the getters and of the distribution add up the bonuses of some of the stakes, with checked addition.\<close>

fun sum_bonuses :: "(stake_record \<Rightarrow> bool) \<Rightarrow> stake_record list \<Rightarrow> int \<Rightarrow> (int, counter_error) res" where
  "sum_bonuses P [] acc = Inr acc"
| "sum_bonuses P (r # rs) acc =
     (if P r then bindR (i_add acc (sr_bonus_amount r)) (sum_bonuses P rs) else sum_bonuses P rs acc)"

definition get_user_earned_bonuses :: "staking_store \<Rightarrow> address \<Rightarrow> (int, counter_error) res" where
  "get_user_earned_bonuses s user = sum_bonuses sr_is_active (get_user_stakes s user) 0"

definition get_user_pending_bonuses :: "env \<Rightarrow> staking_store \<Rightarrow> address \<Rightarrow> (int, counter_error) res" where
  "get_user_pending_bonuses e s user =
     sum_bonuses (\<lambda>r. sr_is_active r \<and> \<not> sr_bonus_claimed r \<and> now e \<ge> sr_claimable_at r)
       (get_user_stakes s user) 0"

definition get_stake_details :: "staking_store \<Rightarrow> address \<Rightarrow> nat \<Rightarrow> (stake_record, counter_error) res" where
  "get_stake_details s user stake_id =
     (let stakes = get_user_stakes s user in
      bindR (ensure (\<not> stake_id \<ge> length stakes) (Err StakeNotFound)) (\<lambda>_.
      Inr (stakes ! stake_id)))"

definition get_statistics :: "staking_store \<Rightarrow> int \<times> int \<times> nat" where
  "get_statistics s = (default 0 (ss_total s), default 0 (ss_bonuses_distributed s), length (default [] (ss_distributions s)))"

definition get_distribution_history :: "staking_store \<Rightarrow> distribution_record list" where
  "get_distribution_history s = default [] (ss_distributions s)"

section \<open>Staking\<close>

definition calculate_bonus :: "int \<Rightarrow> nat \<Rightarrow> (int, counter_error) res" where
  "calculate_bonus amount bonus_bps = bindR (i_mul amount (int bonus_bps)) (\<lambda>x. i_div x 10000)"

definition get_bonus_tier :: "nat \<Rightarrow> nat" where
  "get_bonus_tier duration_secs =
     (if duration_secs = TIER_30_DAYS_SECS then TIER_30_DAYS_BONUS_BPS
      else if duration_secs = TIER_60_DAYS_SECS then TIER_60_DAYS_BONUS_BPS
      else if duration_secs = TIER_90_DAYS_SECS then TIER_90_DAYS_BONUS_BPS
      else if duration_secs = TIER_365_DAYS_SECS then TIER_365_DAYS_BONUS_BPS
      else 0)"

text \<open>The two \<open>match duration_days\<close> of \<open>stake\<close>.\<close>

definition duration_of :: "nat \<Rightarrow> (nat, counter_error) res" where
  "duration_of duration_days =
     (if duration_days = 30 then Inr TIER_30_DAYS_SECS
      else if duration_days = 60 then Inr TIER_60_DAYS_SECS
      else if duration_days = 90 then Inr TIER_90_DAYS_SECS
      else if duration_days = 365 then Inr TIER_365_DAYS_SECS
      else Inl (Err InvalidStakeDuration))"

definition bonus_of :: "nat \<Rightarrow> (nat, counter_error) res" where
  "bonus_of duration_days =
     (if duration_days = 30 then Inr TIER_30_DAYS_BONUS_BPS
      else if duration_days = 60 then Inr TIER_60_DAYS_BONUS_BPS
      else if duration_days = 90 then Inr TIER_90_DAYS_BONUS_BPS
      else if duration_days = 365 then Inr TIER_365_DAYS_BONUS_BPS
      else Inl (Err InvalidStakeDuration))"

definition stake :: "env \<Rightarrow> staking_store \<Rightarrow> address \<Rightarrow> int \<Rightarrow> nat \<Rightarrow> (nat \<times> staking_store, counter_error) res" where
  "stake e s user amount duration_days =
     bindR (ensure (\<not> amount \<le> 0) (Err InvalidAmount)) (\<lambda>_.
     bindR (duration_of duration_days) (\<lambda>duration_secs.
     let current_time = now e in
     bindR (u_add 64 current_time duration_secs) (\<lambda>unlock_time.
     bindR (u_add 64 current_time BONUS_HOLDING_PERIOD_SECS) (\<lambda>claimable_time.
     bindR (bonus_of duration_days) (\<lambda>bonus_bps.
     bindR (calculate_bonus amount bonus_bps) (\<lambda>bonus_amount.
     let r = \<lparr>sr_amount = amount, sr_staked_at = current_time, sr_unlock_at = unlock_time,
               sr_duration_secs = duration_secs, sr_bonus_bps = bonus_bps, sr_bonus_amount = bonus_amount,
               sr_bonus_claimed = False, sr_claimable_at = claimable_time, sr_is_active = True\<rparr>;
         stakes = default [] (ss_stakes s user);
         stake_id = length stakes;
         s1 = (if stake_id = 0 then s\<lparr>ss_registry := Some (default [] (ss_registry s) @ [user])\<rparr> else s);
         s2 = s1\<lparr>ss_stakes := (ss_stakes s1)(user \<mapsto> stakes @ [r])\<rparr> in
     bindR (i_add (default 0 (ss_user_total s2 user)) amount) (\<lambda>user_total.
     let s3 = s2\<lparr>ss_user_total := (ss_user_total s2)(user \<mapsto> user_total)\<rparr> in
     bindR (i_add (default 0 (ss_total s3)) amount) (\<lambda>global_total.
     Inr (stake_id, staking_publish (Staked user duration_days amount bonus_bps) (s3\<lparr>ss_total := Some global_total\<rparr>))))))))))"

text \<open>The tail that \<open>unstake_early\<close> and \<open>claim_stake\<close> share: the stake becomes inactive and leaves both totals.\<close>

definition close_stake :: "staking_store \<Rightarrow> address \<Rightarrow> stake_record list \<Rightarrow> nat \<Rightarrow> stake_record \<Rightarrow> int
    \<Rightarrow> (staking_store, counter_error) res" where
  "close_stake s user stakes stake_id r amount =
     (let s1 = s\<lparr>ss_stakes := (ss_stakes s)(user \<mapsto> stakes[stake_id := r\<lparr>sr_is_active := False\<rparr>])\<rparr> in
      bindR (i_sub (default 0 (ss_user_total s1 user)) amount) (\<lambda>user_total.
      let s2 = s1\<lparr>ss_user_total := (ss_user_total s1)(user \<mapsto> user_total)\<rparr> in
      bindR (i_sub (default 0 (ss_total s2)) amount) (\<lambda>global_total.
      Inr (s2\<lparr>ss_total := Some global_total\<rparr>))))"

definition unstake_early :: "staking_store \<Rightarrow> address \<Rightarrow> nat \<Rightarrow> ((int \<times> int) \<times> staking_store, counter_error) res" where
  "unstake_early s user stake_id =
     bindR (ok_or (ss_stakes s user) (Err StakeNotFound)) (\<lambda>stakes.
     bindR (ensure (\<not> stake_id \<ge> length stakes) (Err StakeNotFound)) (\<lambda>_.
     let r = stakes ! stake_id in
     bindR (ensure (sr_is_active r) (Err StakeNotActive)) (\<lambda>_.
     bindR (i_mul (sr_amount r) 10) (\<lambda>ten.
     bindR (i_div ten 100) (\<lambda>penalty.
     bindR (i_sub (sr_amount r) penalty) (\<lambda>principal_returned.
     bindR (close_stake s user stakes stake_id r (sr_amount r)) (\<lambda>s1.
     Inr ((principal_returned, penalty), staking_publish (UnstakedEarly user stake_id penalty) s1))))))))"

definition claim_stake :: "env \<Rightarrow> staking_store \<Rightarrow> address \<Rightarrow> nat \<Rightarrow> (int \<times> staking_store, counter_error) res" where
  "claim_stake e s user stake_id =
     bindR (ok_or (ss_stakes s user) (Err StakeNotFound)) (\<lambda>stakes.
     bindR (ensure (\<not> stake_id \<ge> length stakes) (Err StakeNotFound)) (\<lambda>_.
     let r = stakes ! stake_id in
     bindR (ensure (sr_is_active r) (Err StakeNotActive)) (\<lambda>_.
     bindR (ensure (\<not> now e < sr_unlock_at r) (Err StakeLocked)) (\<lambda>_.
     let principal = sr_amount r in
     bindR (close_stake s user stakes stake_id r principal) (\<lambda>s1.
     Inr (principal, staking_publish (StakeClaimed user stake_id principal) s1))))))"

section \<open>Bonuses\<close>

definition bonus_due :: "nat \<Rightarrow> stake_record \<Rightarrow> bool" where
  "bonus_due current_time r \<longleftrightarrow> \<not> sr_bonus_claimed r \<and> sr_is_active r \<and> current_time \<ge> sr_claimable_at r
     \<and> sr_bonus_amount r > 0"

fun claim_loop :: "nat \<Rightarrow> stake_record list \<Rightarrow> int \<Rightarrow> (int \<times> stake_record list, counter_error) res" where
  "claim_loop t [] total_claimed = Inr (total_claimed, [])"
| "claim_loop t (r # rs) total_claimed =
     (if bonus_due t r
      then bindR (i_add total_claimed (sr_bonus_amount r)) (\<lambda>total1.
           bindR (claim_loop t rs total1) (\<lambda>(total2, rs'). Inr (total2, r\<lparr>sr_bonus_claimed := True\<rparr> # rs')))
      else bindR (claim_loop t rs total_claimed) (\<lambda>(total2, rs'). Inr (total2, r # rs')))"

definition claim_bonuses :: "env \<Rightarrow> staking_store \<Rightarrow> address \<Rightarrow> (int \<times> staking_store, counter_error) res" where
  "claim_bonuses e s user =
     bindR (ok_or (ss_stakes s user) (Err StakeNotFound)) (\<lambda>stakes.
     bindR (claim_loop (now e) stakes 0) (\<lambda>(total_claimed, stakes').
     bindR (ensure (total_claimed \<noteq> 0) (Err NoClaimableBonuses)) (\<lambda>_.
     let s1 = s\<lparr>ss_stakes := (ss_stakes s)(user \<mapsto> stakes')\<rparr> in
     bindR (i_add (default 0 (ss_claimed s1 user)) total_claimed) (\<lambda>claimed.
     let s2 = s1\<lparr>ss_claimed := (ss_claimed s1)(user \<mapsto> claimed)\<rparr> in
     bindR (i_add (default 0 (ss_bonuses_distributed s2)) total_claimed) (\<lambda>distributed.
     Inr (total_claimed, staking_publish (BonusClaimed user total_claimed)
       (s2\<lparr>ss_bonuses_distributed := Some distributed\<rparr>)))))))"

text \<open>The loop over the registered stakers: what the distribution credits, and to how many.\<close>

fun distribution_loop :: "address list \<Rightarrow> staking_store \<Rightarrow> int \<Rightarrow> nat
    \<Rightarrow> (int \<times> nat \<times> staking_store, counter_error) res" where
  "distribution_loop [] s total_distributed recipient_count = Inr (total_distributed, recipient_count, s)"
| "distribution_loop (staker # stakers) s total_distributed recipient_count =
     bindR (sum_bonuses (\<lambda>r. sr_is_active r \<and> \<not> sr_bonus_claimed r) (default [] (ss_stakes s staker)) 0) (\<lambda>user_bonus.
     if user_bonus > 0
     then bindR (i_add (default 0 (ss_earned s staker)) user_bonus) (\<lambda>earned.
          bindR (i_add total_distributed user_bonus) (\<lambda>total1.
          bindR (u_add 32 recipient_count 1) (\<lambda>count1.
          distribution_loop stakers (s\<lparr>ss_earned := (ss_earned s)(staker \<mapsto> earned)\<rparr>) total1 count1)))
     else distribution_loop stakers s total_distributed recipient_count)"

definition execute_distribution :: "env \<Rightarrow> staking_store \<Rightarrow> (distribution_record \<times> staking_store, counter_error) res" where
  "execute_distribution e s =
     (let current_time = now e; last_distribution = default 0 (ss_last_distribution s) in
      bindR (u_add 64 last_distribution DISTRIBUTION_PERIOD_SECS) (\<lambda>due.
      bindR (ensure (\<not> current_time < due) (Err DistributionTooEarly)) (\<lambda>_.
      bindR (distribution_loop (default [] (ss_registry s)) s 0 0) (\<lambda>(total_distributed, recipient_count, s1).
      bindR (if recipient_count > 0 then i_div total_distributed (int recipient_count) else Inr 0) (\<lambda>average_bonus.
      let d = \<lparr>dr_distributed_at = current_time, dr_total_distributed = total_distributed,
                dr_recipient_count = recipient_count, dr_average_bonus = average_bonus\<rparr>;
          s2 = s1\<lparr>ss_distributions := Some (default [] (ss_distributions s1) @ [d]),
                   ss_last_distribution := Some current_time\<rparr>
      in Inr (d, staking_publish (Distributed current_time total_distributed recipient_count) s2))))))"

section \<open>Entry points\<close>

text \<open>
  The query caches of the contract, by the keys that hold a result; the entry points drop the three
  below after a change.
\<close>

definition invalidate_query_cache :: "symbol set \<Rightarrow> symbol set" where
  "invalidate_query_cache caches = caches - {''pcache'', ''tcache'', ''pnlcache''}"

record staking_host =
  sh_kyc :: kyc_store
  sh_staking :: staking_store
  sh_caches :: "symbol set"

definition require_authenticated_verified_user :: "env \<Rightarrow> staking_host \<Rightarrow> address \<Rightarrow> (unit, counter_error) res" where
  "require_authenticated_verified_user e h user =
     bindR (require_auth e user) (\<lambda>_. require_verified e (sh_kyc h) user)"

definition after_staking :: "staking_host \<Rightarrow> 'a \<times> staking_store \<Rightarrow> ('a \<times> staking_host, counter_error) res" where
  "after_staking h = (\<lambda>(result, s). Inr (result, h\<lparr>sh_staking := s, sh_caches := invalidate_query_cache (sh_caches h)\<rparr>))"

definition cc_stake :: "env \<Rightarrow> staking_host \<Rightarrow> address \<Rightarrow> int \<Rightarrow> nat \<Rightarrow> (nat \<times> staking_host, counter_error) res" where
  "cc_stake e h user amount duration_days =
     bindR (require_authenticated_verified_user e h user) (\<lambda>_.
     bindR (stake e (sh_staking h) user amount duration_days) (after_staking h))"

definition claim_staking_bonuses :: "env \<Rightarrow> staking_host \<Rightarrow> address \<Rightarrow> (int \<times> staking_host, counter_error) res" where
  "claim_staking_bonuses e h user =
     bindR (require_authenticated_verified_user e h user) (\<lambda>_.
     bindR (claim_bonuses e (sh_staking h) user) (after_staking h))"

definition cc_claim_stake :: "env \<Rightarrow> staking_host \<Rightarrow> address \<Rightarrow> nat \<Rightarrow> (int \<times> staking_host, counter_error) res" where
  "cc_claim_stake e h user stake_id =
     bindR (require_authenticated_verified_user e h user) (\<lambda>_.
     bindR (claim_stake e (sh_staking h) user stake_id) (after_staking h))"

definition cc_unstake_early :: "env \<Rightarrow> staking_host \<Rightarrow> address \<Rightarrow> nat \<Rightarrow> ((int \<times> int) \<times> staking_host, counter_error) res" where
  "cc_unstake_early e h user stake_id =
     bindR (require_authenticated_verified_user e h user) (\<lambda>_.
     bindR (unstake_early (sh_staking h) user stake_id) (after_staking h))"

definition execute_staking_distribution :: "env \<Rightarrow> staking_host \<Rightarrow> (distribution_record \<times> staking_host, counter_error) res" where
  "execute_staking_distribution e h =
     bindR (execute_distribution e (sh_staking h)) (\<lambda>(d, s). Inr (d, h\<lparr>sh_staking := s\<rparr>))"

end
