(* ===== verification/Staking_Props.thy ===== *)
theory Staking_Props
  imports Staking
begin

text \<open>
  The books of staking: per user and globally, the totals are the sums over the stakes, and what has
  been claimed is the sum of the bonuses marked as claimed. Every call keeps them.
\<close>

section \<open>The invariant\<close>

definition active_amount :: "stake_record \<Rightarrow> int" where
  "active_amount r = (if sr_is_active r then sr_amount r else 0)"

definition claimed_amount :: "stake_record \<Rightarrow> int" where
  "claimed_amount r = (if sr_bonus_claimed r then sr_bonus_amount r else 0)"

definition staked_in :: "stake_record list \<Rightarrow> int" where
  "staked_in rs = sum_list (map active_amount rs)"

definition claimed_in :: "stake_record list \<Rightarrow> int" where
  "claimed_in rs = sum_list (map claimed_amount rs)"

definition stake_ok :: "stake_record \<Rightarrow> bool" where
  "stake_ok r \<longleftrightarrow> 0 < sr_amount r \<and> 0 < sr_bonus_bps r \<and> sr_bonus_bps r = get_bonus_tier (sr_duration_secs r)
     \<and> sr_bonus_amount r = sr_amount r * int (sr_bonus_bps r) div 10000
     \<and> sr_unlock_at r = sr_staked_at r + sr_duration_secs r
     \<and> sr_claimable_at r = sr_staked_at r + BONUS_HOLDING_PERIOD_SECS"

definition staking_ok :: "staking_store \<Rightarrow> bool" where
  "staking_ok s \<longleftrightarrow> finite (dom (ss_stakes s))
     \<and> (\<forall>u. get_user_total_staked s u = staked_in (get_user_stakes s u))
     \<and> (\<forall>u. get_user_claimed_bonuses s u = claimed_in (get_user_stakes s u))
     \<and> get_total_staked s = map_total staked_in (ss_stakes s)
     \<and> default 0 (ss_bonuses_distributed s) = map_total claimed_in (ss_stakes s)
     \<and> (\<forall>u. list_all stake_ok (get_user_stakes s u))"

lemma default_simps [simp]: "default d None = d" "default d (Some a) = a"
  by (simp_all add: default_def)

lemma in_Nil [simp]: "staked_in [] = 0" "claimed_in [] = 0"
  by (simp_all add: staked_in_def claimed_in_def)

lemma in_append [simp]: "staked_in (rs @ qs) = staked_in rs + staked_in qs" "claimed_in (rs @ qs) = claimed_in rs + claimed_in qs"
  by (simp_all add: staked_in_def claimed_in_def)

lemma in_Cons [simp]: "staked_in (r # rs) = active_amount r + staked_in rs" "claimed_in (r # rs) = claimed_amount r + claimed_in rs"
  by (simp_all add: staked_in_def claimed_in_def)

lemma in_update: "i < length rs \<Longrightarrow> staked_in (rs[i := r]) = staked_in rs - active_amount (rs ! i) + active_amount r"
  "i < length rs \<Longrightarrow> claimed_in (rs[i := r]) = claimed_in rs - claimed_amount (rs ! i) + claimed_amount r"
  by (induction rs arbitrary: i; simp split: nat.split)+

lemma staking_store0_ok: "staking_ok staking_store0"
  by (simp add: staking_ok_def staking_store0_def get_user_total_staked_def get_user_stakes_def
      get_user_claimed_bonuses_def get_total_staked_def)

lemma staking_okD:
  assumes "staking_ok s"
  shows "finite (dom (ss_stakes s))" and "get_user_total_staked s u = staked_in (get_user_stakes s u)"
    and "get_user_claimed_bonuses s u = claimed_in (get_user_stakes s u)"
    and "get_total_staked s = map_total staked_in (ss_stakes s)"
    and "default 0 (ss_bonuses_distributed s) = map_total claimed_in (ss_stakes s)"
    and "list_all stake_ok (get_user_stakes s u)"
  using assms by (simp_all add: staking_ok_def)

text \<open>A call that rewrites the stakes of one user and books the difference.\<close>

lemma staking_ok_put:
  assumes ok: "staking_ok s" and st: "ss_stakes s' = (ss_stakes s)(u \<mapsto> rs)" and good: "list_all stake_ok rs"
    and ut: "get_user_total_staked s' u = get_user_total_staked s u + (staked_in rs - staked_in (get_user_stakes s u))"
    and ut': "\<And>v. v \<noteq> u \<Longrightarrow> get_user_total_staked s' v = get_user_total_staked s v"
    and uc: "get_user_claimed_bonuses s' u = get_user_claimed_bonuses s u + (claimed_in rs - claimed_in (get_user_stakes s u))"
    and uc': "\<And>v. v \<noteq> u \<Longrightarrow> get_user_claimed_bonuses s' v = get_user_claimed_bonuses s v"
    and tot: "get_total_staked s' = get_total_staked s + (staked_in rs - staked_in (get_user_stakes s u))"
    and dist: "default 0 (ss_bonuses_distributed s')
      = default 0 (ss_bonuses_distributed s) + (claimed_in rs - claimed_in (get_user_stakes s u))"
  shows "staking_ok s'"
proof -
  note d = staking_okD [OF ok]
  have new: "get_user_stakes s' v = (if v = u then rs else get_user_stakes s v)" for v
    by (simp add: get_user_stakes_def st)
  have sum: "map_total f (ss_stakes s') = map_total f (ss_stakes s) + (f rs - f (get_user_stakes s u))"
    if "f [] = 0" for f :: "stake_record list \<Rightarrow> int"
    unfolding st using that by (simp add: map_total_upd [OF d(1)] get_user_stakes_def split: option.split)
  show ?thesis unfolding staking_ok_def
  proof (intro conjI allI)
    show "finite (dom (ss_stakes s'))" using d(1) by (simp add: st)
    show "get_user_total_staked s' v = staked_in (get_user_stakes s' v)" for v
      by (cases "v = u") (simp_all add: new ut ut' d(2))
    show "get_user_claimed_bonuses s' v = claimed_in (get_user_stakes s' v)" for v
      by (cases "v = u") (simp_all add: new uc uc' d(3))
    show "get_total_staked s' = map_total staked_in (ss_stakes s')" by (simp add: sum tot d(4))
    show "default 0 (ss_bonuses_distributed s') = map_total claimed_in (ss_stakes s')" by (simp add: sum dist d(5))
    show "list_all stake_ok (get_user_stakes s' v)" for v using good d(6) by (simp add: new)
  qed
qed

section \<open>What a successful call does\<close>

lemma duration_of_tier: "duration_of d = Inr n \<Longrightarrow> bonus_of d = Inr b \<Longrightarrow> b = get_bonus_tier n \<and> 0 < b"
  by (auto simp: duration_of_def bonus_of_def get_bonus_tier_def TIER_30_DAYS_SECS_def TIER_60_DAYS_SECS_def
      TIER_90_DAYS_SECS_def TIER_365_DAYS_SECS_def TIER_30_DAYS_BONUS_BPS_def TIER_60_DAYS_BONUS_BPS_def
      TIER_90_DAYS_BONUS_BPS_def TIER_365_DAYS_BONUS_BPS_def split: if_splits)

lemma i_div_nonneg_D:
  assumes "(i_div a b :: (int, 'e) res) = Inr q" "0 \<le> a" "0 < b" "i128_ok a"
  shows "q = a div b"
proof -
  have "(i_div a b :: (int, 'e) res) = Inr (a div b)" by (rule i_div_nonneg [OF assms(2-4)])
  with assms(1) show ?thesis by simp
qed

lemma calculate_bonus_nonneg:
  "calculate_bonus a bps = Inr b \<Longrightarrow> 0 \<le> a \<Longrightarrow> b = a * int bps div 10000"
  by (auto simp: calculate_bonus_def bindR_eq_Inr i_mul_eq_Inr intro: i_div_nonneg_D)

lemma stake_effect:
  assumes call: "stake e s u a d = Inr (k, s')"
  shows "\<exists>r. stake_ok r \<and> sr_amount r = a \<and> sr_is_active r \<and> \<not> sr_bonus_claimed r \<and> sr_staked_at r = now e
    \<and> duration_of d = Inr (sr_duration_secs r) \<and> k = length (get_user_stakes s u)
    \<and> ss_stakes s' = (ss_stakes s)(u \<mapsto> get_user_stakes s u @ [r])
    \<and> ss_user_total s' = (ss_user_total s)(u \<mapsto> get_user_total_staked s u + a)
    \<and> ss_total s' = Some (get_total_staked s + a) \<and> ss_claimed s' = ss_claimed s
    \<and> ss_bonuses_distributed s' = ss_bonuses_distributed s"
proof -
  from call obtain dur bps b where g: "0 < a" "duration_of d = Inr dur" "bonus_of d = Inr bps" "calculate_bonus a bps = Inr b"
    and k: "k = length (get_user_stakes s u)"
    and s': "ss_stakes s' = (ss_stakes s)(u \<mapsto> get_user_stakes s u @
        [\<lparr>sr_amount = a, sr_staked_at = now e, sr_unlock_at = now e + dur, sr_duration_secs = dur, sr_bonus_bps = bps,
          sr_bonus_amount = b, sr_bonus_claimed = False, sr_claimable_at = now e + BONUS_HOLDING_PERIOD_SECS,
          sr_is_active = True\<rparr>])"
      "ss_user_total s' = (ss_user_total s)(u \<mapsto> get_user_total_staked s u + a)"
      "ss_total s' = Some (get_total_staked s + a)" "ss_claimed s' = ss_claimed s"
      "ss_bonuses_distributed s' = ss_bonuses_distributed s"
    unfolding stake_def Let_def bindR_eq_Inr ensure_eq_Inr u_add_eq_Inr i_add_eq_Inr
    by (auto simp: not_le get_user_stakes_def get_user_total_staked_def get_total_staked_def staking_publish_def)
  define r where "r = \<lparr>sr_amount = a, sr_staked_at = now e, sr_unlock_at = now e + dur, sr_duration_secs = dur,
      sr_bonus_bps = bps, sr_bonus_amount = b, sr_bonus_claimed = False,
      sr_claimable_at = now e + BONUS_HOLDING_PERIOD_SECS, sr_is_active = True\<rparr>"
  have "stake_ok r"
    using g duration_of_tier [OF g(2,3)] calculate_bonus_nonneg [OF g(4)] by (simp add: stake_ok_def r_def)
  moreover have "sr_amount r = a" "sr_is_active r" "\<not> sr_bonus_claimed r" "sr_staked_at r = now e" "sr_duration_secs r = dur"
    by (simp_all add: r_def)
  ultimately show ?thesis using g(2) k s' unfolding r_def [symmetric] by (intro exI [of _ r]) simp
qed

lemma close_stake_effect:
  assumes "close_stake s u rs k r a = Inr s'"
  shows "ss_stakes s' = (ss_stakes s)(u \<mapsto> rs[k := r\<lparr>sr_is_active := False\<rparr>])
    \<and> ss_user_total s' = (ss_user_total s)(u \<mapsto> get_user_total_staked s u - a)
    \<and> ss_total s' = Some (get_total_staked s - a) \<and> ss_claimed s' = ss_claimed s
    \<and> ss_bonuses_distributed s' = ss_bonuses_distributed s"
  using assms by (auto simp: close_stake_def Let_def bindR_eq_Inr i_sub_eq_Inr get_user_total_staked_def get_total_staked_def)

text \<open>The stake that an exit closes, and the store without it.\<close>

definition exits :: "staking_store \<Rightarrow> address \<Rightarrow> nat \<Rightarrow> stake_record \<Rightarrow> staking_store \<Rightarrow> bool" where
  "exits s u k r s' \<longleftrightarrow> k < length (get_user_stakes s u) \<and> get_user_stakes s u ! k = r \<and> sr_is_active r
     \<and> ss_stakes s' = (ss_stakes s)(u \<mapsto> (get_user_stakes s u)[k := r\<lparr>sr_is_active := False\<rparr>])
     \<and> ss_user_total s' = (ss_user_total s)(u \<mapsto> get_user_total_staked s u - sr_amount r)
     \<and> ss_total s' = Some (get_total_staked s - sr_amount r) \<and> ss_claimed s' = ss_claimed s
     \<and> ss_bonuses_distributed s' = ss_bonuses_distributed s"

lemma publish_fields [simp]: "ss_stakes (staking_publish ev s) = ss_stakes s" "ss_user_total (staking_publish ev s) = ss_user_total s"
  "ss_total (staking_publish ev s) = ss_total s" "ss_claimed (staking_publish ev s) = ss_claimed s"
  "ss_bonuses_distributed (staking_publish ev s) = ss_bonuses_distributed s"
  by (simp_all add: staking_publish_def)

lemma claim_stake_effect:
  assumes "claim_stake e s u k = Inr (n, s')"
  shows "\<exists>r. exits s u k r s' \<and> n = sr_amount r \<and> sr_unlock_at r \<le> now e"
  using assms close_stake_effect
  by (auto simp: claim_stake_def Let_def bindR_eq_Inr ensure_eq_Inr ok_or_eq_Inr exits_def get_user_stakes_def not_le not_less)

lemma unstake_early_effect:
  assumes ok: "staking_ok s" and call: "unstake_early s u k = Inr ((back, penalty), s')"
  shows "\<exists>r. exits s u k r s' \<and> back + penalty = sr_amount r \<and> penalty = sr_amount r * 10 div 100"
proof -
  from call obtain rs s1 where rs: "ss_stakes s u = Some rs" "k < length rs" "sr_is_active (rs ! k)"
    and m: "i128_ok (sr_amount (rs ! k) * 10)" "(i_div (sr_amount (rs ! k) * 10) 100 :: (int, counter_error) res) = Inr penalty"
    and b: "back = sr_amount (rs ! k) - penalty" and c: "close_stake s u rs k (rs ! k) (sr_amount (rs ! k)) = Inr s1"
    and s': "s' = staking_publish (UnstakedEarly u k penalty) s1"
    by (auto simp: unstake_early_def Let_def bindR_eq_Inr ensure_eq_Inr ok_or_eq_Inr i_mul_eq_Inr i_sub_eq_Inr not_le)
  have "0 < sr_amount (rs ! k)"
    using staking_okD(6) [OF ok, of u] rs by (auto simp: get_user_stakes_def list_all_length stake_ok_def)
  then have "penalty = sr_amount (rs ! k) * 10 div 100" by (intro i_div_nonneg_D [OF m(2) _ _ m(1)]) simp_all
  with rs b close_stake_effect [OF c] show ?thesis by (auto simp: exits_def get_user_stakes_def s')
qed

lemma exits_ok:
  assumes ok: "staking_ok s" and ex: "exits s u k r s'"
  shows "staking_ok s'"
proof -
  let ?rs = "(get_user_stakes s u)[k := r\<lparr>sr_is_active := False\<rparr>]"
  have k: "k < length (get_user_stakes s u)" and r: "get_user_stakes s u ! k = r" "sr_is_active r" using ex by (auto simp: exits_def)
  have d: "staked_in ?rs - staked_in (get_user_stakes s u) = - sr_amount r" "claimed_in ?rs = claimed_in (get_user_stakes s u)"
    using r by (simp_all add: in_update [OF k] active_amount_def claimed_amount_def)
  have "stake_ok r" using staking_okD(6) [OF ok, of u] k r by (auto simp: list_all_length)
  then have "stake_ok (r\<lparr>sr_is_active := False\<rparr>)" by (simp add: stake_ok_def)
  then have good: "list_all stake_ok ?rs"
    using staking_okD(6) [OF ok, of u] k by (auto simp: list_all_length nth_list_update)
  have st: "ss_stakes s' = (ss_stakes s)(u \<mapsto> ?rs)" using ex by (simp add: exits_def)
  show ?thesis
    by (rule staking_ok_put [OF ok st good])
      (use ex in \<open>simp_all add: exits_def d get_user_total_staked_def get_total_staked_def get_user_claimed_bonuses_def\<close>)
qed

lemma claim_loop_effect:
  assumes "claim_loop t rs a = Inr (b, qs)"
  shows "qs = map (\<lambda>r. if bonus_due t r then r\<lparr>sr_bonus_claimed := True\<rparr> else r) rs
    \<and> b = a + sum_list (map (\<lambda>r. if bonus_due t r then sr_bonus_amount r else 0) rs)"
  using assms
proof (induction rs arbitrary: a b qs)
  case (Cons r rs)
  from Cons.prems show ?case
    by (auto simp: bindR_eq_Inr i_add_eq_Inr add.assoc split: if_splits dest!: Cons.IH)
qed simp

definition paid_out :: "nat \<Rightarrow> stake_record \<Rightarrow> stake_record" where
  "paid_out t r = (if bonus_due t r then r\<lparr>sr_bonus_claimed := True\<rparr> else r)"

lemma claim_bonuses_effect:
  assumes "claim_bonuses e s u = Inr (b, s')"
  shows "b = sum_list (map (\<lambda>r. if bonus_due (now e) r then sr_bonus_amount r else 0) (get_user_stakes s u)) \<and> b \<noteq> 0
    \<and> ss_stakes s' = (ss_stakes s)(u \<mapsto> map (paid_out (now e)) (get_user_stakes s u))
    \<and> ss_claimed s' = (ss_claimed s)(u \<mapsto> get_user_claimed_bonuses s u + b)
    \<and> ss_bonuses_distributed s' = Some (default 0 (ss_bonuses_distributed s) + b)
    \<and> ss_user_total s' = ss_user_total s \<and> ss_total s' = ss_total s \<and> ss_distributions s' = ss_distributions s
    \<and> (\<exists>qs. claim_loop (now e) (get_user_stakes s u) 0 = Inr (b, qs))"
proof -
  from assms obtain rs qs where rs: "ss_stakes s u = Some rs" "claim_loop (now e) rs 0 = Inr (b, qs)" "b \<noteq> 0"
    and s': "s' = staking_publish (BonusClaimed u b) (s\<lparr>ss_stakes := (ss_stakes s)(u \<mapsto> qs),
       ss_claimed := (ss_claimed s)(u \<mapsto> get_user_claimed_bonuses s u + b),
       ss_bonuses_distributed := Some (default 0 (ss_bonuses_distributed s) + b)\<rparr>)"
    by (auto simp: claim_bonuses_def Let_def bindR_eq_Inr ensure_eq_Inr ok_or_eq_Inr i_add_eq_Inr get_user_claimed_bonuses_def)
  have "ss_distributions s' = ss_distributions s" by (simp add: s' staking_publish_def)
  with claim_loop_effect [OF rs(2)] rs s' show ?thesis
    by (simp add: get_user_stakes_def paid_out_def [abs_def])
qed

lemma paid_out_simps [simp]: "sr_is_active (paid_out t r) = sr_is_active r" "sr_amount (paid_out t r) = sr_amount r"
  "sr_bonus_amount (paid_out t r) = sr_bonus_amount r" "stake_ok (paid_out t r) = stake_ok r" "\<not> bonus_due t (paid_out t r)"
  by (auto simp: paid_out_def stake_ok_def bonus_due_def)

lemma claim_bonuses_ok:
  assumes ok: "staking_ok s" and call: "claim_bonuses e s u = Inr (b, s')"
  shows "staking_ok s'"
proof -
  let ?rs = "get_user_stakes s u" and ?qs = "map (paid_out (now e)) (get_user_stakes s u)"
  note eff = claim_bonuses_effect [OF call]
  have "staked_in (map (paid_out t) rs) = staked_in rs" for t rs
    by (induction rs) (simp_all add: active_amount_def)
  moreover have "claimed_in (map (paid_out t) rs)
      = claimed_in rs + sum_list (map (\<lambda>r. if bonus_due t r then sr_bonus_amount r else 0) rs)" for t rs
    by (induction rs) (auto simp: claimed_amount_def paid_out_def bonus_due_def)
  ultimately have d: "staked_in ?qs = staked_in ?rs" "claimed_in ?qs = claimed_in ?rs + b" using eff by simp_all
  have good: "list_all stake_ok ?qs" using staking_okD(6) [OF ok, of u] by (simp add: list_all_iff)
  have st: "ss_stakes s' = (ss_stakes s)(u \<mapsto> ?qs)" using eff by simp
  show ?thesis
    by (rule staking_ok_put [OF ok st good])
      (use eff in \<open>simp_all add: d get_user_total_staked_def get_total_staked_def get_user_claimed_bonuses_def\<close>)
qed

lemma stake_keeps_ok:
  assumes ok: "staking_ok s" and call: "stake e s u a d = Inr (k, s')"
  shows "staking_ok s'"
proof -
  from stake_effect [OF call] obtain r where r: "stake_ok r" "sr_amount r = a" "sr_is_active r" "\<not> sr_bonus_claimed r"
    and s': "ss_stakes s' = (ss_stakes s)(u \<mapsto> get_user_stakes s u @ [r])"
      "ss_user_total s' = (ss_user_total s)(u \<mapsto> get_user_total_staked s u + a)"
      "ss_total s' = Some (get_total_staked s + a)" "ss_claimed s' = ss_claimed s"
      "ss_bonuses_distributed s' = ss_bonuses_distributed s" by blast
  show ?thesis
    by (rule staking_ok_put [OF ok s'(1)])
      (use staking_okD(6) [OF ok, of u] r s' in \<open>simp_all add: get_user_total_staked_def get_total_staked_def
        get_user_claimed_bonuses_def active_amount_def claimed_amount_def\<close>)
qed

lemma distribution_loop_frame:
  "distribution_loop us s a n = Inr (b, m, s') \<Longrightarrow> ss_stakes s' = ss_stakes s \<and> ss_user_total s' = ss_user_total s
    \<and> ss_total s' = ss_total s \<and> ss_claimed s' = ss_claimed s \<and> ss_bonuses_distributed s' = ss_bonuses_distributed s"
  by (induction us arbitrary: s a n) (auto simp: bindR_eq_Inr split: if_splits)

lemma execute_distribution_frame:
  assumes "execute_distribution e s = Inr (d, s')"
  shows "ss_stakes s' = ss_stakes s \<and> ss_user_total s' = ss_user_total s
    \<and> ss_total s' = ss_total s \<and> ss_claimed s' = ss_claimed s \<and> ss_bonuses_distributed s' = ss_bonuses_distributed s"
  using assms by (auto simp: execute_distribution_def Let_def bindR_eq_Inr dest: distribution_loop_frame)

lemma staking_ok_frame:
  assumes "ss_stakes s' = ss_stakes s \<and> ss_user_total s' = ss_user_total s
    \<and> ss_total s' = ss_total s \<and> ss_claimed s' = ss_claimed s \<and> ss_bonuses_distributed s' = ss_bonuses_distributed s"
  shows "staking_ok s' = staking_ok s"
  using assms by (simp add: staking_ok_def get_user_total_staked_def get_user_stakes_def get_user_claimed_bonuses_def get_total_staked_def)

text \<open>
  The properties of staking over any run of its entry points: the books balance, a claim pays what
  is due and once, an exited stake stays closed, and the way to take a bonus and leave early.
\<close>

section \<open>Runs\<close>

datatype staking_call =
    StakeFor address int nat
  | ClaimBonuses address
  | ClaimStakeOf address nat
  | UnstakeEarly address nat
  | Distribute

fun staking_exec :: "env \<Rightarrow> staking_host \<Rightarrow> staking_call \<Rightarrow> (staking_host, counter_error) res" where
  "staking_exec e h (StakeFor u a d) = bindR (cc_stake e h u a d) (\<lambda>(_, h'). Inr h')"
| "staking_exec e h (ClaimBonuses u) = bindR (claim_staking_bonuses e h u) (\<lambda>(_, h'). Inr h')"
| "staking_exec e h (ClaimStakeOf u k) = bindR (cc_claim_stake e h u k) (\<lambda>(_, h'). Inr h')"
| "staking_exec e h (UnstakeEarly u k) = bindR (cc_unstake_early e h u k) (\<lambda>(_, h'). Inr h')"
| "staking_exec e h Distribute = bindR (execute_staking_distribution e h) (\<lambda>(_, h'). Inr h')"

text \<open>Any call by anyone; the rest of the contract changes the KYC store and fills the caches.\<close>

inductive staking_step :: "staking_host \<Rightarrow> staking_host \<Rightarrow> bool" where
  staking_call: "staking_exec e h c = Inr h' \<Longrightarrow> staking_step h h'"
| staking_outside: "sh_staking h' = sh_staking h \<Longrightarrow> staking_step h h'"

inductive_cases staking_stepE: "staking_step h h'"

definition staking_deployed :: "staking_host \<Rightarrow> bool" where
  "staking_deployed h \<longleftrightarrow> sh_staking h = staking_store0"

lemma after_staking_eq: "after_staking h p = Inr (x, h') \<longleftrightarrow>
    fst p = x \<and> h' = h\<lparr>sh_staking := snd p, sh_caches := invalidate_query_cache (sh_caches h)\<rparr>"
  by (auto simp: after_staking_def split: prod.split)

text \<open>A call of an entry point is a call of the module, authorised by a verified user.\<close>

lemma staking_entry_iffs:
  "cc_stake e h u a d = Inr (k, h') \<longleftrightarrow> authorized e u \<and> is_verified e (sh_kyc h) u \<and>
     (\<exists>s. stake e (sh_staking h) u a d = Inr (k, s)
       \<and> h' = h\<lparr>sh_staking := s, sh_caches := invalidate_query_cache (sh_caches h)\<rparr>)"
  "claim_staking_bonuses e h u = Inr (n, h') \<longleftrightarrow> authorized e u \<and> is_verified e (sh_kyc h) u \<and>
     (\<exists>s. claim_bonuses e (sh_staking h) u = Inr (n, s)
       \<and> h' = h\<lparr>sh_staking := s, sh_caches := invalidate_query_cache (sh_caches h)\<rparr>)"
  "cc_claim_stake e h u k = Inr (n, h') \<longleftrightarrow> authorized e u \<and> is_verified e (sh_kyc h) u \<and>
     (\<exists>s. claim_stake e (sh_staking h) u k = Inr (n, s)
       \<and> h' = h\<lparr>sh_staking := s, sh_caches := invalidate_query_cache (sh_caches h)\<rparr>)"
  "cc_unstake_early e h u k = Inr (x, h') \<longleftrightarrow> authorized e u \<and> is_verified e (sh_kyc h) u \<and>
     (\<exists>s. unstake_early (sh_staking h) u k = Inr (x, s)
       \<and> h' = h\<lparr>sh_staking := s, sh_caches := invalidate_query_cache (sh_caches h)\<rparr>)"
  unfolding cc_stake_def claim_staking_bonuses_def cc_claim_stake_def cc_unstake_early_def
    require_authenticated_verified_user_def require_verified_def
  by (auto simp: bindR_eq_Inr require_auth_eq_Inr after_staking_eq) (cases x, simp)

text \<open>What a step may do to the stakes of a user.\<close>

lemma staking_exec_cases:
  assumes ok: "staking_ok (sh_staking h)" and call: "staking_exec e h c = Inr h'"
  shows "staking_ok (sh_staking h') \<and> (ss_stakes (sh_staking h') = ss_stakes (sh_staking h)
    \<or> (\<exists>u. authorized e u \<and> ((\<exists>r. stake_ok r \<and> ss_stakes (sh_staking h') = (ss_stakes (sh_staking h))(u \<mapsto> get_user_stakes (sh_staking h) u @ [r]))
      \<or> (\<exists>t. ss_stakes (sh_staking h') = (ss_stakes (sh_staking h))(u \<mapsto> map (paid_out t) (get_user_stakes (sh_staking h) u)))
      \<or> (\<exists>k r. exits (sh_staking h) u k r (sh_staking h')))))"
proof (cases c)
  case (StakeFor u a d)
  with call obtain k s where g: "authorized e u" "stake e (sh_staking h) u a d = Inr (k, s)" "sh_staking h' = s"
    by (auto simp: bindR_eq_Inr staking_entry_iffs)
  from stake_effect [OF g(2)] stake_keeps_ok [OF ok g(2)] g show ?thesis by blast
next
  case (ClaimBonuses u)
  with call obtain n s where g: "authorized e u" "claim_bonuses e (sh_staking h) u = Inr (n, s)" "sh_staking h' = s"
    by (auto simp: bindR_eq_Inr staking_entry_iffs)
  from claim_bonuses_effect [OF g(2)] claim_bonuses_ok [OF ok g(2)] g show ?thesis by blast
next
  case (ClaimStakeOf u k)
  with call obtain n s where g: "authorized e u" "claim_stake e (sh_staking h) u k = Inr (n, s)" "sh_staking h' = s"
    by (auto simp: bindR_eq_Inr staking_entry_iffs)
  from claim_stake_effect [OF g(2)] g exits_ok [OF ok] show ?thesis by blast
next
  case (UnstakeEarly u k)
  with call obtain x s where g: "authorized e u" "unstake_early (sh_staking h) u k = Inr (x, s)" "sh_staking h' = s"
    by (auto simp: bindR_eq_Inr staking_entry_iffs)
  obtain rest pen where "x = (rest, pen)" by (cases x)
  from unstake_early_effect [OF ok g(2) [unfolded this]] g exits_ok [OF ok] show ?thesis by blast
next
  case Distribute
  with call obtain d s where g: "execute_distribution e (sh_staking h) = Inr (d, s)" "sh_staking h' = s"
    by (auto simp: bindR_eq_Inr execute_staking_distribution_def)
  from execute_distribution_frame [OF g(1)] ok staking_ok_frame [OF execute_distribution_frame [OF g(1)]] g(2)
  show ?thesis by simp
qed

interpretation staking_machine: machine_invariant staking_deployed staking_step "\<lambda>h. staking_ok (sh_staking h)"
proof
  show "staking_ok (sh_staking h)" if "staking_deployed h" for h
    using that by (simp add: staking_deployed_def staking_store0_ok)
  show "staking_ok (sh_staking h')" if "staking_ok (sh_staking h)" "staking_step h h'" for h h'
    using that by (auto elim!: staking_stepE dest: staking_exec_cases)
qed

section \<open>The books\<close>

text \<open>
  C33: the books of staking balance. In every reachable state the recorded total of a user is the
  sum of its active stakes, the global total is the sum over all users, what a user has claimed is
  the sum of the bonuses marked as claimed on its stakes (so no bonus is paid twice), and the bonuses
  distributed are the sum of what the users claimed.
\<close>
theorem staking_books_balance:
  assumes "reachable staking_deployed staking_step h"
  shows "get_total_staked (sh_staking h)
      = map_total (\<lambda>rs. sum_list (map (\<lambda>r. if sr_is_active r then sr_amount r else 0) rs)) (ss_stakes (sh_staking h))
    \<and> get_user_total_staked (sh_staking h) u
      = sum_list (map (\<lambda>r. if sr_is_active r then sr_amount r else 0) (get_user_stakes (sh_staking h) u))
    \<and> get_user_claimed_bonuses (sh_staking h) u
      = sum_list (map (\<lambda>r. if sr_bonus_claimed r then sr_bonus_amount r else 0) (get_user_stakes (sh_staking h) u))
    \<and> fst (snd (get_statistics (sh_staking h)))
      = map_total (\<lambda>rs. sum_list (map (\<lambda>r. if sr_bonus_claimed r then sr_bonus_amount r else 0) rs)) (ss_stakes (sh_staking h))"
  using staking_okD(2,3) [OF staking_machine.inv_reachable [OF assms], of u]
    staking_okD(4,5) [OF staking_machine.inv_reachable [OF assms]]
  by (simp add: get_statistics_def staked_in_def [abs_def] claimed_in_def [abs_def] active_amount_def [abs_def] claimed_amount_def [abs_def])

section \<open>Claims\<close>

text \<open>The pending bonuses of the getter are the bonuses due, when the sum does not overflow.\<close>

lemma sum_bonuses_eq:
  assumes "sum_bonuses P rs a = Inr b"
  shows "b = a + sum_list (map (\<lambda>r. if P r then sr_bonus_amount r else 0) rs)"
  using assms
proof (induction rs arbitrary: a)
  case (Cons r rs)
  from Cons.prems show ?case
    by (auto simp: bindR_eq_Inr i_add_eq_Inr add.assoc split: if_splits dest!: Cons.IH)
qed simp

lemma claim_loop_pending:
  assumes "claim_loop t rs a = Inr (b, qs)" and "list_all stake_ok rs" and "i128_ok a"
  shows "sum_bonuses (\<lambda>r. sr_is_active r \<and> \<not> sr_bonus_claimed r \<and> t \<ge> sr_claimable_at r) rs a = Inr b"
  using assms
proof (induction rs arbitrary: a b qs)
  case (Cons r rs)
  have nn: "0 \<le> sr_bonus_amount r" using Cons.prems(2) by (simp add: stake_ok_def pos_imp_zdiv_nonneg_iff)
  show ?case
  proof (cases "bonus_due t r")
    case True
    with Cons show ?thesis by (auto simp: bindR_eq_Inr i_add_eq_Inr bonus_due_def)
  next
    case False
    with Cons.prems(1) have rest: "\<exists>qs. claim_loop t rs a = Inr (b, qs)" by (auto simp: bindR_eq_Inr)
    with Cons have IH: "sum_bonuses (\<lambda>r. sr_is_active r \<and> \<not> sr_bonus_claimed r \<and> t \<ge> sr_claimable_at r) rs a = Inr b" by auto
    show ?thesis
    proof (cases "sr_is_active r \<and> \<not> sr_bonus_claimed r \<and> t \<ge> sr_claimable_at r")
      case True
      with False nn have "sr_bonus_amount r = 0" by (auto simp: bonus_due_def)
      with True IH Cons.prems(3) show ?thesis by (simp add: i_add_def i_check_def)
    next
      case no: False
      show ?thesis using IH by (simp only: sum_bonuses.simps no if_False)
    qed
  qed
qed simp

text \<open>
  A bonus claim pays what is pending. A successful claim of a verified user who authorised it
  returns exactly the pending bonuses that the contract reports, which are positive; it adds them
  to what the user has claimed and to what was distributed, leaves nothing pending, closes no
  stake and touches no other user.
\<close>
theorem bonus_claim_exact:
  assumes reach: "reachable staking_deployed staking_step h" and call: "claim_staking_bonuses e h u = Inr (n, h')"
  shows "authorized e u \<and> get_user_pending_bonuses e (sh_staking h) u = Inr n \<and> 0 < n
    \<and> get_user_pending_bonuses e (sh_staking h') u = Inr 0
    \<and> get_user_claimed_bonuses (sh_staking h') u = get_user_claimed_bonuses (sh_staking h) u + n
    \<and> get_user_total_staked (sh_staking h') u = get_user_total_staked (sh_staking h) u
    \<and> get_statistics (sh_staking h') = (case get_statistics (sh_staking h) of (amount, dist, m) \<Rightarrow> (amount, dist + n, m))
    \<and> (\<forall>v. v \<noteq> u \<longrightarrow> get_user_stakes (sh_staking h') v = get_user_stakes (sh_staking h) v)"
proof -
  let ?s = "sh_staking h" and ?s' = "sh_staking h'"
  have ok: "staking_ok ?s" by (rule staking_machine.inv_reachable [OF reach])
  from call have g: "authorized e u" "claim_bonuses e ?s u = Inr (n, ?s')" by (auto simp: staking_entry_iffs)
  note eff = claim_bonuses_effect [OF g(2)]
  define rs where "rs = get_user_stakes ?s u"
  obtain qs where qs: "claim_loop (now e) rs 0 = Inr (n, qs)" using eff unfolding rs_def by blast
  have good: "list_all stake_ok rs" using staking_okD(6) [OF ok] by (simp add: rs_def)
  from claim_loop_pending [OF qs good]
  have pend: "get_user_pending_bonuses e ?s u = Inr n"
    by (simp add: get_user_pending_bonuses_def rs_def [symmetric] i128_ok_def I128_MIN_def I128_MAX_def)
  have "0 \<le> sum_list (map (\<lambda>r. if bonus_due t r then sr_bonus_amount r else 0) rs)" for t rs
    by (induction rs) (auto simp: bonus_due_def)
  from this [of "now e" rs] eff have pos: "0 < n" by (simp add: rs_def less_le)
  have none: "sum_bonuses (\<lambda>r. sr_is_active r \<and> \<not> sr_bonus_claimed r \<and> now e \<ge> sr_claimable_at r) (map (paid_out (now e)) rs) 0 = Inr 0"
    if "list_all stake_ok rs" for rs
    using that
  proof (induction rs)
    case (Cons r rs)
    have "sr_bonus_amount r = 0" if "\<not> bonus_due (now e) r" "sr_is_active r" "\<not> sr_bonus_claimed r" "now e \<ge> sr_claimable_at r"
      using that Cons.prems by (auto simp: bonus_due_def stake_ok_def not_less le_less pos_imp_zdiv_nonneg_iff)
    with Cons show ?case
      by (auto simp: paid_out_def i_add_def i_check_def i128_ok_def I128_MIN_def I128_MAX_def bonus_due_def)
  qed simp
  have "get_user_pending_bonuses e ?s' u = Inr 0"
    using none [OF good] eff by (simp add: get_user_pending_bonuses_def get_user_stakes_def rs_def)
  with g pend pos eff show ?thesis
    by (auto simp: get_user_claimed_bonuses_def get_user_total_staked_def get_statistics_def get_user_stakes_def)
qed

section \<open>Exits\<close>

lemma inactive_stays:
  assumes ok: "staking_ok (sh_staking h)" and step: "staking_step h h'"
    and gone: "k < length (get_user_stakes (sh_staking h) u)" "\<not> sr_is_active (get_user_stakes (sh_staking h) u ! k)"
  shows "k < length (get_user_stakes (sh_staking h') u) \<and> \<not> sr_is_active (get_user_stakes (sh_staking h') u ! k)"
  using step
proof (rule staking_stepE)
  fix e c assume call: "staking_exec e h c = Inr h'"
  have same: "ss_stakes (sh_staking h') = ss_stakes (sh_staking h)
      \<Longrightarrow> get_user_stakes (sh_staking h') u = get_user_stakes (sh_staking h) u" by (simp add: get_user_stakes_def)
  have put: "get_user_stakes (sh_staking h') u = (if v = u then rs else get_user_stakes (sh_staking h) u)"
    if "ss_stakes (sh_staking h') = (ss_stakes (sh_staking h))(v \<mapsto> rs)" for v rs
    using that by (auto simp: get_user_stakes_def)
  from staking_exec_cases [OF ok call] show ?thesis
    using gone by (auto simp: exits_def nth_append nth_list_update dest!: put same split: if_splits)
next
  assume "sh_staking h' = sh_staking h"
  with gone show ?thesis by simp
qed

lemma inactive_fails:
  assumes "k < length (get_user_stakes s u)" "\<not> sr_is_active (get_user_stakes s u ! k)"
  shows "claim_stake e s u k \<noteq> Inr p" and "unstake_early s u k \<noteq> Inr q"
  using assms by (cases "ss_stakes s u"; simp add: get_user_stakes_def claim_stake_def unstake_early_def)+

text \<open>
  A stake is returned once and not before its time. When \<open>claim_stake\<close> succeeds, the user
  authorised it, the stake was active, its lock had expired, and the whole amount is returned; from
  then on, in every later state, no claim and no early exit of that stake succeeds.
\<close>
theorem stake_returned_once:
  assumes reach: "reachable staking_deployed staking_step h" and call: "cc_claim_stake e h u k = Inr (n, h1)"
    and later: "staking_step\<^sup>*\<^sup>* h1 h2"
  shows "authorized e u \<and> k < length (get_user_stakes (sh_staking h) u)
    \<and> n = sr_amount (get_user_stakes (sh_staking h) u ! k)
    \<and> sr_staked_at (get_user_stakes (sh_staking h) u ! k) + sr_duration_secs (get_user_stakes (sh_staking h) u ! k) \<le> now e
    \<and> get_user_total_staked (sh_staking h1) u = get_user_total_staked (sh_staking h) u - n
    \<and> get_total_staked (sh_staking h1) = get_total_staked (sh_staking h) - n
    \<and> cc_claim_stake e' h2 u k \<noteq> Inr p \<and> cc_unstake_early e' h2 u k \<noteq> Inr q"
proof -
  let ?s = "sh_staking h"
  have ok: "staking_ok ?s" by (rule staking_machine.inv_reachable [OF reach])
  from call have g: "authorized e u" "claim_stake e ?s u k = Inr (n, sh_staking h1)" by (auto simp: staking_entry_iffs)
  from claim_stake_effect [OF g(2)] obtain r where ex: "exits ?s u k r (sh_staking h1)" and n: "n = sr_amount r"
    and t: "sr_unlock_at r \<le> now e" by blast
  have r: "k < length (get_user_stakes ?s u)" "get_user_stakes ?s u ! k = r" using ex by (auto simp: exits_def)
  have "stake_ok r" using staking_okD(6) [OF ok, of u] r by (auto simp: list_all_length)
  have one: "staking_step h h1" by (rule staking_call [of e _ "ClaimStakeOf u k"]) (simp add: call)
  have gone: "k < length (get_user_stakes (sh_staking h2) u) \<and> \<not> sr_is_active (get_user_stakes (sh_staking h2) u ! k)"
    using later
  proof (induction rule: rtranclp_induct)
    case base
    with ex r show ?case by (simp add: exits_def get_user_stakes_def)
  next
    case (step x y)
    have "staking_ok (sh_staking x)"
      by (rule staking_machine.inv_rtranclp [OF step(1)]) (rule staking_machine.inv_step [OF ok one])
    from inactive_stays [OF this step(2)] step(3) show ?case by blast
  qed
  then have "cc_claim_stake e' h2 u k \<noteq> Inr p" "cc_unstake_early e' h2 u k \<noteq> Inr q"
    using inactive_fails [of k "sh_staking h2" u] by (cases p; cases q; simp add: staking_entry_iffs)+
  with g r n t ex \<open>stake_ok r\<close> show ?thesis
    by (simp add: exits_def stake_ok_def get_user_total_staked_def get_total_staked_def)
qed

text \<open>
  The bonus of a long stake can be taken without serving it. A stake for 365 days earns its
  whole bonus of half the amount once the holding period of 30 days is over; if the user then leaves
  early, the penalty is a tenth of the amount, so the two calls together pay at least seven fifths of
  the amount, less rounding, while the lock still has the rest of the year to run.
\<close>
theorem early_exit_keeps_bonus:
  assumes reach: "reachable staking_deployed staking_step h"
    and at: "k < length (get_user_stakes (sh_staking h) u)" and r: "get_user_stakes (sh_staking h) u ! k = r"
    and long: "sr_duration_secs r = TIER_365_DAYS_SECS" and fresh: "\<not> sr_bonus_claimed r" "sr_is_active r"
    and now1: "sr_staked_at r + BONUS_HOLDING_PERIOD_SECS \<le> now e"
    and claim: "claim_staking_bonuses e h u = Inr (bonus, h1)" and leave: "cc_unstake_early e' h1 u k = Inr ((rest, penalty), h2)"
  shows "7 * sr_amount r - 5 \<le> 5 * (bonus + rest)"
proof -
  let ?s = "sh_staking h" and ?s1 = "sh_staking h1"
  have ok: "staking_ok ?s" by (rule staking_machine.inv_reachable [OF reach])
  from claim have c: "claim_bonuses e ?s u = Inr (bonus, ?s1)" by (auto simp: staking_entry_iffs)
  note eff = claim_bonuses_effect [OF c]
  from leave have l: "unstake_early ?s1 u k = Inr ((rest, penalty), sh_staking h2)" by (auto simp: staking_entry_iffs)
  have k: "stake_ok r" using staking_okD(6) [OF ok, of u] at r by (auto simp: list_all_length)
  have b: "sr_bonus_amount r = sr_amount r * 5000 div 10000"
    using k long by (simp add: stake_ok_def get_bonus_tier_def TIER_30_DAYS_SECS_def TIER_60_DAYS_SECS_def
      TIER_90_DAYS_SECS_def TIER_365_DAYS_SECS_def TIER_365_DAYS_BONUS_BPS_def)
  have "sr_bonus_amount r \<le> bonus"
  proof -
    have "(if bonus_due (now e) r then sr_bonus_amount r else 0) \<in> set (map (\<lambda>r. if bonus_due (now e) r then sr_bonus_amount r else 0)
        (get_user_stakes ?s u))" using at r by force
    then have "(if bonus_due (now e) r then sr_bonus_amount r else 0) \<le> bonus"
      unfolding eff [THEN conjunct1] by (rule member_le_sum_list) (auto simp: bonus_due_def)
    moreover have "0 < bonus" using bonus_claim_exact [OF reach claim] by simp
    ultimately show ?thesis using fresh now1 k by (auto simp: bonus_due_def stake_ok_def split: if_splits)
  qed
  moreover have "9 * sr_amount r \<le> 10 * rest"
  proof -
    from unstake_early_effect [OF claim_bonuses_ok [OF ok c] l] obtain r1 where
      r1: "exits ?s1 u k r1 (sh_staking h2)" "rest + penalty = sr_amount r1" "penalty = sr_amount r1 * 10 div 100" by blast
    have "get_user_stakes ?s1 u = map (paid_out (now e)) (get_user_stakes ?s u)" using eff by (simp add: get_user_stakes_def)
    with r1(1) at r have "sr_amount r1 = sr_amount r" by (auto simp: exits_def)
    moreover have "10 * penalty \<le> sr_amount r1" unfolding r1(3) by linarith
    ultimately show ?thesis using r1(2) by linarith
  qed
  moreover have "sr_amount r - 1 \<le> 2 * sr_bonus_amount r" unfolding b by linarith
  ultimately show ?thesis unfolding distrib_left by linarith
qed

section \<open>A concrete run\<close>

text \<open>
  User 2, verified, stakes 1000 for 365 days at time 0, claims the bonus of 500 after 30 days and
  leaves with 900; in a second run it stays for the year and takes its 1000 back.
\<close>

definition verified_store :: kyc_store where
  "verified_store = kyc_store0\<lparr>ks_records := (\<lambda>_. Some ((new_record (demo_env 1 0))\<lparr>kr_status := Verified\<rparr>))\<rparr>"

definition year_stake :: stake_record where
  "year_stake = \<lparr>sr_amount = 1000, sr_staked_at = 0, sr_unlock_at = 31536000, sr_duration_secs = 31536000,
     sr_bonus_bps = 5000, sr_bonus_amount = 500, sr_bonus_claimed = False, sr_claimable_at = 2592000, sr_is_active = True\<rparr>"

definition host_with :: "stake_record list \<Rightarrow> int \<Rightarrow> int option \<Rightarrow> staking_event list \<Rightarrow> staking_host" where
  "host_with rs amount claimed evs = \<lparr>sh_kyc = verified_store,
     sh_staking = staking_store0\<lparr>ss_stakes := [Addr 2 \<mapsto> rs], ss_user_total := [Addr 2 \<mapsto> amount], ss_total := Some amount,
       ss_claimed := (case claimed of None \<Rightarrow> Map.empty | Some c \<Rightarrow> [Addr 2 \<mapsto> c]), ss_bonuses_distributed := claimed,
       ss_registry := Some [Addr 2], ss_events := evs\<rparr>, sh_caches = {}\<rparr>"

lemmas staking_run_defs = host_with_def year_stake_def verified_store_def staking_store0_def staking_publish_def
  require_authenticated_verified_user_def require_verified_def is_verified_def get_record_def after_staking_def
  invalidate_query_cache_def demo_env_def require_auth_def ensure_def ok_or_def i_add_def i_sub_def i_mul_def i_div_def
  i_check_def i128_ok_def I128_MIN_def I128_MAX_def u_add_def TIER_365_DAYS_SECS_def TIER_365_DAYS_BONUS_BPS_def
  BONUS_HOLDING_PERIOD_SECS_def duration_of_def bonus_of_def calculate_bonus_def bonus_due_def close_stake_def

definition staked_host :: staking_host where
  "staked_host = host_with [year_stake] 1000 None [Staked (Addr 2) 365 1000 5000]"

definition bonus_host :: staking_host where
  "bonus_host = host_with [year_stake\<lparr>sr_bonus_claimed := True\<rparr>] 1000 (Some 500)
     [Staked (Addr 2) 365 1000 5000, BonusClaimed (Addr 2) 500]"

definition left_host :: staking_host where
  "left_host = host_with [year_stake\<lparr>sr_bonus_claimed := True, sr_is_active := False\<rparr>] 0 (Some 500)
     [Staked (Addr 2) 365 1000 5000, BonusClaimed (Addr 2) 500, UnstakedEarly (Addr 2) 0 100]"

definition returned_host :: staking_host where
  "returned_host = host_with [year_stake\<lparr>sr_is_active := False\<rparr>] 0 None
     [Staked (Addr 2) 365 1000 5000, StakeClaimed (Addr 2) 0 1000]"

lemma demo_stake_call:
  "cc_stake (demo_env 2 0) \<lparr>sh_kyc = verified_store, sh_staking = staking_store0, sh_caches = {}\<rparr> (Addr 2) 1000 365
    = Inr (0, staked_host)"
  by (simp add: cc_stake_def stake_def staked_host_def staking_run_defs cong: bindR_weak_cong)

lemma demo_bonus_call: "claim_staking_bonuses (demo_env 2 2592000) staked_host (Addr 2) = Inr (500, bonus_host)"
  by (simp add: claim_staking_bonuses_def claim_bonuses_def staked_host_def bonus_host_def staking_run_defs cong: bindR_weak_cong)

lemma demo_leave_call: "cc_unstake_early (demo_env 2 2592000) bonus_host (Addr 2) 0 = Inr ((900, 100), left_host)"
  by (simp add: cc_unstake_early_def unstake_early_def bonus_host_def left_host_def staking_run_defs cong: bindR_weak_cong)

lemma demo_return_call: "cc_claim_stake (demo_env 2 31536000) staked_host (Addr 2) 0 = Inr (1000, returned_host)"
  by (simp add: cc_claim_stake_def claim_stake_def staked_host_def returned_host_def staking_run_defs cong: bindR_weak_cong)

lemma staked_host_reachable: "reachable staking_deployed staking_step staked_host"
proof -
  let ?h = "\<lparr>sh_kyc = verified_store, sh_staking = staking_store0, sh_caches = {}\<rparr>"
  have "staking_exec (demo_env 2 0) ?h (StakeFor (Addr 2) 1000 365) = Inr staked_host" by (simp add: demo_stake_call)
  then have "staking_step ?h staked_host" by (rule staking_call)
  moreover have "reachable staking_deployed staking_step ?h" by (rule reach_init) (simp add: staking_deployed_def)
  ultimately show ?thesis by (blast intro: reach_step)
qed

lemma staked_host_stakes: "get_user_stakes (sh_staking staked_host) (Addr 2) = [year_stake]"
  by (simp add: staked_host_def host_with_def get_user_stakes_def)

theorem staking_books_balance_witness: "get_user_total_staked (sh_staking staked_host) (Addr 2) = 1000"
  using staking_books_balance [OF staked_host_reachable, of "Addr 2"] by (simp add: staked_host_stakes year_stake_def)

theorem bonus_claim_exact_witness:
  "get_user_pending_bonuses (demo_env 2 2592000) (sh_staking staked_host) (Addr 2) = Inr 500
    \<and> get_user_pending_bonuses (demo_env 2 2592000) (sh_staking bonus_host) (Addr 2) = Inr 0"
  using bonus_claim_exact [OF staked_host_reachable demo_bonus_call] by simp

theorem stake_returned_once_witness:
  "get_total_staked (sh_staking returned_host) = get_total_staked (sh_staking staked_host) - 1000
    \<and> cc_claim_stake (demo_env 2 40000000) returned_host (Addr 2) 0 \<noteq> Inr (1000, returned_host)"
  using stake_returned_once [OF staked_host_reachable demo_return_call rtranclp.rtrancl_refl,
      of "demo_env 2 40000000" "(1000, returned_host)"] by blast

theorem early_exit_keeps_bonus_witness: "7 * 1000 - 5 \<le> 5 * (500 + (900 :: int)) \<and> sr_amount year_stake = 1000"
  using early_exit_keeps_bonus [OF staked_host_reachable _ _ _ _ _ _ demo_bonus_call demo_leave_call, of year_stake]
  by (simp add: staked_host_stakes year_stake_def TIER_365_DAYS_SECS_def BONUS_HOLDING_PERIOD_SECS_def demo_env_def)

end
