(* ===== verification/Oracle.thy ===== *)
theory Oracle
  imports Counter_Base
begin

text \<open>
  The price oracles of the counter contract: the adapter with its history, staleness bound and
  circuit breaker (\<open>counter/src/oracle_adapter.rs\<close>), the stored prices with their update tolerance
  (\<open>counter/src/oracle.rs\<close>), and the oracle helpers of \<open>counter/trading.rs\<close>.
\<close>

section \<open>Data\<close>

type_synonym pair = "symbol \<times> symbol"

definition DEFAULT_STALENESS_THRESHOLD :: nat where
  "DEFAULT_STALENESS_THRESHOLD = 300"

definition DEFAULT_CIRCUIT_BREAKER_THRESHOLD_BPS :: nat where
  "DEFAULT_CIRCUIT_BREAKER_THRESHOLD_BPS = 1000"

definition DEFAULT_TWAP_WINDOW_SIZE :: nat where
  "DEFAULT_TWAP_WINDOW_SIZE = 10"

definition DEFAULT_PRICE_UPDATE_TOLERANCE_BPS :: nat where
  "DEFAULT_PRICE_UPDATE_TOLERANCE_BPS = 10"

datatype oracle_provider = Manual | StellarAnchor | CustomProvider address

record price_observation =
  po_price :: nat
  po_timestamp :: nat

record oracle_config =
  oc_provider :: oracle_provider
  oc_staleness :: nat
  oc_breaker_bps :: nat
  oc_window :: nat
  oc_active :: bool

record oracle_state =
  os_price :: nat
  os_history :: "price_observation list"
  os_last_update :: nat
  os_breaker :: bool
  os_fallback :: nat

record price_data =
  pd_price :: nat
  pd_timestamp :: nat

text \<open>One field per kind of storage key: adapter configuration and state, stored prices, tolerances.\<close>

record oracle_store =
  or_config :: "pair \<rightharpoonup> oracle_config"
  or_state :: "pair \<rightharpoonup> oracle_state"
  or_prices :: "pair \<rightharpoonup> price_data"
  or_tolerance :: "pair \<rightharpoonup> nat"

definition oracle_store0 :: oracle_store where
  "oracle_store0 = \<lparr>or_config = Map.empty, or_state = Map.empty, or_prices = Map.empty, or_tolerance = Map.empty\<rparr>"

section \<open>The adapter\<close>

definition get_config :: "oracle_store \<Rightarrow> pair \<Rightarrow> (oracle_config, counter_error) res" where
  "get_config s pair = ok_or (or_config s pair) (Err OracleNotConfigured)"

definition set_config :: "oracle_store \<Rightarrow> pair \<Rightarrow> oracle_config \<Rightarrow> oracle_store" where
  "set_config s pair config = s\<lparr>or_config := (or_config s)(pair \<mapsto> config)\<rparr>"

definition get_state :: "oracle_store \<Rightarrow> pair \<Rightarrow> (oracle_state, counter_error) res" where
  "get_state s pair = ok_or (or_state s pair) (Err OracleNotConfigured)"

definition set_state :: "oracle_store \<Rightarrow> pair \<Rightarrow> oracle_state \<Rightarrow> oracle_store" where
  "set_state s pair st = s\<lparr>or_state := (or_state s)(pair \<mapsto> st)\<rparr>"

definition initialize_oracle :: "env \<Rightarrow> oracle_store \<Rightarrow> pair \<Rightarrow> oracle_provider \<Rightarrow> nat \<Rightarrow> oracle_store" where
  "initialize_oracle e s pair provider initial_price =
     set_state (set_config s pair
       \<lparr>oc_provider = provider, oc_staleness = DEFAULT_STALENESS_THRESHOLD,
        oc_breaker_bps = DEFAULT_CIRCUIT_BREAKER_THRESHOLD_BPS, oc_window = DEFAULT_TWAP_WINDOW_SIZE, oc_active = True\<rparr>)
       pair \<lparr>os_price = initial_price, os_history = [], os_last_update = now e, os_breaker = False,
        os_fallback = initial_price\<rparr>"

text \<open>The loop of \<open>calculate_twap\<close> adds up the last observations; the timestamps play no part.\<close>

definition calculate_twap :: "price_observation list \<Rightarrow> nat \<Rightarrow> nat" where
  "calculate_twap observations window_size =
     (if observations = [] then 0
      else let start_idx = (if length observations > window_size then length observations - window_size else 0);
               recent = drop start_idx observations;
               total_price = foldl (\<lambda>t obs. u_sat_add 128 t (po_price obs)) 0 recent;
               n = foldl (\<lambda>c _. u_sat_add 128 c 1) 0 recent
           in if n = 0 then 0 else total_price div n)"

definition calculate_deviation_bps :: "nat \<Rightarrow> nat \<Rightarrow> nat" where
  "calculate_deviation_bps old_price new_price =
     (if old_price = 0 then 2 ^ 32 - 1
      else let delta = (if new_price \<ge> old_price then new_price - old_price else old_price - new_price)
           in (u_sat_mul 128 delta 10000 div old_price) mod 2 ^ 32)"

definition get_price :: "env \<Rightarrow> oracle_store \<Rightarrow> pair \<Rightarrow> (nat, counter_error) res" where
  "get_price e s pair =
     bindR (get_config s pair) (\<lambda>config.
     bindR (ensure (oc_active config) (Err OracleNotActive)) (\<lambda>_.
     bindR (get_state s pair) (\<lambda>st.
     bindR (u_sub (now e) (os_last_update st)) (\<lambda>age.
     if age > oc_staleness config
     then (if os_fallback st > 0 then Inr (os_fallback st) else Inl (Err StalePrice))
     else if os_breaker st
     then (if os_fallback st > 0 then Inr (os_fallback st) else Inl (Err CircuitBreakerActive))
     else if length (os_history st) \<ge> oc_window config
     then Inr (calculate_twap (os_history st) (oc_window config))
     else Inr (os_price st)))))"

text \<open>
  The breaker branch writes the state and returns an error: the write is discarded with the call.
\<close>

definition update_price :: "env \<Rightarrow> oracle_store \<Rightarrow> pair \<Rightarrow> nat \<Rightarrow> (oracle_store, counter_error) res" where
  "update_price e s pair new_price =
     bindR (ensure (new_price \<noteq> 0) (Err InvalidPrice)) (\<lambda>_.
     bindR (get_config s pair) (\<lambda>config.
     bindR (get_state s pair) (\<lambda>st.
     bindR (ensure (\<not> (os_price st > 0 \<and> calculate_deviation_bps (os_price st) new_price > oc_breaker_bps config))
       (Err CircuitBreakerTriggered)) (\<lambda>_.
     let history = os_history st @ [\<lparr>po_price = new_price, po_timestamp = now e\<rparr>];
         trimmed = drop (length history - oc_window config) history;
         st1 = st\<lparr>os_history := trimmed, os_price := new_price, os_last_update := now e\<rparr>;
         st2 = (if os_breaker st1 \<and> calculate_deviation_bps (os_fallback st1) new_price \<le> oc_breaker_bps config div 2
                then st1\<lparr>os_breaker := False\<rparr> else st1)
     in Inr (set_state s pair st2)))))"

definition update_config :: "oracle_store \<Rightarrow> pair \<Rightarrow> nat option \<Rightarrow> nat option \<Rightarrow> nat option
    \<Rightarrow> (oracle_store, counter_error) res" where
  "update_config s pair staleness_threshold breaker_bps twap_window =
     bindR (get_config s pair) (\<lambda>config.
     let c1 = (case staleness_threshold of Some t \<Rightarrow> config\<lparr>oc_staleness := t\<rparr> | None \<Rightarrow> config);
         c2 = (case breaker_bps of Some b \<Rightarrow> c1\<lparr>oc_breaker_bps := b\<rparr> | None \<Rightarrow> c1) in
     bindR (case twap_window of
         Some w \<Rightarrow> if w > 0 \<and> w \<le> 100 then Inr (c2\<lparr>oc_window := w\<rparr>) else Inl (Err InvalidConfig)
       | None \<Rightarrow> Inr c2) (\<lambda>c3.
     Inr (set_config s pair c3)))"

definition set_oracle_active :: "oracle_store \<Rightarrow> pair \<Rightarrow> bool \<Rightarrow> (oracle_store, counter_error) res" where
  "set_oracle_active s pair active =
     bindR (get_config s pair) (\<lambda>config. Inr (set_config s pair (config\<lparr>oc_active := active\<rparr>)))"

definition reset_circuit_breaker :: "oracle_store \<Rightarrow> pair \<Rightarrow> (oracle_store, counter_error) res" where
  "reset_circuit_breaker s pair =
     bindR (get_state s pair) (\<lambda>st. Inr (set_state s pair (st\<lparr>os_breaker := False\<rparr>)))"

definition get_oracle_info :: "oracle_store \<Rightarrow> pair \<Rightarrow> (oracle_config \<times> oracle_state, counter_error) res" where
  "get_oracle_info s pair =
     bindR (get_config s pair) (\<lambda>config. bindR (get_state s pair) (\<lambda>st. Inr (config, st)))"

section \<open>Stored prices\<close>

definition get_price_update_tolerance_bps :: "oracle_store \<Rightarrow> pair \<Rightarrow> nat" where
  "get_price_update_tolerance_bps s pair =
     (case or_tolerance s pair of None \<Rightarrow> DEFAULT_PRICE_UPDATE_TOLERANCE_BPS | Some t \<Rightarrow> t)"

definition set_price_update_tolerance_bps :: "oracle_store \<Rightarrow> pair \<Rightarrow> nat \<Rightarrow> oracle_store" where
  "set_price_update_tolerance_bps s pair bps = s\<lparr>or_tolerance := (or_tolerance s)(pair \<mapsto> bps)\<rparr>"

definition get_stored_price :: "oracle_store \<Rightarrow> pair \<Rightarrow> price_data option" where
  "get_stored_price s pair = or_prices s pair"

definition price_delta_exceeds_tolerance :: "nat \<Rightarrow> nat \<Rightarrow> nat \<Rightarrow> bool" where
  "price_delta_exceeds_tolerance last_price new_price tolerance_bps \<longleftrightarrow>
     (if last_price = 0 then True
      else let delta = (if new_price \<ge> last_price then new_price - last_price else last_price - new_price);
               threshold = u_sat_mul 128 last_price tolerance_bps div 10000
           in delta > threshold)"

definition set_stored_price :: "env \<Rightarrow> oracle_store \<Rightarrow> pair \<Rightarrow> nat \<Rightarrow> oracle_store" where
  "set_stored_price e s pair price =
     (let should_persist = (case get_stored_price s pair of None \<Rightarrow> True
        | Some data \<Rightarrow> price_delta_exceeds_tolerance (pd_price data) price (get_price_update_tolerance_bps s pair))
      in if should_persist then s\<lparr>or_prices := (or_prices s)(pair \<mapsto> \<lparr>pd_price = price, pd_timestamp = now e\<rparr>)\<rparr> else s)"

definition get_price_safe :: "oracle_store \<Rightarrow> pair \<Rightarrow> (nat, counter_error) res" where
  "get_price_safe s pair =
     (case get_stored_price s pair of Some data \<Rightarrow> Inr (pd_price data) | None \<Rightarrow> Inl (Err PriceNotSet))"

text \<open>The wrapper turns every adapter error into an invalid price, and its timestamp is the current one.\<close>

definition latest_round_data :: "env \<Rightarrow> oracle_store \<Rightarrow> pair \<Rightarrow> (int \<times> nat, counter_error) res" where
  "latest_round_data e s token_pair =
     bindR (map_err InvalidPrice (get_price e s token_pair)) (\<lambda>price. Inr (as_i128 price, now e))"

section \<open>Helpers of the trading module\<close>

definition PRECISION :: nat where
  "PRECISION = 1000000000000000000"

definition initialize_token_oracle :: "env \<Rightarrow> oracle_store \<Rightarrow> symbol \<Rightarrow> symbol \<Rightarrow> oracle_provider \<Rightarrow> nat \<Rightarrow> oracle_store" where
  "initialize_token_oracle e s from to_token provider initial_price =
     initialize_oracle e s (from, to_token) provider initial_price"

definition get_validated_price :: "env \<Rightarrow> oracle_store \<Rightarrow> symbol \<Rightarrow> symbol \<Rightarrow> (nat, counter_error) res" where
  "get_validated_price e s from to_token =
     (case get_price e s (from, to_token) of
        Inr price \<Rightarrow> Inr price
      | Inl Trap \<Rightarrow> Inl Trap
      | Inl (Err StalePrice) \<Rightarrow> Inl (Err StalePrice)
      | Inl (Err InvalidPrice) \<Rightarrow> Inl (Err InvalidPrice)
      | Inl (Err PriceNotSet) \<Rightarrow>
          (case get_price e s (to_token, from) of
             Inr inverse_price \<Rightarrow> if inverse_price = 0 then Inl (Err InvalidPrice) else Inr (PRECISION * PRECISION div inverse_price)
           | Inl Trap \<Rightarrow> Inl Trap
           | Inl (Err _) \<Rightarrow> Inl (Err PriceNotSet))
      | Inl (Err OracleNotActive) \<Rightarrow> Inl (Err OracleNotActive)
      | Inl (Err CircuitBreakerActive) \<Rightarrow> Inl (Err CircuitBreakerActive)
      | Inl (Err CircuitBreakerTriggered) \<Rightarrow> Inl (Err CircuitBreakerTriggered)
      | Inl (Err _) \<Rightarrow> Inl (Err InvalidPrice))"

definition update_oracle_price :: "env \<Rightarrow> oracle_store \<Rightarrow> symbol \<Rightarrow> symbol \<Rightarrow> nat \<Rightarrow> (oracle_store, counter_error) res" where
  "update_oracle_price e s from to_token new_price =
     (case update_price e s (from, to_token) new_price of
        Inr s' \<Rightarrow> Inr s'
      | Inl Trap \<Rightarrow> Inl Trap
      | Inl (Err InvalidPrice) \<Rightarrow> Inl (Err InvalidPrice)
      | Inl (Err CircuitBreakerTriggered) \<Rightarrow> Inl (Err CircuitBreakerTriggered)
      | Inl (Err _) \<Rightarrow> Inl (Err InvalidConfig))"

definition set_oracle_staleness_threshold :: "oracle_store \<Rightarrow> symbol \<Rightarrow> symbol \<Rightarrow> nat \<Rightarrow> (oracle_store, counter_error) res" where
  "set_oracle_staleness_threshold s from to_token threshold =
     bindR (map_err OracleNotConfigured (get_config s (from, to_token))) (\<lambda>config.
     Inr (set_config s (from, to_token) (config\<lparr>oc_staleness := threshold\<rparr>)))"

end
