(* ===== verification/Oracle_Props.thy ===== *)
theory Oracle_Props
  imports Oracle
begin

text \<open>
  The properties of the oracle adapter over any run of its operations: the circuit breaker is never
  active, the price reported from a full window lies between the observations, accepted updates
  stay near the last price as long as the deviation fits its type, and jump past it when it does not.
\<close>

section \<open>Runs\<close>

datatype oracle_call =
    InitOracle pair oracle_provider nat
  | UpdatePrice pair nat
  | UpdateConfig pair "nat option" "nat option" "nat option"
  | SetActive pair bool
  | ResetBreaker pair
  | SetStaleness pair nat
  | StorePrice pair nat
  | SetTolerance pair nat

fun oracle_exec :: "env \<Rightarrow> oracle_store \<Rightarrow> oracle_call \<Rightarrow> (oracle_store, counter_error) res" where
  "oracle_exec e s (InitOracle p pr x) = Inr (initialize_token_oracle e s (fst p) (snd p) pr x)"
| "oracle_exec e s (UpdatePrice p x) = update_oracle_price e s (fst p) (snd p) x"
| "oracle_exec e s (UpdateConfig p a b c) = update_config s p a b c"
| "oracle_exec e s (SetActive p a) = set_oracle_active s p a"
| "oracle_exec e s (ResetBreaker p) = reset_circuit_breaker s p"
| "oracle_exec e s (SetStaleness p t) = set_oracle_staleness_threshold s (fst p) (snd p) t"
| "oracle_exec e s (StorePrice p x) = Inr (set_stored_price e s p x)"
| "oracle_exec e s (SetTolerance p b) = Inr (set_price_update_tolerance_bps s p b)"

inductive oracle_step :: "oracle_store \<Rightarrow> oracle_store \<Rightarrow> bool" where
  oracle_call: "oracle_exec e s c = Inr s' \<Longrightarrow> oracle_step s s'"

inductive_cases oracle_stepE: "oracle_step s s'"

section \<open>The invariant\<close>

definition feed_ok :: "oracle_state \<Rightarrow> bool" where
  "feed_ok st \<longleftrightarrow> \<not> os_breaker st \<and> (\<forall>obs \<in> set (os_history st). 0 < po_price obs)"

definition oracle_ok :: "oracle_store \<Rightarrow> bool" where
  "oracle_ok s \<longleftrightarrow> (\<forall>p st. or_state s p = Some st \<longrightarrow> feed_ok st)"

lemma oracle_okD: "oracle_ok s \<Longrightarrow> or_state s p = Some st \<Longrightarrow> feed_ok st"
  unfolding oracle_ok_def by blast

lemma oracle_ok_put: "oracle_ok s \<Longrightarrow> feed_ok st \<Longrightarrow> oracle_ok (set_state s p st)"
  by (simp add: oracle_ok_def set_state_def)

lemma oracle_ok_same: "or_state s' = or_state s \<Longrightarrow> oracle_ok s' = oracle_ok s"
  by (simp add: oracle_ok_def)

definition updated_feed :: "oracle_config \<Rightarrow> oracle_state \<Rightarrow> nat \<Rightarrow> nat \<Rightarrow> oracle_state" where
  "updated_feed config st x t =
     (let hist = os_history st @ [\<lparr>po_price = x, po_timestamp = t\<rparr>];
          st1 = st\<lparr>os_history := drop (length hist - oc_window config) hist, os_price := x, os_last_update := t\<rparr>
      in if os_breaker st1 \<and> calculate_deviation_bps (os_fallback st1) x \<le> oc_breaker_bps config div 2
         then st1\<lparr>os_breaker := False\<rparr> else st1)"

lemma update_price_eq:
  "update_price e s p x =
     bindR (ensure (x \<noteq> 0) (Err InvalidPrice)) (\<lambda>_.
     bindR (get_config s p) (\<lambda>config.
     bindR (get_state s p) (\<lambda>st.
     bindR (ensure (\<not> (os_price st > 0 \<and> calculate_deviation_bps (os_price st) x > oc_breaker_bps config))
       (Err CircuitBreakerTriggered)) (\<lambda>_. Inr (set_state s p (updated_feed config st x (now e)))))))"
  by (simp only: update_price_def updated_feed_def Let_def)

lemma update_price_iff:
  "update_price e s p x = Inr s' \<longleftrightarrow> (\<exists>config st. x \<noteq> 0 \<and> or_config s p = Some config \<and> or_state s p = Some st
     \<and> (os_price st > 0 \<longrightarrow> calculate_deviation_bps (os_price st) x \<le> oc_breaker_bps config)
     \<and> s' = set_state s p (updated_feed config st x (now e)))"
  by (auto simp: update_price_eq bindR_eq_Inr ensure_eq_Inr ok_or_eq_Inr get_config_def get_state_def not_less)

lemma updated_feed_ok: "feed_ok st \<Longrightarrow> 0 < x \<Longrightarrow> feed_ok (updated_feed config st x t)"
  by (auto simp: feed_ok_def updated_feed_def Let_def dest!: in_set_dropD)

lemma update_oracle_price_iff: "update_oracle_price e s a b x = Inr s' \<longleftrightarrow> update_price e s (a, b) x = Inr s'"
  by (auto simp: update_oracle_price_def split: sum.splits fault.splits counter_error.splits)

lemma oracle_exec_ok:
  assumes ok: "oracle_ok s" and call: "oracle_exec e s c = Inr s'"
  shows "oracle_ok s'"
proof (cases c)
  case (InitOracle p pr x)
  with call ok show ?thesis
    by (auto simp: initialize_token_oracle_def initialize_oracle_def set_config_def set_state_def oracle_ok_def feed_ok_def
        split: if_splits)
next
  case (UpdatePrice p x)
  with call have "update_price e s p x = Inr s'" by (simp add: update_oracle_price_iff)
  then obtain config st where "x \<noteq> 0" "or_state s p = Some st" "s' = set_state s p (updated_feed config st x (now e))"
    unfolding update_price_iff by blast
  then show ?thesis using oracle_ok_put [OF ok updated_feed_ok [OF oracle_okD [OF ok]]] by blast
next
  case (UpdateConfig p a b w)
  with call have "or_state s' = or_state s"
    by (auto simp: update_config_def Let_def bindR_eq_Inr set_config_def split: option.splits if_splits)
  with ok oracle_ok_same show ?thesis by blast
next
  case (SetActive p a)
  with call have "or_state s' = or_state s" by (auto simp: set_oracle_active_def bindR_eq_Inr set_config_def)
  with ok oracle_ok_same show ?thesis by blast
next
  case (ResetBreaker p)
  with call obtain st where "or_state s p = Some st" "s' = set_state s p (st\<lparr>os_breaker := False\<rparr>)"
    by (auto simp: reset_circuit_breaker_def bindR_eq_Inr get_state_def ok_or_eq_Inr)
  moreover from this oracle_okD [OF ok] have "feed_ok (st\<lparr>os_breaker := False\<rparr>)" by (auto simp: feed_ok_def)
  ultimately show ?thesis using oracle_ok_put [OF ok] by blast
next
  case (SetStaleness p t)
  with call have "or_state s' = or_state s"
    by (auto simp: set_oracle_staleness_threshold_def bindR_eq_Inr set_config_def)
  with ok oracle_ok_same show ?thesis by blast
next
  case (StorePrice p x)
  with call have "or_state s' = or_state s" by (auto simp: set_stored_price_def Let_def)
  with ok oracle_ok_same show ?thesis by blast
next
  case (SetTolerance p b)
  with call have "or_state s' = or_state s" by (auto simp: set_price_update_tolerance_bps_def)
  with ok oracle_ok_same show ?thesis by blast
qed

interpretation oracle_machine: machine_invariant "\<lambda>s. s = oracle_store0" oracle_step oracle_ok
proof
  show "oracle_ok s" if "s = oracle_store0" for s using that by (simp add: oracle_ok_def oracle_store0_def)
  show "oracle_ok t" if "oracle_ok s" "oracle_step s t" for s t
    using that by (auto elim!: oracle_stepE intro: oracle_exec_ok)
qed

lemma oracle_reach: "reachable init oracle_step s \<Longrightarrow> oracle_exec e s c = Inr s' \<Longrightarrow> reachable init oracle_step s'"
  by (blast intro: reach_step oracle_call)

section \<open>A concrete feed\<close>

text \<open>The pair is initialised at 1000 and updated to 1010, 1020, \<dots>, 1100 at times 1 to 10.\<close>

definition demo_pair :: pair where
  "demo_pair = (''XLM'', ''USDCSIM'')"

definition demo_config :: oracle_config where
  "demo_config = \<lparr>oc_provider = Manual, oc_staleness = 300, oc_breaker_bps = 1000, oc_window = 10, oc_active = True\<rparr>"

definition feed_after :: "nat \<Rightarrow> oracle_store" where
  "feed_after n = oracle_store0\<lparr>or_config := [demo_pair \<mapsto> demo_config],
     or_state := [demo_pair \<mapsto> \<lparr>os_price = 1000 + 10 * n, os_history = map (\<lambda>k. \<lparr>po_price = 1000 + 10 * k, po_timestamp = k\<rparr>) [1..<Suc n],
       os_last_update = n, os_breaker = False, os_fallback = 1000\<rparr>]\<rparr>"

lemma deviation_step: "0 < p \<Longrightarrow> p \<le> q \<Longrightarrow> 10 * (q - p) \<le> p \<Longrightarrow> p < 2 ^ 100 \<Longrightarrow> calculate_deviation_bps p q \<le> 1000"
proof -
  assume p: "0 < p" "p \<le> q" "10 * (q - p) \<le> p" "p < 2 ^ 100"
  have "u_sat_mul 128 (q - p) 10000 \<le> 1000 * p" using p(3) by (simp add: u_sat_mul_def)
  then have "u_sat_mul 128 (q - p) 10000 div p \<le> 1000" using div_le_mono [of _ "1000 * p" p] p(1) by fastforce
  then have "u_sat_mul 128 (q - p) 10000 div p mod 2 ^ 32 \<le> 1000" by (meson mod_less_eq_dividend order_trans)
  with p show ?thesis by (simp add: calculate_deviation_bps_def)
qed

lemma feed_step: "n < 10 \<Longrightarrow> oracle_exec (demo_env 0 (Suc n)) (feed_after n) (UpdatePrice demo_pair (1000 + 10 * Suc n)) = Inr (feed_after (Suc n))"
proof -
  assume n: "n < 10"
  have d: "calculate_deviation_bps (1000 + 10 * n) (1000 + 10 * Suc n) \<le> 1000" by (rule deviation_step) (use n in simp_all)
  have u: "updated_feed demo_config \<lparr>os_price = 1000 + 10 * n, os_history = map (\<lambda>k. \<lparr>po_price = 1000 + 10 * k, po_timestamp = k\<rparr>) [1..<Suc n],
       os_last_update = n, os_breaker = False, os_fallback = 1000\<rparr> (1000 + 10 * Suc n) (Suc n)
     = \<lparr>os_price = 1000 + 10 * Suc n, os_history = map (\<lambda>k. \<lparr>po_price = 1000 + 10 * k, po_timestamp = k\<rparr>) [1..<Suc (Suc n)],
       os_last_update = Suc n, os_breaker = False, os_fallback = 1000\<rparr>"
    using n by (simp add: updated_feed_def demo_config_def)
  have "update_price (demo_env 0 (Suc n)) (feed_after n) demo_pair (1000 + 10 * Suc n) = Inr (feed_after (Suc n))"
    unfolding update_price_iff
    by (rule exI [of _ demo_config], rule exI [of _ "\<lparr>os_price = 1000 + 10 * n,
        os_history = map (\<lambda>k. \<lparr>po_price = 1000 + 10 * k, po_timestamp = k\<rparr>) [1..<Suc n],
        os_last_update = n, os_breaker = False, os_fallback = 1000\<rparr>"])
      (use d u in \<open>simp add: feed_after_def set_state_def demo_env_def demo_config_def [THEN arg_cong [of _ _ oc_breaker_bps]]\<close>)
  then show ?thesis by (simp add: update_oracle_price_iff)
qed

lemma feed_reachable: "n \<le> 10 \<Longrightarrow> reachable (\<lambda>s. s = oracle_store0) oracle_step (feed_after n)"
proof (induction n)
  case 0
  have "oracle_exec (demo_env 0 0) oracle_store0 (InitOracle demo_pair Manual 1000) = Inr (feed_after 0)"
    by (simp add: initialize_token_oracle_def initialize_oracle_def set_config_def set_state_def feed_after_def
        oracle_store0_def demo_config_def demo_env_def DEFAULT_STALENESS_THRESHOLD_def
        DEFAULT_CIRCUIT_BREAKER_THRESHOLD_BPS_def DEFAULT_TWAP_WINDOW_SIZE_def)
  moreover have "reachable (\<lambda>s. s = oracle_store0) oracle_step oracle_store0" by (rule reach_init) simp
  ultimately show ?case by (rule oracle_reach [rotated])
next
  case (Suc n)
  then have "reachable (\<lambda>s. s = oracle_store0) oracle_step (feed_after n)" "n < 10" by simp_all
  from oracle_reach [OF this(1) feed_step [OF this(2)]] show ?case .
qed

section \<open>The circuit breaker\<close>

text \<open>
  The circuit breaker of the oracle never acts. In every reachable state no feed has its breaker
  set, because the only branch that sets it returns an error and the host discards its write; so no
  price query ever fails with \<open>CircuitBreakerActive\<close>, and a fresh query never falls back.
\<close>
theorem breaker_never_acts:
  assumes "reachable (\<lambda>s. s = oracle_store0) oracle_step s"
  shows "get_price e s p \<noteq> Inl (Err CircuitBreakerActive) \<and> (\<forall>st. or_state s p = Some st \<longrightarrow> \<not> os_breaker st)"
proof -
  have ok: "oracle_ok s" by (rule oracle_machine.inv_reachable [OF assms])
  then have "\<not> os_breaker st" if "or_state s p = Some st" for st using oracle_okD [OF ok that] by (simp add: feed_ok_def)
  then show ?thesis
    by (auto simp: get_price_def get_config_def get_state_def ensure_def ok_or_def u_sub_def bindR_def
        split: option.splits if_splits sum.splits)
qed

theorem breaker_never_acts_witness: "get_price (demo_env 0 5) (feed_after 3) demo_pair \<noteq> Inl (Err CircuitBreakerActive)"
  using breaker_never_acts [OF feed_reachable [of 3]] by simp

text \<open>
  A large jump passes the deviation check. The deviation in basis points is cut down to 32 bits,
  so from a price of one unit of the precision an update to that price times 429497.7296 has deviation
  0: whatever the breaker threshold, the update is accepted and becomes the current price.
\<close>
theorem deviation_wraps:
  assumes "reachable (\<lambda>s. s = oracle_store0) oracle_step s" and "or_config s p = Some config" and "or_state s p = Some st"
    and "os_price st = PRECISION"
  shows "\<exists>s' st'. update_price e s p (PRECISION + 429496729600000000000000) = Inr s' \<and> or_state s' p = Some st'
    \<and> os_price st' = 429497 * PRECISION + 729600000000000000"
proof -
  have d: "calculate_deviation_bps (os_price st) (PRECISION + 429496729600000000000000) = 0"
    by (simp add: assms(4) calculate_deviation_bps_def PRECISION_def u_sat_mul_def)
  have "update_price e s p (PRECISION + 429496729600000000000000)
      = Inr (set_state s p (updated_feed config st (PRECISION + 429496729600000000000000) (now e)))"
    unfolding update_price_iff using assms(2,3) d by (auto simp: PRECISION_def)
  then show ?thesis by (simp add: set_state_def updated_feed_def Let_def PRECISION_def)
qed

theorem deviation_wraps_witness:
  "\<exists>s'. update_price (demo_env 0 9) (initialize_token_oracle (demo_env 0 0) oracle_store0 ''XLM'' ''USDCSIM'' Manual PRECISION)
      (''XLM'', ''USDCSIM'') (PRECISION + 429496729600000000000000) = Inr s'"
proof -
  let ?s = "initialize_token_oracle (demo_env 0 0) oracle_store0 ''XLM'' ''USDCSIM'' Manual PRECISION"
  have "oracle_exec (demo_env 0 0) oracle_store0 (InitOracle (''XLM'', ''USDCSIM'') Manual PRECISION) = Inr ?s" by simp
  then have r: "reachable (\<lambda>s. s = oracle_store0) oracle_step ?s"
    using oracle_reach [OF reach_init [of "\<lambda>s. s = oracle_store0" oracle_store0]] by blast
  have c: "or_config ?s (''XLM'', ''USDCSIM'') = Some demo_config"
    "or_state ?s (''XLM'', ''USDCSIM'') = Some \<lparr>os_price = PRECISION, os_history = [], os_last_update = 0, os_breaker = False,
       os_fallback = PRECISION\<rparr>"
    by (simp_all add: initialize_token_oracle_def initialize_oracle_def set_config_def set_state_def demo_config_def demo_env_def
        DEFAULT_STALENESS_THRESHOLD_def DEFAULT_CIRCUIT_BREAKER_THRESHOLD_BPS_def DEFAULT_TWAP_WINDOW_SIZE_def)
  from deviation_wraps [OF r c, of "demo_env 0 9"] show ?thesis by auto
qed

section \<open>The average\<close>

lemma sat_sum: "foldl (\<lambda>t obs. u_sat_add 128 t (po_price obs)) a obs = min (a + sum_list (map po_price obs)) (2 ^ 128 - 1)"
  if "a \<le> 2 ^ 128 - 1"
  using that by (induction obs arbitrary: a) (simp_all add: u_sat_add_def)

lemma sat_count: "foldl (\<lambda>c _. u_sat_add 128 c 1) a xs = min (a + length xs) (2 ^ 128 - 1)" if "a \<le> 2 ^ 128 - 1"
  using that by (induction xs arbitrary: a) (simp_all add: u_sat_add_def)

lemma sum_list_between:
  assumes "\<And>x. x \<in> set xs \<Longrightarrow> lo \<le> f x \<and> f x \<le> hi"
  shows "length xs * lo \<le> sum_list (map f xs) \<and> sum_list (map f xs) \<le> length xs * (hi :: nat)"
  using assms by (induction xs) (simp, fastforce)

text \<open>
  The price of a full window lies within the window. When a feed is active and fresh and its
  history has reached the window, and the recorded prices do not overflow the sum, the reported price
  lies between the lowest and the highest price of the last observations of the window.
\<close>
theorem price_within_window:
  assumes reach: "reachable (\<lambda>s. s = oracle_store0) oracle_step s" and c: "or_config s p = Some config" and st: "or_state s p = Some st"
    and fresh: "now e \<le> os_last_update st + oc_staleness config" and full: "oc_window config \<le> length (os_history st)"
    and window: "recent = drop (length (os_history st) - oc_window config) (os_history st)" "recent \<noteq> []"
    and range: "\<forall>obs \<in> set recent. lo \<le> po_price obs \<and> po_price obs \<le> hi" "length recent * hi < 2 ^ 128"
    and price: "get_price e s p = Inr x"
  shows "lo \<le> x \<and> x \<le> hi"
proof -
  have "feed_ok st" by (rule oracle_okD [OF oracle_machine.inv_reachable [OF reach] st])
  then have good: "\<not> os_breaker st" "\<forall>obs \<in> set recent. 0 < po_price obs"
    using window(1) by (auto simp: feed_ok_def dest: in_set_dropD)
  from price c st fresh full good(1) have x: "x = calculate_twap (os_history st) (oc_window config)"
    by (auto simp: get_price_def get_config_def get_state_def bindR_eq_Inr u_sub_eq_Inr split: if_splits)
  have ne: "os_history st \<noteq> []" using window by auto
  have s: "length recent * lo \<le> sum_list (map po_price recent)" "sum_list (map po_price recent) \<le> length recent * hi"
    using sum_list_between [of recent lo po_price hi] range(1) by auto
  have hi: "0 < hi" using good(2) range(1) window(2) by (cases recent) auto
  have len: "length recent \<le> length recent * hi" using hi by simp
  have pos: "0 < length recent" using window(2) by simp
  have le0: "(0 :: nat) \<le> 2 ^ 128 - 1" by simp
  have start: "(if length hist > w then length hist - w else 0) = length hist - w" for hist :: "price_observation list" and w
    by simp
  have tw: "x = sum_list (map po_price recent) div length recent"
  proof -
    have "x = (let total_price = foldl (\<lambda>t obs. u_sat_add 128 t (po_price obs)) 0 recent;
        n = foldl (\<lambda>c _. u_sat_add 128 c 1) 0 recent in if n = 0 then 0 else total_price div n)"
      unfolding x calculate_twap_def start window(1) using ne by (simp only: if_False Let_def)
    also have "\<dots> = (if min (length recent) (2 ^ 128 - 1) = 0 then 0
        else min (sum_list (map po_price recent)) (2 ^ 128 - 1) div min (length recent) (2 ^ 128 - 1))"
      unfolding Let_def sat_sum [OF le0] sat_count [OF le0] add_0 ..
    also have "\<dots> = sum_list (map po_price recent) div length recent"
    proof -
      have "length recent \<le> 2 ^ 128 - 1" "sum_list (map po_price recent) \<le> 2 ^ 128 - 1"
        using s(2) range(2) len by linarith+
      with pos show ?thesis by (simp only: min_absorb1) simp
    qed
    finally show ?thesis .
  qed
  have "lo \<le> x" unfolding tw using div_le_mono [OF s(1), of "length recent"] pos by simp
  moreover have "x \<le> hi" unfolding tw using div_le_mono [OF s(2), of "length recent"] pos by simp
  ultimately show ?thesis by simp
qed

theorem price_within_window_witness: "\<exists>x. get_price (demo_env 0 20) (feed_after 10) demo_pair = Inr x \<and> 1010 \<le> x \<and> x \<le> 1100"
proof -
  let ?st = "\<lparr>os_price = 1100, os_history = map (\<lambda>k. \<lparr>po_price = 1000 + 10 * k, po_timestamp = k\<rparr>) [1..<11],
       os_last_update = 10, os_breaker = False, os_fallback = 1000\<rparr>"
  have c: "or_config (feed_after 10) demo_pair = Some demo_config" "or_state (feed_after 10) demo_pair = Some ?st"
    by (simp_all add: feed_after_def)
  have p: "get_price (demo_env 0 20) (feed_after 10) demo_pair = Inr (calculate_twap (os_history ?st) 10)"
    by (simp add: get_price_def get_config_def get_state_def c u_sub_def demo_env_def demo_config_def)
  have "1010 \<le> calculate_twap (os_history ?st) 10 \<and> calculate_twap (os_history ?st) 10 \<le> 1100"
    by (rule price_within_window [OF feed_reachable [of 10] c _ _ refl _ _ _ p])
      (auto simp: demo_env_def demo_config_def)
  with p show ?thesis by blast
qed

end
