(* ===== verification/Portfolio.thy ===== *)
theory Portfolio
  imports Tiers
begin

text \<open>
  The simulated portfolio of the counter contract (\<open>counter/portfolio.rs\<close>): balances, trade counts,
  profit and loss, the leaderboard, badges, the built-in pool and its LP positions, the daily values
  and the trade history with its statistics. Left out: the functions of the cost-basis engine
  (\<open>record_disposal\<close>, \<open>apply_pnl_swap\<close>, \<open>pnl_summary\<close>), which mix \<open>i128\<close> and \<open>u128\<close> operands and
  have no meaning as committed, and the invariant predicates at the end of the file, which the
  contract does not call.
\<close>

section \<open>Data\<close>

datatype asset = XLM | Custom symbol

datatype badge = FirstTrade | TraderBadge | WealthBuilder | LiquidityProvider | Diversifier | Consistency

record metrics =
  mt_trades_executed :: nat
  mt_failed_orders :: nat
  mt_balances_updated :: nat

record trade_record =
  tr_timestamp :: nat
  tr_token_in :: symbol
  tr_token_out :: symbol
  tr_amount_in :: int
  tr_amount_out :: int
  tr_pnl :: int
  tr_is_winner :: bool

record analytics_summary =
  as_total_trades :: nat
  as_winning_trades :: nat
  as_losing_trades :: nat
  as_win_rate :: nat
  as_realized_pnl :: int
  as_unrealized_pnl :: int
  as_total_pnl :: int
  as_avg_trade_size :: int
  as_avg_winning_trade :: int
  as_avg_losing_trade :: int
  as_sharpe_ratio :: int
  as_max_drawdown :: nat
  as_best_trade :: int
  as_worst_trade :: int

record transaction =
  tx_timestamp :: nat
  tx_from_token :: symbol
  tx_to_token :: symbol
  tx_from_amount :: int
  tx_to_amount :: int
  tx_rate_achieved :: nat
  tx_migration_time :: "nat option"

record lp_position =
  lq_lp_address :: address
  lq_xlm_deposited :: int
  lq_usdc_deposited :: int
  lq_lp_tokens_minted :: int

text \<open>
  The fields of \<open>Portfolio\<close>, and at the end the buffer of badge events (\<open>events.rs\<close>) and the batches
  published from it, which the operations fill.
\<close>

record portfolio =
  pt_balances :: "(address \<times> asset) \<rightharpoonup> int"
  pt_trades :: "address \<rightharpoonup> nat"
  pt_pnl :: "address \<rightharpoonup> int"
  pt_badges :: "(address \<times> badge) \<rightharpoonup> bool"
  pt_metrics :: metrics
  pt_total_users :: nat
  pt_total_trading_volume :: int
  pt_active_users :: "address list"
  pt_top_traders :: "(address \<times> int) list"
  pt_xlm_in_pool :: int
  pt_usdc_in_pool :: int
  pt_total_fees_collected :: int
  pt_initial_balances :: "address \<rightharpoonup> int"
  pt_token_pairs :: "address \<rightharpoonup> symbol list"
  pt_ledger_heights :: "address \<rightharpoonup> nat list"
  pt_lp_deposits_count :: "address \<rightharpoonup> nat"
  pt_transactions :: "address \<rightharpoonup> transaction list"
  pt_lp_positions :: "address \<rightharpoonup> lp_position"
  pt_total_lp_tokens :: int
  pt_lp_fees :: int
  pt_migration_time :: "nat option"
  pt_daily_values :: "(address \<times> nat) \<rightharpoonup> int"
  pt_last_update :: "address \<rightharpoonup> nat"
  pt_trade_history :: "address \<rightharpoonup> trade_record list"
  pt_realized :: "address \<rightharpoonup> int"
  pt_unrealized :: "address \<rightharpoonup> int"
  pt_winning :: "address \<rightharpoonup> nat"
  pt_losing :: "address \<rightharpoonup> nat"
  pt_trade_pnl :: "address \<rightharpoonup> int"
  pt_cost_basis :: "(address \<times> symbol) \<rightharpoonup> int"
  pt_pnl_tokens :: "address \<rightharpoonup> symbol list"
  pt_badge_buffer :: "(address \<times> badge \<times> int) list option"
  pt_badge_events :: "(address \<times> badge \<times> int) list list"

definition portfolio_new :: portfolio where
  "portfolio_new = \<lparr>pt_balances = Map.empty, pt_trades = Map.empty, pt_pnl = Map.empty, pt_badges = Map.empty,
     pt_metrics = \<lparr>mt_trades_executed = 0, mt_failed_orders = 0, mt_balances_updated = 0\<rparr>,
     pt_total_users = 0, pt_total_trading_volume = 0, pt_active_users = [], pt_top_traders = [],
     pt_xlm_in_pool = 0, pt_usdc_in_pool = 0, pt_total_fees_collected = 0, pt_initial_balances = Map.empty,
     pt_token_pairs = Map.empty, pt_ledger_heights = Map.empty, pt_lp_deposits_count = Map.empty,
     pt_transactions = Map.empty, pt_lp_positions = Map.empty, pt_total_lp_tokens = 0, pt_lp_fees = 0,
     pt_migration_time = None, pt_daily_values = Map.empty, pt_last_update = Map.empty,
     pt_trade_history = Map.empty, pt_realized = Map.empty, pt_unrealized = Map.empty, pt_winning = Map.empty,
     pt_losing = Map.empty, pt_trade_pnl = Map.empty, pt_cost_basis = Map.empty, pt_pnl_tokens = Map.empty,
     pt_badge_buffer = None, pt_badge_events = []\<rparr>"

definition or_else :: "'a option \<Rightarrow> 'a \<Rightarrow> 'a" where
  "or_else x d = (case x of None \<Rightarrow> d | Some a \<Rightarrow> a)"

section \<open>Badges\<close>

definition badge_awarded :: "env \<Rightarrow> address \<Rightarrow> badge \<Rightarrow> portfolio \<Rightarrow> portfolio" where
  "badge_awarded e user b p = p\<lparr>pt_badge_buffer := Some (or_else (pt_badge_buffer p) [] @ [(user, b, int (now e))])\<rparr>"

definition flush_badge_events :: "portfolio \<Rightarrow> portfolio" where
  "flush_badge_events p =
     (case pt_badge_buffer p of
        Some evs \<Rightarrow> if evs \<noteq> [] then p\<lparr>pt_badge_events := pt_badge_events p @ [evs], pt_badge_buffer := None\<rparr> else p
      | None \<Rightarrow> p)"

definition has_badge :: "portfolio \<Rightarrow> address \<Rightarrow> badge \<Rightarrow> bool" where
  "has_badge p user b = or_else (pt_badges p (user, b)) False"

definition award_badge :: "env \<Rightarrow> portfolio \<Rightarrow> address \<Rightarrow> badge \<Rightarrow> bool \<times> portfolio" where
  "award_badge e p user b =
     (if has_badge p user b then (False, p)
      else (True, badge_awarded e user b (p\<lparr>pt_badges := (pt_badges p)((user, b) \<mapsto> True)\<rparr>)))"

definition get_user_badges :: "portfolio \<Rightarrow> address \<Rightarrow> badge list" where
  "get_user_badges p user =
     filter (has_badge p user) [FirstTrade, TraderBadge, WealthBuilder, LiquidityProvider, Diversifier, Consistency]"

section \<open>The leaderboard\<close>

text \<open>The inner loop of \<open>sort_top_traders\<close> compares \<open>n\<close> neighbours from the front.\<close>

fun bubble_pass :: "nat \<Rightarrow> (address \<times> int) list \<Rightarrow> (address \<times> int) list" where
  "bubble_pass (Suc n) (a # b # xs) =
     (if snd a < snd b then b # bubble_pass n (a # xs) else a # bubble_pass n (b # xs))"
| "bubble_pass _ xs = xs"

definition sort_top_traders :: "(address \<times> int) list \<Rightarrow> (address \<times> int) list" where
  "sort_top_traders xs = foldl (\<lambda>ys i. bubble_pass (length xs - 1 - i) ys) xs [0..<length xs]"

fun find_trader :: "address \<Rightarrow> (address \<times> int) list \<Rightarrow> nat \<Rightarrow> nat option" where
  "find_trader user [] i = None"
| "find_trader user (x # xs) i = (if fst x = user then Some i else find_trader user xs (i + 1))"

definition update_top_traders :: "portfolio \<Rightarrow> address \<Rightarrow> portfolio" where
  "update_top_traders p user =
     (let user_pnl = or_else (pt_pnl p user) 0; tt = pt_top_traders p;
          tt1 = (case find_trader user tt 0 of
              Some idx \<Rightarrow> tt[idx := (user, user_pnl)]
            | None \<Rightarrow>
                if length tt < 100 then tt @ [(user, user_pnl)]
                else if 99 < length tt \<and> user_pnl > snd (tt ! 99) then tt[99 := (user, user_pnl)]
                else tt)
      in p\<lparr>pt_top_traders := sort_top_traders tt1\<rparr>)"

definition get_top_traders :: "portfolio \<Rightarrow> nat \<Rightarrow> (address \<times> int) list" where
  "get_top_traders p limit = take (min (length (pt_top_traders p)) (if limit > 100 then 100 else limit)) (pt_top_traders p)"

section \<open>Balances\<close>

definition balance_of :: "portfolio \<Rightarrow> asset \<Rightarrow> address \<Rightarrow> int" where
  "balance_of p token user = or_else (pt_balances p (user, token)) 0"

definition count_balance_update :: "portfolio \<Rightarrow> portfolio" where
  "count_balance_update p = p\<lparr>pt_metrics := (pt_metrics p)\<lparr>mt_balances_updated := u_sat_add 32 (mt_balances_updated (pt_metrics p)) 1\<rparr>\<rparr>"

definition credit :: "portfolio \<Rightarrow> asset \<Rightarrow> address \<Rightarrow> int \<Rightarrow> (portfolio, counter_error) res" where
  "credit p token user amount =
     (if amount = 0 then Inr p
      else bindR (ensure (amount > 0) Trap) (\<lambda>_.
           bindR (i_add (balance_of p token user) amount) (\<lambda>new_balance.
           Inr (count_balance_update (p\<lparr>pt_balances := (pt_balances p)((user, token) \<mapsto> new_balance)\<rparr>)))))"

definition debit :: "portfolio \<Rightarrow> asset \<Rightarrow> address \<Rightarrow> int \<Rightarrow> (portfolio, counter_error) res" where
  "debit p token from_user amount =
     bindR (ensure (amount > 0) Trap) (\<lambda>_.
     bindR (ensure (balance_of p token from_user \<ge> amount) Trap) (\<lambda>_.
     bindR (i_sub (balance_of p token from_user) amount) (\<lambda>new_balance.
     let p1 = p\<lparr>pt_balances := (pt_balances p)((from_user, token) \<mapsto> new_balance)\<rparr>;
         p2 = p1\<lparr>pt_pnl := (pt_pnl p1)(from_user \<mapsto> i_sat_sub (or_else (pt_pnl p1 from_user) 0) amount)\<rparr>
     in Inr (count_balance_update p2))))"

definition mint :: "portfolio \<Rightarrow> asset \<Rightarrow> address \<Rightarrow> int \<Rightarrow> (portfolio, counter_error) res" where
  "mint p token to_user amount =
     bindR (ensure (amount \<ge> 0) Trap) (\<lambda>_.
     bindR (i_add (balance_of p token to_user) amount) (\<lambda>new_balance.
     let p1 = p\<lparr>pt_balances := (pt_balances p)((to_user, token) \<mapsto> new_balance)\<rparr> in
     bindR (i_add (or_else (pt_pnl p1 to_user) 0) amount) (\<lambda>new_pnl.
     Inr (count_balance_update (update_top_traders (p1\<lparr>pt_pnl := (pt_pnl p1)(to_user \<mapsto> new_pnl)\<rparr>) to_user)))))"

definition update_stats_on_trade :: "portfolio \<Rightarrow> address \<Rightarrow> int \<Rightarrow> portfolio" where
  "update_stats_on_trade p user swap_amount =
     (let p1 = (if or_else (pt_trades p user) 0 = 0
                then p\<lparr>pt_total_users := u_sat_add 32 (pt_total_users p) 1,
                       pt_active_users := (if user \<in> set (pt_active_users p) then pt_active_users p
                                           else pt_active_users p @ [user])\<rparr>
                else p)
      in p1\<lparr>pt_total_trading_volume := i_sat_add (pt_total_trading_volume p1) swap_amount\<rparr>)"

definition transfer_asset :: "portfolio \<Rightarrow> asset \<Rightarrow> asset \<Rightarrow> address \<Rightarrow> int \<Rightarrow> (portfolio, counter_error) res" where
  "transfer_asset p from_token to_token user amount =
     bindR (debit p from_token user amount) (\<lambda>p1.
     bindR (credit p1 to_token user amount) (\<lambda>p2.
     Inr (update_stats_on_trade p2 user amount)))"

definition set_balance_for_rollback :: "portfolio \<Rightarrow> address \<Rightarrow> asset \<Rightarrow> int \<Rightarrow> portfolio" where
  "set_balance_for_rollback p user asset amount =
     count_balance_update (p\<lparr>pt_balances := (pt_balances p)((user, asset) \<mapsto> amount)\<rparr>)"

section \<open>Trades\<close>

definition record_trade :: "env \<Rightarrow> portfolio \<Rightarrow> address \<Rightarrow> (portfolio, counter_error) res" where
  "record_trade e p user =
     (let n = or_else (pt_trades p user) 0 in
      bindR (u_add 32 n 1) (\<lambda>n1.
      let p1 = p\<lparr>pt_trades := (pt_trades p)(user \<mapsto> n1)\<rparr>;
          p2 = p1\<lparr>pt_metrics := (pt_metrics p1)\<lparr>mt_trades_executed := u_sat_add 32 (mt_trades_executed (pt_metrics p1)) 1\<rparr>\<rparr>
      in Inr (if n = 0 then snd (award_badge e p2 user FirstTrade) else p2)))"

definition record_trade_with_amount :: "env \<Rightarrow> portfolio \<Rightarrow> address \<Rightarrow> int \<Rightarrow> (portfolio, counter_error) res" where
  "record_trade_with_amount e p user swap_amount =
     bindR (record_trade e p user) (\<lambda>p1. Inr (update_stats_on_trade p1 user swap_amount))"

definition inc_failed_order :: "portfolio \<Rightarrow> portfolio" where
  "inc_failed_order p = p\<lparr>pt_metrics := (pt_metrics p)\<lparr>mt_failed_orders := u_sat_add 32 (mt_failed_orders (pt_metrics p)) 1\<rparr>\<rparr>"

definition get_user_transactions :: "portfolio \<Rightarrow> address \<Rightarrow> nat \<Rightarrow> transaction list" where
  "get_user_transactions p user limit = (let txs = or_else (pt_transactions p user) [] in take (min limit (length txs)) txs)"

definition get_portfolio :: "portfolio \<Rightarrow> address \<Rightarrow> nat \<times> int" where
  "get_portfolio p user = (or_else (pt_trades p user) 0, or_else (pt_pnl p user) 0)"

definition get_total_user_balance :: "portfolio \<Rightarrow> address \<Rightarrow> int" where
  "get_total_user_balance p user = or_else (pt_pnl p user) 0"

definition get_user_tier :: "portfolio \<Rightarrow> address \<Rightarrow> user_tier" where
  "get_user_tier p user = calculate_user_tier (or_else (pt_trades p user) 0) (get_total_user_balance p user)"

section \<open>Badge conditions\<close>

text \<open>\<open>format_pair_helper\<close> drops the second token.\<close>

definition format_pair_helper :: "symbol \<Rightarrow> symbol \<Rightarrow> symbol" where
  "format_pair_helper from to_token = from"

definition track_trade_for_badges :: "portfolio \<Rightarrow> address \<Rightarrow> symbol \<Rightarrow> symbol \<Rightarrow> nat \<Rightarrow> portfolio" where
  "track_trade_for_badges p user from_token to_token ledger_height =
     (let pairs = or_else (pt_token_pairs p user) []; pair_key = format_pair_helper from_token to_token;
          p1 = (if pair_key \<notin> set pairs then p\<lparr>pt_token_pairs := (pt_token_pairs p)(user \<mapsto> pairs @ [pair_key])\<rparr> else p);
          heights = or_else (pt_ledger_heights p1 user) []
      in if ledger_height \<notin> set heights
         then p1\<lparr>pt_ledger_heights := (pt_ledger_heights p1)(user \<mapsto> heights @ [ledger_height])\<rparr> else p1)"

definition award_if :: "env \<Rightarrow> address \<Rightarrow> bool \<Rightarrow> badge \<Rightarrow> portfolio \<Rightarrow> portfolio" where
  "award_if e user c b p = (if c then snd (award_badge e p user b) else p)"

definition check_and_award_badges :: "env \<Rightarrow> portfolio \<Rightarrow> address \<Rightarrow> (portfolio, counter_error) res" where
  "check_and_award_badges e p user =
     (let p1 = award_if e user (or_else (pt_trades p user) 0 \<ge> 10) TraderBadge p;
          current_balance = get_total_user_balance p1 user;
          initial_balance = or_else (pt_initial_balances p1 user) 0 in
      bindR (if initial_balance > 0 then bindR (i_mul initial_balance 10) (\<lambda>t. Inr (current_balance \<ge> t)) else Inr False) (\<lambda>rich.
      let p2 = award_if e user rich WealthBuilder p1;
          p3 = award_if e user (or_else (pt_lp_deposits_count p2 user) 0 \<ge> 1) LiquidityProvider p2;
          p4 = award_if e user (length (or_else (pt_token_pairs p3 user) []) \<ge> 5) Diversifier p3
      in Inr (award_if e user (length (or_else (pt_ledger_heights p4 user) []) \<ge> 7) Consistency p4)))"

definition record_lp_deposit :: "portfolio \<Rightarrow> address \<Rightarrow> portfolio" where
  "record_lp_deposit p user =
     p\<lparr>pt_lp_deposits_count := (pt_lp_deposits_count p)(user \<mapsto> u_sat_add 32 (or_else (pt_lp_deposits_count p user) 0) 1)\<rparr>"

definition record_initial_balance :: "portfolio \<Rightarrow> address \<Rightarrow> int \<Rightarrow> portfolio" where
  "record_initial_balance p user amount =
     (if pt_initial_balances p user = None \<and> amount > 0
      then p\<lparr>pt_initial_balances := (pt_initial_balances p)(user \<mapsto> amount)\<rparr> else p)"

definition as_u32 :: "int \<Rightarrow> nat" where
  "as_u32 x = nat (x mod 2 ^ 32)"

definition get_badge_progress :: "portfolio \<Rightarrow> address \<Rightarrow> ((badge \<times> nat \<times> nat) list, counter_error) res" where
  "get_badge_progress p user =
     (let trades = or_else (pt_trades p user) 0; current_balance = get_total_user_balance p user;
          initial_balance = or_else (pt_initial_balances p user) 1 in
      bindR (if initial_balance > 0 then bindR (i_div current_balance initial_balance) (\<lambda>q. Inr (as_u32 q)) else Inr 0) (\<lambda>wealth.
      Inr [(FirstTrade, trades, 1), (TraderBadge, trades, 10), (WealthBuilder, wealth, 10),
        (LiquidityProvider, or_else (pt_lp_deposits_count p user) 0, 1),
        (Diversifier, length (or_else (pt_token_pairs p user) []), 5),
        (Consistency, length (or_else (pt_ledger_heights p user) []), 7)]))"

section \<open>The built-in pool\<close>

definition USDCSIM :: symbol where
  "USDCSIM = ''USDCSIM''"

definition add_pool_liquidity :: "portfolio \<Rightarrow> int \<Rightarrow> int \<Rightarrow> portfolio" where
  "add_pool_liquidity p xlm_amount usdc_amount =
     p\<lparr>pt_xlm_in_pool := i_sat_add (pt_xlm_in_pool p) xlm_amount, pt_usdc_in_pool := i_sat_add (pt_usdc_in_pool p) usdc_amount\<rparr>"

definition collect_fee :: "portfolio \<Rightarrow> int \<Rightarrow> portfolio" where
  "collect_fee p fee_amount = p\<lparr>pt_total_fees_collected := i_sat_add (pt_total_fees_collected p) fee_amount\<rparr>"

definition add_fee_collection :: "portfolio \<Rightarrow> int \<Rightarrow> portfolio" where
  "add_fee_collection p amount = p\<lparr>pt_total_fees_collected := i_sat_add (pt_total_fees_collected p) amount\<rparr>"

definition set_liquidity :: "portfolio \<Rightarrow> asset \<Rightarrow> int \<Rightarrow> portfolio" where
  "set_liquidity p asset amount =
     (case asset of
        XLM \<Rightarrow> p\<lparr>pt_xlm_in_pool := amount\<rparr>
      | Custom token \<Rightarrow> if token = USDCSIM then p\<lparr>pt_usdc_in_pool := amount\<rparr> else p)"

definition get_liquidity :: "portfolio \<Rightarrow> asset \<Rightarrow> int" where
  "get_liquidity p asset =
     (case asset of
        XLM \<Rightarrow> pt_xlm_in_pool p
      | Custom token \<Rightarrow> if token = USDCSIM then pt_usdc_in_pool p else 0)"

definition get_pool_stats :: "portfolio \<Rightarrow> int \<times> int \<times> int" where
  "get_pool_stats p = (pt_xlm_in_pool p, pt_usdc_in_pool p, pt_total_fees_collected p)"

definition get_lp_position :: "portfolio \<Rightarrow> address \<Rightarrow> lp_position option" where
  "get_lp_position p user = pt_lp_positions p user"

definition set_lp_position :: "portfolio \<Rightarrow> address \<Rightarrow> lp_position \<Rightarrow> portfolio" where
  "set_lp_position p user position = p\<lparr>pt_lp_positions := (pt_lp_positions p)(user \<mapsto> position)\<rparr>"

definition get_total_lp_tokens :: "portfolio \<Rightarrow> int" where
  "get_total_lp_tokens p = pt_total_lp_tokens p"

definition add_total_lp_tokens :: "portfolio \<Rightarrow> int \<Rightarrow> portfolio" where
  "add_total_lp_tokens p amount = p\<lparr>pt_total_lp_tokens := i_sat_add (pt_total_lp_tokens p) amount\<rparr>"

definition subtract_total_lp_tokens :: "portfolio \<Rightarrow> int \<Rightarrow> portfolio" where
  "subtract_total_lp_tokens p amount =
     (let p1 = p\<lparr>pt_total_lp_tokens := i_sat_sub (pt_total_lp_tokens p) amount\<rparr>
      in if pt_total_lp_tokens p1 < 0 then p1\<lparr>pt_total_lp_tokens := 0\<rparr> else p1)"

definition add_lp_fees :: "portfolio \<Rightarrow> int \<Rightarrow> portfolio" where
  "add_lp_fees p amount = p\<lparr>pt_lp_fees := i_sat_add (pt_lp_fees p) amount\<rparr>"

section \<open>Daily values\<close>

definition get_total_portfolio_value :: "portfolio \<Rightarrow> address \<Rightarrow> (int, counter_error) res" where
  "get_total_portfolio_value p user = i_add (balance_of p XLM user) (balance_of p (Custom USDCSIM) user)"

definition record_daily_portfolio_value :: "portfolio \<Rightarrow> address \<Rightarrow> nat \<Rightarrow> (portfolio, counter_error) res" where
  "record_daily_portfolio_value p user timestamp =
     bindR (get_total_portfolio_value p user) (\<lambda>current_value.
     Inr (p\<lparr>pt_daily_values := (pt_daily_values p)((user, timestamp div 86400) \<mapsto> current_value),
            pt_last_update := (pt_last_update p)(user \<mapsto> timestamp)\<rparr>))"

definition get_portfolio_values_in_range :: "portfolio \<Rightarrow> address \<Rightarrow> nat \<Rightarrow> nat \<Rightarrow> int list" where
  "get_portfolio_values_in_range p user start_date end_date =
     List.map_filter (\<lambda>date. pt_daily_values p (user, date)) [start_date..<Suc end_date]"

definition get_last_portfolio_value :: "portfolio \<Rightarrow> address \<Rightarrow> int option" where
  "get_last_portfolio_value p user =
     (case pt_last_update p user of None \<Rightarrow> None
      | Some last_timestamp \<Rightarrow> pt_daily_values p (user, last_timestamp div 86400))"

section \<open>Trade history and statistics\<close>

definition record_trade_with_pnl :: "portfolio \<Rightarrow> address \<Rightarrow> symbol \<Rightarrow> symbol \<Rightarrow> int \<Rightarrow> int \<Rightarrow> nat \<Rightarrow> portfolio" where
  "record_trade_with_pnl p user token_in token_out amount_in amount_out timestamp =
     (let pnl = i_sat_sub amount_out amount_in; is_winner = (pnl > 0);
          trade = \<lparr>tr_timestamp = timestamp, tr_token_in = token_in, tr_token_out = token_out, tr_amount_in = amount_in,
            tr_amount_out = amount_out, tr_pnl = pnl, tr_is_winner = is_winner\<rparr>;
          p1 = p\<lparr>pt_trade_history := (pt_trade_history p)(user \<mapsto> or_else (pt_trade_history p user) [] @ [trade]),
            pt_realized := (pt_realized p)(user \<mapsto> i_sat_add (or_else (pt_realized p user) 0) pnl),
            pt_trade_pnl := (pt_trade_pnl p)(user \<mapsto> i_sat_add (or_else (pt_trade_pnl p user) 0) pnl)\<rparr>
      in if is_winner then p1\<lparr>pt_winning := (pt_winning p1)(user \<mapsto> u_sat_add 32 (or_else (pt_winning p1 user) 0) 1)\<rparr>
         else if pnl < 0 then p1\<lparr>pt_losing := (pt_losing p1)(user \<mapsto> u_sat_add 32 (or_else (pt_losing p1 user) 0) 1)\<rparr>
         else p1)"

definition i_sat_div :: "int \<Rightarrow> int \<Rightarrow> (int, counter_error) res" where
  "i_sat_div a b = (if b = 0 then Inl Trap else Inr (i_clamp (a sdiv b)))"

record averages =
  av_total_size :: int
  av_winning_sum :: int
  av_losing_sum :: int
  av_winning_count :: int
  av_losing_count :: int
  av_best :: int
  av_worst :: int

definition add_to_averages :: "averages \<Rightarrow> trade_record \<Rightarrow> averages" where
  "add_to_averages a trade =
     (let a1 = a\<lparr>av_total_size := i_sat_add (av_total_size a) (tr_amount_in trade),
            av_best := (if tr_pnl trade > av_best a then tr_pnl trade else av_best a),
            av_worst := (if tr_pnl trade < av_worst a then tr_pnl trade else av_worst a)\<rparr>
      in if tr_is_winner trade
         then a1\<lparr>av_winning_sum := i_sat_add (av_winning_sum a1) (tr_pnl trade), av_winning_count := i_sat_add (av_winning_count a1) 1\<rparr>
         else if tr_pnl trade < 0
         then a1\<lparr>av_losing_sum := i_sat_add (av_losing_sum a1) (tr_pnl trade), av_losing_count := i_sat_add (av_losing_count a1) 1\<rparr>
         else a1)"

definition calculate_trade_averages :: "trade_record list \<Rightarrow> (int \<times> int \<times> int \<times> int \<times> int, counter_error) res" where
  "calculate_trade_averages trades =
     (if trades = [] then Inr (0, 0, 0, 0, 0)
      else let a = foldl add_to_averages \<lparr>av_total_size = 0, av_winning_sum = 0, av_losing_sum = 0, av_winning_count = 0,
                 av_losing_count = 0, av_best = I128_MIN, av_worst = I128_MAX\<rparr> trades in
        bindR (i_sat_div (av_total_size a) (int (length trades))) (\<lambda>avg_trade_size.
        bindR (if av_winning_count a > 0 then i_sat_div (av_winning_sum a) (av_winning_count a) else Inr 0) (\<lambda>avg_winning.
        bindR (if av_losing_count a > 0 then i_sat_div (av_losing_sum a) (av_losing_count a) else Inr 0) (\<lambda>avg_losing.
        Inr (avg_trade_size, avg_winning, avg_losing, av_best a, av_worst a)))))"

text \<open>\<open>sqrt_i128\<close>: the loop keeps the previous estimate and stops when the new one is not smaller.\<close>

function sqrt_i128_loop :: "nat \<Rightarrow> nat \<Rightarrow> nat" where
  "sqrt_i128_loop n x = (let y = (x + n div x) div 2 in if y \<ge> x then x else sqrt_i128_loop n y)"
  by pat_completeness auto
termination by (relation "measure snd") auto

declare sqrt_i128_loop.simps [simp del]

definition sqrt_i128 :: "int \<Rightarrow> int" where
  "sqrt_i128 n = (if n \<le> 0 then 0 else if n = 1 then 1 else int (sqrt_i128_loop (nat n) (nat n div 2)))"

fun trade_returns :: "trade_record list \<Rightarrow> (int list, counter_error) res" where
  "trade_returns [] = Inr []"
| "trade_returns (t # ts) =
     (if tr_amount_in t > 0
      then bindR (i_div (i_sat_mul (tr_pnl t) 10000000) (tr_amount_in t)) (\<lambda>r. bindR (trade_returns ts) (\<lambda>rs. Inr (r # rs)))
      else trade_returns ts)"

definition calculate_sharpe_ratio :: "trade_record list \<Rightarrow> (int, counter_error) res" where
  "calculate_sharpe_ratio trades =
     (if length trades < 2 then Inr 0
      else bindR (trade_returns trades) (\<lambda>returns.
        if returns = [] then Inr 0
        else bindR (i_sat_div (foldl i_sat_add 0 returns) (int (length returns))) (\<lambda>avg_return.
          let variance_sum = foldl (\<lambda>v r. let diff = i_sat_sub r avg_return in i_sat_add v (i_sat_mul diff diff)) 0 returns in
          bindR (i_sat_div variance_sum (int (length returns))) (\<lambda>variance.
          let std_dev = sqrt_i128 variance in
          if std_dev > 0 then i_div (i_sat_mul avg_return 10000000) std_dev else Inr 0))))"

text \<open>The peak, the maximum drawdown and the cumulative profit after each trade.\<close>

definition drawdown_step :: "int \<times> nat \<times> int \<Rightarrow> trade_record \<Rightarrow> int \<times> nat \<times> int" where
  "drawdown_step = (\<lambda>(peak, max_dd, cumulative) trade.
     let cumulative1 = i_sat_add cumulative (tr_pnl trade);
         portfolio_value = i_sat_add 10000000000000000000 cumulative1;
         peak1 = (if portfolio_value > peak then portfolio_value else peak);
         max_dd1 = (if peak1 > 0
           then (let drawdown = u_sat_mul 128 (as_u128 (i_sat_sub peak1 portfolio_value)) 10000000 div as_u128 peak1
                 in if drawdown > max_dd then drawdown else max_dd)
           else max_dd)
     in (peak1, max_dd1, cumulative1))"

definition calculate_max_drawdown :: "portfolio \<Rightarrow> address \<Rightarrow> nat" where
  "calculate_max_drawdown p user =
     (let trades = or_else (pt_trade_history p user) []
      in if trades = [] then 0 else fst (snd (foldl drawdown_step (0, 0, 0) trades)))"

definition get_analytics_summary :: "portfolio \<Rightarrow> address \<Rightarrow> (analytics_summary, counter_error) res" where
  "get_analytics_summary p user =
     (let total_trades = or_else (pt_trades p user) 0; winning = or_else (pt_winning p user) 0;
          losing = or_else (pt_losing p user) 0; realized = or_else (pt_realized p user) 0;
          unrealized = or_else (pt_unrealized p user) 0;
          win_rate = (if total_trades > 0 then u_sat_mul 128 winning 10000000 div total_trades else 0);
          trades = or_else (pt_trade_history p user) [] in
      bindR (calculate_trade_averages trades) (\<lambda>(avg_size, avg_winning, avg_losing, best, worst).
      bindR (calculate_sharpe_ratio trades) (\<lambda>sharpe.
      Inr \<lparr>as_total_trades = total_trades, as_winning_trades = winning, as_losing_trades = losing,
        as_win_rate = win_rate, as_realized_pnl = realized, as_unrealized_pnl = unrealized,
        as_total_pnl = i_sat_add realized unrealized, as_avg_trade_size = avg_size, as_avg_winning_trade = avg_winning,
        as_avg_losing_trade = avg_losing, as_sharpe_ratio = sharpe, as_max_drawdown = calculate_max_drawdown p user,
        as_best_trade = best, as_worst_trade = worst\<rparr>)))"

end
