(* ===== verification/Risk.thy ===== *)
theory Risk
  imports Portfolio Oracle
begin

text \<open>
  Risk management of the counter contract (\<open>counter/src/risk_management\<close>): the risk configuration
  and the price circuit breaker, the concentration and position limits, the risk score of a
  portfolio, and the volume circuit breaker. The alert and volatility modules are stubs.
\<close>

section \<open>Data\<close>

record risk_weights =
  rw_concentration :: nat
  rw_position_size :: nat
  rw_volatility :: nat

record risk_config =
  rc_max_per_user :: int
  rc_max_per_asset :: int
  rc_concentration_warn :: nat
  rc_concentration_limit :: nat
  rc_breaker_threshold :: nat
  rc_breaker_window :: nat
  rc_weights :: risk_weights

record breaker_state =
  bs_is_active :: bool
  bs_triggered_at :: nat
  bs_reason :: symbol
  bs_price_change :: nat
  bs_recovery_price :: "int option"

record risk_metrics =
  rm_overall :: nat
  rm_concentration :: nat
  rm_position_size :: nat
  rm_volatility :: nat
  rm_exposure :: int
  rm_largest_pct :: nat
  rm_over_limit :: nat
  rm_breaker_active :: bool
  rm_assessed_at :: nat

datatype position_limit_error =
    AssetLimitExceeded int int int
  | PortfolioLimitExceeded int int int

definition default_risk_config :: risk_config where
  "default_risk_config = \<lparr>rc_max_per_user = 1000000000000, rc_max_per_asset = 500000000000,
     rc_concentration_warn = 3000, rc_concentration_limit = 5000, rc_breaker_threshold = 1500, rc_breaker_window = 3600,
     rc_weights = \<lparr>rw_concentration = 40, rw_position_size = 35, rw_volatility = 25\<rparr>\<rparr>"

definition default_breaker_state :: breaker_state where
  "default_breaker_state = \<lparr>bs_is_active = False, bs_triggered_at = 0, bs_reason = ''none'', bs_price_change = 0,
     bs_recovery_price = None\<rparr>"

text \<open>The keys \<open>risk_cfg\<close> and \<open>circuit\<close>.\<close>

record risk_store =
  rk_config :: "risk_config option"
  rk_breaker :: "breaker_state option"

definition risk_store0 :: risk_store where
  "risk_store0 = \<lparr>rk_config = None, rk_breaker = None\<rparr>"

definition get_risk_config :: "risk_store \<Rightarrow> risk_config" where
  "get_risk_config s = or_else (rk_config s) default_risk_config"

definition validate :: "risk_weights \<Rightarrow> (bool, counter_error) res" where
  "validate w = bindR (u_add 32 (rw_concentration w) (rw_position_size w)) (\<lambda>a.
     bindR (u_add 32 a (rw_volatility w)) (\<lambda>b. Inr (b = 100)))"

definition set_risk_config :: "risk_store \<Rightarrow> risk_config \<Rightarrow> (risk_store, counter_error) res" where
  "set_risk_config s config =
     bindR (validate (rc_weights config)) (\<lambda>valid.
     bindR (ensure valid Trap) (\<lambda>_. Inr (s\<lparr>rk_config := Some config\<rparr>)))"

section \<open>The price circuit breaker\<close>

definition get_circuit_breaker_state :: "risk_store \<Rightarrow> breaker_state" where
  "get_circuit_breaker_state s = or_else (rk_breaker s) default_breaker_state"

definition is_circuit_breaker_active :: "risk_store \<Rightarrow> bool" where
  "is_circuit_breaker_active s = bs_is_active (get_circuit_breaker_state s)"

definition trigger_circuit_breaker :: "env \<Rightarrow> risk_store \<Rightarrow> symbol \<Rightarrow> nat \<Rightarrow> risk_store" where
  "trigger_circuit_breaker e s reason price_change_pct =
     s\<lparr>rk_breaker := Some ((get_circuit_breaker_state s)\<lparr>bs_is_active := True, bs_triggered_at := now e,
        bs_reason := reason, bs_price_change := price_change_pct\<rparr>)\<rparr>"

definition risk_reset_breaker :: "risk_store \<Rightarrow> risk_store" where
  "risk_reset_breaker s =
     s\<lparr>rk_breaker := Some ((get_circuit_breaker_state s)\<lparr>bs_is_active := False, bs_reason := ''reset'',
        bs_price_change := 0, bs_recovery_price := None\<rparr>)\<rparr>"

definition in_window :: "nat \<Rightarrow> nat \<Rightarrow> price_data \<Rightarrow> bool" where
  "in_window start_time end_time d \<longleftrightarrow> pd_timestamp d \<ge> start_time \<and> pd_timestamp d \<le> end_time"

definition get_price_changes_in_window :: "oracle_store \<Rightarrow> symbol \<Rightarrow> nat \<Rightarrow> nat \<Rightarrow> (nat \<times> nat) list" where
  "get_price_changes_in_window o_s asset_symbol start_time end_time =
     (case get_stored_price o_s (asset_symbol, ''USD'') of
        Some d \<Rightarrow> if in_window start_time end_time d then [(pd_timestamp d, pd_price d)] else []
      | None \<Rightarrow> []) @
     (case get_stored_price o_s (''USD'', asset_symbol) of
        Some d \<Rightarrow> if in_window start_time end_time d \<and> pd_price d > 0
          then [(pd_timestamp d, (1000000000000000000 * 1000000000000000000) div pd_price d)] else []
      | None \<Rightarrow> [])"

text \<open>The exchange sort of \<open>calculate_max_price_change\<close>, by timestamp.\<close>

definition exchange :: "(nat \<times> nat) list \<Rightarrow> nat \<times> nat \<Rightarrow> (nat \<times> nat) list" where
  "exchange xs = (\<lambda>(i, j). if fst (xs ! j) < fst (xs ! i) then xs[i := xs ! j, j := xs ! i] else xs)"

definition sort_by_time :: "(nat \<times> nat) list \<Rightarrow> (nat \<times> nat) list" where
  "sort_by_time xs = foldl exchange xs [(i, j). i \<leftarrow> [0..<length xs], j \<leftarrow> [Suc i..<length xs]]"

fun max_change :: "nat \<Rightarrow> (nat \<times> nat) list \<Rightarrow> (nat, counter_error) res" where
  "max_change m ((t0, prev_price) # (t1, curr_price) # xs) =
     bindR (if prev_price > 0
       then bindR (u_mul 128 (if curr_price > prev_price then curr_price - prev_price else prev_price - curr_price) 10000) (\<lambda>x.
            let change = x div prev_price mod 2 ^ 32 in Inr (if change > m then change else m))
       else Inr m) (\<lambda>m1. max_change m1 ((t1, curr_price) # xs))"
| "max_change m xs = Inr m"

definition calculate_max_price_change :: "(nat \<times> nat) list \<Rightarrow> (nat, counter_error) res" where
  "calculate_max_price_change prices = (if length prices < 2 then Inr 0 else max_change 0 (sort_by_time prices))"

definition check_circuit_breaker :: "env \<Rightarrow> risk_store \<Rightarrow> oracle_store \<Rightarrow> symbol \<Rightarrow> (bool, counter_error) res" where
  "check_circuit_breaker e s o_s asset_symbol =
     (let config = get_risk_config s; current_time = now e in
      bindR (u_sub current_time (rc_breaker_window config)) (\<lambda>start.
      let price_changes = get_price_changes_in_window o_s asset_symbol start current_time in
      if price_changes = [] then Inr False
      else bindR (calculate_max_price_change price_changes) (\<lambda>m. Inr (m \<ge> rc_breaker_threshold config))))"

section \<open>Concentration\<close>

definition calculate_portfolio_value :: "portfolio \<Rightarrow> address \<Rightarrow> (int, counter_error) res" where
  "calculate_portfolio_value p user = i_add (balance_of p XLM user) (balance_of p (Custom USDCSIM) user)"

text \<open>The share of the largest position in basis points; 0 without a position.\<close>

definition get_largest_position_percentage :: "portfolio \<Rightarrow> address \<Rightarrow> (nat, counter_error) res" where
  "get_largest_position_percentage p user =
     bindR (calculate_portfolio_value p user) (\<lambda>total_value.
     if total_value = 0 then Inr 0
     else bindR (i_mul (max (balance_of p XLM user) (balance_of p (Custom USDCSIM) user)) 10000) (\<lambda>x.
          bindR (i_div x total_value) (\<lambda>q. Inr (as_u32 q))))"

definition calculate_concentration_risk :: "portfolio \<Rightarrow> address \<Rightarrow> (nat, counter_error) res" where
  "calculate_concentration_risk p user =
     bindR (calculate_portfolio_value p user) (\<lambda>total_value.
     if total_value = 0 then Inr 0
     else bindR (get_largest_position_percentage p user) (\<lambda>bps.
       if bps \<ge> 8000 then Inr 100
       else if bps \<ge> 6000 then Inr (80 + (bps - 6000) * 20 div 2000)
       else if bps \<ge> 4000 then Inr (60 + (bps - 4000) * 20 div 2000)
       else if bps \<ge> 2000 then Inr (40 + (bps - 2000) * 20 div 2000)
       else Inr (bps * 40 div 2000)))"

definition check_concentration_warning :: "risk_store \<Rightarrow> portfolio \<Rightarrow> address \<Rightarrow> (bool, counter_error) res" where
  "check_concentration_warning s p user =
     bindR (calculate_portfolio_value p user) (\<lambda>total_value.
     if total_value = 0 then Inr False
     else bindR (get_largest_position_percentage p user) (\<lambda>bps. Inr (bps \<ge> rc_concentration_warn (get_risk_config s))))"

definition check_concentration_limit :: "risk_store \<Rightarrow> portfolio \<Rightarrow> address \<Rightarrow> (bool, counter_error) res" where
  "check_concentration_limit s p user =
     bindR (calculate_portfolio_value p user) (\<lambda>total_value.
     if total_value = 0 then Inr False
     else bindR (get_largest_position_percentage p user) (\<lambda>bps. Inr (bps \<ge> rc_concentration_limit (get_risk_config s))))"

section \<open>Position limits\<close>

definition tier_share :: "int \<Rightarrow> user_tier \<Rightarrow> (int, counter_error) res" where
  "tier_share base tier = (case tier of Novice \<Rightarrow> i_div base 10 | Trader \<Rightarrow> i_div base 4 | Expert \<Rightarrow> i_div base 2 | Whale \<Rightarrow> Inr base)"

definition get_tier_position_limit :: "risk_config \<Rightarrow> user_tier \<Rightarrow> (int, counter_error) res" where
  "get_tier_position_limit config tier = tier_share (rc_max_per_asset config) tier"

definition get_tier_portfolio_limit :: "risk_config \<Rightarrow> user_tier \<Rightarrow> (int, counter_error) res" where
  "get_tier_portfolio_limit config tier = tier_share (rc_max_per_user config) tier"

definition check_position_limits :: "risk_store \<Rightarrow> portfolio \<Rightarrow> address \<Rightarrow> asset \<Rightarrow> int
    \<Rightarrow> (position_limit_error + unit, counter_error) res" where
  "check_position_limits s p user asset additional_amount =
     (let config = get_risk_config s; tier = get_user_tier p user; current_size = balance_of p asset user in
      bindR (i_add current_size additional_amount) (\<lambda>new_size.
      bindR (get_tier_position_limit config tier) (\<lambda>max_per_asset.
      if new_size > max_per_asset then Inr (Inl (AssetLimitExceeded current_size new_size max_per_asset))
      else
        bindR (calculate_portfolio_value p user) (\<lambda>total_portfolio.
        bindR (get_tier_portfolio_limit config tier) (\<lambda>max_portfolio.
        bindR (i_add total_portfolio additional_amount) (\<lambda>new_total.
        if new_total > max_portfolio then Inr (Inl (PortfolioLimitExceeded total_portfolio new_total max_portfolio))
        else Inr (Inr ())))))))"

text \<open>The positions of a user in the order of the map: the built-in asset first.\<close>

definition get_user_positions :: "portfolio \<Rightarrow> address \<Rightarrow> (asset \<times> int) list" where
  "get_user_positions p user =
     filter (\<lambda>(_, amount). amount \<noteq> 0) [(XLM, balance_of p XLM user), (Custom USDCSIM, balance_of p (Custom USDCSIM) user)]"

fun has_exceeded :: "risk_store \<Rightarrow> portfolio \<Rightarrow> address \<Rightarrow> (asset \<times> int) list \<Rightarrow> (bool, counter_error) res" where
  "has_exceeded s p user [] = Inr False"
| "has_exceeded s p user ((asset, _) # xs) =
     bindR (check_position_limits s p user asset 0) (\<lambda>r. if r \<noteq> Inr () then Inr True else has_exceeded s p user xs)"

definition has_exceeded_limits :: "risk_store \<Rightarrow> portfolio \<Rightarrow> address \<Rightarrow> (bool, counter_error) res" where
  "has_exceeded_limits s p user = has_exceeded s p user (get_user_positions p user)"

section \<open>The risk score\<close>

definition position_risk :: "int \<Rightarrow> int \<Rightarrow> (int, counter_error) res" where
  "position_risk amount max_allowed =
     bindR (if amount < 0 then i_sub 0 amount else Inr amount) (\<lambda>size_abs.
     bindR (i_mul size_abs 100) (\<lambda>x.
     bindR (i_div x max_allowed) (\<lambda>utilization.
     Inr (if utilization \<ge> 100 then 100
       else if utilization \<ge> 80 then 80 + (utilization - 80) * 20 div 20
       else if utilization \<ge> 60 then 60 + (utilization - 60) * 20 div 20
       else utilization * 60 sdiv 60))))"

fun position_size_loop :: "int \<Rightarrow> (asset \<times> int) list \<Rightarrow> nat \<Rightarrow> nat \<Rightarrow> (nat \<times> nat, counter_error) res" where
  "position_size_loop max_allowed [] total_risk position_count = Inr (total_risk, position_count)"
| "position_size_loop max_allowed ((_, amount) # xs) total_risk position_count =
     (if max_allowed > 0
      then bindR (position_risk amount max_allowed) (\<lambda>r.
           bindR (u_add 32 total_risk (as_u32 r)) (\<lambda>total1.
           bindR (u_add 32 position_count 1) (\<lambda>count1. position_size_loop max_allowed xs total1 count1)))
      else position_size_loop max_allowed xs total_risk position_count)"

definition calculate_position_size_risk :: "risk_store \<Rightarrow> portfolio \<Rightarrow> address \<Rightarrow> (nat, counter_error) res" where
  "calculate_position_size_risk s p user =
     bindR (get_tier_position_limit (get_risk_config s) (get_user_tier p user)) (\<lambda>max_allowed.
     bindR (position_size_loop max_allowed (get_user_positions p user) 0 0) (\<lambda>(total_risk, position_count).
     Inr (if position_count > 0 then total_risk div position_count else 0)))"

definition calculate_volatility_risk :: "risk_store \<Rightarrow> nat" where
  "calculate_volatility_risk s = (if is_circuit_breaker_active s then 100 else 25)"

fun count_over :: "risk_store \<Rightarrow> portfolio \<Rightarrow> address \<Rightarrow> (asset \<times> int) list \<Rightarrow> nat \<Rightarrow> (nat, counter_error) res" where
  "count_over s p user [] n = Inr n"
| "count_over s p user ((asset, _) # xs) n =
     bindR (check_position_limits s p user asset 0) (\<lambda>r. count_over s p user xs (if r \<noteq> Inr () then n + 1 else n))"

definition count_positions_over_limit :: "risk_store \<Rightarrow> portfolio \<Rightarrow> address \<Rightarrow> (nat, counter_error) res" where
  "count_positions_over_limit s p user = count_over s p user (get_user_positions p user) 0"

definition calculate_risk_metrics :: "env \<Rightarrow> risk_store \<Rightarrow> portfolio \<Rightarrow> address \<Rightarrow> (risk_metrics, counter_error) res" where
  "calculate_risk_metrics e s p user =
     (let w = rc_weights (get_risk_config s); volatility = calculate_volatility_risk s in
      bindR (calculate_concentration_risk p user) (\<lambda>concentration.
      bindR (calculate_position_size_risk s p user) (\<lambda>position_size.
      bindR (u_mul 32 concentration (rw_concentration w)) (\<lambda>a.
      bindR (u_mul 32 position_size (rw_position_size w)) (\<lambda>b.
      bindR (u_add 32 a b) (\<lambda>ab.
      bindR (u_mul 32 volatility (rw_volatility w)) (\<lambda>c.
      bindR (u_add 32 ab c) (\<lambda>abc.
      bindR (calculate_portfolio_value p user) (\<lambda>exposure.
      bindR (get_largest_position_percentage p user) (\<lambda>largest.
      bindR (count_positions_over_limit s p user) (\<lambda>over.
      Inr \<lparr>rm_overall = abc div 100, rm_concentration = concentration, rm_position_size = position_size,
        rm_volatility = volatility, rm_exposure = exposure, rm_largest_pct = largest, rm_over_limit = over,
        rm_breaker_active = is_circuit_breaker_active s, rm_assessed_at = now e\<rparr>)))))))))))"

section \<open>The volume circuit breaker\<close>

record volume_config =
  vc_window_secs :: nat
  vc_max_volume :: int

record volume_status =
  vs_tripped :: bool
  vs_current_volume :: int
  vs_threshold :: int
  vs_window :: nat

text \<open>
  The keys \<open>vcb_cfg\<close>, \<open>vcb_vol\<close> and \<open>vcb_tri\<close>, the flag the module writes under \<open>PAUSED_KEY\<close> in the
  instance storage, the flag the entry points read under \<open>PAUSED_KEY\<close> in the persistent storage, and
  the trips published.
\<close>

record volume_store =
  vb_config :: "volume_config option"
  vb_entries :: "(nat \<times> int) list option"
  vb_tripped :: "bool option"
  vb_instance_paused :: "bool option"
  vb_persistent_paused :: "bool option"
  vb_events :: "(int \<times> int \<times> nat \<times> nat) list"

definition volume_store0 :: volume_store where
  "volume_store0 = \<lparr>vb_config = None, vb_entries = None, vb_tripped = None, vb_instance_paused = None,
     vb_persistent_paused = None, vb_events = []\<rparr>"

definition get_volume_config :: "volume_store \<Rightarrow> volume_config" where
  "get_volume_config s = or_else (vb_config s) \<lparr>vc_window_secs = 3600, vc_max_volume = 1000000000000\<rparr>"

definition is_tripped :: "volume_store \<Rightarrow> bool" where
  "is_tripped s = or_else (vb_tripped s) False"

definition volume_is_paused :: "volume_store \<Rightarrow> bool" where
  "volume_is_paused s = or_else (vb_instance_paused s) False"

text \<open>\<open>require_not_paused\<close> of \<open>lib.rs\<close>.\<close>

definition trading_paused :: "volume_store \<Rightarrow> bool" where
  "trading_paused s = or_else (vb_persistent_paused s) False"

definition set_threshold :: "address option \<Rightarrow> volume_store \<Rightarrow> address \<Rightarrow> nat \<Rightarrow> int \<Rightarrow> (volume_store, counter_error) res" where
  "set_threshold admin_key s admin window_secs max_volume =
     bindR (ensure (is_admin admin_key admin) (Err NotAdmin)) (\<lambda>_.
     Inr (s\<lparr>vb_config := Some \<lparr>vc_window_secs = window_secs, vc_max_volume = max_volume\<rparr>\<rparr>))"

definition volume_reset :: "address option \<Rightarrow> volume_store \<Rightarrow> address \<Rightarrow> (volume_store, counter_error) res" where
  "volume_reset admin_key s admin =
     bindR (ensure (is_admin admin_key admin) (Err NotAdmin)) (\<lambda>_.
     Inr (s\<lparr>vb_entries := Some [], vb_tripped := Some False, vb_instance_paused := Some False\<rparr>))"

definition volume_of :: "(nat \<times> int) list \<Rightarrow> int" where
  "volume_of entries = foldl (\<lambda>t entry. i_sat_add t (snd entry)) 0 entries"

definition pruned :: "nat \<Rightarrow> (nat \<times> int) list \<Rightarrow> (nat \<times> int) list" where
  "pruned cutoff entries = filter (\<lambda>entry. fst entry \<ge> cutoff) entries"

definition check_and_record_volume :: "env \<Rightarrow> volume_store \<Rightarrow> int \<Rightarrow> bool \<times> volume_store" where
  "check_and_record_volume e s amount =
     (let config = get_volume_config s in
      if is_tripped s then (False, s)
      else let entries = pruned (now e - vc_window_secs config) (or_else (vb_entries s) []) @ [(now e, amount)];
               volume = volume_of entries; s1 = s\<lparr>vb_entries := Some entries\<rparr>
           in if volume > vc_max_volume config \<and> vc_max_volume config > 0
              then (True, s1\<lparr>vb_tripped := Some True, vb_instance_paused := Some True,
                 vb_events := vb_events s1 @ [(volume, vc_max_volume config, vc_window_secs config, now e)]\<rparr>)
              else (False, s1))"

definition calculate_current_window_volume :: "env \<Rightarrow> volume_store \<Rightarrow> int" where
  "calculate_current_window_volume e s =
     volume_of (pruned (now e - vc_window_secs (get_volume_config s)) (or_else (vb_entries s) []))"

definition get_status :: "env \<Rightarrow> volume_store \<Rightarrow> volume_status" where
  "get_status e s = \<lparr>vs_tripped = is_tripped s, vs_current_volume = calculate_current_window_volume e s,
     vs_threshold = vc_max_volume (get_volume_config s), vs_window = vc_window_secs (get_volume_config s)\<rparr>"

section \<open>Emergency switches\<close>

text \<open>The keys of \<open>counter/src/emergency_stub.rs\<close>, which \<open>emergency.rs\<close> re-exports.\<close>

record emergency_store =
  es_paused :: "bool option"
  es_frozen :: "address \<rightharpoonup> bool"

definition emergency_store0 :: emergency_store where
  "emergency_store0 = \<lparr>es_paused = None, es_frozen = Map.empty\<rparr>"

definition em_is_paused :: "emergency_store \<Rightarrow> bool" where
  "em_is_paused s = or_else (es_paused s) False"

definition em_set_paused :: "emergency_store \<Rightarrow> bool \<Rightarrow> emergency_store" where
  "em_set_paused s b = s\<lparr>es_paused := Some b\<rparr>"

definition em_is_frozen :: "emergency_store \<Rightarrow> address \<Rightarrow> bool" where
  "em_is_frozen s user = or_else (es_frozen s user) False"

definition em_set_frozen :: "emergency_store \<Rightarrow> address \<Rightarrow> bool \<Rightarrow> emergency_store" where
  "em_set_frozen s user b = s\<lparr>es_frozen := (es_frozen s)(user \<mapsto> b)\<rparr>"

definition would_trip_circuit_breaker :: "int \<Rightarrow> int \<Rightarrow> bool" where
  "would_trip_circuit_breaker amount normal_volume = False"

text \<open>\<open>perform_swap\<close> of \<open>counter/src/swap.rs\<close>: the guards of a swap, and the result 0.\<close>

definition guarded_swap :: "env \<Rightarrow> emergency_store \<Rightarrow> volume_store \<Rightarrow> int \<Rightarrow> address
    \<Rightarrow> (int \<times> volume_store, counter_error) res" where
  "guarded_swap e em s amount user =
     bindR (ensure (\<not> em_is_paused em) (Err TradingPaused)) (\<lambda>_.
     bindR (ensure (\<not> em_is_frozen em user) (Err UserFrozen)) (\<lambda>_.
     bindR (ensure (\<not> is_tripped s) (Err CircuitBreakerTripped)) (\<lambda>_.
     let s1 = snd (check_and_record_volume e s amount) in
     bindR (ensure (\<not> would_trip_circuit_breaker amount 1000) (Err CircuitBreakerTripped)) (\<lambda>_. Inr (0, s1)))))"

end
