(* ===== verification/Risk_Props.thy ===== *)
theory Risk_Props
  imports Risk
begin

text \<open>
  The properties of risk management: the volume circuit breaker trips exactly on too much volume
  and never pauses the entry points, the default concentration limit blocks every holder of the two
  built-in assets, and the position limits bound what they accept.
\<close>

section \<open>The volume circuit breaker\<close>

datatype volume_call =
    SetThreshold address nat int
  | ResetVolume address
  | SwapVolume emergency_store int address

fun volume_exec :: "env \<Rightarrow> address option \<Rightarrow> volume_store \<Rightarrow> volume_call \<Rightarrow> (volume_store, counter_error) res" where
  "volume_exec e k s (SetThreshold a w m) = set_threshold k s a w m"
| "volume_exec e k s (ResetVolume a) = volume_reset k s a"
| "volume_exec e k s (SwapVolume em x u) = bindR (guarded_swap e em s x u) (\<lambda>(_, s'). Inr s')"

inductive volume_step :: "volume_store \<Rightarrow> volume_store \<Rightarrow> bool" where
  volume_call: "volume_exec e k s c = Inr s' \<Longrightarrow> volume_step s s'"

inductive_cases volume_stepE: "volume_step s s'"

lemma volume_reach: "reachable init volume_step s \<Longrightarrow> volume_exec e k s c = Inr s' \<Longrightarrow> reachable init volume_step s'"
  by (blast intro: reach_step volume_call)

lemma guarded_swap_iff:
  "guarded_swap e em s x u = Inr (y, s') \<longleftrightarrow>
     \<not> em_is_paused em \<and> \<not> em_is_frozen em u \<and> \<not> is_tripped s \<and> y = 0 \<and> s' = snd (check_and_record_volume e s x)"
  by (auto simp: guarded_swap_def bindR_eq_Inr ensure_eq_Inr would_trip_circuit_breaker_def Let_def)

lemma check_and_record_fields:
  "vb_persistent_paused (snd (check_and_record_volume e s x)) = vb_persistent_paused s"
  "vb_config (snd (check_and_record_volume e s x)) = vb_config s"
  by (simp_all add: check_and_record_volume_def Let_def)

text \<open>\<open>volume_ok\<close>: the tripped flag and the flag written for the pause agree, and every trip was published.\<close>

definition volume_ok :: "volume_store \<Rightarrow> bool" where
  "volume_ok s \<longleftrightarrow> vb_persistent_paused s = None \<and> is_tripped s = volume_is_paused s
     \<and> (is_tripped s \<longrightarrow> vb_events s \<noteq> [])"

lemma volume_exec_ok: "volume_ok s \<Longrightarrow> volume_exec e k s c = Inr s' \<Longrightarrow> volume_ok s'"
  by (cases c) (auto simp: volume_ok_def set_threshold_def volume_reset_def guarded_swap_iff bindR_eq_Inr ensure_eq_Inr
      check_and_record_volume_def is_tripped_def volume_is_paused_def or_else_def Let_def split: if_splits option.splits)

interpretation volume_machine: machine_invariant "\<lambda>s. s = volume_store0" volume_step volume_ok
proof
  show "volume_ok s" if "s = volume_store0" for s
    using that by (simp add: volume_ok_def volume_store0_def is_tripped_def volume_is_paused_def or_else_def)
  show "volume_ok t" if "volume_ok s" "volume_step s t" for s t
    using that by (auto elim!: volume_stepE intro: volume_exec_ok)
qed

text \<open>
  The volume circuit breaker stops nothing. The module writes the pause flag to the instance
  storage, the entry points read it from the persistent storage: in every state its calls reach,
  tripped or not, the contract is not paused for them.
\<close>

theorem tripped_breaker_pauses_nothing:
  assumes "reachable (\<lambda>s. s = volume_store0) volume_step s"
  shows "\<not> trading_paused s \<and> volume_is_paused s = is_tripped s"
  using volume_machine.inv_reachable [OF assms] by (simp add: volume_ok_def trading_paused_def or_else_def)

text \<open>
  The breaker trips exactly on too much volume. A swap past the switches of a breaker that has
  not tripped is recorded, and trips the breaker exactly when the volumes of the time window, this
  one included, add up to more than a positive threshold; from then on every swap is refused until
  the admin resets it.
\<close>

theorem volume_breaker_exact:
  assumes "guarded_swap e em s x u = Inr (y, s')"
  defines "w \<equiv> get_volume_config s"
  defines "volumes \<equiv> map snd (filter (\<lambda>(t, _). now e - vc_window_secs w \<le> t) (or_else (vb_entries s) [] @ [(now e, x)]))"
  shows "(is_tripped s' \<longleftrightarrow> 0 < vc_max_volume w \<and> vc_max_volume w < foldl i_sat_add 0 volumes)
    \<and> (is_tripped s' \<longrightarrow> guarded_swap e2 em2 s' x2 u2 \<noteq> Inr r)"
proof (rule conjI)
  have "volume_of xs = foldl i_sat_add 0 (map snd xs)" for xs
    by (simp add: volume_of_def foldl_map)
  moreover have "pruned c (xs @ [(now e, x)]) = pruned c xs @ [(now e, x)]" if "c \<le> now e" for c xs
    using that by (simp add: pruned_def)
  moreover have "pruned c xs = filter (\<lambda>(t, _). c \<le> t) xs" for c xs
    by (simp add: pruned_def case_prod_unfold)
  ultimately have "volume_of (pruned (now e - vc_window_secs w) (or_else (vb_entries s) []) @ [(now e, x)])
      = foldl i_sat_add 0 volumes"
    unfolding volumes_def by (metis diff_le_self)
  with assms(1) show "is_tripped s' \<longleftrightarrow> 0 < vc_max_volume w \<and> vc_max_volume w < foldl i_sat_add 0 volumes"
    by (auto simp: guarded_swap_iff check_and_record_volume_def w_def Let_def is_tripped_def or_else_def split: option.splits)
  show "is_tripped s' \<longrightarrow> guarded_swap e2 em2 s' x2 u2 \<noteq> Inr r"
    by (cases r) (simp add: guarded_swap_iff)
qed

section \<open>Limits\<close>

text \<open>
  The default concentration limit blocks everyone. The limit of 50 percent is compared with the
  larger of the two built-in positions, and the larger of two is never less than half: for every
  user who holds any of the two, the check that the swap entry point makes reports the limit as
  exceeded.
\<close>

theorem everyone_is_concentrated:
  assumes "rk_config s = None" and "0 \<le> balance_of p XLM u" "0 \<le> balance_of p (Custom USDCSIM) u"
    and "0 < balance_of p XLM u + balance_of p (Custom USDCSIM) u"
    and "(balance_of p XLM u + balance_of p (Custom USDCSIM) u) * 10000 \<le> I128_MAX"
  shows "check_concentration_limit s p u = Inr True"
proof -
  define a b where "a = balance_of p XLM u" and "b = balance_of p (Custom USDCSIM) u"
  note ab = assms(2-5) [folded a_def b_def]
  have ok: "i128_ok (a + b)" "i128_ok (max a b * 10000)"
    using ab by (auto simp: i128_ok_def I128_MIN_def I128_MAX_def)
  have q: "5000 \<le> max a b * 10000 div (a + b)" "max a b * 10000 div (a + b) \<le> 10000"
  proof -
    have "5000 * (a + b) \<le> max a b * 10000" by (cases "a \<le> b") (simp_all add: max_def)
    with ab have "5000 * (a + b) div (a + b) \<le> max a b * 10000 div (a + b)" by (intro zdiv_mono1) simp_all
    moreover have "5000 * (a + b) div (a + b) = 5000" using ab by (intro nonzero_mult_div_cancel_right) simp
    ultimately show "5000 \<le> max a b * 10000 div (a + b)" by (simp only:)
    have "max a b * 10000 \<le> 10000 * (a + b)" using ab by (cases "a \<le> b") (simp_all add: max_def)
    with ab have "max a b * 10000 div (a + b) \<le> 10000 * (a + b) div (a + b)" by (intro zdiv_mono1) simp_all
    moreover have "10000 * (a + b) div (a + b) = 10000" using ab by (intro nonzero_mult_div_cancel_right) simp
    ultimately show "max a b * 10000 div (a + b) \<le> 10000" by (simp only:)
  qed
  have sd: "(max a b * 10000) sdiv (a + b) = max a b * 10000 div (a + b)"
    using ab by (simp add: signed_divide_int_def sgn_mult)
  have "as_u32 (max a b * 10000 div (a + b)) = nat (max a b * 10000 div (a + b))"
    using q by (simp add: as_u32_def)
  with ab ok q sd assms(1) show ?thesis
    by (simp add: check_concentration_limit_def get_largest_position_percentage_def calculate_portfolio_value_def
        i_add_def i_mul_def i_div_def i_check_def i128_ok_def I128_MIN_def I128_MAX_def get_risk_config_def or_else_def
        default_risk_config_def flip: a_def b_def)
qed

text \<open>
  The position check bounds positions. When it accepts an increase, the increased position is at
  most the share of the per-asset maximum for the user's tier, and the two built-in positions with
  the increase are at most the tier's share of the per-user maximum.
\<close>

theorem accepted_positions_bounded:
  assumes "check_position_limits s p u asset x = Inr (Inr ())"
    and "tier_share (rc_max_per_asset (get_risk_config s)) (get_user_tier p u) = Inr per_asset"
    and "tier_share (rc_max_per_user (get_risk_config s)) (get_user_tier p u) = Inr per_user"
  shows "balance_of p asset u + x \<le> per_asset
    \<and> balance_of p XLM u + balance_of p (Custom USDCSIM) u + x \<le> per_user"
  using assms
  by (auto simp: check_position_limits_def get_tier_position_limit_def get_tier_portfolio_limit_def bindR_eq_Inr
      calculate_portfolio_value_def i_add_eq_Inr Let_def split: if_splits)

section \<open>Witnesses\<close>

definition demo_volume :: volume_store where
  "demo_volume = volume_store0\<lparr>vb_config := Some \<lparr>vc_window_secs = 60, vc_max_volume = 500\<rparr>,
     vb_entries := Some [(990, 300)]\<rparr>"

definition demo_tripped :: volume_store where
  "demo_tripped = demo_volume\<lparr>vb_entries := Some [(990, 300), (1000, 300)], vb_tripped := Some True,
     vb_instance_paused := Some True, vb_events := [(600, 500, 60, 1000)]\<rparr>"

lemma demo_trip: "guarded_swap (demo_env 2 1000) emergency_store0 demo_volume 300 (Addr 2) = Inr (0, demo_tripped)"
  by (simp add: guarded_swap_iff emergency_store0_def em_is_paused_def em_is_frozen_def is_tripped_def or_else_def demo_volume_def
      demo_tripped_def volume_store0_def check_and_record_volume_def get_volume_config_def pruned_def volume_of_def demo_env_def
      i_sat_add_def i_clamp_def I128_MAX_def I128_MIN_def Let_def)

lemma demo_tripped_reachable: "reachable (\<lambda>s. s = volume_store0) volume_step demo_tripped"
proof -
  define s1 where "s1 = volume_store0\<lparr>vb_config := Some \<lparr>vc_window_secs = 60, vc_max_volume = 500\<rparr>\<rparr>"
  have r0: "reachable (\<lambda>s. s = volume_store0) volume_step volume_store0" by (rule reach_init) simp
  have "volume_exec (demo_env 9 980) (Some (Addr 9)) volume_store0 (SetThreshold (Addr 9) 60 500) = Inr s1"
    by (simp add: set_threshold_def s1_def)
  note r1 = volume_reach [OF r0 this]
  have "volume_exec (demo_env 2 990) (Some (Addr 9)) s1 (SwapVolume emergency_store0 300 (Addr 2)) = Inr demo_volume"
    by (simp add: s1_def guarded_swap_iff emergency_store0_def em_is_paused_def em_is_frozen_def is_tripped_def or_else_def
      demo_volume_def volume_store0_def check_and_record_volume_def get_volume_config_def pruned_def volume_of_def demo_env_def
      guarded_swap_def would_trip_circuit_breaker_def i_sat_add_def i_clamp_def I128_MAX_def I128_MIN_def Let_def)
  note r2 = volume_reach [OF r1 this]
  have "volume_exec (demo_env 2 1000) (Some (Addr 9)) demo_volume (SwapVolume emergency_store0 300 (Addr 2)) = Inr demo_tripped"
    unfolding volume_exec.simps demo_trip by simp
  from volume_reach [OF r2 this] show ?thesis .
qed

theorem tripped_breaker_pauses_nothing_witness: "is_tripped demo_tripped \<and> \<not> trading_paused demo_tripped"
proof -
  have "is_tripped demo_tripped" by (simp add: demo_tripped_def is_tripped_def or_else_def)
  with tripped_breaker_pauses_nothing [OF demo_tripped_reachable] show ?thesis by blast
qed

theorem volume_breaker_exact_witness: "\<forall>e2 em2 x2 u2 r. guarded_swap e2 em2 demo_tripped x2 u2 \<noteq> Inr r"
proof (intro allI notI)
  fix e2 em2 x2 u2 r
  assume "guarded_swap e2 em2 demo_tripped x2 u2 = Inr r"
  moreover have "is_tripped demo_tripped" by (simp add: demo_tripped_def is_tripped_def or_else_def)
  ultimately show False using volume_breaker_exact [OF demo_trip] by blast
qed

definition demo_holder :: portfolio where
  "demo_holder = portfolio_new\<lparr>pt_balances := [(Addr 2, XLM) \<mapsto> 700, (Addr 2, Custom USDCSIM) \<mapsto> 300]\<rparr>"

lemma demo_holder_balances: "balance_of demo_holder XLM (Addr 2) = 700" "balance_of demo_holder (Custom USDCSIM) (Addr 2) = 300"
  by (simp_all add: demo_holder_def balance_of_def or_else_def)

theorem everyone_is_concentrated_witness: "check_concentration_limit risk_store0 demo_holder (Addr 2) = Inr True"
  by (rule everyone_is_concentrated) (simp_all add: demo_holder_balances risk_store0_def I128_MAX_def)

theorem accepted_positions_bounded_witness:
  "check_position_limits risk_store0 demo_holder (Addr 2) XLM 50 = Inr (Inr ()) \<and> (700 :: int) + 50 \<le> 50000000000"
proof -
  have tier: "get_user_tier demo_holder (Addr 2) = Novice"
    by (simp add: get_user_tier_def get_total_user_balance_def demo_holder_def portfolio_new_def or_else_def
        calculate_user_tier_def)
  have check: "check_position_limits risk_store0 demo_holder (Addr 2) XLM 50 = Inr (Inr ())"
    by (simp add: check_position_limits_def tier demo_holder_balances get_tier_position_limit_def get_tier_portfolio_limit_def
        tier_share_def i_add_def i_div_def i_check_def i128_ok_def I128_MAX_def I128_MIN_def calculate_portfolio_value_def
        get_risk_config_def risk_store0_def or_else_def default_risk_config_def signed_divide_int_def Let_def)
  have shares: "tier_share (rc_max_per_asset (get_risk_config risk_store0)) (get_user_tier demo_holder (Addr 2)) = Inr 50000000000"
    "tier_share (rc_max_per_user (get_risk_config risk_store0)) (get_user_tier demo_holder (Addr 2)) = Inr 100000000000"
    by (simp_all add: tier tier_share_def i_div_def i_check_def i128_ok_def I128_MAX_def I128_MIN_def get_risk_config_def
        risk_store0_def or_else_def default_risk_config_def signed_divide_int_def)
  from accepted_positions_bounded [OF check shares] check show ?thesis by (simp add: demo_holder_balances)
qed

end
