(* ===== verification/Referral.thy ===== *)
theory Referral
  imports Counter_Base
begin

text \<open>
  The referral programme of the counter contract (\<open>counter/src/referral_system/mod.rs\<close>): who referred
  whom, the commissions of the direct and the indirect referrer on a trader's fees, and their
  withdrawal. The \<open>i128\<close> sums trap on overflow.
\<close>

section \<open>Data\<close>

datatype referral_level = Direct | Indirect

record referral_info =
  ri_referrer :: address
  ri_level :: referral_level
  ri_registered_at :: nat

record referral_stats =
  rs_direct :: nat
  rs_indirect :: nat
  rs_commission_earned :: int
  rs_referee_volume :: int

record commission_tier =
  ct_volume_threshold :: int
  ct_direct_bps :: nat
  ct_indirect_bps :: nat

definition DEFAULT_TIER_1 :: commission_tier where
  "DEFAULT_TIER_1 = \<lparr>ct_volume_threshold = 0, ct_direct_bps = 50, ct_indirect_bps = 20\<rparr>"

definition DEFAULT_TIER_2 :: commission_tier where
  "DEFAULT_TIER_2 = \<lparr>ct_volume_threshold = 10000, ct_direct_bps = 75, ct_indirect_bps = 30\<rparr>"

definition DEFAULT_TIER_3 :: commission_tier where
  "DEFAULT_TIER_3 = \<lparr>ct_volume_threshold = 50000, ct_direct_bps = 100, ct_indirect_bps = 40\<rparr>"

datatype referral_event =
    ReferralRegistered address address
  | CommissionWithdrawn address int

text \<open>One field per kind of key of \<open>DataKey\<close> that the module uses.\<close>

record referral_store =
  rf_referrer :: "address \<rightharpoonup> address"
  rf_info :: "address \<rightharpoonup> referral_info"
  rf_stats :: "address \<rightharpoonup> referral_stats"
  rf_volume :: "address \<rightharpoonup> int"
  rf_balance :: "address \<rightharpoonup> int"
  rf_events :: "referral_event list"

definition referral_store0 :: referral_store where
  "referral_store0 = \<lparr>rf_referrer = Map.empty, rf_info = Map.empty, rf_stats = Map.empty, rf_volume = Map.empty,
     rf_balance = Map.empty, rf_events = []\<rparr>"

definition referral_publish :: "referral_event \<Rightarrow> referral_store \<Rightarrow> referral_store" where
  "referral_publish ev s = s\<lparr>rf_events := rf_events s @ [ev]\<rparr>"

section \<open>Registration\<close>

definition get_referral_stats :: "referral_store \<Rightarrow> address \<Rightarrow> referral_stats" where
  "get_referral_stats s user = (case rf_stats s user of
       Some st \<Rightarrow> st
     | None \<Rightarrow> \<lparr>rs_direct = 0, rs_indirect = 0, rs_commission_earned = 0, rs_referee_volume = 0\<rparr>)"

text \<open>The loop of \<open>is_circular_referral\<close>.\<close>

fun meets :: "referral_store \<Rightarrow> nat \<Rightarrow> address \<Rightarrow> address \<Rightarrow> bool" where
  "meets s 0 current referred = False"
| "meets s (Suc n) current referred = (case rf_referrer s current of
      Some next_referrer \<Rightarrow> next_referrer = referred \<or> meets s n next_referrer referred
    | None \<Rightarrow> False)"

definition is_circular_referral :: "referral_store \<Rightarrow> address \<Rightarrow> address \<Rightarrow> bool" where
  "is_circular_referral s referrer referred = (rf_referrer s referrer = Some referred \<or> meets s 2 referrer referred)"

definition update_referrer_stats :: "referral_store \<Rightarrow> address \<Rightarrow> referral_level \<Rightarrow> (referral_store, counter_error) res" where
  "update_referrer_stats s referrer level =
     (let stats = get_referral_stats s referrer in
      bindR (case level of
          Direct \<Rightarrow> bindR (u_add 32 (rs_direct stats) 1) (\<lambda>n. Inr (stats\<lparr>rs_direct := n\<rparr>))
        | Indirect \<Rightarrow> bindR (u_add 32 (rs_indirect stats) 1) (\<lambda>n. Inr (stats\<lparr>rs_indirect := n\<rparr>))) (\<lambda>stats1.
      Inr (s\<lparr>rf_stats := (rf_stats s)(referrer \<mapsto> stats1)\<rparr>)))"

definition register_referral :: "env \<Rightarrow> referral_store \<Rightarrow> address \<Rightarrow> address \<Rightarrow> (referral_store, counter_error) res" where
  "register_referral e s referrer referred =
     bindR (require_auth e referred) (\<lambda>_.
     bindR (ensure (referrer \<noteq> referred) (Err SelfReferral)) (\<lambda>_.
     bindR (ensure (rf_referrer s referred = None) (Err AlreadyReferred)) (\<lambda>_.
     bindR (ensure (\<not> is_circular_referral s referrer referred) (Err CircularReferral)) (\<lambda>_.
     let s1 = s\<lparr>rf_referrer := (rf_referrer s)(referred \<mapsto> referrer),
            rf_info := (rf_info s)(referred \<mapsto> \<lparr>ri_referrer = referrer, ri_level = Direct, ri_registered_at = now e\<rparr>)\<rparr> in
     bindR (update_referrer_stats s1 referrer Direct) (\<lambda>s2.
     Inr (referral_publish (ReferralRegistered referrer referred) s2))))))"

section \<open>Commissions\<close>

definition get_tier_for_volume :: "int \<Rightarrow> commission_tier" where
  "get_tier_for_volume volume =
     (if volume \<ge> ct_volume_threshold DEFAULT_TIER_3 then DEFAULT_TIER_3
      else if volume \<ge> ct_volume_threshold DEFAULT_TIER_2 then DEFAULT_TIER_2
      else DEFAULT_TIER_1)"

definition get_user_trading_volume :: "referral_store \<Rightarrow> address \<Rightarrow> int" where
  "get_user_trading_volume s user = (case rf_volume s user of None \<Rightarrow> 0 | Some v \<Rightarrow> v)"

definition update_user_trading_volume :: "referral_store \<Rightarrow> address \<Rightarrow> int \<Rightarrow> (referral_store, counter_error) res" where
  "update_user_trading_volume s user additional_volume =
     bindR (i_add (get_user_trading_volume s user) additional_volume) (\<lambda>v.
     Inr (s\<lparr>rf_volume := (rf_volume s)(user \<mapsto> v)\<rparr>))"

definition get_commission_balance :: "referral_store \<Rightarrow> address \<Rightarrow> int" where
  "get_commission_balance s user = (case rf_balance s user of None \<Rightarrow> 0 | Some v \<Rightarrow> v)"

definition add_commission_balance :: "referral_store \<Rightarrow> address \<Rightarrow> int \<Rightarrow> (referral_store, counter_error) res" where
  "add_commission_balance s user amount =
     bindR (i_add (get_commission_balance s user) amount) (\<lambda>v. Inr (s\<lparr>rf_balance := (rf_balance s)(user \<mapsto> v)\<rparr>))"

text \<open>The two \<open>if commission > 0\<close> blocks of \<open>calculate_and_distribute_commission\<close>, for one referrer.\<close>

definition pay_referrer :: "referral_store \<Rightarrow> address \<Rightarrow> nat \<Rightarrow> int \<Rightarrow> (referral_store, counter_error) res" where
  "pay_referrer s referrer bps fee_amount =
     bindR (i_mul fee_amount (int bps)) (\<lambda>x.
     bindR (i_div x 10000) (\<lambda>commission.
     if commission > 0
     then bindR (add_commission_balance s referrer commission) (\<lambda>s1.
          let stats = get_referral_stats s1 referrer in
          bindR (i_add (rs_commission_earned stats) commission) (\<lambda>earned.
          bindR (i_add (rs_referee_volume stats) fee_amount) (\<lambda>volume.
          Inr (s1\<lparr>rf_stats := (rf_stats s1)(referrer \<mapsto> stats\<lparr>rs_commission_earned := earned, rs_referee_volume := volume\<rparr>)\<rparr>))))
     else Inr s))"

definition calculate_and_distribute_commission ::
    "referral_store \<Rightarrow> address \<Rightarrow> int \<Rightarrow> (referral_store, counter_error) res" where
  "calculate_and_distribute_commission s trader fee_amount =
     (if fee_amount \<le> 0 then Inr s
      else let tier = get_tier_for_volume (get_user_trading_volume s trader) in
        bindR (update_user_trading_volume s trader fee_amount) (\<lambda>s1.
        case rf_referrer s1 trader of
          None \<Rightarrow> Inr s1
        | Some direct_referrer \<Rightarrow>
            bindR (pay_referrer s1 direct_referrer (ct_direct_bps tier) fee_amount) (\<lambda>s2.
            case rf_referrer s2 direct_referrer of
              None \<Rightarrow> Inr s2
            | Some indirect_referrer \<Rightarrow> pay_referrer s2 indirect_referrer (ct_indirect_bps tier) fee_amount)))"

definition withdraw_commission :: "env \<Rightarrow> referral_store \<Rightarrow> address \<Rightarrow> (int \<times> referral_store, counter_error) res" where
  "withdraw_commission e s user =
     bindR (require_auth e user) (\<lambda>_.
     let balance = get_commission_balance s user in
     if balance \<le> 0 then Inr (0, s)
     else Inr (balance, referral_publish (CommissionWithdrawn user balance) (s\<lparr>rf_balance := (rf_balance s)(user \<mapsto> 0)\<rparr>)))"

end
