(* ===== verification/Referral_Props.thy ===== *)
theory Referral_Props
  imports Referral
begin

text \<open>
  The properties of the referral programme over any run of registrations, fee distributions and
  withdrawals: short referral cycles are impossible and longer ones are not, and every commission
  ever earned is either still on the balance or was withdrawn.
\<close>

section \<open>Runs\<close>

datatype referral_call =
    Register address address
  | Distribute address int
  | Withdraw address

fun referral_exec :: "env \<Rightarrow> referral_store \<Rightarrow> referral_call \<Rightarrow> (referral_store, counter_error) res" where
  "referral_exec e s (Register r u) = register_referral e s r u"
| "referral_exec e s (Distribute t f) = calculate_and_distribute_commission s t f"
| "referral_exec e s (Withdraw u) = bindR (withdraw_commission e s u) (\<lambda>(_, s'). Inr s')"

inductive referral_step :: "referral_store \<Rightarrow> referral_store \<Rightarrow> bool" where
  referral_call: "referral_exec e s c = Inr s' \<Longrightarrow> referral_step s s'"

inductive_cases referral_stepE: "referral_step s s'"

lemma referral_reach: "reachable init referral_step s \<Longrightarrow> referral_exec e s c = Inr s' \<Longrightarrow> reachable init referral_step s'"
  by (blast intro: reach_step referral_call)

section \<open>The effect of each operation\<close>

lemma pay_referrer_cases:
  assumes "pay_referrer s r bps fee = Inr s'"
  obtains (paid) c where "c = (fee * int bps) sdiv 10000" "0 < c"
    "rf_balance s' = (rf_balance s)(r \<mapsto> get_commission_balance s r + c)"
    "rf_stats s' = (rf_stats s)(r \<mapsto> (get_referral_stats s r)
       \<lparr>rs_commission_earned := rs_commission_earned (get_referral_stats s r) + c,
        rs_referee_volume := rs_referee_volume (get_referral_stats s r) + fee\<rparr>)"
    "rf_referrer s' = rf_referrer s" "rf_events s' = rf_events s"
  | (unpaid) "s' = s" "(fee * int bps) sdiv 10000 \<le> 0"
proof -
  have "rf_stats (s\<lparr>rf_balance := b\<rparr>) = rf_stats s" for b by simp
  then have g: "get_referral_stats (s\<lparr>rf_balance := b\<rparr>) u = get_referral_stats s u" for b u
    by (simp add: get_referral_stats_def)
  show thesis
  proof (cases "0 < (fee * int bps) sdiv 10000")
    case True
    with assms show thesis
      by (intro paid [of "(fee * int bps) sdiv 10000"])
        (auto simp: pay_referrer_def add_commission_balance_def bindR_eq_Inr i_mul_eq_Inr i_div_def i_check_eq_Inr
          i_add_eq_Inr Let_def g)
  next
    case False
    with assms have "s' = s"
      by (auto simp: pay_referrer_def bindR_eq_Inr i_mul_eq_Inr i_div_def i_check_eq_Inr split: if_splits)
    with False show thesis by (intro unpaid) simp_all
  qed
qed

lemma pay_referrer_referrer: "pay_referrer s r bps fee = Inr s' \<Longrightarrow> rf_referrer s' = rf_referrer s"
  by (elim pay_referrer_cases) simp_all

lemma distribute_referrer: "calculate_and_distribute_commission s t f = Inr s' \<Longrightarrow> rf_referrer s' = rf_referrer s"
  by (auto simp: calculate_and_distribute_commission_def update_user_trading_volume_def bindR_eq_Inr Let_def
      dest!: pay_referrer_referrer split: if_splits option.splits)

lemma withdraw_referrer: "withdraw_commission e s u = Inr (x, s') \<Longrightarrow> rf_referrer s' = rf_referrer s"
  by (auto simp: withdraw_commission_def bindR_eq_Inr referral_publish_def Let_def split: if_splits)

section \<open>Cycles\<close>

text \<open>\<open>no_short_cycle\<close>: following referrers from a user for one to three steps does not come acyc.\<close>

definition no_short_cycle :: "(address \<rightharpoonup> address) \<Rightarrow> bool" where
  "no_short_cycle r \<longleftrightarrow> (\<forall>a b. r a = Some b \<longrightarrow> a \<noteq> b \<and> r b \<noteq> Some a \<and> (\<forall>c. r b = Some c \<longrightarrow> r c \<noteq> Some a))"

lemma no_short_cycle_two:
  assumes "no_short_cycle r"
  shows "r t \<noteq> Some t \<and> Option.bind (r t) r \<noteq> Some t"
proof (cases "r t")
  case (Some b)
  with assms have "t \<noteq> b" "r b \<noteq> Some t" unfolding no_short_cycle_def by blast+
  with Some show ?thesis by simp
qed simp

lemma no_short_cycle_insert:
  assumes old: "no_short_cycle r" and new: "r u = None" and "p \<noteq> u" "r p \<noteq> Some u"
    and two: "\<And>q. r p = Some q \<Longrightarrow> r q \<noteq> Some u"
  shows "no_short_cycle (r(u \<mapsto> p))"
  unfolding no_short_cycle_def
proof (intro allI impI conjI)
  have acyc: "r a = Some b \<Longrightarrow> a \<noteq> b \<and> r b \<noteq> Some a" "r a = Some b \<Longrightarrow> r b = Some c \<Longrightarrow> r c \<noteq> Some a" for a b c
    using old unfolding no_short_cycle_def by blast+
  fix a b assume ab: "(r(u \<mapsto> p)) a = Some b"
  show "a \<noteq> b" using ab acyc(1) [of a b] \<open>p \<noteq> u\<close> by (simp split: if_splits)
  show "(r(u \<mapsto> p)) b \<noteq> Some a" using ab acyc(1) [of a b] assms(3,4) by (auto split: if_splits)
  fix c assume bc: "(r(u \<mapsto> p)) b = Some c"
  consider "a = u" "b = p" | "a \<noteq> u" "r a = Some b" using ab by (simp split: if_splits)
  then show "(r(u \<mapsto> p)) c \<noteq> Some a"
  proof cases
    case 1
    with bc assms(3,4) two [of c] show ?thesis by (simp split: if_splits)
  next
    case a: 2
    show ?thesis
    proof (cases "b = u")
      case True
      with bc a assms(3) two [of a] show ?thesis by auto
    next
      case False
      with bc have "r b = Some c" by simp
      with a acyc(2) [OF a(2)] two [of b] show ?thesis by (auto split: if_splits)
    qed
  qed
qed

lemma is_circular_referral_iff:
  "is_circular_referral s p u \<longleftrightarrow> rf_referrer s p = Some u \<or> (\<exists>q. rf_referrer s p = Some q \<and> rf_referrer s q = Some u)"
  by (auto simp: is_circular_referral_def numeral_2_eq_2 split: option.splits)

lemma register_referrer:
  assumes "register_referral e s p u = Inr s'"
  shows "rf_referrer s' = (rf_referrer s)(u \<mapsto> p) \<and> rf_referrer s u = None \<and> p \<noteq> u \<and> rf_referrer s p \<noteq> Some u
    \<and> (\<forall>q. rf_referrer s p = Some q \<longrightarrow> rf_referrer s q \<noteq> Some u) \<and> rf_balance s' = rf_balance s"
  using assms
  by (auto simp: register_referral_def is_circular_referral_iff bindR_eq_Inr ensure_eq_Inr Let_def
      update_referrer_stats_def referral_publish_def split: option.splits if_splits)

interpretation referral_graph: machine_invariant "\<lambda>s. s = referral_store0" referral_step
  "\<lambda>s. no_short_cycle (rf_referrer s)"
proof
  show "no_short_cycle (rf_referrer s)" if "s = referral_store0" for s
    using that by (simp add: no_short_cycle_def referral_store0_def)
  show "no_short_cycle (rf_referrer t)" if ok: "no_short_cycle (rf_referrer s)" and st: "referral_step s t" for s t
  proof -
    obtain e c where 1: "referral_exec e s c = Inr t" using st by (auto elim: referral_stepE)
    show ?thesis
    proof (cases c)
      case (Register p u)
      with 1 have "register_referral e s p u = Inr t" by simp
      from register_referrer [OF this] no_short_cycle_insert [OF ok, of u p] show ?thesis by simp
    next
      case (Distribute tr f)
      with 1 ok show ?thesis by (simp add: distribute_referrer)
    next
      case (Withdraw u)
      with 1 ok show ?thesis by (auto simp: bindR_eq_Inr dest!: withdraw_referrer)
    qed
  qed
qed

text \<open>
  Nobody is paid for referring himself, directly or around a short cycle. In every state the
  calls reach, no user refers himself, no two users refer each other, and no three users refer each
  other in a circle.
\<close>

theorem no_short_referral_cycle:
  assumes "reachable (\<lambda>s. s = referral_store0) referral_step s" and "rf_referrer s a = Some b"
  shows "b \<noteq> a \<and> rf_referrer s b \<noteq> Some a \<and> (\<forall>c. rf_referrer s b = Some c \<longrightarrow> rf_referrer s c \<noteq> Some a)"
  using referral_graph.inv_reachable [OF assms(1)] assms(2) unfolding no_short_cycle_def by metis

section \<open>Commissions\<close>

definition withdrawn :: "address \<Rightarrow> referral_store \<Rightarrow> int" where
  "withdrawn u s = (\<Sum>ev\<leftarrow>rf_events s. case ev of CommissionWithdrawn v x \<Rightarrow> if v = u then x else 0 | _ \<Rightarrow> 0)"

definition commissions_ok :: "referral_store \<Rightarrow> bool" where
  "commissions_ok s \<longleftrightarrow> (\<forall>u. 0 \<le> get_commission_balance s u
     \<and> get_commission_balance s u + withdrawn u s = rs_commission_earned (get_referral_stats s u))"

lemma commissions_ok_same:
  assumes "commissions_ok s" "rf_balance s' = rf_balance s" "rf_events s' = rf_events s"
    "\<And>u. rs_commission_earned (get_referral_stats s' u) = rs_commission_earned (get_referral_stats s u)"
  shows "commissions_ok s'"
  using assms by (simp add: commissions_ok_def get_commission_balance_def withdrawn_def)

lemma pay_referrer_ok:
  assumes ok: "commissions_ok s" and pay: "pay_referrer s r bps fee = Inr s'"
  shows "commissions_ok s'"
  using pay
proof (cases rule: pay_referrer_cases)
  case (paid c)
  then show ?thesis
    using ok by (auto simp: commissions_ok_def get_commission_balance_def get_referral_stats_def withdrawn_def)
next
  case unpaid
  with ok show ?thesis by simp
qed

lemma distribute_unfold:
  assumes "calculate_and_distribute_commission s t f = Inr s'" and "0 < f"
  shows "\<exists>v. (case rf_referrer s t of None \<Rightarrow> Inr (s\<lparr>rf_volume := v\<rparr>) | Some d \<Rightarrow>
       bindR (pay_referrer (s\<lparr>rf_volume := v\<rparr>) d (ct_direct_bps (get_tier_for_volume (get_user_trading_volume s t))) f)
       (\<lambda>s2. case rf_referrer s2 d of None \<Rightarrow> Inr s2 | Some i \<Rightarrow>
          pay_referrer s2 i (ct_indirect_bps (get_tier_for_volume (get_user_trading_volume s t))) f)) = Inr s'"
  using assms
  by (intro exI [of _ "(rf_volume s)(t \<mapsto> get_user_trading_volume s t + f)"])
    (auto simp: calculate_and_distribute_commission_def update_user_trading_volume_def bindR_eq_Inr i_add_eq_Inr Let_def)

lemma distribute_ok:
  assumes ok: "commissions_ok s" and call: "calculate_and_distribute_commission s t f = Inr s'"
  shows "commissions_ok s'"
proof (cases "f \<le> 0")
  case True
  with assms show ?thesis by (simp add: calculate_and_distribute_commission_def)
next
  case False
  with distribute_unfold [OF call] obtain v where
    *: "(case rf_referrer s t of None \<Rightarrow> Inr (s\<lparr>rf_volume := v\<rparr>) | Some d \<Rightarrow>
       bindR (pay_referrer (s\<lparr>rf_volume := v\<rparr>) d (ct_direct_bps (get_tier_for_volume (get_user_trading_volume s t))) f)
       (\<lambda>s2. case rf_referrer s2 d of None \<Rightarrow> Inr s2 | Some i \<Rightarrow>
          pay_referrer s2 i (ct_indirect_bps (get_tier_for_volume (get_user_trading_volume s t))) f)) = Inr s'"
    by auto
  have ok1: "commissions_ok (s\<lparr>rf_volume := v\<rparr>)"
    by (rule commissions_ok_same [OF ok]) (simp_all add: get_referral_stats_def)
  from * show ?thesis
    by (auto simp: bindR_eq_Inr intro: ok1 pay_referrer_ok [OF pay_referrer_ok [OF ok1]] pay_referrer_ok [OF ok1]
        split: option.splits)
qed

lemma commissions_okD: "commissions_ok s \<Longrightarrow> 0 \<le> get_commission_balance s u
    \<and> get_commission_balance s u + withdrawn u s = rs_commission_earned (get_referral_stats s u)"
  by (simp add: commissions_ok_def)

lemma withdraw_ok:
  assumes ok: "commissions_ok s" and call: "withdraw_commission e s u = Inr (x, s')"
  shows "commissions_ok s'"
proof (cases "get_commission_balance s u \<le> 0")
  case True
  with call ok show ?thesis by (auto simp: withdraw_commission_def bindR_eq_Inr Let_def)
next
  case False
  with call have s': "s' = referral_publish (CommissionWithdrawn u (get_commission_balance s u))
      (s\<lparr>rf_balance := (rf_balance s)(u \<mapsto> 0)\<rparr>)"
    by (auto simp: withdraw_commission_def bindR_eq_Inr Let_def)
  have "withdrawn v s' = withdrawn v s + (if v = u then get_commission_balance s u else 0)"
    "get_commission_balance s' v = (if v = u then 0 else get_commission_balance s v)"
    "get_referral_stats s' v = get_referral_stats s v" for v
    by (auto simp: s' referral_publish_def withdrawn_def get_commission_balance_def get_referral_stats_def)
  then show ?thesis using commissions_okD [OF ok] by (auto simp: commissions_ok_def algebra_simps)
qed

lemma register_ok:
  assumes ok: "commissions_ok s" and call: "register_referral e s p u = Inr s'"
  shows "commissions_ok s'"
proof -
  have bal: "rf_balance s' = rf_balance s" using register_referrer [OF call] by blast
  have w: "withdrawn v s' = withdrawn v s" for v
    using call by (auto simp: register_referral_def bindR_eq_Inr Let_def update_referrer_stats_def referral_publish_def
      withdrawn_def)
  from call have st: "rf_stats s' = (rf_stats s)(p \<mapsto> (get_referral_stats s p)\<lparr>rs_direct := rs_direct (get_referral_stats s p) + 1\<rparr>)"
    by (auto simp: register_referral_def bindR_eq_Inr Let_def update_referrer_stats_def referral_publish_def u_add_eq_Inr
      get_referral_stats_def)
  have "rs_commission_earned (get_referral_stats s' v) = rs_commission_earned (get_referral_stats s v)" for v
    by (cases "v = p") (simp_all add: get_referral_stats_def st)
  with ok bal w show ?thesis by (simp add: commissions_ok_def get_commission_balance_def)
qed

interpretation commission_books: machine_invariant "\<lambda>s. s = referral_store0" referral_step commissions_ok
proof
  show "commissions_ok s" if "s = referral_store0" for s
    using that by (simp add: commissions_ok_def referral_store0_def get_commission_balance_def get_referral_stats_def withdrawn_def)
  show "commissions_ok t" if ok: "commissions_ok s" and st: "referral_step s t" for s t
  proof -
    obtain e c where 1: "referral_exec e s c = Inr t" using st by (auto elim: referral_stepE)
    with ok show ?thesis
      by (cases c) (auto simp: bindR_eq_Inr intro: register_ok distribute_ok withdraw_ok)
  qed
qed

text \<open>
  Commissions are neither lost nor paid twice by the books. In every state the calls reach, what a
  user ever earned is what is still on the balance plus what was withdrawn, and the balance is not
  negative.
\<close>

theorem commission_books_balance:
  assumes "reachable (\<lambda>s. s = referral_store0) referral_step s"
  shows "0 \<le> get_commission_balance s u
    \<and> rs_commission_earned (get_referral_stats s u) = get_commission_balance s u + withdrawn u s"
  using commission_books.inv_reachable [OF assms] unfolding commissions_ok_def by auto

text \<open>
  \<open>commission f bps\<close> is the commission on a fee, and \<open>indirect_of s t\<close> the referrer of the referrer.
\<close>

definition commission :: "int \<Rightarrow> nat \<Rightarrow> int" where
  "commission f bps = f * int bps div 10000"

definition indirect_of :: "referral_store \<Rightarrow> address \<Rightarrow> address option" where
  "indirect_of s t = Option.bind (rf_referrer s t) (rf_referrer s)"

lemma tier_rates: "ct_direct_bps (get_tier_for_volume v) + ct_indirect_bps (get_tier_for_volume v) \<le> 140"
  by (simp add: get_tier_for_volume_def DEFAULT_TIER_1_def DEFAULT_TIER_2_def DEFAULT_TIER_3_def)

lemma commission_nonneg: "0 \<le> f \<Longrightarrow> 0 \<le> commission f bps"
  by (simp add: commission_def pos_imp_zdiv_nonneg_iff)

lemma pay_referrer_balance:
  assumes "pay_referrer s r bps f = Inr s'" and "0 \<le> f"
  shows "get_commission_balance s' u = get_commission_balance s u + (if u = r then commission f bps else 0)"
proof -
  have c: "(f * int bps) sdiv 10000 = commission f bps"
    using assms(2) by (cases "f = 0 \<or> bps = 0") (auto simp: commission_def signed_divide_int_def sgn_mult)
  with commission_nonneg [OF assms(2), of bps] assms(1) show ?thesis
    by (elim pay_referrer_cases) (auto simp: get_commission_balance_def)
qed

lemma distribute_balance:
  assumes "calculate_and_distribute_commission s t f = Inr s'" and f: "0 < f"
  defines "tier \<equiv> get_tier_for_volume (get_user_trading_volume s t)"
  shows "get_commission_balance s' u = get_commission_balance s u
    + (if rf_referrer s t = Some u then commission f (ct_direct_bps tier) else 0)
    + (if indirect_of s t = Some u then commission f (ct_indirect_bps tier) else 0)"
proof -
  from distribute_unfold [OF assms(1) f, folded tier_def] obtain v where *:
    "(case rf_referrer s t of None \<Rightarrow> Inr (s\<lparr>rf_volume := v\<rparr>) | Some d \<Rightarrow>
       bindR (pay_referrer (s\<lparr>rf_volume := v\<rparr>) d (ct_direct_bps tier) f)
       (\<lambda>s2. case rf_referrer s2 d of None \<Rightarrow> Inr s2 | Some i \<Rightarrow> pay_referrer s2 i (ct_indirect_bps tier) f)) = Inr s'"
    by blast
  have v: "get_commission_balance (s\<lparr>rf_volume := v\<rparr>) w = get_commission_balance s w" for w
    by (simp add: get_commission_balance_def)
  show ?thesis
  proof (cases "rf_referrer s t")
    case None
    with * show ?thesis by (auto simp: get_commission_balance_def indirect_of_def)
  next
    case (Some d)
    with * obtain s2 where d: "pay_referrer (s\<lparr>rf_volume := v\<rparr>) d (ct_direct_bps tier) f = Inr s2"
      and i: "(case rf_referrer s2 d of None \<Rightarrow> Inr s2 | Some i \<Rightarrow> pay_referrer s2 i (ct_indirect_bps tier) f) = Inr s'"
      by (auto simp: bindR_eq_Inr)
    have r: "rf_referrer s2 = rf_referrer s" using pay_referrer_referrer [OF d] by simp
    have one: "get_commission_balance s2 u = get_commission_balance s u + (if u = d then commission f (ct_direct_bps tier) else 0)"
      using pay_referrer_balance [OF d, of u] f v by simp
    show ?thesis
    proof (cases "rf_referrer s d")
      case None
      with i r one Some show ?thesis by (simp add: indirect_of_def)
    next
      case (Some j)
      with i r have "pay_referrer s2 j (ct_indirect_bps tier) f = Inr s'" by simp
      from pay_referrer_balance [OF this, of u] f one \<open>rf_referrer s t = Some d\<close> Some
      show ?thesis by (simp add: indirect_of_def)
    qed
  qed
qed

text \<open>
  The commissions on a fee. When the commissions on a trader's fee are distributed, the balance of
  the direct referrer grows by the direct rate of the trader's volume tier, that of the referrer's own
  referrer by the indirect rate, both rounded down, and no other balance changes. In particular the
  trader earns nothing on the own fee, and everything paid together is at most 1.4 percent of it.
\<close>

theorem commission_split:
  assumes "reachable (\<lambda>s. s = referral_store0) referral_step s"
    and "calculate_and_distribute_commission s t f = Inr s'" and "0 < f"
  defines "tier \<equiv> get_tier_for_volume (get_user_trading_volume s t)"
  shows "get_commission_balance s' u = get_commission_balance s u
      + (if rf_referrer s t = Some u then f * int (ct_direct_bps tier) div 10000 else 0)
      + (if Option.bind (rf_referrer s t) (rf_referrer s) = Some u then f * int (ct_indirect_bps tier) div 10000 else 0)
    \<and> get_commission_balance s' t = get_commission_balance s t
    \<and> 10000 * (f * int (ct_direct_bps tier) div 10000 + f * int (ct_indirect_bps tier) div 10000) \<le> 140 * f"
proof (intro conjI)
  note balance = distribute_balance [OF assms(2,3), folded tier_def, unfolded indirect_of_def commission_def]
  show "get_commission_balance s' u = get_commission_balance s u
      + (if rf_referrer s t = Some u then f * int (ct_direct_bps tier) div 10000 else 0)
      + (if Option.bind (rf_referrer s t) (rf_referrer s) = Some u then f * int (ct_indirect_bps tier) div 10000 else 0)"
    by (rule balance)
  have "rf_referrer s t \<noteq> Some t" "Option.bind (rf_referrer s t) (rf_referrer s) \<noteq> Some t"
    using no_short_cycle_two [OF referral_graph.inv_reachable [OF assms(1)]] by simp_all
  then show "get_commission_balance s' t = get_commission_balance s t" unfolding balance by simp
  have "ct_direct_bps tier + ct_indirect_bps tier \<le> 140" unfolding tier_def by (rule tier_rates)
  then have "f * int (ct_direct_bps tier) + f * int (ct_indirect_bps tier) \<le> f * 140"
    using mult_left_mono [of "int (ct_direct_bps tier + ct_indirect_bps tier)" 140 f] assms(3)
    by (simp only: of_nat_add distrib_left)
  moreover have "10000 * (f * int (ct_direct_bps tier) div 10000) \<le> f * int (ct_direct_bps tier)"
    "10000 * (f * int (ct_indirect_bps tier) div 10000) \<le> f * int (ct_indirect_bps tier)" by simp_all
  ultimately show "10000 * (f * int (ct_direct_bps tier) div 10000 + f * int (ct_indirect_bps tier) div 10000) \<le> 140 * f"
    unfolding distrib_left by linarith
qed

section \<open>A concrete run\<close>

text \<open>User 2 refers user 1, user 3 refers user 2, and user 1 pays a fee of 20000.\<close>

definition demo_referred :: referral_store where
  "demo_referred = \<lparr>rf_referrer = [Addr 1 \<mapsto> Addr 2, Addr 2 \<mapsto> Addr 3],
     rf_info = [Addr 1 \<mapsto> \<lparr>ri_referrer = Addr 2, ri_level = Direct, ri_registered_at = 5\<rparr>,
       Addr 2 \<mapsto> \<lparr>ri_referrer = Addr 3, ri_level = Direct, ri_registered_at = 6\<rparr>],
     rf_stats = [Addr 2 \<mapsto> \<lparr>rs_direct = 1, rs_indirect = 0, rs_commission_earned = 0, rs_referee_volume = 0\<rparr>,
       Addr 3 \<mapsto> \<lparr>rs_direct = 1, rs_indirect = 0, rs_commission_earned = 0, rs_referee_volume = 0\<rparr>],
     rf_volume = Map.empty, rf_balance = Map.empty,
     rf_events = [ReferralRegistered (Addr 2) (Addr 1), ReferralRegistered (Addr 3) (Addr 2)]\<rparr>"

lemma demo_referred_reachable: "reachable (\<lambda>s. s = referral_store0) referral_step demo_referred"
proof -
  obtain s1 where s1: "referral_exec (demo_env 1 5) referral_store0 (Register (Addr 2) (Addr 1)) = Inr s1"
    "referral_exec (demo_env 2 6) s1 (Register (Addr 3) (Addr 2)) = Inr demo_referred"
    by (simp add: register_referral_def demo_env_def require_auth_def is_circular_referral_iff Let_def
        referral_store0_def update_referrer_stats_def get_referral_stats_def u_add_def referral_publish_def demo_referred_def)
  have "reachable (\<lambda>s. s = referral_store0) referral_step referral_store0" by (rule reach_init) simp
  from referral_reach [OF referral_reach [OF this s1(1)] s1(2)] show ?thesis .
qed

lemma demo_distribute: "\<exists>s. referral_exec e demo_referred (Distribute (Addr 1) 20000) = Inr s
    \<and> calculate_and_distribute_commission demo_referred (Addr 1) 20000 = Inr s
    \<and> get_commission_balance s (Addr 2) = 100"
  by (simp add: calculate_and_distribute_commission_def demo_referred_def update_user_trading_volume_def
      get_user_trading_volume_def pay_referrer_def add_commission_balance_def get_commission_balance_def get_tier_for_volume_def
      get_referral_stats_def DEFAULT_TIER_1_def DEFAULT_TIER_2_def DEFAULT_TIER_3_def i_add_def i_mul_def i_div_def i_check_def
      i128_ok_def I128_MAX_def I128_MIN_def signed_divide_int_def Let_def cong: bindR_weak_cong)

theorem no_short_referral_cycle_witness:
  "rf_referrer demo_referred (Addr 1) = Some (Addr 2) \<and> rf_referrer demo_referred (Addr 2) \<noteq> Some (Addr 1)"
proof -
  have "rf_referrer demo_referred (Addr 1) = Some (Addr 2)" by (simp add: demo_referred_def)
  with no_short_referral_cycle [OF demo_referred_reachable this] show ?thesis by blast
qed

theorem commission_books_balance_witness:
  "\<exists>s. get_commission_balance s (Addr 2) = 100 \<and> rs_commission_earned (get_referral_stats s (Addr 2)) = 100 + withdrawn (Addr 2) s"
proof -
  obtain s where s: "referral_exec (demo_env 1 7) demo_referred (Distribute (Addr 1) 20000) = Inr s"
    "get_commission_balance s (Addr 2) = 100" using demo_distribute by blast
  from commission_books_balance [OF referral_reach [OF demo_referred_reachable s(1)], of "Addr 2"] s(2) show ?thesis by metis
qed

theorem commission_split_witness:
  "\<exists>s. calculate_and_distribute_commission demo_referred (Addr 1) 20000 = Inr s
    \<and> get_commission_balance s (Addr 2) = 100 \<and> get_commission_balance s (Addr 1) = get_commission_balance demo_referred (Addr 1)"
proof -
  obtain s where s: "calculate_and_distribute_commission demo_referred (Addr 1) 20000 = Inr s"
    "get_commission_balance s (Addr 2) = 100" using demo_distribute by blast
  have "0 < (20000 :: int)" by simp
  from commission_split [OF demo_referred_reachable s(1) this] s show ?thesis by blast
qed

end
