(* ===== verification/Orders.thy ===== *)
theory Orders
  imports Counter_Base
begin

text \<open>
  The order book of the counter contract (\<open>counter/src/orders.rs\<close>). The file as committed declares
  \<open>place_limit_order\<close> twice and the field \<open>interval_secs\<close> twice, and the functions that build orders
  without a side (\<open>create_order\<close>, \<open>place_stop_loss\<close>, \<open>place_recurring_order\<close> and the first
  \<open>place_limit_order\<close>) leave fields of \<open>Order\<close> out and call \<open>add_to_order_book\<close> with an id in the
  place of an order. The sided order book, which the entry points of \<open>lib.rs\<close> call, is modelled, with
  the second \<open>place_limit_order\<close>; so are the queries and the scheduler \<open>execute_due_orders\<close>.
\<close>

section \<open>Data\<close>

datatype limit_order_type = Market | Limit | StopLoss | StopLimit | Recurring

datatype limit_order_status = Pending | Filled | Cancelled | Expired_Order | PartiallyFilled | Scheduled

datatype side = Buy | Sell

record limit_order =
  lo_id :: nat
  lo_owner :: address
  lo_type :: limit_order_type
  lo_side :: side
  lo_base :: symbol
  lo_quote :: symbol
  lo_amount :: int
  lo_remaining :: int
  lo_price :: nat
  lo_status :: limit_order_status
  lo_created_at :: nat
  lo_expires_at :: "nat option"
  lo_filled_at :: "nat option"
  lo_interval :: "nat option"
  lo_token_in :: symbol
  lo_token_out :: symbol
  lo_amount_in :: int
  lo_amount_filled :: int
  lo_limit_price :: "nat option"
  lo_trigger_price :: "nat option"
  lo_occurrences :: "nat option"
  lo_next_run :: "nat option"

record order_level =
  ol_price :: nat
  ol_amount :: int
  ol_count :: nat

record order_snapshot =
  sn_base :: symbol
  sn_quote :: symbol
  sn_bids :: "order_level list"
  sn_asks :: "order_level list"
  sn_timestamp :: nat

record order_fill =
  of_id :: nat
  of_base :: int
  of_quote :: int
  of_price :: nat
  of_complete :: bool
  of_maker :: address
  of_taker :: address

record order_book =
  bk_base :: symbol
  bk_quote :: symbol
  bk_bids :: "nat list"
  bk_asks :: "nat list"
  bk_buy_orders :: "nat list"
  bk_sell_orders :: "nat list"

datatype order_event =
    OrderCancelled nat address symbol symbol int
  | OrderPlaced nat address symbol symbol int nat
  | OrderFill nat address address int int nat
  | OrderMatched nat address symbol symbol nat
  | RecurringRun nat address int

text \<open>The keys \<open>order\<close>, \<open>uorders\<close>, \<open>obook\<close>, \<open>next_oid\<close> and \<open>recur\<close>.\<close>

record limit_store =
  lm_orders :: "nat \<rightharpoonup> limit_order"
  lm_user :: "address \<rightharpoonup> nat list"
  lm_books :: "(symbol \<times> symbol) \<rightharpoonup> order_book"
  lm_next :: "nat option"
  lm_recurring :: "nat list option"
  lm_events :: "order_event list"

definition limit_store0 :: limit_store where
  "limit_store0 = \<lparr>lm_orders = Map.empty, lm_user = Map.empty, lm_books = Map.empty, lm_next = None,
     lm_recurring = None, lm_events = []\<rparr>"

definition lm_publish :: "order_event \<Rightarrow> limit_store \<Rightarrow> limit_store" where
  "lm_publish ev s = s\<lparr>lm_events := lm_events s @ [ev]\<rparr>"

definition get_limit_order :: "limit_store \<Rightarrow> nat \<Rightarrow> (limit_order, counter_error) res" where
  "get_limit_order s order_id = ok_or (lm_orders s order_id) (Err InvalidAmount)"

definition save_limit_order :: "limit_order \<Rightarrow> limit_store \<Rightarrow> limit_store" where
  "save_limit_order r s = s\<lparr>lm_orders := (lm_orders s)(lo_id r \<mapsto> r)\<rparr>"

definition lo_open :: "limit_order \<Rightarrow> bool" where
  "lo_open r \<longleftrightarrow> lo_status r = Pending \<or> lo_status r = PartiallyFilled"

definition lo_expired :: "nat \<Rightarrow> limit_order \<Rightarrow> bool" where
  "lo_expired t r \<longleftrightarrow> (case lo_expires_at r of Some expires \<Rightarrow> t > expires | None \<Rightarrow> False)"

section \<open>Placing\<close>

text \<open>The two search loops of \<open>add_to_order_book\<close>: before the first order with a worse price.\<close>

fun queue_insert :: "limit_store \<Rightarrow> limit_order \<Rightarrow> nat list \<Rightarrow> nat list" where
  "queue_insert s r [] = [lo_id r]"
| "queue_insert s r (x # xs) =
     (case lm_orders s x of
        Some existing \<Rightarrow>
          if (case lo_side r of Buy \<Rightarrow> lo_price r > lo_price existing | Sell \<Rightarrow> lo_price r < lo_price existing)
          then lo_id r # x # xs else x # queue_insert s r xs
      | None \<Rightarrow> x # queue_insert s r xs)"

definition empty_book :: "symbol \<Rightarrow> symbol \<Rightarrow> order_book" where
  "empty_book base quote = \<lparr>bk_base = base, bk_quote = quote, bk_bids = [], bk_asks = [], bk_buy_orders = [], bk_sell_orders = []\<rparr>"

definition with_queues :: "order_book \<Rightarrow> nat list \<Rightarrow> nat list \<Rightarrow> order_book" where
  "with_queues b bids asks = b\<lparr>bk_bids := bids, bk_asks := asks, bk_buy_orders := bids, bk_sell_orders := asks\<rparr>"

definition add_to_order_book :: "limit_store \<Rightarrow> symbol \<Rightarrow> symbol \<Rightarrow> limit_order \<Rightarrow> limit_store" where
  "add_to_order_book s base quote r =
     (let b = (case lm_books s (base, quote) of None \<Rightarrow> empty_book base quote | Some b \<Rightarrow> b);
          b1 = (case lo_side r of
              Buy \<Rightarrow> with_queues b (queue_insert s r (bk_bids b)) (bk_asks b)
            | Sell \<Rightarrow> with_queues b (bk_bids b) (queue_insert s r (bk_asks b)))
      in s\<lparr>lm_books := (lm_books s)((base, quote) \<mapsto> b1)\<rparr>)"

definition place_limit_order :: "env \<Rightarrow> limit_store \<Rightarrow> address \<Rightarrow> symbol \<Rightarrow> symbol \<Rightarrow> side \<Rightarrow> int \<Rightarrow> nat \<Rightarrow> nat option
    \<Rightarrow> (nat \<times> limit_store, counter_error) res" where
  "place_limit_order e s owner base quote side amount price expires_at =
     bindR (require_auth e owner) (\<lambda>_.
     bindR (ensure (\<not> amount \<le> 0) (Err InvalidAmount)) (\<lambda>_.
     bindR (ensure (price \<noteq> 0) (Err InvalidPrice)) (\<lambda>_.
     let next_id = (case lm_next s of None \<Rightarrow> 1 | Some n \<Rightarrow> n);
         r = \<lparr>lo_id = next_id, lo_owner = owner, lo_type = Limit, lo_side = side, lo_base = base, lo_quote = quote,
           lo_amount = amount, lo_remaining = amount, lo_price = price, lo_status = Pending, lo_created_at = now e,
           lo_expires_at = expires_at, lo_filled_at = None, lo_interval = None,
           lo_token_in = (case side of Buy \<Rightarrow> quote | Sell \<Rightarrow> base),
           lo_token_out = (case side of Buy \<Rightarrow> base | Sell \<Rightarrow> quote),
           lo_amount_in = amount, lo_amount_filled = 0, lo_limit_price = Some price, lo_trigger_price = None,
           lo_occurrences = None, lo_next_run = None\<rparr>;
         s1 = save_limit_order r s;
         user_orders = (case lm_user s1 owner of None \<Rightarrow> [] | Some ids \<Rightarrow> ids);
         s2 = add_to_order_book (s1\<lparr>lm_user := (lm_user s1)(owner \<mapsto> user_orders @ [next_id])\<rparr>) base quote r in
     bindR (u_add 64 next_id 1) (\<lambda>n.
     Inr (next_id, lm_publish (OrderPlaced next_id owner base quote amount price) (s2\<lparr>lm_next := Some n\<rparr>))))))"

definition cancel_limit_order :: "env \<Rightarrow> limit_store \<Rightarrow> nat \<Rightarrow> address \<Rightarrow> (limit_store, counter_error) res" where
  "cancel_limit_order e s order_id owner =
     bindR (require_auth e owner) (\<lambda>_.
     bindR (get_limit_order s order_id) (\<lambda>r.
     bindR (ensure (lo_owner r = owner) (Err NotAdmin)) (\<lambda>_.
     bindR (ensure (lo_open r \<or> lo_status r = Scheduled) (Err InvalidAmount)) (\<lambda>_.
     Inr (lm_publish (OrderCancelled order_id owner (lo_token_in r) (lo_token_out r) (lo_amount_in r))
       (save_limit_order (r\<lparr>lo_status := Cancelled\<rparr>) s))))))"

section \<open>Taking\<close>

definition FILL_PRECISION :: nat where
  "FILL_PRECISION = 1000000000000000000"

definition price_valid :: "side \<Rightarrow> nat option \<Rightarrow> limit_order \<Rightarrow> bool" where
  "price_valid side max_price r =
     (case max_price of None \<Rightarrow> True
      | Some p \<Rightarrow> (case side of Buy \<Rightarrow> lo_price r \<le> p | Sell \<Rightarrow> lo_price r \<ge> p))"

definition fill_quote :: "limit_order \<Rightarrow> int \<Rightarrow> (int, counter_error) res" where
  "fill_quote r fill_amount =
     bindR (u_mul 128 (lo_price r) (as_u128 fill_amount)) (\<lambda>x. Inr (as_i128 (x div FILL_PRECISION)))"

record taking =
  tk_store :: limit_store
  tk_remaining :: int
  tk_fills :: "order_fill list"
  tk_queue :: "nat list"

text \<open>One fill: the order, the queue, the record of the fill and its event.\<close>

definition fill_limit_order :: "env \<Rightarrow> address \<Rightarrow> taking \<Rightarrow> nat \<Rightarrow> limit_order \<Rightarrow> (taking, counter_error) res" where
  "fill_limit_order e taker k order_id r =
     (let fill_amount = (if lo_remaining r \<le> tk_remaining k then lo_remaining r else tk_remaining k) in
      bindR (fill_quote r fill_amount) (\<lambda>quote.
      bindR (i_sub (lo_remaining r) fill_amount) (\<lambda>remaining.
      bindR (i_add (lo_amount_filled r) fill_amount) (\<lambda>filled.
      bindR (i_sub (tk_remaining k) fill_amount) (\<lambda>rest.
      let r1 = r\<lparr>lo_remaining := remaining, lo_amount_filled := filled\<rparr>; complete = (remaining = 0);
          r2 = (if complete then r1\<lparr>lo_status := Filled, lo_filled_at := Some (now e)\<rparr> else r1\<lparr>lo_status := PartiallyFilled\<rparr>);
          fill = \<lparr>of_id = order_id, of_base = fill_amount, of_quote = quote, of_price = lo_price r, of_complete = complete,
            of_maker = lo_owner r, of_taker = taker\<rparr>
      in Inr \<lparr>tk_store = lm_publish (OrderFill order_id taker (lo_owner r) fill_amount quote (lo_price r))
                (save_limit_order r2 (tk_store k)),
              tk_remaining = rest, tk_fills = tk_fills k @ [fill],
              tk_queue = (if complete then remove1 order_id (tk_queue k) else tk_queue k)\<rparr>)))))"

fun take_loop :: "env \<Rightarrow> address \<Rightarrow> side \<Rightarrow> nat option \<Rightarrow> nat list \<Rightarrow> taking \<Rightarrow> (taking, counter_error) res" where
  "take_loop e taker side max_price [] k = Inr k"
| "take_loop e taker side max_price (order_id # ids) k =
     (if tk_remaining k \<le> 0 then Inr k
      else case lm_orders (tk_store k) order_id of
        None \<Rightarrow> take_loop e taker side max_price ids k
      | Some r \<Rightarrow>
          if \<not> lo_open r then take_loop e taker side max_price ids k
          else if lo_expired (now e) r
          then take_loop e taker side max_price ids
                 (k\<lparr>tk_store := save_limit_order (r\<lparr>lo_status := Expired_Order\<rparr>) (tk_store k)\<rparr>)
          else if \<not> price_valid side max_price r then take_loop e taker side max_price ids k
          else bindR (fill_limit_order e taker k order_id r) (\<lambda>k1. take_loop e taker side max_price ids k1))"

definition take_limit_order :: "env \<Rightarrow> limit_store \<Rightarrow> address \<Rightarrow> symbol \<Rightarrow> symbol \<Rightarrow> side \<Rightarrow> int \<Rightarrow> nat option
    \<Rightarrow> (order_fill list \<times> limit_store, counter_error) res" where
  "take_limit_order e s taker base quote side max_amount_base max_price =
     bindR (require_auth e taker) (\<lambda>_.
     bindR (ensure (\<not> max_amount_base \<le> 0) (Err InvalidAmount)) (\<lambda>_.
     bindR (ok_or (lm_books s (base, quote)) (Err InvalidAmount)) (\<lambda>b.
     let queue = (case side of Buy \<Rightarrow> bk_asks b | Sell \<Rightarrow> bk_bids b) in
     bindR (take_loop e taker side max_price queue
       \<lparr>tk_store = s, tk_remaining = max_amount_base, tk_fills = [], tk_queue = queue\<rparr>) (\<lambda>k.
     let b1 = (case side of Buy \<Rightarrow> with_queues b (bk_bids b) (tk_queue k) | Sell \<Rightarrow> with_queues b (tk_queue k) (bk_asks b));
         s1 = tk_store k
     in Inr (tk_fills k, s1\<lparr>lm_books := (lm_books s1)((base, quote) \<mapsto> b1)\<rparr>)))))"

section \<open>Queries\<close>

text \<open>The levels of a side, sorted by ascending price like the keys of the host's map.\<close>

fun level_add :: "nat \<Rightarrow> int \<Rightarrow> order_level list \<Rightarrow> (order_level list, counter_error) res" where
  "level_add price amount [] =
     bindR (i_add 0 amount) (\<lambda>x. Inr [\<lparr>ol_price = price, ol_amount = x, ol_count = 1\<rparr>])"
| "level_add price amount (l # ls) =
     (if price < ol_price l
      then bindR (i_add 0 amount) (\<lambda>x. Inr (\<lparr>ol_price = price, ol_amount = x, ol_count = 1\<rparr> # l # ls))
      else if price = ol_price l
      then bindR (i_add (ol_amount l) amount) (\<lambda>x. Inr (l\<lparr>ol_amount := x, ol_count := ol_count l + 1\<rparr> # ls))
      else bindR (level_add price amount ls) (\<lambda>ls1. Inr (l # ls1)))"

fun side_levels :: "limit_store \<Rightarrow> nat list \<Rightarrow> order_level list \<Rightarrow> (order_level list, counter_error) res" where
  "side_levels s [] ls = Inr ls"
| "side_levels s (x # xs) ls =
     (case lm_orders s x of
        Some r \<Rightarrow> if lo_open r then bindR (level_add (lo_price r) (lo_remaining r) ls) (\<lambda>ls1. side_levels s xs ls1)
                  else side_levels s xs ls
      | None \<Rightarrow> side_levels s xs ls)"

text \<open>
  The asks: the loop that collects the lowest \<open>max_levels\<close> prices removes them from the map, and the
  levels are read from what is left.
\<close>

definition get_orderbook_snapshot :: "env \<Rightarrow> limit_store \<Rightarrow> symbol \<Rightarrow> symbol \<Rightarrow> nat \<Rightarrow> (order_snapshot, counter_error) res" where
  "get_orderbook_snapshot e s base quote max_levels =
     bindR (ok_or (lm_books s (base, quote)) (Err InvalidAmount)) (\<lambda>b.
     bindR (side_levels s (bk_bids b) []) (\<lambda>bid_levels.
     bindR (side_levels s (bk_asks b) []) (\<lambda>ask_levels.
     Inr \<lparr>sn_base = base, sn_quote = quote, sn_bids = take max_levels (rev bid_levels),
       sn_asks = take max_levels (drop max_levels ask_levels), sn_timestamp = now e\<rparr>)))"

definition should_execute :: "nat \<Rightarrow> limit_order \<Rightarrow> bool" where
  "should_execute current_price r =
     (case lo_type r of
        Limit \<Rightarrow> (case lo_limit_price r of Some p \<Rightarrow> current_price \<le> p | None \<Rightarrow> False)
      | StopLoss \<Rightarrow> (case lo_trigger_price r of Some p \<Rightarrow> current_price \<le> p | None \<Rightarrow> False)
      | _ \<Rightarrow> False)"

fun match_loop :: "env \<Rightarrow> symbol \<Rightarrow> symbol \<Rightarrow> nat \<Rightarrow> nat list \<Rightarrow> nat list \<times> limit_store \<Rightarrow> nat list \<times> limit_store" where
  "match_loop e token_in token_out p [] (executed, s) = (executed, s)"
| "match_loop e token_in token_out p (x # xs) (executed, s) =
     match_loop e token_in token_out p xs
       (case lm_orders s x of
          None \<Rightarrow> (executed, s)
        | Some r \<Rightarrow>
            if lo_expired (now e) r then (executed, save_limit_order (r\<lparr>lo_status := Expired_Order\<rparr>) s)
            else if lo_open r \<and> should_execute p r
            then (executed @ [x], lm_publish (OrderMatched x (lo_owner r) token_in token_out p)
                    (save_limit_order (r\<lparr>lo_status := Filled, lo_filled_at := Some (now e)\<rparr>) s))
            else (executed, s))"

definition match_pending_orders :: "env \<Rightarrow> limit_store \<Rightarrow> symbol \<Rightarrow> symbol \<Rightarrow> nat \<Rightarrow> nat list \<times> limit_store" where
  "match_pending_orders e s token_in token_out current_price =
     (case lm_books s (token_in, token_out) of
        None \<Rightarrow> ([], s)
      | Some b \<Rightarrow> match_loop e token_in token_out current_price (bk_buy_orders b) ([], s))"

definition get_user_limit_orders :: "limit_store \<Rightarrow> address \<Rightarrow> limit_order list" where
  "get_user_limit_orders s user =
     (case lm_user s user of
        None \<Rightarrow> []
      | Some ids \<Rightarrow> filter lo_open (List.map_filter (lm_orders s) ids))"

text \<open>One iteration of \<open>execute_due_orders\<close> for a recurring order.\<close>

definition run_due :: "env \<Rightarrow> limit_order \<Rightarrow> nat list \<Rightarrow> limit_store \<Rightarrow> (nat list \<times> limit_store, counter_error) res" where
  "run_due e r executed s =
     (if lo_type r \<noteq> Recurring then Inr (executed, s)
      else if lo_expired (now e) r then Inr (executed, save_limit_order (r\<lparr>lo_status := Expired_Order\<rparr>) s)
      else if lo_status r \<noteq> Pending \<and> lo_status r \<noteq> Scheduled then Inr (executed, s)
      else case lo_next_run r of None \<Rightarrow> Inr (executed, s) | Some next_run \<Rightarrow>
        if now e < next_run then Inr (executed, s)
        else bindR (i_add (lo_amount_filled r) (lo_amount_in r)) (\<lambda>filled.
          let n = (case lo_occurrences r of None \<Rightarrow> 0 | Some n \<Rightarrow> n); remaining = (if n > 0 then n - 1 else n);
              r1 = r\<lparr>lo_amount_filled := filled, lo_occurrences := Some remaining\<rparr> in
          bindR (if remaining = 0
                 then Inr (r1\<lparr>lo_status := Filled, lo_filled_at := Some (now e), lo_next_run := None\<rparr>)
                 else bindR (u_add 64 (now e) (case lo_interval r of None \<Rightarrow> 0 | Some i \<Rightarrow> i)) (\<lambda>t.
                      Inr (r1\<lparr>lo_status := Scheduled, lo_next_run := Some t\<rparr>))) (\<lambda>r2.
          Inr (executed @ [lo_id r], lm_publish (RecurringRun (lo_id r) (lo_owner r) (lo_amount_in r)) (save_limit_order r2 s)))))"

fun due_loop :: "env \<Rightarrow> nat list \<Rightarrow> nat list \<Rightarrow> limit_store \<Rightarrow> (nat list \<times> limit_store, counter_error) res" where
  "due_loop e [] executed s = Inr (executed, s)"
| "due_loop e (x # xs) executed s =
     (case lm_orders s x of
        None \<Rightarrow> due_loop e xs executed s
      | Some r \<Rightarrow> bindR (run_due e r executed s) (\<lambda>(done1, s1). due_loop e xs done1 s1))"

definition execute_due_orders :: "env \<Rightarrow> limit_store \<Rightarrow> (nat list \<times> limit_store, counter_error) res" where
  "execute_due_orders e s = due_loop e (case lm_recurring s of None \<Rightarrow> [] | Some ids \<Rightarrow> ids) [] s"

end
