(* ===== verification/Trading.thy ===== *)
theory Trading
  imports Risk Rate_Limit Kyc Referral Orders
begin

text \<open>
  The storage the trading entry points of the counter contract share, its query caches
  (\<open>counter/src/lib.rs\<close>), and the swap against the built-in pool (\<open>counter/trading.rs\<close>). The cache of
  \<open>get_portfolio_pnl\<close> is left out with the cost-basis engine that feeds it.
\<close>

section \<open>The storage\<close>

record faucet_config =
  fc_drip_amount :: int
  fc_cooldown_secs :: nat

record cached_portfolio =
  cp_trades :: nat
  cp_pnl :: int
  cp_cached_at :: nat

record cached_top_traders =
  ct_traders :: "(address \<times> int) list"
  ct_cached_at :: nat

datatype market_event =
    CacheAccess symbol nat nat nat
  | FaucetClaimed address symbol int nat

text \<open>
  \<open>None\<close> stands for a key never written or removed; an empty map under \<open>pcache\<close> is written as the
  empty map. The stores of the modules the entry points call are their own records.
\<close>

record market =
  mk_portfolio :: "portfolio option"
  mk_oracle :: oracle_store
  mk_min_tolerance :: "pair \<rightharpoonup> nat"
  mk_max_slippage :: "nat option"
  mk_paused :: "bool option"
  mk_admin :: "address option"
  mk_emergency :: emergency_store
  mk_kyc :: kyc_store
  mk_rates :: rate_store
  mk_discounts :: "(user_tier \<rightharpoonup> nat) option"
  mk_risk :: risk_store
  mk_referrals :: referral_store
  mk_orders :: limit_store
  mk_pcache :: "address \<rightharpoonup> cached_portfolio"
  mk_tcache :: "cached_top_traders option"
  mk_ttl :: "nat option"
  mk_hits :: "nat option"
  mk_misses :: "nat option"
  mk_faucet :: "symbol \<rightharpoonup> faucet_config"
  mk_claims :: "(address \<times> symbol) \<rightharpoonup> nat"
  mk_version :: "nat option"
  mk_events :: "market_event list"

definition market0 :: market where
  "market0 = \<lparr>mk_portfolio = None, mk_oracle = oracle_store0, mk_min_tolerance = Map.empty, mk_max_slippage = None,
     mk_paused = None, mk_admin = None, mk_emergency = emergency_store0, mk_kyc = kyc_store0, mk_rates = rate_store0,
     mk_discounts = None, mk_risk = risk_store0, mk_referrals = referral_store0, mk_orders = limit_store0,
     mk_pcache = Map.empty, mk_tcache = None, mk_ttl = None, mk_hits = None, mk_misses = None, mk_faucet = Map.empty,
     mk_claims = Map.empty, mk_version = None, mk_events = []\<rparr>"

definition load_portfolio :: "market \<Rightarrow> portfolio" where
  "load_portfolio m = or_else (mk_portfolio m) portfolio_new"

definition store_portfolio :: "market \<Rightarrow> portfolio \<Rightarrow> market" where
  "store_portfolio m p = m\<lparr>mk_portfolio := Some p\<rparr>"

text \<open>\<open>require_not_paused\<close>.\<close>

definition not_paused :: "market \<Rightarrow> bool" where
  "not_paused m \<longleftrightarrow> \<not> or_else (mk_paused m) False"

section \<open>Query caches\<close>

text \<open>\<open>invalidate_query_cache\<close>.\<close>

definition drop_caches :: "market \<Rightarrow> market" where
  "drop_caches m = m\<lparr>mk_pcache := Map.empty, mk_tcache := None\<rparr>"

definition get_cache_ttl :: "market \<Rightarrow> nat" where
  "get_cache_ttl m = or_else (mk_ttl m) 60"

definition cache_ratio_bps :: "nat \<Rightarrow> nat \<Rightarrow> nat" where
  "cache_ratio_bps hits misses =
     (let total_count = u_sat_add 64 hits misses
      in if total_count = 0 then 0 else (u_sat_mul 64 hits 10000 div total_count) mod 2 ^ 32)"

definition record_cache_access :: "market \<Rightarrow> symbol \<Rightarrow> bool \<Rightarrow> market" where
  "record_cache_access m query hit =
     (let hits = or_else (mk_hits m) 0; misses = or_else (mk_misses m) 0;
          hits1 = (if hit then u_sat_add 64 hits 1 else hits); misses1 = (if hit then misses else u_sat_add 64 misses 1);
          m1 = (if hit then m\<lparr>mk_hits := Some hits1\<rparr> else m\<lparr>mk_misses := Some misses1\<rparr>)
      in m1\<lparr>mk_events := mk_events m1 @ [CacheAccess query hits1 misses1 (cache_ratio_bps hits1 misses1)]\<rparr>)"

definition apply_trader_limit :: "(address \<times> int) list \<Rightarrow> nat \<Rightarrow> (address \<times> int) list" where
  "apply_trader_limit traders limit = take (let max_limit = if limit > 100 then 100 else limit in if length traders < max_limit then length traders else max_limit) traders"

text \<open>A query the cache cannot answer: read the portfolio and write the entry.\<close>

definition miss_portfolio :: "env \<Rightarrow> market \<Rightarrow> address \<Rightarrow> (nat \<times> int) \<times> market" where
  "miss_portfolio e m user =
     (let m1 = record_cache_access m ''portf'' False; v = get_portfolio (load_portfolio m1) user
      in (v, m1\<lparr>mk_pcache := (mk_pcache m1)(user \<mapsto> \<lparr>cp_trades = fst v, cp_pnl = snd v, cp_cached_at = now e\<rparr>)\<rparr>))"

definition cc_get_portfolio :: "env \<Rightarrow> market \<Rightarrow> address \<Rightarrow> (nat \<times> int) \<times> market" where
  "cc_get_portfolio e m user =
     (case mk_pcache m user of
        Some entry \<Rightarrow>
          if now e - cp_cached_at entry \<le> get_cache_ttl m
          then ((cp_trades entry, cp_pnl entry), record_cache_access m ''portf'' True)
          else miss_portfolio e m user
      | None \<Rightarrow> miss_portfolio e m user)"

definition miss_top_traders :: "env \<Rightarrow> market \<Rightarrow> nat \<Rightarrow> (address \<times> int) list \<times> market" where
  "miss_top_traders e m limit =
     (let m1 = record_cache_access m ''toptr'' False; traders = get_top_traders (load_portfolio m1) 100
      in (apply_trader_limit traders limit, m1\<lparr>mk_tcache := Some \<lparr>ct_traders = traders, ct_cached_at = now e\<rparr>\<rparr>))"

definition cc_get_top_traders :: "env \<Rightarrow> market \<Rightarrow> nat \<Rightarrow> (address \<times> int) list \<times> market" where
  "cc_get_top_traders e m limit =
     (case mk_tcache m of
        Some entry \<Rightarrow>
          if now e - ct_cached_at entry \<le> get_cache_ttl m
          then (apply_trader_limit (ct_traders entry) limit, record_cache_access m ''toptr'' True)
          else miss_top_traders e m limit
      | None \<Rightarrow> miss_top_traders e m limit)"

definition set_cache_ttl :: "env \<Rightarrow> market \<Rightarrow> address \<Rightarrow> nat \<Rightarrow> (market, counter_error) res" where
  "set_cache_ttl e m caller ttl_seconds =
     bindR (require_auth e caller) (\<lambda>_.
     bindR (require_admin (mk_admin m) caller) (\<lambda>_. Inr (m\<lparr>mk_ttl := Some ttl_seconds\<rparr>)))"

definition get_cache_stats :: "market \<Rightarrow> nat \<times> nat \<times> nat" where
  "get_cache_stats m =
     (let hits = or_else (mk_hits m) 0; misses = or_else (mk_misses m) 0 in (hits, misses, cache_ratio_bps hits misses))"

definition clear_cache :: "env \<Rightarrow> market \<Rightarrow> address \<Rightarrow> (market, counter_error) res" where
  "clear_cache e m caller =
     bindR (require_auth e caller) (\<lambda>_. bindR (require_admin (mk_admin m) caller) (\<lambda>_. Inr (drop_caches m)))"

section \<open>Swaps\<close>

definition LP_FEE_BPS :: nat where
  "LP_FEE_BPS = 30"

definition DEFAULT_MINIMUM_RATE_TOLERANCE_BPS :: nat where
  "DEFAULT_MINIMUM_RATE_TOLERANCE_BPS = 100"

definition symbol_to_asset :: "symbol \<Rightarrow> asset option" where
  "symbol_to_asset token = (if token = ''XLM'' then Some XLM else if token = USDCSIM then Some (Custom token) else None)"

definition get_min_rate_tolerance_bps :: "market \<Rightarrow> pair \<Rightarrow> nat" where
  "get_min_rate_tolerance_bps m pair = or_else (mk_min_tolerance m pair) DEFAULT_MINIMUM_RATE_TOLERANCE_BPS"

definition set_min_rate_tolerance_bps :: "market \<Rightarrow> pair \<Rightarrow> nat \<Rightarrow> market" where
  "set_min_rate_tolerance_bps m pair bps = m\<lparr>mk_min_tolerance := (mk_min_tolerance m)(pair \<mapsto> bps)\<rparr>"

definition calculate_minimum_output :: "env \<Rightarrow> market \<Rightarrow> symbol \<Rightarrow> symbol \<Rightarrow> nat \<Rightarrow> (nat, counter_error) res" where
  "calculate_minimum_output e m from to_token amount_in =
     bindR (get_validated_price e (mk_oracle m) from to_token) (\<lambda>oracle_price.
     bindR (u_mul 128 amount_in oracle_price) (\<lambda>product.
     let expected_out = product div PRECISION in
     bindR (u_sub 10000 (get_min_rate_tolerance_bps m (from, to_token))) (\<lambda>keep.
     Inr (u_sat_mul 128 expected_out keep div 10000))))"

text \<open>The output of the pool, or at the oracle price when the pool is empty.\<close>

definition swap_output :: "env \<Rightarrow> market \<Rightarrow> symbol \<Rightarrow> symbol \<Rightarrow> nat \<Rightarrow> nat \<Rightarrow> nat \<Rightarrow> (nat, counter_error) res" where
  "swap_output e m from to_token amount reserve_in reserve_out =
     (if reserve_in > 0 \<and> reserve_out > 0
      then bindR (u_mul 128 amount (10000 - LP_FEE_BPS)) (\<lambda>x.
           let amount_in_after_fee = x div 10000;
               numerator = u_sat_mul 128 reserve_out amount_in_after_fee;
               denominator = u_sat_add 128 reserve_in amount_in_after_fee
           in if denominator = 0 then Inl (Err InvalidAmount) else Inr (numerator div denominator))
      else bindR (get_validated_price e (mk_oracle m) from to_token) (\<lambda>price.
           bindR (u_mul 128 amount price) (\<lambda>product. Inr (product div PRECISION))))"

definition theoretical_output :: "nat \<Rightarrow> nat \<Rightarrow> nat \<Rightarrow> nat" where
  "theoretical_output amount reserve_in reserve_out =
     (if reserve_in > 0 \<and> reserve_out > 0
      then let numerator = u_sat_mul 128 reserve_out amount; denominator = u_sat_add 128 reserve_in amount
           in if denominator = 0 then amount else numerator div denominator
      else amount)"

definition check_slippage :: "market \<Rightarrow> nat \<Rightarrow> nat \<Rightarrow> (unit, counter_error) res" where
  "check_slippage m theoretical_out actual_out =
     (if theoretical_out > 0
      then bindR (u_sub theoretical_out actual_out) (\<lambda>d.
           bindR (u_mul 128 d 10000) (\<lambda>x.
           ensure (\<not> x div theoretical_out > or_else (mk_max_slippage m) 10000) (Err SlippageExceeded)))
      else Inr ())"

text \<open>The new reserves; \<open>set_liquidity\<close> overwrites them.\<close>

definition move_reserves :: "portfolio \<Rightarrow> bool \<Rightarrow> int \<Rightarrow> int \<Rightarrow> int \<Rightarrow> int \<Rightarrow> portfolio" where
  "move_reserves p from_xlm xlm_liquidity usdc_liquidity amount_in_after_fee out_amount =
     (if from_xlm
      then set_liquidity (set_liquidity p XLM (i_sat_add xlm_liquidity amount_in_after_fee))
             (Custom USDCSIM) (i_sat_sub usdc_liquidity out_amount)
      else set_liquidity (set_liquidity p (Custom USDCSIM) (i_sat_add usdc_liquidity amount_in_after_fee))
             XLM (i_sat_sub xlm_liquidity out_amount))"

definition perform_swap :: "env \<Rightarrow> market \<Rightarrow> portfolio \<Rightarrow> symbol \<Rightarrow> symbol \<Rightarrow> int \<Rightarrow> address \<Rightarrow> int option
    \<Rightarrow> (int \<times> portfolio, counter_error) res" where
  "perform_swap e m p from to_token amount user min_amount_out =
     bindR (ensure (\<not> amount \<le> 0) (Err InvalidAmount)) (\<lambda>_.
     bindR (ensure (from \<noteq> to_token) (Err InvalidSwapPair)) (\<lambda>_.
     bindR (ok_or (symbol_to_asset from) (Err InvalidTokenSymbol)) (\<lambda>from_asset.
     bindR (ok_or (symbol_to_asset to_token) (Err InvalidTokenSymbol)) (\<lambda>to_asset.
     bindR (ensure (\<not> em_is_paused (mk_emergency m)) (Err TradingPaused)) (\<lambda>_.
     bindR (ensure (\<not> em_is_frozen (mk_emergency m) user) (Err UserFrozen)) (\<lambda>_.
     bindR (ensure (\<not> would_trip_circuit_breaker amount 1000) (Err CircuitBreakerTripped)) (\<lambda>_.
     let amount_u128 = as_u128 amount in
     bindR (case calculate_minimum_output e m from to_token amount_u128 of
              Inl (Err PriceNotSet) \<Rightarrow> Inr PRECISION | r \<Rightarrow> r) (\<lambda>oracle_min_out.
     let xlm_liquidity = get_liquidity p XLM; usdc_liquidity = get_liquidity p (Custom USDCSIM);
         reserve_in = (if from_asset = XLM then as_u128 xlm_liquidity else as_u128 usdc_liquidity);
         reserve_out = (if from_asset = XLM then as_u128 usdc_liquidity else as_u128 xlm_liquidity) in
     bindR (swap_output e m from to_token amount_u128 reserve_in reserve_out) (\<lambda>actual_out.
     bindR (ensure (\<not> actual_out < oracle_min_out) (Err SlippageExceeded)) (\<lambda>_.
     bindR (ensure (case min_amount_out of Some user_min \<Rightarrow> \<not> actual_out < as_u128 user_min | None \<Rightarrow> True)
       (Err SlippageExceeded)) (\<lambda>_.
     let out_amount = as_i128 actual_out in
     bindR (ensure (\<not> out_amount \<le> 0) (Err InvalidAmount)) (\<lambda>_.
     bindR (u_mul 128 amount_u128 LP_FEE_BPS) (\<lambda>fee_product.
     let fee_amount = as_i128 (fee_product div 10000) in
     bindR (check_slippage m (theoretical_output amount_u128 reserve_in reserve_out) actual_out) (\<lambda>_.
     bindR (transfer_asset p from_asset to_asset user amount) (\<lambda>p1.
     bindR (debit p1 from_asset user amount) (\<lambda>p2.
     bindR (credit p2 to_asset user out_amount) (\<lambda>p3.
     bindR (if reserve_in > 0 \<and> reserve_out > 0
            then bindR (i_sub amount fee_amount) (\<lambda>amount_in_after_fee.
                 Inr (move_reserves p3 (from_asset = XLM) xlm_liquidity usdc_liquidity amount_in_after_fee out_amount))
            else Inr p3) (\<lambda>p4.
     Inr (out_amount, if fee_amount > 0 then add_lp_fees p4 fee_amount else p4)))))))))))))))))))"

text \<open>
  \<open>execute_multihop_swap\<close> is a stub: every call fails.
\<close>

definition execute_multihop_swap :: "nat list \<Rightarrow> int \<Rightarrow> (int, counter_error) res" where
  "execute_multihop_swap route_pools amount_in =
     bindR (ensure (route_pools \<noteq> []) (Err InvalidAmount)) (\<lambda>_.
     bindR (ensure (\<not> amount_in \<le> 0) (Err InvalidAmount)) (\<lambda>_.
     Inl (Err NotAuthorized)))"

end
