(* ===== verification/Market.thy ===== *)
theory Market
  imports Trading
begin

text \<open>
  The entry points of \<open>counter/src/lib.rs\<close> around the portfolio: minting, prices, swaps, limit orders,
  trades, the pool and its LP tokens, rate limits, the data migration and the faucet
  (\<open>counter/src/faucet.rs\<close>, \<open>counter/src/migration.rs\<close>). A call that returns an error or panics leaves
  the storage as it was. An address that was asked for its authorization once in a call is taken to
  give it again. The second block of order entry points in the file (stop-loss and recurring orders)
  calls the functions of the order book that do not compile and is left out.
\<close>

section \<open>Balances, prices and pool reserves\<close>

definition asset_of :: "symbol \<Rightarrow> asset" where
  "asset_of token = (if token = ''XLM'' then XLM else Custom token)"

definition cc_mint :: "market \<Rightarrow> symbol \<Rightarrow> address \<Rightarrow> int \<Rightarrow> (market, counter_error) res" where
  "cc_mint m token to_user amount =
     bindR (mint (load_portfolio m) (asset_of token) to_user amount) (\<lambda>p. Inr (drop_caches (store_portfolio m p)))"

definition cc_balance_of :: "market \<Rightarrow> symbol \<Rightarrow> address \<Rightarrow> int" where
  "cc_balance_of m token user = balance_of (load_portfolio m) (asset_of token) user"

definition cc_set_price :: "env \<Rightarrow> market \<Rightarrow> pair \<Rightarrow> nat \<Rightarrow> market" where
  "cc_set_price e m token_pair price = m\<lparr>mk_oracle := set_stored_price e (mk_oracle m) token_pair price\<rparr>"

definition cc_get_current_price :: "market \<Rightarrow> pair \<Rightarrow> nat" where
  "cc_get_current_price m token_pair =
     (case get_stored_price (mk_oracle m) token_pair of Some d \<Rightarrow> pd_price d | None \<Rightarrow> 0)"

definition cc_set_price_update_tolerance_bps :: "market \<Rightarrow> pair \<Rightarrow> nat \<Rightarrow> market" where
  "cc_set_price_update_tolerance_bps m token_pair bps =
     m\<lparr>mk_oracle := set_price_update_tolerance_bps (mk_oracle m) token_pair bps\<rparr>"

definition cc_set_pool_liquidity :: "market \<Rightarrow> symbol \<Rightarrow> int \<Rightarrow> market" where
  "cc_set_pool_liquidity m token amount = store_portfolio m (set_liquidity (load_portfolio m) (asset_of token) amount)"

definition cc_set_max_slippage_bps :: "market \<Rightarrow> nat \<Rightarrow> market" where
  "cc_set_max_slippage_bps m bps = m\<lparr>mk_max_slippage := Some bps\<rparr>"

definition cc_record_trade :: "env \<Rightarrow> market \<Rightarrow> address \<Rightarrow> (market, counter_error) res" where
  "cc_record_trade e m user =
     bindR (record_trade e (load_portfolio m) user) (\<lambda>p. Inr (drop_caches (store_portfolio m p)))"

definition cc_get_user_tier :: "market \<Rightarrow> address \<Rightarrow> user_tier" where
  "cc_get_user_tier m user = get_user_tier (load_portfolio m) user"

section \<open>Swaps\<close>

definition authenticated_verified :: "env \<Rightarrow> market \<Rightarrow> address \<Rightarrow> (unit, counter_error) res" where
  "authenticated_verified e m user = bindR (require_auth e user) (\<lambda>_. require_verified e (mk_kyc m) user)"

definition tier_store :: "market \<Rightarrow> tier_storage" where
  "tier_store m = \<lparr>ts_admin = mk_admin m, ts_discounts = mk_discounts m\<rparr>"

text \<open>The fee of \<open>swap\<close>: debited, collected and shared with the referrers.\<close>

definition collect_swap_fee :: "market \<Rightarrow> portfolio \<Rightarrow> symbol \<Rightarrow> address \<Rightarrow> int
    \<Rightarrow> (portfolio \<times> referral_store, counter_error) res" where
  "collect_swap_fee m p from user fee_amount =
     (if fee_amount > 0
      then bindR (debit p (asset_of from) user fee_amount) (\<lambda>p1.
           bindR (calculate_and_distribute_commission (mk_referrals m) user fee_amount) (\<lambda>refs.
           Inr (collect_fee p1 fee_amount, refs)))
      else Inr (p, mk_referrals m))"

definition cc_swap :: "env \<Rightarrow> market \<Rightarrow> symbol \<Rightarrow> symbol \<Rightarrow> int \<Rightarrow> address \<Rightarrow> (int \<times> market, counter_error) res" where
  "cc_swap e m from to_token amount user =
     bindR (ensure (not_paused m) (Err TradingPaused)) (\<lambda>_.
     bindR (authenticated_verified e m user) (\<lambda>_.
     bindR (map_err InvalidPrice (latest_round_data e (mk_oracle m) (from, to_token))) (\<lambda>(price, timestamp).
     bindR (ensure (\<not> now e - timestamp > 300) (Err StalePrice)) (\<lambda>_.
     bindR (ensure (\<not> price \<le> 0) (Err InvalidPrice)) (\<lambda>_.
     let p = load_portfolio m; tier = get_user_tier p user in
     bindR (check_swap_limit e (mk_rates m) user tier) (\<lambda>(verdict, rates1).
     bindR (ensure (verdict = Inr ()) (Err RateLimitExceeded)) (\<lambda>_.
     bindR (ensure (\<not> is_circuit_breaker_active (mk_risk m)) (Err CircuitBreakerActive)) (\<lambda>_.
     bindR (check_concentration_limit (mk_risk m) p user) (\<lambda>concentrated.
     bindR (ensure (\<not> concentrated) (Err InvalidAmount)) (\<lambda>_.
     bindR (check_position_limits (mk_risk m) p user (asset_of to_token) amount) (\<lambda>limits.
     bindR (ensure (limits = Inr ()) (Err InvalidAmount)) (\<lambda>_.
     bindR (i_mul amount (int (get_effective_fee_bps (tier_store m) tier))) (\<lambda>x.
     bindR (i_div x 10000) (\<lambda>fee_amount.
     bindR (i_sub amount fee_amount) (\<lambda>swap_amount.
     bindR (collect_swap_fee m p from user fee_amount) (\<lambda>(p1, refs).
     bindR (perform_swap e m p1 from to_token swap_amount user None) (\<lambda>(out_amount, p2).
     bindR (record_trade e p2 user) (\<lambda>p3.
     bindR (record_daily_portfolio_value p3 user (now e)) (\<lambda>p4.
     Inr (out_amount, (drop_caches (store_portfolio m (flush_badge_events p4)))\<lparr>mk_rates := rates1, mk_referrals := refs\<rparr>))))))))))))))))))))"

text \<open>
  \<open>safe_swap\<close>: errors of the guards return 0 without a trace; a failed swap also returns 0 and still
  counts as a trade. Only a panic makes the call fail.
\<close>

definition cc_safe_swap :: "env \<Rightarrow> market \<Rightarrow> symbol \<Rightarrow> symbol \<Rightarrow> int \<Rightarrow> address \<Rightarrow> nat \<Rightarrow> (int \<times> market, counter_error) res" where
  "cc_safe_swap e m from to_token amount user deadline =
     (if now e > deadline \<or> \<not> not_paused m then Inr (0, m)
      else
        bindR (require_auth e user) (\<lambda>_.
        if \<not> is_verified e (mk_kyc m) user then Inr (0, m)
        else
          (let p = load_portfolio m;
               tokens_ok = ((from = ''XLM'' \<or> from = USDCSIM) \<and> (to_token = ''XLM'' \<or> to_token = USDCSIM)) in
           if \<not> (tokens_ok \<and> from \<noteq> to_token \<and> amount > 0)
           then Inr (0, drop_caches (store_portfolio m (inc_failed_order p)))
           else
             bindR (case perform_swap e m p from to_token amount user None of
                      Inr r \<Rightarrow> Inr r | Inl (Err _) \<Rightarrow> Inr (0, p) | Inl Trap \<Rightarrow> Inl Trap) (\<lambda>(out_amount, p1).
             bindR (record_trade e p1 user) (\<lambda>p2.
             Inr (out_amount, drop_caches (store_portfolio m (flush_badge_events p2))))))))"

section \<open>Limit orders\<close>

definition quote_for :: "int \<Rightarrow> nat \<Rightarrow> (int, counter_error) res" where
  "quote_for amount price = bindR (u_mul 128 (as_u128 amount) price) (\<lambda>x. Inr (as_i128 (x div PRECISION)))"

definition cc_place_limit_order :: "env \<Rightarrow> market \<Rightarrow> symbol \<Rightarrow> symbol \<Rightarrow> side \<Rightarrow> int \<Rightarrow> nat \<Rightarrow> nat option \<Rightarrow> address
    \<Rightarrow> (nat \<times> market, counter_error) res" where
  "cc_place_limit_order e m base quote side amount price expires_at owner =
     bindR (ensure (not_paused m) (Err TradingPaused)) (\<lambda>_.
     bindR (authenticated_verified e m owner) (\<lambda>_.
     let p = load_portfolio m; reserve_token = (case side of Buy \<Rightarrow> quote | Sell \<Rightarrow> base) in
     bindR (case side of Buy \<Rightarrow> quote_for amount price | Sell \<Rightarrow> Inr amount) (\<lambda>reserve_amount.
     let reserve_asset = asset_of reserve_token in
     bindR (ensure (\<not> balance_of p reserve_asset owner < reserve_amount) (Err InvalidAmount)) (\<lambda>_.
     bindR (debit p reserve_asset owner reserve_amount) (\<lambda>p1.
     let m1 = drop_caches (store_portfolio m p1) in
     bindR (place_limit_order e (mk_orders m1) owner base quote side amount price expires_at) (\<lambda>(order_id, orders1).
     Inr (order_id, m1\<lparr>mk_orders := orders1\<rparr>)))))))"

text \<open>The settlement of one fill: both sides are credited and none is debited.\<close>

definition settle_limit_fill :: "symbol \<Rightarrow> symbol \<Rightarrow> side \<Rightarrow> address \<Rightarrow> order_fill \<Rightarrow> portfolio \<Rightarrow> (portfolio, counter_error) res" where
  "settle_limit_fill base quote side taker f p =
     (case side of
        Buy \<Rightarrow> bindR (credit p (asset_of base) taker (of_base f)) (\<lambda>p1. credit p1 (asset_of quote) (of_maker f) (of_quote f))
      | Sell \<Rightarrow> bindR (credit p (asset_of quote) taker (of_quote f)) (\<lambda>p1. credit p1 (asset_of base) (of_maker f) (of_base f)))"

definition cc_take_order :: "env \<Rightarrow> market \<Rightarrow> symbol \<Rightarrow> symbol \<Rightarrow> side \<Rightarrow> int \<Rightarrow> nat option \<Rightarrow> address
    \<Rightarrow> (order_fill list \<times> market, counter_error) res" where
  "cc_take_order e m base quote side max_amount_base max_price taker =
     bindR (ensure (not_paused m) (Err TradingPaused)) (\<lambda>_.
     bindR (authenticated_verified e m taker) (\<lambda>_.
     bindR (take_limit_order e (mk_orders m) taker base quote side max_amount_base max_price) (\<lambda>(fills, orders1).
     bindR (foldR (settle_limit_fill base quote side taker) fills (load_portfolio m)) (\<lambda>p1.
     Inr (fills, (drop_caches (store_portfolio m p1))\<lparr>mk_orders := orders1\<rparr>)))))"

definition refund_of :: "limit_order \<Rightarrow> (symbol \<times> int, counter_error) res" where
  "refund_of r =
     (case lo_side r of
        Buy \<Rightarrow> bindR (quote_for (lo_remaining r) (lo_price r)) (\<lambda>q. Inr (lo_quote r, q))
      | Sell \<Rightarrow> Inr (lo_base r, lo_remaining r))"

definition cc_cancel_order :: "env \<Rightarrow> market \<Rightarrow> nat \<Rightarrow> address \<Rightarrow> (market, counter_error) res" where
  "cc_cancel_order e m order_id owner =
     bindR (ensure (not_paused m) (Err TradingPaused)) (\<lambda>_.
     bindR (authenticated_verified e m owner) (\<lambda>_.
     bindR (get_limit_order (mk_orders m) order_id) (\<lambda>r.
     bindR (ensure (lo_owner r = owner) (Err NotAdmin)) (\<lambda>_.
     bindR (refund_of r) (\<lambda>(refund_token, refund_amount).
     bindR (cancel_limit_order e (mk_orders m) order_id owner) (\<lambda>orders1.
     bindR (credit (load_portfolio m) (asset_of refund_token) owner refund_amount) (\<lambda>p1.
     Inr ((drop_caches (store_portfolio m p1))\<lparr>mk_orders := orders1\<rparr>))))))))"

definition cc_get_orderbook_snapshot :: "env \<Rightarrow> market \<Rightarrow> symbol \<Rightarrow> symbol \<Rightarrow> nat \<Rightarrow> (order_snapshot, counter_error) res" where
  "cc_get_orderbook_snapshot e m base quote max_levels = get_orderbook_snapshot e (mk_orders m) base quote max_levels"

section \<open>Rate limits\<close>

definition cc_get_swap_rate_limit :: "env \<Rightarrow> market \<Rightarrow> address \<Rightarrow> (rate_status \<times> market, counter_error) res" where
  "cc_get_swap_rate_limit e m user =
     bindR (get_swap_status e (mk_rates m) user (cc_get_user_tier m user)) (\<lambda>(st, rates1). Inr (st, m\<lparr>mk_rates := rates1\<rparr>))"

definition cc_get_lp_rate_limit :: "env \<Rightarrow> market \<Rightarrow> address \<Rightarrow> (rate_status \<times> market, counter_error) res" where
  "cc_get_lp_rate_limit e m user =
     bindR (get_lp_status e (mk_rates m) user (cc_get_user_tier m user)) (\<lambda>(st, rates1). Inr (st, m\<lparr>mk_rates := rates1\<rparr>))"

definition cc_cleanup_rate_limits :: "env \<Rightarrow> market \<Rightarrow> address \<Rightarrow> nat \<times> market" where
  "cc_cleanup_rate_limits e m user =
     (let (n, rates1) = cleanup_rate_limits e (mk_rates m) user in (n, m\<lparr>mk_rates := rates1\<rparr>))"

section \<open>The pool\<close>

text \<open>The square root of \<open>add_liquidity\<close>: at most a hundred Newton steps, until the estimate repeats.\<close>

fun sqrt_steps :: "nat \<Rightarrow> nat \<Rightarrow> nat \<Rightarrow> nat \<Rightarrow> (nat, counter_error) res" where
  "sqrt_steps 0 product guess prev_guess = Inr guess"
| "sqrt_steps (Suc k) product guess prev_guess =
     (if guess = prev_guess then Inr guess
      else bindR (u_div product guess) (\<lambda>quotient.
           bindR (u_add 128 guess quotient) (\<lambda>s.
           let guess1 = s div 2 in if guess1 = 0 then Inr 1 else sqrt_steps k product guess1 guess)))"

definition lp_tokens_for :: "portfolio \<Rightarrow> int \<Rightarrow> int \<Rightarrow> (int, counter_error) res" where
  "lp_tokens_for p xlm_amount usdc_amount =
     (let current_xlm = get_liquidity p XLM; current_usdc = get_liquidity p (Custom USDCSIM);
          total_lp_tokens = get_total_lp_tokens p in
      if total_lp_tokens = 0
      then (let product = u_sat_mul 128 (as_u128 xlm_amount) (as_u128 usdc_amount) in
            bindR (ensure (product \<noteq> 0) (Err InvalidAmount)) (\<lambda>_.
            bindR (sqrt_steps 100 product product 0) (\<lambda>guess. Inr (as_i128 guess))))
      else (let xlm_share = (if current_xlm > 0
              then u_sat_mul 128 (as_u128 xlm_amount) (as_u128 total_lp_tokens) div as_u128 current_xlm else 0);
                usdc_share = (if current_usdc > 0
              then u_sat_mul 128 (as_u128 usdc_amount) (as_u128 total_lp_tokens) div as_u128 current_usdc else 0)
            in Inr (min (as_i128 xlm_share) (as_i128 usdc_share))))"

definition cc_add_liquidity :: "env \<Rightarrow> market \<Rightarrow> int \<Rightarrow> int \<Rightarrow> address \<Rightarrow> (int \<times> market, counter_error) res" where
  "cc_add_liquidity e m xlm_amount usdc_amount user =
     bindR (ensure (not_paused m) (Err TradingPaused)) (\<lambda>_.
     bindR (require_auth e user) (\<lambda>_.
     bindR (require_verified e (mk_kyc m) user) (\<lambda>_.
     bindR (ensure (\<not> (xlm_amount \<le> 0 \<or> usdc_amount \<le> 0)) (Err InvalidAmount)) (\<lambda>_.
     let p = load_portfolio m in
     bindR (check_lp_limit e (mk_rates m) user (get_user_tier p user)) (\<lambda>(verdict, rates1).
     bindR (ensure (verdict = Inr ()) (Err RateLimitExceeded)) (\<lambda>_.
     bindR (ensure (\<not> (balance_of p XLM user < xlm_amount \<or> balance_of p (Custom USDCSIM) user < usdc_amount))
       (Err InsufficientBalance)) (\<lambda>_.
     bindR (lp_tokens_for p xlm_amount usdc_amount) (\<lambda>lp_tokens_minted.
     bindR (ensure (\<not> lp_tokens_minted \<le> 0) (Err InvalidAmount)) (\<lambda>_.
     bindR (debit p XLM user xlm_amount) (\<lambda>p1.
     bindR (debit p1 (Custom USDCSIM) user usdc_amount) (\<lambda>p2.
     let p3 = add_pool_liquidity p2 xlm_amount usdc_amount;
         new_position = (case get_lp_position p3 user of
             Some pos \<Rightarrow> pos\<lparr>lq_xlm_deposited := i_sat_add (lq_xlm_deposited pos) xlm_amount,
               lq_usdc_deposited := i_sat_add (lq_usdc_deposited pos) usdc_amount,
               lq_lp_tokens_minted := i_sat_add (lq_lp_tokens_minted pos) lp_tokens_minted\<rparr>
           | None \<Rightarrow> \<lparr>lq_lp_address = user, lq_xlm_deposited = xlm_amount, lq_usdc_deposited = usdc_amount,
               lq_lp_tokens_minted = lp_tokens_minted\<rparr>);
         p4 = record_lp_deposit (add_total_lp_tokens (set_lp_position p3 user new_position) lp_tokens_minted) user in
     bindR (check_and_award_badges e p4 user) (\<lambda>p5.
     bindR (record_lp_op rates1 user (now e)) (\<lambda>rates2.
     Inr (lp_tokens_minted, (drop_caches (store_portfolio m (flush_badge_events p5)))\<lparr>mk_rates := rates2\<rparr>))))))))))))))"

definition cc_remove_liquidity :: "env \<Rightarrow> market \<Rightarrow> int \<Rightarrow> address \<Rightarrow> ((int \<times> int) \<times> market, counter_error) res" where
  "cc_remove_liquidity e m lp_tokens user =
     bindR (ensure (not_paused m) (Err TradingPaused)) (\<lambda>_.
     bindR (require_auth e user) (\<lambda>_.
     bindR (require_verified e (mk_kyc m) user) (\<lambda>_.
     bindR (ensure (\<not> lp_tokens \<le> 0) (Err InvalidAmount)) (\<lambda>_.
     let p = load_portfolio m in
     bindR (ok_or (get_lp_position p user) (Err LPPositionNotFound)) (\<lambda>pos.
     bindR (ensure (\<not> lq_lp_tokens_minted pos < lp_tokens) (Err InsufficientLPTokens)) (\<lambda>_.
     let current_xlm = get_liquidity p XLM; current_usdc = get_liquidity p (Custom USDCSIM);
         total_lp_tokens = get_total_lp_tokens p in
     bindR (ensure (\<not> total_lp_tokens \<le> 0) (Err LPPositionNotFound)) (\<lambda>_.
     let xlm_amount = as_i128 (u_sat_mul 128 (as_u128 lp_tokens) (as_u128 current_xlm) div as_u128 total_lp_tokens);
         usdc_amount = as_i128 (u_sat_mul 128 (as_u128 lp_tokens) (as_u128 current_usdc) div as_u128 total_lp_tokens) in
     bindR (ensure (\<not> (xlm_amount \<le> 0 \<or> usdc_amount \<le> 0)) (Err InvalidAmount)) (\<lambda>_.
     bindR (i_div (i_sat_mul (lq_xlm_deposited pos) 101) 100) (\<lambda>xlm_cap.
     bindR (i_div (i_sat_mul (lq_usdc_deposited pos) 101) 100) (\<lambda>usdc_cap.
     bindR (ensure (\<not> (xlm_amount > xlm_cap \<or> usdc_amount > usdc_cap)) (Err InsufficientBalance)) (\<lambda>_.
     let p1 = set_liquidity (set_liquidity p XLM (i_sat_sub current_xlm xlm_amount))
                (Custom USDCSIM) (i_sat_sub current_usdc usdc_amount) in
     bindR (mint p1 XLM user xlm_amount) (\<lambda>p2.
     bindR (mint p2 (Custom USDCSIM) user usdc_amount) (\<lambda>p3.
     let pos1 = pos\<lparr>lq_lp_tokens_minted := i_sat_sub (lq_lp_tokens_minted pos) lp_tokens,
                lq_xlm_deposited := i_sat_sub (lq_xlm_deposited pos) xlm_amount,
                lq_usdc_deposited := i_sat_sub (lq_usdc_deposited pos) usdc_amount\<rparr>;
         p4 = subtract_total_lp_tokens (set_lp_position p3 user pos1) lp_tokens in
     bindR (record_lp_op (mk_rates m) user (now e)) (\<lambda>rates1.
     Inr ((xlm_amount, usdc_amount), (drop_caches (store_portfolio m p4))\<lparr>mk_rates := rates1\<rparr>)))))))))))))))"

definition cc_get_lp_positions :: "market \<Rightarrow> address \<Rightarrow> lp_position list" where
  "cc_get_lp_positions m user = (case get_lp_position (load_portfolio m) user of Some position \<Rightarrow> [position] | None \<Rightarrow> [])"

section \<open>The faucet\<close>

definition get_faucet_config :: "market \<Rightarrow> symbol \<Rightarrow> (faucet_config, counter_error) res" where
  "get_faucet_config m asset = ok_or (mk_faucet m asset) (Err FaucetNotConfigured)"

definition set_faucet_config :: "env \<Rightarrow> market \<Rightarrow> address \<Rightarrow> symbol \<Rightarrow> int \<Rightarrow> nat \<Rightarrow> (market, counter_error) res" where
  "set_faucet_config e m caller asset drip_amount cooldown_secs =
     bindR (require_auth e caller) (\<lambda>_.
     bindR (require_admin (mk_admin m) caller) (\<lambda>_.
     bindR (ensure (\<not> drip_amount \<le> 0) (Err InvalidAmount)) (\<lambda>_.
     Inr (m\<lparr>mk_faucet := (mk_faucet m)(asset \<mapsto> \<lparr>fc_drip_amount = drip_amount, fc_cooldown_secs = cooldown_secs\<rparr>)\<rparr>))))"

definition claim_faucet :: "env \<Rightarrow> market \<Rightarrow> address \<Rightarrow> symbol \<Rightarrow> (int \<times> market, counter_error) res" where
  "claim_faucet e m user asset =
     bindR (require_auth e user) (\<lambda>_.
     bindR (get_faucet_config m asset) (\<lambda>config.
     let last_claim = or_else (mk_claims m (user, asset)) 0 in
     bindR (ensure (\<not> (last_claim > 0 \<and> now e - last_claim < fc_cooldown_secs config)) (Err FaucetRateLimited)) (\<lambda>_.
     let m1 = m\<lparr>mk_claims := (mk_claims m)((user, asset) \<mapsto> now e)\<rparr> in
     bindR (mint (load_portfolio m1) (asset_of asset) user (fc_drip_amount config)) (\<lambda>p.
     let m2 = store_portfolio m1 p in
     Inr (fc_drip_amount config,
       m2\<lparr>mk_events := mk_events m2 @ [FaucetClaimed user asset (fc_drip_amount config) (now e)]\<rparr>)))))"

section \<open>The data migration\<close>

definition get_stored_version :: "market \<Rightarrow> nat" where
  "get_stored_version m = or_else (mk_version m) 0"

definition cc_initialize :: "market \<Rightarrow> market" where
  "cc_initialize m = (if get_stored_version m = 0 then m\<lparr>mk_version := Some 1\<rparr> else m)"

definition migrate_from_v1_to_v2 :: "env \<Rightarrow> market \<Rightarrow> market" where
  "migrate_from_v1_to_v2 e m =
     (if get_stored_version m \<ge> 2 then m
      else let p = load_portfolio m;
               m1 = (if pt_migration_time p = None then store_portfolio m (p\<lparr>pt_migration_time := Some (now e)\<rparr>) else m)
           in m1\<lparr>mk_version := Some 2\<rparr>)"

end
