(* ===== verification/Batch.thy ===== *)
theory Batch
  imports Market
begin

text \<open>
  Batches of operations (\<open>counter/batch.rs\<close>) and their entry points in \<open>counter/src/lib.rs\<close>. The badge
  events of a batch are buffered in the temporary storage, outside the portfolio: a batch that rolls
  back restores the portfolio but not the buffer.
\<close>

section \<open>Operations and results\<close>

definition MAX_BATCH_SIZE :: nat where
  "MAX_BATCH_SIZE = 10"

datatype batch_operation =
    Swap symbol symbol int address
  | AddLiquidity int int address
  | RemoveLiquidity int int address
  | MintToken symbol address int

text \<open>The symbols of the errors; \<open>Debug_Name\<close> is the symbol printed from an error of the swap.\<close>

datatype batch_error = Named symbol | Debug_Name counter_error

datatype operation_result = Success int | OpError batch_error

record batch_result =
  br_results :: "operation_result list"
  br_executed :: nat
  br_failed :: nat

definition batch_result_new :: batch_result where
  "batch_result_new = \<lparr>br_results = [], br_executed = 0, br_failed = 0\<rparr>"

definition one_failed :: batch_result where
  "one_failed = batch_result_new\<lparr>br_failed := 1\<rparr>"

section \<open>Validation\<close>

definition is_valid_token :: "symbol \<Rightarrow> bool" where
  "is_valid_token token \<longleftrightarrow> token = ''XLM'' \<or> token = USDCSIM"

fun validate_operation :: "batch_operation \<Rightarrow> batch_error + unit" where
  "validate_operation (Swap from to_token amount user) =
     (if amount \<le> 0 then Inl (Named ''invalid_amount'')
      else if from = to_token then Inl (Named ''same_token_swap'')
      else if \<not> is_valid_token from \<or> \<not> is_valid_token to_token then Inl (Named ''invalid_token'')
      else Inr ())"
| "validate_operation (AddLiquidity xlm_amount usdc_amount user) =
     (if xlm_amount \<le> 0 \<or> usdc_amount \<le> 0 then Inl (Named ''invalid_liquidity'') else Inr ())"
| "validate_operation (RemoveLiquidity xlm_amount usdc_amount user) =
     (if xlm_amount < 0 \<or> usdc_amount < 0 then Inl (Named ''negative_liquidity'')
      else if xlm_amount = 0 \<and> usdc_amount = 0 then Inl (Named ''zero_liquidity'')
      else Inr ())"
| "validate_operation (MintToken token to_user amount) =
     (if amount < 0 then Inl (Named ''negative_mint'')
      else if \<not> is_valid_token token then Inl (Named ''invalid_token'')
      else Inr ())"

fun validate_all :: "batch_operation list \<Rightarrow> batch_error + unit" where
  "validate_all [] = Inr ()"
| "validate_all (bop # ops) = (case validate_operation bop of Inl x \<Rightarrow> Inl x | Inr _ \<Rightarrow> validate_all ops)"

definition validate_batch :: "batch_operation list \<Rightarrow> batch_error + unit" where
  "validate_batch ops =
     (if length ops > MAX_BATCH_SIZE then Inl (Named ''batch_size_exceeded'')
      else if ops = [] then Inl (Named ''empty_batch'')
      else validate_all ops)"

fun operation_user :: "batch_operation \<Rightarrow> address option" where
  "operation_user (Swap _ _ _ user) = Some user"
| "operation_user (AddLiquidity _ _ user) = Some user"
| "operation_user (RemoveLiquidity _ _ user) = Some user"
| "operation_user (MintToken _ _ _) = None"

fun authorize_batch_access :: "env \<Rightarrow> market \<Rightarrow> batch_operation list \<Rightarrow> (batch_error + unit, counter_error) res" where
  "authorize_batch_access e m [] = Inr (Inr ())"
| "authorize_batch_access e m (bop # ops) =
     (case operation_user bop of
        None \<Rightarrow> authorize_batch_access e m ops
      | Some user \<Rightarrow>
          bindR (require_auth e user) (\<lambda>_.
          if is_verified e (mk_kyc m) user then authorize_batch_access e m ops else Inr (Inl (Named ''kyc_req''))))"

section \<open>Execution\<close>

fun execute_single_operation :: "env \<Rightarrow> market \<Rightarrow> portfolio \<Rightarrow> batch_operation
    \<Rightarrow> ((batch_error + int) \<times> portfolio, counter_error) res" where
  "execute_single_operation e m p (Swap from to_token amount user) =
     (if balance_of p (asset_of from) user < amount then Inr (Inl (Named ''insufficient_funds''), p)
      else
        case perform_swap e m p from to_token amount user None of
          Inl (Err x) \<Rightarrow> Inr (Inl (Debug_Name x), p)
        | Inl Trap \<Rightarrow> Inl Trap
        | Inr (out_amount, p1) \<Rightarrow> bindR (record_trade e p1 user) (\<lambda>p2. Inr (Inr out_amount, p2)))"
| "execute_single_operation e m p (AddLiquidity xlm_amount usdc_amount user) =
     (if balance_of p XLM user < xlm_amount \<or> balance_of p (Custom USDCSIM) user < usdc_amount
      then Inr (Inl (Named ''insufficient_funds''), p)
      else bindR (i_add xlm_amount usdc_amount) (\<lambda>s.
           Inr (Inr s, record_lp_deposit (add_pool_liquidity p xlm_amount usdc_amount) user)))"
| "execute_single_operation e m p (RemoveLiquidity xlm_amount usdc_amount user) =
     bindR (mint p XLM user xlm_amount) (\<lambda>p1.
     bindR (mint p1 (Custom USDCSIM) user usdc_amount) (\<lambda>p2.
     bindR (i_add xlm_amount usdc_amount) (\<lambda>s. Inr (Inr s, p2))))"
| "execute_single_operation e m p (MintToken token to_user amount) =
     bindR (mint p (asset_of token) to_user amount) (\<lambda>p1. Inr (Inr amount, p1))"

definition count_success :: "batch_result \<Rightarrow> int \<Rightarrow> batch_result" where
  "count_success b x = b\<lparr>br_results := br_results b @ [Success x], br_executed := br_executed b + 1\<rparr>"

definition count_failure :: "batch_result \<Rightarrow> batch_error \<Rightarrow> batch_result" where
  "count_failure b x = b\<lparr>br_results := br_results b @ [OpError x], br_failed := br_failed b + 1\<rparr>"

text \<open>The loop of the atomic batch; the first failure ends it.\<close>

fun atomic_loop :: "env \<Rightarrow> market \<Rightarrow> batch_operation list \<Rightarrow> portfolio \<Rightarrow> batch_result
    \<Rightarrow> ((batch_error + batch_result) \<times> portfolio, counter_error) res" where
  "atomic_loop e m [] p b = Inr (Inr b, p)"
| "atomic_loop e m (bop # ops) p b =
     bindR (execute_single_operation e m p bop) (\<lambda>(r, p1).
       case r of Inr x \<Rightarrow> atomic_loop e m ops p1 (count_success b x)
       | Inl x \<Rightarrow> Inr (Inl (Named ''batch_failed''), p1))"

text \<open>The snapshot restored after a failure; the buffer of badge events is not part of it.\<close>

definition restore :: "portfolio \<Rightarrow> portfolio \<Rightarrow> portfolio" where
  "restore snapshot p = snapshot\<lparr>pt_badge_buffer := pt_badge_buffer p\<rparr>"

definition execute_batch_atomic :: "env \<Rightarrow> market \<Rightarrow> portfolio \<Rightarrow> batch_operation list
    \<Rightarrow> ((batch_error + batch_result) \<times> portfolio, counter_error) res" where
  "execute_batch_atomic e m p ops =
     (case validate_batch ops of
        Inl x \<Rightarrow> Inr (Inl x, p)
      | Inr _ \<Rightarrow>
          bindR (authorize_batch_access e m ops) (\<lambda>r.
          case r of
            Inl x \<Rightarrow> Inr (Inl x, p)
          | Inr _ \<Rightarrow>
              bindR (atomic_loop e m ops p batch_result_new) (\<lambda>(r, p1).
              Inr (r, case r of Inl _ \<Rightarrow> restore p p1 | Inr _ \<Rightarrow> p1))))"

fun best_effort_loop :: "env \<Rightarrow> market \<Rightarrow> batch_operation list \<Rightarrow> portfolio \<Rightarrow> batch_result
    \<Rightarrow> (batch_result \<times> portfolio, counter_error) res" where
  "best_effort_loop e m [] p b = Inr (b, p)"
| "best_effort_loop e m (bop # ops) p b =
     bindR (execute_single_operation e m p bop) (\<lambda>(r, p1).
       best_effort_loop e m ops p1 (case r of Inr x \<Rightarrow> count_success b x | Inl x \<Rightarrow> count_failure b x))"

definition execute_batch_best_effort :: "env \<Rightarrow> market \<Rightarrow> portfolio \<Rightarrow> batch_operation list
    \<Rightarrow> ((batch_error + batch_result) \<times> portfolio, counter_error) res" where
  "execute_batch_best_effort e m p ops =
     (case validate_batch ops of
        Inl x \<Rightarrow> Inr (Inl x, p)
      | Inr _ \<Rightarrow>
          bindR (authorize_batch_access e m ops) (\<lambda>r.
          case r of
            Inl x \<Rightarrow> Inr (Inl x, p)
          | Inr _ \<Rightarrow> bindR (best_effort_loop e m ops p batch_result_new) (\<lambda>(b, p1). Inr (Inr b, p1))))"

section \<open>Entry points\<close>

definition swap_count :: "batch_operation list \<Rightarrow> nat" where
  "swap_count ops = length (filter (\<lambda>bop. case bop of Swap _ _ _ _ \<Rightarrow> True | _ \<Rightarrow> False) ops)"

fun record_swaps :: "nat \<Rightarrow> rate_store \<Rightarrow> address \<Rightarrow> nat \<Rightarrow> (rate_store, counter_error) res" where
  "record_swaps 0 s user t = Inr s"
| "record_swaps (Suc n) s user t = bindR (record_swap s user t) (\<lambda>s1. record_swaps n s1 user t)"

text \<open>
  The parts of the body both entry points repeat. Only the first operation names the caller whose
  verification and rate limit are checked.
\<close>

definition batch_verified :: "env \<Rightarrow> market \<Rightarrow> address option \<Rightarrow> (bool, counter_error) res" where
  "batch_verified e m caller =
     (case caller of None \<Rightarrow> Inr True
      | Some user \<Rightarrow> bindR (require_auth e user) (\<lambda>_. Inr (is_verified e (mk_kyc m) user)))"

definition batch_limit :: "env \<Rightarrow> market \<Rightarrow> address option \<Rightarrow> batch_operation list \<Rightarrow> (rate_verdict \<times> rate_store, counter_error) res" where
  "batch_limit e m caller ops =
     (case caller of
        Some user \<Rightarrow> if swap_count ops > 0 then check_swap_limit e (mk_rates m) user (get_user_tier (load_portfolio m) user)
                     else Inr (Inr (), mk_rates m)
      | None \<Rightarrow> Inr (Inr (), mk_rates m))"

definition batch_usage :: "env \<Rightarrow> address option \<Rightarrow> batch_operation list \<Rightarrow> batch_result \<Rightarrow> rate_store \<Rightarrow> (rate_store, counter_error) res" where
  "batch_usage e caller ops res rates =
     (case caller of
        Some user \<Rightarrow> if swap_count ops > 0 then record_swaps (br_executed res) rates user (now e) else Inr rates
      | None \<Rightarrow> Inr rates)"

text \<open>
  A batch that fails leaves the stored portfolio alone: what is written back is the portfolio as
  loaded, with the badge events buffered meanwhile.
\<close>

definition batch_finish :: "env \<Rightarrow> market \<Rightarrow> batch_operation list \<Rightarrow> rate_store \<Rightarrow> batch_error + batch_result \<Rightarrow> portfolio
    \<Rightarrow> (batch_result \<times> market, counter_error) res" where
  "batch_finish e m ops rates r p1 =
     (case r of
        Inl _ \<Rightarrow> Inr (one_failed,
          (if pt_badge_buffer p1 = pt_badge_buffer (load_portfolio m) then m else store_portfolio m p1)\<lparr>mk_rates := rates\<rparr>)
      | Inr res \<Rightarrow>
          bindR (batch_usage e (operation_user (hd ops)) ops res rates) (\<lambda>rates2.
          Inr (res, (drop_caches (store_portfolio m (flush_badge_events p1)))\<lparr>mk_rates := rates2\<rparr>)))"

definition batch_call ::
    "(env \<Rightarrow> market \<Rightarrow> portfolio \<Rightarrow> batch_operation list \<Rightarrow> ((batch_error + batch_result) \<times> portfolio, counter_error) res)
     \<Rightarrow> env \<Rightarrow> market \<Rightarrow> batch_operation list \<Rightarrow> (batch_result \<times> market, counter_error) res" where
  "batch_call exec e m ops =
     (if \<not> not_paused m \<or> ops = [] then Inr (one_failed, m)
      else
        let caller = operation_user (hd ops) in
        bindR (batch_verified e m caller) (\<lambda>verified.
        if \<not> verified then Inr (one_failed, m)
        else
          bindR (batch_limit e m caller ops) (\<lambda>(verdict, rates1).
          if verdict \<noteq> Inr () then Inr (one_failed, m\<lparr>mk_rates := rates1\<rparr>)
          else bindR (exec e m (load_portfolio m) ops) (\<lambda>(r, p1). batch_finish e m ops rates1 r p1))))"

definition cc_execute_batch_atomic :: "env \<Rightarrow> market \<Rightarrow> batch_operation list \<Rightarrow> (batch_result \<times> market, counter_error) res" where
  "cc_execute_batch_atomic e m ops = batch_call execute_batch_atomic e m ops"

definition cc_execute_batch_best_effort :: "env \<Rightarrow> market \<Rightarrow> batch_operation list \<Rightarrow> (batch_result \<times> market, counter_error) res" where
  "cc_execute_batch_best_effort e m ops = batch_call execute_batch_best_effort e m ops"

definition cc_execute_batch :: "env \<Rightarrow> market \<Rightarrow> batch_operation list \<Rightarrow> (batch_result \<times> market, counter_error) res" where
  "cc_execute_batch e m ops = cc_execute_batch_atomic e m ops"

end
