(* ===== verification/Portfolio_Board.thy ===== *)
theory Portfolio_Board
  imports Portfolio Pool_Registry_Math "HOL-Library.Multiset"
begin

text \<open>
  The routines of the portfolio that compute with loops: the bubble sort of the leaderboard is a
  stable sort, the leaderboard stays ranked and free of duplicates, and the Newton iteration of the
  Sharpe ratio computes the floor of the square root.
\<close>

section \<open>The bubble sort\<close>

lemma bubble_pass_parts:
  "n \<le> length xs \<Longrightarrow> \<exists>zs m. bubble_pass n (a # xs) = zs @ m # drop n xs
     \<and> mset (zs @ [m]) = add_mset a (mset (take n xs)) \<and> (\<forall>z \<in> set zs. snd m \<le> snd z)"
proof (induction n arbitrary: a xs)
  case 0
  then show ?case by (intro exI [of _ "[]"] exI [of _ a]) (cases xs; simp)
next
  case (Suc n)
  then obtain b ys where xs: "xs = b # ys" and n: "n \<le> length ys" by (cases xs) auto
  let ?hi = "if snd a < snd b then b else a" and ?lo = "if snd a < snd b then a else b"
  obtain zs m where parts: "bubble_pass n (?lo # ys) = zs @ m # drop n ys"
    "mset (zs @ [m]) = add_mset ?lo (mset (take n ys))" "\<forall>z \<in> set zs. snd m \<le> snd z"
    using Suc.IH [OF n] by blast
  have "m \<in># add_mset ?lo (mset (take n ys))" unfolding parts(2) [symmetric] by simp
  have "?lo \<in> set (zs @ [m])" by (metis parts(2) set_mset_mset union_single_eq_member add_mset_add_single union_commute)
  with parts(3) have "snd m \<le> snd ?lo" by auto
  then have "snd m \<le> snd ?hi" by auto
  with parts show ?case
    by (intro exI [of _ "?hi # zs"] exI [of _ m]) (auto simp: xs split: if_splits)
qed

lemma bubble_pass_append:
  assumes "length as = Suc n"
  shows "\<exists>zs m. bubble_pass n (as @ bs) = zs @ m # bs \<and> mset (zs @ [m]) = mset as \<and> (\<forall>z \<in> set zs. snd m \<le> snd z)"
proof -
  from assms obtain a as' where a: "as = a # as'" and n: "length as' = n" by (cases as) auto
  then show ?thesis using bubble_pass_parts [of n "as' @ bs" a] by simp
qed

lemma bubble_pass_filter: "filter (\<lambda>x. snd x = k) (bubble_pass n xs) = filter (\<lambda>x. snd x = k) xs"
  by (induction n xs rule: bubble_pass.induct) auto

lemma bubble_rounds:
  assumes "i \<le> length xs"
  defines "ys \<equiv> foldl (\<lambda>ys i. bubble_pass (length xs - 1 - i) ys) xs [0..<i]"
  shows "\<exists>as bs. ys = as @ bs \<and> length bs = i \<and> mset ys = mset xs \<and> sorted_wrt (\<lambda>x y. snd y \<le> snd x) bs
    \<and> (\<forall>a \<in> set as. \<forall>b \<in> set bs. snd b \<le> snd a) \<and> (\<forall>k. filter (\<lambda>x. snd x = k) ys = filter (\<lambda>x. snd x = k) xs)"
  using assms(1) unfolding ys_def
proof (induction i)
  case 0
  show ?case by (intro exI [of _ xs] exI [of _ "[]"]) simp
next
  case (Suc i)
  let ?ys = "foldl (\<lambda>ys i. bubble_pass (length xs - 1 - i) ys) xs [0..<i]"
  from Suc obtain as bs where y: "?ys = as @ bs" "length bs = i" "mset ?ys = mset xs"
    "sorted_wrt (\<lambda>x y. snd y \<le> snd x) bs" "\<forall>a \<in> set as. \<forall>b \<in> set bs. snd b \<le> snd a"
    "\<forall>k. filter (\<lambda>x. snd x = k) ?ys = filter (\<lambda>x. snd x = k) xs"
    by auto
  have "length as = Suc (length xs - 1 - i)"
    using mset_eq_length [OF y(3)] y(1,2) Suc.prems by simp
  then obtain zs m where z: "bubble_pass (length xs - 1 - i) (as @ bs) = zs @ m # bs"
    "mset (zs @ [m]) = mset as" "\<forall>z \<in> set zs. snd m \<le> snd z"
    using bubble_pass_append by blast
  have as: "set zs \<subseteq> set as" "m \<in> set as" using mset_eq_setD [OF z(2)] by auto
  have mset: "mset (zs @ m # bs) = mset xs"
    using z(2) y(1,3) by (metis add_mset_add_single append_Cons append_Nil append_assoc mset_append)
  have filters: "filter (\<lambda>x. snd x = k) (zs @ m # bs) = filter (\<lambda>x. snd x = k) xs" for k
    using y(6) bubble_pass_filter [of k "length xs - 1 - i" "as @ bs"] unfolding z(1) y(1) by simp
  have step: "foldl (\<lambda>ys i. bubble_pass (length xs - 1 - i) ys) xs [0..<Suc i] = zs @ m # bs"
    using y(1) z(1) by simp
  have "sorted_wrt (\<lambda>x y. snd y \<le> snd x) (m # bs)" using y(4,5) as by auto
  moreover have "\<forall>a \<in> set zs. \<forall>b \<in> set (m # bs). snd b \<le> snd a" using y(5) z(3) as by auto
  moreover have "length (m # bs) = Suc i" using y(2) by simp
  ultimately show ?case unfolding step using mset filters by blast
qed

lemma sort_top_traders_facts:
  shows sort_top_traders_mset: "mset (sort_top_traders xs) = mset xs"
    and sort_top_traders_sorted: "sorted_wrt (\<lambda>x y. snd y \<le> snd x) (sort_top_traders xs)"
    and sort_top_traders_filter: "filter (\<lambda>x. snd x = k) (sort_top_traders xs) = filter (\<lambda>x. snd x = k) xs"
proof -
  obtain as bs where ab: "sort_top_traders xs = as @ bs" "length bs = length xs" "mset (sort_top_traders xs) = mset xs"
    "sorted_wrt (\<lambda>x y. snd y \<le> snd x) bs"
    "\<forall>k. filter (\<lambda>x. snd x = k) (sort_top_traders xs) = filter (\<lambda>x. snd x = k) xs"
    using bubble_rounds [OF order_refl, of xs] unfolding sort_top_traders_def by blast
  then have "as = []" using mset_eq_length [OF ab(3)] by simp
  with ab show "mset (sort_top_traders xs) = mset xs" "sorted_wrt (\<lambda>x y. snd y \<le> snd x) (sort_top_traders xs)"
    "filter (\<lambda>x. snd x = k) (sort_top_traders xs) = filter (\<lambda>x. snd x = k) xs" by simp_all
qed

text \<open>
  The bubble sort of the leaderboard is the stable sort by descending profit and loss: traders
  with equal values keep their order.
\<close>

theorem leaderboard_sort_stable: "sort_top_traders xs = sort_key (\<lambda>x. - snd x) xs"
proof (rule properties_for_sort_key [symmetric])
  show "mset (sort_top_traders xs) = mset xs" by (rule sort_top_traders_mset)
  show "sorted (map (\<lambda>x. - snd x) (sort_top_traders xs))" using sort_top_traders_sorted by (simp add: sorted_wrt_map)
  show "filter (\<lambda>x. - snd k = - snd x) (sort_top_traders xs) = filter (\<lambda>x. - snd k = - snd x) xs" for k
    using sort_top_traders_filter [of "snd k" xs] by (simp add: eq_commute [of "snd k"])
qed

section \<open>The ranking\<close>

text \<open>
  \<open>board_ok\<close>: ranked, without duplicates, at most a hundred traders, and no trader shown below the
  current profit and loss.
\<close>

definition pnl_of :: "portfolio \<Rightarrow> address \<Rightarrow> int" where
  "pnl_of p user = or_else (pt_pnl p user) 0"

definition board_ok :: "portfolio \<Rightarrow> bool" where
  "board_ok p \<longleftrightarrow> sorted_wrt (\<lambda>x y. snd y \<le> snd x) (pt_top_traders p) \<and> distinct (map fst (pt_top_traders p))
     \<and> length (pt_top_traders p) \<le> 100 \<and> (\<forall>x \<in> set (pt_top_traders p). pnl_of p (fst x) \<le> snd x)"

lemma find_trader_Some: "find_trader u xs i = Some k \<Longrightarrow> i \<le> k \<and> k - i < length xs \<and> fst (xs ! (k - i)) = u"
proof (induction u xs i rule: find_trader.induct)
  case (2 user x xs i)
  show ?case
  proof (cases "fst x = user")
    case False
    with 2 have "Suc i \<le> k \<and> k - Suc i < length xs \<and> fst (xs ! (k - Suc i)) = user" by simp
    moreover from this have "k - i = Suc (k - Suc i)" by linarith
    ultimately show ?thesis by simp
  qed (use 2 in simp)
qed simp

lemma find_trader_None: "find_trader u xs i = None \<longleftrightarrow> u \<notin> fst ` set xs"
  by (induction u xs i rule: find_trader.induct) auto

lemma update_entry:
  fixes tt :: "(address \<times> int) list"
  assumes d: "distinct (map fst tt)" and i: "i < length tt" and u: "fst (tt ! i) = u \<or> u \<notin> fst ` set tt"
    and low: "\<forall>x \<in> set tt. fst x \<noteq> u \<longrightarrow> f (fst x) \<le> snd x"
  shows "distinct (map fst (tt[i := (u, f u)])) \<and> (\<forall>x \<in> set (tt[i := (u, f u)]). f (fst x) \<le> snd x)"
proof
  have m: "map fst (tt[i := (u, f u)]) = (map fst tt)[i := u]" by (simp add: map_update)
  show "distinct (map fst (tt[i := (u, f u)]))"
    unfolding m using u
  proof
    assume "fst (tt ! i) = u"
    then have "(map fst tt)[i := u] = map fst tt" using i by (simp add: list_update_same_conv)
    with d show "distinct ((map fst tt)[i := u])" by simp
  next
    assume "u \<notin> fst ` set tt"
    then show "distinct ((map fst tt)[i := u])" using d i by (intro distinct_list_update) auto
  qed
  show "\<forall>x \<in> set (tt[i := (u, f u)]). f (fst x) \<le> snd x"
  proof
    fix x assume "x \<in> set (tt[i := (u, f u)])"
    then obtain j where j: "j < length tt" "x = tt[i := (u, f u)] ! j" by (auto simp: in_set_conv_nth)
    show "f (fst x) \<le> snd x"
    proof (cases "j = i")
      case True
      with i j show ?thesis by simp
    next
      case False
      with j have x: "x = tt ! j" by simp
      have "fst x \<noteq> u"
      proof
        assume "fst x = u"
        with x j have "u \<in> fst ` set tt" by auto
        with u have "fst (tt ! i) = fst (tt ! j)" using \<open>fst x = u\<close> x by simp
        with d i j False show False by (auto simp: distinct_conv_nth)
      qed
      with low x j show ?thesis by simp
    qed
  qed
qed

lemma update_top_traders_ok:
  assumes "distinct (map fst (pt_top_traders p))" "length (pt_top_traders p) \<le> 100"
    and low: "\<forall>x \<in> set (pt_top_traders p). fst x \<noteq> u \<longrightarrow> pnl_of p (fst x) \<le> snd x"
  shows "board_ok (update_top_traders p u)"
proof -
  define tt where "tt = pt_top_traders p"
  define tt1 where "tt1 = (case find_trader u tt 0 of
      Some idx \<Rightarrow> tt[idx := (u, pnl_of p u)]
    | None \<Rightarrow> if length tt < 100 then tt @ [(u, pnl_of p u)]
        else if 99 < length tt \<and> pnl_of p u > snd (tt ! 99) then tt[99 := (u, pnl_of p u)] else tt)"
  have tt: "distinct (map fst tt)" "length tt \<le> 100" "\<forall>x \<in> set tt. fst x \<noteq> u \<longrightarrow> pnl_of p (fst x) \<le> snd x"
    using assms by (simp_all add: tt_def)
  have one: "distinct (map fst tt1) \<and> length tt1 \<le> 100 \<and> (\<forall>x \<in> set tt1. pnl_of p (fst x) \<le> snd x)"
  proof (cases "find_trader u tt 0")
    case None
    then have u: "u \<notin> fst ` set tt" by (simp add: find_trader_None)
    then have "\<forall>x \<in> set tt. fst x \<noteq> u" by auto
    with tt(3) have all: "\<forall>x \<in> set tt. pnl_of p (fst x) \<le> snd x" by blast
    show ?thesis
    proof (cases "length tt < 100")
      case True
      with None u all tt show ?thesis by (auto simp: tt1_def)
    next
      case False
      with tt(2) have i: "99 < length tt" by simp
      show ?thesis
        using update_entry [OF tt(1) i _ tt(3)] None u all tt False i by (auto simp: tt1_def)
    qed
  next
    case (Some k)
    from find_trader_Some [OF this] have k: "k < length tt" "fst (tt ! k) = u" by simp_all
    with update_entry [OF tt(1) k(1) _ tt(3)] Some tt(2) show ?thesis by (simp add: tt1_def)
  qed
  have up: "update_top_traders p u = p\<lparr>pt_top_traders := sort_top_traders tt1\<rparr>"
    unfolding update_top_traders_def Let_def tt1_def tt_def pnl_of_def by (rule refl)
  have "mset (map fst (sort_top_traders tt1)) = mset (map fst tt1)"
    using sort_top_traders_mset [of tt1] by simp
  then have "distinct (map fst (sort_top_traders tt1))" using one mset_eq_imp_distinct_iff by blast
  moreover have "set (sort_top_traders tt1) = set tt1" "length (sort_top_traders tt1) = length tt1"
    using sort_top_traders_mset [of tt1] mset_eq_setD mset_eq_length by blast+
  ultimately show ?thesis using one sort_top_traders_sorted [of tt1] by (simp add: up board_ok_def pnl_of_def)
qed

section \<open>The square root of the Sharpe ratio\<close>

lemma sqrt_i128_loop_floor:
  assumes "0 < n" "0 < x" "n < Suc x ^ 2"
  shows "sqrt_i128_loop n x ^ 2 \<le> n \<and> n < Suc (sqrt_i128_loop n x) ^ 2"
  using assms
proof (induction n x rule: sqrt_i128_loop.induct)
  case (1 n x)
  let ?y = "(x + n div x) div 2"
  have y: "?y = (n div x + x) div 2" by (simp add: add.commute)
  have above: "n < Suc ?y ^ 2" unfolding y by (rule newton_above) (rule 1(3))
  show ?case
  proof (cases "x \<le> ?y")
    case True
    then have "x ^ 2 \<le> n" unfolding y by (rule newton_below)
    with True 1(4) show ?thesis by (subst (1 2) sqrt_i128_loop.simps) (simp add: Let_def)
  next
    case False
    have "0 < ?y" using above 1(2) by (cases "?y") auto
    with 1(1) [OF refl False 1(2) _ above] False show ?thesis by (subst (1 2) sqrt_i128_loop.simps) (simp add: Let_def)
  qed
qed

text \<open>
  The integer square root behind the Sharpe ratio ends for every argument with the floor of the
  root; a negative argument counts as zero.
\<close>

theorem sharpe_root_floor:
  "0 \<le> sqrt_i128 n \<and> sqrt_i128 n ^ 2 \<le> max n 0 \<and> max n 0 < (sqrt_i128 n + 1) ^ 2"
proof -
  consider "n \<le> 0" | "n = 1" | "2 \<le> n" by linarith
  then show ?thesis
  proof cases
    case 3
    define k where "k = nat n"
    define r where "r = sqrt_i128_loop k (k div 2)"
    have k: "2 \<le> k" "n = int k" using 3 by (simp_all add: k_def)
    have "k < Suc (k div 2) ^ 2"
    proof -
      have "k < 2 * Suc (k div 2)" by presburger
      also have "\<dots> \<le> Suc (k div 2) * Suc (k div 2)" using k(1) by (intro mult_le_mono1) linarith
      finally show ?thesis by (simp only: power2_eq_square)
    qed
    with k(1) have "r ^ 2 \<le> k \<and> k < Suc r ^ 2" unfolding r_def by (intro sqrt_i128_loop_floor) simp_all
    then have "int (r ^ 2) \<le> int k \<and> int k < int (Suc r ^ 2)" by (simp only: of_nat_le_iff of_nat_less_iff)
    moreover have "sqrt_i128 n = int r" using 3 by (simp add: sqrt_i128_def r_def k_def)
    ultimately show ?thesis using k(2) by (simp add: add.commute)
  qed (simp_all add: sqrt_i128_def)
qed

end
