(* ===== verification/Market_Inv.thy ===== *)
theory Market_Inv
  imports Batch Portfolio_Board
begin

text \<open>
  What every call of the trading entry points keeps: the leaderboard is ranked and never shows a
  trader below the current profit and loss, every badge held was announced once, the oracle adapter
  stays without configuration, and, as long as nobody claims from the faucet, the query caches hold
  what the portfolio would answer.
\<close>

section \<open>Portfolios\<close>

definition badge_count :: "portfolio \<Rightarrow> address \<Rightarrow> badge \<Rightarrow> nat" where
  "badge_count p user b =
     length (filter (\<lambda>(x, y, _). x = user \<and> y = b) (concat (pt_badge_events p) @ or_else (pt_badge_buffer p) []))"

definition badges_ok :: "portfolio \<Rightarrow> bool" where
  "badges_ok p \<longleftrightarrow> (\<forall>user b. badge_count p user b = (if has_badge p user b then 1 else 0))"

definition pnl_ok :: "portfolio \<Rightarrow> bool" where
  "pnl_ok p \<longleftrightarrow> (\<forall>user. i128_ok (pnl_of p user))"

definition portfolio_ok :: "portfolio \<Rightarrow> bool" where
  "portfolio_ok p \<longleftrightarrow> board_ok p \<and> badges_ok p \<and> pnl_ok p"

text \<open>The fields the invariant and the caches read.\<close>

definition core :: "portfolio \<Rightarrow> _" where
  "core p = (pt_pnl p, pt_top_traders p, pt_badges p, pt_badge_buffer p, pt_badge_events p)"

lemma portfolio_ok_core: "core q = core p \<Longrightarrow> portfolio_ok p \<Longrightarrow> portfolio_ok q"
  by (simp add: core_def portfolio_ok_def board_ok_def badges_ok_def pnl_ok_def badge_count_def has_badge_def pnl_of_def)

lemma portfolio_new_ok: "portfolio_ok portfolio_new"
  by (simp add: portfolio_ok_def board_ok_def badges_ok_def pnl_ok_def badge_count_def has_badge_def pnl_of_def portfolio_new_def
      or_else_def i128_ok_def I128_MIN_def I128_MAX_def)

lemma core_simps [simp]:
  "core (count_balance_update p) = core p" "core (p\<lparr>pt_balances := b\<rparr>) = core p" "core (add_pool_liquidity p x y) = core p"
  "core (set_lp_position p u pos) = core p" "core (add_total_lp_tokens p x) = core p" "core (subtract_total_lp_tokens p x) = core p"
  "core (record_lp_deposit p u) = core p" "core (set_liquidity p a x) = core p" "core (add_lp_fees p x) = core p"
  "core (collect_fee p x) = core p" "core (inc_failed_order p) = core p" "core (update_stats_on_trade p u x) = core p"
  "core (p\<lparr>pt_migration_time := t\<rparr>) = core p" "core (move_reserves p c x y z w) = core p"
  by (simp_all add: core_def count_balance_update_def add_pool_liquidity_def set_lp_position_def add_total_lp_tokens_def
      subtract_total_lp_tokens_def record_lp_deposit_def set_liquidity_def add_lp_fees_def collect_fee_def inc_failed_order_def
      update_stats_on_trade_def Let_def move_reserves_def split: asset.splits)

lemma credit_core: "credit p t u x = Inr p' \<Longrightarrow> core p' = core p"
  by (auto simp: credit_def bindR_eq_Inr ensure_eq_Inr i_add_eq_Inr split: if_splits)

lemma record_daily_core: "record_daily_portfolio_value p u t = Inr p' \<Longrightarrow> core p' = core p"
  by (auto simp: record_daily_portfolio_value_def bindR_eq_Inr core_def)

lemma debit_ok:
  assumes "debit p t u x = Inr p'" and ok: "portfolio_ok p"
  shows "portfolio_ok p'"
proof -
  from assms(1) have x: "0 < x" and core: "core p' = (let c = core p in ((pt_pnl p)(u \<mapsto> i_sat_sub (pnl_of p u) x), snd c))"
    by (auto simp: debit_def bindR_eq_Inr ensure_eq_Inr i_sub_eq_Inr core_def count_balance_update_def pnl_of_def Let_def)
  have range: "i128_ok (pnl_of p u)" using ok by (simp add: portfolio_ok_def pnl_ok_def)
  have sub: "i_sat_sub (pnl_of p u) x \<le> pnl_of p u" "i128_ok (i_sat_sub (pnl_of p u) x)"
    using range x by (auto simp: i_sat_sub_def i_clamp_def i128_ok_def I128_MIN_def I128_MAX_def)
  have pnl: "pnl_of p' y = (if y = u then i_sat_sub (pnl_of p u) x else pnl_of p y)" for y
    using core by (simp add: core_def pnl_of_def or_else_def)
  have same: "pt_top_traders p' = pt_top_traders p" "pt_badges p' = pt_badges p" "pt_badge_buffer p' = pt_badge_buffer p"
    "pt_badge_events p' = pt_badge_events p" using core by (simp_all add: core_def)
  have "board_ok p'" using ok sub(1) by (fastforce simp: portfolio_ok_def board_ok_def same pnl)
  with ok sub(2) same show ?thesis
    by (simp add: portfolio_ok_def badges_ok_def pnl_ok_def badge_count_def has_badge_def pnl)
qed

lemma mint_ok:
  assumes "mint p t u x = Inr p'" and ok: "portfolio_ok p"
  shows "portfolio_ok p'"
proof -
  define q where "q = p\<lparr>pt_balances := (pt_balances p)((u, t) \<mapsto> balance_of p t u + x), pt_pnl := (pt_pnl p)(u \<mapsto> pnl_of p u + x)\<rparr>"
  from assms(1) have x: "0 \<le> x" and r: "i128_ok (pnl_of p u + x)" and p': "p' = count_balance_update (update_top_traders q u)"
    by (auto simp: mint_def bindR_eq_Inr ensure_eq_Inr i_add_eq_Inr q_def pnl_of_def Let_def)
  have pnl: "pnl_of q y = (if y = u then pnl_of p u + x else pnl_of p y)" for y
    by (simp add: q_def pnl_of_def or_else_def)
  have up: "pt_pnl (update_top_traders q u) = pt_pnl q" "pt_badges (update_top_traders q u) = pt_badges p"
    "pt_badge_buffer (update_top_traders q u) = pt_badge_buffer p" "pt_badge_events (update_top_traders q u) = pt_badge_events p"
    by (simp_all add: update_top_traders_def Let_def q_def)
  have "board_ok (update_top_traders q u)"
    by (rule update_top_traders_ok) (use ok in \<open>simp_all add: portfolio_ok_def board_ok_def q_def pnl_of_def or_else_def\<close>)
  moreover have "pnl_ok (update_top_traders q u)"
    using ok r pnl by (simp add: portfolio_ok_def pnl_ok_def pnl_of_def up)
  moreover have "badges_ok (update_top_traders q u)"
    using ok by (simp add: portfolio_ok_def badges_ok_def badge_count_def has_badge_def up)
  ultimately have "portfolio_ok (update_top_traders q u)" by (simp add: portfolio_ok_def)
  then show ?thesis unfolding p' by (rule portfolio_ok_core [rotated]) simp
qed

lemma award_badge_ok:
  assumes ok: "portfolio_ok p"
  shows "portfolio_ok (snd (award_badge e p u b))"
proof (cases "has_badge p u b")
  case True
  with ok show ?thesis by (simp add: award_badge_def)
next
  case False
  define q where "q = snd (award_badge e p u b)"
  have q: "pt_badges q = (pt_badges p)((u, b) \<mapsto> True)" "pt_badge_buffer q = Some (or_else (pt_badge_buffer p) [] @ [(u, b, int (now e))])"
    "pt_badge_events q = pt_badge_events p" "pt_pnl q = pt_pnl p" "pt_top_traders q = pt_top_traders p"
    using False by (simp_all add: q_def award_badge_def badge_awarded_def)
  have has: "has_badge q x y \<longleftrightarrow> has_badge p x y \<or> x = u \<and> y = b" for x y
    by (auto simp: has_badge_def q or_else_def)
  have "badge_count q x y = badge_count p x y + (if x = u \<and> y = b then 1 else 0)" for x y
    by (auto simp: badge_count_def q or_else_def split: option.splits)
  with ok has False have "badges_ok q" by (auto simp: portfolio_ok_def badges_ok_def)
  moreover have "board_ok q \<and> pnl_ok q" using ok by (simp add: portfolio_ok_def board_ok_def pnl_ok_def pnl_of_def q)
  ultimately show ?thesis by (simp add: portfolio_ok_def q_def)
qed

lemma award_if_ok: "portfolio_ok p \<Longrightarrow> portfolio_ok (award_if e u c b p)"
  by (simp add: award_if_def award_badge_ok)

lemma check_and_award_badges_ok: "check_and_award_badges e p u = Inr p' \<Longrightarrow> portfolio_ok p \<Longrightarrow> portfolio_ok p'"
  by (auto simp: check_and_award_badges_def Let_def bindR_eq_Inr intro!: award_if_ok)

lemma record_trade_ok:
  assumes "record_trade e p u = Inr p'" and ok: "portfolio_ok p"
  shows "portfolio_ok p'"
proof -
  define q where "q = p\<lparr>pt_trades := (pt_trades p)(u \<mapsto> or_else (pt_trades p u) 0 + 1),
    pt_metrics := (pt_metrics p)\<lparr>mt_trades_executed := u_sat_add 32 (mt_trades_executed (pt_metrics p)) 1\<rparr>\<rparr>"
  from assms(1) have p': "p' = (if or_else (pt_trades p u) 0 = 0 then snd (award_badge e q u FirstTrade) else q)"
    by (auto simp: record_trade_def Let_def bindR_eq_Inr u_add_eq_Inr q_def)
  have "core q = core p" by (simp add: core_def q_def)
  from portfolio_ok_core [OF this ok] award_badge_ok show ?thesis unfolding p' by simp
qed

lemma flush_ok: "portfolio_ok p \<Longrightarrow> portfolio_ok (flush_badge_events p)"
proof -
  assume ok: "portfolio_ok p"
  have "badge_count (flush_badge_events p) x y = badge_count p x y" for x y
    by (auto simp: badge_count_def flush_badge_events_def or_else_def split: option.splits)
  moreover have "pt_badges (flush_badge_events p) = pt_badges p" "pt_pnl (flush_badge_events p) = pt_pnl p"
    "pt_top_traders (flush_badge_events p) = pt_top_traders p"
    by (simp_all add: flush_badge_events_def split: option.splits)
  ultimately show ?thesis using ok
    by (simp add: portfolio_ok_def board_ok_def badges_ok_def pnl_ok_def pnl_of_def has_badge_def)
qed

section \<open>Swaps without an oracle\<close>

lemma get_price_unconfigured: "or_config s = Map.empty \<Longrightarrow> get_price e s pair = Inl (Err OracleNotConfigured)"
  by (simp add: get_price_def get_config_def ok_or_def bindR_def)

lemma perform_swap_unconfigured:
  assumes "or_config (mk_oracle m) = Map.empty"
  shows "perform_swap e m p from to_token amount user mo \<noteq> Inr r"
proof -
  have "calculate_minimum_output e m from to_token x = Inl (Err InvalidPrice)" for x
    using get_price_unconfigured [OF assms] by (simp add: calculate_minimum_output_def get_validated_price_def bindR_def)
  then show ?thesis by (auto simp: perform_swap_def bindR_eq_Inr Let_def)
qed

section \<open>Batches\<close>

lemma mint_buffer: "mint p t u x = Inr p' \<Longrightarrow> pt_badge_buffer p' = pt_badge_buffer p"
  by (auto simp: mint_def bindR_eq_Inr ensure_eq_Inr i_add_eq_Inr count_balance_update_def update_top_traders_def Let_def)

lemma execute_single_operation_ok:
  assumes un: "or_config (mk_oracle m) = Map.empty" and ok: "portfolio_ok p"
    and call: "execute_single_operation e m p bop = Inr (r, p')"
  shows "portfolio_ok p' \<and> pt_badge_buffer p' = pt_badge_buffer p"
proof (cases bop)
  case (Swap src dst amount user)
  with call have "p' = p"
    using perform_swap_unconfigured [OF un] by (auto split: if_splits sum.splits fault.splits)
  with ok show ?thesis by simp
next
  case (AddLiquidity x y user)
  have c: "core (record_lp_deposit (add_pool_liquidity p x y) user) = core p" by simp
  from call AddLiquidity have "p' = p \<or> p' = record_lp_deposit (add_pool_liquidity p x y) user"
    by (auto simp: bindR_eq_Inr split: if_splits)
  with c have "core p' = core p" by auto
  with portfolio_ok_core [OF this ok] show ?thesis by (simp add: core_def)
next
  case (RemoveLiquidity x y user)
  with call obtain p1 where "mint p XLM user x = Inr p1" "mint p1 (Custom USDCSIM) user y = Inr p'"
    by (auto simp: bindR_eq_Inr)
  with ok show ?thesis using mint_ok mint_buffer by metis
next
  case (MintToken token u x)
  with call ok show ?thesis by (auto simp: bindR_eq_Inr dest: mint_ok mint_buffer)
qed

lemma atomic_loop_ok:
  assumes un: "or_config (mk_oracle m) = Map.empty" and "portfolio_ok p" and "atomic_loop e m ops p b = Inr (r, p')"
  shows "portfolio_ok p' \<and> pt_badge_buffer p' = pt_badge_buffer p"
  using assms(2,3)
proof (induction ops arbitrary: p b)
  case (Cons bop ops)
  then obtain r1 p1 where 1: "execute_single_operation e m p bop = Inr (r1, p1)"
    and 2: "(case r1 of Inr x \<Rightarrow> atomic_loop e m ops p1 (count_success b x) | Inl x \<Rightarrow> Inr (Inl (Named ''batch_failed''), p1)) = Inr (r, p')"
    by (auto simp: bindR_eq_Inr)
  note step = execute_single_operation_ok [OF un Cons.prems(1) 1]
  with 2 Cons.IH show ?case by (cases r1) auto
qed simp

lemma best_effort_loop_ok:
  assumes un: "or_config (mk_oracle m) = Map.empty" and "portfolio_ok p" and "best_effort_loop e m ops p b = Inr (r, p')"
  shows "portfolio_ok p' \<and> pt_badge_buffer p' = pt_badge_buffer p"
  using assms(2,3)
proof (induction ops arbitrary: p b)
  case (Cons bop ops)
  then obtain r1 p1 b1 where 1: "execute_single_operation e m p bop = Inr (r1, p1)" and 2: "best_effort_loop e m ops p1 b1 = Inr (r, p')"
    by (auto simp: bindR_eq_Inr)
  from execute_single_operation_ok [OF un Cons.prems(1) 1] Cons.IH [OF _ 2] show ?case by simp
qed simp

text \<open>An executor that keeps the invariant and, on failure, the portfolio.\<close>

definition executor_ok :: "(env \<Rightarrow> market \<Rightarrow> portfolio \<Rightarrow> batch_operation list \<Rightarrow> ((batch_error + batch_result) \<times> portfolio, counter_error) res) \<Rightarrow> bool" where
  "executor_ok exec \<longleftrightarrow> (\<forall>e m p ops r p'. or_config (mk_oracle m) = Map.empty \<longrightarrow> portfolio_ok p \<longrightarrow> exec e m p ops = Inr (r, p')
     \<longrightarrow> portfolio_ok p' \<and> pt_badge_buffer p' = pt_badge_buffer p)"

lemma executors_ok: "executor_ok execute_batch_atomic" "executor_ok execute_batch_best_effort"
proof -
  have "portfolio_ok p' \<and> pt_badge_buffer p' = pt_badge_buffer p"
    if un: "or_config (mk_oracle m) = Map.empty" and ok: "portfolio_ok p" and call: "execute_batch_atomic e m p ops = Inr (r, p')"
    for e m p ops r p'
  proof -
    consider "p' = p" | p1 r1 where "atomic_loop e m ops p batch_result_new = Inr (r1, p1)" "p' = p1 \<or> p' = restore p p1"
      using call
      by (cases "validate_batch ops"; cases "authorize_batch_access e m ops"; cases "projr (authorize_batch_access e m ops)"; cases r)
        (auto simp: execute_batch_atomic_def bindR_eq_Inr split: sum.splits)
    then show ?thesis
    proof cases
      case 2
      from atomic_loop_ok [OF un ok 2(1)] have p1: "portfolio_ok p1" "pt_badge_buffer p1 = pt_badge_buffer p" by simp_all
      then have "core (restore p p1) = core p" by (simp add: restore_def core_def)
      with portfolio_ok_core [OF this ok] p1 2(2) show ?thesis by (auto simp: restore_def)
    qed (simp add: ok)
  qed
  then show "executor_ok execute_batch_atomic" unfolding executor_ok_def by blast
  have "portfolio_ok p' \<and> pt_badge_buffer p' = pt_badge_buffer p"
    if un: "or_config (mk_oracle m) = Map.empty" and ok: "portfolio_ok p" and call: "execute_batch_best_effort e m p ops = Inr (r, p')"
    for e m p ops r p'
  proof -
    consider "p' = p" | b where "best_effort_loop e m ops p batch_result_new = Inr (b, p')"
      using call
      by (cases "validate_batch ops"; cases "authorize_batch_access e m ops"; cases "projr (authorize_batch_access e m ops)")
        (auto simp: execute_batch_best_effort_def bindR_eq_Inr)
    then show ?thesis using best_effort_loop_ok [OF un ok] by cases (auto simp: ok)
  qed
  then show "executor_ok execute_batch_best_effort" unfolding executor_ok_def by blast
qed

text \<open>
  Runs of the trading entry points. Every other entry point of the contract only touches the stores of
  its own module, so a run may change the pause flag, the admin, the verifications, the emergency
  switches, the discounts, the risk settings and the referrals between two calls in any way.
\<close>

section \<open>Calls\<close>

datatype market_call =
    Mint_Call symbol address int
  | Price_Call pair nat
  | Tolerance_Call pair nat
  | Reserve_Call symbol int
  | Slippage_Call nat
  | Trade_Call address
  | Swap_Call symbol symbol int address
  | Safe_Swap_Call symbol symbol int address nat
  | Place_Call symbol symbol side int nat "nat option" address
  | Take_Call symbol symbol side int "nat option" address
  | Cancel_Call nat address
  | Deposit_Call int int address
  | Withdraw_Call int address
  | Batch_Call "batch_operation list"
  | Best_Effort_Call "batch_operation list"
  | Portfolio_Query address
  | Traders_Query nat
  | Ttl_Call address nat
  | Clear_Call address
  | Swap_Status_Query address
  | Lp_Status_Query address
  | Cleanup_Call address
  | Faucet_Config_Call address symbol int nat
  | Faucet_Call address symbol
  | Initialize_Call
  | Migrate_Call

definition only_state :: "('a \<times> market, counter_error) res \<Rightarrow> (market, counter_error) res" where
  "only_state r = bindR r (\<lambda>x. Inr (snd x))"

fun market_exec :: "env \<Rightarrow> market \<Rightarrow> market_call \<Rightarrow> (market, counter_error) res" where
  "market_exec e m (Mint_Call token u x) = cc_mint m token u x"
| "market_exec e m (Price_Call pair x) = Inr (cc_set_price e m pair x)"
| "market_exec e m (Tolerance_Call pair x) = Inr (cc_set_price_update_tolerance_bps m pair x)"
| "market_exec e m (Reserve_Call token x) = Inr (cc_set_pool_liquidity m token x)"
| "market_exec e m (Slippage_Call x) = Inr (cc_set_max_slippage_bps m x)"
| "market_exec e m (Trade_Call u) = cc_record_trade e m u"
| "market_exec e m (Swap_Call a b x u) = only_state (cc_swap e m a b x u)"
| "market_exec e m (Safe_Swap_Call a b x u t) = only_state (cc_safe_swap e m a b x u t)"
| "market_exec e m (Place_Call a b sd x p t u) = only_state (cc_place_limit_order e m a b sd x p t u)"
| "market_exec e m (Take_Call a b sd x p u) = only_state (cc_take_order e m a b sd x p u)"
| "market_exec e m (Cancel_Call k u) = cc_cancel_order e m k u"
| "market_exec e m (Deposit_Call x y u) = only_state (cc_add_liquidity e m x y u)"
| "market_exec e m (Withdraw_Call x u) = only_state (cc_remove_liquidity e m x u)"
| "market_exec e m (Batch_Call ops) = only_state (cc_execute_batch e m ops)"
| "market_exec e m (Best_Effort_Call ops) = only_state (cc_execute_batch_best_effort e m ops)"
| "market_exec e m (Portfolio_Query u) = Inr (snd (cc_get_portfolio e m u))"
| "market_exec e m (Traders_Query n) = Inr (snd (cc_get_top_traders e m n))"
| "market_exec e m (Ttl_Call u x) = set_cache_ttl e m u x"
| "market_exec e m (Clear_Call u) = clear_cache e m u"
| "market_exec e m (Swap_Status_Query u) = only_state (cc_get_swap_rate_limit e m u)"
| "market_exec e m (Lp_Status_Query u) = only_state (cc_get_lp_rate_limit e m u)"
| "market_exec e m (Cleanup_Call u) = Inr (snd (cc_cleanup_rate_limits e m u))"
| "market_exec e m (Faucet_Config_Call u a x t) = set_faucet_config e m u a x t"
| "market_exec e m (Faucet_Call u a) = only_state (claim_faucet e m u a)"
| "market_exec e m Initialize_Call = Inr (cc_initialize m)"
| "market_exec e m Migrate_Call = Inr (migrate_from_v1_to_v2 e m)"

definition is_claim :: "market_call \<Rightarrow> bool" where
  "is_claim c \<longleftrightarrow> (case c of Faucet_Call _ _ \<Rightarrow> True | _ \<Rightarrow> False)"

definition elsewhere :: "market \<Rightarrow> market \<Rightarrow> bool" where
  "elsewhere m m' \<longleftrightarrow> m' = m\<lparr>mk_paused := mk_paused m', mk_admin := mk_admin m', mk_kyc := mk_kyc m',
     mk_emergency := mk_emergency m', mk_discounts := mk_discounts m', mk_risk := mk_risk m', mk_referrals := mk_referrals m'\<rparr>"

text \<open>The flag says whether the run may claim from the faucet.\<close>

inductive market_step :: "bool \<Rightarrow> market \<Rightarrow> market \<Rightarrow> bool" for claims :: bool where
  market_call: "market_exec e m c = Inr m' \<Longrightarrow> claims \<or> \<not> is_claim c \<Longrightarrow> market_step claims m m'"
| market_other: "elsewhere m m' \<Longrightarrow> market_step claims m m'"

inductive_cases market_stepE: "market_step claims m m'"

abbreviation market_reachable :: "bool \<Rightarrow> market \<Rightarrow> bool" where
  "market_reachable claims \<equiv> reachable (\<lambda>m. m = market0) (market_step claims)"

section \<open>The invariant of the portfolio\<close>

definition market_ok :: "market \<Rightarrow> bool" where
  "market_ok m \<longleftrightarrow> portfolio_ok (load_portfolio m) \<and> or_config (mk_oracle m) = Map.empty"

lemma load_simps [simp]:
  "load_portfolio (store_portfolio m p) = p" "mk_oracle (store_portfolio m p) = mk_oracle m"
  "load_portfolio (drop_caches m) = load_portfolio m" "mk_oracle (drop_caches m) = mk_oracle m"
  "mk_orders (drop_caches m) = mk_orders m" "mk_orders (store_portfolio m p) = mk_orders m"
  by (simp_all add: load_portfolio_def store_portfolio_def drop_caches_def or_else_def)

lemma load_frame [simp]:
  "load_portfolio (m\<lparr>mk_oracle := a\<rparr>) = load_portfolio m" "load_portfolio (m\<lparr>mk_rates := b\<rparr>) = load_portfolio m"
  "load_portfolio (m\<lparr>mk_referrals := c\<rparr>) = load_portfolio m" "load_portfolio (m\<lparr>mk_orders := d\<rparr>) = load_portfolio m"
  "load_portfolio (m\<lparr>mk_pcache := f\<rparr>) = load_portfolio m" "load_portfolio (m\<lparr>mk_tcache := g\<rparr>) = load_portfolio m"
  "load_portfolio (m\<lparr>mk_ttl := h\<rparr>) = load_portfolio m" "load_portfolio (m\<lparr>mk_hits := i\<rparr>) = load_portfolio m"
  "load_portfolio (m\<lparr>mk_misses := i\<rparr>) = load_portfolio m" "load_portfolio (m\<lparr>mk_faucet := j\<rparr>) = load_portfolio m"
  "load_portfolio (m\<lparr>mk_claims := k\<rparr>) = load_portfolio m" "load_portfolio (m\<lparr>mk_events := l\<rparr>) = load_portfolio m"
  "load_portfolio (m\<lparr>mk_version := n\<rparr>) = load_portfolio m" "load_portfolio (m\<lparr>mk_max_slippage := q\<rparr>) = load_portfolio m"
  by (simp_all add: load_portfolio_def)

lemma record_cache_access_simps [simp]:
  "load_portfolio (record_cache_access m q h) = load_portfolio m" "mk_oracle (record_cache_access m q h) = mk_oracle m"
  "mk_pcache (record_cache_access m q h) = mk_pcache m" "mk_tcache (record_cache_access m q h) = mk_tcache m"
  by (simp_all add: record_cache_access_def Let_def load_portfolio_def)

lemma set_stored_price_config [simp]: "or_config (set_stored_price e s pair x) = or_config s"
  "or_config (set_price_update_tolerance_bps s pair y) = or_config s"
  by (simp_all add: set_stored_price_def set_price_update_tolerance_bps_def Let_def)

lemma settle_limit_fill_core: "settle_limit_fill a b sd u f p = Inr p' \<Longrightarrow> core p' = core p"
  by (cases sd) (auto simp: settle_limit_fill_def bindR_eq_Inr dest!: credit_core)

lemma settle_fills_core: "foldR (settle_limit_fill a b sd u) fs p = Inr p' \<Longrightarrow> core p' = core p"
  by (induction fs arbitrary: p) (auto simp: bindR_eq_Inr dest: settle_limit_fill_core)

lemma market_okD: "market_ok m \<Longrightarrow> portfolio_ok (load_portfolio m)" "market_ok m \<Longrightarrow> or_config (mk_oracle m) = Map.empty"
  by (simp_all add: market_ok_def)

text \<open>A call that stores a portfolio and drops the caches.\<close>

lemma stored_ok:
  assumes "market_ok m" and "portfolio_ok p" and "load_portfolio m' = p" and "mk_oracle m' = mk_oracle m"
  shows "market_ok m'"
  using assms by (simp add: market_ok_def)

lemma cc_swap_fails: "market_ok m \<Longrightarrow> cc_swap e m a b x u \<noteq> Inr r"
  using perform_swap_unconfigured [OF market_okD(2)] by (auto simp: cc_swap_def bindR_eq_Inr Let_def)

lemma safe_swap_effect:
  assumes ok: "market_ok m" and call: "cc_safe_swap e m a b x u t = Inr (out, m')"
  shows "out = 0 \<and> (m' = m \<or> m' = drop_caches (store_portfolio m (inc_failed_order (load_portfolio m)))
    \<or> (\<exists>p. record_trade e (load_portfolio m) u = Inr p \<and> m' = drop_caches (store_portfolio m (flush_badge_events p))))"
proof -
  have "perform_swap e m (load_portfolio m) a b x u None \<noteq> Inr r" for r
    by (rule perform_swap_unconfigured [OF market_okD(2) [OF ok]])
  then obtain f where f: "perform_swap e m (load_portfolio m) a b x u None = Inl f"
    by (cases "perform_swap e m (load_portfolio m) a b x u None") auto
  show ?thesis
    using call by (cases f) (auto simp: cc_safe_swap_def f Let_def bindR_eq_Inr split: if_splits)
qed

lemma cc_safe_swap_ok:
  assumes ok: "market_ok m" and call: "cc_safe_swap e m a b x u t = Inr (out, m')"
  shows "market_ok m'"
proof -
  have "portfolio_ok (inc_failed_order (load_portfolio m))"
    by (rule portfolio_ok_core [OF _ market_okD(1) [OF ok]]) simp
  with safe_swap_effect [OF ok call] ok market_okD(1) [OF ok] show ?thesis
    by (auto intro: stored_ok [OF ok] dest!: record_trade_ok intro!: flush_ok)
qed

lemma cc_place_ok:
  assumes ok: "market_ok m" and call: "cc_place_limit_order e m a b sd x p t u = Inr (k, m')"
  shows "market_ok m'"
proof -
  from call obtain asset y p1 orders1 where "debit (load_portfolio m) asset u y = Inr p1"
    and m': "m' = (drop_caches (store_portfolio m p1))\<lparr>mk_orders := orders1\<rparr>"
    by (auto simp: cc_place_limit_order_def bindR_eq_Inr Let_def)
  from debit_ok [OF this(1) market_okD(1) [OF ok]] show ?thesis by (intro stored_ok [OF ok]) (simp_all add: m')
qed

lemma cc_take_ok:
  assumes ok: "market_ok m" and call: "cc_take_order e m a b sd x p u = Inr (fs, m')"
  shows "market_ok m'"
proof -
  from call obtain p1 orders1 where p1: "foldR (settle_limit_fill a b sd u) fs (load_portfolio m) = Inr p1"
    and m': "m' = (drop_caches (store_portfolio m p1))\<lparr>mk_orders := orders1\<rparr>"
    by (auto simp: cc_take_order_def bindR_eq_Inr)
  from portfolio_ok_core [OF settle_fills_core [OF p1] market_okD(1) [OF ok]] show ?thesis
    by (intro stored_ok [OF ok]) (simp_all add: m')
qed

lemma cc_cancel_ok:
  assumes ok: "market_ok m" and call: "cc_cancel_order e m k u = Inr m'"
  shows "market_ok m'"
proof -
  from call obtain asset y p1 orders1 where p1: "credit (load_portfolio m) asset u y = Inr p1"
    and m': "m' = (drop_caches (store_portfolio m p1))\<lparr>mk_orders := orders1\<rparr>"
    by (auto simp: cc_cancel_order_def bindR_eq_Inr)
  from portfolio_ok_core [OF credit_core [OF p1] market_okD(1) [OF ok]] show ?thesis
    by (intro stored_ok [OF ok]) (simp_all add: m')
qed

lemma cc_add_liquidity_parts:
  assumes "cc_add_liquidity e m x y u = Inr (n, m')"
  obtains p1 p2 p4 p5 rates2 where "debit (load_portfolio m) XLM u x = Inr p1" "debit p1 (Custom USDCSIM) u y = Inr p2"
    "core p4 = core p2" "check_and_award_badges e p4 u = Inr p5"
    "m' = (drop_caches (store_portfolio m (flush_badge_events p5)))\<lparr>mk_rates := rates2\<rparr>"
proof -
  from assms obtain p1 p2 pos p5 rates2 where p: "debit (load_portfolio m) XLM u x = Inr p1" "debit p1 (Custom USDCSIM) u y = Inr p2"
    "check_and_award_badges e (record_lp_deposit (add_total_lp_tokens (set_lp_position (add_pool_liquidity p2 x y) u pos) n) u) u = Inr p5"
    "m' = (drop_caches (store_portfolio m (flush_badge_events p5)))\<lparr>mk_rates := rates2\<rparr>"
    unfolding cc_add_liquidity_def Let_def by (auto simp: bindR_eq_Inr)
  show thesis by (rule that [OF p(1,2) _ p(3,4)]) simp
qed

lemma cc_add_liquidity_ok:
  assumes ok: "market_ok m" and call: "cc_add_liquidity e m x y u = Inr (n, m')"
  shows "market_ok m'"
proof -
  from call obtain p1 p2 p4 p5 rates2 where p: "debit (load_portfolio m) XLM u x = Inr p1" "debit p1 (Custom USDCSIM) u y = Inr p2"
    "core p4 = core p2" "check_and_award_badges e p4 u = Inr p5"
    and m': "m' = (drop_caches (store_portfolio m (flush_badge_events p5)))\<lparr>mk_rates := rates2\<rparr>"
    by (rule cc_add_liquidity_parts)
  have "portfolio_ok p4"
    by (rule portfolio_ok_core [OF p(3) debit_ok [OF p(2) debit_ok [OF p(1) market_okD(1) [OF ok]]]])
  from flush_ok [OF check_and_award_badges_ok [OF p(4) this]] show ?thesis by (intro stored_ok [OF ok]) (simp_all add: m')
qed

lemma cc_remove_liquidity_parts:
  assumes "cc_remove_liquidity e m x u = Inr (n, m')"
  obtains a b c d p2 p3 pos rates1 where
    "mint (set_liquidity (set_liquidity (load_portfolio m) XLM a) (Custom USDCSIM) b) XLM u c = Inr p2"
    "mint p2 (Custom USDCSIM) u d = Inr p3"
    "m' = (drop_caches (store_portfolio m (subtract_total_lp_tokens (set_lp_position p3 u pos) x)))\<lparr>mk_rates := rates1\<rparr>"
  using assms unfolding cc_remove_liquidity_def Let_def by (auto simp: bindR_eq_Inr)

lemma cc_remove_liquidity_ok:
  assumes ok: "market_ok m" and call: "cc_remove_liquidity e m x u = Inr (n, m')"
  shows "market_ok m'"
proof -
  from call obtain a b c d p2 p3 pos rates1 where
    p: "mint (set_liquidity (set_liquidity (load_portfolio m) XLM a) (Custom USDCSIM) b) XLM u c = Inr p2"
      "mint p2 (Custom USDCSIM) u d = Inr p3"
    and m': "m' = (drop_caches (store_portfolio m (subtract_total_lp_tokens (set_lp_position p3 u pos) x)))\<lparr>mk_rates := rates1\<rparr>"
    by (rule cc_remove_liquidity_parts)
  have "portfolio_ok (set_liquidity (set_liquidity (load_portfolio m) XLM a) (Custom USDCSIM) b)"
    by (rule portfolio_ok_core [OF _ market_okD(1) [OF ok]]) simp
  note p3 = mint_ok [OF p(2) mint_ok [OF p(1) this]]
  have "portfolio_ok (subtract_total_lp_tokens (set_lp_position p3 u pos) x)" by (rule portfolio_ok_core [OF _ p3]) simp
  then show ?thesis by (intro stored_ok [OF ok]) (simp_all add: m')
qed

lemma claim_faucet_ok:
  assumes ok: "market_ok m" and call: "claim_faucet e m u a = Inr (n, m')"
  shows "market_ok m'"
proof -
  from call obtain p x where p: "mint (load_portfolio m) (asset_of a) u x = Inr p" and m': "load_portfolio m' = p" "mk_oracle m' = mk_oracle m"
    by (auto simp: claim_faucet_def bindR_eq_Inr Let_def)
  from stored_ok [OF ok mint_ok [OF p market_okD(1) [OF ok]] m'] show ?thesis .
qed

lemma batch_call_effect:
  assumes "batch_call exec e m ops = Inr (r, m')"
  obtains (refused) rates where "r = one_failed" "m' = m \<or> m' = m\<lparr>mk_rates := rates\<rparr>"
  | (failed) rates x p1 where "exec e m (load_portfolio m) ops = Inr (Inl x, p1)" "r = one_failed"
      "m' = (if pt_badge_buffer p1 = pt_badge_buffer (load_portfolio m) then m else store_portfolio m p1)\<lparr>mk_rates := rates\<rparr>"
  | (executed) rates p1 where "exec e m (load_portfolio m) ops = Inr (Inr r, p1)"
      "m' = (drop_caches (store_portfolio m (flush_badge_events p1)))\<lparr>mk_rates := rates\<rparr>"
proof -
  consider (now) rates where "r = one_failed" "m' = m \<or> m' = m\<lparr>mk_rates := rates\<rparr>"
    | (later) rates r0 p1 where "exec e m (load_portfolio m) ops = Inr (r0, p1)" "batch_finish e m ops rates r0 p1 = Inr (r, m')"
    using assms by (auto simp: batch_call_def Let_def bindR_eq_Inr split: if_splits)
  then show thesis
  proof cases
    case now
    then show thesis by (rule refused)
  next
    case later
    show thesis
    proof (cases r0)
      case (Inl x)
      with later show thesis by (intro failed [of x p1 rates]) (simp_all add: batch_finish_def)
    next
      case (Inr res)
      with later(2) obtain rates2 where "r = res" "m' = (drop_caches (store_portfolio m (flush_badge_events p1)))\<lparr>mk_rates := rates2\<rparr>"
        by (auto simp: batch_finish_def bindR_eq_Inr)
      with later(1) Inr show thesis by (intro executed [of p1 rates2]) simp_all
    qed
  qed
qed

lemma batch_call_ok:
  assumes exec: "executor_ok exec" and ok: "market_ok m" and call: "batch_call exec e m ops = Inr (r, m')"
  shows "market_ok m'"
  using call
proof (cases rule: batch_call_effect)
  case (refused rates)
  with ok show ?thesis by (auto simp: market_ok_def)
next
  case (failed rates x p1)
  with exec ok have "pt_badge_buffer p1 = pt_badge_buffer (load_portfolio m)" unfolding executor_ok_def market_ok_def by blast
  with failed ok show ?thesis by (simp add: market_ok_def)
next
  case (executed rates p1)
  with exec ok have "portfolio_ok p1" unfolding executor_ok_def market_ok_def by blast
  from flush_ok [OF this] executed show ?thesis by (intro stored_ok [OF ok]) simp_all
qed

lemma only_state_eq_Inr: "only_state r = Inr m' \<longleftrightarrow> (\<exists>x. r = Inr (x, m'))"
  by (auto simp: only_state_def bindR_eq_Inr)

text \<open>Calls that leave the portfolio alone.\<close>

lemma kept_ok: "market_ok m \<Longrightarrow> load_portfolio m' = load_portfolio m \<Longrightarrow> or_config (mk_oracle m') = or_config (mk_oracle m) \<Longrightarrow> market_ok m'"
  by (simp add: market_ok_def)

lemma query_frames:
  "load_portfolio (snd (cc_get_portfolio e m u)) = load_portfolio m" "mk_oracle (snd (cc_get_portfolio e m u)) = mk_oracle m"
  "load_portfolio (snd (cc_get_top_traders e m n)) = load_portfolio m" "mk_oracle (snd (cc_get_top_traders e m n)) = mk_oracle m"
  "load_portfolio (snd (cc_cleanup_rate_limits e m u)) = load_portfolio m" "mk_oracle (snd (cc_cleanup_rate_limits e m u)) = mk_oracle m"
  by (simp_all add: cc_get_portfolio_def miss_portfolio_def cc_get_top_traders_def miss_top_traders_def cc_cleanup_rate_limits_def
      Let_def split: option.splits prod.splits)

lemma migrate_frames:
  "core (load_portfolio (migrate_from_v1_to_v2 e m)) = core (load_portfolio m)" "mk_oracle (migrate_from_v1_to_v2 e m) = mk_oracle m"
  by (simp_all add: migrate_from_v1_to_v2_def Let_def)

lemma market_exec_ok:
  assumes ok: "market_ok m" and call: "market_exec e m c = Inr m'"
  shows "market_ok m'"
proof (cases c)
  case (Mint_Call token u x)
  with call obtain p where "mint (load_portfolio m) (asset_of token) u x = Inr p" "m' = drop_caches (store_portfolio m p)"
    by (auto simp: cc_mint_def bindR_eq_Inr)
  with mint_ok [OF _ market_okD(1) [OF ok]] show ?thesis by (intro stored_ok [OF ok]) simp_all
next
  case (Trade_Call u)
  with call obtain p where "record_trade e (load_portfolio m) u = Inr p" "m' = drop_caches (store_portfolio m p)"
    by (auto simp: cc_record_trade_def bindR_eq_Inr)
  with record_trade_ok [OF _ market_okD(1) [OF ok]] show ?thesis by (intro stored_ok [OF ok]) simp_all
next
  case (Reserve_Call token x)
  have "portfolio_ok (set_liquidity (load_portfolio m) (asset_of token) x)"
    by (rule portfolio_ok_core [OF _ market_okD(1) [OF ok]]) simp
  from stored_ok [OF ok this] Reserve_Call call show ?thesis by (auto simp: cc_set_pool_liquidity_def)
next
  case (Safe_Swap_Call a b x u t)
  with call show ?thesis by (auto simp: only_state_eq_Inr dest: cc_safe_swap_ok [OF ok])
next
  case (Swap_Call a b x u)
  with call cc_swap_fails [OF ok] show ?thesis by (auto simp: only_state_eq_Inr)
next
  case (Place_Call a b sd x p t u)
  with call show ?thesis by (auto simp: only_state_eq_Inr dest: cc_place_ok [OF ok])
next
  case (Take_Call a b sd x p u)
  with call show ?thesis by (auto simp: only_state_eq_Inr dest: cc_take_ok [OF ok])
next
  case (Cancel_Call k u)
  with call show ?thesis by (auto dest: cc_cancel_ok [OF ok])
next
  case (Deposit_Call x y u)
  with call show ?thesis by (auto simp: only_state_eq_Inr dest: cc_add_liquidity_ok [OF ok])
next
  case (Withdraw_Call x u)
  with call show ?thesis by (auto simp: only_state_eq_Inr dest: cc_remove_liquidity_ok [OF ok])
next
  case (Batch_Call ops)
  with call show ?thesis
    by (auto simp: only_state_eq_Inr cc_execute_batch_def cc_execute_batch_atomic_def dest: batch_call_ok [OF executors_ok(1) ok])
next
  case (Best_Effort_Call ops)
  with call show ?thesis
    by (auto simp: only_state_eq_Inr cc_execute_batch_best_effort_def dest: batch_call_ok [OF executors_ok(2) ok])
next
  case (Faucet_Call u a)
  with call show ?thesis by (auto simp: only_state_eq_Inr dest: claim_faucet_ok [OF ok])
next
  case Migrate_Call
  with call have m': "m' = migrate_from_v1_to_v2 e m" by simp
  from portfolio_ok_core [OF migrate_frames(1) market_okD(1) [OF ok]] ok show ?thesis
    by (simp add: m' market_ok_def migrate_frames)
qed (use call in \<open>auto simp: only_state_eq_Inr cc_set_price_def cc_set_price_update_tolerance_bps_def cc_set_max_slippage_bps_def
    set_cache_ttl_def clear_cache_def cc_get_swap_rate_limit_def cc_get_lp_rate_limit_def set_faucet_config_def cc_initialize_def
    bindR_eq_Inr query_frames intro: kept_ok [OF ok]\<close>)

lemma elsewhere_frames:
  assumes "elsewhere m m'"
  shows "load_portfolio m' = load_portfolio m" "mk_oracle m' = mk_oracle m" "mk_pcache m' = mk_pcache m" "mk_tcache m' = mk_tcache m"
  by (subst assms [unfolded elsewhere_def], simp add: load_portfolio_def)+

interpretation market_machine: machine_invariant "\<lambda>m. m = market0" "market_step claims" market_ok
proof
  show "market_ok m" if "m = market0" for m
    using that by (simp add: market_ok_def market0_def load_portfolio_def or_else_def portfolio_new_ok oracle_store0_def)
  show "market_ok m'" if ok: "market_ok m" and st: "market_step claims m m'" for m m'
    using st
  proof (rule market_stepE)
    show "market_ok m'" if "market_exec e m c = Inr m'" for e c using market_exec_ok [OF ok that] .
    show "market_ok m'" if "elsewhere m m'" using kept_ok [OF ok] elsewhere_frames [OF that] by simp
  qed
qed

section \<open>The invariant of the caches\<close>

definition answers :: "portfolio \<Rightarrow> _" where
  "answers p = (pt_trades p, pt_pnl p, pt_top_traders p)"

definition cache_ok :: "market \<Rightarrow> bool" where
  "cache_ok m \<longleftrightarrow>
     (\<forall>u entry. mk_pcache m u = Some entry \<longrightarrow> (cp_trades entry, cp_pnl entry) = get_portfolio (load_portfolio m) u)
     \<and> (\<forall>entry. mk_tcache m = Some entry \<longrightarrow> ct_traders entry = get_top_traders (load_portfolio m) 100)"

lemma cache_ok_empty: "mk_pcache m = Map.empty \<Longrightarrow> mk_tcache m = None \<Longrightarrow> cache_ok m"
  by (simp add: cache_ok_def)

lemma cache_ok_answers:
  "cache_ok m \<Longrightarrow> answers (load_portfolio m') = answers (load_portfolio m) \<Longrightarrow> mk_pcache m' = mk_pcache m \<Longrightarrow> mk_tcache m' = mk_tcache m
     \<Longrightarrow> cache_ok m'"
  by (simp add: cache_ok_def answers_def get_portfolio_def get_top_traders_def)

lemma drop_caches_fields [simp]: "mk_pcache (drop_caches m) = Map.empty" "mk_tcache (drop_caches m) = None"
  "mk_pcache (store_portfolio m p) = mk_pcache m" "mk_tcache (store_portfolio m p) = mk_tcache m"
  by (simp_all add: drop_caches_def store_portfolio_def)

lemma answers_simps [simp]: "answers (set_liquidity p a x) = answers p" "answers (p\<lparr>pt_migration_time := t\<rparr>) = answers p"
  by (simp_all add: answers_def set_liquidity_def split: asset.splits)

lemma get_portfolio_query:
  assumes "cache_ok m"
  shows "fst (cc_get_portfolio e m u) = get_portfolio (load_portfolio m) u \<and> cache_ok (snd (cc_get_portfolio e m u))"
proof -
  have miss: "fst (miss_portfolio e m u) = get_portfolio (load_portfolio m) u \<and> cache_ok (snd (miss_portfolio e m u))"
    using assms by (auto simp: miss_portfolio_def Let_def cache_ok_def)
  have hit: "cache_ok (record_cache_access m q h)" for q h by (rule cache_ok_answers [OF assms]) simp_all
  show ?thesis
  proof (cases "mk_pcache m u")
    case (Some entry)
    then have "(cp_trades entry, cp_pnl entry) = get_portfolio (load_portfolio m) u" using assms by (simp add: cache_ok_def)
    with miss hit Some show ?thesis by (simp add: cc_get_portfolio_def)
  qed (simp add: miss cc_get_portfolio_def)
qed

lemma apply_trader_limit_take: "apply_trader_limit (get_top_traders p 100) n = get_top_traders p n"
  by (simp add: apply_trader_limit_def get_top_traders_def Let_def min_def)

lemma get_top_traders_query:
  assumes "cache_ok m"
  shows "fst (cc_get_top_traders e m n) = get_top_traders (load_portfolio m) n \<and> cache_ok (snd (cc_get_top_traders e m n))"
proof -
  have miss: "fst (miss_top_traders e m n) = get_top_traders (load_portfolio m) n \<and> cache_ok (snd (miss_top_traders e m n))"
    using assms by (auto simp: miss_top_traders_def Let_def cache_ok_def apply_trader_limit_take)
  have hit: "cache_ok (record_cache_access m q h)" for q h by (rule cache_ok_answers [OF assms]) simp_all
  show ?thesis
  proof (cases "mk_tcache m")
    case (Some entry)
    then have "ct_traders entry = get_top_traders (load_portfolio m) 100" using assms by (simp add: cache_ok_def)
    with miss hit Some show ?thesis by (simp add: cc_get_top_traders_def apply_trader_limit_take)
  qed (simp add: miss cc_get_top_traders_def)
qed

lemma batch_call_cache:
  assumes exec: "executor_ok exec" and ok: "market_ok m" "cache_ok m" and call: "batch_call exec e m ops = Inr (r, m')"
  shows "cache_ok m'"
  using call
proof (cases rule: batch_call_effect)
  case (refused rates)
  with cache_ok_answers [OF ok(2)] ok(2) show ?thesis by auto
next
  case (failed rates x p1)
  with exec ok(1) have "pt_badge_buffer p1 = pt_badge_buffer (load_portfolio m)" unfolding executor_ok_def market_ok_def by blast
  with failed cache_ok_answers [OF ok(2)] show ?thesis by simp
next
  case (executed rates p1)
  then show ?thesis by (intro cache_ok_empty) simp_all
qed

lemma market_exec_cache:
  assumes ok: "market_ok m" "cache_ok m" and call: "market_exec e m c = Inr m'" and "\<not> is_claim c"
  shows "cache_ok m'"
proof (cases c)
  case (Safe_Swap_Call a b x u t)
  with call obtain out where "cc_safe_swap e m a b x u t = Inr (out, m')" by (auto simp: only_state_eq_Inr)
  from safe_swap_effect [OF ok(1) this] ok(2) show ?thesis by (auto intro: cache_ok_empty)
next
  case (Swap_Call a b x u)
  with call cc_swap_fails [OF ok(1)] show ?thesis by (auto simp: only_state_eq_Inr)
next
  case (Deposit_Call x y u)
  with call obtain n where "cc_add_liquidity e m x y u = Inr (n, m')" by (auto simp: only_state_eq_Inr)
  then show ?thesis by (rule cc_add_liquidity_parts) (simp add: cache_ok_empty)
next
  case (Batch_Call ops)
  with call show ?thesis
    by (auto simp: only_state_eq_Inr cc_execute_batch_def cc_execute_batch_atomic_def dest: batch_call_cache [OF executors_ok(1) ok])
next
  case (Best_Effort_Call ops)
  with call show ?thesis
    by (auto simp: only_state_eq_Inr cc_execute_batch_best_effort_def dest: batch_call_cache [OF executors_ok(2) ok])
next
  case (Portfolio_Query u)
  with call get_portfolio_query [OF ok(2)] show ?thesis by auto
next
  case (Traders_Query n)
  with call get_top_traders_query [OF ok(2)] show ?thesis by auto
next
  case (Reserve_Call token x)
  with call cache_ok_answers [OF ok(2)] show ?thesis by (auto simp: cc_set_pool_liquidity_def)
next
  case Migrate_Call
  with call have "m' = migrate_from_v1_to_v2 e m" by simp
  then show ?thesis by (intro cache_ok_answers [OF ok(2)]) (simp_all add: migrate_from_v1_to_v2_def Let_def)
next
  case (Mint_Call token u x)
  with call show ?thesis by (auto simp: cc_mint_def bindR_eq_Inr intro: cache_ok_empty)
next
  case (Trade_Call u)
  with call show ?thesis by (auto simp: cc_record_trade_def bindR_eq_Inr intro: cache_ok_empty)
next
  case (Place_Call a b sd x p t u)
  with call show ?thesis by (auto simp: only_state_eq_Inr cc_place_limit_order_def Let_def bindR_eq_Inr intro!: cache_ok_empty)
next
  case (Take_Call a b sd x p u)
  with call show ?thesis by (auto simp: only_state_eq_Inr cc_take_order_def bindR_eq_Inr intro!: cache_ok_empty)
next
  case (Cancel_Call k u)
  with call show ?thesis by (auto simp: cc_cancel_order_def bindR_eq_Inr intro!: cache_ok_empty)
next
  case (Withdraw_Call x u)
  with call obtain n where "cc_remove_liquidity e m x u = Inr (n, m')" by (auto simp: only_state_eq_Inr)
  then show ?thesis by (rule cc_remove_liquidity_parts) (simp add: cache_ok_empty)
next
  case (Clear_Call u)
  with call show ?thesis by (auto simp: clear_cache_def bindR_eq_Inr intro!: cache_ok_empty)
next
  case (Faucet_Call u a)
  with assms(4) show ?thesis by (simp add: is_claim_def)
qed (use call in \<open>auto simp: only_state_eq_Inr cc_set_price_def cc_set_price_update_tolerance_bps_def cc_set_max_slippage_bps_def
    set_cache_ttl_def cc_get_swap_rate_limit_def cc_get_lp_rate_limit_def set_faucet_config_def cc_initialize_def
    cc_cleanup_rate_limits_def bindR_eq_Inr split: prod.splits if_splits intro!: cache_ok_answers [OF ok(2)]\<close>)

interpretation cache_machine: machine_invariant "\<lambda>m. m = market0" "market_step False" "\<lambda>m. market_ok m \<and> cache_ok m"
proof
  show "market_ok m \<and> cache_ok m" if "m = market0" for m
    using market_machine.inv_init [OF that] that by (simp add: market0_def cache_ok_empty)
  show "market_ok m' \<and> cache_ok m'" if inv: "market_ok m \<and> cache_ok m" and st: "market_step False m m'" for m m'
  proof
    show "market_ok m'" using market_machine.inv_step [OF _ st] inv by blast
    show "cache_ok m'"
      using st
    proof (rule market_stepE)
      show "cache_ok m'" if "market_exec e m c = Inr m'" "False \<or> \<not> is_claim c" for e c
        using market_exec_cache [OF _ _ that(1)] that(2) inv by blast
      show "cache_ok m'" if "elsewhere m m'"
        by (rule cache_ok_answers [OF conjunct2 [OF inv]]) (simp_all only: elsewhere_frames [OF that])
    qed
  qed
qed

end
