(* ===== verification/Orders_Props.thy ===== *)
theory Orders_Props
  imports Orders "HOL-Library.Sublist"
begin

text \<open>
  The invariant of the counter contract's order book: the queues hold the orders of their pair and
  side in price-time order, and what is filled and what remains of an order add up to its amount.
\<close>

section \<open>The invariant\<close>

definition lo_terms :: "limit_order \<Rightarrow> nat \<times> side \<times> symbol \<times> symbol \<times> nat \<times> int \<times> address" where
  "lo_terms r = (lo_id r, lo_side r, lo_base r, lo_quote r, lo_price r, lo_amount r, lo_owner r)"

definition lo_grows :: "limit_store \<Rightarrow> limit_store \<Rightarrow> bool" where
  "lo_grows s s' \<longleftrightarrow> (\<forall>x r. lm_orders s x = Some r \<longrightarrow> (\<exists>r'. lm_orders s' x = Some r' \<and> lo_terms r' = lo_terms r))"

definition price_at :: "limit_store \<Rightarrow> nat \<Rightarrow> nat" where
  "price_at s x = (case lm_orders s x of None \<Rightarrow> 0 | Some r \<Rightarrow> lo_price r)"

definition better :: "side \<Rightarrow> nat \<Rightarrow> nat \<Rightarrow> bool" where
  "better sd p q \<longleftrightarrow> (case sd of Buy \<Rightarrow> q < p | Sell \<Rightarrow> p < q)"

definition ahead :: "limit_store \<Rightarrow> side \<Rightarrow> nat \<Rightarrow> nat \<Rightarrow> bool" where
  "ahead s sd x y \<longleftrightarrow> better sd (price_at s x) (price_at s y) \<or> price_at s x = price_at s y \<and> x < y"

definition queue_ok :: "limit_store \<Rightarrow> side \<Rightarrow> symbol \<times> symbol \<Rightarrow> nat list \<Rightarrow> bool" where
  "queue_ok s sd pair q \<longleftrightarrow>
     (\<forall>x\<in>set q. \<exists>r. lm_orders s x = Some r \<and> lo_side r = sd \<and> (lo_base r, lo_quote r) = pair) \<and> sorted_wrt (ahead s sd) q"

definition limit_order_ok :: "limit_order \<Rightarrow> bool" where
  "limit_order_ok r \<longleftrightarrow> 0 \<le> lo_remaining r \<and> lo_amount_filled r + lo_remaining r = lo_amount r \<and> 0 \<le> lo_amount_filled r
     \<and> (lo_open r \<longrightarrow> 0 < lo_remaining r) \<and> 0 < lo_price r \<and> lo_type r = Limit"

definition next_oid :: "limit_store \<Rightarrow> nat" where
  "next_oid s = (case lm_next s of None \<Rightarrow> 1 | Some n \<Rightarrow> n)"

definition orders_ok :: "limit_store \<Rightarrow> bool" where
  "orders_ok s \<longleftrightarrow> (\<forall>x r. lm_orders s x = Some r \<longrightarrow> lo_id r = x \<and> x < next_oid s \<and> limit_order_ok r)"

definition books_sorted :: "limit_store \<Rightarrow> bool" where
  "books_sorted s \<longleftrightarrow> (\<forall>pair b. lm_books s pair = Some b \<longrightarrow> queue_ok s Buy pair (bk_bids b) \<and> queue_ok s Sell pair (bk_asks b))"

lemma orders_okD: "orders_ok s \<Longrightarrow> lm_orders s x = Some r \<Longrightarrow> lo_id r = x \<and> x < next_oid s \<and> limit_order_ok r"
  by (simp add: orders_ok_def)

lemma books_sortedD:
  "books_sorted s \<Longrightarrow> lm_books s pair = Some b \<Longrightarrow> queue_ok s Buy pair (bk_bids b) \<and> queue_ok s Sell pair (bk_asks b)"
  unfolding books_sorted_def by blast

lemma lm_fields [simp]:
  "lm_orders (lm_publish ev s) = lm_orders s" "lm_books (lm_publish ev s) = lm_books s"
  "lm_next (lm_publish ev s) = lm_next s" "lm_user (lm_publish ev s) = lm_user s" "lm_recurring (lm_publish ev s) = lm_recurring s"
  "lm_orders (save_limit_order r s) = (lm_orders s)(lo_id r \<mapsto> r)" "lm_books (save_limit_order r s) = lm_books s"
  "lm_next (save_limit_order r s) = lm_next s" "lm_user (save_limit_order r s) = lm_user s"
  "lm_recurring (save_limit_order r s) = lm_recurring s"
  by (simp_all add: lm_publish_def save_limit_order_def)

lemma queue_names [simp]: "bk_bids (with_queues b x y) = x" "bk_asks (with_queues b x y) = y"
  by (simp_all add: with_queues_def)

section \<open>Stores that grow\<close>

lemma lo_grows_refl: "lo_grows s s"
  by (simp add: lo_grows_def)

lemma lo_grows_trans: "lo_grows s t \<Longrightarrow> lo_grows t u \<Longrightarrow> lo_grows s u"
  unfolding lo_grows_def by (metis (no_types, lifting))

lemma lo_grows_same: "lm_orders s' = lm_orders s \<Longrightarrow> lo_grows s s'"
  by (simp add: lo_grows_def)

lemma lo_grows_save:
  assumes "lm_orders s (lo_id r') = Some r \<and> lo_terms r' = lo_terms r \<or> lm_orders s (lo_id r') = None"
    and "lm_orders s' = (lm_orders s)(lo_id r' \<mapsto> r')"
  shows "lo_grows s s'"
  using assms by (auto simp: lo_grows_def)

lemma queue_ok_grows:
  assumes q: "queue_ok s sd pair q" and g: "lo_grows s s'"
  shows "queue_ok s' sd pair q"
proof -
  have kept: "\<exists>r'. lm_orders s' x = Some r' \<and> lo_side r' = sd \<and> (lo_base r', lo_quote r') = pair \<and> price_at s' x = price_at s x"
    if "x \<in> set q" for x
  proof -
    from q that obtain r where "lm_orders s x = Some r" "lo_side r = sd" "(lo_base r, lo_quote r) = pair"
      unfolding queue_ok_def by blast
    moreover from this(1) g obtain r' where "lm_orders s' x = Some r'" "lo_terms r' = lo_terms r"
      unfolding lo_grows_def by blast
    ultimately show ?thesis by (auto simp: lo_terms_def price_at_def)
  qed
  moreover have "sorted_wrt (ahead s' sd) q"
  proof (rule sorted_wrt_mono_rel [where P = "ahead s sd"])
    show "ahead s' sd x y" if "x \<in> set q" "y \<in> set q" "ahead s sd x y" for x y
      using kept [OF that(1)] kept [OF that(2)] that(3) by (auto simp: ahead_def)
    show "sorted_wrt (ahead s sd) q" using q by (simp add: queue_ok_def)
  qed
  ultimately show ?thesis unfolding queue_ok_def by blast
qed

lemma sorted_wrt_remove1: "sorted_wrt P xs \<Longrightarrow> sorted_wrt P (remove1 x xs)"
  by (induction xs) (auto dest: notin_set_remove1 intro: in_set_remove1 [THEN iffD1])

lemma queue_ok_sublist:
  assumes "queue_ok s sd pair q" and "q' = remove1 x q"
  shows "queue_ok s sd pair q'"
  using assms set_remove1_subset [of x q] by (auto simp: queue_ok_def sorted_wrt_remove1)

lemma books_sorted_grows: "books_sorted s \<Longrightarrow> lo_grows s s' \<Longrightarrow> lm_books s' = lm_books s \<Longrightarrow> books_sorted s'"
  unfolding books_sorted_def using queue_ok_grows by metis

section \<open>Inserting\<close>

lemma queue_insert_set: "set (queue_insert s r q) = insert (lo_id r) (set q)"
  by (induction s r q rule: queue_insert.induct) (auto split: option.splits)

lemma queue_insert_sorted:
  assumes "queue_ok s sd pair q" and r: "lm_orders s (lo_id r) = Some r" "lo_side r = sd" "(lo_base r, lo_quote r) = pair"
    and new: "\<And>x. x \<in> set q \<Longrightarrow> x < lo_id r"
  shows "queue_ok s sd pair (queue_insert s r q)"
proof -
  have p: "price_at s (lo_id r) = lo_price r" using r by (simp add: price_at_def)
  have "sorted_wrt (ahead s sd) (queue_insert s r q)"
    using assms(1) new
  proof (induction q)
    case (Cons x xs)
    from Cons.prems(1) obtain rx where rx: "lm_orders s x = Some rx" by (auto simp: queue_ok_def)
    have px: "price_at s x = lo_price rx" by (simp add: price_at_def rx)
    have xs: "queue_ok s sd pair xs" and ahead: "\<And>y. y \<in> set xs \<Longrightarrow> ahead s sd x y"
      using Cons.prems(1) by (auto simp: queue_ok_def)
    have IH: "sorted_wrt (ahead s sd) (queue_insert s r xs)" using Cons.IH [OF xs] Cons.prems(2) by simp
    show ?case
    proof (cases "better sd (lo_price r) (lo_price rx)")
      case True
      have first: "ahead s sd (lo_id r) y" if "y \<in> set (x # xs)" for y
        using that True ahead [of y] by (cases sd) (auto simp: ahead_def better_def p px)
      from True r(2) have "queue_insert s r (x # xs) = lo_id r # x # xs"
        by (simp add: rx better_def split: side.splits)
      with first Cons.prems(1) show ?thesis by (simp add: queue_ok_def)
    next
      case False
      have "ahead s sd x (lo_id r)"
        using False Cons.prems(2) [of x] by (cases sd) (auto simp: ahead_def better_def p px)
      moreover from False r(2) have "queue_insert s r (x # xs) = x # queue_insert s r xs"
        by (simp add: rx better_def split: side.splits)
      ultimately show ?thesis using IH ahead by (auto simp: queue_insert_set)
    qed
  qed simp
  with assms(1) r show ?thesis by (auto simp: queue_ok_def queue_insert_set)
qed

section \<open>Each operation\<close>

definition new_limit_order :: "env \<Rightarrow> nat \<Rightarrow> address \<Rightarrow> symbol \<Rightarrow> symbol \<Rightarrow> side \<Rightarrow> int \<Rightarrow> nat \<Rightarrow> nat option \<Rightarrow> limit_order" where
  "new_limit_order e k owner base quote sd amount price expires_at =
     \<lparr>lo_id = k, lo_owner = owner, lo_type = Limit, lo_side = sd, lo_base = base, lo_quote = quote,
       lo_amount = amount, lo_remaining = amount, lo_price = price, lo_status = Pending, lo_created_at = now e,
       lo_expires_at = expires_at, lo_filled_at = None, lo_interval = None,
       lo_token_in = (case sd of Buy \<Rightarrow> quote | Sell \<Rightarrow> base), lo_token_out = (case sd of Buy \<Rightarrow> base | Sell \<Rightarrow> quote),
       lo_amount_in = amount, lo_amount_filled = 0, lo_limit_price = Some price, lo_trigger_price = None,
       lo_occurrences = None, lo_next_run = None\<rparr>"

definition with_user_order :: "limit_store \<Rightarrow> address \<Rightarrow> nat \<Rightarrow> limit_store" where
  "with_user_order s owner k =
     s\<lparr>lm_user := (lm_user s)(owner \<mapsto> (case lm_user s owner of None \<Rightarrow> [] | Some ids \<Rightarrow> ids) @ [k])\<rparr>"

lemma place_limit_order_iff:
  "place_limit_order e s owner base quote sd amount price exp = Inr (k, s') \<longleftrightarrow>
     authorized e owner \<and> 0 < amount \<and> 0 < price \<and> k = next_oid s \<and> k + 1 < 2 ^ 64
     \<and> s' = lm_publish (OrderPlaced k owner base quote amount price)
         ((add_to_order_book (with_user_order (save_limit_order (new_limit_order e k owner base quote sd amount price exp) s) owner k)
            base quote (new_limit_order e k owner base quote sd amount price exp))\<lparr>lm_next := Some (k + 1)\<rparr>)"
  by (auto simp: place_limit_order_def bindR_eq_Inr require_auth_eq_Inr ensure_eq_Inr u_add_eq_Inr next_oid_def
      Let_def with_user_order_def new_limit_order_def)

lemma new_limit_order_simps [simp]:
  "lo_id (new_limit_order e k owner base quote sd amount price exp) = k"
  "lo_side (new_limit_order e k owner base quote sd amount price exp) = sd"
  "lo_base (new_limit_order e k owner base quote sd amount price exp) = base"
  "lo_quote (new_limit_order e k owner base quote sd amount price exp) = quote"
  "lo_owner (new_limit_order e k owner base quote sd amount price exp) = owner"
  "0 < amount \<Longrightarrow> 0 < price \<Longrightarrow> limit_order_ok (new_limit_order e k owner base quote sd amount price exp)"
  by (simp_all add: new_limit_order_def limit_order_ok_def)

lemma with_user_order_simps [simp]:
  "lm_orders (with_user_order s owner k) = lm_orders s" "lm_books (with_user_order s owner k) = lm_books s"
  "lm_next (with_user_order s owner k) = lm_next s" "lm_recurring (with_user_order s owner k) = lm_recurring s"
  by (simp_all add: with_user_order_def)

lemma add_to_order_book_simps [simp]:
  "lm_orders (add_to_order_book s base quote r) = lm_orders s" "lm_next (add_to_order_book s base quote r) = lm_next s"
  "lm_recurring (add_to_order_book s base quote r) = lm_recurring s"
  by (simp_all add: add_to_order_book_def Let_def)

lemma queue_ok_Nil [simp]: "queue_ok s sd pair []"
  by (simp add: queue_ok_def)

lemma add_to_order_book_sorted:
  assumes books: "books_sorted s" and r: "lm_orders s (lo_id r) = Some r" "(lo_base r, lo_quote r) = (base, quote)"
    and new: "\<And>x rx. lm_orders s x = Some rx \<Longrightarrow> x \<le> lo_id r"
    and fresh: "\<And>pair b. lm_books s pair = Some b \<Longrightarrow> lo_id r \<notin> set (bk_bids b) \<and> lo_id r \<notin> set (bk_asks b)"
  shows "books_sorted (add_to_order_book s base quote r)"
proof -
  define b where "b = (case lm_books s (base, quote) of None \<Rightarrow> empty_book base quote | Some b \<Rightarrow> b)"
  let ?s = "add_to_order_book s base quote r"
  have g: "lo_grows s ?s" by (rule lo_grows_same) simp
  have b: "queue_ok s Buy (base, quote) (bk_bids b)" "queue_ok s Sell (base, quote) (bk_asks b)"
    "lo_id r \<notin> set (bk_bids b)" "lo_id r \<notin> set (bk_asks b)"
    using books_sortedD [OF books, of "(base, quote)"] fresh [of "(base, quote)"]
    by (auto simp: b_def empty_book_def split: option.splits)
  have below: "x < lo_id r" if "queue_ok s sd (base, quote) q" "lo_id r \<notin> set q" "x \<in> set q" for sd q x
  proof -
    from that(1,3) obtain rx where "lm_orders s x = Some rx" unfolding queue_ok_def by blast
    with new have "x \<le> lo_id r" by blast
    with that(2,3) show ?thesis by (cases "x = lo_id r") auto
  qed
  have ins: "queue_ok s sd (base, quote) (queue_insert s r q)"
    if "queue_ok s sd (base, quote) q" "lo_id r \<notin> set q" "lo_side r = sd" for sd q
    by (rule queue_insert_sorted [OF that(1) r(1) that(3)]) (use r(2) below [OF that(1,2)] in auto)
  define b1 where "b1 = (case lo_side r of
      Buy \<Rightarrow> with_queues b (queue_insert s r (bk_bids b)) (bk_asks b)
    | Sell \<Rightarrow> with_queues b (bk_bids b) (queue_insert s r (bk_asks b)))"
  have bs: "lm_books ?s = (lm_books s)((base, quote) \<mapsto> b1)"
    unfolding add_to_order_book_def Let_def b1_def b_def by simp
  have one: "queue_ok s Buy (base, quote) (bk_bids b1) \<and> queue_ok s Sell (base, quote) (bk_asks b1)"
    using b ins by (cases "lo_side r") (simp_all add: b1_def)
  show ?thesis
    unfolding books_sorted_def
  proof (intro allI impI)
    fix pair bb assume "lm_books ?s pair = Some bb"
    then have "queue_ok s Buy pair (bk_bids bb) \<and> queue_ok s Sell pair (bk_asks bb)"
      using one books_sortedD [OF books, of pair bb] by (cases "pair = (base, quote)") (simp_all add: bs)
    then show "queue_ok ?s Buy pair (bk_bids bb) \<and> queue_ok ?s Sell pair (bk_asks bb)"
      using queue_ok_grows [OF _ g] by blast
  qed
qed

lemma place_limit_order_ok:
  assumes ok: "orders_ok s" "books_sorted s" and call: "place_limit_order e s owner base quote sd amount price exp = Inr (k, s')"
  shows "orders_ok s' \<and> books_sorted s' \<and> lm_recurring s' = lm_recurring s"
proof -
  define r where "r = new_limit_order e k owner base quote sd amount price exp"
  define s1 where "s1 = with_user_order (save_limit_order r s) owner k"
  from call have k: "k = next_oid s" "0 < amount" "0 < price"
    and s': "s' = lm_publish (OrderPlaced k owner base quote amount price) ((add_to_order_book s1 base quote r)\<lparr>lm_next := Some (k + 1)\<rparr>)"
    unfolding place_limit_order_iff r_def s1_def by blast+
  have o1: "lm_orders s1 = (lm_orders s)(k \<mapsto> r)" and b1: "lm_books s1 = lm_books s" by (simp_all add: s1_def r_def)
  have fresh: "lm_orders s k = None" using orders_okD [OF ok(1), of k] k(1) by (cases "lm_orders s k") auto
  have "lo_grows s s1" by (rule lo_grows_save [of _ r _ s1]) (use fresh o1 in \<open>simp_all add: r_def\<close>)
  from books_sorted_grows [OF ok(2) this b1] have "books_sorted s1" .
  then have "books_sorted (add_to_order_book s1 base quote r)"
  proof (rule add_to_order_book_sorted)
    show "x \<le> lo_id r" if "lm_orders s1 x = Some rx" for x rx
      using that orders_okD [OF ok(1), of x] k(1) by (auto simp: o1 r_def split: if_splits)
    show "lo_id r \<notin> set (bk_bids b) \<and> lo_id r \<notin> set (bk_asks b)" if "lm_books s1 pair = Some b" for pair b
      using that books_sortedD [OF ok(2), of pair b] fresh by (auto simp: b1 queue_ok_def r_def)
  qed (simp_all add: o1 r_def)
  then have "books_sorted s'"
    by (rule books_sorted_grows) (simp_all add: s' lo_grows_def)
  moreover have "orders_ok s'"
    unfolding orders_ok_def
  proof (intro allI impI)
    have n: "lm_orders s' = (lm_orders s)(k \<mapsto> r)" "next_oid s' = k + 1" by (simp_all add: s' o1 next_oid_def)
    fix x rx assume "lm_orders s' x = Some rx"
    then show "lo_id rx = x \<and> x < next_oid s' \<and> limit_order_ok rx"
      using orders_okD [OF ok(1), of x rx] k n by (cases "x = k") (auto simp: r_def)
  qed
  ultimately show ?thesis by (simp add: s' s1_def)
qed

lemma save_limit_order_ok:
  assumes ok: "orders_ok s" and r: "lm_orders s x = Some r" and r': "lo_terms r' = lo_terms r" "limit_order_ok r'"
  shows "orders_ok (save_limit_order r' s) \<and> lo_grows s (save_limit_order r' s)"
proof
  from orders_okD [OF ok r] have x: "lo_id r = x" "x < next_oid s" by simp_all
  with r'(1) have id: "lo_id r' = x" by (simp add: lo_terms_def)
  show "orders_ok (save_limit_order r' s)"
    using ok x id r'(2) unfolding orders_ok_def by (auto simp: next_oid_def)
  show "lo_grows s (save_limit_order r' s)"
    by (rule lo_grows_save [of _ r' r]) (use r r' id in simp_all)
qed

lemma restatus_ok:
  assumes "orders_ok s" and "lm_orders s x = Some r" and "\<not> lo_open (r\<lparr>lo_status := st\<rparr>)"
  shows "orders_ok (save_limit_order (r\<lparr>lo_status := st\<rparr>) s) \<and> lo_grows s (save_limit_order (r\<lparr>lo_status := st\<rparr>) s)"
  by (rule save_limit_order_ok [OF assms(1,2)])
    (use orders_okD [OF assms(1,2)] assms(3) in \<open>simp_all add: lo_terms_def limit_order_ok_def\<close>)

lemma cancel_limit_order_effect:
  assumes "cancel_limit_order e s k owner = Inr s'"
  shows "\<exists>r. lm_orders s k = Some r \<and> lo_owner r = owner \<and> authorized e owner \<and> (lo_open r \<or> lo_status r = Scheduled)
    \<and> s' = lm_publish (OrderCancelled k owner (lo_token_in r) (lo_token_out r) (lo_amount_in r))
        (save_limit_order (r\<lparr>lo_status := Cancelled\<rparr>) s)"
  using assms
  by (auto simp: cancel_limit_order_def bindR_eq_Inr require_auth_eq_Inr ensure_eq_Inr get_limit_order_def ok_or_eq_Inr)

section \<open>Taking\<close>

text \<open>What taking may do to the store: nothing but the state of orders.\<close>

definition store_kept :: "limit_store \<Rightarrow> limit_store \<Rightarrow> bool" where
  "store_kept s s' \<longleftrightarrow> orders_ok s' \<and> lo_grows s s' \<and> lm_books s' = lm_books s \<and> lm_recurring s' = lm_recurring s
     \<and> lm_next s' = lm_next s"

lemma store_kept_refl: "orders_ok s \<Longrightarrow> store_kept s s"
  by (simp add: store_kept_def lo_grows_refl)

lemma store_kept_trans: "store_kept s t \<Longrightarrow> store_kept t u \<Longrightarrow> store_kept s u"
  unfolding store_kept_def using lo_grows_trans by metis

lemma store_kept_publish: "store_kept s t \<Longrightarrow> store_kept s (lm_publish ev t)"
  by (auto simp: store_kept_def orders_ok_def next_oid_def lo_grows_def)

lemma store_kept_save:
  assumes "orders_ok s" "lm_orders s x = Some r" "lo_terms r' = lo_terms r" "limit_order_ok r'"
  shows "store_kept s (save_limit_order r' s)"
  using save_limit_order_ok [OF assms] by (simp add: store_kept_def)

text \<open>\<open>fill_of s taker f\<close>: the fill \<open>f\<close> is a fill of an order of the store \<open>s\<close> by the taker.\<close>

definition fill_of :: "limit_store \<Rightarrow> address \<Rightarrow> order_fill \<Rightarrow> bool" where
  "fill_of s taker f \<longleftrightarrow> (\<exists>r. lm_orders s (of_id f) = Some r \<and> of_maker f = lo_owner r \<and> of_price f = lo_price r
     \<and> of_taker f = taker \<and> 0 < of_base f \<and> of_base f \<le> lo_amount r \<and> fill_quote r (of_base f) = Inr (of_quote f))"

lemma fill_of_grows: "lo_grows s s' \<Longrightarrow> fill_of s taker f \<Longrightarrow> fill_of s' taker f"
  unfolding fill_of_def lo_grows_def fill_quote_def lo_terms_def by fastforce

lemma fill_limit_order_effect:
  assumes ok: "orders_ok (tk_store k)" and r: "lm_orders (tk_store k) x = Some r" and op: "lo_open r"
    and rem: "0 < tk_remaining k" and call: "fill_limit_order e taker k x r = Inr k'"
  shows "\<exists>f. tk_fills k' = tk_fills k @ [f] \<and> of_id f = x \<and> fill_of (tk_store k) taker f
    \<and> tk_remaining k' = tk_remaining k - of_base f \<and> of_base f \<le> tk_remaining k
    \<and> (tk_queue k' = tk_queue k \<or> tk_queue k' = remove1 x (tk_queue k)) \<and> store_kept (tk_store k) (tk_store k')"
proof -
  define n where "n = (if lo_remaining r \<le> tk_remaining k then lo_remaining r else tk_remaining k)"
  from call obtain quote where quote: "fill_quote r n = Inr quote"
    and k': "k' = \<lparr>tk_store = lm_publish (OrderFill x taker (lo_owner r) n quote (lo_price r))
        (save_limit_order (if lo_remaining r - n = 0
           then r\<lparr>lo_remaining := lo_remaining r - n, lo_amount_filled := lo_amount_filled r + n, lo_status := Filled, lo_filled_at := Some (now e)\<rparr>
           else r\<lparr>lo_remaining := lo_remaining r - n, lo_amount_filled := lo_amount_filled r + n, lo_status := PartiallyFilled\<rparr>) (tk_store k)),
      tk_remaining = tk_remaining k - n,
      tk_fills = tk_fills k @ [\<lparr>of_id = x, of_base = n, of_quote = quote, of_price = lo_price r, of_complete = (lo_remaining r - n = 0),
        of_maker = lo_owner r, of_taker = taker\<rparr>],
      tk_queue = (if lo_remaining r - n = 0 then remove1 x (tk_queue k) else tk_queue k)\<rparr>"
    unfolding fill_limit_order_def n_def [symmetric] Let_def bindR_eq_Inr i_sub_eq_Inr i_add_eq_Inr by (auto split: if_splits)
  from orders_okD [OF ok r] have ro: "limit_order_ok r" by simp
  with op rem have n: "0 < n" "n \<le> lo_remaining r" "n \<le> tk_remaining k" "n \<le> lo_amount r"
    by (auto simp: n_def limit_order_ok_def)
  define r' where "r' = (if lo_remaining r - n = 0
     then r\<lparr>lo_remaining := lo_remaining r - n, lo_amount_filled := lo_amount_filled r + n, lo_status := Filled, lo_filled_at := Some (now e)\<rparr>
     else r\<lparr>lo_remaining := lo_remaining r - n, lo_amount_filled := lo_amount_filled r + n, lo_status := PartiallyFilled\<rparr>)"
  have "lo_terms r' = lo_terms r" "limit_order_ok r'"
    using ro n by (auto simp: r'_def lo_terms_def limit_order_ok_def lo_open_def)
  from store_kept_publish [OF store_kept_save [OF ok r this]]
  have "store_kept (tk_store k) (tk_store k')" unfolding k' r'_def by simp
  with n quote r show ?thesis by (simp add: k' fill_of_def)
qed

text \<open>A run of the loop, seen from its start.\<close>

definition take_run :: "address \<Rightarrow> side \<Rightarrow> nat option \<Rightarrow> nat list \<Rightarrow> taking \<Rightarrow> taking \<Rightarrow> bool" where
  "take_run taker sd max_price ids k k' \<longleftrightarrow> store_kept (tk_store k) (tk_store k')
     \<and> (\<forall>s pair q_sd. queue_ok s q_sd pair (tk_queue k) \<longrightarrow> queue_ok s q_sd pair (tk_queue k'))
     \<and> (\<exists>fs. tk_fills k' = tk_fills k @ fs \<and> tk_remaining k' = tk_remaining k - sum_list (map of_base fs)
        \<and> (0 \<le> tk_remaining k \<longrightarrow> 0 \<le> tk_remaining k')
        \<and> subseq (map of_id fs) ids
        \<and> (\<forall>f\<in>set fs. fill_of (tk_store k') taker f
            \<and> (case max_price of None \<Rightarrow> True | Some p \<Rightarrow> (case sd of Buy \<Rightarrow> of_price f \<le> p | Sell \<Rightarrow> p \<le> of_price f))))"

lemma take_run_refl: "orders_ok (tk_store k) \<Longrightarrow> take_run taker sd mp ids k k"
  by (simp add: take_run_def store_kept_refl)

lemma take_run_skip:
  assumes "take_run taker sd mp ids k1 k'" and "store_kept (tk_store k) (tk_store k1)" and "k1 = k\<lparr>tk_store := tk_store k1\<rparr>"
  shows "take_run taker sd mp (x # ids) k k'"
proof -
  have same: "tk_fills k1 = tk_fills k" "tk_remaining k1 = tk_remaining k" "tk_queue k1 = tk_queue k"
    by (metis assms(3) taking.select_convs taking.surjective taking.update_convs(1))+
  from assms(1) show ?thesis
    unfolding take_run_def same using store_kept_trans [OF assms(2)] by (blast intro: list_emb_Cons)
qed

lemma take_run_fill:
  assumes run: "take_run taker sd mp ids k1 k'" and kept: "store_kept (tk_store k) (tk_store k1)"
    and f: "tk_fills k1 = tk_fills k @ [f]" "of_id f = x" "fill_of (tk_store k) taker f" "tk_remaining k1 = tk_remaining k - of_base f"
      "of_base f \<le> tk_remaining k" "tk_queue k1 = tk_queue k \<or> tk_queue k1 = remove1 x (tk_queue k)"
    and price: "case mp of None \<Rightarrow> True | Some p \<Rightarrow> (case sd of Buy \<Rightarrow> of_price f \<le> p | Sell \<Rightarrow> p \<le> of_price f)"
  shows "take_run taker sd mp (x # ids) k k'"
proof -
  from run obtain fs where fs: "tk_fills k' = tk_fills k1 @ fs" "tk_remaining k' = tk_remaining k1 - sum_list (map of_base fs)"
    "0 \<le> tk_remaining k1 \<longrightarrow> 0 \<le> tk_remaining k'" "subseq (map of_id fs) ids"
    "\<forall>f\<in>set fs. fill_of (tk_store k') taker f
      \<and> (case mp of None \<Rightarrow> True | Some p \<Rightarrow> (case sd of Buy \<Rightarrow> of_price f \<le> p | Sell \<Rightarrow> p \<le> of_price f))"
    and st: "store_kept (tk_store k1) (tk_store k')"
    and q: "\<forall>s pair q_sd. queue_ok s q_sd pair (tk_queue k1) \<longrightarrow> queue_ok s q_sd pair (tk_queue k')"
    unfolding take_run_def by blast
  have st': "store_kept (tk_store k) (tk_store k')" by (rule store_kept_trans [OF kept st])
  then have "lo_grows (tk_store k) (tk_store k')" by (simp add: store_kept_def)
  from fill_of_grows [OF this f(3)] price fs(5)
  have all: "\<forall>g\<in>set (f # fs). fill_of (tk_store k') taker g
      \<and> (case mp of None \<Rightarrow> True | Some p \<Rightarrow> (case sd of Buy \<Rightarrow> of_price g \<le> p | Sell \<Rightarrow> p \<le> of_price g))" by simp
  have "\<forall>s pair q_sd. queue_ok s q_sd pair (tk_queue k) \<longrightarrow> queue_ok s q_sd pair (tk_queue k')"
    using q f(6) queue_ok_sublist by metis
  moreover have "\<exists>gs. tk_fills k' = tk_fills k @ gs \<and> tk_remaining k' = tk_remaining k - sum_list (map of_base gs)
      \<and> (0 \<le> tk_remaining k \<longrightarrow> 0 \<le> tk_remaining k') \<and> subseq (map of_id gs) (x # ids)
      \<and> (\<forall>g\<in>set gs. fill_of (tk_store k') taker g
        \<and> (case mp of None \<Rightarrow> True | Some p \<Rightarrow> (case sd of Buy \<Rightarrow> of_price g \<le> p | Sell \<Rightarrow> p \<le> of_price g)))"
    by (rule exI [of _ "f # fs"]) (use fs(1-4) f(1,2,4,5) all in simp)
  ultimately show ?thesis using st' unfolding take_run_def by blast
qed

lemma take_loop_run:
  assumes "orders_ok (tk_store k)" and "take_loop e taker sd mp ids k = Inr k'"
  shows "take_run taker sd mp ids k k'"
  using assms
proof (induction ids arbitrary: k)
  case Nil
  then show ?case by (simp add: take_run_refl)
next
  case (Cons x xs)
  show ?case
  proof (cases "tk_remaining k \<le> 0")
    case True
    with Cons.prems show ?thesis by (simp add: take_run_refl)
  next
    case rem: False
    have skip: "take_run taker sd mp (x # xs) k k'" if "take_loop e taker sd mp xs k = Inr k'"
      by (rule take_run_skip [OF Cons.IH [OF Cons.prems(1) that]]) (simp_all add: store_kept_refl Cons.prems(1))
    show ?thesis
    proof (cases "lm_orders (tk_store k) x")
      case None
      with Cons.prems rem show ?thesis by (intro skip) simp
    next
      case (Some r)
      consider "\<not> lo_open r" | "lo_open r" "lo_expired (now e) r" | "lo_open r" "\<not> lo_expired (now e) r" "\<not> price_valid sd mp r"
        | "lo_open r" "\<not> lo_expired (now e) r" "price_valid sd mp r" by blast
      then show ?thesis
      proof cases
        case 2
        define k1 where "k1 = k\<lparr>tk_store := save_limit_order (r\<lparr>lo_status := Expired_Order\<rparr>) (tk_store k)\<rparr>"
        have kept: "store_kept (tk_store k) (tk_store k1)"
          using restatus_ok [OF Cons.prems(1) Some, of Expired_Order] by (simp add: k1_def store_kept_def lo_open_def)
        from Cons.prems rem Some 2 have "take_loop e taker sd mp xs k1 = Inr k'" by (simp add: k1_def)
        moreover from kept have "orders_ok (tk_store k1)" by (simp add: store_kept_def)
        ultimately show ?thesis by (intro take_run_skip [OF Cons.IH kept]) (simp_all add: k1_def)
      next
        case 4
        with Cons.prems rem Some obtain k1 where k1: "fill_limit_order e taker k x r = Inr k1" "take_loop e taker sd mp xs k1 = Inr k'"
          by (auto simp: bindR_eq_Inr)
        from rem have "0 < tk_remaining k" by simp
        from fill_limit_order_effect [OF Cons.prems(1) Some 4(1) this k1(1)] obtain f where
          f: "tk_fills k1 = tk_fills k @ [f]" "of_id f = x" "fill_of (tk_store k) taker f"
            "tk_remaining k1 = tk_remaining k - of_base f" "of_base f \<le> tk_remaining k"
            "tk_queue k1 = tk_queue k \<or> tk_queue k1 = remove1 x (tk_queue k)" and kept: "store_kept (tk_store k) (tk_store k1)"
          by blast
        from kept have "orders_ok (tk_store k1)" by (simp add: store_kept_def)
        from Cons.IH [OF this k1(2)] have run: "take_run taker sd mp xs k1 k'" .
        have "of_price f = lo_price r" using f(2,3) Some by (auto simp: fill_of_def)
        with 4(3) have "case mp of None \<Rightarrow> True | Some p \<Rightarrow> (case sd of Buy \<Rightarrow> of_price f \<le> p | Sell \<Rightarrow> p \<le> of_price f)"
          by (simp add: price_valid_def split: option.splits side.splits)
        from take_run_fill [OF run kept f this] show ?thesis .
      qed (use Cons.prems rem Some in \<open>auto intro!: skip\<close>)
    qed
  qed
qed

lemma take_limit_order_effect:
  assumes ok: "orders_ok s" "books_sorted s"
    and call: "take_limit_order e s taker base quote sd max_base mp = Inr (fills, s')"
  shows "orders_ok s' \<and> books_sorted s' \<and> lo_grows s s' \<and> lm_recurring s' = lm_recurring s \<and> lm_next s' = lm_next s
    \<and> authorized e taker \<and> sum_list (map of_base fills) \<le> max_base
    \<and> (\<exists>b. lm_books s (base, quote) = Some b \<and> subseq (map of_id fills) (case sd of Buy \<Rightarrow> bk_asks b | Sell \<Rightarrow> bk_bids b))
    \<and> (\<forall>f\<in>set fills. fill_of s' taker f
        \<and> (case mp of None \<Rightarrow> True | Some p \<Rightarrow> (case sd of Buy \<Rightarrow> of_price f \<le> p | Sell \<Rightarrow> p \<le> of_price f)))"
proof -
  from call obtain b k where b: "lm_books s (base, quote) = Some b" and auth: "authorized e taker" "0 < max_base"
    and run: "take_loop e taker sd mp (case sd of Buy \<Rightarrow> bk_asks b | Sell \<Rightarrow> bk_bids b)
      \<lparr>tk_store = s, tk_remaining = max_base, tk_fills = [], tk_queue = (case sd of Buy \<Rightarrow> bk_asks b | Sell \<Rightarrow> bk_bids b)\<rparr> = Inr k"
    and fills: "fills = tk_fills k"
    and s': "s' = (tk_store k)\<lparr>lm_books := (lm_books (tk_store k))((base, quote) \<mapsto>
        (case sd of Buy \<Rightarrow> with_queues b (bk_bids b) (tk_queue k) | Sell \<Rightarrow> with_queues b (tk_queue k) (bk_asks b)))\<rparr>"
    by (auto simp: take_limit_order_def bindR_eq_Inr require_auth_eq_Inr ensure_eq_Inr ok_or_eq_Inr Let_def)
  have r: "take_run taker sd mp (case sd of Buy \<Rightarrow> bk_asks b | Sell \<Rightarrow> bk_bids b)
      \<lparr>tk_store = s, tk_remaining = max_base, tk_fills = [], tk_queue = (case sd of Buy \<Rightarrow> bk_asks b | Sell \<Rightarrow> bk_bids b)\<rparr> k"
    by (rule take_loop_run [OF _ run]) (simp add: ok(1))
  then have kept: "store_kept s (tk_store k)"
    and q: "\<And>sd' pair. queue_ok s sd' pair (case sd of Buy \<Rightarrow> bk_asks b | Sell \<Rightarrow> bk_bids b) \<Longrightarrow> queue_ok s sd' pair (tk_queue k)"
    and fs: "tk_remaining k = max_base - sum_list (map of_base (tk_fills k))" "0 \<le> tk_remaining k"
      "subseq (map of_id (tk_fills k)) (case sd of Buy \<Rightarrow> bk_asks b | Sell \<Rightarrow> bk_bids b)"
      "\<forall>f\<in>set (tk_fills k). fill_of (tk_store k) taker f
        \<and> (case mp of None \<Rightarrow> True | Some p \<Rightarrow> (case sd of Buy \<Rightarrow> of_price f \<le> p | Sell \<Rightarrow> p \<le> of_price f))"
    using auth(2) unfolding take_run_def by auto
  have g: "lo_grows s s'" using kept by (simp add: s' store_kept_def lo_grows_def)
  have fill: "fill_of s' = fill_of (tk_store k)" by (intro ext) (simp add: fill_of_def s')
  have ook: "orders_ok s'" using kept by (auto simp: s' store_kept_def orders_ok_def next_oid_def)
  have "books_sorted s'"
    unfolding books_sorted_def
  proof (intro allI impI)
    fix pair bb assume bb: "lm_books s' pair = Some bb"
    have kb: "lm_books (tk_store k) = lm_books s" using kept by (simp add: store_kept_def)
    have "queue_ok s Buy pair (bk_bids bb) \<and> queue_ok s Sell pair (bk_asks bb)"
      using bb books_sortedD [OF ok(2), of pair] books_sortedD [OF ok(2) b] q
      by (cases "pair = (base, quote)"; cases sd) (auto simp: s' kb)
    then show "queue_ok s' Buy pair (bk_bids bb) \<and> queue_ok s' Sell pair (bk_asks bb)"
      using queue_ok_grows [OF _ g] by blast
  qed
  with ook g auth fs b kept show ?thesis by (simp add: fills fill) (simp add: s' store_kept_def)
qed

text \<open>
  The fills of one call against the store it started from: each takes from a live order, once, what it books
  on that order; and the call leaves no live order within the limit while the taker still wants more.
\<close>

definition live_fill :: "limit_store \<Rightarrow> nat \<Rightarrow> side \<Rightarrow> nat option \<Rightarrow> address \<Rightarrow> order_fill \<Rightarrow> bool" where
  "live_fill s t sd mp taker f \<longleftrightarrow> (\<exists>r. lm_orders s (of_id f) = Some r \<and> lo_open r \<and> \<not> lo_expired t r \<and> price_valid sd mp r
     \<and> of_maker f = lo_owner r \<and> of_taker f = taker \<and> of_price f = lo_price r \<and> 0 < of_base f \<and> of_base f \<le> lo_remaining r
     \<and> fill_quote r (of_base f) = Inr (of_quote f))"

definition booked :: "limit_store \<Rightarrow> limit_store \<Rightarrow> order_fill \<Rightarrow> bool" where
  "booked s s' f \<longleftrightarrow> (\<exists>r r'. lm_orders s (of_id f) = Some r \<and> lm_orders s' (of_id f) = Some r'
     \<and> lo_remaining r' = lo_remaining r - of_base f)"

definition on_offer :: "limit_store \<Rightarrow> nat \<Rightarrow> side \<Rightarrow> nat option \<Rightarrow> nat \<Rightarrow> bool" where
  "on_offer s t sd mp x \<longleftrightarrow> (\<exists>r. lm_orders s x = Some r \<and> lo_open r \<and> \<not> lo_expired t r \<and> price_valid sd mp r)"

definition take_exact :: "env \<Rightarrow> address \<Rightarrow> side \<Rightarrow> nat option \<Rightarrow> nat list \<Rightarrow> taking \<Rightarrow> taking \<Rightarrow> bool" where
  "take_exact e taker sd mp ids k k' \<longleftrightarrow> (\<forall>x. x \<notin> set ids \<longrightarrow> lm_orders (tk_store k') x = lm_orders (tk_store k) x)
     \<and> (\<exists>fs. tk_fills k' = tk_fills k @ fs \<and> (\<forall>f\<in>set fs. of_id f \<in> set ids \<and> live_fill (tk_store k) (now e) sd mp taker f
           \<and> booked (tk_store k) (tk_store k') f))
     \<and> (tk_remaining k' = 0 \<or> (\<forall>x\<in>set ids. \<not> on_offer (tk_store k') (now e) sd mp x))"

lemma take_loop_done: "tk_remaining k = 0 \<Longrightarrow> take_loop e taker sd mp ids k = Inr k' \<Longrightarrow> k' = k"
  by (cases ids) auto

lemma take_exact_skip:
  assumes run: "take_exact e taker sd mp xs k1 k'" and x: "x \<notin> set xs" "\<not> on_offer (tk_store k1) (now e) sd mp x"
    and same: "\<And>y. y \<noteq> x \<Longrightarrow> lm_orders (tk_store k1) y = lm_orders (tk_store k) y" "tk_fills k1 = tk_fills k"
  shows "take_exact e taker sd mp (x # xs) k k'"
proof -
  have l: "live_fill (tk_store k) (now e) sd mp taker f \<and> booked (tk_store k) (tk_store k') f"
    if "of_id f \<in> set xs" "live_fill (tk_store k1) (now e) sd mp taker f \<and> booked (tk_store k1) (tk_store k') f" for f
  proof -
    have "of_id f \<noteq> x" using that(1) x(1) by auto
    from same(1) [OF this] show ?thesis using that(2) by (simp add: live_fill_def booked_def)
  qed
  have "lm_orders (tk_store k') x = lm_orders (tk_store k1) x" using run x(1) by (simp add: take_exact_def)
  then have "\<not> on_offer (tk_store k') (now e) sd mp x" using x(2) by (simp add: on_offer_def)
  then show ?thesis using run l same unfolding take_exact_def by auto
qed

lemma fill_exact:
  assumes ok: "orders_ok (tk_store k)" and r: "lm_orders (tk_store k) x = Some r" "lo_open r" and rem: "0 < tk_remaining k"
    and call: "fill_limit_order e taker k x r = Inr k'"
  obtains f r' where "tk_fills k' = tk_fills k @ [f]" "of_id f = x" "of_maker f = lo_owner r" "of_taker f = taker" "of_price f = lo_price r"
    "0 < of_base f" "of_base f \<le> lo_remaining r" "fill_quote r (of_base f) = Inr (of_quote f)"
    "lm_orders (tk_store k') = (lm_orders (tk_store k))(x \<mapsto> r')" "lo_remaining r' = lo_remaining r - of_base f"
    "tk_remaining k' = 0 \<or> \<not> lo_open r'" "0 \<le> tk_remaining k'"
proof -
  define n where "n = (if lo_remaining r \<le> tk_remaining k then lo_remaining r else tk_remaining k)"
  define f where "f q = \<lparr>of_id = x, of_base = n, of_quote = q, of_price = lo_price r, of_complete = (lo_remaining r - n = 0),
        of_maker = lo_owner r, of_taker = taker\<rparr>" for q
  define r' where "r' = (if lo_remaining r - n = 0
     then r\<lparr>lo_remaining := lo_remaining r - n, lo_amount_filled := lo_amount_filled r + n, lo_status := Filled, lo_filled_at := Some (now e)\<rparr>
     else r\<lparr>lo_remaining := lo_remaining r - n, lo_amount_filled := lo_amount_filled r + n, lo_status := PartiallyFilled\<rparr>)"
  from call obtain quote where quote: "fill_quote r n = Inr quote"
    and k': "k' = \<lparr>tk_store = lm_publish (OrderFill x taker (lo_owner r) n quote (lo_price r)) (save_limit_order r' (tk_store k)),
      tk_remaining = tk_remaining k - n, tk_fills = tk_fills k @ [f quote],
      tk_queue = (if lo_remaining r - n = 0 then remove1 x (tk_queue k) else tk_queue k)\<rparr>"
    unfolding fill_limit_order_def n_def [symmetric] Let_def bindR_eq_Inr i_sub_eq_Inr i_add_eq_Inr f_def r'_def by (auto split: if_splits)
  from orders_okD [OF ok r(1)] have id: "lo_id r = x" and ro: "limit_order_ok r" by simp_all
  then have n: "0 < n" "n \<le> lo_remaining r" "n \<le> tk_remaining k" "n = tk_remaining k \<or> n = lo_remaining r"
    using r(2) rem by (auto simp: n_def limit_order_ok_def)
  show thesis
  proof (rule that [of "f quote" r'])
    show "lm_orders (tk_store k') = (lm_orders (tk_store k))(x \<mapsto> r')" by (simp add: k' save_limit_order_def lm_publish_def r'_def id)
    show "tk_remaining k' = 0 \<or> \<not> lo_open r'" using n(4) by (auto simp: k' r'_def lo_open_def)
  qed (use n quote in \<open>simp_all add: k' f_def r'_def\<close>)
qed

lemma take_exact_fill:
  assumes run: "take_exact e taker sd mp xs k1 k'" and x: "x \<notin> set xs"
    and r: "lm_orders (tk_store k) x = Some r" "lo_open r" "\<not> lo_expired (now e) r" "price_valid sd mp r"
    and f: "tk_fills k1 = tk_fills k @ [f]" "of_id f = x" "of_maker f = lo_owner r" "of_taker f = taker" "of_price f = lo_price r"
      "0 < of_base f" "of_base f \<le> lo_remaining r" "fill_quote r (of_base f) = Inr (of_quote f)"
    and k1: "lm_orders (tk_store k1) = (lm_orders (tk_store k))(x \<mapsto> r')" "lo_remaining r' = lo_remaining r - of_base f"
      "tk_remaining k' = 0 \<or> \<not> lo_open r'"
  shows "take_exact e taker sd mp (x # xs) k k'"
proof -
  have l: "live_fill (tk_store k) (now e) sd mp taker g \<and> booked (tk_store k) (tk_store k') g"
    if "of_id g \<in> set xs" "live_fill (tk_store k1) (now e) sd mp taker g \<and> booked (tk_store k1) (tk_store k') g" for g
  proof -
    have "of_id g \<noteq> x" using that(1) x by auto
    then show ?thesis using that(2) by (simp add: live_fill_def booked_def k1(1))
  qed
  have x': "lm_orders (tk_store k') x = Some r'" using run x by (simp add: take_exact_def k1(1))
  have "live_fill (tk_store k) (now e) sd mp taker f" "booked (tk_store k) (tk_store k') f"
    using r f k1(2) x' by (simp_all add: live_fill_def booked_def)
  moreover have "tk_remaining k' = 0 \<or> \<not> on_offer (tk_store k') (now e) sd mp x" using k1(3) x' by (auto simp: on_offer_def)
  moreover from run obtain gs where "tk_fills k' = tk_fills k1 @ gs" "\<forall>g\<in>set gs. of_id g \<in> set xs \<and> live_fill (tk_store k1) (now e) sd mp taker g
     \<and> booked (tk_store k1) (tk_store k') g" by (auto simp: take_exact_def)
  ultimately show ?thesis using run l f(1,2) unfolding take_exact_def
    by (intro conjI exI [of _ "f # gs"]) (auto simp: k1(1))
qed

lemma take_loop_exact:
  "orders_ok (tk_store k) \<Longrightarrow> distinct ids \<Longrightarrow> 0 \<le> tk_remaining k \<Longrightarrow> take_loop e taker sd mp ids k = Inr k' \<Longrightarrow> take_exact e taker sd mp ids k k'"
proof (induction ids arbitrary: k)
  case Nil
  then show ?case by (simp add: take_exact_def)
next
  case (Cons x xs)
  show ?case
  proof (cases "tk_remaining k \<le> 0")
    case True
    with Cons.prems show ?thesis by (simp add: take_exact_def)
  next
    case rem: False
    have x: "x \<notin> set xs" "distinct xs" using Cons.prems(2) by simp_all
    have skip: "take_exact e taker sd mp (x # xs) k k'"
      if "take_loop e taker sd mp xs k = Inr k'" "\<not> on_offer (tk_store k) (now e) sd mp x"
      using take_exact_skip [OF Cons.IH [OF Cons.prems(1) x(2) Cons.prems(3) that(1)] x(1) that(2)] by simp
    show ?thesis
    proof (cases "lm_orders (tk_store k) x")
      case None
      with Cons.prems rem show ?thesis by (intro skip) (simp_all add: on_offer_def)
    next
      case (Some r)
      consider "\<not> lo_open r" | "lo_open r" "lo_expired (now e) r" | "lo_open r" "\<not> lo_expired (now e) r" "\<not> price_valid sd mp r"
        | "lo_open r" "\<not> lo_expired (now e) r" "price_valid sd mp r" by blast
      then show ?thesis
      proof cases
        case 2
        define k1 where "k1 = k\<lparr>tk_store := save_limit_order (r\<lparr>lo_status := Expired_Order\<rparr>) (tk_store k)\<rparr>"
        have ok1: "orders_ok (tk_store k1)"
          using restatus_ok [OF Cons.prems(1) Some, of Expired_Order] by (simp add: k1_def lo_open_def)
        from Cons.prems rem Some 2 have l: "take_loop e taker sd mp xs k1 = Inr k'" by (simp add: k1_def)
        have id: "lo_id r = x" using orders_okD [OF Cons.prems(1) Some] by simp
        show ?thesis
          by (rule take_exact_skip [OF Cons.IH [OF ok1 x(2) _ l] x(1)])
            (use Cons.prems(3) id in \<open>simp_all add: k1_def on_offer_def save_limit_order_def lo_open_def\<close>)
      next
        case 4
        with Cons.prems rem Some obtain k1 where k1: "fill_limit_order e taker k x r = Inr k1" "take_loop e taker sd mp xs k1 = Inr k'"
          by (auto simp: bindR_eq_Inr)
        from rem have pos: "0 < tk_remaining k" by simp
        have ok1: "orders_ok (tk_store k1)"
          using fill_limit_order_effect [OF Cons.prems(1) Some 4(1) pos k1(1)] by (auto simp: store_kept_def)
        show ?thesis
        proof (rule fill_exact [OF Cons.prems(1) Some 4(1) pos k1(1)])
          fix f r' assume f: "tk_fills k1 = tk_fills k @ [f]" "of_id f = x" "of_maker f = lo_owner r" "of_taker f = taker"
              "of_price f = lo_price r" "0 < of_base f" "of_base f \<le> lo_remaining r" "fill_quote r (of_base f) = Inr (of_quote f)"
            and r': "lm_orders (tk_store k1) = (lm_orders (tk_store k))(x \<mapsto> r')" "lo_remaining r' = lo_remaining r - of_base f"
              "tk_remaining k1 = 0 \<or> \<not> lo_open r'" "0 \<le> tk_remaining k1"
          have "tk_remaining k' = 0 \<or> \<not> lo_open r'" using r'(3) take_loop_done [OF _ k1(2)] by auto
          from take_exact_fill [OF Cons.IH [OF ok1 x(2) r'(4) k1(2)] x(1) Some 4 f r'(1,2) this] show ?thesis .
        qed
      qed (use Cons.prems rem Some in \<open>auto intro!: skip simp: on_offer_def\<close>)
    qed
  qed
qed

lemma limit_queue_distinct: "queue_ok s sd pair q \<Longrightarrow> distinct q"
proof -
  have "\<not> ahead s sd x x" for x by (cases sd) (simp_all add: ahead_def better_def)
  then have "sorted_wrt (ahead s sd) q \<Longrightarrow> distinct q" by (induction q) auto
  then show "queue_ok s sd pair q \<Longrightarrow> distinct q" by (simp add: queue_ok_def)
qed

lemma take_limit_order_exact:
  assumes ok: "orders_ok s" "books_sorted s" and b: "lm_books s (base, quote) = Some b"
    and call: "take_limit_order e s taker base quote sd max_base mp = Inr (fills, s')"
  defines "q \<equiv> (case sd of Buy \<Rightarrow> bk_asks b | Sell \<Rightarrow> bk_bids b)"
  shows "\<forall>f\<in>set fills. of_id f \<in> set q \<and> live_fill s (now e) sd mp taker f \<and> booked s s' f"
    and "sum_list (map of_base fills) = max_base \<or> (\<forall>x\<in>set q. \<not> on_offer s' (now e) sd mp x)"
proof -
  let ?k = "\<lparr>tk_store = s, tk_remaining = max_base, tk_fills = [], tk_queue = q\<rparr>"
  from call b obtain k where pos: "0 < max_base" and run: "take_loop e taker sd mp q ?k = Inr k" and fills: "fills = tk_fills k"
    and s': "lm_orders s' = lm_orders (tk_store k)"
    by (auto simp: take_limit_order_def bindR_eq_Inr require_auth_eq_Inr ensure_eq_Inr ok_or_eq_Inr Let_def q_def)
  have "distinct q" using books_sortedD [OF ok(2) b] limit_queue_distinct by (auto simp: q_def split: side.splits)
  with ok(1) pos have x: "take_exact e taker sd mp q ?k k" by (intro take_loop_exact [OF _ _ _ run]) simp_all
  have "take_run taker sd mp q ?k k" by (rule take_loop_run [OF _ run]) (simp add: ok(1))
  then have "tk_remaining k = max_base - sum_list (map of_base fills)" by (auto simp: take_run_def fills)
  with x show "\<forall>f\<in>set fills. of_id f \<in> set q \<and> live_fill s (now e) sd mp taker f \<and> booked s s' f"
    and "sum_list (map of_base fills) = max_base \<or> (\<forall>x\<in>set q. \<not> on_offer s' (now e) sd mp x)"
    by (auto simp: take_exact_def fills s' booked_def on_offer_def)
qed

text \<open>
  The properties of the counter contract's order book over any run of its operations: the queues keep
  price-time order, a taker is filled inside the limit in queue order and never beyond the maximum,
  and what the snapshot of the book shows.
\<close>

section \<open>Matching and recurring orders\<close>

lemma match_loop_kept:
  assumes "orders_ok s" and "match_loop e token_in token_out p xs (ex, s) = (ex', s')"
  shows "store_kept s s'"
  using assms
proof (induction xs arbitrary: ex s)
  case Nil
  then show ?case by (simp add: store_kept_refl)
next
  case (Cons x xs)
  show ?case
  proof (cases "lm_orders s x")
    case None
    with Cons show ?thesis by simp
  next
    case (Some r)
    have kept: "store_kept s (save_limit_order (r\<lparr>lo_status := Expired_Order\<rparr>) s)"
      "store_kept s (save_limit_order (r\<lparr>lo_status := Filled, lo_filled_at := Some (now e)\<rparr>) s)"
      using orders_okD [OF Cons.prems(1) Some]
      by (auto intro!: store_kept_save [OF Cons.prems(1) Some] simp: lo_terms_def limit_order_ok_def lo_open_def)
    have IH: "store_kept s s'" if "store_kept s s1" "match_loop e token_in token_out p xs (ex1, s1) = (ex', s')" for ex1 s1
      using store_kept_trans [OF that(1) Cons.IH [OF _ that(2)]] that(1) by (simp add: store_kept_def)
    from Cons.prems(2) Some show ?thesis
      by (auto split: if_splits intro: IH kept store_kept_publish store_kept_refl [OF Cons.prems(1)])
  qed
qed

section \<open>Runs\<close>

datatype order_call =
    Place address symbol symbol side int nat "nat option"
  | Take address symbol symbol side int "nat option"
  | Cancel nat address
  | Match symbol symbol nat
  | Execute_Due

fun order_exec :: "env \<Rightarrow> limit_store \<Rightarrow> order_call \<Rightarrow> (limit_store, counter_error) res" where
  "order_exec e s (Place owner base quote sd amount price exp) =
     bindR (place_limit_order e s owner base quote sd amount price exp) (\<lambda>(_, s'). Inr s')"
| "order_exec e s (Take taker base quote sd max_base mp) =
     bindR (take_limit_order e s taker base quote sd max_base mp) (\<lambda>(_, s'). Inr s')"
| "order_exec e s (Cancel k owner) = cancel_limit_order e s k owner"
| "order_exec e s (Match token_in token_out p) = Inr (snd (match_pending_orders e s token_in token_out p))"
| "order_exec e s Execute_Due = bindR (execute_due_orders e s) (\<lambda>(_, s'). Inr s')"

inductive order_step :: "limit_store \<Rightarrow> limit_store \<Rightarrow> bool" where
  order_call: "order_exec e s c = Inr s' \<Longrightarrow> order_step s s'"

inductive_cases order_stepE: "order_step s s'"

abbreviation order_reachable :: "limit_store \<Rightarrow> bool" where
  "order_reachable \<equiv> reachable (\<lambda>s. s = limit_store0) order_step"

lemma order_reach: "reachable init order_step s \<Longrightarrow> order_exec e s c = Inr s' \<Longrightarrow> reachable init order_step s'"
  by (blast intro: reach_step order_call)

definition limit_inv :: "limit_store \<Rightarrow> bool" where
  "limit_inv s \<longleftrightarrow> orders_ok s \<and> books_sorted s \<and> lm_recurring s = None"

lemma limit_inv_kept: "limit_inv s \<Longrightarrow> store_kept s s' \<Longrightarrow> limit_inv s'"
  unfolding limit_inv_def store_kept_def using books_sorted_grows by auto

lemma order_exec_inv:
  assumes inv: "limit_inv s" and call: "order_exec e s c = Inr s'"
  shows "limit_inv s'"
proof (cases c)
  case (Place owner base quote sd amount price exp)
  with call obtain k where "place_limit_order e s owner base quote sd amount price exp = Inr (k, s')"
    by (auto simp: bindR_eq_Inr)
  from place_limit_order_ok [OF _ _ this] inv show ?thesis by (simp add: limit_inv_def)
next
  case (Take taker base quote sd max_base mp)
  with call obtain fs where "take_limit_order e s taker base quote sd max_base mp = Inr (fs, s')"
    by (auto simp: bindR_eq_Inr)
  from take_limit_order_effect [OF _ _ this] inv show ?thesis by (simp add: limit_inv_def)
next
  case (Cancel k owner)
  with call have "cancel_limit_order e s k owner = Inr s'" by simp
  from cancel_limit_order_effect [OF this] obtain r where r: "lm_orders s k = Some r"
    and s': "s' = lm_publish (OrderCancelled k owner (lo_token_in r) (lo_token_out r) (lo_amount_in r))
        (save_limit_order (r\<lparr>lo_status := Cancelled\<rparr>) s)"
    by blast
  have "orders_ok s" using inv by (simp add: limit_inv_def)
  from restatus_ok [OF this r, of Cancelled]
  have "store_kept s (save_limit_order (r\<lparr>lo_status := Cancelled\<rparr>) s)" by (simp add: lo_open_def store_kept_def)
  from store_kept_publish [OF this] show ?thesis unfolding s' by (rule limit_inv_kept [OF inv])
next
  case (Match token_in token_out p)
  have "store_kept s s'"
  proof (cases "lm_books s (token_in, token_out)")
    case None
    with inv call Match show ?thesis by (simp add: match_pending_orders_def limit_inv_def store_kept_refl)
  next
    case (Some b)
    with call Match have "match_loop e token_in token_out p (bk_buy_orders b) ([], s) =
      (fst (match_loop e token_in token_out p (bk_buy_orders b) ([], s)), s')"
      by (simp add: match_pending_orders_def prod_eq_iff)
    then show ?thesis using match_loop_kept inv unfolding limit_inv_def by blast
  qed
  then show ?thesis by (rule limit_inv_kept [OF inv])
next
  case Execute_Due
  with call inv show ?thesis by (simp add: execute_due_orders_def limit_inv_def)
qed

interpretation order_machine: machine_invariant "\<lambda>s. s = limit_store0" order_step limit_inv
proof
  show "limit_inv s" if "s = limit_store0" for s
    using that by (simp add: limit_inv_def limit_store0_def orders_ok_def books_sorted_def)
  show "limit_inv t" if inv: "limit_inv s" and st: "order_step s t" for s t
    using st inv order_exec_inv by (auto elim: order_stepE)
qed

section \<open>Priority\<close>

text \<open>
  C18: in every book a run of calls leads to, each queue names orders of its own side and pair in
  price-time order (the best price first, the older order first at a price), and what is filled and
  what remains of an order always add up to its amount.
\<close>

theorem queues_keep_priority:
  assumes run: "order_reachable s" and b: "lm_books s (base, quote) = Some b"
  shows "sorted_wrt (ahead s Buy) (bk_bids b) \<and> sorted_wrt (ahead s Sell) (bk_asks b)
    \<and> (\<forall>x\<in>set (bk_bids b). \<exists>r. get_limit_order s x = Inr r \<and> lo_side r = Buy \<and> lo_base r = base \<and> lo_quote r = quote)
    \<and> (\<forall>x\<in>set (bk_asks b). \<exists>r. get_limit_order s x = Inr r \<and> lo_side r = Sell \<and> lo_base r = base \<and> lo_quote r = quote)
    \<and> (\<forall>x r. get_limit_order s x = Inr r \<longrightarrow> lo_amount_filled r + lo_remaining r = lo_amount r \<and> 0 \<le> lo_remaining r)"
proof -
  from order_machine.inv_reachable [OF run] have inv: "orders_ok s" "books_sorted s" by (simp_all add: limit_inv_def)
  from books_sortedD [OF inv(2) b] have q: "queue_ok s Buy (base, quote) (bk_bids b)" "queue_ok s Sell (base, quote) (bk_asks b)"
    by simp_all
  have "lo_amount_filled r + lo_remaining r = lo_amount r \<and> 0 \<le> lo_remaining r" if "lm_orders s x = Some r" for x r
    using orders_okD [OF inv(1) that] by (simp add: limit_order_ok_def)
  with q show ?thesis unfolding queue_ok_def by (simp add: get_limit_order_def ok_or_eq_Inr)
qed

text \<open>
  C14: a taker is filled inside the limit, best orders first. The fills follow the queue of the opposite side and
  together take at most the amount asked for. Each is a fill, for the authorised taker, of an order of that
  side and pair which was open and not expired, at the order's own price, within the limit, of no more than
  was open, and the order keeps exactly the rest; its quote is the price times the amount divided by 10^18,
  rounded down, as the code computes it. Nothing is passed over: unless the taker got everything, no order of
  the queue is left open, unexpired and within the limit.
\<close>

theorem taker_filled_within_limit:
  assumes run: "order_reachable s"
    and call: "take_limit_order e s taker base quote sd max_base (Some p) = Inr (fills, s')"
  shows "\<exists>b q. lm_books s (base, quote) = Some b \<and> q = (case sd of Buy \<Rightarrow> bk_asks b | Sell \<Rightarrow> bk_bids b)
    \<and> subseq (map of_id fills) q \<and> sum_list (map of_base fills) \<le> max_base \<and> authorized e taker
    \<and> (\<forall>f\<in>set fills. \<exists>r r'. lm_orders s (of_id f) = Some r \<and> lo_open r \<and> \<not> lo_expired (now e) r
         \<and> lo_side r = (case sd of Buy \<Rightarrow> Sell | Sell \<Rightarrow> Buy) \<and> (lo_base r, lo_quote r) = (base, quote)
         \<and> of_maker f = lo_owner r \<and> of_taker f = taker \<and> of_price f = lo_price r
         \<and> (case sd of Buy \<Rightarrow> of_price f \<le> p | Sell \<Rightarrow> p \<le> of_price f)
         \<and> 0 < of_base f \<and> of_base f \<le> lo_remaining r \<and> fill_quote r (of_base f) = Inr (of_quote f)
         \<and> lm_orders s' (of_id f) = Some r' \<and> lo_remaining r' = lo_remaining r - of_base f)
    \<and> (sum_list (map of_base fills) = max_base \<or> (\<forall>x\<in>set q. \<not> on_offer s' (now e) sd (Some p) x))"
proof -
  from order_machine.inv_reachable [OF run] have inv: "orders_ok s" "books_sorted s" by (simp_all add: limit_inv_def)
  from take_limit_order_effect [OF inv call] obtain b where b: "lm_books s (base, quote) = Some b"
    "subseq (map of_id fills) (case sd of Buy \<Rightarrow> bk_asks b | Sell \<Rightarrow> bk_bids b)" "sum_list (map of_base fills) \<le> max_base" "authorized e taker"
    by blast
  note x = take_limit_order_exact [OF inv b(1) call]
  have "queue_ok s (case sd of Buy \<Rightarrow> Sell | Sell \<Rightarrow> Buy) (base, quote) (case sd of Buy \<Rightarrow> bk_asks b | Sell \<Rightarrow> bk_bids b)"
    using books_sortedD [OF inv(2) b(1)] by (cases sd) simp_all
  then have side: "\<exists>r. lm_orders s x = Some r \<and> lo_side r = (case sd of Buy \<Rightarrow> Sell | Sell \<Rightarrow> Buy) \<and> (lo_base r, lo_quote r) = (base, quote)"
    if "x \<in> set (case sd of Buy \<Rightarrow> bk_asks b | Sell \<Rightarrow> bk_bids b)" for x
    using that unfolding queue_ok_def by blast
  have "\<exists>r r'. lm_orders s (of_id f) = Some r \<and> lo_open r \<and> \<not> lo_expired (now e) r
         \<and> lo_side r = (case sd of Buy \<Rightarrow> Sell | Sell \<Rightarrow> Buy) \<and> (lo_base r, lo_quote r) = (base, quote)
         \<and> of_maker f = lo_owner r \<and> of_taker f = taker \<and> of_price f = lo_price r
         \<and> (case sd of Buy \<Rightarrow> of_price f \<le> p | Sell \<Rightarrow> p \<le> of_price f)
         \<and> 0 < of_base f \<and> of_base f \<le> lo_remaining r \<and> fill_quote r (of_base f) = Inr (of_quote f)
         \<and> lm_orders s' (of_id f) = Some r' \<and> lo_remaining r' = lo_remaining r - of_base f" if "f \<in> set fills" for f
  proof -
    from that x(1) have f: "of_id f \<in> set (case sd of Buy \<Rightarrow> bk_asks b | Sell \<Rightarrow> bk_bids b)"
      "live_fill s (now e) sd (Some p) taker f" "booked s s' f" by blast+
    from f(2,3) side [OF f(1)] show ?thesis unfolding live_fill_def booked_def price_valid_def by (cases sd) auto
  qed
  with b x(2) show ?thesis by blast
qed

section \<open>The snapshot\<close>

definition level_prices :: "order_level list \<Rightarrow> nat list" where
  "level_prices ls = map ol_price ls"

definition level_amount :: "order_level list \<Rightarrow> nat \<Rightarrow> int" where
  "level_amount ls p = sum_list (map ol_amount (filter (\<lambda>l. ol_price l = p) ls))"

definition open_orders :: "limit_store \<Rightarrow> nat list \<Rightarrow> limit_order list" where
  "open_orders s q = filter lo_open (List.map_filter (lm_orders s) q)"

definition open_prices :: "limit_store \<Rightarrow> nat list \<Rightarrow> nat set" where
  "open_prices s q = lo_price ` set (open_orders s q)"

definition open_depth :: "limit_store \<Rightarrow> nat list \<Rightarrow> nat \<Rightarrow> int" where
  "open_depth s q p = sum_list (map lo_remaining (filter (\<lambda>r. lo_price r = p) (open_orders s q)))"

lemma level_add_effect:
  assumes "level_add p a ls = Inr ls'"
  shows "set (level_prices ls') = insert p (set (level_prices ls))
    \<and> (sorted_wrt (<) (level_prices ls) \<longrightarrow> sorted_wrt (<) (level_prices ls'))
    \<and> level_amount ls' q = level_amount ls q + (if q = p then a else 0)"
  using assms
proof (induction ls arbitrary: ls')
  case Nil
  then show ?case by (auto simp: bindR_eq_Inr i_add_eq_Inr level_prices_def level_amount_def)
next
  case (Cons l ls)
  consider "p < ol_price l" | "p = ol_price l" | "ol_price l < p" by linarith
  then show ?case
  proof cases
    case 3
    with Cons.prems obtain ls1 where ls1: "level_add p a ls = Inr ls1" "ls' = l # ls1" by (auto simp: bindR_eq_Inr)
    from Cons.IH [OF ls1(1)] 3 show ?thesis
      unfolding ls1(2) by (auto simp: level_prices_def level_amount_def)
  next
    case 1
    have "p < ol_price x" if "\<forall>x\<in>set ls. ol_price l < ol_price x" "x \<in> set ls" for x
      using that 1 less_trans by blast
    with Cons.prems 1 show ?thesis by (auto simp: bindR_eq_Inr i_add_eq_Inr level_prices_def level_amount_def)
  next
    case 2
    with Cons.prems show ?thesis by (auto simp: bindR_eq_Inr i_add_eq_Inr level_prices_def level_amount_def)
  qed
qed

lemma side_levels_effect:
  assumes "side_levels s q ls = Inr ls'"
  shows "set (level_prices ls') = set (level_prices ls) \<union> open_prices s q
    \<and> (sorted_wrt (<) (level_prices ls) \<longrightarrow> sorted_wrt (<) (level_prices ls'))
    \<and> level_amount ls' p = level_amount ls p + open_depth s q p"
  using assms
proof (induction q arbitrary: ls)
  case Nil
  then show ?case by (simp add: open_prices_def open_depth_def open_orders_def map_filter_def)
next
  case (Cons x xs)
  have skip: "open_orders s (x # xs) = (case lm_orders s x of Some r \<Rightarrow> if lo_open r then [r] else [] | None \<Rightarrow> []) @ open_orders s xs"
    by (simp add: open_orders_def map_filter_def split: option.splits)
  show ?case
  proof (cases "\<exists>r. lm_orders s x = Some r \<and> lo_open r")
    case True
    then obtain r where r: "lm_orders s x = Some r" "lo_open r" by blast
    with Cons.prems obtain ls1 where ls1: "level_add (lo_price r) (lo_remaining r) ls = Inr ls1" "side_levels s xs ls1 = Inr ls'"
      by (auto simp: bindR_eq_Inr)
    have o: "open_orders s (x # xs) = r # open_orders s xs" by (simp add: skip r)
    then have "open_prices s (x # xs) = insert (lo_price r) (open_prices s xs)"
      "open_depth s (x # xs) p = (if p = lo_price r then lo_remaining r else 0) + open_depth s xs p"
      by (simp_all add: open_prices_def open_depth_def)
    with level_add_effect [OF ls1(1), of p] Cons.IH [OF ls1(2)] show ?thesis by auto
  next
    case False
    then have "side_levels s (x # xs) ls = side_levels s xs ls" "open_orders s (x # xs) = open_orders s xs"
      by (auto simp: skip split: option.splits)
    with Cons.IH [of ls] Cons.prems show ?thesis by (simp add: open_prices_def open_depth_def)
  qed
qed

lemma side_levels_list:
  assumes "side_levels s q [] = Inr ls"
  shows "level_prices ls = sorted_list_of_set (open_prices s q) \<and> (\<forall>l\<in>set ls. ol_amount l = open_depth s q (ol_price l))"
proof -
  from side_levels_effect [OF assms]
  have eff: "set (level_prices ls) = open_prices s q" "sorted_wrt (<) (level_prices ls)" "\<And>p. level_amount ls p = open_depth s q p"
    by (simp_all add: level_prices_def level_amount_def)
  have "level_prices ls = sorted_list_of_set (set (level_prices ls))"
    using eff(2) by (simp add: strict_sorted_iff sorted_list_of_set.idem_if_sorted_distinct)
  moreover have "ol_amount l = open_depth s q (ol_price l)" if "l \<in> set ls" for l
  proof -
    have d: "distinct (map ol_price ls)" using eff(2) by (simp add: strict_sorted_iff level_prices_def)
    have "filter (\<lambda>k. ol_price k = ol_price l) ls = [l]"
      using that d by (induction ls) (auto simp: filter_empty_conv image_iff)
    with eff(3) [of "ol_price l"] show ?thesis by (simp add: level_amount_def)
  qed
  ultimately show ?thesis using eff(1) by auto
qed

text \<open>
  The snapshot shows the best bids, each level with the open amount at its price, but not the
  best asks: the loop that should keep the lowest \<open>max_levels\<close> ask prices removes them from the map
  and shows the ones behind them, so a book whose asks have at most \<open>max_levels\<close> prices shows none.
\<close>

theorem snapshot_hides_best_asks:
  assumes b: "lm_books s (base, quote) = Some b"
    and call: "get_orderbook_snapshot e s base quote max_levels = Inr sn"
  shows "map ol_price (sn_bids sn) = take max_levels (rev (sorted_list_of_set (open_prices s (bk_bids b))))
    \<and> (\<forall>l\<in>set (sn_bids sn). ol_amount l = open_depth s (bk_bids b) (ol_price l))
    \<and> map ol_price (sn_asks sn) = take max_levels (drop max_levels (sorted_list_of_set (open_prices s (bk_asks b))))
    \<and> (card (open_prices s (bk_asks b)) \<le> max_levels \<longrightarrow> sn_asks sn = [])"
proof -
  from call b obtain bids asks where lv: "side_levels s (bk_bids b) [] = Inr bids" "side_levels s (bk_asks b) [] = Inr asks"
    and sn: "sn_bids sn = take max_levels (rev bids)" "sn_asks sn = take max_levels (drop max_levels asks)"
    by (auto simp: get_orderbook_snapshot_def bindR_eq_Inr ok_or_eq_Inr)
  note bids = side_levels_list [OF lv(1)] and asks = side_levels_list [OF lv(2)]
  have len: "length asks = card (open_prices s (bk_asks b))"
    using asks length_sorted_list_of_set [of "open_prices s (bk_asks b)"] by (metis level_prices_def length_map)
  show ?thesis
  proof (intro conjI ballI impI)
    show "map ol_price (sn_bids sn) = take max_levels (rev (sorted_list_of_set (open_prices s (bk_bids b))))"
      unfolding sn by (metis bids level_prices_def rev_map take_map)
    show "map ol_price (sn_asks sn) = take max_levels (drop max_levels (sorted_list_of_set (open_prices s (bk_asks b))))"
      unfolding sn by (metis asks level_prices_def drop_map take_map)
    show "ol_amount l = open_depth s (bk_bids b) (ol_price l)" if "l \<in> set (sn_bids sn)" for l
      using that bids by (auto simp: sn dest: in_set_takeD)
    show "sn_asks sn = []" if "card (open_prices s (bk_asks b)) \<le> max_levels" using that len by (simp add: sn)
  qed
qed

section \<open>Witnesses\<close>

text \<open>Two sales: four units at 2 and six units at 3.\<close>

definition demo_sell1 :: limit_store where
  "demo_sell1 = (case place_limit_order (demo_env 2 0) limit_store0 (Addr 2) ''A'' ''B'' Sell 4 (2 * FILL_PRECISION) None
     of Inr (_, s) \<Rightarrow> s | Inl _ \<Rightarrow> limit_store0)"

definition demo_sell2 :: limit_store where
  "demo_sell2 = (case place_limit_order (demo_env 2 0) demo_sell1 (Addr 2) ''A'' ''B'' Sell 6 (3 * FILL_PRECISION) None
     of Inr (_, s) \<Rightarrow> s | Inl _ \<Rightarrow> demo_sell1)"

lemmas demo_order_defs = place_limit_order_def add_to_order_book_def save_limit_order_def lm_publish_def require_auth_def
  demo_env_def ensure_def bindR_def u_add_def FILL_PRECISION_def empty_book_def with_queues_def

lemma demo_sell1_eq:
  "place_limit_order (demo_env 2 0) limit_store0 (Addr 2) ''A'' ''B'' Sell 4 (2 * FILL_PRECISION) None = Inr (1, demo_sell1)"
  by (simp add: demo_sell1_def demo_order_defs limit_store0_def)

lemma demo_sell2_eq:
  "place_limit_order (demo_env 2 0) demo_sell1 (Addr 2) ''A'' ''B'' Sell 6 (3 * FILL_PRECISION) None = Inr (2, demo_sell2)"
  by (simp add: demo_sell2_def demo_sell1_def demo_order_defs limit_store0_def)

lemma demo_sell2_reachable: "order_reachable demo_sell2"
proof -
  have "order_reachable demo_sell1"
    by (rule order_reach [where s = limit_store0 and e = "demo_env 2 0" and c = "Place (Addr 2) ''A'' ''B'' Sell 4 (2 * FILL_PRECISION) None"])
      (simp_all add: demo_sell1_eq bindR_def reach_init)
  then show ?thesis
    by (rule order_reach [where e = "demo_env 2 0" and c = "Place (Addr 2) ''A'' ''B'' Sell 6 (3 * FILL_PRECISION) None"])
      (simp add: demo_sell2_eq bindR_def)
qed

lemma demo_book: "\<exists>b. lm_books demo_sell2 (''A'', ''B'') = Some b \<and> bk_asks b = [1, 2] \<and> bk_bids b = []"
  by (simp add: demo_sell2_def demo_sell1_def demo_order_defs limit_store0_def)

theorem queues_keep_priority_witness:
  "\<exists>b. lm_books demo_sell2 (''A'', ''B'') = Some b \<and> bk_asks b = [1, 2] \<and> sorted_wrt (ahead demo_sell2 Sell) (bk_asks b)"
  using demo_book queues_keep_priority [OF demo_sell2_reachable] by blast

lemma demo_take:
  "\<exists>fills s. take_limit_order (demo_env 3 1) demo_sell2 (Addr 3) ''A'' ''B'' Buy 5 (Some (2 * FILL_PRECISION)) = Inr (fills, s)
    \<and> map of_base fills = [4] \<and> map of_quote fills = [8]"
  by (simp add: demo_sell2_def demo_sell1_def demo_order_defs limit_store0_def take_limit_order_def lo_open_def lo_expired_def
      price_valid_def fill_limit_order_def fill_quote_def ok_or_def u_mul_def i_sub_def i_add_def i_check_def as_u128_def as_i128_def
      i128_ok_def I128_MIN_def I128_MAX_def)

theorem taker_filled_within_limit_witness:
  "\<exists>f s r'. take_limit_order (demo_env 3 1) demo_sell2 (Addr 3) ''A'' ''B'' Buy 5 (Some (2 * FILL_PRECISION)) = Inr ([f], s)
    \<and> of_base f = 4 \<and> of_price f \<le> 2 * FILL_PRECISION \<and> lm_orders s (of_id f) = Some r' \<and> \<not> on_offer s 1 Buy (Some (2 * FILL_PRECISION)) 2"
proof -
  obtain fills s where 1: "take_limit_order (demo_env 3 1) demo_sell2 (Addr 3) ''A'' ''B'' Buy 5 (Some (2 * FILL_PRECISION)) = Inr (fills, s)"
    "map of_base fills = [4]" using demo_take by metis
  then obtain f where f: "fills = [f]" "of_base f = 4" by auto
  obtain b where b: "lm_books demo_sell2 (''A'', ''B'') = Some b" "bk_asks b = [1, 2]" using demo_book by blast
  have "now (demo_env 3 1) = 1" by (simp add: demo_env_def)
  with taker_filled_within_limit [OF demo_sell2_reachable 1(1)] 1(1) f b show ?thesis by auto
qed

lemma demo_snapshot: "\<exists>sn. get_orderbook_snapshot (demo_env 3 1) demo_sell2 ''A'' ''B'' 2 = Inr sn"
  by (simp add: demo_sell2_def demo_sell1_def demo_order_defs limit_store0_def get_orderbook_snapshot_def lo_open_def ok_or_def
      i_add_def i_check_def i128_ok_def I128_MIN_def I128_MAX_def)

theorem snapshot_hides_best_asks_witness:
  "\<exists>sn. get_orderbook_snapshot (demo_env 3 1) demo_sell2 ''A'' ''B'' 2 = Inr sn \<and> sn_asks sn = []"
proof -
  obtain sn where sn: "get_orderbook_snapshot (demo_env 3 1) demo_sell2 ''A'' ''B'' 2 = Inr sn" using demo_snapshot by blast
  obtain b where b: "lm_books demo_sell2 (''A'', ''B'') = Some b" "bk_asks b = [1, 2]" using demo_book by blast
  have "open_prices demo_sell2 [1, 2] \<subseteq> {2 * FILL_PRECISION, 3 * FILL_PRECISION}"
    by (auto simp: open_prices_def open_orders_def map_filter_def demo_sell2_def demo_sell1_def demo_order_defs limit_store0_def)
  from card_mono [OF _ this] have "card (open_prices demo_sell2 (bk_asks b)) \<le> 2"
    unfolding b(2) by (rule order_trans) (auto simp: card_insert_if)
  with snapshot_hides_best_asks [OF b(1) sn] sn show ?thesis by blast
qed

end
