(* ===== verification/Market_Props.thy ===== *)
theory Market_Props
  imports Market_Inv Orders_Props
begin

text \<open>
  The properties of the trading entry points over any run of calls: what a swap moves and that none
  ever fills, what the limit orders settle, the cached queries, the leaderboard, the badges and the
  batches.
\<close>

section \<open>Balances\<close>

lemma balance_simps [simp]:
  "balance_of (count_balance_update p) t v = balance_of p t v" "balance_of (update_stats_on_trade p u x) t v = balance_of p t v"
  "balance_of (update_top_traders p u) t v = balance_of p t v" "balance_of (add_lp_fees p x) t v = balance_of p t v"
  "balance_of (move_reserves p c x y z w) t v = balance_of p t v" "balance_of (add_pool_liquidity p x y) t v = balance_of p t v"
  "balance_of (record_lp_deposit p u) t v = balance_of p t v" "balance_of (set_liquidity p a x) t v = balance_of p t v"
  by (simp_all add: balance_of_def count_balance_update_def update_stats_on_trade_def update_top_traders_def add_lp_fees_def
      move_reserves_def set_liquidity_def add_pool_liquidity_def record_lp_deposit_def Let_def split: asset.splits)

lemma debit_balance:
  "debit p t u x = Inr p' \<Longrightarrow> balance_of p' s v = balance_of p s v - (if s = t \<and> v = u then x else 0)"
  by (auto simp: debit_def bindR_eq_Inr ensure_eq_Inr i_sub_eq_Inr Let_def) (simp_all add: balance_of_def or_else_def)

lemma credit_balance:
  "credit p t u x = Inr p' \<Longrightarrow> 0 \<le> x \<and> balance_of p' s v = balance_of p s v + (if s = t \<and> v = u then x else 0)"
  by (auto simp: credit_def bindR_eq_Inr ensure_eq_Inr i_add_eq_Inr split: if_splits) (simp_all add: balance_of_def or_else_def)

lemma mint_balance:
  "mint p t u x = Inr p' \<Longrightarrow> 0 \<le> x \<and> balance_of p' s v = balance_of p s v + (if s = t \<and> v = u then x else 0)"
  by (auto simp: mint_def bindR_eq_Inr ensure_eq_Inr i_add_eq_Inr Let_def) (simp_all add: balance_of_def or_else_def)

section \<open>Swaps\<close>

text \<open>
  No run of the deployed entry points can configure the oracle adapter, so no swap ever fills:
  \<open>swap\<close> always fails, a swap in a batch always fails and changes nothing, and \<open>safe_swap\<close> always
  returns 0 without moving a balance, but still counts a trade for a well-formed request.
\<close>

theorem swaps_never_fill:
  assumes run: "market_reachable claims m"
  shows "cc_swap e m a b x u \<noteq> Inr result
    \<and> (\<forall>p r p'. execute_single_operation e m p (Swap a b x u) = Inr (r, p') \<longrightarrow> p' = p \<and> (\<exists>f. r = Inl f))
    \<and> (\<forall>out m'. cc_safe_swap e m a b x u t = Inr (out, m') \<longrightarrow> out = 0
        \<and> (\<forall>s v. balance_of (load_portfolio m') s v = balance_of (load_portfolio m) s v)
        \<and> (now e \<le> t \<and> not_paused m \<and> is_verified e (mk_kyc m) u \<and> is_valid_token a \<and> is_valid_token b \<and> a \<noteq> b \<and> 0 < x
           \<longrightarrow> pt_trades (load_portfolio m') u = Some (or_else (pt_trades (load_portfolio m) u) 0 + 1)))"
proof -
  from market_machine.inv_reachable [OF run] have ok: "market_ok m" .
  have "perform_swap e m p a b x u None \<noteq> Inr r" for p r
    by (rule perform_swap_unconfigured [OF market_okD(2) [OF ok]])
  then have fail: "\<exists>f. perform_swap e m p a b x u None = Inl f" for p
    by (cases "perform_swap e m p a b x u None") auto
  have trade: "pt_balances q = pt_balances p \<and> pt_trades q u = Some (or_else (pt_trades p u) 0 + 1)"
    if "record_trade e p u = Inr q" for p q
    using that
    by (auto simp: record_trade_def bindR_eq_Inr u_add_eq_Inr Let_def award_badge_def badge_awarded_def split: if_splits)
  have flush: "pt_balances (flush_badge_events q) = pt_balances q" "pt_trades (flush_badge_events q) = pt_trades q" for q
    by (simp_all add: flush_badge_events_def split: option.splits)
  show ?thesis
  proof (intro conjI allI impI)
    show "cc_swap e m a b x u \<noteq> Inr result" by (rule cc_swap_fails [OF ok])
    show "p' = p" "\<exists>f. r = Inl f" if "execute_single_operation e m p (Swap a b x u) = Inr (r, p')" for p r p'
      using that fail [of p] by (auto split: if_splits fault.splits)
    fix out m' assume call: "cc_safe_swap e m a b x u t = Inr (out, m')"
    note eff = safe_swap_effect [OF ok call]
    then show "out = 0" by blast
    show "balance_of (load_portfolio m') s v = balance_of (load_portfolio m) s v" for s v
      using eff trade by (auto simp: balance_of_def flush inc_failed_order_def)
    show "pt_trades (load_portfolio m') u = Some (or_else (pt_trades (load_portfolio m) u) 0 + 1)"
      if "now e \<le> t \<and> not_paused m \<and> is_verified e (mk_kyc m) u \<and> is_valid_token a \<and> is_valid_token b \<and> a \<noteq> b \<and> 0 < x"
    proof -
      from fail [of "load_portfolio m"] obtain f where "perform_swap e m (load_portfolio m) a b x u None = Inl f" by blast
      with that call obtain p where "record_trade e (load_portfolio m) u = Inr p" "m' = drop_caches (store_portfolio m (flush_badge_events p))"
        by (cases f) (auto simp: cc_safe_swap_def Let_def bindR_eq_Inr is_valid_token_def split: if_splits)
      with trade show ?thesis by (simp add: flush)
    qed
  qed
qed

text \<open>
  A swap that fills charges twice: the user pays the amount two times and receives the amount
  itself in the other asset on top of the output of the pool. No other balance changes.
\<close>

theorem swap_charges_twice:
  assumes "perform_swap e m p a b x u mo = Inr (out, p')"
  shows "\<exists>A B. symbol_to_asset a = Some A \<and> symbol_to_asset b = Some B \<and> A \<noteq> B \<and> 0 < x \<and> 0 < out
    \<and> balance_of p' A u = balance_of p A u - 2 * x \<and> balance_of p' B u = balance_of p B u + x + out
    \<and> (\<forall>t v. v \<noteq> u \<or> t \<noteq> A \<and> t \<noteq> B \<longrightarrow> balance_of p' t v = balance_of p t v)"
proof -
  from assms obtain A B p1 p2 p3 p4 where as: "symbol_to_asset a = Some A" "symbol_to_asset b = Some B" "a \<noteq> b" "0 < x" "0 < out"
    and p: "transfer_asset p A B u x = Inr p1" "debit p1 A u x = Inr p2" "credit p2 B u out = Inr p3"
    and p4: "\<forall>t v. balance_of p' t v = balance_of p3 t v"
    by (auto simp: perform_swap_def bindR_eq_Inr ensure_eq_Inr ok_or_eq_Inr Let_def split: if_splits)
  have "A \<noteq> B" using as(1-3) by (auto simp: symbol_to_asset_def split: if_splits)
  from p(1) obtain q1 q2 where q: "debit p A u x = Inr q1" "credit q1 B u x = Inr q2" "p1 = update_stats_on_trade q2 u x"
    by (auto simp: transfer_asset_def bindR_eq_Inr)
  have bal: "balance_of p' t v = balance_of p t v - (if t = A \<and> v = u then 2 * x else 0) + (if t = B \<and> v = u then x + out else 0)" for t v
    using debit_balance [OF q(1), of t v] credit_balance [OF q(2), of t v] debit_balance [OF p(2), of t v] credit_balance [OF p(3), of t v]
    by (simp add: p4 q(3))
  with as \<open>A \<noteq> B\<close> show ?thesis by auto
qed

section \<open>Limit orders\<close>

lemma settle_fills_balance:
  assumes "foldR (settle_limit_fill base quote sd taker) fs p = Inr p'"
  shows "balance_of p s v \<le> balance_of p' s v \<and> (asset_of base \<noteq> asset_of quote \<longrightarrow>
    (case sd of Buy \<Rightarrow> balance_of p' (asset_of base) taker = balance_of p (asset_of base) taker + sum_list (map of_base fs)
     | Sell \<Rightarrow> balance_of p' (asset_of quote) taker = balance_of p (asset_of quote) taker + sum_list (map of_quote fs)))"
  using assms
proof (induction fs arbitrary: p)
  case Nil
  then show ?case by (cases sd) simp_all
next
  case (Cons f fs)
  then obtain p2 where p2: "settle_limit_fill base quote sd taker f p = Inr p2" "foldR (settle_limit_fill base quote sd taker) fs p2 = Inr p'"
    by (auto simp: bindR_eq_Inr)
  show ?case
  proof (cases sd)
    case Buy
    with p2(1) obtain p1 where p1: "credit p (asset_of base) taker (of_base f) = Inr p1" "credit p1 (asset_of quote) (of_maker f) (of_quote f) = Inr p2"
      by (auto simp: settle_limit_fill_def bindR_eq_Inr)
    from Cons.IH [OF p2(2)] credit_balance [OF p1(1), of s v] credit_balance [OF p1(2), of s v]
      credit_balance [OF p1(1), of "asset_of base" taker] credit_balance [OF p1(2), of "asset_of base" taker] Buy
    show ?thesis by (auto split: if_splits)
  next
    case Sell
    with p2(1) obtain p1 where p1: "credit p (asset_of quote) taker (of_quote f) = Inr p1" "credit p1 (asset_of base) (of_maker f) (of_base f) = Inr p2"
      by (auto simp: settle_limit_fill_def bindR_eq_Inr)
    from Cons.IH [OF p2(2)] credit_balance [OF p1(1), of s v] credit_balance [OF p1(2), of s v]
      credit_balance [OF p1(1), of "asset_of quote" taker] credit_balance [OF p1(2), of "asset_of quote" taker] Sell
    show ?thesis by (auto split: if_splits)
  qed
qed

text \<open>
  Taking limit orders is free: no balance of anybody falls, and the taker receives the whole of
  what the fills name (for two different assets).
\<close>

theorem taker_pays_nothing:
  assumes "cc_take_order e m base quote sd max_base mp taker = Inr (fills, m')"
  shows "balance_of (load_portfolio m) s v \<le> balance_of (load_portfolio m') s v
    \<and> (asset_of base \<noteq> asset_of quote \<longrightarrow>
      (case sd of
         Buy \<Rightarrow> cc_balance_of m' base taker = cc_balance_of m base taker + sum_list (map of_base fills)
       | Sell \<Rightarrow> cc_balance_of m' quote taker = cc_balance_of m quote taker + sum_list (map of_quote fills)))"
proof -
  from assms obtain p1 orders1 where p1: "foldR (settle_limit_fill base quote sd taker) fills (load_portfolio m) = Inr p1"
    and m': "m' = (drop_caches (store_portfolio m p1))\<lparr>mk_orders := orders1\<rparr>"
    by (auto simp: cc_take_order_def bindR_eq_Inr)
  from settle_fills_balance [OF p1, of s v] show ?thesis by (cases sd) (simp_all add: m' cc_balance_of_def)
qed

section \<open>Queries\<close>

text \<open>
  C16: as long as nobody claims from the faucet, the cached queries answer what the stored portfolio
  answers, for every time to live and in any order of queries and calls.
\<close>

theorem cached_queries_current:
  assumes "market_reachable False m"
  shows "fst (cc_get_portfolio e m u) = get_portfolio (load_portfolio m) u
    \<and> fst (cc_get_top_traders e m n) = get_top_traders (load_portfolio m) n"
  using cache_machine.inv_reachable [OF assms] get_portfolio_query get_top_traders_query by blast

text \<open>
  A faucet claim does not drop the caches: while a cached entry lives, the query goes on
  answering the profit and loss from before the claim, which the claim raised by the amount paid.
\<close>

theorem faucet_serves_stale_answers:
  assumes run: "market_reachable False m" and claim: "claim_faucet e m u a = Inr (x, m')"
    and entry: "mk_pcache m u = Some entry" and fresh: "now e' - cp_cached_at entry \<le> get_cache_ttl m"
  shows "fst (cc_get_portfolio e' m' u) = get_portfolio (load_portfolio m) u
    \<and> snd (get_portfolio (load_portfolio m') u) = snd (get_portfolio (load_portfolio m) u) + x"
proof -
  from cache_machine.inv_reachable [OF run] entry have c: "(cp_trades entry, cp_pnl entry) = get_portfolio (load_portfolio m) u"
    by (simp add: cache_ok_def)
  from claim obtain p where p: "mint (load_portfolio m) (asset_of a) u x = Inr p" and m': "load_portfolio m' = p"
    "mk_pcache m' = mk_pcache m" "mk_ttl m' = mk_ttl m"
    by (auto simp: claim_faucet_def bindR_eq_Inr Let_def store_portfolio_def load_portfolio_def or_else_def)
  from p have "pnl_of p u = pnl_of (load_portfolio m) u + x"
    by (auto simp: mint_def bindR_eq_Inr ensure_eq_Inr i_add_eq_Inr Let_def count_balance_update_def update_top_traders_def
        pnl_of_def or_else_def)
  with c entry fresh m' show ?thesis
    by (simp add: cc_get_portfolio_def get_cache_ttl_def get_portfolio_def pnl_of_def)
qed

text \<open>
  The leaderboard is ranked, free of duplicates and at most a hundred long, and shows no trader
  below the current profit and loss. (It shows values from before later losses: only minting ranks
  a trader again.)
\<close>

theorem leaderboard_never_understates:
  assumes "market_reachable claims m"
  shows "sorted_wrt (\<lambda>x y. snd y \<le> snd x) (get_top_traders (load_portfolio m) 100)
    \<and> distinct (map fst (get_top_traders (load_portfolio m) 100)) \<and> length (get_top_traders (load_portfolio m) 100) \<le> 100
    \<and> (\<forall>(u, v) \<in> set (get_top_traders (load_portfolio m) 100). snd (get_portfolio (load_portfolio m) u) \<le> v)"
proof -
  from market_machine.inv_reachable [OF assms] have b: "board_ok (load_portfolio m)" by (simp add: market_ok_def portfolio_ok_def)
  then have "get_top_traders (load_portfolio m) 100 = pt_top_traders (load_portfolio m)"
    by (simp add: get_top_traders_def board_ok_def)
  with b show ?thesis by (auto simp: board_ok_def get_portfolio_def pnl_of_def)
qed

text \<open>
  Every badge a user holds was announced exactly once, in an event or in the buffer of events,
  and no badge is announced that the user does not hold.
\<close>

theorem badges_announced_once:
  assumes "market_reachable claims m"
  shows "badge_count (load_portfolio m) u b = (if has_badge (load_portfolio m) u b then 1 else 0)"
  using market_machine.inv_reachable [OF assms] by (simp add: market_ok_def portfolio_ok_def badges_ok_def)

section \<open>Batches\<close>

lemma atomic_loop_success:
  assumes "atomic_loop e m ops p b = Inr (Inr r, p')"
  shows "best_effort_loop e m ops p b = Inr (r, p') \<and> br_failed r = br_failed b \<and> br_executed r = br_executed b + length ops"
  using assms
proof (induction ops arbitrary: p b)
  case (Cons bop ops)
  then obtain r1 p1 where 1: "execute_single_operation e m p bop = Inr (r1, p1)"
    and 2: "(case r1 of Inr x \<Rightarrow> atomic_loop e m ops p1 (count_success b x) | Inl x \<Rightarrow> Inr (Inl (Named ''batch_failed''), p1)) = Inr (Inr r, p')"
    by (auto simp: bindR_eq_Inr)
  then obtain x where x: "r1 = Inr x" by (cases r1) auto
  with 2 Cons.IH have "best_effort_loop e m ops p1 (count_success b x) = Inr (r, p') \<and> br_failed r = br_failed (count_success b x)
    \<and> br_executed r = br_executed (count_success b x) + length ops" by simp
  with 1 x show ?case by (simp add: count_success_def)
qed simp

lemma execute_batch_atomic_cases:
  assumes "execute_batch_atomic e m p ops = Inr (r, p')"
  obtains (refused) x where "r = Inl x" "p' = p"
  | (rolled_back) x p1 where "r = Inl x" "p' = restore p p1"
  | (done_all) b where "r = Inr b" "validate_batch ops = Inr ()" "authorize_batch_access e m ops = Inr (Inr ())"
      "atomic_loop e m ops p batch_result_new = Inr (Inr b, p')"
proof (cases "validate_batch ops")
  case (Inl x)
  with assms show thesis by (intro refused [of x]) (simp_all add: execute_batch_atomic_def)
next
  case v: (Inr u)
  with assms obtain r1 where r1: "authorize_batch_access e m ops = Inr r1"
    by (cases "authorize_batch_access e m ops") (auto simp: execute_batch_atomic_def)
  show thesis
  proof (cases r1)
    case (Inl x)
    with assms v r1 show thesis by (intro refused [of x]) (simp_all add: execute_batch_atomic_def)
  next
    case (Inr u1)
    with assms v r1 obtain r2 p1 where l: "atomic_loop e m ops p batch_result_new = Inr (r2, p1)" "r = r2"
      "p' = (case r2 of Inl _ \<Rightarrow> restore p p1 | Inr _ \<Rightarrow> p1)"
      by (auto simp: execute_batch_atomic_def bindR_eq_Inr)
    with v r1 Inr show thesis by (cases r2) (auto intro: rolled_back done_all)
  qed
qed

text \<open>
  C15: an atomic batch is all or nothing: either every operation was executed and none failed, and
  there were at most ten, or the batch reports one failure and no balance, reserve, position, trade
  count or profit and loss changed.
\<close>

theorem atomic_batch_all_or_nothing:
  assumes "cc_execute_batch e m ops = Inr (r, m')"
  shows "br_failed r = 0 \<and> br_executed r = length ops \<and> 0 < length ops \<and> length ops \<le> MAX_BATCH_SIZE
    \<or> r = one_failed \<and> (let p = load_portfolio m; p' = load_portfolio m' in p' = p\<lparr>pt_badge_buffer := pt_badge_buffer p'\<rparr>)"
proof -
  from assms have call: "batch_call execute_batch_atomic e m ops = Inr (r, m')"
    by (simp add: cc_execute_batch_def cc_execute_batch_atomic_def)
  then show ?thesis
  proof (cases rule: batch_call_effect)
    case (refused rates)
    then show ?thesis by (auto simp: Let_def)
  next
    case (failed rates x p1)
    from failed(1) have "p1 = (load_portfolio m)\<lparr>pt_badge_buffer := pt_badge_buffer p1\<rparr>"
      by (cases rule: execute_batch_atomic_cases) (simp_all add: restore_def)
    with failed(2,3) show ?thesis by (simp add: Let_def)
  next
    case (executed rates p1)
    from executed(1) show ?thesis
    proof (cases rule: execute_batch_atomic_cases)
      case (done_all b)
      with atomic_loop_success [OF done_all(4)] show ?thesis
        by (auto simp: batch_result_new_def validate_batch_def split: if_splits)
    qed simp_all
  qed
qed

text \<open>
  C17: where the atomic batch succeeds, the best-effort batch has the same result and leaves the same
  storage.
\<close>

theorem best_effort_agrees:
  assumes call: "cc_execute_batch e m ops = Inr (r, m')" and none: "br_failed r = 0"
  shows "cc_execute_batch_best_effort e m ops = Inr (r, m')"
proof -
  have call: "batch_call execute_batch_atomic e m ops = Inr (r, m')"
    using assms by (simp add: cc_execute_batch_def cc_execute_batch_atomic_def)
  have step: "execute_batch_best_effort e m p ops = Inr (Inr b, p')" if "execute_batch_atomic e m p ops = Inr (Inr b, p')" for p b p'
    using that
  proof (cases rule: execute_batch_atomic_cases)
    case (done_all c)
    with atomic_loop_success [OF done_all(4)] show ?thesis by (simp add: execute_batch_best_effort_def bindR_def)
  qed simp_all
  have no: "r \<noteq> one_failed" using none by (auto simp: one_failed_def batch_result_new_def)
  from call no obtain rates1 r0 p1 where open1: "not_paused m" "ops \<noteq> []"
    "batch_verified e m (operation_user (hd ops)) = Inr True" "batch_limit e m (operation_user (hd ops)) ops = Inr (Inr (), rates1)"
    and ex: "execute_batch_atomic e m (load_portfolio m) ops = Inr (r0, p1)" and fin: "batch_finish e m ops rates1 r0 p1 = Inr (r, m')"
    by (auto simp: batch_call_def Let_def bindR_eq_Inr split: if_splits)
  from fin no obtain b where "r0 = Inr b" by (cases r0) (auto simp: batch_finish_def)
  with ex step have "execute_batch_best_effort e m (load_portfolio m) ops = Inr (r0, p1)" by simp
  with open1 fin show ?thesis by (simp add: cc_execute_batch_best_effort_def batch_call_def)
qed

text \<open>
  Liquidity in a batch is free in both directions: adding it raises the reserves and debits
  nobody, and removing it mints both amounts to the named user and takes nothing from the reserves,
  the positions or the LP tokens.
\<close>

theorem batch_liquidity_unbacked:
  shows "execute_single_operation e m p (AddLiquidity x y u) = Inr (Inr n, p') \<Longrightarrow>
      pt_xlm_in_pool p' = i_sat_add (pt_xlm_in_pool p) x \<and> pt_usdc_in_pool p' = i_sat_add (pt_usdc_in_pool p) y
      \<and> balance_of p' t v = balance_of p t v
      \<and> (execute_single_operation e m p (RemoveLiquidity x y u) = Inr (Inr n', p'') \<longrightarrow>
         balance_of p'' XLM u = balance_of p XLM u + x \<and> balance_of p'' (Custom USDCSIM) u = balance_of p (Custom USDCSIM) u + y
         \<and> get_pool_stats p'' = get_pool_stats p \<and> pt_lp_positions p'' = pt_lp_positions p
         \<and> pt_total_lp_tokens p'' = pt_total_lp_tokens p)"
proof -
  assume add: "execute_single_operation e m p (AddLiquidity x y u) = Inr (Inr n, p')"
  then have p': "p' = record_lp_deposit (add_pool_liquidity p x y) u"
    by (auto simp: bindR_eq_Inr split: if_splits)
  have frame: "get_pool_stats q' = get_pool_stats q \<and> pt_lp_positions q' = pt_lp_positions q \<and> pt_total_lp_tokens q' = pt_total_lp_tokens q"
    if "mint q s u z = Inr q'" for q s z q'
    using that by (auto simp: mint_def bindR_eq_Inr ensure_eq_Inr i_add_eq_Inr Let_def count_balance_update_def update_top_traders_def get_pool_stats_def)
  have "balance_of p'' XLM u = balance_of p XLM u + x \<and> balance_of p'' (Custom USDCSIM) u = balance_of p (Custom USDCSIM) u + y
      \<and> get_pool_stats p'' = get_pool_stats p \<and> pt_lp_positions p'' = pt_lp_positions p \<and> pt_total_lp_tokens p'' = pt_total_lp_tokens p"
    if "execute_single_operation e m p (RemoveLiquidity x y u) = Inr (Inr n', p'')"
  proof -
    from that obtain p1 where 1: "mint p XLM u x = Inr p1" "mint p1 (Custom USDCSIM) u y = Inr p''" by (auto simp: bindR_eq_Inr)
    from frame [OF 1(1)] frame [OF 1(2)] mint_balance [OF 1(1)] mint_balance [OF 1(2)] show ?thesis by simp
  qed
  then show ?thesis by (simp add: p' add_pool_liquidity_def record_lp_deposit_def) (simp add: balance_of_def)
qed

section \<open>Witnesses\<close>

text \<open>A market whose users 2 and 3 are verified and whose admin is user 1.\<close>

definition demo_kyc :: kyc_store where
  "demo_kyc = save_record (Addr 2) ((new_record (demo_env 2 0))\<lparr>kr_status := Verified\<rparr>)
     (save_record (Addr 3) ((new_record (demo_env 3 0))\<lparr>kr_status := Verified\<rparr>) kyc_store0)"

definition demo_market :: market where
  "demo_market = market0\<lparr>mk_kyc := demo_kyc, mk_admin := Some (Addr 4)\<rparr>"

lemma demo_verified: "is_verified e demo_kyc (Addr 2)" "is_verified e demo_kyc (Addr 3)"
  by (simp_all add: is_verified_def get_record_def demo_kyc_def save_record_def)

lemma demo_market_reachable: "market_reachable claims demo_market"
proof -
  have "elsewhere market0 demo_market" by (simp add: elsewhere_def demo_market_def)
  then show ?thesis by (intro reach_step [OF reach_init] market_other) simp_all
qed

lemma market_reach:
  "market_reachable claims m \<Longrightarrow> market_exec e m c = Inr m' \<Longrightarrow> claims \<or> \<not> is_claim c \<Longrightarrow> market_reachable claims m'"
  by (blast intro: reach_step market_call)

lemma demo_fields: "not_paused demo_market" "mk_kyc demo_market = demo_kyc" "load_portfolio demo_market = portfolio_new"
  "mk_admin demo_market = Some (Addr 4)" "mk_oracle demo_market = oracle_store0"
  by (simp_all add: demo_market_def market0_def not_paused_def or_else_def load_portfolio_def)

lemma demo_safe_swap:
  "\<exists>m'. cc_safe_swap (demo_env 2 5) demo_market ''XLM'' USDCSIM 100 (Addr 2) 9 = Inr (0, m')"
proof -
  have "\<exists>p. record_trade (demo_env 2 5) portfolio_new (Addr 2) = Inr p"
    by (simp add: record_trade_def Let_def portfolio_new_def or_else_def u_add_def)
  then obtain p where p: "record_trade (demo_env 2 5) portfolio_new (Addr 2) = Inr p" by blast
  have "calculate_minimum_output (demo_env 2 5) demo_market ''XLM'' USDCSIM y = Inl (Err InvalidPrice)" for y
    using get_price_unconfigured [of oracle_store0]
    by (simp add: calculate_minimum_output_def get_validated_price_def demo_fields oracle_store0_def bindR_def)
  then have f: "perform_swap (demo_env 2 5) demo_market portfolio_new ''XLM'' USDCSIM 100 (Addr 2) None = Inl (Err InvalidPrice)"
    by (simp add: perform_swap_def Let_def symbol_to_asset_def USDCSIM_def ok_or_def ensure_def bindR_def would_trip_circuit_breaker_def
        em_is_paused_def em_is_frozen_def demo_market_def market0_def emergency_store0_def or_else_def)
  have "require_auth (demo_env 2 5) (Addr 2) = (Inr () :: (unit, counter_error) res)" "now (demo_env 2 5) = 5" "''XLM'' \<noteq> USDCSIM" "USDCSIM \<noteq> ''XLM''"
    by (simp_all add: require_auth_def demo_env_def USDCSIM_def)
  then show ?thesis by (simp add: cc_safe_swap_def f p demo_fields demo_verified Let_def)
qed

theorem swaps_never_fill_witness:
  "\<exists>m'. cc_safe_swap (demo_env 2 5) demo_market ''XLM'' USDCSIM 100 (Addr 2) 9 = Inr (0, m')
    \<and> pt_trades (load_portfolio m') (Addr 2) = Some 1"
proof -
  obtain m' where m': "cc_safe_swap (demo_env 2 5) demo_market ''XLM'' USDCSIM 100 (Addr 2) 9 = Inr (0, m')" using demo_safe_swap by blast
  have "or_else (pt_trades (load_portfolio demo_market) (Addr 2)) 0 = 0" by (simp add: demo_fields portfolio_new_def or_else_def)
  moreover have "now (demo_env 2 5) \<le> 9" "is_valid_token ''XLM''" "is_valid_token USDCSIM" "''XLM'' \<noteq> USDCSIM" "(0 :: int) < 100"
    by (simp_all add: demo_env_def is_valid_token_def USDCSIM_def)
  ultimately show ?thesis
    using swaps_never_fill [OF demo_market_reachable [of True], of "demo_env 2 5" "''XLM''" USDCSIM 100 "Addr 2" _ 9] m'
      demo_fields(1) demo_verified(1) [of "demo_env 2 5"] unfolding demo_fields(2) by auto
qed

definition demo_priced :: market where
  "demo_priced = demo_market\<lparr>mk_oracle := initialize_token_oracle (demo_env 2 5) oracle_store0 ''XLM'' USDCSIM Manual PRECISION\<rparr>"

definition demo_holder :: portfolio where
  "demo_holder = portfolio_new\<lparr>pt_balances := [(Addr 2, XLM) \<mapsto> 1000]\<rparr>"

lemma demo_fill: "\<exists>p. perform_swap (demo_env 2 5) demo_priced demo_holder ''XLM'' USDCSIM 100 (Addr 2) None = Inr (100, p)"
proof -
  have price: "get_validated_price (demo_env 2 5) (mk_oracle demo_priced) ''XLM'' USDCSIM = Inr PRECISION"
    by (simp add: demo_priced_def get_validated_price_def get_price_def get_config_def get_state_def ok_or_def
        initialize_token_oracle_def initialize_oracle_def set_config_def set_state_def u_sub_def demo_env_def bindR_def ensure_def
        DEFAULT_TWAP_WINDOW_SIZE_def PRECISION_def DEFAULT_STALENESS_THRESHOLD_def Let_def)
  have em: "mk_emergency demo_priced = emergency_store0" "mk_min_tolerance demo_priced = Map.empty" "mk_max_slippage demo_priced = None"
    by (simp_all add: demo_priced_def demo_market_def market0_def)
  have out: "calculate_minimum_output (demo_env 2 5) demo_priced ''XLM'' USDCSIM 100 = Inr 99"
    by (simp add: calculate_minimum_output_def price em get_min_rate_tolerance_bps_def or_else_def u_mul_def u_sub_def u_sat_mul_def
        PRECISION_def DEFAULT_MINIMUM_RATE_TOLERANCE_BPS_def bindR_def Let_def)
  have swap: "swap_output (demo_env 2 5) demo_priced ''XLM'' USDCSIM 100 0 0 = Inr 100"
    by (simp add: swap_output_def price u_mul_def PRECISION_def bindR_def)
  have u: "as_u128 100 = 100" "as_u128 0 = 0" "as_i128 100 = 100" "as_i128 0 = 0" by (simp_all add: as_u128_def as_i128_def)
  have slip: "check_slippage demo_priced 100 100 = Inr ()"
    by (simp add: check_slippage_def em or_else_def u_sub_def u_mul_def bindR_def ensure_def)
  have liq: "get_liquidity demo_holder XLM = 0" "get_liquidity demo_holder (Custom USDCSIM) = 0"
    by (simp_all add: get_liquidity_def demo_holder_def portfolio_new_def)
  have tok: "symbol_to_asset ''XLM'' = Some XLM" "symbol_to_asset USDCSIM = Some (Custom USDCSIM)" "''XLM'' \<noteq> USDCSIM"
    by (simp_all add: symbol_to_asset_def USDCSIM_def)
  show ?thesis
    by (simp add: perform_swap_def tok em em_is_paused_def em_is_frozen_def emergency_store0_def would_trip_circuit_breaker_def u
        out swap slip liq theoretical_output_def LP_FEE_BPS_def u_mul_def transfer_asset_def Let_def)
      (simp add: debit_def credit_def balance_of_def demo_holder_def portfolio_new_def i_add_def i_sub_def i_check_def i128_ok_def
        I128_MIN_def I128_MAX_def or_else_def count_balance_update_def update_stats_on_trade_def Let_def)
qed

theorem swap_charges_twice_witness:
  "\<exists>p. perform_swap (demo_env 2 5) demo_priced demo_holder ''XLM'' USDCSIM 100 (Addr 2) None = Inr (100, p)
    \<and> balance_of p XLM (Addr 2) = 800 \<and> balance_of p (Custom USDCSIM) (Addr 2) = 200"
proof -
  obtain p where p: "perform_swap (demo_env 2 5) demo_priced demo_holder ''XLM'' USDCSIM 100 (Addr 2) None = Inr (100, p)"
    using demo_fill by blast
  have "balance_of demo_holder XLM (Addr 2) = 1000" "balance_of demo_holder (Custom USDCSIM) (Addr 2) = 0"
    "symbol_to_asset ''XLM'' = Some XLM" "symbol_to_asset USDCSIM = Some (Custom USDCSIM)"
    by (simp_all add: balance_of_def demo_holder_def portfolio_new_def or_else_def symbol_to_asset_def USDCSIM_def)
  with swap_charges_twice [OF p] p show ?thesis by auto
qed

definition demo_taker_market :: market where
  "demo_taker_market = demo_market\<lparr>mk_orders := demo_sell2\<rparr>"

theorem taker_pays_nothing_witness:
  "\<exists>fills m'. cc_take_order (demo_env 3 1) demo_taker_market ''A'' ''B'' Buy 5 (Some (2 * FILL_PRECISION)) (Addr 3) = Inr (fills, m')
    \<and> cc_balance_of m' ''A'' (Addr 3) = 4 \<and> cc_balance_of demo_taker_market ''B'' (Addr 3) \<le> cc_balance_of m' ''B'' (Addr 3)"
proof -
  obtain fills s where t: "take_limit_order (demo_env 3 1) demo_sell2 (Addr 3) ''A'' ''B'' Buy 5 (Some (2 * FILL_PRECISION)) = Inr (fills, s)"
    "map of_base fills = [4]" "map of_quote fills = [8]" using demo_take by metis
  from t(2,3) obtain f where f: "fills = [f]" "of_base f = 4" "of_quote f = 8" by (cases fills) auto
  have s: "\<exists>p. foldR (settle_limit_fill ''A'' ''B'' Buy (Addr 3)) fills portfolio_new = Inr p"
    by (simp add: f settle_limit_fill_def credit_def asset_of_def balance_of_def portfolio_new_def or_else_def i_add_def
        i_check_def i128_ok_def I128_MIN_def I128_MAX_def count_balance_update_def)
  have m: "mk_orders demo_taker_market = demo_sell2" "not_paused demo_taker_market" "load_portfolio demo_taker_market = portfolio_new"
    "mk_kyc demo_taker_market = demo_kyc"
    by (simp_all add: demo_taker_market_def demo_fields) (use demo_fields(1) in \<open>simp add: not_paused_def\<close>)
  have a: "authenticated_verified (demo_env 3 1) demo_taker_market (Addr 3) = Inr ()"
    by (simp add: authenticated_verified_def m demo_verified require_verified_def require_auth_def) (simp add: demo_env_def)
  define e where "e = demo_env 3 1"
  obtain m' where "cc_take_order e demo_taker_market ''A'' ''B'' Buy 5 (Some (2 * FILL_PRECISION)) (Addr 3) = Inr (fills, m')"
    using s by (auto simp: cc_take_order_def m a [folded e_def] t(1) [folded e_def])
  then have m': "cc_take_order (demo_env 3 1) demo_taker_market ''A'' ''B'' Buy 5 (Some (2 * FILL_PRECISION)) (Addr 3) = Inr (fills, m')"
    unfolding e_def .
  have "asset_of ''A'' \<noteq> asset_of ''B''" "cc_balance_of demo_taker_market ''A'' (Addr 3) = 0"
    by (simp_all add: asset_of_def cc_balance_of_def m balance_of_def portfolio_new_def or_else_def)
  with taker_pays_nothing [OF m', of "asset_of ''B''" "Addr 3"] f m' show ?thesis by (auto simp: cc_balance_of_def)
qed

definition demo_faucet :: market where
  "demo_faucet = snd (cc_get_portfolio (demo_env 2 5)
     (demo_market\<lparr>mk_faucet := [''XLM'' \<mapsto> \<lparr>fc_drip_amount = 50, fc_cooldown_secs = 60\<rparr>]\<rparr>) (Addr 2))"

lemma demo_faucet_reachable: "market_reachable False demo_faucet"
proof -
  let ?m = "demo_market\<lparr>mk_faucet := [''XLM'' \<mapsto> \<lparr>fc_drip_amount = 50, fc_cooldown_secs = 60\<rparr>]\<rparr>"
  have "mk_faucet demo_market = Map.empty" by (simp add: demo_market_def market0_def)
  then have "market_exec (demo_env 4 5) demo_market (Faucet_Config_Call (Addr 4) ''XLM'' 50 60) = Inr ?m"
    by (simp add: set_faucet_config_def demo_fields require_auth_def require_admin_def demo_env_def ensure_def bindR_def)
  from market_reach [OF demo_market_reachable this] have "market_reachable False ?m" by (simp add: is_claim_def)
  then show ?thesis
    unfolding demo_faucet_def
    by (rule market_reach [where e = "demo_env 2 5" and c = "Portfolio_Query (Addr 2)"]) (simp_all add: is_claim_def)
qed

theorem cached_queries_current_witness:
  "fst (cc_get_portfolio (demo_env 2 9) demo_faucet (Addr 2)) = get_portfolio (load_portfolio demo_faucet) (Addr 2)"
  using cached_queries_current [OF demo_faucet_reachable] by blast

lemma demo_entry: "mk_pcache demo_faucet (Addr 2) = Some \<lparr>cp_trades = 0, cp_pnl = 0, cp_cached_at = 5\<rparr>" "get_cache_ttl demo_faucet = 60"
  "get_portfolio (load_portfolio demo_faucet) (Addr 2) = (0, 0)"
  by (simp_all add: demo_faucet_def cc_get_portfolio_def miss_portfolio_def demo_market_def market0_def Let_def get_portfolio_def
      load_portfolio_def or_else_def portfolio_new_def record_cache_access_def demo_env_def get_cache_ttl_def)

lemma demo_faucet_claim: "\<exists>m'. claim_faucet (demo_env 2 6) demo_faucet (Addr 2) ''XLM'' = Inr (50, m')"
proof -
  have m: "mk_faucet demo_faucet ''XLM'' = Some \<lparr>fc_drip_amount = 50, fc_cooldown_secs = 60\<rparr>" "mk_claims demo_faucet = Map.empty"
    "load_portfolio demo_faucet = portfolio_new"
    by (simp_all add: demo_faucet_def cc_get_portfolio_def miss_portfolio_def demo_market_def market0_def Let_def record_cache_access_def
        load_portfolio_def or_else_def)
  have "\<exists>p. mint portfolio_new (asset_of ''XLM'') (Addr 2) 50 = Inr p"
    by (simp add: mint_def balance_of_def portfolio_new_def or_else_def i_add_def i_check_def i128_ok_def I128_MIN_def I128_MAX_def Let_def)
  then show ?thesis
    by (auto simp: claim_faucet_def get_faucet_config_def m ok_or_def require_auth_def or_else_def demo_env_def bindR_def ensure_def Let_def)
qed

theorem faucet_serves_stale_answers_witness:
  "\<exists>m'. claim_faucet (demo_env 2 6) demo_faucet (Addr 2) ''XLM'' = Inr (50, m')
    \<and> fst (cc_get_portfolio (demo_env 2 7) m' (Addr 2)) = (0, 0) \<and> snd (get_portfolio (load_portfolio m') (Addr 2)) = 50"
proof -
  obtain m' where m': "claim_faucet (demo_env 2 6) demo_faucet (Addr 2) ''XLM'' = Inr (50, m')" using demo_faucet_claim by blast
  have "now (demo_env 2 7) - cp_cached_at \<lparr>cp_trades = 0, cp_pnl = 0, cp_cached_at = 5\<rparr> \<le> get_cache_ttl demo_faucet"
    by (simp add: demo_entry demo_env_def)
  from faucet_serves_stale_answers [OF demo_faucet_reachable m' demo_entry(1) this] m' show ?thesis by (simp add: demo_entry)
qed

theorem leaderboard_never_understates_witness:
  "length (get_top_traders (load_portfolio demo_faucet) 100) \<le> 100"
  using leaderboard_never_understates [OF demo_faucet_reachable] by blast

definition demo_traded :: market where
  "demo_traded = (case cc_record_trade (demo_env 2 5) demo_market (Addr 2) of Inr m \<Rightarrow> m | Inl _ \<Rightarrow> demo_market)"

lemma demo_traded_reachable: "market_reachable True demo_traded" "has_badge (load_portfolio demo_traded) (Addr 2) FirstTrade"
proof -
  have "\<exists>p. record_trade (demo_env 2 5) portfolio_new (Addr 2) = Inr p \<and> has_badge p (Addr 2) FirstTrade"
    by (simp add: record_trade_def Let_def portfolio_new_def or_else_def u_add_def award_badge_def badge_awarded_def has_badge_def)
  then obtain p where p: "record_trade (demo_env 2 5) portfolio_new (Addr 2) = Inr p" "has_badge p (Addr 2) FirstTrade" by blast
  then have t: "cc_record_trade (demo_env 2 5) demo_market (Addr 2) = Inr demo_traded" "load_portfolio demo_traded = p"
    by (simp_all add: demo_traded_def cc_record_trade_def demo_fields)
  show "has_badge (load_portfolio demo_traded) (Addr 2) FirstTrade" using p t by simp
  show "market_reachable True demo_traded"
    by (rule market_reach [OF demo_market_reachable, where e = "demo_env 2 5" and c = "Trade_Call (Addr 2)"]) (simp_all add: t)
qed

theorem badges_announced_once_witness: "badge_count (load_portfolio demo_traded) (Addr 2) FirstTrade = 1"
  using badges_announced_once [OF demo_traded_reachable(1)] demo_traded_reachable(2) by simp

lemma demo_batch: "\<exists>r m'. cc_execute_batch (demo_env 2 5) demo_market [MintToken ''XLM'' (Addr 3) 7] = Inr (r, m') \<and> br_failed r = 0"
proof -
  have "\<exists>p. mint portfolio_new (asset_of ''XLM'') (Addr 3) 7 = Inr p"
    by (simp add: mint_def balance_of_def portfolio_new_def or_else_def i_add_def i_check_def i128_ok_def I128_MIN_def I128_MAX_def Let_def)
  then show ?thesis
    by (auto simp: cc_execute_batch_def cc_execute_batch_atomic_def batch_call_def demo_fields batch_verified_def batch_limit_def
        execute_batch_atomic_def validate_batch_def MAX_BATCH_SIZE_def is_valid_token_def batch_finish_def batch_usage_def
        count_success_def batch_result_new_def)
qed

theorem atomic_batch_all_or_nothing_witness:
  "\<exists>r m'. cc_execute_batch (demo_env 2 5) demo_market [MintToken ''XLM'' (Addr 3) 7] = Inr (r, m') \<and> br_executed r = 1"
proof -
  obtain r m' where r: "cc_execute_batch (demo_env 2 5) demo_market [MintToken ''XLM'' (Addr 3) 7] = Inr (r, m')" "br_failed r = 0"
    using demo_batch by blast
  from atomic_batch_all_or_nothing [OF r(1)] r show ?thesis by (auto simp: one_failed_def batch_result_new_def)
qed

theorem best_effort_agrees_witness:
  "\<exists>r m'. cc_execute_batch_best_effort (demo_env 2 5) demo_market [MintToken ''XLM'' (Addr 3) 7] = Inr (r, m') \<and> br_failed r = 0"
  using demo_batch best_effort_agrees by blast

definition demo_rich :: portfolio where
  "demo_rich = portfolio_new\<lparr>pt_balances := [(Addr 2, XLM) \<mapsto> 3, (Addr 2, Custom USDCSIM) \<mapsto> 4]\<rparr>"

lemma demo_free_liquidity:
  "\<exists>n p' p''. execute_single_operation (demo_env 2 5) demo_market demo_rich (AddLiquidity 3 4 (Addr 2)) = Inr (Inr n, p')
    \<and> execute_single_operation (demo_env 2 5) demo_market demo_rich (RemoveLiquidity 3 4 (Addr 2)) = Inr (Inr n, p'')"
  by (simp add: demo_rich_def balance_of_def portfolio_new_def or_else_def i_add_def i_check_def i128_ok_def I128_MIN_def I128_MAX_def
      Let_def mint_def count_balance_update_def update_top_traders_def)

theorem batch_liquidity_unbacked_witness:
  "\<exists>n p' p''. execute_single_operation (demo_env 2 5) demo_market demo_rich (AddLiquidity 3 4 (Addr 2)) = Inr (Inr n, p')
    \<and> execute_single_operation (demo_env 2 5) demo_market demo_rich (RemoveLiquidity 3 4 (Addr 2)) = Inr (Inr n, p'')
    \<and> balance_of p' XLM (Addr 2) = balance_of demo_rich XLM (Addr 2)
    \<and> balance_of p'' XLM (Addr 2) = balance_of demo_rich XLM (Addr 2) + 3"
  using demo_free_liquidity batch_liquidity_unbacked by metis

end
