(* ===== verification/Gamification.thy ===== *)
theory Gamification
  imports Counter_Base
begin

text \<open>
  The gamification engine of the counter contract (\<open>counter/gamification.rs\<close>) and its entry points
  in \<open>counter/src/lib.rs\<close>: profiles with scores, tiers and streaks, achievement badges, leaderboards,
  challenge campaigns and their rewards. Every key of the persistent storage is a field of \<open>game\<close>;
  the published events are its log.
\<close>

section \<open>Data\<close>

definition MAX_LEADERBOARD_SIZE :: nat where
  "MAX_LEADERBOARD_SIZE = 100"

definition MIN_CHALLENGE_DURATION :: nat where
  "MIN_CHALLENGE_DURATION = 3600"

definition MAX_CHALLENGE_DURATION :: nat where
  "MAX_CHALLENGE_DURATION = 2592000"

datatype achievement_badge =
    FirstTrade | TenTrades | FiftyTrades | HundredTrades | ThousandTrades
  | ProfitableTrader | HighRoller | ConsistentPerformer | PerfectWeek
  | WealthBuilder | DiversifiedPortfolio | LPProvider | DeepLiquidity
  | CommunityContributor | ChallengeChampion | StreakMaster
  | EarlyAdopter | SeasonChampion | MasterTrader

datatype progression_tier = Bronze | Silver | Gold | Platinum | Diamond

fun score_threshold :: "progression_tier \<Rightarrow> int" where
  "score_threshold Bronze = 0"
| "score_threshold Silver = 1000"
| "score_threshold Gold = 5000"
| "score_threshold Platinum = 20000"
| "score_threshold Diamond = 100000"

fun reward_multiplier_bps :: "progression_tier \<Rightarrow> int" where
  "reward_multiplier_bps Bronze = 10000"
| "reward_multiplier_bps Silver = 12000"
| "reward_multiplier_bps Gold = 15000"
| "reward_multiplier_bps Platinum = 20000"
| "reward_multiplier_bps Diamond = 30000"

fun next_tier :: "progression_tier \<Rightarrow> progression_tier option" where
  "next_tier Bronze = Some Silver"
| "next_tier Silver = Some Gold"
| "next_tier Gold = Some Platinum"
| "next_tier Platinum = Some Diamond"
| "next_tier Diamond = None"

text \<open>The derived order of the tiers: the order of their declaration, which is that of the thresholds.\<close>

instantiation progression_tier :: linorder
begin

definition less_eq_progression_tier :: "progression_tier \<Rightarrow> progression_tier \<Rightarrow> bool" where
  "less_eq_progression_tier a b \<longleftrightarrow> score_threshold a \<le> score_threshold b"

definition less_progression_tier :: "progression_tier \<Rightarrow> progression_tier \<Rightarrow> bool" where
  "less_progression_tier a b \<longleftrightarrow> score_threshold a < score_threshold b"

instance
proof
  fix a b :: progression_tier
  show "a \<le> b \<Longrightarrow> b \<le> a \<Longrightarrow> a = b"
    by (cases a; cases b) (simp_all add: less_eq_progression_tier_def)
qed (auto simp: less_eq_progression_tier_def less_progression_tier_def)

end

record profile =
  gp_tier :: progression_tier
  gp_score :: int
  gp_lifetime_score :: int
  gp_current_trade_streak :: nat
  gp_best_trade_streak :: nat
  gp_current_daily_streak :: nat
  gp_best_daily_streak :: nat
  gp_challenges_won :: nat
  gp_challenges_participated :: nat
  gp_last_activity_timestamp :: nat
  gp_total_rewards_earned :: int
  gp_pending_rewards :: int

definition profile_new :: profile where
  "profile_new = \<lparr>gp_tier = Bronze, gp_score = 0, gp_lifetime_score = 0, gp_current_trade_streak = 0,
     gp_best_trade_streak = 0, gp_current_daily_streak = 0, gp_best_daily_streak = 0, gp_challenges_won = 0,
     gp_challenges_participated = 0, gp_last_activity_timestamp = 0, gp_total_rewards_earned = 0,
     gp_pending_rewards = 0\<rparr>"

record leaderboard_entry =
  le_user :: address
  le_score :: int
  le_rank :: nat

datatype leaderboard_metric = ByScore | ByROI | ByTradeCount | ByTradeStreak | ByVolume | ByWinRate

datatype challenge_status = Active | Completed | Cancelled

datatype challenge_objective =
    CompleteTrades nat | AchieveROI int | TradeVolume int | WinStreak nat | Diversify nat | LiquidityProvision int

record challenge_campaign =
  ch_challenge_id :: nat
  ch_name :: symbol
  ch_description :: symbol
  ch_objective :: challenge_objective
  ch_start_time :: nat
  ch_end_time :: nat
  ch_reward_pool :: int
  ch_status :: challenge_status
  ch_max_participants :: nat
  ch_participant_count :: nat
  ch_min_tier :: progression_tier

record challenge_progress =
  cp_current_progress :: int
  cp_objective_met :: bool
  cp_reward_claimed :: bool
  cp_completed_at :: "nat option"

record reward_distribution =
  rd_user :: address
  rd_amount :: int
  rd_reason :: symbol
  rd_timestamp :: nat
  rd_challenge_id :: "nat option"

record score_breakdown =
  sb_trading_score :: int
  sb_performance_score :: int
  sb_learning_score :: int
  sb_community_score :: int
  sb_streak_bonus :: int
  sb_challenge_bonus :: int

record global_stats =
  gs_total_badges_awarded :: nat
  gs_total_challenges_created :: nat
  gs_total_challenges_completed :: nat
  gs_total_rewards_distributed :: int
  gs_total_active_users :: nat

definition global_stats_new :: global_stats where
  "global_stats_new = \<lparr>gs_total_badges_awarded = 0, gs_total_challenges_created = 0,
     gs_total_challenges_completed = 0, gs_total_rewards_distributed = 0, gs_total_active_users = 0\<rparr>"

datatype gamification_error =
    ChallengeNotFound | ChallengeNotActive | ChallengeExpired | ChallengeFull | InvalidChallengeDuration
  | AlreadyJoined | NotParticipant | ObjectiveNotMet | RewardAlreadyClaimed | NoRewardsPending
  | InsufficientTier | NotAdmin

datatype game_event =
    BadgeAwarded address achievement_badge int nat
  | TierUpgraded address progression_tier progression_tier nat
  | ChallengeCreated nat symbol int nat
  | ChallengeJoined address nat nat
  | ChallengeCompleted address nat int nat
  | RewardClaimed address nat int nat
  | ChallengeFinalized nat nat
  | RewardsClaimed address int nat

text \<open>One field per constructor of \<open>GamificationStorageKey\<close>; a missing vector reads as the empty one.\<close>

record game =
  ga_profiles :: "address \<rightharpoonup> profile"
  ga_badges :: "address \<Rightarrow> achievement_badge list"
  ga_boards :: "leaderboard_metric \<Rightarrow> leaderboard_entry list"
  ga_challenges :: "nat \<rightharpoonup> challenge_campaign"
  ga_list :: "nat list"
  ga_progress :: "nat \<times> address \<rightharpoonup> challenge_progress"
  ga_history :: "reward_distribution list"
  ga_stats :: "global_stats option"
  ga_next_id :: "nat option"
  ga_breakdowns :: "address \<rightharpoonup> score_breakdown"
  ga_events :: "game_event list"

definition game0 :: game where
  "game0 = \<lparr>ga_profiles = Map.empty, ga_badges = (\<lambda>_. []), ga_boards = (\<lambda>_. []), ga_challenges = Map.empty,
     ga_list = [], ga_progress = Map.empty, ga_history = [], ga_stats = None, ga_next_id = None,
     ga_breakdowns = Map.empty, ga_events = []\<rparr>"

definition publish :: "game_event \<Rightarrow> game \<Rightarrow> game" where
  "publish ev s = s\<lparr>ga_events := ga_events s @ [ev]\<rparr>"

section \<open>Profiles\<close>

definition get_or_create_profile :: "game \<Rightarrow> address \<Rightarrow> profile" where
  "get_or_create_profile s user = (case ga_profiles s user of Some p \<Rightarrow> p | None \<Rightarrow> profile_new)"

definition save_profile :: "game \<Rightarrow> address \<Rightarrow> profile \<Rightarrow> game" where
  "save_profile s user p = s\<lparr>ga_profiles := (ga_profiles s)(user \<mapsto> p)\<rparr>"

definition record_activity :: "env \<Rightarrow> game \<Rightarrow> address \<Rightarrow> game" where
  "record_activity e s user =
     (let p = get_or_create_profile s user;
          elapsed = now e - gp_last_activity_timestamp p;
          streak =
            (if gp_last_activity_timestamp p > 0
             then if elapsed \<le> 86400 * 2
                  then if elapsed > 0 \<and> elapsed \<le> 86400 then u_sat_add 32 (gp_current_daily_streak p) 1
                       else gp_current_daily_streak p
                  else 1
             else 1);
          best = (if streak > gp_best_daily_streak p then streak else gp_best_daily_streak p)
      in save_profile s user (p\<lparr>gp_current_daily_streak := streak, gp_best_daily_streak := best,
           gp_last_activity_timestamp := now e\<rparr>))"

section \<open>Leaderboards\<close>

text \<open>The entry of the user, if any, is removed; the new entry is appended and moves up past lower scores.\<close>

fun drop_user :: "address \<Rightarrow> leaderboard_entry list \<Rightarrow> leaderboard_entry list" where
  "drop_user user [] = []"
| "drop_user user (x # xs) = (if le_user x = user then xs else x # drop_user user xs)"

fun bubble_up :: "nat \<Rightarrow> leaderboard_entry list \<Rightarrow> leaderboard_entry list" where
  "bubble_up 0 b = b"
| "bubble_up (Suc i) b =
     (if le_score (b ! Suc i) > le_score (b ! i)
      then bubble_up i (b[Suc i := b ! i, i := b ! Suc i])
      else b)"

definition assign_ranks :: "leaderboard_entry list \<Rightarrow> leaderboard_entry list" where
  "assign_ranks b = map (\<lambda>i. (b ! i)\<lparr>le_rank := i + 1\<rparr>) [0..<length b]"

definition ranked_board :: "leaderboard_entry list \<Rightarrow> address \<Rightarrow> int \<Rightarrow> leaderboard_entry list" where
  "ranked_board b user score =
     (let b1 = drop_user user b @ [\<lparr>le_user = user, le_score = score, le_rank = 0\<rparr>];
          b2 = bubble_up (length b1 - 1) b1
      in assign_ranks (take MAX_LEADERBOARD_SIZE b2))"

definition update_leaderboard_entry :: "game \<Rightarrow> address \<Rightarrow> leaderboard_metric \<Rightarrow> int \<Rightarrow> game" where
  "update_leaderboard_entry s user metric score =
     s\<lparr>ga_boards := (ga_boards s)(metric := ranked_board (ga_boards s metric) user score)\<rparr>"

text \<open>The loop stops once it holds \<open>page_size\<close> entries, which it checks after adding one.\<close>

fun collect_page :: "nat \<Rightarrow> leaderboard_entry list \<Rightarrow> leaderboard_entry list \<Rightarrow> leaderboard_entry list" where
  "collect_page page_size [] acc = acc"
| "collect_page page_size (x # xs) acc =
     (if length (acc @ [x]) \<ge> page_size then acc @ [x] else collect_page page_size xs (acc @ [x]))"

definition get_leaderboard ::
    "game \<Rightarrow> leaderboard_metric \<Rightarrow> nat \<Rightarrow> nat \<Rightarrow> (leaderboard_entry list, gamification_error) res" where
  "get_leaderboard s metric page page_size =
     bindR (u_mul 32 page page_size) (\<lambda>start. Inr (collect_page page_size (drop start (ga_boards s metric)) []))"

definition get_user_rank :: "game \<Rightarrow> address \<Rightarrow> leaderboard_metric \<Rightarrow> nat option" where
  "get_user_rank s user metric = map_option le_rank (find (\<lambda>x. le_user x = user) (ga_boards s metric))"

definition get_leaderboard_size :: "game \<Rightarrow> leaderboard_metric \<Rightarrow> nat" where
  "get_leaderboard_size s metric = length (ga_boards s metric)"

section \<open>Scores and tiers\<close>

definition calculate_tier :: "int \<Rightarrow> progression_tier" where
  "calculate_tier lifetime_score =
     (if lifetime_score \<ge> score_threshold Diamond then Diamond
      else if lifetime_score \<ge> score_threshold Platinum then Platinum
      else if lifetime_score \<ge> score_threshold Gold then Gold
      else if lifetime_score \<ge> score_threshold Silver then Silver
      else Bronze)"

definition add_score :: "env \<Rightarrow> game \<Rightarrow> address \<Rightarrow> int \<Rightarrow> game" where
  "add_score e s user points =
     (if points \<le> 0 then s
      else
        let p = get_or_create_profile s user;
            lifetime = i_sat_add (gp_lifetime_score p) points;
            p1 = p\<lparr>gp_score := i_sat_add (gp_score p) points, gp_lifetime_score := lifetime,
                   gp_tier := calculate_tier lifetime\<rparr>;
            s1 = update_leaderboard_entry (save_profile s user p1) user ByScore (gp_score p1)
        in if gp_tier p \<noteq> gp_tier p1 then publish (TierUpgraded user (gp_tier p) (gp_tier p1) (now e)) s1 else s1)"

definition calculate_trading_score :: "nat \<Rightarrow> nat \<Rightarrow> int \<Rightarrow> int \<Rightarrow> int" where
  "calculate_trading_score trade_count winning_trades total_pnl volume =
     (let effective_trades = (if trade_count > 100 then 100 + int (trade_count - 100) sdiv 10 else int trade_count);
          s1 = i_sat_add 0 (effective_trades * 10);
          s2 = (if trade_count > 0
                then i_sat_add s1 ((int winning_trades * 10000 sdiv int trade_count) * 500 sdiv 10000) else s1);
          s3 = i_sat_add s2 (if total_pnl > 0 then min (total_pnl sdiv 1000) 1000 else 0)
      in i_sat_add s3 (min (volume sdiv 10000) 500))"

definition calculate_composite_score :: "int \<Rightarrow> int \<Rightarrow> int \<Rightarrow> int \<Rightarrow> int \<Rightarrow> int \<Rightarrow> int" where
  "calculate_composite_score trading performance learning community streak_bonus challenge_bonus =
     i_sat_add (i_sat_add (i_sat_add (i_sat_add (i_sat_add (i_sat_mul trading 40) (i_sat_mul performance 25))
       (i_sat_mul learning 15)) (i_sat_mul community 10)) (i_sat_mul streak_bonus 5)) (i_sat_mul challenge_bonus 5)
     sdiv 100"

definition get_score_breakdown :: "game \<Rightarrow> address \<Rightarrow> score_breakdown" where
  "get_score_breakdown s user = (case ga_breakdowns s user of Some b \<Rightarrow> b
     | None \<Rightarrow> \<lparr>sb_trading_score = 0, sb_performance_score = 0, sb_learning_score = 0, sb_community_score = 0,
         sb_streak_bonus = 0, sb_challenge_bonus = 0\<rparr>)"

definition save_score_breakdown :: "game \<Rightarrow> address \<Rightarrow> score_breakdown \<Rightarrow> game" where
  "save_score_breakdown s user b = s\<lparr>ga_breakdowns := (ga_breakdowns s)(user \<mapsto> b)\<rparr>"

definition get_user_tier :: "game \<Rightarrow> address \<Rightarrow> progression_tier" where
  "get_user_tier s user = gp_tier (get_or_create_profile s user)"

definition get_tier_progress :: "game \<Rightarrow> address \<Rightarrow> int \<times> int" where
  "get_tier_progress s user =
     (let p = get_or_create_profile s user; current = gp_lifetime_score p in
      case next_tier (gp_tier p) of Some nxt \<Rightarrow> (current, score_threshold nxt) | None \<Rightarrow> (current, current))"

section \<open>Badges\<close>

definition get_user_badges :: "game \<Rightarrow> address \<Rightarrow> achievement_badge list" where
  "get_user_badges s user = ga_badges s user"

definition has_badge :: "game \<Rightarrow> address \<Rightarrow> achievement_badge \<Rightarrow> bool" where
  "has_badge s user badge \<longleftrightarrow> badge \<in> set (get_user_badges s user)"

fun badge_points :: "achievement_badge \<Rightarrow> int" where
  "badge_points FirstTrade = 50"
| "badge_points TenTrades = 100"
| "badge_points FiftyTrades = 300"
| "badge_points HundredTrades = 750"
| "badge_points ThousandTrades = 5000"
| "badge_points ProfitableTrader = 200"
| "badge_points HighRoller = 300"
| "badge_points ConsistentPerformer = 500"
| "badge_points PerfectWeek = 400"
| "badge_points WealthBuilder = 1000"
| "badge_points DiversifiedPortfolio = 150"
| "badge_points LPProvider = 100"
| "badge_points DeepLiquidity = 300"
| "badge_points CommunityContributor = 200"
| "badge_points ChallengeChampion = 500"
| "badge_points StreakMaster = 400"
| "badge_points EarlyAdopter = 500"
| "badge_points SeasonChampion = 2000"
| "badge_points MasterTrader = 5000"

definition award_badge :: "env \<Rightarrow> game \<Rightarrow> address \<Rightarrow> achievement_badge \<Rightarrow> bool \<times> game" where
  "award_badge e s user badge =
     (if badge \<in> set (get_user_badges s user) then (False, s)
      else
        let s1 = s\<lparr>ga_badges := (ga_badges s)(user := get_user_badges s user @ [badge])\<rparr>;
            points = badge_points badge;
            s2 = add_score e s1 user points
        in (True, publish (BadgeAwarded user badge points (now e)) s2))"

text \<open>The loop over \<open>badge_checks\<close>: each badge whose condition holds is awarded if it is new.\<close>

fun award_all :: "env \<Rightarrow> address \<Rightarrow> (achievement_badge \<times> bool) list \<Rightarrow> achievement_badge list \<times> game
    \<Rightarrow> achievement_badge list \<times> game" where
  "award_all e user [] (newly, s) = (newly, s)"
| "award_all e user ((badge, condition) # checks) (newly, s) =
     (if condition
      then let (fresh, s1) = award_badge e s user badge
           in award_all e user checks (if fresh then newly @ [badge] else newly, s1)
      else award_all e user checks (newly, s))"

definition badge_checks ::
    "nat \<Rightarrow> nat \<Rightarrow> int \<Rightarrow> nat \<Rightarrow> nat \<Rightarrow> nat \<Rightarrow> bool \<Rightarrow> int \<Rightarrow> nat \<Rightarrow> nat \<Rightarrow> (achievement_badge \<times> bool) list" where
  "badge_checks trade_count winning_trades pnl trade_streak daily_streak unique_pairs lp_provided liquidity_amount
       referral_count challenges_won =
     [(FirstTrade, trade_count \<ge> 1), (TenTrades, trade_count \<ge> 10), (FiftyTrades, trade_count \<ge> 50),
      (HundredTrades, trade_count \<ge> 100), (ThousandTrades, trade_count \<ge> 1000),
      (ProfitableTrader, winning_trades \<ge> 10), (ConsistentPerformer, trade_streak \<ge> 7),
      (PerfectWeek, trade_streak \<ge> 7), (WealthBuilder, pnl \<ge> 10000000),
      (DiversifiedPortfolio, unique_pairs \<ge> 5), (LPProvider, lp_provided),
      (DeepLiquidity, liquidity_amount \<ge> 1000), (CommunityContributor, referral_count \<ge> 3),
      (ChallengeChampion, challenges_won \<ge> 3), (StreakMaster, daily_streak \<ge> 30)]"

definition all_trading_badges :: "game \<Rightarrow> address \<Rightarrow> bool" where
  "all_trading_badges s user \<longleftrightarrow> has_badge s user FirstTrade \<and> has_badge s user TenTrades \<and> has_badge s user HundredTrades
     \<and> has_badge s user ProfitableTrader \<and> has_badge s user ConsistentPerformer"

definition check_and_award_achievements ::
    "env \<Rightarrow> game \<Rightarrow> address \<Rightarrow> nat \<Rightarrow> nat \<Rightarrow> int \<Rightarrow> nat \<Rightarrow> nat \<Rightarrow> nat \<Rightarrow> bool \<Rightarrow> int \<Rightarrow> nat \<Rightarrow> nat
     \<Rightarrow> achievement_badge list \<times> game" where
  "check_and_award_achievements e s user trade_count winning_trades pnl trade_streak daily_streak unique_pairs
       lp_provided liquidity_amount referral_count challenges_won =
     (let (newly, s1) = award_all e user (badge_checks trade_count winning_trades pnl trade_streak daily_streak
            unique_pairs lp_provided liquidity_amount referral_count challenges_won) ([], s)
      in award_all e user [(MasterTrader, all_trading_badges s1 user)] (newly, s1))"

section \<open>Streaks\<close>

definition record_profitable_trade :: "env \<Rightarrow> game \<Rightarrow> address \<Rightarrow> game" where
  "record_profitable_trade e s user =
     (let p = get_or_create_profile s user;
          streak = u_sat_add 32 (gp_current_trade_streak p) 1;
          best = (if streak > gp_best_trade_streak p then streak else gp_best_trade_streak p);
          s1 = save_profile s user (p\<lparr>gp_current_trade_streak := streak, gp_best_trade_streak := best\<rparr>);
          s2 = (if streak \<ge> 5 then add_score e s1 user 25 else s1);
          s3 = (if streak \<ge> 10 then add_score e s2 user 50 else s2)
      in if streak \<ge> 25 then add_score e s3 user 150 else s3)"

definition record_losing_trade :: "game \<Rightarrow> address \<Rightarrow> game" where
  "record_losing_trade s user =
     save_profile s user ((get_or_create_profile s user)\<lparr>gp_current_trade_streak := 0\<rparr>)"

definition streak_multiplier_bps :: "game \<Rightarrow> address \<Rightarrow> int" where
  "streak_multiplier_bps s user =
     10000 + min (int (gp_current_trade_streak (get_or_create_profile s user)) sdiv 5 * 1000) 10000"

definition get_best_streak :: "game \<Rightarrow> address \<Rightarrow> nat" where
  "get_best_streak s user = gp_best_trade_streak (get_or_create_profile s user)"

section \<open>Challenges\<close>

definition create_challenge ::
    "env \<Rightarrow> game \<Rightarrow> symbol \<Rightarrow> symbol \<Rightarrow> challenge_objective \<Rightarrow> nat \<Rightarrow> int \<Rightarrow> nat \<Rightarrow> progression_tier
     \<Rightarrow> (nat \<times> game, gamification_error) res" where
  "create_challenge e s name description objective duration_secs reward_pool max_participants min_tier =
     bindR (ensure (\<not> (duration_secs < MIN_CHALLENGE_DURATION \<or> duration_secs > MAX_CHALLENGE_DURATION))
       (Err InvalidChallengeDuration)) (\<lambda>_.
     let next_id = (case ga_next_id s of Some n \<Rightarrow> n | None \<Rightarrow> 1) in
     bindR (u_add 64 (now e) duration_secs) (\<lambda>end_time.
     let challenge = \<lparr>ch_challenge_id = next_id, ch_name = name, ch_description = description,
           ch_objective = objective, ch_start_time = now e, ch_end_time = end_time, ch_reward_pool = reward_pool,
           ch_status = Active, ch_max_participants = max_participants, ch_participant_count = 0,
           ch_min_tier = min_tier\<rparr> in
     bindR (u_add 64 next_id 1) (\<lambda>next1.
     Inr (next_id, publish (ChallengeCreated next_id name reward_pool (now e))
       (s\<lparr>ga_challenges := (ga_challenges s)(next_id \<mapsto> challenge), ga_next_id := Some next1,
          ga_list := ga_list s @ [next_id]\<rparr>)))))"

definition join_challenge :: "env \<Rightarrow> game \<Rightarrow> address \<Rightarrow> nat \<Rightarrow> (game, gamification_error) res" where
  "join_challenge e s user challenge_id =
     bindR (ok_or (ga_challenges s challenge_id) (Err ChallengeNotFound)) (\<lambda>challenge.
     bindR (ensure (ch_status challenge = Active) (Err ChallengeNotActive)) (\<lambda>_.
     bindR (ensure (\<not> (now e < ch_start_time challenge \<or> now e > ch_end_time challenge)) (Err ChallengeNotActive)) (\<lambda>_.
     bindR (ensure (\<not> get_user_tier s user < ch_min_tier challenge) (Err InsufficientTier)) (\<lambda>_.
     bindR (ensure (\<not> (ch_max_participants challenge > 0
         \<and> ch_participant_count challenge \<ge> ch_max_participants challenge)) (Err ChallengeFull)) (\<lambda>_.
     bindR (ensure (ga_progress s (challenge_id, user) = None) (Err AlreadyJoined)) (\<lambda>_.
     let progress = \<lparr>cp_current_progress = 0, cp_objective_met = False, cp_reward_claimed = False,
           cp_completed_at = None\<rparr>;
         s1 = s\<lparr>ga_progress := (ga_progress s)((challenge_id, user) \<mapsto> progress),
           ga_challenges := (ga_challenges s)(challenge_id \<mapsto>
             challenge\<lparr>ch_participant_count := u_sat_add 32 (ch_participant_count challenge) 1\<rparr>)\<rparr>;
         p = get_or_create_profile s1 user;
         s2 = save_profile s1 user (p\<lparr>gp_challenges_participated := u_sat_add 32 (gp_challenges_participated p) 1\<rparr>)
     in Inr (publish (ChallengeJoined user challenge_id (now e)) s2)))))))"

fun challenge_target :: "challenge_objective \<Rightarrow> int" where
  "challenge_target (CompleteTrades n) = int n"
| "challenge_target (AchieveROI r) = r"
| "challenge_target (TradeVolume v) = v"
| "challenge_target (WinStreak n) = int n"
| "challenge_target (Diversify n) = int n"
| "challenge_target (LiquidityProvision v) = v"

fun challenge_completion_score :: "challenge_objective \<Rightarrow> int" where
  "challenge_completion_score (CompleteTrades _) = 100"
| "challenge_completion_score (AchieveROI _) = 200"
| "challenge_completion_score (TradeVolume _) = 150"
| "challenge_completion_score (WinStreak _) = 300"
| "challenge_completion_score (Diversify _) = 100"
| "challenge_completion_score (LiquidityProvision _) = 150"

definition put_progress :: "game \<Rightarrow> nat \<Rightarrow> address \<Rightarrow> challenge_progress \<Rightarrow> game" where
  "put_progress s challenge_id user progress =
     s\<lparr>ga_progress := (ga_progress s)((challenge_id, user) \<mapsto> progress)\<rparr>"

definition update_challenge_progress :: "env \<Rightarrow> game \<Rightarrow> address \<Rightarrow> nat \<Rightarrow> int \<Rightarrow> (game, gamification_error) res" where
  "update_challenge_progress e s user challenge_id progress_increment =
     bindR (ok_or (ga_challenges s challenge_id) (Err ChallengeNotFound)) (\<lambda>challenge.
     bindR (ensure (ch_status challenge = Active) (Err ChallengeNotActive)) (\<lambda>_.
     bindR (ensure (\<not> now e > ch_end_time challenge) (Err ChallengeExpired)) (\<lambda>_.
     bindR (ok_or (ga_progress s (challenge_id, user)) (Err NotParticipant)) (\<lambda>progress.
     if cp_objective_met progress then Inr s
     else
       let current = i_sat_add (cp_current_progress progress) progress_increment;
           p1 = progress\<lparr>cp_current_progress := current\<rparr> in
       if current \<ge> challenge_target (ch_objective challenge)
       then Inr (put_progress
              (publish (ChallengeCompleted user challenge_id current (now e))
                (add_score e s user (challenge_completion_score (ch_objective challenge))))
              challenge_id user (p1\<lparr>cp_objective_met := True, cp_completed_at := Some (now e)\<rparr>))
       else Inr (put_progress s challenge_id user p1)))))"

definition record_reward_distribution :: "env \<Rightarrow> game \<Rightarrow> address \<Rightarrow> int \<Rightarrow> symbol \<Rightarrow> nat option \<Rightarrow> game" where
  "record_reward_distribution e s user amount reason challenge_id =
     s\<lparr>ga_history := ga_history s @ [\<lparr>rd_user = user, rd_amount = amount, rd_reason = reason,
        rd_timestamp = now e, rd_challenge_id = challenge_id\<rparr>]\<rparr>"

definition claim_challenge_reward :: "env \<Rightarrow> game \<Rightarrow> address \<Rightarrow> nat \<Rightarrow> (int \<times> game, gamification_error) res" where
  "claim_challenge_reward e s user challenge_id =
     bindR (ok_or (ga_challenges s challenge_id) (Err ChallengeNotFound)) (\<lambda>challenge.
     bindR (ok_or (ga_progress s (challenge_id, user)) (Err NotParticipant)) (\<lambda>progress.
     bindR (ensure (cp_objective_met progress) (Err ObjectiveNotMet)) (\<lambda>_.
     bindR (ensure (\<not> cp_reward_claimed progress) (Err RewardAlreadyClaimed)) (\<lambda>_.
     let p = get_or_create_profile s user;
         base_reward = ch_reward_pool challenge sdiv 10 in
     bindR (i_mul base_reward (reward_multiplier_bps (gp_tier p))) (\<lambda>x.
     bindR (i_mul x (streak_multiplier_bps s user)) (\<lambda>y.
     let reward = y sdiv (10000 * 10000);
         s1 = save_profile s user (p\<lparr>gp_pending_rewards := i_sat_add (gp_pending_rewards p) reward\<rparr>);
         s2 = put_progress s1 challenge_id user (progress\<lparr>cp_reward_claimed := True\<rparr>);
         s3 = record_reward_distribution e s2 user reward ''chlg_rwd'' (Some challenge_id);
         p1 = get_or_create_profile s3 user;
         p2 = p1\<lparr>gp_challenges_won := u_sat_add 32 (gp_challenges_won p1) 1\<rparr>;
         s4 = save_profile s3 user p2;
         s5 = (if gp_challenges_won p2 \<ge> 3 then snd (award_badge e s4 user ChallengeChampion) else s4)
     in Inr (reward, publish (RewardClaimed user challenge_id reward (now e)) s5)))))))"

definition get_challenge :: "game \<Rightarrow> nat \<Rightarrow> challenge_campaign option" where
  "get_challenge s challenge_id = ga_challenges s challenge_id"

definition get_challenge_progress :: "game \<Rightarrow> address \<Rightarrow> nat \<Rightarrow> challenge_progress option" where
  "get_challenge_progress s user challenge_id = ga_progress s (challenge_id, user)"

definition get_active_challenges :: "game \<Rightarrow> nat list" where
  "get_active_challenges s = ga_list s"

definition finalize_one :: "env \<Rightarrow> nat \<Rightarrow> game \<Rightarrow> game" where
  "finalize_one e k s =
     (case get_challenge s k of
        Some challenge \<Rightarrow>
          if ch_status challenge = Active \<and> now e > ch_end_time challenge
          then publish (ChallengeFinalized k (now e))
            (s\<lparr>ga_challenges := (ga_challenges s)(k \<mapsto> challenge\<lparr>ch_status := Completed\<rparr>)\<rparr>)
          else s
      | None \<Rightarrow> s)"

definition finalize_expired_challenges :: "env \<Rightarrow> game \<Rightarrow> game" where
  "finalize_expired_challenges e s = fold (finalize_one e) (get_active_challenges s) s"

section \<open>Rewards and statistics\<close>

definition claim_rewards :: "env \<Rightarrow> game \<Rightarrow> address \<Rightarrow> (int \<times> game, gamification_error) res" where
  "claim_rewards e s user =
     (let p = get_or_create_profile s user in
      bindR (ensure (\<not> gp_pending_rewards p \<le> 0) (Err NoRewardsPending)) (\<lambda>_.
      let amount = gp_pending_rewards p;
          s1 = save_profile s user (p\<lparr>gp_pending_rewards := 0,
            gp_total_rewards_earned := i_sat_add (gp_total_rewards_earned p) amount\<rparr>);
          s2 = record_reward_distribution e s1 user amount ''claim'' None
      in Inr (amount, publish (RewardsClaimed user amount (now e)) s2)))"

definition get_pending_rewards :: "game \<Rightarrow> address \<Rightarrow> int" where
  "get_pending_rewards s user = gp_pending_rewards (get_or_create_profile s user)"

definition get_lifetime_rewards :: "game \<Rightarrow> address \<Rightarrow> int" where
  "get_lifetime_rewards s user = gp_total_rewards_earned (get_or_create_profile s user)"

definition get_reward_history :: "game \<Rightarrow> reward_distribution list" where
  "get_reward_history s = ga_history s"

definition get_global_stats :: "game \<Rightarrow> global_stats" where
  "get_global_stats s = (case ga_stats s of Some g \<Rightarrow> g | None \<Rightarrow> global_stats_new)"

definition record_global_badge_award :: "game \<Rightarrow> game" where
  "record_global_badge_award s = (let g = get_global_stats s in
     s\<lparr>ga_stats := Some (g\<lparr>gs_total_badges_awarded := u_sat_add 64 (gs_total_badges_awarded g) 1\<rparr>)\<rparr>)"

definition record_global_challenge_completion :: "game \<Rightarrow> game" where
  "record_global_challenge_completion s = (let g = get_global_stats s in
     s\<lparr>ga_stats := Some (g\<lparr>gs_total_challenges_completed := u_sat_add 64 (gs_total_challenges_completed g) 1\<rparr>)\<rparr>)"

section \<open>Entry points\<close>

text \<open>
  The guards of \<open>src/lib.rs\<close>: creating a challenge needs the admin, joining and claiming the user.
  \<open>update_challenge_progress\<close> and \<open>finalize_expired_challenges\<close> have none and are the functions above.
\<close>

definition create_challenge_campaign ::
    "env \<Rightarrow> address option \<Rightarrow> game \<Rightarrow> address \<Rightarrow> symbol \<Rightarrow> symbol \<Rightarrow> challenge_objective \<Rightarrow> nat \<Rightarrow> int \<Rightarrow> nat
     \<Rightarrow> progression_tier \<Rightarrow> (nat \<times> game, gamification_error) res" where
  "create_challenge_campaign e admin s caller name description objective duration_secs reward_pool max_participants min_tier =
     bindR (require_auth e caller) (\<lambda>_.
     case require_admin admin caller of
       Inl _ \<Rightarrow> Inl (Err NotAdmin)
     | Inr _ \<Rightarrow> create_challenge e s name description objective duration_secs reward_pool max_participants min_tier)"

definition cc_join_challenge :: "env \<Rightarrow> game \<Rightarrow> address \<Rightarrow> nat \<Rightarrow> (game, gamification_error) res" where
  "cc_join_challenge e s user challenge_id = bindR (require_auth e user) (\<lambda>_. join_challenge e s user challenge_id)"

definition cc_claim_challenge_reward :: "env \<Rightarrow> game \<Rightarrow> address \<Rightarrow> nat \<Rightarrow> (int \<times> game, gamification_error) res" where
  "cc_claim_challenge_reward e s user challenge_id =
     bindR (require_auth e user) (\<lambda>_. claim_challenge_reward e s user challenge_id)"

definition claim_gamification_rewards :: "env \<Rightarrow> game \<Rightarrow> address \<Rightarrow> (int \<times> game, gamification_error) res" where
  "claim_gamification_rewards e s user = bindR (require_auth e user) (\<lambda>_. claim_rewards e s user)"

definition get_gamification_score :: "game \<Rightarrow> address \<Rightarrow> int" where
  "get_gamification_score s user = gp_score (get_or_create_profile s user)"

definition get_lifetime_score :: "game \<Rightarrow> address \<Rightarrow> int" where
  "get_lifetime_score s user = gp_lifetime_score (get_or_create_profile s user)"

definition get_trading_streak :: "game \<Rightarrow> address \<Rightarrow> nat \<times> nat" where
  "get_trading_streak s user =
     (let p = get_or_create_profile s user in (gp_current_trade_streak p, gp_best_trade_streak p))"

definition get_daily_streak :: "game \<Rightarrow> address \<Rightarrow> nat \<times> nat" where
  "get_daily_streak s user =
     (let p = get_or_create_profile s user in (gp_current_daily_streak p, gp_best_daily_streak p))"

end
