(* ===== verification/Gamification_Inv.thy ===== *)
theory Gamification_Inv
  imports Gamification
begin

text \<open>
  The leaderboard of the gamification engine: one update is an insertion into the standings, and the
  board of all updates is the exact ranking of the best hundred users by their current value.
\<close>

section \<open>One update is an insertion\<close>

definition standings :: "leaderboard_entry list \<Rightarrow> (address \<times> int) list" where
  "standings b = map (\<lambda>x. (le_user x, le_score x)) b"

definition insert_standing :: "address \<times> int \<Rightarrow> (address \<times> int) list \<Rightarrow> (address \<times> int) list" where
  "insert_standing p ps = takeWhile (\<lambda>q. snd q \<ge> snd p) ps @ p # dropWhile (\<lambda>q. snd q \<ge> snd p) ps"

definition place_entry :: "leaderboard_entry \<Rightarrow> leaderboard_entry list \<Rightarrow> leaderboard_entry list" where
  "place_entry x b = takeWhile (\<lambda>y. le_score y \<ge> le_score x) b @ x # dropWhile (\<lambda>y. le_score y \<ge> le_score x) b"

lemma bubble_up_place:
  assumes "sorted_wrt (\<lambda>x y. le_score y \<le> le_score x) b"
  shows "bubble_up (length b) (b @ x # c) = place_entry x b @ c"
  using assms
proof (induction b arbitrary: c rule: rev_induct)
  case Nil
  then show ?case by (simp add: place_entry_def)
next
  case (snoc y b)
  have all: "\<forall>z\<in>set b. le_score y \<le> le_score z" and sorted: "sorted_wrt (\<lambda>x y. le_score y \<le> le_score x) b"
    using snoc.prems by (auto simp: sorted_wrt_append)
  have nth: "(b @ y # x # c) ! Suc (length b) = x" "(b @ y # x # c) ! length b = y"
    by (simp_all add: nth_append)
  show ?case
  proof (cases "le_score x > le_score y")
    case True
    have swap: "(b @ y # x # c)[Suc (length b) := y, length b := x] = b @ x # y # c"
      by (simp add: list_update_append)
    have place: "place_entry x (b @ [y]) = place_entry x b @ [y]"
    proof (cases "\<forall>z\<in>set b. le_score x \<le> le_score z")
      case True
      with \<open>le_score x > le_score y\<close> show ?thesis
        by (simp add: place_entry_def takeWhile_append dropWhile_append) (metis takeWhile_eq_all_conv)
    next
      case False
      then have "\<not> (\<forall>z\<in>set b. le_score z \<ge> le_score x)" by auto
      then show ?thesis by (auto simp: place_entry_def takeWhile_append dropWhile_append)
    qed
    from True snoc.IH [OF sorted, of "y # c"] show ?thesis by (simp add: nth swap place)
  next
    case False
    with all have "\<forall>z\<in>set (b @ [y]). le_score x \<le> le_score z" by force
    then have "place_entry x (b @ [y]) = b @ [y, x]"
      by (auto simp: place_entry_def takeWhile_append dropWhile_append)
    with False show ?thesis by (simp add: nth)
  qed
qed

lemma standings_place: "standings (place_entry x b) = insert_standing (le_user x, le_score x) (standings b)"
  by (simp add: standings_def place_entry_def insert_standing_def takeWhile_map dropWhile_map comp_def)

lemma standings_assign_ranks [simp]: "standings (assign_ranks b) = standings b"
  by (simp add: standings_def assign_ranks_def comp_def) (metis (no_types, lifting) map_nth map_eq_conv list.map_comp comp_def)

lemma ranks_assign_ranks: "map le_rank (assign_ranks b) = [1..<Suc (length b)]"
  by (simp add: assign_ranks_def comp_def map_Suc_upt del: upt_Suc)

lemma standings_drop_user:
  "distinct (map le_user b) \<Longrightarrow> standings (drop_user u b) = filter (\<lambda>p. fst p \<noteq> u) (standings b)"
proof (induction b)
  case (Cons x b)
  have "filter (\<lambda>p. fst p \<noteq> u) (standings b) = standings b" if "u \<notin> le_user ` set b"
    using that by (intro filter_True) (auto simp: standings_def)
  with Cons show ?case by (auto simp: standings_def)
qed (simp add: standings_def)

lemma sorted_standings: "sorted_wrt (\<lambda>x y. le_score y \<le> le_score x) b \<longleftrightarrow> sorted_wrt (\<ge>) (map snd (standings b))"
  by (simp add: standings_def sorted_wrt_map comp_def)

lemma length_standings [simp]: "length (standings b) = length b"
  by (simp add: standings_def)

lemma standings_take: "standings (take n b) = take n (standings b)"
  by (simp add: standings_def take_map)

lemma standings_ranked_board:
  assumes "sorted_wrt (\<ge>) (map snd (standings b))" and "distinct (map fst (standings b))"
  shows "standings (ranked_board b u v) =
    take MAX_LEADERBOARD_SIZE (insert_standing (u, v) (filter (\<lambda>p. fst p \<noteq> u) (standings b)))"
proof -
  have d: "distinct (map le_user b)" using assms(2) by (simp add: standings_def comp_def)
  let ?e = "\<lparr>le_user = u, le_score = v, le_rank = 0\<rparr>"
  have "sorted_wrt (\<ge>) (map snd (filter (\<lambda>p. fst p \<noteq> u) (standings b)))"
    using assms(1) by (simp add: sorted_wrt_map sorted_wrt_filter)
  then have "sorted_wrt (\<lambda>x y. le_score y \<le> le_score x) (drop_user u b)"
    by (simp add: sorted_standings standings_drop_user [OF d])
  then have "bubble_up (length (drop_user u b)) (drop_user u b @ [?e]) = place_entry ?e (drop_user u b)"
    using bubble_up_place [of "drop_user u b" ?e "[]"] by simp
  then have "ranked_board b u v = assign_ranks (take MAX_LEADERBOARD_SIZE (place_entry ?e (drop_user u b)))"
    by (simp add: ranked_board_def)
  then show ?thesis by (simp only: standings_assign_ranks standings_take standings_place standings_drop_user [OF d] leaderboard_entry.simps)
qed

section \<open>The invariant of the standings\<close>

text \<open>
  \<open>top_hundred sc ps\<close>: \<open>ps\<close> lists users with their values under \<open>sc\<close> in descending order, at most
  one hundred, and whoever has a positive value is listed or ranks behind a full list.
\<close>

definition top_hundred :: "(address \<Rightarrow> int) \<Rightarrow> (address \<times> int) list \<Rightarrow> bool" where
  "top_hundred sc ps \<longleftrightarrow> sorted_wrt (\<ge>) (map snd ps) \<and> distinct (map fst ps) \<and> length ps \<le> MAX_LEADERBOARD_SIZE
     \<and> (\<forall>p\<in>set ps. snd p = sc (fst p) \<and> 0 < snd p)
     \<and> (\<forall>u. 0 < sc u \<longrightarrow> u \<in> fst ` set ps \<or> length ps = MAX_LEADERBOARD_SIZE \<and> (\<forall>p\<in>set ps. sc u \<le> snd p))"

lemma top_hundred_value: "top_hundred sc ps \<Longrightarrow> (u, v) \<in> set ps \<Longrightarrow> v = sc u \<and> 0 < v"
  by (fastforce simp: top_hundred_def)

lemma top_hundred_cover:
  assumes "top_hundred sc ps" and "0 < sc u" and "u \<notin> fst ` set ps"
  shows "length ps = MAX_LEADERBOARD_SIZE \<and> (\<forall>p\<in>set ps. sc u \<le> snd p)"
  using assms unfolding top_hundred_def by blast

lemma set_insert_standing [simp]: "set (insert_standing p ps) = insert p (set ps)"
proof -
  have "set ps = set (takeWhile (\<lambda>q. snd q \<ge> snd p) ps) \<union> set (dropWhile (\<lambda>q. snd q \<ge> snd p) ps)"
    by (metis set_append takeWhile_dropWhile_id)
  then show ?thesis by (auto simp: insert_standing_def)
qed

lemma length_insert_standing [simp]: "length (insert_standing p ps) = Suc (length ps)"
  unfolding insert_standing_def
  by (metis add_Suc_right length_Cons length_append takeWhile_dropWhile_id)

lemma sorted_insert_standing:
  assumes "sorted_wrt (\<ge>) (map snd ps)"
  shows "sorted_wrt (\<ge>) (map snd (insert_standing p ps))"
  using assms
proof (induction ps)
  case Nil
  then show ?case by (simp add: insert_standing_def)
next
  case (Cons q ps)
  show ?case
  proof (cases "snd q \<ge> snd p")
    case True
    then have "insert_standing p (q # ps) = q # insert_standing p ps" by (simp add: insert_standing_def)
    with Cons True show ?thesis by simp
  next
    case False
    then have "insert_standing p (q # ps) = p # q # ps" by (simp add: insert_standing_def)
    with Cons.prems False show ?thesis by force
  qed
qed

lemma distinct_insert_standing:
  assumes "distinct (map fst ps)" and "fst p \<notin> fst ` set ps"
  shows "distinct (map fst (insert_standing p ps))"
proof -
  let ?t = "takeWhile (\<lambda>q. snd q \<ge> snd p) ps" and ?d = "dropWhile (\<lambda>q. snd q \<ge> snd p) ps"
  have split: "map fst ?t @ map fst ?d = map fst ps" by (metis map_append takeWhile_dropWhile_id)
  then have "distinct (map fst ?t @ map fst ?d)" using assms(1) by simp
  moreover have "fst p \<notin> set (map fst ?t @ map fst ?d)" using assms(2) by (simp only: split) simp
  ultimately show ?thesis by (simp add: insert_standing_def)
qed

text \<open>What a cut after the hundredth place removes is not better than what it keeps.\<close>

lemma sorted_take_ge:
  assumes "sorted_wrt (\<ge>) (map snd ps)" and "p \<in> set (take n ps)" and "q \<in> set (drop n ps)"
  shows "snd q \<le> snd p"
proof -
  have "sorted_wrt (\<ge>) (map snd (take n ps) @ map snd (drop n ps))"
    using assms(1) by (simp flip: map_append)
  with assms(2,3) show ?thesis by (auto simp: sorted_wrt_append)
qed

lemma top_hundred_insert:
  assumes ok: "top_hundred sc ps" and up: "sc u \<le> v" and pos: "0 < v"
  shows "top_hundred (sc(u := v)) (take MAX_LEADERBOARD_SIZE (insert_standing (u, v) (filter (\<lambda>p. fst p \<noteq> u) ps)))"
    (is "top_hundred ?sc (take _ ?qs)")
proof -
  let ?fs = "filter (\<lambda>p. fst p \<noteq> u) ps"
  note okD = ok [unfolded top_hundred_def]
  have sfs: "sorted_wrt (\<ge>) (map snd ?fs)" using okD by (simp add: sorted_wrt_map sorted_wrt_filter)
  have sorted: "sorted_wrt (\<ge>) (map snd ?qs)" by (rule sorted_insert_standing [OF sfs])
  have dist: "distinct (map fst ?qs)"
    by (rule distinct_insert_standing) (use okD in \<open>auto simp: distinct_map_filter\<close>)
  have vals: "\<forall>p\<in>set ?qs. snd p = ?sc (fst p) \<and> 0 < snd p" using top_hundred_value [OF ok] pos by fastforce
  have len: "length ?fs \<le> MAX_LEADERBOARD_SIZE" using okD length_filter_le [of "\<lambda>p. fst p \<noteq> u" ps] by linarith
  have cover: "w \<in> fst ` set (take MAX_LEADERBOARD_SIZE ?qs) \<or>
      length (take MAX_LEADERBOARD_SIZE ?qs) = MAX_LEADERBOARD_SIZE
      \<and> (\<forall>p\<in>set (take MAX_LEADERBOARD_SIZE ?qs). ?sc w \<le> snd p)" if w: "0 < ?sc w" for w
  proof (cases "w \<in> fst ` set ?qs")
    case True
    then obtain y where y: "(w, y) \<in> set ?qs" by auto
    show ?thesis
    proof (cases "(w, y) \<in> set (take MAX_LEADERBOARD_SIZE ?qs)")
      case False
      with y have d: "(w, y) \<in> set (drop MAX_LEADERBOARD_SIZE ?qs)"
        by (metis Un_iff append_take_drop_id set_append)
      then have l: "length (take MAX_LEADERBOARD_SIZE ?qs) = MAX_LEADERBOARD_SIZE"
        by (cases "length ?qs \<le> MAX_LEADERBOARD_SIZE") auto
      have "?sc w = y" using bspec [OF vals y] by simp
      with sorted_take_ge [OF sorted _ d] l show ?thesis by fastforce
    qed force
  next
    case False
    then have nw: "w \<noteq> u" "w \<notin> fst ` set ps" by auto
    with top_hundred_cover [OF ok, of w] w have full: "length ps = MAX_LEADERBOARD_SIZE" and ge: "\<forall>p\<in>set ps. sc w \<le> snd p"
      by simp_all
    show ?thesis
    proof (cases "u \<in> fst ` set ps")
      case True
      then obtain y where y: "(u, y) \<in> set ps" by auto
      with top_hundred_value [OF ok y] ge have "sc w \<le> sc u" by auto
      then have all: "\<forall>p\<in>set ?qs. sc w \<le> snd p" using ge up by auto
      have inj: "inj_on fst (set ps)" "distinct ps" using okD by (simp_all add: distinct_map)
      have "p = (u, y)" if "p \<in> set ps" "fst p = u" for p using inj_onD [OF inj(1), of p "(u, y)"] that y by simp
      moreover have "fst (u, y) = u" by simp
      ultimately have "set (filter (\<lambda>p. fst p = u) ps) = {(u, y)}" using y unfolding set_filter by blast
      then have "length (filter (\<lambda>p. fst p = u) ps) = 1"
        using distinct_card [of "filter (\<lambda>p. fst p = u) ps"] inj(2) by simp
      then have "length ?fs = MAX_LEADERBOARD_SIZE - 1"
        using sum_length_filter_compl [of "\<lambda>p. fst p = u" ps] full by simp
      then have "length ?qs = MAX_LEADERBOARD_SIZE" by (simp add: MAX_LEADERBOARD_SIZE_def)
      with all nw show ?thesis by simp
    next
      case False
      then have fs: "?fs = ps" by (auto simp: filter_id_conv)
      have lq: "length ?qs = Suc MAX_LEADERBOARD_SIZE" by (simp add: fs full)
      then obtain z where z: "drop MAX_LEADERBOARD_SIZE ?qs = [z]"
        by (metis Suc_diff_le diff_self_eq_0 le_refl length_0_conv length_Suc_conv length_drop)
      have "sc w \<le> y" if xy: "(x, y) \<in> set (take MAX_LEADERBOARD_SIZE ?qs)" for x y
      proof (cases "(x, y) = (u, v)")
        case True
        have "set ps \<noteq> {}" using full by (auto simp: MAX_LEADERBOARD_SIZE_def)
        have "z \<noteq> (u, v)"
        proof
          assume "z = (u, v)"
          with z xy True have "(u, v) \<in> set (take MAX_LEADERBOARD_SIZE ?qs) \<inter> set (drop MAX_LEADERBOARD_SIZE ?qs)" by simp
          moreover have "distinct ?qs" using dist by (simp add: distinct_map)
          ultimately show False by (metis (no_types) distinct_append append_take_drop_id empty_iff)
        qed
        moreover have "z \<in> set ?qs" using z by (metis in_set_dropD list.set_intros(1))
        ultimately have "z \<in> set ps" by (simp add: fs)
        then have "sc w \<le> snd z" using ge by auto
        moreover have "snd z \<le> y" using sorted_take_ge [OF sorted xy, of z] z by simp
        ultimately show ?thesis by simp
      next
        case False
        with xy have "(x, y) \<in> set ps" by (auto dest!: in_set_takeD simp: fs)
        with ge show ?thesis by auto
      qed
      with nw lq show ?thesis by auto
    qed
  qed
  show ?thesis unfolding top_hundred_def
  proof (intro conjI allI impI)
    show "sorted_wrt (\<ge>) (map snd (take MAX_LEADERBOARD_SIZE ?qs))" using sorted by (simp add: take_map [symmetric] sorted_wrt_take)
    show "distinct (map fst (take MAX_LEADERBOARD_SIZE ?qs))" using dist by (simp add: take_map [symmetric])
    show "length (take MAX_LEADERBOARD_SIZE ?qs) \<le> MAX_LEADERBOARD_SIZE" by simp
    show "\<forall>p\<in>set (take MAX_LEADERBOARD_SIZE ?qs). snd p = ?sc (fst p) \<and> 0 < snd p" using vals in_set_takeD by fast
  qed (rule cover)
qed

text \<open>\<open>board_ok sc b\<close>: the standings are the best hundred, and the ranks count from one.\<close>

definition board_ok :: "(address \<Rightarrow> int) \<Rightarrow> leaderboard_entry list \<Rightarrow> bool" where
  "board_ok sc b \<longleftrightarrow> top_hundred sc (standings b) \<and> map le_rank b = [1..<Suc (length b)]"

lemma board_ok_empty: "(\<And>u. sc u = 0) \<Longrightarrow> board_ok sc []"
  by (simp add: board_ok_def top_hundred_def standings_def)

lemma board_ok_update:
  assumes "board_ok sc b" and "sc u \<le> v" and "0 < v"
  shows "board_ok (sc(u := v)) (ranked_board b u v)"
proof -
  have "map le_rank (ranked_board b u v) = [1..<Suc (length (ranked_board b u v))]"
    unfolding ranked_board_def Let_def ranks_assign_ranks by (simp add: assign_ranks_def)
  moreover have th: "top_hundred sc (standings b)" using assms(1) by (simp add: board_ok_def)
  then have "standings (ranked_board b u v) = take MAX_LEADERBOARD_SIZE (insert_standing (u, v) (filter (\<lambda>p. fst p \<noteq> u) (standings b)))"
    by (intro standings_ranked_board) (auto simp: top_hundred_def)
  ultimately show ?thesis using top_hundred_insert [OF th assms(2,3)] by (simp only: board_ok_def)
qed

section \<open>Ranks\<close>

lemma board_ok_find:
  assumes ok: "board_ok sc b" and f: "find (\<lambda>x. le_user x = u) b = Some x"
  obtains i where "i < length b" "b ! i = x" "le_user x = u" "le_rank x = Suc i" "le_score x = sc u" "0 < sc u"
proof -
  from f obtain i where i: "i < length b" "x = b ! i" "le_user (b ! i) = u" by (auto simp: find_Some_iff)
  have "map le_rank b ! i = Suc i" using ok i(1) by (simp add: board_ok_def del: upt_Suc)
  moreover have "(u, le_score x) \<in> set (standings b)" using i by (force simp: standings_def)
  then have "le_score x = sc u \<and> 0 < le_score x"
    using ok top_hundred_value [of sc "standings b"] unfolding board_ok_def by blast
  ultimately show thesis using that [of i] i by simp
qed

lemma board_ok_nth:
  assumes ok: "board_ok sc b" and "i < length b"
  shows "le_score (b ! i) = sc (le_user (b ! i))"
proof -
  have "(le_user (b ! i), le_score (b ! i)) \<in> set (standings b)" using assms(2) by (force simp: standings_def)
  with ok top_hundred_value [of sc "standings b"] show ?thesis unfolding board_ok_def by blast
qed

lemma board_ok_sorted:
  assumes ok: "board_ok sc b" and "i \<le> j" "j < length b"
  shows "le_score (b ! j) \<le> le_score (b ! i)"
proof (cases "i = j")
  case False
  have "sorted_wrt (\<lambda>x y. le_score y \<le> le_score x) b" using ok by (simp add: board_ok_def top_hundred_def sorted_standings)
  with False assms(2,3) show ?thesis by (auto simp: sorted_wrt_iff_nth_less)
qed simp

text \<open>
  The rank of a listed user: fewer users than the rank have a higher value, and all places before it
  are taken by other users with at least the value.
\<close>

lemma board_ok_rank:
  assumes ok: "board_ok sc b" and f: "map_option le_rank (find (\<lambda>x. le_user x = u) b) = Some k"
  shows "0 < k \<and> k \<le> MAX_LEADERBOARD_SIZE \<and> finite {w. sc u < sc w} \<and> card {w. sc u < sc w} < k
    \<and> (\<exists>A. finite A \<and> card A = k - 1 \<and> (\<forall>w\<in>A. w \<noteq> u \<and> sc u \<le> sc w))"
proof -
  from f obtain x where fx: "find (\<lambda>x. le_user x = u) b = Some x" and k: "k = le_rank x" by auto
  obtain i where i: "i < length b" "b ! i = x" "le_user x = u" "le_rank x = Suc i" "le_score x = sc u" "0 < sc u"
    by (rule board_ok_find [OF ok fx])
  have dist: "distinct (map le_user b)" using ok by (simp add: board_ok_def top_hundred_def standings_def comp_def)
  let ?A = "le_user ` set (take i b)"
  have dt: "distinct (map le_user (take i b))" using dist by (simp add: take_map [symmetric])
  have card: "card ?A = i" using distinct_card [OF dt] i(1) by simp
  have sub: "{w. sc u < sc w} \<subseteq> ?A"
  proof
    fix w assume "w \<in> {w. sc u < sc w}"
    then have w: "sc u < sc w" by simp
    have xs: "(u, sc u) \<in> set (standings b)" using i by (force simp: standings_def)
    have "w \<in> fst ` set (standings b)"
    proof (rule ccontr)
      assume "w \<notin> fst ` set (standings b)"
      with top_hundred_cover [of sc "standings b" w] ok w i(6) xs show False by (fastforce simp: board_ok_def)
    qed
    then obtain j where j: "j < length b" "le_user (b ! j) = w" by (auto simp: standings_def in_set_conv_nth)
    have "j < i" using board_ok_sorted [OF ok, of i j] board_ok_nth [OF ok j(1)] i j w by (cases "j < i") auto
    with j i(1) show "w \<in> ?A" by (force simp: in_set_conv_nth)
  qed
  have ge: "w \<noteq> u \<and> sc u \<le> sc w" if "w \<in> ?A" for w
  proof -
    from that obtain j where j: "j < i" "w = le_user (b ! j)" using i(1) by (auto simp: in_set_conv_nth)
    then have "le_user (b ! j) \<noteq> le_user (b ! i)" using dist i(1) by (auto simp: distinct_conv_nth)
    with board_ok_sorted [OF ok, of j i] board_ok_nth [OF ok, of j] i j show ?thesis by auto
  qed
  have "length b \<le> MAX_LEADERBOARD_SIZE" using ok by (simp add: board_ok_def top_hundred_def)
  moreover have "card {w. sc u < sc w} \<le> i" using card_mono [OF _ sub] card by simp
  moreover have "finite {w. sc u < sc w}" using sub by (rule finite_subset) simp
  ultimately show ?thesis using i k card ge by (auto intro!: exI [of _ ?A])
qed

lemma board_ok_unranked:
  assumes ok: "board_ok sc b" and f: "find (\<lambda>x. le_user x = u) b = None" and pos: "0 < sc u"
  shows "\<exists>A. finite A \<and> card A = MAX_LEADERBOARD_SIZE \<and> (\<forall>w\<in>A. w \<noteq> u \<and> sc u \<le> sc w)"
proof -
  have nu: "u \<notin> fst ` set (standings b)" using f by (auto simp: find_None_iff standings_def)
  with top_hundred_cover [of sc "standings b" u] ok pos have full: "length b = MAX_LEADERBOARD_SIZE"
    and ge: "\<forall>p\<in>set (standings b). sc u \<le> snd p" by (simp_all add: board_ok_def)
  have "distinct (map fst (standings b))" using ok by (simp add: board_ok_def top_hundred_def)
  from distinct_card [OF this] full have "card (fst ` set (standings b)) = MAX_LEADERBOARD_SIZE" by simp
  moreover have "w \<noteq> u \<and> sc u \<le> sc w" if "w \<in> fst ` set (standings b)" for w
  proof -
    from that obtain v where "(w, v) \<in> set (standings b)" by auto
    with nu ge ok top_hundred_value [of sc "standings b" w v] that show ?thesis by (auto simp: board_ok_def)
  qed
  ultimately show ?thesis by (intro exI [of _ "fst ` set (standings b)"]) simp
qed

text \<open>
  The runs of the gamification engine and their invariants: the scores with the leaderboard that ranks
  them, the badges, and the challenges with their participants and paid rewards.
\<close>

section \<open>Runs\<close>

text \<open>
  The entry points, and the operations of the engine that other modules may call. A call names the
  address it passes as user; \<open>Create\<close> also the caller, checked against the stored admin.
\<close>

datatype game_call =
    Create address symbol symbol challenge_objective nat int nat progression_tier
  | Join address nat
  | Progress address nat int
  | Claim address nat
  | Claim_Rewards address
  | Finalize
  | Activity address
  | Profit address
  | Loss address
  | Points address int
  | Award address achievement_badge
  | Achievements address nat nat int nat nat nat bool int nat nat
  | Board address leaderboard_metric int
  | Breakdown address score_breakdown

fun game_exec :: "env \<Rightarrow> address option \<Rightarrow> game \<Rightarrow> game_call \<Rightarrow> (game, gamification_error) res" where
  "game_exec e adm s (Create caller name desc obj d pool n t) =
     bindR (create_challenge_campaign e adm s caller name desc obj d pool n t) (\<lambda>(_, s'). Inr s')"
| "game_exec e adm s (Join u k) = cc_join_challenge e s u k"
| "game_exec e adm s (Progress u k x) = update_challenge_progress e s u k x"
| "game_exec e adm s (Claim u k) = bindR (cc_claim_challenge_reward e s u k) (\<lambda>(_, s'). Inr s')"
| "game_exec e adm s (Claim_Rewards u) = bindR (claim_gamification_rewards e s u) (\<lambda>(_, s'). Inr s')"
| "game_exec e adm s Finalize = Inr (finalize_expired_challenges e s)"
| "game_exec e adm s (Activity u) = Inr (record_activity e s u)"
| "game_exec e adm s (Profit u) = Inr (record_profitable_trade e s u)"
| "game_exec e adm s (Loss u) = Inr (record_losing_trade s u)"
| "game_exec e adm s (Points u x) = Inr (add_score e s u x)"
| "game_exec e adm s (Award u b) = Inr (snd (award_badge e s u b))"
| "game_exec e adm s (Achievements u a b c d f g h i j k) =
     Inr (snd (check_and_award_achievements e s u a b c d f g h i j k))"
| "game_exec e adm s (Board u m x) = Inr (if m = ByScore then s else update_leaderboard_entry s u m x)"
| "game_exec e adm s (Breakdown u b) = Inr (save_score_breakdown s u b)"

text \<open>The participant limit is a \<open>u32\<close>.\<close>

fun fits :: "game_call \<Rightarrow> bool" where
  "fits (Create _ _ _ _ _ _ n _) \<longleftrightarrow> n < 2 ^ 32"
| "fits _ \<longleftrightarrow> True"

inductive game_step :: "game \<Rightarrow> game \<Rightarrow> bool" where
  game_call: "game_exec e adm s c = Inr s' \<Longrightarrow> fits c \<Longrightarrow> game_step s s'"

inductive_cases game_stepE: "game_step s s'"

abbreviation game_reachable :: "game \<Rightarrow> bool" where
  "game_reachable \<equiv> reachable (\<lambda>s. s = game0) game_step"

lemma game_reach: "game_reachable s \<Longrightarrow> game_exec e adm s c = Inr s' \<Longrightarrow> fits c \<Longrightarrow> game_reachable s'"
  by (blast intro: reach_step game_call)

section \<open>Scores\<close>

text \<open>The score, the lifetime score and the tier agree, and the leaderboard ranks the scores.\<close>

definition profile_ok :: "profile \<Rightarrow> bool" where
  "profile_ok p \<longleftrightarrow> gp_lifetime_score p = gp_score p \<and> 0 \<le> gp_score p \<and> gp_score p \<le> I128_MAX
     \<and> gp_tier p = calculate_tier (gp_score p)"

definition scores_ok :: "game \<Rightarrow> bool" where
  "scores_ok s \<longleftrightarrow> (\<forall>u. profile_ok (get_or_create_profile s u)) \<and> board_ok (get_gamification_score s) (ga_boards s ByScore)"

lemma profile_save [simp]:
  "get_or_create_profile (save_profile s u p) w = (if w = u then p else get_or_create_profile s w)"
  by (simp add: get_or_create_profile_def save_profile_def)

lemma profile_cong: "ga_profiles s' = ga_profiles s \<Longrightarrow> get_or_create_profile s' = get_or_create_profile s"
  by (rule ext) (simp add: get_or_create_profile_def)

lemma scores_ok_cong:
  assumes "ga_profiles s' = ga_profiles s" and "ga_boards s' ByScore = ga_boards s ByScore"
  shows "scores_ok s' = scores_ok s"
proof -
  note p = profile_cong [OF assms(1)]
  have "get_gamification_score s' = get_gamification_score s" by (rule ext) (simp add: get_gamification_score_def p)
  with p assms(2) show ?thesis by (simp add: scores_ok_def)
qed

text \<open>Saving a profile that differs in its other fields only.\<close>

lemma scores_ok_save:
  assumes "scores_ok s" and "gp_score p = gp_score (get_or_create_profile s u)"
    and "gp_lifetime_score p = gp_lifetime_score (get_or_create_profile s u)"
    and "gp_tier p = gp_tier (get_or_create_profile s u)"
  shows "scores_ok (save_profile s u p)"
proof -
  have "get_gamification_score (save_profile s u p) = get_gamification_score s"
    by (rule ext) (simp add: get_gamification_score_def assms(2))
  with assms show ?thesis by (auto simp: scores_ok_def profile_ok_def) (simp add: save_profile_def)
qed

lemma scores_ok_add:
  assumes ok: "scores_ok s"
  shows "scores_ok (add_score e s u x)"
proof (cases "x \<le> 0")
  case True
  with ok show ?thesis by (simp add: add_score_def)
next
  case False
  define p where "p = get_or_create_profile s u"
  define v where "v = i_sat_add (gp_score p) x"
  define p1 where "p1 = p\<lparr>gp_score := v, gp_lifetime_score := v, gp_tier := calculate_tier v\<rparr>"
  have p: "profile_ok p" using ok by (simp add: scores_ok_def p_def)
  have v: "gp_score p \<le> v" "0 < v" "v \<le> I128_MAX"
    using p False by (auto simp: v_def i_sat_add_def i_clamp_def profile_ok_def I128_MAX_def I128_MIN_def)
  have sc: "get_gamification_score (save_profile s u p1) = (get_gamification_score s)(u := v)"
    by (rule ext) (simp add: get_gamification_score_def p1_def)
  define s1 where "s1 = update_leaderboard_entry (save_profile s u p1) u ByScore v"
  have "board_ok (get_gamification_score s) (ga_boards s ByScore)" using ok by (simp add: scores_ok_def)
  from board_ok_update [OF this _ v(2), of u] v(1)
  have "board_ok ((get_gamification_score s)(u := v)) (ranked_board (ga_boards s ByScore) u v)"
    by (simp add: get_gamification_score_def p_def)
  moreover have "get_gamification_score s1 = (get_gamification_score s)(u := v)"
    using sc by (simp add: s1_def update_leaderboard_entry_def get_gamification_score_def [abs_def] get_or_create_profile_def)
  moreover have "ga_boards s1 ByScore = ranked_board (ga_boards s ByScore) u v"
    by (simp add: s1_def update_leaderboard_entry_def save_profile_def)
  moreover have "profile_ok (get_or_create_profile s1 w)" for w
  proof -
    have "get_or_create_profile s1 w = (if w = u then p1 else get_or_create_profile s w)"
      using profile_save [of s u p1 w] by (simp add: s1_def update_leaderboard_entry_def get_or_create_profile_def)
    moreover have "profile_ok p1" using v p by (simp add: p1_def profile_ok_def)
    ultimately show ?thesis using ok by (simp add: scores_ok_def)
  qed
  ultimately have s1: "scores_ok s1" by (simp add: scores_ok_def)
  have "add_score e s u x = s1 \<or> (\<exists>ev. add_score e s u x = publish ev s1)"
    using False p by (auto simp: add_score_def Let_def s1_def p1_def v_def p_def profile_ok_def)
  with s1 scores_ok_cong [of "publish _ s1" s1] show ?thesis by (auto simp: publish_def)
qed

section \<open>What the operations leave alone\<close>

text \<open>\<open>keeps_challenges s s'\<close>: the challenges, their participants, the history and the next id are the same.\<close>

definition keeps_challenges :: "game \<Rightarrow> game \<Rightarrow> bool" where
  "keeps_challenges s s' \<longleftrightarrow> ga_challenges s' = ga_challenges s \<and> ga_progress s' = ga_progress s
     \<and> ga_history s' = ga_history s \<and> ga_next_id s' = ga_next_id s"

lemma keeps_challenges_refl [simp]: "keeps_challenges s s"
  by (simp add: keeps_challenges_def)

lemma keeps_challenges_trans: "keeps_challenges s t \<Longrightarrow> keeps_challenges t w \<Longrightarrow> keeps_challenges s w"
  by (simp add: keeps_challenges_def)

lemma add_score_keeps [simp]: "keeps_challenges s (add_score e s u x)" "ga_badges (add_score e s u x) = ga_badges s"
  by (simp_all add: add_score_def Let_def publish_def update_leaderboard_entry_def save_profile_def keeps_challenges_def)

lemma save_profile_keeps [simp]: "keeps_challenges s (save_profile s u p)" "ga_badges (save_profile s u p) = ga_badges s"
  by (simp_all add: save_profile_def keeps_challenges_def)

definition badges_ok :: "game \<Rightarrow> bool" where
  "badges_ok s \<longleftrightarrow> (\<forall>u. distinct (ga_badges s u))"

lemma award_badge_cases:
  obtains (old) "award_badge e s u b = (False, s)" "b \<in> set (ga_badges s u)"
  | (new) "award_badge e s u b = (True, publish (BadgeAwarded u b (badge_points b) (now e))
      (add_score e (s\<lparr>ga_badges := (ga_badges s)(u := ga_badges s u @ [b])\<rparr>) u (badge_points b)))" "b \<notin> set (ga_badges s u)"
  by (cases "b \<in> set (ga_badges s u)") (auto simp: award_badge_def get_user_badges_def Let_def)

lemma award_badge_keeps: "keeps_challenges s (snd (award_badge e s u b))"
proof (cases rule: award_badge_cases [of e s u b])
  case new
  have "keeps_challenges s (add_score e (s\<lparr>ga_badges := (ga_badges s)(u := ga_badges s u @ [b])\<rparr>) u (badge_points b))"
    by (rule keeps_challenges_trans [OF _ add_score_keeps(1)]) (simp add: keeps_challenges_def)
  with new show ?thesis by (simp add: publish_def keeps_challenges_def)
qed simp

lemma award_keeps_ok:
  assumes "scores_ok s" and "badges_ok s"
  shows "scores_ok (snd (award_badge e s u b)) \<and> badges_ok (snd (award_badge e s u b))"
proof (cases rule: award_badge_cases [of e s u b])
  case new
  let ?s1 = "s\<lparr>ga_badges := (ga_badges s)(u := ga_badges s u @ [b])\<rparr>"
  have "scores_ok ?s1" using assms(1) scores_ok_cong [of ?s1 s] by simp
  then have "scores_ok (add_score e ?s1 u (badge_points b))" by (rule scores_ok_add)
  then have "scores_ok (snd (award_badge e s u b))"
    using new(1) scores_ok_cong [of "publish ev t" t for ev t] by (simp add: publish_def)
  moreover have "ga_badges (snd (award_badge e s u b)) = (ga_badges s)(u := ga_badges s u @ [b])"
    using new(1) by (simp add: publish_def)
  ultimately show ?thesis using assms(2) new(2) by (simp add: badges_ok_def)
qed (use assms in simp)

lemma award_all_keeps: "keeps_challenges s (snd (award_all e u cs (n, s)))"
proof (induction cs arbitrary: n s)
  case (Cons c cs)
  obtain b cond where c: "c = (b, cond)" by (cases c)
  obtain fresh s1 where a: "award_badge e s u b = (fresh, s1)" by (cases "award_badge e s u b")
  have "keeps_challenges s s1" using award_badge_keeps [of s e u b] a by simp
  with Cons.IH c a show ?case by (auto intro: keeps_challenges_trans)
qed simp

lemma award_all_ok:
  assumes "scores_ok s" and "badges_ok s"
  shows "scores_ok (snd (award_all e u cs (n, s))) \<and> badges_ok (snd (award_all e u cs (n, s)))"
  using assms
proof (induction cs arbitrary: n s)
  case (Cons c cs)
  obtain b cond where c: "c = (b, cond)" by (cases c)
  obtain fresh s1 where a: "award_badge e s u b = (fresh, s1)" by (cases "award_badge e s u b")
  have "scores_ok s1 \<and> badges_ok s1" using award_keeps_ok [OF Cons.prems, of e u b] a by simp
  with Cons c a show ?case by auto
qed simp

lemma achievements_award_all:
  obtains cs cs' n s1 where "award_all e u cs ([], s) = (n, s1)"
    "check_and_award_achievements e s u a b c d f g h i j k = award_all e u cs' (n, s1)"
proof -
  obtain n s1 where 1: "award_all e u (badge_checks a b c d f g h i j k) ([], s) = (n, s1)"
    by (cases "award_all e u (badge_checks a b c d f g h i j k) ([], s)")
  then show thesis
    by (rule that [of _ n s1 "[(MasterTrader, all_trading_badges s1 u)]"]) (simp only: check_and_award_achievements_def 1 Let_def prod.case)
qed

lemma achievements_keeps: "keeps_challenges s (snd (check_and_award_achievements e s u a b c d f g h i j k))"
proof (rule achievements_award_all [of e u s a b c d f g h i j k])
  fix cs cs' n s1 assume 1: "award_all e u cs ([], s) = (n, s1)"
    "check_and_award_achievements e s u a b c d f g h i j k = award_all e u cs' (n, s1)"
  have "keeps_challenges s s1" using award_all_keeps [of s e u cs "[]"] by (simp only: 1 snd_conv)
  then show ?thesis unfolding 1(2) by (rule keeps_challenges_trans [OF _ award_all_keeps])
qed

lemma achievements_ok:
  assumes "scores_ok s" and "badges_ok s"
  shows "scores_ok (snd (check_and_award_achievements e s u a b c d f g h i j k))
     \<and> badges_ok (snd (check_and_award_achievements e s u a b c d f g h i j k))"
proof (rule achievements_award_all [of e u s a b c d f g h i j k])
  fix cs cs' n s1 assume 1: "award_all e u cs ([], s) = (n, s1)"
    "check_and_award_achievements e s u a b c d f g h i j k = award_all e u cs' (n, s1)"
  have "scores_ok s1 \<and> badges_ok s1" using award_all_ok [OF assms, of e u cs "[]"] by (simp only: 1 snd_conv)
  then show ?thesis unfolding 1(2) by (intro award_all_ok) simp_all
qed

section \<open>The effect of each call on the challenges\<close>

definition next_id :: "game \<Rightarrow> nat" where
  "next_id s = (case ga_next_id s of Some n \<Rightarrow> n | None \<Rightarrow> 1)"

lemma create_effect:
  assumes "create_challenge e s name desc obj d pool n t = Inr (k, s')"
  shows "k = next_id s" "ga_challenges s' = (ga_challenges s)(k \<mapsto> \<lparr>ch_challenge_id = k, ch_name = name, ch_description = desc,
           ch_objective = obj, ch_start_time = now e, ch_end_time = now e + d, ch_reward_pool = pool,
           ch_status = Active, ch_max_participants = n, ch_participant_count = 0, ch_min_tier = t\<rparr>)"
    "ga_progress s' = ga_progress s" "ga_history s' = ga_history s" "ga_next_id s' = Some (Suc k)"
    "ga_profiles s' = ga_profiles s" "ga_boards s' = ga_boards s" "ga_badges s' = ga_badges s"
  using assms by (auto simp: create_challenge_def Let_def bindR_eq_Inr ensure_eq_Inr u_add_eq_Inr publish_def next_id_def
      cong: if_cong option.case_cong)

lemma join_effect:
  assumes "join_challenge e s u k = Inr s'"
  obtains c where "ga_challenges s k = Some c" "ch_status c = Active" "ch_start_time c \<le> now e" "now e \<le> ch_end_time c"
    "ch_min_tier c \<le> get_user_tier s u" "ch_max_participants c = 0 \<or> ch_participant_count c < ch_max_participants c"
    "ga_progress s (k, u) = None"
    "ga_challenges s' = (ga_challenges s)(k \<mapsto> c\<lparr>ch_participant_count := u_sat_add 32 (ch_participant_count c) 1\<rparr>)"
    "ga_progress s' = (ga_progress s)((k, u) \<mapsto> \<lparr>cp_current_progress = 0, cp_objective_met = False,
       cp_reward_claimed = False, cp_completed_at = None\<rparr>)"
    "ga_history s' = ga_history s" "ga_next_id s' = ga_next_id s"
    "ga_profiles s' = (ga_profiles s)(u \<mapsto> (get_or_create_profile s u)
       \<lparr>gp_challenges_participated := u_sat_add 32 (gp_challenges_participated (get_or_create_profile s u)) 1\<rparr>)"
    "ga_boards s' = ga_boards s" "ga_badges s' = ga_badges s"
  using assms
  by (auto simp: join_challenge_def Let_def bindR_eq_Inr ensure_eq_Inr ok_or_eq_Inr publish_def save_profile_def
      get_or_create_profile_def not_less)

lemma progress_effect:
  assumes "update_challenge_progress e s u k x = Inr s'"
  obtains (already) p where "ga_progress s (k, u) = Some p" "cp_objective_met p" "s' = s"
  | (met) c p s1 where "ga_challenges s k = Some c" "ch_status c = Active" "now e \<le> ch_end_time c"
      "ga_progress s (k, u) = Some p" "\<not> cp_objective_met p"
      "challenge_target (ch_objective c) \<le> i_sat_add (cp_current_progress p) x"
      "s1 = publish (ChallengeCompleted u k (i_sat_add (cp_current_progress p) x) (now e))
         (add_score e s u (challenge_completion_score (ch_objective c)))"
      "s' = put_progress s1 k u (p\<lparr>cp_current_progress := i_sat_add (cp_current_progress p) x, cp_objective_met := True,
         cp_completed_at := Some (now e)\<rparr>)"
  | (going) c p where "ga_challenges s k = Some c" "ch_status c = Active" "now e \<le> ch_end_time c"
      "ga_progress s (k, u) = Some p" "\<not> cp_objective_met p"
      "i_sat_add (cp_current_progress p) x < challenge_target (ch_objective c)"
      "s' = put_progress s k u (p\<lparr>cp_current_progress := i_sat_add (cp_current_progress p) x\<rparr>)"
proof -
  from assms obtain c p where c: "ga_challenges s k = Some c" "ch_status c = Active" "now e \<le> ch_end_time c"
    "ga_progress s (k, u) = Some p"
    by (auto simp: update_challenge_progress_def bindR_eq_Inr ensure_eq_Inr ok_or_eq_Inr not_less)
  show thesis
  proof (cases "cp_objective_met p")
    case True
    with assms c show thesis by (intro already) (simp_all add: update_challenge_progress_def Let_def)
  next
    case open': False
    show thesis
    proof (cases "challenge_target (ch_objective c) \<le> i_sat_add (cp_current_progress p) x")
      case True
      with assms c open' show thesis by (intro met [OF _ _ _ _ _ _ refl]) (auto simp: update_challenge_progress_def Let_def)
    next
      case False
      with assms c open' show thesis by (intro going) (auto simp: update_challenge_progress_def Let_def)
    qed
  qed
qed

lemma claim_effect:
  assumes "claim_challenge_reward e s u k = Inr (r, s')"
  obtains c p s1 s2 where "ga_challenges s k = Some c" "ga_progress s (k, u) = Some p" "cp_objective_met p" "\<not> cp_reward_claimed p"
    "r = (ch_reward_pool c sdiv 10 * reward_multiplier_bps (get_user_tier s u) * streak_multiplier_bps s u) sdiv 100000000"
    "s1 = record_reward_distribution e (put_progress (save_profile s u
        ((get_or_create_profile s u)\<lparr>gp_pending_rewards := i_sat_add (get_pending_rewards s u) r\<rparr>)) k u (p\<lparr>cp_reward_claimed := True\<rparr>))
        u r ''chlg_rwd'' (Some k)"
    "s2 = save_profile s1 u ((get_or_create_profile s1 u)\<lparr>gp_challenges_won := u_sat_add 32 (gp_challenges_won (get_or_create_profile s1 u)) 1\<rparr>)"
    "s' = publish (RewardClaimed u k r (now e)) (if gp_challenges_won (get_or_create_profile s2 u) \<ge> 3
       then snd (award_badge e s2 u ChallengeChampion) else s2)"
proof -
  from assms obtain c p where c: "ga_challenges s k = Some c" "ga_progress s (k, u) = Some p" "cp_objective_met p" "\<not> cp_reward_claimed p"
    by (auto simp: claim_challenge_reward_def bindR_eq_Inr ensure_eq_Inr ok_or_eq_Inr)
  from assms c have r: "r = (ch_reward_pool c sdiv 10 * reward_multiplier_bps (get_user_tier s u) * streak_multiplier_bps s u) sdiv 100000000"
    by (auto simp: claim_challenge_reward_def bindR_eq_Inr i_mul_eq_Inr Let_def get_user_tier_def)
  show thesis
    by (rule that [OF c r refl refl])
      (use assms c r in \<open>auto simp: claim_challenge_reward_def bindR_eq_Inr i_mul_eq_Inr Let_def get_user_tier_def get_pending_rewards_def\<close>)
qed

lemma finalize_one_effect:
  "ga_progress (finalize_one e k s) = ga_progress s \<and> ga_history (finalize_one e k s) = ga_history s
   \<and> ga_next_id (finalize_one e k s) = ga_next_id s \<and> ga_profiles (finalize_one e k s) = ga_profiles s
   \<and> ga_boards (finalize_one e k s) = ga_boards s \<and> ga_badges (finalize_one e k s) = ga_badges s
   \<and> (ga_challenges (finalize_one e k s) = ga_challenges s
      \<or> (\<exists>c. ga_challenges s k = Some c \<and> ch_status c = Active \<and> ch_end_time c < now e
          \<and> ga_challenges (finalize_one e k s) = (ga_challenges s)(k \<mapsto> c\<lparr>ch_status := Completed\<rparr>)))"
  by (auto simp: finalize_one_def get_challenge_def publish_def split: option.splits)

section \<open>Preservation\<close>

lemma scores_exec:
  assumes ok: "scores_ok s" "badges_ok s" and ex: "game_exec e adm s c = Inr s'"
  shows "scores_ok s' \<and> badges_ok s'"
proof -
  have same: ?thesis if "ga_profiles s' = ga_profiles s" "ga_boards s' ByScore = ga_boards s ByScore" "ga_badges s' = ga_badges s"
    using ok that scores_ok_cong [of s' s] by (simp add: badges_ok_def)
  have saved: ?thesis if "ga_profiles s' = (ga_profiles s)(u \<mapsto> p)" "ga_boards s' = ga_boards s" "ga_badges s' = ga_badges s"
      "gp_score p = gp_score (get_or_create_profile s u)" "gp_lifetime_score p = gp_lifetime_score (get_or_create_profile s u)"
      "gp_tier p = gp_tier (get_or_create_profile s u)" for u p
    using ok that scores_ok_save [OF ok(1) that(4-6)] scores_ok_cong [of s' "save_profile s u p"]
    by (simp add: badges_ok_def save_profile_def)
  show ?thesis
  proof (cases c)
    case (Create caller name desc obj d pool n t)
    with ex obtain k where "create_challenge e s name desc obj d pool n t = Inr (k, s')"
      by (auto simp: create_challenge_campaign_def bindR_eq_Inr split: sum.splits)
    from create_effect(6-8) [OF this] show ?thesis by (intro same) simp_all
  next
    case (Join u k)
    with ex have "join_challenge e s u k = Inr s'" by (simp add: cc_join_challenge_def bindR_eq_Inr)
    then show ?thesis by (rule join_effect, intro saved) (assumption | simp)+
  next
    case (Progress u k x)
    with ex have "update_challenge_progress e s u k x = Inr s'" by simp
    then show ?thesis
    proof (cases rule: progress_effect)
      case (met c p s1)
      have "scores_ok (add_score e s u (challenge_completion_score (ch_objective c)))" by (rule scores_ok_add [OF ok(1)])
      then have "scores_ok s'" using met(7,8) scores_ok_cong [of s'] by (simp add: put_progress_def publish_def)
      moreover have "badges_ok s'" using ok(2) met(7,8) by (simp add: put_progress_def publish_def badges_ok_def)
      ultimately show ?thesis by simp
    qed (rule same; simp add: put_progress_def)+
  next
    case (Claim u k)
    with ex obtain r where "claim_challenge_reward e s u k = Inr (r, s')" by (auto simp: cc_claim_challenge_reward_def bindR_eq_Inr)
    then show ?thesis
    proof (rule claim_effect)
      fix c p s1 s2 assume s1: "s1 = record_reward_distribution e (put_progress (save_profile s u
          ((get_or_create_profile s u)\<lparr>gp_pending_rewards := i_sat_add (get_pending_rewards s u) r\<rparr>)) k u (p\<lparr>cp_reward_claimed := True\<rparr>))
          u r ''chlg_rwd'' (Some k)"
        and s2: "s2 = save_profile s1 u ((get_or_create_profile s1 u)\<lparr>gp_challenges_won := u_sat_add 32 (gp_challenges_won (get_or_create_profile s1 u)) 1\<rparr>)"
        and s': "s' = publish (RewardClaimed u k r (now e)) (if gp_challenges_won (get_or_create_profile s2 u) \<ge> 3
          then snd (award_badge e s2 u ChallengeChampion) else s2)"
      have "scores_ok (save_profile s u ((get_or_create_profile s u)\<lparr>gp_pending_rewards := i_sat_add (get_pending_rewards s u) r\<rparr>))"
        by (rule scores_ok_save [OF ok(1)]) simp_all
      then have "scores_ok s1" using scores_ok_cong [of s1] by (simp add: s1 record_reward_distribution_def put_progress_def)
      then have 2: "scores_ok s2" unfolding s2 by (rule scores_ok_save) simp_all
      have b: "badges_ok s2" using ok(2) by (simp add: s2 s1 badges_ok_def record_reward_distribution_def put_progress_def)
      from award_keeps_ok [OF 2 b] 2 b show ?thesis
        using scores_ok_cong [of "publish ev t" t for ev t] by (simp add: s' publish_def badges_ok_def)
    qed
  next
    case (Claim_Rewards u)
    with ex show ?thesis
      by (intro saved [of u "(get_or_create_profile s u)\<lparr>gp_pending_rewards := 0, gp_total_rewards_earned :=
            i_sat_add (gp_total_rewards_earned (get_or_create_profile s u)) (gp_pending_rewards (get_or_create_profile s u))\<rparr>"])
        (auto simp: claim_gamification_rewards_def claim_rewards_def bindR_eq_Inr ensure_eq_Inr Let_def
          publish_def record_reward_distribution_def save_profile_def)
  next
    case Finalize
    have "ga_profiles (fold (finalize_one e) ks s) = ga_profiles s \<and> ga_boards (fold (finalize_one e) ks s) = ga_boards s
        \<and> ga_badges (fold (finalize_one e) ks s) = ga_badges s" for ks
      by (induction ks arbitrary: s) (simp_all add: finalize_one_effect)
    with ex Finalize show ?thesis by (intro same) (auto simp: finalize_expired_challenges_def)
  next
    case (Activity u)
    define p where "p = get_or_create_profile s u"
    have "s' = record_activity e s u" using ex Activity by simp
    then have "\<exists>a b. s' = save_profile s u (p\<lparr>gp_current_daily_streak := a, gp_best_daily_streak := b,
        gp_last_activity_timestamp := now e\<rparr>)"
      unfolding record_activity_def Let_def p_def [symmetric] by blast
    then obtain a b where s': "s' = save_profile s u (p\<lparr>gp_current_daily_streak := a, gp_best_daily_streak := b,
        gp_last_activity_timestamp := now e\<rparr>)" by blast
    show ?thesis
      by (rule saved [of u "p\<lparr>gp_current_daily_streak := a, gp_best_daily_streak := b, gp_last_activity_timestamp := now e\<rparr>"])
        (simp_all add: s' save_profile_def, simp_all add: p_def)
  next
    case (Loss u)
    with ex show ?thesis
      by (intro saved [of u "(get_or_create_profile s u)\<lparr>gp_current_trade_streak := 0\<rparr>"]) (auto simp: record_losing_trade_def save_profile_def)
  next
    case (Profit u)
    define p where "p = get_or_create_profile s u"
    define q where "q = p\<lparr>gp_current_trade_streak := u_sat_add 32 (gp_current_trade_streak p) 1,
      gp_best_trade_streak := max (u_sat_add 32 (gp_current_trade_streak p) 1) (gp_best_trade_streak p)\<rparr>"
    have sq: "scores_ok (save_profile s u q)" by (rule scores_ok_save [OF ok(1)]) (simp_all add: q_def p_def)
    have bq: "badges_ok (save_profile s u q)" using ok(2) by (simp add: badges_ok_def)
    have a: "scores_ok (add_score e t u y)" "ga_badges (add_score e t u y) = ga_badges t" if "scores_ok t" for t y
      using scores_ok_add [OF that] by simp_all
    have "s' = record_profitable_trade e s u" using ex Profit by simp
    moreover have "record_profitable_trade e s u =
        (let streak = u_sat_add 32 (gp_current_trade_streak p) 1; s1 = save_profile s u q;
             s2 = (if streak \<ge> 5 then add_score e s1 u 25 else s1); s3 = (if streak \<ge> 10 then add_score e s2 u 50 else s2)
         in if streak \<ge> 25 then add_score e s3 u 150 else s3)"
      by (simp add: record_profitable_trade_def Let_def p_def q_def max_def not_less le_antisym) 
    ultimately show ?thesis using sq bq by (auto simp: Let_def a scores_ok_add badges_ok_def)
  next
    case (Points u x)
    with ex ok show ?thesis by (auto simp: scores_ok_add badges_ok_def)
  next
    case (Award u b)
    with ex award_keeps_ok [OF ok] show ?thesis by auto
  next
    case (Achievements u a1 b1 c1 d1 e1 f1 g1 h1 i1 j1)
    with ex achievements_ok [OF ok] show ?thesis by auto
  next
    case (Board u m x)
    with ex show ?thesis by (intro same) (auto simp: update_leaderboard_entry_def split: if_splits)
  next
    case (Breakdown u b)
    with ex show ?thesis by (intro same) (auto simp: save_score_breakdown_def)
  qed
qed

end
