(* ===== verification/Gamification_Props.thy ===== *)
theory Gamification_Props
  imports Gamification_Inv
begin

text \<open>
  The properties of the gamification engine over any run: the leaderboard ranks the scores exactly,
  the tier is the one the score has reached, a challenge never has more participants than places and
  pays each of them once, what a claim pays regardless of the pool, and that strangers complete
  challenges for others.
\<close>

section \<open>Challenges\<close>

definition participants :: "game \<Rightarrow> nat \<Rightarrow> address set" where
  "participants s k = {u. ga_progress s (k, u) \<noteq> None}"

definition paid_count :: "game \<Rightarrow> address \<Rightarrow> nat \<Rightarrow> nat" where
  "paid_count s u k = length (filter (\<lambda>d. rd_user d = u \<and> rd_challenge_id d = Some k) (ga_history s))"

definition claimed_count :: "challenge_progress option \<Rightarrow> nat" where
  "claimed_count p = (case p of Some q \<Rightarrow> if cp_reward_claimed q then 1 else 0 | None \<Rightarrow> 0)"

definition campaign_ok :: "nat \<Rightarrow> nat \<Rightarrow> address set \<Rightarrow> challenge_campaign \<Rightarrow> bool" where
  "campaign_ok n k us c \<longleftrightarrow> k < n \<and> finite us \<and> ch_participant_count c = min (card us) (2 ^ 32 - 1)
     \<and> (0 < ch_max_participants c \<longrightarrow> card us \<le> ch_max_participants c) \<and> ch_max_participants c < 2 ^ 32"

definition progress_ok :: "challenge_campaign option \<Rightarrow> challenge_progress \<Rightarrow> bool" where
  "progress_ok co p \<longleftrightarrow> (\<exists>c. co = Some c \<and> (cp_objective_met p \<longrightarrow> challenge_target (ch_objective c) \<le> cp_current_progress p))
     \<and> (cp_reward_claimed p \<longrightarrow> cp_objective_met p)"

definition challenges_ok :: "game \<Rightarrow> bool" where
  "challenges_ok s \<longleftrightarrow>
     (\<forall>k c. ga_challenges s k = Some c \<longrightarrow> campaign_ok (next_id s) k (participants s k) c)
     \<and> (\<forall>k u p. ga_progress s (k, u) = Some p \<longrightarrow> progress_ok (ga_challenges s k) p)
     \<and> (\<forall>k u. paid_count s u k = claimed_count (ga_progress s (k, u)))"

lemma challenges_ok_cong: "keeps_challenges s s' \<Longrightarrow> challenges_ok s' = challenges_ok s"
  by (simp add: challenges_ok_def keeps_challenges_def participants_def paid_count_def next_id_def)

lemma challenges_ok_campaign: "challenges_ok s \<Longrightarrow> ga_challenges s k = Some c \<Longrightarrow> campaign_ok (next_id s) k (participants s k) c"
  by (simp add: challenges_ok_def)

lemma challenges_ok_progress: "challenges_ok s \<Longrightarrow> ga_progress s (k, u) = Some p \<Longrightarrow> progress_ok (ga_challenges s k) p"
  by (simp add: challenges_ok_def)

lemma challenges_ok_fresh: "challenges_ok s \<Longrightarrow> ga_progress s (next_id s, u) = None"
  using challenges_ok_progress [of s "next_id s" u] challenges_ok_campaign [of s "next_id s"]
  by (cases "ga_progress s (next_id s, u)") (auto simp: progress_ok_def campaign_ok_def)

lemma challenges_ok_create:
  assumes ok: "challenges_ok s" and cr: "create_challenge e s name desc obj d pool n t = Inr (k, s')" and n: "n < 2 ^ 32"
  shows "challenges_ok s'"
proof -
  note eff = create_effect [OF cr]
  have none: "participants s k = {}" using challenges_ok_fresh [OF ok] eff(1) by (simp add: participants_def)
  have parts: "participants s' = participants s" by (rule ext) (simp add: participants_def eff(3))
  have nid: "next_id s' = Suc (next_id s)" by (simp add: next_id_def [of s'] eff(5) eff(1))
  show ?thesis unfolding challenges_ok_def
  proof (intro conjI allI impI)
    show "campaign_ok (next_id s') k' (participants s' k') c" if "ga_challenges s' k' = Some c" for k' c
      using that challenges_ok_campaign [OF ok, of k' c] none n
      by (auto simp: eff(2) parts nid eff(1) campaign_ok_def split: if_splits)
    show "progress_ok (ga_challenges s' k') p" if "ga_progress s' (k', u) = Some p" for k' u p
      using that challenges_ok_progress [OF ok, of k' u p] challenges_ok_fresh [OF ok, of u] by (auto simp: eff(2,3) eff(1))
    show "paid_count s' u k' = claimed_count (ga_progress s' (k', u))" for k' u
      using ok by (simp add: challenges_ok_def paid_count_def eff(3,4))
  qed
qed

lemma challenges_ok_join:
  assumes ok: "challenges_ok s" and j: "join_challenge e s u k = Inr s'"
  shows "challenges_ok s'"
  using j
proof (rule join_effect)
  fix c assume c: "ga_challenges s k = Some c" "ch_max_participants c = 0 \<or> ch_participant_count c < ch_max_participants c"
    and new: "ga_progress s (k, u) = None"
    and ch: "ga_challenges s' = (ga_challenges s)(k \<mapsto> c\<lparr>ch_participant_count := u_sat_add 32 (ch_participant_count c) 1\<rparr>)"
    and pr: "ga_progress s' = (ga_progress s)((k, u) \<mapsto> \<lparr>cp_current_progress = 0, cp_objective_met = False,
       cp_reward_claimed = False, cp_completed_at = None\<rparr>)"
    and rest: "ga_history s' = ga_history s" "ga_next_id s' = ga_next_id s"
  have nid: "next_id s' = next_id s" by (simp add: next_id_def rest)
  have parts: "participants s' j = (if j = k then insert u (participants s k) else participants s j)" for j
    by (auto simp: participants_def pr)
  have fresh: "u \<notin> participants s k" using new by (simp add: participants_def)
  have old: "campaign_ok (next_id s) k (participants s k) c" by (rule challenges_ok_campaign [OF ok c(1)])
  have cnt: "ch_participant_count c = card (participants s k)" "card (participants s k) < ch_max_participants c"
    if "0 < ch_max_participants c"
    using old c(2) that by (auto simp: campaign_ok_def min_def split: if_splits)
  have "campaign_ok (next_id s) k (insert u (participants s k))
      (c\<lparr>ch_participant_count := u_sat_add 32 (ch_participant_count c) 1\<rparr>)"
    using old fresh cnt by (auto simp: campaign_ok_def u_sat_add_def min_def)
  note camp = this
  show ?thesis unfolding challenges_ok_def nid
  proof (intro conjI allI impI)
    show "campaign_ok (next_id s) j (participants s' j) c'" if "ga_challenges s' j = Some c'" for j c'
      using that camp challenges_ok_campaign [OF ok, of j c'] by (auto simp: ch parts split: if_splits)
    show "progress_ok (ga_challenges s' j) p" if "ga_progress s' (j, v) = Some p" for j v p
      using that challenges_ok_progress [OF ok, of j v p] c(1) by (auto simp: ch pr progress_ok_def split: if_splits)
    show "paid_count s' v j = claimed_count (ga_progress s' (j, v))" for j v
      using ok new by (auto simp: challenges_ok_def pr paid_count_def rest claimed_count_def)
  qed
qed

lemma challenges_ok_put:
  assumes ok: "challenges_ok s" and old: "ga_progress s (k, u) = Some p" and c: "ga_challenges s k = Some c"
    and new: "progress_ok (Some c) q" and same: "cp_reward_claimed q = cp_reward_claimed p"
    and put: "keeps_challenges (put_progress s k u q) s'"
  shows "challenges_ok s'"
proof -
  have parts: "participants (put_progress s k u q) = participants s"
    using old by (auto simp: participants_def put_progress_def intro!: ext split: if_splits)
  have "challenges_ok (put_progress s k u q)"
    unfolding challenges_ok_def parts
  proof (intro conjI allI impI)
    show "campaign_ok (next_id (put_progress s k u q)) j (participants s j) c'"
      if "ga_challenges (put_progress s k u q) j = Some c'" for j c'
      using that challenges_ok_campaign [OF ok, of j c'] by (simp add: put_progress_def next_id_def)
    show "progress_ok (ga_challenges (put_progress s k u q) j) p'"
      if "ga_progress (put_progress s k u q) (j, v) = Some p'" for j v p'
      using that new c challenges_ok_progress [OF ok, of j v p'] by (auto simp: put_progress_def split: if_splits)
    show "paid_count (put_progress s k u q) v j = claimed_count (ga_progress (put_progress s k u q) (j, v))" for j v
      using ok old same by (auto simp: challenges_ok_def put_progress_def paid_count_def claimed_count_def)
  qed
  with challenges_ok_cong [OF put] show ?thesis by simp
qed

lemma challenges_ok_claim:
  assumes ok: "challenges_ok s" and cl: "claim_challenge_reward e s u k = Inr (r, s')"
  shows "challenges_ok s'"
  using cl
proof (rule claim_effect)
  fix c p s1 s2 assume c: "ga_challenges s k = Some c" "ga_progress s (k, u) = Some p" "cp_objective_met p" "\<not> cp_reward_claimed p"
    and s1: "s1 = record_reward_distribution e (put_progress (save_profile s u
        ((get_or_create_profile s u)\<lparr>gp_pending_rewards := i_sat_add (get_pending_rewards s u) r\<rparr>)) k u (p\<lparr>cp_reward_claimed := True\<rparr>))
        u r ''chlg_rwd'' (Some k)"
    and s2: "s2 = save_profile s1 u ((get_or_create_profile s1 u)\<lparr>gp_challenges_won := u_sat_add 32 (gp_challenges_won (get_or_create_profile s1 u)) 1\<rparr>)"
    and s': "s' = publish (RewardClaimed u k r (now e)) (if gp_challenges_won (get_or_create_profile s2 u) \<ge> 3
       then snd (award_badge e s2 u ChallengeChampion) else s2)"
  have f: "ga_challenges s1 = ga_challenges s" "ga_next_id s1 = ga_next_id s"
    "ga_progress s1 = (ga_progress s)((k, u) \<mapsto> p\<lparr>cp_reward_claimed := True\<rparr>)"
    "ga_history s1 = ga_history s @ [\<lparr>rd_user = u, rd_amount = r, rd_reason = ''chlg_rwd'', rd_timestamp = now e, rd_challenge_id = Some k\<rparr>]"
    by (simp_all add: s1 record_reward_distribution_def put_progress_def save_profile_def)
  have parts: "participants s1 = participants s"
    using c(2) by (auto simp: participants_def f(3) intro!: ext split: if_splits)
  have "challenges_ok s1" unfolding challenges_ok_def parts
  proof (intro conjI allI impI)
    show "campaign_ok (next_id s1) j (participants s j) c'" if "ga_challenges s1 j = Some c'" for j c'
      using that challenges_ok_campaign [OF ok, of j c'] by (simp add: f next_id_def)
    show "progress_ok (ga_challenges s1 j) p'" if "ga_progress s1 (j, v) = Some p'" for j v p'
      using that challenges_ok_progress [OF ok, of j v p'] challenges_ok_progress [OF ok c(2)] c(3)
      by (auto simp: f progress_ok_def split: if_splits)
    show "paid_count s1 v j = claimed_count (ga_progress s1 (j, v))" for j v
      using ok c(2,4) by (auto simp: challenges_ok_def f paid_count_def claimed_count_def)
  qed
  moreover have "keeps_challenges s1 s2" by (simp add: s2)
  then have "keeps_challenges s1 s'"
    using keeps_challenges_trans [OF _ award_badge_keeps] by (auto simp: s' publish_def keeps_challenges_def)
  ultimately show ?thesis by (simp add: challenges_ok_cong)
qed

lemma challenges_ok_finalize:
  assumes "challenges_ok s"
  shows "challenges_ok (fold (finalize_one e) ks s)"
  using assms
proof (induction ks arbitrary: s)
  case (Cons k ks)
  let ?t = "finalize_one e k s"
  note eff = finalize_one_effect [of e k s]
  have t: "participants ?t = participants s" "next_id ?t = next_id s"
    using eff by (auto simp: participants_def next_id_def intro!: ext)
  have "challenges_ok ?t" unfolding challenges_ok_def t
  proof (intro conjI allI impI)
    show "campaign_ok (next_id s) j (participants s j) c" if "ga_challenges ?t j = Some c" for j c
      using that eff challenges_ok_campaign [OF Cons.prems, of j] by (auto simp: campaign_ok_def split: if_splits)
    show "progress_ok (ga_challenges ?t j) p" if "ga_progress ?t (j, v) = Some p" for j v p
      using that eff challenges_ok_progress [OF Cons.prems, of j v p] by (auto simp: progress_ok_def)
    show "paid_count ?t v j = claimed_count (ga_progress ?t (j, v))" for j v
      using eff Cons.prems by (simp add: challenges_ok_def paid_count_def)
  qed
  from Cons.IH [OF this] show ?case by simp
qed simp

lemma challenges_exec:
  assumes ok: "challenges_ok s" and ex: "game_exec e adm s c = Inr s'" and "fits c"
  shows "challenges_ok s'"
proof (cases c)
  case (Create caller name desc obj d pool n t)
  with ex obtain k where "create_challenge e s name desc obj d pool n t = Inr (k, s')"
    by (auto simp: create_challenge_campaign_def bindR_eq_Inr split: sum.splits)
  with ok Create \<open>fits c\<close> show ?thesis by (auto intro: challenges_ok_create)
next
  case (Join u k)
  with ex ok show ?thesis by (auto simp: cc_join_challenge_def bindR_eq_Inr intro: challenges_ok_join)
next
  case (Progress u k x)
  with ex have "update_challenge_progress e s u k x = Inr s'" by simp
  then show ?thesis
  proof (cases rule: progress_effect)
    case (met c p s1)
    have "keeps_challenges s s1"
      using met(7) add_score_keeps(1) by (simp add: publish_def keeps_challenges_def)
    then have "keeps_challenges (put_progress s k u q) (put_progress s1 k u q)" for q
      by (simp add: put_progress_def keeps_challenges_def)
    with met show ?thesis
      using challenges_ok_progress [OF ok met(4)]
      by (intro challenges_ok_put [OF ok met(4,1), of "p\<lparr>cp_current_progress := i_sat_add (cp_current_progress p) x,
          cp_objective_met := True, cp_completed_at := Some (now e)\<rparr>"]) (auto simp: progress_ok_def)
  next
    case (going c p)
    then show ?thesis
      using challenges_ok_progress [OF ok going(4)]
      by (intro challenges_ok_put [OF ok going(4,1), of "p\<lparr>cp_current_progress := i_sat_add (cp_current_progress p) x\<rparr>"])
        (auto simp: progress_ok_def)
  qed (use ok in simp)
next
  case (Claim u k)
  with ex ok show ?thesis by (auto simp: cc_claim_challenge_reward_def bindR_eq_Inr intro: challenges_ok_claim)
next
  case (Claim_Rewards u)
  with ex have "ga_challenges s' = ga_challenges s" "ga_progress s' = ga_progress s" "ga_next_id s' = ga_next_id s"
    "paid_count s' = paid_count s"
    by (auto simp: claim_gamification_rewards_def claim_rewards_def bindR_eq_Inr Let_def publish_def
        record_reward_distribution_def save_profile_def paid_count_def fun_eq_iff)
  with ok show ?thesis by (simp add: challenges_ok_def participants_def next_id_def)
next
  case Finalize
  with ex ok show ?thesis by (auto simp: finalize_expired_challenges_def challenges_ok_finalize)
next
  case (Activity u)
  have "challenges_ok (record_activity e s u)"
    unfolding record_activity_def Let_def by (rule iffD2 [OF challenges_ok_cong [OF save_profile_keeps(1)] ok])
  with Activity ex show ?thesis by simp
next
  case (Profit u)
  have add: "challenges_ok t \<Longrightarrow> challenges_ok (add_score e t u y)" for t y
    by (simp add: challenges_ok_cong [OF add_score_keeps(1)])
  have save: "challenges_ok (save_profile s u p)" for p using ok by (simp add: challenges_ok_cong [OF save_profile_keeps(1)])
  have "challenges_ok (record_profitable_trade e s u)"
    unfolding record_profitable_trade_def Let_def by (simp only: add save split: if_split) simp
  with Profit ex show ?thesis by simp
next
  case (Loss u)
  with ex ok show ?thesis by (auto simp: record_losing_trade_def challenges_ok_cong [OF save_profile_keeps(1)])
next
  case (Points u x)
  with ex ok show ?thesis by (auto simp: challenges_ok_cong [OF add_score_keeps(1)])
next
  case (Award u b)
  with ex ok show ?thesis by (auto simp: challenges_ok_cong [OF award_badge_keeps])
next
  case (Achievements u a1 b1 c1 d1 e1 f1 g1 h1 i1 j1)
  with ex ok show ?thesis by (auto simp: challenges_ok_cong [OF achievements_keeps])
next
  case (Board u m x)
  with ex ok show ?thesis
    using challenges_ok_cong [of s s'] by (auto simp: update_leaderboard_entry_def keeps_challenges_def split: if_splits)
next
  case (Breakdown u b)
  with ex have "keeps_challenges s s'" by (auto simp: save_score_breakdown_def keeps_challenges_def)
  with ok show ?thesis by (simp add: challenges_ok_cong)
qed

interpretation game_machine: machine_invariant "\<lambda>s. s = game0" game_step
  "\<lambda>s. scores_ok s \<and> badges_ok s \<and> challenges_ok s"
proof
  fix s assume "s = game0"
  moreover have "scores_ok game0"
    by (auto simp: scores_ok_def game0_def get_or_create_profile_def profile_new_def profile_ok_def I128_MAX_def
        calculate_tier_def get_gamification_score_def intro!: board_ok_empty)
  moreover have "badges_ok game0" "challenges_ok game0"
    by (simp_all add: badges_ok_def challenges_ok_def game0_def paid_count_def claimed_count_def)
  ultimately show "scores_ok s \<and> badges_ok s \<and> challenges_ok s" by simp
next
  fix s t assume "scores_ok s \<and> badges_ok s \<and> challenges_ok s" and "game_step s t"
  then show "scores_ok t \<and> badges_ok t \<and> challenges_ok t"
    by (auto elim!: game_stepE dest: scores_exec challenges_exec)
qed

section \<open>Properties\<close>

text \<open>
  C28: the leaderboard of scores is exact, up to ties. A user on it has at most as many strictly better
  users as places before, all places before are taken by users at least as good, and a user with
  points who is not on it has a hundred users ahead that are at least as good.
\<close>

theorem leaderboard_exact:
  assumes "game_reachable s" and "0 < get_gamification_score s u"
  shows "case get_user_rank s u ByScore of
      Some k \<Rightarrow> k \<le> MAX_LEADERBOARD_SIZE
        \<and> card {w. get_gamification_score s u < get_gamification_score s w} < k
        \<and> (\<exists>A. finite A \<and> card A = k - 1 \<and> (\<forall>w\<in>A. w \<noteq> u \<and> get_gamification_score s u \<le> get_gamification_score s w))
    | None \<Rightarrow> \<exists>A. finite A \<and> card A = MAX_LEADERBOARD_SIZE
        \<and> (\<forall>w\<in>A. w \<noteq> u \<and> get_gamification_score s u \<le> get_gamification_score s w)"
proof -
  have "board_ok (get_gamification_score s) (ga_boards s ByScore)"
    using game_machine.inv_reachable [OF assms(1)] by (simp add: scores_ok_def)
  note ok = this
  show ?thesis
  proof (cases "get_user_rank s u ByScore")
    case None
    then have "find (\<lambda>x. le_user x = u) (ga_boards s ByScore) = None" by (simp add: get_user_rank_def)
    from board_ok_unranked [OF ok this assms(2)] show ?thesis unfolding None by simp
  next
    case (Some k)
    from board_ok_rank [OF ok Some [unfolded get_user_rank_def]] show ?thesis unfolding Some option.case by blast
  qed
qed

text \<open>
  The tier of a user is always the highest one whose threshold the score has reached, and the score
  never differs from the lifetime score.
\<close>

theorem tier_follows_score:
  assumes "game_reachable s"
  shows "get_gamification_score s u = get_lifetime_score s u
    \<and> (\<forall>t. t \<le> get_user_tier s u \<longleftrightarrow> score_threshold t \<le> get_gamification_score s u)"
proof -
  have "profile_ok (get_or_create_profile s u)" using game_machine.inv_reachable [OF assms] by (simp add: scores_ok_def)
  moreover have "t \<le> calculate_tier x \<longleftrightarrow> score_threshold t \<le> x" if "0 \<le> x" for t x
    using that by (cases t) (simp_all add: calculate_tier_def less_eq_progression_tier_def)
  ultimately show ?thesis
    by (simp add: profile_ok_def get_gamification_score_def get_lifetime_score_def get_user_tier_def)
qed

text \<open>
  A challenge pays each user at most once, and only a participant who reached the objective.
\<close>

theorem reward_paid_once:
  assumes "game_reachable s"
  shows "paid_count s u k \<le> 1
    \<and> (paid_count s u k = 1 \<longleftrightarrow> (\<exists>p. get_challenge_progress s u k = Some p \<and> cp_reward_claimed p))
    \<and> (paid_count s u k = 1 \<longrightarrow> (\<exists>c p. get_challenge s k = Some c \<and> get_challenge_progress s u k = Some p
         \<and> challenge_target (ch_objective c) \<le> cp_current_progress p))"
proof -
  have ok: "challenges_ok s" using game_machine.inv_reachable [OF assms] by simp
  then have "paid_count s u k = claimed_count (ga_progress s (k, u))" by (simp add: challenges_ok_def)
  with challenges_ok_progress [OF ok, of k u] show ?thesis
    by (cases "ga_progress s (k, u)")
      (auto simp: claimed_count_def progress_ok_def get_challenge_def get_challenge_progress_def)
qed

text \<open>
  A challenge has as many participants as it counts, as far as the counter goes, and never more than
  its places.
\<close>

theorem challenge_places:
  assumes "game_reachable s" and "get_challenge s k = Some c"
  shows "finite (participants s k) \<and> ch_participant_count c = min (card (participants s k)) (2 ^ 32 - 1)
    \<and> (0 < ch_max_participants c \<longrightarrow> card (participants s k) \<le> ch_max_participants c)"
proof -
  have "challenges_ok s" using game_machine.inv_reachable [OF assms(1)] by simp
  then have "campaign_ok (next_id s) k (participants s k) c"
    by (rule challenges_ok_campaign) (use assms(2) in \<open>simp add: get_challenge_def\<close>)
  then show ?thesis unfolding campaign_ok_def by blast
qed

text \<open>
  Every claim pays at least a tenth of the pool of the challenge, whatever was paid before, and the
  pool stays what it was: from the eleventh participant on the challenge pays more than its pool.
\<close>

theorem claims_outgrow_pool:
  assumes "game_reachable s" and "get_challenge s k = Some c" and "0 \<le> ch_reward_pool c"
    and "cc_claim_challenge_reward e s u k = Inr (r, s')"
  shows "ch_reward_pool c div 10 \<le> r \<and> r \<le> 6 * (ch_reward_pool c div 10)
    \<and> get_challenge s' k = Some c \<and> paid_count s' u k = Suc (paid_count s u k)"
proof -
  have "claim_challenge_reward e s u k = Inr (r, s')" using assms(4) by (simp add: cc_claim_challenge_reward_def bindR_eq_Inr)
  then show ?thesis
  proof (rule claim_effect)
    fix c' p s1 s2 assume c': "ga_challenges s k = Some c'"
      and r: "r = (ch_reward_pool c' sdiv 10 * reward_multiplier_bps (get_user_tier s u) * streak_multiplier_bps s u) sdiv 100000000"
      and s1: "s1 = record_reward_distribution e (put_progress (save_profile s u
          ((get_or_create_profile s u)\<lparr>gp_pending_rewards := i_sat_add (get_pending_rewards s u) r\<rparr>)) k u (p\<lparr>cp_reward_claimed := True\<rparr>))
          u r ''chlg_rwd'' (Some k)"
      and s2: "s2 = save_profile s1 u ((get_or_create_profile s1 u)\<lparr>gp_challenges_won := u_sat_add 32 (gp_challenges_won (get_or_create_profile s1 u)) 1\<rparr>)"
      and s': "s' = publish (RewardClaimed u k r (now e)) (if gp_challenges_won (get_or_create_profile s2 u) \<ge> 3
         then snd (award_badge e s2 u ChallengeChampion) else s2)"
    define b m n where "b = ch_reward_pool c div 10" and "m = reward_multiplier_bps (get_user_tier s u)" and "n = streak_multiplier_bps s u"
    have b: "0 \<le> b" "ch_reward_pool c sdiv 10 = b" using assms(3) by (simp_all add: b_def signed_divide_int_def sgn_if)
    have m: "10000 \<le> m" "m \<le> 30000" unfolding m_def by (cases "get_user_tier s u"; simp)+
    have n: "10000 \<le> n" "n \<le> 20000" unfolding n_def streak_multiplier_bps_def by (simp_all add: signed_divide_int_def sgn_if)
    have lo: "10000 * 10000 \<le> m * n" and hi: "m * n \<le> 30000 * 20000" using m n by (intro mult_mono; simp)+
    have x: "b * 100000000 \<le> b * (m * n)" "b * (m * n) \<le> b * 600000000" using b lo hi by (intro mult_left_mono; simp)+
    have "r = b * (m * n) div 100000000"
      using c' assms(2) b x(1) by (simp add: r get_challenge_def m_def [symmetric] n_def [symmetric] signed_divide_int_def sgn_if mult.assoc)
    moreover have "b * 100000000 div 100000000 \<le> b * (m * n) div 100000000" by (rule zdiv_mono1 [OF x(1)]) simp
    moreover have "b * (m * n) div 100000000 \<le> b * 600000000 div 100000000" by (rule zdiv_mono1 [OF x(2)]) simp
    ultimately have "b \<le> r" "r \<le> 6 * b" by simp_all
    moreover have "keeps_challenges s1 s'"
      using keeps_challenges_trans [OF save_profile_keeps(1) award_badge_keeps] save_profile_keeps(1)
      by (auto simp: s' s2 publish_def keeps_challenges_def)
    moreover have "ga_challenges s1 = ga_challenges s" "paid_count s1 u k = Suc (paid_count s u k)"
      by (simp_all add: s1 record_reward_distribution_def put_progress_def save_profile_def paid_count_def)
    ultimately show ?thesis using assms(2)
      by (simp add: get_challenge_def keeps_challenges_def paid_count_def b_def)
  qed
qed

text \<open>
  Updating progress needs no authorisation: with a single call that nobody authorised, anyone
  completes a running challenge for any participant whose target is in reach of one increment.
\<close>

theorem stranger_completes_challenge:
  assumes "get_challenge s k = Some c" and "ch_status c = Active" and "now e \<le> ch_end_time c"
    and "get_challenge_progress s u k = Some p" and "challenge_target (ch_objective c) \<le> I128_MAX"
    and "0 \<le> cp_current_progress p"
  shows "\<exists>x s'. update_challenge_progress (e\<lparr>authorized := \<lambda>_. False\<rparr>) s u k x = Inr s'
    \<and> (\<exists>q. get_challenge_progress s' u k = Some q \<and> cp_objective_met q)"
proof (cases "cp_objective_met p")
  case True
  with assms show ?thesis by (auto simp: update_challenge_progress_def get_challenge_def get_challenge_progress_def)
next
  case False
  have "challenge_target (ch_objective c) \<le> i_sat_add (cp_current_progress p) (challenge_target (ch_objective c))"
    using assms(5,6) by (auto simp: i_sat_add_def i_clamp_def I128_MAX_def I128_MIN_def)
  with False assms show ?thesis
    by (intro exI [of _ "challenge_target (ch_objective c)"])
      (auto simp: update_challenge_progress_def get_challenge_def get_challenge_progress_def Let_def put_progress_def not_less)
qed

section \<open>Witnesses\<close>

text \<open>A challenge of one trade with a pool of 1000, joined, completed and claimed by user 2.\<close>

definition demo_game1 :: game where
  "demo_game1 = publish (ChallengeCreated 1 ''c'' 1000 5)
     (game0\<lparr>ga_challenges := [1 \<mapsto> \<lparr>ch_challenge_id = 1, ch_name = ''c'', ch_description = ''d'',
           ch_objective = CompleteTrades 1, ch_start_time = 5, ch_end_time = 3605, ch_reward_pool = 1000,
           ch_status = Active, ch_max_participants = 2, ch_participant_count = 0, ch_min_tier = Bronze\<rparr>],
         ga_next_id := Some 2, ga_list := [1]\<rparr>)"

definition demo_game2 :: game where
  "demo_game2 = (case join_challenge (demo_env 2 6) demo_game1 (Addr 2) 1 of Inr s \<Rightarrow> s)"

definition demo_game3 :: game where
  "demo_game3 = (case update_challenge_progress (demo_env 2 7) demo_game2 (Addr 2) 1 1 of Inr s \<Rightarrow> s)"

lemmas demo_game_defs = demo_game1_def game0_def publish_def get_or_create_profile_def profile_new_def get_user_tier_def

lemma demo_create: "game_exec (demo_env 0 5) (Some (Addr 0)) game0
    (Create (Addr 0) ''c'' ''d'' (CompleteTrades 1) 3600 1000 2 Bronze) = Inr demo_game1"
  by (simp add: demo_game_defs create_challenge_campaign_def create_challenge_def demo_env_def require_auth_def
      require_admin_def is_admin_def MIN_CHALLENGE_DURATION_def MAX_CHALLENGE_DURATION_def u_add_def)

lemma demo_join: "join_challenge (demo_env 2 6) demo_game1 (Addr 2) 1 = Inr demo_game2"
  by (simp add: demo_game2_def) (simp add: demo_game_defs join_challenge_def demo_env_def less_progression_tier_def
      save_profile_def Let_def)

lemma demo_game1_reachable: "game_reachable demo_game1"
  by (rule game_reach [OF reach_init demo_create]) simp_all

lemma demo_game2_reachable: "game_reachable demo_game2"
  by (rule game_reach [OF demo_game1_reachable, where c = "Join (Addr 2) 1" and e = "demo_env 2 6" and adm = None])
    (use demo_join in \<open>simp_all add: cc_join_challenge_def require_auth_def demo_env_def\<close>)

lemma demo_complete: "update_challenge_progress (demo_env 2 7) demo_game2 (Addr 2) 1 1 = Inr demo_game3"
  using demo_join
  by (simp add: demo_game3_def)
    (simp add: demo_game2_def, simp add: demo_game_defs join_challenge_def demo_env_def less_progression_tier_def save_profile_def
      Let_def update_challenge_progress_def i_sat_add_def i_clamp_def I128_MAX_def I128_MIN_def)

lemma demo_game3_reachable: "game_reachable demo_game3"
  by (rule game_reach [OF demo_game2_reachable, where c = "Progress (Addr 2) 1 1" and e = "demo_env 2 7" and adm = None])
    (use demo_complete in simp_all)

lemma demo_game3_facts:
  "get_gamification_score demo_game3 (Addr 2) = 100" "get_user_rank demo_game3 (Addr 2) ByScore = Some 1"
  "\<exists>c. get_challenge demo_game3 1 = Some c \<and> ch_reward_pool c = 1000 \<and> ch_max_participants c = 2"
  using demo_complete demo_join
  by (simp_all add: demo_game3_def demo_game2_def demo_game_defs join_challenge_def demo_env_def less_progression_tier_def
      save_profile_def Let_def update_challenge_progress_def i_sat_add_def i_clamp_def I128_MAX_def I128_MIN_def
      get_gamification_score_def add_score_def update_leaderboard_entry_def ranked_board_def assign_ranks_def
      MAX_LEADERBOARD_SIZE_def get_user_rank_def get_challenge_def put_progress_def calculate_tier_def)

theorem leaderboard_exact_witness:
  "card {w. 100 < get_gamification_score demo_game3 w} < 1"
  using leaderboard_exact [OF demo_game3_reachable, of "Addr 2"] by (simp add: demo_game3_facts)

theorem tier_follows_score_witness: "get_user_tier demo_game3 (Addr 2) < Silver"
  using tier_follows_score [OF demo_game3_reachable, of "Addr 2"] by (simp add: demo_game3_facts flip: not_le)

definition demo_game4 :: game where
  "demo_game4 = (case cc_claim_challenge_reward (demo_env 2 8) demo_game3 (Addr 2) 1 of Inr (_, s) \<Rightarrow> s)"

lemma demo_claim_reward: "cc_claim_challenge_reward (demo_env 2 8) demo_game3 (Addr 2) 1 = Inr (100, demo_game4)"
  using demo_complete demo_join
  by (simp add: demo_game4_def)
    (simp add: demo_game3_def demo_game2_def demo_game_defs join_challenge_def demo_env_def less_progression_tier_def
      save_profile_def Let_def update_challenge_progress_def i_sat_add_def i_clamp_def I128_MAX_def I128_MIN_def
      add_score_def update_leaderboard_entry_def put_progress_def calculate_tier_def cc_claim_challenge_reward_def
      require_auth_def claim_challenge_reward_def signed_divide_int_def i_mul_def i_check_def i128_ok_def
      streak_multiplier_bps_def u_sat_add_def record_reward_distribution_def)

lemma demo_game4_reachable: "game_reachable demo_game4"
  by (rule game_reach [OF demo_game3_reachable, where c = "Claim (Addr 2) 1" and e = "demo_env 2 8" and adm = None])
    (use demo_claim_reward in simp_all)

theorem claims_outgrow_pool_witness:
  "paid_count demo_game4 (Addr 2) 1 = Suc (paid_count demo_game3 (Addr 2) 1) \<and> get_challenge demo_game4 1 = get_challenge demo_game3 1"
proof -
  obtain c where c: "get_challenge demo_game3 1 = Some c" "ch_reward_pool c = 1000" using demo_game3_facts(3) by blast
  from claims_outgrow_pool [OF demo_game3_reachable c(1) _ demo_claim_reward] c show ?thesis by simp
qed

theorem reward_paid_once_witness: "paid_count demo_game4 (Addr 2) 1 \<le> 1"
  using reward_paid_once [OF demo_game4_reachable] by blast

theorem challenge_places_witness: "card (participants demo_game3 1) \<le> 2"
proof -
  obtain c where c: "get_challenge demo_game3 1 = Some c" "ch_max_participants c = 2" using demo_game3_facts(3) by blast
  from challenge_places [OF demo_game3_reachable c(1)] c(2) show ?thesis by simp
qed

theorem stranger_completes_challenge_witness:
  "\<exists>x s' q. update_challenge_progress ((demo_env 9 7)\<lparr>authorized := \<lambda>_. False\<rparr>) demo_game2 (Addr 2) 1 x = Inr s'
    \<and> get_challenge_progress s' (Addr 2) 1 = Some q \<and> cp_objective_met q"
proof -
  have "\<exists>c. get_challenge demo_game2 1 = Some c \<and> ch_status c = Active \<and> ch_end_time c = 3605 \<and> ch_objective c = CompleteTrades 1"
    "\<exists>p. get_challenge_progress demo_game2 (Addr 2) 1 = Some p \<and> cp_current_progress p = 0"
    using demo_join
    by (simp_all add: demo_game2_def demo_game_defs join_challenge_def demo_env_def less_progression_tier_def
      save_profile_def Let_def get_challenge_def get_challenge_progress_def)
  then obtain c p where cp: "get_challenge demo_game2 1 = Some c" "ch_status c = Active" "ch_end_time c = 3605"
    "ch_objective c = CompleteTrades 1" "get_challenge_progress demo_game2 (Addr 2) 1 = Some p" "cp_current_progress p = 0"
    by metis
  from stranger_completes_challenge [OF cp(1,2) _ cp(5), of "demo_env 9 7"] cp show ?thesis
    by (auto simp: demo_env_def I128_MAX_def)
qed

end
