(* ===== verification/Audit_Chain.thy ===== *)
theory Audit_Chain
  imports Machine_Ints "HOL-Library.Word" "HOL-Library.Char_ord"
begin

unbundle bit_operations_syntax

text \<open>
  What the audit logs of the counter crate's governance modules share: byte strings, the simple hash
  that \<open>treasury.rs\<close> and \<open>emergency.rs\<close> each define with their own constants, hexadecimal output, and the
  interface of a log whose entries are chained by a hash.
\<close>

section \<open>Bytes and hashes\<close>

definition bytes_of :: "string \<Rightarrow> 8 word list" where
  "bytes_of s = map of_char s"

definition to_le_bytes :: "nat \<Rightarrow> 8 word list" where
  "to_le_bytes n = map (\<lambda>i. of_nat (n div 256 ^ i)) [0..<8]"

definition hash_byte :: "8 word \<Rightarrow> nat \<Rightarrow> 8 word \<Rightarrow> 8 word list \<Rightarrow> 8 word list" where
  "hash_byte key i byte hash =
     (let h1 = hash[i mod 32 := hash ! (i mod 32) * 31 + byte];
          k = (i + 13) mod 32
      in h1[k := h1 ! k * 17 + (byte XOR key)])"

fun hash_loop :: "8 word \<Rightarrow> nat \<Rightarrow> 8 word list \<Rightarrow> 8 word list \<Rightarrow> 8 word list" where
  "hash_loop key i [] hash = hash"
| "hash_loop key i (byte # data) hash = hash_loop key (Suc i) data (hash_byte key i byte hash)"

definition hex_digit :: "nat \<Rightarrow> char" where
  "hex_digit n = (if n < 10 then char_of (48 + n) else char_of (87 + n))"

definition hex_encode :: "8 word list \<Rightarrow> string" where
  "hex_encode bs = concat (map (\<lambda>b. [hex_digit (unat b div 16), hex_digit (unat b mod 16)]) bs)"

section \<open>Chained logs\<close>

text \<open>
  The interface: every entry stores a hash, and a log verifies from a previous hash when each entry stores
  what is expected of it after the hash before.
\<close>

locale hash_chain =
  fixes stored :: "'e \<Rightarrow> 'h" and expected :: "'e \<Rightarrow> 'h option \<Rightarrow> 'h" and verify :: "'h option \<Rightarrow> 'e list \<Rightarrow> bool"
  assumes verify_Nil: "verify prev []"
    and verify_Cons: "verify prev (x # log) \<longleftrightarrow> stored x = expected x prev \<and> verify (Some (stored x)) log"
begin

lemma verify_snoc:
  "verify prev (log @ [x]) \<longleftrightarrow> verify prev log \<and> stored x = expected x (if log = [] then prev else Some (stored (last log)))"
  by (induction log arbitrary: prev) (auto simp: verify_Nil verify_Cons)

text \<open>What the hash does not cover can be rewritten in every entry.\<close>

lemma verify_map:
  assumes "\<And>x. stored (f x) = stored x" "\<And>x p. expected (f x) p = expected x p"
  shows "verify prev (map f log) = verify prev log"
  by (induction log arbitrary: prev) (simp_all add: verify_Nil verify_Cons assms)

text \<open>Two logs of one length that end in the same hash are equal, unless they show a collision.\<close>

lemma verify_same_end:
  assumes "verify p xs" "verify q ys" "length xs = length ys" "xs \<noteq> []" "stored (last xs) = stored (last ys)"
  shows "(xs = ys \<and> p = q) \<or> (\<exists>x y i j. x \<in> set xs \<and> y \<in> set ys \<and> (x, i) \<noteq> (y, j) \<and> expected x i = expected y j)"
  using assms
proof (induction xs arbitrary: p q ys)
  case (Cons x xs)
  then obtain y ys' where ys: "ys = y # ys'" by (cases ys) auto
  have v: "stored x = expected x p" "verify (Some (stored x)) xs" "stored y = expected y q" "verify (Some (stored y)) ys'"
    using Cons.prems(1,2) unfolding ys verify_Cons by blast+
  show ?case
  proof (cases "xs = []")
    case True
    then have "ys' = []" using Cons.prems(3) ys by simp
    then have "stored x = stored y" using Cons.prems(5) True ys by simp
    then have "expected x p = expected y q" using v by simp
    then show ?thesis using True \<open>ys' = []\<close> unfolding ys by (cases "(x, p) = (y, q)") auto
  next
    case False
    then have "ys' \<noteq> []" using Cons.prems(3) ys by auto
    with False Cons.prems(3,5) ys have "length xs = length ys'" "stored (last xs) = stored (last ys')" by simp_all
    from Cons.IH [OF v(2,4) this(1) False this(2)] show ?thesis
    proof
      assume "xs = ys' \<and> Some (stored x) = Some (stored y)"
      then have "xs = ys'" "expected x p = expected y q" using v by simp_all
      then show ?thesis unfolding ys by (cases "(x, p) = (y, q)") auto
    qed (auto simp: ys)
  qed
qed simp

end

end
