(* ===== verification/Treasury.thy ===== *)
theory Treasury
  imports Audit_Chain
begin

unbundle bit_operations_syntax

text \<open>
  The treasury of the counter crate's governance (\<open>counter/src/governance/treasury.rs\<close>), a plain Rust
  module: balances, withdrawal proposals with approvals, spending limits and an audit log whose entries
  are chained by a hash. There is no host that discards writes, so an operation that returns an error
  can leave a changed state; the one that does returns both. Strings are the lists of their bytes and
  byte arrays are lists of \<open>8 word\<close>. A fault \<open>Trap\<close> is a panic.
\<close>

section \<open>Data\<close>

datatype treasury_error =
    SignerExists | BelowThreshold | InvalidThreshold | ZeroDeposit | DepositOverflow
  | OnlySigners | ZeroAmount | InsufficientBalance nat nat | ProposalNotFound | AlreadyExecuted | AlreadyRejected
  | ProposalExpired | AlreadyApproved | NotApproved | SpendingLimitExceeded | AssetNotFound | RejectExecuted

type_synonym operation_id = "8 word list"

datatype operation_status = Pending | Approved | Executed | Rejected

datatype proposal_type = Withdrawal_Proposal | BudgetAllocation | EmergencyWithdrawal | Grant

record treasury_proposal =
  tp_id :: operation_id
  tp_proposal_type :: proposal_type
  tp_proposer :: string
  tp_asset :: string
  tp_amount :: nat
  tp_recipient :: string
  tp_description :: string
  tp_created_at :: nat
  tp_expires_at :: nat
  tp_approvals :: "string list"
  tp_required_approvals :: nat
  tp_status :: operation_status
  tp_executed_at :: "nat option"

definition approval_count :: "treasury_proposal \<Rightarrow> nat" where
  "approval_count p = length (tp_approvals p)"

definition is_approved :: "treasury_proposal \<Rightarrow> bool" where
  "is_approved p \<longleftrightarrow> length (tp_approvals p) \<ge> tp_required_approvals p"

definition is_expired :: "treasury_proposal \<Rightarrow> nat \<Rightarrow> bool" where
  "is_expired p t \<longleftrightarrow> t > tp_expires_at p"

record asset_balance =
  tb_balance :: nat
  tb_total_deposited :: nat
  tb_total_withdrawn :: nat
  tb_last_deposit_at :: nat
  tb_last_withdrawal_at :: nat

definition asset_balance_default :: asset_balance where
  "asset_balance_default = \<lparr>tb_balance = 0, tb_total_deposited = 0, tb_total_withdrawn = 0,
     tb_last_deposit_at = 0, tb_last_withdrawal_at = 0\<rparr>"

record spending_limit =
  sl_max_per_period :: nat
  sl_period_duration_secs :: nat
  sl_spent_in_period :: nat
  sl_period_start :: nat

definition remaining :: "spending_limit \<Rightarrow> nat \<Rightarrow> (nat, treasury_error) res" where
  "remaining l t =
     bindR (u_add 64 (sl_period_start l) (sl_period_duration_secs l)) (\<lambda>period_end.
     Inr (if t > period_end then sl_max_per_period l else sl_max_per_period l - sl_spent_in_period l))"

definition record_spend :: "spending_limit \<Rightarrow> nat \<Rightarrow> nat \<Rightarrow> (spending_limit, treasury_error) res" where
  "record_spend l amount t =
     bindR (u_add 64 (sl_period_start l) (sl_period_duration_secs l)) (\<lambda>period_end.
     Inr (if t > period_end then l\<lparr>sl_period_start := t, sl_spent_in_period := amount\<rparr>
          else l\<lparr>sl_spent_in_period := u_sat_add 128 (sl_spent_in_period l) amount\<rparr>))"

datatype audit_operation =
    Deposit_Op string nat string
  | Withdrawal_Op string nat string string
  | ProposalCreated_Op string proposal_type
  | ProposalApproved_Op string string nat
  | ProposalRejected_Op string string
  | SpendingLimitSet_Op string nat
  | MultiSigUpdated_Op nat nat
  | BalanceSnapshot_Op nat

record audit_entry =
  au_seq :: nat
  au_timestamp :: nat
  au_operation :: audit_operation
  au_actor :: string
  au_entry_hash :: "8 word list"

record treasury =
  ty_balances :: "string \<rightharpoonup> asset_balance"
  ty_proposals :: "operation_id \<rightharpoonup> treasury_proposal"
  ty_signers :: "string list"
  ty_threshold :: nat
  ty_emergency_threshold :: nat
  ty_spending_limits :: "string \<rightharpoonup> spending_limit"
  ty_audit_log :: "audit_entry list"
  ty_seq :: nat

section \<open>Hashes and the audit log\<close>

definition simple_hash :: "8 word list \<Rightarrow> 8 word list" where
  "simple_hash data = hash_loop 0xAA 0 data (replicate 32 0x6b)"

text \<open>What an entry hashes: its number, time and actor, and the hash of the entry before, if any.\<close>

definition hash_input :: "nat \<Rightarrow> nat \<Rightarrow> string \<Rightarrow> 8 word list option \<Rightarrow> 8 word list" where
  "hash_input sq timestamp actor prev =
     to_le_bytes sq @ to_le_bytes timestamp @ bytes_of actor @ (case prev of Some h \<Rightarrow> h | None \<Rightarrow> [])"

definition last_hash :: "audit_entry list \<Rightarrow> 8 word list option" where
  "last_hash log = (if log = [] then None else Some (au_entry_hash (last log)))"

definition log_operation :: "treasury \<Rightarrow> audit_operation \<Rightarrow> string \<Rightarrow> nat \<Rightarrow> (treasury, treasury_error) res" where
  "log_operation s operation actor t =
     bindR (u_add 64 (ty_seq s) 1) (\<lambda>sq.
     Inr (s\<lparr>ty_seq := sq, ty_audit_log := ty_audit_log s @
       [\<lparr>au_seq = sq, au_timestamp = t, au_operation = operation, au_actor = actor,
         au_entry_hash = simple_hash (hash_input sq t actor (last_hash (ty_audit_log s)))\<rparr>]\<rparr>))"

fun verify_from :: "8 word list option \<Rightarrow> audit_entry list \<Rightarrow> bool" where
  "verify_from prev [] \<longleftrightarrow> True"
| "verify_from prev (entry # log) \<longleftrightarrow>
     (if au_entry_hash entry \<noteq> simple_hash (hash_input (au_seq entry) (au_timestamp entry) (au_actor entry) prev)
      then False else verify_from (Some (au_entry_hash entry)) log)"

definition verify_audit_trail :: "treasury \<Rightarrow> bool" where
  "verify_audit_trail s \<longleftrightarrow> verify_from None (ty_audit_log s)"

definition audit_log_length :: "treasury \<Rightarrow> nat" where
  "audit_log_length s = length (ty_audit_log s)"

section \<open>Signers\<close>

definition treasury_new :: "string list \<Rightarrow> nat \<Rightarrow> nat \<Rightarrow> (treasury, treasury_error) res" where
  "treasury_new signers threshold emergency_threshold =
     bindR (ensure (threshold > 0 \<and> threshold \<le> length signers) Trap) (\<lambda>_.
     bindR (ensure (emergency_threshold > 0 \<and> emergency_threshold \<le> threshold) Trap) (\<lambda>_.
     Inr \<lparr>ty_balances = Map.empty, ty_proposals = Map.empty, ty_signers = signers, ty_threshold = threshold,
       ty_emergency_threshold = emergency_threshold, ty_spending_limits = Map.empty, ty_audit_log = [], ty_seq = 0\<rparr>))"

definition add_signer :: "treasury \<Rightarrow> string \<Rightarrow> (treasury, treasury_error) res" where
  "add_signer s signer =
     bindR (ensure (signer \<notin> set (ty_signers s)) (Err SignerExists)) (\<lambda>_.
     Inr (s\<lparr>ty_signers := ty_signers s @ [signer]\<rparr>))"

definition remove_signer :: "treasury \<Rightarrow> string \<Rightarrow> (treasury, treasury_error) res" where
  "remove_signer s signer =
     bindR (ensure (\<not> length (ty_signers s) \<le> ty_threshold s) (Err BelowThreshold)) (\<lambda>_.
     Inr (s\<lparr>ty_signers := filter (\<lambda>x. x \<noteq> signer) (ty_signers s)\<rparr>))"

definition update_threshold :: "treasury \<Rightarrow> nat \<Rightarrow> nat \<Rightarrow> (treasury, treasury_error) res" where
  "update_threshold s new_threshold t =
     bindR (ensure (\<not> (new_threshold = 0 \<or> new_threshold > length (ty_signers s))) (Err InvalidThreshold)) (\<lambda>_.
     log_operation (s\<lparr>ty_threshold := new_threshold\<rparr>) (MultiSigUpdated_Op (ty_threshold s) new_threshold) ''system'' t)"

definition is_treasury_signer :: "treasury \<Rightarrow> string \<Rightarrow> bool" where
  "is_treasury_signer s signer \<longleftrightarrow> signer \<in> set (ty_signers s)"

section \<open>Balances and limits\<close>

definition balance_entry :: "treasury \<Rightarrow> string \<Rightarrow> asset_balance" where
  "balance_entry s asset = (case ty_balances s asset of Some b \<Rightarrow> b | None \<Rightarrow> asset_balance_default)"

definition deposit :: "treasury \<Rightarrow> string \<Rightarrow> nat \<Rightarrow> string \<Rightarrow> nat \<Rightarrow> (treasury, treasury_error) res" where
  "deposit s asset amount depositor t =
     bindR (ensure (amount \<noteq> 0) (Err ZeroDeposit)) (\<lambda>_.
     let b = balance_entry s asset in
     bindR (ok_or (u_checked_add 128 (tb_balance b) amount) (Err DepositOverflow)) (\<lambda>balance.
     log_operation (s\<lparr>ty_balances := (ty_balances s)(asset \<mapsto>
         b\<lparr>tb_balance := balance, tb_total_deposited := u_sat_add 128 (tb_total_deposited b) amount,
           tb_last_deposit_at := t\<rparr>)\<rparr>)
       (Deposit_Op asset amount depositor) depositor t))"

definition treasury_balance_of :: "treasury \<Rightarrow> string \<Rightarrow> nat" where
  "treasury_balance_of s asset = (case ty_balances s asset of Some b \<Rightarrow> tb_balance b | None \<Rightarrow> 0)"

definition total_assets :: "treasury \<Rightarrow> nat" where
  "total_assets s = card (dom (ty_balances s))"

definition set_spending_limit :: "treasury \<Rightarrow> string \<Rightarrow> nat \<Rightarrow> nat \<Rightarrow> nat \<Rightarrow> (treasury, treasury_error) res" where
  "set_spending_limit s asset max_per_period period_duration_secs t =
     log_operation (s\<lparr>ty_spending_limits := (ty_spending_limits s)(asset \<mapsto>
         \<lparr>sl_max_per_period = max_per_period, sl_period_duration_secs = period_duration_secs,
          sl_spent_in_period = 0, sl_period_start = t\<rparr>)\<rparr>)
       (SpendingLimitSet_Op asset max_per_period) ''admin'' t"

definition check_spending_limit :: "treasury \<Rightarrow> string \<Rightarrow> nat \<Rightarrow> nat \<Rightarrow> (bool, treasury_error) res" where
  "check_spending_limit s asset amount t =
     (case ty_spending_limits s asset of
        Some l \<Rightarrow> bindR (remaining l t) (\<lambda>r. Inr (amount \<le> r))
      | None \<Rightarrow> Inr True)"

section \<open>Proposals\<close>

definition xor_at :: "nat \<Rightarrow> 8 word \<Rightarrow> 8 word list \<Rightarrow> 8 word list" where
  "xor_at i b bs = bs[i := bs ! i XOR b]"

fun xor_bytes :: "nat \<Rightarrow> 8 word list \<Rightarrow> 8 word list \<Rightarrow> 8 word list" where
  "xor_bytes i [] bs = bs"
| "xor_bytes i (b # data) bs = xor_bytes (Suc i) data (xor_at (i mod 32) b bs)"

definition proposal_id :: "string \<Rightarrow> string \<Rightarrow> nat \<Rightarrow> nat \<Rightarrow> operation_id" where
  "proposal_id description proposer amount t =
     (let id1 = xor_bytes 0 (bytes_of description) (replicate 32 0);
          id2 = xor_bytes (length description) (bytes_of proposer) id1
      in xor_at 2 (of_nat t) (xor_at 1 (of_nat (amount div 256)) (xor_at 0 (of_nat amount) id2)))"

definition create_proposal ::
    "treasury \<Rightarrow> string \<Rightarrow> proposal_type \<Rightarrow> string \<Rightarrow> nat \<Rightarrow> string \<Rightarrow> string \<Rightarrow> nat \<Rightarrow> nat
     \<Rightarrow> (operation_id \<times> treasury, treasury_error) res" where
  "create_proposal s proposer ptype asset amount recipient description t ttl_secs =
     bindR (ensure (is_treasury_signer s proposer) (Err OnlySigners)) (\<lambda>_.
     bindR (ensure (amount \<noteq> 0) (Err ZeroAmount)) (\<lambda>_.
     let balance = treasury_balance_of s asset in
     bindR (ensure (\<not> balance < amount) (Err (InsufficientBalance balance amount))) (\<lambda>_.
     let required = (case ptype of EmergencyWithdrawal \<Rightarrow> ty_emergency_threshold s | _ \<Rightarrow> ty_threshold s);
         pid = proposal_id description proposer amount t in
     bindR (u_add 64 t ttl_secs) (\<lambda>expires_at.
     let proposal = \<lparr>tp_id = pid, tp_proposal_type = ptype, tp_proposer = proposer, tp_asset = asset,
           tp_amount = amount, tp_recipient = recipient, tp_description = description, tp_created_at = t,
           tp_expires_at = expires_at, tp_approvals = [proposer], tp_required_approvals = required,
           tp_status = Pending, tp_executed_at = None\<rparr> in
     bindR (log_operation s (ProposalCreated_Op (hex_encode pid) ptype) proposer t) (\<lambda>s1.
     Inr (pid, s1\<lparr>ty_proposals := (ty_proposals s1)(pid \<mapsto> proposal)\<rparr>))))))"

definition put_proposal :: "treasury \<Rightarrow> operation_id \<Rightarrow> treasury_proposal \<Rightarrow> treasury" where
  "put_proposal s pid p = s\<lparr>ty_proposals := (ty_proposals s)(pid \<mapsto> p)\<rparr>"

text \<open>
  An approval that finds the proposal expired marks it rejected and reports the error: the result is
  the error with the changed state.
\<close>

definition approve_proposal ::
    "treasury \<Rightarrow> operation_id \<Rightarrow> string \<Rightarrow> nat \<Rightarrow> ((treasury_error + nat) \<times> treasury, treasury_error) res" where
  "approve_proposal s pid signer t =
     bindR (ensure (is_treasury_signer s signer) (Err OnlySigners)) (\<lambda>_.
     bindR (ok_or (ty_proposals s pid) (Err ProposalNotFound)) (\<lambda>p.
     bindR (ensure (tp_status p \<noteq> Executed) (Err AlreadyExecuted)) (\<lambda>_.
     bindR (ensure (tp_status p \<noteq> Rejected) (Err AlreadyRejected)) (\<lambda>_.
     if is_expired p t then Inr (Inl ProposalExpired, put_proposal s pid (p\<lparr>tp_status := Rejected\<rparr>))
     else
       bindR (ensure (signer \<notin> set (tp_approvals p)) (Err AlreadyApproved)) (\<lambda>_.
       let p1 = p\<lparr>tp_approvals := tp_approvals p @ [signer]\<rparr>;
           count = approval_count p1;
           p2 = (if is_approved p1 then p1\<lparr>tp_status := Approved\<rparr> else p1) in
       bindR (log_operation (put_proposal s pid p2) (ProposalApproved_Op (hex_encode pid) signer count) signer t) (\<lambda>s1.
       Inr (Inr count, s1)))))))"

definition execute_proposal :: "treasury \<Rightarrow> operation_id \<Rightarrow> nat \<Rightarrow> (treasury, treasury_error) res" where
  "execute_proposal s pid t =
     bindR (ok_or (ty_proposals s pid) (Err ProposalNotFound)) (\<lambda>p.
     bindR (ensure (tp_status p = Approved) (Err NotApproved)) (\<lambda>_.
     bindR (ensure (\<not> is_expired p t) (Err ProposalExpired)) (\<lambda>_.
     bindR (check_spending_limit s (tp_asset p) (tp_amount p) t) (\<lambda>within.
     bindR (ensure within (Err SpendingLimitExceeded)) (\<lambda>_.
     let balance = treasury_balance_of s (tp_asset p) in
     bindR (ensure (\<not> balance < tp_amount p) (Err (InsufficientBalance balance (tp_amount p)))) (\<lambda>_.
     bindR (ok_or (ty_balances s (tp_asset p)) (Err AssetNotFound)) (\<lambda>b.
     let s1 = s\<lparr>ty_balances := (ty_balances s)(tp_asset p \<mapsto>
           b\<lparr>tb_balance := tb_balance b - tp_amount p,
             tb_total_withdrawn := u_sat_add 128 (tb_total_withdrawn b) (tp_amount p), tb_last_withdrawal_at := t\<rparr>)\<rparr> in
     bindR (case ty_spending_limits s1 (tp_asset p) of
         Some l \<Rightarrow> bindR (record_spend l (tp_amount p) t) (\<lambda>l1.
           Inr (s1\<lparr>ty_spending_limits := (ty_spending_limits s1)(tp_asset p \<mapsto> l1)\<rparr>))
       | None \<Rightarrow> Inr s1) (\<lambda>s2.
     log_operation (put_proposal s2 pid (p\<lparr>tp_status := Executed, tp_executed_at := Some t\<rparr>))
       (Withdrawal_Op (tp_asset p) (tp_amount p) (tp_recipient p) (hex_encode pid)) ''system'' t))))))))"

definition reject_proposal :: "treasury \<Rightarrow> operation_id \<Rightarrow> string \<Rightarrow> nat \<Rightarrow> (treasury, treasury_error) res" where
  "reject_proposal s pid reason t =
     bindR (ok_or (ty_proposals s pid) (Err ProposalNotFound)) (\<lambda>p.
     bindR (ensure (tp_status p \<noteq> Executed) (Err RejectExecuted)) (\<lambda>_.
     log_operation (put_proposal s pid (p\<lparr>tp_status := Rejected\<rparr>)) (ProposalRejected_Op (hex_encode pid) reason) ''system'' t))"

section \<open>Queries\<close>

definition get_proposal :: "treasury \<Rightarrow> operation_id \<Rightarrow> treasury_proposal option" where
  "get_proposal s pid = ty_proposals s pid"

text \<open>The hash map lists its values in no particular order: the result is a set.\<close>

definition pending_proposals :: "treasury \<Rightarrow> nat \<Rightarrow> treasury_proposal set" where
  "pending_proposals s t =
     {p \<in> ran (ty_proposals s). tp_status p \<noteq> Executed \<and> tp_status p \<noteq> Rejected \<and> \<not> is_expired p t}"

definition signer_count :: "treasury \<Rightarrow> nat" where
  "signer_count s = length (ty_signers s)"

definition get_threshold :: "treasury \<Rightarrow> nat" where
  "get_threshold s = ty_threshold s"

definition get_emergency_threshold :: "treasury \<Rightarrow> nat" where
  "get_emergency_threshold s = ty_emergency_threshold s"

end
