(* ===== verification/Treasury_Props.thy ===== *)
theory Treasury_Props
  imports Treasury
begin

text \<open>
  The properties of the treasury over any run of its operations: the audit log verifies and
  reconstructs every balance, a withdrawal has its approvals and stays within the spending limit; and
  three weaknesses, a log that does not protect what it records, proposals that replace each other, and
  thresholds that no longer fit together.
\<close>

section \<open>Runs\<close>

datatype treasury_call =
    Add_Signer string
  | Remove_Signer string
  | Set_Threshold nat nat
  | Deposit string nat string nat
  | Set_Limit string nat nat nat
  | Propose string proposal_type string nat string string nat nat
  | Approve operation_id string nat
  | Execute operation_id nat
  | Reject operation_id string nat

fun treasury_exec :: "treasury \<Rightarrow> treasury_call \<Rightarrow> (treasury, treasury_error) res" where
  "treasury_exec s (Add_Signer a) = add_signer s a"
| "treasury_exec s (Remove_Signer a) = remove_signer s a"
| "treasury_exec s (Set_Threshold n t) = update_threshold s n t"
| "treasury_exec s (Deposit asset x a t) = deposit s asset x a t"
| "treasury_exec s (Set_Limit asset m d t) = set_spending_limit s asset m d t"
| "treasury_exec s (Propose a ty asset x r desc t ttl) = bindR (create_proposal s a ty asset x r desc t ttl) (\<lambda>(_, s'). Inr s')"
| "treasury_exec s (Approve pid a t) = bindR (approve_proposal s pid a t) (\<lambda>(_, s'). Inr s')"
| "treasury_exec s (Execute pid t) = execute_proposal s pid t"
| "treasury_exec s (Reject pid why t) = reject_proposal s pid why t"

inductive treasury_step :: "treasury \<Rightarrow> treasury \<Rightarrow> bool" where
  treasury_call: "treasury_exec s c = Inr s' \<Longrightarrow> treasury_step s s'"

inductive_cases treasury_stepE: "treasury_step s s'"

definition treasury_init :: "treasury \<Rightarrow> bool" where
  "treasury_init s \<longleftrightarrow> (\<exists>signers m n. distinct signers \<and> treasury_new signers m n = Inr s)"

abbreviation treasury_reachable :: "treasury \<Rightarrow> bool" where
  "treasury_reachable \<equiv> reachable treasury_init treasury_step"

lemma treasury_reach: "treasury_reachable s \<Longrightarrow> treasury_exec s c = Inr s' \<Longrightarrow> treasury_reachable s'"
  by (blast intro: reach_step treasury_call)

section \<open>What the operations do\<close>

lemma log_operation_eq_Inr:
  "log_operation s op actor t = Inr s' \<longleftrightarrow> ty_seq s + 1 < 2 ^ 64 \<and> s' = s\<lparr>ty_seq := ty_seq s + 1, ty_audit_log := ty_audit_log s @
     [\<lparr>au_seq = ty_seq s + 1, au_timestamp = t, au_operation = op, au_actor = actor,
       au_entry_hash = simple_hash (hash_input (ty_seq s + 1) t actor (last_hash (ty_audit_log s)))\<rparr>]\<rparr>"
  by (auto simp: log_operation_def bindR_eq_Inr u_add_eq_Inr)

text \<open>\<open>logged s op actor t s'\<close>: the log of \<open>s'\<close> is that of \<open>s\<close> with one entry more.\<close>

definition logged :: "treasury \<Rightarrow> audit_operation \<Rightarrow> treasury \<Rightarrow> bool" where
  "logged s op s' \<longleftrightarrow> (\<exists>t actor. ty_seq s' = ty_seq s + 1 \<and> ty_audit_log s' = ty_audit_log s @
     [\<lparr>au_seq = ty_seq s + 1, au_timestamp = t, au_operation = op, au_actor = actor,
       au_entry_hash = simple_hash (hash_input (ty_seq s + 1) t actor (last_hash (ty_audit_log s)))\<rparr>])"

lemma log_operation_effect:
  assumes "log_operation s op actor t = Inr s'"
  shows "logged s op s'" "ty_balances s' = ty_balances s" "ty_proposals s' = ty_proposals s" "ty_signers s' = ty_signers s"
    "ty_threshold s' = ty_threshold s" "ty_emergency_threshold s' = ty_emergency_threshold s"
    "ty_spending_limits s' = ty_spending_limits s"
  using assms by (auto simp: log_operation_eq_Inr logged_def)

lemma logged_cong: "ty_seq s = ty_seq r \<Longrightarrow> ty_audit_log s = ty_audit_log r \<Longrightarrow> logged s op s' = logged r op s'"
  by (simp add: logged_def)

lemma deposit_effect:
  assumes "deposit s asset x a t = Inr s'"
  shows "logged s (Deposit_Op asset x a) s'" "0 < x" "tb_balance (balance_entry s asset) + x < 2 ^ 128"
    "ty_balances s' = (ty_balances s)(asset \<mapsto> (balance_entry s asset)\<lparr>tb_balance := tb_balance (balance_entry s asset) + x,
       tb_total_deposited := u_sat_add 128 (tb_total_deposited (balance_entry s asset)) x, tb_last_deposit_at := t\<rparr>)"
    "ty_proposals s' = ty_proposals s" "ty_signers s' = ty_signers s" "ty_threshold s' = ty_threshold s"
    "ty_emergency_threshold s' = ty_emergency_threshold s" "ty_spending_limits s' = ty_spending_limits s"
  using assms
  by (auto simp: deposit_def Let_def bindR_eq_Inr ensure_eq_Inr ok_or_eq_Inr u_checked_add_eq_Some log_operation_eq_Inr logged_def)

lemma propose_effect:
  assumes "create_proposal s a ty asset x r desc t ttl = Inr (pid, s')"
  shows "logged s (ProposalCreated_Op (hex_encode pid) ty) s'" "pid = proposal_id desc a x t" "a \<in> set (ty_signers s)" "0 < x"
    "x \<le> treasury_balance_of s asset"
    "ty_proposals s' = (ty_proposals s)(pid \<mapsto> \<lparr>tp_id = pid, tp_proposal_type = ty, tp_proposer = a, tp_asset = asset,
           tp_amount = x, tp_recipient = r, tp_description = desc, tp_created_at = t,
           tp_expires_at = t + ttl, tp_approvals = [a],
           tp_required_approvals = (case ty of EmergencyWithdrawal \<Rightarrow> ty_emergency_threshold s | _ \<Rightarrow> ty_threshold s),
           tp_status = Pending, tp_executed_at = None\<rparr>)"
    "ty_balances s' = ty_balances s" "ty_signers s' = ty_signers s" "ty_threshold s' = ty_threshold s"
    "ty_emergency_threshold s' = ty_emergency_threshold s" "ty_spending_limits s' = ty_spending_limits s"
  using assms
  by (auto simp: create_proposal_def Let_def bindR_eq_Inr ensure_eq_Inr u_add_eq_Inr log_operation_eq_Inr logged_def
      is_treasury_signer_def cong: proposal_type.case_cong)

lemma approve_effect:
  assumes "approve_proposal s pid a t = Inr (r, s')"
  obtains (late) p where "ty_proposals s pid = Some p" "tp_status p \<noteq> Executed" "tp_status p \<noteq> Rejected" "tp_expires_at p < t"
      "r = Inl ProposalExpired" "s' = put_proposal s pid (p\<lparr>tp_status := Rejected\<rparr>)"
  | (counted) p q where "ty_proposals s pid = Some p" "tp_status p \<noteq> Executed" "tp_status p \<noteq> Rejected" "t \<le> tp_expires_at p"
      "a \<in> set (ty_signers s)" "a \<notin> set (tp_approvals p)"
      "q = p\<lparr>tp_approvals := tp_approvals p @ [a],
         tp_status := (if tp_required_approvals p \<le> Suc (length (tp_approvals p)) then Approved else tp_status p)\<rparr>"
      "logged s (ProposalApproved_Op (hex_encode pid) a (Suc (length (tp_approvals p)))) s'"
      "ty_proposals s' = (ty_proposals s)(pid \<mapsto> q)"
      "ty_balances s' = ty_balances s" "ty_signers s' = ty_signers s" "ty_threshold s' = ty_threshold s"
      "ty_emergency_threshold s' = ty_emergency_threshold s" "ty_spending_limits s' = ty_spending_limits s"
proof -
  from assms obtain p where p: "ty_proposals s pid = Some p" "tp_status p \<noteq> Executed" "tp_status p \<noteq> Rejected" "a \<in> set (ty_signers s)"
    by (auto simp: approve_proposal_def bindR_eq_Inr ensure_eq_Inr ok_or_eq_Inr is_treasury_signer_def)
  show thesis
  proof (cases "is_expired p t")
    case True
    with assms p show thesis
      by (intro late) (auto simp: approve_proposal_def is_expired_def is_treasury_signer_def)
  next
    case False
    define q where "q = p\<lparr>tp_approvals := tp_approvals p @ [a],
         tp_status := (if tp_required_approvals p \<le> Suc (length (tp_approvals p)) then Approved else tp_status p)\<rparr>"
    have new: "a \<notin> set (tp_approvals p)"
      using assms p False by (auto simp: approve_proposal_def bindR_eq_Inr ensure_eq_Inr is_treasury_signer_def)
    have "(let p1 = p\<lparr>tp_approvals := tp_approvals p @ [a]\<rparr> in if is_approved p1 then p1\<lparr>tp_status := Approved\<rparr> else p1) = q"
      by (simp add: q_def is_approved_def Let_def)
    with assms p False new have "log_operation (put_proposal s pid q)
        (ProposalApproved_Op (hex_encode pid) a (Suc (length (tp_approvals p)))) a t = Inr s'"
      by (auto simp: approve_proposal_def bindR_eq_Inr is_treasury_signer_def approval_count_def Let_def)
    note eff = log_operation_effect [OF this]
    show thesis
      by (rule counted [OF p(1-3) _ p(4) new q_def])
        (use False eff logged_cong [of "put_proposal s pid q" s] in \<open>simp_all add: is_expired_def put_proposal_def\<close>)
  qed
qed

lemma execute_effect:
  assumes "execute_proposal s pid t = Inr s'"
  obtains p b where "ty_proposals s pid = Some p" "tp_status p = Approved" "t \<le> tp_expires_at p"
    "ty_balances s (tp_asset p) = Some b" "tp_amount p \<le> tb_balance b"
    "logged s (Withdrawal_Op (tp_asset p) (tp_amount p) (tp_recipient p) (hex_encode pid)) s'"
    "ty_proposals s' = (ty_proposals s)(pid \<mapsto> p\<lparr>tp_status := Executed, tp_executed_at := Some t\<rparr>)"
    "ty_balances s' = (ty_balances s)(tp_asset p \<mapsto> b\<lparr>tb_balance := tb_balance b - tp_amount p,
             tb_total_withdrawn := u_sat_add 128 (tb_total_withdrawn b) (tp_amount p), tb_last_withdrawal_at := t\<rparr>)"
    "ty_signers s' = ty_signers s" "ty_threshold s' = ty_threshold s" "ty_emergency_threshold s' = ty_emergency_threshold s"
    "case ty_spending_limits s (tp_asset p) of None \<Rightarrow> ty_spending_limits s' = ty_spending_limits s
     | Some l \<Rightarrow> (\<exists>l1 r. remaining l t = Inr r \<and> tp_amount p \<le> r \<and> record_spend l (tp_amount p) t = Inr l1
         \<and> ty_spending_limits s' = (ty_spending_limits s)(tp_asset p \<mapsto> l1))"
proof -
  from assms obtain p b where p: "ty_proposals s pid = Some p" "tp_status p = Approved" "t \<le> tp_expires_at p"
    "ty_balances s (tp_asset p) = Some b" "tp_amount p \<le> tb_balance b" "check_spending_limit s (tp_asset p) (tp_amount p) t = Inr True"
    by (auto simp: execute_proposal_def bindR_eq_Inr ensure_eq_Inr ok_or_eq_Inr treasury_balance_of_def is_expired_def not_less Let_def)
  show thesis
    by (rule that [OF p(1-5)])
      (use assms p in \<open>auto simp: execute_proposal_def bindR_eq_Inr log_operation_eq_Inr logged_def is_expired_def treasury_balance_of_def
        put_proposal_def check_spending_limit_def Let_def ensure_eq_Inr split: option.splits\<close>)
qed

lemma reject_effect:
  assumes "reject_proposal s pid why t = Inr s'"
  obtains p where "ty_proposals s pid = Some p" "tp_status p \<noteq> Executed"
    "logged s (ProposalRejected_Op (hex_encode pid) why) s'"
    "ty_proposals s' = (ty_proposals s)(pid \<mapsto> p\<lparr>tp_status := Rejected\<rparr>)"
    "ty_balances s' = ty_balances s" "ty_signers s' = ty_signers s" "ty_threshold s' = ty_threshold s"
    "ty_emergency_threshold s' = ty_emergency_threshold s" "ty_spending_limits s' = ty_spending_limits s"
  using assms
  by (auto simp: reject_proposal_def bindR_eq_Inr ensure_eq_Inr ok_or_eq_Inr log_operation_eq_Inr logged_def put_proposal_def)

section \<open>Invariants\<close>

definition logged_in :: "audit_entry list \<Rightarrow> string \<Rightarrow> nat" where
  "logged_in log asset = sum_list (map (\<lambda>x. case au_operation x of Deposit_Op a n _ \<Rightarrow> if a = asset then n else 0 | _ \<Rightarrow> 0) log)"

definition logged_out :: "audit_entry list \<Rightarrow> string \<Rightarrow> nat" where
  "logged_out log asset = sum_list (map (\<lambda>x. case au_operation x of Withdrawal_Op a n _ _ \<Rightarrow> if a = asset then n else 0 | _ \<Rightarrow> 0) log)"

definition trail_ok :: "treasury \<Rightarrow> bool" where
  "trail_ok s \<longleftrightarrow> verify_from None (ty_audit_log s) \<and> map au_seq (ty_audit_log s) = [1..<Suc (length (ty_audit_log s))]
     \<and> ty_seq s = length (ty_audit_log s)"

definition books_ok :: "treasury \<Rightarrow> bool" where
  "books_ok s \<longleftrightarrow> (\<forall>a. logged_in (ty_audit_log s) a = treasury_balance_of s a + logged_out (ty_audit_log s) a)"

definition proposal_ok :: "operation_id \<Rightarrow> treasury_proposal \<Rightarrow> bool" where
  "proposal_ok pid p \<longleftrightarrow> tp_id p = pid \<and> pid = proposal_id (tp_description p) (tp_proposer p) (tp_amount p) (tp_created_at p) \<and> distinct (tp_approvals p) \<and> tp_approvals p \<noteq> []
     \<and> (tp_status p = Approved \<or> tp_status p = Executed \<longrightarrow> max 2 (tp_required_approvals p) \<le> length (tp_approvals p))"

definition proposals_ok :: "treasury \<Rightarrow> bool" where
  "proposals_ok s \<longleftrightarrow> (\<forall>pid p. ty_proposals s pid = Some p \<longrightarrow> proposal_ok pid p)"

definition limits_ok :: "treasury \<Rightarrow> bool" where
  "limits_ok s \<longleftrightarrow> (\<forall>a l. ty_spending_limits s a = Some l \<longrightarrow> sl_spent_in_period l \<le> sl_max_per_period l)"

definition quorum_ok :: "treasury \<Rightarrow> bool" where
  "quorum_ok s \<longleftrightarrow> distinct (ty_signers s) \<and> 0 < ty_threshold s \<and> ty_threshold s \<le> length (ty_signers s)
     \<and> 0 < ty_emergency_threshold s"

interpretation treasury_log: hash_chain au_entry_hash
    "\<lambda>x prev. simple_hash (hash_input (au_seq x) (au_timestamp x) (au_actor x) prev)" verify_from
  by unfold_locales simp_all

lemma trail_ok_logged:
  assumes "trail_ok s" and "logged s op s'"
  shows "trail_ok s'"
proof -
  obtain t actor where l: "ty_seq s' = ty_seq s + 1" "ty_audit_log s' = ty_audit_log s @
     [\<lparr>au_seq = ty_seq s + 1, au_timestamp = t, au_operation = op, au_actor = actor,
       au_entry_hash = simple_hash (hash_input (ty_seq s + 1) t actor (last_hash (ty_audit_log s)))\<rparr>]"
    using assms(2) by (auto simp: logged_def)
  have "verify_from None (ty_audit_log s')" using assms(1)
    by (cases "ty_audit_log s = []") (simp_all add: trail_ok_def l treasury_log.verify_snoc last_hash_def)
  with assms(1) show ?thesis by (simp add: trail_ok_def l)
qed

text \<open>Every call adds at most one entry to the log, and the entry tells how the balances move.\<close>

fun moves :: "audit_operation \<Rightarrow> (string \<Rightarrow> nat) \<Rightarrow> (string \<Rightarrow> nat) \<Rightarrow> bool" where
  "moves (Deposit_Op a n _) f g \<longleftrightarrow> g = f(a := f a + n)"
| "moves (Withdrawal_Op a n _ _) f g \<longleftrightarrow> n \<le> f a \<and> g = f(a := f a - n)"
| "moves _ f g \<longleftrightarrow> g = f"

lemma books_ok_logged:
  assumes "books_ok s" and "logged s op s'" and "moves op (treasury_balance_of s) (treasury_balance_of s')"
  shows "books_ok s'"
  unfolding books_ok_def
proof
  fix a
  obtain t actor h where l: "ty_audit_log s' = ty_audit_log s @
     [\<lparr>au_seq = ty_seq s + 1, au_timestamp = t, au_operation = op, au_actor = actor, au_entry_hash = h\<rparr>]"
    using assms(2) by (auto simp: logged_def)
  have "logged_in (ty_audit_log s) a = treasury_balance_of s a + logged_out (ty_audit_log s) a"
    using assms(1) by (simp add: books_ok_def)
  with assms(3) show "logged_in (ty_audit_log s') a = treasury_balance_of s' a + logged_out (ty_audit_log s') a"
    by (cases op) (auto simp: l logged_in_def logged_out_def)
qed

lemma balance_of_cong: "ty_balances s' = ty_balances s \<Longrightarrow> treasury_balance_of s' = treasury_balance_of s"
  by (rule ext) (simp add: treasury_balance_of_def)

lemma exec_log:
  assumes "treasury_exec s c = Inr s'"
  shows "(ty_audit_log s' = ty_audit_log s \<and> ty_seq s' = ty_seq s \<and> treasury_balance_of s' = treasury_balance_of s)
    \<or> (\<exists>op. logged s op s' \<and> moves op (treasury_balance_of s) (treasury_balance_of s'))"
proof (cases c)
  case (Deposit asset x a t)
  with assms have d: "deposit s asset x a t = Inr s'" by simp
  have "treasury_balance_of s' = (treasury_balance_of s)(asset := treasury_balance_of s asset + x)"
    by (rule ext) (simp add: treasury_balance_of_def deposit_effect(4) [OF d] balance_entry_def asset_balance_default_def split: option.split)
  with deposit_effect(1) [OF d] show ?thesis by (intro disjI2 exI [of _ "Deposit_Op asset x a"]) simp
next
  case (Propose a ty asset x r desc t ttl)
  with assms obtain pid where "create_proposal s a ty asset x r desc t ttl = Inr (pid, s')" by (auto simp: bindR_eq_Inr)
  from propose_effect(1,7) [OF this] show ?thesis
    by (intro disjI2 exI [of _ "ProposalCreated_Op (hex_encode pid) ty"]) (simp add: balance_of_cong [of s' s])
next
  case (Approve pid a t)
  with assms obtain r where "approve_proposal s pid a t = Inr (r, s')" by (auto simp: bindR_eq_Inr)
  then show ?thesis
  proof (cases rule: approve_effect)
    case (late p)
    then show ?thesis by (simp add: put_proposal_def treasury_balance_of_def [abs_def])
  next
    case (counted p q)
    then show ?thesis by (intro disjI2 exI [of _ "ProposalApproved_Op (hex_encode pid) a (Suc (length (tp_approvals p)))"])
        (simp add: balance_of_cong [of s' s])
  qed
next
  case (Execute pid t)
  with assms have "execute_proposal s pid t = Inr s'" by simp
  then show ?thesis
  proof (rule execute_effect)
    fix p b assume b: "ty_balances s (tp_asset p) = Some b" "tp_amount p \<le> tb_balance b"
      and l: "logged s (Withdrawal_Op (tp_asset p) (tp_amount p) (tp_recipient p) (hex_encode pid)) s'"
      and s': "ty_balances s' = (ty_balances s)(tp_asset p \<mapsto> b\<lparr>tb_balance := tb_balance b - tp_amount p,
             tb_total_withdrawn := u_sat_add 128 (tb_total_withdrawn b) (tp_amount p), tb_last_withdrawal_at := t\<rparr>)"
    have "treasury_balance_of s' = (treasury_balance_of s)(tp_asset p := treasury_balance_of s (tp_asset p) - tp_amount p)"
      by (rule ext) (simp add: treasury_balance_of_def s' b)
    with l b show ?thesis
      by (intro disjI2 exI [of _ "Withdrawal_Op (tp_asset p) (tp_amount p) (tp_recipient p) (hex_encode pid)"])
        (simp add: treasury_balance_of_def)
  qed
next
  case (Reject pid why t)
  with assms have "reject_proposal s pid why t = Inr s'" by simp
  then show ?thesis
    by (rule reject_effect) (intro disjI2 exI [of _ "ProposalRejected_Op (hex_encode pid) why"], simp add: balance_of_cong [of s' s])
next
  case (Set_Threshold n t)
  with assms show ?thesis
    by (intro disjI2 exI [of _ "MultiSigUpdated_Op (ty_threshold s) n"])
      (auto simp: update_threshold_def bindR_eq_Inr ensure_eq_Inr log_operation_eq_Inr logged_def intro!: balance_of_cong)
next
  case (Set_Limit asset m d t)
  with assms show ?thesis
    by (intro disjI2 exI [of _ "SpendingLimitSet_Op asset m"])
      (auto simp: set_spending_limit_def log_operation_eq_Inr logged_def intro!: balance_of_cong)
qed (use assms in \<open>auto simp: add_signer_def remove_signer_def bindR_eq_Inr intro!: balance_of_cong\<close>)

lemma log_exec:
  assumes "trail_ok s \<and> books_ok s" and "treasury_exec s c = Inr s'"
  shows "trail_ok s' \<and> books_ok s'"
  using exec_log [OF assms(2)] assms(1) trail_ok_logged [of s _ s'] books_ok_logged [of s _ s']
  by (auto simp: trail_ok_def books_ok_def)

lemma proposals_ok_put:
  assumes "proposals_ok s" and "proposal_ok pid p" and "ty_proposals s' = (ty_proposals s)(pid \<mapsto> p)"
  shows "proposals_ok s'"
  using assms by (simp add: proposals_ok_def)

lemma proposals_ok_same: "proposals_ok s \<Longrightarrow> ty_proposals s' = ty_proposals s \<Longrightarrow> proposals_ok s'"
  by (simp add: proposals_ok_def)

lemma proposals_exec:
  assumes ok: "proposals_ok s" and "treasury_exec s c = Inr s'"
  shows "proposals_ok s'"
proof (cases c)
  case (Propose a ty asset x r desc t ttl)
  with assms obtain pid where "create_proposal s a ty asset x r desc t ttl = Inr (pid, s')" by (auto simp: bindR_eq_Inr)
  from propose_effect(2,6) [OF this] show ?thesis by (intro proposals_ok_put [OF ok]) (auto simp: proposal_ok_def)
next
  case (Approve pid a t)
  with assms obtain r where "approve_proposal s pid a t = Inr (r, s')" by (auto simp: bindR_eq_Inr)
  then show ?thesis
  proof (cases rule: approve_effect)
    case (late p)
    with ok show ?thesis
      by (intro proposals_ok_put [OF ok, of pid "p\<lparr>tp_status := Rejected\<rparr>"]) (auto simp: proposals_ok_def proposal_ok_def put_proposal_def)
  next
    case (counted p q)
    have p: "proposal_ok pid p" using ok counted(1) by (simp add: proposals_ok_def)
    then have "1 \<le> length (tp_approvals p)" by (cases "tp_approvals p") (auto simp: proposal_ok_def)
    with p counted(2,6,7) have "proposal_ok pid q" by (auto simp: proposal_ok_def)
    with counted(9) show ?thesis by (rule proposals_ok_put [OF ok, rotated])
  qed
next
  case (Execute pid t)
  with assms have "execute_proposal s pid t = Inr s'" by simp
  then show ?thesis
  proof (rule execute_effect)
    fix p assume p: "ty_proposals s pid = Some p" "tp_status p = Approved"
      and s': "ty_proposals s' = (ty_proposals s)(pid \<mapsto> p\<lparr>tp_status := Executed, tp_executed_at := Some t\<rparr>)"
    have "proposal_ok pid p" using ok p(1) by (simp add: proposals_ok_def)
    then show ?thesis using p(2) by (intro proposals_ok_put [OF ok _ s']) (simp add: proposal_ok_def)
  qed
next
  case (Reject pid why t)
  with assms have "reject_proposal s pid why t = Inr s'" by simp
  then show ?thesis
  proof (rule reject_effect)
    fix p assume p: "ty_proposals s pid = Some p" and s': "ty_proposals s' = (ty_proposals s)(pid \<mapsto> p\<lparr>tp_status := Rejected\<rparr>)"
    have "proposal_ok pid p" using ok p(1) by (simp add: proposals_ok_def)
    then show ?thesis by (intro proposals_ok_put [OF ok _ s']) (simp add: proposal_ok_def)
  qed
next
  case (Deposit asset x a t)
  with assms show ?thesis by (auto intro: proposals_ok_same deposit_effect(5))
qed (use assms in \<open>auto simp: add_signer_def remove_signer_def update_threshold_def set_spending_limit_def log_operation_eq_Inr
    bindR_eq_Inr intro!: proposals_ok_same [OF ok]\<close>)

lemma record_spend_ok:
  assumes "sl_spent_in_period l \<le> sl_max_per_period l" and "remaining l t = Inr r" and "x \<le> r" and "record_spend l x t = Inr l1"
  shows "sl_spent_in_period l1 \<le> sl_max_per_period l1"
  using assms by (auto simp: remaining_def record_spend_def bindR_eq_Inr u_add_eq_Inr u_sat_add_def split: if_splits)

lemma limits_exec:
  assumes ok: "limits_ok s" and "treasury_exec s c = Inr s'"
  shows "limits_ok s'"
proof (cases c)
  case (Execute pid t)
  with assms have "execute_proposal s pid t = Inr s'" by simp
  then show ?thesis
  proof (rule execute_effect)
    fix p assume c: "case ty_spending_limits s (tp_asset p) of None \<Rightarrow> ty_spending_limits s' = ty_spending_limits s
     | Some l \<Rightarrow> (\<exists>l1 r. remaining l t = Inr r \<and> tp_amount p \<le> r \<and> record_spend l (tp_amount p) t = Inr l1
         \<and> ty_spending_limits s' = (ty_spending_limits s)(tp_asset p \<mapsto> l1))"
    show ?thesis
    proof (cases "ty_spending_limits s (tp_asset p)")
      case (Some l)
      with c obtain l1 r where l1: "remaining l t = Inr r" "tp_amount p \<le> r" "record_spend l (tp_amount p) t = Inr l1"
        "ty_spending_limits s' = (ty_spending_limits s)(tp_asset p \<mapsto> l1)" by auto
      have "sl_spent_in_period l \<le> sl_max_per_period l" using ok Some by (simp add: limits_ok_def)
      from record_spend_ok [OF this l1(1-3)] ok show ?thesis by (simp add: limits_ok_def l1(4))
    qed (use c ok in \<open>simp add: limits_ok_def\<close>)
  qed
next
  case (Propose a ty asset x r desc t ttl)
  with assms show ?thesis by (auto simp: bindR_eq_Inr limits_ok_def dest!: propose_effect(11))
next
  case (Approve pid a t)
  with assms obtain r where "approve_proposal s pid a t = Inr (r, s')" by (auto simp: bindR_eq_Inr)
  then show ?thesis by (cases rule: approve_effect) (use ok in \<open>simp_all add: limits_ok_def put_proposal_def\<close>)
next
  case (Reject pid why t)
  with assms have "reject_proposal s pid why t = Inr s'" by simp
  then show ?thesis by (rule reject_effect) (use ok in \<open>simp add: limits_ok_def\<close>)
next
  case (Deposit asset x a t)
  with assms show ?thesis by (auto simp: limits_ok_def dest: deposit_effect(9))
qed (use assms in \<open>auto simp: add_signer_def remove_signer_def update_threshold_def set_spending_limit_def log_operation_eq_Inr
    bindR_eq_Inr limits_ok_def\<close>)

lemma length_filter_distinct: "distinct xs \<Longrightarrow> length xs \<le> Suc (length (filter (\<lambda>x. x \<noteq> a) xs))"
proof (induction xs)
  case (Cons x xs)
  moreover have "filter (\<lambda>x. x \<noteq> a) xs = xs" if "a \<notin> set xs" by (rule filter_True) (use that in auto)
  ultimately show ?case by (cases "x = a") auto
qed simp

lemma quorum_exec:
  assumes ok: "quorum_ok s" and "treasury_exec s c = Inr s'"
  shows "quorum_ok s'"
proof (cases c)
  case (Remove_Signer a)
  with assms length_filter_distinct [of "ty_signers s" a] show ?thesis
    by (auto simp: remove_signer_def bindR_eq_Inr ensure_eq_Inr quorum_ok_def)
next
  case (Execute pid t)
  with assms have "execute_proposal s pid t = Inr s'" by simp
  then show ?thesis by (rule execute_effect) (use ok in \<open>simp add: quorum_ok_def\<close>)
next
  case (Propose a ty asset x r desc t ttl)
  with assms obtain pid where "create_proposal s a ty asset x r desc t ttl = Inr (pid, s')" by (auto simp: bindR_eq_Inr)
  from propose_effect(8-10) [OF this] ok show ?thesis by (simp add: quorum_ok_def)
next
  case (Approve pid a t)
  with assms obtain r where "approve_proposal s pid a t = Inr (r, s')" by (auto simp: bindR_eq_Inr)
  then show ?thesis by (cases rule: approve_effect) (use ok in \<open>simp_all add: quorum_ok_def put_proposal_def\<close>)
next
  case (Reject pid why t)
  with assms have "reject_proposal s pid why t = Inr s'" by simp
  then show ?thesis by (rule reject_effect) (use ok in \<open>simp add: quorum_ok_def\<close>)
next
  case (Deposit asset x a t)
  with assms have "deposit s asset x a t = Inr s'" by simp
  from deposit_effect(6-8) [OF this] ok show ?thesis by (simp add: quorum_ok_def)
qed (use assms in \<open>auto simp: add_signer_def update_threshold_def set_spending_limit_def log_operation_eq_Inr
    bindR_eq_Inr ensure_eq_Inr quorum_ok_def\<close>)

definition treasury_ok :: "treasury \<Rightarrow> bool" where
  "treasury_ok s \<longleftrightarrow> (trail_ok s \<and> books_ok s) \<and> proposals_ok s \<and> limits_ok s \<and> quorum_ok s"

interpretation treasury_machine: machine_invariant treasury_init treasury_step treasury_ok
proof
  show "treasury_ok s" if "treasury_init s" for s
    using that by (auto simp: treasury_init_def treasury_new_def bindR_eq_Inr ensure_eq_Inr treasury_ok_def trail_ok_def books_ok_def
        logged_in_def logged_out_def treasury_balance_of_def proposals_ok_def limits_ok_def quorum_ok_def)
  show "treasury_ok t" if "treasury_ok s" "treasury_step s t" for s t
    using that by (unfold treasury_ok_def, elim treasury_stepE) (metis log_exec proposals_exec limits_exec quorum_exec)
qed

section \<open>Where approvals come from, and what follows an execution\<close>

text \<open>What a proposal says, without what its approvals and its execution write into it.\<close>

definition terms_of :: "treasury_proposal \<Rightarrow> treasury_proposal" where
  "terms_of p = p\<lparr>tp_approvals := [], tp_status := Pending, tp_executed_at := None\<rparr>"

lemma terms_of_simps [simp]:
  "terms_of (p\<lparr>tp_status := x\<rparr>) = terms_of p" "terms_of (p\<lparr>tp_status := x, tp_executed_at := y\<rparr>) = terms_of p"
  "terms_of (p\<lparr>tp_approvals := as\<rparr>) = terms_of p"
  by (simp_all add: terms_of_def)

text \<open>
  In an earlier call \<open>a\<close> was a signer and either approved the proposal with exactly these terms or
  created it, which counts as its first approval.
\<close>

definition consents :: "treasury_proposal \<Rightarrow> string \<Rightarrow> treasury \<Rightarrow> treasury \<Rightarrow> bool" where
  "consents p a s0 s1 \<longleftrightarrow> a \<in> set (ty_signers s0) \<and> (\<exists>q. get_proposal s1 (tp_id p) = Some q \<and> terms_of q = terms_of p)
     \<and> ((\<exists>n t. approve_proposal s0 (tp_id p) a t = Inr (Inr n, s1))
       \<or> (\<exists>ty asset x r d t ttl. create_proposal s0 a ty asset x r d t ttl = Inr (tp_id p, s1)))"

definition approved_as_signer :: "treasury \<Rightarrow> treasury_proposal \<Rightarrow> string \<Rightarrow> bool" where
  "approved_as_signer s p a \<longleftrightarrow> (\<exists>s0 s1. treasury_reachable s0 \<and> consents p a s0 s1 \<and> treasury_step\<^sup>*\<^sup>* s1 s)"

definition has_approval :: "treasury_proposal \<Rightarrow> string \<Rightarrow> treasury \<Rightarrow> bool" where
  "has_approval p a s \<longleftrightarrow> (\<exists>q. ty_proposals s (tp_id p) = Some q \<and> terms_of q = terms_of p \<and> a \<in> set (tp_approvals q))"

text \<open>How a call changes the proposals.\<close>

lemma exec_proposals:
  assumes "treasury_exec s c = Inr s'"
  obtains (same) "ty_proposals s' = ty_proposals s"
  | (closed) pid p x y where "ty_proposals s pid = Some p"
      "ty_proposals s' = (ty_proposals s)(pid \<mapsto> p\<lparr>tp_status := x, tp_executed_at := y\<rparr>)" "tp_status p = Executed \<longrightarrow> x = Executed"
  | (approved) pid p a n t x where "approve_proposal s pid a t = Inr (Inr n, s')" "a \<in> set (ty_signers s)" "ty_proposals s pid = Some p"
      "tp_status p \<noteq> Executed" "ty_proposals s' = (ty_proposals s)(pid \<mapsto> p\<lparr>tp_approvals := tp_approvals p @ [a], tp_status := x\<rparr>)"
  | (created) a ty asset x r d t ttl pid q where "create_proposal s a ty asset x r d t ttl = Inr (pid, s')" "a \<in> set (ty_signers s)"
      "tp_approvals q = [a]" "ty_proposals s' = (ty_proposals s)(pid \<mapsto> q)"
proof (cases c)
  case (Propose a ty asset x r d t ttl)
  with assms obtain pid where c: "create_proposal s a ty asset x r d t ttl = Inr (pid, s')" by (auto simp: bindR_eq_Inr)
  show thesis by (rule created [OF c propose_effect(3) [OF c] _ propose_effect(6) [OF c]]) simp
next
  case (Approve pid a t)
  with assms obtain r where r: "approve_proposal s pid a t = Inr (r, s')" by (auto simp: bindR_eq_Inr)
  then show thesis
  proof (cases rule: approve_effect)
    case (late p)
    show thesis by (rule closed [where pid = pid and p = p and x = Rejected and y = "tp_executed_at p"]) (use late in \<open>simp_all add: put_proposal_def\<close>)
  next
    case (counted p q)
    have "r \<noteq> Inl e" for e using r counted by (auto simp: approve_proposal_def bindR_eq_Inr is_expired_def ensure_eq_Inr Let_def)
    then obtain n where "r = Inr n" by (cases r) auto
    with r counted approved show thesis by blast
  qed
next
  case (Execute pid t)
  with assms have "execute_proposal s pid t = Inr s'" by simp
  then show thesis by (rule execute_effect) (use closed in blast)
next
  case (Reject pid why t)
  with assms have "reject_proposal s pid why t = Inr s'" by simp
  then show thesis
  proof (rule reject_effect)
    fix p assume "ty_proposals s pid = Some p" "tp_status p \<noteq> Executed"
      "ty_proposals s' = (ty_proposals s)(pid \<mapsto> p\<lparr>tp_status := Rejected\<rparr>)"
    then show thesis using closed [where pid = pid and p = p and x = Rejected and y = "tp_executed_at p"] by simp
  qed
next
  case (Deposit asset x a t)
  with assms show thesis using same deposit_effect(5) by auto
qed (use assms same in \<open>auto simp: add_signer_def remove_signer_def update_threshold_def set_spending_limit_def
    log_operation_eq_Inr bindR_eq_Inr\<close>)

lemma approval_step:
  assumes "treasury_step s t" and "has_approval p a t"
  shows "has_approval p a s \<or> consents p a s t"
proof -
  from assms(2) obtain q where q: "ty_proposals t (tp_id p) = Some q" "terms_of q = terms_of p" "a \<in> set (tp_approvals q)"
    by (auto simp: has_approval_def)
  from assms(1) obtain c where "treasury_exec s c = Inr t" by (auto elim: treasury_stepE)
  then show ?thesis
  proof (cases rule: exec_proposals)
    case same
    with q show ?thesis by (auto simp: has_approval_def)
  next
    case (closed pid p' x y)
    with q show ?thesis by (cases "pid = tp_id p") (auto simp: has_approval_def)
  next
    case (approved pid p' b n u x)
    show ?thesis
    proof (cases "pid = tp_id p \<and> b = a")
      case True
      with approved q show ?thesis by (auto simp: consents_def get_proposal_def)
    next
      case False
      with approved q show ?thesis by (cases "pid = tp_id p") (auto simp: has_approval_def)
    qed
  next
    case (created b ty asset x r d u ttl pid q')
    with q show ?thesis by (cases "pid = tp_id p") (auto simp: has_approval_def consents_def get_proposal_def)
  qed
qed

lemma approvals_are_of_signers:
  assumes "treasury_reachable s" and "ty_proposals s (tp_id p) = Some p" and "a \<in> set (tp_approvals p)"
  shows "approved_as_signer s p a"
  unfolding approved_as_signer_def
proof (rule reachable_origin [OF assms(1)])
  show "has_approval p a s" using assms(2,3) by (auto simp: has_approval_def)
  show "\<not> has_approval p a s" if "treasury_init s" for s
    using that by (auto simp: treasury_init_def treasury_new_def bindR_eq_Inr has_approval_def)
qed (use approval_step in blast)

text \<open>Between \<open>s\<close> and \<open>t\<close> a new proposal was created under the id.\<close>

definition created_between :: "treasury \<Rightarrow> treasury \<Rightarrow> operation_id \<Rightarrow> bool" where
  "created_between s t pid \<longleftrightarrow> (\<exists>s0 s1 a ty asset x r d u ttl. treasury_step\<^sup>*\<^sup>* s s0
     \<and> create_proposal s0 a ty asset x r d u ttl = Inr (pid, s1) \<and> treasury_step\<^sup>*\<^sup>* s1 t)"

lemma executed_stays:
  assumes "treasury_step\<^sup>*\<^sup>* s t" and "ty_proposals s pid = Some p" and "tp_status p = Executed"
  shows "(\<exists>q. ty_proposals t pid = Some q \<and> tp_status q = Executed) \<or> created_between s t pid"
  using assms(1)
proof (induction rule: rtranclp_induct)
  case (step t u)
  show ?case
  proof (cases "created_between s t pid")
    case True
    then show ?thesis using step.hyps(2) unfolding created_between_def by (meson rtranclp.rtrancl_into_rtrancl)
  next
    case False
    with step.IH obtain q where q: "ty_proposals t pid = Some q" "tp_status q = Executed" by blast
    from step.hyps(2) obtain c where "treasury_exec t c = Inr u" by (auto elim: treasury_stepE)
    then show ?thesis
    proof (cases rule: exec_proposals)
      case same
      with q show ?thesis by simp
    next
      case (closed pid' p' x y)
      with q show ?thesis by (cases "pid' = pid") auto
    next
      case (approved pid' p' b n w x)
      with q show ?thesis by (cases "pid' = pid") auto
    next
      case (created b ty asset x r d w ttl pid' q')
      show ?thesis
      proof (cases "pid' = pid")
        case True
        with created(1) step.hyps(1) have "created_between s u pid"
          unfolding created_between_def by (meson rtranclp.rtrancl_refl)
        then show ?thesis ..
      next
        case False
        with created q show ?thesis by auto
      qed
    qed
  qed
qed (use assms(2,3) in blast)

section \<open>Properties\<close>

text \<open>
  C29: the audit log is complete and consistent. It verifies, its entries are numbered without gaps, and
  for every asset what was logged in is the balance plus what was logged out.
\<close>

theorem audit_reconstructs_balances:
  assumes "treasury_reachable s"
  shows "verify_audit_trail s \<and> map au_seq (ty_audit_log s) = [1..<Suc (length (ty_audit_log s))]
    \<and> logged_in (ty_audit_log s) a = treasury_balance_of s a + logged_out (ty_audit_log s) a"
  using treasury_machine.inv_reachable [OF assms] by (simp add: treasury_ok_def trail_ok_def books_ok_def verify_audit_trail_def)

text \<open>
  The log does not protect what it records: the hashes do not cover the operations, so a log in
  which every operation is replaced by any other verifies exactly when the original does.
\<close>

theorem audit_ignores_operations:
  "verify_audit_trail (s\<lparr>ty_audit_log := map (\<lambda>x. x\<lparr>au_operation := f x\<rparr>) (ty_audit_log s)\<rparr>) = verify_audit_trail s"
  unfolding verify_audit_trail_def using treasury_log.verify_map [of "\<lambda>x. x\<lparr>au_operation := f x\<rparr>"] by simp

text \<open>
  C27: a withdrawal has the approvals of as many different addresses as it needs, and of two in any case;
  each of them approved this very proposal, or created it, in an earlier call and was a signer then. It takes
  exactly the proposed amount from the proposed asset and from no other. The proposal is not executed again in
  any later state, unless a new proposal was created under its id in between.
\<close>

theorem withdrawal_needs_quorum:
  assumes run: "treasury_reachable s" and ex: "execute_proposal s pid t = Inr s'"
  shows "\<exists>p. get_proposal s pid = Some p \<and> distinct (tp_approvals p) \<and> max 2 (tp_required_approvals p) \<le> approval_count p
    \<and> (\<forall>a \<in> set (tp_approvals p). approved_as_signer s p a)
    \<and> t \<le> tp_expires_at p \<and> tp_amount p \<le> treasury_balance_of s (tp_asset p)
    \<and> treasury_balance_of s' = (treasury_balance_of s)(tp_asset p := treasury_balance_of s (tp_asset p) - tp_amount p)
    \<and> (\<forall>s2 t2 s3. treasury_step\<^sup>*\<^sup>* s' s2 \<and> execute_proposal s2 pid t2 = Inr s3 \<longrightarrow> created_between s' s2 pid)"
  using ex
proof (rule execute_effect)
  fix p b assume p: "ty_proposals s pid = Some p" "tp_status p = Approved" "t \<le> tp_expires_at p"
    and b: "ty_balances s (tp_asset p) = Some b" "tp_amount p \<le> tb_balance b"
    and s': "ty_proposals s' = (ty_proposals s)(pid \<mapsto> p\<lparr>tp_status := Executed, tp_executed_at := Some t\<rparr>)"
      "ty_balances s' = (ty_balances s)(tp_asset p \<mapsto> b\<lparr>tb_balance := tb_balance b - tp_amount p,
             tb_total_withdrawn := u_sat_add 128 (tb_total_withdrawn b) (tp_amount p), tb_last_withdrawal_at := t\<rparr>)"
  have ok: "proposal_ok pid p" using treasury_machine.inv_reachable [OF run] p(1) by (simp add: treasury_ok_def proposals_ok_def)
  moreover have "approved_as_signer s p a" if "a \<in> set (tp_approvals p)" for a
    using ok p(1) by (intro approvals_are_of_signers [OF run _ that]) (simp add: proposal_ok_def)
  moreover have "treasury_balance_of s' = (treasury_balance_of s)(tp_asset p := treasury_balance_of s (tp_asset p) - tp_amount p)"
    by (rule ext) (simp add: treasury_balance_of_def s' b)
  moreover have "created_between s' s2 pid" if "treasury_step\<^sup>*\<^sup>* s' s2" "execute_proposal s2 pid t2 = Inr s3" for s2 t2 s3
  proof -
    have "\<not> (ty_proposals s2 pid = Some q \<and> tp_status q = Executed)" for q
      using that(2) by (rule execute_effect) auto
    with executed_stays [OF that(1), of pid] show ?thesis by (simp add: s')
  qed
  ultimately show ?thesis using p b
    by (intro exI [of _ p]) (auto simp: get_proposal_def approval_count_def proposal_ok_def treasury_balance_of_def)
qed

text \<open>
  C30: spending stays within the limit, a 128-bit amount per period. A withdrawal that comes after the end of
  the current period opens a new one at its own time, with only its own amount spent; any other leaves the
  period as it is and adds its amount to what the period has spent. Either way the period has then spent at
  most the limit, and the limit and the length of the periods are the same as before.
\<close>

theorem spending_within_limit:
  assumes run: "treasury_reachable s" and ex: "execute_proposal s pid t = Inr s'"
    and p: "get_proposal s pid = Some p" and l: "ty_spending_limits s (tp_asset p) = Some l"
    and small: "sl_max_per_period l < 2 ^ 128"
  shows "\<exists>l'. ty_spending_limits s' (tp_asset p) = Some l' \<and> sl_max_per_period l' = sl_max_per_period l
    \<and> sl_period_duration_secs l' = sl_period_duration_secs l \<and> sl_spent_in_period l' \<le> sl_max_per_period l
    \<and> (if sl_period_start l + sl_period_duration_secs l < t
        then sl_period_start l' = t \<and> sl_spent_in_period l' = tp_amount p
        else sl_period_start l' = sl_period_start l \<and> sl_spent_in_period l' = sl_spent_in_period l + tp_amount p)"
  using ex
proof (rule execute_effect)
  fix q assume q: "ty_proposals s pid = Some q"
    and c: "case ty_spending_limits s (tp_asset q) of None \<Rightarrow> ty_spending_limits s' = ty_spending_limits s
     | Some l \<Rightarrow> (\<exists>l1 r. remaining l t = Inr r \<and> tp_amount q \<le> r \<and> record_spend l (tp_amount q) t = Inr l1
         \<and> ty_spending_limits s' = (ty_spending_limits s)(tp_asset q \<mapsto> l1))"
  have "q = p" using p q by (simp add: get_proposal_def)
  with c l obtain l1 r where 1: "remaining l t = Inr r" "tp_amount p \<le> r" "record_spend l (tp_amount p) t = Inr l1"
    "ty_spending_limits s' (tp_asset p) = Some l1" by auto
  have "sl_spent_in_period l \<le> sl_max_per_period l"
    using treasury_machine.inv_reachable [OF run] l by (simp add: treasury_ok_def limits_ok_def)
  with 1 small show ?thesis
    by (auto simp: remaining_def record_spend_def bindR_eq_Inr u_add_eq_Inr u_sat_add_def split: if_splits)
qed

text \<open>
  The threshold can always be met by the signers there are, and is never zero.
\<close>

theorem threshold_within_signers:
  assumes "treasury_reachable s"
  shows "distinct (ty_signers s) \<and> 0 < get_threshold s \<and> get_threshold s \<le> signer_count s"
  using treasury_machine.inv_reachable [OF assms] by (simp add: treasury_ok_def quorum_ok_def get_threshold_def signer_count_def)

lemma of_nat_mod_256: "x mod 256 = y mod 256 \<Longrightarrow> (of_nat x :: 8 word) = of_nat y"
  by (rule word_unat_eq_iff [THEN iffD2]) (simp add: unat_of_nat)

lemma digits_256: "(256 * a + b) mod 256 = b" "(256 * a + b) div 256 = a" if "b < 256" for a b :: nat
  using that by simp_all

lemma mod_65536: "x mod 65536 = 256 * (x div 256 mod 256) + x mod 256" for x :: nat
  using mod_mult2_eq [of x 256 256] by simp

lemma bytes_65536:
  fixes x y :: nat
  assumes "x mod 65536 = y mod 65536"
  shows "x mod 256 = y mod 256" "x div 256 mod 256 = y div 256 mod 256"
proof -
  have e: "256 * (x div 256 mod 256) + x mod 256 = 256 * (y div 256 mod 256) + y mod 256"
    by (rule trans [OF mod_65536 [symmetric] trans [OF assms mod_65536]])
  have l: "x mod 256 < 256" "y mod 256 < 256" by (rule mod_less_divisor, simp)+
  show "x mod 256 = y mod 256"
    by (rule trans [OF digits_256(1) [OF l(1), symmetric] trans [OF arg_cong [OF e, of "\<lambda>n. n mod 256"] digits_256(1) [OF l(2)]]])
  show "x div 256 mod 256 = y div 256 mod 256"
    by (rule trans [OF digits_256(2) [OF l(1), symmetric] trans [OF arg_cong [OF e, of "\<lambda>n. n div 256"] digits_256(2) [OF l(2)]]])
qed

lemma proposal_id_cong:
  assumes "x mod 65536 = y mod 65536" and "t mod 256 = u mod 256"
  shows "proposal_id desc a x t = proposal_id desc a y u"
proof -
  have "(of_nat x :: 8 word) = of_nat y" by (rule of_nat_mod_256 [OF bytes_65536(1) [OF assms(1)]])
  moreover have "(of_nat (x div 256) :: 8 word) = of_nat (y div 256)" by (rule of_nat_mod_256 [OF bytes_65536(2) [OF assms(1)]])
  moreover have "(of_nat t :: 8 word) = of_nat u" by (rule of_nat_mod_256 [OF assms(2)])
  ultimately show ?thesis unfolding proposal_id_def Let_def by (simp only:)
qed

text \<open>
  A new proposal replaces an old one, whatever its status: one by the same proposer with the same
  description, an amount that differs by a multiple of 65536 and a time that differs by a multiple of
  256 seconds has the same id, and the old record with its approvals is lost.
\<close>

theorem colliding_proposal_replaces:
  assumes run: "treasury_reachable s" and old: "get_proposal s pid = Some p"
    and amount: "x mod 65536 = tp_amount p mod 65536" and time: "t mod 256 = tp_created_at p mod 256"
    and new: "create_proposal s (tp_proposer p) ty asset x r (tp_description p) t ttl = Inr (pid', s')"
  shows "pid' = pid \<and> (\<exists>q. get_proposal s' pid = Some q \<and> tp_status q = Pending \<and> tp_approvals q = [tp_proposer p]
    \<and> tp_amount q = x \<and> tp_recipient q = r)"
proof -
  have "proposal_ok pid p" using treasury_machine.inv_reachable [OF run] old by (simp add: treasury_ok_def proposals_ok_def get_proposal_def)
  then have "pid = proposal_id (tp_description p) (tp_proposer p) (tp_amount p) (tp_created_at p)" by (simp add: proposal_ok_def)
  then have "pid' = pid" using propose_effect(2) [OF new] proposal_id_cong [OF amount time] by simp
  then show ?thesis by (simp add: get_proposal_def propose_effect(6) [OF new])
qed

text \<open>
  Lowering the threshold does not lower the emergency threshold: an emergency withdrawal can come to
  need more approvals than an ordinary one.
\<close>

theorem emergency_needs_more:
  "\<exists>s. treasury_reachable s \<and> get_threshold s < get_emergency_threshold s"
proof -
  obtain s where s: "treasury_new [''a'', ''b''] 2 2 = Inr s" "ty_signers s = [''a'', ''b'']" "ty_emergency_threshold s = 2" "ty_seq s = 0"
    by (simp add: treasury_new_def)
  obtain s' where s': "update_threshold s 1 0 = Inr s'" using s by (simp add: update_threshold_def log_operation_def u_add_def)
  have "treasury_init s" using s(1) unfolding treasury_init_def by (intro exI [of _ "[''a'', ''b'']"] exI [of _ 2]) simp
  then have "treasury_reachable s'"
    by (rule treasury_reach [OF reach_init, where c = "Set_Threshold 1 0"]) (use s' in simp)
  moreover have "get_threshold s' = 1 \<and> get_emergency_threshold s' = 2"
    using s' s by (auto simp: update_threshold_def bindR_eq_Inr log_operation_eq_Inr get_threshold_def get_emergency_threshold_def)
  ultimately show ?thesis by (intro exI [of _ s']) simp
qed

section \<open>Witnesses\<close>

definition demo_ty0 :: treasury where
  "demo_ty0 = \<lparr>ty_balances = Map.empty, ty_proposals = Map.empty, ty_signers = [''a'', ''b'', ''c''], ty_threshold = 2,
       ty_emergency_threshold = 1, ty_spending_limits = Map.empty, ty_audit_log = [], ty_seq = 0\<rparr>"

abbreviation demo_pid :: operation_id where
  "demo_pid \<equiv> proposal_id ''d'' ''a'' 300 4"

definition demo_ty :: "treasury_call list \<Rightarrow> treasury" where
  "demo_ty cs = (case foldR (\<lambda>c s. treasury_exec s c) cs demo_ty0 of Inr s \<Rightarrow> s)"

definition demo_calls :: "treasury_call list" where
  "demo_calls = [Deposit ''X'' 1000 ''f'' 1, Set_Limit ''X'' 500 100 2, Propose ''a'' Grant ''X'' 300 ''r'' ''d'' 4 50,
     Approve demo_pid ''b'' 5]"

lemma demo_ty0_reachable: "treasury_reachable demo_ty0"
  by (rule reach_init, unfold treasury_init_def, intro exI [of _ "[''a'', ''b'', ''c'']"] exI [of _ 2] exI [of _ 1])
    (simp add: treasury_new_def demo_ty0_def)

lemmas demo_treasury_defs = demo_calls_def demo_ty0_def deposit_def balance_entry_def asset_balance_default_def u_checked_add_def
  log_operation_def u_add_def set_spending_limit_def create_proposal_def is_treasury_signer_def treasury_balance_of_def Let_def
  put_proposal_def approve_proposal_def is_expired_def is_approved_def approval_count_def u_sat_add_def

lemma demo_run: "foldR (\<lambda>c s. treasury_exec s c) demo_calls demo_ty0 = Inr (demo_ty demo_calls)"
  by (simp add: demo_ty_def demo_treasury_defs)

lemma foldR_reachable: "foldR (\<lambda>c s. treasury_exec s c) cs s = Inr s' \<Longrightarrow> treasury_reachable s \<Longrightarrow> treasury_reachable s'"
  by (induction cs arbitrary: s) (auto simp: bindR_eq_Inr intro: treasury_reach)

lemma demo_ty_reachable: "treasury_reachable (demo_ty demo_calls)"
  by (rule foldR_reachable [OF demo_run demo_ty0_reachable])

lemma demo_ty_fields:
  "get_proposal (demo_ty demo_calls) demo_pid = Some \<lparr>tp_id = demo_pid, tp_proposal_type = Grant, tp_proposer = ''a'', tp_asset = ''X'',
     tp_amount = 300, tp_recipient = ''r'', tp_description = ''d'', tp_created_at = 4, tp_expires_at = 54, tp_approvals = [''a'', ''b''],
     tp_required_approvals = 2, tp_status = Approved, tp_executed_at = None\<rparr>"
  "ty_balances (demo_ty demo_calls) ''X'' = Some \<lparr>tb_balance = 1000, tb_total_deposited = 1000, tb_total_withdrawn = 0,
     tb_last_deposit_at = 1, tb_last_withdrawal_at = 0\<rparr>"
  "ty_spending_limits (demo_ty demo_calls) ''X'' = Some \<lparr>sl_max_per_period = 500, sl_period_duration_secs = 100,
     sl_spent_in_period = 0, sl_period_start = 2\<rparr>"
  "ty_signers (demo_ty demo_calls) = [''a'', ''b'', ''c'']" "ty_seq (demo_ty demo_calls) = 4" "ty_threshold (demo_ty demo_calls) = 2"
  by (simp_all add: demo_ty_def demo_treasury_defs get_proposal_def)

lemma demo_execute: "\<exists>s'. execute_proposal (demo_ty demo_calls) demo_pid 6 = Inr s'"
  using demo_ty_fields
  by (simp add: execute_proposal_def get_proposal_def is_expired_def check_spending_limit_def remaining_def u_add_def Let_def
      treasury_balance_of_def record_spend_def log_operation_def put_proposal_def)

lemma demo_propose: "\<exists>r. create_proposal (demo_ty demo_calls) ''a'' Grant ''X'' 300 ''r'' ''d'' 260 50 = Inr r"
  using demo_ty_fields
  by (simp add: create_proposal_def is_treasury_signer_def Let_def treasury_balance_of_def u_add_def log_operation_def)

theorem audit_reconstructs_balances_witness: "verify_audit_trail (demo_ty demo_calls)"
  using audit_reconstructs_balances [OF demo_ty_reachable] by blast

theorem withdrawal_needs_quorum_witness:
  "\<exists>s' p. execute_proposal (demo_ty demo_calls) demo_pid 6 = Inr s' \<and> get_proposal (demo_ty demo_calls) demo_pid = Some p
     \<and> 2 \<le> approval_count p \<and> approved_as_signer (demo_ty demo_calls) p ''b'' \<and> treasury_balance_of s' ''X'' = 700"
proof -
  obtain s' where s': "execute_proposal (demo_ty demo_calls) demo_pid 6 = Inr s'" using demo_execute by blast
  show ?thesis using withdrawal_needs_quorum [OF demo_ty_reachable s'] s' demo_ty_fields(1)
      arg_cong [OF demo_ty_fields(2), of "\<lambda>b. case b of Some b \<Rightarrow> tb_balance b | None \<Rightarrow> 0"]
    by (auto simp: treasury_balance_of_def [of "demo_ty demo_calls"])
qed

theorem spending_within_limit_witness:
  "\<exists>s' l. execute_proposal (demo_ty demo_calls) demo_pid 6 = Inr s' \<and> ty_spending_limits s' ''X'' = Some l \<and> sl_spent_in_period l = 300"
proof -
  obtain s' where s': "execute_proposal (demo_ty demo_calls) demo_pid 6 = Inr s'" using demo_execute by blast
  show ?thesis using spending_within_limit [OF demo_ty_reachable s' demo_ty_fields(1)] s' demo_ty_fields(3) by auto
qed

theorem threshold_within_signers_witness: "0 < get_threshold (demo_ty demo_calls)"
  using threshold_within_signers [OF demo_ty_reachable] by simp

theorem colliding_proposal_replaces_witness:
  "\<exists>s' p. create_proposal (demo_ty demo_calls) ''a'' Grant ''X'' 300 ''r'' ''d'' 260 50 = Inr (demo_pid, s')
     \<and> get_proposal s' demo_pid = Some p \<and> tp_status p = Pending"
proof -
  obtain pid s' where s': "create_proposal (demo_ty demo_calls) ''a'' Grant ''X'' 300 ''r'' ''d'' 260 50 = Inr (pid, s')"
    using demo_propose by auto
  show ?thesis
    using colliding_proposal_replaces [OF demo_ty_reachable demo_ty_fields(1), where x = 300 and t = 260 and ty = Grant and asset = "''X''"
        and r = "''r''" and ttl = 50 and pid' = pid and s' = s'] s' by auto
qed

end
