(* ===== verification/Gov_Params.thy ===== *)
theory Gov_Params
  imports Counter_Entry
begin

text \<open>
  The storage of the counter contract's own governance and the modules beside its proposals:
  parameter updates behind a timelock (\<open>counter/src/governance_params.rs\<close>), vote delegation
  (\<open>counter/src/governance/delegation.rs\<close>), the multi-signature configuration (\<open>counter/src/admin.rs\<close>,
  \<open>counter/src/governance/multi_sig.rs\<close>), quadratic voting power
  (\<open>counter/src/governance/quadratic_voting.rs\<close>) and replay protection by nonces (\<open>counter/src/nonce.rs\<close>).
\<close>

section \<open>Data\<close>

datatype param_key = MaxSwapAmount | FeeBps | RateLimitWindow

record pending_update =
  pu_param :: param_key
  pu_new_value :: int
  pu_proposed_at :: nat
  pu_executable_at :: nat
  pu_proposer :: address
  pu_executed :: bool

record multi_sig =
  ms_signers :: "address list"
  ms_threshold :: nat

datatype gov_action =
    PauseTrading
  | ResumeTrading
  | SetAdmin address
  | SetTreasury address
  | UpdatePoolFeeTier nat nat
  | UpdateGovParam param_key int

record gov_proposal =
  gp_id :: nat
  gp_action :: gov_action
  gp_created_at :: nat
  gp_created_by :: address
  gp_executed :: bool
  gp_canceled :: bool
  gp_executable_at :: nat
  gp_multi_sig :: multi_sig

record vote =
  vt_voter :: address
  vt_weight :: int

datatype gov_event =
    Prop_New nat gov_proposal
  | Prop_Vote nat address bool
  | Prop_Sign nat address
  | Prop_Cncl nat address
  | Prop_Approve nat address
  | Prop_Exec nat address
  | Tl_Set address nat
  | Upd_Proposed nat address int
  | Upd_Executed nat address int
  | Upd_Applied param_key int
  | Del_Vote address address
  | Del_Revk address
  | Nonce_Used address nat

text \<open>
  One field per storage key. \<open>gs_core\<close> is the storage of the other modules: the admin, the pause flag,
  the treasury and the pool registry. The supply, the balances and the council are only read.
\<close>

record gov_store =
  gs_core :: counter_store
  gs_proposals :: "(nat \<rightharpoonup> gov_proposal) option"
  gs_votes :: "(nat \<rightharpoonup> vote list) option"
  gs_supply :: "nat option"
  gs_balances :: "address \<rightharpoonup> nat"
  gs_council :: "address list option"
  gs_multi_sig :: "multi_sig option"
  gs_delegations :: "(address \<rightharpoonup> address) option"
  gs_timelock :: "nat option"
  gs_updates :: "nat \<rightharpoonup> pending_update"
  gs_update_counter :: "nat option"
  gs_params :: "param_key \<rightharpoonup> int"
  gs_nonces :: "address \<times> nat \<Rightarrow> bool"
  gs_events :: "gov_event list"

definition gov_publish :: "gov_event \<Rightarrow> gov_store \<Rightarrow> gov_store" where
  "gov_publish ev s = s\<lparr>gs_events := gs_events s @ [ev]\<rparr>"

section \<open>Parameters\<close>

definition PARAM_TIMELOCK_MIN :: nat where
  "PARAM_TIMELOCK_MIN = 86400"

definition PARAM_TIMELOCK_DEFAULT :: nat where
  "PARAM_TIMELOCK_DEFAULT = 172800"

definition set_timelock_delay :: "env \<Rightarrow> gov_store \<Rightarrow> address \<Rightarrow> nat \<Rightarrow> (gov_store, counter_error) res" where
  "set_timelock_delay e s admin delay =
     bindR (require_auth e admin) (\<lambda>_.
     bindR (require_admin (cs_admin (gs_core s)) admin) (\<lambda>_.
     bindR (ensure (\<not> delay < PARAM_TIMELOCK_MIN) (Err InvalidTimelockDuration)) (\<lambda>_.
     Inr (gov_publish (Tl_Set admin delay) (s\<lparr>gs_timelock := Some delay\<rparr>)))))"

definition get_timelock_delay :: "gov_store \<Rightarrow> nat" where
  "get_timelock_delay s = (case gs_timelock s of Some d \<Rightarrow> d | None \<Rightarrow> PARAM_TIMELOCK_DEFAULT)"

fun validate_param_value :: "param_key \<Rightarrow> int \<Rightarrow> (unit, counter_error) res" where
  "validate_param_value MaxSwapAmount v = ensure (\<not> (v \<le> 0 \<or> v > 1000000000000000000)) (Err InvalidAmount)"
| "validate_param_value FeeBps v = ensure (\<not> (v < 0 \<or> v > 10000)) (Err InvalidAmount)"
| "validate_param_value RateLimitWindow v = ensure (\<not> (v < 60 \<or> v > 604800)) (Err InvalidAmount)"

definition propose_update :: "env \<Rightarrow> gov_store \<Rightarrow> address \<Rightarrow> param_key \<Rightarrow> int \<Rightarrow> (nat \<times> gov_store, counter_error) res" where
  "propose_update e s admin param new_value =
     bindR (require_auth e admin) (\<lambda>_.
     bindR (require_admin (cs_admin (gs_core s)) admin) (\<lambda>_.
     bindR (validate_param_value param new_value) (\<lambda>_.
     let k = (case gs_update_counter s of Some n \<Rightarrow> n | None \<Rightarrow> 0) in
     bindR (u_add 64 (now e) (get_timelock_delay s)) (\<lambda>executable_at.
     let update = \<lparr>pu_param = param, pu_new_value = new_value, pu_proposed_at = now e,
           pu_executable_at = executable_at, pu_proposer = admin, pu_executed = False\<rparr> in
     bindR (u_add 64 k 1) (\<lambda>next.
     Inr (k, gov_publish (Upd_Proposed k admin new_value)
       (s\<lparr>gs_updates := (gs_updates s)(k \<mapsto> update), gs_update_counter := Some next\<rparr>)))))))"

definition execute_update :: "env \<Rightarrow> gov_store \<Rightarrow> address \<Rightarrow> nat \<Rightarrow> (gov_store, counter_error) res" where
  "execute_update e s admin update_id =
     bindR (require_auth e admin) (\<lambda>_.
     bindR (require_admin (cs_admin (gs_core s)) admin) (\<lambda>_.
     bindR (ok_or (gs_updates s update_id) (Err KYCOverrideNotFound)) (\<lambda>update.
     bindR (ensure (\<not> pu_executed update) (Err KYCOverrideAlreadyExecuted)) (\<lambda>_.
     bindR (ensure (\<not> now e < pu_executable_at update) (Err KYCTimelockNotElapsed)) (\<lambda>_.
     Inr (gov_publish (Upd_Executed update_id admin (pu_new_value update))
       (s\<lparr>gs_params := (gs_params s)(pu_param update \<mapsto> pu_new_value update),
          gs_updates := (gs_updates s)(update_id \<mapsto> update\<lparr>pu_executed := True\<rparr>)\<rparr>)))))))"

definition apply_param_update :: "gov_store \<Rightarrow> param_key \<Rightarrow> int \<Rightarrow> (gov_store, counter_error) res" where
  "apply_param_update s param new_value =
     bindR (validate_param_value param new_value) (\<lambda>_.
     Inr (gov_publish (Upd_Applied param new_value) (s\<lparr>gs_params := (gs_params s)(param \<mapsto> new_value)\<rparr>)))"

definition get_param :: "gov_store \<Rightarrow> param_key \<Rightarrow> int option" where
  "get_param s param = gs_params s param"

definition get_pending_update :: "gov_store \<Rightarrow> nat \<Rightarrow> pending_update option" where
  "get_pending_update s update_id = gs_updates s update_id"

section \<open>Delegation, signatures, nonces\<close>

definition delegate_vote :: "env \<Rightarrow> gov_store \<Rightarrow> address \<Rightarrow> address \<Rightarrow> (gov_store, counter_error) res" where
  "delegate_vote e s delegator delegate =
     bindR (require_auth e delegator) (\<lambda>_.
     let delegations = (case gs_delegations s of Some m \<Rightarrow> m | None \<Rightarrow> Map.empty) in
     Inr (gov_publish (Del_Vote delegator delegate) (s\<lparr>gs_delegations := Some (delegations(delegator \<mapsto> delegate))\<rparr>)))"

definition revoke_delegation :: "env \<Rightarrow> gov_store \<Rightarrow> address \<Rightarrow> (gov_store, counter_error) res" where
  "revoke_delegation e s delegator =
     bindR (require_auth e delegator) (\<lambda>_.
     bindR (ok_or (gs_delegations s) (Err NotAuthorized)) (\<lambda>delegations.
     Inr (gov_publish (Del_Revk delegator) (s\<lparr>gs_delegations := Some (delegations(delegator := None))\<rparr>))))"

definition get_delegate :: "gov_store \<Rightarrow> address \<Rightarrow> address option" where
  "get_delegate s delegator = (case gs_delegations s of Some m \<Rightarrow> m delegator | None \<Rightarrow> None)"

definition create_multi_sig :: "address list \<Rightarrow> nat \<Rightarrow> multi_sig option" where
  "create_multi_sig signers threshold =
     (if threshold > length signers then None else Some \<lparr>ms_signers = signers, ms_threshold = threshold\<rparr>)"

definition set_multi_sig_config :: "gov_store \<Rightarrow> multi_sig \<Rightarrow> (gov_store, counter_error) res" where
  "set_multi_sig_config s config =
     bindR (ensure (\<not> (ms_threshold config = 0 \<or> ms_threshold config > length (ms_signers config))) (Err InvalidMultiSigConfig)) (\<lambda>_.
     Inr (s\<lparr>gs_multi_sig := Some config\<rparr>))"

definition get_multi_sig_config :: "gov_store \<Rightarrow> (multi_sig, counter_error) res" where
  "get_multi_sig_config s = ok_or (gs_multi_sig s) (Err MultiSigNotConfigured)"

definition consume :: "gov_store \<Rightarrow> address \<Rightarrow> nat \<Rightarrow> (gov_store, counter_error) res" where
  "consume s user nonce =
     bindR (ensure (\<not> gs_nonces s (user, nonce)) (Err RateLimitExceeded)) (\<lambda>_.
     Inr (gov_publish (Nonce_Used user nonce) (s\<lparr>gs_nonces := (gs_nonces s)((user, nonce) := True)\<rparr>)))"

definition is_used :: "gov_store \<Rightarrow> address \<Rightarrow> nat \<Rightarrow> bool" where
  "is_used s user nonce \<longleftrightarrow> gs_nonces s (user, nonce)"

section \<open>Quadratic voting\<close>

text \<open>
  The source computes \<open>(balance as f64).sqrt() as u64\<close>. Both steps round to the nearest number with 53
  significant bits, ties to even: \<open>f64_of\<close> rounds the balance, and \<open>f64_sqrt_trunc\<close> is the integer part of
  the rounded root, which is one more than the integer root when the root lies at most half a unit in
  the last place below the next integer.
\<close>

fun bits :: "nat \<Rightarrow> nat" where
  "bits n = (if n = 0 then 0 else Suc (bits (n div 2)))"

declare bits.simps [simp del]

definition f64_of :: "nat \<Rightarrow> nat" where
  "f64_of n =
     (let e = bits n - 53 in
      if e = 0 then n
      else let q = n div 2 ^ e; r = n mod 2 ^ e; half = 2 ^ (e - 1)
           in (if r > half \<or> (r = half \<and> odd q) then q + 1 else q) * 2 ^ e)"

fun isqrt :: "nat \<Rightarrow> nat" where
  "isqrt n = (if n = 0 then 0 else let r = 2 * isqrt (n div 4) in if (r + 1) * (r + 1) \<le> n then r + 1 else r)"

declare isqrt.simps [simp del]

definition f64_sqrt_trunc :: "nat \<Rightarrow> nat" where
  "f64_sqrt_trunc m =
     (let k = isqrt m in
      if (Suc k * 2 ^ 54 - 2 ^ bits k) * (Suc k * 2 ^ 54 - 2 ^ bits k) \<le> m * 2 ^ 108 then Suc k else k)"

definition calculate_voting_power :: "nat \<Rightarrow> nat" where
  "calculate_voting_power balance = f64_sqrt_trunc (f64_of balance)"

fun tally_loop :: "vote list \<Rightarrow> nat \<Rightarrow> nat \<Rightarrow> (nat \<times> nat, counter_error) res" where
  "tally_loop [] total_for total_against = Inr (total_for, total_against)"
| "tally_loop (v # votes) total_for total_against =
     (if vt_weight v > 0
      then bindR (u_add 64 total_for (nat (vt_weight v))) (\<lambda>f. tally_loop votes f total_against)
      else bindR (u_add 64 total_against (nat \<bar>vt_weight v\<bar>)) (\<lambda>a. tally_loop votes total_for a))"

definition tally_votes :: "vote list \<Rightarrow> (nat \<times> nat, counter_error) res" where
  "tally_votes votes = tally_loop votes 0 0"

end
