(* ===== verification/Gov_System.thy ===== *)
theory Gov_System
  imports Gov_Params
begin

text \<open>
  The proposals of the counter contract's governance (\<open>counter/src/governance_system.rs\<close>) with the wrapper
  that the entry points of \<open>lib.rs\<close> call. The source defines \<open>approve_proposal\<close> twice, once as another
  name of \<open>sign_proposal\<close> and once with a check against the multi-signature configuration; the second
  is \<open>approve_proposal\<close> here.
\<close>

definition get_token_balance :: "gov_store \<Rightarrow> address \<Rightarrow> nat" where
  "get_token_balance s user = (case gs_balances s user of Some b \<Rightarrow> b | None \<Rightarrow> 0)"

definition total_supply :: "gov_store \<Rightarrow> nat" where
  "total_supply s = (case gs_supply s of Some n \<Rightarrow> n | None \<Rightarrow> 0)"

definition put_gov_proposal :: "gov_store \<Rightarrow> (nat \<rightharpoonup> gov_proposal) \<Rightarrow> nat \<Rightarrow> gov_proposal \<Rightarrow> gov_store" where
  "put_gov_proposal s proposals k p = s\<lparr>gs_proposals := Some (proposals(k \<mapsto> p))\<rparr>"

definition create_proposal :: "env \<Rightarrow> gov_store \<Rightarrow> address \<Rightarrow> gov_action \<Rightarrow> (nat \<times> gov_store, counter_error) res" where
  "create_proposal e s caller action =
     bindR (require_auth e caller) (\<lambda>_.
     bindR (ensure (\<not> get_token_balance s caller < total_supply s div 100) (Err InsufficientBalance)) (\<lambda>_.
     let proposals = (case gs_proposals s of Some m \<Rightarrow> m | None \<Rightarrow> Map.empty);
         proposal_id = card (dom proposals);
         proposal = \<lparr>gp_id = proposal_id, gp_action = action, gp_created_at = now e, gp_created_by = caller,
           gp_executed = False, gp_canceled = False, gp_executable_at = 0,
           gp_multi_sig = \<lparr>ms_signers = [], ms_threshold = 5\<rparr>\<rparr>;
         s1 = put_gov_proposal s proposals proposal_id proposal;
         votes = (case gs_votes s1 of Some m \<Rightarrow> m | None \<Rightarrow> Map.empty)
     in Inr (proposal_id, gov_publish (Prop_New proposal_id proposal)
          (s1\<lparr>gs_votes := Some (votes(proposal_id \<mapsto> []))\<rparr>))))"

text \<open>Whether the votes reach the quorum of 30 percent of the supply and 60 percent approval.\<close>

definition quorum_of :: "nat \<Rightarrow> (nat, counter_error) res" where
  "quorum_of supply = bindR (u_mul 64 supply 30) (\<lambda>x. Inr (x div 100))"

definition approved :: "nat \<Rightarrow> nat \<Rightarrow> (bool, counter_error) res" where
  "approved votes_for votes_against =
     bindR (u_mul 64 votes_for 100) (\<lambda>x.
     bindR (u_add 64 votes_for votes_against) (\<lambda>total.
     bindR (u_mul 64 total 60) (\<lambda>y. Inr (x \<ge> y))))"

text \<open>A vote that makes the proposal pass closes the voting and starts the timelock of 48 hours.\<close>

definition close_if_passed ::
    "env \<Rightarrow> gov_store \<Rightarrow> (nat \<rightharpoonup> gov_proposal) \<Rightarrow> nat \<Rightarrow> gov_proposal \<Rightarrow> vote list \<Rightarrow> (gov_store, counter_error) res" where
  "close_if_passed e s proposals proposal_id proposal votes =
     bindR (tally_votes votes) (\<lambda>(votes_for, votes_against).
     bindR (u_add 64 votes_for votes_against) (\<lambda>total_votes.
     bindR (quorum_of (total_supply s)) (\<lambda>quorum.
     bindR (if total_votes \<ge> quorum then approved votes_for votes_against else Inr False) (\<lambda>passed.
     if passed
     then bindR (u_add 64 (now e) 172800) (\<lambda>t.
          Inr (put_gov_proposal s proposals proposal_id (proposal\<lparr>gp_executable_at := t\<rparr>)))
     else Inr s))))"

definition cast_vote :: "env \<Rightarrow> gov_store \<Rightarrow> address \<Rightarrow> nat \<Rightarrow> bool \<Rightarrow> (gov_store, counter_error) res" where
  "cast_vote e s caller proposal_id in_favor =
     bindR (require_auth e caller) (\<lambda>_.
     bindR (ok_or (gs_proposals s) Trap) (\<lambda>proposals.
     bindR (ok_or (proposals proposal_id) (Err ProposalNotFound)) (\<lambda>proposal.
     bindR (ensure (\<not> gp_executed proposal) (Err ProposalAlreadyExecuted)) (\<lambda>_.
     bindR (ensure (\<not> gp_executable_at proposal > 0) (Err VotingEnded)) (\<lambda>_.
     bindR (ensure (\<not> gp_canceled proposal) (Err ProposalCanceled)) (\<lambda>_.
     bindR (ok_or (gs_votes s) Trap) (\<lambda>states.
     bindR (ok_or (states proposal_id) Trap) (\<lambda>votes.
     bindR (ensure (\<not> list_ex (\<lambda>v. vt_voter v = caller) votes) (Err AlreadyVoted)) (\<lambda>_.
     let effective_voter = (case get_delegate s caller of Some d \<Rightarrow> d | None \<Rightarrow> caller);
         vote_weight = calculate_voting_power (get_token_balance s effective_voter);
         votes1 = votes @ [\<lparr>vt_voter = caller, vt_weight = (if in_favor then int vote_weight else - int vote_weight)\<rparr>] in
     bindR (close_if_passed e (s\<lparr>gs_votes := Some (states(proposal_id \<mapsto> votes1))\<rparr>) proposals proposal_id proposal votes1) (\<lambda>s2.
     Inr (gov_publish (Prop_Vote proposal_id caller in_favor) s2)))))))))))"

definition sign_proposal :: "env \<Rightarrow> gov_store \<Rightarrow> address \<Rightarrow> nat \<Rightarrow> (gov_store, counter_error) res" where
  "sign_proposal e s caller proposal_id =
     bindR (require_auth e caller) (\<lambda>_.
     bindR (ok_or (gs_proposals s) Trap) (\<lambda>proposals.
     bindR (ok_or (proposals proposal_id) (Err ProposalNotFound)) (\<lambda>proposal.
     bindR (ensure (\<not> gp_executed proposal) (Err ProposalAlreadyExecuted)) (\<lambda>_.
     bindR (ok_or (gs_council s) Trap) (\<lambda>council.
     bindR (ensure (caller \<in> set council) (Err NotInCouncil)) (\<lambda>_.
     let ms = gp_multi_sig proposal in
     Inr (gov_publish (Prop_Sign proposal_id caller)
       (put_gov_proposal s proposals proposal_id (proposal\<lparr>gp_multi_sig := ms\<lparr>ms_signers := ms_signers ms @ [caller]\<rparr>\<rparr>)))))))))"

definition cancel_proposal :: "env \<Rightarrow> gov_store \<Rightarrow> address \<Rightarrow> nat \<Rightarrow> (gov_store, counter_error) res" where
  "cancel_proposal e s caller proposal_id =
     bindR (require_auth e caller) (\<lambda>_.
     bindR (ok_or (gs_proposals s) Trap) (\<lambda>proposals.
     bindR (ok_or (proposals proposal_id) (Err ProposalNotFound)) (\<lambda>proposal.
     bindR (ensure (\<not> gp_executed proposal) (Err ProposalAlreadyExecuted)) (\<lambda>_.
     bindR (ok_or (gs_council s) Trap) (\<lambda>council.
     bindR (ensure (caller \<in> set council) (Err NotInCouncil)) (\<lambda>_.
     Inr (gov_publish (Prop_Cncl proposal_id caller)
       (put_gov_proposal s proposals proposal_id (proposal\<lparr>gp_canceled := True\<rparr>)))))))))"

definition approve_proposal :: "env \<Rightarrow> gov_store \<Rightarrow> address \<Rightarrow> nat \<Rightarrow> (gov_store, counter_error) res" where
  "approve_proposal e s caller proposal_id =
     bindR (require_auth e caller) (\<lambda>_.
     bindR (ok_or (gs_proposals s) Trap) (\<lambda>proposals.
     bindR (ok_or (proposals proposal_id) (Err ProposalNotFound)) (\<lambda>proposal.
     bindR (ensure (\<not> gp_executed proposal) (Err ProposalAlreadyExecuted)) (\<lambda>_.
     bindR (get_multi_sig_config s) (\<lambda>config.
     bindR (ensure (caller \<in> set (ms_signers config)) (Err NotAuthorized)) (\<lambda>_.
     let ms = gp_multi_sig proposal in
     bindR (ensure (caller \<notin> set (ms_signers ms)) (Err AlreadyApproved)) (\<lambda>_.
     Inr (gov_publish (Prop_Approve proposal_id caller)
       (put_gov_proposal s proposals proposal_id (proposal\<lparr>gp_multi_sig := ms\<lparr>ms_signers := ms_signers ms @ [caller]\<rparr>\<rparr>))))))))))"

fun apply_gov_action :: "env \<Rightarrow> gov_store \<Rightarrow> address \<Rightarrow> gov_action \<Rightarrow> (gov_store, counter_error) res" where
  "apply_gov_action e s caller PauseTrading = Inr (s\<lparr>gs_core := (gs_core s)\<lparr>cs_paused := Some True\<rparr>\<rparr>)"
| "apply_gov_action e s caller ResumeTrading = Inr (s\<lparr>gs_core := (gs_core s)\<lparr>cs_paused := Some False\<rparr>\<rparr>)"
| "apply_gov_action e s caller (SetAdmin new_admin) = Inr (s\<lparr>gs_core := (gs_core s)\<lparr>cs_admin := Some new_admin\<rparr>\<rparr>)"
| "apply_gov_action e s caller (SetTreasury new_treasury) = Inr (s\<lparr>gs_core := (gs_core s)\<lparr>cs_treasury := Some new_treasury\<rparr>\<rparr>)"
| "apply_gov_action e s caller (UpdatePoolFeeTier pool_id new_fee_tier) =
     bindR (update_pool_fee_tier e (gs_core s) caller pool_id new_fee_tier) (\<lambda>c. Inr (s\<lparr>gs_core := c\<rparr>))"
| "apply_gov_action e s caller (UpdateGovParam param new_value) = apply_param_update s param new_value"

definition execute_proposal :: "env \<Rightarrow> gov_store \<Rightarrow> address \<Rightarrow> nat \<Rightarrow> (gov_store, counter_error) res" where
  "execute_proposal e s caller proposal_id =
     bindR (require_auth e caller) (\<lambda>_.
     bindR (ok_or (gs_proposals s) Trap) (\<lambda>proposals.
     bindR (ok_or (proposals proposal_id) (Err ProposalNotFound)) (\<lambda>proposal.
     bindR (ensure (\<not> gp_executed proposal) (Err ProposalAlreadyExecuted)) (\<lambda>_.
     bindR (ensure (\<not> now e < gp_executable_at proposal) (Err TimelockNotElapsed)) (\<lambda>_.
     bindR (ensure (\<not> length (ms_signers (gp_multi_sig proposal)) < ms_threshold (gp_multi_sig proposal)) (Err InsufficientSignatures)) (\<lambda>_.
     bindR (ok_or (gs_votes s) Trap) (\<lambda>states.
     bindR (ok_or (states proposal_id) Trap) (\<lambda>votes.
     bindR (tally_votes votes) (\<lambda>(votes_for, votes_against).
     bindR (u_add 64 votes_for votes_against) (\<lambda>total_votes.
     bindR (quorum_of (total_supply s)) (\<lambda>quorum.
     bindR (ensure (\<not> total_votes < quorum) (Err QuorumNotReached)) (\<lambda>_.
     bindR (approved votes_for votes_against) (\<lambda>passed.
     bindR (ensure passed (Err ProposalFailed)) (\<lambda>_.
     bindR (apply_gov_action e s caller (gp_action proposal)) (\<lambda>s1.
     Inr (gov_publish (Prop_Exec proposal_id caller)
       (put_gov_proposal s1 proposals proposal_id (proposal\<lparr>gp_executed := True\<rparr>))))))))))))))))))"

section \<open>The wrapper behind the entry points\<close>

datatype gov_param_key =
    GMaxSwapAmount | GFeeBps | GRateLimitWindow | GMaxSlippageBps | GEmergencyPause | GRiskConfigMaxPosition
  | GRiskConfigConcentrationLimit | GGovernanceQuorumThreshold | GGovernanceApprovalThreshold

datatype gov_proposal_type = ParameterChange gov_param_key int | AdminUpgrade address | EmergencyAction bool | Custom symbol symbol

datatype gov_status = GActive | GPassed | GRejected | GExecuted | GCancelled | GExpired

datatype vote_option = For | Against | Abstain

record proposal_view =
  pv_id :: nat
  pv_proposer :: address
  pv_proposal_type :: gov_proposal_type
  pv_description :: symbol
  pv_start_time :: nat
  pv_end_time :: nat
  pv_execution_time :: "nat option"
  pv_status :: gov_status
  pv_votes_for :: nat
  pv_votes_against :: nat
  pv_votes_abstain :: nat
  pv_total_voting_power :: nat
  pv_quorum_required :: nat
  pv_approval_threshold :: nat
  pv_executed :: bool

definition create_governance_proposal ::
    "env \<Rightarrow> gov_store \<Rightarrow> address \<Rightarrow> gov_proposal_type \<Rightarrow> symbol \<Rightarrow> nat \<Rightarrow> (nat \<times> gov_store, counter_error) res" where
  "create_governance_proposal e s proposer proposal_type description voting_period = create_proposal e s proposer PauseTrading"

definition cast_governance_vote :: "env \<Rightarrow> gov_store \<Rightarrow> address \<Rightarrow> nat \<Rightarrow> vote_option \<Rightarrow> (gov_store, counter_error) res" where
  "cast_governance_vote e s voter proposal_id support = cast_vote e s voter proposal_id (support = For)"

definition execute_governance_proposal :: "env \<Rightarrow> gov_store \<Rightarrow> address \<Rightarrow> nat \<Rightarrow> (gov_store, counter_error) res" where
  "execute_governance_proposal e s executor proposal_id = execute_proposal e s executor proposal_id"

definition get_governance_proposal :: "gov_store \<Rightarrow> nat \<Rightarrow> (proposal_view, counter_error) res" where
  "get_governance_proposal s proposal_id =
     bindR (ok_or (gs_proposals s) (Err ProposalNotFound)) (\<lambda>proposals.
     bindR (ok_or (proposals proposal_id) (Err ProposalNotFound)) (\<lambda>p.
     Inr \<lparr>pv_id = gp_id p, pv_proposer = gp_created_by p, pv_proposal_type = Custom ''action'' ''details'',
       pv_description = ''proposal'', pv_start_time = gp_created_at p, pv_end_time = gp_executable_at p,
       pv_execution_time = (if gp_executed p then Some (gp_executable_at p) else None),
       pv_status = (if gp_executed p then GExecuted else if gp_canceled p then GCancelled else GActive),
       pv_votes_for = 0, pv_votes_against = 0, pv_votes_abstain = 0, pv_total_voting_power = 0,
       pv_quorum_required = 0, pv_approval_threshold = 5000, pv_executed = gp_executed p\<rparr>))"

end
