(* ===== verification/Gov_System_Inv.thy ===== *)
theory Gov_System_Inv
  imports Gov_System
begin

text \<open>
  The governance of the counter contract as one machine with a clock: who may call what and when, the
  tally of the votes, and the invariant of proposals, votes, parameters and queued updates.
\<close>

section \<open>Roots and voting power\<close>

lemma isqrt_bounds: "isqrt n * isqrt n \<le> n \<and> n < Suc (isqrt n) * Suc (isqrt n)"
proof (induction n rule: less_induct)
  case (less n)
  show ?case
  proof (cases "n = 0")
    case False
    define r where "r = isqrt (n div 4)"
    have 1: "r * r \<le> n div 4" "n div 4 < Suc r * Suc r" using less [of "n div 4"] False by (auto simp: r_def)
    then have "4 * (r * r) \<le> n" "n < 4 * (Suc r * Suc r)" by linarith+
    moreover have "4 * (r * r) = (2 * r) * (2 * r)" "4 * (Suc r * Suc r) = Suc (2 * r + 1) * Suc (2 * r + 1)" by simp_all
    ultimately have 2: "(2 * r) * (2 * r) \<le> n" "n < Suc (2 * r + 1) * Suc (2 * r + 1)" by metis+
    have u: "isqrt n = (if (2 * r + 1) * (2 * r + 1) \<le> n then 2 * r + 1 else 2 * r)"
      using False by (subst isqrt.simps) (simp add: Let_def r_def)
    show ?thesis
    proof (cases "(2 * r + 1) * (2 * r + 1) \<le> n")
      case True
      with u have "isqrt n = 2 * r + 1" by (simp only: if_True)
      then show ?thesis using True 2 by (simp only:)
    next
      case False
      with u have "isqrt n = 2 * r" by (simp only: if_False)
      then show ?thesis using False 2 by (simp only: not_le Suc_eq_plus1)
    qed
  qed (simp add: isqrt.simps)
qed

lemma isqrt_le_iff: "isqrt n \<le> k \<longleftrightarrow> n < Suc k * Suc k"
proof
  assume "isqrt n \<le> k"
  then have "Suc (isqrt n) * Suc (isqrt n) \<le> Suc k * Suc k" by (intro mult_le_mono) simp_all
  then show "n < Suc k * Suc k" using isqrt_bounds [of n] by linarith
next
  assume "n < Suc k * Suc k"
  then have "isqrt n * isqrt n < Suc k * Suc k" using isqrt_bounds [of n] by linarith
  then show "isqrt n \<le> k" using mult_le_mono [of "Suc k" "isqrt n" "Suc k" "isqrt n"] by (metis not_less not_less_eq_eq)
qed

lemma isqrt_mono: "m \<le> n \<Longrightarrow> isqrt m \<le> isqrt n"
  using isqrt_bounds [of n] by (simp add: isqrt_le_iff del: mult_Suc mult_Suc_right)

lemma bits_le: "n < 2 ^ b \<Longrightarrow> bits n \<le> b"
proof (induction b arbitrary: n)
  case 0 then show ?case by (simp add: bits.simps)
next
  case (Suc b)
  then have "bits (n div 2) \<le> b" by simp
  then show ?case by (subst bits.simps) simp
qed

lemma f64_of_exact: "n < 2 ^ 53 \<Longrightarrow> f64_of n = n"
  using bits_le [of n 53] by (simp add: f64_of_def Let_def)

lemma root_not_rounded:
  fixes k b m :: nat
  assumes "m < Suc k * Suc k" "Suc k \<le> 2 ^ 26" "b \<le> 26"
  shows "m * 2 ^ 108 < (Suc k * 2 ^ 54 - 2 ^ b) * (Suc k * 2 ^ 54 - 2 ^ b)"
proof -
  define K where "K = int (Suc k)"
  have b: "(2 :: int) ^ b \<le> 2 ^ 26" using assms(3) by (rule power_increasing) simp
  have K: "1 \<le> K" "K \<le> 2 ^ 26" using assms(2) unfolding K_def by simp_all
  have le: "(2 :: nat) ^ b \<le> Suc k * 2 ^ 54"
    using power_increasing [OF assms(3), of "2 :: nat"] by simp
  have "K * 2 ^ b \<le> 2 ^ 26 * 2 ^ 26" using K b by (intro mult_mono) auto
  then have "K * 2 ^ b * 2 ^ 55 < (2 :: int) ^ 108" by simp
  moreover have "(K * 2 ^ 54 - 2 ^ b) * (K * 2 ^ 54 - 2 ^ b) = K * K * 2 ^ 108 - K * 2 ^ b * 2 ^ 55 + 2 ^ b * 2 ^ b"
    by (simp add: algebra_simps)
  moreover have "int m * 2 ^ 108 \<le> (K * K - 1) * 2 ^ 108"
  proof (rule mult_right_mono)
    have "int m < int (Suc k * Suc k)" using assms(1) by (simp only: of_nat_less_iff)
    then show "int m \<le> K * K - 1" by (simp add: K_def algebra_simps)
  qed simp
  moreover have "(0 :: int) \<le> 2 ^ b * 2 ^ b" by simp
  ultimately have "int m * 2 ^ 108 < (K * 2 ^ 54 - 2 ^ b) * (K * 2 ^ 54 - 2 ^ b)"
    unfolding left_diff_distrib [of "K * K" 1] by linarith
  also have "K * 2 ^ 54 - 2 ^ b = int (Suc k * 2 ^ 54 - 2 ^ b)"
    using le by (simp only: K_def of_nat_diff of_nat_mult of_nat_power of_nat_numeral)
  finally have "int (m * 2 ^ 108) < int ((Suc k * 2 ^ 54 - 2 ^ b) * (Suc k * 2 ^ 54 - 2 ^ b))"
    by (simp only: of_nat_mult of_nat_power of_nat_numeral)
  then show ?thesis by (simp only: of_nat_less_iff)
qed

lemma f64_sqrt_exact:
  assumes "m < 2 ^ 52"
  shows "f64_sqrt_trunc m = isqrt m"
proof -
  have k: "isqrt m \<le> 2 ^ 26 - 1" using assms by (simp add: isqrt_le_iff)
  then have "bits (isqrt m) \<le> 26" by (intro bits_le) simp
  moreover have "m < Suc (isqrt m) * Suc (isqrt m)" using isqrt_bounds by blast
  moreover have "Suc (isqrt m) \<le> 2 ^ 26" using k by simp
  ultimately have "m * 2 ^ 108 < (Suc (isqrt m) * 2 ^ 54 - 2 ^ bits (isqrt m)) * (Suc (isqrt m) * 2 ^ 54 - 2 ^ bits (isqrt m))"
    by (intro root_not_rounded)
  then show ?thesis unfolding f64_sqrt_trunc_def Let_def by (metis not_le)
qed

lemma voting_power_exact: "b < 2 ^ 52 \<Longrightarrow> calculate_voting_power b = isqrt b"
  by (simp add: calculate_voting_power_def f64_of_exact f64_sqrt_exact)

section \<open>Tallies\<close>

definition for_sum :: "vote list \<Rightarrow> nat" where
  "for_sum vs = (\<Sum>v\<leftarrow>vs. nat (vt_weight v))"

definition against_sum :: "vote list \<Rightarrow> nat" where
  "against_sum vs = (\<Sum>v\<leftarrow>vs. nat (- vt_weight v))"

text \<open>The votes pass: a quorum of 30 percent of the supply, and 60 percent of it in favour.\<close>

definition passes :: "nat \<Rightarrow> vote list \<Rightarrow> bool" where
  "passes supply vs \<longleftrightarrow> supply * 30 div 100 \<le> for_sum vs + against_sum vs
     \<and> (for_sum vs + against_sum vs) * 60 \<le> for_sum vs * 100"

lemma tally_loop_eq: "tally_loop vs x y = Inr (f, a) \<Longrightarrow> f = x + for_sum vs \<and> a = y + against_sum vs"
  by (induction vs x y rule: tally_loop.induct)
    (auto simp: for_sum_def against_sum_def bindR_eq_Inr u_add_eq_Inr split: if_splits)

lemma tally_votes_eq: "tally_votes vs = Inr (f, a) \<Longrightarrow> f = for_sum vs \<and> a = against_sum vs"
  using tally_loop_eq [of vs 0 0 f a] by (simp add: tally_votes_def)

lemma approved_eq: "approved f a = Inr b \<Longrightarrow> b \<longleftrightarrow> (f + a) * 60 \<le> f * 100"
  by (auto simp: approved_def bindR_eq_Inr u_add_eq_Inr u_mul_eq_Inr)

lemma quorum_of_eq: "quorum_of n = Inr q \<Longrightarrow> q = n * 30 div 100"
  by (auto simp: quorum_of_def bindR_eq_Inr u_mul_eq_Inr)

lemma passes_empty: "passes n [] \<longleftrightarrow> n * 30 div 100 = 0"
  by (simp add: passes_def for_sum_def against_sum_def)

section \<open>What the calls do\<close>

definition props_of :: "gov_store \<Rightarrow> nat \<rightharpoonup> gov_proposal" where
  "props_of s = (case gs_proposals s of Some m \<Rightarrow> m | None \<Rightarrow> Map.empty)"

definition votes_of :: "gov_store \<Rightarrow> nat \<Rightarrow> vote list" where
  "votes_of s k = (case gs_votes s of Some m \<Rightarrow> (case m k of Some v \<Rightarrow> v | None \<Rightarrow> []) | None \<Rightarrow> [])"

definition weight_of :: "gov_store \<Rightarrow> address \<Rightarrow> nat" where
  "weight_of s a = calculate_voting_power (get_token_balance s (case get_delegate s a of Some d \<Rightarrow> d | None \<Rightarrow> a))"

text \<open>What no call changes, and what calls on proposals leave alone.\<close>

definition same_rest :: "gov_store \<Rightarrow> gov_store \<Rightarrow> bool" where
  "same_rest s s' \<longleftrightarrow> gs_supply s' = gs_supply s \<and> gs_balances s' = gs_balances s \<and> gs_council s' = gs_council s
     \<and> gs_multi_sig s' = gs_multi_sig s"

definition same_params :: "gov_store \<Rightarrow> gov_store \<Rightarrow> bool" where
  "same_params s s' \<longleftrightarrow> gs_timelock s' = gs_timelock s \<and> gs_updates s' = gs_updates s
     \<and> gs_update_counter s' = gs_update_counter s \<and> gs_params s' = gs_params s"

lemmas gov_defs = bindR_eq_Inr ensure_eq_Inr ok_or_eq_Inr require_auth_eq_Inr require_admin_eq_Inr u_add_eq_Inr

lemma gov_create_effect:
  assumes "create_proposal e s caller action = Inr (k, s')"
  shows "authorized e caller" "total_supply s div 100 \<le> get_token_balance s caller" "k = card (dom (props_of s))"
    "props_of s' = (props_of s)(k \<mapsto> \<lparr>gp_id = k, gp_action = action, gp_created_at = now e, gp_created_by = caller,
       gp_executed = False, gp_canceled = False, gp_executable_at = 0, gp_multi_sig = \<lparr>ms_signers = [], ms_threshold = 5\<rparr>\<rparr>)"
    "votes_of s' = (votes_of s)(k := [])" "same_rest s s'" "same_params s s'" "gs_core s' = gs_core s" "gs_nonces s' = gs_nonces s"
    "gs_delegations s' = gs_delegations s"
proof -
  define ps where "ps = (case gs_proposals s of Some m \<Rightarrow> m | None \<Rightarrow> Map.empty)"
  define vs where "vs = (case gs_votes s of Some m \<Rightarrow> m | None \<Rightarrow> Map.empty)"
  define p where "p = \<lparr>gp_id = card (dom ps), gp_action = action, gp_created_at = now e, gp_created_by = caller,
       gp_executed = False, gp_canceled = False, gp_executable_at = 0, gp_multi_sig = \<lparr>ms_signers = [], ms_threshold = 5\<rparr>\<rparr>"
  have 1: "authorized e caller" "total_supply s div 100 \<le> get_token_balance s caller" "k = card (dom ps)"
    "s' = gov_publish (Prop_New k p) (s\<lparr>gs_proposals := Some (ps(k \<mapsto> p)), gs_votes := Some (vs(k \<mapsto> []))\<rparr>)"
    using assms by (auto simp: create_proposal_def gov_defs Let_def put_gov_proposal_def ps_def vs_def p_def)
  have ps: "ps = props_of s" by (simp add: ps_def props_of_def)
  show "authorized e caller" "total_supply s div 100 \<le> get_token_balance s caller" "k = card (dom (props_of s))"
    using 1(1-3) by (simp_all add: ps)
  show "props_of s' = (props_of s)(k \<mapsto> \<lparr>gp_id = k, gp_action = action, gp_created_at = now e, gp_created_by = caller,
       gp_executed = False, gp_canceled = False, gp_executable_at = 0, gp_multi_sig = \<lparr>ms_signers = [], ms_threshold = 5\<rparr>\<rparr>)"
    by (simp add: 1(3,4) gov_publish_def props_of_def [of "_ :: gov_store"] p_def ps)
  show "votes_of s' = (votes_of s)(k := [])"
    by (rule ext) (simp add: 1(4) gov_publish_def votes_of_def vs_def split: option.splits)
  show "same_rest s s'" "same_params s s'" "gs_core s' = gs_core s" "gs_nonces s' = gs_nonces s" "gs_delegations s' = gs_delegations s"
    by (simp_all add: 1(4) gov_publish_def same_rest_def same_params_def)
qed

lemma close_effect:
  assumes "close_if_passed e s ps k p v = Inr s'"
  shows "s' = (if passes (total_supply s) v then put_gov_proposal s ps k (p\<lparr>gp_executable_at := now e + 172800\<rparr>) else s)"
proof -
  from assms obtain r where r: "tally_votes v = Inr r" by (auto simp: close_if_passed_def bindR_eq_Inr)
  obtain f a where fa: "r = (f, a)" by (cases r)
  from assms r fa obtain q b where
    2: "quorum_of (total_supply s) = Inr q" "(if q \<le> f + a then approved f a else Inr False) = Inr b"
      "(if b then bindR (u_add 64 (now e) 172800) (\<lambda>t. Inr (put_gov_proposal s ps k (p\<lparr>gp_executable_at := t\<rparr>))) else Inr s)
         = (Inr s' :: (gov_store, counter_error) res)"
    by (simp add: close_if_passed_def bindR_eq_Inr u_add_eq_Inr) (elim conjE exE, rule that)
  have "b \<longleftrightarrow> passes (total_supply s) v"
    using tally_votes_eq [of v f a] r fa quorum_of_eq [OF 2(1)] 2(2) approved_eq [of f a b] by (auto simp: passes_def split: if_splits)
  with 2(3) show ?thesis by (auto simp: bindR_eq_Inr u_add_eq_Inr split: if_splits)
qed

lemma cast_effect:
  assumes "cast_vote e s caller k in_favor = Inr s'"
  obtains p v where "authorized e caller" "props_of s k = Some p" "\<not> gp_executed p" "gp_executable_at p = 0" "\<not> gp_canceled p"
    "caller \<notin> vt_voter ` set (votes_of s k)"
    "v = votes_of s k @ [\<lparr>vt_voter = caller, vt_weight = (if in_favor then int (weight_of s caller) else - int (weight_of s caller))\<rparr>]"
    "props_of s' = (props_of s)(k \<mapsto> p\<lparr>gp_executable_at := if passes (total_supply s) v then now e + 172800 else 0\<rparr>)"
    "votes_of s' = (votes_of s)(k := v)" "same_rest s s'" "same_params s s'" "gs_core s' = gs_core s" "gs_nonces s' = gs_nonces s"
    "gs_delegations s' = gs_delegations s"
proof -
  define v where "v = votes_of s k @ [\<lparr>vt_voter = caller, vt_weight = (if in_favor then int (weight_of s caller) else - int (weight_of s caller))\<rparr>]"
  from assms obtain ps p vs w where
    1: "authorized e caller" "gs_proposals s = Some ps" "ps k = Some p" "\<not> gp_executed p" "gp_executable_at p = 0" "\<not> gp_canceled p"
      "gs_votes s = Some vs" "vs k = Some w" "\<not> list_ex (\<lambda>v. vt_voter v = caller) w"
    by (auto simp: cast_vote_def gov_defs)
  have w: "votes_of s k = w" using 1 by (simp add: votes_of_def)
  define s1 where "s1 = s\<lparr>gs_votes := Some (vs(k \<mapsto> v))\<rparr>"
  have v': "v = w @ [\<lparr>vt_voter = caller, vt_weight = (if in_favor
      then int (calculate_voting_power (get_token_balance s (case get_delegate s caller of Some d \<Rightarrow> d | None \<Rightarrow> caller)))
      else - int (calculate_voting_power (get_token_balance s (case get_delegate s caller of Some d \<Rightarrow> d | None \<Rightarrow> caller))))\<rparr>]"
    by (simp add: v_def w weight_of_def)
  from assms 1 obtain s2 where 2: "close_if_passed e s1 ps k p v = Inr s2" "s' = gov_publish (Prop_Vote k caller in_favor) s2"
    unfolding v' s1_def cast_vote_def Let_def by (auto simp: gov_defs)
  have same: "p\<lparr>gp_executable_at := 0\<rparr> = p" using 1(5) by (cases p) simp
  have S: "total_supply s1 = total_supply s" by (simp add: s1_def total_supply_def)
  note s' = 2(2) [unfolded close_effect [OF 2(1)] S gov_publish_def put_gov_proposal_def]
  show thesis
  proof (rule that [OF 1(1) _ 1(4-6) _ v_def])
    show "props_of s k = Some p" using 1 by (simp add: props_of_def)
    show "caller \<notin> vt_voter ` set (votes_of s k)" using 1(9) by (auto simp: w list_ex_iff)
    show "props_of s' = (props_of s)(k \<mapsto> p\<lparr>gp_executable_at := if passes (total_supply s) v then now e + 172800 else 0\<rparr>)"
      using 1(2,3) same by (auto simp: s' props_of_def s1_def fun_eq_iff)
    show "votes_of s' = (votes_of s)(k := v)" using 1(7) by (auto simp: s' votes_of_def s1_def fun_eq_iff)
    show "same_rest s s'" "same_params s s'" "gs_core s' = gs_core s" "gs_nonces s' = gs_nonces s" "gs_delegations s' = gs_delegations s"
      by (simp_all add: s' same_rest_def same_params_def s1_def)
  qed
qed

text \<open>\<open>touched s s' k p q\<close>: the call replaced proposal \<open>p\<close> under \<open>k\<close> by \<open>q\<close> and left the rest alone.\<close>

definition touched :: "gov_store \<Rightarrow> gov_store \<Rightarrow> nat \<Rightarrow> gov_proposal \<Rightarrow> gov_proposal \<Rightarrow> bool" where
  "touched s s' k p q \<longleftrightarrow> props_of s k = Some p \<and> props_of s' = (props_of s)(k \<mapsto> q) \<and> votes_of s' = votes_of s
     \<and> same_rest s s' \<and> same_params s s' \<and> gs_core s' = gs_core s \<and> gs_nonces s' = gs_nonces s
     \<and> gs_delegations s' = gs_delegations s"

definition gov_signers :: "gov_store \<Rightarrow> address set" where
  "gov_signers s = (case gs_council s of Some c \<Rightarrow> set c | None \<Rightarrow> {})
     \<union> (case gs_multi_sig s of Some c \<Rightarrow> set (ms_signers c) | None \<Rightarrow> {})"

definition add_signature :: "address \<Rightarrow> gov_proposal \<Rightarrow> gov_proposal" where
  "add_signature a p = p\<lparr>gp_multi_sig := (gp_multi_sig p)\<lparr>ms_signers := ms_signers (gp_multi_sig p) @ [a]\<rparr>\<rparr>"

lemmas touch_defs = touched_def gov_publish_def put_gov_proposal_def props_of_def votes_of_def same_rest_def same_params_def

lemma touched_put:
  "gs_proposals s = Some ps \<Longrightarrow> ps k = Some p \<Longrightarrow> touched s (gov_publish ev (put_gov_proposal s ps k q)) k p q"
  by (auto simp: touch_defs fun_eq_iff)

lemma sign_effect:
  assumes "sign_proposal e s caller k = Inr s'"
  obtains p where "authorized e caller" "caller \<in> gov_signers s" "\<not> gp_executed p" "touched s s' k p (add_signature caller p)"
proof -
  from assms obtain ps p where "authorized e caller" "caller \<in> gov_signers s" "gs_proposals s = Some ps" "ps k = Some p" "\<not> gp_executed p"
      and s': "s' = gov_publish (Prop_Sign k caller) (put_gov_proposal s ps k (add_signature caller p))"
    by (auto simp: sign_proposal_def gov_defs Let_def gov_signers_def simp flip: add_signature_def)
  then show thesis by (intro that [of p]) (simp_all add: s' touched_put)
qed

lemma cancel_effect:
  assumes "cancel_proposal e s caller k = Inr s'"
  obtains p where "authorized e caller" "caller \<in> gov_signers s" "\<not> gp_executed p" "touched s s' k p (p\<lparr>gp_canceled := True\<rparr>)"
proof -
  from assms obtain ps p where "authorized e caller" "caller \<in> gov_signers s" "gs_proposals s = Some ps" "ps k = Some p" "\<not> gp_executed p"
      and s': "s' = gov_publish (Prop_Cncl k caller) (put_gov_proposal s ps k (p\<lparr>gp_canceled := True\<rparr>))"
    by (auto simp: cancel_proposal_def gov_defs Let_def gov_signers_def simp flip: add_signature_def)
  then show thesis by (intro that [of p]) (simp_all add: s' touched_put)
qed

lemma gov_approve_effect:
  assumes "approve_proposal e s caller k = Inr s'"
  obtains p where "authorized e caller" "caller \<in> gov_signers s" "\<not> gp_executed p" "caller \<notin> set (ms_signers (gp_multi_sig p))"
    "touched s s' k p (add_signature caller p)"
proof -
  from assms obtain ps p where "authorized e caller" "caller \<in> gov_signers s" "gs_proposals s = Some ps" "ps k = Some p" "\<not> gp_executed p" "caller \<notin> set (ms_signers (gp_multi_sig p))"
      and s': "s' = gov_publish (Prop_Approve k caller) (put_gov_proposal s ps k (add_signature caller p))"
    by (auto simp: approve_proposal_def get_multi_sig_config_def gov_defs Let_def gov_signers_def simp flip: add_signature_def)
  then show thesis by (intro that [of p]) (simp_all add: s' touched_put)
qed

definition in_range :: "param_key \<Rightarrow> int \<Rightarrow> bool" where
  "in_range q v \<longleftrightarrow> (case q of MaxSwapAmount \<Rightarrow> 0 < v \<and> v \<le> 1000000000000000000 | FeeBps \<Rightarrow> 0 \<le> v \<and> v \<le> 10000
     | RateLimitWindow \<Rightarrow> 60 \<le> v \<and> v \<le> 604800)"

lemma validate_eq_Inr: "validate_param_value q v = Inr u \<longleftrightarrow> in_range q v"
  by (cases q) (auto simp: ensure_eq_Inr in_range_def)

text \<open>What an action promises on the configuration it governs: admin, pause flag, treasury, parameters.\<close>

record gov_config =
  gc_admin :: "address option"
  gc_paused :: "bool option"
  gc_treasury :: "address option"
  gc_params :: "param_key \<rightharpoonup> int"

definition config_of :: "gov_store \<Rightarrow> gov_config" where
  "config_of s = \<lparr>gc_admin = cs_admin (gs_core s), gc_paused = cs_paused (gs_core s), gc_treasury = cs_treasury (gs_core s),
     gc_params = gs_params s\<rparr>"

fun action_spec :: "gov_action \<Rightarrow> gov_config \<Rightarrow> gov_config" where
  "action_spec PauseTrading c = c\<lparr>gc_paused := Some True\<rparr>"
| "action_spec ResumeTrading c = c\<lparr>gc_paused := Some False\<rparr>"
| "action_spec (SetAdmin a) c = c\<lparr>gc_admin := Some a\<rparr>"
| "action_spec (SetTreasury a) c = c\<lparr>gc_treasury := Some a\<rparr>"
| "action_spec (UpdatePoolFeeTier _ _) c = c"
| "action_spec (UpdateGovParam q v) c = c\<lparr>gc_params := (gc_params c)(q \<mapsto> v)\<rparr>"

lemma apply_action_effect:
  assumes "apply_gov_action e s caller a = Inr s'"
  shows "config_of s' = action_spec a (config_of s)" "gs_proposals s' = gs_proposals s" "gs_votes s' = gs_votes s" "same_rest s s'"
    "gs_timelock s' = gs_timelock s" "gs_updates s' = gs_updates s" "gs_update_counter s' = gs_update_counter s"
    "gs_nonces s' = gs_nonces s" "gs_delegations s' = gs_delegations s"
    "case a of UpdateGovParam q v \<Rightarrow> in_range q v \<and> gs_params s' = (gs_params s)(q \<mapsto> v) | _ \<Rightarrow> gs_params s' = gs_params s"
  using assms
  by (cases a; auto simp: config_of_def same_rest_def apply_param_update_def bindR_eq_Inr validate_eq_Inr gov_publish_def
      update_pool_fee_tier_def save_pool_registry_def)+

lemma gov_execute_effect:
  assumes "execute_proposal e s caller k = Inr s'"
  obtains p s1 where "authorized e caller" "props_of s k = Some p" "\<not> gp_executed p" "gp_executable_at p \<le> now e"
    "ms_threshold (gp_multi_sig p) \<le> length (ms_signers (gp_multi_sig p))" "passes (total_supply s) (votes_of s k)"
    "apply_gov_action e s caller (gp_action p) = Inr s1"
    "s' = gov_publish (Prop_Exec k caller) (put_gov_proposal s1 (props_of s) k (p\<lparr>gp_executed := True\<rparr>))"
proof -
  from assms obtain ps p vs v where
    1: "authorized e caller" "gs_proposals s = Some ps" "ps k = Some p" "\<not> gp_executed p" "\<not> now e < gp_executable_at p"
      "\<not> length (ms_signers (gp_multi_sig p)) < ms_threshold (gp_multi_sig p)" "gs_votes s = Some vs" "vs k = Some v"
    by (auto simp: execute_proposal_def gov_defs)
  with assms obtain r where r: "tally_votes v = Inr r" by (auto simp: execute_proposal_def gov_defs)
  obtain f a where fa: "r = (f, a)" by (cases r)
  from assms 1 r fa obtain q s1 where
    2: "quorum_of (total_supply s) = Inr q" "\<not> f + a < q" "approved f a = Inr True"
      "apply_gov_action e s caller (gp_action p) = Inr s1"
      "s' = gov_publish (Prop_Exec k caller) (put_gov_proposal s1 ps k (p\<lparr>gp_executed := True\<rparr>))"
    by (auto simp: execute_proposal_def gov_defs)
  have "passes (total_supply s) v"
    using tally_votes_eq [of v f a] r fa quorum_of_eq [OF 2(1)] 2(2) approved_eq [OF 2(3)] by (simp add: passes_def)
  then show thesis using 1 2(4,5) by (intro that [of p s1]) (simp_all add: props_of_def votes_of_def)
qed

section \<open>The machine\<close>

datatype gov_call =
    Create address gov_action
  | Cast address nat bool
  | Sign address nat
  | Approve address nat
  | Cancel address nat
  | Execute address nat
  | Set_Delay address nat
  | Propose_Update address param_key int
  | Execute_Update address nat
  | Delegate address address
  | Revoke address
  | Use_Nonce address nat
  | Elsewhere counter_store

text \<open>\<open>Elsewhere\<close> stands for any other call of the contract: it may change the rest of the storage at will.\<close>

fun gov_exec :: "env \<Rightarrow> gov_store \<Rightarrow> gov_call \<Rightarrow> (gov_store, counter_error) res" where
  "gov_exec e s (Create a x) = bindR (create_proposal e s a x) (\<lambda>(_, s'). Inr s')"
| "gov_exec e s (Cast a k b) = cast_vote e s a k b"
| "gov_exec e s (Sign a k) = sign_proposal e s a k"
| "gov_exec e s (Approve a k) = approve_proposal e s a k"
| "gov_exec e s (Cancel a k) = cancel_proposal e s a k"
| "gov_exec e s (Execute a k) = execute_proposal e s a k"
| "gov_exec e s (Set_Delay a d) = set_timelock_delay e s a d"
| "gov_exec e s (Propose_Update a q v) = bindR (propose_update e s a q v) (\<lambda>(_, s'). Inr s')"
| "gov_exec e s (Execute_Update a i) = execute_update e s a i"
| "gov_exec e s (Delegate a b) = delegate_vote e s a b"
| "gov_exec e s (Revoke a) = revoke_delegation e s a"
| "gov_exec e s (Use_Nonce a n) = consume s a n"
| "gov_exec e s (Elsewhere c) = Inr (s\<lparr>gs_core := c\<rparr>)"

text \<open>A state is the time of the last call and the storage; ledger time does not go back.\<close>

inductive gov_step :: "nat \<times> gov_store \<Rightarrow> nat \<times> gov_store \<Rightarrow> bool" where
  gov_call: "t \<le> now e \<Longrightarrow> gov_exec e s c = Inr s' \<Longrightarrow> gov_step (t, s) (now e, s')"

inductive_cases gov_stepE: "gov_step (t, s) (t', s')"

definition gov_init :: "nat \<times> gov_store \<Rightarrow> bool" where
  "gov_init ts \<longleftrightarrow> (let s = snd ts in gs_proposals s = None \<and> gs_votes s = None \<and> gs_delegations s = None \<and> gs_timelock s = None
     \<and> gs_updates s = Map.empty \<and> gs_update_counter s = None \<and> gs_params s = Map.empty \<and> gs_nonces s = (\<lambda>_. False) \<and> gs_events s = [])"

abbreviation gov_reachable :: "nat \<times> gov_store \<Rightarrow> bool" where
  "gov_reachable \<equiv> reachable gov_init gov_step"

lemma gov_reach: "gov_reachable (t, s) \<Longrightarrow> t \<le> now e \<Longrightarrow> gov_exec e s c = Inr s' \<Longrightarrow> gov_reachable (now e, s')"
  by (blast intro: reach_step gov_call)

section \<open>The invariant\<close>

definition prop_ok :: "nat \<Rightarrow> nat \<Rightarrow> address set \<Rightarrow> nat \<Rightarrow> gov_proposal \<Rightarrow> vote list \<Rightarrow> bool" where
  "prop_ok t supply A k p v \<longleftrightarrow> gp_id p = k \<and> gp_created_at p \<le> t
     \<and> (gp_executable_at p = 0 \<longrightarrow> v = [] \<or> \<not> passes supply v)
     \<and> (gp_executable_at p \<noteq> 0 \<longrightarrow> gp_created_at p + 172800 \<le> gp_executable_at p)
     \<and> distinct (map vt_voter v) \<and> set (ms_signers (gp_multi_sig p)) \<subseteq> A \<and> ms_threshold (gp_multi_sig p) = 5"

definition update_ok :: "pending_update \<Rightarrow> bool" where
  "update_ok u \<longleftrightarrow> in_range (pu_param u) (pu_new_value u) \<and> pu_proposed_at u + PARAM_TIMELOCK_MIN \<le> pu_executable_at u"

definition proposals_ok :: "nat \<Rightarrow> gov_store \<Rightarrow> bool" where
  "proposals_ok t s \<longleftrightarrow> (\<exists>n. dom (props_of s) = {..<n})
     \<and> (\<forall>k p. props_of s k = Some p \<longrightarrow> prop_ok t (total_supply s) (gov_signers s) k p (votes_of s k))"

definition params_ok :: "gov_store \<Rightarrow> bool" where
  "params_ok s \<longleftrightarrow> (\<forall>i u. gs_updates s i = Some u \<longrightarrow> update_ok u) \<and> (\<forall>q v. gs_params s q = Some v \<longrightarrow> in_range q v)
     \<and> PARAM_TIMELOCK_MIN \<le> get_timelock_delay s"

definition gov_ok :: "nat \<times> gov_store \<Rightarrow> bool" where
  "gov_ok ts \<longleftrightarrow> proposals_ok (fst ts) (snd ts) \<and> params_ok (snd ts)"

lemma same_rest_cong: "same_rest s s' \<Longrightarrow> total_supply s' = total_supply s \<and> gov_signers s' = gov_signers s"
  by (simp add: same_rest_def total_supply_def gov_signers_def)

lemma same_params_ok: "params_ok s \<Longrightarrow> same_params s s' \<Longrightarrow> params_ok s'"
  by (simp add: params_ok_def same_params_def get_timelock_delay_def)

lemma prop_ok_later: "prop_ok t n A k p v \<Longrightarrow> t \<le> t' \<Longrightarrow> prop_ok t' n A k p v"
  by (simp add: prop_ok_def)

lemma proposals_later:
  assumes "proposals_ok t s" "t \<le> t'" "props_of s' = props_of s" "votes_of s' = votes_of s" "same_rest s s'"
  shows "proposals_ok t' s'"
  using assms same_rest_cong [OF assms(5)] by (auto simp: proposals_ok_def intro: prop_ok_later)

text \<open>Replacing one proposal, or adding the next, keeps the rest of the invariant.\<close>

lemma proposals_put:
  assumes ok: "proposals_ok t s" "t \<le> t'" and s': "props_of s' = (props_of s)(k \<mapsto> q)" "same_rest s s'"
    and votes: "\<And>i. i \<noteq> k \<Longrightarrow> votes_of s' i = votes_of s i" and q: "prop_ok t' (total_supply s) (gov_signers s) k q (votes_of s' k)"
    and k: "k \<in> dom (props_of s) \<or> k = card (dom (props_of s))"
  shows "proposals_ok t' s'"
proof -
  obtain n where n: "dom (props_of s) = {..<n}" using ok(1) by (auto simp: proposals_ok_def)
  have "dom (props_of s') = insert k {..<n}" using s'(1) n by simp
  also have "\<dots> = {..<n} \<or> \<dots> = {..<Suc n}" using k n by (auto simp: lessThan_Suc)
  finally have "\<exists>n. dom (props_of s') = {..<n}" by blast
  moreover have "prop_ok t' (total_supply s) (gov_signers s) i p (votes_of s' i)" if "props_of s' i = Some p" for i p
    using that ok s'(1) votes [of i] q by (cases "i = k") (auto simp: proposals_ok_def intro: prop_ok_later)
  ultimately show ?thesis using same_rest_cong [OF s'(2)] by (auto simp: proposals_ok_def)
qed

lemma proposals_touched:
  assumes ok: "proposals_ok t s" "t \<le> t'" and tch: "touched s s' k p q"
    and q: "prop_ok t' (total_supply s) (gov_signers s) k p (votes_of s k) \<Longrightarrow> prop_ok t' (total_supply s) (gov_signers s) k q (votes_of s k)"
  shows "proposals_ok t' s'"
proof (rule proposals_put [OF ok])
  show "props_of s' = (props_of s)(k \<mapsto> q)" "same_rest s s'" using tch by (simp_all add: touched_def)
  show "votes_of s' i = votes_of s i" for i using tch by (simp add: touched_def)
  have "prop_ok t' (total_supply s) (gov_signers s) k p (votes_of s k)"
    using tch ok by (auto simp: touched_def proposals_ok_def intro: prop_ok_later)
  then show "prop_ok t' (total_supply s) (gov_signers s) k q (votes_of s' k)" using q tch by (simp add: touched_def)
  show "k \<in> dom (props_of s) \<or> k = card (dom (props_of s))" using tch by (auto simp: touched_def)
qed

section \<open>Every call keeps the invariant\<close>

lemma create_ok:
  assumes ok: "gov_ok (t, s)" "t \<le> now e" and c: "create_proposal e s a x = Inr (k, s')"
  shows "gov_ok (now e, s')"
proof -
  note c = gov_create_effect [OF c]
  have "proposals_ok (now e) s'"
    using ok c by (intro proposals_put [of t s "now e" s' k]) (auto simp: gov_ok_def prop_ok_def)
  then show ?thesis using ok same_params_ok [OF _ c(7)] by (simp add: gov_ok_def)
qed

lemma cast_ok:
  assumes ok: "gov_ok (t, s)" "t \<le> now e" and c: "cast_vote e s a k b = Inr s'"
  shows "gov_ok (now e, s')"
  using c
proof (rule cast_effect)
  fix p v
  assume p: "props_of s k = Some p" "a \<notin> vt_voter ` set (votes_of s k)"
    and v: "v = votes_of s k @ [\<lparr>vt_voter = a, vt_weight = (if b then int (weight_of s a) else - int (weight_of s a))\<rparr>]"
    and s': "props_of s' = (props_of s)(k \<mapsto> p\<lparr>gp_executable_at := if passes (total_supply s) v then now e + 172800 else 0\<rparr>)"
      "votes_of s' = (votes_of s)(k := v)" "same_rest s s'" "same_params s s'"
  have "prop_ok t (total_supply s) (gov_signers s) k p (votes_of s k)" using ok p by (auto simp: gov_ok_def proposals_ok_def)
  then have "prop_ok (now e) (total_supply s) (gov_signers s) k
      (p\<lparr>gp_executable_at := if passes (total_supply s) v then now e + 172800 else 0\<rparr>) v"
    using ok(2) p(2) by (auto simp: prop_ok_def v)
  then have "proposals_ok (now e) s'"
    using ok p by (intro proposals_put [OF _ ok(2) s'(1,3)]) (auto simp: gov_ok_def s'(2))
  then show ?thesis using ok same_params_ok [OF _ s'(4)] by (simp add: gov_ok_def)
qed

lemma touched_ok:
  assumes ok: "gov_ok (t, s)" "t \<le> t'" and tch: "touched s s' k p q"
    and q: "prop_ok t' (total_supply s) (gov_signers s) k p (votes_of s k) \<Longrightarrow> prop_ok t' (total_supply s) (gov_signers s) k q (votes_of s k)"
  shows "gov_ok (t', s')"
  using proposals_touched [OF _ ok(2) tch q] ok(1) same_params_ok [of s s'] tch by (simp add: gov_ok_def touched_def)

lemma sign_ok: "gov_ok (t, s) \<Longrightarrow> t \<le> now e \<Longrightarrow> sign_proposal e s a k = Inr s' \<Longrightarrow> gov_ok (now e, s')"
  by (erule sign_effect, erule (2) touched_ok) (simp add: prop_ok_def add_signature_def)

lemma approve_ok: "gov_ok (t, s) \<Longrightarrow> t \<le> now e \<Longrightarrow> approve_proposal e s a k = Inr s' \<Longrightarrow> gov_ok (now e, s')"
  by (erule gov_approve_effect, erule (2) touched_ok) (simp add: prop_ok_def add_signature_def)

lemma cancel_ok: "gov_ok (t, s) \<Longrightarrow> t \<le> now e \<Longrightarrow> cancel_proposal e s a k = Inr s' \<Longrightarrow> gov_ok (now e, s')"
  by (erule cancel_effect, erule (2) touched_ok) (simp add: prop_ok_def)

lemma execute_ok:
  assumes ok: "gov_ok (t, s)" "t \<le> now e" and x: "execute_proposal e s a k = Inr s'"
  shows "gov_ok (now e, s')"
  using x
proof (rule gov_execute_effect)
  fix p s1
  assume p: "props_of s k = Some p" and x: "apply_gov_action e s a (gp_action p) = Inr s1"
    and s': "s' = gov_publish (Prop_Exec k a) (put_gov_proposal s1 (props_of s) k (p\<lparr>gp_executed := True\<rparr>))"
  note x = apply_action_effect [OF x]
  have s1: "props_of s' = (props_of s)(k \<mapsto> p\<lparr>gp_executed := True\<rparr>)" "votes_of s' = votes_of s" "same_rest s s'"
    using x by (simp_all add: s' gov_publish_def put_gov_proposal_def props_of_def votes_of_def same_rest_def fun_eq_iff)
  have "prop_ok (now e) (total_supply s) (gov_signers s) k (p\<lparr>gp_executed := True\<rparr>) (votes_of s k)"
    using ok p by (fastforce simp: gov_ok_def proposals_ok_def prop_ok_def)
  then have "proposals_ok (now e) s'"
    using ok p by (intro proposals_put [OF _ ok(2) s1(1,3)]) (auto simp: gov_ok_def s1(2))
  moreover have "params_ok s'"
    using ok x(5-7,10) by (auto simp: gov_ok_def params_ok_def get_timelock_delay_def s' gov_publish_def put_gov_proposal_def
        split: gov_action.splits if_splits)
  ultimately show ?thesis by (simp add: gov_ok_def)
qed

lemma same_proposals_ok:
  assumes "gov_ok (t, s)" "t \<le> t'" "gs_proposals s' = gs_proposals s" "gs_votes s' = gs_votes s" "same_rest s s'" "params_ok s'"
  shows "gov_ok (t', s')"
  using assms proposals_later [of t s t' s'] by (simp add: gov_ok_def props_of_def votes_of_def fun_eq_iff)

lemma set_delay_ok:
  assumes "gov_ok (t, s)" "t \<le> now e" "set_timelock_delay e s a d = Inr s'"
  shows "gov_ok (now e, s')"
  using assms
  by (intro same_proposals_ok [OF assms(1,2)])
    (auto simp: set_timelock_delay_def gov_defs gov_publish_def same_rest_def gov_ok_def params_ok_def get_timelock_delay_def)

lemma propose_update_effect:
  assumes "propose_update e s a q v = Inr (i, s')"
  shows "authorized e a" "cs_admin (gs_core s) = Some a" "in_range q v"
    "s' = gov_publish (Upd_Proposed i a v) (s\<lparr>gs_updates := (gs_updates s)(i \<mapsto> \<lparr>pu_param = q, pu_new_value = v,
        pu_proposed_at = now e, pu_executable_at = now e + get_timelock_delay s, pu_proposer = a, pu_executed = False\<rparr>),
        gs_update_counter := Some (i + 1)\<rparr>)"
  using assms by (auto simp: propose_update_def gov_defs Let_def validate_eq_Inr)

lemma propose_update_ok:
  assumes "gov_ok (t, s)" "t \<le> now e" "propose_update e s a q v = Inr (i, s')"
  shows "gov_ok (now e, s')"
proof (rule same_proposals_ok [OF assms(1,2)])
  note s' = propose_update_effect [OF assms(3)]
  show "params_ok s'" using assms(1) s'(3)
    by (auto simp: s'(4) gov_publish_def gov_ok_def params_ok_def update_ok_def get_timelock_delay_def split: if_splits)
qed (simp_all add: propose_update_effect(4) [OF assms(3)] gov_publish_def same_rest_def)

lemma execute_update_effect:
  assumes "execute_update e s a i = Inr s'"
  obtains u where "gs_updates s i = Some u" "\<not> pu_executed u" "pu_executable_at u \<le> now e" "authorized e a" "cs_admin (gs_core s) = Some a"
    "s' = gov_publish (Upd_Executed i a (pu_new_value u)) (s\<lparr>gs_params := (gs_params s)(pu_param u \<mapsto> pu_new_value u),
          gs_updates := (gs_updates s)(i \<mapsto> u\<lparr>pu_executed := True\<rparr>)\<rparr>)"
  using assms by (auto simp: execute_update_def gov_defs)

lemma execute_update_ok:
  assumes "gov_ok (t, s)" "t \<le> now e" "execute_update e s a i = Inr s'"
  shows "gov_ok (now e, s')"
  using assms(3)
proof (rule execute_update_effect)
  fix u assume u: "gs_updates s i = Some u"
    and s': "s' = gov_publish (Upd_Executed i a (pu_new_value u)) (s\<lparr>gs_params := (gs_params s)(pu_param u \<mapsto> pu_new_value u),
          gs_updates := (gs_updates s)(i \<mapsto> u\<lparr>pu_executed := True\<rparr>)\<rparr>)"
  have "update_ok u" using assms(1) u by (auto simp: gov_ok_def params_ok_def)
  then have "params_ok s'" using assms(1) by (auto simp: s' gov_publish_def gov_ok_def params_ok_def update_ok_def get_timelock_delay_def split: if_splits)
  then show ?thesis by (intro same_proposals_ok [OF assms(1,2)]) (simp_all add: s' gov_publish_def same_rest_def)
qed

lemma other_ok:
  assumes "gov_ok (t, s)" "t \<le> t'" "gs_proposals s' = gs_proposals s" "gs_votes s' = gs_votes s" "same_rest s s'" "same_params s s'"
  shows "gov_ok (t', s')"
  using assms same_params_ok [of s s'] by (intro same_proposals_ok [OF assms(1,2)]) (simp_all add: gov_ok_def)

lemma delegate_effect:
  assumes "delegate_vote e s a b = Inr s'"
  obtains m where "authorized e a" "s' = gov_publish (Del_Vote a b) (s\<lparr>gs_delegations := Some (m(a \<mapsto> b))\<rparr>)"
    "\<And>x. get_delegate s' x = (if x = a then Some b else get_delegate s x)"
  using assms
  by (auto simp: delegate_vote_def gov_defs Let_def get_delegate_def gov_publish_def split: option.splits intro!: that)

lemma revoke_effect:
  assumes "revoke_delegation e s a = Inr s'"
  obtains m where "authorized e a" "s' = gov_publish (Del_Revk a) (s\<lparr>gs_delegations := m\<rparr>)"
  using assms by (auto simp: revoke_delegation_def gov_defs)

lemma consume_eq_Inr:
  "consume s a n = Inr s' \<longleftrightarrow> \<not> is_used s a n \<and> s' = gov_publish (Nonce_Used a n) (s\<lparr>gs_nonces := (gs_nonces s)((a, n) := True)\<rparr>)"
  by (auto simp: consume_def gov_defs is_used_def)

lemma gov_exec_ok:
  assumes ok: "gov_ok (t, s)" "t \<le> now e" and c: "gov_exec e s c = Inr s'"
  shows "gov_ok (now e, s')"
proof (cases c)
  case (Create a x)
  with c obtain k where "create_proposal e s a x = Inr (k, s')" by (auto simp: bindR_eq_Inr)
  then show ?thesis by (rule create_ok [OF ok])
next
  case (Propose_Update a q v)
  with c obtain k where "propose_update e s a q v = Inr (k, s')" by (auto simp: bindR_eq_Inr)
  then show ?thesis by (rule propose_update_ok [OF ok])
next
  case (Delegate a b)
  with c have "delegate_vote e s a b = Inr s'" by simp
  then show ?thesis by (rule delegate_effect) (intro other_ok [OF ok], simp_all add: gov_publish_def same_rest_def same_params_def)
next
  case (Revoke a)
  with c have "revoke_delegation e s a = Inr s'" by simp
  then show ?thesis by (rule revoke_effect) (intro other_ok [OF ok], simp_all add: gov_publish_def same_rest_def same_params_def)
next
  case (Use_Nonce a n)
  with c have "s' = gov_publish (Nonce_Used a n) (s\<lparr>gs_nonces := (gs_nonces s)((a, n) := True)\<rparr>)" by (simp add: consume_eq_Inr)
  then show ?thesis by (intro other_ok [OF ok]) (simp_all add: gov_publish_def same_rest_def same_params_def)
next
  case (Elsewhere d)
  with c have "s' = s\<lparr>gs_core := d\<rparr>" by simp
  then show ?thesis by (intro other_ok [OF ok]) (simp_all add: same_rest_def same_params_def)
next
  case (Cast a k b) then show ?thesis using c by (intro cast_ok [OF ok]) simp
next
  case (Sign a k) then show ?thesis using c by (intro sign_ok [OF ok]) simp
next
  case (Approve a k) then show ?thesis using c by (intro approve_ok [OF ok]) simp
next
  case (Cancel a k) then show ?thesis using c by (intro cancel_ok [OF ok]) simp
next
  case (Execute a k) then show ?thesis using c by (intro execute_ok [OF ok]) simp
next
  case (Set_Delay a d) then show ?thesis using c by (intro set_delay_ok [OF ok]) simp
next
  case (Execute_Update a i) then show ?thesis using c by (intro execute_update_ok [OF ok]) simp
qed

lemma gov_init_ok: "gov_init ts \<Longrightarrow> gov_ok ts"
  by (auto simp: gov_init_def gov_ok_def proposals_ok_def params_ok_def props_of_def get_timelock_delay_def
      PARAM_TIMELOCK_MIN_def PARAM_TIMELOCK_DEFAULT_def Let_def intro: exI [of _ 0])

lemma gov_step_ok: "gov_step ts ts' \<Longrightarrow> gov_ok ts \<Longrightarrow> gov_ok ts'"
  by (auto elim!: gov_step.cases intro: gov_exec_ok)

interpretation gov_machine: machine_invariant gov_init gov_step gov_ok
  by unfold_locales (auto intro: gov_init_ok gov_step_ok)

end
