(* ===== verification/Gov_System_Props.thy ===== *)
theory Gov_System_Props
  imports Gov_System_Inv
begin

text \<open>
  The properties of the counter contract's governance: what has to happen before a proposal takes effect
  and what it then does, parameters and nonces; and what goes wrong with signatures, cancelled
  proposals, delegated votes and the quorum.
\<close>

section \<open>Helpers\<close>

lemma reachable_ok: "gov_reachable (t, s) \<Longrightarrow> gov_ok (t, s)"
  by (rule gov_machine.inv_reachable)

lemma executed_for_good:
  assumes "props_of s k = Some p" "gp_executed p"
  shows "execute_proposal e s a k \<noteq> Inr s'"
  using assms by (auto simp: execute_proposal_def gov_defs props_of_def split: option.splits)

lemma gov_exec_nonces:
  assumes "gov_exec e s c = Inr s'" and n: "gs_nonces s x"
  shows "gs_nonces s' x"
proof (cases c)
  case (Create a y) then show ?thesis using assms by (auto simp: bindR_eq_Inr dest: gov_create_effect(9))
next
  case (Cast a k b) then show ?thesis using assms by (auto elim: cast_effect)
next
  case (Sign a k) then show ?thesis using assms by (auto simp: touched_def elim: sign_effect)
next
  case (Approve a k) then show ?thesis using assms by (auto simp: touched_def elim: gov_approve_effect)
next
  case (Cancel a k) then show ?thesis using assms by (auto simp: touched_def elim: cancel_effect)
next
  case (Execute a k)
  with assms have "execute_proposal e s a k = Inr s'" by simp
  then show ?thesis by (rule gov_execute_effect) (use n in \<open>simp add: gov_publish_def put_gov_proposal_def apply_action_effect(8)\<close>)
next
  case (Set_Delay a d) then show ?thesis using assms by (auto simp: set_timelock_delay_def gov_defs gov_publish_def)
next
  case (Propose_Update a q v) then show ?thesis using assms
    by (auto simp: bindR_eq_Inr gov_publish_def dest: propose_update_effect(4))
next
  case (Execute_Update a i) then show ?thesis using assms by (auto simp: gov_publish_def elim: execute_update_effect)
next
  case (Delegate a b) then show ?thesis using assms by (auto simp: gov_publish_def elim: delegate_effect)
next
  case (Revoke a) then show ?thesis using assms by (auto simp: gov_publish_def elim: revoke_effect)
next
  case (Use_Nonce a n) then show ?thesis using assms by (auto simp: consume_eq_Inr gov_publish_def)
next
  case (Elsewhere d) then show ?thesis using assms by auto
qed

lemma gov_steps_nonces: "gov_step\<^sup>*\<^sup>* ts ts' \<Longrightarrow> gs_nonces (snd ts) x \<Longrightarrow> gs_nonces (snd ts') x"
  by (induction rule: rtranclp_induct) (auto elim!: gov_step.cases dest: gov_exec_nonces)

lemma sign_again:
  assumes "gs_proposals s = Some ps" "ps k = Some p" "\<not> gp_executed p" "gs_council s = Some C" "a \<in> set C" "authorized e a"
  shows "sign_proposal e s a k = Inr (gov_publish (Prop_Sign k a) (put_gov_proposal s ps k (add_signature a p)))"
  using assms by (simp add: sign_proposal_def require_auth_ok add_signature_def put_gov_proposal_def Let_def)

lemma sign_many:
  assumes "gs_proposals s = Some ps" "ps k = Some p" "\<not> gp_executed p" "gs_council s = Some C" "a \<in> set C" "authorized e a"
  shows "\<exists>s' q. foldR (\<lambda>_ s. sign_proposal e s a k) xs s = Inr s' \<and> props_of s' k = Some q
     \<and> ms_signers (gp_multi_sig q) = ms_signers (gp_multi_sig p) @ replicate (length xs) a"
  using assms
proof (induction xs arbitrary: s ps p)
  case Nil then show ?case by (auto simp: props_of_def)
next
  case (Cons x xs)
  let ?s = "gov_publish (Prop_Sign k a) (put_gov_proposal s ps k (add_signature a p))"
  have "\<exists>s' q. foldR (\<lambda>_ s. sign_proposal e s a k) xs ?s = Inr s' \<and> props_of s' k = Some q
     \<and> ms_signers (gp_multi_sig q) = ms_signers (gp_multi_sig (add_signature a p)) @ replicate (length xs) a"
    using Cons.prems by (intro Cons.IH [of ?s "ps(k \<mapsto> add_signature a p)" "add_signature a p"]) (simp_all add: gov_publish_def put_gov_proposal_def add_signature_def fun_upd_def)
  then show ?case using sign_again [OF Cons.prems] by (simp add: add_signature_def)
qed

lemma apply_action_cong:
  assumes "apply_gov_action e s a x = Inr t" "gs_core s1 = gs_core s" "gs_params s1 = gs_params s"
  shows "\<exists>t1. apply_gov_action e s1 a x = Inr t1 \<and> config_of t1 = config_of t \<and> gs_core t1 = gs_core t"
  using assms by (cases x) (auto simp: bindR_eq_Inr apply_param_update_def gov_publish_def config_of_def)

text \<open>Votes are only added by \<open>cast_vote\<close>, with the power of some balance; balances do not change.\<close>

lemma gov_exec_frame:
  assumes "gov_exec e s c = Inr s'"
  shows "same_rest s s' \<and> (\<forall>k v. v \<in> set (votes_of s' k) \<longrightarrow> v \<in> set (votes_of s k) \<or> (\<exists>a. nat \<bar>vt_weight v\<bar> = weight_of s a))"
proof (cases c)
  case (Create a x)
  with assms obtain k where "create_proposal e s a x = Inr (k, s')" by (auto simp: bindR_eq_Inr)
  from gov_create_effect(5,6) [OF this] show ?thesis by auto
next
  case (Cast a k b)
  with assms have "cast_vote e s a k b = Inr s'" by simp
  then show ?thesis by (rule cast_effect) auto
next
  case (Sign a k) then show ?thesis using assms by (auto simp: touched_def elim: sign_effect)
next
  case (Approve a k) then show ?thesis using assms by (auto simp: touched_def elim: gov_approve_effect)
next
  case (Cancel a k) then show ?thesis using assms by (auto simp: touched_def elim: cancel_effect)
next
  case (Execute a k)
  with assms have "execute_proposal e s a k = Inr s'" by simp
  then show ?thesis
  proof (rule gov_execute_effect)
    fix p s1 assume x: "apply_gov_action e s a (gp_action p) = Inr s1"
      and s': "s' = gov_publish (Prop_Exec k a) (put_gov_proposal s1 (props_of s) k (p\<lparr>gp_executed := True\<rparr>))"
    show ?thesis using apply_action_effect(3,4) [OF x]
      by (simp add: s' gov_publish_def put_gov_proposal_def same_rest_def votes_of_def)
  qed
next
  case (Set_Delay a d) then show ?thesis using assms by (auto simp: set_timelock_delay_def gov_defs gov_publish_def same_rest_def votes_of_def)
next
  case (Propose_Update a q v)
  with assms obtain i where "propose_update e s a q v = Inr (i, s')" by (auto simp: bindR_eq_Inr)
  from propose_update_effect(4) [OF this] show ?thesis by (simp add: gov_publish_def same_rest_def votes_of_def)
next
  case (Execute_Update a i)
  with assms have "execute_update e s a i = Inr s'" by simp
  then show ?thesis by (rule execute_update_effect) (simp add: gov_publish_def same_rest_def votes_of_def)
next
  case (Delegate a b)
  with assms have "delegate_vote e s a b = Inr s'" by simp
  then show ?thesis by (rule delegate_effect) (simp add: gov_publish_def same_rest_def votes_of_def)
next
  case (Revoke a)
  with assms have "revoke_delegation e s a = Inr s'" by simp
  then show ?thesis by (rule revoke_effect) (simp add: gov_publish_def same_rest_def votes_of_def)
next
  case (Use_Nonce a n) then show ?thesis using assms by (auto simp: consume_eq_Inr gov_publish_def same_rest_def votes_of_def)
next
  case (Elsewhere d) then show ?thesis using assms by (auto simp: same_rest_def votes_of_def)
qed

text \<open>No call takes an executed proposal back: the others refuse it, and a new proposal gets a new number.\<close>

definition proposal_executed :: "nat \<Rightarrow> gov_store \<Rightarrow> bool" where
  "proposal_executed k s \<longleftrightarrow> (\<exists>p. props_of s k = Some p \<and> gp_executed p)"

lemma executed_not_again: "proposal_executed k s \<Longrightarrow> execute_proposal e s a k \<noteq> Inr s'"
  by (auto simp: proposal_executed_def dest: executed_for_good)

lemma proposal_executed_touched: "touched s s' i p q \<Longrightarrow> \<not> gp_executed p \<Longrightarrow> proposal_executed k s \<Longrightarrow> proposal_executed k s'"
  by (auto simp: touched_def proposal_executed_def)

lemma proposal_executed_same: "proposal_executed k s \<Longrightarrow> gs_proposals s' = gs_proposals s \<Longrightarrow> proposal_executed k s'"
  by (simp add: proposal_executed_def props_of_def)

lemma gov_exec_executed:
  assumes ok: "gov_ok (t, s)" and c: "gov_exec e s c = Inr s'" and k: "proposal_executed k s"
  shows "proposal_executed k s'"
proof (cases c)
  case (Create a x)
  with c obtain i where "create_proposal e s a x = Inr (i, s')" by (auto simp: bindR_eq_Inr)
  note e = gov_create_effect(3,4) [OF this]
  obtain n where "dom (props_of s) = {..<n}" using ok by (auto simp: gov_ok_def proposals_ok_def)
  then have "i \<notin> dom (props_of s)" using e(1) by simp
  then show ?thesis using k by (auto simp: proposal_executed_def e(2))
next
  case (Cast a i b)
  with c have "cast_vote e s a i b = Inr s'" by simp
  then show ?thesis by (rule cast_effect) (use k in \<open>auto simp: proposal_executed_def\<close>)
next
  case (Sign a i) then show ?thesis using c k by (auto elim: sign_effect proposal_executed_touched)
next
  case (Approve a i) then show ?thesis using c k by (auto elim: gov_approve_effect proposal_executed_touched)
next
  case (Cancel a i) then show ?thesis using c k by (auto elim: cancel_effect proposal_executed_touched)
next
  case (Execute a i)
  with c have "execute_proposal e s a i = Inr s'" by simp
  then show ?thesis
    by (rule gov_execute_effect) (use k in \<open>auto simp: proposal_executed_def gov_publish_def put_gov_proposal_def props_of_def\<close>)
next
  case (Set_Delay a d) then show ?thesis using c
    by (intro proposal_executed_same [OF k]) (auto simp: set_timelock_delay_def gov_defs gov_publish_def)
next
  case (Propose_Update a q v) then show ?thesis using c
    by (intro proposal_executed_same [OF k]) (auto simp: bindR_eq_Inr gov_publish_def dest: propose_update_effect(4))
next
  case (Execute_Update a i) then show ?thesis using c
    by (intro proposal_executed_same [OF k]) (auto simp: gov_publish_def elim: execute_update_effect)
next
  case (Delegate a b) then show ?thesis using c by (intro proposal_executed_same [OF k]) (auto simp: gov_publish_def elim: delegate_effect)
next
  case (Revoke a) then show ?thesis using c by (intro proposal_executed_same [OF k]) (auto simp: gov_publish_def elim: revoke_effect)
next
  case (Use_Nonce a n) then show ?thesis using c by (intro proposal_executed_same [OF k]) (auto simp: consume_eq_Inr gov_publish_def)
next
  case (Elsewhere d) then show ?thesis using c by (intro proposal_executed_same [OF k]) auto
qed

lemma gov_steps_executed:
  assumes "gov_step\<^sup>*\<^sup>* ts ts'" and "gov_ok ts" and "proposal_executed k (snd ts)"
  shows "proposal_executed k (snd ts')"
proof -
  from assms have "gov_ok ts' \<and> proposal_executed k (snd ts')"
    by (induction rule: rtranclp_induct) (auto elim!: gov_step.cases intro: gov_exec_ok gov_exec_executed)
  then show ?thesis ..
qed

definition weights_ok :: "nat \<times> gov_store \<Rightarrow> bool" where
  "weights_ok ts \<longleftrightarrow> (\<forall>k v. v \<in> set (votes_of (snd ts) k) \<longrightarrow>
     (\<exists>a. nat \<bar>vt_weight v\<bar> = calculate_voting_power (get_token_balance (snd ts) a)))"

lemma weights_step:
  assumes "gov_exec e s c = Inr s'" and "weights_ok (t, s)"
  shows "weights_ok (t', s')"
proof -
  have "get_token_balance s' = get_token_balance s" using gov_exec_frame [OF assms(1)] by (simp add: same_rest_def get_token_balance_def fun_eq_iff)
  then show ?thesis using gov_exec_frame [OF assms(1)] assms(2) unfolding weights_ok_def snd_conv weight_of_def by metis
qed

lemma gov_step_weights: "gov_step ts ts' \<Longrightarrow> weights_ok ts \<Longrightarrow> weights_ok ts'"
  by (auto elim!: gov_step.cases intro: weights_step)

lemma gov_init_weights: "gov_init ts \<Longrightarrow> weights_ok ts"
  by (simp add: gov_init_def weights_ok_def votes_of_def Let_def)

interpretation gov_weights: machine_invariant gov_init gov_step weights_ok
  by unfold_locales (auto intro: gov_step_weights gov_init_weights)

section \<open>Properties\<close>

text \<open>
  C31: where the supply is at least 4, so that the quorum is not rounded down to zero, a proposal takes
  effect at the earliest 48 hours after its creation, after votes that reached the quorum of 30 percent of
  the supply and 60 percent in favour, with one vote per address, and with five signatures, not necessarily
  by five different accounts, all of members of the council or configured signers. It takes effect only
  once: no execution of it succeeds in any state the contract reaches from there.
\<close>

theorem proposal_waits_two_days:
  assumes run: "gov_reachable (t, s)" "t \<le> now e" and n4: "4 \<le> total_supply s" and ex: "execute_proposal e s a k = Inr s'"
    and later: "gov_step\<^sup>*\<^sup>* (now e, s') (t2, s2)"
  shows "\<exists>p. props_of s k = Some p \<and> gp_created_at p + 172800 \<le> now e \<and> passes (total_supply s) (votes_of s k)
     \<and> distinct (map vt_voter (votes_of s k)) \<and> 5 \<le> length (ms_signers (gp_multi_sig p))
     \<and> set (ms_signers (gp_multi_sig p)) \<subseteq> gov_signers s \<and> execute_proposal e2 s2 b k \<noteq> Inr s3"
  using ex
proof (rule gov_execute_effect)
  fix p s1 assume p: "props_of s k = Some p" "gp_executable_at p \<le> now e" "passes (total_supply s) (votes_of s k)"
      "ms_threshold (gp_multi_sig p) \<le> length (ms_signers (gp_multi_sig p))"
    and s': "s' = gov_publish (Prop_Exec k a) (put_gov_proposal s1 (props_of s) k (p\<lparr>gp_executed := True\<rparr>))"
  have ok: "prop_ok t (total_supply s) (gov_signers s) k p (votes_of s k)"
    using reachable_ok [OF run(1)] p(1) by (auto simp: gov_ok_def proposals_ok_def)
  have "gov_ok (now e, s')" using execute_ok [OF reachable_ok [OF run(1)] run(2) ex] .
  moreover have "proposal_executed k s'" by (simp add: proposal_executed_def s' gov_publish_def put_gov_proposal_def props_of_def)
  ultimately have "execute_proposal e2 s2 b k \<noteq> Inr s3" using gov_steps_executed [OF later] executed_not_again by fastforce
  then show ?thesis using ok p n4 by (auto simp: prop_ok_def passes_empty)
qed

text \<open>
  An executed proposal changes exactly what its action names, the pause flag, the admin, the treasury
  or one parameter, and nothing else of that configuration.
\<close>

theorem executed_action_applies:
  assumes "execute_proposal e s a k = Inr s'"
  shows "\<exists>p. props_of s k = Some p \<and> config_of s' = action_spec (gp_action p) (config_of s)"
  using assms
proof (rule gov_execute_effect)
  fix p s1 assume "props_of s k = Some p" "apply_gov_action e s a (gp_action p) = Inr s1"
    "s' = gov_publish (Prop_Exec k a) (put_gov_proposal s1 (props_of s) k (p\<lparr>gp_executed := True\<rparr>))"
  then show ?thesis by (auto simp: gov_publish_def put_gov_proposal_def config_of_def dest: apply_action_effect(1))
qed

text \<open>
  A governed parameter is always in its range, whether the admin set it through the timelock or a
  proposal set it: a fee of at most 100 percent, a window of a minute to a week, a positive swap limit.
\<close>

theorem params_stay_in_range:
  assumes "gov_reachable (t, s)" and "get_param s q = Some v"
  shows "case q of MaxSwapAmount \<Rightarrow> 0 < v \<and> v \<le> 1000000000000000000 | FeeBps \<Rightarrow> 0 \<le> v \<and> v \<le> 10000
     | RateLimitWindow \<Rightarrow> 60 \<le> v \<and> v \<le> 604800"
  using reachable_ok [OF assms(1)] assms(2) by (simp add: gov_ok_def params_ok_def get_param_def flip: in_range_def)

text \<open>
  A queued update is applied by the admin only, at the earliest a day after it was proposed, however
  the timelock is set in between; it writes its one parameter, and only once.
\<close>

theorem update_waits_a_day:
  assumes "gov_reachable (t, s)" and "execute_update e s a i = Inr s'"
  shows "\<exists>u. get_pending_update s i = Some u \<and> pu_proposed_at u + 86400 \<le> now e \<and> cs_admin (gs_core s) = Some a \<and> authorized e a
     \<and> gs_params s' = (gs_params s)(pu_param u \<mapsto> pu_new_value u) \<and> gs_core s' = gs_core s \<and> execute_update e2 s' b i \<noteq> Inr s2"
  using assms(2)
proof (rule execute_update_effect)
  fix u assume u: "gs_updates s i = Some u" "pu_executable_at u \<le> now e" "authorized e a" "cs_admin (gs_core s) = Some a"
    and s': "s' = gov_publish (Upd_Executed i a (pu_new_value u)) (s\<lparr>gs_params := (gs_params s)(pu_param u \<mapsto> pu_new_value u),
          gs_updates := (gs_updates s)(i \<mapsto> u\<lparr>pu_executed := True\<rparr>)\<rparr>)"
  have "update_ok u" using reachable_ok [OF assms(1)] u(1) by (auto simp: gov_ok_def params_ok_def)
  moreover have "execute_update e2 s' b i \<noteq> Inr s2" by (auto simp: s' execute_update_def gov_defs gov_publish_def)
  ultimately show ?thesis using u by (auto simp: update_ok_def PARAM_TIMELOCK_MIN_def get_pending_update_def s' gov_publish_def)
qed

text \<open>
  A nonce is accepted once: after it was consumed it is refused in every later state.
\<close>

theorem nonce_single_use:
  assumes "consume s a n = Inr s'" and "gov_step\<^sup>*\<^sup>* (t, s') (t2, s2)"
  shows "is_used s2 a n \<and> consume s2 a n = Inl (Err RateLimitExceeded) \<and> \<not> is_used s a n"
proof -
  have "gs_nonces s' (a, n)" "\<not> is_used s a n" using assms(1) by (simp_all add: consume_eq_Inr gov_publish_def)
  then show ?thesis using gov_steps_nonces [OF assms(2), of "(a, n)"] by (simp add: is_used_def consume_def)
qed

text \<open>
  Up to a balance of \<open>2 ^ 52\<close> the detour through floating point is exact: the voting power is the
  integer square root of the balance.
\<close>

theorem power_is_root:
  assumes "b < 2 ^ 52"
  shows "calculate_voting_power b * calculate_voting_power b \<le> b
     \<and> b < (calculate_voting_power b + 1) * (calculate_voting_power b + 1)"
  using isqrt_bounds [of b] by (simp only: voting_power_exact [OF assms] Suc_eq_plus1)

lemma vote_sums: "for_sum vs + against_sum vs = (\<Sum>v\<leftarrow>vs. nat \<bar>vt_weight v\<bar>)"
  by (induction vs) (auto simp: for_sum_def against_sum_def)

lemma sum_le_length: "(\<And>x. x \<in> set xs \<Longrightarrow> f x \<le> n) \<Longrightarrow> sum_list (map f xs) \<le> length xs * n" for f :: "'a \<Rightarrow> nat"
  by (induction xs) (simp_all add: add_mono)

text \<open>
  The quorum is a share of the supply, but votes count with the square root of a balance. If nobody
  holds more than \<open>B\<close>, a proposal needs as many voters as the quorum divided by the root of \<open>B\<close>.
\<close>

theorem quorum_needs_voters:
  assumes "gov_reachable (t, s)" and "execute_proposal e s a k = Inr s'" and B: "\<forall>x. get_token_balance s x \<le> B" "B < 2 ^ 52"
  shows "total_supply s * 30 div 100 \<le> length (votes_of s k) * calculate_voting_power B"
  using assms(2)
proof (rule gov_execute_effect)
  assume "passes (total_supply s) (votes_of s k)"
  then have "total_supply s * 30 div 100 \<le> (\<Sum>v\<leftarrow>votes_of s k. nat \<bar>vt_weight v\<bar>)" by (simp add: passes_def vote_sums)
  also have "\<dots> \<le> length (votes_of s k) * calculate_voting_power B"
  proof (rule sum_le_length)
    fix v assume "v \<in> set (votes_of s k)"
    then obtain x where "nat \<bar>vt_weight v\<bar> = calculate_voting_power (get_token_balance s x)"
      using gov_weights.inv_reachable [OF assms(1)] by (auto simp: weights_ok_def)
    moreover have "get_token_balance s x < 2 ^ 52" using B le_less_trans by blast
    ultimately show "nat \<bar>vt_weight v\<bar> \<le> calculate_voting_power B" using B by (simp only: voting_power_exact isqrt_mono)
  qed
  finally show ?thesis .
qed

text \<open>
  A single member of the council signs a proposal as often as it likes: five signatures of one member
  satisfy the threshold of five.
\<close>

theorem one_member_signs_alone:
  assumes "props_of s k = Some p" "\<not> gp_executed p" and "gs_council s = Some C" "a \<in> set C" and "authorized e a"
  shows "\<exists>s' q. foldR (\<lambda>_ s. sign_proposal e s a k) [1..<6] s = Inr s' \<and> props_of s' k = Some q \<and> 5 \<le> length (ms_signers (gp_multi_sig q))"
proof -
  obtain ps where "gs_proposals s = Some ps" "ps k = Some p" using assms(1) by (auto simp: props_of_def split: option.splits)
  then show ?thesis using sign_many [OF _ _ assms(2-5), of ps k "[1..<6]"] by fastforce
qed

text \<open>
  Cancelling a proposal does not stop it: what could be executed before can be executed afterwards, to
  the same effect.
\<close>

theorem cancelled_proposal_executes:
  assumes c: "cancel_proposal e s a k = Inr s1" and x: "execute_proposal e2 s b k = Inr s2"
  shows "\<exists>s3. execute_proposal e2 s1 b k = Inr s3 \<and> config_of s3 = config_of s2"
proof -
  from x obtain ps p vs v f q t where
    1: "authorized e2 b" "gs_proposals s = Some ps" "ps k = Some p" "\<not> gp_executed p" "\<not> now e2 < gp_executable_at p"
      "\<not> length (ms_signers (gp_multi_sig p)) < ms_threshold (gp_multi_sig p)" "gs_votes s = Some vs" "vs k = Some v"
      "tally_votes v = Inr f" "quorum_of (total_supply s) = Inr q" "fst f + snd f < 2 ^ 64" "\<not> fst f + snd f < q" "approved (fst f) (snd f) = Inr True"
      "apply_gov_action e2 s b (gp_action p) = Inr t" "config_of s2 = config_of t"
    by (auto simp: execute_proposal_def gov_defs config_of_def gov_publish_def put_gov_proposal_def)
  have s1: "s1 = gov_publish (Prop_Cncl k a) (put_gov_proposal s ps k (p\<lparr>gp_canceled := True\<rparr>))"
    using c 1(2,3) by (auto simp: cancel_proposal_def gov_defs)
  obtain t1 where t1: "apply_gov_action e2 s1 b (gp_action p) = Inr t1" "config_of t1 = config_of t"
    using apply_action_cong [OF 1(14), of s1] by (auto simp: s1 gov_publish_def put_gov_proposal_def)
  have "total_supply s1 = total_supply s" "gs_votes s1 = gs_votes s" "gs_proposals s1 = Some (ps(k \<mapsto> p\<lparr>gp_canceled := True\<rparr>))"
    by (simp_all add: s1 gov_publish_def put_gov_proposal_def total_supply_def)
  then have "\<exists>s3. execute_proposal e2 s1 b k = Inr s3 \<and> config_of s3 = config_of t1"
    using 1 t1(1) by (auto simp: execute_proposal_def gov_defs u_add_def require_auth_ok config_of_def gov_publish_def put_gov_proposal_def split: prod.splits)
  then show ?thesis using t1(2) 1(15) by simp
qed

section \<open>A run\<close>

definition gov_env :: "nat \<Rightarrow> nat \<Rightarrow> env" where
  "gov_env user t = \<lparr>self_addr = Addr 99, now = t, authorized = (\<lambda>a. a = Addr user)\<rparr>"

definition gov_run :: "(env \<times> gov_call) list \<Rightarrow> gov_store \<Rightarrow> (gov_store, counter_error) res" where
  "gov_run = foldR (\<lambda>x s. gov_exec (fst x) s (snd x))"

text \<open>One holder of the whole supply, one member of the council, three accounts without any balance.\<close>

definition demo_gov :: gov_store where
  "demo_gov = \<lparr>gs_core = counter_store0, gs_proposals = None, gs_votes = None, gs_supply = Some 100, gs_balances = [Addr 1 \<mapsto> 100],
     gs_council = Some [Addr 9], gs_multi_sig = None, gs_delegations = None, gs_timelock = None, gs_updates = Map.empty,
     gs_update_counter = None, gs_params = Map.empty, gs_nonces = (\<lambda>_. False), gs_events = []\<rparr>"

definition demo_gov_calls :: "(env \<times> gov_call) list" where
  "demo_gov_calls =
     [(gov_env 1 10, Create (Addr 1) (UpdateGovParam FeeBps 30)),
      (gov_env 2 11, Delegate (Addr 2) (Addr 1)), (gov_env 3 12, Delegate (Addr 3) (Addr 1)), (gov_env 4 13, Delegate (Addr 4) (Addr 1)),
      (gov_env 2 14, Cast (Addr 2) 0 True), (gov_env 3 15, Cast (Addr 3) 0 True), (gov_env 4 16, Cast (Addr 4) 0 True),
      (gov_env 9 17, Sign (Addr 9) 0), (gov_env 9 17, Sign (Addr 9) 0), (gov_env 9 17, Sign (Addr 9) 0), (gov_env 9 17, Sign (Addr 9) 0),
      (gov_env 9 17, Sign (Addr 9) 0)]"

definition demo_gov1 :: gov_store where
  "demo_gov1 = (case gov_run demo_gov_calls demo_gov of Inr s \<Rightarrow> s)"

lemma power_100: "calculate_voting_power 100 = 10"
  by (simp add: voting_power_exact isqrt.simps [of 100] isqrt.simps [of 25] isqrt.simps [of 6] isqrt.simps [of 1] isqrt.simps [of "Suc 0"] isqrt.simps [of 0] Let_def)

lemmas demo_gov_eval = demo_gov1_def demo_gov_def demo_gov_calls_def gov_run_def gov_env_def create_proposal_def require_auth_def get_token_balance_def
  total_supply_def Let_def put_gov_proposal_def gov_publish_def delegate_vote_def cast_vote_def get_delegate_def close_if_passed_def
  tally_votes_def quorum_of_def approved_def u_add_def u_mul_def power_100 sign_proposal_def

lemma demo_gov_run: "gov_run demo_gov_calls demo_gov = Inr demo_gov1"
  by (simp add: demo_gov_eval)

lemma council_run_reachable:
  "gov_run cs s = Inr s' \<Longrightarrow> gov_reachable (t, s) \<Longrightarrow> sorted (t # map (\<lambda>x. now (fst x)) cs)
   \<Longrightarrow> gov_reachable (last (t # map (\<lambda>x. now (fst x)) cs), s')"
proof (induction cs arbitrary: s t)
  case (Cons x cs)
  from Cons.prems(1) obtain s1 where s1: "gov_exec (fst x) s (snd x) = Inr s1" "gov_run cs s1 = Inr s'"
    by (auto simp: gov_run_def bindR_eq_Inr)
  with Cons.prems(2,3) have "gov_reachable (now (fst x), s1)" by (intro gov_reach [of t s]) simp_all
  with Cons.IH [OF s1(2)] Cons.prems(3) show ?case by simp
qed (simp add: gov_run_def)

lemma demo_gov_init: "gov_reachable (0, demo_gov)"
  by (rule reach_init) (simp add: gov_init_def demo_gov_def)

lemma demo_gov_reachable: "gov_reachable (17, demo_gov1)"
  using council_run_reachable [OF demo_gov_run demo_gov_init] by (simp add: demo_gov_calls_def gov_env_def)

lemma demo_gov_fields:
  "gs_core demo_gov1 = counter_store0" "gs_supply demo_gov1 = Some 100" "gs_balances demo_gov1 = [Addr 1 \<mapsto> 100]" "gs_council demo_gov1 = Some [Addr 9]"
  "gs_params demo_gov1 = Map.empty" "gs_nonces demo_gov1 = (\<lambda>_. False)"
  "props_of demo_gov1 0 = Some \<lparr>gp_id = 0, gp_action = UpdateGovParam FeeBps 30, gp_created_at = 10, gp_created_by = Addr 1, gp_executed = False,
     gp_canceled = False, gp_executable_at = 172816, gp_multi_sig = \<lparr>ms_signers = [Addr 9, Addr 9, Addr 9, Addr 9, Addr 9], ms_threshold = 5\<rparr>\<rparr>"
  "votes_of demo_gov1 0 = [\<lparr>vt_voter = Addr 2, vt_weight = 10\<rparr>, \<lparr>vt_voter = Addr 3, vt_weight = 10\<rparr>, \<lparr>vt_voter = Addr 4, vt_weight = 10\<rparr>]"
  by (simp_all add: demo_gov_eval props_of_def votes_of_def)

lemma demo_gov_execute: "\<exists>s'. execute_proposal (gov_env 7 172816) demo_gov1 (Addr 7) 0 = Inr s' \<and> get_param s' FeeBps = Some 30"
  by (simp add: demo_gov_eval execute_proposal_def apply_param_update_def get_param_def)

text \<open>
  Delegation hands out the full power of the delegate to each delegator: accounts without any balance
  that delegate to the same holder carry a proposal by themselves.
\<close>

theorem empty_accounts_pass_proposal:
  "\<exists>t s e s'. gov_reachable (t, s) \<and> t \<le> now e \<and> execute_proposal e s (Addr 7) 0 = Inr s' \<and> votes_of s 0 \<noteq> []
     \<and> list_all (\<lambda>v. get_token_balance s (vt_voter v) = 0) (votes_of s 0)"
proof -
  obtain s' where "execute_proposal (gov_env 7 172816) demo_gov1 (Addr 7) 0 = Inr s'" using demo_gov_execute by blast
  moreover have "17 \<le> now (gov_env 7 172816)" by (simp add: gov_env_def)
  moreover have "votes_of demo_gov1 0 \<noteq> []" "list_all (\<lambda>v. get_token_balance demo_gov1 (vt_voter v) = 0) (votes_of demo_gov1 0)"
    by (simp_all add: demo_gov_fields get_token_balance_def)
  ultimately show ?thesis using demo_gov_reachable by blast
qed

section \<open>Witnesses\<close>

text \<open>The proposal of the run takes effect; afterwards an account uses a nonce, and the proposal is refused.\<close>

lemma demo_gov_later:
  "\<exists>s' s2. execute_proposal (gov_env 7 172816) demo_gov1 (Addr 7) 0 = Inr s' \<and> consume s' (Addr 7) 1 = Inr s2"
  by (simp add: demo_gov_eval execute_proposal_def apply_param_update_def consume_def)

theorem proposal_waits_two_days_witness:
  "\<exists>s' s2 p. execute_proposal (gov_env 7 172816) demo_gov1 (Addr 7) 0 = Inr s' \<and> consume s' (Addr 7) 1 = Inr s2
     \<and> props_of demo_gov1 0 = Some p \<and> gp_created_at p + 172800 \<le> 172816 \<and> 5 \<le> length (ms_signers (gp_multi_sig p))
     \<and> execute_proposal (gov_env 7 172900) s2 (Addr 7) 0 \<noteq> Inr s2"
proof -
  obtain s' s2 where s': "execute_proposal (gov_env 7 172816) demo_gov1 (Addr 7) 0 = Inr s'" "consume s' (Addr 7) 1 = Inr s2"
    using demo_gov_later by blast
  have "gov_step (now (gov_env 7 172816), s') (now (gov_env 7 172817), s2)"
    using s'(2) by (intro gov_step.intros [of _ _ _ "Use_Nonce (Addr 7) 1"]) (simp_all add: gov_env_def)
  then have later: "gov_step\<^sup>*\<^sup>* (now (gov_env 7 172816), s') (now (gov_env 7 172817), s2)" ..
  show ?thesis
    using proposal_waits_two_days [OF demo_gov_reachable _ _ s'(1) later, of "gov_env 7 172900" "Addr 7" s2] s'
    by (auto simp: gov_env_def total_supply_def demo_gov_fields)
qed

theorem executed_action_applies_witness:
  "\<exists>s'. execute_proposal (gov_env 7 172816) demo_gov1 (Addr 7) 0 = Inr s' \<and> gc_params (config_of s') = [FeeBps \<mapsto> 30]
     \<and> gc_admin (config_of s') = None"
proof -
  obtain s' where s': "execute_proposal (gov_env 7 172816) demo_gov1 (Addr 7) 0 = Inr s'" using demo_gov_execute by blast
  show ?thesis using executed_action_applies [OF s'] s' by (auto simp: demo_gov_fields config_of_def counter_store0_def)
qed

theorem params_stay_in_range_witness:
  "\<exists>t s'. gov_reachable (t, s') \<and> get_param s' FeeBps = Some 30 \<and> (30 :: int) \<le> 10000"
proof -
  obtain s' where s': "execute_proposal (gov_env 7 172816) demo_gov1 (Addr 7) 0 = Inr s'" "get_param s' FeeBps = Some 30"
    using demo_gov_execute by blast
  have "gov_reachable (172816, s')"
    using gov_reach [OF demo_gov_reachable, of "gov_env 7 172816" "Execute (Addr 7) 0" s'] s'(1) by (simp add: gov_env_def)
  with params_stay_in_range [OF this s'(2)] s'(2) show ?thesis by auto
qed

theorem quorum_needs_voters_witness: "total_supply demo_gov1 * 30 div 100 \<le> length (votes_of demo_gov1 0) * calculate_voting_power 100"
proof -
  obtain s' where s': "execute_proposal (gov_env 7 172816) demo_gov1 (Addr 7) 0 = Inr s'" using demo_gov_execute by blast
  show ?thesis by (rule quorum_needs_voters [OF demo_gov_reachable s']) (simp_all add: get_token_balance_def demo_gov_fields)
qed

text \<open>An admin queues a fee of 25 basis points and applies it two days later.\<close>

definition demo_queued :: gov_store where
  "demo_queued = (case propose_update (gov_env 5 100) (demo_gov\<lparr>gs_core := counter_store0\<lparr>cs_admin := Some (Addr 5)\<rparr>\<rparr>) (Addr 5) FeeBps 25 of
     Inr r \<Rightarrow> snd r)"

lemmas demo_queued_eval = propose_update_def require_auth_def ensure_def u_add_def Let_def demo_gov_def gov_env_def require_admin_def
  get_timelock_delay_def PARAM_TIMELOCK_DEFAULT_def gov_publish_def

lemma demo_queue: "propose_update (gov_env 5 100) (demo_gov\<lparr>gs_core := counter_store0\<lparr>cs_admin := Some (Addr 5)\<rparr>\<rparr>) (Addr 5) FeeBps 25
    = Inr (0, demo_queued)"
  by (simp add: demo_queued_def demo_queued_eval)

lemma demo_queued_reachable: "gov_reachable (100, demo_queued)"
proof -
  have "gov_reachable (0, demo_gov\<lparr>gs_core := counter_store0\<lparr>cs_admin := Some (Addr 5)\<rparr>\<rparr>)"
    by (rule reach_init) (simp add: gov_init_def demo_gov_def)
  moreover have "gov_exec (gov_env 5 100) (demo_gov\<lparr>gs_core := counter_store0\<lparr>cs_admin := Some (Addr 5)\<rparr>\<rparr>)
      (Propose_Update (Addr 5) FeeBps 25) = Inr demo_queued"
    by (simp add: demo_queue)
  ultimately have "gov_reachable (now (gov_env 5 100), demo_queued)" using le0 by (metis gov_reach)
  then show ?thesis by (simp add: gov_env_def)
qed

lemma demo_queued_execute: "\<exists>s'. execute_update (gov_env 5 172900) demo_queued (Addr 5) 0 = Inr s'"
  by (simp add: demo_queued_def demo_queued_eval execute_update_def)

theorem update_waits_a_day_witness:
  "\<exists>s' u. execute_update (gov_env 5 172900) demo_queued (Addr 5) 0 = Inr s' \<and> get_pending_update demo_queued 0 = Some u
     \<and> pu_proposed_at u + 86400 \<le> 172900"
proof -
  obtain s' where s': "execute_update (gov_env 5 172900) demo_queued (Addr 5) 0 = Inr s'" using demo_queued_execute by blast
  show ?thesis using update_waits_a_day [OF demo_queued_reachable s', of "gov_env 5 172900" "Addr 5" s'] s' by (auto simp: gov_env_def)
qed

theorem nonce_single_use_witness:
  "\<exists>s'. consume demo_gov (Addr 3) 7 = Inr s' \<and> consume s' (Addr 3) 7 = Inl (Err RateLimitExceeded)"
proof -
  obtain s' where s': "consume demo_gov (Addr 3) 7 = Inr s'" by (simp add: consume_def demo_gov_def)
  show ?thesis using nonce_single_use [OF s', of 0 0 s'] s' by simp
qed

theorem power_is_root_witness: "calculate_voting_power 1000000 * calculate_voting_power 1000000 \<le> 1000000"
  using power_is_root [of 1000000] by simp

theorem one_member_signs_alone_witness:
  "\<exists>s' q. foldR (\<lambda>_ s. sign_proposal (gov_env 9 20) s (Addr 9) 0) [1..<6] demo_gov1 = Inr s' \<and> props_of s' 0 = Some q
     \<and> 5 \<le> length (ms_signers (gp_multi_sig q))"
  by (rule one_member_signs_alone [OF demo_gov_fields(7) _ demo_gov_fields(4)]) (simp_all add: gov_env_def)

theorem cancelled_proposal_executes_witness:
  "\<exists>s1 s3. cancel_proposal (gov_env 9 30) demo_gov1 (Addr 9) 0 = Inr s1 \<and> execute_proposal (gov_env 7 172816) s1 (Addr 7) 0 = Inr s3"
proof -
  obtain s' where s': "execute_proposal (gov_env 7 172816) demo_gov1 (Addr 7) 0 = Inr s'" using demo_gov_execute by blast
  obtain s1 where s1: "cancel_proposal (gov_env 9 30) demo_gov1 (Addr 9) 0 = Inr s1"
    by (simp add: demo_gov_eval cancel_proposal_def)
  show ?thesis using cancelled_proposal_executes [OF s1 s'] s1 by blast
qed

end
