(* ===== verification/Emergency.thy ===== *)
theory Emergency
  imports Audit_Chain
begin

text \<open>
  The emergency controls of the counter crate's governance
  (\<open>counter/src/governance/emergency.rs\<close>), a plain Rust module: a level that restricts operations,
  actions by signers that set it, approvals, expiry and an audit log. A hash map has no order of its own,
  so the operations that walk over all actions take the order of the walk as an argument.
\<close>

section \<open>Levels and operations\<close>

datatype emergency_level = Level_None | Level_Low | Level_Medium | Level_High | Level_Critical

fun level_no :: "emergency_level \<Rightarrow> nat" where
  "level_no Level_None = 0"
| "level_no Level_Low = 1"
| "level_no Level_Medium = 2"
| "level_no Level_High = 3"
| "level_no Level_Critical = 4"

instantiation emergency_level :: linorder
begin

definition less_eq_emergency_level :: "emergency_level \<Rightarrow> emergency_level \<Rightarrow> bool" where
  "less_eq_emergency_level a b \<longleftrightarrow> level_no a \<le> level_no b"

definition less_emergency_level :: "emergency_level \<Rightarrow> emergency_level \<Rightarrow> bool" where
  "less_emergency_level a b \<longleftrightarrow> level_no a < level_no b"

lemma level_no_inj: "level_no a = level_no b \<Longrightarrow> a = b"
  by (cases a; cases b) simp_all

instance
  by standard (auto simp: less_eq_emergency_level_def less_emergency_level_def intro: level_no_inj)

end

definition from_u32 :: "nat \<Rightarrow> emergency_level option" where
  "from_u32 val =
     (if val = 0 then Some Level_None else if val = 1 then Some Level_Low else if val = 2 then Some Level_Medium
      else if val = 3 then Some Level_High else if val = 4 then Some Level_Critical else None)"

datatype operation_type = Swap | LpDeposit | LpWithdraw | OrderPlacement | EmergencyWithdraw | ProposalCreation

fun allows_operation :: "emergency_level \<Rightarrow> operation_type \<Rightarrow> bool" where
  "allows_operation Level_None op \<longleftrightarrow> True"
| "allows_operation Level_Low op \<longleftrightarrow> op \<noteq> Swap"
| "allows_operation Level_Medium op \<longleftrightarrow> op = LpWithdraw \<or> op = EmergencyWithdraw"
| "allows_operation Level_High op \<longleftrightarrow> op = EmergencyWithdraw"
| "allows_operation Level_Critical op \<longleftrightarrow> False"

section \<open>State\<close>

datatype emergency_error =
    NotASigner | CooldownNotElapsed | ActionNotFound | ActionNotActive | SignerApprovedAlready | ResumeNeedsHigh | WhitelistedAlready

datatype emergency_status = Active | Expired | Lifted

record emergency_action =
  ea_id :: nat
  ea_level :: emergency_level
  ea_initiator :: string
  ea_reason :: string
  ea_timestamp :: nat
  ea_expires_at :: "nat option"
  ea_status :: emergency_status
  ea_approvals :: "string list"
  ea_required_approvals :: nat

definition action_expired :: "emergency_action \<Rightarrow> nat \<Rightarrow> bool" where
  "action_expired a t = (case ea_expires_at a of Some x \<Rightarrow> t \<ge> x | None \<Rightarrow> False)"

record emergency_config =
  cfg_signers :: "string list"
  cfg_standard_threshold :: nat
  cfg_critical_threshold :: nat
  cfg_default_expiry_secs :: nat
  cfg_max_expiry_secs :: nat
  cfg_escalation_cooldown_secs :: nat

definition emergency_config_default :: emergency_config where
  "emergency_config_default = \<lparr>cfg_signers = [], cfg_standard_threshold = 2, cfg_critical_threshold = 3,
     cfg_default_expiry_secs = 3600, cfg_max_expiry_secs = 86400, cfg_escalation_cooldown_secs = 300\<rparr>"

datatype emergency_audit =
    LevelSet emergency_level nat
  | LevelExpired nat
  | LevelLifted nat
  | OperationAttempted operation_type bool
  | ConfigUpdated string

record emergency_entry =
  ee_seq :: nat
  ee_timestamp :: nat
  ee_action :: emergency_audit
  ee_hash :: "8 word list"

record controller =
  ec_level :: emergency_level
  ec_config :: emergency_config
  ec_actions :: "nat \<rightharpoonup> emergency_action"
  ec_next_id :: nat
  ec_last_escalation_at :: nat
  ec_whitelist :: "string list"
  ec_log :: "emergency_entry list"
  ec_seq :: nat

definition controller_new :: "emergency_config \<Rightarrow> controller" where
  "controller_new config = \<lparr>ec_level = Level_None, ec_config = config, ec_actions = Map.empty, ec_next_id = 1,
     ec_last_escalation_at = 0, ec_whitelist = [], ec_log = [], ec_seq = 0\<rparr>"

section \<open>The audit log\<close>

definition emergency_hash :: "8 word list \<Rightarrow> 8 word list" where
  "emergency_hash data = hash_loop 0xBB 0 data (replicate 32 0xE5)"

definition emergency_input :: "nat \<Rightarrow> nat \<Rightarrow> 8 word list option \<Rightarrow> 8 word list" where
  "emergency_input sq timestamp prev = to_le_bytes sq @ to_le_bytes timestamp @ (case prev of Some h \<Rightarrow> h | None \<Rightarrow> [])"

definition log_action :: "emergency_audit \<Rightarrow> nat \<Rightarrow> controller \<Rightarrow> (controller, emergency_error) res" where
  "log_action a t s =
     bindR (u_add 64 (ec_seq s) 1) (\<lambda>sq.
     let prev = (if ec_log s = [] then None else Some (ee_hash (last (ec_log s)))) in
     Inr (s\<lparr>ec_seq := sq, ec_log := ec_log s @
       [\<lparr>ee_seq = sq, ee_timestamp = t, ee_action = a, ee_hash = emergency_hash (emergency_input sq t prev)\<rparr>]\<rparr>))"

fun emergency_verify :: "8 word list option \<Rightarrow> emergency_entry list \<Rightarrow> bool" where
  "emergency_verify prev [] \<longleftrightarrow> True"
| "emergency_verify prev (x # log) \<longleftrightarrow>
     (if ee_hash x \<noteq> emergency_hash (emergency_input (ee_seq x) (ee_timestamp x) prev) then False
      else emergency_verify (Some (ee_hash x)) log)"

definition verify_emergency_trail :: "controller \<Rightarrow> bool" where
  "verify_emergency_trail s = emergency_verify None (ec_log s)"

section \<open>Operations\<close>

definition is_emergency_signer :: "controller \<Rightarrow> string \<Rightarrow> bool" where
  "is_emergency_signer s a \<longleftrightarrow> a \<in> set (cfg_signers (ec_config s))"

definition required_for :: "controller \<Rightarrow> emergency_level \<Rightarrow> nat" where
  "required_for s level = (if level \<ge> Level_High then cfg_critical_threshold (ec_config s) else cfg_standard_threshold (ec_config s))"

text \<open>Whether an escalation comes before the cooldown after the last one is over.\<close>

definition cooling_down :: "controller \<Rightarrow> emergency_level \<Rightarrow> nat \<Rightarrow> (bool, emergency_error) res" where
  "cooling_down s level t =
     (if level > ec_level s \<and> ec_last_escalation_at s > 0
      then bindR (u_add 64 (ec_last_escalation_at s) (cfg_escalation_cooldown_secs (ec_config s))) (\<lambda>x. Inr (t < x))
      else Inr False)"

definition expiry_of :: "controller \<Rightarrow> nat \<Rightarrow> nat option \<Rightarrow> (nat option, emergency_error) res" where
  "expiry_of s t expiry_secs =
     (case expiry_secs of
        None \<Rightarrow> Inr None
      | Some d \<Rightarrow>
          let clamped = (if d > cfg_max_expiry_secs (ec_config s) then cfg_max_expiry_secs (ec_config s) else d)
          in bindR (u_add 64 t clamped) (\<lambda>x. Inr (Some x)))"

definition set_emergency_level ::
    "controller \<Rightarrow> string \<Rightarrow> emergency_level \<Rightarrow> string \<Rightarrow> nat \<Rightarrow> nat option \<Rightarrow> (nat \<times> controller, emergency_error) res" where
  "set_emergency_level s initiator level reason t expiry_secs =
     bindR (ensure (is_emergency_signer s initiator) (Err NotASigner)) (\<lambda>_.
     bindR (cooling_down s level t) (\<lambda>cooling.
     bindR (ensure (\<not> cooling) (Err CooldownNotElapsed)) (\<lambda>_.
     let required = required_for s level in
     bindR (expiry_of s t expiry_secs) (\<lambda>expires_at.
     let k = ec_next_id s in
     bindR (u_add 64 k 1) (\<lambda>next.
     let action = \<lparr>ea_id = k, ea_level = level, ea_initiator = initiator, ea_reason = reason, ea_timestamp = t,
           ea_expires_at = expires_at, ea_status = Active, ea_approvals = [initiator], ea_required_approvals = required\<rparr>;
         s1 = s\<lparr>ec_next_id := next, ec_actions := (ec_actions s)(k \<mapsto> action)\<rparr>;
         s2 = (if level \<ge> Level_High \<and> required > 1 then s1 else s1\<lparr>ec_level := level, ec_last_escalation_at := t\<rparr>) in
     bindR (log_action (LevelSet level k) t s2) (\<lambda>s3. Inr (k, s3)))))))"

definition approve_emergency :: "controller \<Rightarrow> nat \<Rightarrow> string \<Rightarrow> nat \<Rightarrow> (nat \<times> controller, emergency_error) res" where
  "approve_emergency s action_id signer t =
     bindR (ensure (is_emergency_signer s signer) (Err NotASigner)) (\<lambda>_.
     bindR (ok_or (ec_actions s action_id) (Err ActionNotFound)) (\<lambda>action.
     bindR (ensure (ea_status action = Active) (Err ActionNotActive)) (\<lambda>_.
     bindR (ensure (signer \<notin> set (ea_approvals action)) (Err SignerApprovedAlready)) (\<lambda>_.
     let action1 = action\<lparr>ea_approvals := ea_approvals action @ [signer]\<rparr>;
         count = length (ea_approvals action1);
         s1 = s\<lparr>ec_actions := (ec_actions s)(action_id \<mapsto> action1)\<rparr>
     in Inr (count, if count \<ge> ea_required_approvals action1 \<and> ec_level s1 < ea_level action1
          then s1\<lparr>ec_level := ea_level action1, ec_last_escalation_at := t\<rparr> else s1)))))"

text \<open>\<open>order\<close> lists the keys of the map in the order in which the map is walked.\<close>

definition active_levels :: "nat list \<Rightarrow> (nat \<rightharpoonup> emergency_action) \<Rightarrow> emergency_level list" where
  "active_levels order m = [ea_level a. Some a \<leftarrow> map m order, ea_status a = Active]"

definition recalculate_level :: "nat list \<Rightarrow> controller \<Rightarrow> controller" where
  "recalculate_level order s = s\<lparr>ec_level := fold max (active_levels order (ec_actions s)) Level_None\<rparr>"

definition lift_emergency :: "controller \<Rightarrow> nat list \<Rightarrow> nat \<Rightarrow> string \<Rightarrow> nat \<Rightarrow> (controller, emergency_error) res" where
  "lift_emergency s order action_id signer t =
     bindR (ensure (is_emergency_signer s signer) (Err NotASigner)) (\<lambda>_.
     bindR (ok_or (ec_actions s action_id) (Err ActionNotFound)) (\<lambda>action.
     bindR (ensure (ea_status action = Active) (Err ActionNotActive)) (\<lambda>_.
     log_action (LevelLifted action_id) t
       (recalculate_level order (s\<lparr>ec_actions := (ec_actions s)(action_id \<mapsto> action\<lparr>ea_status := Lifted\<rparr>)\<rparr>)))))"

definition lift_active :: "emergency_action \<Rightarrow> emergency_action" where
  "lift_active a = (if ea_status a = Active then a\<lparr>ea_status := Lifted\<rparr> else a)"

definition emergency_resume :: "controller \<Rightarrow> string \<Rightarrow> string \<Rightarrow> nat \<Rightarrow> (controller, emergency_error) res" where
  "emergency_resume s signer reason t =
     bindR (ensure (is_emergency_signer s signer) (Err NotASigner)) (\<lambda>_.
     bindR (ensure (\<not> ec_level s < Level_High) (Err ResumeNeedsHigh)) (\<lambda>_.
     log_action (LevelSet Level_None 0) t
       (s\<lparr>ec_actions := (\<lambda>k. map_option lift_active (ec_actions s k)), ec_level := Level_None\<rparr>)))"

definition due :: "nat \<Rightarrow> emergency_action \<Rightarrow> bool" where
  "due t a \<longleftrightarrow> ea_status a = Active \<and> action_expired a t"

definition expire :: "nat \<Rightarrow> emergency_action \<Rightarrow> emergency_action" where
  "expire t a = (if due t a then a\<lparr>ea_status := Expired\<rparr> else a)"

definition tick :: "controller \<Rightarrow> nat list \<Rightarrow> nat \<Rightarrow> (controller, emergency_error) res" where
  "tick s order t =
     (let expired_ids = filter (\<lambda>k. case ec_actions s k of Some a \<Rightarrow> due t a | None \<Rightarrow> False) order;
          s1 = s\<lparr>ec_actions := (\<lambda>k. map_option (expire t) (ec_actions s k))\<rparr>
      in if expired_ids \<noteq> [] then foldR (\<lambda>k. log_action (LevelExpired k) t) expired_ids (recalculate_level order s1) else Inr s1)"

definition is_operation_allowed :: "controller \<Rightarrow> operation_type \<Rightarrow> bool" where
  "is_operation_allowed s op = (if allows_operation (ec_level s) op then True else False)"

definition add_to_whitelist :: "controller \<Rightarrow> string \<Rightarrow> nat \<Rightarrow> (controller, emergency_error) res" where
  "add_to_whitelist s address t =
     bindR (ensure (address \<notin> set (ec_whitelist s)) (Err WhitelistedAlready)) (\<lambda>_.
     log_action (ConfigUpdated (''whitelist_add:'' @ address)) t (s\<lparr>ec_whitelist := ec_whitelist s @ [address]\<rparr>))"

definition remove_from_whitelist :: "controller \<Rightarrow> string \<Rightarrow> nat \<Rightarrow> (controller, emergency_error) res" where
  "remove_from_whitelist s address t =
     log_action (ConfigUpdated (''whitelist_remove:'' @ address)) t (s\<lparr>ec_whitelist := filter (\<lambda>a. a \<noteq> address) (ec_whitelist s)\<rparr>)"

definition is_whitelisted :: "controller \<Rightarrow> string \<Rightarrow> bool" where
  "is_whitelisted s address \<longleftrightarrow> address \<in> set (ec_whitelist s)"

definition get_action :: "controller \<Rightarrow> nat \<Rightarrow> emergency_action option" where
  "get_action s action_id = ec_actions s action_id"

definition emergency_is_paused :: "controller \<Rightarrow> bool" where
  "emergency_is_paused s \<longleftrightarrow> ec_level s \<noteq> Level_None"

definition current_level :: "controller \<Rightarrow> emergency_level" where
  "current_level s = ec_level s"

end
