(* ===== verification/Emergency_Props.thy ===== *)
theory Emergency_Props
  imports Emergency
begin

text \<open>
  The emergency controls over any run of their operations: a restriction has an active action behind it,
  levels are graduated, expiry works, the log verifies; and the ways in which one signer acts alone
  although several are asked for.
\<close>

section \<open>Runs\<close>

datatype emergency_call =
    Set_Level string emergency_level string nat "nat option"
  | Approve nat string nat
  | Lift "nat list" nat string nat
  | Resume string string nat
  | Tick "nat list" nat
  | Whitelist string nat
  | Unwhitelist string nat

text \<open>A walk over the map of actions visits every key once.\<close>

definition walks :: "nat list \<Rightarrow> controller \<Rightarrow> bool" where
  "walks order s \<longleftrightarrow> distinct order \<and> set order = dom (ec_actions s)"

fun emergency_exec :: "controller \<Rightarrow> emergency_call \<Rightarrow> (controller, emergency_error) res" where
  "emergency_exec s (Set_Level a l r t x) = bindR (set_emergency_level s a l r t x) (\<lambda>(_, s'). Inr s')"
| "emergency_exec s (Approve k a t) = bindR (approve_emergency s k a t) (\<lambda>(_, s'). Inr s')"
| "emergency_exec s (Lift order k a t) = lift_emergency s order k a t"
| "emergency_exec s (Resume a r t) = emergency_resume s a r t"
| "emergency_exec s (Tick order t) = tick s order t"
| "emergency_exec s (Whitelist a t) = add_to_whitelist s a t"
| "emergency_exec s (Unwhitelist a t) = remove_from_whitelist s a t"

fun call_walks :: "controller \<Rightarrow> emergency_call \<Rightarrow> bool" where
  "call_walks s (Lift order k a t) \<longleftrightarrow> walks order s"
| "call_walks s (Tick order t) \<longleftrightarrow> walks order s"
| "call_walks s _ \<longleftrightarrow> True"

inductive emergency_step :: "controller \<Rightarrow> controller \<Rightarrow> bool" where
  emergency_call: "call_walks s c \<Longrightarrow> emergency_exec s c = Inr s' \<Longrightarrow> emergency_step s s'"

definition emergency_init :: "controller \<Rightarrow> bool" where
  "emergency_init s \<longleftrightarrow> (\<exists>config. s = controller_new config)"

abbreviation emergency_reachable :: "controller \<Rightarrow> bool" where
  "emergency_reachable \<equiv> reachable emergency_init emergency_step"

lemma emergency_reach: "emergency_reachable s \<Longrightarrow> call_walks s c \<Longrightarrow> emergency_exec s c = Inr s' \<Longrightarrow> emergency_reachable s'"
  by (blast intro: reach_step emergency_call)

section \<open>The log\<close>

interpretation emergency_log: hash_chain ee_hash
    "\<lambda>x prev. emergency_hash (emergency_input (ee_seq x) (ee_timestamp x) prev)" emergency_verify
  by unfold_locales simp_all

definition same_but_log :: "controller \<Rightarrow> controller \<Rightarrow> bool" where
  "same_but_log s s' \<longleftrightarrow> ec_level s' = ec_level s \<and> ec_config s' = ec_config s \<and> ec_actions s' = ec_actions s
     \<and> ec_next_id s' = ec_next_id s \<and> ec_last_escalation_at s' = ec_last_escalation_at s \<and> ec_whitelist s' = ec_whitelist s
     \<and> (verify_emergency_trail s \<longrightarrow> verify_emergency_trail s')"

lemma log_action_effect: "log_action a t s = Inr s' \<Longrightarrow> same_but_log s s'"
  by (auto simp: log_action_def bindR_eq_Inr Let_def same_but_log_def verify_emergency_trail_def emergency_log.verify_snoc)

lemma log_actions_effect: "foldR (\<lambda>k. log_action (f k) t) ks s = Inr s' \<Longrightarrow> same_but_log s s'"
proof (induction ks arbitrary: s)
  case Nil then show ?case by (simp add: same_but_log_def)
next
  case (Cons k ks)
  then obtain s1 where "log_action (f k) t s = Inr s1" "foldR (\<lambda>k. log_action (f k) t) ks s1 = Inr s'" by (auto simp: bindR_eq_Inr)
  from log_action_effect [OF this(1)] Cons.IH [OF this(2)] show ?case by (simp add: same_but_log_def)
qed

section \<open>What the operations do\<close>

definition new_action :: "controller \<Rightarrow> string \<Rightarrow> emergency_level \<Rightarrow> string \<Rightarrow> nat \<Rightarrow> nat option \<Rightarrow> emergency_action" where
  "new_action s a l r t y = \<lparr>ea_id = ec_next_id s, ea_level = l, ea_initiator = a, ea_reason = r, ea_timestamp = t, ea_expires_at = y,
     ea_status = Active, ea_approvals = [a], ea_required_approvals = required_for s l\<rparr>"

definition needs_more :: "controller \<Rightarrow> emergency_level \<Rightarrow> bool" where
  "needs_more s l \<longleftrightarrow> l \<ge> Level_High \<and> required_for s l > 1"

lemma set_level_effect:
  assumes "set_emergency_level s a l r t x = Inr (k, s')"
  obtains y s1 where "is_emergency_signer s a" "k = ec_next_id s" "cooling_down s l t = Inr False" "expiry_of s t x = Inr y"
    "s1 = s\<lparr>ec_next_id := Suc k, ec_actions := (ec_actions s)(k \<mapsto> new_action s a l r t y)\<rparr>"
    "same_but_log (if needs_more s l then s1 else s1\<lparr>ec_level := l, ec_last_escalation_at := t\<rparr>) s'"
proof -
  define b where "b = needs_more s l"
  from assms obtain y where
    1: "is_emergency_signer s a" "k = ec_next_id s" "cooling_down s l t = Inr False" "expiry_of s t x = Inr y"
      "log_action (LevelSet l k) t (if b then s\<lparr>ec_next_id := Suc k, ec_actions := (ec_actions s)(k \<mapsto> new_action s a l r t y)\<rparr>
         else s\<lparr>ec_next_id := Suc k, ec_actions := (ec_actions s)(k \<mapsto> new_action s a l r t y)\<rparr>\<lparr>ec_level := l, ec_last_escalation_at := t\<rparr>) = Inr s'"
    unfolding new_action_def b_def needs_more_def by (auto simp: set_emergency_level_def Let_def bindR_eq_Inr ensure_eq_Inr u_add_eq_Inr)
  show thesis by (rule that [OF 1(1-4) refl]) (use log_action_effect [OF 1(5)] b_def in simp)
qed

lemma approve_emergency_effect:
  assumes "approve_emergency s k a t = Inr (n, s')"
  obtains x y where "is_emergency_signer s a" "ec_actions s k = Some x" "ea_status x = Active" "a \<notin> set (ea_approvals x)"
    "y = x\<lparr>ea_approvals := ea_approvals x @ [a]\<rparr>" "n = Suc (length (ea_approvals x))"
    "s' = (if ea_required_approvals x \<le> n \<and> ec_level s < ea_level x
       then s\<lparr>ec_actions := (ec_actions s)(k \<mapsto> y), ec_level := ea_level x, ec_last_escalation_at := t\<rparr>
       else s\<lparr>ec_actions := (ec_actions s)(k \<mapsto> y)\<rparr>)"
  using assms by (auto simp: approve_emergency_def Let_def bindR_eq_Inr ensure_eq_Inr ok_or_eq_Inr)

lemma lift_effect:
  assumes "lift_emergency s order k a t = Inr s'"
  obtains x where "is_emergency_signer s a" "ec_actions s k = Some x" "ea_status x = Active"
    "same_but_log (recalculate_level order (s\<lparr>ec_actions := (ec_actions s)(k \<mapsto> x\<lparr>ea_status := Lifted\<rparr>)\<rparr>)) s'"
  using assms by (auto simp: lift_emergency_def bindR_eq_Inr ensure_eq_Inr ok_or_eq_Inr dest: log_action_effect)

lemma resume_effect:
  assumes "emergency_resume s a r t = Inr s'"
  shows "is_emergency_signer s a" "Level_High \<le> ec_level s"
    "same_but_log (s\<lparr>ec_actions := (\<lambda>k. map_option lift_active (ec_actions s k)), ec_level := Level_None\<rparr>) s'"
  using assms by (auto simp: emergency_resume_def bindR_eq_Inr ensure_eq_Inr dest: log_action_effect)

text \<open>The highest level of the active actions does not depend on the order of the walk.\<close>

lemma fold_max_ge: "x \<le> fold max xs (x :: 'a :: linorder)"
  by (induction xs arbitrary: x) (auto intro: order_trans [OF max.cobounded2])

lemma fold_max_member: "y \<in> set xs \<Longrightarrow> y \<le> fold max xs (x :: 'a :: linorder)"
  by (induction xs arbitrary: x) (auto intro: order_trans [OF _ fold_max_ge])

lemma fold_max_in: "fold max xs (x :: 'a :: linorder) = x \<or> fold max xs x \<in> set xs"
proof (induction xs arbitrary: x)
  case (Cons y ys) then show ?case using Cons.IH [of "max y x"] by (auto simp: max_def split: if_splits)
qed simp

lemma active_levels_set: "set (active_levels order m) = {ea_level a |a k. k \<in> set order \<and> m k = Some a \<and> ea_status a = Active}"
  by (auto simp: active_levels_def) force+

definition active_level :: "(nat \<rightharpoonup> emergency_action) \<Rightarrow> emergency_level \<Rightarrow> bool" where
  "active_level m l \<longleftrightarrow> (\<exists>k a. m k = Some a \<and> ea_status a = Active \<and> ea_level a = l)"

text \<open>The level a recalculation yields: the highest of the active actions, or none.\<close>

definition top_level :: "(nat \<rightharpoonup> emergency_action) \<Rightarrow> emergency_level \<Rightarrow> bool" where
  "top_level m l \<longleftrightarrow> (l = Level_None \<or> active_level m l) \<and> (\<forall>l'. active_level m l' \<longrightarrow> l' \<le> l)"

lemma recalculate_top:
  assumes "set order = dom (ec_actions s)"
  shows "top_level (ec_actions s) (ec_level (recalculate_level order s))"
proof -
  have "set (active_levels order (ec_actions s)) = {l. active_level (ec_actions s) l}"
    using assms by (auto simp: active_levels_set active_level_def)
  then show ?thesis
    using fold_max_in [of "active_levels order (ec_actions s)" Level_None] fold_max_member [of _ "active_levels order (ec_actions s)" Level_None]
    by (auto simp: top_level_def recalculate_level_def)
qed

lemma top_level_unique: "top_level m l \<Longrightarrow> top_level m l' \<Longrightarrow> l = l'"
proof -
  have None_le: "Level_None \<le> l" for l by (cases l) (simp_all add: less_eq_emergency_level_def)
  show "top_level m l \<Longrightarrow> top_level m l' \<Longrightarrow> l = l'" unfolding top_level_def by (metis None_le order_antisym)
qed

lemma tick_effect:
  assumes "tick s order t = Inr s'" "walks order s"
  obtains (idle) "\<And>k a. ec_actions s k = Some a \<Longrightarrow> \<not> due t a" "s' = s"
  | (expired) m where "m = (\<lambda>k. map_option (expire t) (ec_actions s k))" "\<exists>k a. ec_actions s k = Some a \<and> due t a"
      "same_but_log (recalculate_level order (s\<lparr>ec_actions := m\<rparr>)) s'"
proof (cases "filter (\<lambda>k. case ec_actions s k of Some a \<Rightarrow> due t a | None \<Rightarrow> False) order = []")
  case True
  have none: "\<not> due t a" if "ec_actions s k = Some a" for k a
  proof -
    have "k \<in> set order" using that assms(2) by (auto simp: walks_def)
    then show ?thesis using True that by (auto simp: filter_empty_conv dest: bspec)
  qed
  have "map_option (expire t) (ec_actions s k) = ec_actions s k" for k
    using none [of k] by (cases "ec_actions s k") (simp_all add: expire_def)
  then have "s' = s" using assms(1) True by (simp add: tick_def Let_def)
  with none show thesis by (rule idle)
next
  case False
  then obtain k where "k \<in> set order" "case ec_actions s k of Some a \<Rightarrow> due t a | None \<Rightarrow> False" by (auto simp: filter_empty_conv)
  then have "\<exists>k a. ec_actions s k = Some a \<and> due t a" by (auto split: option.splits)
  moreover have "foldR (\<lambda>k. log_action (LevelExpired k) t) (filter (\<lambda>k. case ec_actions s k of Some a \<Rightarrow> due t a | None \<Rightarrow> False) order)
      (recalculate_level order (s\<lparr>ec_actions := (\<lambda>k. map_option (expire t) (ec_actions s k))\<rparr>)) = Inr s'"
    using assms(1) False by (simp add: tick_def Let_def)
  ultimately show thesis using log_actions_effect expired by blast
qed

section \<open>The invariant\<close>

definition action_ok :: "emergency_config \<Rightarrow> nat \<Rightarrow> nat \<Rightarrow> emergency_action \<Rightarrow> bool" where
  "action_ok c n k a \<longleftrightarrow> ea_id a = k \<and> k < n \<and> distinct (ea_approvals a) \<and> set (ea_approvals a) \<subseteq> set (cfg_signers c)
     \<and> ea_required_approvals a = (if ea_level a \<ge> Level_High then cfg_critical_threshold c else cfg_standard_threshold c)"

definition emergency_ok :: "controller \<Rightarrow> bool" where
  "emergency_ok s \<longleftrightarrow> verify_emergency_trail s \<and> (ec_level s = Level_None \<or> active_level (ec_actions s) (ec_level s))
     \<and> (\<forall>k a. ec_actions s k = Some a \<longrightarrow> action_ok (ec_config s) (ec_next_id s) k a)"

lemma emergency_ok_log: "emergency_ok s \<Longrightarrow> same_but_log s s' \<Longrightarrow> emergency_ok s'"
  by (simp add: emergency_ok_def same_but_log_def)

lemma ok_action: "emergency_ok s \<Longrightarrow> ec_actions s k = Some a \<Longrightarrow> action_ok (ec_config s) (ec_next_id s) k a"
  by (simp add: emergency_ok_def)

lemma action_ok_later: "action_ok c n k a \<Longrightarrow> n \<le> n' \<Longrightarrow> action_ok c n' k a"
  by (simp add: action_ok_def)

lemma action_ok_status [simp]:
  "action_ok c n k (a\<lparr>ea_status := x\<rparr>) = action_ok c n k a" "action_ok c n k (lift_active a) = action_ok c n k a"
  "action_ok c n k (expire t a) = action_ok c n k a"
  by (simp_all add: action_ok_def lift_active_def expire_def)

lemma active_level_upd: "active_level m l \<Longrightarrow> m k = None \<Longrightarrow> active_level (m(k \<mapsto> a)) l"
  unfolding active_level_def by (metis fun_upd_other option.distinct(1))

lemma emergency_okI:
  assumes "emergency_ok s" "ec_log s' = ec_log s" "ec_config s' = ec_config s"
    and "\<And>k a. ec_actions s' k = Some a \<Longrightarrow> action_ok (ec_config s) (ec_next_id s') k a"
    and "ec_level s' = Level_None \<or> active_level (ec_actions s') (ec_level s')"
  shows "emergency_ok s'"
  using assms by (simp add: emergency_ok_def verify_emergency_trail_def)

lemma set_level_ok:
  assumes ok: "emergency_ok s" and c: "set_emergency_level s a l r t x = Inr (k, s')"
  shows "emergency_ok s'"
  using c
proof (rule set_level_effect)
  fix y s1
  assume a: "is_emergency_signer s a" and k: "k = ec_next_id s"
    and s1: "s1 = s\<lparr>ec_next_id := Suc k, ec_actions := (ec_actions s)(k \<mapsto> new_action s a l r t y)\<rparr>"
    and log: "same_but_log (if needs_more s l then s1 else s1\<lparr>ec_level := l, ec_last_escalation_at := t\<rparr>) s'"
  have new: "ec_actions s k = None" using ok_action [OF ok] k by (cases "ec_actions s k") (auto simp: action_ok_def)
  have "action_ok (ec_config s) (k + 1) i b" if "ec_actions s1 i = Some b" for i b
    using that ok_action [OF ok, of i b] k a
    by (auto simp: s1 action_ok_def new_action_def is_emergency_signer_def required_for_def split: if_splits)
  moreover have "active_level (ec_actions s1) l" by (auto simp: s1 active_level_def new_action_def)
  moreover have "ec_level s = Level_None \<or> active_level (ec_actions s1) (ec_level s)"
    using ok new active_level_upd [of "ec_actions s" "ec_level s" k] by (auto simp: s1 emergency_ok_def)
  ultimately have "emergency_ok (if needs_more s l then s1 else s1\<lparr>ec_level := l, ec_last_escalation_at := t\<rparr>)"
    by (cases "needs_more s l"; intro emergency_okI [OF ok]) (simp_all add: s1)
  then show ?thesis by (rule emergency_ok_log [OF _ log])
qed

lemma approve_emergency_ok:
  assumes ok: "emergency_ok s" and c: "approve_emergency s k a t = Inr (n, s')"
  shows "emergency_ok s'"
  using c
proof (rule approve_emergency_effect)
  fix x y
  assume x: "is_emergency_signer s a" "ec_actions s k = Some x" "ea_status x = Active" "a \<notin> set (ea_approvals x)"
    and y: "y = x\<lparr>ea_approvals := ea_approvals x @ [a]\<rparr>"
    and s': "s' = (if ea_required_approvals x \<le> n \<and> ec_level s < ea_level x
       then s\<lparr>ec_actions := (ec_actions s)(k \<mapsto> y), ec_level := ea_level x, ec_last_escalation_at := t\<rparr>
       else s\<lparr>ec_actions := (ec_actions s)(k \<mapsto> y)\<rparr>)"
  have "action_ok (ec_config s) (ec_next_id s) i b" if "((ec_actions s)(k \<mapsto> y)) i = Some b" for i b
    using that ok_action [OF ok, of i b] ok_action [OF ok x(2)] x
    by (auto simp: y action_ok_def is_emergency_signer_def split: if_splits)
  moreover have "active_level ((ec_actions s)(k \<mapsto> y)) l" if "active_level (ec_actions s) l \<or> l = ea_level x" for l
    using that x unfolding active_level_def y by (metis (no_types, lifting) emergency_action.select_convs(2,7) emergency_action.surjective
        emergency_action.update_convs(8) fun_upd_apply option.inject)
  ultimately show ?thesis using ok by (intro emergency_okI [OF ok]) (auto simp: s' emergency_ok_def)
qed

lemma recalculated_ok:
  assumes ok: "emergency_ok s" and m: "\<And>k a. m k = Some a \<Longrightarrow> action_ok (ec_config s) (ec_next_id s) k a" and order: "set order = dom m"
  shows "emergency_ok (recalculate_level order (s\<lparr>ec_actions := m\<rparr>))"
proof (rule emergency_okI [OF ok])
  show "ec_level (recalculate_level order (s\<lparr>ec_actions := m\<rparr>)) = Level_None
    \<or> active_level (ec_actions (recalculate_level order (s\<lparr>ec_actions := m\<rparr>))) (ec_level (recalculate_level order (s\<lparr>ec_actions := m\<rparr>)))"
    using recalculate_top [of order "s\<lparr>ec_actions := m\<rparr>"] order by (simp add: top_level_def recalculate_level_def)
qed (use m in \<open>simp_all add: recalculate_level_def\<close>)

lemma lift_ok:
  assumes ok: "emergency_ok s" and w: "walks order s" and c: "lift_emergency s order k a t = Inr s'"
  shows "emergency_ok s'"
  using c
proof (rule lift_effect)
  fix x assume x: "ec_actions s k = Some x"
    and log: "same_but_log (recalculate_level order (s\<lparr>ec_actions := (ec_actions s)(k \<mapsto> x\<lparr>ea_status := Lifted\<rparr>)\<rparr>)) s'"
  have "emergency_ok (recalculate_level order (s\<lparr>ec_actions := (ec_actions s)(k \<mapsto> x\<lparr>ea_status := Lifted\<rparr>)\<rparr>))"
    using w x ok_action [OF ok x] ok_action [OF ok]
    by (intro recalculated_ok [OF ok]) (auto simp: walks_def split: if_splits)
  then show ?thesis by (rule emergency_ok_log [OF _ log])
qed

lemma resume_ok:
  assumes ok: "emergency_ok s" and c: "emergency_resume s a r t = Inr s'"
  shows "emergency_ok s'"
proof -
  have "emergency_ok (s\<lparr>ec_actions := (\<lambda>k. map_option lift_active (ec_actions s k)), ec_level := Level_None\<rparr>)"
    using ok_action [OF ok] by (intro emergency_okI [OF ok]) auto
  then show ?thesis by (rule emergency_ok_log [OF _ resume_effect(3) [OF c]])
qed

lemma tick_ok:
  assumes ok: "emergency_ok s" and w: "walks order s" and c: "tick s order t = Inr s'"
  shows "emergency_ok s'"
  using c w
proof (cases rule: tick_effect)
  case idle then show ?thesis using ok by simp
next
  case (expired m)
  have "emergency_ok (recalculate_level order (s\<lparr>ec_actions := m\<rparr>))"
    using w ok_action [OF ok]
    by (intro recalculated_ok [OF ok]) (auto simp: expired(1) walks_def)
  then show ?thesis by (rule emergency_ok_log [OF _ expired(3)])
qed

lemma whitelist_ok: "emergency_ok s \<Longrightarrow> log_action x t (s\<lparr>ec_whitelist := w\<rparr>) = Inr s' \<Longrightarrow> emergency_ok s'"
  by (drule log_action_effect, erule emergency_ok_log [rotated]) (simp add: emergency_ok_def verify_emergency_trail_def)

lemma emergency_exec_ok:
  assumes ok: "emergency_ok s" and w: "call_walks s c" and c: "emergency_exec s c = Inr s'"
  shows "emergency_ok s'"
proof (cases c)
  case (Set_Level a l r t x)
  with c obtain k where "set_emergency_level s a l r t x = Inr (k, s')" by (auto simp: bindR_eq_Inr)
  then show ?thesis by (rule set_level_ok [OF ok])
next
  case (Approve k a t)
  with c obtain n where "approve_emergency s k a t = Inr (n, s')" by (auto simp: bindR_eq_Inr)
  then show ?thesis by (rule approve_emergency_ok [OF ok])
next
  case (Lift order k a t) then show ?thesis using c w by (intro lift_ok [OF ok]) simp_all
next
  case (Resume a r t) then show ?thesis using c by (intro resume_ok [OF ok]) simp
next
  case (Tick order t) then show ?thesis using c w by (intro tick_ok [OF ok]) simp_all
next
  case (Whitelist a t) then show ?thesis using c by (auto simp: add_to_whitelist_def bindR_eq_Inr intro: whitelist_ok [OF ok])
next
  case (Unwhitelist a t) then show ?thesis using c by (auto simp: remove_from_whitelist_def intro: whitelist_ok [OF ok])
qed

lemma emergency_init_ok: "emergency_init s \<Longrightarrow> emergency_ok s"
  by (auto simp: emergency_init_def controller_new_def emergency_ok_def verify_emergency_trail_def)

lemma emergency_step_ok: "emergency_step s s' \<Longrightarrow> emergency_ok s \<Longrightarrow> emergency_ok s'"
  by (auto elim!: emergency_step.cases intro: emergency_exec_ok)

interpretation emergency_machine: machine_invariant emergency_init emergency_step emergency_ok
  by unfold_locales (auto intro: emergency_init_ok emergency_step_ok)

section \<open>Properties\<close>

text \<open>
  C38: whenever operations are restricted, there is an action at that level which is still active, with
  different signers as its approvals; and the audit log verifies.
\<close>

theorem restriction_has_active_action:
  assumes "emergency_reachable s"
  shows "verify_emergency_trail s \<and> (emergency_is_paused s \<longrightarrow> (\<exists>k a. get_action s k = Some a \<and> ea_status a = Active
     \<and> ea_level a = current_level s \<and> distinct (ea_approvals a) \<and> set (ea_approvals a) \<subseteq> set (cfg_signers (ec_config s))))"
proof -
  have ok: "emergency_ok s" by (rule emergency_machine.inv_reachable [OF assms])
  then show ?thesis using ok_action [OF ok]
    by (auto simp: emergency_ok_def emergency_is_paused_def active_level_def get_action_def current_level_def action_ok_def) blast+
qed

text \<open>
  The levels are graduated: what a higher level still allows, every lower level allows.
\<close>

theorem levels_are_graduated:
  assumes "l \<le> l'" "allows_operation l' op"
  shows "allows_operation l op"
  using assms by (cases l; cases l'; cases op) (simp_all add: less_eq_emergency_level_def)

lemma expire_not_due: "\<not> due t (expire t a)"
  by (simp add: expire_def due_def)

text \<open>
  After a tick no active action is past its expiry, no other action has changed, and if one expired the
  level is the highest of the actions still active, in whatever order the map was walked.
\<close>

theorem tick_expires:
  assumes "walks order s" and "tick s order t = Inr s'"
  shows "(\<forall>k. get_action s' k = map_option (expire t) (get_action s k)) \<and> (\<forall>k a. get_action s' k = Some a \<longrightarrow> \<not> due t a)
     \<and> (s' = s \<or> top_level (ec_actions s') (current_level s'))"
  using assms(2,1)
proof (cases rule: tick_effect)
  case idle
  then have "map_option (expire t) (ec_actions s k) = ec_actions s k" for k by (cases "ec_actions s k") (simp_all add: expire_def)
  with idle show ?thesis by (simp add: get_action_def)
next
  case (expired m)
  have "set order = dom m" using assms(1) by (auto simp: walks_def expired(1))
  then have "top_level m (ec_level (recalculate_level order (s\<lparr>ec_actions := m\<rparr>)))"
    using recalculate_top [of order "s\<lparr>ec_actions := m\<rparr>"] by (simp add: recalculate_level_def)
  moreover have "ec_actions s' = m" "ec_level s' = ec_level (recalculate_level order (s\<lparr>ec_actions := m\<rparr>))"
    using expired(3) by (simp_all add: same_but_log_def recalculate_level_def)
  ultimately show ?thesis by (auto simp: get_action_def current_level_def expired(1) expire_not_due)
qed

text \<open>
  An approval raises the level only when as many different signers as the level needs have approved
  the action.
\<close>

theorem approval_raises_with_quorum:
  assumes "emergency_reachable s" and "approve_emergency s k a t = Inr (n, s')" and "current_level s' \<noteq> current_level s"
  shows "current_level s < current_level s' \<and> (\<exists>x. get_action s' k = Some x \<and> ea_level x = current_level s' \<and> n = length (ea_approvals x)
     \<and> distinct (ea_approvals x) \<and> set (ea_approvals x) \<subseteq> set (cfg_signers (ec_config s')) \<and> required_for s' (current_level s') \<le> n)"
  using assms(2)
proof (rule approve_emergency_effect)
  fix x y
  assume x: "is_emergency_signer s a" "ec_actions s k = Some x" "ea_status x = Active" "a \<notin> set (ea_approvals x)"
    and y: "y = x\<lparr>ea_approvals := ea_approvals x @ [a]\<rparr>" "n = Suc (length (ea_approvals x))"
    and s': "s' = (if ea_required_approvals x \<le> n \<and> ec_level s < ea_level x
       then s\<lparr>ec_actions := (ec_actions s)(k \<mapsto> y), ec_level := ea_level x, ec_last_escalation_at := t\<rparr>
       else s\<lparr>ec_actions := (ec_actions s)(k \<mapsto> y)\<rparr>)"
  have "action_ok (ec_config s) (ec_next_id s) k x" using emergency_machine.inv_reachable [OF assms(1)] x(2) by (rule ok_action)
  then show ?thesis using x y s' assms(3)
    by (auto simp: current_level_def get_action_def action_ok_def is_emergency_signer_def required_for_def split: if_splits)
qed

text \<open>
  A single signer ends any emergency: setting the level to none takes effect at once, whatever the level
  was and however many signers a resumption should need.
\<close>

theorem one_signer_stands_down:
  assumes "set_emergency_level s a Level_None r t x = Inr (k, s')"
  shows "current_level s' = Level_None \<and> (\<forall>op. is_operation_allowed s' op)"
  using assms
proof (rule set_level_effect)
  fix y s1
  assume "same_but_log (if needs_more s Level_None then s1 else s1\<lparr>ec_level := Level_None, ec_last_escalation_at := t\<rparr>) s'"
  then have "ec_level s' = Level_None" by (simp add: needs_more_def less_eq_emergency_level_def same_but_log_def)
  then show ?thesis by (simp add: current_level_def is_operation_allowed_def)
qed

text \<open>
  An action that still waits for approvals takes effect when any other action is lifted: the level is
  then computed from all active actions, and waiting ones are active. One signer thus sets the highest level.
\<close>

theorem pending_action_takes_effect:
  assumes "emergency_reachable s" and set: "set_emergency_level s a l r t x = Inr (k, s1)" and high: "Level_High \<le> l" "1 < required_for s l"
    and lift: "lift_emergency s1 order j a t2 = Inr s2" "walks order s1" "j \<noteq> k"
  shows "current_level s1 = current_level s \<and> l \<le> current_level s2 \<and> map_option ea_approvals (get_action s2 k) = Some [a]"
  using set
proof (rule set_level_effect)
  fix y s0
  assume k: "k = ec_next_id s" and s0: "s0 = s\<lparr>ec_next_id := Suc k, ec_actions := (ec_actions s)(k \<mapsto> new_action s a l r t y)\<rparr>"
    and log: "same_but_log (if needs_more s l then s0 else s0\<lparr>ec_level := l, ec_last_escalation_at := t\<rparr>) s1"
  have s1: "ec_level s1 = ec_level s" "ec_actions s1 = (ec_actions s)(k \<mapsto> new_action s a l r t y)"
    using log high by (simp_all add: needs_more_def same_but_log_def s0)
  show ?thesis using lift(1)
  proof (rule lift_effect)
    fix z
    let ?m = "(ec_actions s1)(j \<mapsto> z\<lparr>ea_status := Lifted\<rparr>)"
    assume z: "ec_actions s1 j = Some z" and log2: "same_but_log (recalculate_level order (s1\<lparr>ec_actions := ?m\<rparr>)) s2"
    have m: "?m k = Some (new_action s a l r t y)" using lift(3) s1(2) by simp
    have "top_level ?m (ec_level (recalculate_level order (s1\<lparr>ec_actions := ?m\<rparr>)))"
      using recalculate_top [of order "s1\<lparr>ec_actions := ?m\<rparr>"] lift(2) z by (simp add: recalculate_level_def walks_def insert_absorb domI)
    moreover have "active_level ?m l" unfolding active_level_def using m by (intro exI [of _ k] exI [of _ "new_action s a l r t y"]) (simp add: new_action_def)
    ultimately have "l \<le> ec_level s2" using log2 by (simp add: top_level_def same_but_log_def)
    moreover have "ec_actions s2 k = Some (new_action s a l r t y)" using log2 m by (simp add: same_but_log_def recalculate_level_def)
    ultimately show ?thesis using s1(1) by (simp add: current_level_def get_action_def new_action_def)
  qed
qed

section \<open>Witnesses\<close>

definition demo_controller :: controller where
  "demo_controller = controller_new (emergency_config_default\<lparr>cfg_signers := [''a'', ''b'', ''c'']\<rparr>)"

definition demo_controller1 :: controller where
  "demo_controller1 = (case set_emergency_level demo_controller ''a'' Level_Low ''r'' 10 (Some 100) of Inr r \<Rightarrow> snd r)"

definition demo_controller2 :: controller where
  "demo_controller2 = (case set_emergency_level demo_controller1 ''a'' Level_Critical ''r'' 400 None of Inr r \<Rightarrow> snd r)"

lemmas demo_emergency_eval = demo_controller_def demo_controller1_def demo_controller2_def controller_new_def emergency_config_default_def
  set_emergency_level_def is_emergency_signer_def cooling_down_def expiry_of_def required_for_def u_add_def Let_def log_action_def
  less_emergency_level_def less_eq_emergency_level_def

lemma demo_set1: "set_emergency_level demo_controller ''a'' Level_Low ''r'' 10 (Some 100) = Inr (1, demo_controller1)"
  by (simp add: demo_emergency_eval)

lemma demo_set2: "set_emergency_level demo_controller1 ''a'' Level_Critical ''r'' 400 None = Inr (2, demo_controller2)"
  by (simp add: demo_emergency_eval)

lemma demo_controller_reachable: "emergency_reachable demo_controller" "emergency_reachable demo_controller1" "emergency_reachable demo_controller2"
proof -
  show 0: "emergency_reachable demo_controller" by (rule reach_init) (auto simp: emergency_init_def demo_controller_def)
  have "emergency_exec demo_controller (Set_Level ''a'' Level_Low ''r'' 10 (Some 100)) = Inr demo_controller1" by (simp add: demo_set1)
  from emergency_reach [OF 0 _ this] show 1: "emergency_reachable demo_controller1" by simp
  have "emergency_exec demo_controller1 (Set_Level ''a'' Level_Critical ''r'' 400 None) = Inr demo_controller2" by (simp add: demo_set2)
  from emergency_reach [OF 1 _ this] show "emergency_reachable demo_controller2" by simp
qed

lemma demo_walks: "walks [2, 1] demo_controller2" "walks [1] demo_controller1"
  by (auto simp: walks_def demo_emergency_eval)

theorem restriction_has_active_action_witness: "\<exists>k a. get_action demo_controller1 k = Some a \<and> ea_level a = Level_Low"
  using restriction_has_active_action [OF demo_controller_reachable(2)] by (auto simp: emergency_is_paused_def current_level_def demo_emergency_eval)

theorem levels_are_graduated_witness: "allows_operation Level_Low LpWithdraw"
  by (rule levels_are_graduated [of Level_Low Level_Medium]) (simp_all add: less_eq_emergency_level_def)

lemma demo_tick: "\<exists>s'. tick demo_controller1 [1] 110 = Inr s'"
  by (simp add: demo_emergency_eval tick_def due_def action_expired_def recalculate_level_def)

theorem tick_expires_witness: "\<exists>s'. tick demo_controller1 [1] 110 = Inr s' \<and> (\<forall>k a. get_action s' k = Some a \<longrightarrow> \<not> due 110 a)"
  using demo_tick tick_expires [OF demo_walks(2)] by blast

theorem one_signer_stands_down_witness:
  "\<exists>k s'. set_emergency_level demo_controller2 ''b'' Level_None ''r'' 500 None = Inr (k, s') \<and> is_operation_allowed s' Swap"
proof -
  obtain k s' where "set_emergency_level demo_controller2 ''b'' Level_None ''r'' 500 None = Inr (k, s')" by (simp add: demo_emergency_eval)
  with one_signer_stands_down [OF this] show ?thesis by blast
qed

theorem pending_action_takes_effect_witness:
  "\<exists>s'. lift_emergency demo_controller2 [2, 1] 1 ''a'' 401 = Inr s' \<and> Level_Critical \<le> current_level s'"
proof -
  obtain s' where s': "lift_emergency demo_controller2 [2, 1] 1 ''a'' 401 = Inr s'"
    by (simp add: demo_emergency_eval lift_emergency_def recalculate_level_def)
  show ?thesis
    using pending_action_takes_effect [OF demo_controller_reachable(2) demo_set2 _ _ s' demo_walks(1)] s'
    by (simp add: required_for_def less_eq_emergency_level_def demo_controller1_def demo_emergency_eval)
qed

theorem approval_raises_with_quorum_witness:
  "\<exists>s1 s2 n. approve_emergency demo_controller2 2 ''b'' 402 = Inr (2, s1) \<and> approve_emergency s1 2 ''c'' 403 = Inr (n, s2) \<and> required_for s2 (current_level s2) \<le> n"
proof -
  obtain s1 where s1: "approve_emergency demo_controller2 2 ''b'' 402 = Inr (2, s1)" by (simp add: demo_emergency_eval approve_emergency_def)
  obtain n s2 where s2: "approve_emergency s1 2 ''c'' 403 = Inr (n, s2)" "current_level s2 \<noteq> current_level s1"
    using s1 by (auto simp: demo_emergency_eval approve_emergency_def current_level_def)
  have "emergency_reachable s1"
    by (rule emergency_reach [OF demo_controller_reachable(3), of "Approve 2 ''b'' 402"]) (simp_all add: s1)
  from approval_raises_with_quorum [OF this s2] s1 s2(1) show ?thesis by auto
qed

end
