(* ===== verification/Upgrade.thy ===== *)
theory Upgrade
  imports Machine_Ints "HOL-Library.Word"
begin

text \<open>
  Protocol upgrades of the counter crate's governance (\<open>counter/src/governance/upgrade.rs\<close>), a plain Rust
  module: versions, upgrade proposals with approvals and a timelock, execution, rollback and history.
\<close>

section \<open>Versions\<close>

datatype version = Version (major: nat) (minor: nat) (patch: nat)

text \<open>The derived order compares the fields in the order of their declaration.\<close>

instantiation version :: linorder
begin

definition less_version :: "version \<Rightarrow> version \<Rightarrow> bool" where
  "less_version a b \<longleftrightarrow> major a < major b \<or> (major a = major b \<and> (minor a < minor b \<or> (minor a = minor b \<and> patch a < patch b)))"

definition less_eq_version :: "version \<Rightarrow> version \<Rightarrow> bool" where
  "less_eq_version a b \<longleftrightarrow> (a :: version) < b \<or> a = b"

instance
proof
  fix x y :: version
  show "x \<le> y \<or> y \<le> x" by (cases x; cases y) (auto simp: less_eq_version_def less_version_def)
qed (auto simp: less_eq_version_def less_version_def)

end

definition is_breaking :: "version \<Rightarrow> version \<Rightarrow> bool" where
  "is_breaking v w \<longleftrightarrow> major v > major w"

definition is_feature :: "version \<Rightarrow> version \<Rightarrow> bool" where
  "is_feature v w \<longleftrightarrow> major v = major w \<and> minor v > minor w"

definition is_patch :: "version \<Rightarrow> version \<Rightarrow> bool" where
  "is_patch v w \<longleftrightarrow> major v = major w \<and> minor v = minor w \<and> patch v > patch w"

section \<open>State\<close>

datatype upgrade_error =
    OnlySigners | NotNewer | NeedsMajorBump | NeedsMinorBump | NeedsPatchBump | ProposalNotFound | WrongStatus
  | ProposalExpired | AlreadyApproved | NotReady | CannotCancelExecuted | AlreadyRolledBack | RollbackDisabled | NoRollbackVersion

datatype upgrade_status = Proposed | Timelock | Ready | Executed | Failed | Cancelled | RolledBack

datatype upgrade_type = Major | Minor | Patch | Hotfix | Config

record upgrade_proposal =
  up_id :: nat
  up_from_version :: version
  up_to_version :: version
  up_type :: upgrade_type
  up_proposer :: string
  up_description :: string
  up_code_hash :: "8 word list option"
  up_migration_steps :: "string list"
  up_required_approvals :: nat
  up_approvals :: "string list"
  up_proposed_at :: nat
  up_timelock_expires_at :: "nat option"
  up_timelock_duration :: nat
  up_status :: upgrade_status
  up_execution_result :: "string option"
  up_executed_at :: "nat option"

definition approval_count :: "upgrade_proposal \<Rightarrow> nat" where
  "approval_count p = length (up_approvals p)"

definition is_approved :: "upgrade_proposal \<Rightarrow> bool" where
  "is_approved p \<longleftrightarrow> length (up_approvals p) \<ge> up_required_approvals p"

definition can_execute :: "upgrade_proposal \<Rightarrow> nat \<Rightarrow> bool" where
  "can_execute p t \<longleftrightarrow> (up_status p = Ready \<or> up_status p = Timelock)
     \<and> (case up_timelock_expires_at p of Some x \<Rightarrow> t \<ge> x | None \<Rightarrow> False)"

record upgrade_record =
  ur_from_version :: version
  ur_to_version :: version
  ur_type :: upgrade_type
  ur_executed_at :: nat
  ur_executed_by :: string
  ur_success :: bool
  ur_description :: string

record upgrade_config =
  uc_default_timelock_secs :: nat
  uc_hotfix_timelock_secs :: nat
  uc_major_required_approvals :: nat
  uc_minor_required_approvals :: nat
  uc_patch_required_approvals :: nat
  uc_max_proposal_lifetime :: nat
  uc_rollback_enabled :: bool

definition upgrade_config_default :: upgrade_config where
  "upgrade_config_default = \<lparr>uc_default_timelock_secs = 172800, uc_hotfix_timelock_secs = 3600, uc_major_required_approvals = 5,
     uc_minor_required_approvals = 3, uc_patch_required_approvals = 2, uc_max_proposal_lifetime = 604800, uc_rollback_enabled = True\<rparr>"

record upgrade_manager =
  um_version :: version
  um_proposals :: "nat \<rightharpoonup> upgrade_proposal"
  um_history :: "upgrade_record list"
  um_signers :: "string list"
  um_config :: upgrade_config
  um_next_id :: nat
  um_rollback_version :: "version option"

definition upgrade_new :: "version \<Rightarrow> string list \<Rightarrow> upgrade_config \<Rightarrow> upgrade_manager" where
  "upgrade_new v signers config = \<lparr>um_version = v, um_proposals = Map.empty, um_history = [], um_signers = signers,
     um_config = config, um_next_id = 1, um_rollback_version = None\<rparr>"

section \<open>Operations\<close>

fun check_bump :: "upgrade_type \<Rightarrow> version \<Rightarrow> version \<Rightarrow> (unit, upgrade_error) res" where
  "check_bump Major to cur = ensure (is_breaking to cur) (Err NeedsMajorBump)"
| "check_bump Minor to cur = ensure (is_feature to cur) (Err NeedsMinorBump)"
| "check_bump Patch to cur = ensure (is_patch to cur) (Err NeedsPatchBump)"
| "check_bump Hotfix to cur = Inr ()"
| "check_bump Config to cur = Inr ()"

fun approvals_for :: "upgrade_config \<Rightarrow> upgrade_type \<Rightarrow> nat" where
  "approvals_for c Major = uc_major_required_approvals c"
| "approvals_for c Minor = uc_minor_required_approvals c"
| "approvals_for c Patch = uc_patch_required_approvals c"
| "approvals_for c Config = uc_patch_required_approvals c"
| "approvals_for c Hotfix = uc_minor_required_approvals c"

definition timelock_for :: "upgrade_config \<Rightarrow> upgrade_type \<Rightarrow> nat" where
  "timelock_for c ty = (case ty of Hotfix \<Rightarrow> uc_hotfix_timelock_secs c | _ \<Rightarrow> uc_default_timelock_secs c)"

definition propose_upgrade ::
    "upgrade_manager \<Rightarrow> string \<Rightarrow> version \<Rightarrow> upgrade_type \<Rightarrow> string \<Rightarrow> 8 word list option \<Rightarrow> string list \<Rightarrow> nat
     \<Rightarrow> (nat \<times> upgrade_manager, upgrade_error) res" where
  "propose_upgrade s proposer to_version ty description code_hash migration_steps t =
     bindR (ensure (proposer \<in> set (um_signers s)) (Err OnlySigners)) (\<lambda>_.
     bindR (ensure (\<not> to_version \<le> um_version s) (Err NotNewer)) (\<lambda>_.
     bindR (check_bump ty to_version (um_version s)) (\<lambda>_.
     let k = um_next_id s in
     bindR (u_add 64 k 1) (\<lambda>next.
     let proposal = \<lparr>up_id = k, up_from_version = um_version s, up_to_version = to_version, up_type = ty,
           up_proposer = proposer, up_description = description, up_code_hash = code_hash, up_migration_steps = migration_steps,
           up_required_approvals = approvals_for (um_config s) ty, up_approvals = [proposer], up_proposed_at = t,
           up_timelock_expires_at = None, up_timelock_duration = timelock_for (um_config s) ty, up_status = Proposed,
           up_execution_result = None, up_executed_at = None\<rparr>
     in Inr (k, s\<lparr>um_next_id := next, um_proposals := (um_proposals s)(k \<mapsto> proposal)\<rparr>)))))"

definition put_upgrade :: "upgrade_manager \<Rightarrow> nat \<Rightarrow> upgrade_proposal \<Rightarrow> upgrade_manager" where
  "put_upgrade s k p = s\<lparr>um_proposals := (um_proposals s)(k \<mapsto> p)\<rparr>"

text \<open>
  An approval that comes after the lifetime of the proposal cancels it and reports the error: the result is
  the error with the changed state.
\<close>

definition approve_upgrade :: "upgrade_manager \<Rightarrow> nat \<Rightarrow> string \<Rightarrow> nat \<Rightarrow> ((upgrade_error + nat) \<times> upgrade_manager, upgrade_error) res" where
  "approve_upgrade s k signer t =
     bindR (ensure (signer \<in> set (um_signers s)) (Err OnlySigners)) (\<lambda>_.
     bindR (ok_or (um_proposals s k) (Err ProposalNotFound)) (\<lambda>p.
     bindR (ensure (up_status p = Proposed) (Err WrongStatus)) (\<lambda>_.
     bindR (u_add 64 (up_proposed_at p) (uc_max_proposal_lifetime (um_config s))) (\<lambda>deadline.
     if t > deadline then Inr (Inl ProposalExpired, put_upgrade s k (p\<lparr>up_status := Cancelled\<rparr>))
     else
       bindR (ensure (signer \<notin> set (up_approvals p)) (Err AlreadyApproved)) (\<lambda>_.
       let p1 = p\<lparr>up_approvals := up_approvals p @ [signer]\<rparr>; count = approval_count p1 in
       bindR (if is_approved p1
              then bindR (u_add 64 t (up_timelock_duration p1)) (\<lambda>x. Inr (p1\<lparr>up_status := Timelock, up_timelock_expires_at := Some x\<rparr>))
              else Inr p1) (\<lambda>p2.
       Inr (Inr count, put_upgrade s k p2)))))))"

definition execute_upgrade :: "upgrade_manager \<Rightarrow> nat \<Rightarrow> nat \<Rightarrow> (upgrade_manager, upgrade_error) res" where
  "execute_upgrade s k t =
     bindR (ok_or (um_proposals s k) (Err ProposalNotFound)) (\<lambda>p.
     bindR (ensure (can_execute p t) (Err NotReady)) (\<lambda>_.
     let p1 = p\<lparr>up_status := Executed, up_executed_at := Some t, up_execution_result := Some ''Upgrade executed successfully''\<rparr> in
     Inr (s\<lparr>um_rollback_version := Some (um_version s), um_version := up_to_version p,
       um_proposals := (um_proposals s)(k \<mapsto> p1),
       um_history := um_history s @ [\<lparr>ur_from_version = up_from_version p, ur_to_version = up_to_version p, ur_type = up_type p,
         ur_executed_at = t, ur_executed_by = up_proposer p, ur_success = True, ur_description = up_description p\<rparr>]\<rparr>)))"

definition cancel_upgrade :: "upgrade_manager \<Rightarrow> nat \<Rightarrow> string \<Rightarrow> (upgrade_manager, upgrade_error) res" where
  "cancel_upgrade s k signer =
     bindR (ok_or (um_proposals s k) (Err ProposalNotFound)) (\<lambda>p.
     bindR (ensure (signer \<in> set (um_signers s)) (Err OnlySigners)) (\<lambda>_.
     bindR (ensure (up_status p \<noteq> Executed) (Err CannotCancelExecuted)) (\<lambda>_.
     bindR (ensure (up_status p \<noteq> RolledBack) (Err AlreadyRolledBack)) (\<lambda>_.
     Inr (put_upgrade s k (p\<lparr>up_status := Cancelled\<rparr>))))))"

definition rollback :: "upgrade_manager \<Rightarrow> string \<Rightarrow> nat \<Rightarrow> (upgrade_manager, upgrade_error) res" where
  "rollback s reason t =
     bindR (ensure (uc_rollback_enabled (um_config s)) (Err RollbackDisabled)) (\<lambda>_.
     bindR (ok_or (um_rollback_version s) (Err NoRollbackVersion)) (\<lambda>v.
     Inr (s\<lparr>um_history := um_history s @ [\<lparr>ur_from_version = um_version s, ur_to_version = v, ur_type = Hotfix, ur_executed_at = t,
         ur_executed_by = ''system'', ur_success = True, ur_description = ''Rollback: '' @ reason\<rparr>],
       um_version := v\<rparr>)))"

definition get_upgrade :: "upgrade_manager \<Rightarrow> nat \<Rightarrow> upgrade_proposal option" where
  "get_upgrade s k = um_proposals s k"

definition current_version :: "upgrade_manager \<Rightarrow> version" where
  "current_version s = um_version s"

text \<open>The hash map lists its values in no particular order: the result is a set.\<close>

definition pending_upgrades :: "upgrade_manager \<Rightarrow> upgrade_proposal set" where
  "pending_upgrades s = {p \<in> ran (um_proposals s). up_status p \<noteq> Executed \<and> up_status p \<noteq> Cancelled \<and> up_status p \<noteq> RolledBack}"

end
