(* ===== verification/Upgrade_Props.thy ===== *)
theory Upgrade_Props
  imports Upgrade
begin

text \<open>
  The upgrade manager over any run of its operations: an upgrade has its approvals and its timelock behind
  it, the history agrees with the version; and upgrades that go backwards.
\<close>

section \<open>Runs\<close>

datatype upgrade_call =
    Propose string version upgrade_type string "8 word list option" "string list"
  | Approve nat string
  | Execute nat
  | Cancel nat string
  | Rollback string

fun upgrade_exec :: "nat \<Rightarrow> upgrade_manager \<Rightarrow> upgrade_call \<Rightarrow> (upgrade_manager, upgrade_error) res" where
  "upgrade_exec t s (Propose a v ty desc h steps) = bindR (propose_upgrade s a v ty desc h steps t) (\<lambda>(_, s'). Inr s')"
| "upgrade_exec t s (Approve k a) = bindR (approve_upgrade s k a t) (\<lambda>(_, s'). Inr s')"
| "upgrade_exec t s (Execute k) = execute_upgrade s k t"
| "upgrade_exec t s (Cancel k a) = cancel_upgrade s k a"
| "upgrade_exec t s (Rollback why) = rollback s why t"

text \<open>A state is the time of the last call and the manager; time does not go back.\<close>

inductive upgrade_step :: "nat \<times> upgrade_manager \<Rightarrow> nat \<times> upgrade_manager \<Rightarrow> bool" where
  upgrade_call: "t \<le> t' \<Longrightarrow> upgrade_exec t' s c = Inr s' \<Longrightarrow> upgrade_step (t, s) (t', s')"

definition upgrade_init :: "nat \<times> upgrade_manager \<Rightarrow> bool" where
  "upgrade_init ts \<longleftrightarrow> (\<exists>v signers config. snd ts = upgrade_new v signers config)"

abbreviation upgrade_reachable :: "nat \<times> upgrade_manager \<Rightarrow> bool" where
  "upgrade_reachable \<equiv> reachable upgrade_init upgrade_step"

lemma upgrade_reach: "upgrade_reachable (t, s) \<Longrightarrow> t \<le> t' \<Longrightarrow> upgrade_exec t' s c = Inr s' \<Longrightarrow> upgrade_reachable (t', s')"
  by (blast intro: reach_step upgrade_call)

section \<open>What the operations do\<close>

definition new_upgrade :: "upgrade_manager \<Rightarrow> string \<Rightarrow> version \<Rightarrow> upgrade_type \<Rightarrow> string \<Rightarrow> 8 word list option \<Rightarrow> string list \<Rightarrow> nat
    \<Rightarrow> upgrade_proposal" where
  "new_upgrade s a v ty desc h steps t = \<lparr>up_id = um_next_id s, up_from_version = um_version s, up_to_version = v, up_type = ty,
     up_proposer = a, up_description = desc, up_code_hash = h, up_migration_steps = steps,
     up_required_approvals = approvals_for (um_config s) ty, up_approvals = [a], up_proposed_at = t, up_timelock_expires_at = None,
     up_timelock_duration = timelock_for (um_config s) ty, up_status = Proposed, up_execution_result = None, up_executed_at = None\<rparr>"

lemma propose_upgrade_effect:
  assumes "propose_upgrade s a v ty desc h steps t = Inr (k, s')"
  shows "a \<in> set (um_signers s)" "um_version s < v" "k = um_next_id s" "check_bump ty v (um_version s) = Inr ()"
    "s' = s\<lparr>um_next_id := Suc k, um_proposals := (um_proposals s)(k \<mapsto> new_upgrade s a v ty desc h steps t)\<rparr>"
  using assms unfolding new_upgrade_def
  by (auto simp: propose_upgrade_def Let_def bindR_eq_Inr ensure_eq_Inr u_add_eq_Inr not_le)

lemma approve_upgrade_effect:
  assumes "approve_upgrade s k a t = Inr (r, s')"
  obtains (late) p where "um_proposals s k = Some p" "up_status p = Proposed" "r = Inl ProposalExpired"
      "s' = put_upgrade s k (p\<lparr>up_status := Cancelled\<rparr>)"
  | (counted) p q where "um_proposals s k = Some p" "up_status p = Proposed" "a \<in> set (um_signers s)" "a \<notin> set (up_approvals p)"
      "q = p\<lparr>up_approvals := up_approvals p @ [a]\<rparr>"
      "s' = put_upgrade s k (if up_required_approvals p \<le> Suc (length (up_approvals p))
         then q\<lparr>up_status := Timelock, up_timelock_expires_at := Some (t + up_timelock_duration p)\<rparr> else q)"
proof -
  from assms obtain p d where p: "um_proposals s k = Some p" "up_status p = Proposed" "a \<in> set (um_signers s)"
    "u_add 64 (up_proposed_at p) (uc_max_proposal_lifetime (um_config s)) = (Inr d :: (nat, upgrade_error) res)"
    by (auto simp: approve_upgrade_def bindR_eq_Inr ensure_eq_Inr ok_or_eq_Inr)
  show thesis
  proof (cases "d < t")
    case True
    with assms p show thesis by (intro late) (auto simp: approve_upgrade_def u_add_def split: if_splits)
  next
    case False
    with assms p show thesis
      by (intro counted) (auto simp: approve_upgrade_def Let_def bindR_eq_Inr ensure_eq_Inr u_add_eq_Inr is_approved_def split: if_splits)
  qed
qed

lemma execute_upgrade_effect:
  assumes "execute_upgrade s k t = Inr s'"
  obtains p where "um_proposals s k = Some p" "can_execute p t" "um_version s' = up_to_version p"
    "um_proposals s' = (um_proposals s)(k \<mapsto> p\<lparr>up_status := Executed, up_executed_at := Some t,
       up_execution_result := Some ''Upgrade executed successfully''\<rparr>)"
    "um_rollback_version s' = Some (um_version s)" "um_signers s' = um_signers s" "um_config s' = um_config s" "um_next_id s' = um_next_id s"
    "um_history s' = um_history s @ [\<lparr>ur_from_version = up_from_version p, ur_to_version = up_to_version p, ur_type = up_type p,
         ur_executed_at = t, ur_executed_by = up_proposer p, ur_success = True, ur_description = up_description p\<rparr>]"
  using assms by (auto simp: execute_upgrade_def Let_def bindR_eq_Inr ensure_eq_Inr ok_or_eq_Inr)

lemma cancel_upgrade_effect:
  assumes "cancel_upgrade s k a = Inr s'"
  obtains p where "um_proposals s k = Some p" "up_status p \<noteq> Executed" "s' = put_upgrade s k (p\<lparr>up_status := Cancelled\<rparr>)"
  using assms by (auto simp: cancel_upgrade_def bindR_eq_Inr ensure_eq_Inr ok_or_eq_Inr)

lemma rollback_effect:
  assumes "rollback s why t = Inr s'"
  obtains v where "um_rollback_version s = Some v" "um_version s' = v" "um_rollback_version s' = Some v" "um_proposals s' = um_proposals s"
    "um_signers s' = um_signers s" "um_config s' = um_config s" "um_next_id s' = um_next_id s"
    "um_history s' = um_history s @ [\<lparr>ur_from_version = um_version s, ur_to_version = v, ur_type = Hotfix, ur_executed_at = t,
         ur_executed_by = ''system'', ur_success = True, ur_description = ''Rollback: '' @ why\<rparr>]"
  using assms by (auto simp: rollback_def bindR_eq_Inr ensure_eq_Inr ok_or_eq_Inr)

section \<open>The invariant\<close>

definition upgrade_ok1 :: "nat \<Rightarrow> string list \<Rightarrow> upgrade_config \<Rightarrow> nat \<Rightarrow> nat \<Rightarrow> upgrade_proposal \<Rightarrow> bool" where
  "upgrade_ok1 t A c n k p \<longleftrightarrow> up_id p = k \<and> k < n \<and> up_proposed_at p \<le> t \<and> up_from_version p < up_to_version p
     \<and> distinct (up_approvals p) \<and> set (up_approvals p) \<subseteq> set A \<and> up_approvals p \<noteq> []
     \<and> up_required_approvals p = approvals_for c (up_type p) \<and> up_timelock_duration p = timelock_for c (up_type p)
     \<and> check_bump (up_type p) (up_to_version p) (up_from_version p) = Inr ()
     \<and> (up_status p = Proposed \<longrightarrow> up_timelock_expires_at p = None)
     \<and> (\<forall>x. up_timelock_expires_at p = Some x \<longrightarrow> up_proposed_at p + up_timelock_duration p \<le> x
          \<and> max 2 (up_required_approvals p) \<le> length (up_approvals p))"

definition history_ok :: "upgrade_manager \<Rightarrow> bool" where
  "history_ok s \<longleftrightarrow> um_history s \<noteq> [] \<longrightarrow> um_version s = ur_to_version (last (um_history s))"

definition upgrades_ok :: "nat \<times> upgrade_manager \<Rightarrow> bool" where
  "upgrades_ok ts \<longleftrightarrow> history_ok (snd ts)
     \<and> (\<forall>k p. um_proposals (snd ts) k = Some p \<longrightarrow> upgrade_ok1 (fst ts) (um_signers (snd ts)) (um_config (snd ts)) (um_next_id (snd ts)) k p)"

lemma upgrade_ok1_later: "upgrade_ok1 t A c n k p \<Longrightarrow> t \<le> t' \<Longrightarrow> n \<le> n' \<Longrightarrow> upgrade_ok1 t' A c n' k p"
  unfolding upgrade_ok1_def by auto

lemma upgrades_put:
  assumes ok: "upgrades_ok (t, s)" and t: "t \<le> t'" and q: "upgrade_ok1 t' (um_signers s) (um_config s) (um_next_id s) k q"
  shows "upgrades_ok (t', put_upgrade s k q)"
  using ok t q by (auto simp: upgrades_ok_def put_upgrade_def history_ok_def intro: upgrade_ok1_later)

lemma upgrade_exec_ok:
  assumes ok: "upgrades_ok (t, s)" and t: "t \<le> t'" and c: "upgrade_exec t' s c = Inr s'"
  shows "upgrades_ok (t', s')"
proof -
  have ok1: "upgrade_ok1 t' (um_signers s) (um_config s) (um_next_id s) k p" if "um_proposals s k = Some p" for k p
    using ok t that by (auto simp: upgrades_ok_def intro: upgrade_ok1_later)
  show ?thesis
  proof (cases c)
    case (Propose a v ty desc h steps)
    with c obtain k where "propose_upgrade s a v ty desc h steps t' = Inr (k, s')" by (auto simp: bindR_eq_Inr)
    note p = propose_upgrade_effect [OF this]
    have "upgrade_ok1 t' (um_signers s) (um_config s) (Suc k) k (new_upgrade s a v ty desc h steps t')"
      using p(1-4) by (simp add: upgrade_ok1_def new_upgrade_def)
    moreover have "upgrade_ok1 t' (um_signers s) (um_config s) (Suc k) i q" if "um_proposals s i = Some q" for i q
      using ok1 [OF that] p(3) by (auto intro: upgrade_ok1_later)
    ultimately show ?thesis using ok by (auto simp: upgrades_ok_def history_ok_def p(5))
  next
    case (Approve k a)
    with c obtain r where "approve_upgrade s k a t' = Inr (r, s')" by (auto simp: bindR_eq_Inr)
    then show ?thesis
    proof (cases rule: approve_upgrade_effect)
      case (late p)
      have "upgrade_ok1 t' (um_signers s) (um_config s) (um_next_id s) k (p\<lparr>up_status := Cancelled\<rparr>)"
        using ok1 [OF late(1)] unfolding upgrade_ok1_def by auto
      with late show ?thesis by (simp add: upgrades_put [OF ok t])
    next
      case (counted p q)
      note o = ok1 [OF counted(1), unfolded upgrade_ok1_def]
      have two: "2 \<le> Suc (length (up_approvals p))" using o by (cases "up_approvals p") simp_all
      have q: "upgrade_ok1 t' (um_signers s) (um_config s) (um_next_id s) k q"
        using o counted(2-4) by (simp add: counted(5) upgrade_ok1_def)
      have "upgrade_ok1 t' (um_signers s) (um_config s) (um_next_id s) k
          (q\<lparr>up_status := Timelock, up_timelock_expires_at := Some (t' + up_timelock_duration p)\<rparr>)"
        if "up_required_approvals p \<le> Suc (length (up_approvals p))"
        using q o two that by (simp add: counted(5) upgrade_ok1_def)
      with q show ?thesis unfolding counted(6) by (intro upgrades_put [OF ok t]) (simp split: if_splits)
    qed
  next
    case (Execute k)
    with c have "execute_upgrade s k t' = Inr s'" by simp
    then show ?thesis
    proof (rule execute_upgrade_effect)
      fix p assume p: "um_proposals s k = Some p" and s': "um_version s' = up_to_version p"
        "um_proposals s' = (um_proposals s)(k \<mapsto> p\<lparr>up_status := Executed, up_executed_at := Some t',
           up_execution_result := Some ''Upgrade executed successfully''\<rparr>)"
        "um_signers s' = um_signers s" "um_config s' = um_config s" "um_next_id s' = um_next_id s"
        "um_history s' = um_history s @ [\<lparr>ur_from_version = up_from_version p, ur_to_version = up_to_version p, ur_type = up_type p,
           ur_executed_at = t', ur_executed_by = up_proposer p, ur_success = True, ur_description = up_description p\<rparr>]"
      have "upgrade_ok1 t' (um_signers s) (um_config s) (um_next_id s) k (p\<lparr>up_status := Executed, up_executed_at := Some t',
           up_execution_result := Some ''Upgrade executed successfully''\<rparr>)"
        using ok1 [OF p] unfolding upgrade_ok1_def by auto
      then show ?thesis using ok1 by (auto simp: upgrades_ok_def history_ok_def s')
    qed
  next
    case (Cancel k a)
    with c have "cancel_upgrade s k a = Inr s'" by simp
    then show ?thesis
    proof (rule cancel_upgrade_effect)
      fix p assume p: "um_proposals s k = Some p" and s': "s' = put_upgrade s k (p\<lparr>up_status := Cancelled\<rparr>)"
      have "upgrade_ok1 t' (um_signers s) (um_config s) (um_next_id s) k (p\<lparr>up_status := Cancelled\<rparr>)"
        using ok1 [OF p] unfolding upgrade_ok1_def by auto
      with s' show ?thesis by (simp add: upgrades_put [OF ok t])
    qed
  next
    case (Rollback why)
    with c have "rollback s why t' = Inr s'" by simp
    then show ?thesis by (rule rollback_effect) (use ok1 in \<open>auto simp: upgrades_ok_def history_ok_def\<close>)
  qed
qed

lemma upgrade_init_ok: "upgrade_init ts \<Longrightarrow> upgrades_ok ts"
  by (auto simp: upgrade_init_def upgrade_new_def upgrades_ok_def history_ok_def)

lemma upgrade_step_ok: "upgrade_step ts ts' \<Longrightarrow> upgrades_ok ts \<Longrightarrow> upgrades_ok ts'"
  by (auto elim!: upgrade_step.cases intro: upgrade_exec_ok)

interpretation upgrade_machine: machine_invariant upgrade_init upgrade_step upgrades_ok
  by unfold_locales (auto intro: upgrade_init_ok upgrade_step_ok)

section \<open>Executed for good\<close>

definition upgrade_executed :: "nat \<Rightarrow> nat \<times> upgrade_manager \<Rightarrow> bool" where
  "upgrade_executed k ts \<longleftrightarrow> (\<exists>p. um_proposals (snd ts) k = Some p \<and> up_status p = Executed)"

text \<open>
  No operation takes a proposal out of the status Executed: approvals and executions need another status,
  cancellation refuses it, and a new proposal gets a number no proposal has.
\<close>

lemma upgrade_exec_executed:
  assumes ok: "upgrades_ok (t, s)" and c: "upgrade_exec t' s c = Inr s'" and k: "upgrade_executed k (t, s)"
  shows "upgrade_executed k (t', s')"
proof -
  from k obtain p where p: "um_proposals s k = Some p" "up_status p = Executed" by (auto simp: upgrade_executed_def)
  have fresh: "k < um_next_id s" using ok p(1) by (auto simp: upgrades_ok_def upgrade_ok1_def)
  show ?thesis
  proof (cases c)
    case (Propose a v ty desc h steps)
    with c obtain i where "propose_upgrade s a v ty desc h steps t' = Inr (i, s')" by (auto simp: bindR_eq_Inr)
    from propose_upgrade_effect(3,5) [OF this] fresh p show ?thesis by (simp add: upgrade_executed_def)
  next
    case (Approve i a)
    with c obtain r where "approve_upgrade s i a t' = Inr (r, s')" by (auto simp: bindR_eq_Inr)
    then show ?thesis by (cases rule: approve_upgrade_effect) (use p in \<open>auto simp: upgrade_executed_def put_upgrade_def\<close>)
  next
    case (Execute i)
    with c have "execute_upgrade s i t' = Inr s'" by simp
    then show ?thesis by (rule execute_upgrade_effect) (use p in \<open>auto simp: upgrade_executed_def\<close>)
  next
    case (Cancel i a)
    with c have "cancel_upgrade s i a = Inr s'" by simp
    then show ?thesis by (rule cancel_upgrade_effect) (use p in \<open>auto simp: upgrade_executed_def put_upgrade_def\<close>)
  next
    case (Rollback why)
    with c have "rollback s why t' = Inr s'" by simp
    then show ?thesis by (rule rollback_effect) (use p in \<open>auto simp: upgrade_executed_def\<close>)
  qed
qed

lemma upgrade_steps_executed:
  assumes "upgrade_step\<^sup>*\<^sup>* ts ts'" and "upgrades_ok ts" and "upgrade_executed k ts"
  shows "upgrade_executed k ts'"
proof -
  from assms have "upgrades_ok ts' \<and> upgrade_executed k ts'"
    by (induction rule: rtranclp_induct) (auto elim!: upgrade_step.cases intro: upgrade_exec_ok upgrade_exec_executed)
  then show ?thesis ..
qed

lemma executed_upgrade_refused: "upgrade_executed k (t, s) \<Longrightarrow> execute_upgrade s k t' = Inl (Err NotReady)"
  by (auto simp: upgrade_executed_def execute_upgrade_def can_execute_def ensure_def)

section \<open>Properties\<close>

text \<open>
  C39: an upgrade that is executed has the approvals of as many different signers as its type needs, two at
  least, and it is not executed before the timelock of its type has passed since it was proposed. Its
  version differs from the version that was current when it was proposed by the kind of step its type
  names. It is executed only once: in every state the manager reaches from there, whatever is called, a
  further execution is refused.
\<close>

theorem upgrade_needs_quorum_and_time:
  assumes run: "upgrade_reachable (t, s)" "t \<le> t2" and ex: "execute_upgrade s k t2 = Inr s'"
    and later: "upgrade_step\<^sup>*\<^sup>* (t2, s') (t3, s3)"
  shows "\<exists>p. get_upgrade s k = Some p \<and> current_version s' = up_to_version p \<and> distinct (up_approvals p)
     \<and> set (up_approvals p) \<subseteq> set (um_signers s) \<and> max 2 (approvals_for (um_config s) (up_type p)) \<le> approval_count p
     \<and> up_proposed_at p + timelock_for (um_config s) (up_type p) \<le> t2
     \<and> check_bump (up_type p) (up_to_version p) (up_from_version p) = Inr () \<and> execute_upgrade s3 k t4 = Inl (Err NotReady)"
  using ex
proof (rule execute_upgrade_effect)
  fix p assume p: "um_proposals s k = Some p" "can_execute p t2" and s': "um_version s' = up_to_version p"
    "um_proposals s' = (um_proposals s)(k \<mapsto> p\<lparr>up_status := Executed, up_executed_at := Some t2,
       up_execution_result := Some ''Upgrade executed successfully''\<rparr>)"
  note inv = upgrade_machine.inv_reachable [OF run(1)]
  have ok: "upgrade_ok1 t (um_signers s) (um_config s) (um_next_id s) k p" using inv p(1) by (simp add: upgrades_ok_def)
  have "upgrades_ok (t2, s')" using upgrade_exec_ok [OF inv run(2)] ex by (metis upgrade_exec.simps(3))
  moreover have "upgrade_executed k (t2, s')" by (simp add: upgrade_executed_def s'(2))
  ultimately have "execute_upgrade s3 k t4 = Inl (Err NotReady)"
    using upgrade_steps_executed [OF later] executed_upgrade_refused by blast
  then show ?thesis using ok p s'(1)
    by (auto simp: upgrade_ok1_def get_upgrade_def current_version_def approval_count_def can_execute_def split: option.splits)
qed

text \<open>
  The version is always the one the history ends in, through upgrades and rollbacks, and a rollback
  returns to the version before the last upgrade.
\<close>

theorem history_gives_version:
  assumes "upgrade_reachable (t, s)"
  shows "(um_history s = [] \<or> current_version s = ur_to_version (last (um_history s)))
     \<and> (\<forall>k s1 why s2. execute_upgrade s k t = Inr s1 \<and> rollback s1 why t = Inr s2 \<longrightarrow> current_version s2 = current_version s)"
proof -
  have "current_version s2 = current_version s" if "execute_upgrade s k t = Inr s1" "rollback s1 why t = Inr s2" for k s1 why s2
    using that(1)
  proof (rule execute_upgrade_effect)
    assume "um_rollback_version s1 = Some (um_version s)"
    with that(2) show ?thesis by (auto simp: current_version_def elim: rollback_effect)
  qed
  then show ?thesis using upgrade_machine.inv_reachable [OF assms] by (auto simp: upgrades_ok_def history_ok_def current_version_def)
qed

section \<open>A run\<close>

definition demo_um0 :: upgrade_manager where
  "demo_um0 = upgrade_new (Version 1 0 0) [''a'', ''b'', ''c''] upgrade_config_default"

text \<open>Two proposals made against the same version: the smaller step is executed after the larger one.\<close>

definition demo_um_calls :: "(nat \<times> upgrade_call) list" where
  "demo_um_calls = [(10, Propose ''a'' (Version 1 0 1) Patch ''fix'' None []), (11, Propose ''a'' (Version 1 1 0) Minor ''new'' None []),
     (12, Approve 1 ''b''), (13, Approve 2 ''b''), (14, Approve 2 ''c''), (200000, Execute 2)]"

definition upgrade_run :: "(nat \<times> upgrade_call) list \<Rightarrow> upgrade_manager \<Rightarrow> (upgrade_manager, upgrade_error) res" where
  "upgrade_run = foldR (\<lambda>x s. upgrade_exec (fst x) s (snd x))"

definition demo_um :: upgrade_manager where
  "demo_um = (case upgrade_run demo_um_calls demo_um0 of Inr s \<Rightarrow> s)"

lemmas demo_um_eval = demo_um_def demo_um0_def demo_um_calls_def upgrade_run_def upgrade_new_def upgrade_config_default_def propose_upgrade_def
  less_eq_version_def less_version_def is_patch_def is_feature_def u_add_def Let_def approve_upgrade_def timelock_for_def put_upgrade_def
  approval_count_def is_approved_def execute_upgrade_def can_execute_def

lemma demo_um_run: "upgrade_run demo_um_calls demo_um0 = Inr demo_um"
  by (simp add: demo_um_eval)

lemma upgrade_run_reachable:
  "upgrade_run cs s = Inr s' \<Longrightarrow> upgrade_reachable (t, s) \<Longrightarrow> sorted (t # map fst cs) \<Longrightarrow> upgrade_reachable (last (t # map fst cs), s')"
proof (induction cs arbitrary: s t)
  case (Cons x cs)
  from Cons.prems(1) obtain s1 where s1: "upgrade_exec (fst x) s (snd x) = Inr s1" "upgrade_run cs s1 = Inr s'"
    by (auto simp: upgrade_run_def bindR_eq_Inr)
  from upgrade_reach [OF Cons.prems(2) _ s1(1)] Cons.prems(3) have "upgrade_reachable (fst x, s1)" by simp
  with Cons.IH [OF s1(2)] Cons.prems(3) show ?case by simp
qed (simp add: upgrade_run_def)

lemma demo_um0_reachable: "upgrade_reachable (0, demo_um0)"
  by (rule reach_init) (auto simp: upgrade_init_def demo_um0_def)

lemma demo_um_reachable: "upgrade_reachable (200000, demo_um)"
  using upgrade_run_reachable [OF demo_um_run demo_um0_reachable] by (simp add: demo_um_calls_def)

lemma demo_um_version: "um_version demo_um = Version 1 1 0"
  by (simp add: demo_um_eval)

lemma demo_um_execute: "\<exists>s'. execute_upgrade demo_um 1 200001 = Inr s' \<and> current_version s' = Version 1 0 1"
  by (simp add: demo_um_eval current_version_def)

text \<open>
  An upgrade checks that it is newer when it is proposed, not when it is executed: executed after another
  one it takes the protocol back to an older version.
\<close>

theorem upgrade_goes_back:
  "\<exists>t s k s'. upgrade_reachable (t, s) \<and> execute_upgrade s k (t + 1) = Inr s' \<and> current_version s' < current_version s"
proof -
  obtain s' where "execute_upgrade demo_um 1 (200000 + 1) = Inr s'" "current_version s' = Version 1 0 1" using demo_um_execute by auto
  moreover have "Version 1 0 1 < current_version demo_um" by (simp add: current_version_def demo_um_version less_version_def)
  ultimately show ?thesis using demo_um_reachable by metis
qed

text \<open>The smaller step is executed, rolled back, and refused after that.\<close>

lemma demo_um_rollback:
  "\<exists>s' s3. execute_upgrade demo_um 1 200001 = Inr s' \<and> rollback s' ''bad'' 200002 = Inr s3 \<and> s3 \<noteq> s'"
  by (simp add: demo_um_eval rollback_def)

theorem upgrade_needs_quorum_and_time_witness:
  "\<exists>s' s3 p. execute_upgrade demo_um 1 200001 = Inr s' \<and> rollback s' ''bad'' 200002 = Inr s3 \<and> get_upgrade demo_um 1 = Some p
     \<and> 2 \<le> approval_count p \<and> execute_upgrade s3 1 300000 = Inl (Err NotReady)"
proof -
  obtain s' s3 where s': "execute_upgrade demo_um 1 200001 = Inr s'" "rollback s' ''bad'' 200002 = Inr s3" using demo_um_rollback by auto
  have "upgrade_step (200001, s') (200002, s3)" using s'(2) by (intro upgrade_call [of _ _ _ "Rollback ''bad''"]) simp_all
  then have "upgrade_step\<^sup>*\<^sup>* (200001, s') (200002, s3)" ..
  from upgrade_needs_quorum_and_time [OF demo_um_reachable _ s'(1) this, of 300000] s' show ?thesis by auto
qed

theorem history_gives_version_witness: "um_history demo_um = [] \<or> current_version demo_um = ur_to_version (last (um_history demo_um))"
  using history_gives_version [OF demo_um_reachable] by blast

end
