(* ===== verification/Gov_Rewards.thy ===== *)
theory Gov_Rewards
  imports Machine_Ints "HOL-Library.AList"
begin

text \<open>
  Rewards for taking part in governance (\<open>counter/src/governance/rewards.rs\<close>), a plain Rust module: a
  record of participation per epoch, a score and a reward computed from it, and claims against the pool
  of a finalized epoch. A \<open>HashMap\<close> whose values are visited is an association list with distinct keys.
\<close>

section \<open>Participation\<close>

record participation =
  pt_proposals_created :: nat
  pt_votes_cast :: nat
  pt_delegated_votes_received :: nat
  pt_total_voting_power_used :: nat
  pt_full_participation :: bool
  pt_first_action_at :: nat
  pt_last_action_at :: nat

definition participation_default :: participation where
  "participation_default = \<lparr>pt_proposals_created = 0, pt_votes_cast = 0, pt_delegated_votes_received = 0,
     pt_total_voting_power_used = 0, pt_full_participation = False, pt_first_action_at = 0, pt_last_action_at = 0\<rparr>"

definition participation_score :: "participation \<Rightarrow> nat" where
  "participation_score r =
     (let score = u_sat_add 32 0 (min (u_sat_mul 32 (pt_votes_cast r) 10) 50);
          score = u_sat_add 32 score (min (u_sat_mul 32 (pt_proposals_created r) 15) 30);
          score = u_sat_add 32 score (min (u_sat_mul 32 (pt_delegated_votes_received r) 5) 10);
          score = (if pt_full_participation r then u_sat_add 32 score 10 else score)
      in min score 100)"

section \<open>State\<close>

record reward_config =
  rc_epoch_reward_pool :: nat
  rc_epoch_duration_secs :: nat
  rc_claim_cooldown_secs :: nat
  rc_max_reward_per_participant :: nat
  rc_proposal_creation_bonus :: nat
  rc_vote_cast_reward :: nat
  rc_voting_power_multiplier_bps :: nat
  rc_min_qualification_score :: nat
  rc_diminishing_returns_bps :: nat

definition reward_config_default :: reward_config where
  "reward_config_default = \<lparr>rc_epoch_reward_pool = 100000, rc_epoch_duration_secs = 604800, rc_claim_cooldown_secs = 3600,
     rc_max_reward_per_participant = 10000, rc_proposal_creation_bonus = 500, rc_vote_cast_reward = 100,
     rc_voting_power_multiplier_bps = 100, rc_min_qualification_score = 10, rc_diminishing_returns_bps = 80\<rparr>"

record epoch =
  ep_id :: nat
  ep_start_time :: nat
  ep_end_time :: nat
  ep_reward_pool :: nat
  ep_rewards_distributed :: nat
  ep_participation :: "(string \<times> participation) list"
  ep_finalized :: bool

record claim_record =
  cr_participant :: string
  cr_epoch_id :: nat
  cr_amount :: nat
  cr_claimed_at :: nat
  cr_participation_score :: nat

record all_time_stats =
  at_epochs_participated :: nat
  at_total_rewards_claimed :: nat
  at_total_proposals_created :: nat
  at_total_votes_cast :: nat

definition all_time_default :: all_time_stats where
  "all_time_default = \<lparr>at_epochs_participated = 0, at_total_rewards_claimed = 0, at_total_proposals_created = 0,
     at_total_votes_cast = 0\<rparr>"

record rewards =
  rw_config :: reward_config
  rw_epochs :: "nat \<rightharpoonup> epoch"
  rw_current_epoch_id :: nat
  rw_current_epoch_start :: nat
  rw_last_claim :: "string \<rightharpoonup> nat"
  rw_total_rewards_distributed :: nat
  rw_claim_history :: "claim_record list"
  rw_all_time_participation :: "string \<rightharpoonup> all_time_stats"

datatype rewards_error = EpochNotFound | EpochAlreadyFinalized | EpochNotFinalized | ClaimCooldown | NoRewards
  | InsufficientRewardPool

section \<open>Epochs\<close>

definition total_participants :: "epoch \<Rightarrow> nat" where
  "total_participants e = length (ep_participation e)"

definition u_sum :: "nat \<Rightarrow> nat list \<Rightarrow> (nat, 'e) res" where
  "u_sum w xs = foldR (\<lambda>x a. u_add w a x) xs 0"

definition total_votes_cast :: "epoch \<Rightarrow> (nat, 'e) res" where
  "total_votes_cast e = u_sum 32 (map (pt_votes_cast \<circ> snd) (ep_participation e))"

definition total_proposals_created :: "epoch \<Rightarrow> (nat, 'e) res" where
  "total_proposals_created e = u_sum 32 (map (pt_proposals_created \<circ> snd) (ep_participation e))"

definition new_epoch :: "reward_config \<Rightarrow> nat \<Rightarrow> nat \<Rightarrow> (epoch, 'e) res" where
  "new_epoch c k start = bindR (u_add 64 start (rc_epoch_duration_secs c)) (\<lambda>stop. Inr
     \<lparr>ep_id = k, ep_start_time = start, ep_end_time = stop, ep_reward_pool = rc_epoch_reward_pool c,
      ep_rewards_distributed = 0, ep_participation = [], ep_finalized = False\<rparr>)"

definition rewards_new :: "reward_config \<Rightarrow> nat \<Rightarrow> (rewards, 'e) res" where
  "rewards_new c start = bindR (new_epoch c 1 start) (\<lambda>e. Inr
     \<lparr>rw_config = c, rw_epochs = [1 \<mapsto> e], rw_current_epoch_id = 1, rw_current_epoch_start = start,
      rw_last_claim = Map.empty, rw_total_rewards_distributed = 0, rw_claim_history = [],
      rw_all_time_participation = Map.empty\<rparr>)"

text \<open>The mark every record gets when its epoch is closed.\<close>

definition mark_full :: "participation \<Rightarrow> participation" where
  "mark_full r = (if 0 < pt_votes_cast r \<and> 0 < pt_proposals_created r then r\<lparr>pt_full_participation := True\<rparr> else r)"

definition close_epoch :: "epoch \<Rightarrow> epoch" where
  "close_epoch e = e\<lparr>ep_participation := map (\<lambda>(a, r). (a, mark_full r)) (ep_participation e), ep_finalized := True\<rparr>"

definition finalize_epoch :: "rewards \<Rightarrow> nat \<Rightarrow> nat \<Rightarrow> (rewards, rewards_error) res" where
  "finalize_epoch s k now =
     bindR (ok_or (rw_epochs s k) (Err EpochNotFound)) (\<lambda>e.
     bindR (ensure (\<not> ep_finalized e) (Err EpochAlreadyFinalized)) (\<lambda>_.
     bindR (u_add 64 k 1) (\<lambda>j.
     bindR (new_epoch (rw_config s) j now) (\<lambda>e'.
     Inr (s\<lparr>rw_epochs := (rw_epochs s)(k \<mapsto> close_epoch e, j \<mapsto> e'), rw_current_epoch_id := j, rw_current_epoch_start := now\<rparr>)))))"

definition ensure_current_epoch :: "rewards \<Rightarrow> nat \<Rightarrow> (rewards, rewards_error) res" where
  "ensure_current_epoch s now =
     bindR (ok_or (rw_epochs s (rw_current_epoch_id s)) (Err EpochNotFound)) (\<lambda>e.
     if ep_end_time e \<le> now then finalize_epoch s (rw_current_epoch_id s) now else Inr s)"

section \<open>Recording participation\<close>

definition record_of :: "epoch \<Rightarrow> string \<Rightarrow> participation" where
  "record_of e a = (case map_of (ep_participation e) a of Some r \<Rightarrow> r | None \<Rightarrow> participation_default)"

definition stats_of :: "rewards \<Rightarrow> string \<Rightarrow> all_time_stats" where
  "stats_of s a = (case rw_all_time_participation s a of Some r \<Rightarrow> r | None \<Rightarrow> all_time_default)"

definition touch :: "nat \<Rightarrow> participation \<Rightarrow> participation" where
  "touch now r = r\<lparr>pt_first_action_at := (if pt_first_action_at r = 0 then now else pt_first_action_at r), pt_last_action_at := now\<rparr>"

text \<open>The part the three recorders share: roll the epoch over, then change one participant's record in it.\<close>

definition record_in_epoch :: "rewards \<Rightarrow> string \<Rightarrow> nat \<Rightarrow> (participation \<Rightarrow> participation) \<Rightarrow> (rewards, rewards_error) res" where
  "record_in_epoch s a now f =
     bindR (ensure_current_epoch s now) (\<lambda>s.
     bindR (ok_or (rw_epochs s (rw_current_epoch_id s)) (Err EpochNotFound)) (\<lambda>e.
     Inr (s\<lparr>rw_epochs := (rw_epochs s)(rw_current_epoch_id s \<mapsto>
        e\<lparr>ep_participation := AList.update a (touch now (f (record_of e a))) (ep_participation e)\<rparr>)\<rparr>)))"

definition record_proposal_created :: "rewards \<Rightarrow> string \<Rightarrow> nat \<Rightarrow> (rewards, rewards_error) res" where
  "record_proposal_created s a now =
     bindR (record_in_epoch s a now (\<lambda>r. r\<lparr>pt_proposals_created := u_sat_add 32 (pt_proposals_created r) 1\<rparr>)) (\<lambda>s.
     let t = stats_of s a in
     Inr (s\<lparr>rw_all_time_participation := (rw_all_time_participation s)(a \<mapsto>
        t\<lparr>at_total_proposals_created := u_sat_add 32 (at_total_proposals_created t) 1\<rparr>)\<rparr>))"

definition record_vote_cast :: "rewards \<Rightarrow> string \<Rightarrow> nat \<Rightarrow> nat \<Rightarrow> (rewards, rewards_error) res" where
  "record_vote_cast s a voting_power now =
     bindR (record_in_epoch s a now (\<lambda>r. r\<lparr>pt_votes_cast := u_sat_add 32 (pt_votes_cast r) 1,
        pt_total_voting_power_used := u_sat_add 128 (pt_total_voting_power_used r) voting_power\<rparr>)) (\<lambda>s.
     let t = stats_of s a in
     Inr (s\<lparr>rw_all_time_participation := (rw_all_time_participation s)(a \<mapsto>
        t\<lparr>at_total_votes_cast := u_sat_add 32 (at_total_votes_cast t) 1\<rparr>)\<rparr>))"

definition record_delegation_received :: "rewards \<Rightarrow> string \<Rightarrow> nat \<Rightarrow> (rewards, rewards_error) res" where
  "record_delegation_received s a now =
     record_in_epoch s a now (\<lambda>r. r\<lparr>pt_delegated_votes_received := u_sat_add 32 (pt_delegated_votes_received r) 1\<rparr>)"

section \<open>The reward and its claim\<close>

text \<open>\<open>u128::pow\<close> on small exponents and the factor for participants who claimed before.\<close>

definition u_pow :: "nat \<Rightarrow> nat \<Rightarrow> nat \<Rightarrow> (nat, 'e) res" where
  "u_pow w b n = (if b ^ n < 2 ^ w then Inr (b ^ n) else Inl Trap)"

definition diminished :: "rewards \<Rightarrow> string \<Rightarrow> nat \<Rightarrow> (nat, 'e) res" where
  "diminished s a amount =
     (case rw_all_time_participation s a of None \<Rightarrow> Inr amount
      | Some t \<Rightarrow>
         if 0 < at_epochs_participated t then
           let n = min (at_epochs_participated t) 5 in
           bindR (u_pow 128 (rc_diminishing_returns_bps (rw_config s)) n) (\<lambda>factor.
           bindR (u_pow 128 100 n) (\<lambda>divisor.
           bindR (u_mul 128 amount factor) (\<lambda>x. u_div x divisor)))
         else Inr amount)"

definition calculate_reward :: "rewards \<Rightarrow> string \<Rightarrow> nat \<Rightarrow> (nat, 'e) res" where
  "calculate_reward s a k =
     (case rw_epochs s k of None \<Rightarrow> Inr 0
      | Some e \<Rightarrow>
         (case map_of (ep_participation e) a of None \<Rightarrow> Inr 0
          | Some r \<Rightarrow>
             let score = participation_score r; c = rw_config s in
             if score < rc_min_qualification_score c then Inr 0 else
             bindR (bindR (u_mul 128 (ep_reward_pool e) score) (\<lambda>x. u_div x 100)) (\<lambda>base_reward.
             bindR (u_mul 128 (pt_proposals_created r) (rc_proposal_creation_bonus c)) (\<lambda>proposal_bonus.
             bindR (u_mul 128 (pt_votes_cast r) (rc_vote_cast_reward c)) (\<lambda>vote_bonus.
             let power_multiplier = min (rc_voting_power_multiplier_bps c) 200 in
             bindR (bindR (u_mul 128 (pt_total_voting_power_used r) power_multiplier) (\<lambda>x. u_div x 10000)) (\<lambda>power_bonus.
             bindR (diminished s a (u_sat_add 128 (u_sat_add 128 (u_sat_add 128 base_reward proposal_bonus) vote_bonus) power_bonus)) (\<lambda>reward.
             Inr (min reward (rc_max_reward_per_participant c)))))))))"

definition claim_elapsed :: "rewards \<Rightarrow> string \<Rightarrow> nat \<Rightarrow> (unit, rewards_error) res" where
  "claim_elapsed s a now =
     (case rw_last_claim s a of None \<Rightarrow> Inr ()
      | Some prev \<Rightarrow> bindR (u_add 64 prev (rc_claim_cooldown_secs (rw_config s))) (\<lambda>t. ensure (t \<le> now) (Err ClaimCooldown)))"

definition claim_score :: "epoch \<Rightarrow> string \<Rightarrow> nat" where
  "claim_score e a = (case map_of (ep_participation e) a of Some r \<Rightarrow> participation_score r | None \<Rightarrow> 0)"

text \<open>What a claim writes.\<close>

definition book_claim :: "rewards \<Rightarrow> string \<Rightarrow> nat \<Rightarrow> nat \<Rightarrow> epoch \<Rightarrow> nat \<Rightarrow> rewards" where
  "book_claim s a k now e amount = (let t = stats_of s a in
     s\<lparr>rw_epochs := (rw_epochs s)(k \<mapsto> e\<lparr>ep_rewards_distributed := u_sat_add 128 (ep_rewards_distributed e) amount\<rparr>),
       rw_total_rewards_distributed := u_sat_add 128 (rw_total_rewards_distributed s) amount,
       rw_last_claim := (rw_last_claim s)(a \<mapsto> now),
       rw_all_time_participation := (rw_all_time_participation s)(a \<mapsto>
         t\<lparr>at_epochs_participated := u_sat_add 32 (at_epochs_participated t) 1,
           at_total_rewards_claimed := u_sat_add 128 (at_total_rewards_claimed t) amount\<rparr>),
       rw_claim_history := rw_claim_history s @ [\<lparr>cr_participant = a, cr_epoch_id = k, cr_amount = amount,
          cr_claimed_at = now, cr_participation_score = claim_score e a\<rparr>]\<rparr>)"

definition claim_rewards :: "rewards \<Rightarrow> string \<Rightarrow> nat \<Rightarrow> nat \<Rightarrow> (nat \<times> rewards, rewards_error) res" where
  "claim_rewards s a k now =
     bindR (ok_or (rw_epochs s k) (Err EpochNotFound)) (\<lambda>e.
     bindR (ensure (ep_finalized e) (Err EpochNotFinalized)) (\<lambda>_.
     bindR (claim_elapsed s a now) (\<lambda>_.
     bindR (calculate_reward s a k) (\<lambda>amount.
     bindR (ensure (amount \<noteq> 0) (Err NoRewards)) (\<lambda>_.
     bindR (u_add 128 (ep_rewards_distributed e) amount) (\<lambda>spent.
     bindR (ensure (spent \<le> ep_reward_pool e) (Err InsufficientRewardPool)) (\<lambda>_.
     Inr (amount, book_claim s a k now e amount))))))))"

section \<open>Queries\<close>

definition get_epoch :: "rewards \<Rightarrow> nat \<Rightarrow> epoch option" where
  "get_epoch s k = rw_epochs s k"

definition total_distributed :: "rewards \<Rightarrow> nat" where
  "total_distributed s = rw_total_rewards_distributed s"

definition participation_record :: "rewards \<Rightarrow> string \<Rightarrow> nat \<Rightarrow> participation option" where
  "participation_record s a k = Option.bind (rw_epochs s k) (\<lambda>e. map_of (ep_participation e) a)"

definition reward_stats :: "rewards \<Rightarrow> string \<Rightarrow> all_time_stats option" where
  "reward_stats s a = rw_all_time_participation s a"

definition claim_history_length :: "rewards \<Rightarrow> nat" where
  "claim_history_length s = length (rw_claim_history s)"

definition pending_reward :: "rewards \<Rightarrow> string \<Rightarrow> nat \<Rightarrow> (nat, 'e) res" where
  "pending_reward s a k = calculate_reward s a k"

end
