(* ===== verification/Gov_Rewards_Props.thy ===== *)
theory Gov_Rewards_Props
  imports Gov_Rewards
begin

text \<open>
  The ledger of governance rewards: what each epoch has paid out is the sum of the claims against it and
  stays within its pool, epochs are closed one after the other, and claims are bounded and spaced. Nothing
  marks an epoch as claimed, so the same participation is paid again after the cooldown.
\<close>

section \<open>Score\<close>

lemma sat32_cap: "c < 2 ^ 32 \<Longrightarrow> min (u_sat_mul 32 a b) c = min (a * b) c"
  by (auto simp: u_sat_mul_def min_def)

lemma sat32_add: "a + b < 2 ^ 32 \<Longrightarrow> u_sat_add 32 a b = a + b"
  by (rule u_sat_add_exact)

section \<open>The ledger\<close>

definition claimed :: "(claim_record \<Rightarrow> bool) \<Rightarrow> claim_record list \<Rightarrow> nat" where
  "claimed P h = sum_list (map cr_amount (filter P h))"

definition epoch_ok :: "nat \<Rightarrow> nat \<Rightarrow> claim_record list \<Rightarrow> nat \<Rightarrow> epoch \<Rightarrow> bool" where
  "epoch_ok pool cur h k e \<longleftrightarrow> ep_id e = k \<and> 0 < k \<and> k \<le> cur \<and> (ep_finalized e \<longleftrightarrow> k < cur) \<and> ep_reward_pool e = pool
     \<and> ep_rewards_distributed e = claimed (\<lambda>r. cr_epoch_id r = k) h \<and> ep_rewards_distributed e \<le> pool
     \<and> distinct (map fst (ep_participation e))"

abbreviation epoch_ok_in :: "rewards \<Rightarrow> nat \<Rightarrow> epoch \<Rightarrow> bool" where
  "epoch_ok_in s \<equiv> epoch_ok (rc_epoch_reward_pool (rw_config s)) (rw_current_epoch_id s) (rw_claim_history s)"

definition rewards_ok :: "rewards \<Rightarrow> bool" where
  "rewards_ok s \<longleftrightarrow> (\<forall>k e. rw_epochs s k = Some e \<longrightarrow> epoch_ok_in s k e)
     \<and> (\<forall>r\<in>set (rw_claim_history s). cr_epoch_id r < rw_current_epoch_id s \<and> cr_amount r \<le> rc_max_reward_per_participant (rw_config s))
     \<and> rw_total_rewards_distributed s = min (claimed (\<lambda>r. True) (rw_claim_history s)) (2 ^ 128 - 1)"

lemma claimed_snoc: "claimed P (h @ [r]) = claimed P h + (if P r then cr_amount r else 0)"
  by (simp add: claimed_def)

lemma claimed_none: "\<forall>r\<in>set h. \<not> P r \<Longrightarrow> claimed P h = 0"
  by (simp add: claimed_def filter_False)

lemma Inr_pair: "\<not> isl r \<Longrightarrow> fst (projr r) = x \<Longrightarrow> r = Inr (x, snd (projr r))"
  by (cases r) auto

lemma new_epoch_effect: "new_epoch c k t = Inr e \<Longrightarrow> ep_id e = k \<and> ep_reward_pool e = rc_epoch_reward_pool c
    \<and> ep_rewards_distributed e = 0 \<and> ep_participation e = [] \<and> \<not> ep_finalized e"
  by (auto simp: new_epoch_def bindR_eq_Inr)

lemma fst_map_snd [simp]: "map (fst \<circ> (\<lambda>(a, r). (a, f r))) xs = map fst xs"
  by (induction xs) auto

lemma finalize_epoch_ok:
  assumes ok: "rewards_ok s" and c: "finalize_epoch s k now = Inr s'"
  shows "rewards_ok s'"
proof -
  from c obtain e e' where e: "rw_epochs s k = Some e" "\<not> ep_finalized e" and e': "new_epoch (rw_config s) (Suc k) now = (Inr e' :: (epoch, rewards_error) res)"
    and s': "s' = s\<lparr>rw_epochs := (rw_epochs s)(k \<mapsto> close_epoch e, Suc k \<mapsto> e'), rw_current_epoch_id := Suc k, rw_current_epoch_start := now\<rparr>"
    by (auto simp: finalize_epoch_def bindR_eq_Inr ensure_eq_Inr ok_or_eq_Inr u_add_eq_Inr)
  have ek: "epoch_ok_in s k e" using ok e(1) by (simp add: rewards_ok_def)
  then have cur: "rw_current_epoch_id s = k" using e(2) by (auto simp: epoch_ok_def)
  have hist: "cr_epoch_id r < k" if "r \<in> set (rw_claim_history s)" for r using ok that by (auto simp: rewards_ok_def cur)
  have "claimed (\<lambda>r. cr_epoch_id r = Suc k) (rw_claim_history s) = 0" by (rule claimed_none) (use hist in fastforce)
  then have new: "epoch_ok_in s' (Suc k) e'" using new_epoch_effect [OF e'] by (simp add: epoch_ok_def s')
  have old: "epoch_ok_in s' k (close_epoch e)" using ek by (simp add: epoch_ok_def s' cur close_epoch_def)
  have rest: "epoch_ok_in s' i d" if "rw_epochs s i = Some d" "i \<noteq> k" for i d
  proof -
    have "epoch_ok_in s i d" using ok that(1) by (simp add: rewards_ok_def)
    then show ?thesis using that(2) by (auto simp: epoch_ok_def s' cur)
  qed
  have all: "epoch_ok_in s' i d" if "rw_epochs s' i = Some d" for i d
    using that new old rest [of i d] by (auto simp: s' split: if_splits)
  show ?thesis using ok all hist by (fastforce simp: rewards_ok_def s')
qed

lemma ensure_current_epoch_ok: "rewards_ok s \<Longrightarrow> ensure_current_epoch s now = Inr s' \<Longrightarrow> rewards_ok s'"
  by (auto simp: ensure_current_epoch_def bindR_eq_Inr split: if_splits intro: finalize_epoch_ok)

lemma record_in_epoch_ok:
  assumes "rewards_ok s" and "record_in_epoch s a now f = Inr s'"
  shows "rewards_ok s'"
proof -
  from assms(2) obtain s0 e where s0: "ensure_current_epoch s now = Inr s0" and e: "rw_epochs s0 (rw_current_epoch_id s0) = Some e"
    and s': "s' = s0\<lparr>rw_epochs := (rw_epochs s0)(rw_current_epoch_id s0 \<mapsto>
        e\<lparr>ep_participation := AList.update a (touch now (f (record_of e a))) (ep_participation e)\<rparr>)\<rparr>"
    by (auto simp: record_in_epoch_def bindR_eq_Inr ok_or_eq_Inr)
  have ok: "rewards_ok s0" using ensure_current_epoch_ok [OF assms(1) s0] .
  have old: "epoch_ok_in s0 i d" if "rw_epochs s0 i = Some d" for i d using ok that by (simp add: rewards_ok_def)
  have "epoch_ok_in s0 i d" if "rw_epochs s' i = Some d" for i d
  proof (cases "i = rw_current_epoch_id s0")
    case True
    with that old [OF e] show ?thesis by (auto simp: s' epoch_ok_def distinct_update)
  next
    case False
    with that old show ?thesis by (simp add: s')
  qed
  then show ?thesis using ok by (simp add: rewards_ok_def s' del: fun_upd_apply)
qed

lemma rewards_ok_stats: "rewards_ok (s\<lparr>rw_all_time_participation := m\<rparr>) = rewards_ok s"
  by (simp add: rewards_ok_def)

lemma calculate_reward_le: "calculate_reward s a k = Inr x \<Longrightarrow> x \<le> rc_max_reward_per_participant (rw_config s)"
  by (auto simp: calculate_reward_def Let_def bindR_eq_Inr split: option.splits if_splits)

lemma claim_rewards_effect:
  assumes "claim_rewards s a k now = Inr (x, s')"
  obtains e where "rw_epochs s k = Some e" "ep_finalized e" "claim_elapsed s a now = Inr ()" "calculate_reward s a k = (Inr x :: (nat, rewards_error) res)"
    "0 < x" "ep_rewards_distributed e + x \<le> ep_reward_pool e" "ep_rewards_distributed e + x < 2 ^ 128" "s' = book_claim s a k now e x"
  using assms by (auto simp: claim_rewards_def bindR_eq_Inr ensure_eq_Inr ok_or_eq_Inr u_add_eq_Inr)

lemma claim_rewards_ok:
  assumes ok: "rewards_ok s" and c: "claim_rewards s a k now = Inr (x, s')"
  shows "rewards_ok s'"
  using c
proof (rule claim_rewards_effect)
  fix e assume e: "rw_epochs s k = Some e" "ep_finalized e" "calculate_reward s a k = (Inr x :: (nat, rewards_error) res)"
    "ep_rewards_distributed e + x \<le> ep_reward_pool e" "ep_rewards_distributed e + x < 2 ^ 128" and s': "s' = book_claim s a k now e x"
  have ek: "epoch_ok_in s k e" using ok e(1) by (simp add: rewards_ok_def)
  then have k: "k < rw_current_epoch_id s" using e(2) by (simp add: epoch_ok_def)
  have one: "epoch_ok_in s' k (e\<lparr>ep_rewards_distributed := u_sat_add 128 (ep_rewards_distributed e) x\<rparr>)"
    using ek e(4,5) by (simp add: epoch_ok_def claimed_snoc s' book_claim_def Let_def u_sat_add_exact)
  have rest: "epoch_ok_in s' i d" if "rw_epochs s i = Some d" "i \<noteq> k" for i d
  proof -
    have "epoch_ok_in s i d" using ok that(1) by (simp add: rewards_ok_def)
    then show ?thesis using that(2) by (simp add: epoch_ok_def claimed_snoc s' book_claim_def Let_def)
  qed
  have all: "epoch_ok_in s' i d" if "rw_epochs s' i = Some d" for i d
    using that one rest [of i d] by (auto simp: s' book_claim_def Let_def split: if_splits)
  have "rw_total_rewards_distributed s' = min (claimed (\<lambda>r. True) (rw_claim_history s')) (2 ^ 128 - 1)"
    using ok by (simp add: rewards_ok_def claimed_snoc s' book_claim_def Let_def u_sat_add_def)
  then show ?thesis using all ok k calculate_reward_le [OF e(3)] unfolding rewards_ok_def
    by (auto simp: s' book_claim_def Let_def)
qed

section \<open>Runs\<close>

datatype rewards_call = RecordProposal string nat | RecordVote string nat nat | RecordDelegation string nat
  | Finalize nat nat | Claim string nat nat

fun rewards_exec :: "rewards \<Rightarrow> rewards_call \<Rightarrow> (rewards, rewards_error) res" where
  "rewards_exec s (RecordProposal a t) = record_proposal_created s a t"
| "rewards_exec s (RecordVote a p t) = record_vote_cast s a p t"
| "rewards_exec s (RecordDelegation a t) = record_delegation_received s a t"
| "rewards_exec s (Finalize k t) = finalize_epoch s k t"
| "rewards_exec s (Claim a k t) = bindR (claim_rewards s a k t) (\<lambda>r. Inr (snd r))"

definition rewards_init :: "rewards \<Rightarrow> bool" where
  "rewards_init s \<longleftrightarrow> (\<exists>c t. rewards_new c t = (Inr s :: (rewards, rewards_error) res))"

inductive rewards_step :: "rewards \<Rightarrow> rewards \<Rightarrow> bool" where
  "rewards_exec s c = Inr s' \<Longrightarrow> rewards_step s s'"

lemma rewards_exec_ok: "rewards_ok s \<Longrightarrow> rewards_exec s c = Inr s' \<Longrightarrow> rewards_ok s'"
  by (cases c) (auto simp: record_proposal_created_def record_vote_cast_def record_delegation_received_def bindR_eq_Inr Let_def
      rewards_ok_stats intro: record_in_epoch_ok finalize_epoch_ok claim_rewards_ok)

lemma rewards_init_ok: "rewards_init s \<Longrightarrow> rewards_ok s"
  by (auto simp: rewards_init_def rewards_new_def bindR_eq_Inr rewards_ok_def epoch_ok_def claimed_def
      dest!: new_epoch_effect split: if_splits)

interpretation rewards_machine: machine_invariant rewards_init rewards_step rewards_ok
  by unfold_locales (auto elim!: rewards_step.cases intro: rewards_init_ok rewards_exec_ok)

fun rewards_run :: "rewards \<Rightarrow> rewards_call list \<Rightarrow> (rewards, rewards_error) res" where
  "rewards_run s [] = Inr s"
| "rewards_run s (c # cs) = bindR (rewards_exec s c) (\<lambda>s. rewards_run s cs)"

lemma rewards_run_reachable:
  "rewards_run s cs = Inr s' \<Longrightarrow> reachable rewards_init rewards_step s \<Longrightarrow> reachable rewards_init rewards_step s'"
proof (induction cs arbitrary: s)
  case (Cons c cs)
  then obtain t where t: "rewards_exec s c = Inr t" "rewards_run t cs = Inr s'" by (auto simp: bindR_eq_Inr)
  have "reachable rewards_init rewards_step t" by (rule reach_step [OF Cons.prems(2) rewards_step.intros [OF t(1)]])
  from Cons.IH [OF t(2) this] show ?case .
qed simp

section \<open>Properties\<close>

text \<open>
  C40: in every reachable state an epoch has paid out exactly the claims recorded against it, never more
  than its pool, only a closed epoch has claims, and the total is the sum of all claims (up to saturation).
\<close>

theorem rewards_ledger:
  assumes "reachable rewards_init rewards_step s" and "get_epoch s k = Some e"
  shows "ep_rewards_distributed e = claimed (\<lambda>r. cr_epoch_id r = k) (rw_claim_history s)
     \<and> ep_rewards_distributed e \<le> rc_epoch_reward_pool (rw_config s)
     \<and> (ep_finalized e \<longleftrightarrow> k \<noteq> rw_current_epoch_id s) \<and> (\<not> ep_finalized e \<longrightarrow> ep_rewards_distributed e = 0)
     \<and> total_distributed s = min (claimed (\<lambda>r. True) (rw_claim_history s)) (2 ^ 128 - 1)"
proof -
  have ok: "rewards_ok s" by (rule rewards_machine.inv_reachable [OF assms(1)])
  then have e: "epoch_ok_in s k e" using assms(2) by (simp add: rewards_ok_def get_epoch_def)
  have "claimed (\<lambda>r. cr_epoch_id r = k) (rw_claim_history s) = 0" if "\<not> ep_finalized e"
    by (rule claimed_none) (use ok e that in \<open>fastforce simp: rewards_ok_def epoch_ok_def\<close>)
  with e ok show ?thesis by (auto simp: epoch_ok_def rewards_ok_def total_distributed_def)
qed

text \<open>
  A claim pays the pending reward of a closed epoch, at most the cap, leaves every other epoch as it
  was, and the participant's next claim, for whichever epoch, comes after the cooldown.
\<close>

theorem claim_is_bounded_and_spaced:
  assumes "claim_rewards s a k now = Inr (x, s')"
  shows "pending_reward s a k = (Inr x :: (nat, rewards_error) res) \<and> 0 < x \<and> x \<le> rc_max_reward_per_participant (rw_config s)
     \<and> (\<forall>i. i \<noteq> k \<longrightarrow> get_epoch s' i = get_epoch s i) \<and> claim_history_length s' = Suc (claim_history_length s)
     \<and> (\<forall>i t y u. claim_rewards s' a i t = Inr (y, u) \<longrightarrow> now + rc_claim_cooldown_secs (rw_config s) \<le> t)"
  using assms
proof (rule claim_rewards_effect)
  fix e assume e: "calculate_reward s a k = (Inr x :: (nat, rewards_error) res)" "0 < x" and s': "s' = book_claim s a k now e x"
  have "now + rc_claim_cooldown_secs (rw_config s) \<le> t" if c: "claim_rewards s' a i t = Inr (y, u)" for i t y u
  proof -
    have "claim_elapsed s' a t = Inr ()" using c by (rule claim_rewards_effect)
    then show ?thesis by (simp add: claim_elapsed_def s' book_claim_def Let_def bindR_eq_Inr ensure_eq_Inr u_add_eq_Inr)
  qed
  then show ?thesis using e calculate_reward_le [OF e(1)]
    by (simp add: pending_reward_def get_epoch_def claim_history_length_def) (simp add: s' book_claim_def Let_def)
qed

text \<open>
  The participation score is the plain sum of its four capped parts, saturation never shows, and it
  is at most 100.
\<close>

theorem score_is_capped_sum:
  "participation_score r = min (10 * pt_votes_cast r) 50 + min (15 * pt_proposals_created r) 30
     + min (5 * pt_delegated_votes_received r) 10 + (if pt_full_participation r then 10 else 0)"
  by (simp add: participation_score_def Let_def sat32_cap sat32_add mult.commute)

section \<open>A run\<close>

definition demo_rw0 :: rewards where
  "demo_rw0 = (case rewards_new reward_config_default 1000 :: (rewards, rewards_error) res of Inr s \<Rightarrow> s)"

lemmas rewards_eval = demo_rw0_def rewards_new_def new_epoch_def reward_config_default_def u_add_def u_sat_add_def u_mul_def
  u_div_def u_sat_mul_def u_pow_def record_proposal_created_def record_vote_cast_def record_in_epoch_def ensure_current_epoch_def
  finalize_epoch_def close_epoch_def mark_full_def record_of_def stats_of_def touch_def participation_default_def all_time_default_def
  claim_rewards_def claim_elapsed_def calculate_reward_def participation_score_def diminished_def book_claim_def claim_score_def
  claimed_def Let_def

definition demo_rw_calls :: "rewards_call list" where
  "demo_rw_calls = [RecordProposal ''ann'' 1001, RecordVote ''ann'' 500 1002, Finalize 1 1003]"

definition demo_rw :: rewards where
  "demo_rw = (case rewards_run demo_rw0 demo_rw_calls of Inr s \<Rightarrow> s)"

lemma demo_rw_run: "rewards_run demo_rw0 demo_rw_calls = Inr demo_rw"
proof -
  have "\<not> isl (rewards_run demo_rw0 demo_rw_calls)" by (simp add: demo_rw_calls_def rewards_eval)
  then show ?thesis by (auto simp: demo_rw_def split: sum.splits)
qed

lemma demo_rw_reachable: "reachable rewards_init rewards_step demo_rw"
proof (rule rewards_run_reachable [OF demo_rw_run], rule reach_init)
  have "rewards_new reward_config_default 1000 = (Inr demo_rw0 :: (rewards, rewards_error) res)"
    by (simp add: rewards_eval)
  then show "rewards_init demo_rw0" unfolding rewards_init_def by blast
qed

text \<open>
  Nothing marks a participation as claimed: one proposal and one vote of one closed epoch are paid
  at every elapse of the cooldown, three times here, until the pool of the epoch is empty.
\<close>

theorem same_epoch_is_claimed_again:
  "\<exists>s s1 s2 s3. reachable rewards_init rewards_step s \<and> claim_rewards s ''ann'' 1 2000 = Inr (10000, s1)
     \<and> claim_rewards s1 ''ann'' 1 5600 = Inr (10000, s2) \<and> claim_rewards s2 ''ann'' 1 9200 = Inr (10000, s3)
     \<and> claimed (\<lambda>r. cr_participant r = ''ann'' \<and> cr_epoch_id r = 1) (rw_claim_history s3) = 30000"
proof -
  let ?s1 = "snd (projr (claim_rewards demo_rw ''ann'' 1 2000))"
  let ?s2 = "snd (projr (claim_rewards ?s1 ''ann'' 1 5600))"
  let ?s3 = "snd (projr (claim_rewards ?s2 ''ann'' 1 9200))"
  have "claim_rewards demo_rw ''ann'' 1 2000 = Inr (10000, ?s1)" by (rule Inr_pair) (simp_all add: demo_rw_def demo_rw_calls_def rewards_eval)
  moreover have "claim_rewards ?s1 ''ann'' 1 5600 = Inr (10000, ?s2)" by (rule Inr_pair) (simp_all add: demo_rw_def demo_rw_calls_def rewards_eval)
  moreover have "claim_rewards ?s2 ''ann'' 1 9200 = Inr (10000, ?s3)" by (rule Inr_pair) (simp_all add: demo_rw_def demo_rw_calls_def rewards_eval)
  moreover have "claimed (\<lambda>r. cr_participant r = ''ann'' \<and> cr_epoch_id r = 1) (rw_claim_history ?s3) = 30000"
    by (simp add: demo_rw_def demo_rw_calls_def rewards_eval)
  ultimately show ?thesis using demo_rw_reachable by blast
qed

section \<open>Witnesses\<close>

lemma demo_rw_claim:
  obtains s e where "claim_rewards demo_rw ''ann'' 1 2000 = Inr (10000, s)" and "get_epoch s 1 = Some e" and "ep_rewards_distributed e = 10000"
proof -
  let ?s = "snd (projr (claim_rewards demo_rw ''ann'' 1 2000))"
  have "claim_rewards demo_rw ''ann'' 1 2000 = Inr (10000, ?s)"
    by (rule Inr_pair) (simp_all add: demo_rw_def demo_rw_calls_def rewards_eval)
  moreover have "get_epoch ?s 1 = Some (the (get_epoch ?s 1))" "ep_rewards_distributed (the (get_epoch ?s 1)) = 10000"
    by (simp_all add: get_epoch_def demo_rw_def demo_rw_calls_def rewards_eval)
  ultimately show thesis by (rule that)
qed

theorem rewards_ledger_witness:
  "\<exists>s e. rewards_exec demo_rw (Claim ''ann'' 1 2000) = Inr s \<and> get_epoch s 1 = Some e \<and> ep_rewards_distributed e = 10000
     \<and> claimed (\<lambda>r. cr_epoch_id r = 1) (rw_claim_history s) = 10000"
proof -
  obtain s e where c: "claim_rewards demo_rw ''ann'' 1 2000 = Inr (10000, s)" and e: "get_epoch s 1 = Some e" "ep_rewards_distributed e = 10000"
    by (rule demo_rw_claim)
  have x: "rewards_exec demo_rw (Claim ''ann'' 1 2000) = Inr s" using c by simp
  have r: "reachable rewards_init rewards_step s" by (rule reach_step [OF demo_rw_reachable rewards_step.intros [OF x]])
  from rewards_ledger [OF r e(1)] x e show ?thesis by auto
qed

theorem claim_is_bounded_and_spaced_witness:
  "\<exists>s. claim_rewards demo_rw ''ann'' 1 2000 = Inr (10000, s) \<and> claim_history_length s = 1
     \<and> (\<forall>i y u. claim_rewards s ''ann'' i 5599 \<noteq> Inr (y, u))"
proof -
  obtain s where c: "claim_rewards demo_rw ''ann'' 1 2000 = Inr (10000, s)" by (rule demo_rw_claim)
  have n: "claim_history_length demo_rw = 0" "rc_claim_cooldown_secs (rw_config demo_rw) = 3600"
    by (simp_all add: claim_history_length_def demo_rw_def demo_rw_calls_def rewards_eval)
  from claim_is_bounded_and_spaced [OF c] n have "claim_history_length s = 1"
    and "\<And>i y u. claim_rewards s ''ann'' i 5599 \<noteq> Inr (y, u)" by fastforce+
  with c show ?thesis by blast
qed

end
