(* ===== verification/Nft_Store.thy ===== *)
theory Nft_Store
  imports Soroban
begin

text \<open>
  The data and the registries of the NFT modules (\<open>counter/src/nft_types.rs\<close>, \<open>nft_errors.rs\<close>,
  \<open>nft_storage.rs\<close>): tokens, collections, listings, offers, loans, trades, valuations, fractional shares,
  vaults and lending pools, each kept in a registry with its indices, and the counters of the next ids. The
  modules name a few errors that \<open>NFTError\<close> lacks; they stand last in \<open>nft_error\<close>.
\<close>

section \<open>Errors and data\<close>

datatype (plugins only: code) nft_error =
    NFTNotFound | CollectionNotFound | Unauthorized | InvalidTokenId | InvalidCollectionId | InvalidAmount | InvalidPrice
  | UnsupportedOperation | MarketplacePaused | UserFrozen | NotOwner | NotCreator | NotApproved | AlreadyOwned | InsufficientBalance
  | TokenDoesNotExist | MintingNotActive | MaxSupplyReached | InvalidMetadata | CollectionNameExists | InvalidRoyalty
  | ListingNotFound | OfferNotFound | ListingNotActive | OfferNotActive | ListingExpired | OfferExpired | InvalidBid | AuctionEnded
  | AuctionActive | SelfDealing | InsufficientFunds | SlippageExceeded | AlreadyFractionalized | NotFractionalized
  | NoFractionsAvailable | InvalidShareAmount | FractionalizationLimit | TransferWhileFractionalized | LoanNotFound
  | AlreadyCollateralized | NotCollateralized | LoanNotActive | LoanAlreadyRepaid | LoanLiquidated | LoanNotOverdue
  | InvalidInterestRate | InvalidDuration | CannotLiquidate | InsufficientRepayment | LoanNotUndercollateralized | LiqQueueFull
  | NoAuctionBids | InvalidLiquidationBid | InterestOverflow | RoyaltyPaymentFailed | InvalidRoyaltyRecipient | ExcessiveRoyalty
  | InvalidChainId | BridgeNotAvailable | CrossChainFailed | WrappedNFTNotFound | ValuationNotAvailable | InvalidValuationMethod
  | OraclePriceNotAvailable
  | AmountOverflow | PriceNotFound | VaultNotFound | InsufficientShares | WithdrawalTooEarly | LiquidationQueueFull

datatype nft_standard = ERC721 | ERC1155

record nft =
  nft_collection_id :: nat
  nft_token_id :: nat
  nft_owner :: address
  nft_standard :: nft_standard
  nft_is_fractionalized :: bool
  nft_total_supply :: nat
  nft_circulating_supply :: nat
  nft_metadata_uri :: string
  nft_created_at :: nat

record nft_collection =
  co_collection_id :: nat
  co_name :: string
  co_symbol :: string
  co_owner :: address
  co_total_supply :: nat
  co_created_at :: nat

record nft_listing =
  li_listing_id :: nat
  li_collection_id :: nat
  li_token_id :: nat
  li_seller :: address
  li_price :: int
  li_is_active :: bool
  li_created_at :: nat
  li_is_fractional :: bool
  li_share_amount :: nat

record nft_offer =
  of_offer_id :: nat
  of_collection_id :: nat
  of_token_id :: nat
  of_buyer :: address
  of_price :: int
  of_is_active :: bool
  of_created_at :: nat
  of_is_fractional :: bool
  of_share_amount :: nat

record nft_loan =
  ln_loan_id :: nat
  ln_collection_id :: nat
  ln_token_id :: nat
  ln_borrower :: address
  ln_lender :: address
  ln_loan_amount :: int
  ln_interest_rate_bps :: nat
  ln_repayment_amount :: int
  ln_start_time :: nat
  ln_duration :: nat
  ln_due_date :: nat
  ln_is_active :: bool
  ln_is_repaid :: bool
  ln_is_liquidated :: bool

record fractional_share =
  fs_token_id :: nat
  fs_collection_id :: nat
  fs_shareholder :: address
  fs_shares :: nat
  fs_total_shares :: nat
  fs_purchase_price :: int
  fs_acquired_at :: nat

record nft_valuation =
  va_collection_id :: nat
  va_token_id :: nat
  va_floor_price :: int
  va_last_updated :: nat
  va_oracle_verified :: bool

record nft_portfolio =
  np_owner :: address
  np_active_loans :: nat
  np_loans_given :: nat
  np_total_nfts_owned :: nat
  np_total_fractional_shares :: nat
  np_created_at :: nat

definition nft_portfolio_new :: "env \<Rightarrow> address \<Rightarrow> nft_portfolio" where
  "nft_portfolio_new e a = \<lparr>np_owner = a, np_active_loans = 0, np_loans_given = 0, np_total_nfts_owned = 0,
     np_total_fractional_shares = 0, np_created_at = now e\<rparr>"

record nft_trade =
  nt_collection_id :: nat
  nt_token_id :: nat
  nt_buyer :: address
  nt_seller :: address
  nt_price :: int
  nt_timestamp :: nat
  nt_is_fractional :: bool
  nt_share_amount :: nat

text \<open>
  \<open>total_due\<close>: once a loan is overdue, each full day adds a day's interest on the principal. The source
  divides as \<open>f64\<close> and casts to \<open>u32\<close>: the cast truncates and clamps, and where it does not clamp the
  seconds are far below \<open>2^53\<close>, so the days are the clamped integer quotient.
\<close>

definition total_due :: "nft_loan \<Rightarrow> nat \<Rightarrow> (int, 'e) res" where
  "total_due l t =
     (if \<not> ln_is_active l \<or> ln_is_repaid l \<or> ln_is_liquidated l then Inr (ln_repayment_amount l)
      else if t > ln_due_date l then
        let overdue_days = min ((t - ln_due_date l) div 86400) (2 ^ 32 - 1) in
        bindR (u_mul 128 (as_u128 (ln_loan_amount l)) (ln_interest_rate_bps l)) (\<lambda>x.
        let daily_interest = as_i128 (x div 10000) in
        bindR (i_mul daily_interest (int overdue_days)) (\<lambda>y. i_add (ln_repayment_amount l) y))
      else Inr (ln_repayment_amount l))"

section \<open>Indices\<close>

text \<open>
  Every index is a map into lists of keys; an absent entry reads as the empty list. \<open>push\<close> appends, \<open>drop_key\<close>
  copies the list without a key.
\<close>

definition entries :: "('k \<rightharpoonup> 'v list) \<Rightarrow> 'k \<Rightarrow> 'v list" where
  "entries m k = (case m k of Some xs \<Rightarrow> xs | None \<Rightarrow> [])"

definition push :: "'k \<Rightarrow> 'v \<Rightarrow> ('k \<rightharpoonup> 'v list) \<Rightarrow> ('k \<rightharpoonup> 'v list)" where
  "push k v m = m(k \<mapsto> entries m k @ [v])"

definition drop_key :: "'k \<Rightarrow> 'v \<Rightarrow> ('k \<rightharpoonup> 'v list) \<Rightarrow> ('k \<rightharpoonup> 'v list)" where
  "drop_key k v m = m(k \<mapsto> filter (\<lambda>x. x \<noteq> v) (entries m k))"

section \<open>Tokens and collections\<close>

record nft_registry =
  nr_nfts :: "nat \<times> nat \<rightharpoonup> nft"
  nr_owner_tokens :: "address \<rightharpoonup> (nat \<times> nat) list"
  nr_total_nfts :: nat

definition nft_registry_new :: nft_registry where
  "nft_registry_new = \<lparr>nr_nfts = Map.empty, nr_owner_tokens = Map.empty, nr_total_nfts = 0\<rparr>"

definition store_nft :: "nft \<Rightarrow> nft_registry \<Rightarrow> nft_registry" where
  "store_nft n r = (let key = (nft_collection_id n, nft_token_id n) in
     r\<lparr>nr_nfts := (nr_nfts r)(key \<mapsto> n), nr_owner_tokens := push (nft_owner n) key (nr_owner_tokens r),
       nr_total_nfts := u_sat_add 64 (nr_total_nfts r) 1\<rparr>)"

definition get_nft :: "nft_registry \<Rightarrow> nat \<Rightarrow> nat \<Rightarrow> nft option" where
  "get_nft r c t = nr_nfts r (c, t)"

definition update_nft :: "nft \<Rightarrow> nft_registry \<Rightarrow> nft_registry" where
  "update_nft n r = r\<lparr>nr_nfts := (nr_nfts r)((nft_collection_id n, nft_token_id n) \<mapsto> n)\<rparr>"

definition transfer_ownership :: "nft_registry \<Rightarrow> nat \<Rightarrow> nat \<Rightarrow> address \<Rightarrow> (nft_registry, nft_error) res" where
  "transfer_ownership r c t new_owner =
     bindR (ok_or (nr_nfts r (c, t)) (Err NFTNotFound)) (\<lambda>n.
     Inr (r\<lparr>nr_nfts := (nr_nfts r)((c, t) \<mapsto> n\<lparr>nft_owner := new_owner\<rparr>),
            nr_owner_tokens := push new_owner (c, t) (drop_key (nft_owner n) (c, t) (nr_owner_tokens r))\<rparr>))"

definition get_tokens_by_owner :: "nft_registry \<Rightarrow> address \<Rightarrow> (nat \<times> nat) list" where
  "get_tokens_by_owner r a = entries (nr_owner_tokens r) a"

record collection_registry =
  cr_collections :: "nat \<rightharpoonup> nft_collection"
  cr_owner_collections :: "address \<rightharpoonup> nat list"
  cr_name_to_id :: "string \<rightharpoonup> nat"
  cr_total_collections :: nat

definition collection_registry_new :: collection_registry where
  "collection_registry_new = \<lparr>cr_collections = Map.empty, cr_owner_collections = Map.empty, cr_name_to_id = Map.empty,
     cr_total_collections = 0\<rparr>"

definition store_collection :: "nft_collection \<Rightarrow> collection_registry \<Rightarrow> collection_registry" where
  "store_collection c r =
     r\<lparr>cr_collections := (cr_collections r)(co_collection_id c \<mapsto> c),
       cr_owner_collections := push (co_owner c) (co_collection_id c) (cr_owner_collections r),
       cr_name_to_id := (cr_name_to_id r)(co_name c \<mapsto> co_collection_id c),
       cr_total_collections := u_sat_add 64 (cr_total_collections r) 1\<rparr>"

definition get_collection :: "collection_registry \<Rightarrow> nat \<Rightarrow> nft_collection option" where
  "get_collection r c = cr_collections r c"

definition update_collection :: "nft_collection \<Rightarrow> collection_registry \<Rightarrow> collection_registry" where
  "update_collection c r = r\<lparr>cr_collections := (cr_collections r)(co_collection_id c \<mapsto> c)\<rparr>"

definition get_collections_by_owner :: "collection_registry \<Rightarrow> address \<Rightarrow> nat list" where
  "get_collections_by_owner r a = entries (cr_owner_collections r) a"

definition name_exists :: "collection_registry \<Rightarrow> string \<Rightarrow> bool" where
  "name_exists r nm \<longleftrightarrow> cr_name_to_id r nm \<noteq> None"

section \<open>Listings and offers\<close>

record listing_registry =
  lr_listings :: "nat \<rightharpoonup> nft_listing"
  lr_token_listings :: "nat \<times> nat \<rightharpoonup> nat list"
  lr_seller_listings :: "address \<rightharpoonup> nat list"
  lr_active_count :: nat
  lr_total_listings :: nat

definition listing_registry_new :: listing_registry where
  "listing_registry_new = \<lparr>lr_listings = Map.empty, lr_token_listings = Map.empty, lr_seller_listings = Map.empty,
     lr_active_count = 0, lr_total_listings = 0\<rparr>"

definition create_listing :: "nft_listing \<Rightarrow> listing_registry \<Rightarrow> nat \<times> listing_registry" where
  "create_listing l r = (li_listing_id l,
     r\<lparr>lr_listings := (lr_listings r)(li_listing_id l \<mapsto> l),
       lr_token_listings := push (li_collection_id l, li_token_id l) (li_listing_id l) (lr_token_listings r),
       lr_seller_listings := push (li_seller l) (li_listing_id l) (lr_seller_listings r),
       lr_active_count := u_sat_add 64 (lr_active_count r) 1, lr_total_listings := u_sat_add 64 (lr_total_listings r) 1\<rparr>)"

definition get_listing :: "listing_registry \<Rightarrow> nat \<Rightarrow> nft_listing option" where
  "get_listing r k = lr_listings r k"

definition update_listing :: "nft_listing \<Rightarrow> listing_registry \<Rightarrow> listing_registry" where
  "update_listing l r = r\<lparr>lr_listings := (lr_listings r)(li_listing_id l \<mapsto> l)\<rparr>"

definition deactivate_listing :: "listing_registry \<Rightarrow> nat \<Rightarrow> (listing_registry, nft_error) res" where
  "deactivate_listing r k =
     bindR (ok_or (lr_listings r k) (Err ListingNotFound)) (\<lambda>l.
     bindR (ensure (li_is_active l) (Err ListingNotActive)) (\<lambda>_.
     Inr (r\<lparr>lr_listings := (lr_listings r)(k \<mapsto> l\<lparr>li_is_active := False\<rparr>), lr_active_count := lr_active_count r - 1\<rparr>)))"

definition get_token_listings :: "listing_registry \<Rightarrow> nat \<Rightarrow> nat \<Rightarrow> nat list" where
  "get_token_listings r c t = entries (lr_token_listings r) (c, t)"

definition get_seller_listings :: "listing_registry \<Rightarrow> address \<Rightarrow> nat list" where
  "get_seller_listings r a = entries (lr_seller_listings r) a"

record offer_registry =
  or_offers :: "nat \<rightharpoonup> nft_offer"
  or_token_offers :: "nat \<times> nat \<rightharpoonup> nat list"
  or_buyer_offers :: "address \<rightharpoonup> nat list"
  or_active_count :: nat
  or_total_offers :: nat

definition offer_registry_new :: offer_registry where
  "offer_registry_new = \<lparr>or_offers = Map.empty, or_token_offers = Map.empty, or_buyer_offers = Map.empty,
     or_active_count = 0, or_total_offers = 0\<rparr>"

definition create_offer :: "nft_offer \<Rightarrow> offer_registry \<Rightarrow> nat \<times> offer_registry" where
  "create_offer l r = (of_offer_id l,
     r\<lparr>or_offers := (or_offers r)(of_offer_id l \<mapsto> l),
       or_token_offers := push (of_collection_id l, of_token_id l) (of_offer_id l) (or_token_offers r),
       or_buyer_offers := push (of_buyer l) (of_offer_id l) (or_buyer_offers r),
       or_active_count := u_sat_add 64 (or_active_count r) 1, or_total_offers := u_sat_add 64 (or_total_offers r) 1\<rparr>)"

definition get_offer :: "offer_registry \<Rightarrow> nat \<Rightarrow> nft_offer option" where
  "get_offer r k = or_offers r k"

definition update_offer :: "nft_offer \<Rightarrow> offer_registry \<Rightarrow> offer_registry" where
  "update_offer l r = r\<lparr>or_offers := (or_offers r)(of_offer_id l \<mapsto> l)\<rparr>"

definition deactivate_offer :: "offer_registry \<Rightarrow> nat \<Rightarrow> (offer_registry, nft_error) res" where
  "deactivate_offer r k =
     bindR (ok_or (or_offers r k) (Err OfferNotFound)) (\<lambda>l.
     bindR (ensure (of_is_active l) (Err OfferNotActive)) (\<lambda>_.
     Inr (r\<lparr>or_offers := (or_offers r)(k \<mapsto> l\<lparr>of_is_active := False\<rparr>), or_active_count := or_active_count r - 1\<rparr>)))"

definition get_token_offers :: "offer_registry \<Rightarrow> nat \<Rightarrow> nat \<Rightarrow> nat list" where
  "get_token_offers r c t = entries (or_token_offers r) (c, t)"

definition get_buyer_offers :: "offer_registry \<Rightarrow> address \<Rightarrow> nat list" where
  "get_buyer_offers r a = entries (or_buyer_offers r) a"

section \<open>Loans\<close>

record loan_registry =
  lo_loans :: "nat \<rightharpoonup> nft_loan"
  lo_collateral_loans :: "nat \<times> nat \<rightharpoonup> nat"
  lo_borrower_loans :: "address \<rightharpoonup> nat list"
  lo_lender_loans :: "address \<rightharpoonup> nat list"
  lo_active_count :: nat
  lo_total_loans :: nat

definition loan_registry_new :: loan_registry where
  "loan_registry_new = \<lparr>lo_loans = Map.empty, lo_collateral_loans = Map.empty, lo_borrower_loans = Map.empty,
     lo_lender_loans = Map.empty, lo_active_count = 0, lo_total_loans = 0\<rparr>"

definition create_loan :: "nft_loan \<Rightarrow> loan_registry \<Rightarrow> nat \<times> loan_registry" where
  "create_loan l r = (ln_loan_id l,
     r\<lparr>lo_loans := (lo_loans r)(ln_loan_id l \<mapsto> l),
       lo_collateral_loans := (lo_collateral_loans r)((ln_collection_id l, ln_token_id l) \<mapsto> ln_loan_id l),
       lo_borrower_loans := push (ln_borrower l) (ln_loan_id l) (lo_borrower_loans r),
       lo_lender_loans := push (ln_lender l) (ln_loan_id l) (lo_lender_loans r),
       lo_active_count := u_sat_add 64 (lo_active_count r) 1, lo_total_loans := u_sat_add 64 (lo_total_loans r) 1\<rparr>)"

definition get_loan :: "loan_registry \<Rightarrow> nat \<Rightarrow> nft_loan option" where
  "get_loan r k = lo_loans r k"

definition update_loan :: "nft_loan \<Rightarrow> loan_registry \<Rightarrow> loan_registry" where
  "update_loan l r = r\<lparr>lo_loans := (lo_loans r)(ln_loan_id l \<mapsto> l)\<rparr>"

definition get_loan_by_collateral :: "loan_registry \<Rightarrow> nat \<Rightarrow> nat \<Rightarrow> nat option" where
  "get_loan_by_collateral r c t = lo_collateral_loans r (c, t)"

definition get_borrower_loans :: "loan_registry \<Rightarrow> address \<Rightarrow> nat list" where
  "get_borrower_loans r a = entries (lo_borrower_loans r) a"

definition get_lender_loans :: "loan_registry \<Rightarrow> address \<Rightarrow> nat list" where
  "get_lender_loans r a = entries (lo_lender_loans r) a"

definition mark_repaid :: "loan_registry \<Rightarrow> nat \<Rightarrow> (loan_registry, nft_error) res" where
  "mark_repaid r k =
     bindR (ok_or (lo_loans r k) (Err LoanNotFound)) (\<lambda>l.
     bindR (ensure (ln_is_active l) (Err LoanNotActive)) (\<lambda>_.
     bindR (ensure (\<not> ln_is_repaid l) (Err LoanAlreadyRepaid)) (\<lambda>_.
     Inr (r\<lparr>lo_loans := (lo_loans r)(k \<mapsto> l\<lparr>ln_is_repaid := True, ln_is_active := False\<rparr>),
            lo_active_count := lo_active_count r - 1\<rparr>))))"

definition mark_liquidated :: "loan_registry \<Rightarrow> nat \<Rightarrow> (loan_registry, nft_error) res" where
  "mark_liquidated r k =
     bindR (ok_or (lo_loans r k) (Err LoanNotFound)) (\<lambda>l.
     bindR (ensure (ln_is_active l) (Err LoanNotActive)) (\<lambda>_.
     bindR (ensure (\<not> ln_is_liquidated l) (Err LoanLiquidated)) (\<lambda>_.
     Inr (r\<lparr>lo_loans := (lo_loans r)(k \<mapsto> l\<lparr>ln_is_liquidated := True, ln_is_active := False\<rparr>),
            lo_active_count := lo_active_count r - 1\<rparr>))))"

section \<open>Trades and valuations\<close>

record trade_history =
  th_trades :: "nft_trade list"
  th_token_trades :: "nat \<times> nat \<rightharpoonup> nat list"
  th_total_volume :: int

definition trade_history_new :: trade_history where
  "trade_history_new = \<lparr>th_trades = [], th_token_trades = Map.empty, th_total_volume = 0\<rparr>"

definition record_nft_trade :: "nft_trade \<Rightarrow> trade_history \<Rightarrow> trade_history" where
  "record_nft_trade t h =
     h\<lparr>th_trades := th_trades h @ [t],
       th_token_trades := push (nt_collection_id t, nt_token_id t) (length (th_trades h)) (th_token_trades h),
       th_total_volume := i_sat_add (th_total_volume h) (nt_price t)\<rparr>"

definition get_token_trades :: "trade_history \<Rightarrow> nat \<Rightarrow> nat \<Rightarrow> nat list" where
  "get_token_trades h c t = entries (th_token_trades h) (c, t)"

record valuation_registry =
  vr_valuations :: "nat \<times> nat \<rightharpoonup> nft_valuation"
  vr_collection_floors :: "nat \<rightharpoonup> int"

definition valuation_registry_new :: valuation_registry where
  "valuation_registry_new = \<lparr>vr_valuations = Map.empty, vr_collection_floors = Map.empty\<rparr>"

definition set_valuation :: "nat \<Rightarrow> nat \<Rightarrow> nft_valuation \<Rightarrow> valuation_registry \<Rightarrow> valuation_registry" where
  "set_valuation c t v r = r\<lparr>vr_valuations := (vr_valuations r)((c, t) \<mapsto> v)\<rparr>"

definition get_valuation :: "valuation_registry \<Rightarrow> nat \<Rightarrow> nat \<Rightarrow> nft_valuation option" where
  "get_valuation r c t = vr_valuations r (c, t)"

definition set_floor_price :: "nat \<Rightarrow> int \<Rightarrow> valuation_registry \<Rightarrow> valuation_registry" where
  "set_floor_price c p r = r\<lparr>vr_collection_floors := (vr_collection_floors r)(c \<mapsto> p)\<rparr>"

definition get_floor_price :: "valuation_registry \<Rightarrow> nat \<Rightarrow> int" where
  "get_floor_price r c = (case vr_collection_floors r c of Some p \<Rightarrow> p | None \<Rightarrow> 0)"

section \<open>Fractional shares\<close>

record fractional_registry =
  fr_shares :: "nat \<times> nat \<times> address \<rightharpoonup> fractional_share"
  fr_token_shareholders :: "nat \<times> nat \<rightharpoonup> address list"

definition fractional_registry_new :: fractional_registry where
  "fractional_registry_new = \<lparr>fr_shares = Map.empty, fr_token_shareholders = Map.empty\<rparr>"

definition get_shares :: "fractional_registry \<Rightarrow> nat \<Rightarrow> nat \<Rightarrow> address \<Rightarrow> fractional_share option" where
  "get_shares r c t a = fr_shares r (c, t, a)"

definition get_shareholders :: "fractional_registry \<Rightarrow> nat \<Rightarrow> nat \<Rightarrow> address list" where
  "get_shareholders r c t = entries (fr_token_shareholders r) (c, t)"

definition set_shares :: "nat \<Rightarrow> nat \<Rightarrow> address \<Rightarrow> fractional_share \<Rightarrow> fractional_registry \<Rightarrow> fractional_registry" where
  "set_shares c t a sh r = (let r' = r\<lparr>fr_shares := (fr_shares r)((c, t, a) \<mapsto> sh)\<rparr> in
     if a \<in> set (get_shareholders r c t) then r'
     else r'\<lparr>fr_token_shareholders := push (c, t) a (fr_token_shareholders r)\<rparr>)"

definition remove_shareholder :: "nat \<Rightarrow> nat \<Rightarrow> address \<Rightarrow> fractional_registry \<Rightarrow> fractional_registry" where
  "remove_shareholder c t a r =
     r\<lparr>fr_shares := (fr_shares r)((c, t, a) := None), fr_token_shareholders := drop_key (c, t) a (fr_token_shareholders r)\<rparr>"

section \<open>Vaults and lending pools\<close>

record fractional_vault =
  vt_vault_id :: nat
  vt_collection_id :: nat
  vt_token_id :: nat
  vt_asset :: string
  vt_share_symbol :: string
  vt_total_shares :: nat
  vt_total_assets :: int
  vt_share_supply :: nat
  vt_created_at :: nat
  vt_owner :: address
  vt_is_active :: bool

record vault_share =
  vs_vault_id :: nat
  vs_owner :: address
  vs_shares :: nat
  vs_last_deposit :: nat

record vault_registry =
  vg_vaults :: "nat \<rightharpoonup> fractional_vault"
  vg_nft_to_vault :: "nat \<times> nat \<rightharpoonup> nat"
  vg_total_vaults :: nat

definition vault_registry_new :: vault_registry where
  "vault_registry_new = \<lparr>vg_vaults = Map.empty, vg_nft_to_vault = Map.empty, vg_total_vaults = 0\<rparr>"

definition get_vault :: "vault_registry \<Rightarrow> nat \<Rightarrow> fractional_vault option" where
  "get_vault r k = vg_vaults r k"

definition get_vault_by_nft :: "vault_registry \<Rightarrow> nat \<Rightarrow> nat \<Rightarrow> fractional_vault option" where
  "get_vault_by_nft r c t = Option.bind (vg_nft_to_vault r (c, t)) (vg_vaults r)"

definition create_vault :: "fractional_vault \<Rightarrow> vault_registry \<Rightarrow> nat \<times> vault_registry" where
  "create_vault v r = (vt_vault_id v,
     r\<lparr>vg_vaults := (vg_vaults r)(vt_vault_id v \<mapsto> v),
       vg_nft_to_vault := (vg_nft_to_vault r)((vt_collection_id v, vt_token_id v) \<mapsto> vt_vault_id v),
       vg_total_vaults := u_sat_add 64 (vg_total_vaults r) 1\<rparr>)"

definition update_vault :: "fractional_vault \<Rightarrow> vault_registry \<Rightarrow> vault_registry" where
  "update_vault v r = r\<lparr>vg_vaults := (vg_vaults r)(vt_vault_id v \<mapsto> v)\<rparr>"

definition remove_vault :: "nat \<Rightarrow> nat \<Rightarrow> nat \<Rightarrow> vault_registry \<Rightarrow> vault_registry" where
  "remove_vault k c t r = r\<lparr>vg_vaults := (vg_vaults r)(k := None), vg_nft_to_vault := (vg_nft_to_vault r)((c, t) := None),
     vg_total_vaults := vg_total_vaults r - 1\<rparr>"

record lending_pool =
  lp_pool_id :: nat
  lp_asset :: string
  lp_total_deposited :: int
  lp_total_borrowed :: int
  lp_reserve_factor_bps :: nat
  lp_base_rate_bps :: nat
  lp_is_active :: bool
  lp_created_at :: nat

record lender_deposit =
  ld_pool_id :: nat
  ld_lender :: address
  ld_amount :: int
  ld_shares :: int
  ld_deposited_at :: nat

record lending_registry =
  lg_pools :: "nat \<rightharpoonup> lending_pool"
  lg_total_pools :: nat

definition lending_registry_new :: lending_registry where
  "lending_registry_new = \<lparr>lg_pools = Map.empty, lg_total_pools = 0\<rparr>"

definition get_pool :: "lending_registry \<Rightarrow> nat \<Rightarrow> lending_pool option" where
  "get_pool r k = lg_pools r k"

definition create_pool :: "lending_pool \<Rightarrow> lending_registry \<Rightarrow> nat \<times> lending_registry" where
  "create_pool p r = (lp_pool_id p,
     r\<lparr>lg_pools := (lg_pools r)(lp_pool_id p \<mapsto> p), lg_total_pools := u_sat_add 64 (lg_total_pools r) 1\<rparr>)"

definition update_pool :: "lending_pool \<Rightarrow> lending_registry \<Rightarrow> lending_registry" where
  "update_pool p r = r\<lparr>lg_pools := (lg_pools r)(lp_pool_id p \<mapsto> p)\<rparr>"

section \<open>The contract's NFT storage\<close>

text \<open>
  Every registry is one entry of the instance storage, absent until it is first written. The frozen accounts
  (\<open>emergency::is_frozen\<close>) and the oracle's prices are read only; they belong to other modules.
\<close>

record nft_state =
  nf_nfts :: "nft_registry option"
  nf_collections :: "collection_registry option"
  nf_listings :: "listing_registry option"
  nf_offers :: "offer_registry option"
  nf_loans :: "loan_registry option"
  nf_portfolios :: "address \<rightharpoonup> nft_portfolio"
  nf_trades :: "trade_history option"
  nf_valuations :: "valuation_registry option"
  nf_fractional :: "fractional_registry option"
  nf_vaults :: "vault_registry option"
  nf_vault_shares :: "(nat \<times> address \<rightharpoonup> vault_share) option"
  nf_lending :: "lending_registry option"
  nf_deposits :: "(nat \<times> address \<rightharpoonup> lender_deposit) option"
  nf_queue :: "nat list"
  nf_bids :: "nat \<rightharpoonup> address \<times> int \<times> nat"
  nf_next_token :: nat
  nf_next_collection :: nat
  nf_next_listing :: nat
  nf_next_offer :: nat
  nf_next_loan :: nat
  nf_next_pool :: nat
  nf_next_vault :: nat
  nf_paused :: bool
  nf_fee_bps :: "nat option"
  nf_fee_recipient :: "address option"
  nf_frozen :: "address \<Rightarrow> bool"
  nf_oracle_price :: "string \<rightharpoonup> nat"

text \<open>\<open>get(KEY).unwrap_or_else(new)\<close>.\<close>

definition or_new :: "'r option \<Rightarrow> 'r \<Rightarrow> 'r" where
  "or_new x d = (case x of Some r \<Rightarrow> r | None \<Rightarrow> d)"

abbreviation "nfts_of s \<equiv> or_new (nf_nfts s) nft_registry_new"
abbreviation "listings_of s \<equiv> or_new (nf_listings s) listing_registry_new"
abbreviation "loans_of s \<equiv> or_new (nf_loans s) loan_registry_new"
abbreviation "valuations_of s \<equiv> or_new (nf_valuations s) valuation_registry_new"
abbreviation "fractions_of s \<equiv> or_new (nf_fractional s) fractional_registry_new"
abbreviation "vaults_of s \<equiv> or_new (nf_vaults s) vault_registry_new"
abbreviation "pools_of s \<equiv> or_new (nf_lending s) lending_registry_new"

lemma or_new_simps [simp]: "or_new (Some r) d = r" "or_new None d = d"
  by (simp_all add: or_new_def)

text \<open>Each id is handed out once; the counters start at 1.\<close>

definition get_next_token_id :: "nft_state \<Rightarrow> (nat \<times> nft_state, nft_error) res" where
  "get_next_token_id s = bindR (u_add 64 (nf_next_token s) 1) (\<lambda>n. Inr (nf_next_token s, s\<lparr>nf_next_token := n\<rparr>))"

definition get_next_collection_id :: "nft_state \<Rightarrow> (nat \<times> nft_state, nft_error) res" where
  "get_next_collection_id s = bindR (u_add 64 (nf_next_collection s) 1) (\<lambda>n. Inr (nf_next_collection s, s\<lparr>nf_next_collection := n\<rparr>))"

definition get_next_listing_id :: "nft_state \<Rightarrow> (nat \<times> nft_state, nft_error) res" where
  "get_next_listing_id s = bindR (u_add 64 (nf_next_listing s) 1) (\<lambda>n. Inr (nf_next_listing s, s\<lparr>nf_next_listing := n\<rparr>))"

definition get_next_offer_id :: "nft_state \<Rightarrow> (nat \<times> nft_state, nft_error) res" where
  "get_next_offer_id s = bindR (u_add 64 (nf_next_offer s) 1) (\<lambda>n. Inr (nf_next_offer s, s\<lparr>nf_next_offer := n\<rparr>))"

definition get_next_loan_id :: "nft_state \<Rightarrow> (nat \<times> nft_state, nft_error) res" where
  "get_next_loan_id s = bindR (u_add 64 (nf_next_loan s) 1) (\<lambda>n. Inr (nf_next_loan s, s\<lparr>nf_next_loan := n\<rparr>))"

definition get_next_pool_id :: "nft_state \<Rightarrow> (nat \<times> nft_state, nft_error) res" where
  "get_next_pool_id s = bindR (u_add 64 (nf_next_pool s) 1) (\<lambda>n. Inr (nf_next_pool s, s\<lparr>nf_next_pool := n\<rparr>))"

definition get_next_vault_id :: "nft_state \<Rightarrow> (nat \<times> nft_state, nft_error) res" where
  "get_next_vault_id s = bindR (u_add 64 (nf_next_vault s) 1) (\<lambda>n. Inr (nf_next_vault s, s\<lparr>nf_next_vault := n\<rparr>))"

definition is_marketplace_paused :: "nft_state \<Rightarrow> bool" where
  "is_marketplace_paused s = nf_paused s"

definition set_marketplace_paused :: "bool \<Rightarrow> nft_state \<Rightarrow> nft_state" where
  "set_marketplace_paused b s = s\<lparr>nf_paused := b\<rparr>"

definition get_platform_fee_bps :: "nft_state \<Rightarrow> nat" where
  "get_platform_fee_bps s = or_new (nf_fee_bps s) 250"

definition set_platform_fee_bps :: "nat \<Rightarrow> nft_state \<Rightarrow> nft_state" where
  "set_platform_fee_bps n s = s\<lparr>nf_fee_bps := Some n\<rparr>"

definition get_fee_recipient :: "nft_state \<Rightarrow> address option" where
  "get_fee_recipient s = nf_fee_recipient s"

definition set_fee_recipient :: "address \<Rightarrow> nft_state \<Rightarrow> nft_state" where
  "set_fee_recipient a s = s\<lparr>nf_fee_recipient := Some a\<rparr>"

text \<open>The two guards nearly every entry point starts with.\<close>

definition market_open :: "nft_state \<Rightarrow> (unit, nft_error) res" where
  "market_open s = ensure (\<not> is_marketplace_paused s) (Err MarketplacePaused)"

definition not_frozen :: "nft_state \<Rightarrow> address \<Rightarrow> (unit, nft_error) res" where
  "not_frozen s a = ensure (\<not> nf_frozen s a) (Err UserFrozen)"

lemma market_open_eq_Inr [res_simps]: "market_open s = Inr u \<longleftrightarrow> \<not> nf_paused s"
  by (simp add: market_open_def is_marketplace_paused_def ensure_eq_Inr)

lemma not_frozen_eq_Inr [res_simps]: "not_frozen s a = Inr u \<longleftrightarrow> \<not> nf_frozen s a"
  by (simp add: not_frozen_def ensure_eq_Inr)

text \<open>Changing one owner's portfolio, created on the way if there is none.\<close>

definition portfolio_of :: "env \<Rightarrow> nft_state \<Rightarrow> address \<Rightarrow> nft_portfolio" where
  "portfolio_of e s a = or_new (nf_portfolios s a) (nft_portfolio_new e a)"

definition put_portfolio :: "address \<Rightarrow> nft_portfolio \<Rightarrow> nft_state \<Rightarrow> nft_state" where
  "put_portfolio a p s = s\<lparr>nf_portfolios := (nf_portfolios s)(a \<mapsto> p)\<rparr>"

end
