(* ===== verification/Nft_Lending.thy ===== *)
theory Nft_Lending
  imports Nft_Store
begin

text \<open>
  Loans against NFTs (\<open>counter/src/nft_lending.rs\<close>): loans between two accounts, lending pools, and
  liquidation by overdue date, by price and by auction. What the module uses and the repository does not
  define is a parameter, the record \<open>nft_ext\<close>: \<open>nft_minting::get_nft\<close>, \<open>NFTPortfolio::add_nft\<close>, the
  host's translation between a pool's decimal id and an address, the valuation fields behind
  \<open>get_collateral_value\<close>, and four constants of the liquidation auction.
\<close>

record nft_ext =
  ext_get_nft :: "nft_state \<Rightarrow> nat \<Rightarrow> nat \<Rightarrow> nft option"
  ext_add_nft :: "nft_portfolio \<Rightarrow> nat \<Rightarrow> nat \<Rightarrow> nft_portfolio"
  ext_pool_address :: "nat \<Rightarrow> address option"
  ext_pool_of :: "address \<Rightarrow> nat option"
  ext_collateral_value :: "nft_state \<Rightarrow> nat \<Rightarrow> nat \<Rightarrow> (int, nft_error) res"
  ext_trigger_ltv :: nat
  ext_partial_ltv :: nat
  ext_penalty_bps :: nat
  ext_protocol_fee_bps :: nat

definition MIN_LOAN_DURATION :: nat where
  "MIN_LOAN_DURATION = 86400"

definition MAX_LOAN_DURATION :: nat where
  "MAX_LOAN_DURATION = 31536000"

definition MAX_INTEREST_RATE_BPS :: nat where
  "MAX_INTEREST_RATE_BPS = 100"

definition LIQUIDATION_GRACE_PERIOD :: nat where
  "LIQUIDATION_GRACE_PERIOD = 86400"

definition INTEREST_PRECISION :: nat where
  "INTEREST_PRECISION = 1000000000000000000"

definition MAX_LTV_BPS :: nat where
  "MAX_LTV_BPS = 6000"

definition LIQUIDATION_COLLATERALIZATION_RATIO_MIN :: nat where
  "LIQUIDATION_COLLATERALIZATION_RATIO_MIN = 150"

definition OPTIMAL_UTILIZATION_RATE_BPS :: nat where
  "OPTIMAL_UTILIZATION_RATE_BPS = 8000"

definition RATE_SLOPE_1_BPS :: nat where
  "RATE_SLOPE_1_BPS = 100"

definition RATE_SLOPE_2_BPS :: nat where
  "RATE_SLOPE_2_BPS = 500"

definition MAX_LIQUIDATION_QUEUE_SIZE :: nat where
  "MAX_LIQUIDATION_QUEUE_SIZE = 128"

section \<open>Portfolio counters\<close>

definition update_portfolio_on_loan_taken :: "env \<Rightarrow> nft_state \<Rightarrow> address \<Rightarrow> nft_state" where
  "update_portfolio_on_loan_taken e s a = (let p = portfolio_of e s a in
     put_portfolio a (p\<lparr>np_active_loans := u_sat_add 64 (np_active_loans p) 1\<rparr>) s)"

definition update_portfolio_on_loan_given :: "env \<Rightarrow> nft_state \<Rightarrow> address \<Rightarrow> nft_state" where
  "update_portfolio_on_loan_given e s a = (let p = portfolio_of e s a in
     put_portfolio a (p\<lparr>np_loans_given := u_sat_add 64 (np_loans_given p) 1\<rparr>) s)"

definition decrement_portfolio_loans_taken :: "env \<Rightarrow> nft_state \<Rightarrow> address \<Rightarrow> nft_state" where
  "decrement_portfolio_loans_taken e s a = (let p = portfolio_of e s a in
     put_portfolio a (p\<lparr>np_active_loans := np_active_loans p - 1\<rparr>) s)"

definition decrement_portfolio_loans_given :: "env \<Rightarrow> nft_state \<Rightarrow> address \<Rightarrow> nft_state" where
  "decrement_portfolio_loans_given e s a = (let p = portfolio_of e s a in
     put_portfolio a (p\<lparr>np_loans_given := np_loans_given p - 1\<rparr>) s)"

definition update_portfolio_on_liquidation :: "nft_ext \<Rightarrow> env \<Rightarrow> nft_state \<Rightarrow> address \<Rightarrow> nat \<Rightarrow> nat \<Rightarrow> nft_state" where
  "update_portfolio_on_liquidation X e s a c t = put_portfolio a (ext_add_nft X (portfolio_of e s a) t c) s"

section \<open>Loans between accounts\<close>

definition put_loans :: "loan_registry \<Rightarrow> nft_state \<Rightarrow> nft_state" where
  "put_loans r s = s\<lparr>nf_loans := Some r\<rparr>"

definition put_nfts :: "nft_registry \<Rightarrow> nft_state \<Rightarrow> nft_state" where
  "put_nfts r s = s\<lparr>nf_nfts := Some r\<rparr>"

text \<open>\<open>get(&LOAN_REGISTRY_KEY).ok_or(LoanNotFound)\<close>, then \<open>get_loan(id).ok_or(LoanNotFound)\<close>.\<close>

definition find_loan :: "nft_state \<Rightarrow> nat \<Rightarrow> (loan_registry \<times> nft_loan, nft_error) res" where
  "find_loan s k =
     bindR (ok_or (nf_loans s) (Err LoanNotFound)) (\<lambda>r.
     bindR (ok_or (get_loan r k) (Err LoanNotFound)) (\<lambda>l. Inr (r, l)))"

definition actively_listed :: "nft_state \<Rightarrow> nat \<Rightarrow> nat \<Rightarrow> bool" where
  "actively_listed s c t \<longleftrightarrow> (\<exists>k\<in>set (get_token_listings (listings_of s) c t).
     case get_listing (listings_of s) k of Some l \<Rightarrow> li_is_active l | None \<Rightarrow> False)"

definition loan_request :: "nat \<Rightarrow> address \<Rightarrow> nat \<Rightarrow> nat \<Rightarrow> int \<Rightarrow> nat \<Rightarrow> nat \<Rightarrow> nft_loan" where
  "loan_request k borrower c t amount rate duration = \<lparr>ln_loan_id = k, ln_collection_id = c, ln_token_id = t,
     ln_borrower = borrower, ln_lender = borrower, ln_loan_amount = amount, ln_interest_rate_bps = rate,
     ln_repayment_amount = amount, ln_start_time = 0, ln_duration = duration, ln_due_date = 0, ln_is_active = False,
     ln_is_repaid = False, ln_is_liquidated = False\<rparr>"

definition request_loan :: "nft_ext \<Rightarrow> env \<Rightarrow> nft_state \<Rightarrow> address \<Rightarrow> nat \<Rightarrow> nat \<Rightarrow> int \<Rightarrow> nat \<Rightarrow> nat
    \<Rightarrow> (nat \<times> nft_state, nft_error) res" where
  "request_loan X e s borrower c t amount rate duration =
     bindR (require_auth e borrower) (\<lambda>_.
     bindR (market_open s) (\<lambda>_.
     bindR (not_frozen s borrower) (\<lambda>_.
     bindR (ensure (0 < amount) (Err InvalidAmount)) (\<lambda>_.
     bindR (ensure (rate \<noteq> 0 \<and> rate \<le> MAX_INTEREST_RATE_BPS) (Err InvalidInterestRate)) (\<lambda>_.
     bindR (ensure (MIN_LOAN_DURATION \<le> duration \<and> duration \<le> MAX_LOAN_DURATION) (Err InvalidDuration)) (\<lambda>_.
     bindR (ok_or (ext_get_nft X s c t) (Err NFTNotFound)) (\<lambda>n.
     bindR (ensure (nft_owner n = borrower) (Err NotOwner)) (\<lambda>_.
     bindR (ensure (get_loan_by_collateral (loans_of s) c t = None) (Err AlreadyCollateralized)) (\<lambda>_.
     bindR (ensure (\<not> nft_is_fractionalized n) (Err UnsupportedOperation)) (\<lambda>_.
     bindR (ensure (\<not> actively_listed s c t) (Err UnsupportedOperation)) (\<lambda>_.
     bindR (get_next_loan_id s) (\<lambda>(k, s).
     Inr (k, put_loans (snd (create_loan (loan_request k borrower c t amount rate duration) (loans_of s))) s)))))))))))))"

text \<open>The interest of a loan between accounts, in the order of the source's scaled arithmetic.\<close>

definition checked :: "'a option \<Rightarrow> nft_error \<Rightarrow> ('a, nft_error) res" where
  "checked x err = ok_or x (Err err)"

definition funding_interest :: "int \<Rightarrow> nat \<Rightarrow> nat \<Rightarrow> (nat, nft_error) res" where
  "funding_interest amount rate duration =
     bindR (checked (u_checked_mul 128 (as_u128 amount) INTEREST_PRECISION) InterestOverflow) (\<lambda>scaled_principal.
     bindR (checked (u_checked_mul 128 scaled_principal rate) InterestOverflow) (\<lambda>x.
     let daily_interest_scaled = x div (10000 * INTEREST_PRECISION); days = duration div 86400 in
     bindR (checked (u_checked_mul 128 daily_interest_scaled days) InterestOverflow) (\<lambda>total_interest_scaled.
     Inr (total_interest_scaled div INTEREST_PRECISION))))"

definition funded :: "nft_loan \<Rightarrow> address \<Rightarrow> int \<Rightarrow> nat \<Rightarrow> nat \<Rightarrow> nft_loan" where
  "funded l lender repayment t due = l\<lparr>ln_repayment_amount := repayment, ln_lender := lender, ln_start_time := t,
     ln_due_date := due, ln_is_active := True\<rparr>"

definition fund_loan :: "env \<Rightarrow> nft_state \<Rightarrow> address \<Rightarrow> nat \<Rightarrow> (nft_state, nft_error) res" where
  "fund_loan e s lender k =
     bindR (require_auth e lender) (\<lambda>_.
     bindR (market_open s) (\<lambda>_.
     bindR (not_frozen s lender) (\<lambda>_.
     bindR (find_loan s k) (\<lambda>(r, l).
     bindR (ensure (\<not> ln_is_active l) (Err LoanAlreadyRepaid)) (\<lambda>_.
     bindR (ensure (ln_borrower l \<noteq> lender) (Err SelfDealing)) (\<lambda>_.
     bindR (funding_interest (ln_loan_amount l) (ln_interest_rate_bps l) (ln_duration l)) (\<lambda>interest.
     bindR (checked (i_checked (ln_loan_amount l + as_i128 interest)) AmountOverflow) (\<lambda>repayment.
     bindR (u_add 64 (now e) (ln_duration l)) (\<lambda>due.
     let s = put_loans (update_loan (funded l lender repayment (now e) due) r) s;
         s = update_portfolio_on_loan_taken e s (ln_borrower l)
     in Inr (update_portfolio_on_loan_given e s lender))))))))))"

text \<open>The checks every repayment makes.\<close>

definition repayable :: "env \<Rightarrow> nft_loan \<Rightarrow> address \<Rightarrow> int \<Rightarrow> (unit, nft_error) res" where
  "repayable e l borrower amount =
     bindR (ensure (ln_borrower l = borrower) (Err Unauthorized)) (\<lambda>_.
     bindR (ensure (ln_is_active l) (Err LoanNotActive)) (\<lambda>_.
     bindR (ensure (\<not> ln_is_repaid l) (Err LoanAlreadyRepaid)) (\<lambda>_.
     bindR (ensure (\<not> ln_is_liquidated l) (Err LoanLiquidated)) (\<lambda>_.
     bindR (total_due l (now e)) (\<lambda>due.
     ensure (due \<le> amount) (Err InsufficientRepayment))))))"

definition repay_loan :: "env \<Rightarrow> nft_state \<Rightarrow> address \<Rightarrow> nat \<Rightarrow> int \<Rightarrow> (nft_state, nft_error) res" where
  "repay_loan e s borrower k amount =
     bindR (require_auth e borrower) (\<lambda>_.
     bindR (market_open s) (\<lambda>_.
     bindR (find_loan s k) (\<lambda>(r, l).
     bindR (repayable e l borrower amount) (\<lambda>_.
     bindR (mark_repaid r k) (\<lambda>r.
     let s = decrement_portfolio_loans_taken e (put_loans r s) borrower
     in Inr (decrement_portfolio_loans_given e s (ln_lender l)))))))"

definition liquidate_loan :: "nft_ext \<Rightarrow> env \<Rightarrow> nft_state \<Rightarrow> nat \<Rightarrow> (nft_state, nft_error) res" where
  "liquidate_loan X e s k =
     bindR (find_loan s k) (\<lambda>(r, l).
     bindR (ensure (ln_is_active l) (Err LoanNotActive)) (\<lambda>_.
     bindR (ensure (\<not> ln_is_repaid l) (Err LoanAlreadyRepaid)) (\<lambda>_.
     bindR (ensure (\<not> ln_is_liquidated l) (Err LoanLiquidated)) (\<lambda>_.
     bindR (u_add 64 (ln_due_date l) LIQUIDATION_GRACE_PERIOD) (\<lambda>grace.
     bindR (ensure (grace < now e) (Err LoanNotOverdue)) (\<lambda>_.
     bindR (transfer_ownership (nfts_of s) (ln_collection_id l) (ln_token_id l) (ln_lender l)) (\<lambda>nr.
     bindR (mark_liquidated r k) (\<lambda>r.
     let s = put_loans r (put_nfts nr s);
         s = decrement_portfolio_loans_taken e s (ln_borrower l);
         s = decrement_portfolio_loans_given e s (ln_lender l)
     in Inr (update_portfolio_on_liquidation X e s (ln_lender l) (ln_collection_id l) (ln_token_id l))))))))))"

text \<open>A request is cancelled by an event only: the source leaves the registry as it is.\<close>

definition cancel_loan_request :: "env \<Rightarrow> nft_state \<Rightarrow> address \<Rightarrow> nat \<Rightarrow> (nft_state, nft_error) res" where
  "cancel_loan_request e s borrower k =
     bindR (require_auth e borrower) (\<lambda>_.
     bindR (find_loan s k) (\<lambda>(r, l).
     bindR (ensure (ln_borrower l = borrower) (Err Unauthorized)) (\<lambda>_.
     bindR (ensure (\<not> ln_is_active l) (Err LoanAlreadyRepaid)) (\<lambda>_. Inr s))))"

section \<open>Prices\<close>

fun decimal :: "nat \<Rightarrow> string" where
  "decimal n = (if n < 10 then [char_of (48 + n)] else decimal (n div 10) @ [char_of (48 + n mod 10)])"

declare decimal.simps [simp del]

text \<open>\<open>Symbol::new\<close> panics on more than 32 characters.\<close>

definition symbol_new :: "string \<Rightarrow> (string, 'e) res" where
  "symbol_new x = (if length x \<le> 32 then Inr x else Inl Trap)"

definition nft_symbol :: "nat \<Rightarrow> nat \<Rightarrow> string" where
  "nft_symbol c t = ''NFT'' @ decimal c @ decimal t"

definition get_nft_price_from_oracle :: "nft_state \<Rightarrow> nat \<Rightarrow> nat \<Rightarrow> (int, nft_error) res" where
  "get_nft_price_from_oracle s c t =
     (case get_valuation (valuations_of s) c t of
        Some v \<Rightarrow> if va_oracle_verified v then Inr (va_floor_price v) else
          bindR (symbol_new (nft_symbol c t)) (\<lambda>x. bindR (ok_or (nf_oracle_price s x) (Err PriceNotFound)) (\<lambda>p. Inr (as_i128 p)))
      | None \<Rightarrow>
          bindR (symbol_new (nft_symbol c t)) (\<lambda>x. bindR (ok_or (nf_oracle_price s x) (Err PriceNotFound)) (\<lambda>p. Inr (as_i128 p))))"

section \<open>Lending pools\<close>

definition put_pools :: "lending_registry \<Rightarrow> nft_state \<Rightarrow> nft_state" where
  "put_pools r s = s\<lparr>nf_lending := Some r\<rparr>"

definition create_lending_pool :: "env \<Rightarrow> nft_state \<Rightarrow> address \<Rightarrow> string \<Rightarrow> nat \<Rightarrow> nat \<Rightarrow> (nat \<times> nft_state, nft_error) res" where
  "create_lending_pool e s creator asset reserve_factor base_rate =
     bindR (require_auth e creator) (\<lambda>_.
     bindR (get_next_pool_id s) (\<lambda>(k, s).
     let p = \<lparr>lp_pool_id = k, lp_asset = asset, lp_total_deposited = 0, lp_total_borrowed = 0,
        lp_reserve_factor_bps = reserve_factor, lp_base_rate_bps = base_rate, lp_is_active = True, lp_created_at = now e\<rparr>
     in Inr (k, put_pools (snd (create_pool p (pools_of s))) s)))"

definition find_pool :: "nft_state \<Rightarrow> nat \<Rightarrow> (lending_registry \<times> lending_pool, nft_error) res" where
  "find_pool s k =
     bindR (ok_or (nf_lending s) (Err LoanNotFound)) (\<lambda>r.
     bindR (ok_or (get_pool r k) (Err LoanNotFound)) (\<lambda>p. Inr (r, p)))"

definition deposit_of :: "env \<Rightarrow> nft_state \<Rightarrow> nat \<Rightarrow> address \<Rightarrow> lender_deposit" where
  "deposit_of e s k a = or_new (or_new (nf_deposits s) Map.empty (k, a))
     \<lparr>ld_pool_id = k, ld_lender = a, ld_amount = 0, ld_shares = 0, ld_deposited_at = now e\<rparr>"

definition as_u64 :: "int \<Rightarrow> nat" where
  "as_u64 x = nat (x mod 2 ^ 64)"

definition deposit_to_lending_pool :: "env \<Rightarrow> nft_state \<Rightarrow> address \<Rightarrow> nat \<Rightarrow> int \<Rightarrow> (nft_state, nft_error) res" where
  "deposit_to_lending_pool e s lender k amount =
     bindR (require_auth e lender) (\<lambda>_.
     bindR (not_frozen s lender) (\<lambda>_.
     bindR (ensure (0 < amount) (Err InvalidAmount)) (\<lambda>_.
     bindR (find_pool s k) (\<lambda>(r, p).
     bindR (ensure (lp_is_active p) (Err MarketplacePaused)) (\<lambda>_.
     bindR (checked (i_checked (lp_total_deposited p + amount)) AmountOverflow) (\<lambda>total_deposited.
     let d = deposit_of e s k lender in
     bindR (checked (i_checked (ld_amount d + amount)) AmountOverflow) (\<lambda>a.
     bindR (checked (i_checked (ld_shares d + amount)) AmountOverflow) (\<lambda>sh.
     let s' = put_pools (update_pool (p\<lparr>lp_total_deposited := total_deposited\<rparr>) r) s;
         s' = s'\<lparr>nf_deposits := Some ((or_new (nf_deposits s) Map.empty)((k, lender) \<mapsto> d\<lparr>ld_amount := a, ld_shares := sh\<rparr>))\<rparr>;
         pf = portfolio_of e s' lender
     in Inr (put_portfolio lender (pf\<lparr>np_total_fractional_shares :=
          u_sat_add 64 (np_total_fractional_shares pf) (as_u64 amount)\<rparr>) s')))))))))"

definition withdraw_from_lending_pool :: "env \<Rightarrow> nft_state \<Rightarrow> address \<Rightarrow> nat \<Rightarrow> int \<Rightarrow> (nft_state, nft_error) res" where
  "withdraw_from_lending_pool e s lender k amount =
     bindR (require_auth e lender) (\<lambda>_.
     bindR (not_frozen s lender) (\<lambda>_.
     bindR (ensure (0 < amount) (Err InvalidAmount)) (\<lambda>_.
     bindR (find_pool s k) (\<lambda>(r, p).
     bindR (ensure (lp_is_active p) (Err MarketplacePaused)) (\<lambda>_.
     bindR (i_sub (lp_total_deposited p) (lp_total_borrowed p)) (\<lambda>available.
     bindR (ensure (amount \<le> available) (Err InsufficientBalance)) (\<lambda>_.
     bindR (ok_or (nf_deposits s) (Err InsufficientBalance)) (\<lambda>deposits.
     bindR (ok_or (deposits (k, lender)) (Err InsufficientBalance)) (\<lambda>d.
     bindR (ensure (amount \<le> ld_amount d) (Err InsufficientBalance)) (\<lambda>_.
     bindR (checked (i_checked (lp_total_deposited p - amount)) AmountOverflow) (\<lambda>total_deposited.
     bindR (checked (i_checked (ld_amount d - amount)) AmountOverflow) (\<lambda>a.
     bindR (checked (i_checked (ld_shares d - amount)) AmountOverflow) (\<lambda>sh.
     Inr ((put_pools (update_pool (p\<lparr>lp_total_deposited := total_deposited\<rparr>) r) s)
        \<lparr>nf_deposits := Some (if a = 0 then deposits((k, lender) := None)
           else deposits((k, lender) \<mapsto> d\<lparr>ld_amount := a, ld_shares := sh\<rparr>))\<rparr>))))))))))))))"

definition as_u32 :: "nat \<Rightarrow> nat" where
  "as_u32 x = x mod 2 ^ 32"

definition calculate_dynamic_interest_rate :: "lending_pool \<Rightarrow> (nat, nft_error) res" where
  "calculate_dynamic_interest_rate p =
     (if lp_total_deposited p = 0 then Inr (lp_base_rate_bps p) else
      bindR (u_mul 128 (as_u128 (lp_total_borrowed p)) 10000) (\<lambda>x.
      let utilization_bps = as_u32 (x div as_u128 (lp_total_deposited p)) in
      if utilization_bps \<le> OPTIMAL_UTILIZATION_RATE_BPS then
        bindR (u_mul 32 RATE_SLOPE_1_BPS utilization_bps) (\<lambda>y.
        u_add 32 (lp_base_rate_bps p) (y div OPTIMAL_UTILIZATION_RATE_BPS))
      else
        let excess_utilization = utilization_bps - OPTIMAL_UTILIZATION_RATE_BPS; max_excess = 10000 - OPTIMAL_UTILIZATION_RATE_BPS in
        bindR (u_add 32 (lp_base_rate_bps p) RATE_SLOPE_1_BPS) (\<lambda>z.
        bindR (u_mul 32 RATE_SLOPE_2_BPS excess_utilization) (\<lambda>y.
        u_add 32 z (y div max_excess)))))"

definition find_nft :: "nft_state \<Rightarrow> nat \<Rightarrow> nat \<Rightarrow> (nft_registry \<times> nft, nft_error) res" where
  "find_nft s c t =
     bindR (ok_or (nf_nfts s) (Err NFTNotFound)) (\<lambda>r.
     bindR (ok_or (get_nft r c t) (Err NFTNotFound)) (\<lambda>n. Inr (r, n)))"

definition pool_loan :: "nat \<Rightarrow> address \<Rightarrow> address \<Rightarrow> nat \<Rightarrow> nat \<Rightarrow> int \<Rightarrow> nat \<Rightarrow> int \<Rightarrow> nat \<Rightarrow> nat \<Rightarrow> nat \<Rightarrow> nft_loan" where
  "pool_loan k borrower lender c t amount rate repayment start duration due = \<lparr>ln_loan_id = k, ln_collection_id = c, ln_token_id = t,
     ln_borrower = borrower, ln_lender = lender, ln_loan_amount = amount, ln_interest_rate_bps = rate,
     ln_repayment_amount = repayment, ln_start_time = start, ln_duration = duration, ln_due_date = due, ln_is_active = True,
     ln_is_repaid = False, ln_is_liquidated = False\<rparr>"

text \<open>The cap on a loan for a given price, and what it has to pay back at a given rate.\<close>

definition max_loan :: "int \<Rightarrow> (int, nft_error) res" where
  "max_loan price = bindR (u_mul 128 (as_u128 price) MAX_LTV_BPS) (\<lambda>x. Inr (as_i128 (x div 10000)))"

definition pool_repayment :: "int \<Rightarrow> nat \<Rightarrow> nat \<Rightarrow> (int, nft_error) res" where
  "pool_repayment amount rate duration =
     bindR (u_mul 128 (as_u128 amount) rate) (\<lambda>x.
     bindR (i_mul (as_i128 (x div 10000)) (int (duration div 86400))) (\<lambda>total_interest.
     checked (i_checked (amount + total_interest)) AmountOverflow))"

definition borrow_from_lending_pool :: "nft_ext \<Rightarrow> env \<Rightarrow> nft_state \<Rightarrow> address \<Rightarrow> nat \<Rightarrow> nat \<Rightarrow> nat \<Rightarrow> int \<Rightarrow> nat
    \<Rightarrow> (nat \<times> nft_state, nft_error) res" where
  "borrow_from_lending_pool X e s borrower pool_id c t amount duration =
     bindR (require_auth e borrower) (\<lambda>_.
     bindR (market_open s) (\<lambda>_.
     bindR (not_frozen s borrower) (\<lambda>_.
     bindR (ensure (0 < amount) (Err InvalidAmount)) (\<lambda>_.
     bindR (ensure (MIN_LOAN_DURATION \<le> duration \<and> duration \<le> MAX_LOAN_DURATION) (Err InvalidDuration)) (\<lambda>_.
     bindR (find_pool s pool_id) (\<lambda>(pr, p).
     bindR (ensure (lp_is_active p) (Err MarketplacePaused)) (\<lambda>_.
     bindR (i_sub (lp_total_deposited p) (lp_total_borrowed p)) (\<lambda>available.
     bindR (ensure (amount \<le> available) (Err InsufficientBalance)) (\<lambda>_.
     bindR (find_nft s c t) (\<lambda>(nr, n).
     bindR (ensure (nft_owner n = borrower) (Err NotOwner)) (\<lambda>_.
     bindR (ensure (get_loan_by_collateral (loans_of s) c t = None) (Err AlreadyCollateralized)) (\<lambda>_.
     bindR (ensure (\<not> nft_is_fractionalized n) (Err UnsupportedOperation)) (\<lambda>_.
     bindR (get_nft_price_from_oracle s c t) (\<lambda>price.
     bindR (max_loan price) (\<lambda>limit.
     bindR (ensure (amount \<le> limit) (Err InvalidAmount)) (\<lambda>_.
     bindR (calculate_dynamic_interest_rate p) (\<lambda>rate.
     bindR (pool_repayment amount rate duration) (\<lambda>repayment.
     bindR (get_next_loan_id s) (\<lambda>(k, s).
     bindR (ok_or (ext_pool_address X pool_id) Trap) (\<lambda>lender.
     bindR (u_add 64 (now e) duration) (\<lambda>due.
     bindR (checked (i_checked (lp_total_borrowed p + amount)) AmountOverflow) (\<lambda>borrowed.
     let s = put_pools (update_pool (p\<lparr>lp_total_borrowed := borrowed\<rparr>) pr) s;
         s = put_loans (snd (create_loan (pool_loan k borrower lender c t amount rate repayment (now e) duration due) (loans_of s))) s
     in Inr (k, update_portfolio_on_loan_taken e s borrower)))))))))))))))))))))))"

definition can_liquidate_loan :: "env \<Rightarrow> nft_state \<Rightarrow> nat \<Rightarrow> (bool, nft_error) res" where
  "can_liquidate_loan e s k =
     bindR (find_loan s k) (\<lambda>(r, l).
     if \<not> ln_is_active l \<or> ln_is_repaid l \<or> ln_is_liquidated l then Inr False else
     bindR (get_nft_price_from_oracle s (ln_collection_id l) (ln_token_id l)) (\<lambda>price.
     bindR (u_mul 128 (as_u128 price) 100) (\<lambda>x.
     bindR (u_div x (as_u128 (ln_loan_amount l))) (\<lambda>ratio.
     bindR (u_add 64 (ln_due_date l) LIQUIDATION_GRACE_PERIOD) (\<lambda>grace.
     Inr (ratio < LIQUIDATION_COLLATERALIZATION_RATIO_MIN \<or> grace < now e))))))"

text \<open>The pool behind a loan, found by parsing the lender's address, is credited with the principal.\<close>

definition pool_repaid :: "nft_ext \<Rightarrow> nft_state \<Rightarrow> nft_loan \<Rightarrow> (lending_registry option, nft_error) res" where
  "pool_repaid X s l =
     (case ext_pool_of X (ln_lender l) of None \<Rightarrow> Inr (nf_lending s)
      | Some pid \<Rightarrow> (case get_pool (pools_of s) pid of None \<Rightarrow> Inr (nf_lending s)
         | Some p \<Rightarrow> bindR (checked (i_checked (lp_total_borrowed p - ln_loan_amount l)) AmountOverflow) (\<lambda>b.
             Inr (Some (update_pool (p\<lparr>lp_total_borrowed := b\<rparr>) (pools_of s))))))"

definition count_seized_nft :: "env \<Rightarrow> nft_state \<Rightarrow> address \<Rightarrow> nft_state" where
  "count_seized_nft e s a = (let p = portfolio_of e s a in
     put_portfolio a (p\<lparr>np_total_nfts_owned := u_sat_add 64 (np_total_nfts_owned p) 1\<rparr>) s)"

definition liquidate_undercollateralized_loan :: "nft_ext \<Rightarrow> env \<Rightarrow> nft_state \<Rightarrow> address \<Rightarrow> nat \<Rightarrow> (nft_state, nft_error) res" where
  "liquidate_undercollateralized_loan X e s liquidator k =
     bindR (require_auth e liquidator) (\<lambda>_.
     bindR (not_frozen s liquidator) (\<lambda>_.
     bindR (can_liquidate_loan e s k) (\<lambda>b.
     bindR (ensure b (Err LoanNotOverdue)) (\<lambda>_.
     bindR (find_loan s k) (\<lambda>(r, l).
     bindR (ok_or (get_nft (nfts_of s) (ln_collection_id l) (ln_token_id l)) (Err NFTNotFound)) (\<lambda>_.
     bindR (mark_liquidated r k) (\<lambda>r.
     bindR (transfer_ownership (nfts_of s) (ln_collection_id l) (ln_token_id l) liquidator) (\<lambda>nr.
     bindR (pool_repaid X s l) (\<lambda>lending.
     let s = (put_nfts nr (put_loans r s))\<lparr>nf_lending := lending\<rparr>;
         s = decrement_portfolio_loans_taken e s (ln_borrower l)
     in Inr (count_seized_nft e s liquidator))))))))))"

definition repay_lending_pool_loan :: "env \<Rightarrow> nft_state \<Rightarrow> address \<Rightarrow> nat \<Rightarrow> nat \<Rightarrow> int \<Rightarrow> (nft_state, nft_error) res" where
  "repay_lending_pool_loan e s borrower pool_id k amount =
     bindR (require_auth e borrower) (\<lambda>_.
     bindR (market_open s) (\<lambda>_.
     bindR (find_loan s k) (\<lambda>(r, l).
     bindR (repayable e l borrower amount) (\<lambda>_.
     bindR (mark_repaid r k) (\<lambda>r.
     bindR (find_pool s pool_id) (\<lambda>(pr, p).
     bindR (i_sub amount (ln_loan_amount l)) (\<lambda>interest.
     bindR (checked (i_checked (lp_total_borrowed p - ln_loan_amount l)) AmountOverflow) (\<lambda>borrowed.
     bindR (checked (i_checked (lp_total_deposited p + interest)) AmountOverflow) (\<lambda>deposited.
     let s = put_pools (update_pool (p\<lparr>lp_total_borrowed := borrowed, lp_total_deposited := deposited\<rparr>) pr) (put_loans r s);
         s = decrement_portfolio_loans_taken e s borrower
     in Inr (decrement_portfolio_loans_given e s (ln_lender l)))))))))))"

text \<open>
  The liquidation auction of \<open>counter/src/nft_lending.rs\<close>: the loan-to-value ratio, the queue of loans to
  liquidate, the best bid on each, and partial or full liquidation; and the module's read-only queries.
\<close>

section \<open>Queries\<close>

definition nft_get_loan :: "nft_state \<Rightarrow> nat \<Rightarrow> nft_loan option" where
  "nft_get_loan s k = get_loan (loans_of s) k"

definition nft_get_loan_by_collateral :: "nft_state \<Rightarrow> nat \<Rightarrow> nat \<Rightarrow> nat option" where
  "nft_get_loan_by_collateral s c t = get_loan_by_collateral (loans_of s) c t"

definition nft_get_borrower_loans :: "nft_state \<Rightarrow> address \<Rightarrow> nat list" where
  "nft_get_borrower_loans s a = get_borrower_loans (loans_of s) a"

definition nft_get_lender_loans :: "nft_state \<Rightarrow> address \<Rightarrow> nat list" where
  "nft_get_lender_loans s a = get_lender_loans (loans_of s) a"

definition calculate_repayment_amount :: "env \<Rightarrow> nft_state \<Rightarrow> nat \<Rightarrow> (int, nft_error) res" where
  "calculate_repayment_amount e s k = (case nft_get_loan s k of Some l \<Rightarrow> total_due l (now e) | None \<Rightarrow> Inr 0)"

definition get_total_active_loans :: "nft_state \<Rightarrow> nat" where
  "get_total_active_loans s = lo_active_count (loans_of s)"

definition can_use_as_collateral :: "nft_state \<Rightarrow> nat \<Rightarrow> nat \<Rightarrow> bool" where
  "can_use_as_collateral s c t =
     (case get_nft (nfts_of s) c t of None \<Rightarrow> False
      | Some n \<Rightarrow> if get_loan_by_collateral (loans_of s) c t \<noteq> None then False else \<not> nft_is_fractionalized n)"

section \<open>Loan to value\<close>

text \<open>The cast of the ratio to \<open>u32\<close> keeps its low 32 bits.\<close>

definition cast_u32 :: "int \<Rightarrow> nat" where
  "cast_u32 x = nat (x mod 2 ^ 32)"

definition live :: "nft_loan \<Rightarrow> bool" where
  "live l \<longleftrightarrow> ln_is_active l \<and> \<not> ln_is_repaid l \<and> \<not> ln_is_liquidated l"

definition calculate_loan_ltv :: "nft_ext \<Rightarrow> env \<Rightarrow> nft_state \<Rightarrow> nat \<Rightarrow> (nat, nft_error) res" where
  "calculate_loan_ltv X e s k =
     bindR (ok_or (nft_get_loan s k) (Err LoanNotFound)) (\<lambda>l.
     bindR (ensure (live l) (Err LoanNotActive)) (\<lambda>_.
     bindR (total_due l (now e)) (\<lambda>due.
     bindR (ext_collateral_value X s (ln_collection_id l) (ln_token_id l)) (\<lambda>v.
     if v \<le> 0 then Inr (2 ^ 32 - 1)
     else bindR (i_div (i_sat_mul due 10000) v) (\<lambda>x. Inr (cast_u32 x))))))"

definition is_loan_undercollateralized :: "nft_ext \<Rightarrow> env \<Rightarrow> nft_state \<Rightarrow> nat \<Rightarrow> (bool, nft_error) res" where
  "is_loan_undercollateralized X e s k = bindR (calculate_loan_ltv X e s k) (\<lambda>ltv. Inr (ext_trigger_ltv X < ltv))"

section \<open>Queue and bids\<close>

definition enqueue_liquidation :: "nft_ext \<Rightarrow> env \<Rightarrow> nft_state \<Rightarrow> nat \<Rightarrow> (nft_state, nft_error) res" where
  "enqueue_liquidation X e s k =
     bindR (is_loan_undercollateralized X e s k) (\<lambda>b.
     bindR (ensure b (Err LoanNotUndercollateralized)) (\<lambda>_.
     bindR (ensure (length (nf_queue s) < MAX_LIQUIDATION_QUEUE_SIZE) (Err LiquidationQueueFull)) (\<lambda>_.
     Inr (if k \<in> set (nf_queue s) then s else s\<lparr>nf_queue := nf_queue s @ [k]\<rparr>))))"

definition get_best_liquidation_bid :: "nft_state \<Rightarrow> nat \<Rightarrow> (address \<times> int \<times> nat) option" where
  "get_best_liquidation_bid s k = nf_bids s k"

definition set_best_liquidation_bid :: "nft_state \<Rightarrow> nat \<Rightarrow> address \<Rightarrow> int \<Rightarrow> nat \<Rightarrow> nft_state" where
  "set_best_liquidation_bid s k a amount t = s\<lparr>nf_bids := (nf_bids s)(k \<mapsto> (a, amount, t))\<rparr>"

definition clear_liquidation_bid :: "nft_state \<Rightarrow> nat \<Rightarrow> nft_state" where
  "clear_liquidation_bid s k = s\<lparr>nf_bids := (nf_bids s)(k := None)\<rparr>"

definition outbids :: "nft_state \<Rightarrow> nat \<Rightarrow> int \<Rightarrow> bool" where
  "outbids s k amount = (case get_best_liquidation_bid s k of None \<Rightarrow> True | Some (_, best, _) \<Rightarrow> best < amount)"

definition place_liquidation_bid :: "nft_ext \<Rightarrow> env \<Rightarrow> nft_state \<Rightarrow> nat \<Rightarrow> address \<Rightarrow> int \<Rightarrow> (nft_state, nft_error) res" where
  "place_liquidation_bid X e s k bidder amount =
     bindR (require_auth e bidder) (\<lambda>_.
     bindR (ensure (0 < amount) (Err InvalidAmount)) (\<lambda>_.
     bindR (ok_or (nft_get_loan s k) (Err LoanNotFound)) (\<lambda>l.
     bindR (ensure (live l) (Err LoanNotActive)) (\<lambda>_.
     bindR (ensure (ln_borrower l \<noteq> bidder) (Err SelfDealing)) (\<lambda>_.
     bindR (is_loan_undercollateralized X e s k) (\<lambda>b.
     bindR (ensure b (Err LoanNotUndercollateralized)) (\<lambda>_.
     bindR (ensure (outbids s k amount) (Err InvalidLiquidationBid)) (\<lambda>_.
     Inr (set_best_liquidation_bid s k bidder amount (now e))))))))))"

section \<open>Execution\<close>

text \<open>
  Full liquidation hands the token to the best bidder, or to the lender when nobody bid. The penalty and the
  protocol fee only enter the events; they are computed, and so trap, all the same.
\<close>

definition seize :: "nft_ext \<Rightarrow> env \<Rightarrow> nft_state \<Rightarrow> nat \<Rightarrow> nft_loan \<Rightarrow> loan_registry \<Rightarrow> address \<Rightarrow> int \<Rightarrow> (nft_state, nft_error) res" where
  "seize X e s k l r winner due =
     bindR (transfer_ownership (nfts_of s) (ln_collection_id l) (ln_token_id l) winner) (\<lambda>nr.
     bindR (i_mul due (int (ext_penalty_bps X))) (\<lambda>_.
     bindR (i_mul due (int (ext_protocol_fee_bps X))) (\<lambda>_.
     let s = put_loans (update_loan (l\<lparr>ln_is_liquidated := True, ln_is_active := False\<rparr>) r) (put_nfts nr s);
         s = decrement_portfolio_loans_taken e s (ln_borrower l);
         s = decrement_portfolio_loans_given e s (ln_lender l);
         s = update_portfolio_on_liquidation X e s winner (ln_collection_id l) (ln_token_id l)
     in Inr (clear_liquidation_bid s k))))"

definition execute_liquidation :: "nft_ext \<Rightarrow> env \<Rightarrow> nft_state \<Rightarrow> nat \<Rightarrow> (nft_state, nft_error) res" where
  "execute_liquidation X e s k =
     bindR (find_loan s k) (\<lambda>(r, l).
     bindR (ensure (live l) (Err LoanNotActive)) (\<lambda>_.
     bindR (total_due l (now e)) (\<lambda>due.
     bindR (ext_collateral_value X s (ln_collection_id l) (ln_token_id l)) (\<lambda>v.
     bindR (if v = 0 then Inr (2 ^ 32 - 1) else bindR (i_div (i_sat_mul due 10000) v) (\<lambda>x. Inr (cast_u32 x))) (\<lambda>ltv.
     bindR (ensure (ext_trigger_ltv X < ltv) (Err LoanNotUndercollateralized)) (\<lambda>_.
     if ltv \<le> ext_partial_ltv X then
       bindR (i_mul due 5000) (\<lambda>x. bindR (i_div x 10000) (\<lambda>recovered.
       Inr (put_loans (update_loan (l\<lparr>ln_repayment_amount := i_sat_sub due recovered\<rparr>) r) s)))
     else
       (case get_best_liquidation_bid s k of
          Some (winner, _, _) \<Rightarrow> seize X e s k l r winner due
        | None \<Rightarrow> seize X e s k l r (ln_lender l) due)))))))"

section \<open>Keepers\<close>

text \<open>\<open>loans.keys()\<close>: the ids in ascending order; every id is below the counter.\<close>

definition loan_keys :: "nft_state \<Rightarrow> nat list" where
  "loan_keys s = filter (\<lambda>k. lo_loans (loans_of s) k \<noteq> None) [0..<nf_next_loan s]"

fun queue_loans :: "nft_ext \<Rightarrow> env \<Rightarrow> nft_state \<Rightarrow> nat list \<Rightarrow> nat list \<Rightarrow> nat \<Rightarrow> (nat list \<times> nat, nft_error) res" where
  "queue_loans X e s [] queue processed = Inr (queue, processed)"
| "queue_loans X e s (k # ks) queue processed =
     (if MAX_LIQUIDATION_QUEUE_SIZE \<le> processed then Inr (queue, processed)
      else case nft_get_loan s k of None \<Rightarrow> queue_loans X e s ks queue processed
        | Some l \<Rightarrow> if \<not> live l then queue_loans X e s ks queue processed
           else (case is_loan_undercollateralized X e s k of
               Inl Trap \<Rightarrow> Inl Trap
             | Inl (Err _) \<Rightarrow> queue_loans X e s ks queue processed
             | Inr b \<Rightarrow> if b \<and> k \<notin> set queue then queue_loans X e s ks (queue @ [k]) (u_sat_add 64 processed 1)
                 else queue_loans X e s ks queue processed))"

definition monitor_and_queue_liquidations :: "nft_ext \<Rightarrow> env \<Rightarrow> nft_state \<Rightarrow> (nat \<times> nft_state, nft_error) res" where
  "monitor_and_queue_liquidations X e s =
     bindR (queue_loans X e s (loan_keys s) (nf_queue s) 0) (\<lambda>(queue, processed). Inr (processed, s\<lparr>nf_queue := queue\<rparr>))"

fun process_queue :: "nft_ext \<Rightarrow> env \<Rightarrow> nat \<Rightarrow> nat list \<Rightarrow> nft_state \<Rightarrow> nat list \<Rightarrow> nat \<Rightarrow> (nft_state \<times> nat list \<times> nat, nft_error) res" where
  "process_queue X e max_items [] s new_queue processed = Inr (s, new_queue, processed)"
| "process_queue X e max_items (k # ks) s new_queue processed =
     (if processed < max_items then
        (case execute_liquidation X e s k of
           Inl Trap \<Rightarrow> Inl Trap
         | Inl (Err _) \<Rightarrow> process_queue X e max_items ks s (new_queue @ [k]) processed
         | Inr s' \<Rightarrow> process_queue X e max_items ks s' new_queue (u_sat_add 32 processed 1))
      else process_queue X e max_items ks s (new_queue @ [k]) processed)"

definition process_liquidation_queue :: "nft_ext \<Rightarrow> env \<Rightarrow> nft_state \<Rightarrow> nat \<Rightarrow> (nat \<times> nft_state, nft_error) res" where
  "process_liquidation_queue X e s max_items =
     bindR (process_queue X e max_items (nf_queue s) s [] 0) (\<lambda>(s, new_queue, processed). Inr (processed, s\<lparr>nf_queue := new_queue\<rparr>))"

end
