(* ===== verification/Nft_Lending_Inv.thy ===== *)
theory Nft_Lending_Inv
  imports Nft_Lending
begin

text \<open>
  The invariant of the lending registries: a token stands behind at most one loan, ever; a pool's counter of
  borrowed amounts stays below its counter of deposits. The flag \<open>C\<close> of the invariant adds that the counter
  of deposits covers what the depositors may withdraw, which every operation keeps except the repayment of a
  loan that an auction wrote down below its principal. The machine has every public operation of
  \<open>nft_lending.rs\<close> that changes state, and a step for the other modules, which write none of the registries
  of loans, pools and deposits.
\<close>

section \<open>Arithmetic\<close>

lemma as_i128_div_nonneg: "x < 2 ^ 128 \<Longrightarrow> 0 \<le> as_i128 (x div 10000)"
  by (subst as_i128_small) auto

lemma total_due_ge: "total_due l t = Inr d \<Longrightarrow> ln_repayment_amount l \<le> d"
  by (auto simp: total_due_def Let_def bindR_eq_Inr u_mul_eq_Inr i_mul_eq_Inr i_add_eq_Inr as_i128_div_nonneg split: if_splits)

lemma scaled_div: "(n * INTEREST_PRECISION * rate) div (10000 * INTEREST_PRECISION) = (n * rate) div 10000"
proof -
  have "(n * INTEREST_PRECISION * rate) div (10000 * INTEREST_PRECISION) = (INTEREST_PRECISION * (n * rate)) div (INTEREST_PRECISION * 10000)"
    by (simp only: ac_simps)
  also have "\<dots> = (n * rate) div 10000" by (subst div_mult_mult1) (simp_all add: INTEREST_PRECISION_def)
  finally show ?thesis .
qed

lemma funding_interest_effect:
  assumes "funding_interest amount rate duration = Inr i"
  shows "i = (as_u128 amount * rate) div 10000 * (duration div 86400) div INTEREST_PRECISION" and "i < 2 ^ 127"
proof -
  from assms have s: "(as_u128 amount * INTEREST_PRECISION * rate) div (10000 * INTEREST_PRECISION) * (duration div 86400) < 2 ^ 128"
    and i: "i = (as_u128 amount * INTEREST_PRECISION * rate) div (10000 * INTEREST_PRECISION) * (duration div 86400) div INTEREST_PRECISION"
    by (auto simp: funding_interest_def checked_def bindR_eq_Inr ok_or_eq_Inr u_checked_mul_eq_Some Let_def)
  show "i = (as_u128 amount * rate) div 10000 * (duration div 86400) div INTEREST_PRECISION" using i by (simp only: scaled_div)
  show "i < 2 ^ 127" using s unfolding i by (simp add: INTEREST_PRECISION_def)
qed

lemma pool_repayment_ge: "pool_repayment amount rate duration = Inr x \<Longrightarrow> amount \<le> x"
  by (auto simp: pool_repayment_def checked_def bindR_eq_Inr u_mul_eq_Inr i_mul_eq_Inr ok_or_eq_Inr i_checked_eq_Some as_i128_div_nonneg)

section \<open>What portfolio updates leave alone\<close>

lemmas portfolio_defs = update_portfolio_on_loan_taken_def update_portfolio_on_loan_given_def decrement_portfolio_loans_taken_def
  decrement_portfolio_loans_given_def update_portfolio_on_liquidation_def put_portfolio_def Let_def

lemma portfolio_core [simp]:
  "nf_loans (put_portfolio a p s) = nf_loans s" "nf_lending (put_portfolio a p s) = nf_lending s"
  "nf_deposits (put_portfolio a p s) = nf_deposits s" "nf_next_loan (put_portfolio a p s) = nf_next_loan s"
  "nf_next_pool (put_portfolio a p s) = nf_next_pool s" "nf_nfts (put_portfolio a p s) = nf_nfts s"
  by (simp_all add: put_portfolio_def)

lemma taken_core [simp]:
  "nf_loans (update_portfolio_on_loan_taken e s a) = nf_loans s" "nf_lending (update_portfolio_on_loan_taken e s a) = nf_lending s"
  "nf_deposits (update_portfolio_on_loan_taken e s a) = nf_deposits s" "nf_next_loan (update_portfolio_on_loan_taken e s a) = nf_next_loan s"
  "nf_next_pool (update_portfolio_on_loan_taken e s a) = nf_next_pool s" "nf_nfts (update_portfolio_on_loan_taken e s a) = nf_nfts s"
  by (simp_all add: portfolio_defs)

lemma given_core [simp]:
  "nf_loans (update_portfolio_on_loan_given e s a) = nf_loans s" "nf_lending (update_portfolio_on_loan_given e s a) = nf_lending s"
  "nf_deposits (update_portfolio_on_loan_given e s a) = nf_deposits s" "nf_next_loan (update_portfolio_on_loan_given e s a) = nf_next_loan s"
  "nf_next_pool (update_portfolio_on_loan_given e s a) = nf_next_pool s" "nf_nfts (update_portfolio_on_loan_given e s a) = nf_nfts s"
  by (simp_all add: portfolio_defs)

lemma untaken_core [simp]:
  "nf_loans (decrement_portfolio_loans_taken e s a) = nf_loans s" "nf_lending (decrement_portfolio_loans_taken e s a) = nf_lending s"
  "nf_deposits (decrement_portfolio_loans_taken e s a) = nf_deposits s" "nf_next_loan (decrement_portfolio_loans_taken e s a) = nf_next_loan s"
  "nf_next_pool (decrement_portfolio_loans_taken e s a) = nf_next_pool s" "nf_nfts (decrement_portfolio_loans_taken e s a) = nf_nfts s"
  by (simp_all add: portfolio_defs)

lemma ungiven_core [simp]:
  "nf_loans (decrement_portfolio_loans_given e s a) = nf_loans s" "nf_lending (decrement_portfolio_loans_given e s a) = nf_lending s"
  "nf_deposits (decrement_portfolio_loans_given e s a) = nf_deposits s" "nf_next_loan (decrement_portfolio_loans_given e s a) = nf_next_loan s"
  "nf_next_pool (decrement_portfolio_loans_given e s a) = nf_next_pool s" "nf_nfts (decrement_portfolio_loans_given e s a) = nf_nfts s"
  by (simp_all add: portfolio_defs)

lemma liquidated_core [simp]:
  "nf_loans (update_portfolio_on_liquidation X e s a c t) = nf_loans s" "nf_lending (update_portfolio_on_liquidation X e s a c t) = nf_lending s"
  "nf_deposits (update_portfolio_on_liquidation X e s a c t) = nf_deposits s"
  "nf_next_loan (update_portfolio_on_liquidation X e s a c t) = nf_next_loan s"
  "nf_next_pool (update_portfolio_on_liquidation X e s a c t) = nf_next_pool s" "nf_nfts (update_portfolio_on_liquidation X e s a c t) = nf_nfts s"
  by (simp_all add: portfolio_defs)

lemma seized_core [simp]:
  "nf_loans (count_seized_nft e s a) = nf_loans s" "nf_lending (count_seized_nft e s a) = nf_lending s"
  "nf_deposits (count_seized_nft e s a) = nf_deposits s" "nf_next_loan (count_seized_nft e s a) = nf_next_loan s"
  "nf_next_pool (count_seized_nft e s a) = nf_next_pool s" "nf_nfts (count_seized_nft e s a) = nf_nfts s"
  by (simp_all add: count_seized_nft_def portfolio_defs)

section \<open>Loans\<close>

definition loan_ok :: "nat \<Rightarrow> loan_registry \<Rightarrow> nat \<Rightarrow> nft_loan \<Rightarrow> bool" where
  "loan_ok n r k l \<longleftrightarrow> ln_loan_id l = k \<and> k < n \<and> 0 < ln_loan_amount l \<and> 0 \<le> ln_repayment_amount l
     \<and> lo_collateral_loans r (ln_collection_id l, ln_token_id l) = Some k"

definition loans_ok :: "nat \<Rightarrow> loan_registry \<Rightarrow> bool" where
  "loans_ok n r \<longleftrightarrow> (\<forall>k l. lo_loans r k = Some l \<longrightarrow> loan_ok n r k l)"

lemma loans_ok_create:
  assumes "loans_ok n r" and "lo_collateral_loans r (ln_collection_id l, ln_token_id l) = None"
    and "ln_loan_id l = n" and "0 < ln_loan_amount l" and "0 \<le> ln_repayment_amount l"
  shows "loans_ok (Suc n) (snd (create_loan l r))"
  using assms unfolding loans_ok_def loan_ok_def create_loan_def by (fastforce split: if_splits)

lemma loans_ok_update:
  assumes "loans_ok n r" and "lo_loans r k = Some l" and "ln_loan_id l' = ln_loan_id l" "ln_collection_id l' = ln_collection_id l"
    "ln_token_id l' = ln_token_id l" "ln_loan_amount l' = ln_loan_amount l" "0 \<le> ln_repayment_amount l'"
  shows "loans_ok n (update_loan l' r)"
  using assms unfolding loans_ok_def loan_ok_def update_loan_def by (fastforce split: if_splits)

lemma mark_repaid_effect:
  assumes "mark_repaid r k = Inr r'"
  obtains l where "lo_loans r k = Some l" "ln_is_active l" "\<not> ln_is_repaid l"
    "r' = r\<lparr>lo_loans := (lo_loans r)(k \<mapsto> l\<lparr>ln_is_repaid := True, ln_is_active := False\<rparr>), lo_active_count := lo_active_count r - 1\<rparr>"
  using assms by (auto simp: mark_repaid_def bindR_eq_Inr ok_or_eq_Inr ensure_eq_Inr)

lemma mark_liquidated_effect:
  assumes "mark_liquidated r k = Inr r'"
  obtains l where "lo_loans r k = Some l" "ln_is_active l" "\<not> ln_is_liquidated l"
    "r' = r\<lparr>lo_loans := (lo_loans r)(k \<mapsto> l\<lparr>ln_is_liquidated := True, ln_is_active := False\<rparr>), lo_active_count := lo_active_count r - 1\<rparr>"
  using assms by (auto simp: mark_liquidated_def bindR_eq_Inr ok_or_eq_Inr ensure_eq_Inr)

lemma loans_ok_repaid: "loans_ok n r \<Longrightarrow> mark_repaid r k = Inr r' \<Longrightarrow> loans_ok n r'"
  by (elim mark_repaid_effect) (auto simp: loans_ok_def loan_ok_def)

lemma loans_ok_liquidated: "loans_ok n r \<Longrightarrow> mark_liquidated r k = Inr r' \<Longrightarrow> loans_ok n r'"
  by (elim mark_liquidated_effect) (auto simp: loans_ok_def loan_ok_def)

text \<open>No operation takes a token out of the collateral index.\<close>

definition still_pledged :: "loan_registry \<Rightarrow> loan_registry \<Rightarrow> bool" where
  "still_pledged r r' \<longleftrightarrow> (\<forall>x. lo_collateral_loans r x \<noteq> None \<longrightarrow> lo_collateral_loans r' x \<noteq> None)"

lemma still_pledged_same: "lo_collateral_loans r' = lo_collateral_loans r \<Longrightarrow> still_pledged r r'"
  by (simp add: still_pledged_def)

lemma mark_repaid_pledged: "mark_repaid r k = Inr r' \<Longrightarrow> still_pledged r r'"
  by (elim mark_repaid_effect) (simp add: still_pledged_def)

lemma mark_liquidated_pledged: "mark_liquidated r k = Inr r' \<Longrightarrow> still_pledged r r'"
  by (elim mark_liquidated_effect) (simp add: still_pledged_def)

section \<open>Pools and deposits\<close>

definition held :: "(nat \<times> address \<rightharpoonup> lender_deposit) \<Rightarrow> nat \<Rightarrow> int" where
  "held dep k = map_total (\<lambda>d. if ld_pool_id d = k then ld_amount d else 0) dep"

definition deposits_ok :: "lending_registry \<Rightarrow> (nat \<times> address \<rightharpoonup> lender_deposit) \<Rightarrow> bool" where
  "deposits_ok r dep \<longleftrightarrow> finite (dom dep) \<and> (\<forall>k a d. dep (k, a) = Some d \<longrightarrow>
     lg_pools r k \<noteq> None \<and> ld_pool_id d = k \<and> 0 < ld_amount d \<and> ld_shares d = ld_amount d)"

definition pools_ok :: "bool \<Rightarrow> nat \<Rightarrow> lending_registry \<Rightarrow> (nat \<times> address \<rightharpoonup> lender_deposit) \<Rightarrow> bool" where
  "pools_ok c n r dep \<longleftrightarrow> deposits_ok r dep \<and> (\<forall>k p. lg_pools r k = Some p \<longrightarrow>
     lp_pool_id p = k \<and> k < n \<and> lp_total_borrowed p \<le> lp_total_deposited p \<and> (c \<longrightarrow> held dep k \<le> lp_total_deposited p))"

lemma pools_ok_create:
  assumes "pools_ok C n r dep" and "lp_pool_id p = n" and "lp_total_borrowed p = 0" and "lp_total_deposited p = 0"
  shows "pools_ok C (Suc n) (snd (create_pool p r)) dep"
proof -
  have no: "lg_pools r n = None" using assms(1) by (cases "lg_pools r n") (auto simp: pools_ok_def)
  have "ld_pool_id d \<noteq> n" if "dep x = Some d" for x d
    using assms(1) no that by (cases x) (fastforce simp: pools_ok_def deposits_ok_def)
  then have "held dep n = 0" unfolding held_def by (intro map_total_zero) simp
  then show ?thesis using assms no by (fastforce simp: pools_ok_def deposits_ok_def create_pool_def)
qed

lemma pools_ok_update:
  assumes "pools_ok C n r dep" and "lg_pools r k = Some p" and "lp_pool_id q = lp_pool_id p"
    and "lp_total_borrowed q \<le> lp_total_deposited q" and "C \<longrightarrow> held dep k \<le> lp_total_deposited q"
  shows "pools_ok C n (update_pool q r) dep"
  using assms by (auto simp: pools_ok_def deposits_ok_def update_pool_def)

lemma pools_ok_deposits:
  assumes ok: "pools_ok C n r dep" and p: "lg_pools r k = Some p" and q: "lp_pool_id q = lp_pool_id p"
    and dep: "deposits_ok r dep'" and h: "\<And>j. held dep' j = held dep j + (if j = k then x else 0)"
    and x: "lp_total_deposited q = lp_total_deposited p + x" "lp_total_borrowed q \<le> lp_total_deposited q"
  shows "pools_ok C n (update_pool q r) dep'"
  using assms by (auto simp: pools_ok_def deposits_ok_def update_pool_def)

lemma held_upd: "finite (dom dep) \<Longrightarrow> held (dep((k, a) \<mapsto> d)) j = held dep j
    - (case dep (k, a) of None \<Rightarrow> 0 | Some d0 \<Rightarrow> if ld_pool_id d0 = j then ld_amount d0 else 0) + (if ld_pool_id d = j then ld_amount d else 0)"
  by (simp add: held_def map_total_upd)

lemma map_total_del:
  assumes "finite (dom m)"
  shows "map_total f (m(k := None)) = map_total f m - (case m k of None \<Rightarrow> 0 | Some r \<Rightarrow> f r)"
proof (cases "m k")
  case (Some r)
  have "map_total f (m(k := None)) + f r = map_total f m"
    using map_total_upd [of "m(k := None)" f k r] assms Some by (simp add: map_upd_triv)
  with Some show ?thesis by simp
qed (simp add: fun_upd_idem)

lemma held_del: "finite (dom dep) \<Longrightarrow> held (dep((k, a) := None)) j = held dep j
    - (case dep (k, a) of None \<Rightarrow> 0 | Some d0 \<Rightarrow> if ld_pool_id d0 = j then ld_amount d0 else 0)"
  by (simp add: held_def map_total_del)

section \<open>The machine\<close>

datatype lend_call = Request address nat nat int nat nat | Fund address nat | Repay address nat int | Liquidate nat
  | Cancel_request address nat | Open_pool address string nat nat | Deposit address nat int | Withdraw address nat int
  | Borrow address nat nat nat int nat | Liquidate_under address nat | Repay_pool address nat nat int
  | Enqueue nat | Bid nat address int | Auction nat | Monitor | Process nat | Other_modules nft_state

fun lend_exec :: "nft_ext \<Rightarrow> env \<Rightarrow> nft_state \<Rightarrow> lend_call \<Rightarrow> (nft_state, nft_error) res" where
  "lend_exec X e s (Request b c t m r d) = bindR (request_loan X e s b c t m r d) (\<lambda>x. Inr (snd x))"
| "lend_exec X e s (Fund a k) = fund_loan e s a k"
| "lend_exec X e s (Repay a k m) = repay_loan e s a k m"
| "lend_exec X e s (Liquidate k) = liquidate_loan X e s k"
| "lend_exec X e s (Cancel_request a k) = cancel_loan_request e s a k"
| "lend_exec X e s (Open_pool a x f b) = bindR (create_lending_pool e s a x f b) (\<lambda>x. Inr (snd x))"
| "lend_exec X e s (Deposit a k m) = deposit_to_lending_pool e s a k m"
| "lend_exec X e s (Withdraw a k m) = withdraw_from_lending_pool e s a k m"
| "lend_exec X e s (Borrow a p c t m d) = bindR (borrow_from_lending_pool X e s a p c t m d) (\<lambda>x. Inr (snd x))"
| "lend_exec X e s (Liquidate_under a k) = liquidate_undercollateralized_loan X e s a k"
| "lend_exec X e s (Repay_pool a p k m) = repay_lending_pool_loan e s a p k m"
| "lend_exec X e s (Enqueue k) = enqueue_liquidation X e s k"
| "lend_exec X e s (Bid k a m) = place_liquidation_bid X e s k a m"
| "lend_exec X e s (Auction k) = execute_liquidation X e s k"
| "lend_exec X e s Monitor = bindR (monitor_and_queue_liquidations X e s) (\<lambda>x. Inr (snd x))"
| "lend_exec X e s (Process n) = bindR (process_liquidation_queue X e s n) (\<lambda>x. Inr (snd x))"
| "lend_exec X e s (Other_modules d) = Inr (d\<lparr>nf_loans := nf_loans s, nf_lending := nf_lending s, nf_deposits := nf_deposits s,
     nf_next_loan := nf_next_loan s, nf_next_pool := nf_next_pool s\<rparr>)"

definition lend_init :: "nft_state \<Rightarrow> bool" where
  "lend_init s \<longleftrightarrow> nf_loans s = None \<and> nf_lending s = None \<and> nf_deposits s = None"

inductive lend_step :: "nft_ext \<Rightarrow> nft_state \<Rightarrow> nft_state \<Rightarrow> bool" for X where
  "lend_exec X e s c = Inr s' \<Longrightarrow> lend_step X s s'"

definition deposits_of :: "nft_state \<Rightarrow> nat \<times> address \<rightharpoonup> lender_deposit" where
  "deposits_of s = or_new (nf_deposits s) Map.empty"

definition lend_ok :: "bool \<Rightarrow> nft_state \<Rightarrow> bool" where
  "lend_ok C s \<longleftrightarrow> loans_ok (nf_next_loan s) (loans_of s) \<and> pools_ok C (nf_next_pool s) (pools_of s) (deposits_of s)"

text \<open>Some loan is to be repaid with less than its principal.\<close>

definition written_down :: "nft_state \<Rightarrow> bool" where
  "written_down s \<longleftrightarrow> (\<exists>k l. get_loan (loans_of s) k = Some l \<and> ln_repayment_amount l < ln_loan_amount l)"

definition kept :: "bool \<Rightarrow> nft_state \<Rightarrow> nft_state \<Rightarrow> bool" where
  "kept C s s' \<longleftrightarrow> lend_ok C s' \<and> still_pledged (loans_of s) (loans_of s')"

lemma lend_init_ok: "lend_init s \<Longrightarrow> lend_ok C s"
  by (simp add: lend_init_def lend_ok_def loans_ok_def loan_registry_new_def pools_ok_def deposits_ok_def lending_registry_new_def deposits_of_def)

text \<open>Operations on loans only, and on pools only.\<close>

lemma kept_loans:
  assumes "lend_ok C s" and "loans_ok (nf_next_loan s') (loans_of s')" and "still_pledged (loans_of s) (loans_of s')"
    and "nf_lending s' = nf_lending s" and "nf_deposits s' = nf_deposits s" and "nf_next_pool s' = nf_next_pool s"
  shows "kept C s s'"
  using assms by (simp add: kept_def lend_ok_def deposits_of_def)

lemma kept_pools:
  assumes "lend_ok C s" and "pools_ok C (nf_next_pool s') (pools_of s') (deposits_of s')" and "nf_loans s' = nf_loans s"
    and "nf_next_loan s' = nf_next_loan s"
  shows "kept C s s'"
  using assms by (simp add: kept_def lend_ok_def still_pledged_def)

lemma find_loan_effect: "find_loan s k = Inr (r, l) \<Longrightarrow> nf_loans s = Some r \<and> lo_loans r k = Some l"
  by (auto simp: find_loan_def get_loan_def bindR_eq_Inr ok_or_eq_Inr)

lemma find_pool_effect: "find_pool s k = Inr (r, p) \<Longrightarrow> nf_lending s = Some r \<and> lg_pools r k = Some p"
  by (auto simp: find_pool_def get_pool_def bindR_eq_Inr ok_or_eq_Inr)

lemma kept_same:
  assumes "lend_ok C s" and "nf_loans s' = nf_loans s" and "nf_lending s' = nf_lending s" and "nf_deposits s' = nf_deposits s"
    and "nf_next_loan s' = nf_next_loan s" and "nf_next_pool s' = nf_next_pool s"
  shows "kept C s s'"
  using assms by (simp add: kept_def lend_ok_def deposits_of_def still_pledged_def)

lemma lend_loan: "lend_ok C s \<Longrightarrow> nf_loans s = Some r \<Longrightarrow> lo_loans r k = Some l \<Longrightarrow> loan_ok (nf_next_loan s) r k l"
  by (simp add: lend_ok_def loans_ok_def)

section \<open>Every operation keeps the invariant\<close>

lemma request_kept:
  assumes "lend_ok C s" and "request_loan X e s b c t m rate d = Inr (k, s')"
  shows "kept C s s'"
proof -
  from assms(2) have m: "0 < m" and none: "lo_collateral_loans (loans_of s) (c, t) = None"
    and s': "s' = put_loans (snd (create_loan (loan_request (nf_next_loan s) b c t m rate d) (loans_of s))) (s\<lparr>nf_next_loan := Suc (nf_next_loan s)\<rparr>)"
    by (auto simp: request_loan_def get_next_loan_id_def get_loan_by_collateral_def bindR_eq_Inr ensure_eq_Inr ok_or_eq_Inr u_add_eq_Inr)
  have "loans_ok (Suc (nf_next_loan s)) (snd (create_loan (loan_request (nf_next_loan s) b c t m rate d) (loans_of s)))"
    by (rule loans_ok_create) (use assms(1) none m in \<open>simp_all add: lend_ok_def loan_request_def\<close>)
  then show ?thesis by (intro kept_loans [OF assms(1)]) (simp_all add: s' put_loans_def still_pledged_def create_loan_def)
qed

lemma fund_loan_effect:
  assumes "fund_loan e s a k = Inr s'"
  obtains r l i due where "nf_loans s = Some r" "lo_loans r k = Some l" "\<not> ln_is_active l" "ln_borrower l \<noteq> a"
    "funding_interest (ln_loan_amount l) (ln_interest_rate_bps l) (ln_duration l) = Inr i"
    "i128_ok (ln_loan_amount l + as_i128 i)"
    "s' = update_portfolio_on_loan_given e (update_portfolio_on_loan_taken e
       (put_loans (update_loan (funded l a (ln_loan_amount l + as_i128 i) (now e) due) r) s) (ln_borrower l)) a"
  using assms by (auto simp: fund_loan_def Let_def checked_def bindR_eq_Inr ensure_eq_Inr ok_or_eq_Inr i_checked_eq_Some u_add_eq_Inr
      dest!: find_loan_effect)

lemma fund_kept:
  assumes "lend_ok C s" and "fund_loan e s a k = Inr s'"
  shows "kept C s s'"
  using assms(2)
proof (rule fund_loan_effect)
  fix r l i due assume r: "nf_loans s = Some r" "lo_loans r k = Some l"
    and i: "funding_interest (ln_loan_amount l) (ln_interest_rate_bps l) (ln_duration l) = Inr i"
    and s': "s' = update_portfolio_on_loan_given e (update_portfolio_on_loan_taken e
       (put_loans (update_loan (funded l a (ln_loan_amount l + as_i128 i) (now e) due) r) s) (ln_borrower l)) a"
  have "0 \<le> as_i128 i" using funding_interest_effect(2) [OF i] by (simp add: as_i128_small)
  moreover have "0 < ln_loan_amount l" using lend_loan [OF assms(1) r] by (simp add: loan_ok_def)
  ultimately have "loans_ok (nf_next_loan s) (update_loan (funded l a (ln_loan_amount l + as_i128 i) (now e) due) r)"
    using assms(1) r by (intro loans_ok_update [of _ r k l]) (simp_all add: lend_ok_def funded_def)
  then show ?thesis by (intro kept_loans [OF assms(1)]) (simp_all add: s' put_loans_def still_pledged_def update_loan_def r(1))
qed

lemma repay_kept:
  assumes "lend_ok C s" and "repay_loan e s a k m = Inr s'"
  shows "kept C s s'"
proof -
  from assms(2) obtain r l r' where "find_loan s k = Inr (r, l)" and r: "nf_loans s = Some r" "mark_repaid r k = Inr r'"
    and s': "s' = decrement_portfolio_loans_given e (decrement_portfolio_loans_taken e (put_loans r' s) a) (ln_lender l)"
    by (auto simp: repay_loan_def Let_def bindR_eq_Inr dest: find_loan_effect)
  show ?thesis using assms(1) loans_ok_repaid [OF _ r(2)] mark_repaid_pledged [OF r(2)]
    by (intro kept_loans [OF assms(1)]) (simp_all add: s' put_loans_def r(1) lend_ok_def)
qed

lemma liquidate_loan_effect:
  assumes "liquidate_loan X e s k = Inr s'"
  obtains r l nr r' where "nf_loans s = Some r" "lo_loans r k = Some l" "ln_is_active l" "\<not> ln_is_repaid l" "\<not> ln_is_liquidated l"
    "ln_due_date l + LIQUIDATION_GRACE_PERIOD < now e"
    "transfer_ownership (nfts_of s) (ln_collection_id l) (ln_token_id l) (ln_lender l) = Inr nr" "mark_liquidated r k = Inr r'"
    "s' = update_portfolio_on_liquidation X e (decrement_portfolio_loans_given e (decrement_portfolio_loans_taken e
       (put_loans r' (put_nfts nr s)) (ln_borrower l)) (ln_lender l)) (ln_lender l) (ln_collection_id l) (ln_token_id l)"
  using assms by (auto simp: liquidate_loan_def Let_def bindR_eq_Inr ensure_eq_Inr u_add_eq_Inr dest!: find_loan_effect)

lemma liquidate_kept:
  assumes "lend_ok C s" and "liquidate_loan X e s k = Inr s'"
  shows "kept C s s'"
  using assms(2)
proof (rule liquidate_loan_effect)
  fix r l nr r' assume r: "nf_loans s = Some r" "mark_liquidated r k = Inr r'"
    and s': "s' = update_portfolio_on_liquidation X e (decrement_portfolio_loans_given e (decrement_portfolio_loans_taken e
       (put_loans r' (put_nfts nr s)) (ln_borrower l)) (ln_lender l)) (ln_lender l) (ln_collection_id l) (ln_token_id l)"
  show ?thesis using assms(1) loans_ok_liquidated [OF _ r(2)] mark_liquidated_pledged [OF r(2)]
    by (intro kept_loans [OF assms(1)]) (simp_all add: s' put_loans_def put_nfts_def r(1) lend_ok_def)
qed

lemma loan_cancel_kept: "lend_ok C s \<Longrightarrow> cancel_loan_request e s a k = Inr s' \<Longrightarrow> kept C s s'"
  by (auto simp: cancel_loan_request_def bindR_eq_Inr kept_def still_pledged_def)

lemma open_pool_kept:
  assumes "lend_ok C s" and "create_lending_pool e s a x f b = Inr (k, s')"
  shows "kept C s s'"
proof -
  define p where "p = \<lparr>lp_pool_id = nf_next_pool s, lp_asset = x, lp_total_deposited = 0, lp_total_borrowed = 0,
    lp_reserve_factor_bps = f, lp_base_rate_bps = b, lp_is_active = True, lp_created_at = now e\<rparr>"
  then have p: "lp_pool_id p = nf_next_pool s" "lp_total_borrowed p = 0" "lp_total_deposited p = 0" by simp_all
  from assms(2) have s': "s' = put_pools (snd (create_pool p (pools_of s))) (s\<lparr>nf_next_pool := Suc (nf_next_pool s)\<rparr>)"
    by (auto simp: p_def create_lending_pool_def get_next_pool_id_def Let_def bindR_eq_Inr u_add_eq_Inr)
  have "pools_ok C (Suc (nf_next_pool s)) (snd (create_pool p (pools_of s))) (deposits_of s)"
    by (rule pools_ok_create) (use assms(1) p in \<open>simp_all add: lend_ok_def\<close>)
  then show ?thesis by (intro kept_pools [OF assms(1)]) (simp_all add: s' put_pools_def deposits_of_def)
qed

lemma pool_deposit_effect:
  assumes "deposit_to_lending_pool e s a k m = Inr s'"
  obtains r p d pf where "nf_lending s = Some r" "lg_pools r k = Some p" "0 < m" "d = deposit_of e s k a"
    "s' = put_portfolio a pf ((put_pools (update_pool (p\<lparr>lp_total_deposited := lp_total_deposited p + m\<rparr>) r) s)
       \<lparr>nf_deposits := Some ((deposits_of s)((k, a) \<mapsto> d\<lparr>ld_amount := ld_amount d + m, ld_shares := ld_shares d + m\<rparr>))\<rparr>)"
  using assms by (auto simp: deposit_to_lending_pool_def deposits_of_def Let_def checked_def bindR_eq_Inr ensure_eq_Inr ok_or_eq_Inr
      i_checked_eq_Some dest!: find_pool_effect)

lemma deposit_kept:
  assumes "lend_ok C s" and "deposit_to_lending_pool e s a k m = Inr s'"
  shows "kept C s s'"
  using assms(2)
proof (rule pool_deposit_effect)
  fix r p d pf assume r: "nf_lending s = Some r" "lg_pools r k = Some p" "0 < m" and d: "d = deposit_of e s k a"
    and s': "s' = put_portfolio a pf ((put_pools (update_pool (p\<lparr>lp_total_deposited := lp_total_deposited p + m\<rparr>) r) s)
       \<lparr>nf_deposits := Some ((deposits_of s)((k, a) \<mapsto> d\<lparr>ld_amount := ld_amount d + m, ld_shares := ld_shares d + m\<rparr>))\<rparr>)"
  let ?dep' = "(deposits_of s)((k, a) \<mapsto> d\<lparr>ld_amount := ld_amount d + m, ld_shares := ld_shares d + m\<rparr>)"
  have P: "pools_ok C (nf_next_pool s) r (deposits_of s)" using assms(1) r(1) by (simp add: lend_ok_def)
  then have D: "deposits_ok r (deposits_of s)" by (simp add: pools_ok_def)
  have q: "lp_total_borrowed p \<le> lp_total_deposited p" using P r(2) by (auto simp: pools_ok_def)
  have dk: "ld_pool_id d = k" "ld_shares d = ld_amount d" "0 \<le> ld_amount d"
    and d0: "ld_amount d = (case deposits_of s (k, a) of None \<Rightarrow> 0 | Some d0 \<Rightarrow> ld_amount d0)"
    using D unfolding d deposit_of_def deposits_ok_def deposits_of_def by (auto simp: or_new_def less_imp_le split: option.splits)
  have "pools_ok C (nf_next_pool s) (update_pool (p\<lparr>lp_total_deposited := lp_total_deposited p + m\<rparr>) r) ?dep'"
  proof (rule pools_ok_deposits [OF P r(2)])
    show "deposits_ok r ?dep'" using D dk r by (auto simp: deposits_ok_def)
    show "held ?dep' j = held (deposits_of s) j + (if j = k then m else 0)" for j
      using D dk d0 by (auto simp: deposits_ok_def held_upd split: option.splits)
  qed (use q r in simp_all)
  then show ?thesis by (intro kept_pools [OF assms(1)]) (simp_all add: s' put_pools_def put_portfolio_def deposits_of_def)
qed

lemma pool_withdraw_effect:
  assumes "withdraw_from_lending_pool e s a k m = Inr s'"
  obtains r p dep d where "nf_lending s = Some r" "lg_pools r k = Some p" "0 < m" "m \<le> lp_total_deposited p - lp_total_borrowed p"
    "nf_deposits s = Some dep" "dep (k, a) = Some d" "m \<le> ld_amount d"
    "s' = (put_pools (update_pool (p\<lparr>lp_total_deposited := lp_total_deposited p - m\<rparr>) r) s)
       \<lparr>nf_deposits := Some (if ld_amount d = m then dep((k, a) := None)
         else dep((k, a) \<mapsto> d\<lparr>ld_amount := ld_amount d - m, ld_shares := ld_shares d - m\<rparr>))\<rparr>"
  using assms by (auto simp: withdraw_from_lending_pool_def checked_def bindR_eq_Inr ensure_eq_Inr ok_or_eq_Inr
      i_checked_eq_Some i_sub_eq_Inr dest!: find_pool_effect)

lemma pool_withdraw_kept:
  assumes "lend_ok C s" and "withdraw_from_lending_pool e s a k m = Inr s'"
  shows "kept C s s'"
  using assms(2)
proof (rule pool_withdraw_effect)
  fix r p dep d assume r: "nf_lending s = Some r" "lg_pools r k = Some p" "0 < m" "m \<le> lp_total_deposited p - lp_total_borrowed p"
    and d: "nf_deposits s = Some dep" "dep (k, a) = Some d" "m \<le> ld_amount d"
    and s': "s' = (put_pools (update_pool (p\<lparr>lp_total_deposited := lp_total_deposited p - m\<rparr>) r) s)
       \<lparr>nf_deposits := Some (if ld_amount d = m then dep((k, a) := None)
         else dep((k, a) \<mapsto> d\<lparr>ld_amount := ld_amount d - m, ld_shares := ld_shares d - m\<rparr>))\<rparr>"
  let ?dep' = "if ld_amount d = m then dep((k, a) := None) else dep((k, a) \<mapsto> d\<lparr>ld_amount := ld_amount d - m, ld_shares := ld_shares d - m\<rparr>)"
  have P: "pools_ok C (nf_next_pool s) r dep" using assms(1) r(1) d(1) by (simp add: lend_ok_def deposits_of_def)
  then have D: "deposits_ok r dep" by (simp add: pools_ok_def)
  have dk: "ld_pool_id d = k" "ld_shares d = ld_amount d" using D d(2) by (auto simp: deposits_ok_def)
  have "pools_ok C (nf_next_pool s) (update_pool (p\<lparr>lp_total_deposited := lp_total_deposited p - m\<rparr>) r) ?dep'"
  proof (rule pools_ok_deposits [OF P r(2)])
    show "deposits_ok r ?dep'" using D dk d by (auto simp: deposits_ok_def)
    show "held ?dep' j = held dep j + (if j = k then - m else 0)" for j
      using D dk d by (auto simp: deposits_ok_def held_upd held_del)
  qed (use r in auto)
  then show ?thesis by (intro kept_pools [OF assms(1)]) (simp_all add: s' put_pools_def deposits_of_def)
qed

lemma borrow_effect:
  assumes "borrow_from_lending_pool X e s a pid c t m d = Inr (k, s')"
  obtains r p lender rate repay due where "nf_lending s = Some r" "lg_pools r pid = Some p" "0 < m"
    "m \<le> lp_total_deposited p - lp_total_borrowed p" "lo_collateral_loans (loans_of s) (c, t) = None" "m \<le> repay"
    "k = nf_next_loan s" "ext_pool_address X pid = Some lender"
    "s' = update_portfolio_on_loan_taken e (put_loans (snd (create_loan (pool_loan k a lender c t m rate repay (now e) d due) (loans_of s)))
       (put_pools (update_pool (p\<lparr>lp_total_borrowed := lp_total_borrowed p + m\<rparr>) r) (s\<lparr>nf_next_loan := Suc (nf_next_loan s)\<rparr>))) a"
  using assms by (auto simp: borrow_from_lending_pool_def get_next_loan_id_def get_loan_by_collateral_def Let_def checked_def bindR_eq_Inr
      ensure_eq_Inr ok_or_eq_Inr i_checked_eq_Some i_sub_eq_Inr u_add_eq_Inr put_pools_def dest!: find_pool_effect pool_repayment_ge)

lemma borrow_kept:
  assumes "lend_ok C s" and "borrow_from_lending_pool X e s a pid c t m d = Inr (k, s')"
  shows "kept C s s'"
  using assms(2)
proof (rule borrow_effect)
  fix r p lender rate repay due assume r: "nf_lending s = Some r" "lg_pools r pid = Some p" "m \<le> lp_total_deposited p - lp_total_borrowed p"
    and l: "0 < m" "lo_collateral_loans (loans_of s) (c, t) = None" "m \<le> repay" "k = nf_next_loan s"
    and s': "s' = update_portfolio_on_loan_taken e (put_loans (snd (create_loan (pool_loan k a lender c t m rate repay (now e) d due) (loans_of s)))
       (put_pools (update_pool (p\<lparr>lp_total_borrowed := lp_total_borrowed p + m\<rparr>) r) (s\<lparr>nf_next_loan := Suc (nf_next_loan s)\<rparr>))) a"
  let ?r' = "snd (create_loan (pool_loan k a lender c t m rate repay (now e) d due) (loans_of s))"
  have "loans_ok (Suc (nf_next_loan s)) ?r'"
    by (rule loans_ok_create) (use assms(1) l in \<open>simp_all add: lend_ok_def pool_loan_def\<close>)
  moreover have "pools_ok C (nf_next_pool s) (update_pool (p\<lparr>lp_total_borrowed := lp_total_borrowed p + m\<rparr>) r) (deposits_of s)"
    by (rule pools_ok_update [of C _ r _ pid p]) (use assms(1) r in \<open>auto simp: lend_ok_def pools_ok_def\<close>)
  moreover have "still_pledged (loans_of s) ?r'" by (simp add: still_pledged_def create_loan_def)
  ultimately show ?thesis by (simp add: kept_def lend_ok_def s' put_loans_def put_pools_def deposits_of_def)
qed

lemma pool_repaid_cases:
  assumes "pool_repaid X s l = Inr lending"
  obtains "lending = nf_lending s"
  | pid p where "get_pool (pools_of s) pid = Some p"
      "lending = Some (update_pool (p\<lparr>lp_total_borrowed := lp_total_borrowed p - ln_loan_amount l\<rparr>) (pools_of s))"
proof (cases "ext_pool_of X (ln_lender l)")
  case None
  with assms that(1) show thesis by (simp add: pool_repaid_def)
next
  case (Some pid)
  show thesis
  proof (cases "get_pool (pools_of s) pid")
    case None
    with assms Some that(1) show thesis by (simp add: pool_repaid_def)
  next
    case (Some p)
    with assms \<open>ext_pool_of X (ln_lender l) = Some pid\<close> that(2) [OF Some] show thesis
      by (simp add: pool_repaid_def checked_def bindR_eq_Inr ok_or_eq_Inr i_checked_eq_Some)
  qed
qed

lemma liquidate_under_effect:
  assumes "liquidate_undercollateralized_loan X e s a k = Inr s'"
  obtains r l r' nr lending where "can_liquidate_loan e s k = Inr True" "nf_loans s = Some r" "lo_loans r k = Some l" "mark_liquidated r k = Inr r'"
    "transfer_ownership (nfts_of s) (ln_collection_id l) (ln_token_id l) a = Inr nr" "pool_repaid X s l = Inr lending"
    "s' = count_seized_nft e (decrement_portfolio_loans_taken e ((put_nfts nr (put_loans r' s))\<lparr>nf_lending := lending\<rparr>) (ln_borrower l)) a"
  using assms by (auto simp: liquidate_undercollateralized_loan_def Let_def bindR_eq_Inr ensure_eq_Inr dest!: find_loan_effect)

lemma liquidate_under_kept:
  assumes "lend_ok C s" and "liquidate_undercollateralized_loan X e s a k = Inr s'"
  shows "kept C s s'"
  using assms(2)
proof (rule liquidate_under_effect)
  fix r l r' nr lending
  assume r: "nf_loans s = Some r" "lo_loans r k = Some l" "mark_liquidated r k = Inr r'"
    and p: "pool_repaid X s l = Inr lending"
    and s': "s' = count_seized_nft e (decrement_portfolio_loans_taken e ((put_nfts nr (put_loans r' s))\<lparr>nf_lending := lending\<rparr>) (ln_borrower l)) a"
  have m: "0 < ln_loan_amount l" using assms(1) r by (auto simp: lend_ok_def loans_ok_def loan_ok_def)
  have P: "pools_ok C (nf_next_pool s) (pools_of s) (deposits_of s)" using assms(1) by (simp add: lend_ok_def)
  have "pools_ok C (nf_next_pool s) (or_new lending lending_registry_new) (deposits_of s)"
    using p
  proof (cases rule: pool_repaid_cases)
    fix pid p assume p: "get_pool (pools_of s) pid = Some p" and l: "lending = Some (update_pool (p\<lparr>lp_total_borrowed := lp_total_borrowed p - ln_loan_amount l\<rparr>) (pools_of s))"
    have q: "lp_total_borrowed p \<le> lp_total_deposited p" "C \<longrightarrow> held (deposits_of s) pid \<le> lp_total_deposited p"
      using P p by (auto simp: pools_ok_def get_pool_def)
    show ?thesis unfolding l or_new_simps by (rule pools_ok_update [OF P, of pid p]) (use p q m in \<open>simp_all add: get_pool_def\<close>)
  qed (use P in simp)
  with assms(1) loans_ok_liquidated [OF _ r(3)] mark_liquidated_pledged [OF r(3)] show ?thesis
    by (simp add: kept_def lend_ok_def s' put_loans_def put_nfts_def deposits_of_def r(1))
qed

lemma repayable_effect: "repayable e l a m = Inr u \<Longrightarrow> ln_borrower l = a \<and> ln_is_active l \<and> \<not> ln_is_repaid l \<and> \<not> ln_is_liquidated l
    \<and> ln_repayment_amount l \<le> m"
  by (auto simp: repayable_def bindR_eq_Inr ensure_eq_Inr dest!: total_due_ge)

lemma repay_pool_effect:
  assumes "repay_lending_pool_loan e s a pid k m = Inr s'"
  obtains r l r' pr p where "nf_loans s = Some r" "lo_loans r k = Some l" "repayable e l a m = Inr ()" "mark_repaid r k = Inr r'"
    "nf_lending s = Some pr" "lg_pools pr pid = Some p"
    "s' = decrement_portfolio_loans_given e (decrement_portfolio_loans_taken e (put_pools (update_pool
       (p\<lparr>lp_total_borrowed := lp_total_borrowed p - ln_loan_amount l, lp_total_deposited := lp_total_deposited p + (m - ln_loan_amount l)\<rparr>) pr)
       (put_loans r' s)) a) (ln_lender l)"
  using assms by (auto simp: repay_lending_pool_loan_def Let_def checked_def bindR_eq_Inr ok_or_eq_Inr i_sub_eq_Inr
      i_checked_eq_Some dest!: find_loan_effect find_pool_effect)

lemma repay_pool_kept:
  assumes "lend_ok C s" and "repay_lending_pool_loan e s a pid k m = Inr s'" and "C \<longrightarrow> \<not> written_down s"
  shows "kept C s s'"
  using assms(2)
proof (rule repay_pool_effect)
  fix r l r' pr p
  assume r: "nf_loans s = Some r" "lo_loans r k = Some l" "repayable e l a m = Inr ()" "mark_repaid r k = Inr r'"
    and p: "nf_lending s = Some pr" "lg_pools pr pid = Some p"
    and s': "s' = decrement_portfolio_loans_given e (decrement_portfolio_loans_taken e (put_pools (update_pool
       (p\<lparr>lp_total_borrowed := lp_total_borrowed p - ln_loan_amount l, lp_total_deposited := lp_total_deposited p + (m - ln_loan_amount l)\<rparr>) pr)
       (put_loans r' s)) a) (ln_lender l)"
  let ?q = "p\<lparr>lp_total_borrowed := lp_total_borrowed p - ln_loan_amount l, lp_total_deposited := lp_total_deposited p + (m - ln_loan_amount l)\<rparr>"
  have L: "loan_ok (nf_next_loan s) r k l" using assms(1) r by (simp add: lend_ok_def loans_ok_def)
  have m: "0 < ln_loan_amount l" "0 \<le> m" using L repayable_effect [OF r(3)] by (auto simp: loan_ok_def)
  have full: "ln_loan_amount l \<le> m" if C
    using assms(3) that r(1,2) repayable_effect [OF r(3)] by (fastforce simp: written_down_def get_loan_def)
  have P: "pools_ok C (nf_next_pool s) pr (deposits_of s)" using assms(1) p(1) by (simp add: lend_ok_def)
  then have q: "lp_total_borrowed p \<le> lp_total_deposited p" "C \<longrightarrow> held (deposits_of s) pid \<le> lp_total_deposited p"
    using p(2) by (auto simp: pools_ok_def)
  have "pools_ok C (nf_next_pool s) (update_pool ?q pr) (deposits_of s)"
    by (rule pools_ok_update [OF P p(2)]) (use q m full in auto)
  with assms(1) loans_ok_repaid [OF _ r(4)] mark_repaid_pledged [OF r(4)] show ?thesis
    by (simp add: kept_def lend_ok_def s' put_loans_def put_pools_def deposits_of_def r(1))
qed

subsection \<open>Auctions\<close>

lemma seize_effect:
  assumes "seize X e s k l r w due = Inr s'"
  obtains nr where "transfer_ownership (nfts_of s) (ln_collection_id l) (ln_token_id l) w = Inr nr"
    "nf_loans s' = Some (update_loan (l\<lparr>ln_is_liquidated := True, ln_is_active := False\<rparr>) r)" "nf_nfts s' = Some nr"
    "nf_lending s' = nf_lending s" "nf_deposits s' = nf_deposits s" "nf_next_loan s' = nf_next_loan s" "nf_next_pool s' = nf_next_pool s"
  using assms by (auto simp: seize_def bindR_eq_Inr Let_def clear_liquidation_bid_def put_loans_def put_nfts_def)

text \<open>An auction liquidation halves the debt, or it seizes the token for the best bidder or the lender.\<close>

definition auction_winner :: "nft_state \<Rightarrow> nat \<Rightarrow> nft_loan \<Rightarrow> address" where
  "auction_winner s k l = (case get_best_liquidation_bid s k of Some (winner, _) \<Rightarrow> winner | None \<Rightarrow> ln_lender l)"

lemma auction_effect:
  assumes x: "execute_liquidation X e s k = Inr s'" and l: "get_loan (loans_of s) k = Some l" "0 \<le> ln_repayment_amount l"
  obtains (partial) r due where "nf_loans s = Some r" "lo_loans r k = Some l" "live l" "0 \<le> due"
      "total_due l (now e) = (Inr due :: (int, nft_error) res)" "s' = put_loans (update_loan (l\<lparr>ln_repayment_amount := due - due div 2\<rparr>) r) s"
  | (full) r due where "nf_loans s = Some r" "lo_loans r k = Some l" "live l" "total_due l (now e) = (Inr due :: (int, nft_error) res)"
      "seize X e s k l r (auction_winner s k l) due = Inr s'"
proof -
  from x l(1) obtain r due v ltv where r: "nf_loans s = Some r" "lo_loans r k = Some l" "live l"
    and due: "total_due l (now e) = (Inr due :: (int, nft_error) res)"
    and s': "(if ltv \<le> ext_partial_ltv X then
       bindR (i_mul due 5000) (\<lambda>x. bindR (i_div x 10000) (\<lambda>recovered.
       Inr (put_loans (update_loan (l\<lparr>ln_repayment_amount := i_sat_sub due recovered\<rparr>) r) s)))
     else (case get_best_liquidation_bid s k of
          Some (winner, _, _) \<Rightarrow> seize X e s k l r winner due
        | None \<Rightarrow> seize X e s k l r (ln_lender l) due)) = Inr s'"
    by (auto simp: execute_liquidation_def get_loan_def bindR_eq_Inr ensure_eq_Inr dest!: find_loan_effect)
  have d: "0 \<le> due" using total_due_ge [OF due] l(2) by simp
  show thesis
  proof (cases "ltv \<le> ext_partial_ltv X")
    case True
    with s' have ok: "i128_ok (due * 5000)" by (auto simp: bindR_eq_Inr i_mul_eq_Inr)
    have half: "due * 5000 div 10000 = due div 2" by simp
    have div: "i_div (due * 5000) 10000 = (Inr (due * 5000 div 10000) :: (int, nft_error) res)"
      by (rule i_div_nonneg) (use d ok in auto)
    have "i128_ok (due - due div 2)" by (rule i128_between [OF _ _ ok]) (use d in auto)
    then have "s' = put_loans (update_loan (l\<lparr>ln_repayment_amount := due - due div 2\<rparr>) r) s"
      using s' True ok by (simp add: i_mul_def i_check_def div [unfolded half] i_sat_sub_exact)
    then show thesis by (rule partial [OF r d due])
  next
    case False
    then have "seize X e s k l r (auction_winner s k l) due = Inr s'"
      using s' by (auto simp: auction_winner_def split: option.splits prod.splits)
    then show thesis by (rule full [OF r due])
  qed
qed

lemma auction_kept:
  assumes ok: "lend_ok C s" and x: "execute_liquidation X e s k = Inr s'"
  shows "kept C s s'"
proof -
  obtain l where l: "get_loan (loans_of s) k = Some l"
    using x by (auto simp: execute_liquidation_def bindR_eq_Inr get_loan_def dest!: find_loan_effect)
  have "0 \<le> ln_repayment_amount l" using ok l by (simp add: lend_ok_def loans_ok_def loan_ok_def get_loan_def)
  from x l this show ?thesis
  proof (cases rule: auction_effect)
    case (partial r due)
    have "loans_ok (nf_next_loan s) (update_loan (l\<lparr>ln_repayment_amount := due - due div 2\<rparr>) r)"
      by (rule loans_ok_update [OF _ partial(2)]) (use ok partial(1,4) in \<open>simp_all add: lend_ok_def\<close>)
    then show ?thesis by (intro kept_loans [OF ok]) (simp_all add: partial(1,6) put_loans_def still_pledged_def update_loan_def)
  next
    case (full r due)
    from full(5) show ?thesis
    proof (rule seize_effect)
      assume s': "nf_loans s' = Some (update_loan (l\<lparr>ln_is_liquidated := True, ln_is_active := False\<rparr>) r)"
        "nf_lending s' = nf_lending s" "nf_deposits s' = nf_deposits s" "nf_next_loan s' = nf_next_loan s" "nf_next_pool s' = nf_next_pool s"
      have "loans_ok (nf_next_loan s) (update_loan (l\<lparr>ln_is_liquidated := True, ln_is_active := False\<rparr>) r)"
        by (rule loans_ok_update [OF _ full(2)]) (use ok full(1) lend_loan [OF ok full(1,2)] in \<open>simp_all add: lend_ok_def loan_ok_def\<close>)
      then show ?thesis by (intro kept_loans [OF ok]) (simp_all add: s' full(1) still_pledged_def update_loan_def)
    qed
  qed
qed

lemma kept_trans: "kept C s u \<Longrightarrow> kept C u v \<Longrightarrow> kept C s v"
  unfolding kept_def still_pledged_def by blast

lemma kept_refl: "lend_ok C s \<Longrightarrow> kept C s s"
  by (simp add: kept_def still_pledged_def)

lemma process_queue_kept:
  "process_queue X e n ks s q c = Inr (s', q', c') \<Longrightarrow> lend_ok C s \<Longrightarrow> kept C s s'"
proof (induction ks arbitrary: s q c)
  case Nil then show ?case by (simp add: kept_refl)
next
  case (Cons k ks)
  show ?case
  proof (cases "c < n \<and> \<not> isl (execute_liquidation X e s k)")
    case True
    then obtain u where u: "execute_liquidation X e s k = Inr u" by (cases "execute_liquidation X e s k") auto
    note 1 = auction_kept [OF Cons.prems(2) u]
    have "process_queue X e n ks u q (u_sat_add 32 c 1) = Inr (s', q', c')" using Cons.prems(1) True u by simp
    from Cons.IH [OF this] 1 have "kept C u s'" by (simp add: kept_def)
    with 1 show ?thesis by (rule kept_trans)
  next
    case False
    then show ?thesis using Cons by (auto split: sum.splits fault.splits if_splits)
  qed
qed

lemma process_kept:
  assumes "lend_ok C s" and "process_liquidation_queue X e s n = Inr (c, s')"
  shows "kept C s s'"
proof -
  from assms(2) obtain u q where u: "process_queue X e n (nf_queue s) s [] 0 = Inr (u, q, c)" "s' = u\<lparr>nf_queue := q\<rparr>"
    by (auto simp: process_liquidation_queue_def bindR_eq_Inr)
  note 1 = process_queue_kept [OF u(1) assms(1)]
  then have "kept C u s'" by (intro kept_same) (simp_all add: kept_def u(2))
  with 1 show ?thesis by (rule kept_trans)
qed

lemma queue_kept:
  assumes "lend_ok C s"
  shows "enqueue_liquidation X e s k = Inr s' \<Longrightarrow> kept C s s'"
    and "place_liquidation_bid X e s k a m = Inr s' \<Longrightarrow> kept C s s'"
    and "monitor_and_queue_liquidations X e s = Inr (n, s') \<Longrightarrow> kept C s s'"
  by (auto simp: enqueue_liquidation_def place_liquidation_bid_def set_best_liquidation_bid_def monitor_and_queue_liquidations_def
      bindR_eq_Inr ensure_eq_Inr intro!: kept_same [OF assms])

lemma lend_exec_kept:
  assumes ok: "lend_ok C s" and c: "lend_exec X e s c = Inr s'" and w: "C \<longrightarrow> \<not> written_down s"
  shows "kept C s s'"
proof (cases c)
  case (Other_modules d)
  then show ?thesis using c by (intro kept_same [OF ok]) auto
qed (use ok c w in \<open>auto simp: bindR_eq_Inr intro: request_kept fund_kept repay_kept liquidate_kept loan_cancel_kept open_pool_kept
  deposit_kept pool_withdraw_kept borrow_kept liquidate_under_kept repay_pool_kept auction_kept process_kept queue_kept\<close>)

interpretation lend_machine: machine_invariant lend_init "lend_step X" "lend_ok False"
  by unfold_locales (auto elim!: lend_step.cases simp: lend_init_ok dest: lend_exec_kept simp: kept_def)

text \<open>Only an auction writes a loan down; every other call leaves the debt of a loan at its principal or above.\<close>

definition fair :: "loan_registry \<Rightarrow> bool" where
  "fair r \<longleftrightarrow> (\<forall>k l. lo_loans r k = Some l \<longrightarrow> ln_loan_amount l \<le> ln_repayment_amount l)"

lemma written_down_iff: "written_down s \<longleftrightarrow> \<not> fair (loans_of s)"
  by (auto simp: written_down_def fair_def get_loan_def not_le)

lemma fair_create: "fair r \<Longrightarrow> ln_loan_amount l \<le> ln_repayment_amount l \<Longrightarrow> fair (snd (create_loan l r))"
  by (auto simp: fair_def create_loan_def)

lemma fair_update: "fair r \<Longrightarrow> ln_loan_amount l \<le> ln_repayment_amount l \<Longrightarrow> fair (update_loan l r)"
  by (auto simp: fair_def update_loan_def)

lemma fair_repaid: "fair r \<Longrightarrow> mark_repaid r k = Inr r' \<Longrightarrow> fair r'"
  by (elim mark_repaid_effect) (auto simp: fair_def)

lemma fair_liquidated: "fair r \<Longrightarrow> mark_liquidated r k = Inr r' \<Longrightarrow> fair r'"
  by (elim mark_liquidated_effect) (auto simp: fair_def)

lemma fund_fair:
  assumes "fund_loan e s a k = Inr s'" and f: "fair (loans_of s)"
  shows "fair (loans_of s')"
  using assms(1)
proof (rule fund_loan_effect)
  fix r l i due assume r: "nf_loans s = Some r"
    and i: "funding_interest (ln_loan_amount l) (ln_interest_rate_bps l) (ln_duration l) = Inr i"
    and s': "s' = update_portfolio_on_loan_given e (update_portfolio_on_loan_taken e
       (put_loans (update_loan (funded l a (ln_loan_amount l + as_i128 i) (now e) due) r) s) (ln_borrower l)) a"
  have "0 \<le> as_i128 i" using funding_interest_effect(2) [OF i] by (simp add: as_i128_small)
  then show ?thesis using f r by (simp add: s' put_loans_def fair_update funded_def)
qed

fun is_auction :: "lend_call \<Rightarrow> bool" where
  "is_auction (Auction k) = True"
| "is_auction (Process n) = True"
| "is_auction c = False"

lemma fair_kept:
  assumes c: "lend_exec X e s c = Inr s'" and f: "fair (loans_of s)" and a: "\<not> is_auction c"
  shows "fair (loans_of s')"
proof (cases c)
  case (Request b x t m r d)
  with c f show ?thesis by (auto simp: request_loan_def get_next_loan_id_def bindR_eq_Inr ensure_eq_Inr u_add_eq_Inr put_loans_def loan_request_def
      intro!: fair_create)
next
  case (Fund b k) then show ?thesis using c f by (auto intro: fund_fair)
next
  case (Repay b k m) then show ?thesis using c f
    by (auto simp: repay_loan_def Let_def bindR_eq_Inr put_loans_def dest!: find_loan_effect intro: fair_repaid)
next
  case (Liquidate k)
  with c have "liquidate_loan X e s k = Inr s'" by simp
  then show ?thesis by (rule liquidate_loan_effect) (use f in \<open>auto simp: put_loans_def put_nfts_def intro: fair_liquidated\<close>)
next
  case (Cancel_request b k) then show ?thesis using c f by (auto simp: cancel_loan_request_def bindR_eq_Inr)
next
  case (Open_pool b x r d) then show ?thesis using c f
    by (auto simp: create_lending_pool_def get_next_pool_id_def Let_def bindR_eq_Inr u_add_eq_Inr put_pools_def)
next
  case (Deposit b k m)
  with c have "deposit_to_lending_pool e s b k m = Inr s'" by simp
  then show ?thesis by (rule pool_deposit_effect) (use f in \<open>simp add: put_pools_def\<close>)
next
  case (Withdraw b k m)
  with c have "withdraw_from_lending_pool e s b k m = Inr s'" by simp
  then show ?thesis by (rule pool_withdraw_effect) (use f in \<open>simp add: put_pools_def\<close>)
next
  case (Borrow b p x t m d)
  with c obtain k where "borrow_from_lending_pool X e s b p x t m d = Inr (k, s')" by (auto simp: bindR_eq_Inr)
  then show ?thesis by (rule borrow_effect) (use f in \<open>simp add: put_loans_def put_pools_def fair_create pool_loan_def\<close>)
next
  case (Liquidate_under b k)
  with c have "liquidate_undercollateralized_loan X e s b k = Inr s'" by simp
  then show ?thesis by (rule liquidate_under_effect) (use f in \<open>auto simp: put_loans_def put_nfts_def intro: fair_liquidated\<close>)
next
  case (Repay_pool b p k m)
  with c have "repay_lending_pool_loan e s b p k m = Inr s'" by simp
  then show ?thesis by (rule repay_pool_effect) (use f in \<open>auto simp: put_loans_def put_pools_def intro: fair_repaid\<close>)
qed (use c f a in \<open>auto simp: enqueue_liquidation_def place_liquidation_bid_def set_best_liquidation_bid_def monitor_and_queue_liquidations_def
      bindR_eq_Inr ensure_eq_Inr\<close>)

text \<open>As long as no auction wrote a loan down, the counters of deposits cover the depositors.\<close>

definition after_write_down :: "nft_ext \<Rightarrow> nft_state \<Rightarrow> bool" where
  "after_write_down X s \<longleftrightarrow> (\<exists>s0 s1 e c. reachable lend_init (lend_step X) s0 \<and> lend_exec X e s0 c = Inr s1 \<and> is_auction c
     \<and> \<not> written_down s0 \<and> written_down s1 \<and> (lend_step X)\<^sup>*\<^sup>* s1 s)"

lemma after_write_down_step: "after_write_down X s \<Longrightarrow> lend_step X s s' \<Longrightarrow> after_write_down X s'"
  unfolding after_write_down_def by (meson rtranclp.rtrancl_into_rtrancl)

lemma covered_or_written_down:
  assumes "reachable lend_init (lend_step X) s"
  shows "(lend_ok True s \<and> fair (loans_of s)) \<or> after_write_down X s"
  using assms
proof (induction rule: reachable.induct)
  case (reach_init s)
  then show ?case by (simp add: lend_init_ok) (simp add: lend_init_def fair_def loan_registry_new_def)
next
  case (reach_step s s')
  from reach_step(3) show ?case
  proof
    assume ok: "lend_ok True s \<and> fair (loans_of s)"
    from reach_step(2) obtain e c where c: "lend_exec X e s c = Inr s'" by (auto elim: lend_step.cases)
    have "lend_ok True s'" using lend_exec_kept [OF _ c] ok by (simp add: kept_def written_down_iff)
    moreover have "after_write_down X s'" if "\<not> fair (loans_of s')"
      using fair_kept [OF c] ok that reach_step(1) c unfolding after_write_down_def written_down_iff by blast
    ultimately show ?thesis by blast
  qed (use after_write_down_step reach_step(2) in blast)
qed

text \<open>
  A concrete storage for the witnesses: account 1 holds the tokens (1, 1) and (1, 2), the oracle prices every
  token at 1000, nobody is frozen, and everyone has authorised every call.
\<close>

definition demo_nft :: "nat \<Rightarrow> nft" where
  "demo_nft t = \<lparr>nft_collection_id = 1, nft_token_id = t, nft_owner = Addr 1, nft_standard = ERC721, nft_is_fractionalized = False,
     nft_total_supply = 1, nft_circulating_supply = 1, nft_metadata_uri = ''uri'', nft_created_at = 0\<rparr>"

definition demo_nft_state :: nft_state where
  "demo_nft_state = \<lparr>nf_nfts = Some (store_nft (demo_nft 2) (store_nft (demo_nft 1) nft_registry_new)), nf_collections = None,
     nf_listings = None, nf_offers = None, nf_loans = None, nf_portfolios = Map.empty, nf_trades = None, nf_valuations = None,
     nf_fractional = None, nf_vaults = None, nf_vault_shares = None, nf_lending = None, nf_deposits = None, nf_queue = [],
     nf_bids = Map.empty, nf_next_token = 3, nf_next_collection = 2, nf_next_listing = 1, nf_next_offer = 1, nf_next_loan = 1,
     nf_next_pool = 1, nf_next_vault = 1, nf_paused = False, nf_fee_bps = None, nf_fee_recipient = None, nf_frozen = (\<lambda>a. False),
     nf_oracle_price = (\<lambda>x. Some 1000)\<rparr>"

definition at_time :: "nat \<Rightarrow> env" where
  "at_time t = \<lparr>self_addr = Addr 0, now = t, authorized = (\<lambda>a. True)\<rparr>"

lemmas nft_eval = demo_nft_def demo_nft_state_def at_time_def require_auth_def market_open_def is_marketplace_paused_def
  not_frozen_def ensure_def get_nft_def store_nft_def nft_registry_new_def get_loan_by_collateral_def loan_registry_new_def
  entries_def push_def or_new_def u_add_def u_sat_add_def Let_def

end
