(* ===== verification/Nft_Lending_Props.thy ===== *)
theory Nft_Lending_Props
  imports Nft_Lending_Inv
begin

text \<open>
  Properties of lending against NFTs. Collateral is exclusive, and is never given back; the counters of a pool
  cover its deposits until an auction writes a loan down; a fresh pool loan cannot be liquidated. The interest
  of a loan between accounts is divided by its precision twice, a repaid loan can be funded again, and a
  repayment is booked to whichever pool it names.
\<close>

section \<open>Helpers\<close>

abbreviation lend_reachable :: "nft_ext \<Rightarrow> nft_state \<Rightarrow> bool" where
  "lend_reachable X \<equiv> reachable lend_init (lend_step X)"




lemma transfer_owner: "transfer_ownership r c t a = Inr r' \<Longrightarrow> \<exists>n. get_nft r' c t = Some n \<and> nft_owner n = a"
  by (auto simp: transfer_ownership_def get_nft_def bindR_eq_Inr)

section \<open>Properties\<close>


text \<open>
  C34: a pool's counter of borrowed amounts never exceeds its counter of deposits, whatever is lent, repaid or
  liquidated; every recorded deposit is positive, with as many shares as its amount. The counter of deposits
  covers the sum of the amounts recorded for the pool's depositors, unless an auction earlier wrote a loan down
  below its principal, which no loan was before. The counters are what the pool keeps, not what its loans still owe: a repayment is
  booked to the pool it names.
\<close>

theorem pool_covers_deposits:
  assumes run: "lend_reachable X s" and p: "get_pool (pools_of s) k = Some p"
  shows "lp_total_borrowed p \<le> lp_total_deposited p
     \<and> (\<forall>a d. deposits_of s (k, a) = Some d \<longrightarrow> 0 < ld_amount d \<and> ld_amount d \<le> held (deposits_of s) k \<and> ld_shares d = ld_amount d)
     \<and> (held (deposits_of s) k \<le> lp_total_deposited p
        \<or> (\<exists>s0 s1 e c. lend_reachable X s0 \<and> lend_exec X e s0 c = Inr s1 \<and> is_auction c
             \<and> \<not> written_down s0 \<and> written_down s1 \<and> (lend_step X)\<^sup>*\<^sup>* s1 s))"
proof -
  have P: "pools_ok False (nf_next_pool s) (pools_of s) (deposits_of s)"
    using lend_machine.inv_reachable [OF run] by (simp add: lend_ok_def)
  then have D: "deposits_ok (pools_of s) (deposits_of s)" by (simp add: pools_ok_def)
  have "ld_amount d \<le> held (deposits_of s) k" if "deposits_of s (k, a) = Some d" for a d
  proof -
    have fin: "finite (dom (deposits_of s))" using D by (simp add: deposits_ok_def)
    have "0 \<le> (if ld_pool_id d' = k then ld_amount d' else 0)" if "deposits_of s x = Some d'" for x d'
      using D that by (cases x) (fastforce simp: deposits_ok_def)
    then have "(if ld_pool_id d = k then ld_amount d else 0) \<le> held (deposits_of s) k"
      unfolding held_def by (intro map_total_ge_member [OF fin that]) blast
    then show ?thesis using D that by (auto simp: deposits_ok_def)
  qed
  moreover have "held (deposits_of s) k \<le> lp_total_deposited p \<or> after_write_down X s"
    using covered_or_written_down [OF run] p by (auto simp: lend_ok_def pools_ok_def get_pool_def)
  ultimately show ?thesis using P D p unfolding after_write_down_def
    by (simp add: pools_ok_def deposits_ok_def get_pool_def)
qed

text \<open>
  A funded loan between accounts bears the sum of its daily interest divided once more by the precision of
  10^18, so no interest at all while that sum stays below the precision.
\<close>

theorem funding_bears_no_interest:
  assumes "lend_reachable X s" and "fund_loan e s a k = Inr s'" and "get_loan (loans_of s) k = Some l"
  defines "interest \<equiv> nat (ln_loan_amount l) * ln_interest_rate_bps l div 10000 * (ln_duration l div 86400)"
  shows "\<exists>l'. get_loan (loans_of s') k = Some l' \<and> ln_is_active l' \<and> ln_lender l' = a
     \<and> ln_repayment_amount l' = ln_loan_amount l + int (interest div 10 ^ 18)
     \<and> (interest < 10 ^ 18 \<longrightarrow> ln_repayment_amount l' = ln_loan_amount l)"
  using assms(2)
proof (rule fund_loan_effect)
  fix r l0 i due assume r: "nf_loans s = Some r" "lo_loans r k = Some l0"
    and i: "funding_interest (ln_loan_amount l0) (ln_interest_rate_bps l0) (ln_duration l0) = Inr i"
    and ok: "i128_ok (ln_loan_amount l0 + as_i128 i)"
    and s': "s' = update_portfolio_on_loan_given e (update_portfolio_on_loan_taken e
       (put_loans (update_loan (funded l0 a (ln_loan_amount l0 + as_i128 i) (now e) due) r) s) (ln_borrower l0)) a"
  have l: "l0 = l" using r assms(3) by (simp add: get_loan_def)
  have L: "loan_ok (nf_next_loan s) r k l"
    using lend_machine.inv_reachable [OF assms(1)] r l by (simp add: lend_ok_def loans_ok_def)
  have ai: "as_i128 i = int i" using funding_interest_effect(2) [OF i] by (rule as_i128_small)
  have "i128_ok (ln_loan_amount l)" by (rule i128_between [OF _ _ ok]) (use L ai l in \<open>simp_all add: loan_ok_def\<close>)
  then have "as_u128 (ln_loan_amount l) = nat (ln_loan_amount l)" using L by (intro as_u128_nonneg) (simp_all add: loan_ok_def)
  with funding_interest_effect(1) [OF i] l have "i = interest div 10 ^ 18" by (simp add: interest_def INTEREST_PRECISION_def)
  with ai L show ?thesis
    by (intro exI [of _ "funded l a (ln_loan_amount l + as_i128 i) (now e) due"])
      (simp add: s' l put_loans_def get_loan_def update_loan_def funded_def loan_ok_def as_i128_def)
qed

text \<open>
  A loan that was repaid or liquidated can be funded once more; it is active then, and can neither be
  repaid nor liquidated in any way.
\<close>

theorem closed_loan_is_funded_again:
  assumes "lend_reachable X s" and "fund_loan e s a k = Inr s'" and "get_loan (loans_of s) k = Some l"
    and "ln_is_repaid l \<or> ln_is_liquidated l"
  shows "\<exists>l'. get_loan (loans_of s') k = Some l' \<and> ln_is_active l' \<and> (\<forall>e' b m pid u. repay_loan e' s' b k m \<noteq> Inr u
     \<and> repay_lending_pool_loan e' s' b pid k m \<noteq> Inr u \<and> liquidate_loan X e' s' k \<noteq> Inr u
     \<and> liquidate_undercollateralized_loan X e' s' b k \<noteq> Inr u \<and> execute_liquidation X e' s' k \<noteq> Inr u)"
  using assms(2)
proof (rule fund_loan_effect)
  fix r l0 i due assume r: "nf_loans s = Some r" "lo_loans r k = Some l0"
    and s': "s' = update_portfolio_on_loan_given e (update_portfolio_on_loan_taken e
       (put_loans (update_loan (funded l0 a (ln_loan_amount l0 + as_i128 i) (now e) due) r) s) (ln_borrower l0)) a"
  let ?l = "funded l a (ln_loan_amount l + as_i128 i) (now e) due"
  have l: "l0 = l" using r assms(3) by (simp add: get_loan_def)
  have k: "ln_loan_id l = k" using lend_machine.inv_reachable [OF assms(1)] r l by (simp add: lend_ok_def loans_ok_def loan_ok_def)
  have g: "nf_loans s' = Some (update_loan ?l r)" and gl: "lo_loans (update_loan ?l r) k = Some ?l"
    using k by (simp_all add: s' l put_loans_def update_loan_def funded_def)
  have f: "find_loan s' k = Inr (update_loan ?l r, ?l)" using g gl by (simp add: find_loan_def get_loan_def)
  have c: "ln_is_repaid ?l \<or> ln_is_liquidated ?l" using assms(4) by (simp add: funded_def)
  have n: "repayable e' ?l b m \<noteq> Inr ()" for e' b m using c by (auto dest: repayable_effect)
  have "repay_loan e' s' b k m \<noteq> Inr u" "repay_lending_pool_loan e' s' b pid k m \<noteq> Inr u" "liquidate_loan X e' s' k \<noteq> Inr u"
    "liquidate_undercollateralized_loan X e' s' b k \<noteq> Inr u" "execute_liquidation X e' s' k \<noteq> Inr u" for e' b m pid u
    using f c n by (auto simp: repay_loan_def repay_lending_pool_loan_def liquidate_loan_def liquidate_undercollateralized_loan_def
        can_liquidate_loan_def execute_liquidation_def live_def bindR_eq_Inr ensure_eq_Inr)
  with g gl show ?thesis by (intro exI [of _ ?l]) (auto simp: get_loan_def funded_def)
qed

text \<open>A loan taken from a pool cannot be liquidated at the time and the price it was taken.\<close>

theorem fresh_pool_loan_is_covered:
  assumes "borrow_from_lending_pool X e s a pid c t m d = Inr (k, s')"
  shows "can_liquidate_loan e s' k \<noteq> Inr True \<and> liquidate_undercollateralized_loan X e s' b k \<noteq> Inr u"
proof -
  from assms obtain price limit rate repayment r p lender due where price: "get_nft_price_from_oracle s c t = Inr price" "max_loan price = Inr limit" "m \<le> limit" "0 < m"
    and due: "due = now e + d"
    and s': "s' = update_portfolio_on_loan_taken e (put_loans (snd (create_loan (pool_loan k a lender c t m rate repayment (now e) d due) (loans_of s)))
       (put_pools (update_pool p r) (s\<lparr>nf_next_loan := Suc (nf_next_loan s)\<rparr>))) a"
    by (auto simp: borrow_from_lending_pool_def get_next_loan_id_def Let_def checked_def bindR_eq_Inr
      ensure_eq_Inr ok_or_eq_Inr u_add_eq_Inr put_pools_def)
  define P where "P = as_u128 price"
  from price(2) have limit: "limit = int (P * 6000 div 10000)" and P: "P * 6000 < 2 ^ 128"
    by (auto simp: max_loan_def MAX_LTV_BPS_def bindR_eq_Inr u_mul_eq_Inr P_def as_i128_small)
  have m: "as_u128 m = nat m" using price(3,4) limit P by (intro as_u128_nonneg) (auto simp: i128_ok_def I128_MAX_def I128_MIN_def)
  have ratio: "150 \<le> P * 100 div nat m"
  proof -
    have "nat m \<le> P * 6000 div 10000" using price(3) limit by simp
    then have "nat m * 150 \<le> P * 100" by linarith
    then show ?thesis using price(4) by (simp add: less_eq_div_iff_mult_less_eq)
  qed
  have l: "nf_loans s' = Some (snd (create_loan (pool_loan k a lender c t m rate repayment (now e) d due) (loans_of s)))"
    "nf_valuations s' = nf_valuations s" "nf_oracle_price s' = nf_oracle_price s"
    by (simp_all add: s' put_loans_def put_pools_def update_portfolio_on_loan_taken_def put_portfolio_def Let_def)
  have f: "find_loan s' k = Inr (the (nf_loans s'), pool_loan k a lender c t m rate repayment (now e) d due)"
    by (simp add: find_loan_def get_loan_def l(1) create_loan_def) (simp add: pool_loan_def)
  have pr: "get_nft_price_from_oracle s' c t = Inr price" using price(1) by (auto simp: get_nft_price_from_oracle_def l split: option.splits)
  have "can_liquidate_loan e s' k \<noteq> Inr True"
    using ratio m pr unfolding can_liquidate_loan_def f P_def
    by (auto simp: pool_loan_def bindR_eq_Inr u_mul_eq_Inr u_div_eq_Inr u_add_eq_Inr due LIQUIDATION_COLLATERALIZATION_RATIO_MIN_def
        LIQUIDATION_GRACE_PERIOD_def)
  moreover from this have "liquidate_undercollateralized_loan X e s' b k \<noteq> Inr u" by (auto elim: liquidate_under_effect)
  ultimately show ?thesis ..
qed

text \<open>
  An auction liquidation has one of two outcomes. A full one closes the loan and gives the token to the best
  bidder, or to the lender when nobody bid; a partial one leaves token and principal alone and halves what the
  borrower has to repay, although nobody pays the other half.
\<close>

theorem liquidation_outcomes:
  assumes "execute_liquidation X e s k = Inr s'" and "get_loan (loans_of s) k = Some l" and "ln_loan_id l = k"
    and "0 \<le> ln_repayment_amount l"
  shows "\<exists>l' due. get_loan (loans_of s') k = Some l' \<and> total_due l (now e) = (Inr due :: (int, nft_error) res) \<and>
     (if live l' then nf_nfts s' = nf_nfts s \<and> ln_loan_amount l' = ln_loan_amount l \<and> ln_repayment_amount l' = due - due div 2
      else ln_is_liquidated l' \<and> (\<exists>n. get_nft (nfts_of s') (ln_collection_id l) (ln_token_id l) = Some n
        \<and> nft_owner n = (case get_best_liquidation_bid s k of Some (winner, _) \<Rightarrow> winner | None \<Rightarrow> ln_lender l)))"
  using assms(1,2,4)
proof (cases rule: auction_effect)
  case (partial r due)
  then show ?thesis using assms(3)
    by (intro exI [of _ "l\<lparr>ln_repayment_amount := due - due div 2\<rparr>"] exI [of _ due])
      (simp add: put_loans_def update_loan_def get_loan_def live_def)
next
  case (full r due)
  from full(5) show ?thesis
  proof (rule seize_effect)
    fix nr assume t: "transfer_ownership (nfts_of s) (ln_collection_id l) (ln_token_id l) (auction_winner s k l) = Inr nr"
      and u: "nf_loans s' = Some (update_loan (l\<lparr>ln_is_liquidated := True, ln_is_active := False\<rparr>) r)" "nf_nfts s' = Some nr"
    from transfer_owner [OF t] obtain n where "get_nft nr (ln_collection_id l) (ln_token_id l) = Some n" "nft_owner n = auction_winner s k l"
      by blast
    with u full(4) assms(3) show ?thesis unfolding auction_winner_def [symmetric]
      by (intro exI [of _ "l\<lparr>ln_is_liquidated := True, ln_is_active := False\<rparr>"] exI [of _ due])
        (simp add: update_loan_def get_loan_def live_def)
  qed
qed

text \<open>
  While a pool has lent no more than its deposits, its rate is the base rate plus one point per 80 of
  utilisation up to 8000, and one point per 4 beyond; so at most 600 above the base rate.
\<close>

theorem dynamic_rate_is_two_lines:
  assumes "0 \<le> lp_total_borrowed p" and "lp_total_borrowed p \<le> lp_total_deposited p" and "lp_total_deposited p * 10000 < 2 ^ 127"
    and "lp_base_rate_bps p + 600 < 2 ^ 32"
  defines "u \<equiv> nat (lp_total_borrowed p * 10000 div lp_total_deposited p)"
  shows "calculate_dynamic_interest_rate p = Inr (lp_base_rate_bps p + (if u \<le> 8000 then u div 80 else 100 + (u - 8000) div 4))
     \<and> u \<le> 10000"
proof (cases "lp_total_deposited p = 0")
  case True
  then show ?thesis by (simp add: calculate_dynamic_interest_rate_def u_def)
next
  case False
  then have pos: "0 < lp_total_deposited p" using assms(1,2) by simp
  have b: "as_u128 (lp_total_borrowed p) = nat (lp_total_borrowed p)" "as_u128 (lp_total_deposited p) = nat (lp_total_deposited p)"
    using assms(1-3) by (intro as_u128_nonneg; simp add: i128_ok_def I128_MAX_def I128_MIN_def)+
  have "lp_total_borrowed p * 10000 div lp_total_deposited p \<le> 10000"
    using zdiv_mono1 [OF mult_right_mono [OF assms(2), of 10000] pos] pos by simp
  then have u: "u \<le> 10000" by (simp add: u_def)
  have div: "nat (lp_total_borrowed p) * 10000 div nat (lp_total_deposited p) = u"
    using assms(1) pos by (simp add: u_def nat_div_distrib nat_mult_distrib)
  have mul: "nat (lp_total_borrowed p) * 10000 < 2 ^ 128" using assms(1-3) by (simp add: nat_less_iff flip: nat_mult_distrib)
  show ?thesis using False u mul assms(4)
    by (auto simp: calculate_dynamic_interest_rate_def b div Let_def as_u32_def u_mul_def u_add_def OPTIMAL_UTILIZATION_RATE_BPS_def
        RATE_SLOPE_1_BPS_def RATE_SLOPE_2_BPS_def)
qed

text \<open>The oracle symbols of different tokens coincide, so they share one price.\<close>

theorem oracle_symbols_collide:
  "nft_symbol 1 11 = nft_symbol 11 1 \<and> (1 :: nat, 11 :: nat) \<noteq> (11, 1)"
  by (simp add: nft_symbol_def decimal.simps)

section \<open>Runs\<close>

text \<open>
  A concrete outside world: \<open>get_nft\<close> reads the registry, a token is worth 1000, and no pool number is the
  text of an address, as on the ledger, where \<open>Address::from_string\<close> panics on a decimal number. The results
  about pool loans, which no call can take out then, are tried in a second world where pool \<open>n\<close> has the address
  \<open>1000 + n\<close>.
\<close>

definition demo_ext :: nft_ext where
  "demo_ext = \<lparr>ext_get_nft = (\<lambda>s c t. get_nft (nfts_of s) c t), ext_add_nft = (\<lambda>p c t. p),
     ext_pool_address = (\<lambda>n. None), ext_pool_of = (\<lambda>a. None),
     ext_collateral_value = (\<lambda>s c t. Inr 1000), ext_trigger_ltv = 6667, ext_partial_ltv = 8000, ext_penalty_bps = 500,
     ext_protocol_fee_bps = 100\<rparr>"

definition pool_ext :: nft_ext where
  "pool_ext = demo_ext\<lparr>ext_pool_address := (\<lambda>n. Some (Addr (1000 + n))),
     ext_pool_of := (\<lambda>a. if 1000 < addr_no a then Some (addr_no a - 1000) else None)\<rparr>"

fun lend_run :: "nft_ext \<Rightarrow> nft_state \<Rightarrow> (nat \<times> lend_call) list \<Rightarrow> (nft_state, nft_error) res" where
  "lend_run X s [] = Inr s"
| "lend_run X s ((t, c) # cs) = bindR (lend_exec X (at_time t) s c) (\<lambda>s. lend_run X s cs)"

lemma lend_run_reachable: "lend_run X s cs = Inr s' \<Longrightarrow> lend_reachable X s \<Longrightarrow> lend_reachable X s'"
proof (induction cs arbitrary: s)
  case (Cons x cs)
  obtain t c where x: "x = (t, c)" by (cases x)
  with Cons.prems(1) obtain u where u: "lend_exec X (at_time t) s c = Inr u" "lend_run X u cs = Inr s'" by (auto simp: bindR_eq_Inr)
  have "lend_reachable X u" by (rule reach_step [OF Cons.prems(2) lend_step.intros [OF u(1)]])
  from Cons.IH [OF u(2) this] show ?case .
qed simp

lemma demo_lend_reachable:
  assumes "\<not> isl (lend_run X demo_nft_state cs)"
  shows "lend_reachable X (projr (lend_run X demo_nft_state cs))"
proof (rule lend_run_reachable)
  show "lend_run X demo_nft_state cs = Inr (projr (lend_run X demo_nft_state cs))" using assms by (cases "lend_run X demo_nft_state cs") auto
  show "lend_reachable X demo_nft_state" by (rule reach_init) (simp add: lend_init_def demo_nft_state_def)
qed

lemmas lend_eval = nft_eval demo_ext_def pool_ext_def request_loan_def
  actively_listed_def get_token_listings_def listing_registry_new_def get_next_loan_id_def put_loans_def create_loan_def
  loan_request_def fund_loan_def find_loan_def get_loan_def funding_interest_def checked_def update_loan_def funded_def
  portfolio_defs portfolio_of_def nft_portfolio_new_def repay_loan_def repayable_def total_due_def mark_repaid_def put_pools_def
  create_lending_pool_def get_next_pool_id_def create_pool_def lending_registry_new_def deposit_to_lending_pool_def find_pool_def
  get_pool_def update_pool_def deposit_of_def as_u64_def borrow_from_lending_pool_def find_nft_def get_nft_price_from_oracle_def
  get_valuation_def valuation_registry_new_def symbol_new_def nft_symbol_def decimal.simps max_loan_def calculate_dynamic_interest_rate_def
  pool_repayment_def pool_loan_def repay_lending_pool_loan_def deposits_of_def
  MIN_LOAN_DURATION_def MAX_LOAN_DURATION_def MAX_INTEREST_RATE_BPS_def INTEREST_PRECISION_def MAX_LTV_BPS_def
  OPTIMAL_UTILIZATION_RATE_BPS_def RATE_SLOPE_1_BPS_def RATE_SLOPE_2_BPS_def
  u_add_def u_sat_add_def u_mul_def u_div_def u_checked_mul_def i_checked_def i_sub_def i_check_def i_mul_def i_add_def as_u128_def as_i128_def
  i128_ok_def I128_MAX_def I128_MIN_def as_u32_def push_def or_new_def Let_def

text \<open>One account requests a loan of 500 for ten days and another funds it; then it is repaid.\<close>

definition demo_requested :: nft_state where
  "demo_requested = projr (lend_run demo_ext demo_nft_state [(10, Request (Addr 1) 1 1 500 10 864000)])"

definition demo_repaid :: nft_state where
  "demo_repaid = projr (lend_run demo_ext demo_nft_state [(10, Request (Addr 1) 1 1 500 10 864000), (20, Fund (Addr 2) 1), (30, Repay (Addr 1) 1 500)])"

lemma demo_requested_reachable: "lend_reachable demo_ext demo_requested"
  unfolding demo_requested_def by (rule demo_lend_reachable) (simp add: lend_eval)

lemma demo_repaid_reachable: "lend_reachable demo_ext demo_repaid"
  unfolding demo_repaid_def by (rule demo_lend_reachable) (simp add: lend_eval)

text \<open>Two pools; where pools have addresses, a loan of 400 is taken from the first.\<close>

definition demo_borrowed :: nft_state where
  "demo_borrowed = projr (lend_run pool_ext demo_nft_state [(10, Open_pool (Addr 9) ''USDC'' 0 50), (11, Open_pool (Addr 9) ''USDC'' 0 50),
     (12, Deposit (Addr 3) 1 1000), (13, Borrow (Addr 1) 1 1 1 400 864000)])"

lemma demo_borrowed_reachable: "lend_reachable pool_ext demo_borrowed"
  unfolding demo_borrowed_def by (rule demo_lend_reachable) (simp add: lend_eval)

text \<open>
  A repayment is booked to the pool its caller names, not to the pool that lent: repaying the loan of the
  first pool to the second leaves the first with a debt nobody owes and the second with a negative one.
\<close>

theorem repayment_to_the_wrong_pool:
  "\<exists>s. lend_reachable pool_ext demo_borrowed \<and> repay_lending_pool_loan (at_time 20) demo_borrowed (Addr 1) 2 1 420 = Inr s
     \<and> map_option ln_is_repaid (get_loan (loans_of s) 1) = Some True
     \<and> map_option lp_total_borrowed (get_pool (pools_of s) 1) = Some 400
     \<and> map_option lp_total_borrowed (get_pool (pools_of s) 2) = Some (- 400)"
proof -
  let ?r = "repay_lending_pool_loan (at_time 20) demo_borrowed (Addr 1) 2 1 420"
  have "\<not> isl ?r" by (simp add: demo_borrowed_def lend_eval)
  then have r: "?r = Inr (projr ?r)" by (cases ?r) auto
  have "map_option ln_is_repaid (get_loan (loans_of (projr ?r)) 1) = Some True"
    "map_option lp_total_borrowed (get_pool (pools_of (projr ?r)) 1) = Some 400"
    "map_option lp_total_borrowed (get_pool (pools_of (projr ?r)) 2) = Some (- 400)"
    by (simp_all add: demo_borrowed_def lend_eval)
  with r demo_borrowed_reachable show ?thesis by blast
qed

text \<open>
  Two accounts lend 700 to each other against a token worth 1000; an auction halves the debt, and the borrower
  repays the half to a pool that lent nothing. Its counter of deposits falls below what its depositor holds.
\<close>

definition demo_halved :: nft_state where
  "demo_halved = projr (lend_run demo_ext demo_nft_state [(10, Open_pool (Addr 9) ''USDC'' 0 50), (12, Deposit (Addr 3) 1 1000),
     (13, Request (Addr 1) 1 1 700 10 864000), (20, Fund (Addr 2) 1), (30, Auction 1), (40, Repay_pool (Addr 1) 1 1 350)])"

lemmas auction_eval = execute_liquidation_def live_def i_sat_mul_def i_sat_sub_def i_clamp_def i_div_def cast_u32_def

lemma demo_halved_reachable: "lend_reachable demo_ext demo_halved"
  unfolding demo_halved_def by (rule demo_lend_reachable) (simp add: lend_eval auction_eval)

theorem halved_loan_costs_depositors:
  "\<exists>s p d. lend_reachable demo_ext s \<and> get_pool (pools_of s) 1 = Some p \<and> deposits_of s (1, Addr 3) = Some d
     \<and> lp_total_deposited p = 650 \<and> ld_amount d = 1000"
proof -
  have "map_option lp_total_deposited (get_pool (pools_of demo_halved) 1) = Some 650"
    "map_option ld_amount (deposits_of demo_halved (1, Addr 3)) = Some 1000"
    by (simp_all add: demo_halved_def lend_eval auction_eval)
  then show ?thesis using demo_halved_reachable by auto
qed

section \<open>Witnesses\<close>

lemma demo_repaid_loan:
  obtains l where "get_loan (loans_of demo_repaid) 1 = Some l" and "ln_collection_id l = 1" "ln_token_id l = 1" "ln_is_repaid l"
proof -
  have "map_option (\<lambda>l. (ln_collection_id l, ln_token_id l, ln_is_repaid l)) (get_loan (loans_of demo_repaid) 1) = Some (1, 1, True)"
    by (simp add: demo_repaid_def lend_eval)
  with that show thesis by auto
qed







text \<open>Two depositors, one of whom withdraws a part; and a loan between accounts that nobody wrote down.\<close>

definition demo_pooled :: nft_state where
  "demo_pooled = projr (lend_run demo_ext demo_nft_state [(10, Open_pool (Addr 9) ''USDC'' 0 50), (12, Deposit (Addr 3) 1 1000),
     (13, Deposit (Addr 4) 1 500), (14, Withdraw (Addr 3) 1 300)])"

lemma demo_pooled_reachable: "lend_reachable demo_ext demo_pooled"
  unfolding demo_pooled_def by (rule demo_lend_reachable) (simp add: lend_eval withdraw_from_lending_pool_def)

theorem pool_covers_deposits_witness:
  "\<exists>p d. get_pool (pools_of demo_pooled) 1 = Some p \<and> lp_total_deposited p = 1200 \<and> deposits_of demo_pooled (1, Addr 3) = Some d
     \<and> ld_amount d = 700 \<and> lp_total_borrowed p \<le> 1200 \<and> 700 \<le> held (deposits_of demo_pooled) 1"
proof -
  have "map_option lp_total_deposited (get_pool (pools_of demo_pooled) 1) = Some 1200"
    "map_option ld_amount (deposits_of demo_pooled (1, Addr 3)) = Some 700"
    by (simp_all add: demo_pooled_def lend_eval withdraw_from_lending_pool_def)
  then obtain p d where p: "get_pool (pools_of demo_pooled) 1 = Some p" "lp_total_deposited p = 1200"
    "deposits_of demo_pooled (1, Addr 3) = Some d" "ld_amount d = 700" by auto
  from pool_covers_deposits [OF demo_pooled_reachable p(1)] p(2)
  have "lp_total_borrowed p \<le> 1200" and "ld_amount d \<le> held (deposits_of demo_pooled) 1" using p(3) by metis+
  with p show ?thesis by auto
qed

text \<open>Ten days at 10 basis points a day on 50000 units cost nothing.\<close>

definition demo_big :: nft_state where
  "demo_big = projr (lend_run demo_ext demo_nft_state [(10, Request (Addr 1) 1 1 50000 10 864000)])"

lemma demo_big_reachable: "lend_reachable demo_ext demo_big"
  unfolding demo_big_def by (rule demo_lend_reachable) (simp add: lend_eval)

theorem funding_bears_no_interest_witness:
  "\<exists>s l. fund_loan (at_time 20) demo_big (Addr 2) 1 = Inr s \<and> get_loan (loans_of s) 1 = Some l \<and> ln_repayment_amount l = 50000"
proof -
  let ?r = "fund_loan (at_time 20) demo_big (Addr 2) 1"
  have "\<not> isl ?r" by (simp add: demo_big_def lend_eval)
  then obtain s where s: "?r = Inr s" by (cases ?r) auto
  have "map_option (\<lambda>l. (ln_loan_amount l, ln_interest_rate_bps l, ln_duration l)) (get_loan (loans_of demo_big) 1) = Some (50000, 10, 864000)"
    by (simp add: demo_big_def lend_eval)
  then obtain l where l: "get_loan (loans_of demo_big) 1 = Some l" "ln_loan_amount l = 50000" "ln_interest_rate_bps l = 10" "ln_duration l = 864000" by auto
  from funding_bears_no_interest [OF demo_big_reachable s l(1)] l s show ?thesis by auto
qed

theorem closed_loan_is_funded_again_witness:
  "\<exists>s l. fund_loan (at_time 40) demo_repaid (Addr 2) 1 = Inr s \<and> get_loan (loans_of s) 1 = Some l \<and> ln_is_active l
     \<and> (\<forall>t m u. repay_loan (at_time t) s (Addr 1) 1 m \<noteq> Inr u)"
proof -
  let ?r = "fund_loan (at_time 40) demo_repaid (Addr 2) 1"
  have "\<not> isl ?r" by (simp add: demo_repaid_def lend_eval)
  then obtain s where s: "?r = Inr s" by (cases ?r) auto
  obtain l where l: "get_loan (loans_of demo_repaid) 1 = Some l" "ln_is_repaid l" by (rule demo_repaid_loan)
  from closed_loan_is_funded_again [OF demo_repaid_reachable s l(1)] l s show ?thesis by blast
qed

theorem fresh_pool_loan_is_covered_witness:
  "\<exists>k s. borrow_from_lending_pool pool_ext (at_time 14) demo_borrowed (Addr 1) 1 1 2 600 864000 = Inr (k, s)
     \<and> can_liquidate_loan (at_time 14) s k \<noteq> Inr True"
proof -
  let ?r = "borrow_from_lending_pool pool_ext (at_time 14) demo_borrowed (Addr 1) 1 1 2 600 864000"
  have "\<not> isl ?r" by (simp add: demo_borrowed_def lend_eval)
  then obtain k s where s: "?r = Inr (k, s)" by (cases ?r) auto
  from fresh_pool_loan_is_covered [OF s] s show ?thesis by blast
qed

theorem dynamic_rate_is_two_lines_witness:
  "calculate_dynamic_interest_rate \<lparr>lp_pool_id = 1, lp_asset = ''USDC'', lp_total_deposited = 1000, lp_total_borrowed = 900,
     lp_reserve_factor_bps = 0, lp_base_rate_bps = 50, lp_is_active = True, lp_created_at = 0\<rparr> = Inr 400"
  using dynamic_rate_is_two_lines [of "\<lparr>lp_pool_id = 1, lp_asset = ''USDC'', lp_total_deposited = 1000, lp_total_borrowed = 900,
     lp_reserve_factor_bps = 0, lp_base_rate_bps = 50, lp_is_active = True, lp_created_at = 0\<rparr>"] by simp

text \<open>A debt of 700 against a token worth 1000: anyone may halve it, and the loan goes on.\<close>

definition demo_thin :: nft_state where
  "demo_thin = projr (lend_run demo_ext demo_nft_state [(10, Request (Addr 1) 1 1 700 10 864000), (20, Fund (Addr 2) 1)])"

theorem liquidation_outcomes_witness:
  "\<exists>s l. execute_liquidation demo_ext (at_time 30) demo_thin 1 = Inr s \<and> get_loan (loans_of s) 1 = Some l \<and> live l
     \<and> ln_loan_amount l = 700 \<and> ln_repayment_amount l = 350"
proof -
  let ?r = "execute_liquidation demo_ext (at_time 30) demo_thin 1"
  have "\<not> isl ?r" by (simp add: demo_thin_def lend_eval execute_liquidation_def live_def i_sat_mul_def i_clamp_def i_div_def cast_u32_def)
  then obtain s where s: "?r = Inr s" by (cases ?r) auto
  have "map_option live (get_loan (loans_of (projr ?r)) 1) = Some True"
    by (simp add: demo_thin_def lend_eval execute_liquidation_def live_def i_sat_mul_def i_clamp_def i_div_def cast_u32_def)
  then have live: "map_option live (get_loan (loans_of s) 1) = Some True" using s by simp
  have "map_option (\<lambda>l. (ln_loan_id l, ln_loan_amount l, ln_repayment_amount l, total_due l 30 = (Inr 700 :: (int, nft_error) res)))
    (get_loan (loans_of demo_thin) 1) = Some (1, 700, 700, True)" by (simp add: demo_thin_def lend_eval)
  then obtain l where l: "get_loan (loans_of demo_thin) 1 = Some l" "ln_loan_id l = 1" "ln_loan_amount l = 700" "ln_repayment_amount l = 700"
    "total_due l 30 = (Inr 700 :: (int, nft_error) res)" by auto
  have "now (at_time 30) = 30" by (simp add: at_time_def)
  from liquidation_outcomes [OF s l(1,2)] l this live s show ?thesis by fastforce
qed

end
