(* ===== verification/Nft_Fractional.thy ===== *)
theory Nft_Fractional
  imports Nft_Lending
begin

text \<open>
  Fractional ownership of NFTs (\<open>counter/src/nft_fractional.rs\<close>): splitting a token into shares, buying,
  selling and transferring shares, joining the token again, and the vaults with their own shares. The
  constants of the vaults are not defined in the repository and are the parameter \<open>vault_consts\<close>.
\<close>

section \<open>Shares\<close>

definition MAX_SHARES :: nat where
  "MAX_SHARES = 1000000"

definition MIN_SHARES :: nat where
  "MIN_SHARES = 2"

definition put_fractions :: "fractional_registry \<Rightarrow> nft_state \<Rightarrow> nft_state" where
  "put_fractions r s = s\<lparr>nf_fractional := Some r\<rparr>"

definition new_share :: "env \<Rightarrow> nat \<Rightarrow> nat \<Rightarrow> address \<Rightarrow> nat \<Rightarrow> nat \<Rightarrow> int \<Rightarrow> fractional_share" where
  "new_share e c t a n total_n price = \<lparr>fs_token_id = t, fs_collection_id = c, fs_shareholder = a, fs_shares = n,
     fs_total_shares = total_n, fs_purchase_price = price, fs_acquired_at = now e\<rparr>"

definition fractionalize_nft :: "env \<Rightarrow> nft_state \<Rightarrow> address \<Rightarrow> nat \<Rightarrow> nat \<Rightarrow> nat \<Rightarrow> int \<Rightarrow> (nft_state, nft_error) res" where
  "fractionalize_nft e s owner c t total_shares price =
     bindR (require_auth e owner) (\<lambda>_.
     bindR (market_open s) (\<lambda>_.
     bindR (not_frozen s owner) (\<lambda>_.
     bindR (ensure (MIN_SHARES \<le> total_shares \<and> total_shares \<le> MAX_SHARES) (Err FractionalizationLimit)) (\<lambda>_.
     bindR (ensure (0 < price) (Err InvalidPrice)) (\<lambda>_.
     bindR (find_nft s c t) (\<lambda>(nr, n).
     bindR (ensure (nft_owner n = owner) (Err NotOwner)) (\<lambda>_.
     bindR (ensure (\<not> nft_is_fractionalized n) (Err AlreadyFractionalized)) (\<lambda>_.
     bindR (ensure (nft_standard n = ERC721) (Err UnsupportedOperation)) (\<lambda>_.
     bindR (ensure (get_loan_by_collateral (loans_of s) c t = None) (Err AlreadyCollateralized)) (\<lambda>_.
     Inr (put_fractions (set_shares c t owner (new_share e c t owner total_shares total_shares price) (fractions_of s))
       (put_nfts (update_nft (n\<lparr>nft_is_fractionalized := True, nft_total_supply := total_shares, nft_circulating_supply := 0\<rparr>) nr) s))))))))))))"

definition buy_fractional_shares :: "env \<Rightarrow> nft_state \<Rightarrow> address \<Rightarrow> nat \<Rightarrow> nat \<Rightarrow> nat \<Rightarrow> int \<Rightarrow> (nft_state, nft_error) res" where
  "buy_fractional_shares e s buyer c t k price =
     bindR (require_auth e buyer) (\<lambda>_.
     bindR (market_open s) (\<lambda>_.
     bindR (not_frozen s buyer) (\<lambda>_.
     bindR (ensure (k \<noteq> 0) (Err InvalidShareAmount)) (\<lambda>_.
     bindR (find_nft s c t) (\<lambda>(nr, n).
     bindR (ensure (nft_is_fractionalized n) (Err NotFractionalized)) (\<lambda>_.
     bindR (ensure (k \<le> nft_total_supply n - nft_circulating_supply n) (Err NoFractionsAvailable)) (\<lambda>_.
     let sh = or_new (get_shares (fractions_of s) c t buyer) (new_share e c t buyer 0 (nft_total_supply n) price);
         sh = sh\<lparr>fs_shares := u_sat_add 64 (fs_shares sh) k, fs_purchase_price := price, fs_acquired_at := now e\<rparr>
     in Inr (put_fractions (set_shares c t buyer sh (fractions_of s))
       (put_nfts (update_nft (n\<lparr>nft_circulating_supply := u_sat_add 64 (nft_circulating_supply n) k\<rparr>) nr) s)))))))))"

text \<open>What is left of a share: a holder with none is removed.\<close>

definition reduce_shares :: "nat \<Rightarrow> nat \<Rightarrow> address \<Rightarrow> fractional_share \<Rightarrow> nat \<Rightarrow> fractional_registry \<Rightarrow> fractional_registry" where
  "reduce_shares c t a sh k r = (let sh' = sh\<lparr>fs_shares := fs_shares sh - k\<rparr> in
     if fs_shares sh' = 0 then remove_shareholder c t a r else set_shares c t a sh' r)"

definition sell_fractional_shares :: "env \<Rightarrow> nft_state \<Rightarrow> address \<Rightarrow> nat \<Rightarrow> nat \<Rightarrow> nat \<Rightarrow> int \<Rightarrow> (nft_state, nft_error) res" where
  "sell_fractional_shares e s seller c t k price =
     bindR (require_auth e seller) (\<lambda>_.
     bindR (market_open s) (\<lambda>_.
     bindR (ensure (k \<noteq> 0) (Err InvalidShareAmount)) (\<lambda>_.
     bindR (ok_or (nf_fractional s) (Err NotFractionalized)) (\<lambda>r.
     bindR (ok_or (get_shares r c t seller) (Err InsufficientBalance)) (\<lambda>sh.
     bindR (ensure (k \<le> fs_shares sh) (Err InsufficientBalance)) (\<lambda>_.
     bindR (ok_or (get_nft (nfts_of s) c t) (Err NFTNotFound)) (\<lambda>n.
     Inr (put_fractions (reduce_shares c t seller sh k r)
       (put_nfts (update_nft (n\<lparr>nft_circulating_supply := nft_circulating_supply n - k\<rparr>) (nfts_of s)) s)))))))))"

definition transfer_fractional_shares :: "env \<Rightarrow> nft_state \<Rightarrow> address \<Rightarrow> address \<Rightarrow> nat \<Rightarrow> nat \<Rightarrow> nat \<Rightarrow> (nft_state, nft_error) res" where
  "transfer_fractional_shares e s src dst c t k =
     bindR (require_auth e src) (\<lambda>_.
     bindR (market_open s) (\<lambda>_.
     bindR (not_frozen s src) (\<lambda>_.
     bindR (ensure (k \<noteq> 0) (Err InvalidShareAmount)) (\<lambda>_.
     bindR (ensure (src \<noteq> dst) (Err SelfDealing)) (\<lambda>_.
     bindR (find_nft s c t) (\<lambda>(nr, n).
     bindR (ensure (nft_is_fractionalized n) (Err NotFractionalized)) (\<lambda>_.
     bindR (ok_or (nf_fractional s) (Err NotFractionalized)) (\<lambda>r.
     bindR (ok_or (get_shares r c t src) (Err InsufficientBalance)) (\<lambda>sh.
     bindR (ensure (k \<le> fs_shares sh) (Err InsufficientBalance)) (\<lambda>_.
     let r = reduce_shares c t src sh k r;
         to = or_new (get_shares r c t dst) (new_share e c t dst 0 (nft_total_supply n) 0)
     in Inr (put_fractions (set_shares c t dst (to\<lparr>fs_shares := u_sat_add 64 (fs_shares to) k, fs_acquired_at := now e\<rparr>) r) s)))))))))))"

definition defractionalize_nft :: "env \<Rightarrow> nft_state \<Rightarrow> address \<Rightarrow> nat \<Rightarrow> nat \<Rightarrow> (nft_state, nft_error) res" where
  "defractionalize_nft e s owner c t =
     bindR (require_auth e owner) (\<lambda>_.
     bindR (market_open s) (\<lambda>_.
     bindR (find_nft s c t) (\<lambda>(nr, n).
     bindR (ensure (nft_is_fractionalized n) (Err NotFractionalized)) (\<lambda>_.
     bindR (ok_or (nf_fractional s) (Err NotFractionalized)) (\<lambda>r.
     bindR (ok_or (get_shares r c t owner) (Err InsufficientBalance)) (\<lambda>sh.
     bindR (ensure (fs_shares sh = nft_total_supply n) (Err InsufficientBalance)) (\<lambda>_.
     Inr (put_fractions (fold (\<lambda>a r. remove_shareholder c t a r) (get_shareholders r c t) r)
       (put_nfts (update_nft (n\<lparr>nft_is_fractionalized := False, nft_total_supply := 1, nft_circulating_supply := 1\<rparr>) nr) s)))))))))"

section \<open>Queries\<close>

definition get_fractional_shares :: "nft_state \<Rightarrow> nat \<Rightarrow> nat \<Rightarrow> address \<Rightarrow> fractional_share option" where
  "get_fractional_shares s c t a = get_shares (fractions_of s) c t a"

definition nft_shareholders :: "nft_state \<Rightarrow> nat \<Rightarrow> nat \<Rightarrow> address list" where
  "nft_shareholders s c t = get_shareholders (fractions_of s) c t"

definition get_total_shares :: "nft_state \<Rightarrow> nat \<Rightarrow> nat \<Rightarrow> nat" where
  "get_total_shares s c t = (case get_nft (nfts_of s) c t of Some n \<Rightarrow> if nft_is_fractionalized n then nft_total_supply n else 0 | None \<Rightarrow> 0)"

definition get_circulating_shares :: "nft_state \<Rightarrow> nat \<Rightarrow> nat \<Rightarrow> nat" where
  "get_circulating_shares s c t = (case get_nft (nfts_of s) c t of Some n \<Rightarrow> nft_circulating_supply n | None \<Rightarrow> 0)"

definition is_fractionalized :: "nft_state \<Rightarrow> nat \<Rightarrow> nat \<Rightarrow> bool" where
  "is_fractionalized s c t = (case get_nft (nfts_of s) c t of Some n \<Rightarrow> nft_is_fractionalized n | None \<Rightarrow> False)"

definition get_ownership_percentage :: "nft_state \<Rightarrow> nat \<Rightarrow> nat \<Rightarrow> address \<Rightarrow> nat" where
  "get_ownership_percentage s c t a =
     (case (get_shares (fractions_of s) c t a, get_nft (nfts_of s) c t) of
        (Some sh, Some n) \<Rightarrow> if nft_total_supply n = 0 then 0 else as_u32 (fs_shares sh * 10000 div nft_total_supply n)
      | _ \<Rightarrow> 0)"

section \<open>Vaults\<close>

record vault_consts =
  vc_min_mint :: nat
  vc_withdrawal_delay :: nat
  vc_max_fee_bps :: nat

definition put_vaults :: "vault_registry \<Rightarrow> nft_state \<Rightarrow> nft_state" where
  "put_vaults r s = s\<lparr>nf_vaults := Some r\<rparr>"

definition find_vault :: "nft_state \<Rightarrow> nat \<Rightarrow> (vault_registry \<times> fractional_vault, nft_error) res" where
  "find_vault s k =
     bindR (ok_or (nf_vaults s) (Err VaultNotFound)) (\<lambda>r.
     bindR (ok_or (get_vault r k) (Err VaultNotFound)) (\<lambda>v. Inr (r, v)))"

definition vault_shares_of :: "nft_state \<Rightarrow> nat \<times> address \<rightharpoonup> vault_share" where
  "vault_shares_of s = or_new (nf_vault_shares s) Map.empty"

definition mint_vault_shares :: "vault_consts \<Rightarrow> env \<Rightarrow> nft_state \<Rightarrow> address \<Rightarrow> nat \<Rightarrow> nat \<Rightarrow> (nft_state, nft_error) res" where
  "mint_vault_shares V e s recipient k shares =
     bindR (ensure (vc_min_mint V \<le> shares) (Err InvalidAmount)) (\<lambda>_.
     bindR (find_vault s k) (\<lambda>(vr, v).
     bindR (ensure (vt_is_active v) (Err MarketplacePaused)) (\<lambda>_.
     bindR (u_add 64 (vt_share_supply v) shares) (\<lambda>supply.
     bindR (ensure (supply \<le> vt_total_shares v) (Err InsufficientShares)) (\<lambda>_.
     let sh = or_new (vault_shares_of s (k, recipient)) \<lparr>vs_vault_id = k, vs_owner = recipient, vs_shares = 0, vs_last_deposit = now e\<rparr> in
     bindR (u_add 64 (vs_shares sh) shares) (\<lambda>mine.
     bindR (ok_or (get_nft (nfts_of s) (vt_collection_id v) (vt_token_id v)) (Err NFTNotFound)) (\<lambda>n.
     bindR (u_add 64 (nft_circulating_supply n) shares) (\<lambda>circulating.
     let pf = portfolio_of e s recipient in
     bindR (u_add 64 (np_total_fractional_shares pf) shares) (\<lambda>held_shares.
     let s = put_vaults (update_vault (v\<lparr>vt_share_supply := supply\<rparr>) vr) s;
         s = s\<lparr>nf_vault_shares := Some ((vault_shares_of s)((k, recipient) \<mapsto> sh\<lparr>vs_shares := mine, vs_last_deposit := now e\<rparr>))\<rparr>;
         s = put_nfts (update_nft (n\<lparr>nft_circulating_supply := circulating\<rparr>) (nfts_of s)) s
     in Inr (put_portfolio recipient (pf\<lparr>np_total_fractional_shares := held_shares\<rparr>) s))))))))))"

definition new_vault :: "env \<Rightarrow> nat \<Rightarrow> nat \<Rightarrow> nat \<Rightarrow> string \<Rightarrow> string \<Rightarrow> nat \<Rightarrow> int \<Rightarrow> address \<Rightarrow> fractional_vault" where
  "new_vault e k c t asset share_symbol total_shares price owner = \<lparr>vt_vault_id = k, vt_collection_id = c, vt_token_id = t,
     vt_asset = asset, vt_share_symbol = share_symbol, vt_total_shares = total_shares, vt_total_assets = price, vt_share_supply = 0,
     vt_created_at = now e, vt_owner = owner, vt_is_active = True\<rparr>"

definition create_fractional_vault :: "vault_consts \<Rightarrow> env \<Rightarrow> nft_state \<Rightarrow> address \<Rightarrow> nat \<Rightarrow> nat \<Rightarrow> nat \<Rightarrow> string
    \<Rightarrow> (nat \<times> nft_state, nft_error) res" where
  "create_fractional_vault V e s owner c t total_shares share_symbol =
     bindR (require_auth e owner) (\<lambda>_.
     bindR (market_open s) (\<lambda>_.
     bindR (not_frozen s owner) (\<lambda>_.
     bindR (ensure (MIN_SHARES \<le> total_shares \<and> total_shares \<le> MAX_SHARES) (Err FractionalizationLimit)) (\<lambda>_.
     bindR (find_nft s c t) (\<lambda>(nr, n).
     bindR (ensure (nft_owner n = owner) (Err NotOwner)) (\<lambda>_.
     bindR (ensure (\<not> nft_is_fractionalized n) (Err AlreadyFractionalized)) (\<lambda>_.
     bindR (ensure (get_loan_by_collateral (loans_of s) c t = None) (Err AlreadyCollateralized)) (\<lambda>_.
     bindR (get_next_vault_id s) (\<lambda>(k, s).
     bindR (get_nft_price_from_oracle s c t) (\<lambda>price.
     bindR (symbol_new (nft_symbol c t)) (\<lambda>asset.
     let s = put_vaults (snd (create_vault (new_vault e k c t asset share_symbol total_shares price owner) (vaults_of s))) s;
         s = put_nfts (update_nft (n\<lparr>nft_is_fractionalized := True, nft_total_supply := total_shares, nft_circulating_supply := 0\<rparr>) nr) s
     in bindR (mint_vault_shares V e s owner k total_shares) (\<lambda>s. Inr (k, s)))))))))))))"

text \<open>The last step of a withdrawal by the vault's owner: the token is whole again and the vault closed.\<close>

definition close_vault :: "nft_state \<Rightarrow> address \<Rightarrow> vault_registry \<Rightarrow> fractional_vault \<Rightarrow> (nft_state, nft_error) res" where
  "close_vault s owner vr v =
     bindR (ok_or (nf_nfts s) Trap) (\<lambda>nr.
     bindR (ok_or (get_nft nr (vt_collection_id v) (vt_token_id v)) Trap) (\<lambda>n.
     Inr (put_vaults (update_vault (v\<lparr>vt_is_active := False\<rparr>) vr)
       (put_nfts (update_nft (n\<lparr>nft_is_fractionalized := False, nft_total_supply := 1, nft_circulating_supply := 1, nft_owner := owner\<rparr>) nr) s))))"

text \<open>What burning writes, and the bookkeeping a withdrawal ends with.\<close>

definition fee_of :: "vault_consts \<Rightarrow> nat \<Rightarrow> nat" where
  "fee_of V shares = (shares * vc_max_fee_bps V div 10000) mod 2 ^ 64"

definition burned :: "nft_state \<Rightarrow> (nat \<times> address \<rightharpoonup> vault_share) \<Rightarrow> vault_share \<Rightarrow> nat \<Rightarrow> address \<Rightarrow> nat \<Rightarrow> vault_registry \<Rightarrow> nft_state" where
  "burned s vs sh k owner shares vr = (put_vaults vr s)\<lparr>nf_vault_shares := Some
     (if vs_shares sh = shares then vs((k, owner) := None) else vs((k, owner) \<mapsto> sh\<lparr>vs_shares := vs_shares sh - shares\<rparr>))\<rparr>"

definition settle_withdrawal :: "nft_state \<Rightarrow> address \<Rightarrow> fractional_vault \<Rightarrow> nat \<Rightarrow> nat \<Rightarrow> (nft_state, nft_error) res" where
  "settle_withdrawal s owner v actual_withdrawal shares =
     bindR (ok_or (nf_nfts s) Trap) (\<lambda>nr.
     bindR (ok_or (get_nft nr (vt_collection_id v) (vt_token_id v)) Trap) (\<lambda>n.
     bindR (u_sub (nft_circulating_supply n) actual_withdrawal) (\<lambda>circulating.
     bindR (ok_or (nf_portfolios s owner) Trap) (\<lambda>pf.
     bindR (u_sub (np_total_fractional_shares pf) shares) (\<lambda>held_shares.
     Inr (put_portfolio owner (pf\<lparr>np_total_fractional_shares := held_shares\<rparr>)
       (put_nfts (update_nft (n\<lparr>nft_circulating_supply := circulating\<rparr>) nr) s)))))))"

definition withdraw_vault_shares :: "vault_consts \<Rightarrow> env \<Rightarrow> nft_state \<Rightarrow> address \<Rightarrow> nat \<Rightarrow> nat \<Rightarrow> (nft_state, nft_error) res" where
  "withdraw_vault_shares V e s owner k shares =
     bindR (require_auth e owner) (\<lambda>_.
     bindR (ensure (shares \<noteq> 0) (Err InvalidAmount)) (\<lambda>_.
     bindR (ok_or (nf_vault_shares s) (Err InsufficientBalance)) (\<lambda>vs.
     bindR (ok_or (vs (k, owner)) (Err InsufficientBalance)) (\<lambda>sh.
     bindR (ensure (shares \<le> vs_shares sh) (Err InsufficientBalance)) (\<lambda>_.
     bindR (if 0 < vc_withdrawal_delay V then
         bindR (u_add 64 (vs_last_deposit sh) (vc_withdrawal_delay V)) (\<lambda>t. ensure (t \<le> now e) (Err WithdrawalTooEarly)) else Inr ()) (\<lambda>_.
     bindR (find_vault s k) (\<lambda>(vr, v).
     bindR (u_sub shares (fee_of V shares)) (\<lambda>actual_withdrawal.
     bindR (u_sub (vt_share_supply v) shares) (\<lambda>supply.
     let v = v\<lparr>vt_share_supply := supply\<rparr>; vr = update_vault v vr; s = burned s vs sh k owner shares vr
     in bindR (if vt_share_supply v = 0 \<and> vt_owner v = owner then close_vault s owner vr v else Inr s) (\<lambda>s.
     settle_withdrawal s owner v actual_withdrawal shares))))))))))"

definition convert_to_assets :: "nft_state \<Rightarrow> nat \<Rightarrow> nat \<Rightarrow> (int, nft_error) res" where
  "convert_to_assets s k shares =
     bindR (find_vault s k) (\<lambda>(vr, v).
     if vt_total_shares v = 0 then Inr 0
     else bindR (u_mul 128 (as_u128 (vt_total_assets v)) shares) (\<lambda>x. Inr (as_i128 (x div vt_total_shares v))))"

definition convert_to_shares :: "nft_state \<Rightarrow> nat \<Rightarrow> int \<Rightarrow> (nat, nft_error) res" where
  "convert_to_shares s k assets =
     bindR (find_vault s k) (\<lambda>(vr, v).
     if vt_total_assets v = 0 then Inr 0
     else bindR (u_mul 128 (vt_total_shares v) (as_u128 assets)) (\<lambda>x. Inr (x div as_u128 (vt_total_assets v) mod 2 ^ 64)))"

definition balance_of :: "nft_state \<Rightarrow> nat \<Rightarrow> address \<Rightarrow> nat" where
  "balance_of s k a = (case vault_shares_of s (k, a) of Some sh \<Rightarrow> vs_shares sh | None \<Rightarrow> 0)"

definition total_supply :: "nft_state \<Rightarrow> nat \<Rightarrow> (nat, nft_error) res" where
  "total_supply s k = bindR (find_vault s k) (\<lambda>(vr, v). Inr (vt_share_supply v))"

definition vault_by_nft :: "nft_state \<Rightarrow> nat \<Rightarrow> nat \<Rightarrow> fractional_vault option" where
  "vault_by_nft s c t = get_vault_by_nft (vaults_of s) c t"

end
