(* ===== verification/Nft_Fractional_Props.thy ===== *)
theory Nft_Fractional_Props
  imports Nft_Fractional Nft_Lending_Inv
begin

text \<open>
  Properties of fractional ownership. The abstract view of the share registry is the function \<open>holding\<close>, which
  every operation changes at the accounts it names only. The shareholder index is exact; but shares are bought on
  top of the owner's, who keeps them all, so holdings may add up to twice the supply and the owner may join the
  token over the heads of the buyers. Vault shares add up to the vault's supply; the owner of a vault cannot
  redeem the last of them.
\<close>

section \<open>Holdings\<close>

definition holding :: "fractional_registry \<Rightarrow> nat \<Rightarrow> nat \<Rightarrow> address \<Rightarrow> nat" where
  "holding r c t a = (case get_shares r c t a of Some sh \<Rightarrow> fs_shares sh | None \<Rightarrow> 0)"

definition held_shares :: "fractional_registry \<Rightarrow> nat \<Rightarrow> nat \<Rightarrow> nat" where
  "held_shares r c t = sum_list (map (holding r c t) (get_shareholders r c t))"

definition index_ok :: "fractional_registry \<Rightarrow> bool" where
  "index_ok r \<longleftrightarrow> (\<forall>c t. distinct (get_shareholders r c t) \<and> (\<forall>a. a \<in> set (get_shareholders r c t) \<longleftrightarrow> get_shares r c t a \<noteq> None))"

lemma index_ok_iff: "index_ok r \<Longrightarrow> a \<in> set (get_shareholders r c t) \<longleftrightarrow> get_shares r c t a \<noteq> None"
  by (simp add: index_ok_def)

lemma held_sum: "index_ok r \<Longrightarrow> held_shares r c t = (\<Sum>a\<in>set (get_shareholders r c t). holding r c t a)"
  by (simp add: held_shares_def index_ok_def sum_list_distinct_conv_sum_set)

lemma get_shares_set [simp]: "get_shares (set_shares c t a sh r) c' t' a' = (if (c', t', a') = (c, t, a) then Some sh else get_shares r c' t' a')"
  by (auto simp: set_shares_def get_shares_def Let_def)

lemma shareholders_set [simp]: "get_shareholders (set_shares c t a sh r) c' t' =
    (if (c', t') = (c, t) \<and> a \<notin> set (get_shareholders r c t) then get_shareholders r c t @ [a] else get_shareholders r c' t')"
  by (auto simp: set_shares_def get_shareholders_def entries_def push_def Let_def)

lemma get_shares_remove [simp]: "get_shares (remove_shareholder c t a r) c' t' a' = (if (c', t', a') = (c, t, a) then None else get_shares r c' t' a')"
  by (auto simp: remove_shareholder_def get_shares_def)

lemma shareholders_remove [simp]: "get_shareholders (remove_shareholder c t a r) c' t' =
    (if (c', t') = (c, t) then filter (\<lambda>x. x \<noteq> a) (get_shareholders r c t) else get_shareholders r c' t')"
  by (auto simp: remove_shareholder_def get_shareholders_def entries_def drop_key_def)

lemma index_ok_set: "index_ok r \<Longrightarrow> index_ok (set_shares c t a sh r)"
  by (auto simp: index_ok_def)

lemma index_ok_remove: "index_ok r \<Longrightarrow> index_ok (remove_shareholder c t a r)"
  by (auto simp: index_ok_def)

lemma holding_set: "holding (set_shares c t a sh r) c' t' a' = (if (c', t', a') = (c, t, a) then fs_shares sh else holding r c' t' a')"
  by (simp add: holding_def)

lemma holding_remove: "holding (remove_shareholder c t a r) c' t' a' = (if (c', t', a') = (c, t, a) then 0 else holding r c' t' a')"
  by (simp add: holding_def)

lemma holding_none: "index_ok r \<Longrightarrow> a \<notin> set (get_shareholders r c t) \<Longrightarrow> holding r c t a = 0"
  by (simp add: holding_def index_ok_def)

lemma held_by_holding:
  assumes "index_ok r" and "index_ok r'" and "\<And>x. x \<noteq> a \<Longrightarrow> holding r' c t x = holding r c t x"
  shows "held_shares r' c t + holding r c t a = held_shares r c t + holding r' c t a"
proof -
  let ?S = "insert a (set (get_shareholders r c t) \<union> set (get_shareholders r' c t))"
  have s: "held_shares q c t = (\<Sum>x\<in>?S. holding q c t x)" if "index_ok q" "q = r \<or> q = r'" for q
    unfolding held_sum [OF that(1)] by (rule sum.mono_neutral_left) (use that holding_none [OF that(1)] in auto)
  have "(\<Sum>x\<in>?S. holding q c t x) = holding q c t a + (\<Sum>x\<in>?S - {a}. holding q c t x)" for q by (rule sum.remove) auto
  moreover have "(\<Sum>x\<in>?S - {a}. holding r' c t x) = (\<Sum>x\<in>?S - {a}. holding r c t x)" by (rule sum.cong) (use assms(3) in auto)
  ultimately show ?thesis using s assms(1,2) by simp
qed

lemma held_same: "index_ok r \<Longrightarrow> index_ok r' \<Longrightarrow> (\<And>x. holding r' c t x = holding r c t x) \<Longrightarrow> held_shares r' c t = held_shares r c t"
  using held_by_holding [of r r' undefined c t] by simp

lemma holding_le_held: "index_ok r \<Longrightarrow> holding r c t a \<le> held_shares r c t"
  by (cases "a \<in> set (get_shareholders r c t)") (auto simp: held_sum holding_none intro: member_le_sum)

lemma holding_reduce: "fs_shares sh = holding r c t a \<Longrightarrow> holding (reduce_shares c t a sh k r) c' t' a'
    = (if (c', t', a') = (c, t, a) then holding r c t a - k else holding r c' t' a')"
  by (auto simp: reduce_shares_def Let_def holding_set holding_remove)

lemma index_ok_reduce: "index_ok r \<Longrightarrow> index_ok (reduce_shares c t a sh k r)"
  by (simp add: reduce_shares_def Let_def index_ok_set index_ok_remove)

lemma remove_all:
  "get_shares (fold (\<lambda>a r. remove_shareholder c t a r) as r) c' t' a' = (if (c', t') = (c, t) \<and> a' \<in> set as then None else get_shares r c' t' a')"
  by (induction as arbitrary: r) auto

lemma index_ok_remove_all: "index_ok r \<Longrightarrow> index_ok (fold (\<lambda>a r. remove_shareholder c t a r) as r)"
  by (induction as arbitrary: r) (simp_all add: index_ok_remove)

section \<open>The machine of shares\<close>

datatype frac_call = Split address nat nat nat int | Buy address nat nat nat int | Sell address nat nat nat int
  | Transfer address address nat nat nat | Join address nat nat

fun frac_exec :: "env \<Rightarrow> nft_state \<Rightarrow> frac_call \<Rightarrow> (nft_state, nft_error) res" where
  "frac_exec e s (Split a c t n p) = fractionalize_nft e s a c t n p"
| "frac_exec e s (Buy a c t n p) = buy_fractional_shares e s a c t n p"
| "frac_exec e s (Sell a c t n p) = sell_fractional_shares e s a c t n p"
| "frac_exec e s (Transfer a b c t n) = transfer_fractional_shares e s a b c t n"
| "frac_exec e s (Join a c t) = defractionalize_nft e s a c t"

definition frac_init :: "nft_state \<Rightarrow> bool" where
  "frac_init s \<longleftrightarrow> nf_fractional s = None
     \<and> (\<forall>c t n. get_nft (nfts_of s) c t = Some n \<longrightarrow> nft_collection_id n = c \<and> nft_token_id n = t \<and> \<not> nft_is_fractionalized n)"

inductive frac_step :: "nft_state \<Rightarrow> nft_state \<Rightarrow> bool" where
  "frac_exec e s c = Inr s' \<Longrightarrow> frac_step s s'"

definition split_ok :: "fractional_registry \<Rightarrow> nat \<Rightarrow> nat \<Rightarrow> nft \<Rightarrow> bool" where
  "split_ok r c t n \<longleftrightarrow> nft_collection_id n = c \<and> nft_token_id n = t \<and>
     (if nft_is_fractionalized n then nft_circulating_supply n \<le> nft_total_supply n \<and> nft_total_supply n \<le> MAX_SHARES
        \<and> held_shares r c t \<le> nft_total_supply n + nft_circulating_supply n
      else held_shares r c t = 0)"

definition frac_ok :: "nft_state \<Rightarrow> bool" where
  "frac_ok s \<longleftrightarrow> index_ok (fractions_of s) \<and> (\<forall>c t a sh. get_shares (fractions_of s) c t a = Some sh \<longrightarrow> 0 < fs_shares sh)
     \<and> (\<forall>c t n. get_nft (nfts_of s) c t = Some n \<longrightarrow> split_ok (fractions_of s) c t n)"

lemma index_ok_new [simp]: "index_ok fractional_registry_new"
  by (simp add: index_ok_def fractional_registry_new_def get_shareholders_def get_shares_def entries_def)

lemma new_registry_empty [simp]: "get_shares fractional_registry_new c t a = None" "held_shares fractional_registry_new c t = 0"
  by (simp_all add: held_shares_def fractional_registry_new_def get_shareholders_def get_shares_def entries_def)

lemma frac_init_ok: "frac_init s \<Longrightarrow> frac_ok s"
  by (simp add: frac_init_def frac_ok_def split_ok_def)

lemma find_nft_effect: "find_nft s c t = Inr (nr, n) \<Longrightarrow> nf_nfts s = Some nr \<and> get_nft nr c t = Some n"
  by (auto simp: find_nft_def bindR_eq_Inr ok_or_eq_Inr)

lemma get_nft_update [simp]: "get_nft (update_nft n r) c t = (if (c, t) = (nft_collection_id n, nft_token_id n) then Some n else get_nft r c t)"
  by (auto simp: get_nft_def update_nft_def)

text \<open>One token and its shares change, the others stay.\<close>

lemma frac_put:
  assumes ok: "frac_ok s" and n: "split_ok r' c t n" and i: "index_ok r'" and k: "get_nft (nfts_of s) c t \<noteq> None"
    and same: "\<And>c' t' a. (c', t') \<noteq> (c, t) \<Longrightarrow> get_shares r' c' t' a = get_shares (fractions_of s) c' t' a"
    and pos: "\<And>a sh. get_shares r' c t a = Some sh \<Longrightarrow> 0 < fs_shares sh"
    and s': "fractions_of s' = r'" "nfts_of s' = update_nft n (nfts_of s)"
  shows "frac_ok s'"
proof -
  have "held_shares r' c' t' = held_shares (fractions_of s) c' t'" if "(c', t') \<noteq> (c, t)" for c' t'
    by (rule held_same) (use ok i same [OF that] in \<open>simp_all add: frac_ok_def holding_def\<close>)
  then have "split_ok r' c' t' m" if "(c', t') \<noteq> (c, t)" "get_nft (nfts_of s) c' t' = Some m" for c' t' m
    using ok that by (simp add: frac_ok_def split_ok_def)
  moreover have "0 < fs_shares sh" if "get_shares r' c' t' a = Some sh" for c' t' a sh
  proof (cases "(c', t') = (c, t)")
    case True
    with pos that show ?thesis by simp
  next
    case False
    with same [OF False] ok that show ?thesis unfolding frac_ok_def by metis
  qed
  ultimately show ?thesis using n i unfolding frac_ok_def s' by (auto simp: split_ok_def)
qed

lemma split_kept:
  assumes ok: "frac_ok s" and c: "fractionalize_nft e s a c t k p = Inr s'"
  shows "frac_ok s'"
proof -
  from c obtain nr n where n: "nf_nfts s = Some nr" "get_nft nr c t = Some n" "\<not> nft_is_fractionalized n" and k: "MIN_SHARES \<le> k" "k \<le> MAX_SHARES"
    and s': "s' = put_fractions (set_shares c t a (new_share e c t a k k p) (fractions_of s))
       (put_nfts (update_nft (n\<lparr>nft_is_fractionalized := True, nft_total_supply := k, nft_circulating_supply := 0\<rparr>) nr) s)"
    by (auto simp: fractionalize_nft_def bindR_eq_Inr ensure_eq_Inr dest!: find_nft_effect)
  let ?r' = "set_shares c t a (new_share e c t a k k p) (fractions_of s)"
  have i: "index_ok (fractions_of s)" and nk: "split_ok (fractions_of s) c t n" using ok n by (simp_all add: frac_ok_def)
  have "held_shares ?r' c t + holding (fractions_of s) c t a = held_shares (fractions_of s) c t + holding ?r' c t a"
    by (rule held_by_holding [OF i index_ok_set [OF i]]) (simp add: holding_set)
  then have "held_shares ?r' c t = k" using nk n(3) holding_le_held [OF i, of c t a] by (simp add: split_ok_def holding_set new_share_def)
  then have "split_ok ?r' c t (n\<lparr>nft_is_fractionalized := True, nft_total_supply := k, nft_circulating_supply := 0\<rparr>)"
    using nk k by (simp add: split_ok_def)
  then show ?thesis
  proof (rule frac_put [OF ok _ index_ok_set [OF i]])
    show "0 < fs_shares sh" if "get_shares ?r' c t b = Some sh" for b sh
      using that ok k by (auto simp: frac_ok_def new_share_def MIN_SHARES_def split: if_splits)
  qed (use n in \<open>auto simp: s' put_fractions_def put_nfts_def\<close>)
qed

lemma buy_effect:
  assumes "buy_fractional_shares e s a c t k p = Inr s'"
  obtains nr n sh where "nf_nfts s = Some nr" "get_nft nr c t = Some n" "nft_is_fractionalized n" "0 < k"
    "k \<le> nft_total_supply n - nft_circulating_supply n" "fs_shares sh = u_sat_add 64 (holding (fractions_of s) c t a) k"
    "s' = put_fractions (set_shares c t a sh (fractions_of s))
       (put_nfts (update_nft (n\<lparr>nft_circulating_supply := u_sat_add 64 (nft_circulating_supply n) k\<rparr>) nr) s)"
proof -
  from assms obtain nr n where f: "find_nft s c t = Inr (nr, n)" and n: "nft_is_fractionalized n" "0 < k" "k \<le> nft_total_supply n - nft_circulating_supply n"
    and s': "s' = (let sh = or_new (get_shares (fractions_of s) c t a) (new_share e c t a 0 (nft_total_supply n) p);
         sh = sh\<lparr>fs_shares := u_sat_add 64 (fs_shares sh) k, fs_purchase_price := p, fs_acquired_at := now e\<rparr>
     in put_fractions (set_shares c t a sh (fractions_of s))
       (put_nfts (update_nft (n\<lparr>nft_circulating_supply := u_sat_add 64 (nft_circulating_supply n) k\<rparr>) nr) s))"
    by (auto simp: buy_fractional_shares_def bindR_eq_Inr ensure_eq_Inr Let_def)
  define sh where "sh = (or_new (get_shares (fractions_of s) c t a) (new_share e c t a 0 (nft_total_supply n) p))
    \<lparr>fs_shares := u_sat_add 64 (holding (fractions_of s) c t a) k, fs_purchase_price := p, fs_acquired_at := now e\<rparr>"
  have "fs_shares (or_new (get_shares (fractions_of s) c t a) (new_share e c t a 0 (nft_total_supply n) p)) = holding (fractions_of s) c t a"
    by (simp add: or_new_def holding_def new_share_def split: option.splits)
  with that [of nr n sh] n find_nft_effect [OF f] s' show thesis by (simp add: Let_def sh_def)
qed

lemma buy_kept:
  assumes ok: "frac_ok s" and c: "buy_fractional_shares e s a c t k p = Inr s'"
  shows "frac_ok s' \<and> held_shares (fractions_of s') c t = held_shares (fractions_of s) c t + k
     \<and> holding (fractions_of s') c t a = holding (fractions_of s) c t a + k"
  using c
proof (rule buy_effect)
  fix nr n sh assume n: "nf_nfts s = Some nr" "get_nft nr c t = Some n" "nft_is_fractionalized n" and k: "0 < k" "k \<le> nft_total_supply n - nft_circulating_supply n"
    and sh: "fs_shares sh = u_sat_add 64 (holding (fractions_of s) c t a) k"
    and s': "s' = put_fractions (set_shares c t a sh (fractions_of s))
       (put_nfts (update_nft (n\<lparr>nft_circulating_supply := u_sat_add 64 (nft_circulating_supply n) k\<rparr>) nr) s)"
  let ?r' = "set_shares c t a sh (fractions_of s)"
  have i: "index_ok (fractions_of s)" and nk: "split_ok (fractions_of s) c t n" using ok n by (simp_all add: frac_ok_def)
  have "holding (fractions_of s) c t a + k < 2 ^ 64" using nk n(3) k holding_le_held [OF i, of c t a] by (auto simp: split_ok_def MAX_SHARES_def)
  then have sh: "fs_shares sh = holding (fractions_of s) c t a + k" unfolding sh by (rule u_sat_add_exact)
  have circ: "u_sat_add 64 (nft_circulating_supply n) k = nft_circulating_supply n + k"
    by (rule u_sat_add_exact) (use nk n(3) k in \<open>auto simp: split_ok_def MAX_SHARES_def\<close>)
  have "held_shares ?r' c t + holding (fractions_of s) c t a = held_shares (fractions_of s) c t + holding ?r' c t a"
    by (rule held_by_holding [OF i index_ok_set [OF i]]) (simp add: holding_set)
  then have h: "held_shares ?r' c t = held_shares (fractions_of s) c t + k" by (simp add: holding_set sh)
  have "split_ok ?r' c t (n\<lparr>nft_circulating_supply := u_sat_add 64 (nft_circulating_supply n) k\<rparr>)"
    using nk n(3) k h by (simp add: split_ok_def circ)
  then have "frac_ok s'"
  proof (rule frac_put [OF ok _ index_ok_set [OF i]])
    have "0 < fs_shares sh" using sh k by simp
    then show "0 < fs_shares x" if "get_shares ?r' c t b = Some x" for b x
      using that ok by (auto simp: frac_ok_def split: if_splits)
  qed (use n in \<open>auto simp: s' put_fractions_def put_nfts_def\<close>)
  with h show ?thesis by (simp add: s' put_fractions_def holding_set sh)
qed

lemma sell_kept:
  assumes ok: "frac_ok s" and c: "sell_fractional_shares e s a c t k p = Inr s'"
  shows "frac_ok s'"
proof -
  from c obtain r sh n where r: "nf_fractional s = Some r" "get_shares r c t a = Some sh" and k: "0 < k" "k \<le> fs_shares sh"
    and n: "get_nft (nfts_of s) c t = Some n"
    and s': "s' = put_fractions (reduce_shares c t a sh k r)
       (put_nfts (update_nft (n\<lparr>nft_circulating_supply := nft_circulating_supply n - k\<rparr>) (nfts_of s)) s)"
    by (auto simp: sell_fractional_shares_def bindR_eq_Inr ensure_eq_Inr ok_or_eq_Inr)
  let ?r' = "reduce_shares c t a sh k r"
  have i: "index_ok r" and nk: "split_ok r c t n" using ok r n by (simp_all add: frac_ok_def)
  have a: "fs_shares sh = holding r c t a" by (simp add: holding_def r(2))
  have "held_shares ?r' c t + holding r c t a = held_shares r c t + holding ?r' c t a"
    by (rule held_by_holding [OF i index_ok_reduce [OF i]]) (simp add: holding_reduce [OF a])
  then have h: "held_shares ?r' c t = held_shares r c t - k" using k holding_le_held [OF i, of c t a] by (simp add: holding_reduce [OF a] a)
  then have "split_ok ?r' c t (n\<lparr>nft_circulating_supply := nft_circulating_supply n - k\<rparr>)"
    using nk k by (auto simp: split_ok_def)
  then show ?thesis
  proof (rule frac_put [OF ok _ index_ok_reduce [OF i]])
    show "get_shares ?r' c' t' b = get_shares (fractions_of s) c' t' b" if "(c', t') \<noteq> (c, t)" for c' t' b
      using that by (auto simp: reduce_shares_def Let_def r(1))
    show "0 < fs_shares x" if "get_shares ?r' c t b = Some x" for b x
      using that ok r(1) by (auto simp: frac_ok_def reduce_shares_def Let_def split: if_splits)
  qed (use n in \<open>auto simp: s' put_fractions_def put_nfts_def\<close>)
qed

lemma transfer_effect:
  assumes "transfer_fractional_shares e s a b c t k = Inr s'"
  obtains r sh x n where "nf_fractional s = Some r" "get_shares r c t a = Some sh" "0 < k" "k \<le> fs_shares sh" "a \<noteq> b"
    "get_nft (nfts_of s) c t = Some n" "nft_is_fractionalized n" "fs_shares x = u_sat_add 64 (holding r c t b) k"
    "s' = put_fractions (set_shares c t b x (reduce_shares c t a sh k r)) s"
proof -
  from assms obtain nr n r sh where f: "find_nft s c t = Inr (nr, n)" "nft_is_fractionalized n" and r: "nf_fractional s = Some r" "get_shares r c t a = Some sh"
    and k: "0 < k" "k \<le> fs_shares sh" "a \<noteq> b"
    and s': "s' = (let r = reduce_shares c t a sh k r;
         to = or_new (get_shares r c t b) (new_share e c t b 0 (nft_total_supply n) 0)
     in put_fractions (set_shares c t b (to\<lparr>fs_shares := u_sat_add 64 (fs_shares to) k, fs_acquired_at := now e\<rparr>) r) s)"
    by (auto simp: transfer_fractional_shares_def bindR_eq_Inr ensure_eq_Inr ok_or_eq_Inr Let_def)
  have "get_shares (reduce_shares c t a sh k r) c t b = get_shares r c t b" using k(3) by (simp add: reduce_shares_def Let_def)
  moreover have "fs_shares (or_new (get_shares r c t b) (new_share e c t b 0 (nft_total_supply n) 0)) = holding r c t b"
    by (simp add: or_new_def holding_def new_share_def split: option.splits)
  moreover define x where "x = (or_new (get_shares r c t b) (new_share e c t b 0 (nft_total_supply n) 0))
    \<lparr>fs_shares := u_sat_add 64 (holding r c t b) k, fs_acquired_at := now e\<rparr>"
  ultimately show thesis using that [OF r k, of n x] find_nft_effect [OF f(1)] f(2) s' by (simp add: Let_def)
qed

lemma transfer_kept:
  assumes ok: "frac_ok s" and c: "transfer_fractional_shares e s a b c t k = Inr s'"
  shows "frac_ok s' \<and> (\<forall>c' t' x. holding (fractions_of s') c' t' x = (if (c', t') = (c, t) \<and> x = a then holding (fractions_of s) c t a - k
     else if (c', t') = (c, t) \<and> x = b then holding (fractions_of s) c t b + k else holding (fractions_of s) c' t' x))
     \<and> k \<le> holding (fractions_of s) c t a \<and> held_shares (fractions_of s') c t = held_shares (fractions_of s) c t"
  using c
proof (rule transfer_effect)
  fix r sh x n assume r: "nf_fractional s = Some r" "get_shares r c t a = Some sh" and k: "0 < k" "k \<le> fs_shares sh" "a \<noteq> b"
    and n: "get_nft (nfts_of s) c t = Some n" "nft_is_fractionalized n" and x: "fs_shares x = u_sat_add 64 (holding r c t b) k"
    and s': "s' = put_fractions (set_shares c t b x (reduce_shares c t a sh k r)) s"
  let ?q = "reduce_shares c t a sh k r"
  let ?r' = "set_shares c t b x ?q"
  have i: "index_ok r" "index_ok ?q" "index_ok ?r'" and nk: "split_ok r c t n"
    using ok r n by (auto simp: frac_ok_def intro: index_ok_reduce index_ok_set)
  have a: "fs_shares sh = holding r c t a" by (simp add: holding_def r(2))
  have 1: "held_shares ?q c t + holding r c t a = held_shares r c t + holding ?q c t a"
    by (rule held_by_holding [OF i(1,2)]) (simp add: holding_reduce [OF a])
  have 2: "held_shares ?r' c t + holding ?q c t b = held_shares ?q c t + holding ?r' c t b"
    by (rule held_by_holding [OF i(2,3)]) (simp add: holding_set)
  have le: "holding r c t a \<le> held_shares r c t" "holding r c t b \<le> held_shares r c t" by (rule holding_le_held [OF i(1)])+
  have "holding r c t b + k < 2 ^ 64" using nk n(2) k a le by (auto simp: split_ok_def MAX_SHARES_def)
  then have x: "fs_shares x = holding r c t b + k" unfolding x by (rule u_sat_add_exact)
  have h: "held_shares ?r' c t = held_shares r c t" using 1 2 k a by (simp add: holding_reduce [OF a] holding_set x)
  have "split_ok ?r' c t n" using nk h by (simp add: split_ok_def)
  then have "frac_ok s'"
  proof (rule frac_put [OF ok _ i(3)])
    show "get_shares ?r' c' t' y = get_shares (fractions_of s) c' t' y" if "(c', t') \<noteq> (c, t)" for c' t' y
      using that by (auto simp: reduce_shares_def Let_def r(1))
    show "0 < fs_shares y" if "get_shares ?r' c t z = Some y" for z y
      using that ok r(1) k x by (auto simp: frac_ok_def reduce_shares_def Let_def split: if_splits)
    show "nfts_of s' = update_nft n (nfts_of s)" using n(1) nk
      by (simp add: s' put_fractions_def split_ok_def update_nft_def get_nft_def map_upd_triv)
  qed (use n in \<open>auto simp: s' put_fractions_def\<close>)
  moreover have "holding (fractions_of s') c' t' y = (if (c', t') = (c, t) \<and> y = a then holding r c t a - k
     else if (c', t') = (c, t) \<and> y = b then holding r c t b + k else holding r c' t' y)" for c' t' y
    using k(3) by (simp add: s' put_fractions_def holding_set holding_reduce [OF a] x)
  ultimately show ?thesis using h k(2) a by (simp add: s' put_fractions_def r(1))
qed

lemma join_kept:
  assumes ok: "frac_ok s" and c: "defractionalize_nft e s a c t = Inr s'"
  shows "frac_ok s' \<and> held_shares (fractions_of s') c t = 0"
proof -
  from c obtain nr n r where f: "find_nft s c t = Inr (nr, n)" and r: "nf_fractional s = Some r"
    and s': "s' = put_fractions (fold (\<lambda>a r. remove_shareholder c t a r) (get_shareholders r c t) r)
       (put_nfts (update_nft (n\<lparr>nft_is_fractionalized := False, nft_total_supply := 1, nft_circulating_supply := 1\<rparr>) nr) s)"
    by (auto simp: defractionalize_nft_def bindR_eq_Inr ensure_eq_Inr ok_or_eq_Inr)
  have n: "nf_nfts s = Some nr" "get_nft nr c t = Some n" using find_nft_effect [OF f] by simp_all
  let ?r' = "fold (\<lambda>a r. remove_shareholder c t a r) (get_shareholders r c t) r"
  have i: "index_ok r" and nk: "split_ok r c t n" using ok r n by (simp_all add: frac_ok_def)
  have i': "index_ok ?r'" by (rule index_ok_remove_all [OF i])
  have none: "get_shares ?r' c t x = None" for x
    by (cases "x \<in> set (get_shareholders r c t)") (simp_all add: remove_all index_ok_iff [OF i])
  have "set (get_shareholders ?r' c t) = {}" by (rule equals0I) (simp add: index_ok_iff [OF i'] none)
  then have h: "held_shares ?r' c t = 0" by (simp add: held_shares_def)
  have "split_ok ?r' c t (n\<lparr>nft_is_fractionalized := False, nft_total_supply := 1, nft_circulating_supply := 1\<rparr>)"
    using nk h by (simp add: split_ok_def)
  then have "frac_ok s'"
  proof (rule frac_put [OF ok _ i'])
    show "get_shares ?r' c' t' x = get_shares (fractions_of s) c' t' x" if "(c', t') \<noteq> (c, t)" for c' t' x
      using that by (auto simp: remove_all r)
  qed (use n none in \<open>auto simp: s' put_fractions_def put_nfts_def\<close>)
  with h show ?thesis by (simp add: s' put_fractions_def)
qed

interpretation frac_machine: machine_invariant frac_init frac_step frac_ok
proof
  fix s s' assume ok: "frac_ok s" and "frac_step s s'"
  then obtain e c where "frac_exec e s c = Inr s'" by (auto elim: frac_step.cases)
  with ok show "frac_ok s'" by (cases c) (auto dest: split_kept buy_kept sell_kept transfer_kept join_kept)
qed (rule frac_init_ok)

section \<open>Properties\<close>

abbreviation frac_reachable :: "nft_state \<Rightarrow> bool" where
  "frac_reachable \<equiv> reachable frac_init frac_step"

text \<open>
  The list of a token's shareholders names exactly the accounts with shares, each once and with a positive
  number; a token that is not split has none, and the shares of a split one add up to at most its supply plus what
  was bought, so at most to twice its supply.
\<close>

theorem shareholders_are_exact:
  assumes "frac_reachable s" and "get_nft (nfts_of s) c t = Some n"
  shows "distinct (nft_shareholders s c t) \<and> (\<forall>a. a \<in> set (nft_shareholders s c t) \<longleftrightarrow> 0 < holding (fractions_of s) c t a)
     \<and> (if is_fractionalized s c t then held_shares (fractions_of s) c t \<le> get_total_shares s c t + get_circulating_shares s c t
           \<and> get_circulating_shares s c t \<le> get_total_shares s c t
        else nft_shareholders s c t = [])"
proof -
  have ok: "frac_ok s" by (rule frac_machine.inv_reachable [OF assms(1)])
  then have i: "index_ok (fractions_of s)" and n: "split_ok (fractions_of s) c t n" using assms(2) by (simp_all add: frac_ok_def)
  have m: "a \<in> set (nft_shareholders s c t) \<longleftrightarrow> 0 < holding (fractions_of s) c t a" for a
  proof (cases "get_shares (fractions_of s) c t a")
    case None
    then show ?thesis by (simp add: nft_shareholders_def index_ok_iff [OF i] holding_def)
  next
    case (Some sh)
    then have "0 < fs_shares sh" using ok unfolding frac_ok_def by blast
    with Some show ?thesis by (simp add: nft_shareholders_def index_ok_iff [OF i] holding_def)
  qed
  have "nft_shareholders s c t = []" if "held_shares (fractions_of s) c t = 0"
  proof -
    have "holding (fractions_of s) c t a = 0" for a using holding_le_held [OF i, of c t a] that by simp
    then have "set (nft_shareholders s c t) = {}" by (intro equals0I) (simp add: m)
    then show ?thesis by simp
  qed
  with n assms(2) have "if is_fractionalized s c t then held_shares (fractions_of s) c t \<le> get_total_shares s c t + get_circulating_shares s c t
      \<and> get_circulating_shares s c t \<le> get_total_shares s c t else nft_shareholders s c t = []"
    by (simp add: split_ok_def is_fractionalized_def get_total_shares_def get_circulating_shares_def)
  moreover have "distinct (nft_shareholders s c t)" using i by (simp add: index_ok_def nft_shareholders_def)
  ultimately show ?thesis using m by blast
qed

text \<open>A transfer of shares moves the amount between its two accounts and changes no other holding of any token.\<close>

theorem transfer_moves_shares:
  assumes "frac_reachable s" and "transfer_fractional_shares e s a b c t k = Inr s'"
  shows "k \<le> holding (fractions_of s) c t a \<and> held_shares (fractions_of s') c t = held_shares (fractions_of s) c t
     \<and> (\<forall>c' t' x. holding (fractions_of s') c' t' x =
          (if (c', t', x) = (c, t, a) then holding (fractions_of s) c t a - k
           else if (c', t', x) = (c, t, b) then holding (fractions_of s) c t b + k else holding (fractions_of s) c' t' x))"
  using transfer_kept [OF frac_machine.inv_reachable [OF assms(1)] assms(2)] by auto

fun frac_run :: "nft_state \<Rightarrow> (nat \<times> frac_call) list \<Rightarrow> (nft_state, nft_error) res" where
  "frac_run s [] = Inr s"
| "frac_run s ((t, c) # cs) = bindR (frac_exec (at_time t) s c) (\<lambda>s. frac_run s cs)"

lemma frac_run_reachable: "frac_run s cs = Inr s' \<Longrightarrow> frac_reachable s \<Longrightarrow> frac_reachable s'"
proof (induction cs arbitrary: s)
  case (Cons x cs)
  obtain t c where x: "x = (t, c)" by (cases x)
  with Cons.prems(1) obtain u where u: "frac_exec (at_time t) s c = Inr u" "frac_run u cs = Inr s'" by (auto simp: bindR_eq_Inr)
  have "frac_reachable u" by (rule reach_step [OF Cons.prems(2) frac_step.intros [OF u(1)]])
  from Cons.IH [OF u(2) this] show ?case .
qed simp

lemma demo_frac_reachable:
  assumes "\<not> isl (frac_run demo_nft_state cs)"
  shows "frac_reachable (projr (frac_run demo_nft_state cs))"
proof (rule frac_run_reachable)
  show "frac_run demo_nft_state cs = Inr (projr (frac_run demo_nft_state cs))" using assms by (cases "frac_run demo_nft_state cs") auto
  have "frac_init demo_nft_state" by (auto simp: frac_init_def nft_eval split: if_splits)
  then show "frac_reachable demo_nft_state" by (rule reach_init)
qed

lemmas frac_eval = nft_eval fractionalize_nft_def buy_fractional_shares_def transfer_fractional_shares_def defractionalize_nft_def
  MIN_SHARES_def MAX_SHARES_def find_nft_def put_nfts_def put_fractions_def update_nft_def set_shares_def new_share_def
  get_shares_def get_shareholders_def fractional_registry_new_def reduce_shares_def remove_shareholder_def drop_key_def
  get_fractional_shares_def get_ownership_percentage_def is_fractionalized_def as_u32_def holding_def held_shares_def

definition demo_split :: nft_state where
  "demo_split = projr (frac_run demo_nft_state [(10, Split (Addr 1) 1 1 10 5), (20, Buy (Addr 2) 1 1 10 5)])"

lemma demo_split_reachable: "frac_reachable demo_split"
  unfolding demo_split_def by (rule demo_frac_reachable) (simp add: frac_eval)

text \<open>
  Buying adds shares and takes nothing from the owner, who holds them all from the start: buyer and owner each
  hold the whole token, and the owner can join it, which erases what the buyer bought.
\<close>

theorem owner_joins_over_the_buyer:
  "\<exists>s. frac_reachable demo_split \<and> get_ownership_percentage demo_split 1 1 (Addr 1) = 10000
     \<and> get_ownership_percentage demo_split 1 1 (Addr 2) = 10000 \<and> defractionalize_nft (at_time 30) demo_split (Addr 1) 1 1 = Inr s
     \<and> get_fractional_shares s 1 1 (Addr 2) = None \<and> \<not> is_fractionalized s 1 1"
proof -
  let ?r = "defractionalize_nft (at_time 30) demo_split (Addr 1) 1 1"
  have "\<not> isl ?r" by (simp add: demo_split_def frac_eval)
  then have r: "?r = Inr (projr ?r)" by (cases ?r) auto
  have "get_fractional_shares (projr ?r) 1 1 (Addr 2) = None" "\<not> is_fractionalized (projr ?r) 1 1"
    "get_ownership_percentage demo_split 1 1 (Addr 1) = 10000" "get_ownership_percentage demo_split 1 1 (Addr 2) = 10000"
    by (simp_all add: demo_split_def frac_eval)
  with r demo_split_reachable show ?thesis by blast
qed

theorem shareholders_are_exact_witness:
  "\<exists>n. get_nft (nfts_of demo_split) 1 1 = Some n \<and> nft_shareholders demo_split 1 1 = [Addr 1, Addr 2]
     \<and> held_shares (fractions_of demo_split) 1 1 = 20 \<and> held_shares (fractions_of demo_split) 1 1 \<le> 10 + 10"
proof -
  have "get_nft (nfts_of demo_split) 1 1 \<noteq> None" "is_fractionalized demo_split 1 1" "get_total_shares demo_split 1 1 = 10"
    "get_circulating_shares demo_split 1 1 = 10" "nft_shareholders demo_split 1 1 = [Addr 1, Addr 2]" "held_shares (fractions_of demo_split) 1 1 = 20"
    by (simp_all add: demo_split_def frac_eval get_total_shares_def get_circulating_shares_def nft_shareholders_def)
  moreover from this(1) obtain n where n: "get_nft (nfts_of demo_split) 1 1 = Some n" by blast
  ultimately show ?thesis using shareholders_are_exact [OF demo_split_reachable n] by simp
qed

theorem transfer_moves_shares_witness:
  "\<exists>s. transfer_fractional_shares (at_time 30) demo_split (Addr 2) (Addr 3) 1 1 4 = Inr s \<and> holding (fractions_of s) 1 1 (Addr 2) = 6
     \<and> holding (fractions_of s) 1 1 (Addr 3) = 4 \<and> holding (fractions_of s) 1 1 (Addr 1) = 10"
proof -
  let ?r = "transfer_fractional_shares (at_time 30) demo_split (Addr 2) (Addr 3) 1 1 4"
  have "\<not> isl ?r" by (simp add: demo_split_def frac_eval)
  then obtain s where s: "?r = Inr s" by (cases ?r) auto
  have "holding (fractions_of demo_split) 1 1 (Addr 2) = 10" "holding (fractions_of demo_split) 1 1 (Addr 3) = 0"
    "holding (fractions_of demo_split) 1 1 (Addr 1) = 10" by (simp_all add: demo_split_def frac_eval)
  with transfer_moves_shares [OF demo_split_reachable s] s show ?thesis by simp
qed

text \<open>
  Properties of the fractional vaults: the shares of a vault's holders add up to its supply, which stays within its
  total; converting shares to assets and back never gains; and the owner's last withdrawal fails unless it is of a
  single share, because the token's circulating supply has just been set to one.
\<close>

section \<open>Supply\<close>

definition vault_held :: "(nat \<times> address \<rightharpoonup> vault_share) \<Rightarrow> nat \<Rightarrow> int" where
  "vault_held m k = map_total (\<lambda>x. if vs_vault_id x = k then int (vs_shares x) else 0) m"

definition vaults_ok :: "nat \<Rightarrow> vault_registry \<Rightarrow> (nat \<times> address \<rightharpoonup> vault_share) \<Rightarrow> bool" where
  "vaults_ok n r m \<longleftrightarrow> finite (dom m) \<and> (\<forall>k a x. m (k, a) = Some x \<longrightarrow> vs_vault_id x = k \<and> vg_vaults r k \<noteq> None)
     \<and> (\<forall>k v. vg_vaults r k = Some v \<longrightarrow> vt_vault_id v = k \<and> k < n \<and> int (vt_share_supply v) = vault_held m k \<and> vt_share_supply v \<le> vt_total_shares v)"

definition vault_ok :: "nft_state \<Rightarrow> bool" where
  "vault_ok s \<longleftrightarrow> vaults_ok (nf_next_vault s) (vaults_of s) (vault_shares_of s)"

lemma vault_held_upd: "finite (dom m) \<Longrightarrow> vault_held (m((k, a) \<mapsto> x)) j = vault_held m j
    - (case m (k, a) of None \<Rightarrow> 0 | Some y \<Rightarrow> if vs_vault_id y = j then int (vs_shares y) else 0) + (if vs_vault_id x = j then int (vs_shares x) else 0)"
  by (simp add: vault_held_def map_total_upd)

lemma vault_held_del: "finite (dom m) \<Longrightarrow> m (k, a) = Some y \<Longrightarrow> vault_held (m((k, a) := None)) j
    = vault_held m j - (if vs_vault_id y = j then int (vs_shares y) else 0)"
  using vault_held_upd [of "m((k, a) := None)" k a y j] by (simp add: map_upd_triv)

text \<open>The common part of minting and burning: one holder's shares and the vault's supply change together.\<close>

lemma vaults_ok_change:
  assumes ok: "vaults_ok n r m" and v: "vg_vaults r k = Some v" and w: "vt_vault_id w = vt_vault_id v" "vt_total_shares w = vt_total_shares v"
    "vt_share_supply w \<le> vt_total_shares v" "int (vt_share_supply w) = int (vt_share_supply v) + d"
    and m: "finite (dom m')" "\<And>j a x. m' (j, a) = Some x \<Longrightarrow> vs_vault_id x = j \<and> (j = k \<or> m (j, a) \<noteq> None)"
    and h: "\<And>j. vault_held m' j = vault_held m j + (if j = k then d else 0)"
  shows "vaults_ok n (update_vault w r) m'"
proof -
  have "vs_vault_id x = j \<and> vg_vaults (update_vault w r) j \<noteq> None" if "m' (j, b) = Some x" for j b x
    using m(2) [OF that] ok v w(1) by (cases "m (j, b)") (auto simp: vaults_ok_def update_vault_def)
  moreover have "vt_vault_id u = j \<and> j < n \<and> int (vt_share_supply u) = vault_held m' j \<and> vt_share_supply u \<le> vt_total_shares u"
    if "vg_vaults (update_vault w r) j = Some u" for j u
  proof (cases "j = k")
    case True
    with ok v w h that show ?thesis by (auto simp: vaults_ok_def update_vault_def)
  next
    case False
    then have "vg_vaults r j = Some u" using ok v w(1) that by (auto simp: vaults_ok_def update_vault_def)
    with ok h False show ?thesis by (simp add: vaults_ok_def)
  qed
  ultimately show ?thesis using m(1) unfolding vaults_ok_def by blast
qed

lemma vaults_ok_create:
  assumes ok: "vaults_ok n r m" and v: "vt_vault_id v = n" "vt_share_supply v = 0"
  shows "vaults_ok (Suc n) (snd (create_vault v r)) m"
proof -
  have none: "vg_vaults r n = None" using ok by (cases "vg_vaults r n") (auto simp: vaults_ok_def)
  have "vs_vault_id x \<noteq> n" if "m y = Some x" for x y using ok none that by (cases y) (fastforce simp: vaults_ok_def)
  then have "vault_held m n = 0" unfolding vault_held_def by (intro map_total_zero) simp
  with assms none show ?thesis by (auto simp: vaults_ok_def create_vault_def less_Suc_eq)
qed

lemma vaults_ok_close: "vaults_ok n r m \<Longrightarrow> vg_vaults r k = Some w \<Longrightarrow> vaults_ok n (update_vault (w\<lparr>vt_is_active := False\<rparr>) r) m"
  by (auto simp: vaults_ok_def update_vault_def)

section \<open>Effects\<close>

lemma find_vault_effect: "find_vault s k = Inr (r, v) \<Longrightarrow> nf_vaults s = Some r \<and> vg_vaults r k = Some v"
  by (auto simp: find_vault_def get_vault_def bindR_eq_Inr ok_or_eq_Inr)

lemma mint_effect:
  assumes "mint_vault_shares V e s a k n = Inr s'"
  obtains r v x where "nf_vaults s = Some r" "vg_vaults r k = Some v" "vt_is_active v" "vt_share_supply v + n \<le> vt_total_shares v"
    "vs_vault_id x = vs_vault_id (or_new (vault_shares_of s (k, a)) \<lparr>vs_vault_id = k, vs_owner = a, vs_shares = 0, vs_last_deposit = now e\<rparr>)"
    "vs_shares x = balance_of s k a + n"
    "vaults_of s' = update_vault (v\<lparr>vt_share_supply := vt_share_supply v + n\<rparr>) r" "vault_shares_of s' = (vault_shares_of s)((k, a) \<mapsto> x)"
    "nf_next_vault s' = nf_next_vault s"
proof -
  let ?x = "or_new (vault_shares_of s (k, a)) \<lparr>vs_vault_id = k, vs_owner = a, vs_shares = 0, vs_last_deposit = now e\<rparr>"
  from assms obtain r v m where f: "find_vault s k = Inr (r, v)" and v: "vt_is_active v" "vt_share_supply v + n \<le> vt_total_shares v" and m: "m = vs_shares ?x + n"
    and s': "vaults_of s' = update_vault (v\<lparr>vt_share_supply := vt_share_supply v + n\<rparr>) r"
      "vault_shares_of s' = (vault_shares_of s)((k, a) \<mapsto> ?x\<lparr>vs_shares := m, vs_last_deposit := now e\<rparr>)" "nf_next_vault s' = nf_next_vault s"
    by (auto simp: mint_vault_shares_def Let_def bindR_eq_Inr ensure_eq_Inr u_add_eq_Inr put_vaults_def put_nfts_def put_portfolio_def
        vault_shares_of_def)
  have "vs_shares ?x = balance_of s k a" by (simp add: or_new_def balance_of_def split: option.splits)
  with that [of r v "?x\<lparr>vs_shares := m, vs_last_deposit := now e\<rparr>"] find_vault_effect [OF f] v m s' show thesis by simp
qed

lemma close_vault_effect:
  assumes "close_vault s a r v = Inr s'"
  obtains nr n where "nf_nfts s = Some nr" "get_nft nr (vt_collection_id v) (vt_token_id v) = Some n"
    "s' = put_vaults (update_vault (v\<lparr>vt_is_active := False\<rparr>) r)
       (put_nfts (update_nft (n\<lparr>nft_is_fractionalized := False, nft_total_supply := 1, nft_circulating_supply := 1, nft_owner := a\<rparr>) nr) s)"
  using assms by (auto simp: close_vault_def bindR_eq_Inr ok_or_eq_Inr)

lemma vault_settle_effect:
  assumes "settle_withdrawal s a v x n = Inr s'"
  shows "nf_vaults s' = nf_vaults s \<and> nf_vault_shares s' = nf_vault_shares s \<and> nf_next_vault s' = nf_next_vault s
    \<and> (\<exists>nr i. nf_nfts s = Some nr \<and> get_nft nr (vt_collection_id v) (vt_token_id v) = Some i \<and> x \<le> nft_circulating_supply i)"
  using assms by (auto simp: settle_withdrawal_def bindR_eq_Inr ok_or_eq_Inr u_sub_eq_Inr put_portfolio_def put_nfts_def)

lemma vault_withdraw_effect:
  assumes "withdraw_vault_shares V e s a k n = Inr s'"
  obtains r v m x w s1 where "nf_vaults s = Some r" "vg_vaults r k = Some v" "0 < n" "nf_vault_shares s = Some m" "m (k, a) = Some x"
    "n \<le> vs_shares x" "n \<le> vt_share_supply v" "w = v\<lparr>vt_share_supply := vt_share_supply v - n\<rparr>"
    "(if vt_share_supply w = 0 \<and> vt_owner w = a then close_vault (burned s m x k a n (update_vault w r)) a (update_vault w r) w
      else Inr (burned s m x k a n (update_vault w r))) = Inr s1"
    "settle_withdrawal s1 a w (n - fee_of V n) n = Inr s'"
proof -
  from assms obtain r v m x w s1 where f: "find_vault s k = Inr (r, v)" and m: "0 < n" "nf_vault_shares s = Some m" "m (k, a) = Some x"
    "n \<le> vs_shares x" "n \<le> vt_share_supply v" "w = v\<lparr>vt_share_supply := vt_share_supply v - n\<rparr>"
    "(if vt_share_supply w = 0 \<and> vt_owner w = a then close_vault (burned s m x k a n (update_vault w r)) a (update_vault w r) w
      else Inr (burned s m x k a n (update_vault w r))) = Inr s1"
    "settle_withdrawal s1 a w (n - fee_of V n) n = Inr s'"
    by (auto simp: withdraw_vault_shares_def Let_def bindR_eq_Inr ensure_eq_Inr ok_or_eq_Inr u_sub_eq_Inr)
  from find_vault_effect [OF f] that [OF _ _ m] show thesis by blast
qed

section \<open>The machine of vaults\<close>

lemma mint_kept:
  assumes ok: "vault_ok s" and c: "mint_vault_shares V e s a k n = Inr s'"
  shows "vault_ok s'"
  using c
proof (rule mint_effect)
  fix r v x assume r: "nf_vaults s = Some r" "vg_vaults r k = Some v" "vt_share_supply v + n \<le> vt_total_shares v"
    and x: "vs_vault_id x = vs_vault_id (or_new (vault_shares_of s (k, a)) \<lparr>vs_vault_id = k, vs_owner = a, vs_shares = 0, vs_last_deposit = now e\<rparr>)"
      "vs_shares x = balance_of s k a + n"
    and s': "vaults_of s' = update_vault (v\<lparr>vt_share_supply := vt_share_supply v + n\<rparr>) r" "vault_shares_of s' = (vault_shares_of s)((k, a) \<mapsto> x)"
      "nf_next_vault s' = nf_next_vault s"
  have V: "vaults_ok (nf_next_vault s) r (vault_shares_of s)" using ok r(1) by (simp add: vault_ok_def)
  then have fin: "finite (dom (vault_shares_of s))" and id: "\<And>j b y. vault_shares_of s (j, b) = Some y \<Longrightarrow> vs_vault_id y = j"
    by (auto simp: vaults_ok_def)
  have xk: "vs_vault_id x = k" using x(1) id by (simp add: or_new_def split: option.splits)
  have "vaults_ok (nf_next_vault s) (update_vault (v\<lparr>vt_share_supply := vt_share_supply v + n\<rparr>) r) ((vault_shares_of s)((k, a) \<mapsto> x))"
  proof (rule vaults_ok_change [OF V r(2), where d = "int n"])
    show "vault_held ((vault_shares_of s)((k, a) \<mapsto> x)) j = vault_held (vault_shares_of s) j + (if j = k then int n else 0)" for j
      using id [of k a] by (auto simp: vault_held_upd [OF fin] xk x(2) balance_of_def split: option.splits)
    show "vs_vault_id y = j \<and> (j = k \<or> vault_shares_of s (j, b) \<noteq> None)" if "((vault_shares_of s)((k, a) \<mapsto> x)) (j, b) = Some y" for j b y
      using that id xk by (auto split: if_splits)
  qed (use r fin in simp_all)
  then show ?thesis by (simp add: vault_ok_def s')
qed

lemma create_kept:
  assumes ok: "vault_ok s" and c: "create_fractional_vault V e s a c t n y = Inr (k, s')"
  shows "vault_ok s'"
proof -
  from c obtain nr i p z where m: "mint_vault_shares V e (put_nfts (update_nft i nr)
      (put_vaults (snd (create_vault (new_vault e (nf_next_vault s) c t z y n p a) (vaults_of s))) (s\<lparr>nf_next_vault := Suc (nf_next_vault s)\<rparr>))) a k n = Inr s'"
    by (auto simp: create_fractional_vault_def get_next_vault_id_def Let_def bindR_eq_Inr u_add_eq_Inr)
  define v where "v = new_vault e (nf_next_vault s) c t z y n p a"
  define s1 where "s1 = put_nfts (update_nft i nr) (put_vaults (snd (create_vault v (vaults_of s))) (s\<lparr>nf_next_vault := Suc (nf_next_vault s)\<rparr>))"
  have v: "vt_vault_id v = nf_next_vault s" "vt_share_supply v = 0" by (simp_all add: v_def new_vault_def)
  have "vaults_ok (Suc (nf_next_vault s)) (snd (create_vault v (vaults_of s))) (vault_shares_of s)"
    by (rule vaults_ok_create) (use ok v in \<open>simp_all add: vault_ok_def\<close>)
  then have "vault_ok s1" by (simp add: s1_def vault_ok_def put_nfts_def put_vaults_def vault_shares_of_def)
  then show ?thesis by (rule mint_kept [OF _ m [folded v_def, folded s1_def]])
qed

lemma vault_withdraw_kept:
  assumes ok: "vault_ok s" and c: "withdraw_vault_shares V e s a k n = Inr s'"
  shows "vault_ok s'"
  using c
proof (rule vault_withdraw_effect)
  fix r v m x w s1 assume r: "nf_vaults s = Some r" "vg_vaults r k = Some v" and m: "nf_vault_shares s = Some m" "m (k, a) = Some x"
    and n: "n \<le> vs_shares x" "n \<le> vt_share_supply v" and w: "w = v\<lparr>vt_share_supply := vt_share_supply v - n\<rparr>"
    and s1: "(if vt_share_supply w = 0 \<and> vt_owner w = a then close_vault (burned s m x k a n (update_vault w r)) a (update_vault w r) w
      else Inr (burned s m x k a n (update_vault w r))) = Inr s1"
    and s': "settle_withdrawal s1 a w (n - fee_of V n) n = Inr s'"
  let ?m' = "if vs_shares x = n then m((k, a) := None) else m((k, a) \<mapsto> x\<lparr>vs_shares := vs_shares x - n\<rparr>)"
  have V: "vaults_ok (nf_next_vault s) r m" using ok r(1) m(1) by (simp add: vault_ok_def vault_shares_of_def)
  then have fin: "finite (dom m)" and id: "\<And>j b y. m (j, b) = Some y \<Longrightarrow> vs_vault_id y = j" by (auto simp: vaults_ok_def)
  have le: "vt_share_supply v \<le> vt_total_shares v" using V r(2) by (auto simp: vaults_ok_def)
  have W: "vaults_ok (nf_next_vault s) (update_vault w r) ?m'"
  proof (rule vaults_ok_change [OF V r(2), where d = "- int n"])
    show "vault_held ?m' j = vault_held m j + (if j = k then - int n else 0)" for j
      using n(1) m(2) id [OF m(2)] by (auto simp: vault_held_upd [OF fin] vault_held_del [OF fin m(2)])
    show "vs_vault_id y = j \<and> (j = k \<or> m (j, b) \<noteq> None)" if "?m' (j, b) = Some y" for j b y
      using that id m(2) by (auto split: if_splits)
  qed (use n le fin w in \<open>auto simp: of_nat_diff\<close>)
  have wk: "vg_vaults (update_vault w r) k = Some w" using V r(2) w by (auto simp: vaults_ok_def update_vault_def)
  have "vault_ok s1"
  proof (cases "vt_share_supply w = 0 \<and> vt_owner w = a")
    case True
    with s1 have "close_vault (burned s m x k a n (update_vault w r)) a (update_vault w r) w = Inr s1" by simp
    moreover have "vaults_ok (nf_next_vault s) (update_vault (w\<lparr>vt_is_active := False\<rparr>) (update_vault w r)) ?m'"
      by (rule vaults_ok_close [OF W wk])
    ultimately show ?thesis
      by (auto elim!: close_vault_effect simp: vault_ok_def put_vaults_def put_nfts_def burned_def vault_shares_of_def)
  next
    case False
    with s1 W show ?thesis by (auto simp: vault_ok_def burned_def put_vaults_def vault_shares_of_def)
  qed
  with vault_settle_effect [OF s'] show ?thesis by (simp add: vault_ok_def vault_shares_of_def)
qed

datatype vault_call = New_vault address nat nat nat string | Mint_shares address nat nat | Burn_shares address nat nat

fun vault_exec :: "vault_consts \<Rightarrow> env \<Rightarrow> nft_state \<Rightarrow> vault_call \<Rightarrow> (nft_state, nft_error) res" where
  "vault_exec V e s (New_vault a c t n y) = bindR (create_fractional_vault V e s a c t n y) (\<lambda>x. Inr (snd x))"
| "vault_exec V e s (Mint_shares a k n) = mint_vault_shares V e s a k n"
| "vault_exec V e s (Burn_shares a k n) = withdraw_vault_shares V e s a k n"

definition vault_init :: "nft_state \<Rightarrow> bool" where
  "vault_init s \<longleftrightarrow> nf_vaults s = None \<and> nf_vault_shares s = None"

inductive vault_step :: "vault_consts \<Rightarrow> nft_state \<Rightarrow> nft_state \<Rightarrow> bool" for V where
  "vault_exec V e s c = Inr s' \<Longrightarrow> vault_step V s s'"

interpretation vault_machine: machine_invariant vault_init "vault_step V" vault_ok
proof
  fix s s' assume ok: "vault_ok s" and "vault_step V s s'"
  then obtain e c where "vault_exec V e s c = Inr s'" by (auto elim: vault_step.cases)
  with ok show "vault_ok s'" by (cases c) (auto simp: bindR_eq_Inr dest: create_kept mint_kept vault_withdraw_kept)
qed (simp add: vault_init_def vault_ok_def vaults_ok_def vault_registry_new_def vault_shares_of_def)

section \<open>Properties\<close>

text \<open>C36: a vault's supply is the sum of its holders' balances and never exceeds its total shares.\<close>

theorem vault_supply_is_held:
  assumes "reachable vault_init (vault_step V) s" and "find_vault s k = Inr (r, v)"
  shows "total_supply s k = Inr (vt_share_supply v) \<and> int (vt_share_supply v) = vault_held (vault_shares_of s) k
     \<and> vt_share_supply v \<le> vt_total_shares v \<and> balance_of s k a \<le> vt_share_supply v"
proof -
  have V: "vaults_ok (nf_next_vault s) r (vault_shares_of s)"
    using vault_machine.inv_reachable [OF assms(1)] find_vault_effect [OF assms(2)] by (simp add: vault_ok_def)
  then have h: "int (vt_share_supply v) = vault_held (vault_shares_of s) k" "vt_share_supply v \<le> vt_total_shares v"
    using find_vault_effect [OF assms(2)] by (auto simp: vaults_ok_def)
  have "balance_of s k a \<le> vt_share_supply v"
  proof (cases "vault_shares_of s (k, a)")
    case (Some x)
    have fin: "finite (dom (vault_shares_of s))" and x: "vs_vault_id x = k" using V Some by (auto simp: vaults_ok_def)
    have "(if vs_vault_id x = k then int (vs_shares x) else 0) \<le> vault_held (vault_shares_of s) k"
      unfolding vault_held_def by (rule map_total_ge_member [OF fin Some]) simp
    with h Some x show ?thesis by (simp add: balance_of_def)
  qed (simp add: balance_of_def)
  with h assms(2) show ?thesis by (simp add: total_supply_def)
qed

text \<open>
  C37: in a vault with positive assets and shares, each within the width of its type, \<open>n\<close> of its shares are
  converted to their exact proportional value rounded down, all shares to all assets, and the value back to
  at most \<open>n\<close> shares, without a trap, whenever assets times \<open>n\<close> stays below \<open>2 ^ 128\<close>; from there on the
  conversion to assets traps.
\<close>

theorem conversion_never_gains:
  assumes v: "find_vault s k = Inr (r, v)" and A: "0 < vt_total_assets v" "vt_total_assets v < 2 ^ 127"
    and T: "0 < vt_total_shares v" "vt_total_shares v < 2 ^ 64" and n: "n \<le> vt_total_shares v"
  shows "if nat (vt_total_assets v) * n < 2 ^ 128
     then \<exists>x m. convert_to_assets s k n = Inr x \<and> 0 \<le> x \<and> x \<le> vt_total_assets v
       \<and> int (vt_total_shares v) * x \<le> vt_total_assets v * int n \<and> vt_total_assets v * int n < int (vt_total_shares v) * (x + 1)
       \<and> (n = vt_total_shares v \<longrightarrow> x = vt_total_assets v) \<and> convert_to_shares s k x = Inr m \<and> m \<le> n
     else convert_to_assets s k n = Inl Trap"
proof (cases "nat (vt_total_assets v) * n < 2 ^ 128")
  case False
  have "as_u128 (vt_total_assets v) = nat (vt_total_assets v)"
    using A by (intro as_u128_nonneg) (simp_all add: i128_ok_def I128_MAX_def I128_MIN_def)
  with False v T show ?thesis by (simp add: convert_to_assets_def u_mul_def)
next
  case True
  define a where "a = nat (vt_total_assets v)"
  define t where "t = vt_total_shares v"
  define q where "q = a * n div t"
  have ia: "vt_total_assets v = int a" and a: "0 < a" "a < 2 ^ 127" using A by (simp_all add: a_def)
  have t: "0 < t" "n \<le> t" "t < 2 ^ 64" using T n by (simp_all add: t_def)
  have ua: "as_u128 (vt_total_assets v) = a" unfolding a_def
    using A by (intro as_u128_nonneg) (simp_all add: i128_ok_def I128_MAX_def I128_MIN_def)
  have lo: "t * q \<le> a * n" unfolding q_def by simp
  have hi: "a * n < t * (q + 1)" unfolding q_def using t(1) dividend_less_times_div [of t "a * n"] by simp
  have qa: "q \<le> a"
  proof -
    have "q \<le> a * t div t" unfolding q_def using t(2) by (intro div_le_mono mult_le_mono2)
    then show ?thesis using t(1) by simp
  qed
  have an: "a * n < 2 ^ 128" using True by (simp add: a_def)
  have "as_i128 q = int q" using qa a(2) by (intro as_i128_small) simp
  then have c: "convert_to_assets s k n = Inr (int q)"
    using v t(1) an by (simp add: convert_to_assets_def ua u_mul_def q_def t_def)
  have uq: "as_u128 (int q) = q" using qa a(2) by (subst as_u128_nonneg) (simp_all add: i128_ok_def I128_MAX_def I128_MIN_def)
  have le: "t * q div a \<le> n" using div_le_mono [OF lo, of a] a(1) by simp
  have b: "convert_to_shares s k (int q) = Inr (t * q div a)"
    using v a lo an le t by (simp add: convert_to_shares_def uq ua [unfolded ia] u_mul_def t_def [symmetric] ia)
  have "int t * int q \<le> int a * int n" "int a * int n < int t * (int q + 1)"
    using lo hi by (simp_all flip: of_nat_mult of_nat_Suc add: add.commute)
  moreover have "q = a" if "n = t" using that t(1) by (simp add: q_def)
  ultimately show ?thesis using True c b le qa unfolding ia t_def [symmetric] by auto
qed

text \<open>
  The owner of a vault can withdraw its last shares only one at a time: the withdrawal that empties the vault
  joins the token, sets its circulating supply to one and then subtracts what was withdrawn.
\<close>

theorem last_withdrawal_is_of_one_share:
  assumes "withdraw_vault_shares V e s a k n = Inr s'" and "find_vault s k = Inr (r, v)" and "vt_owner v = a" and "n = vt_share_supply v"
    and keyed: "\<And>c t i. get_nft (nfts_of s) c t = Some i \<Longrightarrow> nft_collection_id i = c \<and> nft_token_id i = t"
  shows "n - fee_of V n \<le> 1"
  using assms(1)
proof (rule vault_withdraw_effect)
  fix r' v' m x w s1 assume r: "nf_vaults s = Some r'" "vg_vaults r' k = Some v'" and w: "w = v'\<lparr>vt_share_supply := vt_share_supply v' - n\<rparr>"
    and s1: "(if vt_share_supply w = 0 \<and> vt_owner w = a then close_vault (burned s m x k a n (update_vault w r')) a (update_vault w r') w
      else Inr (burned s m x k a n (update_vault w r'))) = Inr s1"
    and s': "settle_withdrawal s1 a w (n - fee_of V n) n = Inr s'"
  have "v' = v" using r find_vault_effect [OF assms(2)] by simp
  with s1 w assms(3,4) have "close_vault (burned s m x k a n (update_vault w r')) a (update_vault w r') w = Inr s1" by simp
  then show ?thesis
  proof (rule close_vault_effect)
    fix nr i assume i: "nf_nfts (burned s m x k a n (update_vault w r')) = Some nr" "get_nft nr (vt_collection_id w) (vt_token_id w) = Some i"
      and s1: "s1 = put_vaults (update_vault (w\<lparr>vt_is_active := False\<rparr>) (update_vault w r'))
       (put_nfts (update_nft (i\<lparr>nft_is_fractionalized := False, nft_total_supply := 1, nft_circulating_supply := 1, nft_owner := a\<rparr>) nr)
         (burned s m x k a n (update_vault w r')))"
    have "nft_collection_id i = vt_collection_id w \<and> nft_token_id i = vt_token_id w"
      using keyed i by (simp add: burned_def put_vaults_def)
    with vault_settle_effect [OF s'] show ?thesis
      by (auto simp: s1 put_vaults_def put_nfts_def get_nft_def update_nft_def)
  qed
qed

section \<open>Runs\<close>

definition demo_consts :: vault_consts where
  "demo_consts = \<lparr>vc_min_mint = 1, vc_withdrawal_delay = 0, vc_max_fee_bps = 50\<rparr>"

definition demo_vaulted :: nft_state where
  "demo_vaulted = projr (vault_exec demo_consts (at_time 10) demo_nft_state (New_vault (Addr 1) 1 1 10 ''F''))"

definition demo_drained :: nft_state where
  "demo_drained = projr (vault_exec demo_consts (at_time 20) demo_vaulted (Burn_shares (Addr 1) 1 9))"

lemmas vault_eval = nft_eval demo_consts_def demo_vaulted_def demo_drained_def create_fractional_vault_def new_vault_def MIN_SHARES_def MAX_SHARES_def
  find_nft_def get_next_vault_id_def get_nft_price_from_oracle_def get_valuation_def valuation_registry_new_def symbol_new_def
  nft_symbol_def decimal.simps put_vaults_def create_vault_def vault_registry_new_def put_nfts_def update_nft_def mint_vault_shares_def
  find_vault_def get_vault_def update_vault_def vault_shares_of_def portfolio_of_def nft_portfolio_new_def put_portfolio_def
  withdraw_vault_shares_def fee_of_def burned_def close_vault_def settle_withdrawal_def u_sub_def as_i128_def

lemma demo_vaulted_ok: "vault_exec demo_consts (at_time 10) demo_nft_state (New_vault (Addr 1) 1 1 10 ''F'') = Inr demo_vaulted"
proof -
  have "\<not> isl (vault_exec demo_consts (at_time 10) demo_nft_state (New_vault (Addr 1) 1 1 10 ''F''))" by (simp add: vault_eval)
  then show ?thesis unfolding demo_vaulted_def by (cases "vault_exec demo_consts (at_time 10) demo_nft_state (New_vault (Addr 1) 1 1 10 ''F'')") auto
qed

lemma demo_vaulted_reachable: "reachable vault_init (vault_step demo_consts) demo_vaulted"
proof -
  have "vault_init demo_nft_state" by (simp add: vault_init_def demo_nft_state_def)
  then have "reachable vault_init (vault_step demo_consts) demo_nft_state" by (rule reach_init)
  then show ?thesis by (rule reach_step) (rule vault_step.intros [OF demo_vaulted_ok])
qed

lemma demo_vault:
  obtains r v where "find_vault demo_vaulted 1 = Inr (r, v)" "vt_share_supply v = 10" "vt_total_shares v = 10" "vt_total_assets v = 1000" "vt_owner v = Addr 1"
proof -
  have "\<exists>r v. find_vault demo_vaulted 1 = Inr (r, v) \<and> vt_share_supply v = 10 \<and> vt_total_shares v = 10 \<and> vt_total_assets v = 1000 \<and> vt_owner v = Addr 1"
    by (simp add: vault_eval)
  with that show thesis by blast
qed

theorem vault_supply_is_held_witness:
  "total_supply demo_vaulted 1 = Inr 10 \<and> vault_held (vault_shares_of demo_vaulted) 1 = 10 \<and> balance_of demo_vaulted 1 (Addr 1) \<le> 10"
proof -
  obtain r v where v: "find_vault demo_vaulted 1 = Inr (r, v)" "vt_share_supply v = 10" by (rule demo_vault)
  from vault_supply_is_held [OF demo_vaulted_reachable v(1), of "Addr 1"] v(2) show ?thesis by simp
qed

theorem conversion_never_gains_witness:
  "\<exists>x m. convert_to_assets demo_vaulted 1 3 = Inr x \<and> x = 300 \<and> convert_to_shares demo_vaulted 1 x = Inr m \<and> m \<le> 3"
proof -
  obtain r v where v: "find_vault demo_vaulted 1 = Inr (r, v)" "vt_total_shares v = 10" "vt_total_assets v = 1000" by (rule demo_vault)
  from conversion_never_gains [OF v(1), of 3] v(2,3) obtain x m where "convert_to_assets demo_vaulted 1 3 = Inr x"
    "10 * x \<le> 3000" "3000 < 10 * (x + 1)" "convert_to_shares demo_vaulted 1 x = Inr m" "m \<le> 3" by auto
  moreover from this(2,3) have "x = 300" by presburger
  ultimately show ?thesis by blast
qed

text \<open>Ten shares cannot be withdrawn at once; after nine, the last one can.\<close>

theorem last_withdrawal_is_of_one_share_witness:
  "withdraw_vault_shares demo_consts (at_time 20) demo_vaulted (Addr 1) 1 10 = Inl Trap
     \<and> (\<exists>s. withdraw_vault_shares demo_consts (at_time 30) demo_drained (Addr 1) 1 1 = Inr s \<and> 1 - fee_of demo_consts 1 \<le> 1)"
proof -
  have t: "withdraw_vault_shares demo_consts (at_time 20) demo_vaulted (Addr 1) 1 10 = Inl Trap" by (simp add: vault_eval)
  have "\<not> isl (withdraw_vault_shares demo_consts (at_time 30) demo_drained (Addr 1) 1 1)" by (simp add: vault_eval)
  then obtain s where s: "withdraw_vault_shares demo_consts (at_time 30) demo_drained (Addr 1) 1 1 = Inr s"
    by (cases "withdraw_vault_shares demo_consts (at_time 30) demo_drained (Addr 1) 1 1") auto
  have "\<exists>r v. find_vault demo_drained 1 = Inr (r, v) \<and> vt_owner v = Addr 1 \<and> 1 = vt_share_supply v" by (simp add: vault_eval)
  then obtain r v where v: "find_vault demo_drained 1 = Inr (r, v)" "vt_owner v = Addr 1" "1 = vt_share_supply v" by blast
  have k: "nft_collection_id i = c \<and> nft_token_id i = t" if "get_nft (nfts_of demo_drained) c t = Some i" for c t i
    using that by (auto simp: vault_eval split: if_splits)
  have "1 - fee_of demo_consts 1 \<le> 1" by (rule last_withdrawal_is_of_one_share [OF s v k])
  with s t show ?thesis by blast
qed

end
