(* ===== verification/Spec2Isabelle.thy ===== *)
theory Spec2Isabelle
  imports Atomic_Swap_Props Escrow_Dispute_Props Trade_Engine_Trades Governance_Props
    Rate_Limit_Props Tiers Counter_Entry_Props Farming_Props Staking_Props Oracle_Props Risk_Props
    Referral_Props Market_Props Gamification_Props Treasury_Props Gov_System_Props Emergency_Props
    Upgrade_Props Gov_Rewards_Props Nft_Lending_Props Nft_Fractional_Props
begin

text \<open>
  A verification development for the SwapTrade contracts: Soroban smart contracts in Rust under
  \<open>src/swaptrade-contracts/\<close>. It models four contracts completely, \<open>atomic-swap\<close>,
  \<open>escrow-dispute\<close>, \<open>trade-engine\<close> and \<open>governance\<close>, and of the \<open>counter\<close> contract the liquidity
  pools, KYC, administration, rate limiters, fee tiers, farming, staking, the oracle, risk
  management, referrals, limit orders, the simulated portfolio with its swaps, batches, the governance
  modules, gamification, and lending and fractional ownership of NFTs. The contracts do not call each
  other: each keeps its own storage and calls token contracts only, so each is one transition system
  here, and the parts they share are the results of calls, the integers, the host and the tokens.

  Shared theories. \<open>Prelude\<close>: a call returns \<open>Inr\<close> of a value or \<open>Inl\<close> of a fault, \<open>Err e\<close> for a
  contract error and \<open>Trap\<close> for a panic; a failed call carries no state because the host discards
  its writes. Its locales are the interfaces the contracts implement: \<open>keyed_store\<close> (records under
  integer ids, with sums over them), \<open>id_store\<close> (ids from a counter are fresh), \<open>nonce_store\<close> (an
  idempotency index stays one-to-one) and \<open>machine_invariant\<close> (an invariant kept by every step holds
  in every reachable state and is stable along runs). \<open>Machine_Ints\<close>: Rust's checked, saturating and
  wrapping operations on \<open>u32\<close>, \<open>u64\<close>, \<open>u128\<close> and \<open>i128\<close>; \<open>overflow-checks\<close> is on in the release
  profile, so plain arithmetic traps. \<open>Soroban\<close>: addresses, the environment of one invocation and
  the token contracts. Tokens are not in the repository, so they are a parameter, a record of a
  balance and a transfer function over any world; \<open>token_laws\<close> says that a transfer that succeeds
  moves exactly the amount. What a swap refunds is stated with the other outcome named,
  \<open>token_refuses\<close>: a transfer of tokens the sender holds that does not return the \<open>i128\<close> the contract
  asks for. Some results about escrows and about the trade engine assume a token that never does so,
  \<open>token_pays\<close>, or one with the standard interface, \<open>token_pays_void\<close>, whose transfer returns nothing.
  Witnesses instantiate them with a concrete ledger.

  Atomic swap (\<open>atomic-swap/src\<close>). \<open>Atomic_Swap\<close> holds \<open>types.rs\<close>, \<open>errors.rs\<close>, \<open>events.rs\<close>,
  \<open>storage.rs\<close> and the entry points of \<open>lib.rs\<close> under their own names; \<open>Atomic_Swap_Inv\<close>
  interprets the store, turns each successful call into its guards and update, and has the steps (any call by anyone, and token movements outside that take
  nothing from the contract) and one preservation lemma per entry point; \<open>Atomic_Swap_Props\<close> shows
  solvency, the exact exchange, the lifecycle as a refinement of an abstract machine, finality,
  idempotent creation, and that refunds are available.

  Escrow with disputes (\<open>escrow-dispute/src\<close>). \<open>Escrow_Dispute\<close>, \<open>Escrow_Dispute_Inv\<close> and \<open>Escrow_Dispute_Props\<close> in the same division: solvency, the agreement of
  escrow, dispute, evidence and votes, who a resolution pays and with whose votes, each of which is traced
  back to a call of a signer, the lifecycle,
  the automatic refund, and two ways around the procedure.

  Trade engine (\<open>trade-engine/src\<close>). \<open>Trade_Engine\<close> has the types, the order book
  (\<open>orderbook.rs\<close>), the pool manager (\<open>liquidity_pool.rs\<close>), the matching engine (\<open>matching.rs\<close>) and
  the entry points (\<open>lib.rs\<close>). The two arms of \<open>match_leg\<close> share one order loop, \<open>match_orders\<close>,
  since they differ only in the queue, the comparison with the limit and the direction of the two
  settlement transfers. \<open>Trade_Engine_Book\<close> proves the queue discipline once, in the locale
  \<open>price_priority\<close>, for bids and asks; the first part of \<open>Trade_Engine_Inv\<close>, and \<open>Trade_Engine_Fills\<close>, describe a
  run of the loop; \<open>Trade_Engine_Inv\<close> and \<open>Trade_Engine_Legs\<close> carry the invariant of orders and
  books through every call; \<open>Trade_Engine_Solvency\<close> adds the assets owed, for callers who name each
  pair in one orientation; \<open>Trade_Engine_Trades\<close> states the properties.

  Governance (\<open>governance/src\<close>). \<open>Governance\<close> has one field per storage key, the controller, the
  upgradeable proxy and \<open>initialize\<close> (here \<open>gov_initialize\<close>); \<open>Governance_Inv\<close> the invariant of the
  proposals; \<open>Governance_Props\<close> that execution is exactly by quorum and timelock and does what the
  action promises on the abstract configuration, that closed proposals are final, that the rules
  change by quorum only, and the two ways around it.

  Counter contract (\<open>counter\<close>). \<open>Counter_Base\<close> has the error type of \<open>src/errors.rs\<close> and the admin
  check of \<open>src/admin.rs\<close>. \<open>Pool_Registry\<close> models \<open>src/liquidity_pool.rs\<close>: the registry, deposits,
  withdrawals, swaps, fees, routes and the integer square root. \<open>Pool_Registry_Math\<close> has the
  arithmetic of shares and of the product curve, \<open>Pool_Registry_Inv\<close> the invariant (reserves back
  the LP tokens, balances add up to at most the supply, the pair index is one-to-one)
  and what each successful call does, \<open>Pool_Registry_Steps\<close> its preservation and
  the search for a route, and \<open>Pool_Registry_Props\<close> the properties: the value
  of an LP token never falls, deposits and withdrawals make no profit, swaps follow the curve, a
  route pays its quote and is the best of the candidates. \<open>Kyc\<close> models \<open>src/kyc.rs\<close>; \<open>Kyc_Inv\<close> its
  invariant and the calls; \<open>Kyc_Props\<close> that records follow the abstract lifecycle and that a final
  decision changes only by an override after its timelock. \<open>Counter_Entry\<close> puts the KYC store, the
  registry and the administration of \<open>src/lib.rs\<close> into one storage record with the guards of the
  entry points; \<open>Counter_Entry_Props\<close> shows that a paused contract freezes its pools and that the
  LP tokens of a provider only leave by a call the provider authorised. \<open>Tiers\<close> models \<open>tiers.rs\<close>,
  and \<open>Rate_Limit\<close> models \<open>src/rate_limit.rs\<close>; in \<open>Rate_Limit_Props\<close> the locale \<open>window_cache\<close> shows
  that a cached window is the window of the current time as long as ledger time does not go back,
  and is interpreted for the hourly and the daily cache.

  \<open>Farming\<close> (\<open>src/farming.rs\<close>), with \<open>Farming_Inv\<close>: the reward per staked
  token is an accumulator scaled by \<open>SCALE_FACTOR\<close>; \<open>Farming_Props\<close> shows that a farm never pays more
  than it emitted, what a claim pays, and that reading the pending rewards loses rewards. \<open>Staking\<close>
  (\<open>src/staking_bonus.rs\<close> and its entry points): \<open>Staking_Props\<close> shows that the books of stakes and
  bonuses balance and that the holding period can be left early. \<open>Oracle\<close> (\<open>src/oracle_adapter.rs\<close>,
  \<open>src/oracle.rs\<close> and the price helpers of \<open>trading.rs\<close>): \<open>Oracle_Props\<close> shows where a price lies, and
  that the circuit breaker never becomes active, since its write is discarded with the failed call.

  \<open>Portfolio\<close> models \<open>portfolio.rs\<close>, the record behind most entry points: balances, trade counts, the
  leaderboard, badges, the built-in pool and the statistics; \<open>Portfolio_Board\<close> its sort and its
  roots. \<open>Risk\<close> (\<open>src/risk_management\<close>) has the limits, the concentration check and the two circuit
  breakers, \<open>Referral\<close> (\<open>src/referral_system\<close>) who referred whom and the commissions, \<open>Orders\<close>
  (\<open>src/orders.rs\<close>) the limit order book; \<open>Orders_Props\<close> carries the order of its queues through every
  call and says exactly what a taker gets from whom. \<open>Trading\<close> puts these stores and the query caches into one record, \<open>market\<close>, and has the swap
  of \<open>trading.rs\<close>; \<open>Market\<close> has the entry points of \<open>src/lib.rs\<close> around it (the prefix \<open>cc_\<close>), the
  faucet and the migration, \<open>Batch\<close> the batches of \<open>batch.rs\<close>. \<open>Market_Inv\<close> turns
  them into one machine, with invariants for the caches, the leaderboard, the badges and the oracle
  configuration; \<open>Market_Props\<close> shows that cached queries are current, that batches are all or
  nothing, that badges are announced once, and that no swap ever fills.

  \<open>Gamification\<close> models \<open>gamification.rs\<close> and its entry points: profiles, badges, tiers, streaks,
  leaderboards, challenges and rewards; \<open>Gamification_Inv\<close> shows that inserting one entry keeps a
  leaderboard sorted and complete, and carries the invariant, \<open>Gamification_Props\<close> that the
  leaderboard is exact, that a reward is paid once, and two weaknesses of the challenges.
  \<open>Treasury\<close> models \<open>src/governance/treasury.rs\<close>, which no entry point uses yet: \<open>Treasury_Props\<close>
  shows that a withdrawal has its quorum, traced back to calls of signers, and stays within the spending limit, that the audit log
  reconstructs every balance, and three weaknesses of the log, the proposal ids and the thresholds.

  \<open>Gov_Params\<close> and \<open>Gov_System\<close> model the governance inside the counter contract: timelocked parameters,
  delegation, nonces and quadratic voting power with its floating-point rounding, then proposals, votes,
  signatures and execution (\<open>src/governance_params.rs\<close>, \<open>src/governance_system.rs\<close> and the small modules
  they use). \<open>Gov_System_Inv\<close> runs them as a machine with a clock, \<open>Gov_System_Props\<close> shows what a
  proposal needs before it takes effect and what it then changes, and four ways around the procedure.

  \<open>Audit_Chain\<close> has the hash and the byte strings that the audit logs of the treasury and of the
  emergency controls share, with the locale \<open>hash_chain\<close>. \<open>Emergency\<close> models
  \<open>src/governance/emergency.rs\<close>; \<open>Emergency_Props\<close> shows that a restriction always has an active action
  behind it, that the levels are graduated and need their approvals, and two ways around the approvals.
  \<open>Upgrade\<close> models \<open>src/governance/upgrade.rs\<close>; \<open>Upgrade_Props\<close> shows that an upgrade has its approvals
  and its timelock and that the history gives the version, and that an upgrade can go back. \<open>Gov_Rewards\<close>
  models \<open>src/governance/rewards.rs\<close>; \<open>Gov_Rewards_Props\<close> shows that its books balance, what a claim
  pays, and that one epoch is claimed more than once. None of the three modules is called by an entry point.

  \<open>Nft_Store\<close> models the records of \<open>src/nft_types.rs\<close> and the registries of \<open>src/nft_storage.rs\<close> over one
  storage record. \<open>Nft_Lending\<close> models \<open>src/nft_lending.rs\<close>: loans between accounts,
  lending pools, and liquidation by date, by price and by auction. What that module uses and the repository
  does not define is the parameter \<open>nft_ext\<close>. \<open>Nft_Lending_Inv\<close> runs every operation that changes state,
  the auctions and their queue included, and any change by the other modules, which write none of the
  registries of loans, pools and deposits; it carries the index of pledged tokens and the counters of a pool
  through every step, up to the first loan an auction writes down. \<open>Nft_Lending_Props\<close> states these, what
  a loan needs, the interest rate, and the weaknesses of the repayments. Its runs take the translation of
  pool numbers to addresses as on the ledger, where a decimal number is no address and no pool lends; a
  second, hypothetical translation serves the results about loans of pools. \<open>Nft_Fractional\<close> models
  \<open>src/nft_fractional.rs\<close>: shares of a token (\<open>Nft_Fractional_Props\<close>: the list of shareholders is exact,
  a transfer moves what it says) and vaults (the supply is held by the shareholders, converting is exact, gains nothing there and
  back, and traps from \<open>2 ^ 128\<close> on).

  Every definition computes. Recursion is structural, on the legs of a trade, the ids of a queue or
  the calls of a run, except the square roots: the loops of the pool registry and of \<open>portfolio.rs\<close>
  decrease their estimate and are proved to end with the root; the loop of \<open>add_liquidity\<close> is bounded
  by 100 steps in the source, which is the fuel of \<open>sqrt_steps\<close>. Lengths of host vectors and counts bounded
  by them do not overflow. Events are kept as a log in the storage of each contract or module. Keys
  of the host's storage become fields of a record, with \<open>None\<close> for a key that was not written; the
  expiry of storage entries and resource limits of the host are not modelled.

  Not modelled: the access control crate, which no manifest of the workspace builds; the dynamic fees, the
  emergency override and the alerts of the counter contract, which no modelled part depends on; the NFT
  marketplace, whose listings and offers have fields that their types lack; code that does not type check as
  committed (\<open>create_order\<close> in \<open>orders.rs\<close>, the tax lots of \<open>portfolio.rs\<close>); the bridge sketch in \<open>src/src\<close>
  and the off-chain market data service.
\<close>

end
